(* ===== verification/Prelude.thy ===== *)
theory Prelude
  imports Main "HOL-Library.Word"
begin

text \<open>
  What every component shares: Go's failure modes as values, the loop combinators the
  translations use, checked slice access, and the big-endian and little-endian byte forms
  of non-negative integers that \<open>math/big\<close> provides (\<open>Int.Bytes\<close>, \<open>Int.SetBytes\<close>).

  A Go function that may panic or return an error is a function into \<open>'a res\<close>: \<open>Inr\<close> is a
  normal return, \<open>Inl (Panic _)\<close> a run-time panic, \<open>Inl (Err _)\<close> a returned error and
  \<open>Inl Diverge\<close> a recursion that used up the fuel it was given.
\<close>

named_theorems zp_simps "evaluation of field operations on elements of one field"
named_theorems wire "round trips of the wire format"

section \<open>Failures\<close>

datatype panic = PField | PNil | PIndex | PDivZero | PMsg string

datatype goerr =
    ErrInterpolate | ErrLowMBar | ErrPowModSmallN | ErrMatrixTooNarrow
  | ErrSamplePointElement | ErrNodeNotFound | ErrReconDone | ErrReconRqstPolyNotFound
  | ErrDuplicate | ErrElementNotFound | ErrDbNotFound
  | ErrEOF | ErrUnexpectedEOF | ErrReadLimit int | ErrMsg string

datatype fault = Panic panic | Err goerr | Diverge

type_synonym 'a res = "fault + 'a"

definition rbind :: "'a res \<Rightarrow> ('a \<Rightarrow> 'b res) \<Rightarrow> 'b res" where
  "rbind m f = (case m of Inl e \<Rightarrow> Inl e | Inr x \<Rightarrow> f x)"

lemma rbind_simps [simp]:
  "rbind (Inl e) f = Inl e"
  "rbind (Inr x) f = f x"
  by (simp_all add: rbind_def)

lemma rbind_Inr_iff: "rbind m f = Inr y \<longleftrightarrow> (\<exists>x. m = Inr x \<and> f x = Inr y)"
  by (cases m) auto

lemma rbind_InrE:
  assumes "rbind m f = Inr y"
  obtains x where "m = Inr x" "f x = Inr y"
  using assms by (auto simp: rbind_Inr_iff)

lemma rbind_cong [fundef_cong]:
  "m = m' \<Longrightarrow> (\<And>x. m' = Inr x \<Longrightarrow> f x = f' x) \<Longrightarrow> rbind m f = rbind m' f'"
  by (cases m') auto

lemma rbind_assoc: "rbind (rbind m f) g = rbind m (\<lambda>x. rbind (f x) g)"
  by (cases m) auto

section \<open>Loops and slices\<close>

text \<open>
  \<open>rfold\<close> is \<open>for _, x := range xs\<close> over an explicit loop state, \<open>rmap\<close> a loop that fills
  a fresh slice. Both stop at the first failure.
\<close>

fun rfold :: "('a \<Rightarrow> 's \<Rightarrow> 's res) \<Rightarrow> 'a list \<Rightarrow> 's \<Rightarrow> 's res" where
  "rfold f [] s = Inr s"
| "rfold f (x # xs) s = rbind (f x s) (rfold f xs)"

fun rmap :: "('a \<Rightarrow> 'b res) \<Rightarrow> 'a list \<Rightarrow> 'b list res" where
  "rmap f [] = Inr []"
| "rmap f (x # xs) = rbind (f x) (\<lambda>y. rbind (rmap f xs) (\<lambda>ys. Inr (y # ys)))"

lemma rfold_cong [fundef_cong]:
  "xs = ys \<Longrightarrow> s = t \<Longrightarrow> (\<And>x s. x \<in> set ys \<Longrightarrow> f x s = g x s) \<Longrightarrow> rfold f xs s = rfold g ys t"
proof (induction xs arbitrary: ys s t)
  case Nil
  then show ?case by simp
next
  case (Cons x xs)
  have "rfold f xs u = rfold g xs u" for u
    by (rule Cons.IH) (use Cons.prems in auto)
  then have "rfold f xs = rfold g xs" by (rule ext)
  with Cons.prems show ?case by (cases ys) auto
qed

lemma rmap_cong [fundef_cong]:
  "xs = ys \<Longrightarrow> (\<And>x. x \<in> set ys \<Longrightarrow> f x = g x) \<Longrightarrow> rmap f xs = rmap g ys"
  by (induction xs arbitrary: ys) auto

lemma rfold_append: "rfold f (xs @ ys) s = rbind (rfold f xs s) (rfold f ys)"
proof (induction xs arbitrary: s)
  case (Cons x xs)
  then have "rfold f (xs @ ys) = (\<lambda>s. rbind (rfold f xs s) (rfold f ys))" by (rule ext)
  then show ?case by (simp add: rbind_assoc)
qed simp

text \<open>The total-correctness rule for loops: an invariant indexed by the iterations done.\<close>

lemma rfold_inv:
  assumes "P 0 s"
    and "\<And>i s. i < length xs \<Longrightarrow> P i s \<Longrightarrow> \<exists>s'. f (xs ! i) s = Inr s' \<and> P (Suc i) s'"
  shows "\<exists>s'. rfold f xs s = Inr s' \<and> P (length xs) s'"
  using assms
proof (induction xs arbitrary: P s)
  case Nil
  then show ?case by simp
next
  case (Cons x xs)
  from Cons.prems(2)[of 0 s] Cons.prems(1) obtain s1 where s1: "f x s = Inr s1" "P (Suc 0) s1"
    by auto
  have "\<exists>s'. rfold f xs s1 = Inr s' \<and> P (Suc (length xs)) s'"
  proof (rule Cons.IH[of "\<lambda>i. P (Suc i)"])
    show "P (Suc 0) s1" by (rule s1(2))
    fix i s
    assume "i < length xs" "P (Suc i) s"
    then show "\<exists>s'. f (xs ! i) s = Inr s' \<and> P (Suc (Suc i)) s'"
      using Cons.prems(2)[of "Suc i" s] by simp
  qed
  with s1 show ?case by simp
qed

text \<open>The same with an invariant that does not depend on the index.\<close>

lemma rfold_inv_set:
  assumes "P s" "\<And>x s. x \<in> set xs \<Longrightarrow> P s \<Longrightarrow> \<exists>s'. f x s = Inr s' \<and> P s'"
  shows "\<exists>s'. rfold f xs s = Inr s' \<and> P s'"
  using rfold_inv[of "\<lambda>_. P" s xs f] assms by simp

text \<open>Partial correctness: what holds at the start and is kept holds of the result, if any.\<close>

lemma rfold_invI:
  assumes "rfold f xs s = Inr t" "P s"
    and "\<And>x s s'. x \<in> set xs \<Longrightarrow> P s \<Longrightarrow> f x s = Inr s' \<Longrightarrow> P s'"
  shows "P t"
  using assms by (induction xs arbitrary: s) (auto elim!: rbind_InrE)

lemma rmap_pure: "(\<And>x. x \<in> set xs \<Longrightarrow> f x = Inr (g x)) \<Longrightarrow> rmap f xs = Inr (map g xs)"
  by (induction xs) auto

lemma rmap_length: "rmap f xs = Inr ys \<Longrightarrow> length ys = length xs"
  by (induction xs arbitrary: ys) (auto elim!: rbind_InrE)

lemma rfold_pure: "(\<And>x s. x \<in> set xs \<Longrightarrow> f x s = Inr (g x s)) \<Longrightarrow> rfold f xs s = Inr (fold g xs s)"
  by (induction xs arbitrary: s) auto

definition nth_res :: "'a list \<Rightarrow> nat \<Rightarrow> 'a res" where
  "nth_res xs i = (if i < length xs then Inr (xs ! i) else Inl (Panic PIndex))"

definition upd_res :: "'a list \<Rightarrow> nat \<Rightarrow> 'a \<Rightarrow> 'a list res" where
  "upd_res xs i v = (if i < length xs then Inr (xs[i := v]) else Inl (Panic PIndex))"

lemma nth_res_in [simp]: "i < length xs \<Longrightarrow> nth_res xs i = Inr (xs ! i)"
  by (simp add: nth_res_def)

lemma upd_res_in [simp]: "i < length xs \<Longrightarrow> upd_res xs i v = Inr (xs[i := v])"
  by (simp add: upd_res_def)

section \<open>Bytes of a non-negative integer\<close>

type_synonym byte = "8 word"

fun le_bytes :: "nat \<Rightarrow> byte list" where
  "le_bytes n = (if n = 0 then [] else of_nat n # le_bytes (n div 256))"

declare le_bytes.simps [simp del]

fun le_value :: "byte list \<Rightarrow> nat" where
  "le_value [] = 0"
| "le_value (b # bs) = unat b + 256 * le_value bs"

text \<open>\<open>big.Int.Bytes\<close>: the absolute value, big-endian, without leading zero bytes.\<close>

definition big_Bytes :: "int \<Rightarrow> byte list" where
  "big_Bytes i = rev (le_bytes (nat \<bar>i\<bar>))"

text \<open>\<open>big.Int.SetBytes\<close>: a big-endian byte slice read as a non-negative integer.\<close>

definition big_SetBytes :: "byte list \<Rightarrow> int" where
  "big_SetBytes bs = int (le_value (rev bs))"

lemma le_bytes_0 [simp]: "le_bytes 0 = []"
  by (simp add: le_bytes.simps)

lemma le_bytes_pos: "0 < n \<Longrightarrow> le_bytes n = of_nat n # le_bytes (n div 256)"
  by (subst le_bytes.simps) simp

lemma unat_of_nat_byte: "unat (of_nat n :: byte) = n mod 256"
  by (simp add: unat_of_nat)

lemma le_value_le_bytes [simp]: "le_value (le_bytes n) = n"
proof (induction n rule: le_bytes.induct)
  case (1 n)
  show ?case
  proof (cases "n = 0")
    case False
    with 1 show ?thesis by (simp add: le_bytes_pos unat_of_nat_byte)
  qed simp
qed

lemma le_value_bound: "le_value bs < 256 ^ length bs"
proof (induction bs)
  case (Cons b bs)
  have "unat b < 256" using unsigned_less[of b] by simp
  then have "unat b + 256 * le_value bs < 256 * (1 + le_value bs)" by simp
  also have "\<dots> \<le> 256 * 256 ^ length bs" using Cons by (intro mult_le_mono2) simp
  finally show ?case by simp
qed simp

lemma le_bytes_length_le: "n < 256 ^ k \<Longrightarrow> length (le_bytes n) \<le> k"
proof (induction k arbitrary: n)
  case (Suc k)
  show ?case
  proof (cases "n = 0")
    case False
    have "n div 256 < 256 ^ k" using Suc.prems by (simp add: less_mult_imp_div_less mult.commute)
    with Suc.IH[of "n div 256"] False show ?thesis by (simp add: le_bytes_pos)
  qed simp
qed simp

lemma le_value_append: "le_value (xs @ ys) = le_value xs + 256 ^ length xs * le_value ys"
  by (induction xs) (auto simp: algebra_simps)

lemma le_value_zeros [simp]: "le_value (replicate k 0) = 0"
  by (induction k) auto

lemma le_bytes_inj: "le_bytes m = le_bytes n \<Longrightarrow> m = n"
  by (metis le_value_le_bytes)

lemma big_roundtrip [simp]: "big_SetBytes (big_Bytes i) = \<bar>i\<bar>"
  by (simp add: big_SetBytes_def big_Bytes_def)

text \<open>\<open>big.Int.BitLen\<close>: the length of the absolute value in bits.\<close>

fun bit_length :: "nat \<Rightarrow> nat" where
  "bit_length n = (if n = 0 then 0 else Suc (bit_length (n div 2)))"

declare bit_length.simps [simp del]

lemma bit_length_0 [simp]: "bit_length 0 = 0"
  by (simp add: bit_length.simps)

lemma bit_length_pos: "0 < n \<Longrightarrow> bit_length n = Suc (bit_length (n div 2))"
  by (subst bit_length.simps) simp

lemma bit_length_bounds: "0 < n \<Longrightarrow> 2 ^ (bit_length n - 1) \<le> n \<and> n < 2 ^ bit_length n"
proof (induction n rule: bit_length.induct)
  case (1 n)
  show ?case
  proof (cases "n div 2 = 0")
    case True
    with 1(2) have "n = 1" by simp
    then show ?thesis by (simp add: bit_length_pos)
  next
    case False
    then have IH: "2 ^ (bit_length (n div 2) - 1) \<le> n div 2" "n div 2 < 2 ^ bit_length (n div 2)"
      using 1 by auto
    obtain k where k: "bit_length (n div 2) = Suc k"
      using False by (simp add: bit_length_pos)
    have "2 ^ Suc k \<le> n" using IH(1) k by simp
    moreover have "n < 2 ^ Suc (Suc k)" using IH(2) k by simp
    ultimately show ?thesis using 1(2) k by (simp add: bit_length_pos)
  qed
qed

definition big_BitLen :: "int \<Rightarrow> nat" where
  "big_BitLen i = bit_length (nat \<bar>i\<bar>)"

end
