(* ===== verification/Zp.thy ===== *)
theory Zp
  imports Prelude
begin

text \<open>
  The finite field Z(p) of \<open>conflux/zp.go\<close>: a \<open>Zp\<close> is an integer with a pointer to its
  modulus, and every binary operation panics when the moduli differ. The receiver of Go's
  setter-style methods (\<open>zp.Add(x, y)\<close>) is overwritten completely, so each operation is a
  function of its operands; \<open>Exp\<close> and \<open>Inv\<close>, which may leave the receiver as it was, take it
  as an argument. The operations of \<open>math/big\<close> that the code uses are written out.
\<close>

section \<open>Integers of \<open>math/big\<close>\<close>

definition go_Mod :: "int \<Rightarrow> int \<Rightarrow> int res" where
  "go_Mod x m = (if m = 0 then Inl (Panic PDivZero) else Inr (x mod \<bar>m\<bar>))"

function egcd :: "int \<Rightarrow> int \<Rightarrow> int \<times> int \<times> int" where
  "egcd a b = (if b \<le> 0 then (a, 1, 0)
     else (case egcd b (a mod b) of (d, x, y) \<Rightarrow> (d, y, x - (a div b) * y)))"
  by pat_completeness auto
termination
  by (relation "measure (\<lambda>(a, b). nat b)") auto

declare egcd.simps [simp del]

lemma egcd_correct:
  "0 \<le> a \<Longrightarrow> 0 \<le> b \<Longrightarrow> egcd a b = (d, x, y) \<Longrightarrow> d = gcd a b \<and> a * x + b * y = d"
proof (induction a b arbitrary: d x y rule: egcd.induct)
  case (1 a b)
  show ?case
  proof (cases "b \<le> 0")
    case True
    with 1 have "b = 0" by simp
    moreover have "egcd a 0 = (a, 1, 0)" by (simp add: egcd.simps[of a 0])
    ultimately show ?thesis using 1 by simp
  next
    case False
    obtain d' x' y' where e: "egcd b (a mod b) = (d', x', y')" by (cases "egcd b (a mod b)")
    with 1(1)[OF False _ _ e] 1(2,3) False
    have IH: "d' = gcd b (a mod b)" "b * x' + (a mod b) * y' = d'" by auto
    from 1(4) False e have r: "d = d'" "x = y'" "y = x' - (a div b) * y'"
      by (auto simp: egcd.simps[of a b])
    have "a * x + b * y = b * x' + (a - b * (a div b)) * y'"
      unfolding r(2,3) by (simp add: algebra_simps)
    also have "\<dots> = d'" using IH(2) by (simp add: minus_mult_div_eq_mod)
    finally have "a * x + b * y = d" using r by simp
    moreover have "d = gcd a b" using r(1) IH(1) by (simp add: gcd_red_int[of a b])
    ultimately show ?thesis by simp
  qed
qed

text \<open>
  \<open>big.Int.ModInverse(g, n)\<close>: the inverse of \<open>g\<close> in the ring of integers modulo \<open>n\<close>, in the
  range from 0 to \<open>n - 1\<close>, or nil (\<open>None\<close>) when \<open>g\<close> and \<open>n\<close> are not relatively prime.
\<close>

definition go_ModInverse :: "int \<Rightarrow> int \<Rightarrow> int option" where
  "go_ModInverse g n =
     (let n' = \<bar>n\<bar>; g' = (if g < 0 then g mod n' else g)
      in case egcd g' n' of (d, x, y) \<Rightarrow> if d = 1 then Some (x mod n') else None)"

lemma go_ModInverse_Some:
  assumes "0 < n" "0 \<le> g" "coprime g n"
  shows "\<exists>v. go_ModInverse g n = Some v \<and> 0 \<le> v \<and> v < n \<and> (g * v) mod n = 1 mod n"
proof -
  obtain d x y where e: "egcd g n = (d, x, y)" by (cases "egcd g n")
  from egcd_correct[OF assms(2) _ e] assms have d: "d = 1" "g * x + n * y = 1" by auto
  have "(g * (x mod n)) mod n = (g * x) mod n" by (simp add: mod_mult_right_eq)
  also have "\<dots> = (g * x + n * y) mod n" by simp
  finally show ?thesis using e d assms by (auto simp: go_ModInverse_def)
qed

lemma go_ModInverse_None:
  assumes "0 < n" "0 \<le> g" "\<not> coprime g n"
  shows "go_ModInverse g n = None"
proof -
  obtain d x y where e: "egcd g n = (d, x, y)" by (cases "egcd g n")
  from egcd_correct[OF assms(2) _ e] assms have "d \<noteq> 1"
    by (auto simp: coprime_iff_gcd_eq_1)
  with e assms show ?thesis by (simp add: go_ModInverse_def)
qed

text \<open>\<open>big.Int.Exp(x, y, m)\<close>, where a nil modulus counts as 0; \<open>z\<close> is the receiver's old value.\<close>

definition go_Exp :: "int \<Rightarrow> int \<Rightarrow> int \<Rightarrow> int \<Rightarrow> int" where
  "go_Exp z x y m =
     (if m = 0 then (if y \<le> 0 then 1 else x ^ nat y)
      else if 0 \<le> y then x ^ nat y mod \<bar>m\<bar>
      else (case go_ModInverse x m of None \<Rightarrow> z | Some v \<Rightarrow> v ^ nat (- y) mod \<bar>m\<bar>))"

section \<open>Elements\<close>

record zp =
  zp_i :: int
  zp_p :: "int option"

definition P_128 :: int where
  "P_128 = big_SetBytes [0x1, 0x11, 0xd, 0xb2, 0x97, 0xcd, 0x30, 0x8d,
     0x90, 0xe5, 0x3f, 0xb8, 0xa1, 0x30, 0x90, 0x97, 0xe9]"

definition P_160 :: int where
  "P_160 = big_SetBytes [0x1, 0xfe, 0x90, 0xe7, 0xb4, 0x19, 0x88, 0xa6,
     0x41, 0xb1, 0xa6, 0xfe, 0xc8, 0x7d, 0x89, 0xa3, 0x1e, 0x2a, 0x61, 0x31, 0xf5]"

definition P_SKS :: int where
  "P_SKS = 530512889551602322505127520352579437339"

definition zp_Z :: "int option \<Rightarrow> zp" where
  "zp_Z p = \<lparr>zp_i = 0, zp_p = p\<rparr>"

definition Zzp :: "zp \<Rightarrow> zp" where
  "Zzp z = \<lparr>zp_i = zp_i z, zp_p = zp_p z\<rparr>"

definition zp_Norm :: "zp \<Rightarrow> zp res" where
  "zp_Norm z = (case zp_p z of None \<Rightarrow> Inl (Panic PNil)
     | Some p \<Rightarrow> rbind (go_Mod (zp_i z) p) (\<lambda>v. Inr (z\<lparr>zp_i := v\<rparr>)))"

definition Zi :: "int option \<Rightarrow> int \<Rightarrow> zp res" where
  "Zi p n = zp_Norm \<lparr>zp_i = n, zp_p = p\<rparr>"

definition reversed :: "'a list \<Rightarrow> 'a list" where
  "reversed b = map (\<lambda>i. b ! (length b - i - 1)) [0..<length b]"

definition zp_Bytes :: "zp \<Rightarrow> byte list" where
  "zp_Bytes z = reversed (big_Bytes (zp_i z))"

definition zp_Set :: "zp \<Rightarrow> zp" where
  "zp_Set x = \<lparr>zp_i = zp_i x, zp_p = zp_p x\<rparr>"

definition zp_SetBytes :: "zp \<Rightarrow> byte list \<Rightarrow> zp res" where
  "zp_SetBytes z b = zp_Norm (z\<lparr>zp_i := big_SetBytes (reversed b)\<rparr>)"

definition Zb :: "int option \<Rightarrow> byte list \<Rightarrow> zp res" where
  "Zb p b = rbind (Zi p 0) (\<lambda>z. zp_SetBytes z b)"

definition Zarray :: "nat \<Rightarrow> zp \<Rightarrow> zp list" where
  "Zarray n v = map (\<lambda>_. zp_Set v) [0..<n]"

definition zp_Copy :: "zp \<Rightarrow> zp" where
  "zp_Copy z = Zzp z"

text \<open>
  \<open>zp.assertP(p)\<close> compares two \<open>*big.Int\<close>: equal pointers (two nils) compare equal, one nil
  is dereferenced and panics, different values panic with the field error.
\<close>

definition zp_assertP :: "int option \<Rightarrow> int option \<Rightarrow> unit res" where
  "zp_assertP q p = (case (q, p) of
       (Some a, Some b) \<Rightarrow> if a = b then Inr () else Inl (Panic PField)
     | (None, None) \<Rightarrow> Inr ()
     | _ \<Rightarrow> Inl (Panic PNil))"

definition zp_Cmp :: "zp \<Rightarrow> zp \<Rightarrow> int res" where
  "zp_Cmp z x = rbind (zp_assertP (zp_p z) (zp_p x)) (\<lambda>_. Inr (sgn (zp_i z - zp_i x)))"

definition zp_IsZero :: "zp \<Rightarrow> bool" where
  "zp_IsZero z \<longleftrightarrow> zp_i z = 0"

definition zp_Add :: "zp \<Rightarrow> zp \<Rightarrow> zp res" where
  "zp_Add x y = rbind (zp_assertP (zp_p x) (zp_p y))
     (\<lambda>_. zp_Norm \<lparr>zp_i = zp_i x + zp_i y, zp_p = zp_p x\<rparr>)"

definition zp_Sub :: "zp \<Rightarrow> zp \<Rightarrow> zp res" where
  "zp_Sub x y = rbind (zp_assertP (zp_p x) (zp_p y))
     (\<lambda>_. zp_Norm \<lparr>zp_i = zp_i x - zp_i y, zp_p = zp_p x\<rparr>)"

definition zp_Mul :: "zp \<Rightarrow> zp \<Rightarrow> zp res" where
  "zp_Mul x y = rbind (zp_assertP (zp_p x) (zp_p y))
     (\<lambda>_. zp_Norm \<lparr>zp_i = zp_i x * zp_i y, zp_p = zp_p x\<rparr>)"

text \<open>\<open>Inv\<close> leaves the receiver unchanged where \<open>ModInverse\<close> fails (notably at 0).\<close>

definition zp_Inv :: "zp \<Rightarrow> zp res" where
  "zp_Inv z = (case zp_p z of None \<Rightarrow> Inl (Panic PNil)
     | Some p \<Rightarrow> Inr (case go_ModInverse (zp_i z) p of None \<Rightarrow> z | Some v \<Rightarrow> z\<lparr>zp_i := v\<rparr>))"

definition zp_Exp :: "zp \<Rightarrow> zp \<Rightarrow> zp \<Rightarrow> zp res" where
  "zp_Exp z x y = rbind (zp_assertP (zp_p x) (zp_p y))
     (\<lambda>_. Inr \<lparr>zp_i = go_Exp (zp_i z) (zp_i x) (zp_i y) (case zp_p x of None \<Rightarrow> 0 | Some p \<Rightarrow> p), zp_p = zp_p x\<rparr>)"

definition zp_Div :: "zp \<Rightarrow> zp \<Rightarrow> zp res" where
  "zp_Div x y = rbind (zp_Inv (zp_Copy y)) (\<lambda>v. zp_Mul x v)"

definition zp_Neg :: "zp \<Rightarrow> zp res" where
  "zp_Neg z = (case zp_p z of None \<Rightarrow> Inl (Panic PNil)
     | Some p \<Rightarrow> zp_Norm (z\<lparr>zp_i := p - zp_i z\<rparr>))"

definition zp_In :: "zp \<Rightarrow> int option \<Rightarrow> zp res" where
  "zp_In z p = (if zp_p z = None then Inr (z\<lparr>zp_p := p\<rparr>)
     else rbind (zp_assertP (zp_p z) p) (\<lambda>_. Inr z))"

text \<open>
  \<open>randint(high)\<close> reads \<open>nbytes\<close> random bytes; the bytes are an argument here, as the only
  use of \<open>crypto/rand\<close>. \<open>Zrand\<close> reduces them into the field.
\<close>

definition randint_nbytes :: "int \<Rightarrow> nat" where
  "randint_nbytes high = (let nbits = big_BitLen high
     in if nbits mod 8 \<noteq> 0 then Suc (nbits div 8) else nbits div 8)"

definition randint :: "int \<Rightarrow> byte list \<Rightarrow> int res" where
  "randint high rstring = go_Mod (big_SetBytes rstring) high"

definition Zrand :: "int \<Rightarrow> byte list \<Rightarrow> zp res" where
  "Zrand p rstring = rbind (randint p rstring) (\<lambda>v. Inr \<lparr>zp_i = v, zp_p = Some p\<rparr>)"

section \<open>The field laws\<close>

text \<open>\<open>felem p x\<close>: a normalised element of Z(p); \<open>zmk p a\<close>: the element that \<open>a\<close> stands for.\<close>

definition felem :: "int \<Rightarrow> zp \<Rightarrow> bool" where
  "felem p x \<longleftrightarrow> zp_p x = Some p \<and> 0 \<le> zp_i x \<and> zp_i x < p"

definition zmk :: "int \<Rightarrow> int \<Rightarrow> zp" where
  "zmk p a = \<lparr>zp_i = a mod p, zp_p = Some p\<rparr>"

definition field_prime :: "int \<Rightarrow> bool" where
  "field_prime p \<longleftrightarrow> 1 < p \<and> (\<forall>a. 0 < a \<and> a < p \<longrightarrow> coprime a p)"

lemma zmk_sel [simp]: "zp_i (zmk p a) = a mod p" "zp_p (zmk p a) = Some p"
  by (simp_all add: zmk_def)

lemma felem_pos: "felem p x \<Longrightarrow> 0 < p"
  by (auto simp: felem_def)

lemma felem_zmk [simp]: "0 < p \<Longrightarrow> felem p (zmk p a)"
  by (simp add: felem_def)

lemma felem_eq_zmk: "felem p x \<Longrightarrow> zmk p (zp_i x) = x"
  by (cases x) (auto simp: felem_def zmk_def)

lemma felem_eqI: "felem p x \<Longrightarrow> felem p y \<Longrightarrow> zp_i x = zp_i y \<Longrightarrow> x = y"
  by (metis felem_eq_zmk)

lemma zmk_eq_iff: "zmk p a = zmk p b \<longleftrightarrow> a mod p = b mod p"
  by (simp add: zmk_def)

lemma felem_p: "felem p x \<Longrightarrow> zp_p x = Some p"
  by (simp add: felem_def)

lemma zp_assertP_same [simp]: "zp_assertP (Some p) (Some p) = Inr ()"
  by (simp add: zp_assertP_def)

lemma zp_Norm_mk [zp_simps]: "0 < p \<Longrightarrow> zp_Norm \<lparr>zp_i = a, zp_p = Some p\<rparr> = Inr (zmk p a)"
  by (simp add: zp_Norm_def go_Mod_def zmk_def)

lemma zp_Norm_upd [zp_simps]: "0 < p \<Longrightarrow> zp_p z = Some p \<Longrightarrow> zp_Norm (z\<lparr>zp_i := a\<rparr>) = Inr (zmk p a)"
  by (cases z) (simp add: zp_Norm_def go_Mod_def zmk_def)

lemma zp_Norm_felem [zp_simps]: "felem p z \<Longrightarrow> zp_Norm z = Inr z"
  by (cases z) (auto simp: zp_Norm_def go_Mod_def felem_def)

lemma Zi_mk [zp_simps]: "0 < p \<Longrightarrow> Zi (Some p) n = Inr (zmk p n)"
  by (simp add: Zi_def zp_simps)

lemma zp_Set_id [simp]: "zp_Set x = x" and zp_Copy_id [simp]: "zp_Copy x = x"
  by (simp_all add: zp_Set_def zp_Copy_def Zzp_def)

lemma zp_Z_mk [zp_simps]: "zp_Z (Some p) = zmk p 0"
  by (simp add: zp_Z_def zmk_def)

lemma zp_Add_ok [zp_simps]: "felem p x \<Longrightarrow> felem p y \<Longrightarrow> zp_Add x y = Inr (zmk p (zp_i x + zp_i y))"
  using felem_pos[of p x] felem_p[of p x] felem_p[of p y] by (simp add: zp_Add_def zp_simps)

lemma zp_Sub_ok [zp_simps]: "felem p x \<Longrightarrow> felem p y \<Longrightarrow> zp_Sub x y = Inr (zmk p (zp_i x - zp_i y))"
  using felem_pos[of p x] felem_p[of p x] felem_p[of p y] by (simp add: zp_Sub_def zp_simps)

lemma zp_Mul_ok [zp_simps]: "felem p x \<Longrightarrow> felem p y \<Longrightarrow> zp_Mul x y = Inr (zmk p (zp_i x * zp_i y))"
  using felem_pos[of p x] felem_p[of p x] felem_p[of p y] by (simp add: zp_Mul_def zp_simps)

lemma zp_Neg_ok [zp_simps]: "felem p x \<Longrightarrow> zp_Neg x = Inr (zmk p (- zp_i x))"
proof -
  assume a: "felem p x"
  then have "zp_Neg x = Inr (zmk p (p - zp_i x))"
    using felem_pos[OF a] felem_p[OF a] by (simp add: zp_Neg_def zp_simps)
  also have "zmk p (p - zp_i x) = zmk p (- zp_i x)" by (simp add: zmk_eq_iff minus_mod_self1)
  finally show ?thesis .
qed

lemma zp_Cmp_ok [zp_simps]: "felem p x \<Longrightarrow> felem p y \<Longrightarrow> zp_Cmp x y = Inr (sgn (zp_i x - zp_i y))"
  using felem_p[of p x] felem_p[of p y] by (simp add: zp_Cmp_def)

lemma zp_Cmp_eq_0: "felem p x \<Longrightarrow> felem p y \<Longrightarrow> zp_Cmp x y = Inr 0 \<longleftrightarrow> x = y"
  by (auto simp: zp_Cmp_ok sgn_if intro: felem_eqI)

lemma zp_Exp_ok [zp_simps]:
  assumes "felem p x" "felem p y"
  shows "zp_Exp z x y = Inr (zmk p (zp_i x ^ nat (zp_i y)))"
proof -
  have "0 < p" "0 \<le> zp_i y" using assms by (auto simp: felem_def)
  then have "go_Exp (zp_i z) (zp_i x) (zp_i y) p = zp_i x ^ nat (zp_i y) mod p"
    by (simp add: go_Exp_def)
  with felem_p[OF assms(1)] felem_p[OF assms(2)] show ?thesis
    by (simp add: zp_Exp_def zmk_def)
qed

text \<open>The inverse the field promises, as an integer.\<close>

definition finv :: "int \<Rightarrow> int \<Rightarrow> int" where
  "finv p a = (case go_ModInverse (a mod p) p of None \<Rightarrow> a mod p | Some v \<Rightarrow> v)"

lemma zp_Inv_ok [zp_simps]: "felem p x \<Longrightarrow> zp_Inv x = Inr (zmk p (finv p (zp_i x)))"
proof -
  assume x: "felem p x"
  then have r: "0 \<le> zp_i x" "zp_i x < p" by (auto simp: felem_def)
  have p: "0 < p" using x by (rule felem_pos)
  obtain i where xi: "x = \<lparr>zp_i = i, zp_p = Some p\<rparr>" "0 \<le> i" "i < p"
    using x by (cases x) (auto simp: felem_def)
  show ?thesis
  proof (cases "coprime i p")
    case True
    with go_ModInverse_Some[OF p xi(2)] obtain v where
      v: "go_ModInverse i p = Some v" "0 \<le> v" "v < p" by auto
    with xi show ?thesis by (simp add: zp_Inv_def finv_def zmk_def)
  next
    case False
    with xi p show ?thesis by (simp add: zp_Inv_def finv_def zmk_def go_ModInverse_None)
  qed
qed

lemma finv_correct:
  assumes "0 < p" "coprime a p"
  shows "(a * finv p a) mod p = 1 mod p"
proof -
  have "coprime (a mod p) p" using assms by (simp add: coprime_mod_left_iff)
  from go_ModInverse_Some[OF assms(1) _ this] assms(1) obtain v where
    v: "go_ModInverse (a mod p) p = Some v" "((a mod p) * v) mod p = 1 mod p" by auto
  then show ?thesis by (simp add: finv_def mod_mult_left_eq)
qed

lemma finv_range:
  assumes "0 < p" shows "0 \<le> finv p a" "finv p a < p"
proof -
  have "0 \<le> finv p a \<and> finv p a < p"
  proof (cases "coprime (a mod p) p")
    case True
    with go_ModInverse_Some[OF assms, of "a mod p"] assms show ?thesis
      by (auto simp: finv_def)
  next
    case False
    with go_ModInverse_None[OF assms, of "a mod p"] assms show ?thesis by (simp add: finv_def)
  qed
  then show "0 \<le> finv p a" "finv p a < p" by auto
qed

lemma finv_mod [simp]: "finv p (a mod p) = finv p a"
  by (simp only: finv_def mod_mod_trivial)

lemma field_prime_gt: "field_prime p \<Longrightarrow> 1 < p"
  by (simp add: field_prime_def)

lemma field_prime_coprime: "field_prime p \<Longrightarrow> a mod p \<noteq> 0 \<Longrightarrow> coprime a p"
proof -
  assume p: "field_prime p" and a: "a mod p \<noteq> 0"
  then have "0 < a mod p" "a mod p < p"
    using pos_mod_sign[of p a] pos_mod_bound[of p a] field_prime_gt[OF p] by linarith+
  with p have "coprime (a mod p) p" by (simp add: field_prime_def)
  then show ?thesis using field_prime_gt[OF p] by (simp add: coprime_mod_left_iff)
qed

lemma field_prime_mult_zero:
  "field_prime p \<Longrightarrow> (a * b) mod p = 0 \<longleftrightarrow> a mod p = 0 \<or> b mod p = 0"
proof -
  assume p: "field_prime p"
  have "p dvd b" if "p dvd a * b" "\<not> p dvd a"
    using that field_prime_coprime[OF p, of a]
    by (metis coprime_commute coprime_dvd_mult_right_iff dvd_eq_mod_eq_0)
  then show ?thesis by (auto simp: dvd_eq_mod_eq_0[symmetric])
qed

lemma zp_Div_ok [zp_simps]: "felem p x \<Longrightarrow> felem p y \<Longrightarrow> zp_Div x y = Inr (zmk p (zp_i x * finv p (zp_i y)))"
  using felem_pos[of p x] by (simp add: zp_Div_def zp_simps zmk_eq_iff mod_mult_right_eq)

lemma reversed_rev [simp]: "reversed b = rev b"
  by (rule nth_equalityI) (auto simp: reversed_def rev_nth)

lemma zp_Bytes_le: "0 \<le> zp_i z \<Longrightarrow> zp_Bytes z = le_bytes (nat (zp_i z))"
  by (simp add: zp_Bytes_def big_Bytes_def)

lemma zp_SetBytes_ok: "0 < p \<Longrightarrow> zp_p z = Some p \<Longrightarrow> zp_SetBytes z b = Inr (zmk p (int (le_value b)))"
  by (simp add: zp_SetBytes_def zp_simps big_SetBytes_def)

lemma Zb_ok: "0 < p \<Longrightarrow> Zb (Some p) b = Inr (zmk p (int (le_value b)))"
  by (simp add: Zb_def zp_simps zp_SetBytes_ok)

lemma P_SKS_pos [simp]: "0 < P_SKS" "1 < P_SKS"
  by (simp_all add: P_SKS_def)

end
