(* ===== verification/Poly.thy ===== *)
theory Poly
  imports Zp
begin

text \<open>
  Polynomials over Z(p), \<open>conflux/poly.go\<close>. A polynomial keeps its coefficient slice, which
  may be longer than its degree needs, the degree, and the field. Operations that overwrite
  their receiver are functions of the operands.
\<close>

record poly =
  po_coeff :: "zp list"
  po_degree :: nat
  po_p :: "int option"

text \<open>
  The loop of \<open>NewPoly\<close> and \<open>NewPolySlice\<close>: coefficient \<open>i\<close> is normalised and stored, the
  degree is the last index with a non-zero coefficient, the field that of the first one.
\<close>

definition newpoly_step :: "zp list \<Rightarrow> nat \<Rightarrow> poly \<Rightarrow> poly res" where
  "newpoly_step coeff i p =
     rbind (nth_res coeff i) (\<lambda>ci.
     rbind (zp_Norm ci) (\<lambda>c.
     rbind (upd_res (po_coeff p) i (zp_Set c)) (\<lambda>cs.
     let p1 = p\<lparr>po_coeff := cs\<rparr>;
         p2 = (if \<not> zp_IsZero c then p1\<lparr>po_degree := i\<rparr> else p1)
     in if 0 < i then rbind (zp_assertP (zp_p c) (po_p p2)) (\<lambda>_. Inr p2)
        else Inr (p2\<lparr>po_p := zp_p c\<rparr>))))"

definition NewPolySlice :: "zp list \<Rightarrow> poly res" where
  "NewPolySlice coeff = rfold (newpoly_step coeff) [0..<length coeff]
     \<lparr>po_coeff = replicate (length coeff) \<lparr>zp_i = 0, zp_p = None\<rparr>, po_degree = 0, po_p = None\<rparr>"

definition NewPoly :: "zp list \<Rightarrow> poly res" where
  "NewPoly coeff = rfold (newpoly_step coeff) [0..<length coeff]
     \<lparr>po_coeff = replicate (length coeff) \<lparr>zp_i = 0, zp_p = None\<rparr>, po_degree = 0, po_p = None\<rparr>"

definition NewPolyP :: "int option \<Rightarrow> poly" where
  "NewPolyP p = \<lparr>po_coeff = [], po_degree = 0, po_p = p\<rparr>"

definition poly_Copy :: "poly \<Rightarrow> poly res" where
  "poly_Copy p = NewPolySlice (po_coeff p)"

definition poly_assertP :: "poly \<Rightarrow> int option \<Rightarrow> unit res" where
  "poly_assertP p fp = zp_assertP (po_p p) fp"

definition poly_Equal :: "poly \<Rightarrow> poly \<Rightarrow> bool res" where
  "poly_Equal p q =
     rbind (poly_assertP p (po_p q)) (\<lambda>_.
     if po_degree p \<noteq> po_degree q then Inr False
     else rfold (\<lambda>i eq. if \<not> eq then Inr False else
            rbind (nth_res (po_coeff p) i) (\<lambda>a. rbind (nth_res (po_coeff q) i) (\<lambda>b.
            rbind (zp_Cmp a b) (\<lambda>cmp. Inr (cmp = 0)))))
          [0..<Suc (po_degree p)] True)"

fun trim_degree :: "zp list \<Rightarrow> nat \<Rightarrow> nat res" where
  "trim_degree cs 0 = Inr 0"
| "trim_degree cs (Suc d) = rbind (nth_res cs (Suc d)) (\<lambda>c.
     if zp_IsZero c then trim_degree cs d else Inr (Suc d))"

definition poly_trim :: "poly \<Rightarrow> poly res" where
  "poly_trim p = rbind (trim_degree (po_coeff p) (po_degree p)) (\<lambda>d. Inr (p\<lparr>po_degree := d\<rparr>))"

definition poly_Add :: "poly \<Rightarrow> poly \<Rightarrow> poly res" where
  "poly_Add x y =
     rbind (poly_assertP x (po_p y)) (\<lambda>_.
     let deg = (if po_degree x < po_degree y then po_degree y else po_degree x) in
     rbind (rmap (\<lambda>i.
         rbind (if i \<le> po_degree x then rbind (nth_res (po_coeff x) i) (zp_Add (zp_Z (po_p x))) else Inr (zp_Z (po_p x)))
           (\<lambda>c. if i \<le> po_degree y then rbind (nth_res (po_coeff y) i) (zp_Add c) else Inr c))
         [0..<Suc deg])
       (\<lambda>cs. poly_trim \<lparr>po_coeff = cs, po_degree = deg, po_p = po_p x\<rparr>))"

definition poly_Neg :: "poly \<Rightarrow> poly res" where
  "poly_Neg p =
     rbind (rfold (\<lambda>i cs. rbind (nth_res cs i) (\<lambda>c. rbind (zp_Neg c) (upd_res cs i)))
        [0..<Suc (po_degree p)] (po_coeff p))
       (\<lambda>cs. Inr (p\<lparr>po_coeff := cs\<rparr>))"

definition poly_Sub :: "poly \<Rightarrow> poly \<Rightarrow> poly res" where
  "poly_Sub x y = rbind (poly_Copy y) (\<lambda>y'. rbind (poly_Neg y') (poly_Add x))"

definition poly_Mul :: "poly \<Rightarrow> poly \<Rightarrow> poly res" where
  "poly_Mul x y =
     rbind (poly_assertP x (po_p y)) (\<lambda>_.
     rbind (rfold (\<lambda>i cs. rfold (\<lambda>j cs.
         rbind (nth_res cs (i + j)) (\<lambda>zp. rbind (zp_In zp (po_p x)) (\<lambda>zp.
         rbind (nth_res (po_coeff x) i) (\<lambda>a. rbind (nth_res (po_coeff y) j) (\<lambda>b.
         rbind (zp_Mul a b) (\<lambda>m. rbind (zp_Add zp m) (upd_res cs (i + j)))))))) [0..<Suc (po_degree y)] cs)
       [0..<Suc (po_degree x)] (replicate (po_degree x + po_degree y + 1) \<lparr>zp_i = 0, zp_p = None\<rparr>))
       (\<lambda>cs. poly_trim \<lparr>po_coeff = cs, po_degree = po_degree x + po_degree y, po_p = po_p x\<rparr>))"

definition poly_IsConstant :: "poly \<Rightarrow> zp \<Rightarrow> bool res" where
  "poly_IsConstant p c =
     (if po_degree p = 0 then rbind (nth_res (po_coeff p) 0) (\<lambda>a. rbind (zp_Cmp a c) (\<lambda>cmp. Inr (cmp = 0)))
      else Inr False)"

definition poly_Eval :: "poly \<Rightarrow> zp \<Rightarrow> zp res" where
  "poly_Eval p z =
     rbind (Zi (po_p p) 0) (\<lambda>s0. rfold (\<lambda>d s.
       rbind (nth_res (po_coeff p) d) (\<lambda>c. rbind (Zi (po_p p) (int d)) (\<lambda>e.
       rbind (zp_Exp (zp_Z (po_p p)) z e) (\<lambda>zd. rbind (zp_Mul c zd) (zp_Add s)))))
       [0..<Suc (po_degree p)] s0)"

definition PolyTerm :: "nat \<Rightarrow> zp \<Rightarrow> poly" where
  "PolyTerm degree c =
     \<lparr>po_coeff = map (\<lambda>i. if i = degree then c else zp_Z (zp_p c)) [0..<Suc degree],
      po_degree = degree, po_p = zp_p c\<rparr>"

text \<open>
  \<open>PolyDivmod\<close> recurses until the dividend is zero or shorter than the divisor. With a
  zero divisor and a constant dividend it never ends, so the recursion has fuel;
  \<open>divmod_fuel\<close> is enough for every other divisor.
\<close>

fun PolyDivmod :: "nat \<Rightarrow> poly \<Rightarrow> poly \<Rightarrow> (poly \<times> poly) res" where
  "PolyDivmod 0 x y = Inl Diverge"
| "PolyDivmod (Suc fuel) x y =
     rbind (poly_assertP x (po_p y)) (\<lambda>_.
     rbind (poly_IsConstant x (zp_Z (po_p x))) (\<lambda>isz.
     if isz then rbind (NewPoly [zp_Z (po_p x)]) (\<lambda>q. rbind (NewPoly [zp_Z (po_p y)]) (\<lambda>r. Inr (q, r)))
     else if po_degree x < po_degree y then rbind (NewPoly [zp_Z (po_p x)]) (\<lambda>q. Inr (q, x))
     else let degDiff = po_degree x - po_degree y in
       rbind (nth_res (po_coeff x) (po_degree x)) (\<lambda>lx.
       rbind (nth_res (po_coeff y) (po_degree y)) (\<lambda>ly.
       rbind (zp_Div lx ly) (\<lambda>c.
       let m = PolyTerm degDiff c in
       rbind (poly_Mul m y) (\<lambda>my.
       rbind (poly_Sub x my) (\<lambda>newX.
       if po_degree newX < po_degree x \<or> po_degree x = 0
       then rbind (PolyDivmod fuel newX y) (\<lambda>(q, r). rbind (poly_Add q m) (\<lambda>q. Inr (q, r)))
       else Inl (Err (ErrMsg ''divmod error'')))))))))"

definition divmod_fuel :: "poly \<Rightarrow> nat" where
  "divmod_fuel x = po_degree x + 2"

definition PolyDiv :: "poly \<Rightarrow> poly \<Rightarrow> poly res" where
  "PolyDiv x y = rbind (PolyDivmod (divmod_fuel x) x y) (\<lambda>(q, _). Inr q)"

definition PolyMod :: "poly \<Rightarrow> poly \<Rightarrow> poly res" where
  "PolyMod x y = rbind (PolyDivmod (divmod_fuel x) x y) (\<lambda>(_, r). Inr r)"

fun polyGcd :: "nat \<Rightarrow> poly \<Rightarrow> poly \<Rightarrow> poly res" where
  "polyGcd 0 x y = Inl Diverge"
| "polyGcd (Suc fuel) x y =
     rbind (poly_IsConstant y (zp_Z (po_p x))) (\<lambda>isz.
     if isz then Inr x
     else rbind (PolyDivmod (divmod_fuel x) x y) (\<lambda>(_, r). polyGcd fuel y r))"

definition PolyGcd :: "poly \<Rightarrow> poly \<Rightarrow> poly res" where
  "PolyGcd x y =
     rbind (polyGcd (po_degree y + 3) x y) (\<lambda>result.
     rbind (nth_res (po_coeff result) (po_degree result)) (\<lambda>lc.
     rbind (zp_Inv (zp_Copy lc)) (\<lambda>inv.
     rbind (NewPoly [inv]) (poly_Mul result))))"

text \<open>\<open>RationalFn\<close>: the ratio between two polynomials.\<close>

record rational_fn =
  rf_Num :: poly
  rf_Denom :: poly

end
