(* ===== verification/Matrix.thy ===== *)
theory Matrix
  imports Zp
begin

text \<open>
  Gaussian elimination over Z(p), \<open>conflux/matrix.go\<close>: a rectangular slice of cells, row
  after row, addressed by column and row.
\<close>

record matrix =
  mx_columns :: nat
  mx_rows :: nat
  mx_cells :: "zp list"

text \<open>\<open>Zp.Int64\<close>, as \<open>math/big\<close> computes it: the low 64 bits, read as a signed integer.\<close>

definition zp_Int64 :: "zp \<Rightarrow> int" where
  "zp_Int64 z = (let v = sint (word_of_int \<bar>zp_i z\<bar> :: 64 word)
     in if zp_i z < 0 then sint (- word_of_int v :: 64 word) else v)"

definition NewMatrix :: "nat \<Rightarrow> nat \<Rightarrow> zp \<Rightarrow> matrix" where
  "NewMatrix columns rows x =
     \<lparr>mx_columns = columns, mx_rows = rows, mx_cells = map (\<lambda>_. zp_Set x) [0..<columns * rows]\<rparr>"

definition mx_Get :: "matrix \<Rightarrow> nat \<Rightarrow> nat \<Rightarrow> zp res" where
  "mx_Get m i j = nth_res (mx_cells m) (i + j * mx_columns m)"

definition mx_Set :: "nat \<Rightarrow> nat \<Rightarrow> zp \<Rightarrow> matrix \<Rightarrow> matrix res" where
  "mx_Set i j x m = rbind (upd_res (mx_cells m) (i + j * mx_columns m) (zp_Set x))
     (\<lambda>cs. Inr (m\<lparr>mx_cells := cs\<rparr>))"

definition mx_swapRows :: "nat \<Rightarrow> nat \<Rightarrow> matrix \<Rightarrow> matrix res" where
  "mx_swapRows j1 j2 m = rfold (\<lambda>i m.
     rbind (mx_Get m i j1) (\<lambda>a. rbind (mx_Get m i j2) (\<lambda>b.
     rbind (mx_Set i j1 b m) (mx_Set i j2 a)))) [0..<mx_columns m] m"

definition mx_scmultRow :: "nat \<Rightarrow> nat \<Rightarrow> zp \<Rightarrow> matrix \<Rightarrow> matrix res" where
  "mx_scmultRow scol j sc m = rfold (\<lambda>i m.
     rbind (mx_Get m i j) (\<lambda>v. rbind (zp_Mul v sc) (\<lambda>v. mx_Set i j v m))) [scol..<mx_columns m] m"

definition mx_rowsub :: "nat \<Rightarrow> nat \<Rightarrow> nat \<Rightarrow> zp \<Rightarrow> matrix \<Rightarrow> matrix res" where
  "mx_rowsub scol src dst scmult m = rfold (\<lambda>i m.
     rbind (mx_Get m i src) (\<lambda>sval.
     if \<not> zp_IsZero sval then
       rbind (mx_Get m i dst) (\<lambda>v.
       rbind (if zp_Int64 scmult \<noteq> 1 then rbind (zp_Mul sval scmult) (zp_Sub v) else zp_Sub v sval)
         (\<lambda>v. mx_Set i dst v m))
     else Inr m)) [scol..<mx_columns m] m"

text \<open>The search for a row to swap in: the first row from \<open>jf\<close> on with a non-zero entry.\<close>

fun find_pivot :: "matrix \<Rightarrow> nat \<Rightarrow> nat list \<Rightarrow> nat option res" where
  "find_pivot m j [] = Inr None"
| "find_pivot m j (jf # jfs) = rbind (mx_Get m j jf) (\<lambda>v.
     if \<not> zp_IsZero v then Inr (Some jf) else find_pivot m j jfs)"

definition mx_eliminate :: "nat \<Rightarrow> matrix \<Rightarrow> matrix res" where
  "mx_eliminate j m =
     rbind (mx_Get m j j) (\<lambda>v.
     rbind (if zp_Int64 v \<noteq> 1 then rbind (zp_Inv (zp_Copy v)) (\<lambda>inv. mx_scmultRow j j inv m) else Inr m)
       (rfold (\<lambda>j2 m. rbind (mx_Get m j j2) (\<lambda>sc. mx_rowsub j j j2 (zp_Copy sc) m)) [j + 1..<mx_rows m]))"

definition mx_processRowForward :: "nat \<Rightarrow> matrix \<Rightarrow> matrix res" where
  "mx_processRowForward j m =
     rbind (mx_Get m j j) (\<lambda>v.
     if zp_IsZero v then
       rbind (find_pivot m j [j + 1..<mx_rows m]) (\<lambda>jswap.
       case jswap of None \<Rightarrow> Inr m
       | Some js \<Rightarrow> rbind (mx_swapRows j js m) (mx_eliminate j))
     else mx_eliminate j m)"

definition mx_backSubstitute :: "nat \<Rightarrow> matrix \<Rightarrow> matrix res" where
  "mx_backSubstitute j m =
     rbind (mx_Get m j j) (\<lambda>v.
     if zp_Int64 v = 1 then
       rfold (\<lambda>j2 m. rbind (mx_Get m j j2) (\<lambda>sc.
         let scmult = zp_Copy sc in
         rbind (mx_rowsub (mx_rows m - 1) j j2 scmult m) (\<lambda>m.
         rbind (Zi (zp_p scmult) 0) (\<lambda>z. mx_Set j j2 z m)))) (rev [0..<j]) m
     else Inr m)"

definition mx_Reduce :: "matrix \<Rightarrow> matrix res" where
  "mx_Reduce m =
     (if mx_columns m < mx_rows m then Inl (Err ErrMatrixTooNarrow)
      else rbind (rfold mx_processRowForward [0..<mx_rows m] m)
             (\<lambda>m'. rfold mx_backSubstitute (rev [1..<mx_rows m]) m'))"

end
