(* ===== verification/ZSet.thy ===== *)
theory ZSet
  imports Zp "HOL-Library.AList"
begin

text \<open>
  \<open>ZSet\<close> of \<open>conflux/zp.go\<close>: a set of field elements, stored as a Go map from the decimal
  string of the value to the value, and the modulus all members share. The map is an
  association list; its order stands for the unspecified iteration order of a Go map. The
  interface the other components use is the locale \<open>element_set\<close>.
\<close>

section \<open>Decimal strings\<close>

definition dec_digit :: "nat \<Rightarrow> char" where
  "dec_digit d = char_of (48 + d)"

fun dec_digits :: "nat \<Rightarrow> string" where
  "dec_digits n = (if n < 10 then [dec_digit n] else dec_digits (n div 10) @ [dec_digit (n mod 10)])"

declare dec_digits.simps [simp del]

definition dec_string :: "int \<Rightarrow> string" where
  "dec_string i = (if i < 0 then CHR ''-'' # dec_digits (nat (- i)) else dec_digits (nat i))"

fun dec_value :: "nat \<Rightarrow> string \<Rightarrow> nat option" where
  "dec_value acc [] = Some acc"
| "dec_value acc (c # cs) =
     (if 48 \<le> (of_char c :: nat) \<and> (of_char c :: nat) \<le> 57
      then dec_value (10 * acc + (of_char c - 48)) cs else None)"

text \<open>\<open>big.Int.SetString(s, 10)\<close>: an optional sign and at least one digit, all of \<open>s\<close>.\<close>

definition go_SetString :: "string \<Rightarrow> int option" where
  "go_SetString s = (case s of [] \<Rightarrow> None
     | c # cs \<Rightarrow> if c = CHR ''-'' then (if cs = [] then None else map_option (\<lambda>n. - int n) (dec_value 0 cs))
         else if c = CHR ''+'' then (if cs = [] then None else map_option int (dec_value 0 cs))
         else map_option int (dec_value 0 s))"

definition zp_String :: "zp \<Rightarrow> string" where
  "zp_String z = dec_string (zp_i z)"

definition Zs :: "int option \<Rightarrow> string \<Rightarrow> zp res" where
  "Zs p s = (case go_SetString s of None \<Rightarrow> Inl (Panic (PMsg ''invalid integer''))
     | Some i \<Rightarrow> zp_Norm \<lparr>zp_i = i, zp_p = p\<rparr>)"

lemma of_char_dec_digit: "d < 10 \<Longrightarrow> (of_char (dec_digit d) :: nat) = 48 + d"
  by (simp add: dec_digit_def of_char_of)

lemma dec_value_append: "dec_value acc xs = Some a \<Longrightarrow> dec_value acc (xs @ ys) = dec_value a ys"
  by (induction acc xs rule: dec_value.induct) (auto split: if_splits)

lemma dec_value_digits: "dec_value 0 (dec_digits n) = Some n"
proof (induction n rule: dec_digits.induct)
  case (1 n)
  show ?case
  proof (cases "n < 10")
    case True
    then show ?thesis by (simp add: dec_digits.simps[of n] of_char_dec_digit)
  next
    case False
    with 1 have "dec_value 0 (dec_digits (n div 10) @ [dec_digit (n mod 10)]) = Some n"
      by (simp add: dec_value_append of_char_dec_digit)
    with False show ?thesis by (simp add: dec_digits.simps[of n])
  qed
qed

lemma dec_digits_hd: "\<exists>c cs. dec_digits n = c # cs \<and> 48 \<le> (of_char c :: nat) \<and> (of_char c :: nat) \<le> 57"
proof (induction n rule: dec_digits.induct)
  case (1 n)
  show ?case
  proof (cases "n < 10")
    case True
    then show ?thesis by (simp add: dec_digits.simps[of n] of_char_dec_digit)
  next
    case False
    with 1 show ?thesis by (auto simp: dec_digits.simps[of n])
  qed
qed

lemma go_SetString_dec_string: "go_SetString (dec_string i) = Some i"
proof -
  obtain c cs where c: "dec_digits (nat \<bar>i\<bar>) = c # cs" "48 \<le> (of_char c :: nat)"
    using dec_digits_hd[of "nat \<bar>i\<bar>"] by blast
  then have n: "c \<noteq> CHR ''-''" "c \<noteq> CHR ''+''" by auto
  from dec_value_digits[of "nat \<bar>i\<bar>"] c(1) have v: "dec_value 0 (c # cs) = Some (nat \<bar>i\<bar>)" by simp
  show ?thesis
  proof (cases "i < 0")
    case True
    then have "dec_string i = CHR ''-'' # c # cs" using c(1) by (simp add: dec_string_def)
    with True v show ?thesis by (simp only: go_SetString_def list.case) simp
  next
    case False
    then have "dec_string i = c # cs" using c(1) by (simp add: dec_string_def)
    with False v n show ?thesis by (simp only: go_SetString_def list.case) simp
  qed
qed

lemma dec_string_inj [simp]: "dec_string i = dec_string j \<longleftrightarrow> i = j"
  by (metis go_SetString_dec_string option.inject)

section \<open>The set\<close>

record zset =
  zs_s :: "(string \<times> int) list"
  zs_p :: "int option"

definition zset_empty :: zset where
  "zset_empty = \<lparr>zs_s = [], zs_p = None\<rparr>"

definition zset_Len :: "zset \<Rightarrow> nat" where
  "zset_Len zs = length (zs_s zs)"

definition zset_Add :: "zp \<Rightarrow> zset \<Rightarrow> zset res" where
  "zset_Add v zs =
     rbind (if zs_p zs = None then Inr (zp_p v)
            else rbind (zp_assertP (zp_p v) (zs_p zs)) (\<lambda>_. Inr (zs_p zs)))
       (\<lambda>p. Inr \<lparr>zs_s = AList.update (zp_String v) (zp_i v) (zs_s zs), zs_p = p\<rparr>)"

definition zset_Remove :: "zp \<Rightarrow> zset \<Rightarrow> zset" where
  "zset_Remove v zs = zs\<lparr>zs_s := AList.delete (zp_String v) (zs_s zs)\<rparr>"

definition zset_Contains :: "zset \<Rightarrow> zp \<Rightarrow> bool" where
  "zset_Contains zs v \<longleftrightarrow> map_of (zs_s zs) (zp_String v) \<noteq> None"

definition zset_Equal :: "zset \<Rightarrow> zset \<Rightarrow> bool" where
  "zset_Equal zs other \<longleftrightarrow> length (zs_s zs) = length (zs_s other)
     \<and> list_all (\<lambda>(k, _). map_of (zs_s other) k \<noteq> None) (zs_s zs)"

definition zset_AddSlice :: "zp list \<Rightarrow> zset \<Rightarrow> zset res" where
  "zset_AddSlice other zs = rfold zset_Add other zs"

definition NewZSet :: "zp list \<Rightarrow> zset res" where
  "NewZSet elements = rfold zset_Add elements zset_empty"

definition NewZSetSlice :: "zp list \<Rightarrow> zset res" where
  "NewZSetSlice elements = rfold zset_Add elements zset_empty"

definition zset_AddAll :: "zset \<Rightarrow> zset \<Rightarrow> zset" where
  "zset_AddAll zs other =
     \<lparr>zs_s = fold (\<lambda>(k, v). AList.update k v) (zs_s other) (zs_s zs),
      zs_p = (if zs_p zs = None then zs_p other else zs_p zs)\<rparr>"

definition zset_RemoveSlice :: "zset \<Rightarrow> zp list \<Rightarrow> zset" where
  "zset_RemoveSlice zs other = fold zset_Remove other zs"

definition zset_RemoveAll :: "zset \<Rightarrow> zset \<Rightarrow> zset" where
  "zset_RemoveAll zs other =
     \<lparr>zs_s = fold (\<lambda>(k, _). AList.delete k) (zs_s other) (zs_s zs),
      zs_p = (if zs_p zs = None then zs_p other else zs_p zs)\<rparr>"

definition zset_Items :: "zset \<Rightarrow> zp list" where
  "zset_Items zs = map (\<lambda>(_, v). \<lparr>zp_i = v, zp_p = zs_p zs\<rparr>) (zs_s zs)"

definition ZSetDiff :: "zset \<Rightarrow> zset \<Rightarrow> zset" where
  "ZSetDiff a b =
     \<lparr>zs_s = filter (\<lambda>(k, _). map_of (zs_s b) k = None) (zs_s a),
      zs_p = (if zs_p a \<noteq> None then zs_p a else zs_p b)\<rparr>"

section \<open>The interface\<close>

text \<open>
  A container of elements of type \<open>'e\<close> seen as the finite set of their values: what it
  holds, and which elements and states the laws are about.
\<close>

locale element_set =
  fixes empty :: 's
    and add :: "'e \<Rightarrow> 's \<Rightarrow> 's res"
    and remove :: "'e \<Rightarrow> 's \<Rightarrow> 's"
    and contains :: "'s \<Rightarrow> 'e \<Rightarrow> bool"
    and val :: "'e \<Rightarrow> 'v"
    and vals :: "'s \<Rightarrow> 'v set"
    and ok :: "'e \<Rightarrow> bool"
    and inv :: "'s \<Rightarrow> bool"
  assumes inv_empty: "inv empty"
    and vals_empty: "vals empty = {}"
    and add_ok: "inv s \<Longrightarrow> ok e \<Longrightarrow> \<exists>s'. add e s = Inr s' \<and> inv s' \<and> vals s' = insert (val e) (vals s)"
    and remove_inv: "inv s \<Longrightarrow> ok e \<Longrightarrow> inv (remove e s)"
    and remove_vals: "inv s \<Longrightarrow> ok e \<Longrightarrow> vals (remove e s) = vals s - {val e}"
    and contains_iff: "inv s \<Longrightarrow> ok e \<Longrightarrow> contains s e \<longleftrightarrow> val e \<in> vals s"
begin

lemma addE:
  assumes "inv s" "ok e"
  obtains s' where "add e s = Inr s'" "inv s'" "vals s' = insert (val e) (vals s)"
  using add_ok[OF assms] by blast

lemma add_list:
  assumes "inv s" "list_all ok es"
  shows "\<exists>s'. rfold add es s = Inr s' \<and> inv s' \<and> vals s' = vals s \<union> val ` set es"
  using assms
proof (induction es arbitrary: s)
  case (Cons e es)
  then obtain s1 where s1: "add e s = Inr s1" "inv s1" "vals s1 = insert (val e) (vals s)"
    by (auto elim: addE)
  moreover from Cons.prems have "list_all ok es" by simp
  ultimately show ?case using Cons.IH[of s1] by auto
qed simp

lemma of_list:
  assumes "list_all ok es"
  shows "\<exists>s'. rfold add es empty = Inr s' \<and> inv s' \<and> vals s' = val ` set es"
  using add_list[OF inv_empty assms] by (simp add: vals_empty)

lemma remove_list:
  assumes "inv s" "list_all ok es"
  shows "inv (fold remove es s)" "vals (fold remove es s) = vals s - val ` set es"
  using assms by (induction es arbitrary: s) (auto simp: remove_inv remove_vals)

lemma add_remove:
  assumes "inv s" "ok e" "val e \<notin> vals s" "add e s = Inr s'"
  shows "vals (remove e s') = vals s"
  using assms by (metis Diff_insert_absorb addE remove_vals sum.inject(2))

end

section \<open>ZSet provides it\<close>

definition zset_vals :: "zset \<Rightarrow> int set" where
  "zset_vals zs = snd ` set (zs_s zs)"

definition zset_in :: "int \<Rightarrow> zset \<Rightarrow> bool" where
  "zset_in p zs \<longleftrightarrow> distinct (map fst (zs_s zs))
     \<and> (\<forall>(k, v) \<in> set (zs_s zs). k = dec_string v \<and> 0 \<le> v \<and> v < p)
     \<and> (zs_s zs \<noteq> [] \<longrightarrow> zs_p zs = Some p) \<and> (zs_p zs = None \<or> zs_p zs = Some p)"

lemma zset_map_of:
  "zset_in p zs \<Longrightarrow> map_of (zs_s zs) (dec_string v) = (if v \<in> zset_vals zs then Some v else None)"
proof -
  assume w: "zset_in p zs"
  show ?thesis
  proof (cases "v \<in> zset_vals zs")
    case True
    then obtain k where "(k, v) \<in> set (zs_s zs)" by (auto simp: zset_vals_def)
    with w have "(dec_string v, v) \<in> set (zs_s zs)" by (auto simp: zset_in_def)
    with w True show ?thesis by (simp add: zset_in_def)
  next
    case False
    have "dec_string v \<notin> fst ` set (zs_s zs)"
    proof
      assume "dec_string v \<in> fst ` set (zs_s zs)"
      then obtain u where "(dec_string v, u) \<in> set (zs_s zs)" by auto
      moreover from this w have "dec_string v = dec_string u" by (auto simp: zset_in_def)
      ultimately show False using False by (auto simp: zset_vals_def image_iff)
    qed
    with False show ?thesis by (simp add: map_of_eq_None_iff)
  qed
qed

lemma zset_finite [simp]: "finite (zset_vals zs)"
  by (simp add: zset_vals_def)

lemma zset_Len_card: "zset_in p zs \<Longrightarrow> zset_Len zs = card (zset_vals zs)"
proof -
  assume w: "zset_in p zs"
  have k: "fst x = dec_string (snd x)" if "x \<in> set (zs_s zs)" for x
    using that w by (auto simp: zset_in_def)
  have "inj_on snd (set (zs_s zs))"
  proof (rule inj_onI)
    fix x y
    assume "x \<in> set (zs_s zs)" "y \<in> set (zs_s zs)" "snd x = snd y"
    then show "x = y" using k by (intro prod_eqI) auto
  qed
  then have "card (zset_vals zs) = card (set (zs_s zs))" by (simp add: zset_vals_def card_image)
  also have "\<dots> = length (zs_s zs)"
    using w by (auto simp: zset_in_def distinct_map intro: distinct_card)
  finally show ?thesis by (simp add: zset_Len_def)
qed

lemma set_update_distinct:
  "distinct (map fst xs) \<Longrightarrow> set (AList.update k v xs) = insert (k, v) {(k', v') \<in> set xs. k' \<noteq> k}"
  by (induction xs) (auto simp: image_iff)

lemma zset_update_in:
  assumes "zset_in p zs" "0 \<le> v" "v < p"
  shows "zset_in p \<lparr>zs_s = AList.update (dec_string v) v (zs_s zs), zs_p = Some p\<rparr>"
    "zset_vals \<lparr>zs_s = AList.update (dec_string v) v (zs_s zs), zs_p = q\<rparr> = insert v (zset_vals zs)"
proof -
  have d: "distinct (map fst (zs_s zs))" using assms by (simp add: zset_in_def)
  then show "zset_in p \<lparr>zs_s = AList.update (dec_string v) v (zs_s zs), zs_p = Some p\<rparr>"
    using assms by (auto simp: zset_in_def set_update_distinct distinct_update)
  have "(k = dec_string v \<longrightarrow> u = v)" if "(k, u) \<in> set (zs_s zs)" for k u
    using that assms(1) by (auto simp: zset_in_def)
  then show "zset_vals \<lparr>zs_s = AList.update (dec_string v) v (zs_s zs), zs_p = q\<rparr> = insert v (zset_vals zs)"
    using d by (force simp: zset_vals_def set_update_distinct image_iff)
qed

lemma zset_Add_ok:
  assumes "zset_in p zs" "felem p v"
  shows "\<exists>zs'. zset_Add v zs = Inr zs' \<and> zset_in p zs' \<and> zset_vals zs' = insert (zp_i v) (zset_vals zs)"
proof -
  have v: "zp_p v = Some p" "0 \<le> zp_i v" "zp_i v < p" using assms(2) by (auto simp: felem_def)
  have q: "zs_p zs = None \<or> zs_p zs = Some p" using assms(1) by (simp add: zset_in_def)
  then have "zset_Add v zs = Inr \<lparr>zs_s = AList.update (dec_string (zp_i v)) (zp_i v) (zs_s zs), zs_p = Some p\<rparr>"
    using v by (auto simp: zset_Add_def zp_String_def)
  with zset_update_in[OF assms(1) v(2,3)] show ?thesis by simp
qed

lemma zset_delete_in:
  assumes "zset_in p zs"
  shows "zset_in p (zs\<lparr>zs_s := AList.delete (dec_string v) (zs_s zs)\<rparr>)"
    "zset_vals (zs\<lparr>zs_s := AList.delete (dec_string v) (zs_s zs)\<rparr>) = zset_vals zs - {v}"
proof -
  have s: "set (AList.delete (dec_string v) (zs_s zs)) = {(k, u) \<in> set (zs_s zs). k \<noteq> dec_string v}"
    by (auto simp: AList.delete_eq)
  show "zset_in p (zs\<lparr>zs_s := AList.delete (dec_string v) (zs_s zs)\<rparr>)"
    using assms by (auto simp: zset_in_def s distinct_delete)
  have "k = dec_string u" if "(k, u) \<in> set (zs_s zs)" for k u
    using that assms by (auto simp: zset_in_def)
  then show "zset_vals (zs\<lparr>zs_s := AList.delete (dec_string v) (zs_s zs)\<rparr>) = zset_vals zs - {v}"
    by (force simp: zset_vals_def s image_iff)
qed

interpretation zs: element_set zset_empty zset_Add zset_Remove zset_Contains zp_i zset_vals
  "felem p" "zset_in p" for p
proof
  show "zset_in p zset_empty" and "zset_vals zset_empty = {}"
    by (simp_all add: zset_in_def zset_empty_def zset_vals_def)
  fix s :: zset and e :: zp
  assume s: "zset_in p s" and e: "felem p e"
  then show "\<exists>s'. zset_Add e s = Inr s' \<and> zset_in p s' \<and> zset_vals s' = insert (zp_i e) (zset_vals s)"
    by (rule zset_Add_ok)
  show "zset_in p (zset_Remove e s)" "zset_vals (zset_Remove e s) = zset_vals s - {zp_i e}"
    using zset_delete_in[OF s] by (simp_all add: zset_Remove_def zp_String_def)
  show "zset_Contains s e \<longleftrightarrow> zp_i e \<in> zset_vals s"
    using s by (simp add: zset_Contains_def zp_String_def zset_map_of)
qed

lemma NewZSetSlice_ok:
  "list_all (felem p) es \<Longrightarrow> \<exists>zs. NewZSetSlice es = Inr zs \<and> zset_in p zs \<and> zset_vals zs = zp_i ` set es"
  unfolding NewZSetSlice_def by (rule zs.of_list)

lemma ZSetDiff_ok:
  assumes "zset_in p a" "zset_in p b"
  shows "zset_in p (ZSetDiff a b)" "zset_vals (ZSetDiff a b) = zset_vals a - zset_vals b"
proof -
  have k: "k = dec_string u" if "(k, u) \<in> set (zs_s a)" for k u
    using that assms by (auto simp: zset_in_def)
  have "distinct (map fst (filter (\<lambda>(k, _). map_of (zs_s b) k = None) (zs_s a)))"
    using assms by (simp add: zset_in_def distinct_map_filter)
  with assms show "zset_in p (ZSetDiff a b)"
    by (auto simp: zset_in_def ZSetDiff_def filter_empty_conv)
  show "zset_vals (ZSetDiff a b) = zset_vals a - zset_vals b"
    using k zset_map_of[OF assms(2)] unfolding zset_vals_def ZSetDiff_def
    by (force simp: image_iff zset_vals_def split: if_splits)
qed

lemma zset_AddAll_ok:
  assumes "zset_in p a" "zset_in p b"
  shows "zset_in p (zset_AddAll a b)" "zset_vals (zset_AddAll a b) = zset_vals a \<union> zset_vals b"
proof -
  have "\<exists>s'. fold (\<lambda>(k, v). AList.update k v) xs (zs_s a) = s' \<and> distinct (map fst s')
      \<and> (\<forall>(k, v) \<in> set s'. k = dec_string v \<and> 0 \<le> v \<and> v < p)
      \<and> (xs \<noteq> [] \<longrightarrow> s' \<noteq> [])
      \<and> snd ` set s' = snd ` set (zs_s a) \<union> snd ` set xs"
    if "\<forall>(k, v) \<in> set xs. k = dec_string v \<and> 0 \<le> v \<and> v < p" for xs
    using that
  proof (induction xs rule: rev_induct)
    case Nil
    then show ?case using assms(1) by (auto simp: zset_in_def)
  next
    case (snoc x xs)
    then obtain v where x: "x = (dec_string v, v)" "0 \<le> v" "v < p" by (cases x) auto
    let ?s = "fold (\<lambda>(k, v). AList.update k v) xs (zs_s a)"
    have w: "zset_in p \<lparr>zs_s = ?s, zs_p = Some p\<rparr>" "snd ` set ?s = snd ` set (zs_s a) \<union> snd ` set xs"
      using snoc by (auto simp: zset_in_def)
    from zset_update_in[OF w(1) x(2,3)] w(2) x show ?case
      by (auto simp: zset_in_def zset_vals_def)
  qed
  from this[of "zs_s b"] assms(2) have f:
    "distinct (map fst (zs_s (zset_AddAll a b)))"
    "\<forall>(k, v) \<in> set (zs_s (zset_AddAll a b)). k = dec_string v \<and> 0 \<le> v \<and> v < p"
    "zset_vals (zset_AddAll a b) = zset_vals a \<union> zset_vals b"
    by (auto simp: zset_in_def zset_AddAll_def zset_vals_def)
  show "zset_vals (zset_AddAll a b) = zset_vals a \<union> zset_vals b" by (rule f(3))
  have "zs_s (zset_AddAll a b) \<noteq> [] \<Longrightarrow> zs_s a \<noteq> [] \<or> zs_s b \<noteq> []"
    by (auto simp: zset_AddAll_def)
  with f assms show "zset_in p (zset_AddAll a b)"
    by (auto simp: zset_in_def zset_AddAll_def)
qed

lemma zset_Items_vals: "zp_i ` set (zset_Items zs) = zset_vals zs"
  by (force simp: zset_Items_def zset_vals_def)

lemma zset_Items_felem: "zset_in p zs \<Longrightarrow> list_all (felem p) (zset_Items zs)"
  by (auto simp: zset_in_def zset_Items_def list_all_iff felem_def)

lemma Zs_String: "felem p z \<Longrightarrow> Zs (Some p) (zp_String z) = Inr z"
  using felem_pos[of p z] felem_eq_zmk[of p z]
  by (simp add: Zs_def zp_String_def go_SetString_dec_string zp_Norm_mk)

end
