(* ===== verification/Bitstring.thy ===== *)
theory Bitstring
  imports Zp
begin

text \<open>
  \<open>conflux/bitstring.go\<close>: a sequence of bits stored most significant bit first in a byte
  slice. The prefix tree walks these bits to choose children, and the wire format carries
  them as prefixes.
\<close>

unbundle bit_operations_syntax

record bitstring =
  bs_buf :: "byte list"
  bs_bits :: nat

definition NewBitstring :: "nat \<Rightarrow> bitstring" where
  "NewBitstring bits =
     (let n = bits div 8; n' = (if bits mod 8 \<noteq> 0 then Suc n else n)
      in \<lparr>bs_buf = replicate n' 0, bs_bits = bits\<rparr>)"

definition bs_BitLen :: "bitstring \<Rightarrow> nat" where
  "bs_BitLen bs = bs_bits bs"

definition bs_ByteLen :: "bitstring \<Rightarrow> nat" where
  "bs_ByteLen bs = length (bs_buf bs)"

definition bs_bitIndex :: "nat \<Rightarrow> nat \<times> nat" where
  "bs_bitIndex k = (k div 8, k mod 8)"

definition bit_mask :: "nat \<Rightarrow> byte" where
  "bit_mask bitPos = push_bit (8 - bitPos - 1) 1"

text \<open>
  The bounds check of the four accessors lets the position \<open>bits\<close> through (\<open>bit > bs.bits\<close>);
  when it falls outside the slice the slice access panics instead.
\<close>

definition bs_Get :: "bitstring \<Rightarrow> int \<Rightarrow> nat res" where
  "bs_Get bs i =
     (if int (bs_bits bs) < i \<or> i < 0 then Inl (Panic (PMsg ''bit index out of range''))
      else (case bs_bitIndex (nat i) of (bytePos, bitPos) \<Rightarrow>
        rbind (nth_res (bs_buf bs) bytePos)
          (\<lambda>b. Inr (if b AND bit_mask bitPos \<noteq> 0 then 1 else 0))))"

definition bs_update :: "(byte \<Rightarrow> byte \<Rightarrow> byte) \<Rightarrow> bitstring \<Rightarrow> int \<Rightarrow> bitstring res" where
  "bs_update f bs i =
     (if int (bs_bits bs) < i \<or> i < 0 then Inl (Panic (PMsg ''bit index out of range''))
      else (case bs_bitIndex (nat i) of (bytePos, bitPos) \<Rightarrow>
        rbind (nth_res (bs_buf bs) bytePos)
          (\<lambda>b. rbind (upd_res (bs_buf bs) bytePos (f b (bit_mask bitPos)))
            (\<lambda>buf. Inr (bs\<lparr>bs_buf := buf\<rparr>)))))"

definition bs_Set :: "bitstring \<Rightarrow> int \<Rightarrow> bitstring res" where
  "bs_Set = bs_update (\<lambda>b m. b OR m)"

definition bs_Clear :: "bitstring \<Rightarrow> int \<Rightarrow> bitstring res" where
  "bs_Clear = bs_update (\<lambda>b m. b AND NOT m)"

definition bs_Flip :: "bitstring \<Rightarrow> int \<Rightarrow> bitstring res" where
  "bs_Flip = bs_update (\<lambda>b m. b XOR m)"

definition bs_SetBytes :: "bitstring \<Rightarrow> byte list \<Rightarrow> bitstring res" where
  "bs_SetBytes bs buf =
     (let bs1 = bs\<lparr>bs_buf := map (\<lambda>i. if i < length buf then buf ! i else 0) [0..<length (bs_buf bs)]\<rparr>;
          (bytePos, bitPos) = bs_bitIndex (bs_bits bs)
      in if bitPos \<noteq> 0 then
           rbind (nth_res (bs_buf bs1) bytePos)
             (\<lambda>b. rbind (upd_res (bs_buf bs1) bytePos (b AND NOT (push_bit (8 - bitPos) 1 - 1)))
               (\<lambda>buf'. Inr (bs1\<lparr>bs_buf := buf'\<rparr>)))
         else Inr bs1)"

definition NewZpBitstring :: "zp \<Rightarrow> bitstring res" where
  "NewZpBitstring z = (case zp_p z of None \<Rightarrow> Inl (Panic PNil)
     | Some p \<Rightarrow> bs_SetBytes (NewBitstring (big_BitLen p)) (zp_Bytes z))"

definition bs_Lsh :: "bitstring \<Rightarrow> nat \<Rightarrow> bitstring res" where
  "bs_Lsh bs n = bs_SetBytes bs (big_Bytes (push_bit n (big_SetBytes (bs_buf bs))))"

definition bs_Rsh :: "bitstring \<Rightarrow> nat \<Rightarrow> bitstring res" where
  "bs_Rsh bs n = bs_SetBytes bs (big_Bytes (drop_bit n (big_SetBytes (bs_buf bs))))"

definition bs_String :: "bitstring \<Rightarrow> string res" where
  "bs_String bs = rbind (rmap (\<lambda>i. bs_Get bs (int i)) [0..<bs_bits bs])
     (\<lambda>ds. Inr (map (\<lambda>d. if d = 1 then CHR ''1'' else CHR ''0'') ds))"

definition bs_Bytes :: "bitstring \<Rightarrow> byte list" where
  "bs_Bytes bs = bs_buf bs"

section \<open>Well-formed bitstrings\<close>

text \<open>The slice has as many bytes as the bits need, and the padding bits are zero.\<close>

definition byte_count :: "nat \<Rightarrow> nat" where
  "byte_count bits = (bits + 7) div 8"

definition pad_mask :: "nat \<Rightarrow> byte" where
  "pad_mask bitPos = push_bit (8 - bitPos) 1 - 1"

definition bs_wf :: "bitstring \<Rightarrow> bool" where
  "bs_wf bs \<longleftrightarrow> length (bs_buf bs) = byte_count (bs_bits bs)
     \<and> (bs_bits bs mod 8 \<noteq> 0 \<longrightarrow> bs_buf bs ! (bs_bits bs div 8) AND pad_mask (bs_bits bs mod 8) = 0)"

text \<open>The bit at position \<open>k\<close>, as a truth value.\<close>

definition bs_bit :: "bitstring \<Rightarrow> nat \<Rightarrow> bool" where
  "bs_bit bs k \<longleftrightarrow> bit (bs_buf bs ! (k div 8)) (7 - k mod 8)"

lemma byte_count_eq: "byte_count bits = (if bits mod 8 \<noteq> 0 then Suc (bits div 8) else bits div 8)"
  unfolding byte_count_def by presburger

lemma byte_count_ge: "bits \<le> byte_count bits * 8"
  using div_mult_mod_eq[of "bits + 7" 8] mod_less_divisor[of 8 "bits + 7"]
  unfolding byte_count_def by linarith

lemma byte_count_index: "k < bits \<Longrightarrow> k div 8 < byte_count bits"
  using byte_count_ge[of bits] by (intro less_mult_imp_div_less) linarith

lemma byte_count_pad: "bits mod 8 \<noteq> 0 \<Longrightarrow> bits div 8 < byte_count bits"
  by (simp add: byte_count_eq)

lemma NewBitstring_buf: "bs_buf (NewBitstring bits) = replicate (byte_count bits) 0"
  by (simp add: NewBitstring_def byte_count_eq Let_def)

lemma NewBitstring_bits [simp]: "bs_bits (NewBitstring bits) = bits"
  by (simp add: NewBitstring_def Let_def)

lemma NewBitstring_wf: "bs_wf (NewBitstring bits)"
  by (auto simp: bs_wf_def NewBitstring_buf byte_count_pad)

lemma bit_mask_bit: "i < 8 \<Longrightarrow> bit (bit_mask i) j \<longleftrightarrow> j = 7 - i"
  unfolding bit_mask_def bit_push_bit_iff by (auto simp: bit_1_iff)

lemma AND_bit_mask: "i < 8 \<Longrightarrow> (b AND bit_mask i \<noteq> 0) \<longleftrightarrow> bit b (7 - i)"
proof -
  assume i: "i < 8"
  have b: "bit (b AND bit_mask i) n \<longleftrightarrow> n = 7 - i \<and> bit b (7 - i)" for n
    using i by (auto simp: bit_and_iff bit_mask_bit)
  show ?thesis
  proof (cases "bit b (7 - i)")
    case True
    with b[of "7 - i"] have "b AND bit_mask i \<noteq> 0" by (metis bit_0_eq bot_apply bot_bool_def)
    with True show ?thesis by simp
  next
    case False
    with b have "b AND bit_mask i = 0" by (intro bit_word_eqI) simp
    with False show ?thesis by simp
  qed
qed

lemma bs_Get_ok:
  assumes "k div 8 < length (bs_buf bs)" "k \<le> bs_bits bs"
  shows "bs_Get bs (int k) = Inr (if bs_bit bs k then 1 else 0)"
  using assms by (simp add: bs_Get_def bs_bitIndex_def AND_bit_mask bs_bit_def)

lemma bs_Get_panic: "int (bs_bits bs) < i \<or> i < 0 \<Longrightarrow> \<exists>e. bs_Get bs i = Inl (Panic e)"
  by (auto simp: bs_Get_def)

lemma bs_update_ok:
  assumes "k div 8 < length (bs_buf bs)" "k \<le> bs_bits bs"
  shows "bs_update f bs (int k) =
    Inr (bs\<lparr>bs_buf := (bs_buf bs)[k div 8 := f (bs_buf bs ! (k div 8)) (bit_mask (k mod 8))]\<rparr>)"
  using assms by (simp add: bs_update_def bs_bitIndex_def)

text \<open>What a single-bit update of the slice does to every bit.\<close>

lemma bs_update_bit:
  assumes k: "k div 8 < length (bs_buf bs)" "k \<le> bs_bits bs"
    and f: "\<And>b n. n < 8 \<Longrightarrow> bit (f b (bit_mask (k mod 8))) n =
           (if n = 7 - k mod 8 then g (bit b n) else bit b n)"
  shows "\<exists>bs'. bs_update f bs (int k) = Inr bs' \<and> bs_bits bs' = bs_bits bs
    \<and> length (bs_buf bs') = length (bs_buf bs)
    \<and> (\<forall>j. j div 8 < length (bs_buf bs) \<longrightarrow>
          bs_bit bs' j = (if j = k then g (bs_bit bs k) else bs_bit bs j))"
proof -
  let ?bs' = "bs\<lparr>bs_buf := (bs_buf bs)[k div 8 := f (bs_buf bs ! (k div 8)) (bit_mask (k mod 8))]\<rparr>"
  have "bs_bit ?bs' j = (if j = k then g (bs_bit bs k) else bs_bit bs j)"
    if "j div 8 < length (bs_buf bs)" for j
  proof (cases "j div 8 = k div 8")
    case True
    then have "7 - j mod 8 = 7 - k mod 8 \<longleftrightarrow> j mod 8 = k mod 8"
      using mod_less_divisor[of 8 j] mod_less_divisor[of 8 k] by linarith
    also have "\<dots> \<longleftrightarrow> j = k" using True by (metis div_mult_mod_eq)
    finally show ?thesis using True k f[of "7 - j mod 8"] by (auto simp: bs_bit_def)
  next
    case False
    then show ?thesis by (auto simp: bs_bit_def)
  qed
  with bs_update_ok[OF k, of f] show ?thesis by simp
qed

lemma bs_Set_bit:
  assumes "k div 8 < length (bs_buf bs)" "k \<le> bs_bits bs"
  shows "\<exists>bs'. bs_Set bs (int k) = Inr bs' \<and> bs_bits bs' = bs_bits bs
    \<and> length (bs_buf bs') = length (bs_buf bs)
    \<and> (\<forall>j. j div 8 < length (bs_buf bs) \<longrightarrow> bs_bit bs' j = (if j = k then True else bs_bit bs j))"
  unfolding bs_Set_def
  by (rule bs_update_bit[OF assms, where g = "\<lambda>_. True"]) (simp add: bit_or_iff bit_mask_bit)

lemma bs_Clear_bit:
  assumes "k div 8 < length (bs_buf bs)" "k \<le> bs_bits bs"
  shows "\<exists>bs'. bs_Clear bs (int k) = Inr bs' \<and> bs_bits bs' = bs_bits bs
    \<and> length (bs_buf bs') = length (bs_buf bs)
    \<and> (\<forall>j. j div 8 < length (bs_buf bs) \<longrightarrow> bs_bit bs' j = (if j = k then False else bs_bit bs j))"
  unfolding bs_Clear_def
  by (rule bs_update_bit[OF assms, where g = "\<lambda>_. False"])
     (simp add: bit_and_iff bit_not_iff bit_mask_bit)

lemma bs_Flip_bit:
  assumes "k div 8 < length (bs_buf bs)" "k \<le> bs_bits bs"
  shows "\<exists>bs'. bs_Flip bs (int k) = Inr bs' \<and> bs_bits bs' = bs_bits bs
    \<and> length (bs_buf bs') = length (bs_buf bs)
    \<and> (\<forall>j. j div 8 < length (bs_buf bs) \<longrightarrow>
          bs_bit bs' j = (if j = k then \<not> bs_bit bs k else bs_bit bs j))"
  unfolding bs_Flip_def
  by (rule bs_update_bit[OF assms, where g = Not]) (simp add: bit_xor_iff bit_mask_bit)

section \<open>Filling from bytes\<close>

lemma pad_mask_bit: "i < 8 \<Longrightarrow> bit (pad_mask i) n \<longleftrightarrow> n < 8 - i \<and> n < 8"
proof -
  assume "i < 8"
  have "pad_mask i = mask (8 - i)" by (simp add: pad_mask_def mask_eq_exp_minus_1 push_bit_of_1)
  then show ?thesis by (auto simp: bit_mask_iff possible_bit_word)
qed

lemma seven_minus_lt [simp]: "7 - (k :: nat) < 8"
  by linarith

lemma bs_SetBytes_ok:
  assumes len: "length (bs_buf bs) = byte_count (bs_bits bs)"
  shows "\<exists>bs'. bs_SetBytes bs buf = Inr bs' \<and> bs_wf bs' \<and> bs_bits bs' = bs_bits bs
    \<and> (\<forall>k < 8 * byte_count (bs_bits bs). bs_bit bs' k \<longleftrightarrow>
          k < bs_bits bs \<and> k div 8 < length buf \<and> bit (buf ! (k div 8)) (7 - k mod 8))"
proof -
  let ?n = "bs_bits bs"
  let ?fill = "map (\<lambda>i. if i < length buf then buf ! i else 0) [0..<byte_count ?n]"
  have fill: "length ?fill = byte_count ?n" "\<And>i. i < byte_count ?n \<Longrightarrow>
      ?fill ! i = (if i < length buf then buf ! i else 0)" by simp_all
  have idx: "k div 8 < byte_count ?n" if "k < 8 * byte_count ?n" for k
    using that by (simp add: less_mult_imp_div_less mult.commute)
  show ?thesis
  proof (cases "?n mod 8 = 0")
    case True
    then have e: "bs_SetBytes bs buf = Inr (bs\<lparr>bs_buf := ?fill\<rparr>)"
      by (simp add: bs_SetBytes_def bs_bitIndex_def len)
    have "8 * byte_count ?n = ?n" using True by (auto simp: byte_count_eq)
    with True idx show ?thesis unfolding e by (auto simp: bs_wf_def bs_bit_def fill)
  next
    case False
    let ?m = "?n div 8"
    let ?last = "?fill ! ?m AND NOT (pad_mask (?n mod 8))"
    have m: "?m < byte_count ?n" using False by (rule byte_count_pad)
    have e: "bs_SetBytes bs buf = Inr (bs\<lparr>bs_buf := ?fill[?m := ?last]\<rparr>)"
      using False m by (simp add: bs_SetBytes_def bs_bitIndex_def len pad_mask_def)
    have bits: "bs_bit (bs\<lparr>bs_buf := ?fill[?m := ?last]\<rparr>) k \<longleftrightarrow>
        k < ?n \<and> k div 8 < length buf \<and> bit (buf ! (k div 8)) (7 - k mod 8)"
      if k: "k < 8 * byte_count ?n" for k
    proof (cases "k div 8 = ?m")
      case True
      have "k < ?n \<longleftrightarrow> k mod 8 < ?n mod 8"
        using True div_mult_mod_eq[of k 8] div_mult_mod_eq[of ?n 8] by linarith
      moreover have "k mod 8 < ?n mod 8 \<longleftrightarrow> \<not> 7 - k mod 8 < 8 - ?n mod 8"
        using mod_less_divisor[of 8 k] mod_less_divisor[of 8 ?n] by linarith
      ultimately show ?thesis using True m fill(2)[OF m]
        by (auto simp: bs_bit_def bit_and_iff bit_not_iff pad_mask_bit)
    next
      case False
      have "8 * byte_count ?n = 8 * ?m + 8"
        using \<open>?n mod 8 \<noteq> 0\<close> by (simp add: byte_count_eq)
      with k False have "k div 8 < ?m" by linarith
      then have "k < ?n" using div_mult_mod_eq[of k 8] div_mult_mod_eq[of ?n 8]
          mod_less_divisor[of 8 k] by linarith
      with False idx[OF k] show ?thesis by (auto simp: bs_bit_def fill)
    qed
    have "bs_wf (bs\<lparr>bs_buf := ?fill[?m := ?last]\<rparr>)"
      using m by (simp add: bs_wf_def len) (simp add: and.assoc)
    with e bits show ?thesis by auto
  qed
qed

lemma le_bytes_nth: "i < length (le_bytes n) \<Longrightarrow> le_bytes n ! i = of_nat (n div 256 ^ i)"
proof (induction i arbitrary: n)
  case 0
  then have "0 < n" by (cases n) auto
  then show ?case by (simp add: le_bytes_pos)
next
  case (Suc i)
  then have "0 < n" by (cases n) auto
  with Suc show ?case by (simp add: le_bytes_pos div_mult2_eq mult.commute)
qed

lemma le_bytes_beyond: "length (le_bytes n) \<le> i \<Longrightarrow> n div 256 ^ i = 0"
proof (induction i arbitrary: n)
  case 0
  then show ?case by (cases "n = 0") (auto simp: le_bytes_pos)
next
  case (Suc i)
  show ?case
  proof (cases "n = 0")
    case False
    then have "length (le_bytes (n div 256)) \<le> i" using Suc.prems by (simp add: le_bytes_pos)
    from Suc.IH[OF this] show ?thesis by (simp add: div_mult2_eq)
  qed simp
qed

lemma word_bit_of_nat: "j < 8 \<Longrightarrow> bit (of_nat n :: byte) j \<longleftrightarrow> bit n j"
proof -
  assume j: "j < 8"
  have "bit (of_nat n :: byte) j \<longleftrightarrow> bit (unat (of_nat n :: byte)) j"
    by (simp add: bit_unsigned_iff)
  also have "\<dots> \<longleftrightarrow> bit n j" using j by (simp add: unsigned_of_nat bit_take_bit_iff)
  finally show ?thesis .
qed

lemma le_bytes_bit:
  assumes "j < 8"
  shows "(i < length (le_bytes n) \<and> bit (le_bytes n ! i) j) \<longleftrightarrow> bit n (8 * i + j)"
proof -
  have d: "bit n (8 * i + j) \<longleftrightarrow> bit (n div 256 ^ i) j"
    by (simp add: bit_iff_odd power_add power_mult div_mult2_eq)
  show ?thesis
  proof (cases "i < length (le_bytes n)")
    case True
    with assms show ?thesis by (simp add: d le_bytes_nth word_bit_of_nat)
  next
    case False
    then show ?thesis using le_bytes_beyond[of n i] by (simp add: d)
  qed
qed

text \<open>The bits of the bitstring of a field element, as bits of the integer.\<close>

lemma NewZpBitstring_ok:
  assumes z: "felem p z"
  shows "\<exists>bs. NewZpBitstring z = Inr bs \<and> bs_wf bs \<and> bs_bits bs = big_BitLen p
    \<and> (\<forall>k < 8 * byte_count (big_BitLen p). bs_bit bs k \<longleftrightarrow>
          k < big_BitLen p \<and> bit (nat (zp_i z)) (8 * (k div 8) + (7 - k mod 8)))"
proof -
  have zb: "zp_p z = Some p" "zp_Bytes z = le_bytes (nat (zp_i z))"
    using z by (auto simp: felem_def zp_Bytes_le)
  have "length (bs_buf (NewBitstring (big_BitLen p))) = byte_count (bs_bits (NewBitstring (big_BitLen p)))"
    by (simp add: NewBitstring_buf)
  from bs_SetBytes_ok[OF this, of "le_bytes (nat (zp_i z))"] show ?thesis
    by (simp add: NewZpBitstring_def zb le_bytes_bit)
qed

text \<open>Reading a well-formed bitstring at every position the accessor allows.\<close>

lemma bs_wf_Get:
  assumes "bs_wf bs" "k < bs_bits bs"
  shows "bs_Get bs (int k) = Inr (if bs_bit bs k then 1 else 0)"
  using assms byte_count_index by (intro bs_Get_ok) (auto simp: bs_wf_def)

lemma bs_wf_Get_end:
  assumes "bs_wf bs" "bs_bits bs mod 8 \<noteq> 0"
  shows "bs_Get bs (int (bs_bits bs)) = Inr 0"
proof -
  let ?n = "bs_bits bs"
  have m: "?n div 8 < length (bs_buf bs)"
    using assms byte_count_pad by (auto simp: bs_wf_def)
  have "\<not> bit (bs_buf bs ! (?n div 8) AND pad_mask (?n mod 8)) (7 - ?n mod 8)"
    using assms by (simp add: bs_wf_def)
  moreover have "7 - ?n mod 8 < 8 - ?n mod 8" using mod_less_divisor[of 8 ?n] by linarith
  ultimately have "\<not> bs_bit bs ?n" by (simp add: bs_bit_def bit_and_iff pad_mask_bit)
  with bs_Get_ok[OF m] show ?thesis by simp
qed

end
