(* ===== verification/Primality.thy ===== *)
theory Primality
  imports Zp
begin

text \<open>
  The modulus of SKS is prime. The whole development divides in Z(P_SKS), so this is
  proved rather than assumed: Fermat's little theorem, Pocklington's criterion, and a chain
  of certificates whose arithmetic the kernel replays.
\<close>

section \<open>Prime divisors\<close>

lemma field_primeI:
  assumes "1 < p" "\<And>d. 1 < d \<Longrightarrow> d < p \<Longrightarrow> \<not> d dvd p"
  shows "field_prime p"
  unfolding field_prime_def
proof (intro conjI allI impI)
  fix a :: int
  assume a: "0 < a \<and> a < p"
  have g: "gcd a p dvd p" "0 < gcd a p" "gcd a p \<le> a" using a by (auto simp: zdvd_imp_le)
  with assms(2)[of "gcd a p"] a have "gcd a p = 1" by linarith
  then show "coprime a p" by (simp add: coprime_iff_gcd_eq_1)
qed (rule assms(1))

lemma least_divisor:
  assumes "1 < (n :: int)" "\<not> field_prime n"
  shows "\<exists>r. field_prime r \<and> r dvd n \<and> r * r \<le> n"
proof -
  from assms obtain d where d: "1 < d" "d < n" "d dvd n" using field_primeI by blast
  define P where "P k \<longleftrightarrow> 1 < int k \<and> int k dvd n" for k :: nat
  have "P (nat d)" using d by (simp add: P_def)
  then have L: "P (LEAST k. P k)" by (rule LeastI)
  define r where "r = int (LEAST k. P k)"
  have r: "1 < r" "r dvd n" using L by (auto simp: P_def r_def)
  have min: "r \<le> e" if "1 < e" "e dvd n" for e :: int
    using that Least_le[of P "nat e"] by (simp add: P_def r_def)
  have "field_prime r"
  proof (rule field_primeI[OF r(1)])
    fix e assume "1 < e" "e < r"
    with min[of e] r(2) show "\<not> e dvd r" by (metis dvd_trans not_le)
  qed
  moreover obtain m where m: "n = r * m" using r(2) by (rule dvdE)
  have "r \<le> d" using d by (intro min)
  then have "1 < m"
  proof -
    have "0 < m" using m r(1) assms(1) by (smt (verit) zero_less_mult_pos)
    moreover have "m \<noteq> 1" using m d(2) \<open>r \<le> d\<close> by auto
    ultimately show ?thesis by linarith
  qed
  then have "r \<le> m" using m by (intro min) auto
  then have "r * r \<le> n" using m r(1) by (simp add: mult_left_mono)
  ultimately show ?thesis using r(2) by blast
qed

section \<open>Fermat and Pocklington\<close>

lemma fermat_little:
  assumes "field_prime r" "\<not> r dvd a"
  shows "a ^ nat (r - 1) mod r = 1"
proof -
  let ?S = "{1..<r}"
  have r: "1 < r" using assms(1) by (rule field_prime_gt)
  have cop: "coprime a r" using assms by (simp add: field_prime_coprime mod_eq_0_iff_dvd)
  have inj: "inj_on (\<lambda>x. a * x mod r) ?S"
  proof (rule inj_onI)
    fix x y assume xy: "x \<in> ?S" "y \<in> ?S" "a * x mod r = a * y mod r"
    then have "r dvd a * (x - y)" by (simp add: mod_eq_dvd_iff right_diff_distrib)
    then have "r dvd x - y" using cop by (metis coprime_commute coprime_dvd_mult_right_iff)
    with xy show "x = y" by (metis atLeastLessThan_iff int_one_le_iff_zero_less mod_eq_dvd_iff
          mod_pos_pos_trivial order_less_imp_le)
  qed
  have img: "(\<lambda>x. a * x mod r) ` ?S \<subseteq> ?S"
  proof
    fix y assume "y \<in> (\<lambda>x. a * x mod r) ` ?S"
    then obtain x where x: "x \<in> ?S" "y = a * x mod r" by auto
    have "a * x mod r \<noteq> 0"
      using field_prime_mult_zero[OF assms(1), of a x] x(1) assms(2)
      by (auto simp: mod_eq_0_iff_dvd dest: zdvd_imp_le)
    then show "y \<in> ?S"
      unfolding x(2) atLeastLessThan_iff
      using r pos_mod_sign[of r "a * x"] pos_mod_bound[of r "a * x"] by linarith
  qed
  have bij: "(\<lambda>x. a * x mod r) ` ?S = ?S"
    by (rule card_subset_eq) (auto simp: card_image[OF inj] intro: img[THEN subsetD])
  have "(\<Prod>x\<in>?S. x) = (\<Prod>x\<in>(\<lambda>x. a * x mod r) ` ?S. x)" by (simp only: bij)
  also have "\<dots> = (\<Prod>x\<in>?S. a * x mod r)" by (simp add: prod.reindex[OF inj])
  finally have e: "(\<Prod>x\<in>?S. x) mod r = (a ^ card ?S * (\<Prod>x\<in>?S. x)) mod r"
    by (simp add: mod_prod_eq prod.distrib)
  have "coprime (\<Prod>x\<in>?S. x) r"
    using assms(1) by (intro prod_coprime_left) (auto simp: field_prime_def)
  moreover have "r dvd (\<Prod>x\<in>?S. x) * (a ^ card ?S - 1)"
    using e by (simp add: mod_eq_dvd_iff algebra_simps dvd_diff_commute)
  ultimately have "r dvd a ^ card ?S - 1" by (metis coprime_commute coprime_dvd_mult_right_iff)
  then show ?thesis using r by (simp add: mod_eq_dvd_iff[symmetric])
qed

lemma power_gcd_mod:
  assumes "1 < (r :: int)" "b ^ m mod r = 1" "b ^ n mod r = 1"
  shows "b ^ gcd m n mod r = 1"
  using assms
proof (induction m n rule: gcd_nat_induct)
  case (step m n)
  have "b ^ m mod r = (b ^ (n * (m div n)) * b ^ (m mod n)) mod r"
    by (simp only: power_add[symmetric] mult_div_mod_eq)
  also have "\<dots> = (((b ^ n) ^ (m div n) mod r) * b ^ (m mod n)) mod r"
    by (simp only: power_mult mod_mult_left_eq)
  also have "(b ^ n) ^ (m div n) mod r = (b ^ n mod r) ^ (m div n) mod r"
    by (simp only: power_mod)
  also have "\<dots> * b ^ (m mod n) mod r = b ^ (m mod n) mod r"
    by (simp only: step.prems(3) power_one mod_mult_left_eq mult_1_left)
  finally have "b ^ (m mod n) mod r = 1" using step.prems by simp
  with step have "b ^ gcd n (m mod n) mod r = 1" by simp
  then show ?case by (metis gcd_red_nat)
qed simp

lemma pocklington_step:
  assumes "field_prime (int q)" "n - 1 = int q * int k" "a ^ (q * k) mod n = 1"
    and "coprime (a ^ k - 1) n" "field_prime r" "r dvd n"
  shows "int q dvd r - 1"
proof (rule ccontr)
  assume nd: "\<not> int q dvd r - 1"
  have r: "1 < r" using assms(5) by (rule field_prime_gt)
  let ?b = "a ^ k"
  have b1: "?b ^ q mod r = 1"
  proof -
    have "n dvd ?b ^ q - 1"
      using assms(3) by (metis mod_eq_dvd_iff mod_mod_trivial mult.commute power_mult)
    then have "r dvd ?b ^ q - 1" using assms(6) by (rule dvd_trans[rotated])
    then show ?thesis using r by (simp add: mod_eq_dvd_iff[symmetric])
  qed
  have "\<not> r dvd ?b"
  proof
    assume "r dvd ?b"
    moreover have "0 < q" using field_prime_gt[OF assms(1)] by simp
    ultimately have "r dvd ?b ^ q" by (meson dvd_power dvd_trans)
    then have "?b ^ q mod r = 0" by simp
    with b1 show False by simp
  qed
  from fermat_little[OF assms(5) this] have b2: "?b ^ nat (r - 1) mod r = 1" .
  have "gcd q (nat (r - 1)) = 1"
  proof -
    have "coprime (r - 1) (int q)"
      using nd by (intro field_prime_coprime[OF assms(1)]) (simp add: mod_eq_0_iff_dvd)
    then have "coprime (int (nat (r - 1))) (int q)" using r by simp
    then have "coprime q (nat (r - 1))" by (simp only: coprime_int_iff coprime_commute)
    then show ?thesis by (simp only: coprime_iff_gcd_eq_1)
  qed
  with power_gcd_mod[OF r b1 b2] have "?b mod r = 1" by simp
  then have "r dvd ?b - 1" using r by (simp add: mod_eq_dvd_iff[symmetric])
  with assms(4,6) have "is_unit r" by (metis coprime_common_divisor)
  with r show False by simp
qed

text \<open>Pocklington with a factored part \<open>F\<close> of \<open>n - 1\<close> above the square root of \<open>n\<close>.\<close>

lemma pocklington:
  assumes "1 < n" "\<And>r. field_prime r \<Longrightarrow> r dvd n \<Longrightarrow> F dvd r - 1" "0 < F" "n < F * F"
  shows "field_prime n"
proof (rule ccontr)
  assume "\<not> field_prime n"
  from least_divisor[OF assms(1) this] obtain r where r: "field_prime r" "r dvd n" "r * r \<le> n" by auto
  have "0 < r - 1" using field_prime_gt[OF r(1)] by simp
  with assms(2)[OF r(1,2)] have "F \<le> r - 1" by (intro zdvd_imp_le)
  then have "F \<le> r" by simp
  then have "F * F \<le> r * r" using assms(3) by (intro mult_mono) auto
  with r(3) assms(4) show False by simp
qed

section \<open>Certified powers\<close>

text \<open>
  A power modulo \<open>n\<close> is certified by the quotients and remainders of its square-and-multiply
  steps, so that the kernel multiplies but never divides: each step \<open>(m, q, r)\<close> takes the
  current power \<open>c\<close> to \<open>c * c * a = q * n + r\<close> (or \<open>c * c\<close>) and doubles the exponent.
\<close>

fun pow_steps :: "int \<Rightarrow> int \<Rightarrow> int \<Rightarrow> int \<Rightarrow> (bool \<times> int \<times> int) list \<Rightarrow> (int \<times> int) option" where
  "pow_steps a n c e [] = Some (c, e)"
| "pow_steps a n c e ((m, q, r) # xs) =
     (if (if m then c * c * a else c * c) = q * n + r
      then pow_steps a n r (if m then 2 * e + 1 else 2 * e) xs else None)"

lemma pow_steps_correct:
  assumes "pow_steps a n c e xs = Some (d, k)" "0 \<le> e" "a ^ nat e mod n = c mod n"
  shows "0 \<le> k \<and> a ^ nat k mod n = d mod n"
  using assms
proof (induction a n c e xs rule: pow_steps.induct)
  case (2 a n c e m q r xs)
  let ?e = "if m then 2 * e + 1 else 2 * e"
  from 2(2) have s: "(if m then c * c * a else c * c) = q * n + r"
    "pow_steps a n r ?e xs = Some (d, k)" by (auto split: if_splits)
  have sq: "a ^ (nat e + nat e) mod n = c * c mod n"
    using 2(4) by (simp add: power_add) (metis mod_mult_eq)
  have "a ^ nat ?e mod n = (if m then c * c * a else c * c) mod n"
  proof (cases m)
    case True
    have "nat ?e = Suc (nat e + nat e)" using True 2(3) by (simp add: nat_add_distrib nat_mult_distrib)
    then have "a ^ nat ?e mod n = (a ^ (nat e + nat e) mod n * a) mod n"
      by (simp only: power_Suc2 mod_mult_left_eq)
    with True sq show ?thesis by (simp add: mod_mult_left_eq)
  next
    case False
    then have "nat ?e = nat e + nat e" using 2(3) by (simp add: nat_mult_distrib)
    with False sq show ?thesis by simp
  qed
  also have "\<dots> = r mod n" unfolding s(1) by simp
  finally show ?case using 2(1)[OF s(1) s(2)] 2(3) by simp
qed simp

lemma pow_steps_power:
  "pow_steps a n 1 0 xs = Some (d, int k) \<Longrightarrow> a ^ k mod n = d mod n"
  using pow_steps_correct[of a n 1 0 xs d "int k"] by simp

lemma coprime_by_bezout: "(a :: int) * x + n * y = 1 \<Longrightarrow> coprime a n"
  by (metis coprime_iff_gcd_eq_1 gcd_greatest_iff dvd_add dvd_mult2 gcd_dvd1 gcd_dvd2 is_unit_gcd_iff)

section \<open>The chain of certificates\<close>

lemma small_prime:
  assumes "1 < n" "n < m * m" "0 \<le> m" "list_all (\<lambda>d. n mod d \<noteq> 0) [2..m]"
  shows "field_prime n"
proof (rule ccontr)
  assume "\<not> field_prime n"
  from least_divisor[OF assms(1) this] obtain r where r: "field_prime r" "r dvd n" "r * r \<le> n" by auto
  have "r \<le> m"
  proof (rule ccontr)
    assume "\<not> r \<le> m"
    then have "m * m \<le> r * r" using assms(3) by (intro mult_mono) auto
    with r(3) assms(2) show False by simp
  qed
  with field_prime_gt[OF r(1)] have "r \<in> set [2..m]" by simp
  with assms(4) have "n mod r \<noteq> 0" by (auto simp: list_all_iff)
  with r(2) show False by simp
qed

lemma pocklington_cert:
  assumes "field_prime q" "1 < n" "n - 1 = q * k" "0 \<le> k"
    and "pow_steps a n 1 0 xs = Some (c, k)" "pow_steps c n 1 0 ys = Some (1, q)"
    and "(c - 1) * u + n * v = 1" "field_prime r" "r dvd n"
  shows "q dvd r - 1"
proof -
  have q: "0 < q" using field_prime_gt[OF assms(1)] by simp
  have c: "a ^ nat k mod n = c mod n" using pow_steps_power[of a n xs c "nat k"] assms(4,5) by simp
  have "c ^ nat q mod n = 1" using pow_steps_power[of c n ys 1 "nat q"] assms(2,6) q by simp
  then have "(a ^ nat k) ^ nat q mod n = 1" by (metis c power_mod)
  then have p: "a ^ (nat q * nat k) mod n = 1" by (simp add: power_mult[symmetric] mult.commute)
  have "coprime (c - 1) n" by (rule coprime_by_bezout[OF assms(7)])
  moreover have "(a ^ nat k - 1) mod n = (c - 1) mod n" by (metis c mod_diff_left_eq)
  ultimately have "coprime (a ^ nat k - 1) n" using assms(2)
    by (metis coprime_mod_left_iff less_irrefl less_trans zero_less_one)
  with p have "int (nat q) dvd r - 1"
    using assms q by (intro pocklington_step[of "nat q" n "nat k" a r]) auto
  with q show ?thesis by simp
qed

lemma prime_179: "field_prime 179"
  by (rule small_prime[of _ 14]; code_simp)

lemma prime_3389: "field_prime 3389"
  by (rule small_prime[of _ 59]; code_simp)

lemma prime_14621: "field_prime 14621"
  by (rule small_prime[of _ 121]; code_simp)

lemma prime_q3_base0: "pow_steps 2 4152995827 1 0
  [(True, 0, 2),
   (False, 0, 4),
   (False, 0, 16),
   (True, 0, 512),
   (False, 0, 262144),
   (True, 33, 390091181),
   (False, 36641291, 875082104),
   (True, 368778934, 3494625214),
   (True, 5881250978, 3475422786),
   (False, 2908397707, 1020633107),
   (False, 250829035, 3459036504),
   (True, 5762073469, 384670169),
   (False, 35629975, 1427374236),
   (True, 981169880, 1975076632),
   (True, 1878609016, 532350616),
   (False, 68239215, 3222823651),
   (True, 5001975787, 723898753),
   (True, 252362114, 2855011740),
   (False, 1962701715, 3497084295),
   (True, 5889530871, 2420618733),
   (False, 1410883924, 1797140141)]
  = Some (1797140141, 1225434)"
  by code_simp

lemma prime_q3_unit0: "pow_steps 1797140141 4152995827 1 0
  [(True, 0, 1797140141),
   (True, 1397604658034900346, 324967079),
   (False, 25428294, 3564063103),
   (True, 5496816251427344107, 4118612380),
   (False, 4084513600, 564517200),
   (False, 76734887, 3599523451),
   (True, 5606740614011662815, 2638932536),
   (True, 3013540450501256798, 1218230790),
   (True, 642213741002724154, 147292742),
   (True, 9388217535360074, 511426326),
   (False, 62980291, 1219612619),
   (True, 643671482640477100, 1)]
  = Some (1, 3389)"
  by code_simp

lemma prime_q3_cert0:
  assumes "field_prime r" "r dvd 4152995827"
  shows "3389 dvd r - 1"
  by (rule pocklington_cert[OF prime_3389 _ _ _ prime_q3_base0 prime_q3_unit0, of "-660414984" "285783643"])
     (use assms in simp_all)

lemma prime_q3_base1: "pow_steps 2 4152995827 1 0
  [(True, 0, 2),
   (False, 0, 4),
   (True, 0, 32),
   (True, 0, 2048),
   (False, 0, 4194304),
   (False, 4236, 95721244),
   (False, 2206252, 1203597132),
   (True, 697639061, 3232052401),
   (False, 2515331861, 556720754),
   (False, 74629980, 2425235056),
   (False, 1416270403, 3288714855),
   (False, 2604299606, 1521926863),
   (False, 557732651, 4136373392),
   (False, 4119817488, 2379963088),
   (True, 2727777506, 1082524026),
   (False, 282171790, 500128346),
   (True, 120456833, 162755541),
   (False, 6378375, 1368161556),
   (True, 901453370, 2787595282),
   (False, 1871104084, 3494002056),
   (False, 2939576844, 1054397148),
   (False, 267699124, 846978356),
   (True, 345472215, 3825478667),
   (True, 7047580898, 3505281132),
   (False, 2958586121, 22084357)]
  = Some (22084357, 23201094)"
  by code_simp

lemma prime_q3_unit1: "pow_steps 22084357 4152995827 1 0
  [(True, 0, 22084357),
   (False, 117437, 3453168050),
   (True, 63410137117551139, 3750395547),
   (True, 74795834673601470, 2482717923),
   (False, 1484202860, 1183968709),
   (False, 337535110, 595140711),
   (True, 1883486810307341, 1467328990),
   (True, 11449282208666337, 1)]
  = Some (1, 179)"
  by code_simp

lemma prime_q3_cert1:
  assumes "field_prime r" "r dvd 4152995827"
  shows "179 dvd r - 1"
  by (rule pocklington_cert[OF prime_179 _ _ _ prime_q3_base1 prime_q3_unit1, of "-255861151" "1360591"])
     (use assms in simp_all)

lemma prime_q3: "field_prime 4152995827"
proof (rule pocklington[of _ 606631])
  fix r :: int
  assume r: "field_prime r" "r dvd 4152995827"
  have "coprime (3389 :: int) 179"
    by (rule coprime_by_bezout[of _ "-15" _ "284"]) simp
  then have "3389 * 179 dvd r - 1"
    by (rule divides_mult[OF prime_q3_cert0[OF r] prime_q3_cert1[OF r]])
  then show "606631 dvd r - 1" by simp
qed simp_all

lemma prime_q2_base0: "pow_steps 2 6915934114753177 1 0
  [(True, 0, 2),
   (True, 0, 8),
   (False, 0, 64),
   (False, 0, 4096),
   (True, 0, 33554432),
   (False, 0, 1125899906842624),
   (True, 366588396938038, 2705524473764026),
   (True, 2116810992320261, 1207154112238155),
   (False, 210704877535620, 3443455112139285),
   (True, 3429004068741436, 6393908308080278),
   (False, 5911285847117565, 2313718816303279),
   (False, 774052307626256, 1886289101536529),
   (True, 1028953288315838, 6041326052818356),
   (False, 5277323333460411, 4890204164566989),
   (False, 3457825996366044, 4092515864604333),
   (False, 2421753276438767, 1280756883162130),
   (False, 237182449478224, 2688423669819252),
   (True, 2090136114231146, 3043221783828166),
   (False, 1339110331576200, 4639273447336156),
   (False, 3112068125872600, 2526095717606136),
   (False, 922675009424348, 1765425550696900)]
  = Some (1765425550696900, 1665288)"
  by code_simp

lemma prime_q2_unit0: "pow_steps 1765425550696900 6915934114753177 1 0
  [(True, 0, 1765425550696900),
   (True, 795604765918481968533644030682, 5698755364023286),
   (True, 8290077459837064559328548032384, 3559559357148432),
   (True, 3234379973152229452801380473994, 2330423477686662),
   (False, 785269711255341, 6348682014733887),
   (True, 10288823350861834345488947767218, 3792829767164514),
   (True, 3672191001538047277073357413208, 2520336363230584),
   (True, 1621494841476531262692398496645, 6586823260335235),
   (True, 11075174595946861306745681986810, 203488521707130),
   (False, 5987271969266, 952729172978818),
   (False, 131246605589922, 5931257967994930),
   (False, 5086777939057749, 2595249421486327),
   (True, 1719320202527938761171659778705, 1642433436724315),
   (False, 390053975256286, 4521655104498603),
   (False, 2956269470587336, 1586059166985137),
   (True, 642151245511912110164435433760, 2780474138060580),
   (True, 1973496135837111944585700507070, 5577013883698610),
   (False, 4497307716193749, 5350680270641527),
   (True, 7308303282231073132550979286752, 1338091809928996),
   (False, 258893399227091, 3924618524849909),
   (True, 3931818478495880555673947304489, 983018991917347),
   (True, 246673432675920080340427870986, 411587339609578),
   (True, 43243673071583648704747512634, 3451814311601382),
   (True, 3041539147227552078670120105920, 203249889527760),
   (True, 10545306253814879163273923044, 6460612852929212),
   (True, 10654816991750588136077572806240, 1771735898449120),
   (True, 801302559828219929708134888163, 569849635416149),
   (True, 82893239047590390278678283266, 2251548041640818),
   (False, 733012851149396, 2379400431078032),
   (False, 818623531901066, 6471617499806342),
   (True, 10691145545057440315904655000284, 1724736744909332),
   (True, 759353838099832488517989249687, 1)]
  = Some (1, 4152995827)"
  by code_simp

lemma prime_q2_cert0:
  assumes "field_prime r" "r dvd 6915934114753177"
  shows "4152995827 dvd r - 1"
  by (rule pocklington_cert[OF prime_q3 _ _ _ prime_q2_base0 prime_q2_unit0, of "1522434237377954" "-388630697939885"])
     (use assms in simp_all)

lemma prime_q2: "field_prime 6915934114753177"
  by (rule pocklington[of _ 4152995827]) (simp_all add: prime_q2_cert0)

lemma prime_q1_base0: "pow_steps 2 398665453454291972707393069591229 1 0
  [(True, 0, 2),
   (True, 0, 8),
   (False, 0, 64),
   (False, 0, 4096),
   (True, 0, 33554432),
   (True, 0, 2251799813685248),
   (False, 0, 5070602400912917605986812821504),
   (False, 64492693022099739528845954813, 362676682960625759221229249686839),
   (True, 659873461438027551647450138733560, 150225745762600708427790195678602),
   (True, 113216605524195482121869293224400, 78279863369071237296503192561208),
   (False, 15370624557472527146404641700095, 154349255106049923541517565952509),
   (False, 59758607989151802638106768342835, 245565513717898488613197262400866),
   (True, 302521429961069951000691155763492, 199349193660251159747469113488244),
   (False, 99682830976847174295652259933434, 328635917279253903585496395953150),
   (True, 541815525725553111453596325499352, 394706852128810203736674045461392),
   (True, 781575116517070232873071914677570, 11590368861882384271503090121798),
   (False, 336965867472373802654094291839, 194274511162144552417348514072673),
   (True, 189344651563180974452600115196115, 238774240035555570626008031854523),
   (False, 143009977941551970176203279225147, 394968261099778462316199488121866),
   (True, 782610712438210141548312317329584, 377646002369774036701932386025176),
   (True, 715469584184688974987780567620873, 289106148902870839493857853539035),
   (False, 209655400560138729655972158573717, 380312089555175201850165415603032),
   (True, 725607319162439754441786489877208, 161515831094342665667985451377416),
   (False, 65436730140669720568975523844595, 292623316131447244628992503779801),
   (False, 214787623060452695480516904185909, 7449470094970823332462243807440),
   (True, 278401874127913156793697922534, 324399048390169329121509710852914),
   (False, 263967548942669691180801198652708, 7503318242879843077158248393264),
   (True, 282441250758580575057364686484, 277032242303902558523029579898556),
   (False, 192509440210944701567790332426374, 335924597110224981943731332211490),
   (False, 283057721620729758955483325262128, 297440235609331644296551853344788),
   (False, 221917131250696932053568389661750, 321592428810988860259841129974194),
   (False, 259419744982765362049225918696086, 59063120244222583435086403719942),
   (False, 8750324721536112847833846708362, 384592688195244444659317052326466),
   (True, 742033374257260324547265572629442, 281389692568754773157628457734094),
   (False, 198613043587978047927794427885037, 155779717673284991584152214460363),
   (True, 121742780710497111200845690795466, 185253894405600477313250129615824),
   (True, 172169447315184207321871601222475, 371250044607006739505578724726177),
   (False, 345719937422434999633710374768154, 360726537780586841885955202114063),
   (False, 326398071194017211622477728353508, 4034710483750677994531694186637),
   (True, 81666914183995362460293680339, 259927791048026644572019254592907),
   (True, 338943121224587427089857836570421, 283106732546230109807358846983889),
   (True, 402088625029015742578903346766040, 188531796158638650677082552065482),
   (False, 89158059357349644267488070443903, 372154512609320566703435630565537),
   (True, 694813057190871983935787117178805, 215593082392438428331967851495393),
   (False, 116589929658406783319457189816812, 139675360755503801757112068282501),
   (False, 48936285381991125103122003462137, 5914705087033341020010574018628),
   (True, 175504227735092969052396205789, 40473928719968977064457788580087),
   (False, 4109056583246048603732944957126, 213942409829578595334197862279715),
   (False, 114811439835318392831260908222531, 216638660810649552259471762700626),
   (False, 117723542261262366948473783915578, 283499858415719595204817395526514),
   (False, 201603045925693519152728629216887, 341987380339881715120819803108073),
   (True, 586734402483881893141227611606097, 72336320624232071216777881423445),
   (True, 26250297015272364207858310795355, 241934832480568264496011069394755),
   (True, 293642013172889722073072007118789, 63481546166218338632513767518369),
   (False, 10108492393148255304516035155114, 82901219182953395652587163525055),
   (False, 17239046128706115399585047489990, 245213997342288810834091843455315)]
  = Some (245213997342288810834091843455315, 57644484004532764)"
  by code_simp

lemma prime_q1_unit0: "pow_steps 245213997342288810834091843455315 398665453454291972707393069591229 1 0
  [(True, 0, 245213997342288810834091843455315),
   (True, 36985131549972880421398447207774796324175120011783042406216941837, 295202881798694713944200065033202),
   (False, 218591153728461935190112193325333, 121674589826032835417852842068547),
   (False, 37135662699278082961511659044333, 170643642786029672176932747735952),
   (False, 73041826350837029250803406956356, 269511634279653414160193949944780),
   (True, 44677790653997039348660567339101560701799749692920374067081758531, 394341623754401710602497081721401),
   (False, 390064689272322932637035060837178, 169268443775052933898278395491039),
   (False, 71869297451712254112375474591057, 167708417859908420504195000260468),
   (True, 17300010928774436574396969386769754641991395509442361452014789146, 132372060907629100898219569312126),
   (False, 43952548075355249447238322579982, 168101758645764250392319412461998),
   (False, 70881991441575089739696941186958, 261737717305748485306388668160622),
   (True, 42137549400297783273977650546060878444322501380357571308582670967, 13709406573278151676024047540017),
   (False, 471442476299218383952113186762, 222762254271832712599589342249791),
   (False, 124472841823396317093682185847467, 46759380059514748334654804476738),
   (False, 5484397016609884001473140472713, 392870078374595008216931244486367),
   (False, 387158950304573346234558412338348, 99487844661119316739259247708997),
   (False, 24827411428690094248535443866179, 301423641048556147236138286602018),
   (False, 227900889318932979621858951952980, 47644311497816074681484893259904),
   (False, 5693948142314237796780192581607, 336817517143329184183166380164213),
   (False, 284564511099790419439539849796527, 392666602399635417035618132047686),
   (True, 94838479608429763420297123103936415121237632440122407431726519657, 351823377977967886892158001589287),
   (False, 310485115324946813354993130642510, 326722381943472451900818002623579),
   (True, 65659024625939188534480456486056024390583533831538891702837056220, 103925164864626153844349608071535),
   (True, 6643211785869850975407950045168547865234673713661177475968277400, 111086504366127753350863314161275),
   (False, 30953801854066488929541851457657, 22607154371674881349881917535172),
   (False, 1281985746084556932470699260267, 219023512952157704877913485671441),
   (True, 29506529695419541826539203792720118664675655563869896568413778724, 273979452516809301171662994834719),
   (False, 188290055611796143542577308196927, 235315220010102701275827203855678),
   (False, 138896541670751327501891508585533, 171861171078947345895949159749627),
   (False, 74087839487234668608187342240190, 64693640048441221308580891345619),
   (False, 10498193476393433175377793770183, 344188646125481994448357931968254),
   (True, 72866806064145962759992358722786142111893148589798066992376029539, 298971196141996750354691203149109),
   (True, 54978812060719813839798717093914955288846053203868829955953102495, 280626452012910424641041969411160),
   (False, 197537069959294446632621698013947, 243866554877414499126088701674737),
   (False, 149174943734113921241632520690228, 128958796374140895288343649208957),
   (True, 10229127592198060742825165564963566053048165622973130698348216039, 73905612896329200728224710545504),
   (True, 3359630378464197156557209990488544744111757492767054428978888473, 189927824251912429317123178691723),
   (False, 90483331606763237466167436395498, 111311944729748262141333832821687),
   (False, 31079565415464617216780958531060, 113777666419237228114949837453229),
   (True, 7962522966666140799300047813034289200098924732953692121654457030, 137495248310007553737022444094045),
   (False, 47420570666522866396928876690134, 395069064521904335372382927227339),
   (True, 96002535176990452156316136299085394846105778209151414071023086325, 188887473772263514191131733801690),
   (False, 89494781749776487453986639638874, 340014109091223758890168889019954),
   (True, 71109975854880786663797443420798716784445206598973040862319089478, 219387722625178562056884816858078),
   (False, 120730232383129295384131582678883, 329866897681457666056666013536877),
   (True, 66928967583229630126315968748927552020836005535942770385460663020, 65145825454174574923558761679055),
   (False, 10645463601958084140777934821077, 237416352699986413887821182159392),
   (False, 141388033603034315232869262127974, 168838033815174677252117227869618),
   (True, 17533847528743574221693775985343651776195588007096945492180218031, 389727580151110834271874013935961),
   (True, 93424102756160019882921451033343845545116603391862971971452362406, 85338727194273111416956301077141),
   (False, 18267693616380906988814358378798, 304403231151806643946995832371139),
   (False, 232428785420917059973234581169293, 89034257766384073104302683226224),
   (True, 4875856761628301758470537453236865044247835635047076917547728491, 1)]
  = Some (1, 6915934114753177)"
  by code_simp

lemma prime_q1_cert0:
  assumes "field_prime r" "r dvd 398665453454291972707393069591229"
  shows "6915934114753177 dvd r - 1"
  by (rule pocklington_cert[OF prime_q2 _ _ _ prime_q1_base0 prime_q1_unit0, of "157362914337423020918934439336310" "-96791906406146218929917140215591"])
     (use assms in simp_all)

lemma prime_q1_base1: "pow_steps 2 398665453454291972707393069591229 1 0
  [(True, 0, 2),
   (False, 0, 4),
   (True, 0, 32),
   (True, 0, 2048),
   (False, 0, 4194304),
   (False, 0, 17592186044416),
   (False, 0, 309485009821345068724781056),
   (False, 240254003636910541090, 215446613234750839818507628375526),
   (False, 116431566247177153358388272019146, 291052926112905487119788994106242),
   (False, 212488453827356397298147383277715, 320290962316715384808187148200829),
   (True, 514648558850005195386943454097913, 7736221124405674980075580569405),
   (True, 300247321492894103800279292470, 221723573651002099305951806362420),
   (False, 123314781069205003938796802208936, 186522493402438099632354617234056),
   (True, 174535517154116297142258220601804, 12962855700250037603051112445156),
   (False, 421495332614193050220614090620, 49089755008588726976464144692356),
   (False, 6044677375285923249909513652557, 330401949317502181906471164208183),
   (True, 547654416337940262649592728848016, 261008976872736878405141540671314),
   (True, 341768695621195484876398045987111, 317416709326508514426970992323773),
   (False, 252726606949956931681868672905872, 355157775226289825946275827158841),
   (True, 632796467367593195923568382400362, 271239330758917480379547327301664),
   (True, 369085276454637764732091821750277, 364916028260611789603278806817359),
   (True, 668047389246719299404460820520038, 260207727793170492896437703923060),
   (False, 169836791767681010019165849579622, 68059008613284561209593371428162),
   (False, 11618836328275472656171626629646, 133465309528583172370047333723310),
   (True, 89363092253002651880712446394152, 188966583233370958618873618619392),
   (False, 89569761486716258448952909369642, 182233415166382122770919156379646),
   (False, 83300464877151663718869047045244, 11321410124482277321112334520440),
   (True, 643016976244847023434252410663, 158602870776239100367456304712373),
   (True, 126195387137292897897292375579392, 158704754499959595597657042229490),
   (True, 126357570653059975524112835602188, 378909943897496398846264433311148),
   (False, 360133400926511069721055607576261, 160842283114097413554548266863135),
   (True, 129784207852469745193864033841507, 364596589610509943048606580714347),
   (False, 333439158080587118349110187771562, 1910520475151600748407040806711),
   (False, 9155768212035433855463053172, 51456410498759951601111330809133),
   (True, 13283128289521911967171265773188, 332523728985103101038891164255326),
   (False, 277355435190312184939509205645762, 189601271687841213950575803144778),
   (True, 180344907812626324190595285446036, 379998737988635059572525398920324),
   (False, 362206054278819125657904129979863, 217041858758469444936991488843349),
   (False, 118162153367353057184451347711653, 157419069441086033484948591644264),
   (False, 62159294739439080630554898198334, 386002844933680906718625175289210),
   (True, 747484864845347513599479518668056, 234286562912138357995167824767376),
   (True, 275369702017466972144895207060187, 1122047417670675171598137550929),
   (True, 6316024609570425644833357558, 99215628459239839001537479867300),
   (True, 49383465987681988476076194464845, 365742482774778095136114657735495),
   (True, 671076776516306043243004507393059, 13983866590900526390473203910539),
   (True, 981015651783954011476551388855, 109734166543091569117956754188247),
   (True, 60409484707395426628799217541176, 121245660000864783595255029920714),
   (False, 36874301351347851584265015851872, 285085508428887347314856871839108),
   (False, 203864534566387866015474141776500, 213559099177141378271879359917164),
   (False, 114400403762552563605977309307989, 114359381716604703839143847774415),
   (False, 32804618692909985553907601563720, 175483468657887660246927131980345),
   (False, 77243833157302916431480487677069, 154757544753033004420357879491224),
   (True, 120150353889306493543587493402870, 351810526461269105644653070609122),
   (True, 620924865480705390142786997050292, 111425877456973525451255024132900),
   (False, 31143220611363999376195085760365, 108903366671214472921127662571415),
   (True, 59498224235698719739686000659796, 352477582962146321208741935675166),
   (True, 623281728649112716346611299217736, 167990355421583980059959551417568),
   (True, 141576147469751568675457749724578, 37882097063813210615454803542886),
   (True, 7199285844900519075688101066555, 232026986631414952288302509171897),
   (True, 270083710834640001237635465889780, 222931761274948497238820020417598),
   (False, 124662344716680338788810161756901, 268740237863948531852153768268275),
   (False, 181157697065045534775994054616789, 177480936997662762749739900931944),
   (True, 158024643091778887910799525751649, 125552519117028548796468036551651),
   (False, 39540509266723152080305851978323, 154933812409820089296356611896834),
   (False, 60212105212155028261220689932603, 14798035572106732004926689284469),
   (False, 549287265540411448066357229596, 243130922018078286625278583798477),
   (False, 148276317220795463145067039635196, 169296266576793280244240746223645),
   (False, 71892925831675398348086676451855, 176093420818895794282503408306230),
   (True, 155563481044168140678310134407086, 253488507812325033319372612577106),
   (False, 161178810544431422425552076062337, 265929736135440463511454282893063),
   (False, 177388394074063061465421026006101, 289828158393854099308790563433840),
   (True, 421407777725108752141929894177025, 20139497383184064716340000977475),
   (False, 1017392782175897283986999050787, 115956502127145294231698356628402),
   (False, 33727302601865048770108755203844, 148918290639077590600021463589328),
   (True, 111254472112956211146860745049422, 278697575487617370016991128263530),
   (True, 389661747260383158483674435715081, 320097984761429524744859275497251),
   (True, 514028586929346184634297251871643, 355063218469137780862137430494755),
   (False, 316229781179464309930619534833344, 353780152102320448635951363370249),
   (True, 627896874118745056911838461131299, 306233252177014700809968888867531),
   (False, 235231831417424439470623372415120, 9539175576248423918850767053481),
   (True, 456502412667303578653933265460, 381687408807015193882078083784382),
   (False, 365432411510712288064217759764224, 258825410604590612697763568730628),
   (True, 336074232638848762910071150846615, 376023630062825660260155122208933),
   (False, 354667727390218745963265671883504, 112638922944570082359297516812073),
   (True, 63649994511337583938242435314794, 103982733861743230514610080772832),
   (False, 27121509645936233479108959411419, 296088784658692412444271624456273),
   (False, 219905104997298081249915710825133, 221413545382414477898604279492072),
   (True, 245940337463583306931902456980449, 164935954770666797652742546824547),
   (True, 136474675397126867737428327623342, 70830981752592858479537384643100),
   (True, 25169113263090190200168092269149, 198177055127320057213276277525879),
   (False, 98514041883089163865122458810193, 319188372083933524758869306125444),
   (True, 511111339047954601726921898777323, 281604493863822489505052423494305),
   (True, 397832770696253537879044773397254, 109715612215622050784729323780884),
   (False, 30194528920296543637063622563474, 297135232867443844466266557651910),
   (False, 221462245715536229849970271125126, 140830788552892236874193995528246)]
  = Some (140830788552892236874193995528246, 27266633845447778722891257068)"
  by code_simp

lemma prime_q1_unit1: "pow_steps 140830788552892236874193995528246 398665453454291972707393069591229 1 0
  [(True, 0, 140830788552892236874193995528246),
   (True, 7006227412400544212387231036620281400381280723302318896778253229, 313347669821431994855775044902495),
   (True, 34685019792428885902893854564574639543232865127982820547531936144, 126832212160094794925072755075174),
   (False, 40350649653839761566772364304988, 321535163686712896092070545380024),
   (False, 259327364814906385407648843462828, 371530035128899117754319761904964),
   (True, 48761478453014647183788440120899630387836207982220119018338543801, 59814349185512516697960831325387),
   (False, 8974332582586368769254285889760, 83413214292787051158673313784729),
   (False, 17452639195014021208217656143034, 15876066175528816229235017754655),
   (False, 632233054120573051403886585229, 46549204863785687452238074812584),
   (True, 765444208749096469293913083619107495707006316173638279544530573, 107662180280599747799172932659559),
   (True, 4094636455898361325011913478921217822969376079075609951982087759, 378952394732130433315705328624515),
   (True, 50729235735357770291194263322418026446910869625951883423688505412, 24893339477415566023124589934002),
   (False, 1554381863210286953879278638196, 52509058867130533045529209753120),
   (True, 973996679969617437856616349487244580114438405248807839011706731, 1)]
  = Some (1, 14621)"
  by code_simp

lemma prime_q1_cert1:
  assumes "field_prime r" "r dvd 398665453454291972707393069591229"
  shows "14621 dvd r - 1"
  by (rule pocklington_cert[OF prime_14621 _ _ _ prime_q1_base1 prime_q1_unit1, of "-165368454872488117109606924998955" "58417326356410806294058126043144"])
     (use assms in simp_all)

lemma prime_q1: "field_prime 398665453454291972707393069591229"
proof (rule pocklington[of _ 101117872691806200917])
  fix r :: int
  assume r: "field_prime r" "r dvd 398665453454291972707393069591229"
  have "coprime (6915934114753177 :: int) 14621"
    by (rule coprime_by_bezout[of _ "2212" _ "-1046306426498463"]) simp
  then have "6915934114753177 * 14621 dvd r - 1"
    by (rule divides_mult[OF prime_q1_cert0[OF r] prime_q1_cert1[OF r]])
  then show "101117872691806200917 dvd r - 1" by simp
qed simp_all

lemma prime_P_base0: "pow_steps 2 530512889551602322505127520352579437339 1 0
  [(True, 0, 2),
   (False, 0, 4),
   (True, 0, 32),
   (False, 0, 1024),
   (False, 0, 1048576),
   (False, 0, 1099511627776),
   (True, 0, 2417851639229258349412352),
   (False, 11019537252, 243568303679768659329494794577419919476),
   (False, 111826724149120769569522209101610753267, 380009453747989034694347390199508078063),
   (True, 544405942935336397278441261778084214911, 173750475686413631629578810106269702109),
   (True, 113811477141569229605948174403041840909, 395354713085097238724890174901225794611),
   (True, 589261268621432553457280517426963198961, 262055760924690299918099563327823877863),
   (False, 129446848863299260954274552418408257432, 322968615576612768683668883769116393321),
   (False, 196618647165457609634738741782395142164, 528307736990392169803044881153138547445),
   (False, 526111750460609305745095436543984648354, 107329511470947147754384681857423538019),
   (True, 43428253146982872732159934903866900756, 360192466348902564240330810142843160438),
   (False, 244553177443365010275670490595394593124, 361179950403967957227668815573450094808),
   (False, 245895922875826662896639879011645040769, 87062110897074296416329492180452683173),
   (False, 14287704037240332194976712728098774445, 506528936758088523144115107301545346074),
   (True, 967258548572261405286985081280722678392, 219877281794955903532419855028441148064),
   (False, 91130715203548113307644747102912224121, 205830931780283790577068114311127094077)]
  = Some (205830931780283790577068114311127094077, 1330722)"
  by code_simp

lemma prime_P_unit0: "pow_steps 205830931780283790577068114311127094077 530512889551602322505127520352579437339 1 0
  [(True, 0, 205830931780283790577068114311127094077),
   (False, 79859270739582880356177394878899684666, 175338757165596248038111041835602338155),
   (False, 57950862966517103816580517312650690213, 70837712765925903808515778153434740818),
   (True, 1946900515361248341240640539895604589014685310984237221703872050867451761772, 481694560563260756799970583332094853840),
   (True, 90023974787640653011709557582505797738493786092519718827656910715738652087189, 303926395425196442963960425257827661129),
   (True, 35838641475569843815275872881055479272455691255326373593476368630561391334385, 518275664530932474665370625632071359842),
   (False, 506320712908620730611049254315733943994, 137212221869497180291980124287191872998),
   (True, 7304664835169701269119731534968819312356423743439063973473230837417476970038, 437880657530835626933825343404495043426),
   (False, 361422830652989625382693887309286911420, 141525755584392744157600094420892306096),
   (False, 37755047781520539015195298012600099536, 173951383229010067509280631990683786512),
   (True, 11740064230426337287803892135674525890250882680717864444818326535801892756302, 459252440942056900806989556036609888710),
   (True, 81830960061373177360411394143698010964902170046737461760735621943869348845758, 405445597008060998815147365020669177738),
   (True, 63779318872603904641646465241402145907176841560003139906846913883933756823596, 417791338259903315858687096906793226544),
   (True, 67722590715561290717895474315161715505941341248777771963008322363901758229988, 517323868038974698535579437469741425140),
   (True, 103834035269480402262868258918617118921367165905178667572938710955889459453751, 35686095321896234039761061748418900611),
   (False, 2400502276956633279157433948499174393, 5704449463951822880175962787919313094),
   (True, 12625313589523762924022169676304556314051644138222127062104717301057179028, 104037037074666630638888455035096325880),
   (True, 4199432938356348801307602984726433219609787633276250265868687944735283629727, 233909393437217884640846382043468052347),
   (True, 21228046261988726829448032929640195811775327725134829881593992824691682521902, 190048868369403193079844949064809394715),
   (False, 68082365348405985004174506894923045962, 12952229079434856869528932338673956107),
   (True, 65088420676027063670862222478743011542993513615920241729539298627992150154, 347511910840732901089883056733392855367),
   (True, 46854800043630481405910520756956459039244762139022594771104952559336903347037, 35339969990561471737484113455745212510),
   (False, 2354162365384536322746880234823099573, 151980461330159659437308384136749343853),
   (False, 43539112962271270602388178608692323962, 331906410839298006052500471135761668491),
   (False, 207651628689616542502784874522347932933, 494700077909265724256182418753334231794),
   (True, 94950806390849109914003614224466711294881413264388129015805452825503697261196, 259727221487064172338926116980742086128),
   (True, 26172767004250765079881789754463756789387468266287429159293877855764670992609, 138375753575879980467584221789456962117),
   (False, 36093089451373591855426678110445655594, 400060958749353657328062921132875297323),
   (True, 62096488615939970886020842308729468385965491243957604291288570621789658584520, 445478181531062166016995439285966941053),
   (True, 76995895829609975738245905356800053050547633251464758764153292954726407783269, 530183736795019058748213110026062623102),
   (True, 109060504775554414468161759307141428980812420340612120329608994847659259083511, 384214745362585519617851843383357243879),
   (True, 57274691186351746121155369495146042434338454950518747708711568704844140747327, 46784328725947861448622097174031442504),
   (True, 849210792427296685394252901907004535886070386725523431468629950872338164783, 505198428697078214977672720989738302795),
   (True, 99023593408433230980320984135293591483652770655946658774649481739510387635768, 416346577016427887305059027477664734573),
   (True, 67255018555090469360404020823266426574061638490348977991367760327794810972754, 364935959565267840693681124756177573727),
   (False, 251036793274499172791803564881222978110, 130351252402206888326416115430807021239),
   (True, 6592423764678806980191289981920447902806995260498978390073032264648081499769, 133033137658399545581777541024206223626),
   (True, 6866483304905641359005759450708992808071815113119207134304050264218563714396, 53484288671850799578505304025823378208),
   (True, 1109857313592982837959521958381983688268434075481274926223476552883361463431, 94110448300655707310389675762817793219),
   (True, 3436294557998805301810352970290743687081775181770940044675242380370446687364, 428085489413960469708209721356653660601),
   (True, 71101000830519555650037635118738823665495432407917313818856350738967013156234, 123860391016315521509837391983415125151),
   (False, 28918046601433868423427699514539536837, 83084951159429663947982870097869016058),
   (True, 2678301334622241247893894682189901897510270693846808337693021509835552780136, 384306320125467900095273656171715488924),
   (True, 57301996444005186602457628733670168677775667342392084615263142035247965588164, 462449891765213317462112187028179077156),
   (True, 82974389212922975189864538973645750194670718764515594015645882256254688017587, 478970877225547168788490774136099824879),
   (False, 432436432268617773685516617297290057154, 95398290132143743666093703257995691435),
   (False, 17154783492308432794588249134734531205, 433040621347824548480728195630894695730),
   (False, 353477141518292396951163389420660050374, 356216939394878764856173577388963718114),
   (True, 49231587001865046067655434415797010218449873784085698887537657712219128391002, 176440806962652952361519117168721409014),
   (True, 12078493520820286663239490062331464051343364625560641243388791487186624249014, 79361734286928144345750287927847709346),
   (False, 11872067565318523632933533540099516037, 332114979941454677722125944227628642173),
   (True, 42794861918280923178493178950024355674743830388002033281645098846346017377602, 97174652568102007842450808748653713455),
   (False, 17799592220488044993488069949401957930, 223053074395134981118375823456898888755),
   (True, 19303280747888681433662799358362836635806560419393429858786483557718574078754, 93838825872535674646527724452522806319),
   (True, 3416487454086453287771224332143301744664721435050379971953970435783640540657, 7304470571104343647110960576178533874),
   (True, 20701041085175925574544771218973541591271291064003662965409249828709140093, 427638959693267164101946369988625697925),
   (True, 70952749359639422030002461309849785398135058207406383109276809759039898371029, 79937081768118194641481319264521831294),
   (False, 12044829008779951847400116341016056299, 235265214511425941500163745665230966075),
   (False, 104332471932754926101565187463454500384, 458963312381218533708327924459721467449),
   (False, 397063532782365291286258814655243295010, 272906003785259879606875964683780189211),
   (True, 28896209675214831695617641749649612720928652757910118334489665533932978371982, 397812857301058918361026078580783532219),
   (False, 298305795298946066631866044398974377811, 256009735271416098310488183498224579032),
   (False, 123542680761511380062834892057175797248, 298003848836664828717981092505029413952),
   (True, 34455491253490215123981410623582999223938151378046118714665241363671840712641, 227327092633578293579041299688387763109),
   (True, 20050125491364796265573003155203845989749991711273462184566087714117281944224, 437167158171730126916808313700502466901),
   (True, 74149761226979685758642941026987552797169294055679334757162711330626147809959, 157923819851350547738406319001765507576),
   (True, 9676314607237140668711221447335280559439018090861779683856460219865028264000, 150600843811816688812375678077136922752),
   (False, 42752239584605022490051979693278797897, 419042269362810187517238761065458777421),
   (False, 330993698684966495864947315896705880997, 324158618649442674741895097957467064258),
   (False, 198070229987303485421570735634394631488, 314545394146841500320939044911808760132),
   (False, 186496514839849556312648282126588850577, 221380153179437579765796321625707162821),
   (True, 19014813368077933783894438167136763852639365064069840212494592679096572442858, 321874245962533711272685478491733988295),
   (True, 40196399869232438336544172089446593459028405063771318966470592289416399399030, 528420274783582015870992708944862509755),
   (True, 108336211682320278361255668058446759805078243697271554136283196005358601101705, 485265395045891432143930386844006108930),
   (True, 91363629601700433446756803918991245247537390518827219263565366514346945090232, 507114471408781452730106973640157984652),
   (False, 484748046988203660647091005408680286511, 497803801089314175595418221120576126875),
   (False, 467111410975181291089387963935216386890, 383335148227557751240550385287361179915),
   (True, 57012749196778794788016669233021262820064173318573531511647199967153537454046, 415410462202122350955699539492559482731),
   (False, 325281167537392432593875889797422647635, 35112464834079711130503050706328175096),
   (False, 2323949542048899006693953593915620495, 308370539109553300206907766475477946411),
   (False, 179246143239026851559366868316170912146, 192390744947491227973828695826706761427),
   (True, 14360946107252556835764741740522043384755130966739278521324490915724643472273, 249794249215535227228296578095891401786),
   (True, 24209151681126453633154422776482363116713702580540915960341157056139049094794, 121404738454191994272992813463805925126),
   (False, 27782756667021771898904285552295116819, 335171353866829100008417029864422611235),
   (True, 43586147798772232470954223692476313156180524126324527957222987842254236117797, 330483828976212841003291670461775270142),
   (True, 42375528467315341183206303095971965234690726558242852616901383967334644391056, 395064715799737827407708946172785288644),
   (False, 294198562831989947793475189655666726524, 292960704962361852719146349054488079100),
   (True, 33299172709097628169357316234390390521705103937937037011790269192302958885019, 174612732411549919766883707165298045559),
   (True, 11829503490124029448857655400996683708186887904544445501402322025322759966658, 369707554447182773113653010482010901975),
   (True, 53031187189438357858881527302619486853146059923078658036941254648331241440352, 303778221940731022215789689608478994797),
   (False, 173947155560102479661544589726738437660, 515308602913498713417742061380825284469),
   (True, 103026627978973591538233254016931100057509415574042624880483029447156398343526, 296272846571957734200354274964349137683),
   (True, 34056373509865238250196271978189901085376421411846113903398293128938187154386, 126825415389272657902054277999071800799),
   (False, 30319123824223352294336403391082054138, 258663669720737382558077819400360379619),
   (False, 126117376883998901368543614827760549556, 291120089226843646943242410793884313677),
   (True, 32882062560790596712090866773581982442502466451584436409575777848182959463822, 297232833319443838870582752027720521675),
   (False, 166531971122844597811692602729301365220, 307943510906298062444341044102000856045),
   (True, 36792289493272514159039351949725178410463502924185803638062621777818882379606, 324719366692459988323462540519841077491),
   (False, 198756089025987779418973561861624681434, 99189231734200095751316890609027190955),
   (True, 3817189783954226383372498370866628210081430577705917737362260148071971557911, 14728357929261493240267109837474637096),
   (False, 408895865802219919069967972693929196, 408069085311057479307668715090114663772),
   (True, 64607373955965035897451714527121026638490477726163449337112688937473530671230, 371912687670859896715080824323677073798),
   (False, 260727024686378450399706115591435657440, 329587904271818955109719099019188992644),
   (True, 42146084128291909097833604540510393666516994260886360245493813313471366311246, 40694853531441628642520455223683696278),
   (True, 642530398663097477766871623556197161965100515366142855248790607806351379443, 479206805208136793747973425669076576691),
   (True, 89096501990992325128161771563884463319315127971320562706961407477978432410539, 33806799198006388714456409202451728316),
   (True, 443427688667322066312612766324867299766966242360942171626934293717757830400, 39411134734389573058280924190400239312),
   (False, 2927803587138153442355280274635509032, 67751019662370766662825898254457687496),
   (True, 1780928038890589149332019590963783455845882750948867648742564131629413971629, 1)]
  = Some (1, 398665453454291972707393069591229)"
  by code_simp

lemma prime_P_cert0:
  assumes "field_prime r" "r dvd 530512889551602322505127520352579437339"
  shows "398665453454291972707393069591229 dvd r - 1"
  by (rule pocklington_cert[OF prime_q1 _ _ _ prime_P_base0 prime_P_unit0, of "4668978476756242613616526362202154432" "-1811492631489305735714638316925058029"])
     (use assms in simp_all)

lemma prime_P: "field_prime 530512889551602322505127520352579437339"
  by (rule pocklington[of _ 398665453454291972707393069591229]) (simp_all add: prime_P_cert0)

lemma P_SKS_prime: "field_prime P_SKS"
  using prime_P by (simp add: P_SKS_def)

end
