(* ===== verification/PTree.thy ===== *)
theory PTree
  imports ZSet Bitstring Primality "HOL-Library.Multiset"
begin

text \<open>
  The in-memory prefix tree of \<open>conflux/recon/ptree.go\<close> with the tree parameters of
  \<open>recon/settings.go\<close>: a trie over the bits of field elements whose nodes carry, for every
  sample point, the product of the differences to the elements below. The pointers of a
  \<open>MemPrefixNode\<close> become a datatype; an operation returns the updated node. Configuration
  integers are natural numbers.
\<close>

section \<open>Parameters\<close>

record ptcfg =
  ThreshMult :: nat
  BitQuantum :: nat
  MBar :: nat

definition SplitThreshold :: "ptcfg \<Rightarrow> nat" where
  "SplitThreshold c = ThreshMult c * MBar c"

definition JoinThreshold :: "ptcfg \<Rightarrow> nat" where
  "JoinThreshold c = SplitThreshold c div 2"

definition NumSamples :: "ptcfg \<Rightarrow> nat" where
  "NumSamples c = MBar c + 1"

definition defaultPTreeConfig :: ptcfg where
  "defaultPTreeConfig = \<lparr>ThreshMult = 10, BitQuantum = 2, MBar = 5\<rparr>"

text \<open>\<open>Zpoints\<close> of \<open>conflux/decode.go\<close>: the sample points 0, -1, 1, -2, 2, ...\<close>

definition Zpoints :: "int \<Rightarrow> nat \<Rightarrow> zp list res" where
  "Zpoints p n = rmap (\<lambda>i. Zi (Some p)
     (if i mod 2 = 0 then int ((i + 1) div 2) * 1 else int ((i + 1) div 2) * -1)) [0..<n]"

section \<open>Nodes\<close>

datatype mnode = MNode (n_key: nat) (n_children: "mnode list") (n_elements: "zp list")
  (n_num: int) (n_svalues: "zp list")

definition mem_IsLeaf :: "mnode \<Rightarrow> bool" where
  "mem_IsLeaf n \<longleftrightarrow> length (n_children n) = 0"

definition mem_Size :: "mnode \<Rightarrow> int" where
  "mem_Size n = n_num n"

definition mem_init :: "ptcfg \<Rightarrow> nat \<Rightarrow> mnode" where
  "mem_init c key = MNode key [] [] 0 (map (\<lambda>_. zmk P_SKS 1) [0..<NumSamples c])"

fun mem_Elements :: "mnode \<Rightarrow> zp list" where
  "mem_Elements (MNode k ch es num sv) =
     (if length ch = 0 then es else concat (map mem_Elements ch))"

definition AddElementArray :: "zp list \<Rightarrow> zp \<Rightarrow> zp list res" where
  "AddElementArray points z = rmap (\<lambda>pt. rbind (zp_Sub pt z)
     (\<lambda>m. if zp_IsZero m then Inl (Err ErrSamplePointElement) else Inr m)) points"

definition DelElementArray :: "zp list \<Rightarrow> zp \<Rightarrow> zp list res" where
  "DelElementArray points z = rmap (\<lambda>pt. rbind (zp_Sub pt z) zp_Inv) points"

definition NextChild :: "ptcfg \<Rightarrow> bool \<Rightarrow> bitstring \<Rightarrow> nat \<Rightarrow> nat res" where
  "NextChild c leaf bs depth =
     (if leaf then Inl (Panic (PMsg ''Cannot dereference child of leaf node''))
      else rfold (\<lambda>i childIndex. rbind (bs_Get bs (int (depth * BitQuantum c + i)))
             (\<lambda>b. Inr (if b = 1 then childIndex OR push_bit i 1 else childIndex)))
           [0..<BitQuantum c] 0)"

definition updateSvalues :: "zp list \<Rightarrow> zp list \<Rightarrow> zp list \<Rightarrow> zp list res" where
  "updateSvalues points marray svalues =
     (if length marray \<noteq> length points then Inl (Panic (PMsg ''Inconsistent NumSamples size''))
      else rfold (\<lambda>i sv. rbind (nth_res sv i) (\<lambda>s. rbind (nth_res marray i)
             (\<lambda>m. rbind (zp_Mul s m) (upd_res sv i)))) [0..<length marray] svalues)"

text \<open>
  \<open>split\<close> adds the children and moves the node's elements into them, through the \<open>insert\<close> of
  the children, which is the argument \<open>ins\<close>.
\<close>

definition mem_split ::
  "(zp \<Rightarrow> zp list \<Rightarrow> bitstring \<Rightarrow> nat \<Rightarrow> mnode \<Rightarrow> mnode res) \<Rightarrow> ptcfg \<Rightarrow> zp list \<Rightarrow> nat \<Rightarrow> mnode \<Rightarrow> mnode res" where
  "mem_split ins c points depth n =
     (let children = n_children n @ map (mem_init c) [0..<2 ^ BitQuantum c]
      in rbind (rfold (\<lambda>e ch.
             rbind (NewZpBitstring e) (\<lambda>bs.
             rbind (NextChild c (length ch = 0) bs depth) (\<lambda>childIndex.
             rbind (nth_res ch childIndex) (\<lambda>child.
             rbind (AddElementArray points e) (\<lambda>marray.
             rbind (ins e marray bs (depth + 1) child) (\<lambda>child'.
             Inr (ch[childIndex := child'])))))))
           (n_elements n) children)
         (\<lambda>ch. Inr (MNode (n_key n) ch [] (n_num n) (n_svalues n))))"

text \<open>
  \<open>insert\<close>. The recursion follows the bits of the element, so it is bounded by the length of
  the bitstring; the fuel makes that explicit, and \<open>mem_insert_ok\<close> shows that it suffices.
\<close>

fun mem_insert ::
  "nat \<Rightarrow> ptcfg \<Rightarrow> zp list \<Rightarrow> zp \<Rightarrow> zp list \<Rightarrow> bitstring \<Rightarrow> nat \<Rightarrow> mnode \<Rightarrow> mnode res" where
  "mem_insert 0 c points z marray bs depth n = Inl Diverge"
| "mem_insert (Suc fuel) c points z marray bs depth n =
     rbind (updateSvalues points marray (n_svalues n)) (\<lambda>sv.
     let n1 = MNode (n_key n) (n_children n) (n_elements n) (n_num n + 1) sv in
     if mem_IsLeaf n1 \<and> \<not> SplitThreshold c < length (n_elements n1)
     then rbind (rfold (\<lambda>e _. rbind (zp_Cmp e z)
              (\<lambda>cmp. if cmp = 0 then Inl (Err ErrDuplicate) else Inr ())) (n_elements n1) ())
            (\<lambda>_. Inr (MNode (n_key n1) (n_children n1) (n_elements n1 @ [zp_Set z]) (n_num n1) sv))
     else rbind (if mem_IsLeaf n1
                 then mem_split (\<lambda>e m b d ch. mem_insert fuel c points e m b d ch) c points depth n1
                 else Inr n1) (\<lambda>n2.
          rbind (NextChild c (mem_IsLeaf n2) bs depth) (\<lambda>childIndex.
          rbind (nth_res (n_children n2) childIndex) (\<lambda>child.
          rbind (mem_insert fuel c points z marray bs (depth + 1) child) (\<lambda>child'.
          Inr (MNode (n_key n2) ((n_children n2)[childIndex := child']) (n_elements n2) (n_num n2) (n_svalues n2)))))))"

definition withRemoved :: "zp list \<Rightarrow> zp \<Rightarrow> zp list res" where
  "withRemoved elements z =
     rbind (rfold (\<lambda>e (result, has). rbind (zp_Cmp e z)
              (\<lambda>cmp. Inr (if cmp \<noteq> 0 then (result @ [e], has) else (result, True)))) elements ([], False))
       (\<lambda>(result, has). if has then Inr result
          else Inl (Panic (PMsg ''Remove non-existent element from node'')))"

text \<open>The loop of \<open>join\<close>: the queue of children still to merge, and the elements so far.\<close>

lemma mnode_child_size: "x \<in> set (n_children n) \<Longrightarrow> size x < size n"
  by (cases n) (auto dest: size_list_estimation'[of x _ "size x" size])

lemma mnode_children_size: "size_list size (n_children n) < size n"
  by (cases n) simp

lemma size_list_append_mnode: "size_list size (xs @ ys) = size_list size xs + size_list (size :: mnode \<Rightarrow> nat) ys"
  by (induction xs) auto

function join_loop :: "mnode list \<Rightarrow> zp list \<Rightarrow> zp list" where
  "join_loop [] elements = elements"
| "join_loop (child # children) elements =
     join_loop (children @ n_children child) (elements @ n_elements child)"
  by pat_completeness auto
termination
proof (relation "measure (\<lambda>(q, _). size_list size q)")
  fix child children elements
  show "((children @ n_children child, elements @ n_elements child), (child # children, elements))
    \<in> measure (\<lambda>(q, _). size_list size q)"
    using mnode_children_size[of child] by (simp add: size_list_append_mnode)
qed simp

definition mem_join :: "mnode \<Rightarrow> mnode" where
  "mem_join n = MNode (n_key n) [] (join_loop (n_children n) (n_elements n)) (n_num n) (n_svalues n)"

function mem_remove ::
  "ptcfg \<Rightarrow> zp list \<Rightarrow> zp \<Rightarrow> zp list \<Rightarrow> bitstring \<Rightarrow> nat \<Rightarrow> mnode \<Rightarrow> mnode res" where
  "mem_remove c points z marray bs depth n =
     rbind (updateSvalues points marray (n_svalues n)) (\<lambda>sv.
     let n1 = MNode (n_key n) (n_children n) (n_elements n) (n_num n - 1) sv in
     if \<not> mem_IsLeaf n1 \<and> \<not> n_num n1 \<le> int (JoinThreshold c)
     then rbind (NextChild c (mem_IsLeaf n1) bs depth) (\<lambda>childIndex.
            if childIndex < length (n_children n)
            then rbind (mem_remove c points z marray bs (depth + 1) (n_children n ! childIndex)) (\<lambda>child'.
              Inr (MNode (n_key n1) ((n_children n1)[childIndex := child']) (n_elements n1) (n_num n1) sv))
            else Inl (Panic PIndex))
     else (let n2 = (if mem_IsLeaf n1 then n1 else mem_join n1) in
           rbind (withRemoved (n_elements n2) z) (\<lambda>es.
           Inr (MNode (n_key n2) (n_children n2) es (n_num n2) (n_svalues n2)))))"
  by pat_completeness auto
termination
  by (relation "measure (\<lambda>(c, points, z, marray, bs, depth, n). size n)")
     (auto intro: mnode_child_size)

declare mem_remove.simps [simp del]

section \<open>The tree\<close>

record mtree =
  mt_cfg :: ptcfg
  mt_points :: "zp list"
  mt_root :: mnode
  mt_all :: zset

definition mem_Create :: "mtree \<Rightarrow> mtree" where
  "mem_Create t = t\<lparr>mt_root := mem_init (mt_cfg t) 0\<rparr>"

definition mem_Drop :: "mtree \<Rightarrow> mtree" where
  "mem_Drop t = t\<lparr>mt_root := mem_init (mt_cfg t) 0\<rparr>"

text \<open>\<open>Init\<close> overwrites the configuration with the defaults, whatever it was.\<close>

definition mem_Init :: "mtree \<Rightarrow> mtree res" where
  "mem_Init t = (let c = defaultPTreeConfig in
     rbind (Zpoints P_SKS (NumSamples c)) (\<lambda>pts.
     Inr (mem_Create (t\<lparr>mt_cfg := c, mt_points := pts, mt_all := zset_empty\<rparr>))))"

definition insert_fuel :: "bitstring \<Rightarrow> nat" where
  "insert_fuel bs = bs_bits bs + 2"

definition mem_Insert :: "zp \<Rightarrow> mtree \<Rightarrow> mtree res" where
  "mem_Insert z t =
     (if zset_Contains (mt_all t) z then Inl (Err ErrDuplicate)
      else rbind (NewZpBitstring z) (\<lambda>bs.
           rbind (AddElementArray (mt_points t) z) (\<lambda>marray.
           rbind (mem_insert (insert_fuel bs) (mt_cfg t) (mt_points t) z marray bs 0 (mt_root t)) (\<lambda>root.
           rbind (zset_Add z (mt_all t)) (\<lambda>al.
           Inr (t\<lparr>mt_root := root, mt_all := al\<rparr>))))))"

definition mem_Remove :: "zp \<Rightarrow> mtree \<Rightarrow> mtree res" where
  "mem_Remove z t =
     rbind (NewZpBitstring z) (\<lambda>bs.
     rbind (DelElementArray (mt_points t) z) (\<lambda>marray.
     rbind (mem_remove (mt_cfg t) (mt_points t) z marray bs 0 (mt_root t)) (\<lambda>root.
     Inr (t\<lparr>mt_root := root, mt_all := zset_Remove z (mt_all t)\<rparr>))))"

text \<open>\<open>Node(bs)\<close> walks down while bits remain; the loop variable \<open>i\<close> is the next bit.\<close>

definition node_childIndex :: "ptcfg \<Rightarrow> bitstring \<Rightarrow> nat \<Rightarrow> nat res" where
  "node_childIndex c bs i =
     rfold (\<lambda>j childIndex. rbind (bs_Get bs (int (i + j)))
        (\<lambda>b. Inr (if b = 1 then childIndex OR push_bit j 1 else childIndex))) [0..<BitQuantum c] 0"

function mem_node_from :: "ptcfg \<Rightarrow> bitstring \<Rightarrow> nat \<Rightarrow> mnode \<Rightarrow> mnode res" where
  "mem_node_from c bs i n =
     (if i < bs_BitLen bs \<and> \<not> mem_IsLeaf n
      then rbind (node_childIndex c bs i) (\<lambda>ci.
             if ci < length (n_children n) then mem_node_from c bs (i + BitQuantum c) (n_children n ! ci)
             else Inl (Panic PIndex))
      else Inr n)"
  by pat_completeness auto
termination
  by (relation "measure (\<lambda>(c, bs, i, n). size n)") (auto intro: mnode_child_size)

declare mem_node_from.simps [simp del]

definition mem_Node :: "mtree \<Rightarrow> bitstring \<Rightarrow> mnode res" where
  "mem_Node t bs = mem_node_from (mt_cfg t) bs 0 (mt_root t)"

definition mem_Find :: "mtree \<Rightarrow> zp \<Rightarrow> mnode res" where
  "mem_Find t z = rbind (NewZpBitstring z) (mem_Node t)"

text \<open>
  \<open>Key\<close> follows the parent pointers up to the root; here the keys met on that way, from the
  root down, are the argument.
\<close>

definition mem_Key :: "ptcfg \<Rightarrow> nat list \<Rightarrow> bitstring res" where
  "mem_Key c keys =
     rfold (\<lambda>i bs. rfold (\<lambda>j bs.
         if (drop_bit j (keys ! i)) AND 1 = 1 then bs_Set bs (int (i * BitQuantum c + j))
         else bs_Clear bs (int (i * BitQuantum c + j))) [0..<BitQuantum c] bs)
       (rev [0..<length keys]) (NewBitstring (length keys * BitQuantum c))"

end
