(* ===== verification/Decode.thy ===== *)
theory Decode
  imports Poly Matrix ZSet PTree
begin

text \<open>
  Set reconciliation by rational function interpolation, \<open>conflux/decode.go\<close>. Random
  polynomials take their coefficients from a sequence of byte strings, one per reading of
  \<open>crypto/rand\<close>; the position in the sequence is threaded through. The probabilistic
  factorisation may loop, so it has fuel.
\<close>

section \<open>Interpolation\<close>

definition int_abs :: "int \<Rightarrow> int" where
  "int_abs x = (if x < 0 then 0 - x else x)"

text \<open>Row \<open>j\<close> of the linear system.\<close>

definition interp_row :: "int option \<Rightarrow> zp list \<Rightarrow> zp list \<Rightarrow> nat \<Rightarrow> nat \<Rightarrow> nat \<Rightarrow> matrix \<Rightarrow> matrix res" where
  "interp_row p values points ma mbar j m =
     rbind (Zi p 1) (\<lambda>accum.
     rbind (nth_res points j) (\<lambda>kj.
     rbind (nth_res values j) (\<lambda>fj.
     rbind (rfold (\<lambda>i (m, accum). rbind (mx_Set i j accum m) (\<lambda>m. rbind (zp_Mul accum kj) (\<lambda>accum. Inr (m, accum))))
        [0..<ma] (m, accum)) (\<lambda>(m, accum).
     let kjma = zp_Copy accum in
     rbind (zp_Neg fj) (\<lambda>accum.
     rbind (rfold (\<lambda>i (m, accum). rbind (mx_Set i j accum m) (\<lambda>m. rbind (zp_Mul accum kj) (\<lambda>accum. Inr (m, accum))))
        [ma..<mbar] (m, accum)) (\<lambda>(m, accum).
     rbind (zp_Neg accum) (\<lambda>fjkjmb.
     rbind (zp_Sub fjkjmb kjma) (\<lambda>v. mx_Set mbar j v m))))))))"

definition interp_coeffs :: "int option \<Rightarrow> matrix \<Rightarrow> nat \<Rightarrow> nat \<Rightarrow> nat \<Rightarrow> zp list res" where
  "interp_coeffs p m mbar off n =
     rbind (Zi p 1) (\<lambda>one.
     rbind (rmap (\<lambda>j. mx_Get m mbar (j + off)) [0..<n]) (\<lambda>cs. Inr (cs @ [one])))"

definition interp_matrix :: "zp list \<Rightarrow> zp list \<Rightarrow> int option \<Rightarrow> nat \<Rightarrow> nat \<Rightarrow> matrix res" where
  "interp_matrix values points p ma mbar =
     rbind (Zi p 0) (\<lambda>z.
     rfold (interp_row p values points ma mbar) [0..<mbar] (NewMatrix (mbar + 1) mbar z))"

definition interp_reduce :: "poly \<Rightarrow> poly \<Rightarrow> rational_fn res" where
  "interp_reduce apoly bpoly =
     rbind (PolyGcd apoly bpoly) (\<lambda>g.
     rbind (PolyDiv apoly g) (\<lambda>num.
     rbind (PolyDiv bpoly g) (\<lambda>denom. Inr \<lparr>rf_Num = num, rf_Denom = denom\<rparr>)))"

definition Interpolate :: "zp list \<Rightarrow> zp list \<Rightarrow> int \<Rightarrow> rational_fn res" where
  "Interpolate values points degDiff =
     (if int (length values) < int_abs degDiff then Inl (Err ErrInterpolate)
      else rbind (nth_res values 0) (\<lambda>v0.
        let p = zp_p v0;
            mbar = (if (int (length values) + degDiff) mod 2 \<noteq> 0 then length values - 1 else length values);
            ma = nat ((int mbar + degDiff) div 2);
            mb = nat ((int mbar - degDiff) div 2)
        in rbind (interp_matrix values points p ma mbar) (\<lambda>m.
           rbind (mx_Reduce m) (\<lambda>m.
           rbind (interp_coeffs p m mbar 0 ma) (\<lambda>acoeffs.
           rbind (NewPolySlice acoeffs) (\<lambda>apoly.
           rbind (interp_coeffs p m mbar ma mb) (\<lambda>bcoeffs.
           rbind (NewPolySlice bcoeffs) (\<lambda>bpoly. interp_reduce apoly bpoly))))))))"

section \<open>Powers modulo a polynomial\<close>

definition mul_mod :: "poly \<Rightarrow> poly \<Rightarrow> poly \<Rightarrow> poly res" where
  "mul_mod x y g = rbind (poly_Mul x y) (\<lambda>m. PolyMod m g)"

fun powmod_loop :: "nat \<Rightarrow> poly \<Rightarrow> poly \<Rightarrow> poly \<Rightarrow> poly res" where
  "powmod_loop n h f g =
     rbind (if n mod 2 = 1 then mul_mod h f g else Inr h) (\<lambda>h.
     if n div 2 = 0 then Inr h
     else rbind (mul_mod f f g) (\<lambda>f. powmod_loop (n div 2) h f g))"

declare powmod_loop.simps [simp del]

definition polyPowMod :: "poly \<Rightarrow> int \<Rightarrow> poly \<Rightarrow> poly res" where
  "polyPowMod f n g =
     (if big_BitLen n < 3 then Inl (Err ErrPowModSmallN)
      else rbind (Zi (po_p f) 1) (\<lambda>one. rbind (NewPoly [one]) (\<lambda>h. powmod_loop (nat n) h f g)))"

section \<open>Factoring\<close>

type_synonym rng = "nat \<Rightarrow> byte list"

fun rand_terms :: "int \<Rightarrow> rng \<Rightarrow> nat \<Rightarrow> nat \<Rightarrow> zp list res" where
  "rand_terms p rng c 0 = rbind (Zi (Some p) 1) (\<lambda>one. Inr [one])"
| "rand_terms p rng c (Suc n) = rbind (Zrand p (rng c)) (\<lambda>z. rbind (rand_terms p rng (Suc c) n) (\<lambda>zs. Inr (z # zs)))"

definition PolyRand :: "int \<Rightarrow> nat \<Rightarrow> rng \<Rightarrow> nat \<Rightarrow> (poly \<times> nat) res" where
  "PolyRand p degree rng c =
     rbind (rand_terms p rng c degree) (\<lambda>ts. rbind (NewPoly ts) (\<lambda>r. Inr (r, c + degree)))"

text \<open>One attempt at splitting: the greatest common divisor with a random power minus one.\<close>

definition split_attempt :: "int \<Rightarrow> poly \<Rightarrow> poly \<Rightarrow> poly res" where
  "split_attempt q p r =
     rbind (polyPowMod r (q div 2) p) (\<lambda>h.
     rbind (Zi (po_p p) 1) (\<lambda>one. rbind (NewPoly [one]) (\<lambda>c1.
     rbind (poly_Sub h c1) (PolyGcd p))))"

definition is_one :: "poly \<Rightarrow> poly \<Rightarrow> bool res" where
  "is_one p g = rbind (Zi (po_p p) 1) (\<lambda>one. rbind (NewPoly [one]) (poly_Equal g))"

fun poly_factor :: "nat \<Rightarrow> rng \<Rightarrow> nat \<Rightarrow> poly \<Rightarrow> (poly list \<times> nat) res"
and factor_loop :: "nat \<Rightarrow> rng \<Rightarrow> nat \<Rightarrow> poly \<Rightarrow> poly list \<Rightarrow> (poly list \<times> nat) res" where
  "poly_factor 0 rng c p = Inl Diverge"
| "poly_factor (Suc n) rng c p =
     (if po_degree p \<le> 1 then Inr ([p], c) else factor_loop n rng c p [p])"
| "factor_loop 0 rng c p factors = Inl Diverge"
| "factor_loop (Suc n) rng c p factors =
     (if length factors < po_degree p then
        case po_p p of None \<Rightarrow> Inl (Panic PNil) | Some q \<Rightarrow>
        rbind (PolyRand q (2 * po_degree p - 1) rng c) (\<lambda>(r, c).
        rbind (split_attempt q p r) (\<lambda>g.
        rbind (is_one p g) (\<lambda>one.
        rbind (poly_Equal g p) (\<lambda>whole.
        if \<not> one \<and> \<not> whole then
          rbind (PolyDiv p g) (\<lambda>qfg.
          rbind (poly_factor n rng c g) (\<lambda>(fs, c).
          rbind (poly_factor n rng c qfg) (\<lambda>(qfgFactors, c).
          factor_loop n rng c p (fs @ qfgFactors))))
        else factor_loop n rng c p factors))))
      else Inr (factors, c))"

definition collect_root :: "poly \<Rightarrow> zset \<Rightarrow> zset res" where
  "collect_root f roots =
     rbind (if po_degree f = 0 then
              rbind (Zi (po_p f) 1) (\<lambda>one. rbind (nth_res (po_coeff f) 0) (\<lambda>a. rbind (zp_Cmp a one) (\<lambda>cmp. Inr (cmp = 0))))
            else Inr False) (\<lambda>skip.
     if skip then Inr roots
     else if po_degree f \<noteq> 1 then Inl (Err (ErrMsg ''invalid factor''))
     else rbind (nth_res (po_coeff f) 0) (\<lambda>a. rbind (zp_Neg (zp_Copy a)) (\<lambda>z. zset_Add z roots)))"

definition poly_Factor :: "nat \<Rightarrow> rng \<Rightarrow> nat \<Rightarrow> poly \<Rightarrow> (zset \<times> nat) res" where
  "poly_Factor fuel rng c p =
     rbind (poly_factor fuel rng c p) (\<lambda>(factors, c).
     rbind (rfold collect_root factors zset_empty) (\<lambda>roots. Inr (roots, c)))"

text \<open>
  \<open>factorCheck\<close>. The exponent is always \<open>P_SKS\<close>; the last line accepts every remainder that
  is constant or a multiple of \<open>z\<close>, not only zero.
\<close>

definition catch_err :: "'a res \<Rightarrow> ('a \<Rightarrow> bool res) \<Rightarrow> bool res" where
  "catch_err m f = (case m of Inr x \<Rightarrow> f x | Inl (Err _) \<Rightarrow> Inr False | Inl e \<Rightarrow> Inl e)"

definition factorCheck :: "poly \<Rightarrow> bool res" where
  "factorCheck p =
     (if po_degree p \<le> 1 then Inr True
      else rbind (Zi (po_p p) 0) (\<lambda>c0. rbind (Zi (po_p p) 1) (\<lambda>c1. rbind (NewPoly [c0, c1]) (\<lambda>z.
        catch_err (polyPowMod z P_SKS p) (\<lambda>zq.
        rbind (Zi (po_p p) (-1)) (\<lambda>m1.
        rbind (rfold (\<lambda>i cs. rbind (nth_res cs i) (\<lambda>c. rbind (zp_Mul c m1) (upd_res cs i)))
                 [0..<Suc (po_degree z)] (po_coeff z)) (\<lambda>cs.
        rbind (poly_Add zq (z\<lparr>po_coeff := cs\<rparr>)) (\<lambda>s.
        catch_err (PolyMod s p) (\<lambda>zqmz.
        if po_degree zqmz = 0 then Inr True
        else if po_degree zqmz = 1 then rbind (nth_res (po_coeff zqmz) 0) (\<lambda>a. Inr (zp_IsZero a))
        else Inr False)))))))))"

section \<open>Reconciliation\<close>

definition Reconcile :: "nat \<Rightarrow> rng \<Rightarrow> zp list \<Rightarrow> zp list \<Rightarrow> int \<Rightarrow> (zset \<times> zset) res" where
  "Reconcile fuel rng values points degDiff =
     (if values = [] \<or> points = [] then Inl (Panic PIndex)
      else rbind (Interpolate (butlast values) (butlast points) degDiff) (\<lambda>rfn.
        rbind (poly_Eval (rf_Num rfn) (last points)) (\<lambda>nv.
        rbind (poly_Eval (rf_Denom rfn) (last points)) (\<lambda>dv.
        rbind (zp_Div nv dv) (\<lambda>valFromPoly.
        rbind (zp_Cmp valFromPoly (last values)) (\<lambda>cmp.
        rbind (if cmp \<noteq> 0 then Inr True
               else rbind (factorCheck (rf_Num rfn)) (\<lambda>b. if \<not> b then Inr True
                 else rbind (factorCheck (rf_Denom rfn)) (\<lambda>b. Inr (\<not> b)))) (\<lambda>low.
        if low then Inl (Err ErrLowMBar)
        else rbind (poly_Factor fuel rng 0 (rf_Num rfn)) (\<lambda>(numF, c).
             rbind (poly_Factor fuel rng c (rf_Denom rfn)) (\<lambda>(denomF, _). Inr (numF, denomF))))))))))"

end
