(* ===== verification/PolySpec.thy ===== *)
theory PolySpec
  imports Poly
begin

text \<open>
  The polynomial operations compute what they say: coefficients and values of sums, products,
  quotients and greatest common divisors over a prime field, without panics and within the
  fuel given.
\<close>

section \<open>Well-formed polynomials\<close>

definition pcoef :: "poly \<Rightarrow> nat \<Rightarrow> int" where
  "pcoef x i = (if i < length (po_coeff x) then zp_i (po_coeff x ! i) else 0)"

definition poly_wf :: "int \<Rightarrow> poly \<Rightarrow> bool" where
  "poly_wf p x \<longleftrightarrow> po_p x = Some p \<and> po_degree x < length (po_coeff x)
     \<and> list_all (felem p) (po_coeff x) \<and> (\<forall>i > po_degree x. pcoef x i = 0)
     \<and> (po_degree x = 0 \<or> pcoef x (po_degree x) \<noteq> 0)"

definition pzero :: "poly \<Rightarrow> bool" where
  "pzero x \<longleftrightarrow> po_degree x = 0 \<and> pcoef x 0 = 0"

definition pev :: "int \<Rightarrow> poly \<Rightarrow> int \<Rightarrow> int" where
  "pev p x a = (\<Sum>i\<le>po_degree x. pcoef x i * a ^ i) mod p"

lemma poly_wfD:
  assumes "poly_wf p x"
  shows "po_p x = Some p" "po_degree x < length (po_coeff x)" "list_all (felem p) (po_coeff x)"
    "\<And>i. po_degree x < i \<Longrightarrow> pcoef x i = 0" "po_degree x = 0 \<or> pcoef x (po_degree x) \<noteq> 0"
    "\<And>i. i < length (po_coeff x) \<Longrightarrow> felem p (po_coeff x ! i)"
    "\<And>i. i \<le> po_degree x \<Longrightarrow> felem p (po_coeff x ! i)"
    "\<And>i. i \<le> po_degree x \<Longrightarrow> pcoef x i = zp_i (po_coeff x ! i)"
    "\<And>i. i \<le> po_degree x \<Longrightarrow> nth_res (po_coeff x) i = Inr (po_coeff x ! i)"
    "0 < p"
proof -
  show w: "po_p x = Some p" "po_degree x < length (po_coeff x)" "list_all (felem p) (po_coeff x)"
    "\<And>i. po_degree x < i \<Longrightarrow> pcoef x i = 0" "po_degree x = 0 \<or> pcoef x (po_degree x) \<noteq> 0"
    using assms by (auto simp: poly_wf_def)
  show fe: "felem p (po_coeff x ! i)" if "i < length (po_coeff x)" for i
    using w(3) that by (simp add: list_all_length)
  show "felem p (po_coeff x ! i)" "pcoef x i = zp_i (po_coeff x ! i)" "nth_res (po_coeff x) i = Inr (po_coeff x ! i)"
    if "i \<le> po_degree x" for i using fe w(2) that by (simp_all add: pcoef_def)
  show "0 < p" using fe[OF w(2)] by (rule felem_pos)
qed

lemma pcoef_range:
  assumes "poly_wf p x" shows "0 \<le> pcoef x i" "pcoef x i < p" "pcoef x i mod p = pcoef x i"
proof -
  show r: "0 \<le> pcoef x i" "pcoef x i < p"
    using poly_wfD(6)[OF assms, of i] poly_wfD(10)[OF assms] by (auto simp: pcoef_def felem_def)
  then show "pcoef x i mod p = pcoef x i" by simp
qed

lemma pev_sum:
  assumes "poly_wf p x" "po_degree x \<le> n"
  shows "pev p x a = (\<Sum>i\<le>n. pcoef x i * a ^ i) mod p"
proof -
  have "(\<Sum>i\<le>n. pcoef x i * a ^ i) = (\<Sum>i\<le>po_degree x. pcoef x i * a ^ i)"
    using assms poly_wfD(4)[OF assms(1)] by (intro sum.mono_neutral_right) auto
  then show ?thesis by (simp add: pev_def)
qed

lemma pev_range: "0 < p \<Longrightarrow> 0 \<le> pev p x a \<and> pev p x a < p"
  by (simp add: pev_def)

lemma pev_mod [simp]: "pev p x a mod p = pev p x a"
  by (simp add: pev_def)

lemma pev_zero: "pzero x \<Longrightarrow> pev p x a = 0"
  by (simp add: pev_def pzero_def)

text \<open>Values only depend on the coefficients modulo the prime.\<close>

lemma pev_cong_coef:
  assumes "poly_wf p r" "\<And>i. pcoef r i = f i mod p" "\<And>i. n < i \<Longrightarrow> f i = 0" "po_degree r \<le> n"
  shows "pev p r a = (\<Sum>i\<le>n. f i * a ^ i) mod p"
proof -
  have "pev p r a = (\<Sum>i\<le>n. (f i mod p) * a ^ i) mod p"
    unfolding pev_sum[OF assms(1,4)] assms(2) ..
  also have "\<dots> = (\<Sum>i\<le>n. f i * a ^ i) mod p"
  proof -
    have "(\<Sum>i\<le>n. (f i mod p) * a ^ i) mod p = (\<Sum>i\<le>n. ((f i mod p) * a ^ i) mod p) mod p" by (simp add: mod_sum_eq)
    also have "\<dots> = (\<Sum>i\<le>n. (f i * a ^ i) mod p) mod p" by (simp add: mod_mult_left_eq)
    also have "\<dots> = (\<Sum>i\<le>n. f i * a ^ i) mod p" by (simp add: mod_sum_eq)
    finally show ?thesis .
  qed
  finally show ?thesis .
qed

section \<open>Trimming and building\<close>

lemma trim_degree_ok:
  assumes "d < length cs"
  shows "\<exists>d'. trim_degree cs d = Inr d' \<and> d' \<le> d \<and> (\<forall>i. d' < i \<and> i \<le> d \<longrightarrow> zp_i (cs ! i) = 0)
    \<and> (d' = 0 \<or> zp_i (cs ! d') \<noteq> 0)"
  using assms
proof (induction d)
  case (Suc d)
  show ?case
  proof (cases "zp_i (cs ! Suc d) = 0")
    case True
    from Suc obtain d' where d': "trim_degree cs d = Inr d'" "d' \<le> d" "\<forall>i. d' < i \<and> i \<le> d \<longrightarrow> zp_i (cs ! i) = 0"
      "d' = 0 \<or> zp_i (cs ! d') \<noteq> 0" by auto
    with True Suc.prems show ?thesis by (intro exI[of _ d']) (auto simp: zp_IsZero_def le_Suc_eq)
  next
    case False
    with Suc.prems show ?thesis by (intro exI[of _ "Suc d"]) (auto simp: zp_IsZero_def)
  qed
qed simp

lemma poly_trim_ok:
  assumes "list_all (felem p) cs" "length cs = Suc d"
  obtains r where "poly_trim \<lparr>po_coeff = cs, po_degree = d, po_p = Some p\<rparr> = Inr r" "poly_wf p r"
    "po_degree r \<le> d" "\<And>i. pcoef r i = (if i \<le> d then zp_i (cs ! i) else 0)"
proof -
  obtain d' where d': "trim_degree cs d = Inr d'" "d' \<le> d" "\<And>i. d' < i \<Longrightarrow> i \<le> d \<Longrightarrow> zp_i (cs ! i) = 0"
    "d' = 0 \<or> zp_i (cs ! d') \<noteq> 0" using trim_degree_ok[of d cs] assms(2) by auto
  let ?r = "\<lparr>po_coeff = cs, po_degree = d', po_p = Some p\<rparr>"
  have "poly_trim \<lparr>po_coeff = cs, po_degree = d, po_p = Some p\<rparr> = Inr ?r" using d'(1) by (simp add: poly_trim_def)
  moreover have "poly_wf p ?r" using assms d' by (auto simp: poly_wf_def pcoef_def)
  ultimately show thesis using d'(2) assms(2) by (intro that[of ?r]) (auto simp: pcoef_def)
qed

lemma poly_trim_top:
  assumes "poly_trim \<lparr>po_coeff = cs, po_degree = d, po_p = q\<rparr> = Inr r" "d < length cs" "zp_i (cs ! d) \<noteq> 0"
  shows "po_degree r = d"
  using assms by (cases d) (auto simp: poly_trim_def zp_IsZero_def)

lemma NewPoly_loop:
  assumes "list_all (felem p) cs" "cs \<noteq> []"
  shows "\<exists>r. rfold (newpoly_step cs) [0..<length cs]
     \<lparr>po_coeff = replicate (length cs) \<lparr>zp_i = 0, zp_p = None\<rparr>, po_degree = 0, po_p = None\<rparr> = Inr r
     \<and> po_coeff r = cs \<and> poly_wf p r"
proof -
  let ?n = "length cs"
  let ?P = "\<lambda>i (r :: poly). po_coeff r = take i cs @ replicate (?n - i) \<lparr>zp_i = 0, zp_p = None\<rparr>
    \<and> (0 < i \<longrightarrow> po_p r = Some p \<and> po_degree r < i) \<and> (i = 0 \<longrightarrow> po_degree r = 0)
    \<and> (\<forall>j. po_degree r < j \<and> j < i \<longrightarrow> zp_i (cs ! j) = 0) \<and> (po_degree r = 0 \<or> zp_i (cs ! po_degree r) \<noteq> 0)"
  have "\<exists>r. rfold (newpoly_step cs) [0..<?n]
     \<lparr>po_coeff = replicate ?n \<lparr>zp_i = 0, zp_p = None\<rparr>, po_degree = 0, po_p = None\<rparr> = Inr r \<and> ?P (length [0..<?n]) r"
  proof (rule rfold_inv)
    fix i and r :: poly assume i: "i < length [0..<?n]" and P: "?P i r"
    then have fe: "felem p (cs ! i)" using assms(1) by (simp add: list_all_length)
    have cf: "(po_coeff r)[i := cs ! i] = take (Suc i) cs @ replicate (?n - Suc i) \<lparr>zp_i = 0, zp_p = None\<rparr>"
      using P i by (intro nth_equalityI) (auto simp: nth_list_update nth_append take_Suc_conv_app_nth less_Suc_eq)
    have len: "length (po_coeff r) = ?n" using P i by simp
    obtain c where c: "c = cs ! i" by simp
    have nth: "nth_res cs i = Inr c" "zp_Norm c = Inr c" "zp_p c = Some p" "upd_res (po_coeff r) i c = Inr ((po_coeff r)[i := c])"
      using c i len zp_Norm_felem[OF fe] felem_p[OF fe] by simp_all
    define r1 where "r1 = r\<lparr>po_coeff := (po_coeff r)[i := c]\<rparr>"
    define r2 where "r2 = (if \<not> zp_IsZero c then r1\<lparr>po_degree := i\<rparr> else r1)"
    have st: "newpoly_step cs i r = (if 0 < i then rbind (zp_assertP (Some p) (po_p r2)) (\<lambda>_. Inr r2) else Inr (r2\<lparr>po_p := Some p\<rparr>))"
      by (simp add: newpoly_step_def nth Let_def r1_def r2_def)
    show "\<exists>s'. newpoly_step cs ([0..<?n] ! i) r = Inr s' \<and> ?P (Suc i) s'"
    proof (cases "i = 0")
      case True
      then show ?thesis using st P i cf by (intro exI[of _ "r2\<lparr>po_p := Some p\<rparr>"]) (auto simp: c r1_def r2_def zp_IsZero_def)
    next
      case False
      then have "po_p r2 = Some p" using P by (simp add: r1_def r2_def)
      then show ?thesis using False st P i cf
        by (intro exI[of _ r2]) (auto simp: c r1_def r2_def zp_IsZero_def less_Suc_eq)
    qed
  qed simp
  then obtain r where r: "rfold (newpoly_step cs) [0..<?n]
     \<lparr>po_coeff = replicate ?n \<lparr>zp_i = 0, zp_p = None\<rparr>, po_degree = 0, po_p = None\<rparr> = Inr r" "?P ?n r" by auto
  then have "po_coeff r = cs" by simp
  with r assms show ?thesis by (intro exI[of _ r]) (auto simp: poly_wf_def pcoef_def)
qed

lemma NewPoly_ok:
  assumes "list_all (felem p) cs" "cs \<noteq> []"
  obtains r where "NewPoly cs = Inr r" "po_coeff r = cs" "poly_wf p r"
  using NewPoly_loop[OF assms] unfolding NewPoly_def by blast

lemma NewPolySlice_ok:
  assumes "list_all (felem p) cs" "cs \<noteq> []"
  obtains r where "NewPolySlice cs = Inr r" "po_coeff r = cs" "poly_wf p r"
  using NewPoly_loop[OF assms] unfolding NewPolySlice_def by blast

lemma poly_wf_degree_unique:
  assumes "poly_wf p x" "poly_wf p y" "\<And>i. pcoef x i = pcoef y i"
  shows "po_degree x = po_degree y"
proof -
  have "po_degree a \<le> po_degree b" if "poly_wf p a" "poly_wf p b" "\<And>i. pcoef a i = pcoef b i" for a b
    using poly_wfD(5)[OF that(1)] poly_wfD(4)[OF that(2), of "po_degree a"] that(3)
    by (cases "po_degree a \<le> po_degree b") auto
  then show ?thesis using assms by (metis dual_order.antisym)
qed

lemma NewPoly_const:
  assumes "felem p c"
  obtains r where "NewPoly [c] = Inr r" "poly_wf p r" "po_degree r = 0" "pcoef r 0 = zp_i c" "\<And>a. pev p r a = zp_i c"
proof -
  obtain r where r: "NewPoly [c] = Inr r" "po_coeff r = [c]" "poly_wf p r"
    using NewPoly_ok[of p "[c]"] assms by auto
  moreover have "po_degree r = 0" using poly_wfD(2)[OF r(3)] r(2) by simp
  moreover have "zp_i c mod p = zp_i c" using assms by (simp add: felem_def)
  ultimately show thesis by (intro that[of r]) (auto simp: pcoef_def pev_def)
qed

section \<open>Sums, negation, differences\<close>

lemma poly_Add_ok:
  assumes x: "poly_wf p x" and y: "poly_wf p y"
  obtains r where "poly_Add x y = Inr r" "poly_wf p r" "po_degree r \<le> max (po_degree x) (po_degree y)"
    "\<And>i. pcoef r i = (pcoef x i + pcoef y i) mod p"
proof -
  note X = poly_wfD[OF x] and Y = poly_wfD[OF y]
  let ?d = "max (po_degree x) (po_degree y)"
  let ?cs = "map (\<lambda>i. zmk p (pcoef x i + pcoef y i)) [0..<Suc ?d]"
  have deg: "(if po_degree x < po_degree y then po_degree y else po_degree x) = ?d" by auto
  have step: "rbind (if i \<le> po_degree x then rbind (nth_res (po_coeff x) i) (zp_Add (zp_Z (Some p))) else Inr (zp_Z (Some p)))
           (\<lambda>c. if i \<le> po_degree y then rbind (nth_res (po_coeff y) i) (zp_Add c) else Inr c)
         = Inr (zmk p (pcoef x i + pcoef y i))" for i
  proof -
    have 1: "(if i \<le> po_degree x then rbind (nth_res (po_coeff x) i) (zp_Add (zp_Z (Some p))) else Inr (zp_Z (Some p)))
        = Inr (zmk p (pcoef x i))"
      using X(4)[of i] X(7-9)[of i] zp_Add_ok[of p "zmk p 0" "po_coeff x ! i"] X(10) by (auto simp: zp_Z_mk)
    have 2: "(if i \<le> po_degree y then rbind (nth_res (po_coeff y) i) (zp_Add (zmk p (pcoef x i))) else Inr (zmk p (pcoef x i)))
        = Inr (zmk p (pcoef x i + pcoef y i))"
      using Y(4)[of i] Y(7-9)[of i] zp_Add_ok[of p "zmk p (pcoef x i)" "po_coeff y ! i"] Y(10)
      by (auto simp: zmk_eq_iff mod_add_left_eq)
    show ?thesis unfolding 1 rbind_simps 2 ..
  qed
  have "rmap (\<lambda>i. rbind (if i \<le> po_degree x then rbind (nth_res (po_coeff x) i) (zp_Add (zp_Z (po_p x))) else Inr (zp_Z (po_p x)))
           (\<lambda>c. if i \<le> po_degree y then rbind (nth_res (po_coeff y) i) (zp_Add c) else Inr c))
         [0..<Suc ?d] = Inr ?cs"
    unfolding X(1) by (rule rmap_pure) (rule step)
  then have add: "poly_Add x y = poly_trim \<lparr>po_coeff = ?cs, po_degree = ?d, po_p = Some p\<rparr>"
    unfolding poly_Add_def poly_assertP_def Let_def deg by (simp only: X(1) Y(1) zp_assertP_same rbind_simps)
  have "list_all (felem p) ?cs" "length ?cs = Suc ?d" using X(10) by (simp_all add: list_all_iff)
  then obtain r where r: "poly_trim \<lparr>po_coeff = ?cs, po_degree = ?d, po_p = Some p\<rparr> = Inr r" "poly_wf p r"
    "po_degree r \<le> ?d" "\<And>i. pcoef r i = (if i \<le> ?d then zp_i (?cs ! i) else 0)"
    using poly_trim_ok[of p ?cs ?d] by blast
  have "pcoef r i = (pcoef x i + pcoef y i) mod p" for i
  proof (cases "i \<le> ?d")
    case True
    then show ?thesis unfolding r(4) by (simp del: upt_Suc)
  next
    case False
    then show ?thesis using X(4)[of i] Y(4)[of i] unfolding r(4) by simp
  qed
  with r add show thesis by (intro that[of r]) auto
qed

lemma poly_Copy_ok:
  assumes "poly_wf p x"
  obtains r where "poly_Copy x = Inr r" "poly_wf p r" "po_degree r = po_degree x" "\<And>i. pcoef r i = pcoef x i"
proof -
  have ne: "po_coeff x \<noteq> []" using poly_wfD(2)[OF assms] by auto
  obtain r where r: "NewPolySlice (po_coeff x) = Inr r" "po_coeff r = po_coeff x" "poly_wf p r"
    using NewPolySlice_ok[OF poly_wfD(3)[OF assms] ne] by blast
  moreover have "pcoef r i = pcoef x i" for i using r(2) by (simp add: pcoef_def)
  ultimately show thesis using poly_wf_degree_unique[OF r(3) assms] by (intro that[of r]) (simp_all add: poly_Copy_def)
qed

lemma poly_Neg_ok:
  assumes x: "poly_wf p x"
  obtains r where "poly_Neg x = Inr r" "poly_wf p r" "po_degree r = po_degree x" "\<And>i. pcoef r i = (- pcoef x i) mod p"
proof -
  note X = poly_wfD[OF x]
  let ?n = "Suc (po_degree x)"
  let ?P = "\<lambda>i cs. length cs = length (po_coeff x)
      \<and> (\<forall>j < length (po_coeff x). cs ! j = (if j < i then zmk p (- zp_i (po_coeff x ! j)) else po_coeff x ! j))"
  have "\<exists>cs. rfold (\<lambda>i cs. rbind (nth_res cs i) (\<lambda>c. rbind (zp_Neg c) (upd_res cs i))) [0..<?n] (po_coeff x) = Inr cs
      \<and> ?P (length [0..<?n]) cs"
  proof (rule rfold_inv)
    fix i cs assume i: "i < length [0..<?n]" and P: "?P i cs"
    have l: "i < length (po_coeff x)" "[0..<?n] ! i = i" using i X(2) by (auto simp del: upt_Suc)
    have "cs ! i = po_coeff x ! i" using P l by simp
    then show "\<exists>s'. rbind (nth_res cs ([0..<?n] ! i)) (\<lambda>c. rbind (zp_Neg c) (upd_res cs ([0..<?n] ! i))) = Inr s' \<and> ?P (Suc i) s'"
      unfolding l(2) using P l(1) zp_Neg_ok[OF X(6)[OF l(1)]] by (auto simp: nth_list_update less_Suc_eq)
  qed simp
  then obtain cs where cs: "rfold (\<lambda>i cs. rbind (nth_res cs i) (\<lambda>c. rbind (zp_Neg c) (upd_res cs i))) [0..<?n] (po_coeff x) = Inr cs"
    "?P ?n cs" by (auto simp del: upt_Suc)
  let ?r = "x\<lparr>po_coeff := cs\<rparr>"
  have fe: "list_all (felem p) cs" using cs(2) X(6,10) by (auto simp: list_all_length)
  have cf: "pcoef ?r i = (- pcoef x i) mod p" for i
    using cs(2) X(4)[of i] by (auto simp: pcoef_def)
  have nz: "(- pcoef x i) mod p = 0 \<longleftrightarrow> pcoef x i = 0" for i
    using pcoef_range[OF x, of i] by (simp add: zmod_zminus1_eq_if)
  have "po_degree ?r = 0 \<or> pcoef ?r (po_degree ?r) \<noteq> 0" using X(5) nz unfolding cf by simp
  then have "poly_wf p ?r" using X(1,2,4) cs(2) fe unfolding poly_wf_def cf by simp
  with cs(1) cf show thesis by (intro that[of ?r]) (simp_all add: poly_Neg_def del: upt_Suc)
qed

lemma poly_Sub_ok:
  assumes x: "poly_wf p x" and y: "poly_wf p y"
  obtains r where "poly_Sub x y = Inr r" "poly_wf p r" "po_degree r \<le> max (po_degree x) (po_degree y)"
    "\<And>i. pcoef r i = (pcoef x i - pcoef y i) mod p"
proof -
  obtain c where c: "poly_Copy y = Inr c" "poly_wf p c" "po_degree c = po_degree y" "\<And>i. pcoef c i = pcoef y i"
    using poly_Copy_ok[OF y] by metis
  obtain n where n: "poly_Neg c = Inr n" "poly_wf p n" "po_degree n = po_degree c" "\<And>i. pcoef n i = (- pcoef c i) mod p"
    using poly_Neg_ok[OF c(2)] by metis
  obtain r where r: "poly_Add x n = Inr r" "poly_wf p r" "po_degree r \<le> max (po_degree x) (po_degree n)"
    "\<And>i. pcoef r i = (pcoef x i + pcoef n i) mod p" using poly_Add_ok[OF x n(2)] by metis
  have "pcoef r i = (pcoef x i - pcoef y i) mod p" for i
    unfolding r(4) n(4) c(4) mod_add_right_eq by simp
  with c n r show thesis by (intro that[of r]) (simp_all add: poly_Sub_def)
qed

lemma pev_add:
  assumes "poly_wf p x" "poly_wf p y" "poly_wf p r" "\<And>i. pcoef r i = (pcoef x i + pcoef y i) mod p"
    "po_degree r \<le> max (po_degree x) (po_degree y)"
  shows "pev p r a = (pev p x a + pev p y a) mod p"
proof -
  let ?n = "max (po_degree x) (po_degree y)"
  have "pev p r a = (\<Sum>i\<le>?n. (pcoef x i + pcoef y i) * a ^ i) mod p"
    by (rule pev_cong_coef[OF assms(3,4) _ assms(5)]) (use poly_wfD(4)[OF assms(1)] poly_wfD(4)[OF assms(2)] in auto)
  also have "\<dots> = ((\<Sum>i\<le>?n. pcoef x i * a ^ i) + (\<Sum>i\<le>?n. pcoef y i * a ^ i)) mod p"
    by (simp add: sum.distrib distrib_right)
  also have "\<dots> = (pev p x a + pev p y a) mod p"
    using pev_sum[OF assms(1), of ?n a] pev_sum[OF assms(2), of ?n a] by (simp add: mod_add_eq)
  finally show ?thesis .
qed

lemma pev_sub:
  assumes "poly_wf p x" "poly_wf p y" "poly_wf p r" "\<And>i. pcoef r i = (pcoef x i - pcoef y i) mod p"
    "po_degree r \<le> max (po_degree x) (po_degree y)"
  shows "pev p r a = (pev p x a - pev p y a) mod p"
proof -
  let ?n = "max (po_degree x) (po_degree y)"
  have "pev p r a = (\<Sum>i\<le>?n. (pcoef x i - pcoef y i) * a ^ i) mod p"
    by (rule pev_cong_coef[OF assms(3,4) _ assms(5)]) (use poly_wfD(4)[OF assms(1)] poly_wfD(4)[OF assms(2)] in auto)
  also have "\<dots> = ((\<Sum>i\<le>?n. pcoef x i * a ^ i) - (\<Sum>i\<le>?n. pcoef y i * a ^ i)) mod p"
    by (simp add: sum_subtractf left_diff_distrib)
  also have "\<dots> = (pev p x a - pev p y a) mod p"
    using pev_sum[OF assms(1), of ?n a] pev_sum[OF assms(2), of ?n a] by (simp add: mod_diff_eq)
  finally show ?thesis .
qed

section \<open>Products\<close>

lemma rfold_product:
  "rfold (\<lambda>i s. rfold (g i) ys s) xs s = rfold (\<lambda>(i, j). g i j) (List.product xs ys) s"
proof (induction xs arbitrary: s)
  case (Cons x xs)
  have "rfold (\<lambda>(i, j). g i j) (map (Pair x) ys) s = rfold (g x) ys s" for s
    by (induction ys arbitrary: s) (auto intro: rbind_cong)
  moreover have "rfold (\<lambda>i s. rfold (g i) ys s) xs = rfold (\<lambda>(i, j). g i j) (List.product xs ys)"
    using Cons by (intro ext)
  ultimately show ?case by (simp add: rfold_append)
qed simp

definition conv_at :: "(nat \<Rightarrow> int) \<Rightarrow> (nat \<Rightarrow> int) \<Rightarrow> nat \<Rightarrow> (nat \<times> nat) list \<Rightarrow> int" where
  "conv_at f g k ps = (\<Sum>(i, j)\<leftarrow>ps. if i + j = k then f i * g j else 0)"

lemma conv_at_snoc: "conv_at f g k (ps @ [(i, j)]) = conv_at f g k ps + (if i + j = k then f i * g j else 0)"
  by (simp add: conv_at_def)

abbreviation "mul_pairs x y \<equiv> List.product [0..<Suc (po_degree x)] [0..<Suc (po_degree y)]"

definition mul_step :: "poly \<Rightarrow> poly \<Rightarrow> nat \<Rightarrow> nat \<Rightarrow> zp list \<Rightarrow> zp list res" where
  "mul_step x y i j cs = rbind (nth_res cs (i + j)) (\<lambda>zp. rbind (zp_In zp (po_p x)) (\<lambda>zp.
         rbind (nth_res (po_coeff x) i) (\<lambda>a. rbind (nth_res (po_coeff y) j) (\<lambda>b.
         rbind (zp_Mul a b) (\<lambda>m. rbind (zp_Add zp m) (upd_res cs (i + j)))))))"

definition mul_cell :: "int \<Rightarrow> poly \<Rightarrow> poly \<Rightarrow> nat \<Rightarrow> (nat \<times> nat) list \<Rightarrow> zp" where
  "mul_cell p x y k ps = (if \<exists>(i, j) \<in> set ps. i + j = k then zmk p (conv_at (pcoef x) (pcoef y) k ps)
     else \<lparr>zp_i = 0, zp_p = None\<rparr>)"

lemma conv_at_none: "\<not> (\<exists>(i, j) \<in> set ps. i + j = k) \<Longrightarrow> conv_at f g k ps = 0"
  unfolding conv_at_def by (induction ps) auto

lemma mul_step_ok:
  assumes x: "poly_wf p x" and y: "poly_wf p y" and ij: "i \<le> po_degree x" "j \<le> po_degree y"
    and cs: "i + j < length cs" "cs ! (i + j) = mul_cell p x y (i + j) ps"
  shows "mul_step x y i j cs = Inr (cs[i + j := mul_cell p x y (i + j) (ps @ [(i, j)])])"
proof -
  note X = poly_wfD[OF x] and Y = poly_wfD[OF y]
  let ?m = "pcoef x i * pcoef y j" let ?c = "conv_at (pcoef x) (pcoef y) (i + j) ps"
  have m: "zp_Mul (po_coeff x ! i) (po_coeff y ! j) = Inr (zmk p ?m)"
    using zp_Mul_ok[OF X(7)[OF ij(1)] Y(7)[OF ij(2)]] X(8)[OF ij(1)] Y(8)[OF ij(2)] by simp
  have "zp_In (cs ! (i + j)) (Some p) = Inr (zmk p ?c)"
    using conv_at_none[of ps "i + j" "pcoef x" "pcoef y"] unfolding cs(2) mul_cell_def
    by (auto simp: zp_In_def zmk_def)
  moreover have "zp_Add (zmk p ?c) (zmk p ?m) = Inr (zmk p (?c + ?m))"
    using zp_Add_ok[of p "zmk p ?c" "zmk p ?m"] X(10) by (simp add: zmk_eq_iff mod_add_eq)
  moreover have "mul_cell p x y (i + j) (ps @ [(i, j)]) = zmk p (?c + ?m)"
    by (simp add: mul_cell_def conv_at_snoc)
  ultimately show ?thesis using cs(1) X(9)[OF ij(1)] Y(9)[OF ij(2)] m X(1) by (simp add: mul_step_def)
qed

lemma mul_cell_other: "i + j \<noteq> k \<Longrightarrow> mul_cell p x y k (ps @ [(i, j)]) = mul_cell p x y k ps"
  by (auto simp: mul_cell_def conv_at_snoc)

lemma mul_loop:
  assumes x: "poly_wf p x" and y: "poly_wf p y"
  shows "rfold (\<lambda>i cs. rfold (mul_step x y i) [0..<Suc (po_degree y)] cs) [0..<Suc (po_degree x)]
      (replicate (po_degree x + po_degree y + 1) \<lparr>zp_i = 0, zp_p = None\<rparr>)
    = Inr (map (\<lambda>k. zmk p (conv_at (pcoef x) (pcoef y) k (mul_pairs x y))) [0..<Suc (po_degree x + po_degree y)])"
proof -
  let ?N = "Suc (po_degree x + po_degree y)" let ?ps = "mul_pairs x y"
  let ?z = "replicate ?N \<lparr>zp_i = 0, zp_p = None\<rparr>"
  let ?P = "\<lambda>n cs. cs = map (\<lambda>k. mul_cell p x y k (take n ?ps)) [0..<?N]"
  have "\<exists>cs. rfold (\<lambda>(i, j). mul_step x y i j) ?ps ?z = Inr cs \<and> ?P (length ?ps) cs"
  proof (rule rfold_inv)
    show "?P 0 ?z" by (intro nth_equalityI) (auto simp: mul_cell_def simp del: upt_Suc replicate_Suc)
    fix n cs assume n: "n < length ?ps" and P: "?P n cs"
    obtain i j where ij: "?ps ! n = (i, j)" by (cases "?ps ! n")
    then have "(i, j) \<in> set ?ps" using n by (metis nth_mem)
    then have le: "i \<le> po_degree x" "j \<le> po_degree y" by auto
    have tk: "take (Suc n) ?ps = take n ?ps @ [(i, j)]" using n ij by (simp only: take_Suc_conv_app_nth)
    have "length cs = ?N" "cs ! (i + j) = mul_cell p x y (i + j) (take n ?ps)"
      using P le by (simp_all del: upt_Suc)
    then have "mul_step x y i j cs = Inr (cs[i + j := mul_cell p x y (i + j) (take (Suc n) ?ps)])"
      using mul_step_ok[OF x y le, of cs "take n ?ps"] le unfolding tk by simp
    moreover have "cs[i + j := mul_cell p x y (i + j) (take (Suc n) ?ps)] = map (\<lambda>k. mul_cell p x y k (take (Suc n) ?ps)) [0..<?N]"
    proof (rule nth_equalityI)
      fix k assume "k < length (cs[i + j := mul_cell p x y (i + j) (take (Suc n) ?ps)])"
      then have k: "k < ?N" using P by (simp del: upt_Suc)
      show "cs[i + j := mul_cell p x y (i + j) (take (Suc n) ?ps)] ! k = map (\<lambda>k. mul_cell p x y k (take (Suc n) ?ps)) [0..<?N] ! k"
        using k P mul_cell_other[of i j k p x y "take n ?ps"] unfolding tk
        by (cases "k = i + j") (auto simp del: upt_Suc)
    qed (use P in \<open>simp del: upt_Suc\<close>)
    ultimately show "\<exists>cs'. (case ?ps ! n of (i, j) \<Rightarrow> mul_step x y i j) cs = Inr cs' \<and> ?P (Suc n) cs'"
      unfolding ij by auto
  qed
  moreover have "mul_cell p x y k ?ps = zmk p (conv_at (pcoef x) (pcoef y) k ?ps)" if "k < ?N" for k
  proof -
    have "(min k (po_degree x), k - min k (po_degree x)) \<in> set ?ps" using that by (auto simp del: upt_Suc)
    then have "\<exists>(i, j) \<in> set ?ps. i + j = k" by force
    then show ?thesis by (simp only: mul_cell_def if_True)
  qed
  ultimately show ?thesis unfolding rfold_product by (auto simp del: upt_Suc)
qed

lemma conv_at_pairs: "conv_at f g k (List.product [0..<m] [0..<n]) = (\<Sum>i<m. \<Sum>j<n. if i + j = k then f i * g j else 0)"
proof -
  have "(\<Sum>(i, j)\<leftarrow>List.product xs ys. h i j) = (\<Sum>i\<leftarrow>xs. \<Sum>j\<leftarrow>ys. (h i j :: int))" for h :: "nat \<Rightarrow> nat \<Rightarrow> int" and xs ys
    by (induction xs) (simp_all add: comp_def)
  then show ?thesis by (simp add: conv_at_def interv_sum_list_conv_sum_set_nat atLeast0LessThan)
qed

lemma poly_Mul_ok:
  assumes x: "poly_wf p x" and y: "poly_wf p y"
  obtains r where "poly_Mul x y = Inr r" "poly_wf p r" "po_degree r \<le> po_degree x + po_degree y"
    "\<And>k. pcoef r k = (\<Sum>i\<le>po_degree x. \<Sum>j\<le>po_degree y. if i + j = k then pcoef x i * pcoef y j else 0) mod p"
proof -
  note X = poly_wfD[OF x] and Y = poly_wfD[OF y]
  let ?d = "po_degree x + po_degree y"
  let ?c = "\<lambda>k. \<Sum>i\<le>po_degree x. \<Sum>j\<le>po_degree y. if i + j = k then pcoef x i * pcoef y j else 0"
  let ?cs = "map (\<lambda>k. zmk p (conv_at (pcoef x) (pcoef y) k (mul_pairs x y))) [0..<Suc ?d]"
  have cc: "conv_at (pcoef x) (pcoef y) k (mul_pairs x y) = ?c k" for k
    unfolding conv_at_pairs by (simp only: lessThan_Suc_atMost)
  have mul: "poly_Mul x y = poly_trim \<lparr>po_coeff = ?cs, po_degree = ?d, po_p = Some p\<rparr>"
    using mul_loop[OF x y] unfolding poly_Mul_def mul_step_def poly_assertP_def
    by (simp only: X(1) Y(1) zp_assertP_same rbind_simps)
  have "list_all (felem p) ?cs" "length ?cs = Suc ?d" using X(10) by (simp_all add: list_all_iff)
  then obtain r where r: "poly_trim \<lparr>po_coeff = ?cs, po_degree = ?d, po_p = Some p\<rparr> = Inr r" "poly_wf p r"
    "po_degree r \<le> ?d" "\<And>i. pcoef r i = (if i \<le> ?d then zp_i (?cs ! i) else 0)"
    using poly_trim_ok[of p ?cs ?d] by blast
  have "pcoef r k = ?c k mod p" for k
  proof (cases "k \<le> ?d")
    case True
    then show ?thesis unfolding r(4) by (simp add: cc del: upt_Suc)
  next
    case False
    then have "?c k = 0" by (intro sum.neutral ballI) auto
    with False show ?thesis unfolding r(4) by simp
  qed
  with r mul show thesis by (intro that[of r]) auto
qed

lemma pev_mul_sum:
  fixes f g :: "nat \<Rightarrow> int"
  shows "(\<Sum>k\<le>m + n. (\<Sum>i\<le>m. \<Sum>j\<le>n. if i + j = k then f i * g j else 0) * a ^ k)
    = (\<Sum>i\<le>m. f i * a ^ i) * (\<Sum>j\<le>n. g j * a ^ j)"
proof -
  have "(\<Sum>k\<le>m + n. (\<Sum>i\<le>m. \<Sum>j\<le>n. if i + j = k then f i * g j else 0) * a ^ k)
      = (\<Sum>k\<le>m + n. \<Sum>i\<le>m. \<Sum>j\<le>n. (if i + j = k then f i * g j else 0) * a ^ k)"
    by (simp add: sum_distrib_right)
  also have "\<dots> = (\<Sum>i\<le>m. \<Sum>k\<le>m + n. \<Sum>j\<le>n. (if i + j = k then f i * g j else 0) * a ^ k)" by (rule sum.swap)
  also have "\<dots> = (\<Sum>i\<le>m. \<Sum>j\<le>n. \<Sum>k\<le>m + n. (if i + j = k then f i * g j else 0) * a ^ k)"
    by (intro sum.cong refl sum.swap)
  also have "\<dots> = (\<Sum>i\<le>m. \<Sum>j\<le>n. f i * g j * a ^ (i + j))"
  proof (intro sum.cong refl)
    fix i j assume ij: "i \<in> {..m}" "j \<in> {..n}"
    have "(\<Sum>k\<le>m + n. (if i + j = k then f i * g j else 0) * a ^ k) = (\<Sum>k\<in>{i + j}. f i * g j * a ^ k)"
      using ij by (intro sum.mono_neutral_cong_right) auto
    then show "(\<Sum>k\<le>m + n. (if i + j = k then f i * g j else 0) * a ^ k) = f i * g j * a ^ (i + j)" by simp
  qed
  also have "\<dots> = (\<Sum>i\<le>m. f i * a ^ i) * (\<Sum>j\<le>n. g j * a ^ j)"
    by (simp add: sum_product power_add ac_simps)
  finally show ?thesis .
qed

lemma pev_mul:
  assumes "poly_wf p x" "poly_wf p y" "poly_wf p r" "po_degree r \<le> po_degree x + po_degree y"
    "\<And>k. pcoef r k = (\<Sum>i\<le>po_degree x. \<Sum>j\<le>po_degree y. if i + j = k then pcoef x i * pcoef y j else 0) mod p"
  shows "pev p r a = (pev p x a * pev p y a) mod p"
proof -
  let ?c = "\<lambda>k. \<Sum>i\<le>po_degree x. \<Sum>j\<le>po_degree y. if i + j = k then pcoef x i * pcoef y j else 0"
  have "pev p r a = (\<Sum>k\<le>po_degree x + po_degree y. ?c k * a ^ k) mod p"
    by (rule pev_cong_coef[OF assms(3,5) _ assms(4)]) (auto intro!: sum.neutral)
  then show ?thesis unfolding pev_mul_sum by (simp add: pev_def mod_mult_eq)
qed

lemma conv_top:
  fixes m n :: nat
  shows "(\<Sum>i\<le>m. \<Sum>j\<le>n. if i + j = m + n then f i * g j else (0 :: int)) = f m * g n"
proof -
  have "(\<Sum>j\<le>n. if i + j = m + n then f i * g j else (0 :: int)) = (if i = m then f m * g n else 0)" if "i \<le> m" for i
  proof (cases "i = m")
    case True
    have "(\<Sum>j\<le>n. if i + j = m + n then f i * g j else (0 :: int)) = (\<Sum>j\<in>{n}. f m * g j)"
      using True by (intro sum.mono_neutral_cong_right) auto
    with True show ?thesis by simp
  next
    case False
    with that show ?thesis by (intro sum.neutral[THEN trans]) auto
  qed
  then have "(\<Sum>i\<le>m. \<Sum>j\<le>n. if i + j = m + n then f i * g j else (0 :: int)) = (\<Sum>i\<le>m. if i = m then f m * g n else 0)"
    by (intro sum.cong) auto
  then show ?thesis by simp
qed

lemma pmul_degree:
  assumes p: "field_prime p" and x: "poly_wf p x" "\<not> pzero x" and y: "poly_wf p y" "\<not> pzero y"
    and r: "poly_wf p r" "po_degree r \<le> po_degree x + po_degree y"
    "\<And>k. pcoef r k = (\<Sum>i\<le>po_degree x. \<Sum>j\<le>po_degree y. if i + j = k then pcoef x i * pcoef y j else 0) mod p"
  shows "po_degree r = po_degree x + po_degree y"
    "pcoef r (po_degree r) = (pcoef x (po_degree x) * pcoef y (po_degree y)) mod p" "\<not> pzero r"
proof -
  have top: "pcoef r (po_degree x + po_degree y) = (pcoef x (po_degree x) * pcoef y (po_degree y)) mod p"
    unfolding r(3) conv_top ..
  have "pcoef x (po_degree x) \<noteq> 0" "pcoef y (po_degree y) \<noteq> 0"
    using x y poly_wfD(5)[OF x(1)] poly_wfD(5)[OF y(1)] by (auto simp: pzero_def)
  then have nz: "pcoef r (po_degree x + po_degree y) \<noteq> 0"
    unfolding top field_prime_mult_zero[OF p] using pcoef_range(3)[OF x(1)] pcoef_range(3)[OF y(1)] by simp
  then show d: "po_degree r = po_degree x + po_degree y" using poly_wfD(4)[OF r(1)] r(2) by (meson le_antisym not_le)
  show "pcoef r (po_degree r) = (pcoef x (po_degree x) * pcoef y (po_degree y)) mod p" using top d by simp
  show "\<not> pzero r" using nz d by (auto simp: pzero_def)
qed

section \<open>Division\<close>

lemma poly_IsConstant_ok:
  assumes "poly_wf p x" "felem p c"
  shows "poly_IsConstant x c = Inr (po_degree x = 0 \<and> pcoef x 0 = zp_i c)"
  using poly_wfD(7-9)[OF assms(1), of 0] assms(2)
  by (auto simp: poly_IsConstant_def zp_Cmp_ok[of p] sgn_eq_0_iff)

lemma poly_IsConstant_zero: "poly_wf p x \<Longrightarrow> poly_IsConstant x (zp_Z (Some p)) = Inr (pzero x)"
  using poly_IsConstant_ok[of p x "zmk p 0"] poly_wfD(10)[of p x] by (simp add: zp_Z_mk pzero_def)

lemma PolyTerm_ok:
  assumes "felem p c" "zp_i c \<noteq> 0"
  shows "poly_wf p (PolyTerm d c)" "po_degree (PolyTerm d c) = d"
    "\<And>i. pcoef (PolyTerm d c) i = (if i = d then zp_i c else 0)" "\<not> pzero (PolyTerm d c)"
proof -
  have c: "0 < p" "zp_p c = Some p" "felem p (zmk p 0)" using assms felem_pos felem_p by auto
  show cf: "pcoef (PolyTerm d c) i = (if i = d then zp_i c else 0)" for i
    using c by (auto simp: pcoef_def PolyTerm_def zp_Z_mk simp del: upt_Suc)
  show deg: "po_degree (PolyTerm d c) = d" by (simp add: PolyTerm_def)
  show "\<not> pzero (PolyTerm d c)" using assms(2) by (auto simp: pzero_def cf deg)
  have "list_all (felem p) (po_coeff (PolyTerm d c))"
    using c assms(1) by (auto simp: PolyTerm_def list_all_iff zp_Z_mk simp del: upt_Suc)
  then show "poly_wf p (PolyTerm d c)" using assms(2) c(2)
    by (simp add: poly_wf_def cf deg) (simp add: PolyTerm_def del: upt_Suc)
qed

lemma pzeroI:
  assumes "felem p c" "zp_i c = 0"
  obtains r where "NewPoly [c] = Inr r" "poly_wf p r" "pzero r" "po_degree r = 0"
  using NewPoly_const[OF assms(1)] assms(2) unfolding pzero_def by metis

text \<open>One division step cancels the leading coefficient of the dividend.\<close>

lemma div_step:
  assumes p: "field_prime p" and x: "poly_wf p x" "\<not> pzero x" and y: "poly_wf p y" "\<not> pzero y"
    and deg: "po_degree y \<le> po_degree x"
  obtains c my newX where
    "zp_Div (po_coeff x ! po_degree x) (po_coeff y ! po_degree y) = Inr c" "felem p c" "zp_i c \<noteq> 0"
    "poly_Mul (PolyTerm (po_degree x - po_degree y) c) y = Inr my"
    "poly_Sub x my = Inr newX" "poly_wf p newX" "po_degree newX < po_degree x \<or> pzero newX"
    "\<And>a. pev p x a = (pev p (PolyTerm (po_degree x - po_degree y) c) a * pev p y a + pev p newX a) mod p"
proof -
  note X = poly_wfD[OF x(1)] and Y = poly_wfD[OF y(1)]
  let ?k = "po_degree x - po_degree y"
  let ?lx = "pcoef x (po_degree x)" let ?ly = "pcoef y (po_degree y)"
  let ?c = "zmk p (?lx * finv p ?ly)"
  have c: "zp_Div (po_coeff x ! po_degree x) (po_coeff y ! po_degree y) = Inr ?c"
    using zp_Div_ok[OF X(7) Y(7)] X(8)[of "po_degree x"] Y(8)[of "po_degree y"] by simp
  have l: "?lx \<noteq> 0" "?ly \<noteq> 0" using X(5) Y(5) x(2) y(2) by (auto simp: pzero_def)
  have m: "?lx mod p = ?lx" "?ly mod p = ?ly" using pcoef_range(3) x(1) y(1) by auto
  have fp: "felem p ?c" using X(10) by simp
  have "coprime ?ly p" using field_prime_coprime[OF p] l(2) m(2) by simp
  then have inv: "(?ly * finv p ?ly) mod p = 1 mod p" using X(10) by (intro finv_correct)
  have cl: "(?lx * finv p ?ly * ?ly) mod p = ?lx"
  proof -
    have "(?lx * finv p ?ly * ?ly) mod p = (?lx * ((?ly * finv p ?ly) mod p)) mod p"
      unfolding mod_mult_right_eq by (simp only: ac_simps)
    also have "\<dots> = ?lx" unfolding inv mod_mult_right_eq using m(1) by simp
    finally show ?thesis .
  qed
  have cnz: "zp_i ?c \<noteq> 0"
  proof
    assume "zp_i ?c = 0"
    then have "(?lx * finv p ?ly) mod p = 0" by simp
    then have "(?lx * finv p ?ly * ?ly) mod p = 0" by (simp add: field_prime_mult_zero[OF p])
    with cl l show False by simp
  qed
  note T = PolyTerm_ok[OF fp cnz, of ?k]
  obtain my where my: "poly_Mul (PolyTerm ?k ?c) y = Inr my" "poly_wf p my"
    "po_degree my \<le> po_degree (PolyTerm ?k ?c) + po_degree y"
    "\<And>k. pcoef my k = (\<Sum>i\<le>po_degree (PolyTerm ?k ?c). \<Sum>j\<le>po_degree y. if i + j = k then pcoef (PolyTerm ?k ?c) i * pcoef y j else 0) mod p"
    using poly_Mul_ok[OF T(1) y(1)] by blast
  note D = pmul_degree[OF p T(1,4) y my(2,3,4)]
  have dm: "po_degree my = po_degree x" using D(1) T(2) deg by simp
  have top: "pcoef my (po_degree x) = ?lx"
    using D(2) T(2,3) cl unfolding dm by (simp add: mod_mult_left_eq)
  obtain n where n: "poly_Sub x my = Inr n" "poly_wf p n" "po_degree n \<le> max (po_degree x) (po_degree my)"
    "\<And>i. pcoef n i = (pcoef x i - pcoef my i) mod p" using poly_Sub_ok[OF x(1) my(2)] by blast
  have "pcoef n (po_degree x) = 0" using n(4)[of "po_degree x"] top by simp
  then have "po_degree n < po_degree x \<or> pzero n"
    using n(3) poly_wfD(5)[OF n(2)] unfolding dm pzero_def
    by (cases "po_degree n = po_degree x") auto
  moreover have "pev p x a = (pev p (PolyTerm ?k ?c) a * pev p y a + pev p n a) mod p" for a
  proof -
    have "pev p n a = (pev p x a - pev p my a) mod p" by (rule pev_sub[OF x(1) my(2) n(2,4,3)])
    moreover have "pev p my a = (pev p (PolyTerm ?k ?c) a * pev p y a) mod p" by (rule pev_mul[OF T(1) y(1) my(2,3,4)])
    ultimately have "pev p n a = (pev p x a - pev p (PolyTerm ?k ?c) a * pev p y a) mod p" by (simp only: mod_diff_right_eq)
    then show ?thesis by (simp only: mod_add_right_eq) simp
  qed
  ultimately show thesis using c fp cnz my(1) n(1,2) by (intro that[of ?c my n]) auto
qed

definition divmod_spec :: "int \<Rightarrow> poly \<Rightarrow> poly \<Rightarrow> poly \<Rightarrow> poly \<Rightarrow> bool" where
  "divmod_spec p x y q r \<longleftrightarrow> poly_wf p q \<and> poly_wf p r \<and> (pzero r \<or> po_degree r < po_degree y)
     \<and> (\<forall>a. pev p x a = (pev p q a * pev p y a + pev p r a) mod p)
     \<and> (if pzero x \<or> po_degree x < po_degree y then pzero q
        else \<not> pzero q \<and> po_degree q = po_degree x - po_degree y
          \<and> (pcoef q (po_degree q) * pcoef y (po_degree y)) mod p = pcoef x (po_degree x))"

definition divmod_need :: "poly \<Rightarrow> nat" where
  "divmod_need x = (if pzero x then 1 else po_degree x + 2)"

lemma add_low_degree:
  assumes "poly_wf p q" "poly_wf p m" "poly_wf p r" "pcoef m (po_degree m) \<noteq> 0"
    "pzero q \<or> po_degree q < po_degree m" "po_degree r \<le> max (po_degree q) (po_degree m)"
    "\<And>i. pcoef r i = (pcoef q i + pcoef m i) mod p"
  shows "po_degree r = po_degree m" "pcoef r (po_degree r) = pcoef m (po_degree m)" "\<not> pzero r"
proof -
  have "pcoef q (po_degree m) = 0" using assms(5) poly_wfD(4)[OF assms(1)]
    by (metis (no_types) gr0I pzero_def)
  then have c: "pcoef r (po_degree m) = pcoef m (po_degree m)"
    using assms(7)[of "po_degree m"] pcoef_range(3)[OF assms(2)] by simp
  have "po_degree r \<le> po_degree m" using assms(5,6) by (auto simp: pzero_def)
  moreover have "po_degree m \<le> po_degree r" using c assms(4) poly_wfD(4)[OF assms(3), of "po_degree m"] by force
  ultimately show d: "po_degree r = po_degree m" by simp
  then show "pcoef r (po_degree r) = pcoef m (po_degree m)" "\<not> pzero r" using c assms(4) by (auto simp: pzero_def)
qed

lemma PolyDivmod_ok:
  assumes p: "field_prime p" and y: "poly_wf p y" "\<not> pzero y"
  shows "poly_wf p x \<Longrightarrow> divmod_need x \<le> fuel \<Longrightarrow>
    \<exists>q r. PolyDivmod fuel x y = Inr (q, r) \<and> divmod_spec p x y q r"
proof (induction fuel arbitrary: x)
  case 0
  then show ?case by (simp add: divmod_need_def split: if_splits)
next
  case (Suc fuel)
  note x = Suc.prems(1)
  note X = poly_wfD[OF x] and Y = poly_wfD[OF y(1)]
  have z: "felem p (zmk p 0)" "zp_i (zmk p 0) = 0" using X(10) by simp_all
  obtain zp where zp: "NewPoly [zmk p 0] = Inr zp" "poly_wf p zp" "pzero zp" using pzeroI[OF z] by metis
  have start: "rbind (poly_assertP x (po_p y)) f = f ()" "poly_IsConstant x (zp_Z (po_p x)) = Inr (pzero x)"
    "NewPoly [zp_Z (po_p x)] = Inr zp" "NewPoly [zp_Z (po_p y)] = Inr zp" for f :: "unit \<Rightarrow> (poly \<times> poly) res"
    using poly_IsConstant_zero[OF x] zp(1) by (simp_all add: poly_assertP_def X(1) Y(1) zp_Z_mk)
  consider (zero) "pzero x" | (low) "\<not> pzero x" "po_degree x < po_degree y" | (step) "\<not> pzero x" "po_degree y \<le> po_degree x"
    by linarith
  then show ?case
  proof cases
    case zero
    then have "PolyDivmod (Suc fuel) x y = Inr (zp, zp)" using start by simp
    moreover have "divmod_spec p x y zp zp" using zp zero pev_zero by (simp add: divmod_spec_def)
    ultimately show ?thesis by blast
  next
    case low
    then have "PolyDivmod (Suc fuel) x y = Inr (zp, x)" using start by simp
    moreover have "divmod_spec p x y zp x" using zp low x pev_zero by (simp add: divmod_spec_def)
    ultimately show ?thesis by blast
  next
    case step
    obtain c my newX where s: "zp_Div (po_coeff x ! po_degree x) (po_coeff y ! po_degree y) = Inr c" "felem p c" "zp_i c \<noteq> 0"
      "poly_Mul (PolyTerm (po_degree x - po_degree y) c) y = Inr my"
      "poly_Sub x my = Inr newX" "poly_wf p newX" "po_degree newX < po_degree x \<or> pzero newX"
      "\<And>a. pev p x a = (pev p (PolyTerm (po_degree x - po_degree y) c) a * pev p y a + pev p newX a) mod p"
      using div_step[OF p x step(1) y step(2)] by metis
    let ?m = "PolyTerm (po_degree x - po_degree y) c"
    note T = PolyTerm_ok[OF s(2,3), of "po_degree x - po_degree y"]
    have "divmod_need newX \<le> fuel" using Suc.prems(2) step(1) s(7) by (auto simp: divmod_need_def split: if_splits)
    from Suc.IH[OF s(6) this] obtain q r where qr: "PolyDivmod fuel newX y = Inr (q, r)" "divmod_spec p newX y q r" by blast
    then have Q: "poly_wf p q" "poly_wf p r" "pzero r \<or> po_degree r < po_degree y"
      "\<And>a. pev p newX a = (pev p q a * pev p y a + pev p r a) mod p" "pzero q \<or> po_degree q < po_degree ?m"
      using s(7) step(2) unfolding divmod_spec_def T(2) by (auto split: if_splits)
    obtain q' where q': "poly_Add q ?m = Inr q'" "poly_wf p q'" "po_degree q' \<le> max (po_degree q) (po_degree ?m)"
      "\<And>i. pcoef q' i = (pcoef q i + pcoef ?m i) mod p" using poly_Add_ok[OF Q(1) T(1)] by blast
    have mnz: "pcoef ?m (po_degree ?m) \<noteq> 0" using T(2,3) s(3) by simp
    note A = add_low_degree[OF Q(1) T(1) q'(2) mnz Q(5) q'(3,4)]
    have cond: "po_degree newX < po_degree x \<or> po_degree x = 0" using s(7) by (auto simp: pzero_def)
    have "PolyDivmod (Suc fuel) x y = Inr (q', r)"
      using start step X(9)[of "po_degree x"] Y(9)[of "po_degree y"] s(1,4,5) cond qr(1) q'(1)
      by (simp add: Let_def)
    moreover have "divmod_spec p x y q' r"
    proof -
      have "pev p x a = (pev p q' a * pev p y a + pev p r a) mod p" for a
      proof -
        have "pev p q' a = (pev p q a + pev p ?m a) mod p" by (rule pev_add[OF Q(1) T(1) q'(2,4,3)])
        then have "(pev p q' a * pev p y a + pev p r a) mod p = ((pev p q a + pev p ?m a) * pev p y a + pev p r a) mod p"
          by (metis mod_add_left_eq mod_mult_left_eq)
        also have "\<dots> = (pev p ?m a * pev p y a + (pev p q a * pev p y a + pev p r a)) mod p" by (simp add: algebra_simps)
        also have "\<dots> = (pev p ?m a * pev p y a + pev p newX a) mod p" unfolding Q(4) by (simp only: mod_add_right_eq)
        finally show ?thesis using s(8) by simp
      qed
      moreover have "(pcoef q' (po_degree q') * pcoef y (po_degree y)) mod p = pcoef x (po_degree x)"
      proof -
        have "zp_i c = pcoef x (po_degree x) * finv p (pcoef y (po_degree y)) mod p"
          using s(1) zp_Div_ok[OF X(7) Y(7), of "po_degree x" "po_degree y"] X(8)[of "po_degree x"] Y(8)[of "po_degree y"] by auto
        moreover have "coprime (pcoef y (po_degree y)) p"
          using Y(5) y(2) pcoef_range(3)[OF y(1)] by (intro field_prime_coprime[OF p]) (auto simp: pzero_def)
        moreover have "pcoef x (po_degree x) * finv p (pcoef y (po_degree y)) * pcoef y (po_degree y)
            = pcoef x (po_degree x) * (pcoef y (po_degree y) * finv p (pcoef y (po_degree y)))" by (simp only: ac_simps)
        ultimately have "(zp_i c * pcoef y (po_degree y)) mod p = pcoef x (po_degree x) * (pcoef y (po_degree y) * finv p (pcoef y (po_degree y))) mod p"
          by (simp only: mod_mult_left_eq)
        also have "\<dots> = pcoef x (po_degree x)"
          using finv_correct[OF X(10) \<open>coprime (pcoef y (po_degree y)) p\<close>] pcoef_range(3)[OF x]
          by (metis mod_mult_right_eq mult.right_neutral)
        finally show ?thesis unfolding A(2) T(2,3) by simp
      qed
      ultimately show ?thesis using q'(2) Q(2,3) step A(1,3) T(2) by (simp add: divmod_spec_def)
    qed
    ultimately show ?thesis by blast
  qed
qed

lemma divmod_fuel_enough: "divmod_need x \<le> divmod_fuel x"
  by (simp add: divmod_need_def divmod_fuel_def)

lemma PolyDivmod_total:
  assumes "field_prime p" "poly_wf p x" "poly_wf p y" "\<not> pzero y"
  obtains q r where "PolyDivmod (divmod_fuel x) x y = Inr (q, r)" "divmod_spec p x y q r"
  using PolyDivmod_ok[OF assms(1,3,4,2) divmod_fuel_enough] by blast

lemma PolyMod_ok:
  assumes "field_prime p" "poly_wf p x" "poly_wf p y" "\<not> pzero y"
  obtains q r where "PolyMod x y = Inr r" "divmod_spec p x y q r"
  using PolyDivmod_total[OF assms] by (metis (no_types, lifting) PolyMod_def case_prod_conv rbind_simps(2))

lemma PolyDiv_ok:
  assumes "field_prime p" "poly_wf p x" "poly_wf p y" "\<not> pzero y"
  obtains q r where "PolyDiv x y = Inr q" "divmod_spec p x y q r"
  using PolyDivmod_total[OF assms] by (metis (no_types, lifting) PolyDiv_def case_prod_conv rbind_simps(2))

section \<open>Roots\<close>

text \<open>\<open>lin p a\<close> is the polynomial \<open>z - a\<close>.\<close>

definition lin :: "int \<Rightarrow> int \<Rightarrow> poly" where
  "lin p a = \<lparr>po_coeff = [zmk p (- a), zmk p 1], po_degree = 1, po_p = Some p\<rparr>"

lemma lin_ok:
  assumes "1 < p"
  shows "poly_wf p (lin p a)" "po_degree (lin p a) = 1" "\<not> pzero (lin p a)" "pev p (lin p a) b = (b - a) mod p"
proof -
  have m1: "1 mod p = 1" using assms by (intro mod_pos_pos_trivial) simp_all
  obtain k where k: "k = - a" by simp
  have c: "pcoef (lin p a) 0 = (- a) mod p" "pcoef (lin p a) 1 = 1" "\<And>i. 1 < i \<Longrightarrow> pcoef (lin p a) i = 0"
    unfolding lin_def pcoef_def k[symmetric] by (simp_all add: m1)
  show d: "po_degree (lin p a) = 1" by (simp add: lin_def)
  then show "\<not> pzero (lin p a)" by (simp add: pzero_def)
  have "list_all (felem p) (po_coeff (lin p a))" "po_p (lin p a) = Some p" "length (po_coeff (lin p a)) = 2"
    using assms by (simp_all add: lin_def)
  then show "poly_wf p (lin p a)" using c d by (simp add: poly_wf_def)
  have "pev p (lin p a) b = ((- a) mod p + b) mod p" using c unfolding pev_def d by simp
  then show "pev p (lin p a) b = (b - a) mod p" by (simp add: mod_add_left_eq)
qed

definition roots :: "int \<Rightarrow> poly \<Rightarrow> int set" where
  "roots p x = {a. 0 \<le> a \<and> a < p \<and> pev p x a = 0}"

lemma roots_finite [simp]: "finite (roots p x)"
  by (rule finite_subset[of _ "{0..<p}"]) (auto simp: roots_def)

lemma pev_arg_mod: "pev p x (a mod p) = pev p x a"
proof -
  have m: "(c * (a mod p) ^ i) mod p = (c * a ^ i) mod p" for c i
  proof -
    have "(c * (a mod p) ^ i) mod p = (c * ((a mod p) ^ i mod p)) mod p" by (rule mod_mult_right_eq[symmetric])
    also have "\<dots> = (c * (a ^ i mod p)) mod p" by (simp only: power_mod)
    also have "\<dots> = (c * a ^ i) mod p" by (rule mod_mult_right_eq)
    finally show ?thesis .
  qed
  have "(\<Sum>i\<le>po_degree x. pcoef x i * (a mod p) ^ i) mod p = (\<Sum>i\<le>po_degree x. (pcoef x i * (a mod p) ^ i) mod p) mod p"
    by (simp add: mod_sum_eq)
  also have "\<dots> = (\<Sum>i\<le>po_degree x. (pcoef x i * a ^ i) mod p) mod p"
    by (simp only: m)
  also have "\<dots> = (\<Sum>i\<le>po_degree x. pcoef x i * a ^ i) mod p" by (simp add: mod_sum_eq)
  finally show ?thesis by (simp add: pev_def)
qed

lemma root_factor:
  assumes p: "field_prime p" and x: "poly_wf p x" "\<not> pzero x" and a: "pev p x a = 0"
  obtains q where "poly_wf p q" "\<not> pzero q" "po_degree x = Suc (po_degree q)"
    "\<And>b. pev p x b = (pev p q b * (b - a)) mod p"
proof -
  have p1: "1 < p" using p by (rule field_prime_gt)
  note L = lin_ok[OF p1, of a]
  obtain q r where qr: "PolyDivmod (divmod_fuel x) x (lin p a) = Inr (q, r)" "divmod_spec p x (lin p a) q r"
    using PolyDivmod_total[OF p x(1) L(1,3)] by blast
  then have S: "poly_wf p q" "poly_wf p r" "po_degree r = 0"
    "\<And>b. pev p x b = (pev p q b * ((b - a) mod p) + pev p r b) mod p"
    by (auto simp: divmod_spec_def L pzero_def)
  have rc: "pev p r b = pcoef r 0" for b using S(2,3) pcoef_range(3)[OF S(2)] by (simp add: pev_def)
  have "pcoef r 0 = 0" using S(4)[of a] a rc[of a] pcoef_range(3)[OF S(2)] by simp
  then have ev: "pev p x b = (pev p q b * (b - a)) mod p" for b using S(4)[of b] rc[of b] by (simp add: mod_mult_right_eq)
  have "\<not> po_degree x < 1"
  proof
    assume "po_degree x < 1"
    then have "pev p x a = pcoef x 0" using pcoef_range(3)[OF x(1)] by (simp add: pev_def)
    with a x(2) \<open>po_degree x < 1\<close> show False by (simp add: pzero_def)
  qed
  then have "\<not> pzero q" "po_degree q = po_degree x - 1" using qr(2) x(2) by (auto simp: divmod_spec_def L)
  with \<open>\<not> po_degree x < 1\<close> S(1) ev show thesis by (intro that[of q]) auto
qed

theorem roots_card:
  assumes p: "field_prime p"
  shows "poly_wf p x \<Longrightarrow> \<not> pzero x \<Longrightarrow> card (roots p x) \<le> po_degree x"
proof (induction "po_degree x" arbitrary: x)
  case 0
  have "roots p x = {}"
    using 0 pcoef_range(3)[OF 0(2)] by (auto simp: roots_def pev_def pzero_def)
  then show ?case by simp
next
  case (Suc n)
  show ?case
  proof (cases "roots p x = {}")
    case False
    then obtain a where a: "0 \<le> a" "a < p" "pev p x a = 0" by (auto simp: roots_def)
    obtain q where q: "poly_wf p q" "\<not> pzero q" "po_degree x = Suc (po_degree q)"
      "\<And>b. pev p x b = (pev p q b * (b - a)) mod p" using root_factor[OF p Suc.prems a(3)] by metis
    have "roots p x \<subseteq> insert a (roots p q)"
    proof
      fix b assume b: "b \<in> roots p x"
      then have "(pev p q b * (b - a)) mod p = 0" using q(4)[of b] by (simp add: roots_def)
      then have "pev p q b = 0 \<or> (b - a) mod p = 0" by (simp add: field_prime_mult_zero[OF p])
      moreover have "b = a" if "(b - a) mod p = 0"
      proof -
        have "b mod p = a mod p" using that by (simp add: mod_eq_dvd_iff mod_eq_0_iff_dvd)
        then show ?thesis using b a by (simp add: roots_def)
      qed
      ultimately show "b \<in> insert a (roots p q)" using b by (auto simp: roots_def)
    qed
    then have "card (roots p x) \<le> card (insert a (roots p q))" by (intro card_mono) auto
    also have "\<dots> \<le> Suc (card (roots p q))" by (simp add: card_insert_if)
    also have "\<dots> \<le> Suc (po_degree q)" using Suc.hyps(1)[of q] Suc.hyps(2) q(1-3) by simp
    finally show ?thesis using q(3) by simp
  qed simp
qed

text \<open>Two polynomials of degree below the size of the field with the same values are equal.\<close>

lemma poly_identity:
  assumes p: "field_prime p" and x: "poly_wf p x" "int (po_degree x) < p" and y: "poly_wf p y" "int (po_degree y) < p"
    and ev: "\<And>a. pev p x a = pev p y a"
  shows "pcoef x i = pcoef y i" "po_degree x = po_degree y" "pzero x = pzero y"
proof -
  obtain d where d: "poly_Sub x y = Inr d" "poly_wf p d" "po_degree d \<le> max (po_degree x) (po_degree y)"
    "\<And>i. pcoef d i = (pcoef x i - pcoef y i) mod p" using poly_Sub_ok[OF x(1) y(1)] by blast
  have "roots p d = {0..<p}"
    using pev_sub[OF x(1) y(1) d(2,4,3)] ev by (auto simp: roots_def)
  then have "card (roots p d) = nat p" by simp
  moreover have "int (po_degree d) < p" using d(3) x(2) y(2) by linarith
  ultimately have "pzero d" using roots_card[OF p d(2)] by linarith
  then have z: "pcoef d i = 0" for i using poly_wfD(4)[OF d(2), of i] by (cases "i = 0") (auto simp: pzero_def)
  have eq: "pcoef x i = pcoef y i" for i
  proof -
    have "pcoef x i mod p = pcoef y i mod p" using z[of i] d(4)[of i] by (simp add: mod_eq_dvd_iff mod_eq_0_iff_dvd)
    then show ?thesis using pcoef_range(3)[OF x(1)] pcoef_range(3)[OF y(1)] by simp
  qed
  show "pcoef x i = pcoef y i" by (rule eq)
  show "po_degree x = po_degree y" by (rule poly_wf_degree_unique[OF x(1) y(1) eq])
  then show "pzero x = pzero y" by (simp add: pzero_def eq)
qed

section \<open>Greatest common divisors\<close>

definition pdvd :: "int \<Rightarrow> poly \<Rightarrow> poly \<Rightarrow> bool" where
  "pdvd p g x \<longleftrightarrow> (\<exists>u. poly_wf p u \<and> (if pzero x then pzero u else po_degree x = po_degree u + po_degree g)
     \<and> (\<forall>a. pev p x a = (pev p u a * pev p g a) mod p))"

lemma pdvdI:
  assumes p: "field_prime p" and x: "poly_wf p x" "int (po_degree x) < p" and g: "poly_wf p g" "\<not> pzero g"
    and w: "poly_wf p w" "int (po_degree w + po_degree g) < p"
    and ev: "\<And>a. pev p x a = (pev p w a * pev p g a) mod p"
  shows "pdvd p g x"
proof (cases "pzero x")
  case True
  have "felem p (zmk p 0)" "zp_i (zmk p 0) = 0" using field_prime_gt[OF p] by simp_all
  then obtain z where z: "poly_wf p z" "pzero z" using pzeroI by metis
  with True show ?thesis unfolding pdvd_def by (intro exI[of _ z]) (simp add: pev_zero)
next
  case False
  obtain m where m: "poly_Mul w g = Inr m" "poly_wf p m" "po_degree m \<le> po_degree w + po_degree g"
    "\<And>k. pcoef m k = (\<Sum>i\<le>po_degree w. \<Sum>j\<le>po_degree g. if i + j = k then pcoef w i * pcoef g j else 0) mod p"
    using poly_Mul_ok[OF w(1) g(1)] by blast
  have "pev p m a = pev p x a" for a using pev_mul[OF w(1) g(1) m(2,3,4)] ev by simp
  moreover have "int (po_degree m) < p" using m(3) w(2) by linarith
  ultimately have eq: "po_degree m = po_degree x" "pzero m = pzero x"
    using poly_identity[OF p m(2) _ x] by auto
  have "\<not> pzero w"
  proof
    assume "pzero w"
    then have "pcoef w i = 0" for i using poly_wfD(4)[OF w(1), of i] by (cases "i = 0") (auto simp: pzero_def)
    then have "(\<Sum>i\<le>po_degree w. \<Sum>j\<le>po_degree g. if i + j = k then pcoef w i * pcoef g j else 0) = 0" for k
      by (intro sum.neutral ballI) simp
    then have "pcoef m k = 0" for k using m(4)[of k] by simp
    then have "pzero m" using poly_wfD(5)[OF m(2)] by (auto simp: pzero_def)
    with eq False show False by simp
  qed
  then have "po_degree m = po_degree w + po_degree g" using pmul_degree(1)[OF p w(1) _ g m(2,3,4)] by blast
  with False eq w(1) ev show ?thesis unfolding pdvd_def by (intro exI[of _ w]) simp
qed

lemma pdvd_refl: "1 < p \<Longrightarrow> poly_wf p x \<Longrightarrow> \<not> pzero x \<Longrightarrow> pdvd p x x"
proof -
  assume p: "1 < p" and x: "poly_wf p x" "\<not> pzero x"
  obtain o1 where "poly_wf p o1" "po_degree o1 = 0" "\<And>a. pev p o1 a = zp_i (zmk p 1)"
    using NewPoly_const[of p "zmk p 1"] p by (metis felem_zmk less_trans zero_less_one)
  with p x show ?thesis unfolding pdvd_def by (intro exI[of _ o1]) simp
qed

lemma pdvd_zero: "1 < p \<Longrightarrow> pzero x \<Longrightarrow> pdvd p g x"
proof -
  assume p: "1 < p" and x: "pzero x"
  have "felem p (zmk p 0)" "zp_i (zmk p 0) = 0" using p by simp_all
  then obtain z where "poly_wf p z" "pzero z" using pzeroI by metis
  with x show ?thesis unfolding pdvd_def by (intro exI[of _ z]) (simp add: pev_zero)
qed

lemma pdvd_degree: "pdvd p g x \<Longrightarrow> \<not> pzero x \<Longrightarrow> po_degree g \<le> po_degree x"
  by (auto simp: pdvd_def)

lemma pdvd_root: "pdvd p g x \<Longrightarrow> pev p g a = 0 \<Longrightarrow> pev p x a = 0"
  unfolding pdvd_def by force

definition gcd_spec :: "int \<Rightarrow> poly \<Rightarrow> poly \<Rightarrow> poly \<Rightarrow> bool" where
  "gcd_spec p x y g \<longleftrightarrow> poly_wf p g \<and> \<not> pzero g \<and> pdvd p g x \<and> pdvd p g y
     \<and> (\<exists>s t. poly_wf p s \<and> poly_wf p t \<and> po_degree s \<le> max (po_degree x) (po_degree y)
          \<and> po_degree t \<le> max (po_degree x) (po_degree y) \<and> (\<forall>a. pev p g a = (pev p s a * pev p x a + pev p t a * pev p y a) mod p))"

text \<open>The two sides of one step of the algorithm have the same divisors and combinations.\<close>

lemma gcd_step_dvd:
  assumes p: "field_prime p" and x: "poly_wf p x" "int (po_degree x) < p"
    and y: "poly_wf p y" "\<not> pzero y" "int (po_degree y) < p" and d: "divmod_spec p x y q r"
    and g: "poly_wf p g" "\<not> pzero g" "pdvd p g y" "pdvd p g r"
  shows "pdvd p g x"
proof -
  from d have D: "poly_wf p q" "poly_wf p r" "pzero r \<or> po_degree r < po_degree y"
    "\<And>a. pev p x a = (pev p q a * pev p y a + pev p r a) mod p" by (auto simp: divmod_spec_def)
  from g(3) y(2) obtain u where u: "poly_wf p u" "po_degree y = po_degree u + po_degree g"
    "\<And>a. pev p y a = (pev p u a * pev p g a) mod p" by (auto simp: pdvd_def)
  from g(4) obtain v where v: "poly_wf p v" "if pzero r then pzero v else po_degree r = po_degree v + po_degree g"
    "\<And>a. pev p r a = (pev p v a * pev p g a) mod p" by (auto simp: pdvd_def)
  obtain m where m: "poly_Mul q u = Inr m" "poly_wf p m" "po_degree m \<le> po_degree q + po_degree u"
    "\<And>k. pcoef m k = (\<Sum>i\<le>po_degree q. \<Sum>j\<le>po_degree u. if i + j = k then pcoef q i * pcoef u j else 0) mod p"
    using poly_Mul_ok[OF D(1) u(1)] by blast
  obtain w where w: "poly_Add m v = Inr w" "poly_wf p w" "po_degree w \<le> max (po_degree m) (po_degree v)"
    "\<And>i. pcoef w i = (pcoef m i + pcoef v i) mod p" using poly_Add_ok[OF m(2) v(1)] by blast
  have dq: "po_degree q + po_degree y \<le> max (po_degree x) (po_degree y)"
    using d unfolding divmod_spec_def pzero_def by (auto split: if_splits)
  have dv: "po_degree v + po_degree g \<le> po_degree y"
    using v(2) D(3) u(2) by (auto simp: pzero_def split: if_splits)
  have "po_degree w + po_degree g \<le> max (po_degree x) (po_degree y)"
    using w(3) m(3) dq dv u(2) by linarith
  then have wd: "int (po_degree w + po_degree g) < p" using x(2) y(3) by linarith
  show ?thesis
  proof (rule pdvdI[OF p x g(1,2) w(2) wd])
    fix a
    have "pev p w a = (pev p q a * pev p u a + pev p v a) mod p"
      using pev_add[OF m(2) v(1) w(2,4,3), of a] pev_mul[OF D(1) u(1) m(2,3,4), of a] by (simp add: mod_add_left_eq)
    then have "(pev p w a * pev p g a) mod p = ((pev p q a * pev p u a + pev p v a) * pev p g a) mod p"
      by (simp only: mod_mult_left_eq)
    also have "\<dots> = (pev p q a * (pev p u a * pev p g a) + pev p v a * pev p g a) mod p" by (simp add: algebra_simps)
    also have "\<dots> = pev p x a" unfolding D(4) u(3) v(3) by (metis mod_add_cong mod_mod_trivial mod_mult_right_eq)
    finally show "pev p x a = (pev p w a * pev p g a) mod p" ..
  qed
qed

lemma gcd_step_comb:
  assumes x: "poly_wf p x" and y: "poly_wf p y" "\<not> pzero y" and d: "divmod_spec p x y q r"
    and st: "poly_wf p s" "poly_wf p t" "po_degree s \<le> po_degree y" "po_degree t \<le> po_degree y"
      "\<And>a. pev p g a = (pev p s a * pev p y a + pev p t a * pev p r a) mod p"
  shows "\<exists>s t. poly_wf p s \<and> poly_wf p t \<and> po_degree s \<le> max (po_degree x) (po_degree y)
          \<and> po_degree t \<le> max (po_degree x) (po_degree y) \<and> (\<forall>a. pev p g a = (pev p s a * pev p x a + pev p t a * pev p y a) mod p)"
proof -
  from d have D: "poly_wf p q" "poly_wf p r" "pzero r \<or> po_degree r < po_degree y"
    "\<And>a. pev p x a = (pev p q a * pev p y a + pev p r a) mod p" by (auto simp: divmod_spec_def)
  obtain m where m: "poly_Mul t q = Inr m" "poly_wf p m" "po_degree m \<le> po_degree t + po_degree q"
    "\<And>k. pcoef m k = (\<Sum>i\<le>po_degree t. \<Sum>j\<le>po_degree q. if i + j = k then pcoef t i * pcoef q j else 0) mod p"
    using poly_Mul_ok[OF st(2) D(1)] by blast
  obtain w where w: "poly_Sub s m = Inr w" "poly_wf p w" "po_degree w \<le> max (po_degree s) (po_degree m)"
    "\<And>i. pcoef w i = (pcoef s i - pcoef m i) mod p" using poly_Sub_ok[OF st(1) m(2)] by blast
  have "pev p g a = (pev p t a * pev p x a + pev p w a * pev p y a) mod p" for a
  proof -
    have "pev p w a = (pev p s a - pev p t a * pev p q a) mod p"
      using pev_sub[OF st(1) m(2) w(2,4,3), of a] pev_mul[OF st(2) D(1) m(2,3,4), of a] by (simp add: mod_diff_right_eq)
    then have "(pev p t a * pev p x a + pev p w a * pev p y a) mod p
        = (pev p t a * (pev p q a * pev p y a + pev p r a) + (pev p s a - pev p t a * pev p q a) * pev p y a) mod p"
      unfolding D(4) by (metis mod_add_cong mod_mult_left_eq mod_mult_right_eq)
    also have "\<dots> = (pev p s a * pev p y a + pev p t a * pev p r a) mod p" by (simp add: algebra_simps)
    finally show ?thesis using st(5) by simp
  qed
  moreover have "po_degree q + po_degree y \<le> max (po_degree x) (po_degree y)"
    using d unfolding divmod_spec_def pzero_def by (auto split: if_splits)
  then have "po_degree w \<le> max (po_degree x) (po_degree y)" using w(3) m(3) st(3,4) by linarith
  moreover have "po_degree t \<le> max (po_degree x) (po_degree y)" using st(4) by simp
  ultimately show ?thesis using st(2) w(2) by blast
qed

definition gcd_need :: "poly \<Rightarrow> nat" where
  "gcd_need y = (if pzero y then 1 else po_degree y + 2)"

lemma polyGcd_ok:
  assumes p: "field_prime p"
  shows "poly_wf p x \<Longrightarrow> int (po_degree x) < p \<Longrightarrow> poly_wf p y \<Longrightarrow> int (po_degree y) < p \<Longrightarrow>
    \<not> (pzero x \<and> pzero y) \<Longrightarrow> gcd_need y \<le> fuel \<Longrightarrow> \<exists>g. polyGcd fuel x y = Inr g \<and> gcd_spec p x y g"
proof (induction fuel arbitrary: x y)
  case 0
  then show ?case by (simp add: gcd_need_def split: if_splits)
next
  case (Suc fuel)
  note x = Suc.prems(1,2) and y = Suc.prems(3,4)
  have p1: "1 < p" using p by (rule field_prime_gt)
  have isz: "poly_IsConstant y (zp_Z (po_p x)) = Inr (pzero y)"
    using poly_IsConstant_zero[OF y(1)] by (simp add: poly_wfD(1)[OF x(1)])
  have fe: "felem p (zmk p 1)" "felem p (zmk p 0)" "zp_i (zmk p 0) = 0" "zp_i (zmk p 1) = 1" using p1 by simp_all
  show ?case
  proof (cases "pzero y")
    case True
    then have "polyGcd (Suc fuel) x y = Inr x" using isz by simp
    moreover have "gcd_spec p x y x"
    proof -
      obtain o1 where o1: "poly_wf p o1" "po_degree o1 = 0" "\<And>a. pev p o1 a = 1" using NewPoly_const[OF fe(1)] fe(4) by metis
      obtain o0 where o0: "poly_wf p o0" "po_degree o0 = 0" "pzero o0" using pzeroI[OF fe(2,3)] by metis
      have "\<exists>s t. poly_wf p s \<and> poly_wf p t \<and> po_degree s \<le> max (po_degree x) (po_degree y)
          \<and> po_degree t \<le> max (po_degree x) (po_degree y) \<and> (\<forall>a. pev p x a = (pev p s a * pev p x a + pev p t a * pev p y a) mod p)"
        using o1 o0 pev_zero[OF o0(3)] by (intro exI[of _ o1] exI[of _ o0]) simp
      then show ?thesis using True Suc.prems(5) x pdvd_refl[OF p1 x(1)] pdvd_zero[OF p1 True] by (simp add: gcd_spec_def)
    qed
    ultimately show ?thesis by blast
  next
    case False
    obtain q r where qr: "PolyDivmod (divmod_fuel x) x y = Inr (q, r)" "divmod_spec p x y q r"
      using PolyDivmod_total[OF p x(1) y(1) False] by blast
    then have r: "poly_wf p r" "pzero r \<or> po_degree r < po_degree y" by (auto simp: divmod_spec_def)
    then have rd: "po_degree r \<le> po_degree y" "int (po_degree r) < p" "gcd_need r \<le> fuel"
      using y(2) p1 Suc.prems(6) False by (auto simp: pzero_def gcd_need_def split: if_splits)
    obtain g where g: "polyGcd fuel y r = Inr g" "gcd_spec p y r g"
      using Suc.IH[OF y r(1) rd(2) _ rd(3)] False by blast
    have mx: "max (po_degree y) (po_degree r) = po_degree y" using rd(1) by simp
    have "gcd_spec p x y g"
      using g(2) gcd_step_dvd[OF p x y(1) False y(2) qr(2)] gcd_step_comb[OF x(1) y(1) False qr(2), of _ _ g]
      unfolding gcd_spec_def mx by blast
    with isz False qr(1) g(1) show ?thesis by (intro exI[of _ g]) simp
  qed
qed

text \<open>\<open>PolyGcd\<close> is the monic greatest common divisor.\<close>

definition monic :: "poly \<Rightarrow> bool" where
  "monic x \<longleftrightarrow> pcoef x (po_degree x) = 1"

lemma monic_nonzero: "monic x \<Longrightarrow> \<not> pzero x"
  by (auto simp: monic_def pzero_def)

lemma scale_ok:
  assumes p: "field_prime p" and x: "poly_wf p x" "\<not> pzero x" and c: "felem p c" "zp_i c \<noteq> 0"
  obtains k r where "NewPoly [c] = Inr k" "poly_Mul x k = Inr r" "poly_wf p r" "po_degree r = po_degree x" "\<not> pzero r"
    "\<And>i. pcoef r (po_degree r) = (pcoef x (po_degree x) * zp_i c) mod p" "\<And>a. pev p r a = (pev p x a * zp_i c) mod p"
proof -
  obtain k where k: "NewPoly [c] = Inr k" "poly_wf p k" "po_degree k = 0" "pcoef k 0 = zp_i c" "\<And>a. pev p k a = zp_i c"
    using NewPoly_const[OF c(1)] by metis
  then have nz: "\<not> pzero k" using c(2) by (simp add: pzero_def)
  obtain r where r: "poly_Mul x k = Inr r" "poly_wf p r" "po_degree r \<le> po_degree x + po_degree k"
    "\<And>j. pcoef r j = (\<Sum>i\<le>po_degree x. \<Sum>l\<le>po_degree k. if i + l = j then pcoef x i * pcoef k l else 0) mod p"
    using poly_Mul_ok[OF x(1) k(2)] by blast
  note D = pmul_degree[OF p x k(2) nz r(2,3,4)]
  have "pev p r a = (pev p x a * zp_i c) mod p" for a using pev_mul[OF x(1) k(2) r(2,3,4), of a] k(5) by simp
  with D k r show thesis by (intro that[of k r]) auto
qed

lemma PolyGcd_ok:
  assumes p: "field_prime p" and x: "poly_wf p x" "int (po_degree x) < p" and y: "poly_wf p y" "int (po_degree y) < p"
    and nz: "\<not> (pzero x \<and> pzero y)"
  obtains g h where "PolyGcd x y = Inr g" "monic g" "poly_wf p g" "gcd_spec p x y h" "po_degree g = po_degree h"
    "\<And>a. pev p g a = (pev p h a * finv p (pcoef h (po_degree h))) mod p"
proof -
  have "gcd_need y \<le> po_degree y + 3" by (simp add: gcd_need_def)
  then obtain h where h: "polyGcd (po_degree y + 3) x y = Inr h" "gcd_spec p x y h" using polyGcd_ok[OF p x y nz] by blast
  then have hw: "poly_wf p h" "\<not> pzero h" by (auto simp: gcd_spec_def)
  note H = poly_wfD[OF hw(1)]
  let ?l = "pcoef h (po_degree h)" let ?c = "zmk p (finv p ?l)"
  have l: "?l \<noteq> 0" "?l mod p = ?l" using hw(2) H(5) pcoef_range(3)[OF hw(1)] by (auto simp: pzero_def)
  have inv: "zp_Inv (zp_Copy (po_coeff h ! po_degree h)) = Inr ?c"
    using zp_Inv_ok[OF H(7)] H(8)[of "po_degree h"] by simp
  have "coprime ?l p" using l by (intro field_prime_coprime[OF p]) simp
  then have lc: "(?l * finv p ?l) mod p = 1" using finv_correct[OF H(10)] field_prime_gt[OF p] by simp
  have fc: "felem p ?c" using H(10) by simp
  have "zp_i ?c \<noteq> 0"
  proof
    assume "zp_i ?c = 0"
    then have "(?l * finv p ?l) mod p = 0" by (simp add: field_prime_mult_zero[OF p])
    with lc show False by simp
  qed
  from scale_ok[OF p hw fc this] obtain k r where r: "NewPoly [?c] = Inr k" "poly_Mul h k = Inr r" "poly_wf p r"
    "po_degree r = po_degree h" "pcoef r (po_degree r) = (?l * zp_i ?c) mod p" "\<And>a. pev p r a = (pev p h a * zp_i ?c) mod p"
    by metis
  have "PolyGcd x y = Inr r" using h(1) H(9)[of "po_degree h"] inv r(1,2) by (simp add: PolyGcd_def)
  moreover have "monic r" using r(5) lc by (simp add: monic_def mod_mult_right_eq)
  moreover have "pev p r a = (pev p h a * finv p ?l) mod p" for a using r(6) by (simp add: mod_mult_right_eq)
  ultimately show thesis using r(3,4) h(2) by (intro that[of r h]) auto
qed

text \<open>The same facts as existence statements over values, for the proofs that combine polynomials.\<close>

lemma mul_poly:
  assumes "poly_wf p x" "poly_wf p y"
  obtains r where "poly_wf p r" "po_degree r \<le> po_degree x + po_degree y" "\<And>a. pev p r a = (pev p x a * pev p y a) mod p"
proof -
  obtain r where r: "poly_Mul x y = Inr r" "poly_wf p r" "po_degree r \<le> po_degree x + po_degree y"
    "\<And>k. pcoef r k = (\<Sum>i\<le>po_degree x. \<Sum>j\<le>po_degree y. if i + j = k then pcoef x i * pcoef y j else 0) mod p"
    using poly_Mul_ok[OF assms] by blast
  show thesis by (rule that[OF r(2,3) pev_mul[OF assms r(2,3,4)]])
qed

lemma add_poly:
  assumes "poly_wf p x" "poly_wf p y"
  obtains r where "poly_wf p r" "po_degree r \<le> max (po_degree x) (po_degree y)" "\<And>a. pev p r a = (pev p x a + pev p y a) mod p"
proof -
  obtain r where r: "poly_Add x y = Inr r" "poly_wf p r" "po_degree r \<le> max (po_degree x) (po_degree y)"
    "\<And>i. pcoef r i = (pcoef x i + pcoef y i) mod p" using poly_Add_ok[OF assms] by blast
  show thesis by (rule that[OF r(2,3) pev_add[OF assms r(2,4,3)]])
qed

lemma zero_poly:
  assumes "0 < p"
  obtains z where "poly_wf p z" "pzero z"
proof -
  have "felem p (zmk p 0)" "zp_i (zmk p 0) = 0" using assms by simp_all
  then show thesis using pzeroI that by metis
qed

lemma pdvd_zero_quotient:
  assumes p: "field_prime p" and x: "poly_wf p x" "\<not> pzero x" "int (po_degree x) < p"
    and u: "\<And>a. pev p x a = (pev p u a * pev p g a) mod p"
  shows "\<not> pzero u"
proof
  assume z: "pzero u"
  have "pev p x a = 0" for a using u[of a] pev_zero[OF z] by simp
  then have "roots p x = {0..<p}" by (auto simp: roots_def)
  with roots_card[OF p x(1,2)] x(3) field_prime_gt[OF p] show False by simp
qed

text \<open>A divisor stays one when it is scaled by the inverse of its leading coefficient.\<close>

lemma pdvd_scaled:
  assumes p: "field_prime p" and x: "poly_wf p x" "\<not> pzero x" "int (po_degree x) < p"
    and k: "poly_wf p k" "\<not> pzero k" "pdvd p k x" and g: "poly_wf p g" "\<not> pzero g" "po_degree g = po_degree k"
    "\<And>a. pev p g a = (pev p k a * finv p (pcoef k (po_degree k))) mod p"
  shows "pdvd p g x"
proof -
  let ?l = "pcoef k (po_degree k)"
  have p1: "1 < p" using p by (rule field_prime_gt)
  have l: "?l \<noteq> 0" "?l mod p = ?l" using k(2) poly_wfD(5)[OF k(1)] pcoef_range(3)[OF k(1)] by (auto simp: pzero_def)
  then have cop: "coprime ?l p" by (intro field_prime_coprime[OF p]) simp
  from k(3) x(2) obtain u where u: "poly_wf p u" "po_degree x = po_degree u + po_degree k"
    "\<And>a. pev p x a = (pev p u a * pev p k a) mod p" by (auto simp: pdvd_def)
  note unz = pdvd_zero_quotient[OF p x u(3)]
  have fl: "felem p (zmk p ?l)" "zp_i (zmk p ?l) \<noteq> 0" using l p1 by simp_all
  obtain w where w: "poly_wf p w" "po_degree w = po_degree u" "\<And>a. pev p w a = (pev p u a * zp_i (zmk p ?l)) mod p"
    using scale_ok[OF p u(1) unz fl] by metis
  show ?thesis
  proof (rule pdvdI[OF p x(1,3) g(1,2) w(1)])
    show "int (po_degree w + po_degree g) < p" using w(2) g(3) u(2) x(3) by simp
    fix a
    have "(pev p w a * pev p g a) mod p = (pev p u a * ?l * (pev p k a * finv p ?l)) mod p"
      unfolding w(3) g(4) using l(2) by (simp add: mod_mult_eq)
    also have "\<dots> = (pev p u a * pev p k a * ((?l * finv p ?l) mod p)) mod p"
      unfolding mod_mult_right_eq by (simp only: ac_simps)
    also have "\<dots> = pev p x a" using finv_correct[OF _ cop] p1 u(3) by simp
    finally show "pev p x a = (pev p w a * pev p g a) mod p" ..
  qed
qed

end
