(* ===== verification/DecodeSpec.thy ===== *)
theory DecodeSpec
  imports Decode PolySpec Primality
begin

text \<open>
  What reconciliation by interpolation guarantees: the reduced rational function has no
  common roots, modular powers and the factor search are correct, and the two sets returned
  are exactly the roots of numerator and denominator.
\<close>

section \<open>Evaluation\<close>

lemma poly_Eval_ok:
  assumes x: "poly_wf p x" "int (po_degree x) < p" and z: "felem p z"
  shows "poly_Eval x z = Inr (zmk p (pev p x (zp_i z)))"
proof -
  note X = poly_wfD[OF x(1)]
  let ?n = "Suc (po_degree x)" let ?a = "zp_i z"
  let ?f = "\<lambda>d s. rbind (nth_res (po_coeff x) d) (\<lambda>c. rbind (Zi (po_p x) (int d)) (\<lambda>e.
       rbind (zp_Exp (zp_Z (po_p x)) z e) (\<lambda>zd. rbind (zp_Mul c zd) (zp_Add s))))"
  have "\<exists>s. rfold ?f [0..<?n] (zmk p 0) = Inr s \<and> s = zmk p (\<Sum>i<length [0..<?n]. pcoef x i * ?a ^ i)"
  proof (rule rfold_inv)
    fix d s assume d: "d < length [0..<?n]" and s: "s = zmk p (\<Sum>i<d. pcoef x i * ?a ^ i)"
    have ld: "[0..<?n] ! d = d" "d \<le> po_degree x" using d by (auto simp del: upt_Suc)
    have e: "Zi (Some p) (int d) = Inr (zmk p (int d))" using X(10) by (simp add: Zi_mk)
    have dm: "int d mod p = int d" using ld(2) x(2) by simp
    have "zp_Exp (zp_Z (Some p)) z (zmk p (int d)) = Inr (zmk p (?a ^ d))"
      using zp_Exp_ok[OF z, of "zmk p (int d)"] X(10) dm by simp
    moreover have "zp_Mul (po_coeff x ! d) (zmk p (?a ^ d)) = Inr (zmk p (pcoef x d * ?a ^ d))"
      using zp_Mul_ok[OF X(7)[OF ld(2)], of "zmk p (?a ^ d)"] X(10) X(8)[OF ld(2)] by (simp add: zmk_eq_iff mod_mult_right_eq)
    moreover have "zp_Add s (zmk p (pcoef x d * ?a ^ d)) = Inr (zmk p (\<Sum>i<Suc d. pcoef x i * ?a ^ i))"
      using zp_Add_ok[of p s "zmk p (pcoef x d * ?a ^ d)"] X(10) s by (simp add: zmk_eq_iff mod_add_eq)
    ultimately show "\<exists>s'. ?f ([0..<?n] ! d) s = Inr s' \<and> s' = zmk p (\<Sum>i<Suc d. pcoef x i * ?a ^ i)"
      unfolding ld(1) X(1) by (simp add: X(9)[OF ld(2)] e)
  qed simp
  then have "rfold ?f [0..<?n] (zmk p 0) = Inr (zmk p (\<Sum>i\<le>po_degree x. pcoef x i * ?a ^ i))"
    by (simp only: length_upt diff_zero lessThan_Suc_atMost) blast
  moreover have "zmk p (\<Sum>i\<le>po_degree x. pcoef x i * ?a ^ i) = zmk p (pev p x ?a)" by (simp add: zmk_eq_iff pev_def)
  ultimately show ?thesis using X(10) unfolding poly_Eval_def X(1) by (simp add: Zi_mk)
qed

section \<open>Powers modulo a polynomial\<close>

lemma mul_mod_ok:
  assumes p: "field_prime p" and x: "poly_wf p x" and y: "poly_wf p y" and g: "poly_wf p g" "\<not> pzero g"
  obtains m q r where "mul_mod x y g = Inr r" "poly_wf p m" "\<And>a. pev p m a = (pev p x a * pev p y a) mod p"
    "po_degree m \<le> po_degree x + po_degree y" "divmod_spec p m g q r"
proof -
  obtain m where m: "poly_Mul x y = Inr m" "poly_wf p m" "po_degree m \<le> po_degree x + po_degree y"
    "\<And>k. pcoef m k = (\<Sum>i\<le>po_degree x. \<Sum>j\<le>po_degree y. if i + j = k then pcoef x i * pcoef y j else 0) mod p"
    using poly_Mul_ok[OF x y] by blast
  obtain q r where "PolyMod m g = Inr r" "divmod_spec p m g q r" using PolyMod_ok[OF p m(2) g] by metis
  with m pev_mul[OF x y m(2,3,4)] show thesis by (intro that[of r m q]) (auto simp: mul_mod_def)
qed

lemma powmod_loop_ok:
  assumes p: "field_prime p" and g: "poly_wf p g" "\<not> pzero g"
  shows "poly_wf p h \<Longrightarrow> poly_wf p f \<Longrightarrow> \<exists>r. powmod_loop n h f g = Inr r \<and> poly_wf p r
    \<and> (0 < n \<or> po_degree h < po_degree g \<or> po_degree h = 0 \<longrightarrow> po_degree r < po_degree g \<or> po_degree r = 0)
    \<and> (\<forall>a. pev p g a = 0 \<longrightarrow> pev p r a = (pev p h a * pev p f a ^ n) mod p)"
proof (induction n arbitrary: h f rule: less_induct)
  case (less n)
  have rem: "\<exists>r. mul_mod x y g = Inr r \<and> poly_wf p r \<and> (po_degree r < po_degree g \<or> po_degree r = 0)
      \<and> (\<forall>a. pev p g a = 0 \<longrightarrow> pev p r a = (pev p x a * pev p y a) mod p)" if xy: "poly_wf p x" "poly_wf p y" for x y
  proof -
    obtain m q r where r: "mul_mod x y g = Inr r" "poly_wf p m" "\<And>a. pev p m a = (pev p x a * pev p y a) mod p"
      "divmod_spec p m g q r" using mul_mod_ok[OF p xy g] by metis
    then have s: "poly_wf p r" "po_degree r < po_degree g \<or> po_degree r = 0"
      "\<And>a. pev p m a = (pev p q a * pev p g a + pev p r a) mod p" by (auto simp: divmod_spec_def pzero_def)
    have "pev p r a = (pev p x a * pev p y a) mod p" if "pev p g a = 0" for a
      using s(3)[of a] r(3)[of a] that by simp
    with r(1) s(1,2) show ?thesis by blast
  qed
  have step: "\<exists>h'. (if n mod 2 = 1 then mul_mod h f g else Inr h) = Inr h' \<and> poly_wf p h'
      \<and> (n mod 2 = 1 \<or> po_degree h < po_degree g \<or> po_degree h = 0 \<longrightarrow> po_degree h' < po_degree g \<or> po_degree h' = 0)
      \<and> (\<forall>a. pev p g a = 0 \<longrightarrow> pev p h' a = (pev p h a * pev p f a ^ (n mod 2)) mod p)"
    using rem[OF less.prems] less.prems(1) by (cases "n mod 2 = 1") auto
  then obtain h' where h': "(if n mod 2 = 1 then mul_mod h f g else Inr h) = Inr h'" "poly_wf p h'"
    "n mod 2 = 1 \<or> po_degree h < po_degree g \<or> po_degree h = 0 \<longrightarrow> po_degree h' < po_degree g \<or> po_degree h' = 0"
    "\<And>a. pev p g a = 0 \<Longrightarrow> pev p h' a = (pev p h a * pev p f a ^ (n mod 2)) mod p"
    by (elim exE conjE) (erule that; simp)
  show ?case
  proof (cases "n div 2 = 0")
    case True
    then have "n = n mod 2" using div_mult_mod_eq[of n 2] by simp
    moreover have "powmod_loop n h f g = Inr h'" by (subst powmod_loop.simps) (simp only: h'(1) rbind_simps True refl if_True)
    moreover have "0 < n \<longrightarrow> n mod 2 = 1" using True by (cases n) auto
    ultimately show ?thesis using h' by (intro exI[of _ h']) auto
  next
    case False
    obtain f' where f': "mul_mod f f g = Inr f'" "poly_wf p f'"
      "\<And>a. pev p g a = 0 \<Longrightarrow> pev p f' a = (pev p f a * pev p f a) mod p" using rem[OF less.prems(2,2)] by blast
    have "n div 2 < n" using False by (intro div_less_dividend) (auto intro: gr0I)
    from less.IH[OF this h'(2) f'(2)] obtain r where r: "powmod_loop (n div 2) h' f' g = Inr r" "poly_wf p r"
      "0 < n div 2 \<longrightarrow> po_degree r < po_degree g \<or> po_degree r = 0"
      "\<And>a. pev p g a = 0 \<Longrightarrow> pev p r a = (pev p h' a * pev p f' a ^ (n div 2)) mod p" by blast
    have "powmod_loop n h f g = Inr r" by (subst powmod_loop.simps) (simp only: h'(1) rbind_simps False if_False f'(1) r(1))
    moreover have "pev p r a = (pev p h a * pev p f a ^ n) mod p" if a: "pev p g a = 0" for a
    proof -
      have "(pev p f' a ^ (n div 2)) mod p = (pev p f a ^ (2 * (n div 2))) mod p"
        unfolding f'(3)[OF a] by (simp add: power_mod power_mult power2_eq_square)
      then have "pev p r a = ((pev p h a * pev p f a ^ (n mod 2)) * pev p f a ^ (2 * (n div 2))) mod p"
        unfolding r(4)[OF a] h'(4)[OF a] by (metis mod_mult_left_eq mod_mult_right_eq)
      also have "\<dots> = (pev p h a * (pev p f a ^ (n mod 2) * pev p f a ^ (2 * (n div 2)))) mod p" by (simp only: mult.assoc)
      also have "pev p f a ^ (n mod 2) * pev p f a ^ (2 * (n div 2)) = pev p f a ^ n"
        by (simp only: power_add[symmetric] add.commute[of "n mod 2"] mult_div_mod_eq)
      finally show ?thesis .
    qed
    ultimately show ?thesis using r(2,3) False by (intro exI[of _ r]) auto
  qed
qed

lemma polyPowMod_ok:
  assumes p: "field_prime p" and g: "poly_wf p g" "\<not> pzero g" and f: "poly_wf p f" and n: "3 \<le> big_BitLen n" "0 < n"
  obtains r where "polyPowMod f n g = Inr r" "poly_wf p r" "po_degree r < po_degree g \<or> po_degree r = 0"
    "\<And>a. pev p g a = 0 \<Longrightarrow> pev p r a = (pev p f a ^ nat n) mod p"
proof -
  have p1: "1 < p" using p by (rule field_prime_gt)
  then have fe: "felem p (zmk p 1)" by simp
  obtain o1 where o1: "NewPoly [zmk p 1] = Inr o1" "poly_wf p o1" "po_degree o1 = 0" "\<And>a. pev p o1 a = zp_i (zmk p 1)"
    using NewPoly_const[OF fe] by metis
  have ev1: "pev p o1 a = 1" for a using o1(4) p1 by simp
  obtain r where r: "powmod_loop (nat n) o1 f g = Inr r" "poly_wf p r"
    "po_degree r < po_degree g \<or> po_degree r = 0"
    "\<And>a. pev p g a = 0 \<Longrightarrow> pev p r a = (pev p o1 a * pev p f a ^ nat n) mod p"
    using powmod_loop_ok[OF p g o1(2) f, of "nat n"] n(2) by auto
  have "polyPowMod f n g = Inr r" using n(1) o1(1) r(1) p1 by (simp add: polyPowMod_def poly_wfD(1)[OF f] Zi_mk)
  with r ev1 show thesis by (intro that[of r]) auto
qed

section \<open>Uniqueness of quotient and remainder\<close>

lemma pzero_coefs: "poly_wf p x \<Longrightarrow> pzero x \<Longrightarrow> pcoef x i = 0"
  using poly_wfD(4)[of p x i] by (cases "i = 0") (auto simp: pzero_def)

lemma sub_zero_eq:
  assumes "poly_wf p x" "poly_wf p y" "poly_wf p d" "\<And>i. pcoef d i = (pcoef x i - pcoef y i) mod p" "pzero d"
  shows "pcoef x i = pcoef y i"
proof -
  have "(pcoef x i - pcoef y i) mod p = 0" using pzero_coefs[OF assms(3,5), of i] assms(4)[of i] by simp
  then have "pcoef x i mod p = pcoef y i mod p" by (simp add: mod_eq_dvd_iff mod_eq_0_iff_dvd)
  then show ?thesis using pcoef_range(3)[OF assms(1)] pcoef_range(3)[OF assms(2)] by simp
qed

lemma divmod_unique:
  assumes p: "field_prime p" and g: "poly_wf p g" "\<not> pzero g"
    and q: "poly_wf p q" "int (po_degree q + po_degree g) < p" and r: "poly_wf p r" "pzero r \<or> po_degree r < po_degree g"
    and q': "poly_wf p q'" "int (po_degree q' + po_degree g) < p" and r': "poly_wf p r'" "pzero r' \<or> po_degree r' < po_degree g"
    and eq: "\<And>a. (pev p q a * pev p g a + pev p r a) mod p = (pev p q' a * pev p g a + pev p r' a) mod p"
  shows "pcoef q i = pcoef q' i" "pcoef r i = pcoef r' i"
proof -
  obtain d where d: "poly_Sub q q' = Inr d" "poly_wf p d" "po_degree d \<le> max (po_degree q) (po_degree q')"
    "\<And>i. pcoef d i = (pcoef q i - pcoef q' i) mod p" using poly_Sub_ok[OF q(1) q'(1)] by blast
  obtain e where e: "poly_Sub r' r = Inr e" "poly_wf p e" "po_degree e \<le> max (po_degree r') (po_degree r)"
    "\<And>i. pcoef e i = (pcoef r' i - pcoef r i) mod p" using poly_Sub_ok[OF r'(1) r(1)] by blast
  obtain m where m: "poly_Mul d g = Inr m" "poly_wf p m" "po_degree m \<le> po_degree d + po_degree g"
    "\<And>k. pcoef m k = (\<Sum>i\<le>po_degree d. \<Sum>j\<le>po_degree g. if i + j = k then pcoef d i * pcoef g j else 0) mod p"
    using poly_Mul_ok[OF d(2) g(1)] by blast
  have ev: "pev p m a = pev p e a" for a
  proof -
    have "pev p m a = ((pev p q a - pev p q' a) * pev p g a) mod p"
      using pev_mul[OF d(2) g(1) m(2,3,4), of a] pev_sub[OF q(1) q'(1) d(2,4,3), of a] by (simp add: mod_mult_left_eq)
    also have "\<dots> = (pev p r' a - pev p r a) mod p"
    proof -
      have "p dvd (pev p q a * pev p g a + pev p r a) - (pev p q' a * pev p g a + pev p r' a)"
        using eq[of a] by (simp only: mod_eq_dvd_iff)
      also have "(pev p q a * pev p g a + pev p r a) - (pev p q' a * pev p g a + pev p r' a)
          = (pev p q a - pev p q' a) * pev p g a - (pev p r' a - pev p r a)" by (simp add: algebra_simps)
      finally show ?thesis by (simp only: mod_eq_dvd_iff)
    qed
    also have "\<dots> = pev p e a" using pev_sub[OF r'(1) r(1) e(2,4,3), of a] by simp
    finally show ?thesis .
  qed
  have "int (po_degree m) < p" using m(3) d(3) q(2) q'(2) by linarith
  moreover have dg: "po_degree e < po_degree g \<or> pzero e"
  proof (cases "po_degree g = 0")
    case True
    then have "pzero r" "pzero r'" using r(2) r'(2) by auto
    then have "pcoef e i = 0" for i using e(4) pzero_coefs[OF r(1)] pzero_coefs[OF r'(1)] by simp
    then show ?thesis using poly_wfD(5)[OF e(2)] by (auto simp: pzero_def)
  next
    case False
    then show ?thesis using e(3) r(2) r'(2) by (auto simp: pzero_def)
  qed
  moreover have "int (po_degree e) < p" using dg q(2) field_prime_gt[OF p] by (auto simp: pzero_def)
  ultimately have id: "pcoef m i = pcoef e i" "po_degree m = po_degree e" "pzero m = pzero e" for i
    using poly_identity[OF p m(2) _ e(2) _ ev] by auto
  have "pzero d"
  proof (rule ccontr)
    assume nz: "\<not> pzero d"
    note D = pmul_degree[OF p d(2) nz g m(2,3,4)]
    with id dg show False by auto
  qed
  then show qq: "pcoef q i = pcoef q' i" for i using sub_zero_eq[OF q(1) q'(1) d(2,4)] by simp
  have "pcoef m i = 0" for i
    using m(4)[of i] pzero_coefs[OF d(2) \<open>pzero d\<close>] by (simp add: sum.neutral)
  then have "pzero e" using id(1) poly_wfD(5)[OF e(2)] by (metis pzero_def)
  then show "pcoef r i = pcoef r' i" using sub_zero_eq[OF r'(1) r(1) e(2,4)] by simp
qed

lemma pev_coefs:
  assumes "poly_wf p x" "poly_wf p y" "\<And>i. pcoef x i = pcoef y i"
  shows "pev p x a = pev p y a"
  using poly_wf_degree_unique[OF assms] assms(3) by (simp add: pev_def)

text \<open>Exact division by a divisor.\<close>

lemma PolyDiv_exact:
  assumes p: "field_prime p" and x: "poly_wf p x" "\<not> pzero x" "int (po_degree x) < p"
    and g: "poly_wf p g" "\<not> pzero g" and dv: "pdvd p g x"
  obtains q where "PolyDiv x g = Inr q" "poly_wf p q" "po_degree x = po_degree q + po_degree g" "\<not> pzero q"
    "\<And>a. pev p x a = (pev p q a * pev p g a) mod p"
    "(pcoef q (po_degree q) * pcoef g (po_degree g)) mod p = pcoef x (po_degree x)"
proof -
  from dv x(2) obtain u where u: "poly_wf p u" "po_degree x = po_degree u + po_degree g"
    "\<And>a. pev p x a = (pev p u a * pev p g a) mod p" by (auto simp: pdvd_def)
  obtain q r where qr: "PolyDiv x g = Inr q" "divmod_spec p x g q r" using PolyDiv_ok[OF p x(1) g] by metis
  then have D: "poly_wf p q" "poly_wf p r" "pzero r \<or> po_degree r < po_degree g"
    "\<And>a. pev p x a = (pev p q a * pev p g a + pev p r a) mod p"
    "\<not> pzero q" "po_degree q = po_degree x - po_degree g"
    "(pcoef q (po_degree q) * pcoef g (po_degree g)) mod p = pcoef x (po_degree x)"
    using u(2) x(2) by (auto simp: divmod_spec_def)
  have deg: "po_degree x = po_degree q + po_degree g" using D(6) u(2) by simp
  obtain z where z: "poly_wf p z" "pzero z" using pzeroI[of p "zmk p 0"] field_prime_gt[OF p]
    by (metis felem_zmk less_trans mod_0 zero_less_one zmk_sel(1))
  have "pcoef q i = pcoef u i" for i
  proof (rule divmod_unique(1)[OF p g D(1) _ D(2,3) u(1) _ z(1)])
    show "(pev p q a * pev p g a + pev p r a) mod p = (pev p u a * pev p g a + pev p z a) mod p" for a
      using D(4)[of a] u(3)[of a] pev_zero[OF z(2)] by simp
  qed (use deg u(2) x(3) z in auto)
  then have "pev p q a = pev p u a" for a by (rule pev_coefs[OF D(1) u(1)])
  with u(3) D deg qr(1) show thesis by (intro that[of q]) auto
qed

section \<open>Comparing polynomials\<close>

lemma poly_Equal_ok:
  assumes x: "poly_wf p x" and y: "poly_wf p y"
  shows "poly_Equal x y = Inr (\<forall>i. pcoef x i = pcoef y i)"
proof -
  note X = poly_wfD[OF x] and Y = poly_wfD[OF y]
  let ?f = "\<lambda>i eq. if \<not> eq then Inr False else
            rbind (nth_res (po_coeff x) i) (\<lambda>a. rbind (nth_res (po_coeff y) i) (\<lambda>b.
            rbind (zp_Cmp a b) (\<lambda>cmp. Inr (cmp = 0))))"
  show ?thesis
  proof (cases "po_degree x = po_degree y")
    case True
    let ?n = "Suc (po_degree x)"
    have "\<exists>b. rfold ?f [0..<?n] True = Inr b \<and> b = (\<forall>i < length [0..<?n]. pcoef x i = pcoef y i)"
    proof (rule rfold_inv)
      fix i b assume i: "i < length [0..<?n]" and b: "b = (\<forall>j < i. pcoef x j = pcoef y j)"
      have l: "[0..<?n] ! i = i" "i \<le> po_degree x" "i \<le> po_degree y" using i True by (auto simp del: upt_Suc)
      have "zp_Cmp (po_coeff x ! i) (po_coeff y ! i) = Inr (sgn (pcoef x i - pcoef y i))"
        using zp_Cmp_ok[OF X(7)[OF l(2)] Y(7)[OF l(3)]] X(8)[OF l(2)] Y(8)[OF l(3)] by simp
      then show "\<exists>b'. ?f ([0..<?n] ! i) b = Inr b' \<and> b' = (\<forall>j < Suc i. pcoef x j = pcoef y j)"
        unfolding l(1) using X(9)[OF l(2)] Y(9)[OF l(3)] b by (auto simp: less_Suc_eq sgn_eq_0_iff)
    qed simp
    then have "rfold ?f [0..<?n] True = Inr (\<forall>i < ?n. pcoef x i = pcoef y i)" by (simp only: length_upt diff_zero) blast
    moreover have "(\<forall>i < ?n. pcoef x i = pcoef y i) = (\<forall>i. pcoef x i = pcoef y i)"
      using X(4) Y(4) True by (metis less_Suc_eq_le not_le)
    ultimately show ?thesis using True by (simp add: poly_Equal_def poly_assertP_def X(1) Y(1) del: upt_Suc)
  next
    case False
    then show ?thesis using poly_wf_degree_unique[OF x y]
      by (auto simp: poly_Equal_def poly_assertP_def X(1) Y(1))
  qed
qed

lemma one_poly:
  assumes "1 < p"
  obtains o1 where "Zi (Some p) 1 = Inr (zmk p 1)" "NewPoly [zmk p 1] = Inr o1" "poly_wf p o1" "po_degree o1 = 0"
    "\<And>a. pev p o1 a = 1" "pcoef o1 0 = 1"
proof -
  have fe: "felem p (zmk p 1)" "zp_i (zmk p 1) = 1" using assms by simp_all
  show thesis using NewPoly_const[OF fe(1)] assms fe(2) that by (metis Zi_mk less_trans zero_less_one)
qed

lemma is_one_ok:
  assumes "1 < p" "poly_wf p x" "poly_wf p g"
  shows "is_one x g = Inr (po_degree g = 0 \<and> pcoef g 0 = 1)"
proof -
  obtain o1 where o1: "Zi (Some p) 1 = Inr (zmk p 1)" "NewPoly [zmk p 1] = Inr o1" "poly_wf p o1" "po_degree o1 = 0"
    "pcoef o1 0 = 1" using one_poly[OF assms(1)] by metis
  have "(\<forall>i. pcoef g i = pcoef o1 i) = (po_degree g = 0 \<and> pcoef g 0 = 1)"
  proof
    assume a: "\<forall>i. pcoef g i = pcoef o1 i"
    then show "po_degree g = 0 \<and> pcoef g 0 = 1" using poly_wf_degree_unique[OF assms(3) o1(3)] o1(4,5) by simp
  next
    assume a: "po_degree g = 0 \<and> pcoef g 0 = 1"
    then show "\<forall>i. pcoef g i = pcoef o1 i"
      using poly_wfD(4)[OF assms(3)] poly_wfD(4)[OF o1(3)] o1(4,5) by (metis gr0I)
  qed
  then show ?thesis using o1 poly_Equal_ok[OF assms(3) o1(3)] by (simp add: is_one_def poly_wfD(1)[OF assms(2)])
qed

section \<open>Factoring\<close>

lemma Zrand_felem: "0 < p \<Longrightarrow> \<exists>z. Zrand p b = Inr z \<and> felem p z"
  by (auto simp: Zrand_def randint_def go_Mod_def felem_def)

lemma rand_terms_ok:
  assumes "1 < p"
  shows "\<exists>ts. rand_terms p rng c n = Inr ts \<and> list_all (felem p) ts \<and> length ts = Suc n \<and> zp_i (ts ! n) = 1"
proof (induction n arbitrary: c)
  case 0
  then show ?case using assms by (auto simp: Zi_mk)
next
  case (Suc n)
  obtain z where "Zrand p (rng c) = Inr z" "felem p z" using Zrand_felem[of p] assms by fastforce
  with Suc[of "Suc c"] show ?case by auto
qed

lemma PolyRand_ok:
  assumes "1 < p"
  obtains r where "PolyRand p n rng c = Inr (r, c + n)" "poly_wf p r" "po_degree r = n"
proof -
  obtain ts where ts: "rand_terms p rng c n = Inr ts" "list_all (felem p) ts" "length ts = Suc n" "zp_i (ts ! n) = 1"
    using rand_terms_ok[OF assms] by blast
  then have "ts \<noteq> []" by auto
  then obtain r where r: "NewPoly ts = Inr r" "po_coeff r = ts" "poly_wf p r" using NewPoly_ok[OF ts(2)] by blast
  have "pcoef r n = 1" using ts(3,4) r(2) by (simp add: pcoef_def)
  then have "n \<le> po_degree r" using poly_wfD(4)[OF r(3), of n] by force
  moreover have "po_degree r \<le> n" using poly_wfD(2)[OF r(3)] ts(3) r(2) by simp
  ultimately show thesis using ts(1) r by (intro that[of r]) (simp_all add: PolyRand_def)
qed

lemma half_BitLen:
  assumes "8 \<le> p" shows "3 \<le> big_BitLen (p div 2)" "0 < p div 2"
proof -
  have h: "4 \<le> p div 2" using assms by simp
  have "3 \<le> bit_length m" if m: "4 \<le> m" for m
  proof (rule ccontr)
    assume "\<not> 3 \<le> bit_length m"
    then have "bit_length m \<le> 2" by simp
    then have "(2 :: nat) ^ bit_length m \<le> 2 ^ 2" by (rule power_increasing) simp
    moreover have "m < 2 ^ bit_length m" using bit_length_bounds[of m] m by simp
    ultimately show False using m by simp
  qed
  from this[of "nat \<bar>p div 2\<bar>"] show "3 \<le> big_BitLen (p div 2)" using h by (simp add: big_BitLen_def)
  show "0 < p div 2" using h by simp
qed

text \<open>An attempt always yields a monic divisor.\<close>

lemma split_attempt_ok:
  assumes p: "field_prime p" "8 \<le> p" and x: "poly_wf p x" "\<not> pzero x" "int (po_degree x) < p" and r: "poly_wf p r"
  obtains g where "split_attempt p x r = Inr g" "poly_wf p g" "monic g" "pdvd p g x"
proof -
  have p1: "1 < p" using p(2) by simp
  obtain h where h: "polyPowMod r (p div 2) x = Inr h" "poly_wf p h" "po_degree h < po_degree x \<or> po_degree h = 0"
    using polyPowMod_ok[OF p(1) x(1,2) r half_BitLen[OF p(2)]] by metis
  obtain o1 where o1: "Zi (Some p) 1 = Inr (zmk p 1)" "NewPoly [zmk p 1] = Inr o1" "poly_wf p o1" "po_degree o1 = 0"
    using one_poly[OF p1] by metis
  obtain d where d: "poly_Sub h o1 = Inr d" "poly_wf p d" "po_degree d \<le> max (po_degree h) (po_degree o1)"
    using poly_Sub_ok[OF h(2) o1(3)] by metis
  have dd: "int (po_degree d) < p" using d(3) h(3) o1(4) x(3) p1 by auto
  obtain g k where g: "PolyGcd x d = Inr g" "monic g" "poly_wf p g" "gcd_spec p x d k" "po_degree g = po_degree k"
    "\<And>a. pev p g a = (pev p k a * finv p (pcoef k (po_degree k))) mod p"
    using PolyGcd_ok[OF p(1) x(1,3) d(2) dd] x(2) by metis
  have k: "poly_wf p k" "\<not> pzero k" "pdvd p k x" using g(4) by (auto simp: gcd_spec_def)
  have "pdvd p g x" by (rule pdvd_scaled[OF p(1) x k g(3) monic_nonzero[OF g(2)] g(5,6)])
  moreover have "split_attempt p x r = Inr g" using h(1) o1(1,2) d(1) g(1) by (simp add: split_attempt_def poly_wfD(1)[OF x(1)])
  ultimately show thesis using g(2,3) that by blast
qed

text \<open>
  What a list of factors has to do with the polynomial: monic, none constant, degrees that
  add up, and the product of the values is the value.
\<close>

definition factors_of :: "int \<Rightarrow> poly list \<Rightarrow> poly \<Rightarrow> bool" where
  "factors_of p fs x \<longleftrightarrow> (\<forall>f \<in> set fs. poly_wf p f \<and> monic f \<and> 0 < po_degree f)
     \<and> (\<Sum>f\<leftarrow>fs. po_degree f) = po_degree x \<and> (\<forall>a. pev p x a = (\<Prod>f\<leftarrow>fs. pev p f a) mod p)"

lemma factors_of_append:
  assumes "factors_of p fs g" "factors_of p hs q" "po_degree x = po_degree q + po_degree g"
    "\<And>a. pev p x a = (pev p q a * pev p g a) mod p"
  shows "factors_of p (fs @ hs) x"
proof -
  have "pev p x a = (\<Prod>f\<leftarrow>fs @ hs. pev p f a) mod p" for a
    using assms(1,2) assms(4)[of a] by (simp add: factors_of_def mod_mult_eq mult.commute)
  with assms(1-3) show ?thesis by (auto simp: factors_of_def)
qed

lemma factors_of_degree_length: "factors_of p fs x \<Longrightarrow> length fs \<le> po_degree x"
proof -
  have "(\<forall>f \<in> set fs. 0 < po_degree f) \<Longrightarrow> length fs \<le> (\<Sum>f\<leftarrow>fs. po_degree f)"
    by (induction fs) (auto simp: Suc_le_eq)
  then show "factors_of p fs x \<Longrightarrow> length fs \<le> po_degree x" by (simp add: factors_of_def)
qed

lemma factors_all_linear:
  assumes "factors_of p fs x" "po_degree x \<le> length fs"
  shows "\<forall>f \<in> set fs. po_degree f = 1"
proof -
  have "(\<forall>f \<in> set fs. 0 < po_degree f) \<Longrightarrow> (\<Sum>f\<leftarrow>fs. po_degree f) \<le> length fs \<Longrightarrow> \<forall>f \<in> set fs. po_degree f = 1"
  proof (induction fs)
    case (Cons f fs)
    have l: "length fs \<le> (\<Sum>f\<leftarrow>fs. po_degree f)" using Cons.prems(1) by (induction fs) (auto simp: Suc_le_eq)
    have f: "0 < po_degree f" "po_degree f + (\<Sum>f\<leftarrow>fs. po_degree f) \<le> Suc (length fs)" using Cons.prems by simp_all
    have f1: "po_degree f = 1" using f l by linarith
    have "(\<Sum>f\<leftarrow>fs. po_degree f) \<le> length fs" using f by linarith
    then have "\<forall>f \<in> set fs. po_degree f = 1" using Cons.prems(1) by (intro Cons.IH) simp_all
    with f1 show ?case by simp
  qed simp
  moreover have "\<forall>f \<in> set fs. 0 < po_degree f" "(\<Sum>f\<leftarrow>fs. po_degree f) = po_degree x"
    using assms(1) unfolding factors_of_def by blast+
  ultimately show ?thesis using assms(2) by linarith
qed

text \<open>
  One pass of the loop: it ends, tries again with fresh random bytes, or splits the
  polynomial into two monic factors of lower degree.
\<close>

lemma factor_loop_cases:
  assumes p: "field_prime p" "8 \<le> p" and x: "poly_wf p x" "monic x" "int (po_degree x) < p"
  obtains (complete) "po_degree x \<le> length gs" "\<And>n. factor_loop (Suc n) rng c x gs = Inr (gs, c)"
  | (retry) c' where "length gs < po_degree x" "\<And>n. factor_loop (Suc n) rng c x gs = factor_loop n rng c' x gs"
  | (split) g q c' where "length gs < po_degree x" "poly_wf p g" "monic g" "0 < po_degree g" "poly_wf p q" "monic q" "0 < po_degree q"
      "po_degree x = po_degree q + po_degree g" "\<And>a. pev p x a = (pev p q a * pev p g a) mod p"
      "\<And>n. factor_loop (Suc n) rng c x gs = rbind (poly_factor n rng c' g) (\<lambda>(fs, c).
          rbind (poly_factor n rng c q) (\<lambda>(hs, c). factor_loop n rng c x (fs @ hs)))"
proof (cases "length gs < po_degree x")
  case False
  then show thesis by (intro complete) simp_all
next
  case True
  have p1: "1 < p" using p(2) by simp
  have xnz: "\<not> pzero x" using x(2) by (rule monic_nonzero)
  obtain r where r: "PolyRand p (2 * po_degree x - 1) rng c = Inr (r, c + (2 * po_degree x - 1))" "poly_wf p r"
    using PolyRand_ok[OF p1] by metis
  let ?c = "c + (2 * po_degree x - 1)"
  obtain g where g: "split_attempt p x r = Inr g" "poly_wf p g" "monic g" "pdvd p g x"
    using split_attempt_ok[OF p x(1) xnz x(3) r(2)] by metis
  let ?one = "po_degree g = 0 \<and> pcoef g 0 = 1" let ?whole = "\<forall>i. pcoef g i = pcoef x i"
  have cmp: "is_one x g = Inr ?one" "poly_Equal g x = Inr ?whole"
    using is_one_ok[OF p1 x(1) g(2)] poly_Equal_ok[OF g(2) x(1)] by auto
  show thesis
  proof (cases "\<not> ?one \<and> \<not> ?whole")
    case False
    then have "factor_loop (Suc n) rng c x gs = factor_loop n rng ?c x gs" for n
      using True r(1) g(1) cmp poly_wfD(1)[OF x(1)] by auto
    with True show thesis by (rule retry)
  next
    case nt: True
    obtain q where q: "PolyDiv x g = Inr q" "poly_wf p q" "po_degree x = po_degree q + po_degree g" "\<not> pzero q"
      "\<And>a. pev p x a = (pev p q a * pev p g a) mod p"
      "(pcoef q (po_degree q) * pcoef g (po_degree g)) mod p = pcoef x (po_degree x)"
      using PolyDiv_exact[OF p(1) x(1) xnz x(3) g(2) monic_nonzero[OF g(3)] g(4)] by metis
    have qm: "monic q" using q(6) g(3) x(2) pcoef_range(3)[OF q(2)] by (simp add: monic_def)
    have dg: "0 < po_degree g" using nt g(3) by (auto simp: monic_def intro: gr0I)
    have dq: "0 < po_degree q"
    proof (rule gr0I)
      assume d0: "po_degree q = 0"
      then have q1: "pev p q a = 1" for a using qm p1 by (simp add: pev_def monic_def)
      have "pev p x a = pev p g a" for a using q(5)[of a] q1 by simp
      then have "pcoef g i = pcoef x i" for i using poly_identity(1)[OF p(1) g(2) _ x(1,3)] q(3) d0 x(3) by simp
      with nt show False by simp
    qed
    have "factor_loop (Suc n) rng c x gs = rbind (poly_factor n rng ?c g) (\<lambda>(fs, c).
          rbind (poly_factor n rng c q) (\<lambda>(hs, c). factor_loop n rng c x (fs @ hs)))" for n
      using True r(1) g(1) cmp nt q(1) poly_wfD(1)[OF x(1)] by simp
    then show thesis by (rule split[OF True g(2,3) dg q(2) qm dq q(3,5)])
  qed
qed

lemma factor_ok:
  assumes p: "field_prime p" "8 \<le> p"
  shows "poly_wf p x \<Longrightarrow> monic x \<Longrightarrow> int (po_degree x) < p \<Longrightarrow> 0 < po_degree x \<Longrightarrow>
      poly_factor n rng c x = Inr (fs, c') \<Longrightarrow> factors_of p fs x \<and> po_degree x \<le> length fs"
    and "poly_wf p x \<Longrightarrow> monic x \<Longrightarrow> int (po_degree x) < p \<Longrightarrow> 0 < po_degree x \<Longrightarrow> factors_of p gs x \<Longrightarrow>
      factor_loop n rng c x gs = Inr (fs, c') \<Longrightarrow> factors_of p fs x \<and> po_degree x \<le> length fs"
proof (induction n arbitrary: c x gs fs c' and c x gs fs c')
  case (Suc n)
  {
    case 1
    have self: "factors_of p [x] x" using 1 by (simp add: factors_of_def)
    show ?case using 1 self Suc.IH(2)[OF 1(1-4) self] by (auto split: if_splits)
  next
    case (2 c x gs fs c')
    from p 2(1-3) show ?case
    proof (cases rule: factor_loop_cases[of p x gs rng c])
      case (split g q c1)
      obtain fg cg where fg: "poly_factor n rng c1 g = Inr (fg, cg)"
        using 2(6) unfolding split(10) rbind_Inr_iff by auto
      obtain fq cq where fq: "poly_factor n rng cg q = Inr (fq, cq)"
        using 2(6) unfolding split(10) fg by (simp add: rbind_Inr_iff) (metis (no_types) prod.collapse)
      have lt: "int (po_degree g) < p" "int (po_degree q) < p" using split(8) 2(3) by auto
      have "factors_of p (fg @ fq) x"
        using factors_of_append[OF _ _ split(8,9)] Suc.IH(1)[OF split(2,3) lt(1) split(4) fg]
          Suc.IH(1)[OF split(5,6) lt(2) split(7) fq] by blast
      from Suc.IH(2)[OF 2(1-4) this] show ?thesis using 2(6) unfolding split(10) by (simp add: fg fq)
    qed (use 2 Suc.IH(2)[OF 2(1-5)] in auto)
  }
qed simp_all

text \<open>The search has no third outcome: a factorisation, or it goes on.\<close>

lemma factor_outcome:
  assumes p: "field_prime p" "8 \<le> p"
  shows "poly_wf p x \<Longrightarrow> monic x \<Longrightarrow> int (po_degree x) < p \<Longrightarrow> poly_factor n rng c x = Inl e \<Longrightarrow> e = Diverge"
    and "poly_wf p x \<Longrightarrow> monic x \<Longrightarrow> int (po_degree x) < p \<Longrightarrow> factor_loop n rng c x gs = Inl e \<Longrightarrow> e = Diverge"
proof (induction n arbitrary: c x gs e and c x gs e)
  case (Suc n)
  {
    case 1
    then show ?case using Suc.IH(2) by (auto split: if_splits)
  next
    case 2
    from p 2(1-3) show ?case
    proof (cases rule: factor_loop_cases[of p x gs rng c])
      case (split g q c1)
      have lt: "int (po_degree g) < p" "int (po_degree q) < p" using split(8) 2(3) by auto
      show ?thesis using 2(4) unfolding split(10)
        using Suc.IH(1)[OF split(2,3) lt(1)] Suc.IH(1)[OF split(5,6) lt(2)] Suc.IH(2)[OF 2(1-3)]
        by (auto simp: rbind_def split: sum.splits)
    qed (use 2 Suc.IH(2)[OF 2(1-3)] in auto)
  }
qed simp_all

section \<open>The roots of the factors\<close>

lemma lin_root:
  assumes "1 < p" "poly_wf p f" "monic f" "po_degree f = 1"
  shows "pev p f a = (a + pcoef f 0) mod p"
  using assms by (simp add: pev_def monic_def add.commute)

lemma collect_root_ok:
  assumes p: "1 < p" and f: "poly_wf p f" "monic f" "po_degree f = 1" and zs: "zset_in p zs"
  shows "\<exists>zs'. collect_root f zs = Inr zs' \<and> zset_in p zs' \<and> zset_vals zs' = zset_vals zs \<union> roots p f"
proof -
  note F = poly_wfD[OF f(1)]
  let ?r = "(- pcoef f 0) mod p"
  have n: "zp_Neg (po_coeff f ! 0) = Inr (zmk p (- pcoef f 0))" using zp_Neg_ok[OF F(7)[of 0]] F(8)[of 0] by simp
  obtain zs' where zs': "zset_Add (zmk p (- pcoef f 0)) zs = Inr zs'" "zset_in p zs'" "zset_vals zs' = insert ?r (zset_vals zs)"
    using zs.addE[OF zs, of "zmk p (- pcoef f 0)"] p by auto
  have "roots p f = {?r}"
  proof (rule set_eqI)
    fix a
    have "a \<in> roots p f \<longleftrightarrow> 0 \<le> a \<and> a < p \<and> (a + pcoef f 0) mod p = 0" by (simp add: roots_def lin_root[OF p f])
    also have "\<dots> \<longleftrightarrow> 0 \<le> a \<and> a < p \<and> a mod p = ?r"
    proof -
      have "(a + pcoef f 0) mod p = 0 \<longleftrightarrow> p dvd a - (- pcoef f 0)" by (simp add: dvd_eq_mod_eq_0)
      also have "\<dots> \<longleftrightarrow> a mod p = ?r" by (simp only: mod_eq_dvd_iff)
      finally show ?thesis by simp
    qed
    also have "\<dots> \<longleftrightarrow> a \<in> {?r}" using p by auto
    finally show "a \<in> roots p f \<longleftrightarrow> a \<in> {?r}" .
  qed
  with zs' n F(9)[of 0] f(3) show ?thesis by (simp add: collect_root_def)
qed

lemma collect_root_one:
  assumes "1 < p" "poly_wf p f" "monic f" "po_degree f = 0"
  shows "collect_root f zs = Inr zs"
  using assms poly_wfD(7-9)[OF assms(2), of 0] zp_Cmp_ok[of p "po_coeff f ! 0" "zmk p 1"]
  by (simp add: collect_root_def poly_wfD(1)[OF assms(2)] Zi_mk monic_def)

lemma collect_roots_ok:
  assumes p: "1 < p"
  shows "\<forall>f \<in> set fs. poly_wf p f \<and> monic f \<and> po_degree f = 1 \<Longrightarrow> zset_in p zs \<Longrightarrow>
    \<exists>zs'. rfold collect_root fs zs = Inr zs' \<and> zset_in p zs' \<and> zset_vals zs' = zset_vals zs \<union> (\<Union>f \<in> set fs. roots p f)"
proof (induction fs arbitrary: zs)
  case (Cons f fs)
  then obtain zs1 where "collect_root f zs = Inr zs1" "zset_in p zs1" "zset_vals zs1 = zset_vals zs \<union> roots p f"
    using collect_root_ok[OF p] by (metis list.set_intros(1))
  with Cons.IH[of zs1] Cons.prems(1) show ?case by auto
qed simp

lemma prod_list_mod_zero:
  assumes "field_prime p"
  shows "(\<Prod>f\<leftarrow>fs. g f) mod p = 0 \<longleftrightarrow> (\<exists>f \<in> set fs. g f mod p = (0 :: int))"
  by (induction fs) (use field_prime_gt[OF assms] field_prime_mult_zero[OF assms] in auto)

text \<open>What a search that ends returns: every root, and the whole polynomial is accounted for.\<close>

definition splits :: "int \<Rightarrow> poly \<Rightarrow> bool" where
  "splits p x \<longleftrightarrow> (\<exists>fs. factors_of p fs x \<and> (\<forall>f \<in> set fs. po_degree f = 1))"

lemma poly_Factor_ok:
  assumes p: "field_prime p" "8 \<le> p" and x: "poly_wf p x" "monic x" "int (po_degree x) < p"
    and run: "poly_Factor n rng c x = Inr (zs, c')"
  shows "zset_in p zs" "zset_vals zs = roots p x" "splits p x"
proof -
  have p1: "1 < p" using p by simp
  obtain fs where fs: "poly_factor n rng c x = Inr (fs, c')" "rfold collect_root fs zset_empty = Inr zs"
    using run by (auto simp: poly_Factor_def rbind_Inr_iff split: prod.splits)
  have "zset_in p zs \<and> zset_vals zs = roots p x \<and> splits p x"
  proof (cases "po_degree x = 0")
    case True
    then have "fs = [x]" using fs(1) by (cases n) simp_all
    have x1: "pcoef x 0 = 1" using x(2) True by (simp add: monic_def)
    have "collect_root x zset_empty = Inr zset_empty" by (rule collect_root_one[OF p1 x(1,2) True])
    then have "zs = zset_empty" using fs(2) \<open>fs = [x]\<close> by simp
    moreover have ev: "pev p x a = 1" for a using True x1 p1 by (simp add: pev_def)
    moreover have "factors_of p [] x" using True ev p1 by (simp add: factors_of_def)
    then have "splits p x" unfolding splits_def by (intro exI[of _ "[]"]) simp
    ultimately show ?thesis using zs.inv_empty[of p] zs.vals_empty by (simp add: roots_def)
  next
    case False
    with factor_ok(1)[OF p x _ fs(1)] have F: "factors_of p fs x" "po_degree x \<le> length fs" by auto
    note lin = factors_all_linear[OF F]
    have fw: "\<forall>f \<in> set fs. poly_wf p f \<and> monic f \<and> po_degree f = 1"
      and ev: "\<And>a. pev p x a = (\<Prod>f\<leftarrow>fs. pev p f a) mod p"
      using F(1) lin unfolding factors_of_def by blast+
    obtain zs' where "rfold collect_root fs zset_empty = Inr zs'" "zset_in p zs'"
      "zset_vals zs' = zset_vals zset_empty \<union> (\<Union>f \<in> set fs. roots p f)"
      using collect_roots_ok[OF p1 fw zs.inv_empty] by blast
    moreover have "roots p x = (\<Union>f \<in> set fs. roots p f)"
      by (auto simp: roots_def ev prod_list_mod_zero[OF p(1)])
    ultimately show ?thesis using fs(2) zs.vals_empty F(1) lin by (auto simp: splits_def)
  qed
  then show "zset_in p zs" "zset_vals zs = roots p x" "splits p x" by auto
qed

text \<open>The roots are collected without an error.\<close>

lemma poly_Factor_outcome:
  assumes p: "field_prime p" "8 \<le> p" and x: "poly_wf p x" "monic x" "int (po_degree x) < p"
    and run: "poly_Factor n rng c x = Inl e"
  shows "e = Diverge"
proof (cases "poly_factor n rng c x")
  case (Inl e')
  with run factor_outcome(1)[OF p x Inl] show ?thesis by (simp add: poly_Factor_def)
next
  case (Inr r)
  obtain fs c' where fs: "r = (fs, c')" by (cases r)
  have p1: "1 < p" using p by simp
  have "\<exists>zs. rfold collect_root fs zset_empty = Inr zs"
  proof (cases "po_degree x = 0")
    case True
    then have f: "fs = [x]" using Inr fs by (cases n) simp_all
    have "collect_root x zset_empty = Inr zset_empty" by (rule collect_root_one[OF p1 x(1,2) True])
    with f show ?thesis by simp
  next
    case False
    then have F: "factors_of p fs x" "po_degree x \<le> length fs" using factor_ok(1)[OF p x] Inr fs by auto
    then have "\<forall>f \<in> set fs. poly_wf p f \<and> monic f \<and> po_degree f = 1"
      using factors_all_linear[OF F] unfolding factors_of_def by blast
    from collect_roots_ok[OF p1 this zs.inv_empty] show ?thesis by blast
  qed
  with run Inr fs show ?thesis by (auto simp: poly_Factor_def)
qed

end
