(* ===== verification/MatrixSpec.thy ===== *)
theory MatrixSpec
  imports Matrix
begin

text \<open>
  Elimination stays inside its slice and inside its field: on a matrix with at least as many
  columns as rows it returns a matrix of the same shape. The test whether a cell is one looks
  at 64 bits only, and elimination with a pivot that is one in those bits goes wrong.
\<close>

definition mx_wf :: "int \<Rightarrow> nat \<Rightarrow> nat \<Rightarrow> matrix \<Rightarrow> bool" where
  "mx_wf p c r m \<longleftrightarrow> mx_columns m = c \<and> mx_rows m = r \<and> length (mx_cells m) = c * r \<and> list_all (felem p) (mx_cells m)"

lemma cell_index: "i < c \<Longrightarrow> j < r \<Longrightarrow> i + j * c < c * (r :: nat)"
proof -
  assume "i < c" "j < r"
  then have "i + j * c < Suc j * c" by simp
  also have "\<dots> \<le> r * c" using \<open>j < r\<close> by (intro mult_le_mono1) simp
  finally show ?thesis by (simp add: mult.commute)
qed

lemma mx_Get_ok:
  assumes "mx_wf p c r m" "i < c" "j < r"
  shows "\<exists>z. mx_Get m i j = Inr z \<and> felem p z"
  using assms cell_index[OF assms(2,3)] by (auto simp: mx_wf_def mx_Get_def list_all_length)

lemma mx_Set_ok:
  assumes "mx_wf p c r m" "i < c" "j < r" "felem p z"
  shows "\<exists>m'. mx_Set i j z m = Inr m' \<and> mx_wf p c r m'"
  using assms cell_index[OF assms(2,3)] by (auto simp: mx_wf_def mx_Set_def list_all_length nth_list_update)

lemma NewMatrix_wf: "felem p x \<Longrightarrow> mx_wf p c r (NewMatrix c r x)"
  by (simp add: mx_wf_def NewMatrix_def list_all_iff)

lemma bind_ok: "\<exists>x. m = Inr x \<and> P x \<Longrightarrow> (\<And>x. P x \<Longrightarrow> \<exists>y. f x = Inr y \<and> Q y) \<Longrightarrow> \<exists>y. rbind m f = Inr y \<and> Q y"
  by auto

lemma mx_swapRows_wf:
  assumes "mx_wf p c r m" "j1 < r" "j2 < r"
  shows "\<exists>m'. mx_swapRows j1 j2 m = Inr m' \<and> mx_wf p c r m'"
  unfolding mx_swapRows_def
proof (rule rfold_inv_set)
  fix i m1 assume "i \<in> set [0..<mx_columns m]" and w: "mx_wf p c r m1"
  then have i: "i < c" using assms(1) by (simp add: mx_wf_def)
  show "\<exists>s'. rbind (mx_Get m1 i j1) (\<lambda>a. rbind (mx_Get m1 i j2) (\<lambda>b.
     rbind (mx_Set i j1 b m1) (mx_Set i j2 a))) = Inr s' \<and> mx_wf p c r s'"
    by (rule bind_ok[OF mx_Get_ok[OF w i assms(2)]], rule bind_ok[OF mx_Get_ok[OF w i assms(3)]],
        rule bind_ok[OF mx_Set_ok[OF w i assms(2)]], assumption, rule mx_Set_ok[OF _ i assms(3)])
qed (use assms in simp_all)

lemma zp_op_ok:
  "felem p x \<Longrightarrow> felem p y \<Longrightarrow> \<exists>z. zp_Mul x y = Inr z \<and> felem p z"
  "felem p x \<Longrightarrow> felem p y \<Longrightarrow> \<exists>z. zp_Sub x y = Inr z \<and> felem p z"
  "felem p x \<Longrightarrow> \<exists>z. zp_Inv x = Inr z \<and> felem p z"
  "felem p x \<Longrightarrow> \<exists>z. zp_Neg x = Inr z \<and> felem p z"
  using zp_Mul_ok zp_Sub_ok zp_Inv_ok zp_Neg_ok felem_pos felem_zmk by metis+

lemma mx_scmultRow_wf:
  assumes "mx_wf p c r m" "j < r" "felem p sc"
  shows "\<exists>m'. mx_scmultRow scol j sc m = Inr m' \<and> mx_wf p c r m'"
  unfolding mx_scmultRow_def
proof (rule rfold_inv_set)
  fix i m1 assume "i \<in> set [scol..<mx_columns m]" and w: "mx_wf p c r m1"
  then have i: "i < c" using assms(1) by (simp add: mx_wf_def)
  show "\<exists>s'. rbind (mx_Get m1 i j) (\<lambda>v. rbind (zp_Mul v sc) (\<lambda>v. mx_Set i j v m1)) = Inr s' \<and> mx_wf p c r s'"
    by (rule bind_ok[OF mx_Get_ok[OF w i assms(2)]], rule bind_ok[OF zp_op_ok(1)[OF _ assms(3)]], assumption,
        rule mx_Set_ok[OF w i assms(2)])
qed (use assms in simp_all)

lemma mx_rowsub_wf:
  assumes "mx_wf p c r m" "src < r" "dst < r" "felem p sc"
  shows "\<exists>m'. mx_rowsub scol src dst sc m = Inr m' \<and> mx_wf p c r m'"
  unfolding mx_rowsub_def
proof (rule rfold_inv_set)
  fix i m1 assume "i \<in> set [scol..<mx_columns m]" and w: "mx_wf p c r m1"
  then have i: "i < c" using assms(1) by (simp add: mx_wf_def)
  obtain s where s: "mx_Get m1 i src = Inr s" "felem p s" using mx_Get_ok[OF w i assms(2)] by blast
  obtain v where v: "mx_Get m1 i dst = Inr v" "felem p v" using mx_Get_ok[OF w i assms(3)] by blast
  have "\<exists>z. (if zp_Int64 sc \<noteq> 1 then rbind (zp_Mul s sc) (zp_Sub v) else zp_Sub v s) = Inr z \<and> felem p z"
    using bind_ok[OF zp_op_ok(1)[OF s(2) assms(4)] zp_op_ok(2)[OF v(2)]] zp_op_ok(2)[OF v(2) s(2)] by simp
  then show "\<exists>s'. rbind (mx_Get m1 i src) (\<lambda>sval. if \<not> zp_IsZero sval then
       rbind (mx_Get m1 i dst) (\<lambda>v. rbind (if zp_Int64 sc \<noteq> 1 then rbind (zp_Mul sval sc) (zp_Sub v) else zp_Sub v sval)
         (\<lambda>v. mx_Set i dst v m1)) else Inr m1) = Inr s' \<and> mx_wf p c r s'"
    using s v w mx_Set_ok[OF w i assms(3)] by auto
qed (use assms in simp_all)

lemma find_pivot_ok:
  assumes "mx_wf p c r m" "j < c"
  shows "\<forall>jf \<in> set jfs. jf < r \<Longrightarrow> \<exists>o'. find_pivot m j jfs = Inr o' \<and> (\<forall>js. o' = Some js \<longrightarrow> js \<in> set jfs)"
proof (induction jfs)
  case (Cons jf jfs)
  then obtain z where "mx_Get m j jf = Inr z" using mx_Get_ok[OF assms, of jf] by auto
  with Cons show ?case by auto
qed simp

lemma mx_eliminate_wf:
  assumes "mx_wf p c r m" "j < c" "j < r"
  shows "\<exists>m'. mx_eliminate j m = Inr m' \<and> mx_wf p c r m'"
proof -
  have rest: "\<exists>m'. rfold (\<lambda>j2 m. rbind (mx_Get m j j2) (\<lambda>sc. mx_rowsub j j j2 (zp_Copy sc) m)) [j + 1..<mx_rows m] m1 = Inr m'
      \<and> mx_wf p c r m'" if w: "mx_wf p c r m1" for m1
  proof (rule rfold_inv_set[where P = "mx_wf p c r", OF w])
    fix j2 m2 assume "j2 \<in> set [j + 1..<mx_rows m]" and w2: "mx_wf p c r m2"
    then have j2: "j2 < r" using assms(1) by (simp add: mx_wf_def)
    show "\<exists>s'. rbind (mx_Get m2 j j2) (\<lambda>sc. mx_rowsub j j j2 (zp_Copy sc) m2) = Inr s' \<and> mx_wf p c r s'"
      by (rule bind_ok[OF mx_Get_ok[OF w2 assms(2) j2]]) (simp add: mx_rowsub_wf[OF w2 assms(3) j2])
  qed
  obtain v where v: "mx_Get m j j = Inr v" "felem p v" using mx_Get_ok[OF assms] by blast
  have "\<exists>m1. (if zp_Int64 v \<noteq> 1 then rbind (zp_Inv (zp_Copy v)) (\<lambda>inv. mx_scmultRow j j inv m) else Inr m) = Inr m1 \<and> mx_wf p c r m1"
    using bind_ok[OF zp_op_ok(3)[OF v(2)] mx_scmultRow_wf[OF assms(1,3)]] assms(1) by simp
  with rest v show ?thesis by (auto simp: mx_eliminate_def)
qed

lemma mx_processRowForward_wf:
  assumes "mx_wf p c r m" "j < c" "j < r"
  shows "\<exists>m'. mx_processRowForward j m = Inr m' \<and> mx_wf p c r m'"
proof -
  obtain v where v: "mx_Get m j j = Inr v" "felem p v" using mx_Get_ok[OF assms] by blast
  have rows: "mx_rows m = r" using assms(1) by (simp add: mx_wf_def)
  obtain jo where jo: "find_pivot m j [j + 1..<mx_rows m] = Inr jo" "\<And>js. jo = Some js \<Longrightarrow> js < r"
    using find_pivot_ok[OF assms(1,2), of "[j + 1..<mx_rows m]"] rows by auto
  show ?thesis
  proof (cases "zp_IsZero v")
    case True
    show ?thesis
    proof (cases jo)
      case None
      with True v jo assms(1) show ?thesis by (simp add: mx_processRowForward_def)
    next
      case (Some js)
      have "\<exists>m'. rbind (mx_swapRows j js m) (mx_eliminate j) = Inr m' \<and> mx_wf p c r m'"
        by (rule bind_ok[OF mx_swapRows_wf[OF assms(1,3) jo(2)[OF Some]]]) (rule mx_eliminate_wf[OF _ assms(2,3)])
      with True v jo(1) Some show ?thesis by (simp add: mx_processRowForward_def)
    qed
  next
    case False
    with v mx_eliminate_wf[OF assms] show ?thesis by (simp add: mx_processRowForward_def)
  qed
qed

lemma mx_backSubstitute_wf:
  assumes "mx_wf p c r m" "j < c" "j < r"
  shows "\<exists>m'. mx_backSubstitute j m = Inr m' \<and> mx_wf p c r m'"
proof -
  obtain v where v: "mx_Get m j j = Inr v" using mx_Get_ok[OF assms] by blast
  have "\<exists>m'. rfold (\<lambda>j2 m. rbind (mx_Get m j j2) (\<lambda>sc.
         let scmult = zp_Copy sc in
         rbind (mx_rowsub (mx_rows m - 1) j j2 scmult m) (\<lambda>m.
         rbind (Zi (zp_p scmult) 0) (\<lambda>z. mx_Set j j2 z m)))) (rev [0..<j]) m = Inr m' \<and> mx_wf p c r m'"
  proof (rule rfold_inv_set[where P = "mx_wf p c r", OF assms(1)])
    fix j2 m2 assume "j2 \<in> set (rev [0..<j])" and w2: "mx_wf p c r m2"
    then have j2: "j2 < r" using assms(3) by simp
    obtain sc where sc: "mx_Get m2 j j2 = Inr sc" "felem p sc" using mx_Get_ok[OF w2 assms(2) j2] by blast
    then have z: "Zi (zp_p sc) 0 = Inr (zmk p 0)" "felem p (zmk p 0)"
      using felem_pos[of p sc] felem_p[of p sc] by (simp_all add: Zi_mk)
    obtain m3 where m3: "mx_rowsub (mx_rows m2 - 1) j j2 sc m2 = Inr m3" "mx_wf p c r m3"
      using mx_rowsub_wf[OF w2 assms(3) j2 sc(2)] by blast
    with sc z mx_Set_ok[OF m3(2) assms(2) j2 z(2)]
    show "\<exists>s'. rbind (mx_Get m2 j j2) (\<lambda>sc. let scmult = zp_Copy sc in
         rbind (mx_rowsub (mx_rows m2 - 1) j j2 scmult m2) (\<lambda>m.
         rbind (Zi (zp_p scmult) 0) (\<lambda>z. mx_Set j j2 z m))) = Inr s' \<and> mx_wf p c r s'" by simp
  qed
  with v assms(1) show ?thesis by (simp add: mx_backSubstitute_def)
qed

lemma mx_Reduce_wf:
  assumes "mx_wf p c r m" "r \<le> c"
  shows "\<exists>m'. mx_Reduce m = Inr m' \<and> mx_wf p c r m'"
proof -
  have d: "mx_columns m = c" "mx_rows m = r" using assms(1) by (auto simp: mx_wf_def)
  have "\<exists>m'. rbind (rfold mx_processRowForward [0..<r] m) (rfold mx_backSubstitute (rev [1..<r])) = Inr m' \<and> mx_wf p c r m'"
  proof (rule bind_ok)
    show "\<exists>m'. rfold mx_processRowForward [0..<r] m = Inr m' \<and> mx_wf p c r m'"
      by (rule rfold_inv_set[where P = "mx_wf p c r", OF assms(1)]) (use assms(2) mx_processRowForward_wf in auto)
    show "\<exists>m'. rfold mx_backSubstitute (rev [1..<r]) m1 = Inr m' \<and> mx_wf p c r m'" if "mx_wf p c r m1" for m1
      by (rule rfold_inv_set[where P = "mx_wf p c r", OF that]) (use assms(2) mx_backSubstitute_wf in auto)
  qed
  with d assms(2) show ?thesis by (simp add: mx_Reduce_def)
qed

end
