(* ===== verification/PTreeInv.thy ===== *)
theory PTreeInv
  imports PTree
begin

text \<open>
  Correctness of the in-memory prefix tree: the node invariant (sizes, sample products,
  placement by bits, the split and join thresholds), what insertion and removal do to the
  elements, and the absence of panics and of unbounded recursion.
\<close>

section \<open>The digits of an element\<close>

text \<open>\<open>zbit z k\<close> is bit \<open>k\<close> of the bitstring of \<open>z\<close>; \<open>zdigit c z d\<close> the child taken at depth \<open>d\<close>.\<close>

definition zbit :: "zp \<Rightarrow> nat \<Rightarrow> bool" where
  "zbit z k \<longleftrightarrow> k < 129 \<and> bit (nat (zp_i z)) (8 * (k div 8) + (7 - k mod 8))"

definition zdigit :: "ptcfg \<Rightarrow> zp \<Rightarrow> nat \<Rightarrow> nat" where
  "zdigit c z d = horner_sum of_bool 2 (map (\<lambda>i. zbit z (d * BitQuantum c + i)) [0..<BitQuantum c])"

lemma bit_length_unique:
  assumes "2 ^ k \<le> n" "n < 2 ^ Suc k"
  shows "bit_length n = Suc k"
proof -
  have n: "0 < n" using assms(1) by (metis less_le_trans zero_less_numeral zero_less_power)
  from bit_length_bounds[OF n] assms have "2 ^ (bit_length n - 1) < (2 :: nat) ^ Suc k" "2 ^ k < (2 :: nat) ^ bit_length n"
    by linarith+
  then have "bit_length n - 1 < Suc k" "k < bit_length n"
    using power_less_imp_less_exp[of "2 :: nat"] by (simp_all only: one_less_numeral_iff semiring_norm)
  then show ?thesis by linarith
qed

lemma P_SKS_BitLen: "big_BitLen P_SKS = 129"
  using bit_length_unique[of 128 "nat P_SKS"] by (simp add: big_BitLen_def P_SKS_def)

lemma zp_bitstring:
  assumes "felem P_SKS z"
  obtains bs where "NewZpBitstring z = Inr bs" "bs_wf bs" "bs_bits bs = 129"
    "\<And>k. k \<le> 129 \<Longrightarrow> bs_Get bs (int k) = Inr (if zbit z k then 1 else 0)"
proof -
  from NewZpBitstring_ok[OF assms] P_SKS_BitLen obtain bs where bs: "NewZpBitstring z = Inr bs"
    "bs_wf bs" "bs_bits bs = 129"
    "\<And>k. k < 8 * byte_count 129 \<Longrightarrow> bs_bit bs k \<longleftrightarrow>
          k < 129 \<and> bit (nat (zp_i z)) (8 * (k div 8) + (7 - k mod 8))" by auto
  have "bs_Get bs (int k) = Inr (if zbit z k then 1 else 0)" if "k \<le> 129" for k
  proof -
    have "k < 8 * byte_count 129" using that by (simp add: byte_count_def)
    moreover have "k div 8 < length (bs_buf bs)"
      using bs(2,3) that div_le_mono[OF that, of 8] by (simp add: bs_wf_def byte_count_def)
    ultimately show ?thesis using bs that by (simp add: bs_Get_ok zbit_def)
  qed
  with bs that show thesis by blast
qed

lemma OR_power_eq_add: "(ci :: nat) < 2 ^ i \<Longrightarrow> ci OR 2 ^ i = ci + 2 ^ i"
proof -
  assume a: "ci < 2 ^ i"
  have "ci AND push_bit i 1 = 0"
  proof (rule bit_eqI)
    fix n
    have "\<not> bit ci i" using a by (metis bit_nat_iff bit_take_bit_iff less_irrefl take_bit_nat_eq_self)
    moreover have "bit (push_bit i (1 :: nat)) n \<longleftrightarrow> n = i"
      unfolding bit_push_bit_iff bit_1_iff by auto
    ultimately show "bit (ci AND push_bit i 1) n = bit (0 :: nat) n"
      by (auto simp only: bit_and_iff bit_0_eq bot_apply bot_bool_def)
  qed
  then have "ci OR push_bit i 1 = ci + push_bit i 1" by (rule disjunctive_add_eq_or[symmetric])
  then show ?thesis by (simp only: push_bit_of_1)
qed

text \<open>The loop both \<open>NextChild\<close> and \<open>Node\<close> run over the bits of one level.\<close>

lemma digit_loop:
  assumes "\<And>i. i < n \<Longrightarrow> g i = Inr (if f i then (1 :: nat) else 0)"
  shows "rfold (\<lambda>i ci. rbind (g i) (\<lambda>b. Inr (if b = 1 then ci OR push_bit i 1 else ci))) [0..<n] 0
    = Inr (horner_sum of_bool 2 (map f [0..<n]) :: nat)"
proof -
  let ?P = "\<lambda>i ci. ci = (horner_sum of_bool 2 (map f [0..<i]) :: nat)"
  have "\<exists>s'. rfold (\<lambda>i ci. rbind (g i) (\<lambda>b. Inr (if b = 1 then ci OR push_bit i 1 else ci))) [0..<n] 0
      = Inr s' \<and> ?P (length [0..<n]) s'"
  proof (rule rfold_inv)
    fix i s
    assume i: "i < length [0..<n]" and s: "?P i s"
    then have "g ([0..<n] ! i) = Inr (if f i then 1 else 0)" using assms by simp
    moreover have "s < 2 ^ i"
      using s horner_sum_of_bool_2_less[of "map f [0..<i]"] by simp
    ultimately show "\<exists>s'. rbind (g ([0..<n] ! i)) (\<lambda>b. Inr (if b = 1 then s OR push_bit ([0..<n] ! i) 1 else s))
        = Inr s' \<and> ?P (Suc i) s'"
      using i s by (simp add: horner_sum_append OR_power_eq_add)
  qed simp
  then show ?thesis by simp
qed

lemma zdigit_less: "zdigit c z d < 2 ^ BitQuantum c"
  using horner_sum_of_bool_2_less[of "map (\<lambda>i. zbit z (d * BitQuantum c + i)) [0..<BitQuantum c]"]
  by (simp add: zdigit_def)

lemma zdigit_bit: "i < BitQuantum c \<Longrightarrow> bit (zdigit c z d) i \<longleftrightarrow> zbit z (d * BitQuantum c + i)"
  by (simp add: zdigit_def bit_horner_sum_bit_iff)

lemma NextChild_ok:
  assumes "felem P_SKS z" "NewZpBitstring z = Inr bs" "d * BitQuantum c + BitQuantum c \<le> 130"
  shows "NextChild c False bs d = Inr (zdigit c z d)"
proof -
  obtain bs' where "NewZpBitstring z = Inr bs'"
    "\<And>k. k \<le> 129 \<Longrightarrow> bs_Get bs' (int k) = Inr (if zbit z k then 1 else 0)"
    using zp_bitstring[OF assms(1)] by blast
  with assms(2,3) show ?thesis
    unfolding NextChild_def zdigit_def if_False by (intro digit_loop) (simp only: sum.inject)
qed

text \<open>
  Three different elements cannot agree on the first 128 bits: the bitstring of a field
  element drops its top bit, so at most two elements share a bitstring.
\<close>

lemma zbit_low: "m < 128 \<Longrightarrow> bit (nat (zp_i z)) m \<longleftrightarrow> zbit z (8 * (m div 8) + (7 - m mod 8))"
proof -
  assume m: "m < 128"
  have r: "m mod 8 \<le> 7" using mod_less_divisor[of 8 m] by linarith
  have "m div 8 \<le> 15" using m by linarith
  then have "8 * (m div 8) + (7 - m mod 8) < 129" by linarith
  moreover have "8 * ((8 * (m div 8) + (7 - m mod 8)) div 8) + (7 - (8 * (m div 8) + (7 - m mod 8)) mod 8) = m"
  proof -
    have "7 - m mod 8 < 8" by linarith
    then have "(8 * (m div 8) + (7 - m mod 8)) div 8 = m div 8"
      "(8 * (m div 8) + (7 - m mod 8)) mod 8 = 7 - m mod 8"
      by (simp_all only: div_mult_self4 mod_mult_self4 mod_less div_less add_0_right)
    with r show ?thesis using div_mult_mod_eq[of m 8] by simp
  qed
  ultimately show ?thesis by (simp only: zbit_def simp_thms)
qed

lemma same_bits_mod:
  assumes "felem P_SKS x" "felem P_SKS y" "\<And>k. k < 128 \<Longrightarrow> zbit x k = zbit y k"
  shows "zp_i x mod 2 ^ 128 = zp_i y mod 2 ^ 128"
proof -
  have "take_bit 128 (nat (zp_i x)) = take_bit 128 (nat (zp_i y))"
  proof (rule bit_eqI)
    fix m
    show "bit (take_bit 128 (nat (zp_i x))) m = bit (take_bit 128 (nat (zp_i y))) m"
    proof (cases "m < 128")
      case True
      then have "m div 8 \<le> 15" by linarith
      then have "8 * (m div 8) + (7 - m mod 8) < 128" by linarith
      with True assms(3) show ?thesis by (simp add: bit_take_bit_iff zbit_low)
    qed (simp add: bit_take_bit_iff)
  qed
  then have "nat (zp_i x) mod 2 ^ 128 = nat (zp_i y) mod 2 ^ 128" by (simp only: take_bit_eq_mod)
  then have "int (nat (zp_i x) mod 2 ^ 128) = int (nat (zp_i y) mod 2 ^ 128)" by (rule arg_cong)
  then show ?thesis using assms(1,2) by (simp only: felem_def zmod_int of_nat_power) simp
qed

lemma div_two_cases: "0 \<le> a \<Longrightarrow> a < 2 * K \<Longrightarrow> 0 < K \<Longrightarrow> a div K = 0 \<or> a div K = (1 :: int)"
proof (cases "a < K")
  case False
  assume a: "0 \<le> a" "a < 2 * K" "0 < K"
  have "a div K = (a - K + K) div K" by simp
  also have "\<dots> = (a - K) div K + 1" using a by (subst div_add_self2) auto
  also have "(a - K) div K = 0" using a False by (intro div_pos_pos_trivial) auto
  finally show ?thesis by simp
qed (simp add: div_pos_pos_trivial)

lemma three_agree:
  assumes "felem P_SKS x" "felem P_SKS y" "felem P_SKS z"
    and "\<And>k. k < 128 \<Longrightarrow> zbit x k = zbit z k" "\<And>k. k < 128 \<Longrightarrow> zbit y k = zbit z k"
  shows "x = y \<or> x = z \<or> y = z"
proof -
  have "zp_i x mod 2 ^ 128 = zp_i z mod 2 ^ 128" "zp_i y mod 2 ^ 128 = zp_i z mod 2 ^ 128"
    using same_bits_mod[OF assms(1,3,4)] same_bits_mod[OF assms(2,3,5)] by blast+
  moreover have "zp_i w div 2 ^ 128 = 0 \<or> zp_i w div 2 ^ 128 = 1" if "felem P_SKS w" for w
  proof -
    have "0 \<le> zp_i w" "zp_i w < 2 * 2 ^ 128" using that by (auto simp: felem_def P_SKS_def)
    then show ?thesis by (intro div_two_cases) simp_all
  qed
  moreover have "w = v" if "zp_i w mod 2 ^ 128 = zp_i v mod 2 ^ 128" "zp_i w div 2 ^ 128 = zp_i v div 2 ^ 128"
    "felem P_SKS w" "felem P_SKS v" for w v
  proof (rule felem_eqI[OF that(3,4)])
    have "zp_i w = 2 ^ 128 * (zp_i w div 2 ^ 128) + zp_i w mod 2 ^ 128" by (rule mult_div_mod_eq[symmetric])
    also have "\<dots> = zp_i v" unfolding that(1,2) by (rule mult_div_mod_eq)
    finally show "zp_i w = zp_i v" .
  qed
  ultimately show ?thesis using assms(1-3) by metis
qed

section \<open>The node invariant\<close>

text \<open>The sample value at point \<open>pt\<close>: the product of \<open>pt - x\<close> over the elements.\<close>

definition sval :: "zp list \<Rightarrow> zp \<Rightarrow> zp" where
  "sval xs pt = zmk P_SKS (\<Prod>x\<leftarrow>xs. zp_i pt - zp_i x)"

definition svals :: "zp list \<Rightarrow> zp list \<Rightarrow> zp list" where
  "svals points xs = map (sval xs) points"

fun node_wf :: "ptcfg \<Rightarrow> zp list \<Rightarrow> nat \<Rightarrow> mnode \<Rightarrow> bool" where
  "node_wf c points d (MNode k ch es num sv) \<longleftrightarrow>
     (let xs = mem_Elements (MNode k ch es num sv) in
      num = int (length xs) \<and> sv = svals points xs \<and> distinct xs
      \<and> list_all (\<lambda>x. felem P_SKS x \<and> x \<notin> set points) xs
      \<and> (ch = [] \<longrightarrow> length es \<le> SplitThreshold c + 1)
      \<and> (ch \<noteq> [] \<longrightarrow> es = [] \<and> length ch = 2 ^ BitQuantum c \<and> int (JoinThreshold c) < num
            \<and> d * BitQuantum c < 128)
      \<and> (\<forall>i < length ch. n_key (ch ! i) = i \<and> (\<forall>x \<in> set (mem_Elements (ch ! i)). zdigit c x d = i))
      \<and> list_all (node_wf c points (Suc d)) ch)"

declare node_wf.simps [simp del] mem_Elements.simps [simp del]

definition cfg_ok :: "ptcfg \<Rightarrow> bool" where
  "cfg_ok c \<longleftrightarrow> 0 < BitQuantum c \<and> 0 < SplitThreshold c
     \<and> (\<forall>d < 128. d * BitQuantum c < 128 \<longrightarrow> d * BitQuantum c + BitQuantum c \<le> 130)"

definition points_ok :: "ptcfg \<Rightarrow> zp list \<Rightarrow> bool" where
  "points_ok c points \<longleftrightarrow> list_all (felem P_SKS) points \<and> length points = NumSamples c"

lemma mem_Elements_leaf: "n_children n = [] \<Longrightarrow> mem_Elements n = n_elements n"
  by (cases n) (simp add: mem_Elements.simps)

lemma mem_Elements_inner: "n_children n \<noteq> [] \<Longrightarrow> mem_Elements n = concat (map mem_Elements (n_children n))"
  by (cases n) (simp add: mem_Elements.simps)

lemma node_wfD:
  assumes "node_wf c points d n"
  shows "n_num n = int (length (mem_Elements n))" "n_svalues n = svals points (mem_Elements n)"
    "distinct (mem_Elements n)" "\<And>x. x \<in> set (mem_Elements n) \<Longrightarrow> felem P_SKS x \<and> x \<notin> set points"
    "n_children n = [] \<Longrightarrow> length (n_elements n) \<le> SplitThreshold c + 1"
    "n_children n \<noteq> [] \<Longrightarrow> n_elements n = [] \<and> length (n_children n) = 2 ^ BitQuantum c
        \<and> int (JoinThreshold c) < n_num n \<and> d * BitQuantum c < 128"
    "\<And>i. i < length (n_children n) \<Longrightarrow> n_key (n_children n ! i) = i
        \<and> (\<forall>x \<in> set (mem_Elements (n_children n ! i)). zdigit c x d = i)
        \<and> node_wf c points (Suc d) (n_children n ! i)"
  using assms by (cases n, simp add: node_wf.simps Let_def list_all_iff; fastforce)+

lemma node_wfI:
  assumes "n_num n = int (length (mem_Elements n))" "n_svalues n = svals points (mem_Elements n)"
    "distinct (mem_Elements n)" "\<And>x. x \<in> set (mem_Elements n) \<Longrightarrow> felem P_SKS x \<and> x \<notin> set points"
    "n_children n = [] \<Longrightarrow> length (n_elements n) \<le> SplitThreshold c + 1"
    "n_children n \<noteq> [] \<Longrightarrow> n_elements n = [] \<and> length (n_children n) = 2 ^ BitQuantum c
        \<and> int (JoinThreshold c) < n_num n \<and> d * BitQuantum c < 128"
    "\<And>i. i < length (n_children n) \<Longrightarrow> n_key (n_children n ! i) = i
        \<and> (\<forall>x \<in> set (mem_Elements (n_children n ! i)). zdigit c x d = i)
        \<and> node_wf c points (Suc d) (n_children n ! i)"
  shows "node_wf c points d n"
  using assms by (cases n) (simp add: node_wf.simps Let_def list_all_iff all_set_conv_all_nth)

section \<open>Sample values\<close>

lemma svals_mset: "mset xs = mset ys \<Longrightarrow> svals points xs = svals points ys"
  unfolding svals_def sval_def by (metis (no_types, lifting) mset_map prod_mset_prod_list)

lemma sval_felem [simp]: "felem P_SKS (sval xs pt)"
  by (simp add: sval_def)

lemma sub_nonzero:
  assumes "felem P_SKS a" "felem P_SKS b" "a \<noteq> b"
  shows "(zp_i a - zp_i b) mod P_SKS \<noteq> 0"
proof
  assume "(zp_i a - zp_i b) mod P_SKS = 0"
  then have "zp_i a mod P_SKS = zp_i b mod P_SKS" by (simp add: mod_eq_dvd_iff mod_eq_0_iff_dvd)
  then have "zp_i a = zp_i b" using assms(1,2) by (simp add: felem_def)
  with assms show False using felem_eqI by blast
qed

lemma AddElementArray_ok:
  assumes "list_all (felem P_SKS) points" "felem P_SKS z" "z \<notin> set points"
  shows "AddElementArray points z = Inr (map (\<lambda>pt. zmk P_SKS (zp_i pt - zp_i z)) points)"
  unfolding AddElementArray_def
proof (rule rmap_pure)
  fix pt assume "pt \<in> set points"
  then have pt: "felem P_SKS pt" "pt \<noteq> z" using assms by (auto simp: list_all_iff)
  with sub_nonzero[OF pt(1) assms(2) pt(2)] show
    "rbind (zp_Sub pt z) (\<lambda>m. if zp_IsZero m then Inl (Err ErrSamplePointElement) else Inr m)
      = Inr (zmk P_SKS (zp_i pt - zp_i z))"
    using assms(2) by (simp add: zp_Sub_ok zp_IsZero_def)
qed

lemma AddElementArray_point:
  assumes "list_all (felem P_SKS) points" "z \<in> set points"
  shows "AddElementArray points z = Inl (Err ErrSamplePointElement)"
  using assms
proof (induction points)
  case (Cons pt pts)
  have z: "felem P_SKS z" and pt: "felem P_SKS pt" using Cons.prems by (auto simp: list_all_iff)
  show ?case
  proof (cases "pt = z")
    case True
    with z show ?thesis by (simp add: AddElementArray_def zp_Sub_ok zp_IsZero_def)
  next
    case False
    with Cons have "AddElementArray pts z = Inl (Err ErrSamplePointElement)" by simp
    moreover have "(zp_i pt - zp_i z) mod P_SKS \<noteq> 0"
      using pt False z by (intro sub_nonzero)
    ultimately show ?thesis using pt z by (simp add: AddElementArray_def zp_Sub_ok zp_IsZero_def)
  qed
qed simp

lemma DelElementArray_ok:
  assumes "list_all (felem P_SKS) points" "felem P_SKS z"
  shows "DelElementArray points z = Inr (map (\<lambda>pt. zmk P_SKS (finv P_SKS (zp_i pt - zp_i z))) points)"
  unfolding DelElementArray_def
proof (rule rmap_pure)
  fix pt assume "pt \<in> set points"
  then have pt: "felem P_SKS pt" using assms by (auto simp: list_all_iff)
  have "zp_Sub pt z = Inr (zmk P_SKS (zp_i pt - zp_i z))" by (rule zp_Sub_ok[OF pt assms(2)])
  then show "rbind (zp_Sub pt z) zp_Inv = Inr (zmk P_SKS (finv P_SKS (zp_i pt - zp_i z)))"
    by (simp add: zp_Inv_ok[of P_SKS])
qed

lemma updateSvalues_ok:
  assumes "length points = length sv"
    and "list_all (felem P_SKS) sv" "list_all (felem P_SKS) m" "length m = length points"
  shows "updateSvalues points m sv = Inr (map2 (\<lambda>s x. zmk P_SKS (zp_i s * zp_i x)) sv m)"
proof -
  let ?n = "length m"
  let ?h = "\<lambda>j. zmk P_SKS (zp_i (sv ! j) * zp_i (m ! j))"
  let ?P = "\<lambda>i s. s = map (\<lambda>j. if j < i then ?h j else sv ! j) [0..<?n]"
  let ?f = "\<lambda>i sv. rbind (nth_res sv i) (\<lambda>s. rbind (nth_res m i) (\<lambda>x. rbind (zp_Mul s x) (upd_res sv i)))"
  have "\<exists>s'. rfold ?f [0..<?n] sv = Inr s' \<and> ?P (length [0..<?n]) s'"
  proof (rule rfold_inv)
    show "?P 0 sv" using assms by (simp add: map_nth)
    fix i s
    assume i: "i < length [0..<?n]" and s: "?P i s"
    have "felem P_SKS (sv ! i)" "felem P_SKS (m ! i)" using i assms by (auto simp: list_all_length)
    then have "?f ([0..<?n] ! i) s = Inr (s[i := ?h i])" using i s by (simp add: zp_Mul_ok)
    moreover have "s[i := ?h i] = map (\<lambda>j. if j < Suc i then ?h j else sv ! j) [0..<?n]"
      unfolding s by (rule nth_equalityI) (auto simp: nth_list_update less_Suc_eq)
    ultimately show "\<exists>s'. ?f ([0..<?n] ! i) s = Inr s' \<and> ?P (Suc i) s'" by blast
  qed
  then have "rfold ?f [0..<?n] sv = Inr (map ?h [0..<?n])" by (auto cong: map_cong)
  moreover have "map ?h [0..<?n] = map2 (\<lambda>s x. zmk P_SKS (zp_i s * zp_i x)) sv m"
    using assms by (intro nth_equalityI) auto
  ultimately show ?thesis using assms by (simp add: updateSvalues_def)
qed

lemma updateSvalues_insert:
  "updateSvalues points (map (\<lambda>pt. zmk P_SKS (zp_i pt - zp_i z)) points) (svals points xs)
    = Inr (svals points (z # xs))"
proof -
  have "zmk P_SKS (zp_i (sval xs pt) * zp_i (zmk P_SKS (zp_i pt - zp_i z))) = sval (z # xs) pt" for pt
    by (simp add: sval_def zmk_eq_iff mod_mult_eq mult.commute)
  then show ?thesis
    by (subst updateSvalues_ok) (auto simp: svals_def list_all_iff sval_felem intro!: nth_equalityI)
qed

lemma updateSvalues_remove:
  assumes "list_all (felem P_SKS) points" "felem P_SKS z" "z \<notin> set points"
  shows "updateSvalues points (map (\<lambda>pt. zmk P_SKS (finv P_SKS (zp_i pt - zp_i z))) points) (svals points (z # xs))
    = Inr (svals points xs)"
proof -
  have "zmk P_SKS (zp_i (sval (z # xs) pt) * zp_i (zmk P_SKS (finv P_SKS (zp_i pt - zp_i z)))) = sval xs pt"
    if "pt \<in> set points" for pt
  proof -
    let ?d = "zp_i pt - zp_i z" let ?p = "\<Prod>x\<leftarrow>xs. zp_i pt - zp_i x"
    have "felem P_SKS pt" "pt \<noteq> z" using that assms by (auto simp: list_all_iff)
    then have "coprime ?d P_SKS" using assms(2) sub_nonzero by (intro field_prime_coprime[OF P_SKS_prime]) auto
    then have inv: "(?d * finv P_SKS ?d) mod P_SKS = 1 mod P_SKS" by (intro finv_correct) simp_all
    have "(?d * ?p * finv P_SKS ?d) mod P_SKS = ((?d * finv P_SKS ?d) mod P_SKS * ?p) mod P_SKS"
      unfolding mod_mult_left_eq by (simp only: ac_simps)
    also have "\<dots> = ?p mod P_SKS" unfolding inv by (simp add: mod_mult_left_eq)
    finally show ?thesis by (simp add: sval_def zmk_eq_iff mod_mult_eq)
  qed
  then show ?thesis
    by (subst updateSvalues_ok) (auto simp: svals_def list_all_iff sval_felem intro!: nth_equalityI)
qed

section \<open>Insertion\<close>

definition child_elems :: "mnode list \<Rightarrow> zp list" where
  "child_elems ch = concat (map mem_Elements ch)"

definition children_wf :: "ptcfg \<Rightarrow> zp list \<Rightarrow> nat \<Rightarrow> mnode list \<Rightarrow> bool" where
  "children_wf c points d ch \<longleftrightarrow> (\<forall>i < length ch. n_key (ch ! i) = i
     \<and> (\<forall>x \<in> set (mem_Elements (ch ! i)). zdigit c x d = i) \<and> node_wf c points (Suc d) (ch ! i))"

definition agree :: "ptcfg \<Rightarrow> nat \<Rightarrow> zp \<Rightarrow> zp list \<Rightarrow> bool" where
  "agree c d z xs \<longleftrightarrow> (\<forall>j < d. \<forall>x \<in> set xs. zdigit c x j = zdigit c z j)"

lemma child_elems_update:
  "i < length ch \<Longrightarrow> mset (child_elems (ch[i := x])) + mset (mem_Elements (ch ! i))
    = mset (child_elems ch) + mset (mem_Elements x)"
  unfolding child_elems_def
proof (induction ch arbitrary: i)
  case (Cons a ch)
  then show ?case
  proof (cases i)
    case (Suc j)
    with Cons.IH[of j] Cons.prems show ?thesis by (simp add: ac_simps)
  qed (simp add: ac_simps)
qed simp

lemma child_elems_set: "x \<in> set (child_elems ch) \<longleftrightarrow> (\<exists>i < length ch. x \<in> set (mem_Elements (ch ! i)))"
  by (simp add: child_elems_def) (metis in_set_conv_nth)

lemma children_wf_update:
  assumes "children_wf c points d ch" "node_wf c points (Suc d) x" "n_key x = k"
    "\<And>y. y \<in> set (mem_Elements x) \<Longrightarrow> zdigit c y d = k"
  shows "children_wf c points d (ch[k := x])"
  unfolding children_wf_def
proof (intro allI impI)
  fix i assume i: "i < length (ch[k := x])"
  show "n_key (ch[k := x] ! i) = i \<and> (\<forall>y \<in> set (mem_Elements (ch[k := x] ! i)). zdigit c y d = i)
      \<and> node_wf c points (Suc d) (ch[k := x] ! i)"
  proof (cases "i = k")
    case True
    with i assms show ?thesis by simp
  next
    case False
    with i assms(1) show ?thesis by (simp add: children_wf_def)
  qed
qed

lemma agree_child: "agree c d z (child_elems ch) \<Longrightarrow> i < length ch \<Longrightarrow> agree c d z (mem_Elements (ch ! i))"
  unfolding agree_def by (meson child_elems_set)

lemma agree_mset: "mset xs = mset ys \<Longrightarrow> agree c d z xs = agree c d z ys"
  by (auto simp: agree_def dest: mset_eq_setD)

lemma zdigits_zbit:
  assumes "\<And>j. j < d \<Longrightarrow> zdigit c x j = zdigit c y j" "k < d * BitQuantum c"
  shows "zbit x k = zbit y k"
proof -
  have q: "0 < BitQuantum c" using assms(2) by (cases "BitQuantum c") auto
  then have "k div BitQuantum c < d" "k mod BitQuantum c < BitQuantum c"
    using assms(2) by (auto simp: less_mult_imp_div_less)
  then show ?thesis
    using zdigit_bit[of "k mod BitQuantum c" c x "k div BitQuantum c"]
      zdigit_bit[of "k mod BitQuantum c" c y "k div BitQuantum c"] assms(1) by simp
qed

text \<open>A leaf with two elements and room for a third one lies at a depth where bits remain.\<close>

lemma split_depth:
  assumes "agree c d z xs" "distinct xs" "2 \<le> length xs" "z \<notin> set xs" "felem P_SKS z"
    and "\<And>x. x \<in> set xs \<Longrightarrow> felem P_SKS x"
  shows "d * BitQuantum c < 128"
proof (rule ccontr)
  assume "\<not> d * BitQuantum c < 128"
  then have same: "zbit x k = zbit z k" if "x \<in> set xs" "k < 128" for x k
    using that assms(1) by (intro zdigits_zbit[of d c]) (auto simp: agree_def)
  obtain a b ys where xs: "xs = a # b # ys" using assms(3) by (cases xs; cases "tl xs") auto
  from three_agree[of a b z] same xs assms(4-6) have "a = b \<or> a = z \<or> b = z" by auto
  with xs assms(2,4) show False by auto
qed

abbreviation add_marray :: "zp list \<Rightarrow> zp \<Rightarrow> zp list" where
  "add_marray points z \<equiv> map (\<lambda>pt. zmk P_SKS (zp_i pt - zp_i z)) points"

text \<open>What insertion with a given fuel does to every well-formed node of a depth.\<close>

definition ins_spec :: "nat \<Rightarrow> ptcfg \<Rightarrow> zp list \<Rightarrow> nat \<Rightarrow> bool" where
  "ins_spec fuel c points d \<longleftrightarrow> (\<forall>n z bs. node_wf c points d n \<longrightarrow> felem P_SKS z \<longrightarrow>
     z \<notin> set (mem_Elements n) \<longrightarrow> z \<notin> set points \<longrightarrow> NewZpBitstring z = Inr bs \<longrightarrow>
     agree c d z (mem_Elements n) \<longrightarrow>
     (\<exists>n'. mem_insert fuel c points z (add_marray points z) bs d n = Inr n' \<and> node_wf c points d n'
        \<and> mset (mem_Elements n') = add_mset z (mset (mem_Elements n)) \<and> n_key n' = n_key n))"

lemma ins_specD:
  assumes "ins_spec fuel c points d" "node_wf c points d n" "felem P_SKS z" "z \<notin> set (mem_Elements n)"
    "z \<notin> set points" "NewZpBitstring z = Inr bs" "agree c d z (mem_Elements n)"
  obtains n' where "mem_insert fuel c points z (add_marray points z) bs d n = Inr n'" "node_wf c points d n'"
    "mset (mem_Elements n') = add_mset z (mset (mem_Elements n))" "n_key n' = n_key n"
  using assms unfolding ins_spec_def by blast

lemma child_insert:
  assumes "ins_spec fuel c points (Suc d)" "children_wf c points d ch" "length ch = 2 ^ BitQuantum c"
    "felem P_SKS z" "z \<notin> set (child_elems ch)" "z \<notin> set points" "NewZpBitstring z = Inr bs"
    "agree c d z (child_elems ch)"
  obtains child' where
    "mem_insert fuel c points z (add_marray points z) bs (Suc d) (ch ! zdigit c z d) = Inr child'"
    "children_wf c points d (ch[zdigit c z d := child'])"
    "mset (child_elems (ch[zdigit c z d := child'])) = add_mset z (mset (child_elems ch))"
proof -
  let ?k = "zdigit c z d" let ?x = "ch ! ?k"
  have k: "?k < length ch" using assms(3) zdigit_less[of c z d] by simp
  with assms(2) have x: "node_wf c points (Suc d) ?x" "n_key ?x = ?k"
    "\<And>y. y \<in> set (mem_Elements ?x) \<Longrightarrow> zdigit c y d = ?k"
    unfolding children_wf_def by blast+
  have "agree c (Suc d) z (mem_Elements ?x)"
    using agree_child[OF assms(8) k] x(3) by (auto simp: agree_def less_Suc_eq)
  moreover have "z \<notin> set (mem_Elements ?x)" using assms(5) k by (auto simp: child_elems_set)
  ultimately obtain child' where ch': "mem_insert fuel c points z (add_marray points z) bs (Suc d) ?x = Inr child'"
    "node_wf c points (Suc d) child'" "mset (mem_Elements child') = add_mset z (mset (mem_Elements ?x))"
    "n_key child' = n_key ?x"
    using ins_specD[OF assms(1) x(1) assms(4) _ assms(6,7)] by blast
  have "set (mem_Elements child') = insert z (set (mem_Elements ?x))"
    using ch'(3) by (metis set_mset_add_mset_insert set_mset_mset)
  then have dig: "\<And>y. y \<in> set (mem_Elements child') \<Longrightarrow> zdigit c y d = ?k" using x(3) by auto
  have "children_wf c points d (ch[?k := child'])"
    using x(2) ch'(2,4) dig by (intro children_wf_update[OF assms(2)]) auto
  moreover have "mset (child_elems (ch[?k := child'])) = add_mset z (mset (child_elems ch))"
    using child_elems_update[OF k, of child'] ch'(3) by simp
  ultimately show thesis using ch'(1) that by blast
qed

lemma zmk_one: "zmk P_SKS 1 = sval [] pt"
  by (simp add: sval_def)

lemma mem_init_wf:
  assumes "length points = NumSamples c"
  shows "node_wf c points d (mem_init c k)" "mem_Elements (mem_init c k) = []" "n_key (mem_init c k) = k"
proof -
  have "map (\<lambda>_. zmk P_SKS 1) [0..<NumSamples c] = svals points []"
    using assms by (intro nth_equalityI) (auto simp: svals_def sval_def)
  then show "node_wf c points d (mem_init c k)"
    by (intro node_wfI) (auto simp: mem_init_def mem_Elements.simps)
qed (simp_all add: mem_init_def mem_Elements.simps)

lemma mem_split_ok:
  assumes cfg: "cfg_ok c" and pts: "points_ok c points" and IH: "ins_spec fuel c points (Suc d)"
    and n: "n_children n = []" "distinct (n_elements n)" "agree c d y (n_elements n)"
      "\<And>x. x \<in> set (n_elements n) \<Longrightarrow> felem P_SKS x \<and> x \<notin> set points"
    and d: "d * BitQuantum c < 128" "d < 128"
  obtains ch where
    "mem_split (\<lambda>e m b d ch. mem_insert fuel c points e m b d ch) c points d n
       = Inr (MNode (n_key n) ch [] (n_num n) (n_svalues n))"
    "children_wf c points d ch" "length ch = 2 ^ BitQuantum c" "mset (child_elems ch) = mset (n_elements n)"
proof -
  let ?es = "n_elements n" let ?ch0 = "map (mem_init c) [0..<2 ^ BitQuantum c]"
  let ?P = "\<lambda>i ch. children_wf c points d ch \<and> length ch = 2 ^ BitQuantum c
      \<and> mset (child_elems ch) = mset (take i ?es)"
  let ?f = "\<lambda>e ch. rbind (NewZpBitstring e) (\<lambda>bs.
      rbind (NextChild c (length ch = 0) bs d) (\<lambda>childIndex.
      rbind (nth_res ch childIndex) (\<lambda>child.
      rbind (AddElementArray points e) (\<lambda>marray.
      rbind (mem_insert fuel c points e marray bs (d + 1) child) (\<lambda>child'.
      Inr (ch[childIndex := child']))))))"
  have pl: "list_all (felem P_SKS) points" "length points = NumSamples c" using pts by (auto simp: points_ok_def)
  have "\<exists>s'. rfold ?f ?es ?ch0 = Inr s' \<and> ?P (length ?es) s'"
  proof (rule rfold_inv)
    have "children_wf c points d ?ch0" using mem_init_wf[OF pl(2)] by (simp add: children_wf_def)
    moreover have "child_elems ?ch0 = []" using mem_init_wf(2)[OF pl(2)] by (simp add: child_elems_def)
    ultimately show "?P 0 ?ch0" by simp
  next
    fix i ch assume i: "i < length ?es" and P: "?P i ch"
    let ?e = "?es ! i"
    have e: "?e \<in> set ?es" using i by simp
    with n(4) have fe: "felem P_SKS ?e" "?e \<notin> set points" by auto
    have set_ch: "set (child_elems ch) = set (take i ?es)" using P mset_eq_setD by blast
    have "set (take i ?es) \<subseteq> set ?es" by (rule set_take_subset)
    with n(3) e set_ch have ag: "agree c d ?e (child_elems ch)" unfolding agree_def by (metis subsetD)
    have "?e \<notin> set (take i ?es)" using n(2) i by (auto simp: in_set_conv_nth nth_eq_iff_index_eq)
    then have ne: "?e \<notin> set (child_elems ch)" using set_ch by simp
    obtain bs where bs: "NewZpBitstring ?e = Inr bs" using zp_bitstring[OF fe(1)] by blast
    from P have P': "children_wf c points d ch" "length ch = 2 ^ BitQuantum c" by auto
    obtain child' where c':
      "mem_insert fuel c points ?e (add_marray points ?e) bs (Suc d) (ch ! zdigit c ?e d) = Inr child'"
      "children_wf c points d (ch[zdigit c ?e d := child'])"
      "mset (child_elems (ch[zdigit c ?e d := child'])) = add_mset ?e (mset (child_elems ch))"
      using child_insert[OF IH P' fe(1) ne fe(2) bs ag] by blast
    have "NextChild c False bs d = Inr (zdigit c ?e d)"
      using cfg d by (intro NextChild_ok[OF fe(1) bs]) (simp add: cfg_ok_def)
    moreover have "zdigit c ?e d < length ch" using P' zdigit_less by simp
    moreover have "length ch \<noteq> 0" using P' by simp
    ultimately have "?f ?e ch = Inr (ch[zdigit c ?e d := child'])"
      using bs c'(1) AddElementArray_ok[OF pl(1) fe] by simp
    moreover have "?P (Suc i) (ch[zdigit c ?e d := child'])"
      using c' P i by (simp add: take_Suc_conv_app_nth)
    ultimately show "\<exists>s'. ?f ?e ch = Inr s' \<and> ?P (Suc i) s'" by blast
  qed
  then obtain ch where ch: "rfold ?f ?es ?ch0 = Inr ch" "?P (length ?es) ch" by blast
  then show thesis by (intro that[of ch]) (simp_all add: mem_split_def n(1))
qed

lemma inner_elems: "0 < length ch \<Longrightarrow> mem_Elements (MNode k ch es num sv) = child_elems ch"
  by (simp add: mem_Elements.simps child_elems_def)

lemma inner_wf:
  assumes "children_wf c points d ch" "length ch = 2 ^ BitQuantum c" "mset (child_elems ch) = mset ys"
    "distinct ys" "\<And>x. x \<in> set ys \<Longrightarrow> felem P_SKS x \<and> x \<notin> set points"
    "JoinThreshold c < length ys" "d * BitQuantum c < 128"
  shows "node_wf c points d (MNode k ch [] (int (length ys)) (svals points ys))"
proof -
  have el: "mem_Elements (MNode k ch [] num sv) = child_elems ch" for num sv
    using assms(2) by (intro inner_elems) simp
  have "length ys = length (child_elems ch)" "distinct (child_elems ch)" "set (child_elems ch) = set ys"
    using assms(3,4) mset_eq_setD mset_eq_length mset_eq_imp_distinct_iff by (metis)+
  with assms show ?thesis
    by (intro node_wfI) (auto simp: el svals_mset[OF assms(3)] children_wf_def)
qed

lemma inner_wfD:
  assumes "node_wf c points d n" "n_children n \<noteq> []"
  shows "children_wf c points d (n_children n)" "length (n_children n) = 2 ^ BitQuantum c"
    "mem_Elements n = child_elems (n_children n)" "n_elements n = []" "d * BitQuantum c < 128"
    "JoinThreshold c < length (mem_Elements n)"
  using node_wfD[OF assms(1)] assms(2)
  by (auto simp: children_wf_def child_elems_def mem_Elements_inner)

lemma leaf_wf:
  assumes "distinct ys" "\<And>x. x \<in> set ys \<Longrightarrow> felem P_SKS x \<and> x \<notin> set points" "length ys \<le> SplitThreshold c + 1"
    "mset xs = mset ys" "num = int (length ys)"
  shows "node_wf c points d (MNode k [] ys num (svals points xs))"
  using assms by (intro node_wfI) (auto simp: mem_Elements.simps svals_mset[OF assms(4)])

lemma dup_loop:
  assumes "felem P_SKS z" "z \<notin> set es" "\<And>x. x \<in> set es \<Longrightarrow> felem P_SKS x"
  shows "rfold (\<lambda>e _. rbind (zp_Cmp e z) (\<lambda>cmp. if cmp = 0 then Inl (Err ErrDuplicate) else Inr ())) es () = Inr ()"
  using assms
proof (induction es)
  case (Cons e es)
  then have "felem P_SKS e" "zp_i e \<noteq> zp_i z" using felem_eqI by fastforce+
  with Cons show ?case by (simp add: zp_Cmp_ok[of P_SKS] sgn_eq_0_iff)
qed simp

lemma cfg_okD:
  assumes "cfg_ok c" "d * BitQuantum c < 128"
  shows "d < 128" "d * BitQuantum c + BitQuantum c \<le> 130"
proof -
  have "d * 1 \<le> d * BitQuantum c" using assms(1) by (intro mult_le_mono2) (simp add: cfg_ok_def)
  with assms(2) show "d < 128" by linarith
  with assms show "d * BitQuantum c + BitQuantum c \<le> 130" by (simp add: cfg_ok_def)
qed

lemma ins_ok:
  assumes cfg: "cfg_ok c" and pts: "points_ok c points"
  shows "d \<le> 128 \<Longrightarrow> 129 \<le> d + fuel \<Longrightarrow> ins_spec fuel c points d"
proof (induction fuel arbitrary: d)
  case (Suc fuel)
  show ?case
    unfolding ins_spec_def
  proof (intro allI impI)
    fix n z bs
    assume wf: "node_wf c points d n" and z: "felem P_SKS z" and new: "z \<notin> set (mem_Elements n)" and
      np: "z \<notin> set points" and bs: "NewZpBitstring z = Inr bs" and ag: "agree c d z (mem_Elements n)"
    let ?xs = "mem_Elements n" let ?es = "n_elements n"
    let ?num = "int (length (z # ?xs))" let ?sv = "svals points (z # ?xs)"
    let ?go = "\<lambda>n'. mem_insert (Suc fuel) c points z (add_marray points z) bs d n = Inr n' \<and> node_wf c points d n'
        \<and> mset (mem_Elements n') = add_mset z (mset ?xs) \<and> n_key n' = n_key n"
    note D = node_wfD[OF wf]
    have sv: "updateSvalues points (add_marray points z) (n_svalues n) = Inr ?sv"
      using updateSvalues_insert D(2) by simp
    have num: "n_num n + 1 = ?num" using D(1) by simp
    have good: "distinct (z # ?xs)" "\<And>x. x \<in> set (z # ?xs) \<Longrightarrow> felem P_SKS x \<and> x \<notin> set points"
      using D(3,4) z new np by auto
    show "\<exists>n'. ?go n'"
    proof (cases "n_children n = [] \<and> length ?es \<le> SplitThreshold c")
      case True
      then have es: "?xs = ?es" by (intro mem_Elements_leaf) simp
      let ?n' = "MNode (n_key n) [] (?es @ [z]) ?num ?sv"
      have "mem_insert (Suc fuel) c points z (add_marray points z) bs d n = Inr ?n'"
        using True sv num dup_loop[of z ?es] z new D(4) es z
        by (simp add: mem_IsLeaf_def zp_Set_def)
      moreover have "node_wf c points d ?n'"
        using good True es by (intro leaf_wf) auto
      ultimately show ?thesis using True es by (intro exI[of _ ?n']) (simp add: mem_Elements.simps)
    next
      case False
      have d: "d * BitQuantum c < 128"
      proof (cases "n_children n = []")
        case True
        with False have "2 \<le> length ?es" using cfg by (auto simp: cfg_ok_def)
        with True D(3,4) new z ag show ?thesis
          by (intro split_depth[of c d z ?xs]) (auto simp: mem_Elements_leaf)
      next
        case nl: False
        with inner_wfD(5)[OF wf] show ?thesis by simp
      qed
      note dd = cfg_okD[OF cfg d]
      have IH: "ins_spec fuel c points (Suc d)" using dd Suc.prems by (intro Suc.IH) auto
      let ?n1 = "MNode (n_key n) (n_children n) ?es (n_num n + 1) ?sv"
      have "\<exists>ch. (if mem_IsLeaf ?n1
                  then mem_split (\<lambda>e m b d ch. mem_insert fuel c points e m b d ch) c points d ?n1
                  else Inr ?n1) = Inr (MNode (n_key n) ch [] ?num ?sv)
          \<and> children_wf c points d ch \<and> length ch = 2 ^ BitQuantum c \<and> mset (child_elems ch) = mset ?xs"
      proof (cases "n_children n = []")
        case True
        then have es: "?xs = ?es" by (rule mem_Elements_leaf)
        obtain ch where "mem_split (\<lambda>e m b d ch. mem_insert fuel c points e m b d ch) c points d ?n1
            = Inr (MNode (n_key n) ch [] (n_num n + 1) ?sv)"
          "children_wf c points d ch" "length ch = 2 ^ BitQuantum c" "mset (child_elems ch) = mset ?es"
          using mem_split_ok[OF cfg pts IH, of ?n1 z] True D(3,4) ag es d dd by auto
        with True num es show ?thesis by (intro exI[of _ ch]) (simp add: mem_IsLeaf_def)
      next
        case nl: False
        with inner_wfD[OF wf nl] num show ?thesis
          by (intro exI[of _ "n_children n"]) (simp add: mem_IsLeaf_def)
      qed
      then obtain ch where ch: "(if mem_IsLeaf ?n1
                  then mem_split (\<lambda>e m b d ch. mem_insert fuel c points e m b d ch) c points d ?n1
                  else Inr ?n1) = Inr (MNode (n_key n) ch [] ?num ?sv)"
        "children_wf c points d ch" "length ch = 2 ^ BitQuantum c" "mset (child_elems ch) = mset ?xs"
        by blast
      have s: "set (child_elems ch) = set ?xs" using ch(4) by (rule mset_eq_setD)
      obtain child' where c':
        "mem_insert fuel c points z (add_marray points z) bs (Suc d) (ch ! zdigit c z d) = Inr child'"
        "children_wf c points d (ch[zdigit c z d := child'])"
        "mset (child_elems (ch[zdigit c z d := child'])) = add_mset z (mset (child_elems ch))"
        using child_insert[OF IH ch(2,3) z _ np bs] new ag s agree_mset[OF ch(4)] by blast
      let ?ch' = "ch[zdigit c z d := child']" let ?n' = "MNode (n_key n) ?ch' [] ?num ?sv"
      have "NextChild c False bs d = Inr (zdigit c z d)"
        using dd by (intro NextChild_ok[OF z bs])
      moreover have "\<not> mem_IsLeaf (MNode (n_key n) ch [] ?num ?sv)" "zdigit c z d < length ch"
        using ch(3) zdigit_less by (simp_all add: mem_IsLeaf_def)
      moreover have "\<not> (mem_IsLeaf ?n1 \<and> \<not> SplitThreshold c < length ?es)"
        using False by (auto simp: mem_IsLeaf_def)
      ultimately have "mem_insert (Suc fuel) c points z (add_marray points z) bs d n = Inr ?n'"
        using sv ch(1) c'(1) by (cases "n_children n = []") (simp_all add: Let_def mem_IsLeaf_def)
      moreover have "JoinThreshold c < length (z # ?xs)"
      proof (cases "n_children n = []")
        case True
        with False have "SplitThreshold c < length ?xs" by (simp add: mem_Elements_leaf)
        moreover have "JoinThreshold c \<le> SplitThreshold c" by (simp add: JoinThreshold_def)
        ultimately show ?thesis by simp
      next
        case nl: False
        with inner_wfD(6)[OF wf nl] show ?thesis by simp
      qed
      then have "node_wf c points d ?n'"
        using ch(3,4) c'(3) good d by (intro inner_wf[OF c'(2)]) auto
      moreover have "mem_Elements ?n' = child_elems ?ch'" using ch(3) by (intro inner_elems) simp
      ultimately show ?thesis using c'(3) ch(4) by (intro exI[of _ ?n']) simp
    qed
  qed
qed simp

section \<open>Removal\<close>

abbreviation del_marray :: "zp list \<Rightarrow> zp \<Rightarrow> zp list" where
  "del_marray points z \<equiv> map (\<lambda>pt. zmk P_SKS (finv P_SKS (zp_i pt - zp_i z))) points"

text \<open>The queue of \<open>join\<close> collects every element below the node, whatever the depth.\<close>

lemma join_loop_mset:
  "\<forall>x \<in> set q. \<exists>d. node_wf c points d x \<Longrightarrow> mset (join_loop q es) = mset es + mset (child_elems q)"
proof (induction q es rule: join_loop.induct)
  case (2 child children es)
  from 2(2) obtain d where d: "node_wf c points d child" by auto
  have kids: "\<exists>d. node_wf c points d x" if "x \<in> set (n_children child)" for x
    using that node_wfD(7)[OF d] by (metis in_set_conv_nth)
  then have "mset (join_loop (children @ n_children child) (es @ n_elements child))
      = mset (es @ n_elements child) + mset (child_elems (children @ n_children child))"
    using 2 by auto
  moreover have "mset (n_elements child) + mset (child_elems (n_children child)) = mset (mem_Elements child)"
  proof (cases "n_children child = []")
    case True
    then show ?thesis by (simp add: child_elems_def mem_Elements_leaf)
  next
    case False
    with inner_wfD(3,4)[OF d] show ?thesis by simp
  qed
  ultimately show ?case by (simp add: child_elems_def)
qed (simp add: child_elems_def)

lemma filter_remove1: "distinct xs \<Longrightarrow> filter (\<lambda>e. e \<noteq> z) xs = remove1 z xs"
  by (induction xs) (auto simp: filter_id_conv)

lemma withRemoved_loop:
  assumes "felem P_SKS z" "\<And>x. x \<in> set es \<Longrightarrow> felem P_SKS x"
  shows "rfold (\<lambda>e (result, has). rbind (zp_Cmp e z)
            (\<lambda>cmp. Inr (if cmp \<noteq> 0 then (result @ [e], has) else (result, True)))) es (r, h)
    = Inr (r @ filter (\<lambda>e. e \<noteq> z) es, h \<or> z \<in> set es)"
  using assms(2)
proof (induction es arbitrary: r h)
  case (Cons e es)
  have e: "felem P_SKS e" using Cons.prems by simp
  have "zp_i e = zp_i z \<longleftrightarrow> e = z" using e assms(1) felem_eqI by blast
  with Cons e assms(1) show ?case by (auto simp: zp_Cmp_ok[of P_SKS] sgn_eq_0_iff)
qed simp

lemma withRemoved_ok:
  assumes "felem P_SKS z" "\<And>x. x \<in> set es \<Longrightarrow> felem P_SKS x"
  shows "withRemoved es z = (if z \<in> set es then Inr (filter (\<lambda>e. e \<noteq> z) es)
      else Inl (Panic (PMsg ''Remove non-existent element from node'')))"
  using withRemoved_loop[OF assms, where r = "[]" and h = False] by (auto simp: withRemoved_def)

lemma svals_remove:
  assumes "points_ok c points" "felem P_SKS z" "z \<notin> set points" "z \<in> set xs"
  shows "updateSvalues points (del_marray points z) (svals points xs) = Inr (svals points (remove1 z xs))"
proof -
  have "svals points xs = svals points (z # remove1 z xs)" using assms(4) by (intro svals_mset) simp
  with assms updateSvalues_remove[of points z] show ?thesis by (simp add: points_ok_def)
qed

lemma mem_remove_ok:
  assumes cfg: "cfg_ok c" and pts: "points_ok c points" and z: "felem P_SKS z" "z \<notin> set points"
    and bs: "NewZpBitstring z = Inr bs"
  shows "node_wf c points d n \<Longrightarrow> z \<in> set (mem_Elements n) \<Longrightarrow>
    \<exists>n'. mem_remove c points z (del_marray points z) bs d n = Inr n' \<and> node_wf c points d n'
       \<and> mset (mem_Elements n') = mset (remove1 z (mem_Elements n)) \<and> n_key n' = n_key n"
proof (induction n arbitrary: d rule: measure_induct_rule[of size])
  case (less n)
  let ?xs = "mem_Elements n" let ?ys = "remove1 z ?xs"
  let ?num = "int (length ?ys)" let ?sv = "svals points ?ys"
  let ?rem = "mem_remove c points z (del_marray points z) bs"
  note wf = less.prems(1) and zin = less.prems(2)
  note D = node_wfD[OF wf]
  have sv: "updateSvalues points (del_marray points z) (n_svalues n) = Inr ?sv"
    using svals_remove[OF pts z zin] D(2) by simp
  obtain m where "length ?xs = Suc m" using zin by (cases ?xs) auto
  then have num: "n_num n - 1 = ?num" using D(1) zin by (simp add: length_remove1)
  have ys: "distinct ?ys" "\<And>x. x \<in> set ?ys \<Longrightarrow> felem P_SKS x \<and> x \<notin> set points"
    using D(3,4) by (auto dest: notin_set_remove1)
  show ?case
  proof (cases "n_children n \<noteq> [] \<and> JoinThreshold c < length ?ys")
    case True
    then have nl: "n_children n \<noteq> []" by simp
    note I = inner_wfD[OF wf nl]
    let ?ch = "n_children n" let ?k = "zdigit c z d"
    note dd = cfg_okD[OF cfg I(5)]
    have k: "?k < length ?ch" using I(2) zdigit_less by simp
    have inch: "z \<in> set (mem_Elements (?ch ! ?k))"
      using zin I(1,3) by (auto simp: child_elems_set children_wf_def)
    have chk: "node_wf c points (Suc d) (?ch ! ?k)" "n_key (?ch ! ?k) = ?k"
      "\<And>x. x \<in> set (mem_Elements (?ch ! ?k)) \<Longrightarrow> zdigit c x d = ?k"
      using I(1) k by (auto simp: children_wf_def)
    have "size (?ch ! ?k) < size n" using k by (intro mnode_child_size) simp
    from less.IH[OF this chk(1) inch] obtain child' where c':
      "?rem (Suc d) (?ch ! ?k) = Inr child'" "node_wf c points (Suc d) child'"
      "mset (mem_Elements child') = mset (remove1 z (mem_Elements (?ch ! ?k)))" "n_key child' = n_key (?ch ! ?k)"
      by blast
    let ?ch' = "?ch[?k := child']" let ?n' = "MNode (n_key n) ?ch' [] ?num ?sv"
    have "set (mem_Elements child') \<subseteq> set (mem_Elements (?ch ! ?k))"
      using mset_eq_setD[OF c'(3)] set_remove1_subset[of z "mem_Elements (?ch ! ?k)"] by blast
    then have cw: "children_wf c points d ?ch'"
      using c' chk by (intro children_wf_update[OF I(1)]) auto
    have ms: "mset (child_elems ?ch') = mset ?ys"
    proof -
      have "add_mset z (mset (mem_Elements child')) = mset (mem_Elements (?ch ! ?k))" using c'(3) inch by simp
      with child_elems_update[OF k, of child'] I(3)
      have "add_mset z (mset (child_elems ?ch')) + mset (mem_Elements child') = mset ?xs + mset (mem_Elements child')"
        by (metis union_mset_add_mset_left union_mset_add_mset_right)
      then have "add_mset z (mset (child_elems ?ch')) = mset ?xs" by (simp only: add_right_cancel)
      then have "mset ?xs - {#z#} = mset (child_elems ?ch')" by (metis add_mset_remove_trivial)
      then show ?thesis by simp
    qed
    have "node_wf c points d ?n'" using ms I(2,5) ys True by (intro inner_wf[OF cw]) auto
    moreover have "mem_Elements ?n' = child_elems ?ch'" using I(2) by (intro inner_elems) simp
    moreover have "?rem d n = Inr ?n'"
      using NextChild_ok[OF z(1) bs dd(2)] sv num nl True k c'(1) I(4)
      by (subst mem_remove.simps) (simp add: Let_def mem_IsLeaf_def)
    ultimately show ?thesis using ms by (intro exI[of _ ?n']) simp
  next
    case False
    let ?es = "if n_children n = [] then n_elements n else join_loop (n_children n) (n_elements n)"
    let ?n' = "MNode (n_key n) [] (filter (\<lambda>e. e \<noteq> z) ?es) ?num ?sv"
    have es: "mset ?es = mset ?xs"
    proof (cases "n_children n = []")
      case nl: False
      have "\<forall>x \<in> set (n_children n). \<exists>d. node_wf c points d x"
        using D(7) by (metis in_set_conv_nth)
      from join_loop_mset[OF this] inner_wfD(3,4)[OF wf nl] nl show ?thesis by simp
    qed (simp add: mem_Elements_leaf)
    then have ses: "set ?es = set ?xs" by (rule mset_eq_setD)
    have fz: "mset (filter (\<lambda>e. e \<noteq> z) ?es) = mset ?ys"
    proof -
      have "mset (filter (\<lambda>e. e \<noteq> z) ?es) = filter_mset (\<lambda>e. e \<noteq> z) (mset ?xs)" using es by (metis mset_filter)
      also have "\<dots> = mset (filter (\<lambda>e. e \<noteq> z) ?xs)" by simp
      also have "filter (\<lambda>e. e \<noteq> z) ?xs = ?ys" using D(3) by (rule filter_remove1)
      finally show ?thesis .
    qed
    have "withRemoved ?es z = Inr (filter (\<lambda>e. e \<noteq> z) ?es)"
      using ses zin D(4) by (subst withRemoved_ok[OF z(1)]) auto
    then have "?rem d n = Inr ?n'"
      using sv num False
      by (subst mem_remove.simps) (cases "n_children n = []"; simp add: Let_def mem_IsLeaf_def mem_join_def)
    moreover have "node_wf c points d ?n'"
    proof -
      have len: "length (filter (\<lambda>e. e \<noteq> z) ?es) = length ?ys" using fz by (rule mset_eq_length)
      have "length ?ys \<le> SplitThreshold c + 1"
      proof (cases "n_children n = []")
        case True
        then have "length ?ys \<le> length (n_elements n)" by (simp add: mem_Elements_leaf length_remove1)
        with D(5)[OF True] show ?thesis by linarith
      next
        case nl: False
        with False have "length ?ys \<le> JoinThreshold c" by simp
        also have "\<dots> \<le> SplitThreshold c" by (simp add: JoinThreshold_def)
        finally show ?thesis by simp
      qed
      then show ?thesis using fz len ys mset_eq_setD[OF fz] mset_eq_imp_distinct_iff[OF fz]
        by (intro leaf_wf) auto
    qed
    ultimately show ?thesis using fz by (intro exI[of _ ?n']) (simp add: mem_Elements.simps)
  qed
qed

end
