(* ===== verification/ReconcileSpec.thy ===== *)
theory ReconcileSpec
  imports DecodeSpec MatrixSpec PTreeInv
begin

text \<open>
  The guarantees of \<open>Interpolate\<close> and \<open>Reconcile\<close> as a whole: no panic on non-empty inputs,
  a reduced rational function, and two disjoint sets that are the roots of a numerator and a
  denominator agreeing with the last sample value.
\<close>

section \<open>The linear system\<close>

lemma interp_inner:
  assumes m: "mx_wf p c r m" and acc: "felem p accum" and kj: "felem p kj" and b: "j < r" "hi \<le> c"
  shows "\<exists>m' accum'. rfold (\<lambda>i (m, accum). rbind (mx_Set i j accum m) (\<lambda>m. rbind (zp_Mul accum kj) (\<lambda>accum. Inr (m, accum))))
        [lo..<hi] (m, accum) = Inr (m', accum') \<and> mx_wf p c r m' \<and> felem p accum'"
proof -
  let ?P = "\<lambda>(m, accum). mx_wf p c r m \<and> felem p accum"
  have "\<exists>s. rfold (\<lambda>i (m, accum). rbind (mx_Set i j accum m) (\<lambda>m. rbind (zp_Mul accum kj) (\<lambda>accum. Inr (m, accum))))
        [lo..<hi] (m, accum) = Inr s \<and> ?P s"
  proof (rule rfold_inv_set)
    fix i s assume i: "i \<in> set [lo..<hi]" and P: "?P s"
    obtain m1 a1 where s: "s = (m1, a1)" by (cases s)
    with P have w: "mx_wf p c r m1" "felem p a1" by auto
    have ic: "i < c" using i b by simp
    obtain m2 where m2: "mx_Set i j a1 m1 = Inr m2" "mx_wf p c r m2" using mx_Set_ok[OF w(1) ic b(1) w(2)] by blast
    obtain a2 where a2: "zp_Mul a1 kj = Inr a2" "felem p a2" using zp_op_ok(1)[OF w(2) kj] by blast
    show "\<exists>s'. (case s of (m, accum) \<Rightarrow> rbind (mx_Set i j accum m) (\<lambda>m. rbind (zp_Mul accum kj) (\<lambda>accum. Inr (m, accum)))) = Inr s' \<and> ?P s'"
      using s m2 a2 by simp
  qed (use m acc in simp)
  then show ?thesis by auto
qed

lemma interp_row_wf:
  assumes m: "mx_wf p (mbar + 1) mbar m" and p: "0 < p" and j: "j < mbar" and ma: "ma \<le> mbar"
    and vs: "list_all (felem p) values" "mbar \<le> length values" and ps: "list_all (felem p) points" "mbar \<le> length points"
  shows "\<exists>m'. interp_row (Some p) values points ma mbar j m = Inr m' \<and> mx_wf p (mbar + 1) mbar m'"
proof -
  have kj: "nth_res points j = Inr (points ! j)" "felem p (points ! j)" using j ps by (auto simp: list_all_length)
  have fj: "nth_res values j = Inr (values ! j)" "felem p (values ! j)" using j vs by (auto simp: list_all_length)
  have one: "Zi (Some p) 1 = Inr (zmk p 1)" "felem p (zmk p 1)" using p by (simp_all add: Zi_mk)
  obtain m1 a1 where 1: "rfold (\<lambda>i (m, accum). rbind (mx_Set i j accum m) (\<lambda>m. rbind (zp_Mul accum (points ! j)) (\<lambda>accum. Inr (m, accum))))
        [0..<ma] (m, zmk p 1) = Inr (m1, a1)" "mx_wf p (mbar + 1) mbar m1" "felem p a1"
    using interp_inner[OF m one(2) kj(2) j, of ma 0] ma by auto
  obtain nf where nf: "zp_Neg (values ! j) = Inr nf" "felem p nf" using zp_op_ok(4)[OF fj(2)] by blast
  obtain m2 a2 where 2: "rfold (\<lambda>i (m, accum). rbind (mx_Set i j accum m) (\<lambda>m. rbind (zp_Mul accum (points ! j)) (\<lambda>accum. Inr (m, accum))))
        [ma..<mbar] (m1, nf) = Inr (m2, a2)" "mx_wf p (mbar + 1) mbar m2" "felem p a2"
    using interp_inner[OF 1(2) nf(2) kj(2) j, of mbar ma] by auto
  obtain n2 where n2: "zp_Neg a2 = Inr n2" "felem p n2" using zp_op_ok(4)[OF 2(3)] by blast
  obtain v where v: "zp_Sub n2 a1 = Inr v" "felem p v" using zp_op_ok(2)[OF n2(2) 1(3)] by blast
  have "\<exists>m'. mx_Set mbar j v m2 = Inr m' \<and> mx_wf p (mbar + 1) mbar m'" using mx_Set_ok[OF 2(2) _ j v(2), of mbar] by simp
  then show ?thesis unfolding interp_row_def using one(1) kj(1) fj(1) 1(1) nf(1) 2(1) n2(1) v(1) by (simp add: Let_def)
qed

lemma interp_matrix_wf:
  assumes p: "0 < p" and ma: "ma \<le> mbar" and vs: "list_all (felem p) values" "mbar \<le> length values"
    and ps: "list_all (felem p) points" "mbar \<le> length points"
  shows "\<exists>m. interp_matrix values points (Some p) ma mbar = Inr m \<and> mx_wf p (mbar + 1) mbar m"
proof -
  have z: "Zi (Some p) 0 = Inr (zmk p 0)" "felem p (zmk p 0)" using p by (simp_all add: Zi_mk)
  have "\<exists>m. rfold (interp_row (Some p) values points ma mbar) [0..<mbar] (NewMatrix (mbar + 1) mbar (zmk p 0)) = Inr m
      \<and> mx_wf p (mbar + 1) mbar m"
    by (rule rfold_inv_set, rule NewMatrix_wf[OF z(2)]) (use interp_row_wf[OF _ p _ ma vs ps] in auto)
  with z(1) show ?thesis by (simp add: interp_matrix_def)
qed

lemma interp_coeffs_ok:
  assumes m: "mx_wf p (mbar + 1) mbar m" and p: "1 < p" and n: "off + n \<le> mbar"
  obtains cs x where "interp_coeffs (Some p) m mbar off n = Inr cs" "NewPolySlice cs = Inr x" "poly_wf p x"
    "po_degree x = n" "monic x"
proof -
  let ?g = "\<lambda>j. case mx_Get m mbar (j + off) of Inr z \<Rightarrow> z | Inl _ \<Rightarrow> undefined"
  have g: "mx_Get m mbar (j + off) = Inr (?g j) \<and> felem p (?g j)" if "j < n" for j
    using mx_Get_ok[OF m, of mbar "j + off"] that n by auto
  have "rmap (\<lambda>j. mx_Get m mbar (j + off)) [0..<n] = Inr (map ?g [0..<n])" by (rule rmap_pure) (use g in auto)
  then have cs: "interp_coeffs (Some p) m mbar off n = Inr (map ?g [0..<n] @ [zmk p 1])"
    using p by (simp add: interp_coeffs_def Zi_mk)
  let ?cs = "map ?g [0..<n] @ [zmk p 1]"
  have "list_all (felem p) ?cs" "?cs \<noteq> []" using g p by (auto simp: list_all_iff)
  then obtain x where x: "NewPolySlice ?cs = Inr x" "po_coeff x = ?cs" "poly_wf p x" using NewPolySlice_ok by blast
  have c: "pcoef x n = 1" using x(2) p by (simp add: pcoef_def nth_append)
  then have "n \<le> po_degree x" using poly_wfD(4)[OF x(3), of n] by force
  moreover have "po_degree x < Suc n" using poly_wfD(2)[OF x(3)] x(2) by simp
  ultimately have d: "po_degree x = n" by simp
  with c have "monic x" by (simp add: monic_def)
  with cs x(1,3) d show thesis using that by blast
qed

section \<open>The reduced rational function\<close>

lemma mod_lin: "(a * (b mod p) + c * (d mod p)) mod p = (a * b + c * d) mod (p :: int)"
  by (intro mod_add_cong mod_mult_right_eq)

text \<open>Dividing by the greatest common divisor leaves no common root.\<close>

lemma reduced_coprime:
  assumes p: "field_prime p" and a: "poly_wf p a" "\<not> pzero a" and b: "poly_wf p b" "\<not> pzero b"
    and bound: "3 * int (max (po_degree a) (po_degree b)) < p"
    and g: "poly_wf p g" "monic g" and k: "gcd_spec p a b k" "po_degree g = po_degree k"
      "\<And>t. pev p g t = (pev p k t * finv p (pcoef k (po_degree k))) mod p"
    and u: "poly_wf p u" "po_degree a = po_degree u + po_degree g" "\<And>t. pev p a t = (pev p u t * pev p g t) mod p"
    and v: "poly_wf p v" "po_degree b = po_degree v + po_degree g" "\<And>t. pev p b t = (pev p v t * pev p g t) mod p"
  shows "\<not> (pev p u t = 0 \<and> pev p v t = 0)"
proof
  assume root: "pev p u t = 0 \<and> pev p v t = 0"
  have p1: "1 < p" using p by (rule field_prime_gt)
  let ?N = "max (po_degree a) (po_degree b)"
  from k(1) obtain s w where st: "poly_wf p s" "poly_wf p w" "po_degree s \<le> ?N" "po_degree w \<le> ?N"
    "\<And>t. pev p k t = (pev p s t * pev p a t + pev p w t * pev p b t) mod p" by (auto simp: gcd_spec_def)
  have kw: "poly_wf p k" "\<not> pzero k" using k(1) by (auto simp: gcd_spec_def)
  let ?l = "pcoef k (po_degree k)"
  have l: "?l \<noteq> 0" "?l mod p = ?l" using kw(2) poly_wfD(5)[OF kw(1)] pcoef_range(3)[OF kw(1)] by (auto simp: pzero_def)
  obtain m1 where m1: "poly_wf p m1" "po_degree m1 \<le> po_degree s + po_degree u" "\<And>t. pev p m1 t = (pev p s t * pev p u t) mod p"
    using mul_poly[OF st(1) u(1)] by metis
  obtain m2 where m2: "poly_wf p m2" "po_degree m2 \<le> po_degree w + po_degree v" "\<And>t. pev p m2 t = (pev p w t * pev p v t) mod p"
    using mul_poly[OF st(2) v(1)] by metis
  obtain q where q: "poly_wf p q" "po_degree q \<le> max (po_degree m1) (po_degree m2)" "\<And>t. pev p q t = (pev p m1 t + pev p m2 t) mod p"
    using add_poly[OF m1(1) m2(1)] by metis
  have fl: "felem p (zmk p ?l)" "zp_i (zmk p ?l) = ?l" using p1 l(2) by simp_all
  obtain cl where cl: "poly_wf p cl" "po_degree cl = 0" "\<And>t. pev p cl t = ?l" using NewPoly_const[OF fl(1)] fl(2) by metis
  obtain z where z: "poly_wf p z" "pzero z" using zero_poly[of p] p1 by auto
  have "pcoef q i = pcoef cl i" for i
  proof (rule divmod_unique(1)[OF p g(1) monic_nonzero[OF g(2)] q(1) _ z(1) _ cl(1) _ z(1)])
    show "int (po_degree q + po_degree g) < p"
      using q(2) m1(2) m2(2) st(3,4) u(2) v(2) bound by linarith
    show "int (po_degree cl + po_degree g) < p" using cl(2) u(2) bound by linarith
    fix t
    have "(pev p q t * pev p g t) mod p = ((pev p s t * pev p u t + pev p w t * pev p v t) * pev p g t) mod p"
      unfolding q(3) m1(3) m2(3) by (simp only: mod_add_eq mod_mult_left_eq)
    also have "\<dots> = (pev p s t * (pev p u t * pev p g t) + pev p w t * (pev p v t * pev p g t)) mod p" by (simp add: algebra_simps)
    also have "\<dots> = pev p k t" unfolding st(5) u(3) v(3) by (rule mod_lin[symmetric])
    also have "\<dots> = (?l * pev p g t) mod p"
    proof -
      have cop: "coprime ?l p" using l by (intro field_prime_coprime[OF p]) simp
      have "(?l * pev p g t) mod p = (pev p k t * ((?l * finv p ?l) mod p)) mod p"
        unfolding k(3) mod_mult_right_eq by (simp only: ac_simps)
      also have "\<dots> = pev p k t" using finv_correct[OF _ cop] p1 by simp
      finally show ?thesis ..
    qed
    finally show "(pev p q t * pev p g t + pev p z t) mod p = (pev p cl t * pev p g t + pev p z t) mod p"
      using pev_zero[OF z(2)] cl(3) by simp
  qed (use z in auto)
  then have "pev p q t = pev p cl t" by (rule pev_coefs[OF q(1) cl(1)])
  with q(3)[of t] m1(3)[of t] m2(3)[of t] root cl(3) l show False by simp
qed

definition coprime_fn :: "int \<Rightarrow> rational_fn \<Rightarrow> bool" where
  "coprime_fn p f \<longleftrightarrow> poly_wf p (rf_Num f) \<and> poly_wf p (rf_Denom f) \<and> monic (rf_Num f) \<and> monic (rf_Denom f)
     \<and> (\<forall>t. \<not> (pev p (rf_Num f) t = 0 \<and> pev p (rf_Denom f) t = 0))"

lemma interp_reduce_ok:
  assumes p: "field_prime p" and a: "poly_wf p a" "monic a" and b: "poly_wf p b" "monic b"
    and bound: "3 * int (max (po_degree a) (po_degree b)) < p"
  obtains f where "interp_reduce a b = Inr f" "coprime_fn p f" "po_degree (rf_Num f) \<le> po_degree a"
    "po_degree (rf_Denom f) \<le> po_degree b"
    "\<And>t. (pev p a t * pev p (rf_Denom f) t) mod p = (pev p b t * pev p (rf_Num f) t) mod p"
proof -
  have p1: "1 < p" using p by (rule field_prime_gt)
  note nz = monic_nonzero[OF a(2)] monic_nonzero[OF b(2)]
  have lt: "int (po_degree a) < p" "int (po_degree b) < p" using bound by linarith+
  obtain g k where g: "PolyGcd a b = Inr g" "monic g" "poly_wf p g" "gcd_spec p a b k" "po_degree g = po_degree k"
    "\<And>t. pev p g t = (pev p k t * finv p (pcoef k (po_degree k))) mod p"
    using PolyGcd_ok[OF p a(1) lt(1) b(1) lt(2)] nz by metis
  note gn = monic_nonzero[OF g(2)]
  have kw: "poly_wf p k" "\<not> pzero k" "pdvd p k a" "pdvd p k b" using g(4) by (auto simp: gcd_spec_def)
  have ga: "pdvd p g a" and gb: "pdvd p g b"
    using pdvd_scaled[OF p a(1) nz(1) lt(1) kw(1,2,3) g(3) gn g(5,6)] pdvd_scaled[OF p b(1) nz(2) lt(2) kw(1,2,4) g(3) gn g(5,6)]
    by blast+
  obtain u where u: "PolyDiv a g = Inr u" "poly_wf p u" "po_degree a = po_degree u + po_degree g" "\<not> pzero u"
    "\<And>t. pev p a t = (pev p u t * pev p g t) mod p" "(pcoef u (po_degree u) * pcoef g (po_degree g)) mod p = pcoef a (po_degree a)"
    using PolyDiv_exact[OF p a(1) nz(1) lt(1) g(3) gn ga] by metis
  obtain v where v: "PolyDiv b g = Inr v" "poly_wf p v" "po_degree b = po_degree v + po_degree g" "\<not> pzero v"
    "\<And>t. pev p b t = (pev p v t * pev p g t) mod p" "(pcoef v (po_degree v) * pcoef g (po_degree g)) mod p = pcoef b (po_degree b)"
    using PolyDiv_exact[OF p b(1) nz(2) lt(2) g(3) gn gb] by metis
  have "monic u" "monic v"
    using u(6) v(6) g(2) a(2) b(2) pcoef_range(3)[OF u(2)] pcoef_range(3)[OF v(2)] by (simp_all add: monic_def)
  moreover have "\<not> (pev p u t = 0 \<and> pev p v t = 0)" for t
    by (rule reduced_coprime[OF p a(1) nz(1) b(1) nz(2) bound g(3,2,4,5,6) u(2,3,5) v(2,3,5)])
  moreover have "(pev p a t * pev p v t) mod p = (pev p b t * pev p u t) mod p" for t
  proof -
    have "(pev p a t * pev p v t) mod p = (pev p u t * pev p g t * pev p v t) mod p" unfolding u(5) by (rule mod_mult_left_eq)
    also have "\<dots> = (pev p v t * pev p g t * pev p u t) mod p" by (simp only: ac_simps)
    also have "\<dots> = (pev p b t * pev p u t) mod p" unfolding v(5) by (rule mod_mult_left_eq[symmetric])
    finally show ?thesis .
  qed
  ultimately show thesis using g(1) u v
    by (intro that[of "\<lparr>rf_Num = u, rf_Denom = v\<rparr>"]) (auto simp: interp_reduce_def coprime_fn_def)
qed

section \<open>Interpolate\<close>

lemma butlast_list_all: "list_all P xs \<Longrightarrow> list_all P (butlast xs)"
  by (auto simp: list_all_iff dest: in_set_butlastD)

lemma interp_degrees:
  fixes dd :: int and n :: nat
  defines "mbar \<equiv> (if (int n + dd) mod 2 \<noteq> 0 then n - 1 else n)"
  assumes "0 < n" "int_abs dd \<le> int n"
  shows "nat ((int mbar + dd) div 2) \<le> mbar" "nat ((int mbar + dd) div 2) + nat ((int mbar - dd) div 2) = mbar" "mbar \<le> n"
proof -
  have abs: "- int n \<le> dd" "dd \<le> int n" using assms(3) by (auto simp: int_abs_def split: if_splits)
  have even: "(int mbar + dd) mod 2 = 0" and m: "int mbar = (if (int n + dd) mod 2 \<noteq> 0 then int n - 1 else int n)"
    using assms(2) unfolding mbar_def by (auto simp: of_nat_diff) presburger+
  have r: "- int mbar \<le> dd" "dd \<le> int mbar"
  proof -
    have "dd \<noteq> int n" "dd \<noteq> - int n" if "(int n + dd) mod 2 \<noteq> 0" using that by auto
    then show "- int mbar \<le> dd" "dd \<le> int mbar" using m abs by (auto split: if_splits)
  qed
  obtain k where k: "int mbar + dd = 2 * k" using even by (metis mod_0_imp_dvd dvdE)
  then have "(int mbar + dd) div 2 = k" "(int mbar - dd) div 2 = int mbar - k" by auto
  then show "nat ((int mbar + dd) div 2) \<le> mbar" "nat ((int mbar + dd) div 2) + nat ((int mbar - dd) div 2) = mbar"
    using k r by auto
  show "mbar \<le> n" unfolding mbar_def by simp
qed

lemma Interpolate_ok:
  assumes p: "field_prime p" and vs: "list_all (felem p) values" "values \<noteq> []"
    and ps: "list_all (felem p) points" "length values \<le> length points"
    and dd: "int_abs degDiff \<le> int (length values)" and bound: "3 * int (length values) < p"
  obtains f where "Interpolate values points degDiff = Inr f" "coprime_fn p f"
    "po_degree (rf_Num f) \<le> length values" "po_degree (rf_Denom f) \<le> length values"
proof -
  have p1: "1 < p" using p by (rule field_prime_gt)
  define mbar where "mbar = (if (int (length values) + degDiff) mod 2 \<noteq> 0 then length values - 1 else length values)"
  define ma where "ma = nat ((int mbar + degDiff) div 2)"
  define mb where "mb = nat ((int mbar - degDiff) div 2)"
  have n: "0 < length values" using vs(2) by simp
  have E: "ma \<le> mbar" "ma + mb = mbar" "mbar \<le> length values"
    using interp_degrees[OF n dd] by (simp_all only: ma_def mb_def mbar_def)
  have v0: "nth_res values 0 = Inr (values ! 0)" "zp_p (values ! 0) = Some p"
    using n vs(1) by (auto simp: list_all_length felem_def)
  obtain m where m: "interp_matrix values points (Some p) ma mbar = Inr m" "mx_wf p (mbar + 1) mbar m"
    using interp_matrix_wf[of p ma mbar "values" points] p1 E(1,3) vs(1) ps by auto
  obtain m' where m': "mx_Reduce m = Inr m'" "mx_wf p (mbar + 1) mbar m'"
    using mx_Reduce_wf[OF m(2)] by auto
  obtain ca a where a: "interp_coeffs (Some p) m' mbar 0 ma = Inr ca" "NewPolySlice ca = Inr a" "poly_wf p a" "po_degree a = ma" "monic a"
    using interp_coeffs_ok[OF m'(2) p1, of 0 ma] E(1) by auto
  obtain cb b where b: "interp_coeffs (Some p) m' mbar ma mb = Inr cb" "NewPolySlice cb = Inr b" "poly_wf p b" "po_degree b = mb" "monic b"
    using interp_coeffs_ok[OF m'(2) p1, of ma mb] E(2) by auto
  have "3 * int (max (po_degree a) (po_degree b)) < p" using a(4) b(4) E bound by linarith
  then obtain f where f: "interp_reduce a b = Inr f" "coprime_fn p f" "po_degree (rf_Num f) \<le> po_degree a" "po_degree (rf_Denom f) \<le> po_degree b"
    using interp_reduce_ok[OF p a(3,5) b(3,5)] by metis
  have "Interpolate values points degDiff = Inr f"
    using dd v0 m(1) m'(1) a(1,2) b(1,2) f(1) 
    unfolding Interpolate_def Let_def mbar_def[symmetric] ma_def[symmetric] mb_def[symmetric] by (simp add: not_less)
  moreover have "po_degree (rf_Num f) \<le> length values" "po_degree (rf_Denom f) \<le> length values"
    using f(3,4) a(4) b(4) E by linarith+
  ultimately show thesis using f(2) that by blast
qed

section \<open>Reconcile\<close>

lemma scale_loop:
  assumes "list_all (felem p) cs" "felem p m" "n \<le> length cs"
  shows "\<exists>cs'. rfold (\<lambda>i cs. rbind (nth_res cs i) (\<lambda>c. rbind (zp_Mul c m) (upd_res cs i))) [0..<n] cs = Inr cs'
    \<and> length cs' = length cs \<and> (\<forall>i < length cs. cs' ! i = (if i < n then zmk p (zp_i (cs ! i) * zp_i m) else cs ! i))"
proof -
  let ?f = "\<lambda>i cs. rbind (nth_res cs i) (\<lambda>c. rbind (zp_Mul c m) (upd_res cs i))"
  let ?P = "\<lambda>k cs'. length cs' = length cs \<and> (\<forall>i < length cs. cs' ! i = (if i < k then zmk p (zp_i (cs ! i) * zp_i m) else cs ! i))"
  have "\<exists>cs'. rfold ?f [0..<n] cs = Inr cs' \<and> ?P (length [0..<n]) cs'"
  proof (rule rfold_inv)
    fix k s assume k: "k < length [0..<n]" and P: "?P k s"
    then have "k < length cs" "[0..<n] ! k = k" "s ! k = cs ! k" using assms(3) by auto
    moreover have "felem p (cs ! k)" using assms(1) \<open>k < length cs\<close> by (simp add: list_all_length)
    ultimately show "\<exists>s'. ?f ([0..<n] ! k) s = Inr s' \<and> ?P (Suc k) s'"
      using P zp_Mul_ok[of p "cs ! k" m] assms(2) by (auto simp: nth_list_update less_Suc_eq)
  qed simp
  then show ?thesis by simp
qed

text \<open>
  The check computes \<open>z^P - z\<close> modulo the polynomial; it neither fails nor panics on a
  polynomial over the field of SKS.
\<close>

lemma factorCheck_run:
  assumes p: "field_prime P_SKS" and x: "poly_wf P_SKS x" "\<not> pzero x" and d: "1 < po_degree x"
  obtains z zq m s q r where "NewPoly [zmk P_SKS 0, zmk P_SKS 1] = Inr z" "poly_wf P_SKS z" "po_degree z = 1"
    "pcoef z 0 = 0" "pcoef z 1 = 1" "polyPowMod z P_SKS x = Inr zq" "poly_wf P_SKS zq"
    "po_degree zq < po_degree x" "poly_wf P_SKS s" "po_degree s \<le> max (po_degree zq) 1"
    "\<And>i. pcoef s i = (pcoef zq i + pcoef m i) mod P_SKS" "pcoef m 0 = 0" "pcoef m 1 = P_SKS - 1" "\<And>i. 1 < i \<Longrightarrow> pcoef m i = 0"
    "PolyMod s x = Inr r" "divmod_spec P_SKS s x q r"
    "factorCheck x = Inr (po_degree r = 0 \<or> po_degree r = 1 \<and> pcoef r 0 = 0)"
proof -
  have fe: "list_all (felem P_SKS) [zmk P_SKS 0, zmk P_SKS 1]" "felem P_SKS (zmk P_SKS (-1))" by simp_all
  obtain z where z: "NewPoly [zmk P_SKS 0, zmk P_SKS 1] = Inr z" "po_coeff z = [zmk P_SKS 0, zmk P_SKS 1]" "poly_wf P_SKS z"
    using NewPoly_ok[OF fe(1)] by blast
  have zc: "pcoef z 0 = 0" "pcoef z 1 = 1" using z(2) by (simp_all add: pcoef_def P_SKS_def)
  have zd: "po_degree z = 1"
    using poly_wfD(2)[OF z(3)] poly_wfD(4)[OF z(3), of 1] zc(2) z(2) by (cases "po_degree z") auto
  have n: "3 \<le> big_BitLen P_SKS" by (simp add: P_SKS_BitLen)
  obtain zq where zq: "polyPowMod z P_SKS x = Inr zq" "poly_wf P_SKS zq" "po_degree zq < po_degree x \<or> po_degree zq = 0"
    using polyPowMod_ok[OF p x z(3) n P_SKS_pos(1)] by metis
  obtain cs where cs: "rfold (\<lambda>i cs. rbind (nth_res cs i) (\<lambda>c. rbind (zp_Mul c (zmk P_SKS (-1))) (upd_res cs i)))
      [0..<Suc (po_degree z)] (po_coeff z) = Inr cs" "length cs = 2"
    "\<forall>i < 2. cs ! i = zmk P_SKS (zp_i (po_coeff z ! i) * zp_i (zmk P_SKS (-1)))"
    using scale_loop[OF poly_wfD(3)[OF z(3)] fe(2), of "Suc (po_degree z)"] z(2) zd by (auto simp del: upt_Suc simp: numeral_2_eq_2)
  let ?m = "z\<lparr>po_coeff := cs\<rparr>"
  have c01: "cs ! 0 = zmk P_SKS 0" "cs ! 1 = zmk P_SKS (-1)"
    using cs(3) z(2) by (simp_all add: zmk_eq_iff P_SKS_def)
  have mc: "pcoef ?m 0 = 0" "pcoef ?m 1 = P_SKS - 1" "\<And>i. 1 < i \<Longrightarrow> pcoef ?m i = 0"
    using c01 cs(2) by (simp_all add: pcoef_def P_SKS_def)
  have "list_all (felem P_SKS) cs" using cs(2) c01 by (auto simp: list_all_length less_Suc_eq numeral_2_eq_2)
  then have mw: "poly_wf P_SKS ?m" using mc zd cs(2) poly_wfD(1)[OF z(3)] by (simp add: poly_wf_def P_SKS_def)
  obtain s where s: "poly_Add zq ?m = Inr s" "poly_wf P_SKS s" "po_degree s \<le> max (po_degree zq) (po_degree ?m)"
    "\<And>i. pcoef s i = (pcoef zq i + pcoef ?m i) mod P_SKS" using poly_Add_ok[OF zq(2) mw] by blast
  obtain q r where r: "PolyMod s x = Inr r" "divmod_spec P_SKS s x q r" using PolyMod_ok[OF p s(2) x] by metis
  then have rw: "poly_wf P_SKS r" by (simp add: divmod_spec_def)
  have ints: "Zi (Some P_SKS) k = Inr (zmk P_SKS k)" for k by (simp add: Zi_mk)
  have "factorCheck x = Inr (po_degree r = 0 \<or> po_degree r = 1 \<and> pcoef r 0 = 0)"
    using d z(1) zq(1) cs(1) s(1) r(1) poly_wfD(8,9)[OF rw, of 0]
    by (simp add: factorCheck_def poly_wfD(1)[OF x(1)] ints catch_err_def zp_IsZero_def)
  with z zc zd zq d s r mc show thesis by (intro that[of z zq s ?m r q]) auto
qed

lemma factorCheck_total:
  assumes "field_prime P_SKS" "poly_wf P_SKS x" "\<not> pzero x"
  shows "\<exists>b. factorCheck x = Inr b"
proof (cases "1 < po_degree x")
  case True
  show ?thesis by (rule factorCheck_run[OF assms True]) blast
qed (auto simp: factorCheck_def)

lemma Interpolate_low: "int (length values) < int_abs degDiff \<Longrightarrow> Interpolate values points degDiff = Inl (Err ErrInterpolate)"
  by (simp add: Interpolate_def)

lemma sgn_felem_eq: "felem p v \<Longrightarrow> felem p w \<Longrightarrow> sgn (zp_i v - zp_i w) = 0 \<longleftrightarrow> v = w"
  using felem_eqI[of p v w] by (auto simp: sgn_eq_0_iff)

text \<open>
  The run of \<open>Reconcile\<close> up to the factor search, on samples of equal number, at least two:
  an error, or a reduced rational function that agrees with the last sample.
\<close>

lemma Reconcile_cases:
  assumes vs: "list_all (felem P_SKS) values" and ps: "list_all (felem P_SKS) points"
    and len: "length values = length points" "2 \<le> length values" "3 * int (length values) < P_SKS"
  obtains (error) e where "Reconcile fuel rng values points dd = Inl (Err e)"
  | (factor) f where "coprime_fn P_SKS f" "int (po_degree (rf_Num f)) < P_SKS" "int (po_degree (rf_Denom f)) < P_SKS"
      "zmk P_SKS (pev P_SKS (rf_Num f) (zp_i (last points)) * finv P_SKS (pev P_SKS (rf_Denom f) (zp_i (last points)))) = last values"
      "factorCheck (rf_Num f) = Inr True" "factorCheck (rf_Denom f) = Inr True"
      "Reconcile fuel rng values points dd = rbind (poly_Factor fuel rng 0 (rf_Num f)) (\<lambda>(numF, c).
             rbind (poly_Factor fuel rng c (rf_Denom f)) (\<lambda>(denomF, _). Inr (numF, denomF)))"
proof -
  have ne: "values \<noteq> []" "points \<noteq> []" "butlast values \<noteq> []" using len by (auto simp flip: length_greater_0_conv)
  have lb: "length (butlast values) = length (butlast points)" "length (butlast values) \<le> length values" using len by simp_all
  show thesis
  proof (cases "int_abs dd \<le> int (length (butlast values))")
    case False
    then have "Reconcile fuel rng values points dd = Inl (Err ErrInterpolate)"
      using ne Interpolate_low[of "butlast values" dd "butlast points"] by (simp add: Reconcile_def)
    then show thesis by (rule error)
  next
    case True
    have b3: "3 * int (length (butlast values)) < P_SKS" using len(3) by simp
    obtain f where f: "Interpolate (butlast values) (butlast points) dd = Inr f" "coprime_fn P_SKS f"
      "po_degree (rf_Num f) \<le> length (butlast values)" "po_degree (rf_Denom f) \<le> length (butlast values)"
      using Interpolate_ok[OF P_SKS_prime butlast_list_all[OF vs] ne(3) butlast_list_all[OF ps] _ True b3] lb(1) by auto
    have deg: "int (po_degree (rf_Num f)) < P_SKS" "int (po_degree (rf_Denom f)) < P_SKS" using f(3,4) b3 by linarith+
    have wf: "poly_wf P_SKS (rf_Num f)" "poly_wf P_SKS (rf_Denom f)" using f(2) by (auto simp: coprime_fn_def)
    have lp: "felem P_SKS (last points)" "felem P_SKS (last values)" using vs ps ne by (auto simp: list_all_iff)
    let ?nv = "pev P_SKS (rf_Num f) (zp_i (last points))" let ?dv = "pev P_SKS (rf_Denom f) (zp_i (last points))"
    note ev = poly_Eval_ok[OF wf(1) deg(1) lp(1)] poly_Eval_ok[OF wf(2) deg(2) lp(1)]
    let ?w = "zmk P_SKS (?nv * finv P_SKS ?dv)"
    have div: "zp_Div (zmk P_SKS ?nv) (zmk P_SKS ?dv) = Inr ?w"
      using zp_Div_ok[of P_SKS "zmk P_SKS ?nv" "zmk P_SKS ?dv"] by simp
    have cmp: "zp_Cmp ?w (last values) = Inr (sgn (zp_i ?w - zp_i (last values)))" using lp(2) by (intro zp_Cmp_ok) simp_all
    have iff: "sgn (zp_i ?w - zp_i (last values)) = 0 \<longleftrightarrow> ?w = last values"
      using sgn_felem_eq[of P_SKS ?w "last values"] lp(2) by simp
    have run: "Reconcile fuel rng values points dd =
      rbind (if ?w \<noteq> last values then Inr True
               else rbind (factorCheck (rf_Num f)) (\<lambda>b. if \<not> b then Inr True
                 else rbind (factorCheck (rf_Denom f)) (\<lambda>b. Inr (\<not> b)))) (\<lambda>low.
        if low then Inl (Err ErrLowMBar)
        else rbind (poly_Factor fuel rng 0 (rf_Num f)) (\<lambda>(numF, c).
             rbind (poly_Factor fuel rng c (rf_Denom f)) (\<lambda>(denomF, _). Inr (numF, denomF))))"
      unfolding Reconcile_def using ne f(1) ev div cmp iff by simp
    show thesis
    proof (cases "?w = last values")
      case False
      then have "Reconcile fuel rng values points dd = Inl (Err ErrLowMBar)" unfolding run by simp
      then show thesis by (rule error)
    next
      case True
      obtain b1 b2 where b: "factorCheck (rf_Num f) = Inr b1" "factorCheck (rf_Denom f) = Inr b2"
        using factorCheck_total[OF P_SKS_prime wf(1)] factorCheck_total[OF P_SKS_prime wf(2)] f(2) deg
        by (auto simp: coprime_fn_def monic_nonzero)
      show thesis
      proof (cases "b1 \<and> b2")
        case False
        then have "Reconcile fuel rng values points dd = Inl (Err ErrLowMBar)" unfolding run using True b by auto
        then show thesis by (rule error)
      next
        case bb: True
        then have "Reconcile fuel rng values points dd = rbind (poly_Factor fuel rng 0 (rf_Num f)) (\<lambda>(numF, c).
             rbind (poly_Factor fuel rng c (rf_Denom f)) (\<lambda>(denomF, _). Inr (numF, denomF)))"
          unfolding run using True b by simp
        with bb b True f(2) deg show thesis by (intro factor[of f]) auto
      qed
    qed
  qed
qed

text \<open>
  A reconciliation that returns: its two sets are the roots of a numerator and a denominator
  that split into linear factors, have no root in common, and whose ratio at the last sample
  point is the last sample value.
\<close>

lemma Reconcile_sound:
  assumes vs: "list_all (felem P_SKS) values" and ps: "list_all (felem P_SKS) points"
    and len: "length values = length points" "2 \<le> length values" "3 * int (length values) < P_SKS"
    and run: "Reconcile fuel rng values points dd = Inr (S, T)"
  shows "\<exists>f. coprime_fn P_SKS f \<and> splits P_SKS (rf_Num f) \<and> splits P_SKS (rf_Denom f)
    \<and> zset_vals S = roots P_SKS (rf_Num f) \<and> zset_vals T = roots P_SKS (rf_Denom f)
    \<and> zmk P_SKS (pev P_SKS (rf_Num f) (zp_i (last points)) * finv P_SKS (pev P_SKS (rf_Denom f) (zp_i (last points)))) = last values"
    "zset_in P_SKS S" "zset_in P_SKS T" "zset_vals S \<inter> zset_vals T = {}"
proof -
  have "(\<exists>f. coprime_fn P_SKS f \<and> splits P_SKS (rf_Num f) \<and> splits P_SKS (rf_Denom f)
    \<and> zset_vals S = roots P_SKS (rf_Num f) \<and> zset_vals T = roots P_SKS (rf_Denom f)
    \<and> zmk P_SKS (pev P_SKS (rf_Num f) (zp_i (last points)) * finv P_SKS (pev P_SKS (rf_Denom f) (zp_i (last points)))) = last values)
    \<and> zset_in P_SKS S \<and> zset_in P_SKS T \<and> zset_vals S \<inter> zset_vals T = {}"
    using vs ps len
  proof (cases rule: Reconcile_cases[of "values" points fuel rng dd])
    case (factor f)
    have p: "field_prime P_SKS" "8 \<le> P_SKS" using P_SKS_prime by (auto simp: P_SKS_def)
    have n: "poly_wf P_SKS (rf_Num f)" "monic (rf_Num f)" and d: "poly_wf P_SKS (rf_Denom f)" "monic (rf_Denom f)"
      and disj: "\<And>t. \<not> (pev P_SKS (rf_Num f) t = 0 \<and> pev P_SKS (rf_Denom f) t = 0)"
      using factor(1) by (auto simp: coprime_fn_def)
    obtain c c' where r: "poly_Factor fuel rng 0 (rf_Num f) = Inr (S, c)" "poly_Factor fuel rng c (rf_Denom f) = Inr (T, c')"
      using run unfolding factor(7) by (auto simp: rbind_Inr_iff)
    have "zset_vals S \<inter> zset_vals T = {}"
      using poly_Factor_ok(2)[OF p n factor(2) r(1)] poly_Factor_ok(2)[OF p d factor(3) r(2)] disj by (auto simp: roots_def)
    with poly_Factor_ok[OF p n factor(2) r(1)] poly_Factor_ok[OF p d factor(3) r(2)] factor(1,4) show ?thesis by blast
  qed (use run in simp)
  then show "\<exists>f. coprime_fn P_SKS f \<and> splits P_SKS (rf_Num f) \<and> splits P_SKS (rf_Denom f)
    \<and> zset_vals S = roots P_SKS (rf_Num f) \<and> zset_vals T = roots P_SKS (rf_Denom f)
    \<and> zmk P_SKS (pev P_SKS (rf_Num f) (zp_i (last points)) * finv P_SKS (pev P_SKS (rf_Denom f) (zp_i (last points)))) = last values"
    "zset_in P_SKS S" "zset_in P_SKS T" "zset_vals S \<inter> zset_vals T = {}" by blast+
qed

text \<open>On aligned samples there is no panic: two sets, an error, or a search that goes on.\<close>

lemma Reconcile_outcome:
  assumes vs: "list_all (felem P_SKS) values" and ps: "list_all (felem P_SKS) points"
    and len: "length values = length points" "2 \<le> length values" "3 * int (length values) < P_SKS"
  shows "Reconcile fuel rng values points dd \<noteq> Inl (Panic e)"
  using vs ps len
proof (cases rule: Reconcile_cases[of "values" points fuel rng dd])
  case (factor f)
  have p: "field_prime P_SKS" "8 \<le> P_SKS" using P_SKS_prime by (auto simp: P_SKS_def)
  have n: "poly_wf P_SKS (rf_Num f)" "monic (rf_Num f)" and d: "poly_wf P_SKS (rf_Denom f)" "monic (rf_Denom f)"
    using factor(1) by (auto simp: coprime_fn_def)
  show ?thesis
    unfolding factor(7) using poly_Factor_outcome[OF p n factor(2)] poly_Factor_outcome[OF p d factor(3)]
    by (fastforce simp: rbind_def split: sum.splits)
qed simp

lemma Reconcile_empty: "values = [] \<or> points = [] \<Longrightarrow> Reconcile fuel rng values points dd = Inl (Panic PIndex)"
  by (simp add: Reconcile_def)

end
