(* ===== verification/FactorCheck.thy ===== *)
theory FactorCheck
  imports ReconcileSpec
begin

text \<open>
  What the test before the factor search lets through. \<open>factorCheck\<close> is meant to accept
  exactly the polynomials that are products of distinct linear factors; \<open>z^2 + 1\<close> has no
  root in the field of SKS and is accepted, and the search for its factors never ends.
  Residues modulo \<open>z^2 + 1\<close> are handled as pairs of coefficients.
\<close>

definition sum_sq_poly :: poly where
  "sum_sq_poly = \<lparr>po_coeff = [zmk P_SKS 1, zmk P_SKS 0, zmk P_SKS 1], po_degree = 2, po_p = Some P_SKS\<rparr>"

definition residue :: "poly \<Rightarrow> int \<Rightarrow> int \<Rightarrow> bool" where
  "residue r a b \<longleftrightarrow> poly_wf P_SKS r \<and> po_degree r \<le> 1 \<and> pcoef r 0 = a mod P_SKS \<and> pcoef r 1 = b mod P_SKS"

lemma sum_sq_coef: "pcoef sum_sq_poly 0 = 1" "pcoef sum_sq_poly (Suc 0) = 0" "pcoef sum_sq_poly 2 = 1" "2 < i \<Longrightarrow> pcoef sum_sq_poly i = 0"
  by (simp_all add: pcoef_def sum_sq_poly_def P_SKS_def)

lemma sum_sq_degree [simp]: "po_degree sum_sq_poly = 2"
  by (simp add: sum_sq_poly_def)

lemma sum_sq_wf: "poly_wf P_SKS sum_sq_poly" "monic sum_sq_poly" "\<not> pzero sum_sq_poly" "int (po_degree sum_sq_poly) < P_SKS"
proof -
  show "poly_wf P_SKS sum_sq_poly"
    using sum_sq_coef unfolding poly_wf_def by (auto simp: sum_sq_poly_def)
  show m: "monic sum_sq_poly" using sum_sq_coef by (simp add: monic_def)
  show "\<not> pzero sum_sq_poly" using m by (rule monic_nonzero)
qed (simp add: P_SKS_def)

lemma pev_sum_sq: "pev P_SKS sum_sq_poly t = (1 + t * t) mod P_SKS"
  by (simp add: pev_def sum_sq_coef numeral_2_eq_2) (simp add: power2_eq_square sum_sq_coef flip: numeral_2_eq_2)

lemma pev_degree_one: "poly_wf p r \<Longrightarrow> po_degree r \<le> 1 \<Longrightarrow> pev p r t = (pcoef r 0 + pcoef r 1 * t) mod p"
  using poly_wfD(4)[of p r 1] by (cases "po_degree r") (auto simp: pev_def)

lemma pev_residue: "residue r a b \<Longrightarrow> pev P_SKS r t = (a + b * t) mod P_SKS"
  unfolding residue_def by (simp add: pev_degree_one) (intro mod_add_cong mod_mult_cong; simp)

lemma ex_residue: "\<exists>r. residue r a b"
proof -
  have "list_all (felem P_SKS) [zmk P_SKS a, zmk P_SKS b]" by simp
  then obtain r where r: "NewPoly [zmk P_SKS a, zmk P_SKS b] = Inr r" "po_coeff r = [zmk P_SKS a, zmk P_SKS b]" "poly_wf P_SKS r"
    using NewPoly_ok by blast
  then have "residue r a b" using poly_wfD(2)[OF r(3)] by (simp add: residue_def pcoef_def)
  then show ?thesis by blast
qed

lemma residue_mul:
  assumes x: "residue x a b" and y: "residue y c d"
  shows "\<exists>r. mul_mod x y sum_sq_poly = Inr r \<and> residue r (a * c - b * d) (a * d + b * c)"
proof -
  note xw = x[unfolded residue_def] and yw = y[unfolded residue_def]
  obtain m q r where r: "mul_mod x y sum_sq_poly = Inr r" "poly_wf P_SKS m"
    "\<And>t. pev P_SKS m t = (pev P_SKS x t * pev P_SKS y t) mod P_SKS" "po_degree m \<le> po_degree x + po_degree y"
    "divmod_spec P_SKS m sum_sq_poly q r"
    using mul_mod_ok[OF P_SKS_prime _ _ sum_sq_wf(1,3)] xw yw by metis
  have s: "poly_wf P_SKS q" "poly_wf P_SKS r" "po_degree r \<le> 1" "pzero r \<or> po_degree r < po_degree sum_sq_poly" "po_degree q = 0"
    "\<And>t. pev P_SKS m t = (pev P_SKS q t * pev P_SKS sum_sq_poly t + pev P_SKS r t) mod P_SKS"
    using r(4,5) xw yw by (auto simp: divmod_spec_def pzero_def split: if_splits)
  obtain q' where q': "residue q' (b * d) 0" using ex_residue by blast
  obtain r' where r': "residue r' (a * c - b * d) (a * d + b * c)" using ex_residue by blast
  have d: "po_degree q' = 0" "poly_wf P_SKS q'" "poly_wf P_SKS r'" "po_degree r' \<le> 1"
    using q' r' poly_wfD(5)[of P_SKS q'] by (auto simp: residue_def le_Suc_eq)
  have "(pev P_SKS q t * pev P_SKS sum_sq_poly t + pev P_SKS r t) mod P_SKS
      = (pev P_SKS q' t * pev P_SKS sum_sq_poly t + pev P_SKS r' t) mod P_SKS" for t
  proof -
    have "(pev P_SKS q t * pev P_SKS sum_sq_poly t + pev P_SKS r t) mod P_SKS = ((a + b * t) * (c + d * t)) mod P_SKS"
      using s(6)[of t] r(3)[of t] by (simp add: pev_residue[OF x] pev_residue[OF y] mod_mult_eq)
    also have "(a + b * t) * (c + d * t) = b * d * (1 + t * t) + (a * c - b * d + (a * d + b * c) * t)"
      by (simp add: algebra_simps)
    also have "\<dots> mod P_SKS = (pev P_SKS q' t * pev P_SKS sum_sq_poly t + pev P_SKS r' t) mod P_SKS"
      unfolding pev_residue[OF q'] pev_residue[OF r'] pev_sum_sq mult_zero_left add_0_right
      by (intro mod_add_cong mod_mult_cong; simp)
    finally show ?thesis .
  qed
  from divmod_unique(2)[OF P_SKS_prime sum_sq_wf(1,3) s(1) _ s(2,4) d(2) _ d(3) _ this] s(5) d
  have "pcoef r i = pcoef r' i" for i by (simp add: P_SKS_def)
  with r(1) s(2,3) r' show ?thesis by (simp add: residue_def)
qed

section \<open>The check accepts\<close>

lemma residue_powmod_one:
  assumes "residue h 0 (- 1)" "residue f 1 0"
  shows "\<exists>r. powmod_loop n h f sum_sq_poly = Inr r \<and> residue r 0 (- 1)"
  using assms
proof (induction n arbitrary: h f rule: less_induct)
  case (less n)
  obtain h' where h': "mul_mod h f sum_sq_poly = Inr h'" "residue h' 0 (- 1)" using residue_mul[OF less.prems] by auto
  obtain f' where f': "mul_mod f f sum_sq_poly = Inr f'" "residue f' 1 0" using residue_mul[OF less.prems(2,2)] by auto
  show ?case
  proof (cases "n div 2 = 0")
    case True
    then show ?thesis using h' less.prems by (simp add: powmod_loop.simps[of n])
  next
    case False
    then have "n div 2 < n" by simp
    from less.IH[OF this _ f'(2)] False h' f' less.prems show ?thesis by (auto simp: powmod_loop.simps[of n])
  qed
qed

lemma residue_powmod:
  assumes n: "n mod 4 = 3" "n div 4 \<noteq> 0" and h: "residue h 1 0" and z: "residue z 0 1"
  shows "\<exists>r. powmod_loop n h z sum_sq_poly = Inr r \<and> residue r 0 (- 1)"
proof -
  have odd: "n mod 2 = 1" "n div 2 mod 2 = 1" "n div 2 \<noteq> 0" "n div 2 div 2 \<noteq> 0"
    using n by presburger+
  obtain h1 where h1: "mul_mod h z sum_sq_poly = Inr h1" "residue h1 0 1" using residue_mul[OF h z] by auto
  obtain f1 where f1: "mul_mod z z sum_sq_poly = Inr f1" "residue f1 (- 1) 0" using residue_mul[OF z z] by auto
  obtain h2 where h2: "mul_mod h1 f1 sum_sq_poly = Inr h2" "residue h2 0 (- 1)" using residue_mul[OF h1(2) f1(2)] by auto
  obtain f2 where f2: "mul_mod f1 f1 sum_sq_poly = Inr f2" "residue f2 1 0" using residue_mul[OF f1(2) f1(2)] by auto
  show ?thesis
    using odd h1(1) f1(1) h2(1) f2(1) residue_powmod_one[OF h2(2) f2(2), of "n div 2 div 2"]
    unfolding powmod_loop.simps[of n] powmod_loop.simps[of "n div 2"] by auto
qed

lemma factorCheck_sum_sq: "factorCheck sum_sq_poly = Inr True"
proof -
  have d: "1 < po_degree sum_sq_poly" by simp
  obtain z zq m s q r where z: "poly_wf P_SKS z" "po_degree z = 1" "pcoef z 0 = 0" "pcoef z 1 = 1"
    and zq: "polyPowMod z P_SKS sum_sq_poly = Inr zq"
    and s: "poly_wf P_SKS s" "po_degree s \<le> max (po_degree zq) 1" "\<And>i. pcoef s i = (pcoef zq i + pcoef m i) mod P_SKS"
    and m: "pcoef m 0 = 0" "pcoef m 1 = P_SKS - 1"
    and r: "divmod_spec P_SKS s sum_sq_poly q r" "factorCheck sum_sq_poly = Inr (po_degree r = 0 \<or> po_degree r = 1 \<and> pcoef r 0 = 0)"
    using factorCheck_run[OF P_SKS_prime sum_sq_wf(1,3) d] by metis
  have zr: "residue z 0 1" using z by (simp add: residue_def P_SKS_def)
  obtain o1 where o1: "Zi (Some P_SKS) 1 = Inr (zmk P_SKS 1)" "NewPoly [zmk P_SKS 1] = Inr o1" "poly_wf P_SKS o1" "po_degree o1 = 0" "pcoef o1 0 = 1"
    using one_poly[of P_SKS] by auto
  have onr: "residue o1 1 0" using o1(3-5) poly_wfD(4)[OF o1(3), of 1] by (simp add: residue_def P_SKS_def)
  have "\<exists>r. powmod_loop (nat P_SKS) o1 z sum_sq_poly = Inr r \<and> residue r 0 (- 1)"
    by (rule residue_powmod[OF _ _ onr zr]) (simp_all add: P_SKS_def)
  then have zqr: "residue zq 0 (- 1)"
    using zq o1(1,2) by (auto simp: polyPowMod_def poly_wfD(1)[OF z(1)] split: if_splits)
  have s01: "po_degree s \<le> 1" "pcoef s 0 = 0" using s(2) s(3)[of 0] m(1) zqr by (auto simp: residue_def)
  have q0: "pzero q" and rw: "poly_wf P_SKS r" "po_degree r \<le> 1"
    and ev: "\<And>t. pev P_SKS s t = (pev P_SKS q t * pev P_SKS sum_sq_poly t + pev P_SKS r t) mod P_SKS"
    using r(1) s01(1) by (auto simp: divmod_spec_def pzero_def)
  have "pev P_SKS q 0 = 0" using q0 by (simp add: pev_def pzero_def)
  then have "pcoef r 0 mod P_SKS = 0"
    using ev[of 0] s01 pev_degree_one[OF s(1) s01(1), of 0] pev_degree_one[OF rw, of 0] by simp
  then have "pcoef r 0 = 0" using pcoef_range(3)[OF rw(1)] by simp
  with rw(2) r(2) show ?thesis by auto
qed

section \<open>The search never ends\<close>

lemma sum_sq_no_root: "(1 + t * t) mod P_SKS \<noteq> 0"
proof
  assume z: "(1 + t * t) mod P_SKS = 0"
  have sq: "(t * t) mod P_SKS = (- 1) mod P_SKS"
  proof -
    have "P_SKS dvd t * t - (- 1)" using z by (simp add: mod_eq_0_iff_dvd add.commute)
    then show ?thesis by (simp only: mod_eq_dvd_iff)
  qed
  have nd: "\<not> P_SKS dvd t"
  proof
    assume "P_SKS dvd t"
    then have "(t * t) mod P_SKS = 0" by simp
    with sq show False by (simp add: P_SKS_def)
  qed
  have half: "nat (P_SKS - 1) = 2 * nat ((P_SKS - 1) div 2)" "odd (nat ((P_SKS - 1) div 2))" by (simp_all add: P_SKS_def)
  have "t ^ nat (P_SKS - 1) mod P_SKS = (t * t) ^ nat ((P_SKS - 1) div 2) mod P_SKS"
    unfolding half(1) power_mult power2_eq_square ..
  also have "\<dots> = ((t * t) mod P_SKS) ^ nat ((P_SKS - 1) div 2) mod P_SKS" by (rule power_mod[symmetric])
  also have "\<dots> = (- 1) ^ nat ((P_SKS - 1) div 2) mod P_SKS" unfolding sq by (rule power_mod)
  also have "\<dots> = (- 1) mod P_SKS" by (simp only: power_minus_odd[OF half(2)] power_one)
  finally show False using fermat_little[OF P_SKS_prime nd] by (simp add: P_SKS_def)
qed

lemma factor_loop_sum_sq: "factor_loop n rng c sum_sq_poly [sum_sq_poly] = Inl Diverge"
proof (induction n arbitrary: c)
  case (Suc n)
  have p: "field_prime P_SKS" "8 \<le> P_SKS" using P_SKS_prime by (auto simp: P_SKS_def)
  from p sum_sq_wf(1,2,4) show ?case
  proof (cases rule: factor_loop_cases[of P_SKS sum_sq_poly "[sum_sq_poly]" rng c])
    case (split g q c')
    then have "po_degree g = 1" by simp
    then have "pev P_SKS g (- pcoef g 0) = 0" using lin_root[OF _ split(2,3)] by simp
    then have "pev P_SKS sum_sq_poly (- pcoef g 0) = 0" using split(9) by simp
    with sum_sq_no_root show ?thesis by (simp add: pev_sum_sq)
  qed (use Suc in auto)
qed simp

lemma poly_Factor_sum_sq: "poly_Factor n rng c sum_sq_poly = Inl Diverge"
  by (cases n) (simp_all add: poly_Factor_def factor_loop_sum_sq)

end
