(* ===== verification/Messages.thy ===== *)
theory Messages
  imports PTree "HOL-Library.AList"
begin

text \<open>
  The wire format of the reconciliation protocol, \<open>conflux/recon/messages.go\<close>. A reader is a
  function from the bytes available to the value read and the bytes left; a writer produces
  the bytes it appends. Errors of the underlying connection other than its end are outside the
  model. A Go string is a sequence of bytes, here a \<open>string\<close> of 8-bit characters.
\<close>

section \<open>Primitive readers and writers\<close>

definition maxReadLen :: int where
  "maxReadLen = 2 ^ 24"

definition SksZpNbytes :: nat where
  "SksZpNbytes = big_BitLen P_SKS div 8 + (if big_BitLen P_SKS mod 8 \<noteq> 0 then 1 else 0)"

function PadSksElement :: "byte list \<Rightarrow> byte list" where
  "PadSksElement zb = (if length zb < SksZpNbytes then PadSksElement (zb @ [0]) else zb)"
  by pat_completeness auto
termination by (relation "measure (\<lambda>zb. SksZpNbytes - length zb)") auto

declare PadSksElement.simps [simp del]

text \<open>\<open>io.ReadFull\<close> of a buffer of \<open>n\<close> bytes.\<close>

definition ReadFull :: "nat \<Rightarrow> byte list \<Rightarrow> (byte list \<times> byte list) res" where
  "ReadFull n r =
     (if n \<le> length r then Inr (take n r, drop n r)
      else if r = [] then Inl (Err ErrEOF) else Inl (Err ErrUnexpectedEOF))"

definition str_bytes :: "string \<Rightarrow> byte list" where
  "str_bytes s = map (\<lambda>c. of_nat (of_char c)) s"

definition bytes_str :: "byte list \<Rightarrow> string" where
  "bytes_str b = map (\<lambda>x. char_of (unat x)) b"

text \<open>\<open>binary.BigEndian.PutUint32(buf, uint32(n))\<close> and \<open>binary.BigEndian.Uint32(buf)\<close>.\<close>

definition WriteInt :: "int \<Rightarrow> byte list" where
  "WriteInt n = (let u = nat (n mod 2 ^ 32) in
     [of_nat (u div 2 ^ 24), of_nat (u div 2 ^ 16), of_nat (u div 2 ^ 8), of_nat u])"

definition ReadInt :: "byte list \<Rightarrow> (int \<times> byte list) res" where
  "ReadInt r = rbind (ReadFull 4 r) (\<lambda>(buf, r). Inr (int (le_value (rev buf)), r))"

definition ReadLen :: "byte list \<Rightarrow> (int \<times> byte list) res" where
  "ReadLen r = rbind (ReadInt r) (\<lambda>(n, r).
     if maxReadLen < n then Inl (Err (ErrReadLimit n)) else Inr (n, r))"

definition ReadString :: "byte list \<Rightarrow> (string \<times> byte list) res" where
  "ReadString r = rbind (ReadLen r) (\<lambda>(n, r).
     if n = 0 then Inr ([], r)
     else rbind (ReadFull (nat n) r) (\<lambda>(buf, r). Inr (bytes_str buf, r)))"

definition WriteString :: "string \<Rightarrow> byte list" where
  "WriteString text = WriteInt (int (length text)) @ str_bytes text"

definition ReadBitstring :: "byte list \<Rightarrow> (bitstring \<times> byte list) res" where
  "ReadBitstring r = rbind (ReadInt r) (\<lambda>(nbits, r).
     let bs = NewBitstring (nat nbits) in
     rbind (ReadLen r) (\<lambda>(nbytes, r).
     if nbits = 0 then Inr (bs, r)
     else rbind (ReadFull (nat nbytes) r) (\<lambda>(buf, r).
          rbind (bs_SetBytes bs buf) (\<lambda>bs'. Inr (bs', r)))))"

definition WriteBitstring :: "bitstring \<Rightarrow> byte list" where
  "WriteBitstring bs = WriteInt (int (bs_BitLen bs)) @ WriteInt (int (length (bs_Bytes bs))) @ bs_Bytes bs"

definition ReadZp :: "byte list \<Rightarrow> (zp \<times> byte list) res" where
  "ReadZp r = rbind (ReadFull SksZpNbytes r) (\<lambda>(buf, r).
     rbind (zp_In \<lparr>zp_i = 0, zp_p = None\<rparr> (Some P_SKS)) (\<lambda>z.
     rbind (zp_SetBytes z buf) (\<lambda>z.
     rbind (zp_Norm z) (\<lambda>z. Inr (z, r)))))"

definition WriteZp :: "zp \<Rightarrow> byte list" where
  "WriteZp z = (let num = zp_Bytes z in
     if length num < SksZpNbytes then num @ replicate (SksZpNbytes - length num) 0 else num)"

fun read_elems :: "nat \<Rightarrow> byte list \<Rightarrow> (zp list \<times> byte list) res" where
  "read_elems 0 r = Inr ([], r)"
| "read_elems (Suc n) r = rbind (ReadZp r) (\<lambda>(z, r). rbind (read_elems n r) (\<lambda>(zs, r). Inr (z # zs, r)))"

definition ReadZZarray :: "byte list \<Rightarrow> (zp list \<times> byte list) res" where
  "ReadZZarray r = rbind (ReadInt r) (\<lambda>(n, r).
     if maxReadLen < n * int SksZpNbytes then Inl (Err (ErrReadLimit (n * int SksZpNbytes)))
     else read_elems (nat n) r)"

definition WriteZZarray :: "zp list \<Rightarrow> byte list" where
  "WriteZZarray arr = WriteInt (int (length arr)) @ concat (map WriteZp arr)"

definition ReadZSet :: "byte list \<Rightarrow> (zset \<times> byte list) res" where
  "ReadZSet r = rbind (ReadZZarray r) (\<lambda>(arr, r).
     rbind (zset_AddSlice arr zset_empty) (\<lambda>zs. Inr (zs, r)))"

definition WriteZSet :: "zset \<Rightarrow> byte list" where
  "WriteZSet zs = WriteZZarray (zset_Items zs)"

section \<open>Messages\<close>

text \<open>\<open>Custom\<close> is the map of extra configuration values in the order it is iterated.\<close>

record config =
  cf_Version :: string
  cf_HTTPPort :: int
  cf_BitQuantum :: int
  cf_MBar :: int
  cf_Filters :: string
  cf_Custom :: "(string \<times> string) list"

datatype msg =
    ReconRqstPoly (rp_Prefix: bitstring) (rp_Size: int) (rp_Samples: "zp list")
  | ReconRqstFull (rf_Prefix: bitstring) (rf_Elements: zset)
  | Elements zset
  | FullElements zset
  | SyncFail
  | Done
  | Flush
  | Error string
  | DbRqst string
  | DbRepl string
  | Config config

fun MsgType :: "msg \<Rightarrow> byte" where
  "MsgType (ReconRqstPoly _ _ _) = 0"
| "MsgType (ReconRqstFull _ _) = 1"
| "MsgType (Elements _) = 2"
| "MsgType (FullElements _) = 3"
| "MsgType SyncFail = 4"
| "MsgType Done = 5"
| "MsgType Flush = 6"
| "MsgType (Error _) = 7"
| "MsgType (DbRqst _) = 8"
| "MsgType (DbRepl _) = 9"
| "MsgType (Config _) = 10"

definition MsgType_String :: "byte \<Rightarrow> string" where
  "MsgType_String mt =
     (if mt = 0 then ''ReconRqstPoly'' else if mt = 1 then ''ReconRqstFull''
      else if mt = 2 then ''Elements'' else if mt = 3 then ''FullElements''
      else if mt = 4 then ''SyncFail'' else if mt = 5 then ''Done''
      else if mt = 6 then ''Flush'' else if mt = 7 then ''Error''
      else if mt = 8 then ''DbRqst'' else if mt = 9 then ''DbRepl''
      else if mt = 10 then ''Config'' else ''Unknown'')"

definition config_marshal :: "config \<Rightarrow> byte list" where
  "config_marshal c =
     WriteInt (int (5 + length (cf_Custom c)))
     @ WriteString ''version'' @ WriteString (cf_Version c)
     @ WriteString ''http port'' @ WriteInt 4 @ WriteInt (cf_HTTPPort c)
     @ WriteString ''bitquantum'' @ WriteInt 4 @ WriteInt (cf_BitQuantum c)
     @ WriteString ''mbar'' @ WriteInt 4 @ WriteInt (cf_MBar c)
     @ WriteString ''filters'' @ WriteString (cf_Filters c)
     @ concat (map (\<lambda>(k, v). WriteString k @ WriteString v) (cf_Custom c))"

text \<open>One turn of the loop of \<open>unmarshal\<close>: a key, its value, and where it goes.\<close>

definition read_int_value :: "byte list \<Rightarrow> (int \<times> byte list) res" where
  "read_int_value r = rbind (ReadLen r) (\<lambda>(ival, r).
     if ival \<noteq> 4 then Inl (Err (ErrMsg ''Invalid length for integer config value''))
     else ReadInt r)"

definition config_entry :: "config \<Rightarrow> byte list \<Rightarrow> (config \<times> byte list) res" where
  "config_entry c r = rbind (ReadString r) (\<lambda>(k, r).
     if k = ''http port'' \<or> k = ''bitquantum'' \<or> k = ''mbar''
     then rbind (read_int_value r) (\<lambda>(ival, r).
       Inr (if k = ''http port'' then c\<lparr>cf_HTTPPort := ival\<rparr>
            else if k = ''bitquantum'' then c\<lparr>cf_BitQuantum := ival\<rparr>
            else c\<lparr>cf_MBar := ival\<rparr>, r))
     else rbind (ReadString r) (\<lambda>(v, r).
       Inr (if k = ''version'' then c\<lparr>cf_Version := v\<rparr>
            else if k = ''filters'' then c\<lparr>cf_Filters := v\<rparr>
            else c\<lparr>cf_Custom := AList.update k v (cf_Custom c)\<rparr>, r)))"

fun config_entries :: "nat \<Rightarrow> config \<Rightarrow> byte list \<Rightarrow> (config \<times> byte list) res" where
  "config_entries 0 c r = Inr (c, r)"
| "config_entries (Suc n) c r = rbind (config_entry c r) (\<lambda>(c, r). config_entries n c r)"

definition empty_config :: config where
  "empty_config = \<lparr>cf_Version = [], cf_HTTPPort = 0, cf_BitQuantum = 0, cf_MBar = 0,
     cf_Filters = [], cf_Custom = []\<rparr>"

definition config_unmarshal :: "byte list \<Rightarrow> (config \<times> byte list) res" where
  "config_unmarshal r = rbind (ReadLen r) (\<lambda>(n, r). config_entries (nat n) empty_config r)"

fun marshal :: "msg \<Rightarrow> byte list" where
  "marshal (ReconRqstPoly pre sz samples) = WriteBitstring pre @ WriteInt sz @ WriteZZarray samples"
| "marshal (ReconRqstFull pre els) = WriteBitstring pre @ WriteZSet els"
| "marshal (Elements zs) = WriteZSet zs"
| "marshal (FullElements zs) = WriteZSet zs"
| "marshal SyncFail = []"
| "marshal Done = []"
| "marshal Flush = []"
| "marshal (Error t) = WriteString t"
| "marshal (DbRqst t) = WriteString t"
| "marshal (DbRepl t) = WriteString t"
| "marshal (Config c) = config_marshal c"

text \<open>\<open>unmarshal\<close> of the message that a type byte selects; other bytes are rejected.\<close>

definition poly_unmarshal :: "byte list \<Rightarrow> (msg \<times> byte list) res" where
  "poly_unmarshal r = rbind (ReadBitstring r) (\<lambda>(pre, r). rbind (ReadLen r) (\<lambda>(sz, r).
     rbind (ReadZZarray r) (\<lambda>(samples, r). Inr (ReconRqstPoly pre sz samples, r))))"

definition full_unmarshal :: "byte list \<Rightarrow> (msg \<times> byte list) res" where
  "full_unmarshal r = rbind (ReadBitstring r) (\<lambda>(pre, r). rbind (ReadZSet r) (\<lambda>(els, r).
     Inr (ReconRqstFull pre els, r)))"

definition map_read :: "('a \<Rightarrow> 'b) \<Rightarrow> ('a \<times> byte list) res \<Rightarrow> ('b \<times> byte list) res" where
  "map_read f m = rbind m (\<lambda>(x, r). Inr (f x, r))"

definition unmarshal :: "byte \<Rightarrow> byte list \<Rightarrow> (msg \<times> byte list) res" where
  "unmarshal mt r =
     (if mt = 0 then poly_unmarshal r
      else if mt = 1 then full_unmarshal r
      else if mt = 2 then map_read Elements (ReadZSet r)
      else if mt = 3 then map_read FullElements (ReadZSet r)
      else if mt = 4 then Inr (SyncFail, r)
      else if mt = 5 then Inr (Done, r)
      else if mt = 6 then Inr (Flush, r)
      else if mt = 7 then map_read Error (ReadString r)
      else if mt = 8 then map_read DbRqst (ReadString r)
      else if mt = 9 then map_read DbRepl (ReadString r)
      else if mt = 10 then map_read Config (config_unmarshal r)
      else Inl (Err (ErrMsg ''unexpected message code'')))"

text \<open>The message is read from its own buffer; bytes of it that are left over are dropped.\<close>

definition ReadMsg :: "byte list \<Rightarrow> (msg \<times> byte list) res" where
  "ReadMsg r = rbind (ReadLen r) (\<lambda>(msgSize, r). rbind (ReadFull (nat msgSize) r) (\<lambda>(br, r).
     rbind (ReadFull 1 br) (\<lambda>(buf, br). rbind (unmarshal (hd buf) br) (\<lambda>(m, _). Inr (m, r)))))"

definition WriteMsgDirect :: "msg \<Rightarrow> byte list" where
  "WriteMsgDirect m = (let data = MsgType m # marshal m in WriteInt (int (length data)) @ data)"

definition WriteMsg :: "msg list \<Rightarrow> byte list" where
  "WriteMsg msgs = concat (map WriteMsgDirect msgs)"

end
