(* ===== verification/Settings.thy ===== *)
theory Settings
  imports PTree Messages "HOL-Library.List_Lexorder" "HOL-Library.Char_ord"
begin

text \<open>
  The settings of a recon peer, \<open>recon/settings.go\<close>: partners, address matching, filters and
  the configuration message. What the network and the resolver answer is a record of
  functions; the recorded times of a partner are left out.
\<close>

section \<open>Host and port\<close>

text \<open>\<open>net.SplitHostPort\<close> and \<open>net.JoinHostPort\<close>.\<close>

definition index_byte :: "string \<Rightarrow> char \<Rightarrow> nat option" where
  "index_byte s c = (let k = length (takeWhile (\<lambda>x. x \<noteq> c) s) in if k < length s then Some k else None)"

definition last_byte :: "string \<Rightarrow> char \<Rightarrow> nat option" where
  "last_byte s c = (let k = length (takeWhile (\<lambda>x. x \<noteq> c) (rev s)) in if k < length s then Some (length s - 1 - k) else None)"

definition SplitHostPort :: "string \<Rightarrow> (string \<times> string) option" where
  "SplitHostPort s = (case last_byte s CHR '':'' of None \<Rightarrow> None | Some i \<Rightarrow>
     if hd s = CHR ''['' then
       (case index_byte s CHR '']'' of None \<Rightarrow> None | Some e \<Rightarrow>
         if e + 1 = i \<and> CHR ''['' \<notin> set (drop 1 s) \<and> CHR '']'' \<notin> set (drop (e + 1) s)
         then Some (take (e - 1) (drop 1 s), drop (i + 1) s) else None)
     else
       if CHR '':'' \<in> set (take i s) \<or> CHR ''['' \<in> set s \<or> CHR '']'' \<in> set s then None
       else Some (take i s, drop (i + 1) s))"

definition JoinHostPort :: "string \<Rightarrow> string \<Rightarrow> string" where
  "JoinHostPort host port =
     (if CHR '':'' \<in> set host then ''['' @ host @ '']:'' @ port else host @ '':'' @ port)"

section \<open>Addresses\<close>

type_synonym ip = "byte list"

definition To4 :: "ip \<Rightarrow> ip option" where
  "To4 x = (if length x = 4 then Some x
     else if length x = 16 \<and> take 12 x = replicate 10 0 @ [0xff, 0xff] then Some (drop 12 x) else None)"

definition ip_Equal :: "ip \<Rightarrow> ip \<Rightarrow> bool" where
  "ip_Equal x y =
     (if length x = length y then x = y
      else if length x = 4 \<and> length y = 16 then take 12 y = replicate 10 0 @ [0xff, 0xff] \<and> x = drop 12 y
      else if length x = 16 \<and> length y = 4 then take 12 x = replicate 10 0 @ [0xff, 0xff] \<and> drop 12 x = y
      else False)"

definition IsLoopback :: "ip \<Rightarrow> bool" where
  "IsLoopback x = (case To4 x of Some v4 \<Rightarrow> hd v4 = 127 | None \<Rightarrow> ip_Equal x (replicate 15 0 @ [1]))"

text \<open>An \<open>IPNet\<close> from \<open>ParseCIDR\<close>: a network number and a mask of the same length.\<close>

record ipnet =
  in_IP :: ip
  in_Mask :: ip

definition net_Contains :: "ipnet \<Rightarrow> ip \<Rightarrow> bool" where
  "net_Contains n x =
     (let ip = (case To4 x of Some v \<Rightarrow> v | None \<Rightarrow> x)
      in length ip = length (in_IP n) \<and> list_all (\<lambda>((a, m), b). a AND m = b AND m) (zip (zip (in_IP n) (in_Mask n)) ip))"

datatype naddr = TCPAddr ip nat | UnixAddr string | IPAddr ip

type_synonym netType = string

text \<open>The answers of the resolver.\<close>

record netenv =
  ResolveTCPAddr :: "string \<Rightarrow> naddr option"
  ResolveUnixAddr :: "string \<Rightarrow> naddr option"
  LookupIP :: "string \<Rightarrow> ip list option"
  ParseCIDR :: "string \<Rightarrow> ipnet option"

definition netType_String :: "netType \<Rightarrow> string" where
  "netType_String n = (if n = '''' then ''tcp'' else n)"

definition netType_Resolve :: "netenv \<Rightarrow> netType \<Rightarrow> string \<Rightarrow> naddr res" where
  "netType_Resolve env n addr =
     (let r = (\<lambda>x. case x of Some a \<Rightarrow> Inr a | None \<Rightarrow> Inl (Err (ErrMsg ''cannot resolve'')))
      in if n = '''' \<or> n = ''tcp'' then r (ResolveTCPAddr env addr)
         else if n = ''unix'' then r (ResolveUnixAddr env addr)
         else Inl (Err (ErrMsg ''don't know how to resolve network'')))"

section \<open>Partners and settings\<close>

record partner =
  pt_HTTPAddr :: string
  pt_HTTPNet :: netType
  pt_ReconAddr :: string
  pt_ReconNet :: netType
  pt_Weight :: int
  pt_WebAddr :: string
  pt_StatsPath :: string
  pt_Mask :: bool
  pt_PKSFailover :: bool
  pt_Name :: string
  pt_Addr :: "naddr option"
  pt_IPs :: "ip list"

definition blank_partner :: partner where
  "blank_partner = \<lparr>pt_HTTPAddr = '''', pt_HTTPNet = '''', pt_ReconAddr = '''', pt_ReconNet = '''', pt_Weight = 0,
     pt_WebAddr = '''', pt_StatsPath = '''', pt_Mask = False, pt_PKSFailover = False, pt_Name = '''', pt_Addr = None, pt_IPs = []\<rparr>"

record settings =
  st_PTreeConfig :: ptcfg
  st_Version :: string
  st_LogName :: string
  st_HTTPAddr :: string
  st_HTTPNet :: netType
  st_ReconAddr :: string
  st_ReconNet :: netType
  st_SeenCacheSize :: nat
  st_Partners :: "(string \<times> partner) list"
  st_AllowCIDRs :: "string list"
  st_Filters :: "string list"
  st_CompatHTTPPort :: int
  st_CompatReconPort :: int
  st_CompatPartnerAddrs :: "string list"
  st_GossipIntervalSecs :: nat
  st_MaxOutstanding :: nat

definition defaultSettings :: settings where
  "defaultSettings = \<lparr>st_PTreeConfig = defaultPTreeConfig, st_Version = ''1.1.6'', st_LogName = ''conflux.recon'',
     st_HTTPAddr = '':11371'', st_HTTPNet = '''', st_ReconAddr = '':11370'', st_ReconNet = '''', st_SeenCacheSize = 256,
     st_Partners = [], st_AllowCIDRs = [], st_Filters = [], st_CompatHTTPPort = 0, st_CompatReconPort = 0,
     st_CompatPartnerAddrs = [], st_GossipIntervalSecs = 60, st_MaxOutstanding = 100\<rparr>"

definition DefaultSettings :: settings where
  "DefaultSettings = defaultSettings\<lparr>st_Partners := [], st_Filters := sort (st_Filters defaultSettings)\<rparr>"

section \<open>Matching addresses\<close>

record ipMatcher =
  im_nets :: "ipnet list"
  im_partners :: "partner list"

definition newIPMatcher :: ipMatcher where
  "newIPMatcher = \<lparr>im_nets = [], im_partners = []\<rparr>"

text \<open>Hosts that do not parse as host and port are looked up as the empty host.\<close>

definition updateIPs :: "netenv \<Rightarrow> partner \<Rightarrow> partner" where
  "updateIPs env p =
     (if pt_ReconNet p \<noteq> '''' \<and> pt_ReconNet p \<noteq> ''tcp'' then p
      else let reconHostname = (case SplitHostPort (pt_ReconAddr p) of Some (h, _) \<Rightarrow> h | None \<Rightarrow> '''')
      in case LookupIP env reconHostname of None \<Rightarrow> p | Some ips \<Rightarrow>
        let ips = ips @
          (if pt_HTTPNet p = '''' \<or> pt_HTTPNet p = ''tcp'' then
             (case SplitHostPort (pt_HTTPAddr p) of None \<Rightarrow> [] | Some (httpHostname, _) \<Rightarrow>
                if reconHostname \<noteq> httpHostname then
                  (case LookupIP env httpHostname of None \<Rightarrow> [] | Some httpIPs \<Rightarrow> httpIPs)
                else [])
           else [])
        in if ips \<noteq> [] then p\<lparr>pt_IPs := ips\<rparr> else p)"

definition allow :: "netenv \<Rightarrow> string \<Rightarrow> partner \<Rightarrow> ipMatcher \<Rightarrow> ipMatcher res" where
  "allow env name p m = Inr (m\<lparr>im_partners := im_partners m @ [(updateIPs env p)\<lparr>pt_Name := name\<rparr>]\<rparr>)"

definition allowCIDR :: "netenv \<Rightarrow> string \<Rightarrow> ipMatcher \<Rightarrow> ipMatcher res" where
  "allowCIDR env cidr m = (case ParseCIDR env cidr of None \<Rightarrow> Inl (Err (ErrMsg ''invalid CIDR address''))
     | Some ipnet \<Rightarrow> Inr (m\<lparr>im_nets := im_nets m @ [ipnet]\<rparr>))"

definition Match :: "ipMatcher \<Rightarrow> ip \<Rightarrow> partner option" where
  "Match m x =
     (if IsLoopback x \<or> list_ex (\<lambda>n. net_Contains n x) (im_nets m)
      then Some (blank_partner\<lparr>pt_IPs := [x], pt_Addr := Some (IPAddr x)\<rparr>)
      else find (\<lambda>p. list_ex (\<lambda>y. ip_Equal y x) (pt_IPs p)) (im_partners m))"

definition Matcher :: "netenv \<Rightarrow> settings \<Rightarrow> ipMatcher res" where
  "Matcher env s =
     rbind (rfold (allowCIDR env) (st_AllowCIDRs s) newIPMatcher) (rfold (\<lambda>(k, p). allow env k p) (st_Partners s))"

text \<open>
  \<open>RandomPartner\<close> refreshes the addresses of the partners that resolve and chooses among those
  with a positive weight; \<open>choice\<close> is the weighted choice of the \<open>randutil\<close> package.
\<close>

definition RandomPartner :: "netenv \<Rightarrow> ((int \<times> partner) list \<Rightarrow> partner option) \<Rightarrow> ipMatcher \<Rightarrow> ipMatcher \<times> partner option" where
  "RandomPartner env choice m =
     (let fresh = map (\<lambda>p. case netType_Resolve env (pt_ReconNet p) (pt_ReconAddr p) of
                        Inr addr \<Rightarrow> updateIPs env (p\<lparr>pt_Addr := Some addr\<rparr>) | Inl _ \<Rightarrow> p) (im_partners m);
          choices = concat (map (\<lambda>p. case netType_Resolve env (pt_ReconNet p) (pt_ReconAddr p) of
                        Inl _ \<Rightarrow> []
                      | Inr _ \<Rightarrow> let w = (if pt_Weight p = 0 then 100 else pt_Weight p)
                                 in if 0 < w then [(w, p)] else []) fresh)
      in (m\<lparr>im_partners := fresh\<rparr>, if choices = [] then None else choice choices))"

section \<open>Settings operations\<close>

definition compat_partner :: "string \<Rightarrow> (string \<times> partner) list \<Rightarrow> (string \<times> partner) list res" where
  "compat_partner addr ps = (case SplitHostPort addr of
       None \<Rightarrow> Inl (Err (ErrMsg ''invalid 'partners' address''))
     | Some (host, _) \<Rightarrow> Inr (AList.update host (blank_partner\<lparr>pt_HTTPAddr := host @ '':11371'', pt_ReconAddr := addr\<rparr>) ps))"

definition settings_Resolve :: "netenv \<Rightarrow> settings \<Rightarrow> settings res" where
  "settings_Resolve env s =
     (let s = (if st_CompatHTTPPort s \<noteq> 0 then s\<lparr>st_HTTPAddr := '':'' @ dec_string (st_CompatHTTPPort s)\<rparr> else s);
          s = (if st_CompatReconPort s \<noteq> 0 then s\<lparr>st_ReconAddr := '':'' @ dec_string (st_CompatReconPort s)\<rparr> else s)
      in rbind (if 0 < length (st_CompatPartnerAddrs s)
                then rbind (rfold compat_partner (st_CompatPartnerAddrs s) []) (\<lambda>ps. Inr (s\<lparr>st_Partners := ps\<rparr>))
                else Inr s) (\<lambda>s.
         rbind (netType_Resolve env (st_HTTPNet s) (st_HTTPAddr s)) (\<lambda>_.
         rbind (if st_ReconAddr s \<noteq> ''none'' then rbind (netType_Resolve env (st_ReconNet s) (st_ReconAddr s)) (\<lambda>_. Inr ()) else Inr ())
           (\<lambda>_. Inr s))))"

text \<open>The loop of \<open>AddFilters\<close> drops an element that equals its successor.\<close>

fun dedup_adjacent :: "'a list \<Rightarrow> 'a list" where
  "dedup_adjacent (x # y # zs) = (if x = y then dedup_adjacent (y # zs) else x # dedup_adjacent (y # zs))"
| "dedup_adjacent xs = xs"

definition AddFilters :: "string list \<Rightarrow> settings \<Rightarrow> settings" where
  "AddFilters newFilters s = s\<lparr>st_Filters := dedup_adjacent (sort (st_Filters s @ newFilters))\<rparr>"

fun join_strings :: "string \<Rightarrow> string list \<Rightarrow> string" where
  "join_strings sep [] = ''''"
| "join_strings sep [x] = x"
| "join_strings sep (x # y # zs) = x @ sep @ join_strings sep (y # zs)"

definition resolveHTTPPort :: "naddr \<Rightarrow> nat option" where
  "resolveHTTPPort a = (case a of TCPAddr _ port \<Rightarrow> Some port | _ \<Rightarrow> None)"

definition settings_Config :: "netenv \<Rightarrow> settings \<Rightarrow> config res" where
  "settings_Config env s =
     rbind (netType_Resolve env (st_HTTPNet s) (st_HTTPAddr s)) (\<lambda>addr.
     case resolveHTTPPort addr of
       None \<Rightarrow> Inl (Err (ErrMsg ''cannot determine httpPort''))
     | Some port \<Rightarrow> Inr \<lparr>cf_Version = st_Version s, cf_HTTPPort = int port,
         cf_BitQuantum = int (BitQuantum (st_PTreeConfig s)), cf_MBar = int (MBar (st_PTreeConfig s)),
         cf_Filters = join_strings '','' (st_Filters s), cf_Custom = []\<rparr>)"

end
