(* ===== verification/Peer.thy ===== *)
theory Peer
  imports PTree Messages Settings
begin

text \<open>
  The recon peer, \<open>recon/peer.go\<close>: the protocol between readers and the goroutine that mutates
  the prefix tree, the configuration handshake, and the server side of a reconciliation. A
  connection is the bytes that arrive and the bytes that are written; writing does not fail.
\<close>

section \<open>Readers and the mutator\<close>

text \<open>
  The fields of \<open>Peer\<close> that the methods change. The tree is any type with an insert and a
  remove operation. A goroutine started by \<open>mutate\<close> is waiting for the readers, then flushing
  (it has set \<open>mutating\<close>), then done with the flush; the three counts are the goroutines in
  each phase. \<open>pe_once\<close> says that the current \<open>once\<close> has been used. \<open>pe_lock\<close> is the holder of
  \<open>muElements\<close> during a flush: a goroutine of \<open>mutate\<close>, or a caller of \<open>Flush\<close> or \<open>Stop\<close>.
\<close>

datatype flusher = ByMutate | ByCaller

record 't peer =
  pe_tree :: 't
  pe_insertElements :: "zp list"
  pe_removeElements :: "zp list"
  pe_readers :: int
  pe_mutating :: bool
  pe_full :: bool
  pe_once :: bool
  pe_dying :: bool
  pe_waiting :: nat
  pe_flushing :: nat
  pe_flushed :: nat
  pe_lock :: "flusher option"

definition NewPeer :: "'t \<Rightarrow> 't peer" where
  "NewPeer tree = \<lparr>pe_tree = tree, pe_insertElements = [], pe_removeElements = [], pe_readers = 0,
     pe_mutating = False, pe_full = False, pe_once = False, pe_dying = False, pe_waiting = 0, pe_flushing = 0, pe_flushed = 0, pe_lock = None\<rparr>"

definition peer_Insert :: "zp list \<Rightarrow> 't peer \<Rightarrow> 't peer" where
  "peer_Insert zs p = p\<lparr>pe_insertElements := pe_insertElements p @ zs\<rparr>"

definition peer_Remove :: "zp list \<Rightarrow> 't peer \<Rightarrow> 't peer" where
  "peer_Remove zs p = p\<lparr>pe_removeElements := pe_removeElements p @ zs\<rparr>"

text \<open>\<open>mutate\<close> starts the goroutine unless the peer is dying.\<close>

definition mutate :: "'t peer \<Rightarrow> 't peer" where
  "mutate p = (if pe_dying p then p else p\<lparr>pe_waiting := pe_waiting p + 1\<rparr>)"

definition readAcquire :: "'t peer \<Rightarrow> bool \<times> 't peer" where
  "readAcquire p =
     (if pe_mutating p \<or> pe_full p then (False, p)
      else let p = p\<lparr>pe_readers := pe_readers p + 1\<rparr>
           in (True, if pe_once p then p else mutate (p\<lparr>pe_once := True\<rparr>)))"

definition readRelease :: "'t peer \<Rightarrow> 't peer res" where
  "readRelease p =
     (let p = p\<lparr>pe_readers := pe_readers p - 1\<rparr>
      in if pe_readers p < 0 then Inl (Panic (PMsg ''negative readers'')) else Inr p)"

text \<open>The two critical sections of the goroutine, before and after its flush.\<close>

definition mutate_begin :: "'t peer \<Rightarrow> 't peer" where
  "mutate_begin p = p\<lparr>pe_mutating := True, pe_once := False,
     pe_waiting := pe_waiting p - 1, pe_flushing := pe_flushing p + 1\<rparr>"

definition mutate_end :: "'t peer \<Rightarrow> 't peer" where
  "mutate_end p = p\<lparr>pe_mutating := False, pe_full := False, pe_flushed := pe_flushed p - 1\<rparr>"

text \<open>An element that the tree refuses is logged and skipped.\<close>

definition logged :: "(zp \<Rightarrow> 't \<Rightarrow> 't res) \<Rightarrow> zp \<Rightarrow> 't \<Rightarrow> 't res" where
  "logged f z t = (case f z t of Inr t' \<Rightarrow> Inr t' | Inl (Err e) \<Rightarrow> Inr t | Inl e \<Rightarrow> Inl e)"

definition flush :: "(zp \<Rightarrow> 't \<Rightarrow> 't res) \<Rightarrow> (zp \<Rightarrow> 't \<Rightarrow> 't res) \<Rightarrow> 't peer \<Rightarrow> 't peer res" where
  "flush ins rem p =
     rbind (rfold (logged ins) (pe_insertElements p) (pe_tree p)) (\<lambda>t.
     rbind (rfold (logged rem) (pe_removeElements p) t) (\<lambda>t.
     Inr (p\<lparr>pe_tree := t, pe_insertElements := [], pe_removeElements := []\<rparr>)))"

text \<open>\<open>Flush\<close> flushes for its caller; \<open>Stop\<close> kills the tomb and flushes at once.\<close>

definition peer_Flush :: "(zp \<Rightarrow> 't \<Rightarrow> 't res) \<Rightarrow> (zp \<Rightarrow> 't \<Rightarrow> 't res) \<Rightarrow> 't peer \<Rightarrow> 't peer res" where
  "peer_Flush ins rem p = flush ins rem p"

definition peer_kill :: "'t peer \<Rightarrow> 't peer" where
  "peer_kill p = p\<lparr>pe_dying := True\<rparr>"

definition peer_Stop :: "(zp \<Rightarrow> 't \<Rightarrow> 't res) \<Rightarrow> (zp \<Rightarrow> 't \<Rightarrow> 't res) \<Rightarrow> 't peer \<Rightarrow> 't peer res" where
  "peer_Stop ins rem p = flush ins rem (peer_kill p)"

text \<open>\<open>sendItems\<close>: the items go to the recovery channel when a receiver is ready.\<close>

definition sendItems :: "zp list \<Rightarrow> bool \<Rightarrow> 't peer \<Rightarrow> 't peer \<times> zp list option" where
  "sendItems items receiver p =
     (if items \<noteq> [] \<and> \<not> pe_dying p
      then if receiver then (p, Some items) else (p\<lparr>pe_full := True\<rparr>, None)
      else (p, None))"

text \<open>
  The steps of a running peer, with the number of holders of the read lock: calls of the
  methods, and the progress of the mutating goroutine. A flush takes \<open>muElements\<close> in one step and
  has written the tree when it gives it back in another; \<open>Insert\<close> and \<open>Remove\<close> wait for it. The
  flush of \<open>Flush\<close>, and that of \<open>Stop\<close> after the kill, can begin whatever the readers do.
\<close>

inductive peer_step :: "(zp \<Rightarrow> 't \<Rightarrow> 't res) \<Rightarrow> (zp \<Rightarrow> 't \<Rightarrow> 't res) \<Rightarrow> 't peer \<times> nat \<Rightarrow> 't peer \<times> nat \<Rightarrow> bool"
  for ins rem :: "zp \<Rightarrow> 't \<Rightarrow> 't res" where
  step_acquire: "readAcquire p = (True, p') \<Longrightarrow> peer_step ins rem (p, h) (p', h + 1)"
| step_release: "0 < h \<Longrightarrow> readRelease p = Inr p' \<Longrightarrow> peer_step ins rem (p, h) (p', h - 1)"
| step_insert: "pe_lock p = None \<Longrightarrow> peer_step ins rem (p, h) (peer_Insert zs p, h)"
| step_remove: "pe_lock p = None \<Longrightarrow> peer_step ins rem (p, h) (peer_Remove zs p, h)"
| step_send: "0 < h \<Longrightarrow> sendItems items receiver p = (p', r) \<Longrightarrow> peer_step ins rem (p, h) (p', h)"
| step_begin: "0 < pe_waiting p \<Longrightarrow> pe_readers p = 0 \<Longrightarrow> peer_step ins rem (p, h) (mutate_begin p, h)"
| step_lock: "0 < pe_flushing p \<Longrightarrow> pe_lock p = None \<Longrightarrow> peer_step ins rem (p, h) (p\<lparr>pe_lock := Some ByMutate\<rparr>, h)"
| step_flush: "0 < pe_flushing p \<Longrightarrow> pe_lock p = Some ByMutate \<Longrightarrow> flush ins rem p = Inr p' \<Longrightarrow>
    peer_step ins rem (p, h) (p'\<lparr>pe_lock := None, pe_flushing := pe_flushing p' - 1, pe_flushed := pe_flushed p' + 1\<rparr>, h)"
| step_end: "0 < pe_flushed p \<Longrightarrow> peer_step ins rem (p, h) (mutate_end p, h)"
| step_stop: "peer_step ins rem (p, h) (peer_kill p, h)"
| step_caller_lock: "pe_lock p = None \<Longrightarrow> peer_step ins rem (p, h) (p\<lparr>pe_lock := Some ByCaller\<rparr>, h)"
| step_caller_flush: "pe_lock p = Some ByCaller \<Longrightarrow> peer_Flush ins rem p = Inr p' \<Longrightarrow>
    peer_step ins rem (p, h) (p'\<lparr>pe_lock := None\<rparr>, h)"

section \<open>The handshake\<close>

definition RemoteConfigPassed :: string where "RemoteConfigPassed = ''passed''"
definition RemoteConfigFailed :: string where "RemoteConfigFailed = ''failed''"

text \<open>\<open>remoteConfig\<close> writes the local configuration while it reads the remote one.\<close>

definition remoteConfig :: "byte list \<Rightarrow> (config \<times> byte list) res" where
  "remoteConfig inp = rbind (ReadMsg inp) (\<lambda>(m, inp). case m of Config rconf \<Rightarrow> Inr (rconf, inp)
     | _ \<Rightarrow> Inl (Err (ErrMsg ''expected remote config'')))"

definition ackConfig :: "byte list \<Rightarrow> byte list res" where
  "ackConfig inp = rbind (ReadString inp) (\<lambda>(status, inp).
     if status \<noteq> RemoteConfigPassed then
       (case ReadString inp of Inl (Err e) \<Rightarrow> Inl (Err (ErrMsg ''remote rejected config''))
        | Inl e \<Rightarrow> Inl e | Inr (reason, inp) \<Rightarrow> Inl (Err (ErrMsg ''remote rejected configuration'')))
     else Inr inp)"

definition config_failResp :: "config \<Rightarrow> config \<Rightarrow> string \<Rightarrow> string" where
  "config_failResp config remote failResp =
     (if failResp \<noteq> '''' then failResp
      else if cf_Version remote \<noteq> cf_Version config then ''mismatched protocol version''
      else if cf_BitQuantum remote \<noteq> cf_BitQuantum config then ''mismatched bitquantum''
      else if cf_MBar remote \<noteq> cf_MBar config then ''mismatched mbar''
      else if cf_Filters remote \<noteq> cf_Filters config then ''mismatched filters''
      else '''')"

text \<open>The result, the unread input and the bytes written.\<close>

definition handleConfig :: "config res \<Rightarrow> string \<Rightarrow> byte list \<Rightarrow> (config \<times> byte list) res \<times> byte list" where
  "handleConfig local failResp inp = (case local of Inl e \<Rightarrow> (Inl e, []) | Inr config \<Rightarrow>
     let out = WriteMsg [Config config] in
     case remoteConfig inp of Inl e \<Rightarrow> (Inl e, out) | Inr (remote, inp) \<Rightarrow>
       let failResp = config_failResp config remote failResp in
       if failResp \<noteq> ''''
       then (Inl (Err (ErrMsg ''cannot peer'')), out @ WriteString RemoteConfigFailed @ WriteString failResp)
       else (rbind (ackConfig inp) (\<lambda>inp. Inr (remote, inp)), out @ WriteString RemoteConfigPassed))"

section \<open>The server side\<close>

text \<open>A request names a node, by the keys on the way to it and by its bitstring.\<close>

record requestEntry =
  re_node :: mnode
  re_path :: "nat list"
  re_key :: bitstring

datatype reconState = reconStateBottom | reconStateFlushEnded

record bottomEntry =
  be_request :: "requestEntry option"
  be_state :: reconState

definition maxRequestQueueLen :: nat where "maxRequestQueueLen = 60000"

record reconWithClient =
  rw_requestQ :: "requestEntry list"
  rw_bottomQ :: "bottomEntry list"
  rw_rcvrSet :: zset
  rw_flushing :: bool
  rw_messages :: "msg list"
  rw_out :: "byte list"

definition pushBottom :: "bottomEntry \<Rightarrow> reconWithClient \<Rightarrow> reconWithClient" where
  "pushBottom bottom s = s\<lparr>rw_bottomQ := rw_bottomQ s @ [bottom]\<rparr>"

definition prependRequests :: "requestEntry list \<Rightarrow> reconWithClient \<Rightarrow> reconWithClient" where
  "prependRequests req s =
     (if length (rw_requestQ s) < maxRequestQueueLen then s\<lparr>rw_requestQ := req @ rw_requestQ s\<rparr> else s)"

definition pushRequest :: "requestEntry \<Rightarrow> reconWithClient \<Rightarrow> reconWithClient" where
  "pushRequest req s = s\<lparr>rw_requestQ := rw_requestQ s @ [req]\<rparr>"

definition topBottom :: "reconWithClient \<Rightarrow> bottomEntry option" where
  "topBottom s = (case rw_bottomQ s of [] \<Rightarrow> None | b # _ \<Rightarrow> Some b)"

definition popBottom :: "reconWithClient \<Rightarrow> bottomEntry option \<times> reconWithClient" where
  "popBottom s = (case rw_bottomQ s of [] \<Rightarrow> (None, s) | b # bs \<Rightarrow> (Some b, s\<lparr>rw_bottomQ := bs\<rparr>))"

definition popRequest :: "reconWithClient \<Rightarrow> requestEntry option \<times> reconWithClient" where
  "popRequest s = (case rw_requestQ s of [] \<Rightarrow> (None, s) | r # rs \<Rightarrow> (Some r, s\<lparr>rw_requestQ := rs\<rparr>))"

definition isDone :: "reconWithClient \<Rightarrow> bool" where
  "isDone s \<longleftrightarrow> length (rw_requestQ s) = 0 \<and> length (rw_bottomQ s) = 0"

text \<open>\<open>pc\<close> is the configuration in the settings of the peer; that of the tree is \<open>c\<close>.\<close>

definition sendRequest :: "ptcfg \<Rightarrow> requestEntry option \<Rightarrow> reconWithClient \<Rightarrow> reconWithClient res" where
  "sendRequest pc req s = (case req of None \<Rightarrow> Inl (Err (ErrMsg ''nil request'')) | Some r \<Rightarrow>
     rbind (if mem_IsLeaf (re_node r) \<or> mem_Size (re_node r) < int (MBar pc)
            then rbind (NewZSetSlice (mem_Elements (re_node r))) (\<lambda>els. Inr (ReconRqstFull (re_key r) els))
            else Inr (ReconRqstPoly (re_key r) (mem_Size (re_node r)) (n_svalues (re_node r)))) (\<lambda>m.
     Inr (pushBottom \<lparr>be_request = Some r, be_state = reconStateBottom\<rparr> (s\<lparr>rw_messages := rw_messages s @ [m]\<rparr>))))"

text \<open>The first child goes to the end of the queue, every other one to its front.\<close>

definition push_child :: "ptcfg \<Rightarrow> requestEntry \<Rightarrow> nat \<Rightarrow> reconWithClient \<Rightarrow> reconWithClient res" where
  "push_child c r i s =
     rbind (nth_res (n_children (re_node r)) i) (\<lambda>child.
     let path = re_path r @ [n_key child] in
     rbind (mem_Key c path) (\<lambda>key.
     let req = \<lparr>re_node = child, re_path = path, re_key = key\<rparr> in
     Inr (if i = 0 then pushRequest req s else prependRequests [req] s)))"

definition handleReply :: "ptcfg \<Rightarrow> msg \<Rightarrow> requestEntry option \<Rightarrow> reconWithClient \<Rightarrow> reconWithClient res" where
  "handleReply c m req s = (case m of
       SyncFail \<Rightarrow> (case req of None \<Rightarrow> Inl (Panic PNil) | Some r \<Rightarrow>
         if mem_IsLeaf (re_node r) then Inl (Err (ErrMsg ''Syncfail received at leaf node''))
         else rfold (push_child c r) [0..<length (n_children (re_node r))] s)
     | Elements zs \<Rightarrow> Inr (s\<lparr>rw_rcvrSet := zset_AddAll (rw_rcvrSet s) zs\<rparr>)
     | FullElements zs \<Rightarrow> (case req of None \<Rightarrow> Inl (Panic PNil) | Some r \<Rightarrow>
         rbind (NewZSetSlice (mem_Elements (re_node r))) (\<lambda>local.
         let localNeeds = ZSetDiff zs local; remoteNeeds = ZSetDiff local zs
         in Inr (s\<lparr>rw_messages := rw_messages s @ [Elements remoteNeeds], rw_rcvrSet := zset_AddAll (rw_rcvrSet s) localNeeds\<rparr>)))
     | _ \<Rightarrow> Inl (Err (ErrMsg ''unexpected message'')))"

definition flushQueue :: "reconWithClient \<Rightarrow> reconWithClient" where
  "flushQueue s =
     (pushBottom \<lparr>be_request = None, be_state = reconStateFlushEnded\<rparr>
        (s\<lparr>rw_out := rw_out s @ WriteMsg (rw_messages s @ [Flush]), rw_messages := []\<rparr>))\<lparr>rw_flushing := True\<rparr>"

text \<open>
  What the reads of the connection give, one entry for each call of \<open>ReadMsg\<close>: a message, or
  none when the read fails or its deadline passes. When the list ends nothing more arrives.
\<close>

type_synonym replies = "msg option list"

definition next_reply :: "replies \<Rightarrow> msg option \<times> replies" where
  "next_reply inp = (case inp of [] \<Rightarrow> (None, []) | m # inp' \<Rightarrow> (m, inp'))"

text \<open>One turn of the loop of \<open>interactWithClient\<close>.\<close>

definition interact_step :: "ptcfg \<Rightarrow> ptcfg \<Rightarrow> nat \<Rightarrow> replies \<Rightarrow> reconWithClient \<Rightarrow> (reconWithClient \<times> replies) res" where
  "interact_step pc c maxOutstanding inp s = (case topBottom s of
       None \<Rightarrow> (let (req, s) = popRequest s in rbind (sendRequest pc req s) (\<lambda>s. Inr (s, inp)))
     | Some bottom \<Rightarrow> (case be_state bottom of
         reconStateFlushEnded \<Rightarrow> Inr ((snd (popBottom s))\<lparr>rw_flushing := False\<rparr>, inp)
       | reconStateBottom \<Rightarrow> (case next_reply inp of
           (Some m, inp) \<Rightarrow> rbind (handleReply c m (be_request bottom) (snd (popBottom s))) (\<lambda>s. Inr (s, inp))
         | (None, inp) \<Rightarrow>
             if maxOutstanding < length (rw_bottomQ s) \<or> length (rw_requestQ s) = 0 then
               if \<not> rw_flushing s then Inr (flushQueue s, inp)
               else (case next_reply inp of
                   (None, inp) \<Rightarrow> Inl (Err ErrEOF)
                 | (Some m, inp) \<Rightarrow> rbind (handleReply c m (be_request bottom) (snd (popBottom s))) (\<lambda>s. Inr (s, inp)))
             else (let (req, s) = popRequest s in rbind (sendRequest pc req s) (\<lambda>s. Inr (s, inp))))))"

text \<open>
  The loop ends whatever the client sends: a request costs more than the entry that waits for
  its reply, an entry costs more than the requests for the children, and between two flushes
  an entry is consumed. The measure is the outstanding work, then the flushes still possible.
\<close>

definition req_work :: "requestEntry \<Rightarrow> nat" where
  "req_work r = 2 * size (re_node r) + 2"

definition bottom_work :: "bottomEntry \<Rightarrow> nat" where
  "bottom_work b = (case be_state b of reconStateFlushEnded \<Rightarrow> 0
     | reconStateBottom \<Rightarrow> 1 + (case be_request b of None \<Rightarrow> 0 | Some r \<Rightarrow> 2 * size (re_node r)))"

definition work :: "reconWithClient \<Rightarrow> nat" where
  "work s = (\<Sum>r\<leftarrow>rw_requestQ s. req_work r) + (\<Sum>b\<leftarrow>rw_bottomQ s. bottom_work b)"

definition flush_work :: "reconWithClient \<Rightarrow> nat" where
  "flush_work s = 2 * length (takeWhile (\<lambda>b. be_state b = reconStateFlushEnded) (rw_bottomQ s)) + (if rw_flushing s then 0 else 1)"

lemma push_child_work:
  assumes "push_child c r i s = Inr s'"
  shows "work s' \<le> work s + (2 * size (n_children (re_node r) ! i) + 2) \<and> i < length (n_children (re_node r))"
  using assms
  by (auto simp: push_child_def nth_res_def rbind_Inr_iff Let_def pushRequest_def prependRequests_def work_def req_work_def split: if_splits)

lemma push_children_work:
  assumes "rfold (push_child c r) [0..<n] s = Inr s'" "n \<le> length (n_children (re_node r))"
  shows "work s' \<le> work s + (\<Sum>ch\<leftarrow>take n (n_children (re_node r)). 2 * size ch + 2)"
  using assms
proof (induction n arbitrary: s')
  case (Suc n)
  then obtain s1 where s1: "rfold (push_child c r) [0..<n] s = Inr s1" "push_child c r n s1 = Inr s'"
    by (auto simp: rfold_append rbind_Inr_iff)
  with Suc.IH[OF s1(1)] Suc.prems(2) push_child_work[OF s1(2)] show ?case
    by (simp add: take_Suc_conv_app_nth)
qed simp

lemma children_work: "(\<Sum>ch\<leftarrow>n_children n. 2 * size ch + 2) < 2 * size n"
proof -
  have "(\<Sum>ch\<leftarrow>chs. 2 * size ch + 2) = 2 * size_list size chs" for chs :: "mnode list" by (induction chs) auto
  with mnode_children_size[of n] show ?thesis by simp
qed

lemma handleReply_work:
  assumes "handleReply c m req s = Inr s'"
  shows "work s' < work s + (1 + (case req of None \<Rightarrow> 0 | Some r \<Rightarrow> 2 * size (re_node r)))"
proof (cases m)
  case SyncFail
  with assms obtain r where r: "req = Some r" "rfold (push_child c r) [0..<length (n_children (re_node r))] s = Inr s'"
    by (auto simp: handleReply_def split: option.splits if_splits)
  from push_children_work[OF r(2)] children_work[of "re_node r"] r(1) show ?thesis by simp
qed (use assms in \<open>auto simp: handleReply_def work_def rbind_Inr_iff Let_def split: option.splits\<close>)

lemma sendRequest_work:
  assumes "sendRequest pc req s = Inr s'"
  shows "\<exists>r. req = Some r \<and> work s' = work s + 1 + 2 * size (re_node r)"
  using assms by (auto simp: sendRequest_def rbind_Inr_iff pushBottom_def work_def bottom_work_def split: option.splits if_splits)

lemma popRequest_send_work:
  assumes "popRequest s = (req, s1)" "sendRequest pc req s1 = Inr s'"
  shows "work s' < work s"
  using assms sendRequest_work[OF assms(2)]
  by (auto simp: popRequest_def work_def req_work_def split: list.splits)

lemma popBottom_work:
  assumes "topBottom s = Some b" "be_state b = reconStateBottom" "handleReply c m (be_request b) (snd (popBottom s)) = Inr s'"
  shows "work s' < work s"
  using assms handleReply_work[OF assms(3)]
  by (auto simp: popBottom_def topBottom_def work_def bottom_work_def split: list.splits option.splits)

lemma interact_step_decreases:
  assumes "interact_step pc c mo inp s = Inr (s', inp')"
  shows "work s' < work s \<or> work s' = work s \<and> flush_work s' < flush_work s"
proof (cases "topBottom s")
  case None
  with assms show ?thesis
    by (auto simp: interact_step_def rbind_Inr_iff split: prod.splits dest: popRequest_send_work)
next
  case (Some b)
  show ?thesis
  proof (cases "be_state b")
    case reconStateFlushEnded
    with assms Some show ?thesis
      by (auto simp: interact_step_def popBottom_def topBottom_def work_def bottom_work_def flush_work_def split: list.splits)
  next
    case reconStateBottom
    have "work (flushQueue s) = work s" by (simp add: work_def flushQueue_def pushBottom_def bottom_work_def)
    moreover have "flush_work (flushQueue s) < flush_work s" if "\<not> rw_flushing s"
      using that Some reconStateBottom
      by (auto simp: flush_work_def flushQueue_def pushBottom_def topBottom_def split: list.splits)
    ultimately show ?thesis
      using assms Some reconStateBottom popBottom_work[OF Some reconStateBottom] popRequest_send_work
      by (fastforce simp: interact_step_def rbind_Inr_iff split: prod.splits option.splits if_splits)
  qed
qed

text \<open>The loop: the state when it ends, and the error that ended it, if one did.\<close>

function interact_loop :: "ptcfg \<Rightarrow> ptcfg \<Rightarrow> nat \<Rightarrow> replies \<Rightarrow> reconWithClient \<Rightarrow> reconWithClient \<times> fault option" where
  "interact_loop pc c mo inp s =
     (if isDone s then (s, None)
      else case interact_step pc c mo inp s of
        Inl e \<Rightarrow> (s, Some e) | Inr (s', inp') \<Rightarrow> interact_loop pc c mo inp' s')"
  by pat_completeness auto
termination
  by (relation "measures [\<lambda>(pc, c, mo, inp, s). work s, \<lambda>(pc, c, mo, inp, s). flush_work s]")
     (auto dest: interact_step_decreases)

declare interact_loop.simps [simp del]

text \<open>
  \<open>interactWithClient\<close> starts at the root with the given bitstring. At its end it writes
  \<open>Done\<close> and hands on the recovered set, also after an error; a panic ends the process.
\<close>

definition interactWithClient :: "ptcfg \<Rightarrow> ptcfg \<Rightarrow> nat \<Rightarrow> mnode \<Rightarrow> bitstring \<Rightarrow> replies \<Rightarrow> (zset \<times> byte list \<times> fault option) res" where
  "interactWithClient pc c mo root bs inp =
     (let s0 = \<lparr>rw_requestQ = [], rw_bottomQ = [], rw_rcvrSet = zset_empty, rw_flushing = False, rw_messages = [], rw_out = []\<rparr>;
          (s, r) = interact_loop pc c mo inp (pushRequest \<lparr>re_node = root, re_path = [], re_key = bs\<rparr> s0)
      in case r of Some (Panic e) \<Rightarrow> Inl (Panic e)
         | _ \<Rightarrow> Inr (rw_rcvrSet s, rw_out s @ WriteMsg [Done], r))"

section \<open>Accepting a connection\<close>

text \<open>
  \<open>Accept\<close>: the lock, the handshake, the reconciliation when the lock was taken, the items to
  recover, the release. The replies after the handshake are a separate argument.
\<close>

definition Accept :: "ptcfg \<Rightarrow> config res \<Rightarrow> nat \<Rightarrow> bool \<Rightarrow> byte list \<Rightarrow> replies \<Rightarrow> mtree peer \<Rightarrow>
    (mtree peer \<times> byte list \<times> zp list option \<times> fault option) res" where
  "Accept pc local mo receiver inp replies p =
     (let (ok, p) = readAcquire p;
          failResp = (if ok then '''' else ''sync not available, currently mutating'');
          release = (\<lambda>p x. if ok then rbind (readRelease p) (\<lambda>p. Inr (p, x)) else Inr (p, x));
          (r, out) = handleConfig local failResp inp
      in case r of
           Inl (Err e) \<Rightarrow> release p (out, None, Some (Err e))
         | Inl e \<Rightarrow> Inl e
         | Inr (remote, _) \<Rightarrow>
             if failResp = '''' then
               rbind (interactWithClient pc (mt_cfg (pe_tree p)) mo (mt_root (pe_tree p)) (NewBitstring 0) replies) (\<lambda>(rcvr, out', e).
               let (p, recovered) = sendItems (zset_Items rcvr) receiver p
               in release p (out @ out', recovered, e))
             else release p (out, None, None))"

end
