(* ===== verification/Gossip.thy ===== *)
theory Gossip
  imports Peer Decode
begin

text \<open>
  The client side of a reconciliation, \<open>recon/gossip.go\<close>, and \<open>RecoverAddr\<close> of
  \<open>recon/peer.go\<close>: the answers to the server's requests, and the loop that reads requests,
  collects what is to be recovered and writes the answers when the server asks for them. The
  channel between the two goroutines of the client is a call; the text of an error is a
  parameter.
\<close>

section \<open>Answering a request\<close>

record msgProgress =
  mp_elements :: zset
  mp_err :: "fault option"
  mp_flush :: bool
  mp_messages :: "msg list"

definition progress :: "zset \<Rightarrow> msg list \<Rightarrow> msgProgress" where
  "progress elements messages = \<lparr>mp_elements = elements, mp_err = None, mp_flush = False, mp_messages = messages\<rparr>"

definition failed :: "fault \<Rightarrow> msgProgress" where
  "failed e = \<lparr>mp_elements = zset_empty, mp_err = Some e, mp_flush = False, mp_messages = []\<rparr>"

text \<open>The sample values divided by each other, up to the length of the remote samples.\<close>

definition solve :: "nat \<Rightarrow> rng \<Rightarrow> zp list \<Rightarrow> zp list \<Rightarrow> int \<Rightarrow> int \<Rightarrow> zp list \<Rightarrow> (zset \<times> zset) res" where
  "solve fuel rng remoteSamples localSamples remoteSize localSize points =
     rbind (rmap (\<lambda>i. rbind (nth_res remoteSamples i) (\<lambda>r. rbind (nth_res localSamples i) (zp_Div r))) [0..<length remoteSamples])
       (\<lambda>values. Reconcile fuel rng values points (remoteSize - localSize))"

definition handleReconRqstPoly :: "ptcfg \<Rightarrow> nat \<Rightarrow> rng \<Rightarrow> mtree \<Rightarrow> bitstring \<Rightarrow> int \<Rightarrow> zp list \<Rightarrow> msgProgress res" where
  "handleReconRqstPoly pc fuel rng t prefix remoteSize remoteSamples =
     (case mem_Node t prefix of
        Inl (Err ErrNodeNotFound) \<Rightarrow> Inr (failed (Err ErrReconRqstPolyNotFound))
      | Inl (Err _) \<Rightarrow> Inl (Panic PNil)
      | Inl e \<Rightarrow> Inl e
      | Inr node \<Rightarrow>
        (case solve fuel rng remoteSamples (n_svalues node) remoteSize (mem_Size node) (mt_points t) of
           Inr (remoteSet, localSet) \<Rightarrow> Inr (progress remoteSet [Elements localSet])
         | Inl (Err ErrLowMBar) \<Rightarrow>
             if mem_IsLeaf node \<or> mem_Size node < int (ThreshMult pc * MBar pc)
             then rbind (NewZSetSlice (mem_Elements node)) (\<lambda>els. Inr (progress zset_empty [FullElements els]))
             else Inr (progress zset_empty [SyncFail])
         | Inl (Err e) \<Rightarrow> Inr (progress zset_empty [SyncFail])
         | Inl e \<Rightarrow> Inl e))"

definition handleReconRqstFull :: "mtree \<Rightarrow> bitstring \<Rightarrow> zset \<Rightarrow> msgProgress res" where
  "handleReconRqstFull t prefix elements =
     (let reply = (\<lambda>localset. let localNeeds = ZSetDiff elements localset; remoteNeeds = ZSetDiff localset elements
                     in progress localNeeds [Elements remoteNeeds])
      in case mem_Node t prefix of
           Inl (Err ErrNodeNotFound) \<Rightarrow> Inr (reply zset_empty)
         | Inl (Err e) \<Rightarrow> Inr (failed (Err e))
         | Inl e \<Rightarrow> Inl e
         | Inr node \<Rightarrow> rbind (NewZSetSlice (mem_Elements node)) (\<lambda>localset. Inr (reply localset)))"

section \<open>The client loop\<close>

text \<open>One message of \<open>interactWithServer\<close>.\<close>

definition client_progress :: "ptcfg \<Rightarrow> nat \<Rightarrow> rng \<Rightarrow> mtree \<Rightarrow> msg \<Rightarrow> msgProgress res" where
  "client_progress pc fuel rng t m = (case m of
       ReconRqstPoly prefix sz samples \<Rightarrow> handleReconRqstPoly pc fuel rng t prefix sz samples
     | ReconRqstFull prefix els \<Rightarrow> handleReconRqstFull t prefix els
     | Elements zs \<Rightarrow> Inr (progress zs [])
     | Done \<Rightarrow> Inr (failed (Err ErrReconDone))
     | Flush \<Rightarrow> Inr ((progress zset_empty [])\<lparr>mp_flush := True\<rparr>)
     | _ \<Rightarrow> Inr (failed (Err (ErrMsg ''unexpected message''))))"

record clientState =
  cs_respSet :: zset
  cs_pending :: "msg list"
  cs_out :: "byte list"

text \<open>
  What \<open>clientRecon\<close> does with one step of progress: the new state, and whether it goes on.
\<close>

definition client_apply :: "(fault \<Rightarrow> string) \<Rightarrow> msgProgress \<Rightarrow> clientState \<Rightarrow> clientState \<times> bool" where
  "client_apply err_text step s = (case mp_err step of
       Some e \<Rightarrow> (if e = Err ErrReconDone then s else s\<lparr>cs_out := cs_out s @ WriteMsg [Error (err_text e)]\<rparr>, False)
     | None \<Rightarrow>
         (let pending = cs_pending s @ mp_messages step;
              s = (if mp_flush step
                   then s\<lparr>cs_out := cs_out s @ concat (map (\<lambda>m. WriteMsg [m]) pending), cs_pending := []\<rparr>
                   else s\<lparr>cs_pending := pending\<rparr>)
          in (s\<lparr>cs_respSet := zset_AddAll (cs_respSet s) (mp_elements step)\<rparr>, True)))"

text \<open>
  The loop over what the server sends. Every message takes bytes off the input, so the loop
  ends; fuel and random bytes of the factor searches are indexed by the step.
\<close>

lemma ReadFull_length: "ReadFull n r = Inr (x, r') \<Longrightarrow> length r = n + length r'"
  by (auto simp: ReadFull_def split: if_splits)

lemma ReadMsg_shorter: "ReadMsg r = Inr (m, r') \<Longrightarrow> length r' < length r"
  by (auto simp: ReadMsg_def ReadLen_def ReadInt_def rbind_Inr_iff dest!: ReadFull_length split: if_splits)

function client_loop :: "ptcfg \<Rightarrow> nat \<Rightarrow> (nat \<Rightarrow> rng) \<Rightarrow> (fault \<Rightarrow> string) \<Rightarrow> mtree \<Rightarrow> nat \<Rightarrow> byte list \<Rightarrow> clientState \<Rightarrow> clientState res" where
  "client_loop pc fuel rngs err_text t k inp s =
     (case ReadMsg inp of
        Inl (Err e) \<Rightarrow> Inr (fst (client_apply err_text (failed (Err e)) s))
      | Inl e \<Rightarrow> Inl e
      | Inr (m, inp') \<Rightarrow>
        (case client_progress pc fuel (rngs k) t m of
           Inl e \<Rightarrow> Inl e
         | Inr step \<Rightarrow>
             (case client_apply err_text step s of
                (s, True) \<Rightarrow> client_loop pc fuel rngs err_text t (Suc k) inp' s
              | (s, False) \<Rightarrow> Inr s)))"
  by pat_completeness auto
termination
  by (relation "measure (\<lambda>(pc, fuel, rngs, err_text, t, k, inp, s). length inp)") (auto dest: ReadMsg_shorter)

declare client_loop.simps [simp del]

definition clientRecon :: "ptcfg \<Rightarrow> nat \<Rightarrow> (nat \<Rightarrow> rng) \<Rightarrow> (fault \<Rightarrow> string) \<Rightarrow> mtree \<Rightarrow> byte list \<Rightarrow> (zp list \<times> byte list) res" where
  "clientRecon pc fuel rngs err_text t inp =
     rbind (client_loop pc fuel rngs err_text t 0 inp \<lparr>cs_respSet = zset_empty, cs_pending = [], cs_out = []\<rparr>)
       (\<lambda>s. Inr (zset_Items (cs_respSet s), cs_out s))"

text \<open>
  \<open>InitiateRecon\<close> on an open connection, and one firing of the timer of \<open>Gossip\<close> with a
  partner chosen: the read lock around the reconciliation.
\<close>

definition InitiateRecon :: "ptcfg \<Rightarrow> config res \<Rightarrow> nat \<Rightarrow> (nat \<Rightarrow> rng) \<Rightarrow> (fault \<Rightarrow> string) \<Rightarrow> bool \<Rightarrow> byte list \<Rightarrow> mtree peer \<Rightarrow>
    (mtree peer \<times> byte list \<times> zp list option \<times> fault option) res" where
  "InitiateRecon pc local fuel rngs err_text receiver inp p =
     (let (r, out) = handleConfig local '''' inp in
      case r of
        Inl (Err e) \<Rightarrow> Inr (p, out, None, Some (Err e))
      | Inl e \<Rightarrow> Inl e
      | Inr (remote, inp) \<Rightarrow> rbind (clientRecon pc fuel rngs err_text (pe_tree p) inp) (\<lambda>(items, out').
          let (p, recovered) = sendItems items receiver p in Inr (p, out @ out', recovered, None)))"

definition gossip_once :: "ptcfg \<Rightarrow> config res \<Rightarrow> nat \<Rightarrow> (nat \<Rightarrow> rng) \<Rightarrow> (fault \<Rightarrow> string) \<Rightarrow> bool \<Rightarrow> byte list option \<Rightarrow> mtree peer \<Rightarrow>
    (mtree peer \<times> zp list option) res" where
  "gossip_once pc local fuel rngs err_text receiver conn p =
     (let (ok, p) = readAcquire p in
      if ok then
        rbind (case conn of None \<Rightarrow> Inr (p, None)
               | Some inp \<Rightarrow> rbind (InitiateRecon pc local fuel rngs err_text receiver inp p) (\<lambda>(p, _, recovered, _). Inr (p, recovered)))
          (\<lambda>(p, recovered). rbind (readRelease p) (\<lambda>p. Inr (p, recovered)))
      else Inr (p, None))"

section \<open>Where to recover from\<close>

text \<open>The recon host of the partner, or else of the connection, with the advertised port.\<close>

definition RecoverAddr :: "partner \<Rightarrow> string \<Rightarrow> config \<Rightarrow> string res" where
  "RecoverAddr partner remoteAddr remote =
     (let host1 = (case SplitHostPort (pt_ReconAddr partner) of Some (h, _) \<Rightarrow> h | None \<Rightarrow> '''')
      in rbind (if host1 = '''' then
                  (case SplitHostPort remoteAddr of Some (h, _) \<Rightarrow> Inr h
                   | None \<Rightarrow> Inl (Err (ErrMsg ''cannot parse remote address'')))
                else Inr host1) (\<lambda>host. Inr (JoinHostPort host (dec_string (cf_HTTPPort remote)))))"

end
