(* ===== verification/PTreeSpec.thy ===== *)
theory PTreeSpec
  imports PTreeInv
begin

text \<open>
  What the in-memory prefix tree promises its clients: the interface of a set of field
  elements with sample products (locale \<open>prefix_tree\<close>), its interpretation on
  \<open>MemPrefixTree\<close>, and the meaning of the node lookup that both sides of a reconciliation
  use to name a subtree.
\<close>

section \<open>The interface\<close>

text \<open>
  \<open>elems\<close> is the set of elements stored, \<open>points\<close> the sample points, which cannot be stored.
\<close>

locale prefix_tree =
  fixes insert_op :: "zp \<Rightarrow> 't \<Rightarrow> 't res"
    and remove_op :: "zp \<Rightarrow> 't \<Rightarrow> 't res"
    and elems :: "'t \<Rightarrow> zp set"
    and points :: "'t \<Rightarrow> zp set"
    and inv :: "'t \<Rightarrow> bool"
  assumes insert_new: "inv t \<Longrightarrow> felem P_SKS z \<Longrightarrow> z \<notin> elems t \<Longrightarrow> z \<notin> points t \<Longrightarrow>
      \<exists>t'. insert_op z t = Inr t' \<and> inv t' \<and> elems t' = insert z (elems t) \<and> points t' = points t"
    and insert_rejected: "inv t \<Longrightarrow> felem P_SKS z \<Longrightarrow> z \<in> elems t \<or> z \<in> points t \<Longrightarrow>
      \<exists>e. insert_op z t = Inl (Err e)"
    and remove_present: "inv t \<Longrightarrow> z \<in> elems t \<Longrightarrow>
      \<exists>t'. remove_op z t = Inr t' \<and> inv t' \<and> elems t' = elems t - {z} \<and> points t' = points t"
    and elems_ok: "inv t \<Longrightarrow> z \<in> elems t \<Longrightarrow> felem P_SKS z \<and> z \<notin> points t"
begin

text \<open>A client that logs a rejected insertion and goes on with the tree it had.\<close>

lemma insert_logged:
  assumes "inv t" "felem P_SKS z"
  shows "\<exists>t'. (case insert_op z t of Inr t' \<Rightarrow> Inr t' | Inl (Err e) \<Rightarrow> Inr t | Inl e \<Rightarrow> Inl e) = Inr t'
    \<and> inv t' \<and> elems t' = elems t \<union> ({z} - points t) \<and> points t' = points t"
proof (cases "z \<in> elems t \<or> z \<in> points t")
  case True
  with insert_rejected[OF assms] elems_ok[OF assms(1)] assms(1) show ?thesis by auto
next
  case False
  with insert_new[OF assms] show ?thesis by auto
qed

lemma insert_remove:
  assumes "inv t" "felem P_SKS z" "z \<notin> elems t" "z \<notin> points t"
  shows "\<exists>t' t''. insert_op z t = Inr t' \<and> remove_op z t' = Inr t'' \<and> inv t''
    \<and> elems t'' = elems t \<and> points t'' = points t"
proof -
  obtain t' where t': "insert_op z t = Inr t'" "inv t'" "elems t' = insert z (elems t)" "points t' = points t"
    using insert_new[OF assms] by blast
  with remove_present[of t' z] assms(3) show ?thesis by auto
qed

end

section \<open>The tree invariant\<close>

definition mtree_elems :: "mtree \<Rightarrow> zp set" where
  "mtree_elems t = set (mem_Elements (mt_root t))"

definition mtree_wf :: "mtree \<Rightarrow> bool" where
  "mtree_wf t \<longleftrightarrow> cfg_ok (mt_cfg t) \<and> points_ok (mt_cfg t) (mt_points t)
     \<and> node_wf (mt_cfg t) (mt_points t) 0 (mt_root t) \<and> n_key (mt_root t) = 0
     \<and> zset_in P_SKS (mt_all t) \<and> zset_vals (mt_all t) = zp_i ` mtree_elems t"

lemma mtree_wfD:
  assumes "mtree_wf t"
  shows "cfg_ok (mt_cfg t)" "points_ok (mt_cfg t) (mt_points t)"
    "node_wf (mt_cfg t) (mt_points t) 0 (mt_root t)" "n_key (mt_root t) = 0"
    "zset_in P_SKS (mt_all t)" "zset_vals (mt_all t) = zp_i ` mtree_elems t"
    "\<And>z. z \<in> mtree_elems t \<Longrightarrow> felem P_SKS z \<and> z \<notin> set (mt_points t)"
    "list_all (felem P_SKS) (mt_points t)"
  using assms node_wfD(4)[of "mt_cfg t" "mt_points t" 0 "mt_root t"]
  by (auto simp: mtree_wf_def mtree_elems_def points_ok_def)

lemma mtree_contains:
  assumes "mtree_wf t" "felem P_SKS z"
  shows "zset_Contains (mt_all t) z \<longleftrightarrow> z \<in> mtree_elems t"
proof -
  have "zp_i z \<in> zp_i ` mtree_elems t \<longleftrightarrow> z \<in> mtree_elems t"
    using mtree_wfD(7)[OF assms(1)] assms(2) felem_eqI by blast
  then show ?thesis using zs.contains_iff[OF mtree_wfD(5)[OF assms(1)] assms(2)] mtree_wfD(6)[OF assms(1)] by simp
qed

lemma cfg_ok_default: "cfg_ok defaultPTreeConfig"
  by (simp add: cfg_ok_def defaultPTreeConfig_def SplitThreshold_def)

lemma Zpoints_ok:
  assumes "0 < p"
  shows "\<exists>pts. Zpoints p n = Inr pts \<and> list_all (felem p) pts \<and> length pts = n"
proof -
  let ?v = "\<lambda>i :: nat. if i mod 2 = 0 then int ((i + 1) div 2) * 1 else int ((i + 1) div 2) * -1"
  have "Zpoints p n = Inr (map (\<lambda>i. zmk p (?v i)) [0..<n])"
    unfolding Zpoints_def by (rule rmap_pure) (simp add: Zi_def zp_simps assms)
  moreover have "list_all (felem p) (map (\<lambda>i. zmk p (?v i)) [0..<n])" using assms by (simp add: list_all_iff)
  ultimately show ?thesis by simp
qed

lemma mem_Init_ok:
  obtains t' where "mem_Init t = Inr t'" "mtree_wf t'" "mtree_elems t' = {}" "mt_cfg t' = defaultPTreeConfig"
    "mem_Size (mt_root t') = 0"
proof -
  obtain pts where pts: "Zpoints P_SKS (NumSamples defaultPTreeConfig) = Inr pts"
    "list_all (felem P_SKS) pts" "length pts = NumSamples defaultPTreeConfig"
    using Zpoints_ok[OF P_SKS_pos(1)] by blast
  let ?t = "mem_Create (t\<lparr>mt_cfg := defaultPTreeConfig, mt_points := pts, mt_all := zset_empty\<rparr>)"
  have "zset_in P_SKS zset_empty" "zset_vals zset_empty = {}" by (rule zs.inv_empty, rule zs.vals_empty)
  then have "mtree_wf ?t"
    using mem_init_wf[OF pts(3)] cfg_ok_default pts
    by (simp add: mtree_wf_def mem_Create_def points_ok_def mtree_elems_def)
  moreover have "mtree_elems ?t = {}" using mem_init_wf[OF pts(3)] by (simp add: mtree_elems_def mem_Create_def)
  ultimately show thesis using pts(1) by (intro that[of ?t]) (simp_all add: mem_Init_def Let_def mem_Create_def mem_Size_def mem_init_def)
qed

section \<open>Insertion and removal in the tree\<close>

lemma mem_Insert_new:
  assumes wf: "mtree_wf t" and z: "felem P_SKS z" "z \<notin> mtree_elems t" "z \<notin> set (mt_points t)"
  shows "\<exists>t'. mem_Insert z t = Inr t' \<and> mtree_wf t' \<and> mtree_elems t' = insert z (mtree_elems t)
    \<and> mt_points t' = mt_points t \<and> mt_cfg t' = mt_cfg t"
proof -
  note W = mtree_wfD[OF wf]
  obtain bs where bs: "NewZpBitstring z = Inr bs" "bs_bits bs = 129" using zp_bitstring[OF z(1)] by metis
  have "ins_spec (insert_fuel bs) (mt_cfg t) (mt_points t) 0"
    using bs(2) by (intro ins_ok[OF W(1,2)]) (simp_all add: insert_fuel_def)
  moreover have "agree (mt_cfg t) 0 z (mem_Elements (mt_root t))" by (simp add: agree_def)
  ultimately obtain r where r: "mem_insert (insert_fuel bs) (mt_cfg t) (mt_points t) z (add_marray (mt_points t) z) bs 0 (mt_root t) = Inr r"
    "node_wf (mt_cfg t) (mt_points t) 0 r" "mset (mem_Elements r) = add_mset z (mset (mem_Elements (mt_root t)))"
    "n_key r = n_key (mt_root t)"
    using ins_specD[OF _ W(3) z(1) _ z(3) bs(1)] z(2) unfolding mtree_elems_def by blast
  obtain al where al: "zset_Add z (mt_all t) = Inr al" "zset_in P_SKS al" "zset_vals al = insert (zp_i z) (zset_vals (mt_all t))"
    using zs.addE[OF W(5) z(1)] by blast
  let ?t = "t\<lparr>mt_root := r, mt_all := al\<rparr>"
  have "set (mem_Elements r) = insert z (mtree_elems t)"
    unfolding mtree_elems_def using r(3) by (metis set_mset_add_mset_insert set_mset_mset)
  then have el: "mtree_elems ?t = insert z (mtree_elems t)" by (simp add: mtree_elems_def)
  then have "mtree_wf ?t" using W r al by (simp add: mtree_wf_def)
  moreover have "mem_Insert z t = Inr ?t"
    using mtree_contains[OF wf z(1)] z bs(1) AddElementArray_ok[OF W(8) z(1,3)] r(1) al(1)
    by (simp add: mem_Insert_def)
  ultimately show ?thesis using el by auto
qed

lemma mem_Insert_duplicate:
  assumes "mtree_wf t" "z \<in> mtree_elems t"
  shows "mem_Insert z t = Inl (Err ErrDuplicate)"
  using assms mtree_contains[OF assms(1)] mtree_wfD(7)[OF assms] by (simp add: mem_Insert_def)

lemma mem_Insert_point:
  assumes "mtree_wf t" "z \<in> set (mt_points t)"
  shows "mem_Insert z t = Inl (Err ErrSamplePointElement)"
proof -
  note W = mtree_wfD[OF assms(1)]
  have z: "felem P_SKS z" using W(8) assms(2) by (simp add: list_all_iff)
  have "z \<notin> mtree_elems t" using W(7) assms(2) by blast
  moreover obtain bs where "NewZpBitstring z = Inr bs" using zp_bitstring[OF z] by metis
  ultimately show ?thesis using mtree_contains[OF assms(1) z] AddElementArray_point[OF W(8) assms(2)]
    by (simp add: mem_Insert_def)
qed

lemma mem_Remove_present:
  assumes wf: "mtree_wf t" and zin: "z \<in> mtree_elems t"
  shows "\<exists>t'. mem_Remove z t = Inr t' \<and> mtree_wf t' \<and> mtree_elems t' = mtree_elems t - {z}
    \<and> mt_points t' = mt_points t \<and> mt_cfg t' = mt_cfg t"
proof -
  note W = mtree_wfD[OF wf]
  have z: "felem P_SKS z" "z \<notin> set (mt_points t)" using W(7)[OF zin] by auto
  obtain bs where bs: "NewZpBitstring z = Inr bs" using zp_bitstring[OF z(1)] by metis
  obtain r where r: "mem_remove (mt_cfg t) (mt_points t) z (del_marray (mt_points t) z) bs 0 (mt_root t) = Inr r"
    "node_wf (mt_cfg t) (mt_points t) 0 r" "mset (mem_Elements r) = mset (remove1 z (mem_Elements (mt_root t)))"
    "n_key r = n_key (mt_root t)"
    using mem_remove_ok[OF W(1,2) z bs W(3)] zin unfolding mtree_elems_def by blast
  let ?t = "t\<lparr>mt_root := r, mt_all := zset_Remove z (mt_all t)\<rparr>"
  have el: "mtree_elems ?t = mtree_elems t - {z}"
    using mset_eq_setD[OF r(3)] node_wfD(3)[OF W(3)] by (simp add: mtree_elems_def set_remove1_eq)
  moreover have "mtree_wf ?t"
  proof -
    have "zp_i ` (mtree_elems t - {z}) = zp_i ` mtree_elems t - {zp_i z}"
      using W(7) z felem_eqI by blast
    then show ?thesis using W r el zs.remove_inv[OF W(5) z(1)] zs.remove_vals[OF W(5) z(1)]
      by (simp add: mtree_wf_def)
  qed
  moreover have "mem_Remove z t = Inr ?t"
    using bs DelElementArray_ok[OF W(8) z(1)] r(1) by (simp add: mem_Remove_def)
  ultimately show ?thesis by auto
qed

interpretation mt: prefix_tree mem_Insert mem_Remove mtree_elems "\<lambda>t. set (mt_points t)" mtree_wf
proof
  fix t z
  assume t: "mtree_wf t"
  show "\<exists>t'. mem_Insert z t = Inr t' \<and> mtree_wf t' \<and> mtree_elems t' = insert z (mtree_elems t)
      \<and> set (mt_points t') = set (mt_points t)"
    if "felem P_SKS z" "z \<notin> mtree_elems t" "z \<notin> set (mt_points t)"
    using mem_Insert_new[OF t that] by auto
  show "\<exists>e. mem_Insert z t = Inl (Err e)" if "z \<in> mtree_elems t \<or> z \<in> set (mt_points t)"
    using that mem_Insert_duplicate[OF t] mem_Insert_point[OF t] by auto
  show "\<exists>t'. mem_Remove z t = Inr t' \<and> mtree_wf t' \<and> mtree_elems t' = mtree_elems t - {z}
      \<and> set (mt_points t') = set (mt_points t)" if "z \<in> mtree_elems t"
    using mem_Remove_present[OF t that] by auto
  show "felem P_SKS z \<and> z \<notin> set (mt_points t)" if "z \<in> mtree_elems t"
    using mtree_wfD(7)[OF t that] .
qed

section \<open>Looking up a node\<close>

text \<open>The digit that the lookup reads from a bitstring at depth \<open>d\<close>.\<close>

definition bsdigit :: "ptcfg \<Rightarrow> bitstring \<Rightarrow> nat \<Rightarrow> nat" where
  "bsdigit c bs d = horner_sum of_bool 2 (map (\<lambda>i. bs_bit bs (d * BitQuantum c + i)) [0..<BitQuantum c])"

lemma bsdigit_less: "bsdigit c bs d < 2 ^ BitQuantum c"
  using horner_sum_of_bool_2_less[of "map (\<lambda>i. bs_bit bs (d * BitQuantum c + i)) [0..<BitQuantum c]"]
  by (simp add: bsdigit_def)

lemma node_childIndex_ok:
  assumes "\<And>k. k < BitQuantum c \<Longrightarrow> bs_Get bs (int (d * BitQuantum c + k)) = Inr (if bs_bit bs (d * BitQuantum c + k) then 1 else 0)"
  shows "node_childIndex c bs (d * BitQuantum c) = Inr (bsdigit c bs d)"
  unfolding node_childIndex_def bsdigit_def using assms by (intro digit_loop)

text \<open>
  The lookup ends in a node that holds exactly the elements whose digits are those of the
  bitstring, down to the depth where the bits end or a leaf is met.
\<close>

definition bs_readable :: "ptcfg \<Rightarrow> bitstring \<Rightarrow> bool" where
  "bs_readable c bs \<longleftrightarrow> (\<forall>d. d * BitQuantum c < bs_BitLen bs \<and> d * BitQuantum c < 128 \<longrightarrow>
     (\<forall>k < BitQuantum c. bs_Get bs (int (d * BitQuantum c + k))
        = Inr (if bs_bit bs (d * BitQuantum c + k) then 1 else 0)))"

lemma node_elems_digit:
  assumes "node_wf c points d n" "n_children n \<noteq> []" "k < 2 ^ BitQuantum c"
  shows "set (mem_Elements (n_children n ! k)) = {x \<in> set (mem_Elements n). zdigit c x d = k}"
proof -
  note I = inner_wfD[OF assms(1,2)]
  have D: "\<And>i x. i < length (n_children n) \<Longrightarrow> x \<in> set (mem_Elements (n_children n ! i)) \<Longrightarrow> zdigit c x d = i"
    using I(1) by (auto simp: children_wf_def)
  show ?thesis unfolding I(3) using D assms(3) I(2) child_elems_set[of _ "n_children n"] by fastforce
qed

lemma mem_node_from_ok:
  assumes "bs_readable c bs"
  shows "node_wf c points d n \<Longrightarrow> \<exists>n' d'. mem_node_from c bs (d * BitQuantum c) n = Inr n' \<and> d \<le> d'
    \<and> (\<forall>j. d \<le> j \<and> j < d' \<longrightarrow> j * BitQuantum c < 128)
    \<and> node_wf c points d' n' \<and> (mem_IsLeaf n' \<or> bs_BitLen bs \<le> d' * BitQuantum c)
    \<and> set (mem_Elements n') = {x \<in> set (mem_Elements n). \<forall>j. d \<le> j \<and> j < d' \<longrightarrow> zdigit c x j = bsdigit c bs j}"
proof (induction n arbitrary: d rule: measure_induct_rule[of size])
  case (less n)
  show ?case
  proof (cases "d * BitQuantum c < bs_BitLen bs \<and> \<not> mem_IsLeaf n")
    case False
    then have "mem_node_from c bs (d * BitQuantum c) n = Inr n" by (subst mem_node_from.simps) auto
    with False less.prems show ?thesis by (intro exI[of _ n] exI[of _ d]) auto
  next
    case True
    then have nl: "n_children n \<noteq> []" by (simp add: mem_IsLeaf_def)
    note I = inner_wfD[OF less.prems nl]
    let ?k = "bsdigit c bs d" let ?x = "n_children n ! bsdigit c bs d"
    have ci: "node_childIndex c bs (d * BitQuantum c) = Inr ?k"
      using assms True I(5) by (intro node_childIndex_ok) (simp add: bs_readable_def)
    have k: "?k < length (n_children n)" using I(2) bsdigit_less by simp
    then have sz: "size ?x < size n" by (intro mnode_child_size) simp
    have wfx: "node_wf c points (Suc d) ?x" using I(1) k by (simp add: children_wf_def)
    from less.IH[OF sz wfx] obtain n' d' where n': "mem_node_from c bs (Suc d * BitQuantum c) ?x = Inr n'"
      "Suc d \<le> d'" "\<forall>j. Suc d \<le> j \<and> j < d' \<longrightarrow> j * BitQuantum c < 128" "node_wf c points d' n'" "mem_IsLeaf n' \<or> bs_BitLen bs \<le> d' * BitQuantum c"
      "set (mem_Elements n') = {x \<in> set (mem_Elements ?x). \<forall>j. Suc d \<le> j \<and> j < d' \<longrightarrow> zdigit c x j = bsdigit c bs j}"
      by blast
    have "mem_node_from c bs (d * BitQuantum c) n = Inr n'"
      using True ci k n'(1) by (subst mem_node_from.simps) (simp add: ac_simps)
    moreover have rng: "d \<le> j \<and> j < d' \<longleftrightarrow> j = d \<or> Suc d \<le> j \<and> j < d'" for j using n'(2) by auto
    have "set (mem_Elements n') = {x \<in> set (mem_Elements n). \<forall>j. d \<le> j \<and> j < d' \<longrightarrow> zdigit c x j = bsdigit c bs j}"
      using n'(6) node_elems_digit[OF less.prems nl bsdigit_less[of c bs d]] by (auto simp: rng)
    moreover have "\<forall>j. d \<le> j \<and> j < d' \<longrightarrow> j * BitQuantum c < 128"
      using n'(3) I(5) unfolding rng by blast
    ultimately show ?thesis using n'(2,4,5) by (intro exI[of _ n'] exI[of _ d']) simp
  qed
qed

lemma mem_Node_ok:
  assumes "mtree_wf t" "bs_readable (mt_cfg t) bs"
  obtains n d where "mem_Node t bs = Inr n" "\<And>j. j < d \<Longrightarrow> j * BitQuantum (mt_cfg t) < 128" "node_wf (mt_cfg t) (mt_points t) d n"
    "mem_IsLeaf n \<or> bs_BitLen bs \<le> d * BitQuantum (mt_cfg t)"
    "set (mem_Elements n) = {x \<in> mtree_elems t. \<forall>j < d. zdigit (mt_cfg t) x j = bsdigit (mt_cfg t) bs j}"
proof -
  from mem_node_from_ok[OF assms(2) mtree_wfD(3)[OF assms(1)]] show thesis
    using that unfolding mem_Node_def mtree_elems_def by simp blast
qed

lemma zp_bitstring_readable:
  assumes "cfg_ok c" "felem P_SKS z" "NewZpBitstring z = Inr bs"
  shows "bs_readable c bs" "bs_BitLen bs = 129" "\<And>d. d * BitQuantum c < 128 \<Longrightarrow> bsdigit c bs d = zdigit c z d"
proof -
  obtain bs' where b: "NewZpBitstring z = Inr bs'" "bs_wf bs'" "bs_bits bs' = 129"
    "\<And>k. k \<le> 129 \<Longrightarrow> bs_Get bs' (int k) = Inr (if zbit z k then 1 else 0)"
    using zp_bitstring[OF assms(2)] by blast
  from b(1) assms(3) have "bs' = bs" by simp
  note bs' = b[unfolded this]
  have bit: "bs_bit bs k = zbit z k" "bs_Get bs (int k) = Inr (if bs_bit bs k then 1 else 0)" if "k \<le> 129" for k
  proof -
    have "length (bs_buf bs) = 17" using bs'(2,3) by (simp add: bs_wf_def byte_count_def)
    moreover have "k div 8 \<le> 16" using div_le_mono[OF that, of 8] by simp
    ultimately have "k div 8 < length (bs_buf bs)" by linarith
    then show g: "bs_Get bs (int k) = Inr (if bs_bit bs k then 1 else 0)" using that bs'(3) by (intro bs_Get_ok) auto
    show "bs_bit bs k = zbit z k" 
    proof -
      from g bs'(4)[OF that] have "(if bs_bit bs k then 1 else 0) = (if zbit z k then 1 else (0 :: nat))"
        by (simp only: sum.inject)
      then show ?thesis by (cases "bs_bit bs k"; cases "zbit z k") simp_all
    qed
  qed
  have r: "d * BitQuantum c + k \<le> 129" if "d * BitQuantum c < 128" "k < BitQuantum c" for d k
    using cfg_okD(2)[OF assms(1) that(1)] that(2) by linarith
  show "bs_readable c bs" using bit(2) r unfolding bs_readable_def by blast
  show "bs_BitLen bs = 129" using bs'(3) by (simp add: bs_BitLen_def)
  show "bsdigit c bs d = zdigit c z d" if "d * BitQuantum c < 128" for d
    unfolding bsdigit_def zdigit_def using r[OF that] bit(1) by (intro arg_cong[where f = "horner_sum of_bool 2"] map_cong) auto
qed

text \<open>\<open>Find\<close> reaches the leaf where the element is, or would be.\<close>

lemma leaf_reached: "node_wf c points d n \<Longrightarrow> 128 \<le> d * BitQuantum c \<Longrightarrow> mem_IsLeaf n"
  using inner_wfD(5)[of c points d n] by (auto simp: mem_IsLeaf_def)

lemma mem_Find_ok:
  assumes wf: "mtree_wf t" and z: "felem P_SKS z"
  obtains n where "mem_Find t z = Inr n" "mem_IsLeaf n" "z \<in> set (n_elements n) \<longleftrightarrow> z \<in> mtree_elems t"
    "set (n_elements n) \<subseteq> mtree_elems t"
proof -
  note W = mtree_wfD[OF wf]
  let ?c = "mt_cfg t"
  obtain bs where bs: "NewZpBitstring z = Inr bs" using zp_bitstring[OF z] by metis
  note R = zp_bitstring_readable[OF W(1) z bs]
  obtain n d where n: "mem_Node t bs = Inr n" "\<And>j. j < d \<Longrightarrow> j * BitQuantum ?c < 128"
    "node_wf ?c (mt_points t) d n" "mem_IsLeaf n \<or> bs_BitLen bs \<le> d * BitQuantum ?c"
    "set (mem_Elements n) = {x \<in> mtree_elems t. \<forall>j < d. zdigit ?c x j = bsdigit ?c bs j}"
    using mem_Node_ok[OF wf R(1)] by blast
  have leaf: "mem_IsLeaf n" using n(4) R(2) leaf_reached[OF n(3)] by auto
  then have el: "mem_Elements n = n_elements n" by (intro mem_Elements_leaf) (simp add: mem_IsLeaf_def)
  have "z \<in> set (mem_Elements n)" if "z \<in> mtree_elems t"
    using that n(2,5) R(3) by simp
  with n(5) el leaf n(1) bs show thesis by (intro that[of n]) (auto simp: mem_Find_def)
qed

section \<open>The key of a node\<close>

lemma bit_and_one: "drop_bit j (n :: nat) AND 1 = 1 \<longleftrightarrow> bit n j"
  by (simp add: bit_iff_and_drop_bit_eq_1 and.commute)

text \<open>
  \<open>Key\<close> writes the child indices of the path, level by level, into a bitstring from which
  the lookup reads the same digits back.
\<close>

lemma mem_Key_ok:
  assumes "0 < BitQuantum c"
  shows "\<exists>bs. mem_Key c keys = Inr bs \<and> bs_bits bs = length keys * BitQuantum c
    \<and> length (bs_buf bs) = byte_count (length keys * BitQuantum c)
    \<and> (\<forall>i < length keys. \<forall>j < BitQuantum c. bs_bit bs (i * BitQuantum c + j) = bit (keys ! i) j)"
proof -
  let ?q = "BitQuantum c" let ?n = "length keys"
  let ?step = "\<lambda>i j bs. if (drop_bit j (keys ! i)) AND 1 = 1 then bs_Set bs (int (i * ?q + j))
         else bs_Clear bs (int (i * ?q + j))"
  let ?ok = "\<lambda>bs. bs_bits bs = ?n * ?q \<and> length (bs_buf bs) = byte_count (?n * ?q)"
  have pos: "i * ?q + j < ?n * ?q" if "i < ?n" "j < ?q" for i j
  proof -
    have "i * ?q + j < Suc i * ?q" using that by simp
    also have "\<dots> \<le> ?n * ?q" using that by (intro mult_le_mono1) simp
    finally show ?thesis .
  qed
  have step: "\<exists>bs'. ?step i j bs = Inr bs' \<and> ?ok bs'
      \<and> (\<forall>k < ?n * ?q. bs_bit bs' k = (if k = i * ?q + j then bit (keys ! i) j else bs_bit bs k))"
    if "?ok bs" "i < ?n" "j < ?q" for i j bs
  proof -
    have k: "(i * ?q + j) div 8 < length (bs_buf bs)" "i * ?q + j \<le> bs_bits bs"
      using byte_count_index[OF pos[OF that(2,3)]] pos[OF that(2,3)] that(1) by simp_all
    have r: "k div 8 < length (bs_buf bs)" if "k < ?n * ?q" for k
      using byte_count_index[OF that] \<open>?ok bs\<close> by simp
    show ?thesis
    proof (cases "bit (keys ! i) j")
      case True
      then have "?step i j bs = bs_Set bs (int (i * ?q + j))" by (simp only: bit_and_one if_True)
      with True bs_Set_bit[OF k] that(1) r show ?thesis by auto
    next
      case False
      then have "?step i j bs = bs_Clear bs (int (i * ?q + j))" by (simp only: bit_and_one if_False)
      with False bs_Clear_bit[OF k] that(1) r show ?thesis by auto
    qed
  qed
  have inner: "\<exists>bs'. rfold (?step i) [0..<?q] bs = Inr bs' \<and> (?ok bs'
      \<and> (\<forall>k < ?n * ?q. bs_bit bs' k = (if i * ?q \<le> k \<and> k < i * ?q + length [0..<?q] then bit (keys ! i) (k - i * ?q) else bs_bit bs k)))"
    if inn: "?ok bs" "i < ?n" for i bs
  proof (rule rfold_inv)
    fix m bs1
    assume m: "m < length [0..<?q]" and P: "?ok bs1 \<and> (\<forall>k < ?n * ?q. bs_bit bs1 k =
        (if i * ?q \<le> k \<and> k < i * ?q + m then bit (keys ! i) (k - i * ?q) else bs_bit bs k))"
    then obtain bs' where bs': "?step i m bs1 = Inr bs'" "?ok bs'"
      "\<forall>k < ?n * ?q. bs_bit bs' k = (if k = i * ?q + m then bit (keys ! i) m else bs_bit bs1 k)"
      using step[OF _ inn(2), of bs1 m] by auto
    have "[0..<?q] ! m = m" using m by simp
    then show "\<exists>s'. ?step i ([0..<?q] ! m) bs1 = Inr s' \<and> ?ok s' \<and> (\<forall>k < ?n * ?q. bs_bit s' k =
        (if i * ?q \<le> k \<and> k < i * ?q + Suc m then bit (keys ! i) (k - i * ?q) else bs_bit bs k))"
      using bs' P by (intro exI[of _ bs']) auto
  qed (use inn in auto)
  let ?Q = "\<lambda>m bs. ?ok bs \<and> (\<forall>i < ?n. ?n - m \<le> i \<longrightarrow> (\<forall>j < ?q. bs_bit bs (i * ?q + j) = bit (keys ! i) j))"
  have "\<exists>bs. mem_Key c keys = Inr bs \<and> ?Q (length (rev [0..<?n])) bs"
    unfolding mem_Key_def
  proof (rule rfold_inv)
    show "?Q 0 (NewBitstring (?n * ?q))" by (simp add: NewBitstring_buf)
  next
    fix m bs assume m: "m < length (rev [0..<?n])" and P: "?Q m bs"
    let ?i = "?n - Suc m"
    have i: "rev [0..<?n] ! m = ?i" "?i < ?n" using m by (simp_all add: rev_nth)
    from inner[of bs, OF _ i(2)] P obtain bs' where bs': "rfold (?step ?i) [0..<?q] bs = Inr bs'" "?ok bs'"
      "\<forall>k < ?n * ?q. bs_bit bs' k = (if ?i * ?q \<le> k \<and> k < ?i * ?q + ?q then bit (keys ! ?i) (k - ?i * ?q) else bs_bit bs k)"
      by auto
    have "bs_bit bs' (i * ?q + j) = bit (keys ! i) j" if "i < ?n" "?n - Suc m \<le> i" "j < ?q" for i j
    proof (cases "i = ?i")
      case True
      then show ?thesis using bs'(3) pos[OF that(1,3)] that(3) by simp
    next
      case False
      then have "Suc ?i \<le> i" "?n - m \<le> i" using that i m by simp_all
      then have "\<not> i * ?q + j < ?i * ?q + ?q" using mult_le_mono1[of "Suc ?i" i ?q] by simp
      then show ?thesis using bs'(3) pos[OF that(1,3)] P that \<open>?n - m \<le> i\<close> by simp
    qed
    then have "?Q (Suc m) bs'" using bs'(2) by blast
    with bs'(1) show "\<exists>s'. rfold (?step (rev [0..<?n] ! m)) [0..<?q] bs = Inr s' \<and> ?Q (Suc m) s'" unfolding i(1) by blast
  qed
  then show ?thesis by auto
qed

lemma nat_bits_horner:
  assumes "(k :: nat) < 2 ^ q" shows "horner_sum of_bool 2 (map (bit k) [0..<q]) = k"
  using assms by (simp add: horner_sum_bit_eq_take_bit take_bit_nat_eq_self)

lemma mem_Key_digits:
  assumes "0 < BitQuantum c" "\<forall>k \<in> set keys. k < 2 ^ BitQuantum c"
  obtains bs where "mem_Key c keys = Inr bs" "bs_BitLen bs = length keys * BitQuantum c"
    "bs_readable c bs" "\<And>d. d < length keys \<Longrightarrow> bsdigit c bs d = keys ! d"
proof -
  let ?q = "BitQuantum c" let ?n = "length keys"
  obtain bs where bs: "mem_Key c keys = Inr bs" "bs_bits bs = ?n * ?q" "length (bs_buf bs) = byte_count (?n * ?q)"
    "\<And>i j. i < ?n \<Longrightarrow> j < ?q \<Longrightarrow> bs_bit bs (i * ?q + j) = bit (keys ! i) j"
    using mem_Key_ok[OF assms(1), of keys] by blast
  have "bs_Get bs (int (d * ?q + k)) = Inr (if bs_bit bs (d * ?q + k) then 1 else 0)"
    if "d * ?q < ?n * ?q" "k < ?q" for d k
  proof -
    have "d < ?n" using that(1) by simp
    then have "Suc d * ?q \<le> ?n * ?q" by (intro mult_le_mono1) simp
    with that(2) have "d * ?q + k < ?n * ?q" by simp
    with byte_count_index[OF this] bs(2,3) show ?thesis by (intro bs_Get_ok) simp_all
  qed
  then have "bs_readable c bs" using bs(2) unfolding bs_readable_def bs_BitLen_def by metis
  moreover have "bsdigit c bs d = keys ! d" if "d < ?n" for d
  proof -
    have "map (\<lambda>i. bs_bit bs (d * ?q + i)) [0..<?q] = map (bit (keys ! d)) [0..<?q]" using bs(4) that by simp
    then show ?thesis using assms(2) that nat_bits_horner[of "keys ! d" ?q] unfolding bsdigit_def
      by (metis nth_mem)
  qed
  ultimately show thesis using bs(1,2) by (intro that[of bs]) (simp_all add: bs_BitLen_def)
qed

text \<open>The node named by a path of child indices, and the lookup of its key.\<close>

fun node_at :: "nat list \<Rightarrow> mnode \<Rightarrow> mnode option" where
  "node_at [] n = Some n"
| "node_at (k # ks) n = (if k < length (n_children n) then node_at ks (n_children n ! k) else None)"

lemma node_at_keys:
  "node_wf c points d n \<Longrightarrow> node_at ks n = Some m \<Longrightarrow> (\<forall>k \<in> set ks. k < 2 ^ BitQuantum c)"
proof (induction ks arbitrary: n d)
  case (Cons k ks)
  then have k: "k < length (n_children n)" "node_at ks (n_children n ! k) = Some m" by (auto split: if_splits)
  then have "n_children n \<noteq> []" by auto
  from inner_wfD[OF Cons.prems(1) this] k Cons.IH[of "Suc d" "n_children n ! k"] show ?case
    by (auto simp: children_wf_def)
qed simp

lemma mem_node_from_at:
  assumes "bs_readable c bs" "bs_BitLen bs = (d + length ks) * BitQuantum c" "0 < BitQuantum c"
    "\<And>j. j < length ks \<Longrightarrow> bsdigit c bs (d + j) = ks ! j"
    "node_wf c points d n" "node_at ks n = Some m"
  shows "mem_node_from c bs (d * BitQuantum c) n = Inr m"
  using assms(2,4-6)
proof (induction ks arbitrary: n d)
  case Nil
  then show ?case by (subst mem_node_from.simps) simp
next
  case (Cons k ks)
  then have k: "k < length (n_children n)" "node_at ks (n_children n ! k) = Some m" by (auto split: if_splits)
  then have nl: "n_children n \<noteq> []" by auto
  note I = inner_wfD[OF Cons.prems(3) nl]
  have lt: "d * BitQuantum c < bs_BitLen bs" using Cons.prems(1) assms(3) by (simp add: algebra_simps)
  have ci: "node_childIndex c bs (d * BitQuantum c) = Inr k"
    using assms(1) lt I(5) Cons.prems(2)[of 0] node_childIndex_ok[of c bs d] by (simp add: bs_readable_def)
  have "mem_node_from c bs (Suc d * BitQuantum c) (n_children n ! k) = Inr m"
  proof (rule Cons.IH)
    show "node_wf c points (Suc d) (n_children n ! k)" using I(1) k(1) by (simp add: children_wf_def)
    show "bsdigit c bs (Suc d + j) = ks ! j" if "j < length ks" for j
      using Cons.prems(2)[of "Suc j"] that by simp
  qed (use Cons.prems k in simp_all)
  with ci lt nl k(1) show ?case by (subst mem_node_from.simps) (simp add: mem_IsLeaf_def ac_simps)
qed

lemma mem_Node_Key:
  assumes "mtree_wf t" "node_at ks (mt_root t) = Some n"
  obtains bs where "mem_Key (mt_cfg t) ks = Inr bs" "mem_Node t bs = Inr n"
proof -
  note W = mtree_wfD[OF assms(1)]
  have q: "0 < BitQuantum (mt_cfg t)" using W(1) by (simp add: cfg_ok_def)
  obtain bs where "mem_Key (mt_cfg t) ks = Inr bs" "bs_BitLen bs = length ks * BitQuantum (mt_cfg t)"
    "bs_readable (mt_cfg t) bs" "\<And>d. d < length ks \<Longrightarrow> bsdigit (mt_cfg t) bs d = ks ! d"
    using mem_Key_digits[OF q node_at_keys[OF W(3) assms(2)]] by blast
  with mem_node_from_at[of "mt_cfg t" bs 0 ks "mt_points t" "mt_root t" n] W(3) q assms(2) show thesis
    by (intro that[of bs]) (simp_all add: mem_Node_def)
qed

section \<open>Removing an absent element; canonical summaries\<close>

text \<open>Removing an element that is not stored panics: the walk ends in a leaf without it.\<close>

lemma mem_remove_absent:
  assumes cfg: "cfg_ok c" and pts: "points_ok c points" and z: "felem P_SKS z"
    and bs: "NewZpBitstring z = Inr bs" and m: "list_all (felem P_SKS) m" "length m = length points"
  shows "node_wf c points d n \<Longrightarrow> z \<notin> set (mem_Elements n) \<Longrightarrow>
    \<exists>e. mem_remove c points z m bs d n = Inl (Panic e)"
proof (induction n arbitrary: d rule: measure_induct_rule[of size])
  case (less n)
  note wf = less.prems(1)
  note D = node_wfD[OF wf]
  have "list_all (felem P_SKS) (n_svalues n)" using D(2) by (simp add: svals_def list_all_iff)
  then obtain sv where sv: "updateSvalues points m (n_svalues n) = Inr sv"
    using updateSvalues_ok[of points "n_svalues n" m] m D(2) by (simp add: svals_def)
  show ?case
  proof (cases "n_children n \<noteq> [] \<and> int (JoinThreshold c) < n_num n - 1")
    case True
    then have nl: "n_children n \<noteq> []" by simp
    note I = inner_wfD[OF wf nl]
    let ?k = "zdigit c z d"
    have k: "?k < length (n_children n)" using I(2) zdigit_less by simp
    have "z \<notin> set (mem_Elements (n_children n ! ?k))"
      using less.prems(2) k unfolding I(3) child_elems_set by blast
    moreover have "node_wf c points (Suc d) (n_children n ! ?k)" using I(1) k by (simp add: children_wf_def)
    moreover have "size (n_children n ! ?k) < size n" using k by (intro mnode_child_size) simp
    ultimately obtain e where "mem_remove c points z m bs (Suc d) (n_children n ! ?k) = Inl (Panic e)"
      using less.IH by blast
    then show ?thesis using NextChild_ok[OF z bs cfg_okD(2)[OF cfg I(5)]] sv True k
      by (subst mem_remove.simps) (simp add: Let_def mem_IsLeaf_def)
  next
    case False
    let ?es = "if n_children n = [] then n_elements n else join_loop (n_children n) (n_elements n)"
    have "set ?es = set (mem_Elements n)"
    proof (cases "n_children n = []")
      case nl: False
      have "\<forall>x \<in> set (n_children n). \<exists>d. node_wf c points d x" using D(7) by (metis in_set_conv_nth)
      from mset_eq_setD[of "join_loop (n_children n) (n_elements n)" "mem_Elements n"]
        join_loop_mset[OF this] inner_wfD(3,4)[OF wf nl] nl show ?thesis by simp
    qed (simp add: mem_Elements_leaf)
    then have "withRemoved ?es z = Inl (Panic (PMsg ''Remove non-existent element from node''))"
      using less.prems(2) D(4) by (subst withRemoved_ok[OF z]) auto
    then show ?thesis using sv False
      by (subst mem_remove.simps) (cases "n_children n = []"; simp add: Let_def mem_IsLeaf_def mem_join_def)
  qed
qed

lemma mem_Remove_panics:
  assumes wf: "mtree_wf t" and z: "felem P_SKS z" "z \<notin> mtree_elems t"
  shows "\<exists>e. mem_Remove z t = Inl (Panic e)"
proof -
  note W = mtree_wfD[OF wf]
  obtain bs where bs: "NewZpBitstring z = Inr bs" using zp_bitstring[OF z(1)] by metis
  have "list_all (felem P_SKS) (del_marray (mt_points t) z)" by (simp add: list_all_iff)
  from mem_remove_absent[OF W(1,2) z(1) bs this _ W(3)] z(2)
  show ?thesis using bs DelElementArray_ok[OF W(8) z(1)] by (auto simp: mem_Remove_def mtree_elems_def)
qed

text \<open>
  The summary a tree gives of itself depends on the set of its elements and the sample
  points only, not on the history of insertions and removals.
\<close>

lemma node_summary_canonical:
  assumes "node_wf c points d n" "node_wf c' points d' n'" "set (mem_Elements n) = set (mem_Elements n')"
  shows "n_svalues n = n_svalues n'" "n_num n = n_num n'"
proof -
  have "mset (mem_Elements n) = mset (mem_Elements n')"
    using assms(3) node_wfD(3)[OF assms(1)] node_wfD(3)[OF assms(2)] set_eq_iff_mset_eq_distinct by blast
  then show "n_svalues n = n_svalues n'" "n_num n = n_num n'"
    using node_wfD(1,2)[OF assms(1)] node_wfD(1,2)[OF assms(2)] svals_mset mset_eq_length by metis+
qed

section \<open>Histories of a tree\<close>

datatype tree_op = InsertOp zp | RemoveOp zp

fun op_elem :: "tree_op \<Rightarrow> zp" where
  "op_elem (InsertOp z) = z"
| "op_elem (RemoveOp z) = z"

fun op_set :: "tree_op \<Rightarrow> zp set \<Rightarrow> zp set" where
  "op_set (InsertOp z) S = insert z S"
| "op_set (RemoveOp z) S = S - {z}"

text \<open>The operation itself; a history runs until the first error.\<close>

fun run_op :: "tree_op \<Rightarrow> mtree \<Rightarrow> mtree res" where
  "run_op (InsertOp z) t = mem_Insert z t"
| "run_op (RemoveOp z) t = mem_Remove z t"

lemma run_op_set:
  assumes "run_op p t = Inr t'" "mtree_wf t" "felem P_SKS (op_elem p)"
  shows "mtree_wf t' \<and> mtree_elems t' = op_set p (mtree_elems t) \<and> mt_points t' = mt_points t"
proof (cases p)
  case (InsertOp z)
  with assms have "z \<notin> mtree_elems t" "z \<notin> set (mt_points t)"
    using mem_Insert_duplicate[OF assms(2)] mem_Insert_point[OF assms(2)] by auto
  from mem_Insert_new[OF assms(2) _ this] assms(1,3) InsertOp show ?thesis by force
next
  case (RemoveOp z)
  with assms have "z \<in> mtree_elems t" using mem_Remove_panics[OF assms(2)] by fastforce
  from mem_Remove_present[OF assms(2) this] assms(1) RemoveOp show ?thesis by force
qed

lemma run_ops_set:
  "rfold run_op ops t = Inr t' \<Longrightarrow> mtree_wf t \<Longrightarrow> \<forall>p \<in> set ops. felem P_SKS (op_elem p) \<Longrightarrow>
    mtree_wf t' \<and> mtree_elems t' = fold op_set ops (mtree_elems t) \<and> mt_points t' = mt_points t"
proof (induction ops arbitrary: t)
  case (Cons p ops)
  from Cons.prems(1) obtain t1 where t1: "run_op p t = Inr t1" "rfold run_op ops t1 = Inr t'" by (auto simp: rbind_Inr_iff)
  with run_op_set[OF t1(1) Cons.prems(2)] Cons.IH[OF t1(2)] Cons.prems(3) show ?case by simp
qed simp

lemma mem_Size_card:
  assumes "mtree_wf t"
  shows "mem_Size (mt_root t) = int (card (mtree_elems t))"
  using node_wfD(1,3)[OF mtree_wfD(3)[OF assms]] by (simp add: mem_Size_def mtree_elems_def distinct_card)

lemma mem_Init_points:
  assumes "mem_Init s = Inr t" "mem_Init s' = Inr u"
  shows "mt_points t = mt_points u"
  using assms by (auto simp: mem_Init_def Let_def rbind_Inr_iff mem_Create_def)

end
