(* ===== verification/MessageSpec.thy ===== *)
theory MessageSpec
  imports Messages PTreeInv
begin

text \<open>
  The wire format reads back what was written, and reading any bytes at all yields a
  well-formed message or an error, never a panic.
\<close>

section \<open>Codecs\<close>

text \<open>
  A value and its encoding, read back from the front of any input: the contract of every
  reader and writer pair of the protocol.
\<close>

fun read_many :: "(byte list \<Rightarrow> ('a \<times> byte list) res) \<Rightarrow> nat \<Rightarrow> byte list \<Rightarrow> ('a list \<times> byte list) res" where
  "read_many rd 0 r = Inr ([], r)"
| "read_many rd (Suc n) r = rbind (rd r) (\<lambda>(z, r). rbind (read_many rd n r) (\<lambda>(zs, r). Inr (z # zs, r)))"

locale codec =
  fixes enc :: "'a \<Rightarrow> byte list"
    and dec :: "byte list \<Rightarrow> ('b \<times> byte list) res"
    and val :: "'a \<Rightarrow> 'b"
    and ok :: "'a \<Rightarrow> bool"
  assumes dec_enc: "ok x \<Longrightarrow> dec (enc x @ r) = Inr (val x, r)"
begin

lemma read_all: "ok x \<Longrightarrow> dec (enc x) = Inr (val x, [])"
  using dec_enc[of x "[]"] by simp

lemma unambiguous:
  assumes "ok x" "ok y" "enc x @ r = enc y @ s"
  shows "val x = val y \<and> r = s"
  using dec_enc[OF assms(1), of r] dec_enc[OF assms(2), of s] assms(3) by simp

lemma many: "list_all ok xs \<Longrightarrow> read_many dec (length xs) (concat (map enc xs) @ r) = Inr (map val xs, r)"
  by (induction xs) (simp_all add: dec_enc)

end

section \<open>Integers and strings\<close>

lemma ReadFull_append [wire]: "length b = n \<Longrightarrow> ReadFull n (b @ r) = Inr (b, r)"
  by (simp add: ReadFull_def)

lemma WriteInt_length [simp]: "length (WriteInt n) = 4"
  by (simp add: WriteInt_def Let_def)

lemma be4_value:
  assumes "u < 2 ^ 32"
  shows "le_value (rev [of_nat (u div 2 ^ 24), of_nat (u div 2 ^ 16), of_nat (u div 2 ^ 8), of_nat u :: byte]) = u"
proof -
  define x where "x = u div 2 ^ 8"
  define y where "y = x div 256"
  define w where "w = y div 256"
  have e: "u div 2 ^ 16 = y" "u div 2 ^ 24 = w" by (simp_all add: x_def y_def w_def div_mult2_eq[symmetric])
  have "u div 2 ^ 24 < 256" using assms by (simp add: less_mult_imp_div_less)
  then have "w < 256" unfolding e .
  moreover have "u = x * 256 + u mod 256" "x = y * 256 + x mod 256" "y = w * 256 + y mod 256"
    by (simp_all only: x_def y_def w_def div_mult_mod_eq power_numeral) simp
  ultimately show ?thesis unfolding e x_def[symmetric] by (simp add: unat_of_nat_byte)
qed

lemma ReadInt_WriteInt_mod: "ReadInt (WriteInt n @ r) = Inr (n mod 2 ^ 32, r)"
proof -
  have "nat (n mod 2 ^ 32) < 2 ^ 32" by (simp add: nat_less_iff)
  from be4_value[OF this] show ?thesis
    by (simp add: ReadInt_def WriteInt_def Let_def ReadFull_def)
qed

definition u32 :: "int \<Rightarrow> bool" where
  "u32 n \<longleftrightarrow> 0 \<le> n \<and> n < 2 ^ 32"

definition len_ok :: "int \<Rightarrow> bool" where
  "len_ok n \<longleftrightarrow> 0 \<le> n \<and> n \<le> maxReadLen"

interpretation int_codec: codec WriteInt ReadInt id u32
  by unfold_locales (simp add: ReadInt_WriteInt_mod u32_def)

interpretation len_codec: codec WriteInt ReadLen id len_ok
  by unfold_locales (simp add: ReadLen_def ReadInt_WriteInt_mod len_ok_def maxReadLen_def)

lemmas int_wire [wire] = int_codec.dec_enc[simplified] len_codec.dec_enc[simplified]

lemma str_bytes_length [simp]: "length (str_bytes s) = length s"
  by (simp add: str_bytes_def)

lemma str_bytes_Nil: "str_bytes [] = []"
  by (simp add: str_bytes_def)

lemma bytes_str_bytes [simp]: "bytes_str (str_bytes s) = s"
proof -
  have "char_of (unat (of_nat (of_char c) :: byte)) = c" for c :: char
  proof -
    have "(of_char c :: nat) < 256" by simp
    then show ?thesis by (simp add: unat_of_nat_byte)
  qed
  then show ?thesis by (simp add: str_bytes_def bytes_str_def comp_def map_idI)
qed

definition str_ok :: "string \<Rightarrow> bool" where
  "str_ok s \<longleftrightarrow> int (length s) \<le> maxReadLen"

interpretation str_codec: codec WriteString ReadString id str_ok
proof
  fix s r assume "str_ok s"
  then have "len_ok (int (length s))" by (simp add: str_ok_def len_ok_def)
  then show "ReadString (WriteString s @ r) = Inr (id s, r)"
    by (cases "s = []") (simp_all add: ReadString_def WriteString_def wire str_bytes_Nil)
qed

lemmas str_wire [wire] = str_codec.dec_enc[simplified]

section \<open>Bitstrings\<close>

lemma bs_wf_eqI:
  assumes "bs_wf a" "bs_wf b" "bs_bits a = bs_bits b" "\<And>k. k < 8 * byte_count (bs_bits a) \<Longrightarrow> bs_bit a k = bs_bit b k"
  shows "a = b"
proof -
  have len: "length (bs_buf a) = byte_count (bs_bits a)" "length (bs_buf b) = byte_count (bs_bits a)"
    using assms(1-3) by (auto simp: bs_wf_def)
  have "bs_buf a ! i = bs_buf b ! i" if "i < byte_count (bs_bits a)" for i
  proof (rule bit_word_eqI)
    fix n assume "n < LENGTH(8)"
    then have n: "n < 8" by simp
    have "8 * i + (7 - n) < 8 * byte_count (bs_bits a)" using that n by linarith
    moreover have "(8 * i + m) div 8 = i" "(8 * i + m) mod 8 = m" if "m < 8" for m using that by simp_all
    from this[of "7 - n"] have "(8 * i + (7 - n)) div 8 = i" "(8 * i + (7 - n)) mod 8 = 7 - n" by simp_all
    ultimately show "bit (bs_buf a ! i) n = bit (bs_buf b ! i) n"
      using assms(4)[of "8 * i + (7 - n)"] n by (simp add: bs_bit_def)
  qed
  then have "bs_buf a = bs_buf b" using len by (intro nth_equalityI) auto
  with assms(3) show ?thesis by (cases a; cases b) simp
qed

lemma bs_wf_padding:
  assumes "bs_wf bs" "k < 8 * byte_count (bs_bits bs)" "bs_bits bs \<le> k"
  shows "\<not> bs_bit bs k"
proof -
  let ?n = "bs_bits bs"
  have n: "?n mod 8 \<noteq> 0" using assms(2,3) by (auto simp: byte_count_eq split: if_splits)
  then have "k < 8 * (?n div 8) + 8" using assms(2) by (simp add: byte_count_eq)
  then have eq: "k div 8 = ?n div 8" using div_le_mono[OF assms(3), of 8] by linarith
  have eq2: "?n mod 8 \<le> k mod 8"
    using eq assms(3) div_mult_mod_eq[of k 8] div_mult_mod_eq[of ?n 8] by linarith
  have "\<not> bit (bs_buf bs ! (?n div 8) AND pad_mask (?n mod 8)) (7 - k mod 8)"
    using assms(1) n by (simp add: bs_wf_def)
  moreover have "7 - k mod 8 < 8 - ?n mod 8" using eq2 mod_less_divisor[of 8 k] by linarith
  ultimately show ?thesis using eq by (simp add: bs_bit_def bit_and_iff pad_mask_bit)
qed

lemma bs_SetBytes_buf:
  assumes "bs_wf bs"
  shows "bs_SetBytes (NewBitstring (bs_bits bs)) (bs_buf bs) = Inr bs"
proof -
  let ?n = "bs_bits bs"
  have len: "length (bs_buf bs) = byte_count ?n" using assms by (simp add: bs_wf_def)
  from bs_SetBytes_ok[of "NewBitstring ?n" "bs_buf bs"] obtain bs' where
    bs': "bs_SetBytes (NewBitstring ?n) (bs_buf bs) = Inr bs'" "bs_wf bs'" "bs_bits bs' = ?n"
    "\<And>k. k < 8 * byte_count ?n \<Longrightarrow> bs_bit bs' k \<longleftrightarrow>
          k < ?n \<and> k div 8 < byte_count ?n \<and> bit (bs_buf bs ! (k div 8)) (7 - k mod 8)"
    by (auto simp: NewBitstring_buf len)
  have "bs' = bs"
  proof (rule bs_wf_eqI[OF bs'(2) assms bs'(3)])
    fix k assume "k < 8 * byte_count (bs_bits bs')"
    with bs' have k: "k < 8 * byte_count ?n" by simp
    then have "k div 8 < byte_count ?n" by (simp add: less_mult_imp_div_less mult.commute)
    with bs'(4)[OF k] bs_wf_padding[OF assms k] show "bs_bit bs' k = bs_bit bs k"
      by (auto simp: bs_bit_def not_le)
  qed
  with bs'(1) show ?thesis by simp
qed

definition bs_ok :: "bitstring \<Rightarrow> bool" where
  "bs_ok bs \<longleftrightarrow> bs_wf bs \<and> u32 (int (bs_bits bs)) \<and> len_ok (int (length (bs_buf bs)))"

interpretation bs_codec: codec WriteBitstring ReadBitstring id bs_ok
proof
  fix bs r assume a: "bs_ok bs"
  show "ReadBitstring (WriteBitstring bs @ r) = Inr (id bs, r)"
  proof (cases "bs_bits bs = 0")
    case True
    with a have "bs = NewBitstring 0" "bs_buf bs = []" by (cases bs; auto simp: bs_ok_def bs_wf_def byte_count_def NewBitstring_def)+
    with a True show ?thesis
      by (simp add: bs_ok_def ReadBitstring_def WriteBitstring_def bs_BitLen_def bs_Bytes_def wire)
  next
    case False
    with a bs_SetBytes_buf[of bs] show ?thesis
      by (simp add: bs_ok_def ReadBitstring_def WriteBitstring_def bs_BitLen_def bs_Bytes_def wire)
  qed
qed

lemmas bs_wire [wire] = bs_codec.dec_enc[simplified]

section \<open>Field elements and sets\<close>

lemma SksZpNbytes_eq: "SksZpNbytes = 17"
  by (simp add: SksZpNbytes_def P_SKS_BitLen)

lemma PadSksElement_eq: "PadSksElement zb = zb @ replicate (SksZpNbytes - length zb) 0"
proof (induction zb rule: PadSksElement.induct)
  case (1 zb)
  show ?case
  proof (cases "length zb < SksZpNbytes")
    case True
    then have "SksZpNbytes - length zb = Suc (SksZpNbytes - Suc (length zb))" by simp
    with 1[OF True] True show ?thesis by (subst PadSksElement.simps) simp
  next
    case False
    then show ?thesis by (subst PadSksElement.simps) simp
  qed
qed

lemma WriteZp_length:
  assumes "felem P_SKS z" shows "length (WriteZp z) = SksZpNbytes"
proof -
  have "nat (zp_i z) < 256 ^ 17" using assms by (auto simp: felem_def P_SKS_def)
  from le_bytes_length_le[OF this] assms show ?thesis
    by (auto simp: WriteZp_def Let_def zp_Bytes_le felem_def SksZpNbytes_eq)
qed

lemma WriteZp_value: "felem P_SKS z \<Longrightarrow> le_value (WriteZp z) = nat (zp_i z)"
  by (simp add: WriteZp_def Let_def zp_Bytes_le felem_def le_value_append)

lemma ReadZp_bytes:
  "length b = SksZpNbytes \<Longrightarrow> ReadZp (b @ r) = Inr (zmk P_SKS (int (le_value b)), r)"
proof -
  assume b: "length b = SksZpNbytes"
  have "zp_SetBytes \<lparr>zp_i = 0, zp_p = Some P_SKS\<rparr> b = Inr (zmk P_SKS (int (le_value b)))"
    by (simp add: zp_SetBytes_ok)
  moreover have "zp_Norm (zmk P_SKS (int (le_value b))) = Inr (zmk P_SKS (int (le_value b)))"
    by (rule zp_Norm_felem[of P_SKS]) simp
  ultimately show ?thesis using b by (simp add: ReadZp_def wire zp_In_def)
qed

interpretation zp_codec: codec WriteZp ReadZp id "felem P_SKS"
proof
  fix z r assume z: "felem P_SKS z"
  show "ReadZp (WriteZp z @ r) = Inr (id z, r)"
    using ReadZp_bytes[OF WriteZp_length[OF z]] WriteZp_value[OF z] z felem_eq_zmk[OF z]
    by (simp add: felem_def)
qed

lemma read_elems_many: "read_elems n r = read_many ReadZp n r"
  by (induction n arbitrary: r) simp_all

definition arr_ok :: "zp list \<Rightarrow> bool" where
  "arr_ok arr \<longleftrightarrow> list_all (felem P_SKS) arr \<and> int (length arr) * int SksZpNbytes \<le> maxReadLen"

interpretation arr_codec: codec WriteZZarray ReadZZarray id arr_ok
proof
  fix arr r assume a: "arr_ok arr"
  then have "u32 (int (length arr))" by (simp add: arr_ok_def u32_def SksZpNbytes_eq maxReadLen_def)
  with a zp_codec.many[of arr r] show "ReadZZarray (WriteZZarray arr @ r) = Inr (id arr, r)"
    by (simp add: ReadZZarray_def WriteZZarray_def wire arr_ok_def read_elems_many)
qed

lemmas arr_wire [wire] = arr_codec.dec_enc[simplified]

text \<open>A set is read back with its elements in the order they were written.\<close>

definition zset_norm :: "zset \<Rightarrow> zset" where
  "zset_norm zs = (if zs_s zs = [] then zset_empty else zs)"

definition zset_ok :: "zset \<Rightarrow> bool" where
  "zset_ok zs \<longleftrightarrow> zset_in P_SKS zs \<and> int (zset_Len zs) * int SksZpNbytes \<le> maxReadLen"

lemma AList_update_new: "k \<notin> fst ` set xs \<Longrightarrow> AList.update k v xs = xs @ [(k, v)]"
  by (induction xs) auto

lemma AddSlice_items:
  "distinct (map fst (ys @ xs)) \<Longrightarrow> \<forall>(k, v) \<in> set xs. k = dec_string v \<Longrightarrow> zset_in P_SKS \<lparr>zs_s = ys @ xs, zs_p = Some P_SKS\<rparr> \<Longrightarrow>
   rfold zset_Add (map (\<lambda>(_, v). \<lparr>zp_i = v, zp_p = Some P_SKS\<rparr>) xs) \<lparr>zs_s = ys, zs_p = if ys = [] then None else Some P_SKS\<rparr>
    = Inr \<lparr>zs_s = ys @ xs, zs_p = if ys @ xs = [] then None else Some P_SKS\<rparr>"
proof (induction xs arbitrary: ys)
  case (Cons x xs)
  obtain k v where x: "x = (k, v)" by (cases x)
  with Cons.prems have k: "k = dec_string v" "k \<notin> fst ` set ys" by auto
  have "zset_Add \<lparr>zp_i = v, zp_p = Some P_SKS\<rparr> \<lparr>zs_s = ys, zs_p = if ys = [] then None else Some P_SKS\<rparr>
      = Inr \<lparr>zs_s = ys @ [(k, v)], zs_p = Some P_SKS\<rparr>"
    using k AList_update_new[OF k(2)] by (simp add: zset_Add_def zp_assertP_def zp_String_def)
  with Cons.IH[of "ys @ [(k, v)]"] Cons.prems x show ?case by simp
qed simp

lemma zset_Items_read:
  assumes "zset_in P_SKS zs"
  shows "zset_AddSlice (zset_Items zs) zset_empty = Inr (zset_norm zs)"
proof (cases "zs_s zs = []")
  case True
  then show ?thesis by (simp add: zset_AddSlice_def zset_Items_def zset_norm_def)
next
  case False
  with assms have p: "zs_p zs = Some P_SKS" by (simp add: zset_in_def)
  have "zs = \<lparr>zs_s = [] @ zs_s zs, zs_p = Some P_SKS\<rparr>" using p by (cases zs) simp
  with AddSlice_items[of "[]" "zs_s zs"] assms False p show ?thesis
    by (auto simp: zset_AddSlice_def zset_Items_def zset_norm_def zset_empty_def zset_in_def split_def)
qed

lemma zset_Items_length [simp]: "length (zset_Items zs) = zset_Len zs"
  by (simp add: zset_Items_def zset_Len_def)

interpretation zset_codec: codec WriteZSet ReadZSet zset_norm zset_ok
proof
  fix zs r assume a: "zset_ok zs"
  then have "arr_ok (zset_Items zs)" using zset_Items_felem by (auto simp: zset_ok_def arr_ok_def)
  with a zset_Items_read[of zs] show "ReadZSet (WriteZSet zs @ r) = Inr (zset_norm zs, r)"
    by (simp add: ReadZSet_def WriteZSet_def wire zset_ok_def)
qed

lemmas zset_wire [wire] = zset_codec.dec_enc

section \<open>Configuration\<close>

abbreviation reserved_keys :: "string set" where
  "reserved_keys \<equiv> {''version'', ''http port'', ''bitquantum'', ''mbar'', ''filters''}"

definition custom_ok :: "(string \<times> string) list \<Rightarrow> bool" where
  "custom_ok cs \<longleftrightarrow> distinct (map fst cs)
     \<and> list_all (\<lambda>(k, v). str_ok k \<and> str_ok v \<and> k \<notin> reserved_keys) cs"

definition config_ok :: "config \<Rightarrow> bool" where
  "config_ok c \<longleftrightarrow> str_ok (cf_Version c) \<and> str_ok (cf_Filters c) \<and> u32 (cf_HTTPPort c)
     \<and> u32 (cf_BitQuantum c) \<and> u32 (cf_MBar c) \<and> custom_ok (cf_Custom c)
     \<and> len_ok (int (5 + length (cf_Custom c)))"

lemma short_str_ok: "length s \<le> 100 \<Longrightarrow> str_ok s"
  by (simp add: str_ok_def maxReadLen_def)

lemma read_int_value_wire [wire]: "u32 n \<Longrightarrow> read_int_value (WriteInt 4 @ WriteInt n @ r) = Inr (n, r)"
  by (simp add: read_int_value_def wire len_ok_def maxReadLen_def)

lemma config_entry_int:
  assumes "k \<in> {''http port'', ''bitquantum'', ''mbar''}" "u32 n"
  shows "config_entry c (WriteString k @ WriteInt 4 @ WriteInt n @ r)
    = Inr (if k = ''http port'' then c\<lparr>cf_HTTPPort := n\<rparr>
            else if k = ''bitquantum'' then c\<lparr>cf_BitQuantum := n\<rparr> else c\<lparr>cf_MBar := n\<rparr>, r)"
proof -
  have "str_ok k" using assms(1) by (intro short_str_ok) auto
  with assms show ?thesis by (auto simp: config_entry_def wire)
qed

lemma config_entry_str:
  assumes "k \<notin> {''http port'', ''bitquantum'', ''mbar''}" "str_ok k" "str_ok v"
  shows "config_entry c (WriteString k @ WriteString v @ r)
    = Inr (if k = ''version'' then c\<lparr>cf_Version := v\<rparr>
            else if k = ''filters'' then c\<lparr>cf_Filters := v\<rparr>
            else c\<lparr>cf_Custom := AList.update k v (cf_Custom c)\<rparr>, r)"
  using assms by (simp add: config_entry_def wire)

lemma config_entries_custom:
  assumes "custom_ok (cf_Custom c @ cs)"
  shows "config_entries (length cs) c (concat (map (\<lambda>(k, v). WriteString k @ WriteString v) cs) @ r)
    = Inr (c\<lparr>cf_Custom := cf_Custom c @ cs\<rparr>, r)"
  using assms
proof (induction cs arbitrary: c)
  case (Cons kv cs)
  obtain k v where kv: "kv = (k, v)" by (cases kv)
  with Cons.prems have k: "k \<notin> fst ` set (cf_Custom c)" "k \<notin> reserved_keys" "str_ok k" "str_ok v"
    by (auto simp: custom_ok_def)
  then have e: "config_entry c (WriteString k @ WriteString v @ r') = Inr (c\<lparr>cf_Custom := cf_Custom c @ [(k, v)]\<rparr>, r')" for r'
    using config_entry_str[of k v c r'] AList_update_new[OF k(1)] by simp
  have "custom_ok (cf_Custom (c\<lparr>cf_Custom := cf_Custom c @ [(k, v)]\<rparr>) @ cs)" using Cons.prems kv by simp
  from Cons.IH[OF this] show ?case by (simp add: kv e)
qed simp

lemma config_entries_fixed:
  assumes "u32 h" "u32 b" "u32 m" "str_ok ver" "str_ok f"
  shows "config_entries (5 + n) empty_config
     (WriteString ''version'' @ WriteString ver @ WriteString ''http port'' @ WriteInt 4 @ WriteInt h
     @ WriteString ''bitquantum'' @ WriteInt 4 @ WriteInt b @ WriteString ''mbar'' @ WriteInt 4 @ WriteInt m
     @ WriteString ''filters'' @ WriteString f @ r)
   = config_entries n \<lparr>cf_Version = ver, cf_HTTPPort = h, cf_BitQuantum = b, cf_MBar = m, cf_Filters = f, cf_Custom = []\<rparr> r"
proof -
  have five: "5 + n = Suc (Suc (Suc (Suc (Suc n))))" by simp
  note e = config_entry_str[of "''version''"] config_entry_str[of "''filters''"]
    config_entry_int[of "''http port''"] config_entry_int[of "''bitquantum''"] config_entry_int[of "''mbar''"]
  show ?thesis unfolding five using assms by (simp add: e short_str_ok empty_config_def)
qed

interpretation config_codec: codec config_marshal config_unmarshal id config_ok
proof
  fix c r assume a: "config_ok c"
  let ?c = "\<lparr>cf_Version = cf_Version c, cf_HTTPPort = cf_HTTPPort c, cf_BitQuantum = cf_BitQuantum c,
    cf_MBar = cf_MBar c, cf_Filters = cf_Filters c, cf_Custom = []\<rparr>"
  have "config_entries (length (cf_Custom c)) ?c (concat (map (\<lambda>(k, v). WriteString k @ WriteString v) (cf_Custom c)) @ r)
      = Inr (c, r)"
    using config_entries_custom[of ?c "cf_Custom c" r] a by (simp add: config_ok_def)
  moreover have "len_ok (int (5 + length (cf_Custom c)))" using a by (simp add: config_ok_def)
  moreover have "nat (int (5 + length (cf_Custom c))) = 5 + length (cf_Custom c)" by (rule nat_int)
  ultimately show "config_unmarshal (config_marshal c @ r) = Inr (id c, r)"
    using a config_entries_fixed[of "cf_HTTPPort c" "cf_BitQuantum c" "cf_MBar c" "cf_Version c" "cf_Filters c"]
    unfolding config_unmarshal_def config_marshal_def config_ok_def append_assoc
    by (simp only: int_wire rbind_simps prod.case id_apply)
qed

lemmas config_wire [wire] = config_codec.dec_enc[simplified]

section \<open>Messages\<close>

text \<open>What a message may hold so that its encoding is within the limits of the reader.\<close>

fun body_ok :: "msg \<Rightarrow> bool" where
  "body_ok (ReconRqstPoly pre sz samples) \<longleftrightarrow> bs_ok pre \<and> len_ok sz \<and> arr_ok samples"
| "body_ok (ReconRqstFull pre els) \<longleftrightarrow> bs_ok pre \<and> zset_ok els"
| "body_ok (Elements zs) \<longleftrightarrow> zset_ok zs"
| "body_ok (FullElements zs) \<longleftrightarrow> zset_ok zs"
| "body_ok (Error t) \<longleftrightarrow> str_ok t"
| "body_ok (DbRqst t) \<longleftrightarrow> str_ok t"
| "body_ok (DbRepl t) \<longleftrightarrow> str_ok t"
| "body_ok (Config c) \<longleftrightarrow> config_ok c"
| "body_ok _ \<longleftrightarrow> True"

definition msg_ok :: "msg \<Rightarrow> bool" where
  "msg_ok m \<longleftrightarrow> body_ok m \<and> len_ok (int (Suc (length (marshal m))))"

fun msg_norm :: "msg \<Rightarrow> msg" where
  "msg_norm (ReconRqstFull pre els) = ReconRqstFull pre (zset_norm els)"
| "msg_norm (Elements zs) = Elements (zset_norm zs)"
| "msg_norm (FullElements zs) = FullElements (zset_norm zs)"
| "msg_norm m = m"

lemma unmarshal_marshal:
  "body_ok m \<Longrightarrow> unmarshal (MsgType m) (marshal m @ r) = Inr (msg_norm m, r)"
  by (cases m) (simp_all add: unmarshal_def poly_unmarshal_def full_unmarshal_def map_read_def wire)

lemma ReadMsg_WriteMsgDirect:
  assumes "msg_ok m"
  shows "ReadMsg (WriteMsgDirect m @ r) = Inr (msg_norm m, r)"
proof -
  let ?data = "MsgType m # marshal m"
  have "ReadFull 1 ?data = Inr ([MsgType m], marshal m)" by (simp add: ReadFull_def)
  moreover have "ReadFull (length ?data) (?data @ r) = Inr (?data, r)" by (rule ReadFull_append) simp
  moreover have "len_ok (int (length ?data))" "body_ok m" using assms by (simp_all add: msg_ok_def)
  ultimately show ?thesis
    using unmarshal_marshal[of m "[]"] int_wire(2)[of "int (length ?data)" "?data @ r"]
    unfolding ReadMsg_def WriteMsgDirect_def Let_def append_assoc
    by (simp only: rbind_simps prod.case nat_int list.sel append_Nil2)
qed

interpretation msg_codec: codec WriteMsgDirect ReadMsg msg_norm msg_ok
  by unfold_locales (rule ReadMsg_WriteMsgDirect)

lemma WriteMsg_read:
  "list_all msg_ok ms \<Longrightarrow> read_many ReadMsg (length ms) (WriteMsg ms @ r) = Inr (map msg_norm ms, r)"
  unfolding WriteMsg_def by (rule msg_codec.many)

section \<open>Reading arbitrary bytes\<close>

text \<open>
  A robust reader never panics: on any input it consumes a prefix and returns a value with
  property \<open>P\<close>, or it returns an error.
\<close>

definition robust :: "(byte list \<Rightarrow> ('a \<times> byte list) res) \<Rightarrow> ('a \<Rightarrow> bool) \<Rightarrow> bool" where
  "robust rd P \<longleftrightarrow> (\<forall>r. (\<exists>e. rd r = Inl (Err e))
     \<or> (\<exists>x used r'. rd r = Inr (x, r') \<and> r = used @ r' \<and> P x))"

lemma robustI:
  "(\<And>r. (\<exists>e. rd r = Inl (Err e)) \<or> (\<exists>x used r'. rd r = Inr (x, r') \<and> r = used @ r' \<and> P x)) \<Longrightarrow> robust rd P"
  by (simp add: robust_def)

lemma robust_bind:
  assumes "robust rd P" "\<And>x. P x \<Longrightarrow> robust (f x) Q"
  shows "robust (\<lambda>r. rbind (rd r) (\<lambda>(x, r). f x r)) Q"
proof (rule robustI)
  fix r
  from assms(1) consider (err) e where "rd r = Inl (Err e)"
    | (ok) x used r' where "rd r = Inr (x, r')" "r = used @ r'" "P x" unfolding robust_def by blast
  then show "(\<exists>e. rbind (rd r) (\<lambda>(x, r). f x r) = Inl (Err e))
      \<or> (\<exists>x used r'. rbind (rd r) (\<lambda>(x, r). f x r) = Inr (x, r') \<and> r = used @ r' \<and> Q x)"
  proof cases
    case (ok x used r')
    from assms(2)[OF ok(3)] have "(\<exists>e. f x r' = Inl (Err e)) \<or> (\<exists>y u s. f x r' = Inr (y, s) \<and> r' = u @ s \<and> Q y)"
      unfolding robust_def by blast
    with ok(1,2) show ?thesis by auto
  qed simp
qed

lemma robust_return: "P x \<Longrightarrow> robust (\<lambda>r. Inr (x, r)) P"
  by (auto simp: robust_def)

lemma robust_pure: "y = Inr x \<Longrightarrow> P x \<Longrightarrow> robust (\<lambda>r. rbind y (\<lambda>x. Inr (x, r))) P"
  by (auto simp: robust_def)

lemma robust_err: "robust (\<lambda>r. Inl (Err e)) P"
  by (auto simp: robust_def)

lemma robust_if: "(b \<Longrightarrow> robust f P) \<Longrightarrow> (\<not> b \<Longrightarrow> robust g P) \<Longrightarrow> robust (\<lambda>r. if b then f r else g r) P"
  by (cases b) simp_all

lemma robust_mono: "robust rd P \<Longrightarrow> (\<And>x. P x \<Longrightarrow> Q x) \<Longrightarrow> robust rd Q"
  unfolding robust_def by blast

lemma robust_map: "robust rd P \<Longrightarrow> (\<And>x. P x \<Longrightarrow> Q (f x)) \<Longrightarrow> robust (\<lambda>r. map_read f (rd r)) Q"
  unfolding map_read_def by (erule robust_bind) (rule robust_return)

lemma robust_ReadFull: "robust (ReadFull n) (\<lambda>b. length b = n)"
proof (rule robustI)
  fix r :: "byte list"
  show "(\<exists>e. ReadFull n r = Inl (Err e)) \<or> (\<exists>x used r'. ReadFull n r = Inr (x, r') \<and> r = used @ r' \<and> length x = n)"
    by (cases "n \<le> length r") (auto simp: ReadFull_def intro: exI[of _ "take n r"])
qed

lemma robust_ReadInt: "robust ReadInt u32"
proof -
  have "u32 (int (le_value (rev b)))" if "length b = 4" for b :: "byte list"
    using le_value_bound[of "rev b"] that by (simp add: u32_def)
  then show ?thesis unfolding ReadInt_def by (intro robust_bind[OF robust_ReadFull] robust_return)
qed

lemma robust_ReadLen: "robust ReadLen len_ok"
  unfolding ReadLen_def
  by (rule robust_bind[OF robust_ReadInt], rule robust_if, rule robust_err, rule robust_return)
     (simp add: u32_def len_ok_def)

lemma robust_ReadString: "robust ReadString str_ok"
  unfolding ReadString_def
  by (rule robust_bind[OF robust_ReadLen], rule robust_if, rule robust_return, simp add: str_ok_def maxReadLen_def,
      rule robust_bind[OF robust_ReadFull], rule robust_return)
     (simp add: str_ok_def len_ok_def bytes_str_def)

lemma robust_ReadBitstring: "robust ReadBitstring (\<lambda>bs. bs_wf bs \<and> u32 (int (bs_bits bs)))"
  unfolding ReadBitstring_def Let_def
proof (rule robust_bind[OF robust_ReadInt], rule robust_bind[OF robust_ReadLen], rule robust_if)
  fix n :: int assume n: "u32 n"
  show "robust (\<lambda>r. Inr (NewBitstring (nat n), r)) (\<lambda>bs. bs_wf bs \<and> u32 (int (bs_bits bs)))" for r :: "byte list"
    using n by (intro robust_return) (simp add: NewBitstring_wf u32_def)
  fix m :: int
  show "robust (\<lambda>r. rbind (ReadFull (nat m) r)
      (\<lambda>(buf, r). rbind (bs_SetBytes (NewBitstring (nat n)) buf) (\<lambda>bs'. Inr (bs', r))))
      (\<lambda>bs. bs_wf bs \<and> u32 (int (bs_bits bs)))"
  proof (rule robust_bind[OF robust_ReadFull])
    fix buf :: "byte list"
    from bs_SetBytes_ok[of "NewBitstring (nat n)" buf] obtain bs' where
      bs': "bs_SetBytes (NewBitstring (nat n)) buf = Inr bs'" "bs_wf bs'" "bs_bits bs' = nat n"
      by (auto simp: NewBitstring_buf)
    with n show "robust (\<lambda>r. rbind (bs_SetBytes (NewBitstring (nat n)) buf) (\<lambda>bs'. Inr (bs', r)))
        (\<lambda>bs. bs_wf bs \<and> u32 (int (bs_bits bs)))"
      by (intro robust_pure[OF bs'(1)]) (simp add: u32_def)
  qed
qed

lemma robust_ReadZp: "robust ReadZp (felem P_SKS)"
proof (rule robustI)
  fix r
  show "(\<exists>e. ReadZp r = Inl (Err e)) \<or> (\<exists>x used r'. ReadZp r = Inr (x, r') \<and> r = used @ r' \<and> felem P_SKS x)"
  proof (cases "SksZpNbytes \<le> length r")
    case True
    then have "length (take SksZpNbytes r) = SksZpNbytes" by simp
    from ReadZp_bytes[OF this, of "drop SksZpNbytes r"] show ?thesis
      by (intro disjI2) (metis append_take_drop_id felem_zmk P_SKS_pos(1))
  next
    case False
    then show ?thesis by (auto simp: ReadZp_def ReadFull_def)
  qed
qed

lemma robust_read_elems: "robust (read_elems n) (\<lambda>zs. list_all (felem P_SKS) zs \<and> length zs = n)"
proof (induction n)
  case (Suc n)
  show ?case unfolding read_elems.simps
    by (rule robust_bind[OF robust_ReadZp], rule robust_bind[OF Suc.IH], rule robust_return) simp
qed (simp add: robust_return)

lemma robust_ReadZZarray: "robust ReadZZarray arr_ok"
  unfolding ReadZZarray_def
proof (rule robust_bind[OF robust_ReadInt], rule robust_if, rule robust_err)
  fix n :: int assume n: "u32 n" "\<not> maxReadLen < n * int SksZpNbytes"
  show "robust (read_elems (nat n)) arr_ok"
    by (rule robust_mono[OF robust_read_elems]) (use n in \<open>simp add: arr_ok_def u32_def\<close>)
qed

lemma robust_ReadZSet: "robust ReadZSet (zset_in P_SKS)"
  unfolding ReadZSet_def
proof (rule robust_bind[OF robust_ReadZZarray])
  fix arr assume "arr_ok arr"
  then obtain zs where zs: "zset_AddSlice arr zset_empty = Inr zs" "zset_in P_SKS zs"
    using zs.of_list[of P_SKS arr] by (auto simp: arr_ok_def zset_AddSlice_def)
  then show "robust (\<lambda>r. rbind (zset_AddSlice arr zset_empty) (\<lambda>zs. Inr (zs, r))) (zset_in P_SKS)"
    by (rule robust_pure)
qed

lemma robust_config_entry: "robust (config_entry c) (\<lambda>_. True)"
proof -
  have "robust read_int_value (\<lambda>_. True)"
    unfolding read_int_value_def
    by (rule robust_bind[OF robust_ReadLen], rule robust_if, rule robust_err, rule robust_mono[OF robust_ReadInt]) simp
  then show ?thesis unfolding config_entry_def
    by (intro robust_bind[OF robust_ReadString] robust_if robust_return TrueI)
       (rule robust_bind, assumption, rule robust_return, rule TrueI)
qed

lemma robust_config_entries: "robust (config_entries n c) (\<lambda>_. True)"
proof (induction n arbitrary: c)
  case (Suc n)
  then show ?case unfolding config_entries.simps by (intro robust_bind[OF robust_config_entry])
qed (simp add: robust_def)

text \<open>What every message read from the network satisfies.\<close>

fun msg_wf :: "msg \<Rightarrow> bool" where
  "msg_wf (ReconRqstPoly pre sz samples) \<longleftrightarrow> bs_wf pre \<and> len_ok sz \<and> arr_ok samples"
| "msg_wf (ReconRqstFull pre els) \<longleftrightarrow> bs_wf pre \<and> zset_in P_SKS els"
| "msg_wf (Elements zs) \<longleftrightarrow> zset_in P_SKS zs"
| "msg_wf (FullElements zs) \<longleftrightarrow> zset_in P_SKS zs"
| "msg_wf _ \<longleftrightarrow> True"

lemma robust_poly: "robust poly_unmarshal msg_wf"
  unfolding poly_unmarshal_def
  by (rule robust_bind[OF robust_ReadBitstring], rule robust_bind[OF robust_ReadLen],
      rule robust_bind[OF robust_ReadZZarray], rule robust_return) simp

lemma robust_full: "robust full_unmarshal msg_wf"
  unfolding full_unmarshal_def
  by (rule robust_bind[OF robust_ReadBitstring], rule robust_bind[OF robust_ReadZSet], rule robust_return) simp

lemma robust_config: "robust config_unmarshal (\<lambda>_. True)"
  unfolding config_unmarshal_def by (rule robust_bind[OF robust_ReadLen], rule robust_config_entries)

lemma robust_unmarshal: "robust (unmarshal mt) msg_wf"
  unfolding unmarshal_def
  by (intro robust_if robust_poly robust_full robust_return robust_err robust_map[OF robust_ReadZSet]
        robust_map[OF robust_ReadString] robust_map[OF robust_config]) simp_all

lemma robust_ReadMsg: "robust ReadMsg msg_wf"
  unfolding ReadMsg_def
proof (rule robust_bind[OF robust_ReadLen], rule robust_bind[OF robust_ReadFull])
  fix br :: "byte list"
  have "(\<exists>e. rbind (ReadFull 1 br) (\<lambda>(buf, br). unmarshal (hd buf) br) = Inl (Err e))
      \<or> (\<exists>m r. rbind (ReadFull 1 br) (\<lambda>(buf, br). unmarshal (hd buf) br) = Inr (m, r) \<and> msg_wf m)"
    using robust_bind[OF robust_ReadFull robust_unmarshal, of 1 "\<lambda>b. hd b"] unfolding robust_def by blast
  then show "robust (\<lambda>r. rbind (ReadFull 1 br) (\<lambda>(buf, br). rbind (unmarshal (hd buf) br) (\<lambda>(m, _). Inr (m, r)))) msg_wf"
    by (cases "ReadFull 1 br") (auto simp: robust_def split_def rbind_def)
qed

end
