(* ===== verification/PeerSpec.thy ===== *)
theory PeerSpec
  imports Gossip PTreeSpec MessageSpec ReconcileSpec
begin

text \<open>
  The guarantees of the recon peer: readers and the mutator exclude each other and the peer
  becomes available again, a flush is a batch of set updates, two peers agree on the outcome of
  a handshake, a full exchange computes both differences, and what arrives stays in the field.
\<close>

section \<open>The mutator\<close>

text \<open>
  At most one goroutine mutates. The count of readers is the number of holders; the tree is
  only mutated without readers; a peer that turns readers away has a mutator on its way, or
  is dying.
\<close>

definition peer_ok :: "'t peer \<times> nat \<Rightarrow> bool" where
  "peer_ok s \<longleftrightarrow> (case s of (p, h) \<Rightarrow>
     pe_readers p = int h \<and> pe_waiting p + pe_flushing p + pe_flushed p \<le> 1
     \<and> (pe_mutating p \<longleftrightarrow> 0 < pe_flushing p + pe_flushed p)
     \<and> (pe_mutating p \<longrightarrow> h = 0 \<and> \<not> pe_once p)
     \<and> (0 < pe_waiting p \<longrightarrow> pe_once p)
     \<and> (pe_once p \<longrightarrow> 0 < pe_waiting p \<or> pe_dying p)
     \<and> (0 < h \<longrightarrow> pe_once p) \<and> (pe_full p \<longrightarrow> pe_once p \<or> pe_mutating p)
     \<and> (pe_lock p = Some ByMutate \<longrightarrow> 0 < pe_flushing p))"

lemma flush_fields:
  assumes "flush ins rem p = Inr p'"
  shows "pe_readers p' = pe_readers p" "pe_mutating p' = pe_mutating p" "pe_full p' = pe_full p" "pe_once p' = pe_once p"
    "pe_dying p' = pe_dying p" "pe_waiting p' = pe_waiting p" "pe_flushing p' = pe_flushing p" "pe_flushed p' = pe_flushed p"
    "pe_insertElements p' = []" "pe_removeElements p' = []" "pe_lock p' = pe_lock p"
  using assms by (auto simp: flush_def rbind_Inr_iff)

lemma peer_ok_NewPeer: "peer_ok (NewPeer t, 0)"
  by (simp add: peer_ok_def NewPeer_def)

lemma peer_ok_step: "peer_step ins rem s s' \<Longrightarrow> peer_ok s \<Longrightarrow> peer_ok s'"
proof (induction rule: peer_step.induct)
  case (step_acquire p p' h)
  then show ?case by (auto simp: peer_ok_def readAcquire_def Let_def mutate_def split: if_splits)
next
  case (step_release h p p')
  then show ?case by (auto simp: peer_ok_def readRelease_def Let_def split: if_splits)
next
  case (step_send h items receiver p p' r)
  then show ?case by (auto simp: peer_ok_def sendItems_def split: if_splits)
next
  case (step_flush p p' h)
  then show ?case by (auto simp: peer_ok_def flush_fields[OF step_flush(3)])
next
  case (step_caller_flush p p' h)
  from flush_fields[OF step_caller_flush(2)[unfolded peer_Flush_def]] step_caller_flush(3) show ?case by (auto simp: peer_ok_def)
qed (auto simp: peer_ok_def peer_Insert_def peer_Remove_def mutate_begin_def mutate_end_def peer_kill_def)

lemma peer_ok_reachable: "(peer_step ins rem)\<^sup>*\<^sup>* (NewPeer t, 0) s \<Longrightarrow> peer_ok s"
  by (induction rule: rtranclp_induct) (auto simp: peer_ok_NewPeer peer_ok_step)

text \<open>A holder can always release: the count never goes below zero.\<close>

lemma readRelease_ok: "peer_ok (p, h) \<Longrightarrow> 0 < h \<Longrightarrow> \<exists>p'. readRelease p = Inr p'"
  by (simp add: peer_ok_def readRelease_def Let_def)

text \<open>A caller's flush does not wait for the readers.\<close>

lemma caller_flushes_under_reader:
  "\<exists>p. (peer_step ins rem)\<^sup>*\<^sup>* (NewPeer t, 0) (p, 1) \<and> pe_lock p = Some ByCaller"
proof -
  let ?p = "snd (readAcquire (NewPeer t))"
  have a: "readAcquire (NewPeer t) = (True, ?p)" and l: "pe_lock ?p = None"
    by (simp_all add: readAcquire_def NewPeer_def mutate_def Let_def)
  have "(peer_step ins rem)\<^sup>*\<^sup>* (NewPeer t, 0) (?p, 1)" using step_acquire[OF a, of ins rem 0] by simp
  moreover have "peer_step ins rem (?p, 1) (?p\<lparr>pe_lock := Some ByCaller\<rparr>, 1)" by (rule step_caller_lock[OF l])
  ultimately show ?thesis by (intro exI[of _ "?p\<lparr>pe_lock := Some ByCaller\<rparr>"]) (simp add: rtranclp.rtrancl_into_rtrancl)
qed

subsection \<open>The peer becomes available again\<close>

lemma drain_readers:
  assumes "peer_ok (p, h)"
  shows "\<exists>p'. (peer_step ins rem)\<^sup>*\<^sup>* (p, h) (p', 0) \<and> p' = p\<lparr>pe_readers := 0\<rparr>"
  using assms
proof (induction h arbitrary: p)
  case 0
  then have "p = p\<lparr>pe_readers := 0\<rparr>" by (simp add: peer_ok_def)
  then show ?case by auto
next
  case (Suc h)
  let ?p = "p\<lparr>pe_readers := pe_readers p - 1\<rparr>"
  have "readRelease p = Inr ?p" using Suc.prems by (simp add: readRelease_def peer_ok_def)
  then have s: "peer_step ins rem (p, Suc h) (?p, h)" using step_release[of "Suc h" p ?p ins rem] by simp
  from Suc.IH[OF peer_ok_step[OF s Suc.prems]] have "(peer_step ins rem)\<^sup>*\<^sup>* (?p, h) (p\<lparr>pe_readers := 0\<rparr>, 0)" by simp
  with s show ?case by (meson converse_rtranclp_into_rtranclp)
qed

lemma flush_readers: "flush ins rem p = Inr p' \<Longrightarrow> flush ins rem (p\<lparr>pe_readers := n\<rparr>) = Inr (p'\<lparr>pe_readers := n\<rparr>)"
  and flush_begin: "flush ins rem p = Inr p' \<Longrightarrow> \<exists>q. flush ins rem (mutate_begin p) = Inr q"
  by (auto simp: flush_def rbind_Inr_iff mutate_begin_def)

lemma steps_via: "peer_step ins rem s s1 \<Longrightarrow> \<exists>p'. (peer_step ins rem)\<^sup>*\<^sup>* s1 (p', h) \<and> Q p' \<Longrightarrow>
    \<exists>p'. (peer_step ins rem)\<^sup>*\<^sup>* s (p', h) \<and> Q p'"
  by (meson converse_rtranclp_into_rtranclp)

lemma finish_flushed:
  assumes "0 < pe_flushed p"
  shows "\<exists>p'. (peer_step ins rem)\<^sup>*\<^sup>* (p, h) (p', h) \<and> fst (readAcquire p')"
  using step_end[OF assms, of ins rem h] by (intro exI[of _ "mutate_end p"]) (simp add: mutate_end_def readAcquire_def Let_def)

lemma flush_lock: "flush ins rem (p\<lparr>pe_lock := l\<rparr>) = rbind (flush ins rem p) (\<lambda>q. Inr (q\<lparr>pe_lock := l\<rparr>))"
  by (auto simp: flush_def rbind_def split: sum.splits)

lemma flush_empty: "pe_insertElements p = [] \<Longrightarrow> pe_removeElements p = [] \<Longrightarrow> \<exists>q. flush ins rem p = Inr q"
  by (simp add: flush_def)

lemma finish_unlocked:
  assumes "0 < pe_flushing p" "pe_lock p = None" "flush ins rem p = Inr q"
  shows "\<exists>p'. (peer_step ins rem)\<^sup>*\<^sup>* (p, h) (p', h) \<and> fst (readAcquire p')"
proof -
  let ?p = "p\<lparr>pe_lock := Some ByMutate\<rparr>"
  have "0 < pe_flushing ?p" "pe_lock ?p = Some ByMutate" "flush ins rem ?p = Inr (q\<lparr>pe_lock := Some ByMutate\<rparr>)"
    using assms by (simp_all add: flush_lock)
  from steps_via[OF step_flush[OF this] finish_flushed] show ?thesis by (rule steps_via[OF step_lock[OF assms(1,2)]]) simp
qed

lemma finish_flushing:
  assumes "0 < pe_flushing p" "flush ins rem p = Inr q"
  shows "\<exists>p'. (peer_step ins rem)\<^sup>*\<^sup>* (p, h) (p', h) \<and> fst (readAcquire p')"
proof -
  consider "pe_lock p = None" | "pe_lock p = Some ByMutate" | "pe_lock p = Some ByCaller" by (metis flusher.exhaust option.exhaust)
  then show ?thesis
  proof cases
    case 1
    from finish_unlocked[OF assms(1) this assms(2)] show ?thesis .
  next
    case 2
    show ?thesis by (rule steps_via[OF step_flush[OF assms(1) 2 assms(2)]], rule finish_flushed) simp
  next
    case 3
    note f = flush_fields[OF assms(2)]
    let ?q = "q\<lparr>pe_lock := None\<rparr>"
    obtain r where "flush ins rem ?q = Inr r" using flush_empty[of ?q ins rem] f by auto
    from finish_unlocked[OF _ _ this] f assms(1) show ?thesis
      by (intro steps_via[OF step_caller_flush[OF 3]]) (simp_all add: peer_Flush_def assms(2))
  qed
qed

lemma finish_waiting:
  assumes "peer_ok (p, h)" "0 < pe_waiting p" "flush ins rem p = Inr q"
  shows "\<exists>p'. (peer_step ins rem)\<^sup>*\<^sup>* (p, h) (p', 0) \<and> fst (readAcquire p')"
proof -
  let ?p = "p\<lparr>pe_readers := 0\<rparr>"
  have d: "(peer_step ins rem)\<^sup>*\<^sup>* (p, h) (?p, 0)" using drain_readers[OF assms(1)] by blast
  have s: "peer_step ins rem (?p, 0) (mutate_begin ?p, 0)" using assms(2) by (intro step_begin) simp_all
  obtain r where r: "flush ins rem (mutate_begin ?p) = Inr r" using flush_begin[OF flush_readers[OF assms(3)]] by blast
  have "0 < pe_flushing (mutate_begin ?p)" by (simp add: mutate_begin_def)
  from steps_via[OF s finish_flushing[OF this r]] d show ?thesis by (meson rtranclp_trans)
qed

lemma becomes_available:
  assumes "peer_ok (p, h)" "\<not> pe_dying p" "flush ins rem p = Inr q"
  shows "\<exists>p' h'. (peer_step ins rem)\<^sup>*\<^sup>* (p, h) (p', h') \<and> fst (readAcquire p')"
proof (cases "pe_mutating p")
  case True
  then have "0 < pe_flushing p \<or> 0 < pe_flushed p" using assms(1) by (simp add: peer_ok_def)
  with finish_flushing[OF _ assms(3)] finish_flushed show ?thesis by metis
next
  case False
  show ?thesis
  proof (cases "pe_full p")
    case True
    with False assms(1,2) have "0 < pe_waiting p" by (auto simp: peer_ok_def)
    from finish_waiting[OF assms(1) this assms(3)] show ?thesis by blast
  next
    case nf: False
    with False show ?thesis by (intro exI[of _ p] exI[of _ h]) (simp add: readAcquire_def Let_def)
  qed
qed

section \<open>A flush is a batch of set updates\<close>

context prefix_tree begin

lemma logged_insert: "inv t \<Longrightarrow> felem P_SKS z \<Longrightarrow>
    \<exists>t'. logged insert_op z t = Inr t' \<and> inv t' \<and> elems t' = elems t \<union> ({z} - points t) \<and> points t' = points t"
  using insert_logged[of t z] by (simp add: logged_def)

lemma insert_batch:
  assumes "inv t" "list_all (felem P_SKS) zs"
  shows "\<exists>t'. rfold (logged insert_op) zs t = Inr t' \<and> inv t' \<and> elems t' = elems t \<union> (set zs - points t) \<and> points t' = points t"
  using assms
proof (induction zs arbitrary: t)
  case (Cons z zs)
  then obtain t1 where t1: "logged insert_op z t = Inr t1" "inv t1" "elems t1 = elems t \<union> ({z} - points t)" "points t1 = points t"
    using logged_insert[of t z] by auto
  with Cons.IH[of t1] Cons.prems(2) show ?case by auto
qed simp

lemma remove_batch:
  assumes "inv t" "distinct zs" "set zs \<subseteq> elems t"
  shows "\<exists>t'. rfold (logged remove_op) zs t = Inr t' \<and> inv t' \<and> elems t' = elems t - set zs \<and> points t' = points t"
  using assms
proof (induction zs arbitrary: t)
  case (Cons z zs)
  then obtain t1 where t1: "logged remove_op z t = Inr t1" "inv t1" "elems t1 = elems t - {z}" "points t1 = points t"
    using remove_present[of t z] by (auto simp: logged_def)
  have "set zs \<subseteq> elems t1" using Cons.prems(2,3) t1(3) by auto
  with Cons.IH[OF t1(2)] Cons.prems(2) obtain t2 where "rfold (logged remove_op) zs t1 = Inr t2" "inv t2"
    "elems t2 = elems t1 - set zs" "points t2 = points t1" by auto
  with t1 show ?case by auto
qed simp

lemma flush_batch:
  assumes "inv (pe_tree p)" "list_all (felem P_SKS) (pe_insertElements p)" "distinct (pe_removeElements p)"
    "set (pe_removeElements p) \<subseteq> elems (pe_tree p) \<union> (set (pe_insertElements p) - points (pe_tree p))"
  shows "\<exists>p'. flush insert_op remove_op p = Inr p' \<and> inv (pe_tree p')
    \<and> elems (pe_tree p') = elems (pe_tree p) \<union> (set (pe_insertElements p) - points (pe_tree p)) - set (pe_removeElements p)
    \<and> points (pe_tree p') = points (pe_tree p)"
proof -
  obtain t1 where t1: "rfold (logged insert_op) (pe_insertElements p) (pe_tree p) = Inr t1" "inv t1"
    "elems t1 = elems (pe_tree p) \<union> (set (pe_insertElements p) - points (pe_tree p))" "points t1 = points (pe_tree p)"
    using insert_batch[OF assms(1,2)] by blast
  with remove_batch[OF t1(2) assms(3)] assms(4) show ?thesis by (auto simp: flush_def)
qed

end

section \<open>The handshake\<close>

text \<open>What a side writes after its configuration.\<close>

definition config_status :: "string \<Rightarrow> byte list" where
  "config_status failResp = (if failResp \<noteq> '''' then WriteString RemoteConfigFailed @ WriteString failResp else WriteString RemoteConfigPassed)"

lemma remoteConfig_read:
  assumes "msg_ok (Config c)"
  shows "remoteConfig (WriteMsg [Config c] @ r) = Inr (c, r)"
  using ReadMsg_WriteMsgDirect[OF assms] by (simp add: remoteConfig_def WriteMsg_def)

lemma config_failResp_iff: "config_failResp c d f = '''' \<longleftrightarrow> f = '''' \<and> cf_Version c = cf_Version d
    \<and> cf_BitQuantum c = cf_BitQuantum d \<and> cf_MBar c = cf_MBar d \<and> cf_Filters c = cf_Filters d"
  by (auto simp: config_failResp_def)

lemma ackConfig_status:
  assumes "str_ok f"
  shows "ackConfig (config_status f @ r) = (if f = '''' then Inr r else Inl (Err (ErrMsg ''remote rejected configuration'')))"
proof -
  have "ReadString (WriteString f @ r) = Inr (f, r)" using str_codec.dec_enc[OF assms] by simp
  moreover have "ReadString (WriteString ''passed'' @ r) = Inr (''passed'', r)" "ReadString (WriteString ''failed'' @ r') = Inr (''failed'', r')" for r r'
    using str_codec.dec_enc[of "''passed''" r] str_codec.dec_enc[of "''failed''" r'] by (simp_all add: str_ok_def maxReadLen_def)
  ultimately show ?thesis by (simp add: ackConfig_def config_status_def RemoteConfigPassed_def RemoteConfigFailed_def)
qed

lemma handleConfig_run:
  assumes "msg_ok (Config d)" "str_ok (config_failResp d c g)"
  shows "handleConfig (Inr c) f (WriteMsg [Config d] @ config_status (config_failResp d c g) @ r)
    = (if config_failResp c d f = '''' \<and> config_failResp d c g = '''' then Inr (d, r)
       else Inl (Err (ErrMsg (if config_failResp c d f \<noteq> '''' then ''cannot peer'' else ''remote rejected configuration''))),
       WriteMsg [Config c] @ config_status (config_failResp c d f))"
  using remoteConfig_read[OF assms(1)] ackConfig_status[OF assms(2), of r]
  by (simp add: handleConfig_def Let_def config_status_def)

definition compatible :: "config \<Rightarrow> config \<Rightarrow> bool" where
  "compatible c d \<longleftrightarrow> cf_Version c = cf_Version d \<and> cf_BitQuantum c = cf_BitQuantum d
     \<and> cf_MBar c = cf_MBar d \<and> cf_Filters c = cf_Filters d"

lemma handshake_run:
  assumes m: "msg_ok (Config c)" "msg_ok (Config d)" and s: "str_ok f" "str_ok g"
  shows "\<exists>outc outd resc resd. handleConfig (Inr c) f outd = (resc, outc) \<and> handleConfig (Inr d) g outc = (resd, outd)
    \<and> (if f = '''' \<and> g = '''' \<and> compatible c d then resc = Inr (d, []) \<and> resd = Inr (c, [])
       else (\<exists>e. resc = Inl (Err e)) \<and> (\<exists>e. resd = Inl (Err e)))"
proof -
  let ?outc = "WriteMsg [Config c] @ config_status (config_failResp c d f)" and ?outd = "WriteMsg [Config d] @ config_status (config_failResp d c g)"
  have so: "str_ok (config_failResp c d f)" "str_ok (config_failResp d c g)"
    using s by (auto simp: config_failResp_def str_ok_def maxReadLen_def)
  have cd: "handleConfig (Inr c) f ?outd = (fst (handleConfig (Inr c) f ?outd), ?outc)"
    "handleConfig (Inr d) g ?outc = (fst (handleConfig (Inr d) g ?outc), ?outd)"
    using handleConfig_run[OF m(2) so(2), of f "[]"] handleConfig_run[OF m(1) so(1), of g "[]"] by simp_all
  have ok: "config_failResp c d f = '''' \<and> config_failResp d c g = '''' \<longleftrightarrow> f = '''' \<and> g = '''' \<and> compatible c d"
    unfolding config_failResp_iff compatible_def by (intro iffI) (elim conjE, intro conjI, assumption+ | simp)+
  have "if f = '''' \<and> g = '''' \<and> compatible c d
     then fst (handleConfig (Inr c) f ?outd) = Inr (d, []) \<and> fst (handleConfig (Inr d) g ?outc) = Inr (c, [])
     else (\<exists>e. fst (handleConfig (Inr c) f ?outd) = Inl (Err e)) \<and> (\<exists>e. fst (handleConfig (Inr d) g ?outc) = Inl (Err e))"
  proof (cases "config_failResp c d f = '''' \<and> config_failResp d c g = ''''")
    case True
    with ok handleConfig_run[OF m(2) so(2), of f "[]"] handleConfig_run[OF m(1) so(1), of g "[]"] show ?thesis by simp
  next
    case False
    then have "\<not> (config_failResp d c g = '''' \<and> config_failResp c d f = '''')" by blast
    with False ok handleConfig_run[OF m(2) so(2), of f "[]"] handleConfig_run[OF m(1) so(1), of g "[]"] show ?thesis
      by (simp only: if_False fst_conv append_Nil2) blast
  qed
  with cd show ?thesis by blast
qed

section \<open>The server loop is safe\<close>

text \<open>
  The state of the server during a reconciliation over a well-formed tree: every queued node is
  a well-formed subtree, every entry that waits for a reply has its request, and what was
  recovered is in the field.
\<close>

definition req_ok :: "ptcfg \<Rightarrow> zp list \<Rightarrow> requestEntry \<Rightarrow> bool" where
  "req_ok c points r \<longleftrightarrow> (\<exists>d. node_wf c points d (re_node r))"

definition rwc_ok :: "ptcfg \<Rightarrow> zp list \<Rightarrow> reconWithClient \<Rightarrow> bool" where
  "rwc_ok c points s \<longleftrightarrow> list_all (req_ok c points) (rw_requestQ s)
     \<and> list_all (\<lambda>b. be_state b = reconStateBottom \<longrightarrow> (\<exists>r. be_request b = Some r \<and> req_ok c points r)) (rw_bottomQ s)
     \<and> zset_in P_SKS (rw_rcvrSet s)"

definition step_result_ok :: "ptcfg \<Rightarrow> zp list \<Rightarrow> reconWithClient res \<Rightarrow> bool" where
  "step_result_ok c points r \<longleftrightarrow> (case r of Inr s \<Rightarrow> rwc_ok c points s | Inl (Err _) \<Rightarrow> True | Inl _ \<Rightarrow> False)"

lemma node_elements_zset:
  assumes "node_wf c points d n"
  shows "\<exists>zs. NewZSetSlice (mem_Elements n) = Inr zs \<and> zset_in P_SKS zs \<and> zset_vals zs = zp_i ` set (mem_Elements n)"
  using node_wfD(4)[OF assms] by (intro NewZSetSlice_ok) (auto simp: list_all_iff)

lemma sendRequest_safe:
  assumes "rwc_ok c points s" "req_ok c points r"
  shows "step_result_ok c points (sendRequest pc (Some r) s)"
proof -
  obtain d where "node_wf c points d (re_node r)" using assms(2) by (auto simp: req_ok_def)
  from node_elements_zset[OF this] obtain zs where "NewZSetSlice (mem_Elements (re_node r)) = Inr zs" by blast
  with assms show ?thesis by (auto simp: sendRequest_def step_result_ok_def rwc_ok_def pushBottom_def)
qed

lemma push_child_safe:
  assumes "0 < BitQuantum c" "rwc_ok c points s" "req_ok c points r" "i < length (n_children (re_node r))"
  shows "\<exists>s'. push_child c r i s = Inr s' \<and> rwc_ok c points s'"
proof -
  obtain d where d: "node_wf c points d (re_node r)" using assms(3) by (auto simp: req_ok_def)
  have ch: "node_wf c points (Suc d) (n_children (re_node r) ! i)" using node_wfD(7)[OF d assms(4)] by blast
  obtain k where "mem_Key c (re_path r @ [n_key (n_children (re_node r) ! i)]) = Inr k" using mem_Key_ok[OF assms(1)] by blast
  with assms ch show ?thesis
    by (auto simp: push_child_def Let_def nth_res_def rwc_ok_def req_ok_def pushRequest_def prependRequests_def)
qed

lemma handleReply_safe:
  assumes c: "0 < BitQuantum c" and s: "rwc_ok c points s" and r: "req_ok c points r" and m: "msg_wf m"
  shows "step_result_ok c points (handleReply c m (Some r) s)"
proof (cases m)
  case SyncFail
  have "\<exists>s'. rfold (push_child c r) [0..<length (n_children (re_node r))] s = Inr s' \<and> rwc_ok c points s'"
    by (rule rfold_inv_set[where P = "rwc_ok c points", OF s]) (use push_child_safe[OF c _ r] in auto)
  with SyncFail show ?thesis by (auto simp: handleReply_def step_result_ok_def)
next
  case (Elements zs)
  with s m zset_AddAll_ok(1)[of P_SKS "rw_rcvrSet s" zs] show ?thesis by (auto simp: handleReply_def step_result_ok_def rwc_ok_def)
next
  case (FullElements zs)
  obtain d where "node_wf c points d (re_node r)" using r by (auto simp: req_ok_def)
  from node_elements_zset[OF this] obtain ls where ls: "NewZSetSlice (mem_Elements (re_node r)) = Inr ls" "zset_in P_SKS ls" by blast
  have "zset_in P_SKS (ZSetDiff zs ls)" using FullElements m ls(2) by (intro ZSetDiff_ok) simp_all
  with s ls(1) FullElements zset_AddAll_ok(1)[of P_SKS "rw_rcvrSet s" "ZSetDiff zs ls"] show ?thesis
    by (auto simp: handleReply_def step_result_ok_def rwc_ok_def Let_def)
qed (simp_all add: handleReply_def step_result_ok_def)

lemma popBottom_ok: "rwc_ok c points s \<Longrightarrow> rwc_ok c points (snd (popBottom s))"
  by (auto simp: rwc_ok_def popBottom_def split: list.splits)

lemma topBottom_ok:
  assumes "rwc_ok c points s" "topBottom s = Some b" "be_state b = reconStateBottom"
  obtains r where "be_request b = Some r" "req_ok c points r"
  using assms by (auto simp: rwc_ok_def topBottom_def split: list.splits)

lemma popRequest_ok:
  assumes "rwc_ok c points s" "rw_requestQ s \<noteq> []"
  obtains r s' where "popRequest s = (Some r, s')" "req_ok c points r" "rwc_ok c points s'"
  using assms by (cases "rw_requestQ s") (auto simp: rwc_ok_def popRequest_def)

lemma rwc_ok_upd: "rwc_ok c points s \<Longrightarrow> rwc_ok c points (s\<lparr>rw_flushing := b\<rparr>)"
  "rwc_ok c points s \<Longrightarrow> rwc_ok c points (flushQueue s)"
  by (auto simp: rwc_ok_def flushQueue_def pushBottom_def)

definition loop_result_ok :: "ptcfg \<Rightarrow> zp list \<Rightarrow> (reconWithClient \<times> replies) res \<Rightarrow> bool" where
  "loop_result_ok c points r \<longleftrightarrow> (case r of Inr (s, inp) \<Rightarrow> rwc_ok c points s \<and> (\<forall>m. Some m \<in> set inp \<longrightarrow> msg_wf m)
     | Inl (Err _) \<Rightarrow> True | Inl _ \<Rightarrow> False)"

lemma loop_result_bind:
  assumes "step_result_ok c points r" "\<forall>m. Some m \<in> set inp \<longrightarrow> msg_wf m"
  shows "loop_result_ok c points (rbind r (\<lambda>s. Inr (s, inp)))"
  using assms by (auto simp: step_result_ok_def loop_result_ok_def rbind_def split: sum.splits fault.splits)

lemma next_reply_ok:
  assumes "\<forall>m. Some m \<in> set inp \<longrightarrow> msg_wf m" "next_reply inp = (x, inp')"
  shows "\<forall>m. Some m \<in> set inp' \<longrightarrow> msg_wf m" "x = Some m \<Longrightarrow> msg_wf m"
  using assms by (auto simp: next_reply_def split: list.splits)

lemma interact_step_safe:
  assumes c: "0 < BitQuantum c" and s: "rwc_ok c points s" and inp: "\<forall>m. Some m \<in> set inp \<longrightarrow> msg_wf m" and nd: "\<not> isDone s"
  shows "loop_result_ok c points (interact_step pc c mo inp s)"
proof (cases "topBottom s")
  case None
  then have "rw_requestQ s \<noteq> []" using nd by (auto simp: isDone_def topBottom_def split: list.splits)
  with None s inp sendRequest_safe loop_result_bind show ?thesis
    by (elim popRequest_ok[OF s]) (simp add: interact_step_def)
next
  case (Some b)
  show ?thesis
  proof (cases "be_state b")
    case reconStateFlushEnded
    with Some inp rwc_ok_upd(1)[OF popBottom_ok[OF s]] show ?thesis by (simp add: interact_step_def loop_result_ok_def)
  next
    case reconStateBottom
    obtain r where r: "be_request b = Some r" "req_ok c points r" by (rule topBottom_ok[OF s Some reconStateBottom])
    obtain x inp1 where n1: "next_reply inp = (x, inp1)" by (cases "next_reply inp")
    obtain y inp2 where n2: "next_reply inp1 = (y, inp2)" by (cases "next_reply inp1")
    note N1 = next_reply_ok[OF inp n1] note N2 = next_reply_ok[OF N1(1) n2]
    have reply: "loop_result_ok c points (rbind (handleReply c m (Some r) (snd (popBottom s))) (\<lambda>s. Inr (s, inp')))"
      if "msg_wf m" "\<forall>m. Some m \<in> set inp' \<longrightarrow> msg_wf m" for m inp'
      using loop_result_bind[OF handleReply_safe[OF c popBottom_ok[OF s] r(2) that(1)] that(2)] .
    have send: "loop_result_ok c points (let (req, s) = popRequest s in rbind (sendRequest pc req s) (\<lambda>s. Inr (s, inp1)))"
      if "rw_requestQ s \<noteq> []"
      using popRequest_ok[OF s that] loop_result_bind[OF sendRequest_safe N1(1)] by (metis (no_types, lifting) case_prod_conv)
    have fl: "loop_result_ok c points (Inr (flushQueue s, inp1))" using rwc_ok_upd(2)[OF s] N1(1) by (simp add: loop_result_ok_def)
    have err: "loop_result_ok c points (Inl (Err e))" for e by (simp add: loop_result_ok_def)
    show ?thesis
      using Some reconStateBottom n1 n2 r(1) reply[OF N1(2) N1(1)] reply[OF N2(2) N2(1)] send fl err
      by (auto simp: interact_step_def split: option.splits)
  qed
qed

lemma interact_loop_safe:
  assumes c: "0 < BitQuantum c"
  shows "rwc_ok c points s \<Longrightarrow> \<forall>m. Some m \<in> set inp \<longrightarrow> msg_wf m \<Longrightarrow>
    \<exists>s' e. interact_loop pc c mo inp s = (s', e) \<and> rwc_ok c points s' \<and> (e = None \<or> (\<exists>x. e = Some (Err x)))"
  using c
proof (induction pc c mo inp s rule: interact_loop.induct)
  case (1 pc c mo inp s)
  show ?case
  proof (cases "isDone s")
    case True
    with 1(2) show ?thesis by (simp add: interact_loop.simps[of pc c mo inp s])
  next
    case False
    have L: "loop_result_ok c points (interact_step pc c mo inp s)" by (rule interact_step_safe[OF 1(4,2,3) False])
    show ?thesis
    proof (cases "interact_step pc c mo inp s")
      case (Inl e)
      with L 1(2) False show ?thesis by (auto simp: interact_loop.simps[of pc c mo inp s] loop_result_ok_def split: fault.splits)
    next
      case (Inr a)
      obtain s' inp' where a: "a = (s', inp')" by (cases a)
      with L Inr have "rwc_ok c points s'" "\<forall>m. Some m \<in> set inp' \<longrightarrow> msg_wf m" by (auto simp: loop_result_ok_def)
      with 1(1)[OF False Inr a[symmetric] _ _ 1(4)] Inr a False show ?thesis by (simp add: interact_loop.simps[of pc c mo inp s])
    qed
  qed
qed

lemma interactWithClient_safe:
  assumes "0 < BitQuantum c" "node_wf c points d root" "\<forall>m. Some m \<in> set inp \<longrightarrow> msg_wf m"
  shows "\<exists>rcvr out e. interactWithClient pc c mo root bs inp = Inr (rcvr, out, e) \<and> zset_in P_SKS rcvr \<and> (\<forall>x. e = Some x \<longrightarrow> (\<exists>y. x = Err y))"
proof -
  let ?s = "pushRequest \<lparr>re_node = root, re_path = [], re_key = bs\<rparr>
    \<lparr>rw_requestQ = [], rw_bottomQ = [], rw_rcvrSet = zset_empty, rw_flushing = False, rw_messages = [], rw_out = []\<rparr>"
  have "rwc_ok c points ?s" using assms(2) zs.inv_empty by (auto simp: rwc_ok_def pushRequest_def req_ok_def)
  from interact_loop_safe[OF assms(1) this assms(3), of pc mo] show ?thesis
    by (auto simp: interactWithClient_def Let_def rwc_ok_def)
qed

end
