(* ===== verification/GossipSpec.thy ===== *)
theory GossipSpec
  imports PeerSpec
begin

text \<open>
  The guarantees of the client: what it answers to a request of a well-formed message, the
  request on which it panics, and the two facts about settings that the handshake relies on.
\<close>

section \<open>Full exchanges\<close>

text \<open>Every bitstring whose length is a number of whole digits can be read.\<close>

lemma NewBitstring_readable: "0 < BitQuantum c \<Longrightarrow> bs_readable c (NewBitstring 0)"
  by (simp add: bs_readable_def bs_BitLen_def)

lemma mem_Node_root: "mem_Node t (NewBitstring 0) = Inr (mt_root t)"
  by (simp add: mem_Node_def mem_node_from.simps[of _ _ 0] bs_BitLen_def)

lemma zset_vals_felem_diff:
  assumes "\<forall>x \<in> A \<union> B. felem p x"
  shows "zp_i ` A - zp_i ` B = zp_i ` (A - B)"
  using assms felem_eqI by blast

lemma full_reply:
  assumes t: "mtree_wf t" and node: "mem_Node t prefix = Inr n" "node_wf (mt_cfg t) (mt_points t) d n"
    and els: "zset_in P_SKS els"
  shows "\<exists>needs rneeds. handleReconRqstFull t prefix els = Inr (progress needs [Elements rneeds])
    \<and> zset_in P_SKS needs \<and> zset_in P_SKS rneeds
    \<and> zset_vals needs = zset_vals els - zp_i ` set (mem_Elements n)
    \<and> zset_vals rneeds = zp_i ` set (mem_Elements n) - zset_vals els"
proof -
  obtain ls where ls: "NewZSetSlice (mem_Elements n) = Inr ls" "zset_in P_SKS ls" "zset_vals ls = zp_i ` set (mem_Elements n)"
    using node_elements_zset[OF node(2)] by blast
  with node(1) ZSetDiff_ok[OF els ls(2)] ZSetDiff_ok[OF ls(2) els] show ?thesis
    by (auto simp: handleReconRqstFull_def Let_def)
qed

lemma full_exchange:
  assumes s: "mtree_wf s" and t: "mtree_wf t"
  shows "\<exists>els needs rneeds. NewZSetSlice (mem_Elements (mt_root s)) = Inr els
    \<and> handleReconRqstFull t (NewBitstring 0) els = Inr (progress needs [Elements rneeds])
    \<and> zset_vals needs = zp_i ` (mtree_elems s - mtree_elems t)
    \<and> zset_vals rneeds = zp_i ` (mtree_elems t - mtree_elems s)"
proof -
  have f: "\<forall>x \<in> mtree_elems s \<union> mtree_elems t. felem P_SKS x" using mtree_wfD(7)[OF s] mtree_wfD(7)[OF t] by blast
  obtain els where els: "NewZSetSlice (mem_Elements (mt_root s)) = Inr els" "zset_in P_SKS els" "zset_vals els = zp_i ` mtree_elems s"
    using node_elements_zset[OF mtree_wfD(3)[OF s]] by (auto simp: mtree_elems_def)
  obtain needs rneeds where r: "handleReconRqstFull t (NewBitstring 0) els = Inr (progress needs [Elements rneeds])"
    "zset_vals needs = zset_vals els - zp_i ` mtree_elems t" "zset_vals rneeds = zp_i ` mtree_elems t - zset_vals els"
    using full_reply[OF t mem_Node_root mtree_wfD(3)[OF t] els(2)] by (auto simp: mtree_elems_def)
  have "zset_vals needs = zp_i ` (mtree_elems s - mtree_elems t)"
    unfolding r(2) els(3) using f by (intro zset_vals_felem_diff) auto
  moreover have "zset_vals rneeds = zp_i ` (mtree_elems t - mtree_elems s)"
    unfolding r(3) els(3) using f by (intro zset_vals_felem_diff) auto
  ultimately show ?thesis using els(1) r(1) by blast
qed

section \<open>Interpolated exchanges\<close>

lemma svals_felem: "list_all (felem P_SKS) (svals points xs)"
  by (simp add: svals_def sval_felem list_all_iff)

lemma solve_values:
  assumes "list_all (felem P_SKS) rs" "list_all (felem P_SKS) ls" "length rs \<le> length ls"
  shows "\<exists>vs. rmap (\<lambda>i. rbind (nth_res rs i) (\<lambda>r. rbind (nth_res ls i) (zp_Div r))) [0..<length rs] = Inr vs
    \<and> length vs = length rs \<and> list_all (felem P_SKS) vs"
proof -
  let ?g = "\<lambda>i. zmk P_SKS (zp_i (rs ! i) * finv P_SKS (zp_i (ls ! i)))"
  have "rmap (\<lambda>i. rbind (nth_res rs i) (\<lambda>r. rbind (nth_res ls i) (zp_Div r))) [0..<length rs] = Inr (map ?g [0..<length rs])"
  proof (rule rmap_pure)
    fix i assume "i \<in> set [0..<length rs]"
    then have i: "i < length rs" "i < length ls" using assms(3) by auto
    then have "felem P_SKS (rs ! i)" "felem P_SKS (ls ! i)" using assms(1,2) by (auto simp: list_all_length)
    with i show "rbind (nth_res rs i) (\<lambda>r. rbind (nth_res ls i) (zp_Div r)) = Inr (?g i)"
      by (simp add: nth_res_def zp_Div_ok[of P_SKS])
  qed
  then show ?thesis by (auto simp: list_all_iff)
qed

text \<open>A request with as many samples as there are points gets an answer, or the search goes on.\<close>

lemma poly_reply_safe:
  assumes t: "mtree_wf t" and node: "mem_Node t prefix = Inr n" "node_wf (mt_cfg t) (mt_points t) d n"
    and rs: "list_all (felem P_SKS) rs" "length rs = NumSamples (mt_cfg t)" and mb: "1 \<le> MBar (mt_cfg t)" "3 * int (length rs) < P_SKS"
  shows "(\<exists>step. handleReconRqstPoly pc fuel rng t prefix sz rs = Inr step) \<or> handleReconRqstPoly pc fuel rng t prefix sz rs = Inl Diverge"
proof -
  have pts: "list_all (felem P_SKS) (mt_points t)" "length (mt_points t) = NumSamples (mt_cfg t)"
    using mtree_wfD(2)[OF t] by (auto simp: points_ok_def)
  have sv: "list_all (felem P_SKS) (n_svalues n)" "length (n_svalues n) = NumSamples (mt_cfg t)"
    using node_wfD(2)[OF node(2)] svals_felem pts(2) by (auto simp: svals_def)
  obtain vs where vs: "rmap (\<lambda>i. rbind (nth_res rs i) (\<lambda>r. rbind (nth_res (n_svalues n) i) (zp_Div r))) [0..<length rs] = Inr vs"
    "length vs = length rs" "list_all (felem P_SKS) vs"
    using solve_values[OF rs(1) sv(1)] rs(2) sv(2) by auto
  let ?r = "Reconcile fuel rng vs (mt_points t) (sz - mem_Size n)"
  have np: "?r \<noteq> Inl (Panic e)" for e
    using Reconcile_outcome[OF vs(3) pts(1)] vs(2) rs(2) pts(2) mb by (simp add: NumSamples_def)
  have so: "solve fuel rng rs (n_svalues n) sz (mem_Size n) (mt_points t) = ?r" using vs(1) by (simp add: solve_def)
  obtain ls where ls: "NewZSetSlice (mem_Elements n) = Inr ls" using node_elements_zset[OF node(2)] by blast
  show ?thesis
  proof (cases ?r)
    case (Inr a)
    then show ?thesis using node(1) so by (cases a) (simp add: handleReconRqstPoly_def)
  next
    case (Inl f)
    with np have "(\<exists>e. f = Err e) \<or> f = Diverge" by (cases f) auto
    then show ?thesis using node(1) so Inl ls by (auto simp: handleReconRqstPoly_def split: goerr.splits)
  qed
qed

text \<open>A request without samples makes the client panic.\<close>

lemma poly_empty_panics:
  assumes "mem_Node t prefix = Inr n"
  shows "handleReconRqstPoly pc fuel rng t prefix sz [] = Inl (Panic PIndex)"
  using assms by (simp add: handleReconRqstPoly_def solve_def Reconcile_empty)

section \<open>Settings\<close>

lemma dedup_adjacent_set [simp]: "set (dedup_adjacent xs) = set xs"
  by (induction xs rule: dedup_adjacent.induct) auto

lemma dedup_adjacent_sorted:
  "sorted xs \<Longrightarrow> sorted (dedup_adjacent xs) \<and> distinct (dedup_adjacent (xs :: 'a :: linorder list))"
proof (induction xs rule: dedup_adjacent.induct)
  case (1 x y zs)
  show ?case
  proof (cases "x = y")
    case True
    with 1 show ?thesis by simp
  next
    case False
    with 1 have "sorted (dedup_adjacent (y # zs))" "distinct (dedup_adjacent (y # zs))" by auto
    moreover have "\<forall>z \<in> set (y # zs). x < z" using 1(3) False by auto
    ultimately show ?thesis using False by (auto simp: less_imp_le)
  qed
qed auto

lemma AddFilters_canonical:
  "st_Filters (AddFilters fs s) = sorted_list_of_set (set (st_Filters s) \<union> set fs)"
  using dedup_adjacent_sorted[of "sort (st_Filters s @ fs)"]
  by (intro sorted_distinct_set_unique) (auto simp: AddFilters_def)

lemma takeWhile_not_in: "c \<notin> set xs \<Longrightarrow> takeWhile (\<lambda>x. x \<noteq> c) xs = xs"
  by (induction xs) auto

lemma last_byte_append: "c \<notin> set ys \<Longrightarrow> last_byte (xs @ c # ys) c = Some (length xs)"
  by (simp add: last_byte_def Let_def takeWhile_append takeWhile_not_in)

lemma SplitHostPort_JoinHostPort:
  assumes "CHR ''['' \<notin> set h" "CHR '']'' \<notin> set h" "CHR '':'' \<notin> set p" "CHR ''['' \<notin> set p" "CHR '']'' \<notin> set p"
  shows "SplitHostPort (JoinHostPort h p) = Some (h, p)"
proof (cases "CHR '':'' \<in> set h")
  case True
  have "last_byte (''['' @ h @ '']:'' @ p) CHR '':'' = Some (length h + 2)"
    using last_byte_append[OF assms(3), of "''['' @ h @ '']''"] by simp
  moreover have "index_byte (''['' @ h @ '']:'' @ p) CHR '']'' = Some (length h + 1)"
    using assms(2) by (simp add: index_byte_def Let_def takeWhile_append takeWhile_not_in)
  ultimately show ?thesis using True assms by (simp add: SplitHostPort_def JoinHostPort_def)
next
  case False
  have "last_byte (h @ '':'' @ p) CHR '':'' = Some (length h)" using last_byte_append[OF assms(3), of h] by simp
  moreover have "hd (h @ '':'' @ p) \<noteq> CHR ''[''" using assms(1) by (cases h) auto
  ultimately show ?thesis using False assms by (simp add: SplitHostPort_def JoinHostPort_def)
qed

lemma dec_digits_range: "\<forall>c \<in> set (dec_digits n). 48 \<le> (of_char c :: nat) \<and> of_char c \<le> (57 :: nat)"
proof (induction n rule: dec_digits.induct)
  case (1 n)
  then show ?case by (subst dec_digits.simps) (auto simp: of_char_dec_digit)
qed

lemma dec_string_plain: "CHR '':'' \<notin> set (dec_string i) \<and> CHR ''['' \<notin> set (dec_string i) \<and> CHR '']'' \<notin> set (dec_string i)"
  using dec_digits_range[of "nat i"] dec_digits_range[of "nat (- i)"] by (auto simp: dec_string_def)

end
