(* ===== verification/LevelDb.thy ===== *)
theory LevelDb
  imports PTree Messages
begin

text \<open>
  The prefix tree on disk, \<open>recon/leveldb/ptree.go\<close>. The database is a map from keys to values;
  a value is an encoded node or the empty value that marks an element as present. An operation
  that fails keeps what it has written, so operations take the database and return a result
  together with the database they leave. Opening and closing the files is not modelled.
\<close>

section \<open>Operations on a state\<close>

type_synonym ('s, 'a) op = "'s \<Rightarrow> 'a res \<times> 's"

definition op_return :: "'a \<Rightarrow> ('s, 'a) op" where
  "op_return x s = (Inr x, s)"

definition op_lift :: "'a res \<Rightarrow> ('s, 'a) op" where
  "op_lift r s = (r, s)"

definition op_bind :: "('s, 'a) op \<Rightarrow> ('a \<Rightarrow> ('s, 'b) op) \<Rightarrow> ('s, 'b) op" where
  "op_bind m f s = (case m s of (Inl e, s') \<Rightarrow> (Inl e, s') | (Inr x, s') \<Rightarrow> f x s')"

lemma op_bind_cong [fundef_cong]:
  assumes "m = m'" "\<And>x s. f x s = f' x s" "s = s'"
  shows "op_bind m f s = op_bind m' f' s'"
  using assms by (auto simp: op_bind_def split: prod.splits sum.splits)

fun op_fold :: "('a \<Rightarrow> 'b \<Rightarrow> ('s, 'b) op) \<Rightarrow> 'a list \<Rightarrow> 'b \<Rightarrow> ('s, 'b) op" where
  "op_fold f [] b = op_return b"
| "op_fold f (x # xs) b = op_bind (f x b) (op_fold f xs)"

fun op_map :: "('a \<Rightarrow> ('s, 'b) op) \<Rightarrow> 'a list \<Rightarrow> ('s, 'b list) op" where
  "op_map f [] = op_return []"
| "op_map f (x # xs) = op_bind (f x) (\<lambda>y. op_bind (op_map f xs) (\<lambda>ys. op_return (y # ys)))"

section \<open>Nodes and the database\<close>

record dnode =
  NodeKey :: "byte list"
  NodeSValues :: "byte list"
  NumElements :: int
  Leaf :: bool
  NodeElements :: "byte list list"

datatype dbval = DbNode dnode | DbEmpty

type_synonym db = "byte list \<rightharpoonup> dbval"

record ldb =
  ld_cfg :: ptcfg
  ld_points :: "zp list"

definition db_Put :: "byte list \<Rightarrow> dbval \<Rightarrow> (db, unit) op" where
  "db_Put k v m = (Inr (), m(k \<mapsto> v))"

definition db_Delete :: "byte list \<Rightarrow> (db, unit) op" where
  "db_Delete k m = (Inr (), m(k := None))"

definition db_Get :: "byte list \<Rightarrow> (db, dbval) op" where
  "db_Get k m = (case m k of None \<Rightarrow> Inl (Err ErrDbNotFound) | Some v \<Rightarrow> Inr v, m)"

definition mustEncodeBitstring :: "bitstring \<Rightarrow> byte list" where
  "mustEncodeBitstring bs = WriteBitstring bs"

definition must :: "('a \<times> byte list) res \<Rightarrow> 'a res" where
  "must r = (case r of Inr (x, _) \<Rightarrow> Inr x | Inl (Err e) \<Rightarrow> Inl (Panic (PMsg ''decode'')) | Inl e \<Rightarrow> Inl e)"

definition mustDecodeBitstring :: "byte list \<Rightarrow> bitstring res" where
  "mustDecodeBitstring buf = must (ReadBitstring buf)"

definition mustEncodeZZarray :: "zp list \<Rightarrow> byte list" where
  "mustEncodeZZarray arr = WriteZZarray arr"

definition mustDecodeZZarray :: "byte list \<Rightarrow> zp list res" where
  "mustDecodeZZarray buf = must (ReadZZarray buf)"

definition ldb_New :: "ptcfg \<Rightarrow> ldb res" where
  "ldb_New c = rbind (Zpoints P_SKS (NumSamples c)) (\<lambda>pts. Inr \<lparr>ld_cfg = c, ld_points = pts\<rparr>)"

definition getNode :: "byte list \<Rightarrow> (db, dnode) op" where
  "getNode key m = (case m key of
       Some (DbNode n) \<Rightarrow> (Inr n, m) | _ \<Rightarrow> (Inl (Err ErrNodeNotFound), m))"

definition hasKey :: "byte list \<Rightarrow> db \<Rightarrow> bool" where
  "hasKey key m \<longleftrightarrow> m key \<noteq> None"

definition upsertNode :: "dnode \<Rightarrow> (db, unit) op" where
  "upsertNode n = db_Put (NodeKey n) (DbNode n)"

definition deleteNode :: "dnode \<Rightarrow> (db, unit) op" where
  "deleteNode n = db_Delete (NodeKey n)"

text \<open>
  \<open>Node\<close> looks for the key and then for its prefixes, one digit shorter each time. A key that
  is not a whole number of digits ends below zero, where making the buffer panics; with digits
  of no bits the loop goes on for ever.
\<close>

function node_lookup :: "nat \<Rightarrow> bitstring \<Rightarrow> bitstring \<Rightarrow> (db, dnode) op" where
  "node_lookup bq bs key m =
     (case getNode (mustEncodeBitstring key) m of
        (Inl (Err ErrNodeNotFound), m) \<Rightarrow>
          if bs_BitLen key = 0 then (Inl (Err ErrNodeNotFound), m)
          else if bq = 0 then (Inl Diverge, m)
          else if bs_BitLen key < bq then (Inl (Panic (PMsg ''makeslice: len out of range'')), m)
          else (case bs_SetBytes (NewBitstring (bs_BitLen key - bq)) (bs_Bytes bs) of
                  Inl e \<Rightarrow> (Inl e, m) | Inr key' \<Rightarrow> node_lookup bq bs key' m)
      | r \<Rightarrow> r)"
  by pat_completeness auto

lemma bs_SetBytes_bits: "bs_SetBytes bs buf = Inr bs' \<Longrightarrow> bs_bits bs' = bs_bits bs"
  by (auto simp: bs_SetBytes_def Let_def rbind_Inr_iff split: prod.splits if_splits)

termination node_lookup
  by (relation "measure (\<lambda>(bq, bs, key, m). bs_bits key)")
     (auto simp: bs_BitLen_def dest!: bs_SetBytes_bits)

declare node_lookup.simps [simp del]

definition ldb_Node :: "ldb \<Rightarrow> bitstring \<Rightarrow> (db, dnode) op" where
  "ldb_Node t bs = node_lookup (BitQuantum (ld_cfg t)) bs bs"

definition ldb_Root :: "ldb \<Rightarrow> (db, dnode) op" where
  "ldb_Root t = ldb_Node t (NewBitstring 0)"

section \<open>Keys and children\<close>

definition dn_Key :: "dnode \<Rightarrow> bitstring res" where
  "dn_Key n = mustDecodeBitstring (NodeKey n)"

definition dn_SValues :: "dnode \<Rightarrow> zp list res" where
  "dn_SValues n = mustDecodeZZarray (NodeSValues n)"

definition childKey :: "ptcfg \<Rightarrow> bitstring \<Rightarrow> nat \<Rightarrow> bitstring res" where
  "childKey c key i =
     rbind (bs_SetBytes (NewBitstring (bs_BitLen key + BitQuantum c)) (bs_Bytes key)) (\<lambda>k.
     rfold (\<lambda>j k. if push_bit j 1 AND i = 0 then bs_Clear k (int (bs_BitLen key + j)) else bs_Set k (int (bs_BitLen key + j)))
       [0..<BitQuantum c] k)"

definition newChildNode :: "ldb \<Rightarrow> dnode option \<Rightarrow> nat \<Rightarrow> dnode res" where
  "newChildNode t parent childIndex =
     rbind (case parent of None \<Rightarrow> Inr (NewBitstring 0)
            | Some p \<Rightarrow> rbind (dn_Key p) (\<lambda>key. childKey (ld_cfg t) key childIndex)) (\<lambda>key.
     Inr \<lparr>NodeKey = mustEncodeBitstring key,
          NodeSValues = mustEncodeZZarray (map (\<lambda>_. zmk P_SKS 1) [0..<NumSamples (ld_cfg t)]),
          NumElements = 0, Leaf = True, NodeElements = []\<rparr>)"

definition ensureRoot :: "ldb \<Rightarrow> (db, unit) op" where
  "ensureRoot t m = (case ldb_Root t m of
       (Inl (Err ErrNodeNotFound), m) \<Rightarrow> op_bind (op_lift (newChildNode t None 0)) upsertNode m
     | (Inl e, m) \<Rightarrow> (Inl e, m)
     | (Inr _, m) \<Rightarrow> (Inr (), m))"

definition dn_Children :: "ldb \<Rightarrow> dnode \<Rightarrow> (db, dnode list) op" where
  "dn_Children t n =
     (if Leaf n then op_return []
      else op_bind (op_lift (dn_Key n)) (\<lambda>key.
           op_map (\<lambda>i. op_bind (op_lift (childKey (ld_cfg t) key i)) (\<lambda>k m.
               case ldb_Node t k m of
                 (Inl (Err e), m) \<Rightarrow> (Inl (Err (ErrMsg ''lookup failed on child'')), m) | r \<Rightarrow> r))
             [0..<2 ^ BitQuantum (ld_cfg t)]))"

fun dn_Elements :: "nat \<Rightarrow> ldb \<Rightarrow> dnode \<Rightarrow> (db, zp list) op" where
  "dn_Elements 0 t n = op_lift (Inl Diverge)"
| "dn_Elements (Suc fuel) t n =
     (if Leaf n then op_lift (rmap (\<lambda>e. rbind (zp_In \<lparr>zp_i = 0, zp_p = None\<rparr> (Some P_SKS)) (\<lambda>z. zp_SetBytes z e)) (NodeElements n))
      else op_bind (dn_Children t n) (\<lambda>children.
             op_fold (\<lambda>child result. op_bind (dn_Elements fuel t child) (\<lambda>es. op_return (result @ es))) children []))"

definition dn_Parent :: "ldb \<Rightarrow> dnode \<Rightarrow> (db, dnode option) op" where
  "dn_Parent t n =
     op_bind (op_lift (dn_Key n)) (\<lambda>key.
     if bs_BitLen key = 0 then op_return None
     else if bs_BitLen key < BitQuantum (ld_cfg t) then op_lift (Inl (Panic (PMsg ''makeslice: len out of range'')))
     else op_bind (op_lift (bs_SetBytes (NewBitstring (bs_BitLen key - BitQuantum (ld_cfg t))) (bs_Bytes key)))
       (\<lambda>k m. case ldb_Node t k m of
            (Inr p, m) \<Rightarrow> (Inr (Some p), m)
          | (Inl (Err e), m) \<Rightarrow> (Inl (Err (ErrMsg ''failed to get parent'')), m)
          | (Inl e, m) \<Rightarrow> (Inl e, m)))"

section \<open>Elements of a node\<close>

definition dn_updateSvalues :: "ldb \<Rightarrow> zp list \<Rightarrow> dnode \<Rightarrow> dnode res" where
  "dn_updateSvalues t marray n =
     (if length marray \<noteq> length (ld_points t) then Inl (Panic (PMsg ''Inconsistent NumSamples size''))
      else rbind (dn_SValues n) (\<lambda>sv.
        rbind (rfold (\<lambda>i sv. rbind (nth_res sv i) (\<lambda>s. rbind (nth_res marray i)
             (\<lambda>m. rbind (zp_Mul s m) (upd_res sv i)))) [0..<length marray] sv) (\<lambda>sv.
        Inr (n\<lparr>NodeSValues := mustEncodeZZarray sv\<rparr>))))"

definition insertElement :: "zp \<Rightarrow> dnode \<Rightarrow> (db, dnode) op" where
  "insertElement z n = (let n' = n\<lparr>NodeElements := NodeElements n @ [zp_Bytes z]\<rparr>
     in op_bind (upsertNode n') (\<lambda>_. op_return n'))"

definition deleteElements :: "dnode \<Rightarrow> (db, dnode) op" where
  "deleteElements n = (let n' = n\<lparr>NodeElements := []\<rparr> in op_bind (upsertNode n') (\<lambda>_. op_return n'))"

definition deleteElement :: "zp \<Rightarrow> dnode \<Rightarrow> (db, dnode) op" where
  "deleteElement z n =
     (if zp_Bytes z \<notin> set (NodeElements n) then op_lift (Inl (Err ErrElementNotFound))
      else let n' = n\<lparr>NodeElements := filter (\<lambda>e. e \<noteq> zp_Bytes z) (NodeElements n)\<rparr>
           in op_bind (upsertNode n') (\<lambda>_. op_return n'))"

section \<open>Insertion\<close>

text \<open>
  \<open>split\<close> writes the node without elements and its empty children, then inserts the elements
  into the children it holds; \<open>ins\<close> is the insertion one level down.
\<close>

definition dn_split ::
  "(zp \<Rightarrow> zp list \<Rightarrow> bitstring \<Rightarrow> nat \<Rightarrow> dnode \<Rightarrow> (db, dnode) op) \<Rightarrow> ldb \<Rightarrow> nat \<Rightarrow> dnode \<Rightarrow> (db, dnode) op" where
  "dn_split ins t depth n =
     (let splitElements = NodeElements n; n' = n\<lparr>Leaf := False, NodeElements := []\<rparr>
      in op_bind (upsertNode n') (\<lambda>_.
         op_bind (op_map (\<lambda>i. op_bind (op_lift (newChildNode t (Some n') i)) (\<lambda>child.
             op_bind (upsertNode child) (\<lambda>_. op_return child))) [0..<2 ^ BitQuantum (ld_cfg t)]) (\<lambda>children.
         op_bind (op_fold (\<lambda>element children.
             op_bind (op_lift (Zb (Some P_SKS) element)) (\<lambda>z.
             op_bind (op_lift (NewZpBitstring z)) (\<lambda>bs.
             op_bind (op_lift (NextChild (ld_cfg t) (Leaf n') bs depth)) (\<lambda>childIndex.
             op_bind (op_lift (nth_res children childIndex)) (\<lambda>child.
             op_bind (op_lift (AddElementArray (ld_points t) z)) (\<lambda>marray.
             op_bind (ins z marray bs (depth + 1) child) (\<lambda>child'.
             op_return (children[childIndex := child']))))))))
           splitElements children) (\<lambda>_.
         op_return n'))))"

text \<open>The result of \<open>insert\<close> is the node it was called on, as it is then in memory.\<close>

fun dn_insert :: "nat \<Rightarrow> ldb \<Rightarrow> zp \<Rightarrow> zp list \<Rightarrow> bitstring \<Rightarrow> nat \<Rightarrow> dnode \<Rightarrow> (db, dnode) op" where
  "dn_insert 0 t z marray bs depth n = op_lift (Inl Diverge)"
| "dn_insert (Suc fuel) t z marray bs depth n =
     op_bind (op_lift (dn_updateSvalues t marray n)) (\<lambda>n1.
     let n2 = n1\<lparr>NumElements := NumElements n1 + 1\<rparr> in
     if Leaf n2 \<and> \<not> SplitThreshold (ld_cfg t) < length (NodeElements n2)
     then op_bind (insertElement z n2) (\<lambda>n3. op_bind (upsertNode n3) (\<lambda>_. op_return n3))
     else op_bind (if Leaf n2 then dn_split (\<lambda>z m b d n. dn_insert fuel t z m b d n) t depth n2 else op_return n2) (\<lambda>n3.
          op_bind (upsertNode n3) (\<lambda>_.
          op_bind (op_lift (NextChild (ld_cfg t) (Leaf n3) bs depth)) (\<lambda>childIndex.
          op_bind (dn_Children t n3) (\<lambda>children.
          op_bind (op_lift (nth_res children childIndex)) (\<lambda>child.
          op_bind (dn_insert fuel t z marray bs (depth + 1) child) (\<lambda>_.
          op_return n3)))))))"

definition ldb_Insert :: "ldb \<Rightarrow> zp \<Rightarrow> (db, unit) op" where
  "ldb_Insert t z m =
     (if hasKey (zp_Bytes z) m then (Inl (Err ErrDuplicate), m)
      else op_bind (op_lift (NewZpBitstring z)) (\<lambda>bs.
           op_bind (ldb_Root t) (\<lambda>root.
           op_bind (op_lift (AddElementArray (ld_points t) z)) (\<lambda>marray.
           op_bind (dn_insert (bs_BitLen bs + 2) t z marray bs 0 root) (\<lambda>_.
           db_Put (zp_Bytes z) DbEmpty)))) m)"

section \<open>Removal\<close>

text \<open>\<open>join\<close> collects the elements of the direct children and deletes them.\<close>

definition dn_join :: "ldb \<Rightarrow> dnode \<Rightarrow> (db, dnode) op" where
  "dn_join t n =
     op_bind (dn_Children t n) (\<lambda>children.
     op_bind (op_fold (\<lambda>child elements. op_bind (deleteNode child) (\<lambda>_. op_return (elements @ NodeElements child))) children [])
       (\<lambda>elements. let n' = n\<lparr>NodeElements := elements, Leaf := True\<rparr>
          in op_bind (upsertNode n') (\<lambda>_. op_return n')))"

fun dn_remove :: "nat \<Rightarrow> ldb \<Rightarrow> zp \<Rightarrow> zp list \<Rightarrow> bitstring \<Rightarrow> nat \<Rightarrow> dnode \<Rightarrow> (db, unit) op" where
  "dn_remove 0 t z marray bs depth n = op_lift (Inl Diverge)"
| "dn_remove (Suc fuel) t z marray bs depth n =
     op_bind (op_lift (dn_updateSvalues t marray n)) (\<lambda>n1.
     let n2 = n1\<lparr>NumElements := NumElements n1 - 1\<rparr>;
         finish = (\<lambda>n. op_bind (deleteElement z n) upsertNode)
     in if Leaf n2 then finish n2
        else if NumElements n2 \<le> int (JoinThreshold (ld_cfg t)) then op_bind (dn_join t n2) finish
        else op_bind (upsertNode n2) (\<lambda>_.
             op_bind (op_lift (NextChild (ld_cfg t) (Leaf n2) bs depth)) (\<lambda>childIndex.
             op_bind (dn_Children t n2) (\<lambda>children.
             op_bind (op_lift (nth_res children childIndex)) (\<lambda>child.
             dn_remove fuel t z marray bs (depth + 1) child)))))"

definition ldb_Remove :: "ldb \<Rightarrow> zp \<Rightarrow> (db, unit) op" where
  "ldb_Remove t z m =
     (if \<not> hasKey (zp_Bytes z) m then (Inl (Err ErrDbNotFound), m)
      else op_bind (op_lift (NewZpBitstring z)) (\<lambda>bs.
           op_bind (ldb_Root t) (\<lambda>root.
           op_bind (op_lift (DelElementArray (ld_points t) z)) (\<lambda>marray.
           op_bind (dn_remove (bs_BitLen bs + 2) t z marray bs 0 root) (\<lambda>_.
           db_Delete (zp_Bytes z))))) m)"

end
