(* ===== verification/LevelDbSpec.thy ===== *)
theory LevelDbSpec
  imports LevelDb MessageSpec
begin

text \<open>
  What the disk tree guarantees around its lookups: refused operations write nothing, a lookup
  finds the longest stored prefix of a key of whole digits, and the key on which it panics.
\<close>

lemma op_bind_simps [simp]:
  "op_bind (op_return x) f s = f x s" "op_bind (op_lift (Inr x)) f s = f x s" "op_bind (op_lift (Inl e)) f s = (Inl e, s)"
  by (simp_all add: op_bind_def op_return_def op_lift_def)

lemma ldb_Insert_present: "hasKey (zp_Bytes z) m \<Longrightarrow> ldb_Insert t z m = (Inl (Err ErrDuplicate), m)"
  by (simp add: ldb_Insert_def)

lemma ldb_Remove_absent: "\<not> hasKey (zp_Bytes z) m \<Longrightarrow> ldb_Remove t z m = (Inl (Err ErrDbNotFound), m)"
  by (simp add: ldb_Remove_def)

section \<open>Lookups\<close>

definition stored :: "db \<Rightarrow> bitstring \<Rightarrow> dnode option" where
  "stored m key = (case m (mustEncodeBitstring key) of Some (DbNode n) \<Rightarrow> Some n | _ \<Rightarrow> None)"

lemma getNode_stored: "getNode (mustEncodeBitstring key) m =
    (case stored m key of Some n \<Rightarrow> (Inr n, m) | None \<Rightarrow> (Inl (Err ErrNodeNotFound), m))"
  by (auto simp: getNode_def stored_def split: option.splits dbval.splits)

text \<open>The prefix of \<open>j\<close> digits of a key.\<close>

definition key_prefix :: "nat \<Rightarrow> bitstring \<Rightarrow> nat \<Rightarrow> bitstring" where
  "key_prefix bq bs j = (case bs_SetBytes (NewBitstring (j * bq)) (bs_Bytes bs) of Inr k \<Rightarrow> k | Inl _ \<Rightarrow> bs)"

lemma key_prefix_ok: "bs_SetBytes (NewBitstring (j * bq)) (bs_Bytes bs) = Inr (key_prefix bq bs j)"
  "bs_BitLen (key_prefix bq bs j) = j * bq"
proof -
  have "length (bs_buf (NewBitstring (j * bq))) = byte_count (bs_bits (NewBitstring (j * bq)))"
    by (simp add: NewBitstring_buf)
  then obtain k where k: "bs_SetBytes (NewBitstring (j * bq)) (bs_Bytes bs) = Inr k" "bs_bits k = j * bq"
    using bs_SetBytes_ok[of "NewBitstring (j * bq)" "bs_Bytes bs"] by auto
  then show "bs_SetBytes (NewBitstring (j * bq)) (bs_Bytes bs) = Inr (key_prefix bq bs j)"
    "bs_BitLen (key_prefix bq bs j) = j * bq" by (simp_all add: key_prefix_def bs_BitLen_def)
qed

lemma key_prefix_self:
  assumes "bs_wf bs" "bs_BitLen bs = k * bq"
  shows "key_prefix bq bs k = bs"
proof -
  have "bs_SetBytes (NewBitstring (bs_bits bs)) (bs_buf bs) = Inr bs" using assms(1) by (rule bs_SetBytes_buf)
  then show ?thesis using assms(2) by (simp add: key_prefix_def bs_Bytes_def bs_BitLen_def)
qed

lemma node_lookup_prefix:
  assumes bq: "0 < bq" and root: "stored m (key_prefix bq bs 0) \<noteq> None"
  shows "\<exists>j n. j \<le> k \<and> node_lookup bq bs (key_prefix bq bs k) m = (Inr n, m) \<and> stored m (key_prefix bq bs j) = Some n
    \<and> (\<forall>i. j < i \<and> i \<le> k \<longrightarrow> stored m (key_prefix bq bs i) = None)"
proof (induction k)
  case 0
  then show ?case using root by (auto simp: node_lookup.simps[of bq bs "key_prefix bq bs 0"] getNode_stored)
next
  case (Suc k)
  show ?case
  proof (cases "stored m (key_prefix bq bs (Suc k))")
    case (Some n)
    then show ?thesis
      by (intro exI[of _ "Suc k"] exI[of _ n]) (auto simp: node_lookup.simps[of bq bs "key_prefix bq bs (Suc k)"] getNode_stored)
  next
    case None
    have len: "bs_BitLen (key_prefix bq bs (Suc k)) = bq + k * bq" using key_prefix_ok(2)[of bq bs "Suc k"] by simp
    have "node_lookup bq bs (key_prefix bq bs (Suc k)) m = node_lookup bq bs (key_prefix bq bs k) m"
      using None bq len key_prefix_ok(1)[of k bq bs]
      by (simp add: node_lookup.simps[of bq bs "key_prefix bq bs (Suc k)"] getNode_stored)
    with Suc.IH None show ?thesis by (metis le_Suc_eq less_Suc_eq_le)
  qed
qed

lemma ldb_Node_prefix:
  assumes "bs_wf bs" "bs_BitLen bs = k * BitQuantum (ld_cfg t)" "0 < BitQuantum (ld_cfg t)"
    "stored m (key_prefix (BitQuantum (ld_cfg t)) bs 0) \<noteq> None"
  shows "\<exists>j n. j \<le> k \<and> ldb_Node t bs m = (Inr n, m) \<and> stored m (key_prefix (BitQuantum (ld_cfg t)) bs j) = Some n
    \<and> (\<forall>i. j < i \<and> i \<le> k \<longrightarrow> stored m (key_prefix (BitQuantum (ld_cfg t)) bs i) = None)"
  using node_lookup_prefix[OF assms(3,4), of k] key_prefix_self[OF assms(1,2)] by (simp add: ldb_Node_def)

text \<open>A key shorter than a digit that is not stored makes the lookup panic.\<close>

lemma ldb_Node_short_panics:
  assumes "0 < bs_BitLen bs" "bs_BitLen bs < BitQuantum (ld_cfg t)" "stored m bs = None"
  shows "ldb_Node t bs m = (Inl (Panic (PMsg ''makeslice: len out of range'')), m)"
  using assms by (simp add: ldb_Node_def node_lookup.simps[of "BitQuantum (ld_cfg t)" bs bs] getNode_stored)

section \<open>The root\<close>

lemma newChildNode_root:
  "\<exists>n. newChildNode t None i = Inr n \<and> NodeKey n = mustEncodeBitstring (NewBitstring 0) \<and> Leaf n \<and> NumElements n = 0 \<and> NodeElements n = []"
  by (simp add: newChildNode_def)

lemma ensureRoot_ok:
  assumes "stored m (NewBitstring 0) = None"
  shows "\<exists>n. ensureRoot t m = (Inr (), m(mustEncodeBitstring (NewBitstring 0) \<mapsto> DbNode n)) \<and> Leaf n \<and> NumElements n = 0 \<and> NodeElements n = []"
proof -
  obtain n where n: "newChildNode t None 0 = Inr n" "NodeKey n = mustEncodeBitstring (NewBitstring 0)" "Leaf n" "NumElements n = 0" "NodeElements n = []"
    using newChildNode_root by blast
  have "ldb_Root t m = (Inl (Err ErrNodeNotFound), m)"
    using assms by (simp add: ldb_Root_def ldb_Node_def node_lookup.simps[of _ _ "NewBitstring 0"] getNode_stored bs_BitLen_def)
  with n show ?thesis by (intro exI[of _ n]) (simp add: ensureRoot_def upsertNode_def db_Put_def)
qed

lemma ensureRoot_present:
  assumes "stored m (NewBitstring 0) = Some n"
  shows "ensureRoot t m = (Inr (), m)"
  using assms by (simp add: ensureRoot_def ldb_Root_def ldb_Node_def node_lookup.simps[of _ _ "NewBitstring 0"] getNode_stored)

end
