(* ===== verification/Packets.thy ===== *)
theory Packets
  imports Prelude
begin

text \<open>
  OpenPGP packets as bytes: the framing that \<open>OpaquePacket.Serialize\<close> writes and
  \<open>OpaqueReader.Next\<close> reads (the vendored \<open>go-crypto/openpgp/packet\<close>), the body length that
  \<open>pubkey.go\<close> reads off a framed packet, the cleaning of strings (\<open>strings.go\<close>), subpackets and
  notations (\<open>subpacket.go\<close>), and Go's insertion sort. Go strings are byte lists here.
\<close>

unbundle bit_operations_syntax

section \<open>Go strings, bytes and sorting\<close>

type_synonym gostring = "byte list"

definition lit :: "string \<Rightarrow> gostring" where
  "lit s = map of_char s"

definition hex_digit :: "nat \<Rightarrow> byte" where
  "hex_digit n = of_nat (if n < 10 then 48 + n else 87 + n)"

definition hex_EncodeToString :: "byte list \<Rightarrow> gostring" where
  "hex_EncodeToString bs = concat (map (\<lambda>b. [hex_digit (unat b div 16), hex_digit (unat b mod 16)]) bs)"

text \<open>
  \<open>bytes.Compare\<close> and the comparison of Go strings: lexicographic on bytes. \<open>binary.Write\<close> of
  an \<open>int32\<close> in big-endian order.
\<close>

fun bytes_less :: "byte list \<Rightarrow> byte list \<Rightarrow> bool" where
  "bytes_less _ [] = False"
| "bytes_less [] (_ # _) = True"
| "bytes_less (x # xs) (y # ys) = (x < y \<or> x = y \<and> bytes_less xs ys)"

definition be32 :: "nat \<Rightarrow> byte list" where
  "be32 n = [of_nat (n div 2 ^ 24), of_nat (n div 2 ^ 16), of_nat (n div 2 ^ 8), of_nat n]"

text \<open>
  The insertion sort of Go's \<open>sort.Sort\<close>: each element moves left past the elements it is less
  than. \<open>sort.Sort\<close> runs it on slices of up to 12 elements; on longer ones it may order elements
  that compare equal differently.
\<close>

fun insert_left :: "('a \<Rightarrow> 'a \<Rightarrow> bool) \<Rightarrow> 'a \<Rightarrow> 'a list \<Rightarrow> 'a list" where
  "insert_left lt x [] = [x]"
| "insert_left lt x (y # ys) = (if lt x y then y # insert_left lt x ys else x # y # ys)"

definition sort_Sort :: "('a \<Rightarrow> 'a \<Rightarrow> bool) \<Rightarrow> 'a list \<Rightarrow> 'a list" where
  "sort_Sort lt xs = rev (fold (insert_left lt) xs [])"

section \<open>Packet framing\<close>

record OpaquePacket =
  op_Tag :: byte
  op_Contents :: "byte list"

definition serializeLength :: "nat \<Rightarrow> byte list" where
  "serializeLength n =
    (if n < 192 then [of_nat n]
     else if n < 8384 then [192 + of_nat ((n - 192) div 256), of_nat (n - 192)]
     else 255 # be32 n)"

definition serializeHeader :: "byte \<Rightarrow> nat \<Rightarrow> byte list" where
  "serializeHeader tag n = (0x80 OR 0x40 OR tag) # serializeLength n"

definition op_Serialize :: "OpaquePacket \<Rightarrow> byte list" where
  "op_Serialize op = serializeHeader (op_Tag op) (length (op_Contents op)) @ op_Contents op"

definition be_value :: "byte list \<Rightarrow> nat" where
  "be_value bs = le_value (rev bs)"

text \<open>\<open>readLength\<close> returns the length, whether it is partial, and the rest of the input.\<close>

definition readLength :: "byte list \<Rightarrow> (nat \<times> bool \<times> byte list) res" where
  "readLength bs = (case bs of
     [] \<Rightarrow> Inl (Err ErrUnexpectedEOF)
   | b # r \<Rightarrow>
      (if b < 192 then Inr (unat b, False, r)
       else if b < 224 then (case r of
           [] \<Rightarrow> Inl (Err ErrUnexpectedEOF)
         | c # r' \<Rightarrow> Inr (unat (b - 192) * 256 + unat c + 192, False, r'))
       else if b < 255 then Inr (2 ^ unat (b AND 0x1f), True, r)
       else if length r < 4 then Inl (Err ErrUnexpectedEOF)
       else Inr (be_value (take 4 r), False, drop 4 r)))"

lemma readLength_shrinks: "readLength bs = Inr (n, p, r) \<Longrightarrow> length r < length bs"
  by (auto simp: readLength_def split: list.splits if_splits)

text \<open>
  \<open>io.ReadAll\<close> of a \<open>spanReader\<close> (a body of known length) and of a \<open>partialLengthReader\<close> (chunks,
  the last of them not partial): the body and the rest of the input.
\<close>

definition readSpan :: "nat \<Rightarrow> byte list \<Rightarrow> (byte list \<times> byte list) res" where
  "readSpan n bs = (if length bs < n then Inl (Err ErrUnexpectedEOF) else Inr (take n bs, drop n bs))"

function readPartial :: "nat \<Rightarrow> bool \<Rightarrow> byte list \<Rightarrow> (byte list \<times> byte list) res" where
  "readPartial n partial bs =
    (if length bs < n then Inl (Err ErrUnexpectedEOF)
     else if \<not> partial then Inr (take n bs, drop n bs)
     else case readLength (drop n bs) of
         Inl e \<Rightarrow> Inl e
       | Inr (n', partial', r) \<Rightarrow> rbind (readPartial n' partial' r) (\<lambda>(body, r'). Inr (take n bs @ body, r')))"
  by pat_completeness auto
termination
  by (relation "measure (\<lambda>(_, _, bs). length bs)") (auto dest!: readLength_shrinks)

text \<open>\<open>OpaqueReader.Next\<close>: \<open>readHeader\<close> and the reading of the body.\<close>

definition or_Next :: "byte list \<Rightarrow> (OpaquePacket \<times> byte list) res" where
  "or_Next bs = (case bs of
     [] \<Rightarrow> Inl (Err ErrEOF)
   | b # r \<Rightarrow>
      (if b AND 0x80 = 0 then Inl (Err (ErrMsg ''tag byte does not have MSB set''))
       else if b AND 0x40 = 0 then
         (let tag = drop_bit 2 (b AND 0x3f); lengthType = b AND 3 in
          if lengthType = 3 then Inr (\<lparr>op_Tag = tag, op_Contents = r\<rparr>, [])
          else
            let lengthBytes = 2 ^ unat lengthType in
            if length r < lengthBytes then Inl (Err ErrUnexpectedEOF)
            else rbind (readSpan (be_value (take lengthBytes r)) (drop lengthBytes r)) (\<lambda>(body, rest).
              Inr (\<lparr>op_Tag = tag, op_Contents = body\<rparr>, rest)))
       else
         let tag = b AND 0x3f in
         rbind (readLength r) (\<lambda>(n, partial, r').
         rbind (if partial then readPartial n True r' else readSpan n r') (\<lambda>(body, rest).
           Inr (\<lparr>op_Tag = tag, op_Contents = body\<rparr>, rest)))))"

definition newOpaquePacket :: "byte list \<Rightarrow> OpaquePacket res" where
  "newOpaquePacket buf = rbind (or_Next buf) (\<lambda>(op, _). Inr op)"

text \<open>The length of the body of a framed packet, as \<open>updateMD5\<close> counts it.\<close>

definition packetBodyLength :: "byte list \<Rightarrow> int res" where
  "packetBodyLength packet =
    rbind (nth_res packet 0) (\<lambda>b0.
      if b0 AND 0xc0 = 0xc0 then
        rbind (nth_res packet 1) (\<lambda>b1.
          if b1 \<le> 191 then Inr (int (length packet) - 2)
          else if b1 \<le> 223 then Inr (int (length packet) - 3)
          else if b1 = 255 then Inr 0
          else Inr (int (length packet) - 6))
      else if b0 AND 0xc0 = 0x80 then
        (let lengthType = b0 AND 0x03 in
         if lengthType = 0 then Inr (int (length packet) - 2)
         else if lengthType = 1 then Inr (int (length packet) - 3)
         else if lengthType = 2 then Inr (int (length packet) - 5)
         else Inr 0)
      else Inr 0)"


section \<open>UTF-8\<close>

text \<open>
  \<open>for _, r := range s\<close> decodes runes; a byte that starts no valid encoding is
  \<open>utf8.RuneError\<close> and one byte wide. \<open>string(runes)\<close> encodes them again.
\<close>

definition RuneError :: nat where "RuneError = 0xFFFD"

abbreviation cont_in :: "nat \<Rightarrow> nat \<Rightarrow> byte \<Rightarrow> bool" where
  "cont_in lo hi b \<equiv> lo \<le> unat b \<and> unat b \<le> hi"

definition DecodeRune :: "byte list \<Rightarrow> nat \<times> nat" where
  "DecodeRune bs = (case bs of
     [] \<Rightarrow> (RuneError, 0)
   | b0 # r \<Rightarrow>
      (let c = unat b0 in
       if c < 0x80 then (c, 1)
       else if 0xC2 \<le> c \<and> c \<le> 0xDF then (case r of
           b1 # _ \<Rightarrow> if cont_in 0x80 0xBF b1 then (c mod 32 * 64 + unat b1 mod 64, 2) else (RuneError, 1)
         | _ \<Rightarrow> (RuneError, 1))
       else if 0xE0 \<le> c \<and> c \<le> 0xEF then (case r of
           b1 # b2 # _ \<Rightarrow>
             if cont_in (if c = 0xE0 then 0xA0 else 0x80) (if c = 0xED then 0x9F else 0xBF) b1
                \<and> cont_in 0x80 0xBF b2
             then (c mod 16 * 4096 + unat b1 mod 64 * 64 + unat b2 mod 64, 3) else (RuneError, 1)
         | _ \<Rightarrow> (RuneError, 1))
       else if 0xF0 \<le> c \<and> c \<le> 0xF4 then (case r of
           b1 # b2 # b3 # _ \<Rightarrow>
             if cont_in (if c = 0xF0 then 0x90 else 0x80) (if c = 0xF4 then 0x8F else 0xBF) b1
                \<and> cont_in 0x80 0xBF b2 \<and> cont_in 0x80 0xBF b3
             then (c mod 8 * 262144 + unat b1 mod 64 * 4096 + unat b2 mod 64 * 64 + unat b3 mod 64, 4)
             else (RuneError, 1)
         | _ \<Rightarrow> (RuneError, 1))
       else (RuneError, 1)))"

lemma DecodeRune_size: "bs \<noteq> [] \<Longrightarrow> 0 < snd (DecodeRune bs) \<and> snd (DecodeRune bs) \<le> length bs"
  by (auto simp: DecodeRune_def Let_def split: list.splits)

function go_runes :: "byte list \<Rightarrow> nat list" where
  "go_runes bs = (if bs = [] then []
     else fst (DecodeRune bs) # go_runes (drop (snd (DecodeRune bs)) bs))"
  by pat_completeness auto
termination
  by (relation "measure length") (use DecodeRune_size in auto)

declare go_runes.simps [simp del]

definition EncodeRune :: "nat \<Rightarrow> byte list" where
  "EncodeRune r =
    (if r < 0x80 then [of_nat r]
     else if r < 0x800 then [of_nat (0xC0 + r div 64), of_nat (0x80 + r mod 64)]
     else if 0x10FFFF < r \<or> 0xD800 \<le> r \<and> r \<le> 0xDFFF then [0xEF, 0xBF, 0xBD]
     else if r < 0x10000 then
       [of_nat (0xE0 + r div 4096), of_nat (0x80 + r div 64 mod 64), of_nat (0x80 + r mod 64)]
     else [of_nat (0xF0 + r div 262144), of_nat (0x80 + r div 4096 mod 64),
           of_nat (0x80 + r div 64 mod 64), of_nat (0x80 + r mod 64)])"

fun clean_runes :: "nat list \<Rightarrow> nat list res" where
  "clean_runes [] = Inr []"
| "clean_runes (r # rs) =
    (let r = if r = RuneError then 63 else r in
     if r = 0 then Inl (Err (ErrMsg ''null byte found in string''))
     else if r < 0x20 \<or> r = 0x7f then clean_runes rs
     else rbind (clean_runes rs) (\<lambda>out. Inr (r # out)))"

definition CleanUtf8 :: "gostring \<Rightarrow> gostring res" where
  "CleanUtf8 s = rbind (clean_runes (go_runes s)) (\<lambda>rs. Inr (concat (map EncodeRune rs)))"

section \<open>Subpackets\<close>

record outputSubpacket =
  os_type :: byte
  os_isCritical :: bool
  os_contents :: "byte list"

record OpaqueSubpacket =
  osp_SubType :: byte
  osp_Contents :: "byte list"

record Notation =
  nt_Name :: gostring
  nt_Value :: "byte list"
  nt_IsHumanReadable :: bool
  nt_IsCritical :: bool

definition subpacketLengthLength :: "nat \<Rightarrow> nat" where
  "subpacketLengthLength n = (if n < 192 then 1 else if n < 16320 then 2 else 5)"

text \<open>The bytes \<open>serializeSubpacketLength\<close> stores at the start of \<open>to\<close>.\<close>

definition serializeSubpacketLength :: "nat \<Rightarrow> byte list" where
  "serializeSubpacketLength n =
    (if n < 192 then [of_nat n]
     else if n < 16320 then [of_nat ((n - 192) div 256 + 192), of_nat (n - 192)]
     else 255 # be32 n)"

definition subpacketsLength :: "outputSubpacket list \<Rightarrow> nat" where
  "subpacketsLength sps =
    sum_list (map (\<lambda>sp. subpacketLengthLength (length (os_contents sp) + 1) + 1 + length (os_contents sp)) sps)"

text \<open>
  \<open>serializeSubpackets\<close> fills the slice \<open>to\<close>: the header writes panic beyond its end, \<open>copy\<close>
  stops there.
\<close>

fun serializeSubpackets :: "byte list \<Rightarrow> outputSubpacket list \<Rightarrow> byte list res" where
  "serializeSubpackets to [] = Inr to"
| "serializeSubpackets to (sp # sps) =
    (let h = serializeSubpacketLength (length (os_contents sp) + 1)
           @ [if os_isCritical sp then os_type sp OR 0x80 else os_type sp];
         c = os_contents sp in
     if length to < length h then Inl (Panic PIndex)
     else let n = min (length c) (length to - length h) in
       rbind (serializeSubpackets (drop (length h + n) to) sps) (\<lambda>rest. Inr (h @ take n c @ rest)))"

text \<open>\<open>OpaqueSubpackets\<close> of \<open>go-crypto\<close>: the inverse; it stops at the first malformed subpacket.\<close>

definition nextSubpacket :: "byte list \<Rightarrow> (nat \<times> OpaqueSubpacket) res" where
  "nextSubpacket contents =
    (let truncated = Inl (Err (ErrMsg ''subpacket truncated''));
         body = (\<lambda>hl n r. if n > length r \<or> n = 0 then truncated
                   else Inr (hl, \<lparr>osp_SubType = hd r, osp_Contents = take (n - 1) (tl r)\<rparr>)) in
     case contents of
       [] \<Rightarrow> truncated
     | b # r \<Rightarrow>
        (if b < 192 then (if length contents < 2 then truncated else body 2 (unat b) r)
         else if b < 255 then
           (if length contents < 3 then truncated
            else body 3 (unat (b - 192) * 256 + unat (hd r) + 192) (tl r))
         else if length contents < 6 then truncated
         else body 6 (be_value (take 4 r)) (drop 4 r)))"

lemma nextSubpacket_size:
  "nextSubpacket bs = Inr (hl, osp) \<Longrightarrow> 0 < hl \<and> bs \<noteq> []"
  by (auto simp: nextSubpacket_def Let_def split: list.splits if_splits)

function OpaqueSubpackets :: "byte list \<Rightarrow> OpaqueSubpacket list res" where
  "OpaqueSubpackets bs = (if bs = [] then Inr []
     else case nextSubpacket bs of
        Inl e \<Rightarrow> Inl e
      | Inr (hl, osp) \<Rightarrow>
          rbind (OpaqueSubpackets (drop (hl + length (osp_Contents osp)) bs)) (\<lambda>osps. Inr (osp # osps)))"
  by pat_completeness auto
termination
  by (relation "measure length") (auto dest: nextSubpacket_size)

declare OpaqueSubpackets.simps [simp del]

definition getData :: "Notation \<Rightarrow> byte list" where
  "getData nt =
    (let nameLen = length (nt_Name nt); valueLen = length (nt_Value nt) in
     [if nt_IsHumanReadable nt then 0x80 else 0, 0, 0, 0,
      of_nat (nameLen div 256), of_nat nameLen, of_nat (valueLen div 256), of_nat valueLen]
     @ nt_Name nt @ nt_Value nt)"

definition parseNotation :: "OpaqueSubpacket \<Rightarrow> Notation res" where
  "parseNotation osp =
    (let s = osp_Contents osp; bad = Inl (Err (ErrMsg ''notation data subpacket with bad length'')) in
     if length s < 8 then bad
     else
       let nameLength = unat (s ! 4) * 256 + unat (s ! 5); valueLength = unat (s ! 6) * 256 + unat (s ! 7) in
       if length s \<noteq> nameLength + valueLength + 8 then bad
       else Inr \<lparr>nt_Name = take nameLength (drop 8 s), nt_Value = drop (nameLength + 8) s,
                 nt_IsHumanReadable = (s ! 0 AND 0x80 = 0x80),
                 nt_IsCritical = (osp_SubType osp AND 0x80 = 0x80)\<rparr>)"

end
