(* ===== verification/OpenPgp.thy ===== *)
theory OpenPgp
  imports Packets Messages
begin

text \<open>
  OpenPGP certificates, package \<open>openpgp\<close>: the packet types (\<open>types.go\<close>, \<open>signature.go\<close>,
  \<open>trust.go\<close>, \<open>userid.go\<close>, \<open>subkey.go\<close>, \<open>pubkey.go\<close>) and the parsing of single packets.

  The embedded structs of Go are record extensions. Signatures and trust packets contain each
  other, so their plain fields form a record and the pointers a datatype around it. \<open>p_ptr\<close> is
  the address of the object a Go pointer refers to: two nodes are the same pointer when it is
  equal, which is all that \<open>without\<close> compares.

  The parsers and signature checks of go-crypto, the hash functions, the Unicode tables and the
  clock are the fields of \<open>gocrypto\<close>. Times are nanoseconds since 1970.
\<close>

unbundle bit_operations_syntax

section \<open>Parsed packets and the library\<close>

type_synonym time = int

definition second :: int where "second = 1000000000"

definition zeroTime :: time where "zeroTime = -62135596800 * second"

definition IsZero :: "time \<Rightarrow> bool" where "IsZero t = (t = zeroTime)"

definition Unix :: "time \<Rightarrow> int" where "Unix t = t div second"

record psig =
  ps_body :: "byte list"
  ps_Version :: int
  ps_SigType :: byte
  ps_PubKeyAlgo :: byte
  ps_CreationTime :: time
  ps_IssuerKeyId :: "64 word option"
  ps_IssuerFingerprint :: "byte list"
  ps_SigLifetimeSecs :: "32 word option"
  ps_KeyLifetimeSecs :: "32 word option"
  ps_IsPrimaryId :: "bool option"
  ps_RevocationReason :: "byte option"
  ps_PolicyURI :: gostring

record psigV3 =
  p3_body :: "byte list"
  p3_SigType :: byte
  p3_PubKeyAlgo :: byte
  p3_CreationTime :: time
  p3_IssuerKeyId :: "64 word"

record ppub =
  pp_body :: "byte list"
  pp_Version :: int
  pp_IsSubkey :: bool
  pp_Fingerprint :: "byte list"
  pp_CreationTime :: time
  pp_PubKeyAlgo :: byte
  pp_BitLength :: "16 word option"
  pp_Curve :: "gostring option"

record ppubV3 = ppub +
  pp_KeyId :: "64 word"
  pp_DaysToExpire :: "16 word"

datatype parsed = PSig psig | PSigV3 psigV3 | PPub ppub | PPubV3 ppubV3
  | PUserId gostring | PTrust "byte list" | POther

record gocrypto =
  gc_Parse :: "OpaquePacket \<Rightarrow> parsed res"
  gc_VerifyRevocationSignature :: "ppub \<Rightarrow> psig \<Rightarrow> bool"
  gc_VerifyRevocationHashTag :: "ppub \<Rightarrow> psig \<Rightarrow> bool"
  gc_VerifyRevocationSignatureV3 :: "parsed \<Rightarrow> psigV3 \<Rightarrow> bool"
  gc_VerifyRevocationHashTagV3 :: "parsed \<Rightarrow> psigV3 \<Rightarrow> bool"
  gc_VerifyKeySignature :: "ppub \<Rightarrow> ppub \<Rightarrow> psig \<Rightarrow> bool"
  gc_VerifyKeyHashTag :: "ppub \<Rightarrow> ppub \<Rightarrow> psig \<Rightarrow> bool"
  gc_VerifyKeySignatureV3 :: "parsed \<Rightarrow> parsed \<Rightarrow> psigV3 \<Rightarrow> bool"
  gc_VerifyKeyHashTagV3 :: "parsed \<Rightarrow> parsed \<Rightarrow> psigV3 \<Rightarrow> bool"
  gc_VerifyUserIdSignature :: "ppub \<Rightarrow> gostring \<Rightarrow> ppub \<Rightarrow> psig \<Rightarrow> bool"
  gc_VerifyUserIdHashTag :: "ppub \<Rightarrow> gostring \<Rightarrow> psig \<Rightarrow> bool"
  gc_VerifyUserIdSignatureV3 :: "parsed \<Rightarrow> gostring \<Rightarrow> parsed \<Rightarrow> psigV3 \<Rightarrow> bool"
  gc_VerifyUserIdHashTagV3 :: "parsed \<Rightarrow> gostring \<Rightarrow> psigV3 \<Rightarrow> bool"
  gc_md5 :: "byte list \<Rightarrow> byte list"
  gc_sha256 :: "byte list \<Rightarrow> byte list"
  gc_base64 :: "byte list \<Rightarrow> gostring"
  gc_ToLower :: "gostring \<Rightarrow> gostring"
  gc_IsLetterOrNumber :: "nat \<Rightarrow> bool"
  gc_now :: time

section \<open>The packet types\<close>

record Packet =
  p_ptr :: nat
  p_UUID :: gostring
  p_Tag :: byte
  p_Count :: int
  p_Data :: "byte list"

record sigFields = Packet +
  sf_SigType :: byte
  sf_Version :: byte
  sf_Algorithm :: byte
  sf_IssuerKeyID :: gostring
  sf_IssuerFpVersion :: byte
  sf_IssuerFingerprint :: gostring
  sf_Creation :: time
  sf_Expiration :: time
  sf_Primary :: bool
  sf_RevocationReason :: "byte option"
  sf_PolicyURI :: gostring

record trustFields = Packet +
  tf_Value :: byte
  tf_Flags :: byte
  tf_AppContext :: gostring
  tf_PacketContext :: byte
  tf_Notations :: "Notation list"

datatype Signature = Signature (sg: sigFields) (sg_Trusts: "Trust list")
  and Trust = Trust (tr: trustFields) (tr_Signatures: "Signature list")

record UserID = Packet +
  uid_Keywords :: gostring
  uid_ValidSince :: time
  uid_Expiration :: time
  uid_IsRevoked :: bool
  uid_Trusts :: "Trust list"
  uid_Signatures :: "Signature list"

record PublicKey = Packet +
  pub_Fingerprint :: gostring
  pub_Version :: byte
  pub_VFingerprint :: gostring
  pub_KeyID :: gostring
  pub_Creation :: time
  pub_Expiration :: time
  pub_IsRevoked :: bool
  pub_Algorithm :: int
  pub_BitLen :: int
  pub_Curve :: gostring
  pub_Trusts :: "Trust list"
  pub_Signatures :: "Signature list"

type_synonym SubKey = PublicKey

record PrimaryKey = PublicKey +
  pk_MD5 :: gostring
  pk_Length :: int
  pk_SubKeys :: "SubKey list"
  pk_UserIDs :: "UserID list"
  pk_RedactedUserIDs :: "UserID list"
  pk_TrustMD5 :: gostring

text \<open>\<open>packetNode\<close>, the interface of all packets, and \<open>contents\<close>.\<close>

datatype packetNode = PubNode PrimaryKey | SubNode SubKey | UidNode UserID | SigNode Signature | TrustNode Trust

definition node_packet :: "packetNode \<Rightarrow> Packet" where
  "node_packet n = (case n of PubNode k \<Rightarrow> Packet.truncate k | SubNode k \<Rightarrow> Packet.truncate k
     | UidNode u \<Rightarrow> Packet.truncate u | SigNode s \<Rightarrow> Packet.truncate (sg s) | TrustNode t \<Rightarrow> Packet.truncate (tr t))"

definition trust_contents :: "Trust \<Rightarrow> packetNode list" where
  "trust_contents t = [TrustNode t]"

definition sig_contents :: "Signature \<Rightarrow> packetNode list" where
  "sig_contents s = SigNode s # concat (map trust_contents (sg_Trusts s))"

definition uid_contents :: "UserID \<Rightarrow> packetNode list" where
  "uid_contents u = UidNode u # concat (map trust_contents (uid_Trusts u))
     @ concat (map sig_contents (uid_Signatures u))"

definition subkey_contents :: "SubKey \<Rightarrow> packetNode list" where
  "subkey_contents k = SubNode k # concat (map trust_contents (pub_Trusts k))
     @ concat (map sig_contents (pub_Signatures k))"

definition key_contents :: "PrimaryKey \<Rightarrow> packetNode list" where
  "key_contents k = PubNode k # concat (map trust_contents (pub_Trusts k))
     @ concat (map sig_contents (pub_Signatures k))
     @ concat (map uid_contents (pk_UserIDs k)) @ concat (map subkey_contents (pk_SubKeys k))"

section \<open>Parsing signatures\<close>

definition opaquePacket :: "'a Packet_scheme \<Rightarrow> OpaquePacket res" where
  "opaquePacket p = newOpaquePacket (p_Data p)"

definition scopedDigest :: "gocrypto \<Rightarrow> gostring list \<Rightarrow> gostring \<Rightarrow> byte list \<Rightarrow> gostring" where
  "scopedDigest E parents tag packet =
     gc_base64 E (gc_sha256 E (concat (map (\<lambda>p. p @ tag) parents) @ packet))"

abbreviation "sigTag \<equiv> lit ''{sig}''"
abbreviation "uidTag \<equiv> lit ''{uid}''"
abbreviation "trustTag \<equiv> lit ''{trust}''"

abbreviation "ErrInvalidPacketType \<equiv> ErrMsg ''invalid packet type''"
abbreviation "ErrMismatchedPacketVersion \<equiv> ErrMsg ''mismatched packet version''"

definition keyid_hex :: "64 word \<Rightarrow> gostring" where
  "keyid_hex w = hex_EncodeToString (be32 (unat w div 2 ^ 32) @ be32 (unat w mod 2 ^ 32))"

definition emptySig :: "nat \<Rightarrow> gostring \<Rightarrow> byte \<Rightarrow> byte list \<Rightarrow> sigFields" where
  "emptySig ptr uuid tag data =
    \<lparr>p_ptr = ptr, p_UUID = uuid, p_Tag = tag, p_Count = 0, p_Data = data,
     sf_SigType = 0, sf_Version = 0, sf_Algorithm = 0, sf_IssuerKeyID = [], sf_IssuerFpVersion = 0,
     sf_IssuerFingerprint = [], sf_Creation = zeroTime, sf_Expiration = zeroTime, sf_Primary = False,
     sf_RevocationReason = None, sf_PolicyURI = []\<rparr>"

text \<open>The time at which a signature expires: the earlier of its own and the key's lifetime.\<close>

definition sigExpiration :: "psig \<Rightarrow> time \<Rightarrow> time" where
  "sigExpiration s keyCreationTime =
    (let e = (case ps_SigLifetimeSecs s of None \<Rightarrow> zeroTime
                | Some n \<Rightarrow> ps_CreationTime s + int (unat n) * second) in
     case ps_KeyLifetimeSecs s of None \<Rightarrow> e
     | Some n \<Rightarrow>
         (let keyExpiration = keyCreationTime + int (unat n) * second in
          if IsZero e \<or> keyExpiration < e then keyExpiration else e))"

definition setSignature :: "sigFields \<Rightarrow> psig \<Rightarrow> time \<Rightarrow> sigFields res" where
  "setSignature sig s keyCreationTime = (case ps_IssuerKeyId s of
     None \<Rightarrow> Inl (Err (ErrMsg ''missing issuer key ID''))
   | Some keyId \<Rightarrow> Inr (sig\<lparr>
       sf_Creation := ps_CreationTime s, sf_SigType := ps_SigType s, sf_Version := of_int (ps_Version s),
       sf_Algorithm := ps_PubKeyAlgo s, sf_RevocationReason := ps_RevocationReason s,
       sf_PolicyURI := (case CleanUtf8 (ps_PolicyURI s) of Inr u \<Rightarrow> u | Inl _ \<Rightarrow> []),
       sf_IssuerKeyID := keyid_hex keyId,
       sf_IssuerFingerprint := hex_EncodeToString (ps_IssuerFingerprint s),
       sf_IssuerFpVersion :=
         (if length (ps_IssuerFingerprint s) = 32 \<and> ps_Version s \<noteq> 6 then 5
          else if length (ps_IssuerFingerprint s) \<noteq> 0 then of_int (ps_Version s) else sf_IssuerFpVersion sig),
       sf_Expiration := sigExpiration s keyCreationTime,
       sf_Primary := (ps_IsPrimaryId s = Some True)\<rparr>))"

definition setSignatureV3 :: "sigFields \<Rightarrow> psigV3 \<Rightarrow> sigFields res" where
  "setSignatureV3 sig s = Inr (sig\<lparr>sf_Creation := p3_CreationTime s, sf_SigType := p3_SigType s,
     sf_Version := 3, sf_Algorithm := p3_PubKeyAlgo s, sf_IssuerKeyID := keyid_hex (p3_IssuerKeyId s)\<rparr>)"

definition sig_parse :: "gocrypto \<Rightarrow> sigFields \<Rightarrow> OpaquePacket \<Rightarrow> time \<Rightarrow> sigFields res" where
  "sig_parse E sig op keyCreationTime = rbind (gc_Parse E op) (\<lambda>p. case p of
     PSig s \<Rightarrow> setSignature sig s keyCreationTime
   | PSigV3 s \<Rightarrow> setSignatureV3 sig s
   | _ \<Rightarrow> Inl (Err ErrInvalidPacketType))"

definition ParseSignature :: "gocrypto \<Rightarrow> nat \<Rightarrow> OpaquePacket \<Rightarrow> time \<Rightarrow> gostring \<Rightarrow> gostring \<Rightarrow> Signature res" where
  "ParseSignature E ptr op keyCreationTime pubkeyUUID scopedUUID =
    (let buf = op_Serialize op in
     rbind (sig_parse E (emptySig ptr (scopedDigest E [pubkeyUUID, scopedUUID] sigTag buf) (op_Tag op) buf)
              op keyCreationTime) (\<lambda>sig. Inr (Signature sig [])))"

definition signaturePacket :: "gocrypto \<Rightarrow> Signature \<Rightarrow> psig res" where
  "signaturePacket E sig = rbind (opaquePacket (sg sig)) (\<lambda>op. rbind (gc_Parse E op) (\<lambda>p. case p of
     PSig s \<Rightarrow> Inr s | _ \<Rightarrow> Inl (Err (ErrMsg ''expected signature packet''))))"

definition signatureV3Packet :: "gocrypto \<Rightarrow> Signature \<Rightarrow> psigV3 res" where
  "signatureV3Packet E sig = rbind (opaquePacket (sg sig)) (\<lambda>op. rbind (gc_Parse E op) (\<lambda>p. case p of
     PSigV3 s \<Rightarrow> Inr s | _ \<Rightarrow> Inl (Err (ErrMsg ''expected signature V3 packet''))))"

section \<open>Parsing user IDs\<close>

definition ParseUserID :: "gocrypto \<Rightarrow> nat \<Rightarrow> OpaquePacket \<Rightarrow> gostring \<Rightarrow> UserID res" where
  "ParseUserID E ptr op parentID =
    (let buf = op_Serialize op in
     rbind (gc_Parse E op) (\<lambda>p. case p of
       PUserId i \<Rightarrow> rbind (CleanUtf8 i) (\<lambda>keywords. Inr
         \<lparr>p_ptr = ptr, p_UUID = scopedDigest E [parentID] uidTag buf, p_Tag = op_Tag op, p_Count = 0, p_Data = buf,
          uid_Keywords = keywords, uid_ValidSince = zeroTime, uid_Expiration = zeroTime, uid_IsRevoked = False,
          uid_Trusts = [], uid_Signatures = []\<rparr>)
     | _ \<Rightarrow> Inl (Err ErrInvalidPacketType)))"

definition userIDPacket :: "gocrypto \<Rightarrow> UserID \<Rightarrow> gostring res" where
  "userIDPacket E uid = rbind (opaquePacket uid) (\<lambda>op. rbind (gc_Parse E op) (\<lambda>p. case p of
     PUserId i \<Rightarrow> Inr i | _ \<Rightarrow> Inl (Err (ErrMsg ''expected user ID packet''))))"

text \<open>\<open>strings.Index\<close>, \<open>LastIndex\<close> and \<open>Split\<close> for a one-byte separator, and \<open>FieldsFunc\<close>.\<close>

fun go_Index :: "byte \<Rightarrow> gostring \<Rightarrow> nat option" where
  "go_Index c [] = None"
| "go_Index c (x # xs) = (if x = c then Some 0 else map_option Suc (go_Index c xs))"

definition go_LastIndex :: "byte \<Rightarrow> gostring \<Rightarrow> nat option" where
  "go_LastIndex c s = map_option (\<lambda>i. length s - 1 - i) (go_Index c (rev s))"

fun go_Split :: "byte \<Rightarrow> gostring \<Rightarrow> gostring list" where
  "go_Split c [] = [[]]"
| "go_Split c (x # xs) =
    (if x = c then [] # go_Split c xs
     else case go_Split c xs of [] \<Rightarrow> [[x]] | f # fs \<Rightarrow> (x # f) # fs)"

function rune_segments :: "byte list \<Rightarrow> (nat \<times> byte list) list" where
  "rune_segments bs = (if bs = [] then []
     else (fst (DecodeRune bs), take (snd (DecodeRune bs)) bs) # rune_segments (drop (snd (DecodeRune bs)) bs))"
  by pat_completeness auto
termination
  by (relation "measure length") (use DecodeRune_size in auto)

declare rune_segments.simps [simp del]

fun fields_from :: "(nat \<Rightarrow> bool) \<Rightarrow> gostring \<Rightarrow> (nat \<times> byte list) list \<Rightarrow> gostring list" where
  "fields_from sep cur [] = (if cur = [] then [] else [cur])"
| "fields_from sep cur ((r, bs) # rest) =
    (if sep r then (if cur = [] then fields_from sep [] rest else cur # fields_from sep [] rest)
     else fields_from sep (cur @ bs) rest)"

definition go_FieldsFunc :: "(nat \<Rightarrow> bool) \<Rightarrow> gostring \<Rightarrow> gostring list" where
  "go_FieldsFunc sep s = fields_from sep [] (rune_segments s)"

definition ValidRune :: "nat \<Rightarrow> bool" where
  "ValidRune r = (r < 0xD800 \<or> 0xDFFF < r \<and> r \<le> 0x10FFFF)"

record identity =
  id_effective :: gostring
  id_local :: gostring
  id_domain :: gostring
  id_commentary :: gostring
  id_keywords :: "gostring set"

definition IdentityInfo :: "gocrypto \<Rightarrow> UserID \<Rightarrow> gostring set \<Rightarrow> identity" where
  "IdentityInfo E uid keywordMap =
    (let s = gc_ToLower E (uid_Keywords uid);
         kw = insert s keywordMap;
         lbr = go_Index 60 s; rbr = go_LastIndex 62 s;
         (ident, commentary) =
           (case (lbr, rbr) of
              (Some l, Some r) \<Rightarrow> if l < r then (drop (l + 1) (take r s), take l s) else (s, [])
            | _ \<Rightarrow> (s, []));
         i = (if ident = [] then \<lparr>id_effective = [], id_local = [], id_domain = [], id_commentary = commentary,
                id_keywords = kw\<rparr>
              else (case go_Index 64 ident of
                  None \<Rightarrow> \<lparr>id_effective = [], id_local = [], id_domain = [], id_commentary = commentary,
                     id_keywords = insert ident kw\<rparr>
                | Some a \<Rightarrow>
                    (let localPart = take a ident; domainPart = drop (a + 1) ident in
                     \<lparr>id_effective = ident, id_local = localPart, id_domain = domainPart,
                      id_commentary = commentary, id_keywords = {localPart, domainPart, ident} \<union> kw\<rparr>)));
         fields = (if commentary = [] then []
           else go_FieldsFunc (\<lambda>r. \<not> ValidRune r \<or> \<not> (gc_IsLetterOrNumber E r \<or> r = 45 \<or> r = 64)) commentary) in
     i\<lparr>id_keywords := id_keywords i \<union> set fields \<union> set (concat (map (go_Split 45) fields))\<rparr>)"

section \<open>Parsing keys\<close>

definition dec_bytes :: "int \<Rightarrow> gostring" where
  "dec_bytes n = lit (dec_string n)"

definition AlgorithmName :: "int \<Rightarrow> int \<Rightarrow> gostring \<Rightarrow> gostring" where
  "AlgorithmName code len curve =
    (if code = 1 then lit ''rsa'' @ dec_bytes len
     else if code = 2 then lit ''rsaE'' @ dec_bytes len
     else if code = 3 then lit ''rsaS'' @ dec_bytes len
     else if code = 8 then lit ''kyber?''
     else if code = 16 then lit ''elgE'' @ dec_bytes len
     else if code = 17 then lit ''dsa'' @ dec_bytes len
     else if code = 18 then lit ''ecdh_'' @ curve
     else if code = 19 then lit ''ecdsa_'' @ curve
     else if code = 20 then lit ''elg!'' @ dec_bytes len
     else if code = 21 then lit ''dh?''
     else if code = 22 then lit ''eddsa_'' @ curve
     else if code = 23 then lit ''aedh?''
     else if code = 24 then lit ''aedsa?''
     else if code = 25 then lit ''x25519''
     else if code = 26 then lit ''x448''
     else if code = 27 then lit ''ed25519''
     else if code = 28 then lit ''ed448''
     else if code = 30 then lit ''mldsa65+ed25519''
     else if code = 31 then lit ''mldsa87+ed448''
     else if code = 32 then lit ''slhdsa128s''
     else if code = 33 then lit ''slhsa128f''
     else if code = 34 then lit ''slhsa256s''
     else if code = 35 then lit ''mlkem768+x25519''
     else if code = 36 then lit ''mlkem1024+x448''
     else lit ''unk(#'' @ dec_bytes code @ lit '')'')"

definition QualifiedFingerprint :: "'a PublicKey_scheme \<Rightarrow> gostring" where
  "QualifiedFingerprint pk = lit ''('' @ dec_bytes (uint (pub_Version pk)) @ lit '')''
     @ AlgorithmName (pub_Algorithm pk) (pub_BitLen pk) (pub_Curve pk) @ lit ''/'' @ pub_Fingerprint pk"

definition emptyPublicKey :: "nat \<Rightarrow> byte \<Rightarrow> byte list \<Rightarrow> PublicKey" where
  "emptyPublicKey ptr tag data =
    \<lparr>p_ptr = ptr, p_UUID = [], p_Tag = tag, p_Count = 0, p_Data = data,
     pub_Fingerprint = [], pub_Version = 0, pub_VFingerprint = [], pub_KeyID = [], pub_Creation = zeroTime,
     pub_Expiration = zeroTime, pub_IsRevoked = False, pub_Algorithm = 0, pub_BitLen = 0, pub_Curve = [],
     pub_Trusts = [], pub_Signatures = []\<rparr>"

definition setKeyID :: "PublicKey \<Rightarrow> byte \<Rightarrow> gostring \<Rightarrow> PublicKey res" where
  "setKeyID pkp v fp =
    (if v = 3 then Inl (Err (ErrMsg ''reached unreachable code''))
     else if v = 4 then
       (if length fp \<noteq> 40 then Inl (Err (ErrMsg ''invalid v4 fingerprint'')) else Inr (pkp\<lparr>pub_KeyID := drop 24 fp\<rparr>))
     else if v = 5 \<or> v = 6 then
       (if length fp \<noteq> 64 then Inl (Err (ErrMsg ''invalid fingerprint'')) else Inr (pkp\<lparr>pub_KeyID := take 16 fp\<rparr>))
     else Inl (Err (ErrMsg ''unsupported key version'')))"

text \<open>\<open>pp_BitLength\<close> is \<open>None\<close> when go-crypto's \<open>Serialize\<close> or \<open>BitLength\<close> returns an error.\<close>

definition setPublicKey :: "PublicKey \<Rightarrow> ppub \<Rightarrow> PublicKey res" where
  "setPublicKey pkp pk =
    (let fingerprint = hex_EncodeToString (pp_Fingerprint pk); version = of_int (pp_Version pk) in
     case pp_BitLength pk of None \<Rightarrow> Inl (Err (ErrMsg ''bit length''))
     | Some bitLen \<Rightarrow>
        rbind (setKeyID (pkp\<lparr>
            pub_Curve := (case pp_Curve pk of Some c \<Rightarrow> c | None \<Rightarrow> pub_Curve pkp),
            pub_Version := version, pub_Fingerprint := fingerprint,
            pub_VFingerprint := hex_EncodeToString [version] @ fingerprint,
            p_UUID := fingerprint\<rparr>) version fingerprint) (\<lambda>pkp.
        Inr (pkp\<lparr>pub_Creation := pp_CreationTime pk, pub_Algorithm := uint (pp_PubKeyAlgo pk),
                 pub_BitLen := uint bitLen\<rparr>)))"

definition setPublicKeyV3 :: "PublicKey \<Rightarrow> ppubV3 \<Rightarrow> PublicKey res" where
  "setPublicKeyV3 pkp pk =
    (let fingerprint = hex_EncodeToString (pp_Fingerprint pk) in
     case pp_BitLength pk of None \<Rightarrow> Inl (Err (ErrMsg ''bit length''))
     | Some bitLen \<Rightarrow> Inr (pkp\<lparr>
         pub_Fingerprint := fingerprint, pub_VFingerprint := lit ''03'' @ fingerprint, p_UUID := fingerprint,
         pub_KeyID := keyid_hex (pp_KeyId pk), pub_Creation := pp_CreationTime pk,
         pub_Expiration := (if 0 < pp_DaysToExpire pk
            then pp_CreationTime pk + uint (pp_DaysToExpire pk) * (3600 * second) * 24 else pub_Expiration pkp),
         pub_Algorithm := uint (pp_PubKeyAlgo pk), pub_BitLen := uint bitLen, pub_Version := 3\<rparr>))"

definition pub_parse :: "gocrypto \<Rightarrow> PublicKey \<Rightarrow> OpaquePacket \<Rightarrow> bool \<Rightarrow> PublicKey res" where
  "pub_parse E pkp op subkey = rbind (gc_Parse E op) (\<lambda>p. case p of
     PPub pk \<Rightarrow> if pp_IsSubkey pk \<noteq> subkey then Inl (Err ErrInvalidPacketType) else setPublicKey pkp pk
   | PPubV3 pk \<Rightarrow> if pp_IsSubkey pk \<noteq> subkey then Inl (Err ErrInvalidPacketType) else setPublicKeyV3 pkp pk
   | _ \<Rightarrow> Inl (Err ErrInvalidPacketType))"

definition ParseSubKey :: "gocrypto \<Rightarrow> nat \<Rightarrow> OpaquePacket \<Rightarrow> SubKey res" where
  "ParseSubKey E ptr op = pub_parse E (emptyPublicKey ptr (op_Tag op) (op_Serialize op)) op True"

definition ParsePrimaryKey :: "gocrypto \<Rightarrow> nat \<Rightarrow> OpaquePacket \<Rightarrow> PrimaryKey res" where
  "ParsePrimaryKey E ptr op =
    rbind (pub_parse E (emptyPublicKey ptr (op_Tag op) (op_Serialize op)) op False) (\<lambda>pub.
      Inr (PublicKey.extend pub \<lparr>pk_MD5 = [], pk_Length = 0, pk_SubKeys = [], pk_UserIDs = [],
             pk_RedactedUserIDs = [], pk_TrustMD5 = []\<rparr>))"

definition publicKeyPacket :: "gocrypto \<Rightarrow> 'a PublicKey_scheme \<Rightarrow> ppub res" where
  "publicKeyPacket E pkp = rbind (opaquePacket pkp) (\<lambda>op. rbind (gc_Parse E op) (\<lambda>p. case p of
     PPub pk \<Rightarrow> Inr pk | _ \<Rightarrow> Inl (Err (ErrMsg ''expected public key packet''))))"

definition publicKeyV3Packet :: "gocrypto \<Rightarrow> 'a PublicKey_scheme \<Rightarrow> ppubV3 res" where
  "publicKeyV3Packet E pkp = rbind (opaquePacket pkp) (\<lambda>op. rbind (gc_Parse E op) (\<lambda>p. case p of
     PPubV3 pk \<Rightarrow> Inr pk | _ \<Rightarrow> Inl (Err (ErrMsg ''expected public key V3 packet''))))"

section \<open>Trust packets\<close>

abbreviation "NoisySKS \<equiv> lit ''SKS''"
abbreviation "QuietSKS \<equiv> lit ''sks''"
abbreviation "AppContextHKP \<equiv> lit ''hkp''"
abbreviation "trustTypeRedactedUserID \<equiv> lit ''redactedUserID''"

definition emptyTrust :: "nat \<Rightarrow> gostring \<Rightarrow> byte \<Rightarrow> byte list \<Rightarrow> trustFields" where
  "emptyTrust ptr uuid tag data =
    \<lparr>p_ptr = ptr, p_UUID = uuid, p_Tag = tag, p_Count = 0, p_Data = data,
     tf_Value = 0, tf_Flags = 0, tf_AppContext = [], tf_PacketContext = 0, tf_Notations = []\<rparr>"

definition parseEmbeddedSig :: "gocrypto \<Rightarrow> OpaqueSubpacket \<Rightarrow> time \<Rightarrow> gostring \<Rightarrow> gostring \<Rightarrow> Signature res" where
  "parseEmbeddedSig E osp keyCreationTime pubkeyUUID scopedUUID =
     ParseSignature E 0 \<lparr>op_Tag = 2, op_Contents = osp_Contents osp\<rparr> keyCreationTime pubkeyUUID scopedUUID"

definition trust_subpacket ::
    "gocrypto \<Rightarrow> time \<Rightarrow> gostring \<Rightarrow> gostring \<Rightarrow> OpaqueSubpacket \<Rightarrow> Trust \<Rightarrow> Trust res" where
  "trust_subpacket E keyCreationTime pubkeyUUID scopedUUID osp t =
    (if osp_Contents osp = [] then Inl (Err (ErrMsg ''zero length subpacket''))
     else if osp_SubType osp AND 0x7f = 20 then
       rbind (parseNotation osp) (\<lambda>nt. Inr (Trust ((tr t)\<lparr>tf_Notations := tf_Notations (tr t) @ [nt]\<rparr>) (tr_Signatures t)))
     else if osp_SubType osp AND 0x7f = 32 then
       rbind (parseEmbeddedSig E osp keyCreationTime pubkeyUUID scopedUUID) (\<lambda>sig.
         Inr (Trust (tr t) (tr_Signatures t @ [sig])))
     else if osp_SubType osp AND 0x80 = 0x80 then
       Inl (Err (ErrMsg ''critical trust subpacket with unsupported type''))
     else Inr t)"

definition setTrust :: "gocrypto \<Rightarrow> trustFields \<Rightarrow> byte list \<Rightarrow> time \<Rightarrow> gostring \<Rightarrow> gostring \<Rightarrow> Trust res" where
  "setTrust E trust c keyCreationTime pubkeyUUID scopedUUID =
    (if length c < 6 then Inl (Err (ErrMsg ''ignoring short trust packet''))
     else
       let appContext = take 3 (drop 2 c) in
       if appContext \<noteq> NoisySKS \<and> appContext \<noteq> QuietSKS \<and> appContext \<noteq> AppContextHKP
       then Inl (Err (ErrMsg ''ignoring trust packet with unsupported app context''))
       else rbind (OpaqueSubpackets (drop 6 c)) (\<lambda>osps.
         rbind (rfold (trust_subpacket E keyCreationTime pubkeyUUID scopedUUID) osps
                  (Trust (trust\<lparr>tf_Value := c ! 0, tf_Flags := c ! 1, tf_AppContext := appContext,
                                tf_PacketContext := c ! 5\<rparr>) [])) (\<lambda>t.
         if tf_Notations (tr t) = [] then Inl (Err (ErrMsg ''No notations found in trust packet''))
         else if tf_AppContext (tr t) = NoisySKS \<and> length (tf_Notations (tr t)) \<le> 1
         then Inl (Err (ErrMsg ''No unhashed notations found in noisy trust packet''))
         else Inr t)))"

definition ParseTrust :: "gocrypto \<Rightarrow> nat \<Rightarrow> OpaquePacket \<Rightarrow> time \<Rightarrow> gostring \<Rightarrow> gostring \<Rightarrow> Trust res" where
  "ParseTrust E ptr op keyCreationTime pubkeyUUID scopedUUID =
    (let buf = op_Serialize op in
     rbind (gc_Parse E op) (\<lambda>p. case p of
       PTrust c \<Rightarrow> setTrust E (emptyTrust ptr (scopedDigest E [pubkeyUUID, scopedUUID] trustTag buf) (op_Tag op) buf)
                     c keyCreationTime pubkeyUUID scopedUUID
     | _ \<Rightarrow> Inl (Err ErrInvalidPacketType)))"

text \<open>
  \<open>UpdatePacket\<close> writes a trust packet back into its raw form. A signature whose data is no
  packet is the nil pointer \<open>opaquePacket\<close> returns then.
\<close>

definition copy_padded :: "nat \<Rightarrow> byte list \<Rightarrow> byte list" where
  "copy_padded n bs = take n bs @ replicate (n - length bs) 0"

definition trust_subpackets :: "Trust \<Rightarrow> outputSubpacket list res" where
  "trust_subpackets t =
    rbind (rmap (\<lambda>sig. case opaquePacket (sg sig) of
        Inl _ \<Rightarrow> Inl (Panic PNil)
      | Inr op \<Rightarrow> Inr \<lparr>os_type = 32, os_isCritical = False, os_contents = op_Contents op\<rparr>) (tr_Signatures t)) (\<lambda>sigs.
    Inr (map (\<lambda>nt. \<lparr>os_type = 20, os_isCritical = nt_IsCritical nt, os_contents = getData nt\<rparr>)
           (tf_Notations (tr t)) @ sigs))"

definition UpdatePacket :: "Trust \<Rightarrow> Trust res" where
  "UpdatePacket t =
    rbind (trust_subpackets t) (\<lambda>subpackets.
    rbind (serializeSubpackets (replicate (subpacketsLength subpackets) 0) subpackets) (\<lambda>area.
    let buf = [tf_Value (tr t), tf_Flags (tr t)] @ copy_padded 3 (tf_AppContext (tr t))
              @ [tf_PacketContext (tr t)] @ area in
    Inr (Trust ((tr t)\<lparr>p_Tag := 12, p_Data := op_Serialize \<lparr>op_Tag = 12, op_Contents = buf\<rparr>\<rparr>) (tr_Signatures t))))"

definition UUIDNotation :: "Trust \<Rightarrow> Notation option" where
  "UUIDNotation t = (if tf_AppContext (tr t) = NoisySKS \<and> 1 < length (tf_Notations (tr t))
     then Some (tf_Notations (tr t) ! 0) else None)"

definition TrustTypeNotation :: "Trust \<Rightarrow> Notation option" where
  "TrustTypeNotation t =
    (if tf_AppContext (tr t) = NoisySKS then
       (if length (tf_Notations (tr t)) < 2 then None else Some (tf_Notations (tr t) ! 1))
     else if tf_Notations (tr t) = [] then None else Some (tf_Notations (tr t) ! 0))"

definition GetNotationByName :: "Trust \<Rightarrow> gostring \<Rightarrow> Notation option" where
  "GetNotationByName t name = find (\<lambda>nt. nt_Name nt = name) (tf_Notations (tr t))"

end
