(* ===== verification/Certs.thy ===== *)
theory Certs
  imports OpenPgp
begin

text \<open>
  Checking the packets of a certificate: the SKS digest (\<open>types.go\<close>, \<open>io.go\<close>), the
  plausibility of trust packets (\<open>trust.go\<close>), the checks of signatures (\<open>verify.go\<close>) and what
  the valid self-signatures of a component say about it (\<open>selfsigs.go\<close>, the \<open>SigInfo\<close> methods).
\<close>

unbundle bit_operations_syntax

section \<open>The SKS digest\<close>

definition opaque_Less :: "OpaquePacket \<Rightarrow> OpaquePacket \<Rightarrow> bool" where
  "opaque_Less a b =
    (let cmp = int (unat (op_Tag a)) - int (unat (op_Tag b)) in
     if cmp < 0 then True else if 0 < cmp then False else bytes_less (op_Contents a) (op_Contents b))"

definition packet_digest_bytes :: "OpaquePacket \<Rightarrow> byte list" where
  "packet_digest_bytes op = be32 (unat (op_Tag op)) @ be32 (length (op_Contents op)) @ op_Contents op"

definition sksDigestOpaque :: "gocrypto \<Rightarrow> OpaquePacket list \<Rightarrow> gostring" where
  "sksDigestOpaque E packets =
     hex_EncodeToString (gc_md5 E (concat (map packet_digest_bytes (sort_Sort opaque_Less packets))))"

text \<open>
  The view SKS has of a trust packet: the part up to its first subpacket. The capacity of the
  contents is taken to be their length.
\<close>

definition trustPacketSKSView :: "OpaquePacket \<Rightarrow> OpaquePacket option res" where
  "trustPacketSKSView op =
    (let c = op_Contents op;
         view = (\<lambda>n. if n \<le> length c then Inr (Some (op\<lparr>op_Contents := take n c\<rparr>)) else Inl (Panic PIndex)) in
     if op_Tag op \<noteq> 12 then Inr None
     else if length c < 6 then Inr None
     else if take 3 (drop 2 c) = NoisySKS then
       rbind (nth_res c 6) (\<lambda>l.
         if l < 192 then view (unat l + 1 + 6)
         else if l < 255 then
           (if length c < 8 then Inr None
            else view (unat (l - 192) * 256 + unat (c ! 7) + 192 + 2 + 6))
         else if length c < 11 then Inr None
         else view ((be_value (take 4 (drop 7 c)) + 5 + 6) mod 2 ^ 32))
     else Inr None)"

definition digest_step :: "packetNode \<Rightarrow> OpaquePacket list \<times> OpaquePacket list \<Rightarrow> (OpaquePacket list \<times> OpaquePacket list) res" where
  "digest_step node s = (case s of (packets, tpackets) \<Rightarrow>
     rbind (newOpaquePacket (p_Data (node_packet node))) (\<lambda>op.
       if op_Tag op = 12 then
         rbind (trustPacketSKSView op) (\<lambda>v. case v of
             None \<Rightarrow> Inr (packets, tpackets @ [op])
           | Some op' \<Rightarrow> Inr (packets @ [op'], tpackets @ [op]))
       else Inr (packets @ [op], tpackets)))"

definition SksDigest :: "gocrypto \<Rightarrow> PrimaryKey \<Rightarrow> (gostring \<times> gostring) res" where
  "SksDigest E key =
    rbind (rfold digest_step (key_contents key) ([], [])) (\<lambda>(packets, tpackets).
      if packets = [] then Inl (Err (ErrMsg ''no packets found''))
      else Inr (sksDigestOpaque E packets, sksDigestOpaque E tpackets))"

text \<open>\<open>updateMD5\<close> refreshes the digests and the length of the key.\<close>

definition key_packets :: "PrimaryKey \<Rightarrow> byte list list" where
  "key_packets key = p_Data key # map (\<lambda>s. p_Data (sg s)) (pub_Signatures key)
     @ concat (map (\<lambda>u. p_Data u # map (\<lambda>s. p_Data (sg s)) (uid_Signatures u)) (pk_UserIDs key))
     @ concat (map (\<lambda>k. p_Data k # map (\<lambda>s. p_Data (sg s)) (pub_Signatures k)) (pk_SubKeys key))"

definition updateMD5 :: "gocrypto \<Rightarrow> PrimaryKey \<Rightarrow> PrimaryKey res" where
  "updateMD5 E key =
    rbind (SksDigest E key) (\<lambda>(digest, tdigest).
    rbind (rfold (\<lambda>d n. rbind (packetBodyLength d) (\<lambda>l. Inr (n + l))) (key_packets key) 0) (\<lambda>n.
      Inr (key\<lparr>pk_MD5 := digest, pk_TrustMD5 := tdigest, pk_Length := n\<rparr>)))"

section \<open>Plausibility of trust packets\<close>

definition isChildOf :: "gocrypto \<Rightarrow> Trust \<Rightarrow> OpaquePacket \<Rightarrow> bool" where
  "isChildOf E t op =
    (if tf_AppContext (tr t) \<noteq> NoisySKS \<or> tf_PacketContext (tr t) = 0 \<or> tf_Notations (tr t) = [] then False
     else let first = hd (tf_Notations (tr t)) in
       nt_Name first = lit ''parentMD5'' \<and> sksDigestOpaque E [op] = hex_EncodeToString (nt_Value first))"

definition plausifyTrust :: "gocrypto \<Rightarrow> 'a Packet_scheme \<Rightarrow> Trust \<Rightarrow> unit res" where
  "plausifyTrust E parent t =
    (if p_Tag parent \<noteq> tf_PacketContext (tr t) then Inl (Err (ErrMsg ''misplaced trust packet''))
     else if tf_AppContext (tr t) = NoisySKS then
       rbind (opaquePacket parent) (\<lambda>op.
         if isChildOf E t op then Inr () else Inl (Err (ErrMsg ''misplaced trust packet, not child'')))
     else Inr ())"

record CheckTrust =
  ct_Trust :: Trust
  ct_UserID :: "UserID option"
  ct_Error :: "fault option"

record CheckTrusts =
  ct_RedactedUserIDs :: "CheckTrust list"
  ct_Errors :: "CheckTrust list"

text \<open>\<open>TrustInfo\<close> of user IDs and subkeys: no kind of trust packet is known there.\<close>

definition trust_error :: "unit res \<Rightarrow> fault option" where
  "trust_error r = (case r of Inl e \<Rightarrow> Some e | Inr _ \<Rightarrow> None)"

definition trust_info :: "gocrypto \<Rightarrow> 'a Packet_scheme \<Rightarrow> Trust list \<Rightarrow> CheckTrusts \<times> Trust list" where
  "trust_info E parent trusts = fold (\<lambda>t (cts, others).
     let ct = \<lparr>ct_Trust = t, ct_UserID = None, ct_Error = trust_error (plausifyTrust E parent t)\<rparr> in
     if ct_Error ct \<noteq> None \<or> TrustTypeNotation t = None
     then (cts\<lparr>ct_Errors := ct_Errors cts @ [ct]\<rparr>, others)
     else (cts, others @ [t])) trusts (\<lparr>ct_RedactedUserIDs = [], ct_Errors = []\<rparr>, [])"

definition uid_TrustInfo :: "gocrypto \<Rightarrow> UserID \<Rightarrow> CheckTrusts \<times> Trust list" where
  "uid_TrustInfo E uid = trust_info E uid (uid_Trusts uid)"

definition subkey_TrustInfo :: "gocrypto \<Rightarrow> SubKey \<Rightarrow> CheckTrusts \<times> Trust list" where
  "subkey_TrustInfo E subkey = trust_info E subkey (pub_Trusts subkey)"

section \<open>Checking signatures\<close>

definition check :: "bool \<Rightarrow> unit res" where
  "check ok = (if ok then Inr () else Inl (Err (ErrMsg ''invalid signature'')))"

abbreviation "SigTypeGenericCert \<equiv> 0x10 :: byte"
abbreviation "SigTypePersonaCert \<equiv> 0x11 :: byte"
abbreviation "SigTypeCasualCert \<equiv> 0x12 :: byte"
abbreviation "SigTypePositiveCert \<equiv> 0x13 :: byte"
abbreviation "SigTypeSubkeyBinding \<equiv> 0x18 :: byte"
abbreviation "SigTypeDirectSignature \<equiv> 0x1F :: byte"
abbreviation "SigTypeKeyRevocation \<equiv> 0x20 :: byte"
abbreviation "SigTypeSubkeyRevocation \<equiv> 0x28 :: byte"
abbreviation "SigTypeCertificationRevocation \<equiv> 0x30 :: byte"

definition verifyPrimaryKeySelfSig :: "gocrypto \<Rightarrow> PrimaryKey \<Rightarrow> Signature \<Rightarrow> unit res" where
  "verifyPrimaryKeySelfSig E pubkey sig =
    rbind (opaquePacket pubkey) (\<lambda>op. rbind (gc_Parse E op) (\<lambda>p. case p of
      PPub pk \<Rightarrow>
        (case signaturePacket E sig of
           Inr s \<Rightarrow>
             if ps_SigType s = SigTypeKeyRevocation \<or> ps_SigType s = SigTypeDirectSignature
             then check (gc_VerifyRevocationSignature E pk s)
             else Inl (Err ErrInvalidPacketType)
         | Inl err \<Rightarrow>
             (case signatureV3Packet E sig of
                Inl _ \<Rightarrow> Inl err
              | Inr s3 \<Rightarrow>
                  if pp_Version pk = 4 \<and> p3_SigType s3 = SigTypeKeyRevocation
                  then check (gc_VerifyRevocationSignatureV3 E p s3)
                  else Inl (Err ErrInvalidPacketType)))
    | PPubV3 pk \<Rightarrow>
        rbind (signatureV3Packet E sig) (\<lambda>s3.
          if p3_SigType s3 = SigTypeKeyRevocation
          then check (gc_VerifyRevocationSignatureV3 E p s3)
          else Inl (Err ErrInvalidPacketType))
    | _ \<Rightarrow> Inl (Err ErrInvalidPacketType)))"

definition plausifyPrimaryKeySig :: "gocrypto \<Rightarrow> PrimaryKey \<Rightarrow> Signature \<Rightarrow> unit res" where
  "plausifyPrimaryKeySig E pubkey sig =
    rbind (opaquePacket pubkey) (\<lambda>op. rbind (gc_Parse E op) (\<lambda>p. case p of
      PPub pk \<Rightarrow>
        (case signaturePacket E sig of
           Inr s \<Rightarrow>
             if ps_SigType s = SigTypeKeyRevocation \<or> ps_SigType s = SigTypeDirectSignature
             then check (gc_VerifyRevocationHashTag E pk s)
             else Inl (Err ErrInvalidPacketType)
         | Inl err \<Rightarrow>
             (case signatureV3Packet E sig of
                Inl _ \<Rightarrow> Inl err
              | Inr s3 \<Rightarrow>
                  if pp_Version pk = 4 \<and> p3_SigType s3 = SigTypeKeyRevocation
                  then check (gc_VerifyRevocationHashTagV3 E p s3)
                  else Inl (Err ErrInvalidPacketType)))
    | PPubV3 pk \<Rightarrow>
        rbind (signatureV3Packet E sig) (\<lambda>s3.
          if p3_SigType s3 = SigTypeKeyRevocation
          then check (gc_VerifyRevocationHashTagV3 E p s3)
          else Inl (Err ErrInvalidPacketType))
    | _ \<Rightarrow> Inl (Err ErrInvalidPacketType)))"

definition verifySubKeySelfSig :: "gocrypto \<Rightarrow> PrimaryKey \<Rightarrow> SubKey \<Rightarrow> Signature \<Rightarrow> unit res" where
  "verifySubKeySelfSig E pubkey target sig =
    (if (6 \<le> pub_Version pubkey \<or> 6 \<le> pub_Version target) \<and> pub_Version pubkey \<noteq> pub_Version target
     then Inl (Err ErrMismatchedPacketVersion)
     else rbind (opaquePacket pubkey) (\<lambda>op. rbind (gc_Parse E op) (\<lambda>p. case p of
      PPub pk \<Rightarrow>
        rbind (publicKeyPacket E target) (\<lambda>signedPk.
        case signaturePacket E sig of
           Inr s \<Rightarrow> check (gc_VerifyKeySignature E pk signedPk s)
         | Inl err \<Rightarrow>
             (case signatureV3Packet E sig of
                Inl _ \<Rightarrow> Inl err
              | Inr s3 \<Rightarrow>
                  if pp_Version signedPk = 4 then check (gc_VerifyKeySignatureV3 E p (PPub signedPk) s3)
                  else Inl (Err ErrInvalidPacketType)))
    | PPubV3 pk \<Rightarrow>
        rbind (signatureV3Packet E sig) (\<lambda>s.
        rbind (publicKeyV3Packet E target) (\<lambda>signedPk.
          check (gc_VerifyKeySignatureV3 E p (PPubV3 signedPk) s)))
    | _ \<Rightarrow> Inl (Err ErrInvalidPacketType))))"

definition plausifySubKeySig :: "gocrypto \<Rightarrow> PrimaryKey \<Rightarrow> SubKey \<Rightarrow> Signature \<Rightarrow> unit res" where
  "plausifySubKeySig E pubkey target sig =
    rbind (opaquePacket pubkey) (\<lambda>op. rbind (gc_Parse E op) (\<lambda>p. case p of
      PPub pk \<Rightarrow>
        rbind (publicKeyPacket E target) (\<lambda>signedPk.
        case signaturePacket E sig of
           Inr s \<Rightarrow> check (gc_VerifyKeyHashTag E pk signedPk s)
         | Inl err \<Rightarrow>
             (case signatureV3Packet E sig of
                Inl _ \<Rightarrow> Inl err
              | Inr s3 \<Rightarrow>
                  if pp_Version signedPk = 4 then check (gc_VerifyKeyHashTagV3 E p (PPub signedPk) s3)
                  else Inl (Err ErrInvalidPacketType)))
    | PPubV3 pk \<Rightarrow>
        rbind (signatureV3Packet E sig) (\<lambda>s.
        rbind (publicKeyV3Packet E target) (\<lambda>signedPk.
          check (gc_VerifyKeyHashTagV3 E p (PPubV3 signedPk) s)))
    | _ \<Rightarrow> Inl (Err ErrInvalidPacketType)))"

definition verifyUserIDSelfSig :: "gocrypto \<Rightarrow> PrimaryKey \<Rightarrow> UserID \<Rightarrow> Signature \<Rightarrow> unit res" where
  "verifyUserIDSelfSig E pubkey uid sig =
    rbind (userIDPacket E uid) (\<lambda>u.
    rbind (opaquePacket pubkey) (\<lambda>op. rbind (gc_Parse E op) (\<lambda>p. case p of
      PPub pk \<Rightarrow>
        rbind (opaquePacket (sg sig)) (\<lambda>sOpaque. rbind (gc_Parse E sOpaque) (\<lambda>sp. case sp of
          PSig s \<Rightarrow> check (gc_VerifyUserIdSignature E pk u pk s)
        | PSigV3 s \<Rightarrow> check (gc_VerifyUserIdSignatureV3 E p u p s)
        | _ \<Rightarrow> Inl (Err ErrInvalidPacketType)))
    | PPubV3 pk \<Rightarrow>
        rbind (signatureV3Packet E sig) (\<lambda>s. check (gc_VerifyUserIdSignatureV3 E p u p s))
    | _ \<Rightarrow> Inl (Err ErrInvalidPacketType))))"

definition plausifyUserIDSig :: "gocrypto \<Rightarrow> PrimaryKey \<Rightarrow> UserID \<Rightarrow> Signature \<Rightarrow> unit res" where
  "plausifyUserIDSig E pubkey uid sig =
    rbind (userIDPacket E uid) (\<lambda>u.
    rbind (opaquePacket pubkey) (\<lambda>op. rbind (gc_Parse E op) (\<lambda>p. case p of
      PPub pk \<Rightarrow>
        rbind (opaquePacket (sg sig)) (\<lambda>sOpaque. rbind (gc_Parse E sOpaque) (\<lambda>sp. case sp of
          PSig s \<Rightarrow> check (gc_VerifyUserIdHashTag E pk u s)
        | PSigV3 s \<Rightarrow> check (gc_VerifyUserIdHashTagV3 E p u s)
        | _ \<Rightarrow> Inl (Err ErrInvalidPacketType)))
    | PPubV3 pk \<Rightarrow>
        rbind (signatureV3Packet E sig) (\<lambda>s. check (gc_VerifyUserIdHashTagV3 E p u s))
    | _ \<Rightarrow> Inl (Err ErrInvalidPacketType))))"

section \<open>Self-signatures\<close>

record CheckSig =
  cs_Signature :: Signature
  cs_Error :: "fault option"

text \<open>
  \<open>SelfSigs.target\<close> is a pointer to the component; the functions that use it take the component
  as it is when they are called.
\<close>

record SelfSigs =
  ss_Revocations :: "CheckSig list"
  ss_Certifications :: "CheckSig list"
  ss_Primaries :: "CheckSig list"
  ss_Errors :: "CheckSig list"

definition emptySelfSigs :: SelfSigs where
  "emptySelfSigs = \<lparr>ss_Revocations = [], ss_Certifications = [], ss_Primaries = [], ss_Errors = []\<rparr>"

definition cs_Creation :: "CheckSig \<Rightarrow> time" where
  "cs_Creation c = sf_Creation (sg (cs_Signature c))"

definition cs_Expiration :: "CheckSig \<Rightarrow> time" where
  "cs_Expiration c = sf_Expiration (sg (cs_Signature c))"

definition creationAsc :: "CheckSig \<Rightarrow> CheckSig \<Rightarrow> bool" where
  "creationAsc a b = (cs_Creation a < cs_Creation b)"

definition creationDesc :: "CheckSig \<Rightarrow> CheckSig \<Rightarrow> bool" where
  "creationDesc a b = (cs_Creation b < cs_Creation a)"

definition ss_resolve :: "SelfSigs \<Rightarrow> SelfSigs" where
  "ss_resolve ss = ss\<lparr>ss_Revocations := sort_Sort creationAsc (ss_Revocations ss),
     ss_Certifications := sort_Sort creationDesc (ss_Certifications ss),
     ss_Primaries := sort_Sort creationDesc (ss_Primaries ss)\<rparr>"

definition RevokedSince :: "SelfSigs \<Rightarrow> time \<times> bool" where
  "RevokedSince ss = (case ss_Revocations ss of c # _ \<Rightarrow> (cs_Creation c, True) | [] \<Rightarrow> (zeroTime, False))"

text \<open>The first loop of \<open>ExpiresAt\<close>: the newest valid certification decides, if there is one.\<close>

fun cert_expiration :: "CheckSig list \<Rightarrow> (time \<times> bool) option" where
  "cert_expiration [] = None"
| "cert_expiration (c # cs) =
    (if cs_Error c \<noteq> None then cert_expiration cs
     else if IsZero (cs_Expiration c) then Some (zeroTime, False)
     else Some (cs_Expiration c, True))"

text \<open>\<open>ExpiresAt\<close> and \<open>ValidSince\<close> of a user ID or a subkey.\<close>

definition ExpiresAt :: "SelfSigs \<Rightarrow> time \<times> bool" where
  "ExpiresAt ss = (case cert_expiration (ss_Certifications ss) of Some r \<Rightarrow> r | None \<Rightarrow> (zeroTime, False))"

fun first_created :: "CheckSig list \<Rightarrow> time \<Rightarrow> time" where
  "first_created [] t = t"
| "first_created (c # cs) t =
    (if cs_Error c \<noteq> None then first_created cs t
     else if IsZero t \<or> cs_Creation c < t then first_created cs (cs_Creation c)
     else first_created cs t)"

definition ValidSince :: "gocrypto \<Rightarrow> SelfSigs \<Rightarrow> time \<times> bool" where
  "ValidSince E ss =
    (let (expiration, expires) = ExpiresAt ss in
     (first_created (ss_Certifications ss) zeroTime,
      \<not> (expires \<and> expiration < gc_now E) \<and> ss_Revocations ss = [] \<and> ss_Certifications ss \<noteq> []))"

definition ss_Valid :: "gocrypto \<Rightarrow> SelfSigs \<Rightarrow> bool" where
  "ss_Valid E ss = snd (ValidSince E ss)"

fun primary_since :: "time \<Rightarrow> CheckSig list \<Rightarrow> time \<times> bool" where
  "primary_since now [] = (zeroTime, False)"
| "primary_since now (c # cs) =
    (if cs_Error c \<noteq> None then primary_since now cs
     else if IsZero (cs_Expiration c) \<or> now < cs_Expiration c then (cs_Creation c, True)
     else primary_since now cs)"

definition PrimarySince :: "gocrypto \<Rightarrow> SelfSigs \<Rightarrow> time \<times> bool" where
  "PrimarySince E ss = (if ss_Revocations ss \<noteq> [] then (zeroTime, False)
     else primary_since (gc_now E) (ss_Primaries ss))"

text \<open>
  \<open>SigInfo\<close>: the valid self-signatures of a component, sorted, and the plausible third-party
  signatures. That of a user ID or subkey also sets \<open>IsRevoked\<close>.
\<close>

definition isSelfSig :: "PrimaryKey \<Rightarrow> Signature \<Rightarrow> bool" where
  "isSelfSig pubkey sig = (pub_KeyID pubkey = sf_IssuerKeyID (sg sig)
     \<or> pub_Fingerprint pubkey = sf_IssuerFingerprint (sg sig))"

definition isUserIDCert :: "byte \<Rightarrow> bool" where
  "isUserIDCert ty = (ty = SigTypeGenericCert \<or> ty = SigTypePersonaCert \<or> ty = SigTypeCasualCert \<or> ty = SigTypePositiveCert)"

definition uid_sig_step :: "gocrypto \<Rightarrow> PrimaryKey \<Rightarrow> Signature \<Rightarrow> SelfSigs \<times> Signature list \<times> UserID \<Rightarrow> SelfSigs \<times> Signature list \<times> UserID" where
  "uid_sig_step E pubkey sig s = (case s of (ss, others, uid) \<Rightarrow>
    let ty = sf_SigType (sg sig) in
    if \<not> isSelfSig pubkey sig then
      (if plausifyUserIDSig E pubkey uid sig = Inr () \<and> (ty = SigTypeCertificationRevocation \<or> isUserIDCert ty)
       then (ss, others @ [sig], uid) else (ss, others, uid))
    else case verifyUserIDSelfSig E pubkey uid sig of
      Inl e \<Rightarrow> (ss\<lparr>ss_Errors := ss_Errors ss @ [\<lparr>cs_Signature = sig, cs_Error = Some e\<rparr>]\<rparr>, others, uid)
    | Inr _ \<Rightarrow>
       (let c = \<lparr>cs_Signature = sig, cs_Error = None\<rparr> in
        if ty = SigTypeCertificationRevocation then
          (ss\<lparr>ss_Revocations := ss_Revocations ss @ [c]\<rparr>, others, uid\<lparr>uid_IsRevoked := True\<rparr>)
        else if isUserIDCert ty then
          (ss\<lparr>ss_Certifications := ss_Certifications ss @ [c],
              ss_Primaries := (if sf_Primary (sg sig) then ss_Primaries ss @ [c] else ss_Primaries ss)\<rparr>, others, uid)
        else (ss, others, uid)))"

definition uid_SigInfo :: "gocrypto \<Rightarrow> PrimaryKey \<Rightarrow> UserID \<Rightarrow> SelfSigs \<times> Signature list \<times> UserID" where
  "uid_SigInfo E pubkey uid =
    (let (ss, others, uid') = fold (uid_sig_step E pubkey) (uid_Signatures uid) (emptySelfSigs, [], uid) in
     (ss_resolve ss, others, uid'))"

definition subkey_sig_step :: "gocrypto \<Rightarrow> PrimaryKey \<Rightarrow> Signature \<Rightarrow> SelfSigs \<times> Signature list \<times> SubKey \<Rightarrow> SelfSigs \<times> Signature list \<times> SubKey" where
  "subkey_sig_step E pubkey sig s = (case s of (ss, others, subkey) \<Rightarrow>
    let ty = sf_SigType (sg sig) in
    if \<not> isSelfSig pubkey sig then
      (if plausifySubKeySig E pubkey subkey sig = Inr () \<and> ty = SigTypeSubkeyRevocation
       then (ss, others @ [sig], subkey) else (ss, others, subkey))
    else case verifySubKeySelfSig E pubkey subkey sig of
      Inl e \<Rightarrow> (ss\<lparr>ss_Errors := ss_Errors ss @ [\<lparr>cs_Signature = sig, cs_Error = Some e\<rparr>]\<rparr>, others, subkey)
    | Inr _ \<Rightarrow>
       (let c = \<lparr>cs_Signature = sig, cs_Error = None\<rparr> in
        if ty = SigTypeSubkeyRevocation then
          (ss\<lparr>ss_Revocations := ss_Revocations ss @ [c]\<rparr>, others, subkey\<lparr>pub_IsRevoked := True\<rparr>)
        else if ty = SigTypeSubkeyBinding then
          (ss\<lparr>ss_Certifications := ss_Certifications ss @ [c]\<rparr>, others, subkey)
        else (ss, others, subkey)))"

definition subkey_SigInfo :: "gocrypto \<Rightarrow> PrimaryKey \<Rightarrow> SubKey \<Rightarrow> SelfSigs \<times> Signature list \<times> SubKey" where
  "subkey_SigInfo E pubkey subkey =
    (let (ss, others, subkey') = fold (subkey_sig_step E pubkey) (pub_Signatures subkey) (emptySelfSigs, [], subkey) in
     (ss_resolve ss, others, subkey'))"

definition key_sig_step :: "gocrypto \<Rightarrow> PrimaryKey \<Rightarrow> Signature \<Rightarrow> SelfSigs \<times> Signature list \<Rightarrow> SelfSigs \<times> Signature list" where
  "key_sig_step E pubkey sig s = (case s of (ss, others) \<Rightarrow>
    let ty = sf_SigType (sg sig) in
    if \<not> isSelfSig pubkey sig then
      (if plausifyPrimaryKeySig E pubkey sig = Inr () \<and> (ty = SigTypeKeyRevocation \<or> ty = SigTypeDirectSignature)
       then (ss, others @ [sig]) else (ss, others))
    else case verifyPrimaryKeySelfSig E pubkey sig of
      Inl e \<Rightarrow> (ss\<lparr>ss_Errors := ss_Errors ss @ [\<lparr>cs_Signature = sig, cs_Error = Some e\<rparr>]\<rparr>, others)
    | Inr _ \<Rightarrow>
       (let c = \<lparr>cs_Signature = sig, cs_Error = None\<rparr> in
        if ty = SigTypeKeyRevocation then (ss\<lparr>ss_Revocations := ss_Revocations ss @ [c]\<rparr>, others)
        else if ty = SigTypeDirectSignature then (ss\<lparr>ss_Certifications := ss_Certifications ss @ [c]\<rparr>, others)
        else (ss, others)))"

definition key_SigInfo :: "gocrypto \<Rightarrow> PrimaryKey \<Rightarrow> SelfSigs \<times> Signature list" where
  "key_SigInfo E pubkey =
    (let (ss, others) = fold (key_sig_step E pubkey) (pub_Signatures pubkey) (emptySelfSigs, []) in
     (ss_resolve ss, others))"

text \<open>
  A revocation without a reason, or with the reasons \<open>NoReason\<close> or \<open>KeyCompromised\<close>, is hard.
\<close>

definition isHard :: "Signature \<Rightarrow> bool" where
  "isHard sig = (case sf_RevocationReason (sg sig) of None \<Rightarrow> True | Some r \<Rightarrow> r = 2 \<or> r = 0)"

definition RedactingSignature :: "gocrypto \<Rightarrow> PrimaryKey \<Rightarrow> Signature option" where
  "RedactingSignature E pubkey =
     find isHard (map cs_Signature (ss_Revocations (fst (key_SigInfo E pubkey))))"

text \<open>
  \<open>PrimaryUserIDSig\<close>, and \<open>ExpiresAt\<close> of a primary key, which falls back on it. Both return the
  key with the \<open>IsRevoked\<close> flags that \<open>SigInfo\<close> sets on the way.
\<close>

definition primary_uid_step :: "gocrypto \<Rightarrow> PrimaryKey \<Rightarrow> bool \<Rightarrow> UserID \<Rightarrow> Signature option \<times> UserID list \<Rightarrow> Signature option \<times> UserID list" where
  "primary_uid_step E pubkey lone uid s = (case s of (primarySig, done_uids) \<Rightarrow>
    let (ss, _, uid') = uid_SigInfo E pubkey uid in
    (case ss_Certifications ss of
       [] \<Rightarrow> primarySig
     | c # _ \<Rightarrow>
         if lone \<or> sf_Primary (sg (cs_Signature c)) then
           (case primarySig of
              None \<Rightarrow> Some (cs_Signature c)
            | Some p \<Rightarrow> if sf_Creation (sg p) < cs_Creation c then Some (cs_Signature c) else primarySig)
         else primarySig, done_uids @ [uid']))"

definition PrimaryUserIDSig :: "gocrypto \<Rightarrow> PrimaryKey \<Rightarrow> Signature option \<times> PrimaryKey" where
  "PrimaryUserIDSig E pubkey =
    (let (s, uids) = fold (primary_uid_step E pubkey (length (pk_UserIDs pubkey) = 1)) (pk_UserIDs pubkey) (None, []) in
     (s, pubkey\<lparr>pk_UserIDs := uids\<rparr>))"

definition key_ExpiresAt :: "gocrypto \<Rightarrow> PrimaryKey \<Rightarrow> SelfSigs \<Rightarrow> (time \<times> bool) \<times> PrimaryKey" where
  "key_ExpiresAt E pubkey ss = (case cert_expiration (ss_Certifications ss) of
     Some r \<Rightarrow> (r, pubkey)
   | None \<Rightarrow>
      (if pub_Version pubkey < 6 then
         (case PrimaryUserIDSig E pubkey of (s, pubkey') \<Rightarrow>
           (case s of
              Some sig \<Rightarrow> if \<not> IsZero (sf_Expiration (sg sig)) then ((sf_Expiration (sg sig), True), pubkey')
                          else ((zeroTime, False), pubkey')
            | None \<Rightarrow> ((zeroTime, False), pubkey')))
       else ((zeroTime, False), pubkey)))"

text \<open>\<open>ValidSince\<close> and \<open>Valid\<close> of a primary key.\<close>

definition key_ValidSince :: "gocrypto \<Rightarrow> PrimaryKey \<Rightarrow> SelfSigs \<Rightarrow> (time \<times> bool) \<times> PrimaryKey" where
  "key_ValidSince E pubkey ss = (case key_ExpiresAt E pubkey ss of ((expiration, expires), pubkey') \<Rightarrow>
     ((pub_Creation pubkey,
       \<not> (expires \<and> expiration < gc_now E) \<and> ss_Revocations ss = []
       \<and> \<not> (6 \<le> pub_Version pubkey \<and> ss_Certifications ss = [])), pubkey'))"

definition key_Valid :: "gocrypto \<Rightarrow> PrimaryKey \<Rightarrow> SelfSigs \<Rightarrow> bool" where
  "key_Valid E pubkey ss = snd (fst (key_ValidSince E pubkey ss))"

section \<open>Validity of a component\<close>

text \<open>The loops over the certifications of a component stop after a huge (SLH-DSA) signature.\<close>

definition isHuge :: "Signature \<Rightarrow> bool" where
  "isHuge sig = (sf_Algorithm (sg sig) \<in> {32, 33, 34})"

fun keep_certs :: "CheckSig list \<Rightarrow> Signature list" where
  "keep_certs [] = []"
| "keep_certs (c # cs) =
    (if cs_Error c = None then cs_Signature c # (if isHuge (cs_Signature c) then [] else keep_certs cs)
     else keep_certs cs)"

definition keep_revocations :: "CheckSig list \<Rightarrow> Signature list" where
  "keep_revocations cs = map cs_Signature (filter (\<lambda>c. cs_Error c = None) cs)"

definition uid_Valid :: "gocrypto \<Rightarrow> PrimaryKey \<Rightarrow> bool \<Rightarrow> UserID \<Rightarrow> bool \<times> UserID" where
  "uid_Valid E key selfSignedOnly uid =
    (let uid1 = uid\<lparr>uid_Trusts := []\<rparr>;
         (ss, others, uid2) = uid_SigInfo E key uid1;
         uid3 = uid2\<lparr>uid_ValidSince := fst (ValidSince E ss), uid_Expiration := fst (ExpiresAt ss)\<rparr>;
         revs = keep_revocations (ss_Revocations ss);
         uid4 = (if revs \<noteq> [] then uid3\<lparr>uid_IsRevoked := True\<rparr> else uid3);
         certs = revs @ keep_certs (ss_Certifications ss) in
     if certs \<noteq> [] then (True, uid4\<lparr>uid_Signatures := (if selfSignedOnly then certs else certs @ others)\<rparr>)
     else (False, uid4))"

definition subkey_Valid :: "gocrypto \<Rightarrow> PrimaryKey \<Rightarrow> bool \<Rightarrow> SubKey \<Rightarrow> bool \<times> SubKey" where
  "subkey_Valid E key selfSignedOnly subkey =
    (let subkey1 = subkey\<lparr>pub_Trusts := []\<rparr>;
         (ss, others, subkey2) = subkey_SigInfo E key subkey1;
         subkey3 = subkey2\<lparr>pub_Expiration := fst (ExpiresAt ss)\<rparr>;
         revs = keep_revocations (ss_Revocations ss);
         subkey4 = (if revs \<noteq> [] then subkey3\<lparr>pub_IsRevoked := True\<rparr> else subkey3);
         certs = revs @ keep_certs (ss_Certifications ss) in
     if certs \<noteq> [] then (True, subkey4\<lparr>pub_Signatures := (if selfSignedOnly then certs else certs @ others)\<rparr>)
     else (False, subkey4))"

end
