(* ===== verification/Resolve.thy ===== *)
theory Resolve
  imports Certs
begin

text \<open>
  Normalising and merging certificates, \<open>resolve.go\<close>, with the redaction of user IDs
  (\<open>trust.go\<close>, \<open>PrimaryKey.TrustInfo\<close>) and the ordering of \<open>sort.go\<close>.
\<close>

section \<open>Policies and redacted user IDs\<close>

record Policy =
  po_enumDomains :: "gostring set"

text \<open>A policy option fails or changes the policy; \<open>EnumerableDomains\<close> is the one there is.\<close>

definition EnumerableDomains :: "gostring list \<Rightarrow> Policy \<Rightarrow> Policy res" where
  "EnumerableDomains enumDomains p = Inr (p\<lparr>po_enumDomains := po_enumDomains p \<union> set enumDomains\<rparr>)"

definition NewPolicy :: "(Policy \<Rightarrow> Policy res) list \<Rightarrow> Policy res" where
  "NewPolicy options = rfold (\<lambda>option p. option p) options \<lparr>po_enumDomains = {}\<rparr>"

definition IsPersistable :: "gocrypto \<Rightarrow> Policy \<Rightarrow> UserID \<Rightarrow> bool" where
  "IsPersistable E p uid = (let d = id_domain (IdentityInfo E uid {}) in d \<noteq> [] \<and> d \<in> po_enumDomains p)"

text \<open>
  \<open>ptr\<close> is the address of the new trust packet. It has no UUID until it is parsed back.
\<close>

definition NewRedactedUserID :: "nat \<Rightarrow> UserID \<Rightarrow> Trust res" where
  "NewRedactedUserID ptr uid =
    rbind (nth_res (uid_Signatures uid) 0) (\<lambda>sig.
      UpdatePacket (Trust ((emptyTrust ptr [] 0 [])\<lparr>
        tf_AppContext := QuietSKS, tf_PacketContext := 6,
        tf_Notations := [\<lparr>nt_Name = trustTypeRedactedUserID, nt_Value = uid_Keywords uid,
                          nt_IsHumanReadable = False, nt_IsCritical = True\<rparr>]\<rparr>) [sig]))"

text \<open>\<open>PrimaryKey.TrustInfo\<close>: a redacted user ID is checked like a user ID of the key.\<close>

definition redacted_uid :: "gocrypto \<Rightarrow> Trust \<Rightarrow> gostring \<Rightarrow> UserID" where
  "redacted_uid E t keywords =
    (let buf = op_Serialize \<lparr>op_Tag = 13, op_Contents = keywords\<rparr> in
     \<lparr>p_ptr = 0, p_UUID = scopedDigest E [p_UUID (tr t)] uidTag buf, p_Tag = 13, p_Count = 0, p_Data = buf,
      uid_Keywords = keywords, uid_ValidSince = zeroTime, uid_Expiration = zeroTime, uid_IsRevoked = False,
      uid_Trusts = [], uid_Signatures = tr_Signatures t\<rparr>)"

definition key_trust_step :: "gocrypto \<Rightarrow> PrimaryKey \<Rightarrow> Trust \<Rightarrow> CheckTrusts \<times> Trust list \<Rightarrow> CheckTrusts \<times> Trust list" where
  "key_trust_step E pubkey t s = (case s of (cts, others) \<Rightarrow>
    let ct = \<lparr>ct_Trust = t, ct_UserID = None, ct_Error = trust_error (plausifyTrust E pubkey t)\<rparr>;
        dropped = (cts\<lparr>ct_Errors := ct_Errors cts @ [ct]\<rparr>, others) in
    if ct_Error ct \<noteq> None then dropped
    else case TrustTypeNotation t of
      None \<Rightarrow> dropped
    | Some nt \<Rightarrow>
       (if nt_Name nt = trustTypeRedactedUserID then
          (case CleanUtf8 (nt_Value nt) of
             Inl _ \<Rightarrow> dropped
           | Inr keywords \<Rightarrow>
              (case uid_Valid E pubkey False (redacted_uid E t keywords) of
                 (True, uid) \<Rightarrow> (cts\<lparr>ct_RedactedUserIDs := ct_RedactedUserIDs cts @ [ct\<lparr>ct_UserID := Some uid\<rparr>]\<rparr>, others)
               | (False, _) \<Rightarrow> (cts, others @ [t])))
        else (cts, others @ [t])))"

definition key_TrustInfo :: "gocrypto \<Rightarrow> PrimaryKey \<Rightarrow> CheckTrusts \<times> Trust list" where
  "key_TrustInfo E pubkey = fold (key_trust_step E pubkey) (pub_Trusts pubkey)
     (\<lparr>ct_RedactedUserIDs = [], ct_Errors = []\<rparr>, [])"

section \<open>Normalising a key\<close>

abbreviation "ErrKeyEvaporated \<equiv> ErrMsg ''no valid self-signatures''"

text \<open>Redaction of the persistable user IDs; the new trust packets get addresses from \<open>next\<close> on.\<close>

fun redact_uids :: "gocrypto \<Rightarrow> Policy \<Rightarrow> nat \<Rightarrow> UserID list \<Rightarrow> Trust list res" where
  "redact_uids E policy next [] = Inr []"
| "redact_uids E policy next (uid # uids) =
    (if IsPersistable E policy uid then
       rbind (NewRedactedUserID next uid) (\<lambda>t. rbind (redact_uids E policy (Suc next) uids) (\<lambda>ts. Inr (t # ts)))
     else redact_uids E policy next uids)"

text \<open>The redacted user IDs that are kept: persistable, and each name once.\<close>

fun keep_redacted :: "gocrypto \<Rightarrow> Policy \<Rightarrow> gostring set \<Rightarrow> CheckTrust list \<Rightarrow> (Trust \<times> UserID) list" where
  "keep_redacted E policy seen [] = []"
| "keep_redacted E policy seen (ct # cts) = (case ct_UserID ct of
     None \<Rightarrow> keep_redacted E policy seen cts
   | Some uid \<Rightarrow>
      (if ct_Error ct \<noteq> None \<or> \<not> IsPersistable E policy uid \<or> uid_Keywords uid \<in> seen
       then keep_redacted E policy seen cts
       else (ct_Trust ct, uid) # keep_redacted E policy (insert (uid_Keywords uid) seen) cts))"

text \<open>
  \<open>ValidSelfSigned\<close> with its last step \<open>finish\<close>, the update of the digests, as an argument: when that
  fails the key is left as it was before.
\<close>

definition ValidSelfSigned_with :: "(PrimaryKey \<Rightarrow> PrimaryKey res) \<Rightarrow> gocrypto \<Rightarrow> Policy \<Rightarrow> nat \<Rightarrow> PrimaryKey \<Rightarrow> bool \<Rightarrow> PrimaryKey res" where
  "ValidSelfSigned_with finish E policy next key selfSignedOnly =
    (let (ss, others) = key_SigInfo E key;
         revs = keep_revocations (ss_Revocations ss);
         hard = list_ex isHard revs;
         key1 = (if revs \<noteq> [] then key\<lparr>pub_IsRevoked := True\<rparr> else key);
         selfSignedOnly = (selfSignedOnly \<or> hard);
         certs = revs @ keep_certs (ss_Certifications ss);
         key2 = key1\<lparr>pub_Signatures := (if selfSignedOnly then certs else certs @ others)\<rparr> in
     rbind (if hard then redact_uids E policy next (pk_UserIDs key2) else Inr []) (\<lambda>ruids.
     let userIDs = (if hard then [] else
           map snd (filter fst (map (uid_Valid E key2 selfSignedOnly) (pk_UserIDs key2))));
         subKeys = map snd (filter fst (map (subkey_Valid E key2 selfSignedOnly) (pk_SubKeys key2)));
         key3 = key2\<lparr>pub_Trusts := pub_Trusts key2 @ ruids, pk_UserIDs := userIDs, pk_SubKeys := subKeys\<rparr> in
     if subKeys = [] \<and> userIDs = [] \<and> certs = [] then Inl (Err ErrKeyEvaporated)
     else
       let (tt, _) = key_TrustInfo E key3;
           redacted = keep_redacted E policy {} (ct_RedactedUserIDs tt);
           key4 = key3\<lparr>pub_Trusts := map fst redacted, pk_RedactedUserIDs := map snd redacted\<rparr>;
           ((expiration, _), key5) = key_ExpiresAt E key4 ss in
       finish (key5\<lparr>pub_Expiration := expiration\<rparr>)))"

definition ValidSelfSigned :: "gocrypto \<Rightarrow> Policy \<Rightarrow> nat \<Rightarrow> PrimaryKey \<Rightarrow> bool \<Rightarrow> PrimaryKey res" where
  "ValidSelfSigned E policy next key selfSignedOnly = ValidSelfSigned_with (updateMD5 E) E policy next key selfSignedOnly"

section \<open>Removing duplicates\<close>

definition contents :: "packetNode \<Rightarrow> packetNode list" where
  "contents n = (case n of PubNode k \<Rightarrow> key_contents k | SubNode k \<Rightarrow> subkey_contents k
     | UidNode u \<Rightarrow> uid_contents u | SigNode s \<Rightarrow> sig_contents s | TrustNode t \<Rightarrow> trust_contents t)"

definition node_uuid :: "packetNode \<Rightarrow> gostring" where
  "node_uuid n = p_UUID (node_packet n)"

definition node_ptr :: "packetNode \<Rightarrow> nat" where
  "node_ptr n = p_ptr (node_packet n)"

text \<open>The \<open>without\<close> methods compare pointers.\<close>

definition trusts_without :: "nat \<Rightarrow> Trust list \<Rightarrow> Trust list" where
  "trusts_without target = filter (\<lambda>t. p_ptr (tr t) \<noteq> target)"

definition sigs_without :: "nat \<Rightarrow> Signature list \<Rightarrow> Signature list" where
  "sigs_without target = filter (\<lambda>s. p_ptr (sg s) \<noteq> target)"

definition uids_without :: "nat \<Rightarrow> UserID list \<Rightarrow> UserID list" where
  "uids_without target = filter (\<lambda>u. p_ptr u \<noteq> target)"

definition subkeys_without :: "nat \<Rightarrow> SubKey list \<Rightarrow> SubKey list" where
  "subkeys_without target = filter (\<lambda>k. p_ptr k \<noteq> target)"

text \<open>
  \<open>removeDuplicate(parent, dup)\<close> of a node: it returns the node and the parent as they are then.
\<close>

definition removeDuplicate :: "packetNode \<Rightarrow> packetNode \<Rightarrow> packetNode \<Rightarrow> (packetNode \<times> packetNode) res" where
  "removeDuplicate primary parent dup = (case primary of
     PubNode _ \<Rightarrow> Inl (Err (ErrMsg ''cannot remove a duplicate primary pubkey''))
   | SubNode k \<Rightarrow>
      (case parent of
         PubNode pubkey \<Rightarrow>
          (case dup of
             SubNode d \<Rightarrow> Inr (SubNode (k\<lparr>pub_Signatures := pub_Signatures k @ pub_Signatures d\<rparr>),
                              PubNode (pubkey\<lparr>pk_SubKeys := subkeys_without (p_ptr d) (pk_SubKeys pubkey)\<rparr>))
           | _ \<Rightarrow> Inl (Err (ErrMsg ''invalid subkey duplicate'')))
       | _ \<Rightarrow> Inl (Err (ErrMsg ''invalid subkey parent'')))
   | UidNode u \<Rightarrow>
      (case parent of
         PubNode pubkey \<Rightarrow>
          (case dup of
             UidNode d \<Rightarrow> Inr (UidNode (u\<lparr>uid_Signatures := uid_Signatures u @ uid_Signatures d\<rparr>),
                              PubNode (pubkey\<lparr>pk_UserIDs := uids_without (p_ptr d) (pk_UserIDs pubkey)\<rparr>))
           | _ \<Rightarrow> Inl (Err (ErrMsg ''invalid uid duplicate'')))
       | _ \<Rightarrow> Inl (Err (ErrMsg ''invalid uid parent'')))
   | SigNode s \<Rightarrow>
      (case dup of
         SigNode d \<Rightarrow> Inr (primary, (case parent of
             PubNode k \<Rightarrow> PubNode (k\<lparr>pub_Signatures := sigs_without (p_ptr (sg d)) (pub_Signatures k)\<rparr>)
           | SubNode k \<Rightarrow> SubNode (k\<lparr>pub_Signatures := sigs_without (p_ptr (sg d)) (pub_Signatures k)\<rparr>)
           | UidNode u \<Rightarrow> UidNode (u\<lparr>uid_Signatures := sigs_without (p_ptr (sg d)) (uid_Signatures u)\<rparr>)
           | _ \<Rightarrow> parent))
       | _ \<Rightarrow> Inl (Err (ErrMsg ''invalid packet duplicate'')))
   | TrustNode t \<Rightarrow>
      (case dup of
         TrustNode d \<Rightarrow> Inr (primary, (case parent of
             PubNode k \<Rightarrow> PubNode (k\<lparr>pub_Trusts := trusts_without (p_ptr (tr d)) (pub_Trusts k)\<rparr>)
           | SubNode k \<Rightarrow> SubNode (k\<lparr>pub_Trusts := trusts_without (p_ptr (tr d)) (pub_Trusts k)\<rparr>)
           | UidNode u \<Rightarrow> UidNode (u\<lparr>uid_Trusts := trusts_without (p_ptr (tr d)) (uid_Trusts u)\<rparr>)
           | SigNode s \<Rightarrow> SigNode (Signature (sg s) (trusts_without (p_ptr (tr d)) (sg_Trusts s)))
           | _ \<Rightarrow> parent))
       | _ \<Rightarrow> Inl (Err (ErrMsg ''invalid packet duplicate''))))"

text \<open>
  A node of a tree is changed through its pointer: \<open>put\<close> stores the new value of a node wherever
  the tree refers to it, \<open>node_get\<close> reads the present value.
\<close>

definition trust_put :: "packetNode \<Rightarrow> Trust \<Rightarrow> Trust" where
  "trust_put n t = (case n of TrustNode t' \<Rightarrow> if p_ptr (tr t') = p_ptr (tr t) then t' else t | _ \<Rightarrow> t)"

definition sig_put :: "packetNode \<Rightarrow> Signature \<Rightarrow> Signature" where
  "sig_put n s = (case n of
     SigNode s' \<Rightarrow> if p_ptr (sg s') = p_ptr (sg s) then s' else s
   | _ \<Rightarrow> Signature (sg s) (map (trust_put n) (sg_Trusts s)))"

definition uid_put :: "packetNode \<Rightarrow> UserID \<Rightarrow> UserID" where
  "uid_put n u = (case n of
     UidNode u' \<Rightarrow> if p_ptr u' = p_ptr u then u' else u
   | _ \<Rightarrow> u\<lparr>uid_Trusts := map (trust_put n) (uid_Trusts u), uid_Signatures := map (sig_put n) (uid_Signatures u)\<rparr>)"

definition subkey_put :: "packetNode \<Rightarrow> SubKey \<Rightarrow> SubKey" where
  "subkey_put n k = (case n of
     SubNode k' \<Rightarrow> if p_ptr k' = p_ptr k then k' else k
   | _ \<Rightarrow> k\<lparr>pub_Trusts := map (trust_put n) (pub_Trusts k), pub_Signatures := map (sig_put n) (pub_Signatures k)\<rparr>)"

definition key_put :: "packetNode \<Rightarrow> PrimaryKey \<Rightarrow> PrimaryKey" where
  "key_put n k = (case n of
     PubNode k' \<Rightarrow> if p_ptr k' = p_ptr k then k' else k
   | _ \<Rightarrow> k\<lparr>pub_Trusts := map (trust_put n) (pub_Trusts k), pub_Signatures := map (sig_put n) (pub_Signatures k),
            pk_UserIDs := map (uid_put n) (pk_UserIDs k), pk_SubKeys := map (subkey_put n) (pk_SubKeys k)\<rparr>)"

definition node_put :: "packetNode \<Rightarrow> packetNode \<Rightarrow> packetNode" where
  "node_put n root = (case root of PubNode k \<Rightarrow> PubNode (key_put n k) | SubNode k \<Rightarrow> SubNode (subkey_put n k)
     | UidNode u \<Rightarrow> UidNode (uid_put n u) | SigNode s \<Rightarrow> SigNode (sig_put n s) | TrustNode t \<Rightarrow> TrustNode (trust_put n t))"

definition same_node :: "packetNode \<Rightarrow> packetNode \<Rightarrow> bool" where
  "same_node m n = (node_ptr m = node_ptr n \<and> (case (m, n) of
     (PubNode _, PubNode _) \<Rightarrow> True | (SubNode _, SubNode _) \<Rightarrow> True | (UidNode _, UidNode _) \<Rightarrow> True
   | (SigNode _, SigNode _) \<Rightarrow> True | (TrustNode _, TrustNode _) \<Rightarrow> True | _ \<Rightarrow> False))"

definition node_get :: "packetNode \<Rightarrow> packetNode \<Rightarrow> packetNode" where
  "node_get n root = (case find (same_node n) (contents root) of Some m \<Rightarrow> m | None \<Rightarrow> n)"

definition count_up :: "packetNode \<Rightarrow> packetNode" where
  "count_up n = (case n of
     PubNode k \<Rightarrow> PubNode (k\<lparr>p_Count := p_Count k + 1\<rparr>) | SubNode k \<Rightarrow> SubNode (k\<lparr>p_Count := p_Count k + 1\<rparr>)
   | UidNode u \<Rightarrow> UidNode (u\<lparr>p_Count := p_Count u + 1\<rparr>)
   | SigNode s \<Rightarrow> SigNode (Signature ((sg s)\<lparr>p_Count := p_Count (sg s) + 1\<rparr>) (sg_Trusts s))
   | TrustNode t \<Rightarrow> TrustNode (Trust ((tr t)\<lparr>p_Count := p_Count (tr t) + 1\<rparr>) (tr_Signatures t)))"

text \<open>
  \<open>dedup(root, handleDuplicate)\<close>. It calls itself on nodes below the root, so the recursion is
  never deeper than the tree (a primary key, a user ID, a signature, a trust packet): fuel 4 is enough.
\<close>

fun dedup :: "nat \<Rightarrow> (packetNode \<Rightarrow> packetNode) option \<Rightarrow> packetNode \<Rightarrow> packetNode res" where
  "dedup 0 h root = Inl Diverge"
| "dedup (Suc n) h root =
    rbind (rfold (\<lambda>node (root, nodes). case nodes (node_uuid node) of
        None \<Rightarrow> Inr (root, nodes(node_uuid node \<mapsto> node))
      | Some primary0 \<Rightarrow>
          rbind (removeDuplicate (node_get primary0 root) root node) (\<lambda>(primary, root).
          let root = node_put primary root in
          rbind (dedup n None primary) (\<lambda>primary.
          let root = node_put primary root in
          Inr (case h of None \<Rightarrow> root | Some f \<Rightarrow> node_put (f primary) root, nodes))))
      (contents root) (root, Map.empty)) (\<lambda>(root, _). Inr root)"

definition dedup_key :: "(packetNode \<Rightarrow> packetNode) option \<Rightarrow> PrimaryKey \<Rightarrow> PrimaryKey res" where
  "dedup_key h key = rbind (dedup 4 h (PubNode key)) (\<lambda>n. case n of
     PubNode k \<Rightarrow> Inr k | _ \<Rightarrow> Inl (Panic PNil))"

definition CollectDuplicates :: "gocrypto \<Rightarrow> PrimaryKey \<Rightarrow> PrimaryKey res" where
  "CollectDuplicates E key = rbind (dedup_key (Some count_up) key) (updateMD5 E)"

definition append_key :: "PrimaryKey \<Rightarrow> PrimaryKey \<Rightarrow> PrimaryKey" where
  "append_key dst src = dst\<lparr>pk_UserIDs := pk_UserIDs dst @ pk_UserIDs src, pk_SubKeys := pk_SubKeys dst @ pk_SubKeys src,
     pub_Signatures := pub_Signatures dst @ pub_Signatures src, pub_Trusts := pub_Trusts dst @ pub_Trusts src\<rparr>"

definition Merge :: "gocrypto \<Rightarrow> Policy \<Rightarrow> nat \<Rightarrow> PrimaryKey \<Rightarrow> PrimaryKey \<Rightarrow> PrimaryKey res" where
  "Merge E policy next dst src =
    rbind (dedup_key None (append_key dst src)) (\<lambda>key. ValidSelfSigned E policy next key False)"

definition MergeRevocationSig :: "gocrypto \<Rightarrow> Policy \<Rightarrow> nat \<Rightarrow> PrimaryKey \<Rightarrow> Signature \<Rightarrow> PrimaryKey res" where
  "MergeRevocationSig E policy next dst src =
    rbind (dedup_key None (dst\<lparr>pub_Signatures := pub_Signatures dst @ [src]\<rparr>)) (\<lambda>key.
      ValidSelfSigned E policy next key False)"

section \<open>Cleaning keys for output\<close>

definition sig_no_trusts :: "Signature \<Rightarrow> Signature" where
  "sig_no_trusts s = Signature (sg s) []"

definition sig_no_data :: "Signature \<Rightarrow> Signature" where
  "sig_no_data s = Signature ((sg s)\<lparr>p_Data := []\<rparr>) (sg_Trusts s)"

definition RemoveTrusts :: "PrimaryKey \<Rightarrow> PrimaryKey" where
  "RemoveTrusts key = key\<lparr>pub_Trusts := [], pub_Signatures := map sig_no_trusts (pub_Signatures key),
     pk_UserIDs := map (\<lambda>u. u\<lparr>uid_Trusts := [], uid_Signatures := map sig_no_trusts (uid_Signatures u)\<rparr>) (pk_UserIDs key),
     pk_SubKeys := map (\<lambda>k. k\<lparr>pub_Trusts := [], pub_Signatures := map sig_no_trusts (pub_Signatures k)\<rparr>) (pk_SubKeys key)\<rparr>"

definition RemoveData :: "PrimaryKey \<Rightarrow> PrimaryKey" where
  "RemoveData key = key\<lparr>p_Data := [], pub_Signatures := map sig_no_data (pub_Signatures key),
     pk_UserIDs := map (\<lambda>u. u\<lparr>p_Data := [], uid_Signatures := map sig_no_data (uid_Signatures u)\<rparr>) (pk_UserIDs key),
     pk_SubKeys := map (\<lambda>k. k\<lparr>p_Data := [], pub_Signatures := map sig_no_data (pub_Signatures k)\<rparr>) (pk_SubKeys key)\<rparr>"

definition SanitizeHKP :: "PrimaryKey list \<Rightarrow> PrimaryKey list" where
  "SanitizeHKP keys = map RemoveTrusts keys"

definition SanitizeIndex :: "PrimaryKey list \<Rightarrow> PrimaryKey list" where
  "SanitizeIndex keys = map (\<lambda>k. RemoveData (RemoveTrusts k)) keys"

section \<open>Sorting\<close>

definition lessSelfSigs :: "gocrypto \<Rightarrow> SelfSigs \<Rightarrow> SelfSigs \<Rightarrow> bool \<times> bool" where
  "lessSelfSigs E i j =
    (let iValid = ss_Valid E i; jValid = ss_Valid E j;
         iRevokedOk = snd (RevokedSince i); jRevokedOk = snd (RevokedSince j);
         (iPrimarySince, iPrimaryOk) = PrimarySince E i; (jPrimarySince, jPrimaryOk) = PrimarySince E j;
         (iValidSince, iValidOk) = ValidSince E i; (jValidSince, jValidOk) = ValidSince E j in
     if iValid \<noteq> jValid then (iValid, True)
     else if \<not> iValid \<and> iRevokedOk \<noteq> jRevokedOk then (\<not> iRevokedOk, True)
     else if iPrimaryOk \<noteq> jPrimaryOk then (iPrimaryOk, True)
     else if iPrimaryOk then (Unix jPrimarySince < Unix iPrimarySince, True)
     else if iValidOk \<noteq> jValidOk then (iValidOk, True)
     else if iValidOk then (Unix jValidSince < Unix iValidSince, True)
     else (False, False))"

definition uid_Less :: "gocrypto \<Rightarrow> PrimaryKey \<Rightarrow> UserID \<Rightarrow> UserID \<Rightarrow> bool" where
  "uid_Less E key i j =
    (let (lt, ok) = lessSelfSigs E (fst (uid_SigInfo E key i)) (fst (uid_SigInfo E key j)) in
     if ok then lt else bytes_less (uid_Keywords i) (uid_Keywords j))"

definition subkey_Less :: "gocrypto \<Rightarrow> PrimaryKey \<Rightarrow> SubKey \<Rightarrow> SubKey \<Rightarrow> bool" where
  "subkey_Less E key i j =
    (let (lt, ok) = lessSelfSigs E (fst (subkey_SigInfo E key i)) (fst (subkey_SigInfo E key j)) in
     if ok then lt else Unix (pub_Creation i) < Unix (pub_Creation j))"

definition sig_Less :: "Signature \<Rightarrow> Signature \<Rightarrow> bool" where
  "sig_Less i j = (Unix (sf_Creation (sg i)) < Unix (sf_Creation (sg j)))"

text \<open>
  \<open>Sort\<close>. The comparisons leave the \<open>IsRevoked\<close> flags of revoked components set; that has
  happened before, in \<open>ValidSelfSigned\<close>.
\<close>

definition SortKey :: "gocrypto \<Rightarrow> PrimaryKey \<Rightarrow> PrimaryKey" where
  "SortKey E key = key\<lparr>
     pub_Signatures := sort_Sort sig_Less (pub_Signatures key),
     pk_UserIDs := map (\<lambda>u. u\<lparr>uid_Signatures := sort_Sort sig_Less (uid_Signatures u)\<rparr>)
       (sort_Sort (uid_Less E key) (pk_UserIDs key)),
     pk_SubKeys := map (\<lambda>k. k\<lparr>pub_Signatures := sort_Sort sig_Less (pub_Signatures k)\<rparr>)
       (sort_Sort (subkey_Less E key) (pk_SubKeys key))\<rparr>"

end
