(* ===== verification/KeyIO.thy ===== *)
theory KeyIO
  imports Resolve
begin

text \<open>
  Reading and writing certificates, \<open>io.go\<close>: splitting a byte stream into certificates within
  the configured limits, parsing the packets of one certificate, and writing keys. A reader is
  the bytes it returns, and the file position of a certificate is left out. ASCII armor is the
  parameter of the functions that use it.
\<close>

section \<open>Writing\<close>

definition WritePacket :: "packetNode \<Rightarrow> byte list res" where
  "WritePacket node = rbind (newOpaquePacket (p_Data (node_packet node))) (\<lambda>op. Inr (op_Serialize op))"

definition WritePackets :: "PrimaryKey \<Rightarrow> byte list res" where
  "WritePackets key = rfold (\<lambda>node w. rbind (WritePacket node) (\<lambda>b. Inr (w @ b))) (key_contents key) []"

text \<open>
  \<open>WriteArmoredPackets\<close>: for a client that cannot read them, keys of version 6 and later are
  skipped, and a key with a redacting signature is replaced by that signature.
\<close>

definition armored_step :: "gocrypto \<Rightarrow> bool \<Rightarrow> PrimaryKey \<Rightarrow> byte list \<times> PrimaryKey list \<Rightarrow> (byte list \<times> PrimaryKey list) res" where
  "armored_step E gpgClientCompat node s = (case s of (w, fullRoots) \<Rightarrow>
    if gpgClientCompat \<and> 6 \<le> pub_Version node then Inr (w, fullRoots)
    else if gpgClientCompat \<and> RedactingSignature E node \<noteq> None then
      rbind (WritePacket (SigNode (the (RedactingSignature E node)))) (\<lambda>b. Inr (w @ b, fullRoots))
    else Inr (w, fullRoots @ [node]))"

definition WriteArmoredPackets :: "gocrypto \<Rightarrow> (byte list \<Rightarrow> byte list) \<Rightarrow> PrimaryKey list \<Rightarrow> bool \<Rightarrow> byte list res" where
  "WriteArmoredPackets E armor_Encode roots gpgClientCompat =
    rbind (rfold (armored_step E gpgClientCompat) roots ([], [])) (\<lambda>(w, fullRoots).
    rbind (rfold (\<lambda>node w. rbind (WritePackets node) (\<lambda>b. Inr (w @ b))) fullRoots w) (\<lambda>w.
      Inr (armor_Encode w)))"

section \<open>Parsing one certificate\<close>

text \<open>
  The pointers \<open>signablePacket\<close> and \<open>trustablePacket\<close> always refer to the last component of a
  kind, or the last signature of that component.
\<close>

datatype cursor = CKey | CSub | CUid

datatype trustable = TrComponent cursor | TrSig cursor

record parseState =
  st_pubkey :: "PrimaryKey option"
  st_signable :: "cursor option"
  st_trustable :: "trustable option"
  st_keyCreationTime :: time
  st_length :: int
  st_next :: nat

definition map_last :: "('a \<Rightarrow> 'a) \<Rightarrow> 'a list \<Rightarrow> 'a list" where
  "map_last f xs = (if xs = [] then [] else butlast xs @ [f (last xs)])"

definition cursor_uuid :: "PrimaryKey \<Rightarrow> cursor \<Rightarrow> gostring" where
  "cursor_uuid key c = (case c of CKey \<Rightarrow> p_UUID key | CSub \<Rightarrow> p_UUID (last (pk_SubKeys key))
     | CUid \<Rightarrow> p_UUID (last (pk_UserIDs key)))"

definition cursor_sigs :: "PrimaryKey \<Rightarrow> cursor \<Rightarrow> Signature list" where
  "cursor_sigs key c = (case c of CKey \<Rightarrow> pub_Signatures key | CSub \<Rightarrow> pub_Signatures (last (pk_SubKeys key))
     | CUid \<Rightarrow> uid_Signatures (last (pk_UserIDs key)))"

definition upd_sigs :: "cursor \<Rightarrow> (Signature list \<Rightarrow> Signature list) \<Rightarrow> PrimaryKey \<Rightarrow> PrimaryKey" where
  "upd_sigs c f key = (case c of
     CKey \<Rightarrow> key\<lparr>pub_Signatures := f (pub_Signatures key)\<rparr>
   | CSub \<Rightarrow> key\<lparr>pk_SubKeys := map_last (\<lambda>k. k\<lparr>pub_Signatures := f (pub_Signatures k)\<rparr>) (pk_SubKeys key)\<rparr>
   | CUid \<Rightarrow> key\<lparr>pk_UserIDs := map_last (\<lambda>u. u\<lparr>uid_Signatures := f (uid_Signatures u)\<rparr>) (pk_UserIDs key)\<rparr>)"

definition appendSignature :: "cursor \<Rightarrow> Signature \<Rightarrow> PrimaryKey \<Rightarrow> PrimaryKey" where
  "appendSignature c sig = upd_sigs c (\<lambda>sigs. sigs @ [sig])"

definition trustable_uuid :: "PrimaryKey \<Rightarrow> trustable \<Rightarrow> gostring" where
  "trustable_uuid key t = (case t of TrComponent c \<Rightarrow> cursor_uuid key c
     | TrSig c \<Rightarrow> p_UUID (sg (last (cursor_sigs key c))))"

definition appendTrust :: "trustable \<Rightarrow> Trust \<Rightarrow> PrimaryKey \<Rightarrow> PrimaryKey" where
  "appendTrust t trust key = (case t of
     TrComponent CKey \<Rightarrow> key\<lparr>pub_Trusts := pub_Trusts key @ [trust]\<rparr>
   | TrComponent CSub \<Rightarrow> key\<lparr>pk_SubKeys := map_last (\<lambda>k. k\<lparr>pub_Trusts := pub_Trusts k @ [trust]\<rparr>) (pk_SubKeys key)\<rparr>
   | TrComponent CUid \<Rightarrow> key\<lparr>pk_UserIDs := map_last (\<lambda>u. u\<lparr>uid_Trusts := uid_Trusts u @ [trust]\<rparr>) (pk_UserIDs key)\<rparr>
   | TrSig c \<Rightarrow> upd_sigs c (map_last (\<lambda>s. Signature (sg s) (sg_Trusts s @ [trust]))) key)"

text \<open>One packet of the loop in \<open>OpaqueCert.Parse\<close>; an unreadable packet is skipped.\<close>

definition parse_step :: "gocrypto \<Rightarrow> OpaquePacket \<Rightarrow> parseState \<Rightarrow> parseState res" where
  "parse_step E opkt st0 =
    (let st = st0\<lparr>st_next := Suc (st_next st0)\<rparr>; ptr = st_next st0; tag = op_Tag opkt;
         counted = (\<lambda>st. st\<lparr>st_length := st_length st + int (length (op_Contents opkt))\<rparr>) in
     if tag = 6 then
       (if st_pubkey st \<noteq> None then Inl (Err (ErrMsg ''multiple primary keys in cert''))
        else rbind (ParsePrimaryKey E ptr opkt) (\<lambda>key. Inr (counted (st\<lparr>st_pubkey := Some key,
               st_signable := Some CKey, st_trustable := Some (TrComponent CKey),
               st_keyCreationTime := pub_Creation key\<rparr>))))
     else case st_pubkey st of
       Some key \<Rightarrow>
        (if tag = 14 then
           (case ParseSubKey E ptr opkt of
              Inl _ \<Rightarrow> Inr (st\<lparr>st_signable := None\<rparr>)
            | Inr subkey \<Rightarrow> Inr (counted (st\<lparr>st_pubkey := Some (key\<lparr>pk_SubKeys := pk_SubKeys key @ [subkey]\<rparr>),
                st_signable := Some CSub, st_trustable := Some (TrComponent CSub),
                st_keyCreationTime := pub_Creation subkey\<rparr>)))
         else if tag = 13 then
           (case ParseUserID E ptr opkt (p_UUID key) of
              Inl _ \<Rightarrow> Inr (st\<lparr>st_signable := None\<rparr>)
            | Inr uid \<Rightarrow> Inr (counted (st\<lparr>st_pubkey := Some (key\<lparr>pk_UserIDs := pk_UserIDs key @ [uid]\<rparr>),
                st_signable := Some CUid, st_trustable := Some (TrComponent CUid)\<rparr>)))
         else if tag = 2 then
           (case st_signable st of
              None \<Rightarrow> Inr st
            | Some c \<Rightarrow>
               (case ParseSignature E ptr opkt (st_keyCreationTime st) (p_UUID key) (cursor_uuid key c) of
                  Inl _ \<Rightarrow> Inr st
                | Inr sig \<Rightarrow> Inr (counted (st\<lparr>st_pubkey := Some (appendSignature c sig key),
                    st_trustable := Some (TrSig c)\<rparr>))))
         else if tag = 12 then
           (case st_trustable st of
              None \<Rightarrow> Inr st
            | Some t \<Rightarrow>
               (case ParseTrust E ptr opkt (st_keyCreationTime st) (p_UUID key) (trustable_uuid key t) of
                  Inl _ \<Rightarrow> Inr st
                | Inr trust \<Rightarrow> Inr (counted (st\<lparr>st_pubkey := Some (appendTrust t trust key)\<rparr>))))
         else if tag = 10 then Inr st
         else Inr (st\<lparr>st_signable := None, st_trustable := None\<rparr>))
     | None \<Rightarrow>
        (if tag = 12 then Inl (Err (ErrMsg ''bare trust packets are not supported''))
         else if tag = 2 then Inl (Err (ErrMsg ''bare signature (possibly revocation) instead of key''))
         else Inr (counted st)))"

text \<open>\<open>OpaqueCert.Parse\<close>; the packets get the addresses from \<open>ptr\<close> on.\<close>

definition oc_Parse :: "gocrypto \<Rightarrow> nat \<Rightarrow> OpaquePacket list \<Rightarrow> PrimaryKey res" where
  "oc_Parse E ptr packets =
    rbind (rfold (parse_step E) packets \<lparr>st_pubkey = None, st_signable = None, st_trustable = None,
             st_keyCreationTime = zeroTime, st_length = 0, st_next = ptr\<rparr>) (\<lambda>st.
    case st_pubkey st of
      None \<Rightarrow> Inl (Err (ErrMsg ''primary public key not found''))
    | Some key \<Rightarrow> rbind (SksDigest E key) (\<lambda>(digest, tdigest).
        Inr (key\<lparr>pk_MD5 := digest, pk_TrustMD5 := tdigest, pk_Length := st_length st\<rparr>)))"

section \<open>Splitting a stream into certificates\<close>

record keyReader =
  kr_maxKeyLen :: int
  kr_maxPacketLen :: int
  kr_maxSigPacketLen :: int
  kr_blacklist :: "gostring set"

definition MaxKeyLen :: "int \<Rightarrow> keyReader \<Rightarrow> keyReader" where
  "MaxKeyLen n r = r\<lparr>kr_maxKeyLen := n\<rparr>"

definition MaxPacketLen :: "int \<Rightarrow> keyReader \<Rightarrow> keyReader" where
  "MaxPacketLen n r = r\<lparr>kr_maxPacketLen := n\<rparr>"

definition MaxSigPacketLen :: "int \<Rightarrow> keyReader \<Rightarrow> keyReader" where
  "MaxSigPacketLen n r = r\<lparr>kr_maxSigPacketLen := n\<rparr>"

definition Blacklist :: "gocrypto \<Rightarrow> gostring list \<Rightarrow> keyReader \<Rightarrow> keyReader" where
  "Blacklist E blacklist r = r\<lparr>kr_blacklist := kr_blacklist r \<union> gc_ToLower E ` set blacklist\<rparr>"

definition NewOpaqueKeyReader :: "(keyReader \<Rightarrow> keyReader) list \<Rightarrow> keyReader" where
  "NewOpaqueKeyReader options = fold (\<lambda>f r. f r) options
     \<lparr>kr_maxKeyLen = 0, kr_maxPacketLen = 0, kr_maxSigPacketLen = 0, kr_blacklist = {}\<rparr>"

record readState =
  rd_result :: "OpaquePacket list list"
  rd_current :: "OpaquePacket list option"
  rd_currentKeyLen :: int
  rd_initial :: bool

definition rd_finish :: "readState \<Rightarrow> OpaquePacket list list" where
  "rd_finish st = rd_result st @ (case rd_current st of None \<Rightarrow> [] | Some c \<Rightarrow> [c])"

text \<open>The end of the loop body: count the packet and drop a certificate that got too long.\<close>

definition rd_count :: "keyReader \<Rightarrow> OpaquePacket \<Rightarrow> readState \<Rightarrow> readState" where
  "rd_count r op st0 =
    (let st = st0\<lparr>rd_initial := False\<rparr> in
     case rd_current st of None \<Rightarrow> st
     | Some _ \<Rightarrow>
        (let n = rd_currentKeyLen st + int (length (op_Contents op)) in
         if 0 < kr_maxKeyLen r \<and> kr_maxKeyLen r < n then st\<lparr>rd_current := None, rd_currentKeyLen := 0\<rparr>
         else st\<lparr>rd_currentKeyLen := n\<rparr>))"

definition read_step :: "gocrypto \<Rightarrow> keyReader \<Rightarrow> OpaquePacket \<Rightarrow> readState \<Rightarrow> readState" where
  "read_step E r op st =
    (let packetLen = int (length (op_Contents op));
         max = (if op_Tag op = 2 then kr_maxSigPacketLen r else kr_maxPacketLen r) in
     if 0 < max \<and> max < packetLen then st
     else if op_Tag op = 6 then
       (let st1 = st\<lparr>rd_result := rd_finish st, rd_current := None, rd_currentKeyLen := 0, rd_initial := False\<rparr> in
        case ParsePrimaryKey E 0 op of
          Inl _ \<Rightarrow> st1
        | Inr key \<Rightarrow>
            (if pub_Fingerprint key \<in> kr_blacklist r then st1
             else rd_count r op (st1\<lparr>rd_current := Some [op]\<rparr>)))
     else if op_Tag op = 2 then
       rd_count r op (case rd_current st of
           Some c \<Rightarrow> st\<lparr>rd_current := Some (c @ [op])\<rparr>
         | None \<Rightarrow> if rd_initial st then st\<lparr>rd_current := Some [op], rd_currentKeyLen := 0\<rparr> else st)
     else
       rd_count r op (case rd_current st of
           Some c \<Rightarrow> st\<lparr>rd_current := Some (c @ [op])\<rparr> | None \<Rightarrow> st))"

lemma readPartial_shrinks: "readPartial n p bs = Inr (body, r) \<Longrightarrow> length r \<le> length bs"
proof (induction n p bs arbitrary: body r rule: readPartial.induct)
  case (1 n p bs)
  show ?case
  proof (cases "length bs < n \<or> \<not> p")
    case True
    with 1(2) show ?thesis by (subst (asm) readPartial.simps) (auto split: if_splits)
  next
    case False
    with 1(2) obtain n' p' r1 body' where r1: "readLength (drop n bs) = Inr (n', p', r1)"
      "readPartial n' p' r1 = Inr (body', r)"
      by (subst (asm) readPartial.simps) (auto split: sum.splits elim!: rbind_InrE)
    have "length r1 < length (drop n bs)" by (rule readLength_shrinks[OF r1(1)])
    moreover have "length r \<le> length r1"
      using 1(1)[OF _ _ r1(1) refl refl r1(2)] False by auto
    ultimately show ?thesis by simp
  qed
qed

lemma or_Next_shrinks:
  assumes "or_Next bs = Inr (op, r)"
  shows "length r < length bs"
proof (cases bs)
  case Nil
  with assms show ?thesis by (simp add: or_Next_def)
next
  case (Cons b bs')
  with assms show ?thesis
    using readPartial_shrinks readLength_shrinks
    by (fastforce simp: or_Next_def readSpan_def Let_def elim!: rbind_InrE split: if_splits dest!: readLength_shrinks)
qed

text \<open>All packets of a stream: \<open>or.Next\<close> until an error, which is \<open>io.EOF\<close> at the end.\<close>

function or_packets :: "byte list \<Rightarrow> OpaquePacket list \<times> fault" where
  "or_packets bs = (case or_Next bs of
     Inl e \<Rightarrow> ([], e)
   | Inr (op, r) \<Rightarrow> (case or_packets r of (ops, e) \<Rightarrow> (op # ops, e)))"
  by pat_completeness auto
termination
  by (relation "measure length") (auto dest: or_Next_shrinks)

declare or_packets.simps [simp del]

definition okr_Read :: "gocrypto \<Rightarrow> keyReader \<Rightarrow> byte list \<Rightarrow> OpaquePacket list list res" where
  "okr_Read E r bs = (case or_packets bs of (ops, err) \<Rightarrow>
     if err \<noteq> Err ErrEOF then Inl err
     else Inr (rd_finish (fold (read_step E r) ops
       \<lparr>rd_result = [], rd_current = None, rd_currentKeyLen = 0, rd_initial = True\<rparr>)))"

text \<open>\<open>KeyReader.Read\<close>; the certificates get disjoint ranges of addresses.\<close>

fun parse_all :: "gocrypto \<Rightarrow> nat \<Rightarrow> OpaquePacket list list \<Rightarrow> PrimaryKey list res" where
  "parse_all E ptr [] = Inr []"
| "parse_all E ptr (c # cs) =
    rbind (oc_Parse E ptr c) (\<lambda>k. rbind (parse_all E (ptr + length c) cs) (\<lambda>ks. Inr (k # ks)))"

definition kr_Read :: "gocrypto \<Rightarrow> (keyReader \<Rightarrow> keyReader) list \<Rightarrow> byte list \<Rightarrow> PrimaryKey list res" where
  "kr_Read E options bs = rbind (okr_Read E (NewOpaqueKeyReader options) bs) (parse_all E 0)"

definition MustReadKeys :: "gocrypto \<Rightarrow> (keyReader \<Rightarrow> keyReader) list \<Rightarrow> byte list \<Rightarrow> PrimaryKey list res" where
  "MustReadKeys E options bs = (case kr_Read E options bs of Inl _ \<Rightarrow> Inl (Panic (PMsg ''read keys'')) | Inr ks \<Rightarrow> Inr ks)"

definition ReadArmorKeys :: "gocrypto \<Rightarrow> (byte list \<Rightarrow> byte list res) \<Rightarrow> (keyReader \<Rightarrow> keyReader) list \<Rightarrow> byte list \<Rightarrow> PrimaryKey list res" where
  "ReadArmorKeys E armor_Decode options bs = rbind (armor_Decode bs) (kr_Read E options)"

definition MustReadOpaqueCerts :: "gocrypto \<Rightarrow> (keyReader \<Rightarrow> keyReader) list \<Rightarrow> byte list \<Rightarrow> OpaquePacket list list res" where
  "MustReadOpaqueCerts E options bs = (case okr_Read E (NewOpaqueKeyReader options) bs of
     Inl _ \<Rightarrow> Inl (Panic (PMsg ''read certs'')) | Inr cs \<Rightarrow> Inr cs)"

definition MustReadArmorKeys :: "gocrypto \<Rightarrow> (byte list \<Rightarrow> byte list res) \<Rightarrow> (keyReader \<Rightarrow> keyReader) list \<Rightarrow> byte list \<Rightarrow> PrimaryKey list res" where
  "MustReadArmorKeys E armor_Decode options bs = (case ReadArmorKeys E armor_Decode options bs of
     Inl _ \<Rightarrow> Inl (Panic (PMsg ''read armored keys'')) | Inr ks \<Rightarrow> Inr ks)"

end
