(* ===== verification/PacketSpec.thy ===== *)
theory PacketSpec
  imports Packets "HOL-Library.Multiset"
begin

text \<open>
  Facts about packets: framing and its inverse, the body length, the cleaning of strings,
  subpackets and notations, and the insertion sort.
\<close>

unbundle bit_operations_syntax

section \<open>Bytes\<close>

lemma frame_byte:
  assumes "tag < 64"
  shows "(0x80 OR 0x40 OR tag :: byte) AND 0x80 \<noteq> 0" "(0x80 OR 0x40 OR tag) AND 0x40 \<noteq> 0"
    "(0x80 OR 0x40 OR tag) AND 0x3f = tag" "(0x80 OR 0x40 OR tag) AND 0xc0 = 0xc0"
proof -
  have "\<forall>n \<in> set [0..<64]. let t = of_nat n :: byte; x = 0x80 OR 0x40 OR t in
    x AND 0x80 \<noteq> 0 \<and> x AND 0x40 \<noteq> 0 \<and> x AND 0x3f = t \<and> x AND 0xc0 = 0xc0"
    by code_simp
  moreover have "unat tag \<in> set [0..<64]" using assms by (simp add: word_less_nat_alt)
  ultimately have "let t = of_nat (unat tag) :: byte; x = 0x80 OR 0x40 OR t in
    x AND 0x80 \<noteq> 0 \<and> x AND 0x40 \<noteq> 0 \<and> x AND 0x3f = t \<and> x AND 0xc0 = 0xc0"
    by (rule bspec)
  then show "(0x80 OR 0x40 OR tag :: byte) AND 0x80 \<noteq> 0" "(0x80 OR 0x40 OR tag) AND 0x40 \<noteq> 0"
    "(0x80 OR 0x40 OR tag) AND 0x3f = tag" "(0x80 OR 0x40 OR tag) AND 0xc0 = 0xc0"
    by (simp_all add: Let_def)
qed

lemma byte_less_nat: "(b :: byte) < c \<longleftrightarrow> unat b < unat c"
  by (simp add: word_less_nat_alt)

lemma be_value_be32: "n < 2 ^ 32 \<Longrightarrow> be_value (be32 n) = n"
proof -
  assume n: "n < 2 ^ 32"
  have "n = n mod 256 + 256 * (n div 256)" "n div 256 = n div 256 mod 256 + 256 * (n div 256 div 256)"
    "n div 256 div 256 = n div 256 div 256 mod 256 + 256 * (n div 256 div 256 div 256)"
    by (metis mult.commute mod_mult_div_eq add.commute mult_div_mod_eq)+
  moreover have "n div 256 div 256 div 256 < 256" using n by simp
  ultimately show ?thesis
    by (simp add: be_value_def be32_def unat_of_nat_byte div_mult2_eq[symmetric])
qed

lemma length_be32 [simp]: "length (be32 n) = 4"
  by (simp add: be32_def)

section \<open>Framing\<close>

lemma readLength_serializeLength:
  assumes "n < 2 ^ 32"
  shows "readLength (serializeLength n @ r) = Inr (n, False, r)"
proof -
  consider "n < 192" | "192 \<le> n" "n < 8384" | "8384 \<le> n" by linarith
  then show ?thesis
  proof cases
    case 1
    then show ?thesis
      by (simp add: serializeLength_def readLength_def byte_less_nat unat_of_nat_byte)
  next
    case 2
    define h where "h = (n - 192) div 256"
    have h: "h < 32" "n - 192 = h * 256 + (n - 192) mod 256"
      using 2 by (auto simp: h_def)
    have u: "unat (192 + of_nat h :: byte) = 192 + h"
      using h(1) by (simp add: unat_add_lem[THEN iffD1] unat_of_nat_byte unat_word_ariths(1))
    have d: "unat (192 + of_nat h - 192 :: byte) = h"
      using h(1) by (simp add: unat_of_nat_byte)
    have m: "unat (of_nat (n - 192) :: byte) = (n - 192) mod 256"
      by (rule unat_of_nat_byte)
    have "serializeLength n = [192 + of_nat h, of_nat (n - 192)]"
      using 2 by (simp add: serializeLength_def h_def)
    moreover have "\<not> (192 + of_nat h :: byte) < 192" "(192 + of_nat h :: byte) < 224"
      using u h(1) by (simp_all add: byte_less_nat)
    ultimately show ?thesis
      using d m h(2) 2 by (simp add: readLength_def)
  next
    case 3
    then have "serializeLength n = 255 # be32 n" by (simp add: serializeLength_def)
    with be_value_be32[OF assms] show ?thesis by (simp add: readLength_def byte_less_nat)
  qed
qed

lemma or_Next_Serialize:
  assumes "op_Tag op < 64" "length (op_Contents op) < 2 ^ 32"
  shows "or_Next (op_Serialize op @ rest) = Inr (op, rest)"
  using frame_byte[of "op_Tag op"] assms
  by (simp add: or_Next_def op_Serialize_def serializeHeader_def readLength_serializeLength readSpan_def Let_def)

lemma newOpaquePacket_Serialize:
  assumes "op_Tag op < 64" "length (op_Contents op) < 2 ^ 32"
  shows "newOpaquePacket (op_Serialize op) = Inr op"
  using or_Next_Serialize[OF assms, of "[]"] by (simp add: newOpaquePacket_def)

lemma packetBodyLength_Serialize:
  assumes "op_Tag op < 64"
  shows "packetBodyLength (op_Serialize op)
    = Inr (if length (op_Contents op) < 8384 then int (length (op_Contents op)) else 0)"
proof -
  define n where "n = length (op_Contents op)"
  have f: "(0x80 OR 0x40 OR op_Tag op) AND 0xc0 = 0xc0" using frame_byte[of "op_Tag op"] assms by simp
  consider "n < 192" | "192 \<le> n" "n < 8384" | "8384 \<le> n" by linarith
  then show ?thesis
  proof cases
    case 1
    then have "(of_nat n :: byte) \<le> 191" by (simp add: word_le_nat_alt unat_of_nat_byte)
    with 1 f show ?thesis
      by (simp add: packetBodyLength_def op_Serialize_def serializeHeader_def serializeLength_def
          nth_res_def n_def[symmetric])
  next
    case 2
    have h: "(n - 192) div 256 < 32" using 2 by auto
    have u: "unat (192 + of_nat ((n - 192) div 256) :: byte) = 192 + (n - 192) div 256"
      using h by (simp add: unat_of_nat_byte unat_word_ariths(1))
    then have "\<not> (192 + of_nat ((n - 192) div 256) :: byte) \<le> 191" "(192 + of_nat ((n - 192) div 256) :: byte) \<le> 223"
      using h by (simp_all add: word_le_nat_alt)
    with 2 f show ?thesis
      by (simp add: packetBodyLength_def op_Serialize_def serializeHeader_def serializeLength_def
          nth_res_def n_def[symmetric])
  next
    case 3
    with f show ?thesis
      by (simp add: packetBodyLength_def op_Serialize_def serializeHeader_def serializeLength_def
          nth_res_def n_def[symmetric] word_le_nat_alt)
  qed
qed


section \<open>Cleaned strings\<close>

definition valid_rune :: "nat \<Rightarrow> bool" where
  "valid_rune r \<longleftrightarrow> r \<le> 0x10FFFF \<and> \<not> (0xD800 \<le> r \<and> r \<le> 0xDFFF)"

lemma digits_64:
  fixes r :: nat
  obtains a b c where "r div 64 = 64 * a + b" "r div 4096 = a" "r div 64 mod 64 = b" "r mod 64 = c"
    "b < 64" "c < 64" "r = 4096 * a + 64 * b + c"
proof
  show "r div 64 = 64 * (r div 4096) + r div 64 mod 64"
    using div_mult2_eq[of r 64 64] mult_div_mod_eq[of 64 "r div 64"] by simp
  then show "r = 4096 * (r div 4096) + 64 * (r div 64 mod 64) + r mod 64"
    using mult_div_mod_eq[of 64 r] by linarith
qed simp_all

lemma rune_3_bytes:
  assumes "0x800 \<le> (r :: nat)" "r < 0x10000" "valid_rune r"
  shows "r div 4096 = 0 \<Longrightarrow> 0xA0 \<le> 0x80 + r div 64 mod 64" "r div 4096 = 13 \<Longrightarrow> 0x80 + r div 64 mod 64 \<le> 0x9F"
    "r div 4096 < 16" "r div 4096 * 4096 + r div 64 mod 64 * 64 + r mod 64 = r"
  by (rule digits_64[of r]; use assms in \<open>simp only: valid_rune_def; linarith\<close>)+

lemma rune_4_bytes:
  assumes "0x10000 \<le> (r :: nat)" "valid_rune r"
  shows "r div 262144 = 0 \<Longrightarrow> 0x90 \<le> 0x80 + r div 4096 mod 64" "r div 262144 = 4 \<Longrightarrow> 0x80 + r div 4096 mod 64 \<le> 0x8F"
    "r div 262144 \<le> 4" "r div 262144 * 262144 + r div 4096 mod 64 * 4096 + r div 64 mod 64 * 64 + r mod 64 = r"
proof -
  define d where "d = r div 262144"
  have d: "r div 4096 = 64 * d + r div 4096 mod 64"
    using div_mult2_eq[of r 4096 64] mult_div_mod_eq[of 64 "r div 4096"] by (simp add: d_def)
  have m: "r div 4096 mod 64 < 64" by simp
  have v: "r \<le> 0x10FFFF" using assms(2) by (simp add: valid_rune_def)
  have r: "r = 4096 * (r div 4096) + 64 * (r div 64 mod 64) + r mod 64" "r mod 64 < 64" "r div 64 mod 64 < 64"
    by (rule digits_64[of r], simp)+
  show "r div 262144 = 0 \<Longrightarrow> 0x90 \<le> 0x80 + r div 4096 mod 64" "r div 262144 = 4 \<Longrightarrow> 0x80 + r div 4096 mod 64 \<le> 0x8F"
    "r div 262144 \<le> 4" "r div 262144 * 262144 + r div 4096 mod 64 * 4096 + r div 64 mod 64 * 64 + r mod 64 = r"
    unfolding d_def[symmetric] using d m v r assms(1) by linarith+
qed

lemma mod64_le: "x mod 64 \<le> (63 :: nat)"
  using mod_less_divisor[of 64 x] by simp

lemma mod_shift: "x = k * m + r \<Longrightarrow> r < m \<Longrightarrow> x mod m = (r :: nat)"
  by simp

lemma unat_byte: "n < 256 \<Longrightarrow> unat (of_nat n :: byte) = n"
  by (simp add: unat_of_nat_byte)

lemma cont_byte:
  assumes "y \<le> 63"
  shows "unat (of_nat (0x80 + y) :: byte) = 0x80 + y" "(0x80 + y) mod 64 = y"
  using assms by (auto intro!: unat_byte mod_shift[of _ 2] simp del: of_nat_add)

lemma DecodeRune_2:
  assumes "2 \<le> x" "x \<le> 31" "y \<le> 63"
  shows "DecodeRune (of_nat (0xC0 + x) # of_nat (0x80 + y) # rest) = (x * 64 + y, 2)"
proof -
  have "unat (of_nat (0xC0 + x) :: byte) = 0xC0 + x" "(0xC0 + x) mod 32 = x"
    using assms by (auto intro!: unat_byte mod_shift[of _ 6] simp del: of_nat_add)
  with assms cont_byte[of y] show ?thesis by (simp add: DecodeRune_def Let_def del: of_nat_add)
qed

lemma DecodeRune_3:
  assumes "x \<le> 15" "y \<le> 63" "z \<le> 63" "x = 0 \<Longrightarrow> 0x20 \<le> y" "x = 13 \<Longrightarrow> y \<le> 0x1F"
  shows "DecodeRune (of_nat (0xE0 + x) # of_nat (0x80 + y) # of_nat (0x80 + z) # rest) = (x * 4096 + y * 64 + z, 3)"
proof -
  have "unat (of_nat (0xE0 + x) :: byte) = 0xE0 + x" "(0xE0 + x) mod 16 = x"
    using assms(1) by (auto intro!: unat_byte mod_shift[of _ 14] simp del: of_nat_add)
  moreover have "(if 0xE0 + x = 0xE0 then 0xA0 else 0x80) \<le> 0x80 + y" "0x80 + y \<le> (if 0xE0 + x = 0xED then 0x9F else 0xBF)"
    using assms by auto
  ultimately show ?thesis
    using assms(1) cont_byte[OF assms(2)] cont_byte[OF assms(3)] assms(3)
    by (simp add: DecodeRune_def Let_def del: of_nat_add split del: if_split)
qed

lemma DecodeRune_4:
  assumes "x \<le> 4" "y \<le> 63" "z \<le> 63" "w \<le> 63" "x = 0 \<Longrightarrow> 0x10 \<le> y" "x = 4 \<Longrightarrow> y \<le> 0xF"
  shows "DecodeRune (of_nat (0xF0 + x) # of_nat (0x80 + y) # of_nat (0x80 + z) # of_nat (0x80 + w) # rest)
    = (x * 262144 + y * 4096 + z * 64 + w, 4)"
proof -
  have "unat (of_nat (0xF0 + x) :: byte) = 0xF0 + x" "(0xF0 + x) mod 8 = x"
    using assms(1) by (auto intro!: unat_byte mod_shift[of _ 30] simp del: of_nat_add)
  moreover have "(if 0xF0 + x = 0xF0 then 0x90 else 0x80) \<le> 0x80 + y" "0x80 + y \<le> (if 0xF0 + x = 0xF4 then 0x8F else 0xBF)"
    using assms by auto
  ultimately show ?thesis
    using assms(1) cont_byte[OF assms(2)] cont_byte[OF assms(3)] cont_byte[OF assms(4)] assms(3,4)
    by (simp add: DecodeRune_def Let_def del: of_nat_add split del: if_split)
qed

lemma DecodeRune_EncodeRune:
  assumes "valid_rune r"
  shows "DecodeRune (EncodeRune r @ rest) = (r, length (EncodeRune r))"
proof -
  have nv: "\<not> (0x10FFFF < r \<or> 0xD800 \<le> r \<and> r \<le> 0xDFFF)" using assms by (auto simp: valid_rune_def)
  consider "r < 0x80" | "0x80 \<le> r" "r < 0x800" | "0x800 \<le> r" "r < 0x10000" | "0x10000 \<le> r" by linarith
  then show ?thesis
  proof cases
    case 1
    then show ?thesis by (simp add: EncodeRune_def DecodeRune_def unat_byte)
  next
    case 2
    then have "\<not> r < 0x80" by linarith
    then have "EncodeRune r = [of_nat (0xC0 + r div 64), of_nat (0x80 + r mod 64)]"
      by (simp only: EncodeRune_def 2(2) if_False if_True)
    moreover have "2 \<le> r div 64" "r div 64 \<le> 31" using 2 by auto
    ultimately show ?thesis
      using DecodeRune_2[OF _ _ mod64_le] by (simp only: append.simps list.size) simp
  next
    case 3
    note a = rune_3_bytes[OF 3 assms]
    have "\<not> r < 0x80" "\<not> r < 0x800" using 3 by linarith+
    then have "EncodeRune r = [of_nat (0xE0 + r div 4096), of_nat (0x80 + r div 64 mod 64), of_nat (0x80 + r mod 64)]"
      by (simp only: EncodeRune_def nv 3(2) if_False if_True)
    moreover have "DecodeRune (of_nat (0xE0 + r div 4096) # of_nat (0x80 + r div 64 mod 64) # of_nat (0x80 + r mod 64) # rest)
      = (r div 4096 * 4096 + r div 64 mod 64 * 64 + r mod 64, 3)"
      by (rule DecodeRune_3[OF _ mod64_le mod64_le]) (use a in linarith)+
    ultimately show ?thesis by (simp only: append.simps list.size a(4)) simp
  next
    case 4
    note a = rune_4_bytes[OF 4 assms]
    have "\<not> r < 0x80" "\<not> r < 0x800" "\<not> r < 0x10000" using 4 by linarith+
    then have "EncodeRune r = [of_nat (0xF0 + r div 262144), of_nat (0x80 + r div 4096 mod 64),
        of_nat (0x80 + r div 64 mod 64), of_nat (0x80 + r mod 64)]"
      by (simp only: EncodeRune_def nv if_False if_True)
    moreover have "DecodeRune (of_nat (0xF0 + r div 262144) # of_nat (0x80 + r div 4096 mod 64)
        # of_nat (0x80 + r div 64 mod 64) # of_nat (0x80 + r mod 64) # rest)
      = (r div 262144 * 262144 + r div 4096 mod 64 * 4096 + r div 64 mod 64 * 64 + r mod 64, 4)"
      by (rule DecodeRune_4[OF _ mod64_le mod64_le mod64_le]) (use a in linarith)+
    ultimately show ?thesis by (simp only: append.simps list.size a(4)) simp
  qed
qed

lemma EncodeRune_nonempty [simp]: "EncodeRune r \<noteq> []"
  by (simp add: EncodeRune_def)

lemma go_runes_encoded:
  assumes "list_all valid_rune rs"
  shows "go_runes (concat (map EncodeRune rs)) = rs"
  using assms
proof (induction rs)
  case Nil
  then show ?case by (simp add: go_runes.simps)
next
  case (Cons r rs)
  then have "DecodeRune (EncodeRune r @ concat (map EncodeRune rs)) = (r, length (EncodeRune r))"
    by (simp add: DecodeRune_EncodeRune)
  with Cons show ?case by (subst go_runes.simps) simp
qed

lemma valid_3: "x \<le> 15 \<Longrightarrow> y \<le> 63 \<Longrightarrow> z \<le> 63 \<Longrightarrow> (x = 13 \<Longrightarrow> y \<le> 31) \<Longrightarrow> valid_rune (x * 4096 + y * 64 + z)"
  unfolding valid_rune_def by (cases "x \<le> 12"; cases "x = 13") linarith+

lemma valid_4: "x \<le> 4 \<Longrightarrow> y \<le> 63 \<Longrightarrow> z \<le> 63 \<Longrightarrow> w \<le> 63 \<Longrightarrow> (x = 4 \<Longrightarrow> y \<le> 15) \<Longrightarrow> (x = 0 \<Longrightarrow> 16 \<le> y)
    \<Longrightarrow> valid_rune (x * 262144 + y * 4096 + z * 64 + w)"
  unfolding valid_rune_def by (cases "x = 4"; cases "x = 0") linarith+

lemma DecodeRune_valid: "valid_rune (fst (DecodeRune bs))"
proof -
  have lo: "unat (b :: byte) mod 64 = unat b - 128" if "128 \<le> unat b" "unat b \<le> 0xBF" for b
    using that by (intro mod_shift[of _ 2]) simp_all
  have v2: "valid_rune (c mod 32 * 64 + unat b1 mod 64)" for c and b1 :: byte
  proof -
    have "c mod 32 \<le> 31" using mod_less_divisor[of 32 c] by simp
    with mod64_le[of "unat b1"] show ?thesis
      unfolding valid_rune_def by (simp del: One_nat_def)
  qed
  have v3: "valid_rune (c mod 16 * 4096 + unat b1 mod 64 * 64 + unat b2 mod 64)"
    if "0xE0 \<le> c" "c \<le> 0xEF" "c = 0xED \<longrightarrow> unat b1 \<le> 0x9F" "128 \<le> unat b1" "unat b1 \<le> 0xBF" for c and b1 b2 :: byte
  proof -
    have "c mod 16 = c - 0xE0" using that by (intro mod_shift[of _ 14]) simp_all
    then show ?thesis
      using that by (intro valid_3) (auto simp: mod64_le lo[OF that(4,5)])
  qed
  have v4: "valid_rune (c mod 8 * 262144 + unat b1 mod 64 * 4096 + unat b2 mod 64 * 64 + unat b3 mod 64)"
    if "0xF0 \<le> c" "c \<le> 0xF4" "c = 0xF4 \<longrightarrow> unat b1 \<le> 0x8F" "c = 0xF0 \<longrightarrow> 0x90 \<le> unat b1"
      "128 \<le> unat b1" "unat b1 \<le> 0xBF" for c and b1 b2 b3 :: byte
  proof -
    have "c mod 8 = c - 0xF0" using that by (intro mod_shift[of _ 30]) simp_all
    then show ?thesis
      using that by (intro valid_4) (auto simp: mod64_le lo[OF that(5,6)])
  qed
  have v1: "valid_rune RuneError" "\<And>c. c < 0x80 \<Longrightarrow> valid_rune c"
    by (simp_all add: valid_rune_def RuneError_def)
  show ?thesis
  proof (cases bs)
    case Nil
    then show ?thesis by (simp add: DecodeRune_def v1)
  next
    case (Cons b0 r)
    define c where "c = unat b0"
    consider "c < 0x80" | "0xC2 \<le> c" "c \<le> 0xDF" | "0xE0 \<le> c" "c \<le> 0xEF" | "0xF0 \<le> c" "c \<le> 0xF4"
      | "0x80 \<le> c" "c < 0xC2" | "0xF4 < c" by linarith
    then show ?thesis
    proof cases
      case 3
      then show ?thesis
        unfolding Cons DecodeRune_def list.case c_def[symmetric] Let_def
        by (auto simp: v1 intro!: v3 v3[of 237, simplified] v3[of 224, simplified] split: list.split)
    next
      case 4
      then show ?thesis
        unfolding Cons DecodeRune_def list.case c_def[symmetric] Let_def
        by (auto simp: v1 intro!: v4 v4[of 240, simplified] v4[of 244, simplified] split: list.split)
    qed (simp_all add: Cons DecodeRune_def c_def[symmetric] Let_def v1 v2 split: list.split)
  qed
qed

lemma go_runes_valid: "list_all valid_rune (go_runes bs)"
proof (induction bs rule: go_runes.induct)
  case (1 bs)
  then show ?case using DecodeRune_valid[of bs] by (subst go_runes.simps) simp
qed

text \<open>A rune that \<open>CleanUtf8\<close> lets through.\<close>

definition clean_rune :: "nat \<Rightarrow> bool" where
  "clean_rune r \<longleftrightarrow> valid_rune r \<and> 0x20 \<le> r \<and> r \<noteq> 0x7f \<and> r \<noteq> RuneError"

lemma clean_runes_clean: "clean_runes rs = Inr out \<Longrightarrow> list_all valid_rune rs \<Longrightarrow> list_all clean_rune out"
  by (induction rs arbitrary: out)
    (auto simp: Let_def clean_rune_def valid_rune_def RuneError_def elim!: rbind_InrE split: if_splits)

lemma clean_runes_id: "list_all clean_rune rs \<Longrightarrow> clean_runes rs = Inr rs"
  by (induction rs) (auto simp: clean_rune_def)

lemma CleanUtf8_clean:
  assumes "CleanUtf8 s = Inr t"
  obtains rs where "t = concat (map EncodeRune rs)" "list_all clean_rune rs" "go_runes t = rs"
proof -
  from assms obtain rs where rs: "clean_runes (go_runes s) = Inr rs" "t = concat (map EncodeRune rs)"
    by (auto simp: CleanUtf8_def elim!: rbind_InrE)
  have c: "list_all clean_rune rs" using clean_runes_clean[OF rs(1) go_runes_valid] .
  then have "list_all valid_rune rs" by (auto simp: list_all_iff clean_rune_def)
  with go_runes_encoded rs(2) c that show thesis by blast
qed

lemma CleanUtf8_idem:
  assumes "CleanUtf8 s = Inr t"
  shows "CleanUtf8 t = Inr t"
proof -
  from assms obtain rs where "t = concat (map EncodeRune rs)" "list_all clean_rune rs" "go_runes t = rs"
    by (rule CleanUtf8_clean)
  then show ?thesis by (simp add: CleanUtf8_def clean_runes_id)
qed

lemma EncodeRune_clean:
  assumes "clean_rune r" "b \<in> set (EncodeRune r)"
  shows "0x20 \<le> b \<and> b \<noteq> 0x7f"
proof -
  have r: "r \<le> 0x10FFFF" "\<not> (0xD800 \<le> r \<and> r \<le> 0xDFFF)" "0x20 \<le> r" "r \<noteq> 0x7f"
    using assms(1) by (auto simp: clean_rune_def valid_rune_def)
  have "\<exists>n. b = of_nat n \<and> n < 256 \<and> 0x20 \<le> n \<and> n \<noteq> 0x7f"
  proof (cases "r < 0x80")
    case True
    with r assms(2) show ?thesis by (intro exI[of _ r]) (simp add: EncodeRune_def)
  next
    case False
    have hi: "\<exists>n. b = of_nat n \<and> n < 256 \<and> 0x80 \<le> n"
    proof -
      have "0x80 + x mod 64 < 256" for x :: nat using mod_less_divisor[of 64 x] by linarith
      moreover have "r < 0x800 \<Longrightarrow> 0xC0 + r div 64 < 256" "r < 0x10000 \<Longrightarrow> 0xE0 + r div 4096 < 256"
        "0xF0 + r div 262144 < 256" using r(1) by auto
      ultimately show ?thesis
        using False r(1,2) assms(2) by (auto simp: EncodeRune_def split: if_splits simp del: of_nat_add)
    qed
    then show ?thesis by force
  qed
  then obtain n where n: "b = of_nat n" "n < 256" "0x20 \<le> n" "n \<noteq> 0x7f" by blast
  then have "unat b = n" by (simp add: unat_byte)
  with n show ?thesis by (auto simp: word_le_nat_alt)
qed

lemma CleanUtf8_no_controls:
  assumes "CleanUtf8 s = Inr t" "b \<in> set t"
  shows "0x20 \<le> b \<and> b \<noteq> 0x7f"
proof -
  from assms(1) obtain rs where rs: "t = concat (map EncodeRune rs)" "list_all clean_rune rs"
    by (rule CleanUtf8_clean)
  with assms(2) obtain r where "r \<in> set rs" "b \<in> set (EncodeRune r)" by auto
  with rs(2) show ?thesis by (intro EncodeRune_clean) (auto simp: list_all_iff)
qed

lemma clean_runes_error: "clean_runes rs = Inl e \<Longrightarrow> e = Err (ErrMsg ''null byte found in string'')"
proof (induction rs)
  case (Cons r rs)
  define q where "q = (if r = RuneError then 63 else r)"
  have "clean_runes (r # rs) = (if q = 0 then Inl (Err (ErrMsg ''null byte found in string''))
     else if q < 0x20 \<or> q = 0x7f then clean_runes rs
     else rbind (clean_runes rs) (\<lambda>out. Inr (q # out)))"
    by (simp add: q_def Let_def)
  with Cons show ?case by (cases "clean_runes rs") (simp_all split: if_splits)
qed simp

lemma CleanUtf8_error:
  assumes "CleanUtf8 s = Inl e"
  shows "e = Err (ErrMsg ''null byte found in string'')"
proof (rule clean_runes_error)
  show "clean_runes (go_runes s) = Inl e"
    using assms by (cases "clean_runes (go_runes s)") (simp_all add: CleanUtf8_def)
qed

section \<open>Subpackets\<close>

definition subpacket_bytes :: "outputSubpacket \<Rightarrow> byte list" where
  "subpacket_bytes sp = serializeSubpacketLength (length (os_contents sp) + 1)
     @ [if os_isCritical sp then os_type sp OR 0x80 else os_type sp] @ os_contents sp"

definition opaque_subpacket :: "outputSubpacket \<Rightarrow> OpaqueSubpacket" where
  "opaque_subpacket sp = \<lparr>osp_SubType = (if os_isCritical sp then os_type sp OR 0x80 else os_type sp),
     osp_Contents = os_contents sp\<rparr>"

lemma length_serializeSubpacketLength [simp]:
  "length (serializeSubpacketLength n) = subpacketLengthLength n"
  by (simp add: serializeSubpacketLength_def subpacketLengthLength_def)

lemma length_subpacket_bytes:
  "length (subpacket_bytes sp) = subpacketLengthLength (length (os_contents sp) + 1) + 1 + length (os_contents sp)"
  by (simp add: subpacket_bytes_def)

lemma subpacketsLength_bytes: "subpacketsLength sps = length (concat (map subpacket_bytes sps))"
  by (induction sps) (simp_all add: subpacketsLength_def length_subpacket_bytes)

lemma serializeSubpackets_exact:
  "length to = subpacketsLength sps \<Longrightarrow> serializeSubpackets to sps = Inr (concat (map subpacket_bytes sps))"
proof (induction to sps rule: serializeSubpackets.induct)
  case (1 to)
  then show ?case by (simp add: subpacketsLength_def)
next
  case (2 to sp sps)
  define h where "h = serializeSubpacketLength (length (os_contents sp) + 1)
           @ [if os_isCritical sp then os_type sp OR 0x80 else os_type sp]"
  have b: "subpacket_bytes sp = h @ os_contents sp" by (simp add: subpacket_bytes_def h_def)
  have l: "length to = length h + length (os_contents sp) + subpacketsLength sps"
    using 2(2) b by (simp add: subpacketsLength_bytes)
  have "serializeSubpackets (drop (length h + length (os_contents sp)) to) sps = Inr (concat (map subpacket_bytes sps))"
    by (rule 2(1)[OF h_def refl]) (use l in auto)
  with l b show ?case
    unfolding serializeSubpackets.simps h_def[symmetric] Let_def by simp
qed

lemma nextSubpacket_bytes:
  assumes "length (os_contents sp) + 1 < 2 ^ 32"
  shows "nextSubpacket (subpacket_bytes sp @ r)
    = Inr (subpacketLengthLength (length (os_contents sp) + 1) + 1, opaque_subpacket sp)"
proof -
  define n where "n = length (os_contents sp) + 1"
  define t where "t = (if os_isCritical sp then os_type sp OR 0x80 else os_type sp)"
  have b: "subpacket_bytes sp @ r = serializeSubpacketLength n @ t # os_contents sp @ r"
    by (simp add: subpacket_bytes_def n_def t_def)
  have o: "opaque_subpacket sp = \<lparr>osp_SubType = t, osp_Contents = os_contents sp\<rparr>"
    by (simp add: opaque_subpacket_def t_def)
  consider "n < 192" | "192 \<le> n" "n < 16320" | "16320 \<le> n" by linarith
  then show ?thesis
  proof cases
    case 1
    have "0 < n" by (simp add: n_def)
    with 1 show ?thesis
      unfolding b o
      by (simp add: nextSubpacket_def serializeSubpacketLength_def subpacketLengthLength_def byte_less_nat
          unat_byte n_def[symmetric] Let_def) (simp add: n_def)
  next
    case 2
    define h where "h = (n - 192) div 256"
    define hi lo where "hi = (of_nat (h + 192) :: byte)" and "lo = (of_nat (n - 192) :: byte)"
    have h: "h \<le> 62" "n - 192 = h * 256 + (n - 192) mod 256" using 2 by (auto simp: h_def)
    have u: "unat hi = h + 192" unfolding hi_def by (rule unat_byte) (use h in linarith)
    then have g: "\<not> hi < 192" "hi < 255" using h(1) by (simp_all add: byte_less_nat)
    have d: "unat (hi - 192) = h" using u g(1) by (simp add: unat_sub word_le_nat_alt)
    have s: "serializeSubpacketLength n = [hi, lo]"
      using 2 by (simp add: serializeSubpacketLength_def h_def hi_def lo_def)
    have v: "unat (hi - 192) * 256 + unat lo + 192 = n"
      by (simp only: d lo_def unat_of_nat_byte h(2)[symmetric] le_add_diff_inverse2[OF 2(1)])
    have "subpacketLengthLength n = 2" using 2 by (simp add: subpacketLengthLength_def)
    then show ?thesis
      unfolding b o s n_def[symmetric] nextSubpacket_def using g
      by (simp add: Let_def v) (simp add: n_def)
  next
    case 3
    have s: "serializeSubpacketLength n = 255 # be32 n" using 3 by (simp add: serializeSubpacketLength_def)
    have v: "be_value (be32 n) = n" using assms by (intro be_value_be32) (simp add: n_def)
    have "subpacketLengthLength n = 5" using 3 by (simp add: subpacketLengthLength_def)
    then show ?thesis
      unfolding b o s n_def[symmetric] nextSubpacket_def using v
      by (simp add: Let_def byte_less_nat) (simp add: n_def)
  qed
qed

lemma OpaqueSubpackets_bytes:
  "(\<And>sp. sp \<in> set sps \<Longrightarrow> length (os_contents sp) + 1 < 2 ^ 32)
    \<Longrightarrow> OpaqueSubpackets (concat (map subpacket_bytes sps)) = Inr (map opaque_subpacket sps)"
proof (induction sps)
  case Nil
  then show ?case by (simp add: OpaqueSubpackets.simps)
next
  case (Cons sp sps)
  have "osp_Contents (opaque_subpacket sp) = os_contents sp" by (simp add: opaque_subpacket_def)
  moreover have "nextSubpacket (subpacket_bytes sp @ concat (map subpacket_bytes sps))
      = Inr (subpacketLengthLength (length (os_contents sp) + 1) + 1, opaque_subpacket sp)"
    by (rule nextSubpacket_bytes) (use Cons.prems in auto)
  moreover have "subpacket_bytes sp \<noteq> []" by (simp add: subpacket_bytes_def)
  ultimately show ?case
    using Cons length_subpacket_bytes[of sp]
    by (subst OpaqueSubpackets.simps) simp
qed

lemma parseNotation_getData:
  assumes "length (nt_Name nt) < 65536" "length (nt_Value nt) < 65536"
    "osp_Contents osp = getData nt" "(osp_SubType osp AND 0x80 = 0x80) = nt_IsCritical nt"
  shows "parseNotation osp = Inr nt"
proof -
  have u: "unat (of_nat (n div 256) :: byte) * 256 + unat (of_nat n :: byte) = n" if "n < 65536" for n
    using that mult_div_mod_eq[of 256 n] by (simp add: unat_of_nat_byte)
  have d: "drop (n + 8) (a # b # c # d # e # f # g # h # xs) = drop n xs" for n and a b c d e f g h :: byte and xs
    using drop_drop[of n 8 "a # b # c # d # e # f # g # h # xs"] by simp
  show ?thesis
    using assms(3,4) u[OF assms(1)] u[OF assms(2)]
    by (cases nt) (simp add: parseNotation_def getData_def Let_def d)
qed

section \<open>Insertion sort\<close>

lemma mset_insert_left: "mset (insert_left lt x ys) = add_mset x (mset ys)"
  by (induction ys) auto

lemma mset_sort_fold: "mset (fold (insert_left lt) xs acc) = mset xs + mset acc"
  by (induction xs arbitrary: acc) (auto simp: mset_insert_left)

lemma mset_sort_Sort [simp]: "mset (sort_Sort lt xs) = mset xs"
  by (simp add: sort_Sort_def mset_sort_fold)

lemma set_sort_Sort [simp]: "set (sort_Sort lt xs) = set xs"
  using mset_sort_Sort[of lt xs] by (metis set_mset_mset)

lemma length_sort_Sort [simp]: "length (sort_Sort lt xs) = length xs"
  using mset_sort_Sort[of lt xs] by (metis size_mset)

text \<open>For a strict weak order the result is sorted: no element is less than an earlier one.\<close>

definition strict_weak :: "('a \<Rightarrow> 'a \<Rightarrow> bool) \<Rightarrow> bool" where
  "strict_weak lt \<longleftrightarrow> (\<forall>x y. lt x y \<longrightarrow> \<not> lt y x) \<and> (\<forall>x y z. \<not> lt y x \<longrightarrow> \<not> lt z y \<longrightarrow> \<not> lt z x)"

lemma strict_weakD:
  assumes "strict_weak lt"
  shows "lt x y \<Longrightarrow> \<not> lt y x" "\<not> lt x y \<Longrightarrow> \<not> lt y z \<Longrightarrow> \<not> lt x z"
  using assms unfolding strict_weak_def by blast+

lemma insert_left_sorted:
  assumes "strict_weak lt" "sorted_wrt (\<lambda>x y. \<not> lt x y) ys"
  shows "sorted_wrt (\<lambda>x y. \<not> lt x y) (insert_left lt x ys)"
  using assms(2)
proof (induction ys)
  case (Cons y ys)
  have s: "set (insert_left lt x ys) = insert x (set ys)"
    using mset_insert_left[of lt x ys] by (metis set_mset_add_mset_insert set_mset_mset)
  show ?case
  proof (cases "lt x y")
    case True
    with Cons s strict_weakD(1)[OF assms(1) True] show ?thesis by simp
  next
    case False
    with Cons.prems strict_weakD(2)[OF assms(1) False] show ?thesis by simp
  qed
qed simp

lemma sort_Sort_sorted:
  assumes "strict_weak lt"
  shows "sorted_wrt (\<lambda>x y. \<not> lt y x) (sort_Sort lt xs)"
proof -
  have "sorted_wrt (\<lambda>x y. \<not> lt x y) acc \<Longrightarrow> sorted_wrt (\<lambda>x y. \<not> lt x y) (fold (insert_left lt) xs acc)" for acc
    by (induction xs arbitrary: acc) (auto intro: insert_left_sorted[OF assms])
  from this[of "[]"] show ?thesis by (simp add: sort_Sort_def sorted_wrt_rev)
qed

text \<open>When elements that compare equal are equal, the sorted list is determined by the multiset.\<close>

lemma sorted_lt_unique:
  assumes "strict_weak lt" "\<And>x y. \<not> lt x y \<Longrightarrow> \<not> lt y x \<Longrightarrow> x = y"
    and "sorted_wrt (\<lambda>x y. \<not> lt y x) xs" "sorted_wrt (\<lambda>x y. \<not> lt y x) ys" "mset xs = mset ys"
  shows "xs = ys"
  using assms(3-)
proof (induction xs arbitrary: ys)
  case (Cons x xs)
  then obtain y ys' where ys: "ys = y # ys'" by (cases ys) auto
  have "x = y"
  proof (rule assms(2))
    have "x = y \<or> x \<in> set ys'" using Cons.prems(3) ys
      by (metis insert_iff list.set(2) mset_eq_setD list.set_intros(1))
    then show "\<not> lt x y" using Cons.prems(2) ys strict_weakD(1)[OF assms(1)] by auto
    have "y = x \<or> y \<in> set xs" using Cons.prems(3) ys
      by (metis insert_iff list.set(2) mset_eq_setD list.set_intros(1))
    then show "\<not> lt y x" using Cons.prems(1) strict_weakD(1)[OF assms(1)] by auto
  qed
  with Cons ys show ?case by simp
qed simp

lemma sort_Sort_perm:
  assumes "strict_weak lt" "\<And>x y. \<not> lt x y \<Longrightarrow> \<not> lt y x \<Longrightarrow> x = y" "mset xs = mset ys"
  shows "sort_Sort lt xs = sort_Sort lt ys"
  by (rule sorted_lt_unique[OF assms(1,2)]) (simp_all add: sort_Sort_sorted[OF assms(1)] assms(3))

lemma bytes_less_asym: "bytes_less xs ys \<Longrightarrow> \<not> bytes_less ys xs"
  by (induction xs ys rule: bytes_less.induct) auto

lemma bytes_less_trichotomy: "\<not> bytes_less xs ys \<Longrightarrow> \<not> bytes_less ys xs \<Longrightarrow> xs = ys"
  by (induction xs ys rule: bytes_less.induct) (auto split: list.splits, (metis bytes_less.simps(2) list.exhaust)+)

lemma bytes_less_trans: "bytes_less xs ys \<Longrightarrow> bytes_less ys zs \<Longrightarrow> bytes_less xs zs"
proof (induction xs ys arbitrary: zs rule: bytes_less.induct)
  case (2 y ys)
  then show ?case by (cases zs) auto
next
  case (3 x xs y ys)
  then show ?case by (cases zs) auto
qed simp

end
