(* ===== verification/CertSpec.thy ===== *)
theory CertSpec
  imports KeyIO PacketSpec
begin

text \<open>
  Facts about certificates: the SKS digest depends only on the packets of a key, trust packets
  survive writing and parsing, and what validation keeps.
\<close>

unbundle bit_operations_syntax

section \<open>The digest\<close>

lemma opaque_Less_weak: "strict_weak opaque_Less"
proof -
  have trans: "\<not> bytes_less b a \<Longrightarrow> \<not> bytes_less c b \<Longrightarrow> \<not> bytes_less c a" for a b c
    using bytes_less_trans bytes_less_trichotomy bytes_less_asym by metis
  have "opaque_Less x y \<Longrightarrow> \<not> opaque_Less y x" for x y
    using bytes_less_asym by (auto simp: opaque_Less_def Let_def split: if_splits)
  moreover have "\<not> opaque_Less y x \<Longrightarrow> \<not> opaque_Less z y \<Longrightarrow> \<not> opaque_Less z x" for x y z
    using trans[of "op_Contents y" "op_Contents x" "op_Contents z"]
    by (auto simp: opaque_Less_def Let_def split: if_splits)
  ultimately show ?thesis unfolding strict_weak_def by blast
qed

lemma opaque_Less_eq:
  assumes "\<not> opaque_Less x y" "\<not> opaque_Less y x"
  shows "x = y"
proof -
  have "uint (op_Tag x) = uint (op_Tag y)"
    using assms by (simp add: opaque_Less_def Let_def split: if_splits)
  then have t: "op_Tag x = op_Tag y" by (simp add: word_uint_eq_iff)
  then have "op_Contents x = op_Contents y"
    using assms by (intro bytes_less_trichotomy) (simp_all add: opaque_Less_def Let_def)
  with t show ?thesis by simp
qed

lemma sksDigestOpaque_perm: "mset ps = mset qs \<Longrightarrow> sksDigestOpaque E ps = sksDigestOpaque E qs"
  unfolding sksDigestOpaque_def by (subst sort_Sort_perm[OF opaque_Less_weak opaque_Less_eq]) auto

text \<open>What one packet contributes to the two digests.\<close>

definition digest_of :: "byte list \<Rightarrow> (OpaquePacket list \<times> OpaquePacket list) res" where
  "digest_of d = rbind (newOpaquePacket d) (\<lambda>op.
     if op_Tag op = 12 then rbind (trustPacketSKSView op) (\<lambda>v. Inr (case v of None \<Rightarrow> [] | Some op' \<Rightarrow> [op'], [op]))
     else Inr ([op], []))"

lemma digest_step_alt:
  "digest_step node s = rbind (digest_of (p_Data (node_packet node))) (\<lambda>(a, b). Inr (fst s @ a, snd s @ b))"
  by (cases s) (auto simp: digest_step_def digest_of_def rbind_def split: sum.splits option.splits)

lemma digest_fold:
  "rfold digest_step nodes s = rbind (rmap (\<lambda>n. digest_of (p_Data (node_packet n))) nodes) (\<lambda>ds.
     Inr (fst s @ concat (map fst ds), snd s @ concat (map snd ds)))"
proof (induction nodes arbitrary: s)
  case (Cons n nodes)
  obtain a b where s: "s = (a, b)" by (cases s)
  show ?case
  proof (cases "digest_of (p_Data (node_packet n))")
    case (Inl e)
    then show ?thesis by (simp add: digest_step_alt[of n])
  next
    case (Inr ab)
    then have "digest_step n s = Inr (a @ fst ab, b @ snd ab)" by (simp add: digest_step_alt s split: prod.split)
    then have "rfold digest_step (n # nodes) s = rfold digest_step nodes (a @ fst ab, b @ snd ab)" by simp
    also have "\<dots> = rbind (rmap (\<lambda>n. digest_of (p_Data (node_packet n))) nodes) (\<lambda>ds.
        Inr ((a @ fst ab) @ concat (map fst ds), (b @ snd ab) @ concat (map snd ds)))"
      by (simp add: Cons.IH)
    finally show ?thesis
      using Inr by (cases "rmap (\<lambda>n. digest_of (p_Data (node_packet n))) nodes") (simp_all add: s)
  qed
qed simp

lemma rmap_all: "rmap f xs = Inr ys \<Longrightarrow> ys = map (\<lambda>x. projr (f x)) xs \<and> (\<forall>x \<in> set xs. f x = Inr (projr (f x)))"
  by (induction xs arbitrary: ys) (auto elim!: rbind_InrE)

lemma rmap_data: "rmap (\<lambda>n. f (p_Data (node_packet n))) ns = rmap f (map (\<lambda>n. p_Data (node_packet n)) ns)"
  by (induction ns) auto

lemma rmap_perm:
  assumes "rmap f xs = Inr ys" "mset xs = mset xs'"
  obtains ys' where "rmap f xs' = Inr ys'" "mset ys' = mset ys"
proof
  note a = rmap_all[OF assms(1)]
  have "set xs = set xs'" by (rule mset_eq_setD[OF assms(2)])
  with a show "rmap f xs' = Inr (map (\<lambda>x. projr (f x)) xs')" by (intro rmap_pure) auto
  show "mset (map (\<lambda>x. projr (f x)) xs') = mset ys" using a assms(2) by simp
qed

lemma mset_concat_perm: "mset xss = mset yss \<Longrightarrow> mset (concat (map f xss)) = mset (concat (map f yss))"
proof -
  assume "mset xss = mset yss"
  then have "image_mset (mset \<circ> f) (mset xss) = image_mset (mset \<circ> f) (mset yss)" by simp
  then show ?thesis by (simp add: mset_concat comp_def flip: sum_mset_sum_list)
qed

lemma SksDigest_alt:
  "SksDigest E k = rbind (rmap digest_of (map (\<lambda>n. p_Data (node_packet n)) (key_contents k))) (\<lambda>ds.
     if concat (map fst ds) = [] then Inl (Err (ErrMsg ''no packets found''))
     else Inr (sksDigestOpaque E (concat (map fst ds)), sksDigestOpaque E (concat (map snd ds))))"
  unfolding SksDigest_def digest_fold rmap_data[of digest_of] rbind_assoc by simp

lemma SksDigest_perm:
  assumes "SksDigest E k = Inr d"
    and "mset (map (\<lambda>n. p_Data (node_packet n)) (key_contents k)) = mset (map (\<lambda>n. p_Data (node_packet n)) (key_contents k'))"
  shows "SksDigest E k' = Inr d"
proof -
  from assms(1) obtain ds where ds: "rmap digest_of (map (\<lambda>n. p_Data (node_packet n)) (key_contents k)) = Inr ds"
    and d: "(if concat (map fst ds) = [] then Inl (Err (ErrMsg ''no packets found''))
     else Inr (sksDigestOpaque E (concat (map fst ds)), sksDigestOpaque E (concat (map snd ds)))) = Inr d"
    unfolding SksDigest_alt by (rule rbind_InrE)
  obtain es where es: "rmap digest_of (map (\<lambda>n. p_Data (node_packet n)) (key_contents k')) = Inr es" "mset es = mset ds"
    by (rule rmap_perm[OF ds assms(2)])
  note m = mset_concat_perm[OF es(2), of fst] mset_concat_perm[OF es(2), of snd]
  have "concat (map fst es) = [] \<longleftrightarrow> concat (map fst ds) = []" using m(1) by (metis mset_zero_iff)
  with d sksDigestOpaque_perm[OF m(1), of E] sksDigestOpaque_perm[OF m(2), of E] show ?thesis
    unfolding SksDigest_alt es(1) rbind_simps by (auto simp del: concat_eq_Nil_conv split: if_splits)
qed

section \<open>Trust packets survive writing and parsing\<close>

definition trust_wf :: "Trust \<Rightarrow> bool" where
  "trust_wf t \<longleftrightarrow> tf_AppContext (tr t) \<in> {NoisySKS, QuietSKS, AppContextHKP}
     \<and> tf_Notations (tr t) \<noteq> [] \<and> (tf_AppContext (tr t) = NoisySKS \<longrightarrow> 2 \<le> length (tf_Notations (tr t)))
     \<and> (\<forall>nt \<in> set (tf_Notations (tr t)). length (nt_Name nt) < 65536 \<and> length (nt_Value nt) < 65536)"

lemma notation_subpacket:
  assumes "length (nt_Name nt) < 65536" "length (nt_Value nt) < 65536"
  shows "trust_subpacket E kct pu su (opaque_subpacket \<lparr>os_type = 20, os_isCritical = nt_IsCritical nt, os_contents = getData nt\<rparr>) t
    = Inr (Trust ((tr t)\<lparr>tf_Notations := tf_Notations (tr t) @ [nt]\<rparr>) (tr_Signatures t))"
proof -
  define osp where "osp = opaque_subpacket \<lparr>os_type = 20, os_isCritical = nt_IsCritical nt, os_contents = getData nt\<rparr>"
  have o: "osp_Contents osp = getData nt" "osp_SubType osp AND 0x7f = 20" "(osp_SubType osp AND 0x80 = 0x80) = nt_IsCritical nt"
    by (auto simp: osp_def opaque_subpacket_def)
  have "parseNotation osp = Inr nt" by (rule parseNotation_getData[OF assms o(1,3)])
  moreover have "osp_Contents osp \<noteq> []" by (simp add: o(1) getData_def Let_def)
  ultimately show ?thesis by (simp add: trust_subpacket_def o(2) flip: osp_def)
qed

lemma notations_fold:
  assumes "\<forall>nt \<in> set nts. length (nt_Name nt) < 65536 \<and> length (nt_Value nt) < 65536"
  shows "rfold (trust_subpacket E kct pu su)
      (map (\<lambda>nt. opaque_subpacket \<lparr>os_type = 20, os_isCritical = nt_IsCritical nt, os_contents = getData nt\<rparr>) nts) t
    = Inr (Trust ((tr t)\<lparr>tf_Notations := tf_Notations (tr t) @ nts\<rparr>) (tr_Signatures t))"
  using assms by (induction nts arbitrary: t) (auto simp: notation_subpacket)

lemma sigs_fold:
  assumes "\<forall>op \<in> set ops. op_Contents op \<noteq> []"
  shows "rfold (trust_subpacket E kct pu su)
      (map (\<lambda>op. opaque_subpacket \<lparr>os_type = 32, os_isCritical = False, os_contents = op_Contents op\<rparr>) ops) t
    = rbind (rmap (\<lambda>op. ParseSignature E 0 \<lparr>op_Tag = 2, op_Contents = op_Contents op\<rparr> kct pu su) ops) (\<lambda>sigs.
        Inr (Trust (tr t) (tr_Signatures t @ sigs)))"
  using assms
proof (induction ops arbitrary: t)
  case (Cons op ops)
  define osp where "osp = opaque_subpacket \<lparr>os_type = 32, os_isCritical = False, os_contents = op_Contents op\<rparr>"
  have "osp_SubType osp AND 0x7f = 32" "osp_Contents osp = op_Contents op"
    by (auto simp: osp_def opaque_subpacket_def)
  then have "trust_subpacket E kct pu su osp t
      = rbind (ParseSignature E 0 \<lparr>op_Tag = 2, op_Contents = op_Contents op\<rparr> kct pu su) (\<lambda>sig.
          Inr (Trust (tr t) (tr_Signatures t @ [sig])))"
    using Cons.prems by (simp add: trust_subpacket_def parseEmbeddedSig_def)
  moreover have "rfold (trust_subpacket E kct pu su)
      (map (\<lambda>op. opaque_subpacket \<lparr>os_type = 32, os_isCritical = False, os_contents = op_Contents op\<rparr>) ops)
    = (\<lambda>t. rbind (rmap (\<lambda>op. ParseSignature E 0 \<lparr>op_Tag = 2, op_Contents = op_Contents op\<rparr> kct pu su) ops) (\<lambda>sigs.
        Inr (Trust (tr t) (tr_Signatures t @ sigs))))"
    by (rule ext) (use Cons in auto)
  ultimately show ?case
    by (simp add: rbind_assoc flip: osp_def)
qed simp

lemma trust_written:
  assumes "UpdatePacket t = Inr t'" "trust_wf t"
    and "rmap (\<lambda>s. opaquePacket (sg s)) (tr_Signatures t) = Inr ops"
    and "\<forall>op \<in> set ops. op_Contents op \<noteq> [] \<and> length (op_Contents op) + 1 < 2 ^ 32"
    and "length (p_Data (tr t')) < 2 ^ 32"
  shows "\<exists>op. newOpaquePacket (p_Data (tr t')) = Inr op \<and> op_Tag op = 12
    \<and> setTrust E tf0 (op_Contents op) kct pu su
      = rbind (rmap (\<lambda>op. ParseSignature E 0 \<lparr>op_Tag = 2, op_Contents = op_Contents op\<rparr> kct pu su) ops) (\<lambda>sigs.
          Inr (Trust (tf0\<lparr>tf_Value := tf_Value (tr t), tf_Flags := tf_Flags (tr t), tf_AppContext := tf_AppContext (tr t),
                 tf_PacketContext := tf_PacketContext (tr t), tf_Notations := tf_Notations tf0 @ tf_Notations (tr t)\<rparr>) sigs))"
proof -
  define nsub where "nsub nt = \<lparr>os_type = 20, os_isCritical = nt_IsCritical nt, os_contents = getData nt\<rparr>" for nt
  define ssub where "ssub (op :: OpaquePacket) = \<lparr>os_type = 32, os_isCritical = False, os_contents = op_Contents op\<rparr>" for op
  define sps where "sps = map nsub (tf_Notations (tr t)) @ map ssub ops"
  note a = rmap_all[OF assms(3)]
  have "rmap (\<lambda>sig. case opaquePacket (sg sig) of Inl _ \<Rightarrow> Inl (Panic PNil) | Inr op \<Rightarrow> Inr (ssub op)) (tr_Signatures t)
      = Inr (map (\<lambda>s. ssub (projr (opaquePacket (sg s)))) (tr_Signatures t))"
  proof (rule rmap_pure)
    fix x assume "x \<in> set (tr_Signatures t)"
    with a have "opaquePacket (sg x) = Inr (projr (opaquePacket (sg x)))" by blast
    then obtain op where "opaquePacket (sg x) = Inr op" by blast
    then show "(case opaquePacket (sg x) of Inl _ \<Rightarrow> Inl (Panic PNil) | Inr op \<Rightarrow> Inr (ssub op))
        = Inr (ssub (projr (opaquePacket (sg x))))" by simp
  qed
  moreover have "trust_subpackets t = rbind (rmap (\<lambda>sig. case opaquePacket (sg sig) of
        Inl _ \<Rightarrow> Inl (Panic PNil) | Inr op \<Rightarrow> Inr (ssub op)) (tr_Signatures t)) (\<lambda>sigs.
      Inr (map nsub (tf_Notations (tr t)) @ sigs))"
    by (simp only: trust_subpackets_def nsub_def[abs_def] ssub_def)
  ultimately have sub: "trust_subpackets t = Inr sps"
    using a by (simp add: sps_def comp_def)
  define area where "area = concat (map subpacket_bytes sps)"
  have "serializeSubpackets (replicate (subpacketsLength sps) 0) sps = Inr area"
    unfolding area_def by (rule serializeSubpackets_exact) simp
  define app where "app = tf_AppContext (tr t)"
  have app: "app \<in> {NoisySKS, QuietSKS, AppContextHKP}" "length app = 3" "copy_padded 3 app = app"
    using assms(2) by (auto simp: trust_wf_def app_def lit_def copy_padded_def)
  define buf where "buf = [tf_Value (tr t), tf_Flags (tr t)] @ app @ [tf_PacketContext (tr t)] @ area"
  have d: "p_Data (tr t') = op_Serialize \<lparr>op_Tag = 12, op_Contents = buf\<rparr>"
    using assms(1) sub \<open>serializeSubpackets _ _ = _\<close> app(3) by (auto simp: UpdatePacket_def buf_def app_def)
  have "length buf \<le> length (p_Data (tr t'))" by (simp add: d op_Serialize_def)
  then have n: "newOpaquePacket (p_Data (tr t')) = Inr \<lparr>op_Tag = 12, op_Contents = buf\<rparr>"
    using assms(5) unfolding d by (intro newOpaquePacket_Serialize) auto
  have "OpaqueSubpackets area = Inr (map opaque_subpacket sps)"
    unfolding area_def
  proof (rule OpaqueSubpackets_bytes)
    fix sp assume "sp \<in> set sps"
    then consider nt where "nt \<in> set (tf_Notations (tr t))" "sp = nsub nt" | op where "op \<in> set ops" "sp = ssub op"
      by (auto simp: sps_def)
    then show "length (os_contents sp) + 1 < 2 ^ 32"
    proof cases
      case 1
      then have "length (nt_Name nt) < 65536" "length (nt_Value nt) < 65536" using assms(2) by (auto simp: trust_wf_def)
      with 1 show ?thesis by (simp add: nsub_def getData_def Let_def)
    next
      case 2
      with assms(4) show ?thesis by (simp add: ssub_def)
    qed
  qed
  moreover have "drop 6 buf = area" "take 3 (drop 2 buf) = app" "6 \<le> length buf" "buf ! 0 = tf_Value (tr t)"
    "buf ! 1 = tf_Flags (tr t)" "buf ! 5 = tf_PacketContext (tr t)"
    using app(2) by (auto simp: buf_def nth_append)
  moreover have nts: "\<forall>nt \<in> set (tf_Notations (tr t)). length (nt_Name nt) < 65536 \<and> length (nt_Value nt) < 65536"
    "tf_Notations (tr t) \<noteq> []" "app = NoisySKS \<longrightarrow> 2 \<le> length (tf_Notations (tr t))"
    using assms(2) by (auto simp: trust_wf_def app_def)
  moreover have "\<forall>op \<in> set ops. op_Contents op \<noteq> []" using assms(4) by auto
  moreover have "rfold (trust_subpacket E kct pu su) (map opaque_subpacket sps) t0
      = rbind (rmap (\<lambda>op. ParseSignature E 0 \<lparr>op_Tag = 2, op_Contents = op_Contents op\<rparr> kct pu su) ops) (\<lambda>sigs.
          Inr (Trust ((tr t0)\<lparr>tf_Notations := tf_Notations (tr t0) @ tf_Notations (tr t)\<rparr>) (tr_Signatures t0 @ sigs)))" for t0
    using notations_fold[OF nts(1), of E kct pu su t0] sigs_fold[OF \<open>\<forall>op \<in> set ops. op_Contents op \<noteq> []\<close>, of E kct pu su]
    by (simp add: sps_def rfold_append nsub_def ssub_def comp_def)
  ultimately have "setTrust E tf0 buf kct pu su
      = rbind (rmap (\<lambda>op. ParseSignature E 0 \<lparr>op_Tag = 2, op_Contents = op_Contents op\<rparr> kct pu su) ops) (\<lambda>sigs.
          Inr (Trust (tf0\<lparr>tf_Value := tf_Value (tr t), tf_Flags := tf_Flags (tr t), tf_AppContext := app,
                 tf_PacketContext := tf_PacketContext (tr t), tf_Notations := tf_Notations tf0 @ tf_Notations (tr t)\<rparr>) sigs))"
    using app(1) by (auto simp: setTrust_def Let_def rbind_assoc)
  with n show ?thesis by (simp add: app_def)
qed

end
