(* ===== verification/ValidSpec.thy ===== *)
theory ValidSpec
  imports CertSpec
begin

text \<open>
  What \<open>ValidSelfSigned\<close> leaves of a key: components with a valid self-signature, no user IDs and
  no third-party signatures after a hard revocation, and each redacted name once.
\<close>

section \<open>The signatures of a component\<close>

lemma fold_inv: "P s \<Longrightarrow> (\<And>x s. x \<in> set xs \<Longrightarrow> P s \<Longrightarrow> P (f x s)) \<Longrightarrow> P (fold f xs s)"
  by (induction xs arbitrary: s) auto

text \<open>Signature checks read a component's data only.\<close>

lemma uid_checks_data:
  assumes "p_Data u = p_Data v"
  shows "verifyUserIDSelfSig E key u = verifyUserIDSelfSig E key v" "plausifyUserIDSig E key u = plausifyUserIDSig E key v"
  using assms
  by (simp_all add: fun_eq_iff verifyUserIDSelfSig_def plausifyUserIDSig_def userIDPacket_def opaquePacket_def)

lemma key_checks_data:
  assumes "p_Data k = p_Data k'" "pub_Version k = pub_Version k'"
  shows "verifyUserIDSelfSig E k = verifyUserIDSelfSig E k'" "plausifyUserIDSig E k = plausifyUserIDSig E k'"
    "verifySubKeySelfSig E k = verifySubKeySelfSig E k'" "plausifySubKeySig E k = plausifySubKeySig E k'"
  using assms
  by (simp_all add: fun_eq_iff verifyUserIDSelfSig_def plausifyUserIDSig_def verifySubKeySelfSig_def
      plausifySubKeySig_def opaquePacket_def)

lemma subkey_checks_data:
  assumes "p_Data u = p_Data v" "pub_Version u = pub_Version v"
  shows "verifySubKeySelfSig E key u = verifySubKeySelfSig E key v" "plausifySubKeySig E key u = plausifySubKeySig E key v"
proof -
  have pk: "publicKeyPacket E u = publicKeyPacket E v" "publicKeyV3Packet E u = publicKeyV3Packet E v"
    using assms by (simp_all add: publicKeyPacket_def publicKeyV3Packet_def opaquePacket_def)
  show "verifySubKeySelfSig E key u = verifySubKeySelfSig E key v" "plausifySubKeySig E key u = plausifySubKeySig E key v"
    unfolding fun_eq_iff verifySubKeySelfSig_def plausifySubKeySig_def pk assms(2) by (rule allI refl)+
qed

lemma isSelfSig_data:
  "pub_KeyID k = pub_KeyID k' \<Longrightarrow> pub_Fingerprint k = pub_Fingerprint k' \<Longrightarrow> isSelfSig k = isSelfSig k'"
  by (simp add: isSelfSig_def fun_eq_iff)

text \<open>The self-signatures that pass their check, and the third-party signatures that are plausible.\<close>

definition uid_self :: "gocrypto \<Rightarrow> PrimaryKey \<Rightarrow> UserID \<Rightarrow> Signature \<Rightarrow> bool" where
  "uid_self E key u s \<longleftrightarrow> isSelfSig key s \<and> verifyUserIDSelfSig E key u s = Inr ()"

definition uid_other :: "gocrypto \<Rightarrow> PrimaryKey \<Rightarrow> UserID \<Rightarrow> Signature \<Rightarrow> bool" where
  "uid_other E key u s \<longleftrightarrow> \<not> isSelfSig key s \<and> plausifyUserIDSig E key u s = Inr ()"

definition subkey_self :: "gocrypto \<Rightarrow> PrimaryKey \<Rightarrow> SubKey \<Rightarrow> Signature \<Rightarrow> bool" where
  "subkey_self E key u s \<longleftrightarrow> isSelfSig key s \<and> verifySubKeySelfSig E key u s = Inr ()"

definition subkey_other :: "gocrypto \<Rightarrow> PrimaryKey \<Rightarrow> SubKey \<Rightarrow> Signature \<Rightarrow> bool" where
  "subkey_other E key u s \<longleftrightarrow> \<not> isSelfSig key s \<and> plausifySubKeySig E key u s = Inr ()"

lemma uid_SigInfo_facts:
  assumes "uid_SigInfo E key uid = (ss, others, uid')"
  shows "c \<in> set (ss_Revocations ss) \<union> set (ss_Certifications ss) \<Longrightarrow>
      cs_Error c = None \<and> uid_self E key uid (cs_Signature c) \<and> cs_Signature c \<in> set (uid_Signatures uid)"
    and "s \<in> set others \<Longrightarrow> uid_other E key uid s \<and> s \<in> set (uid_Signatures uid)"
    and "\<exists>b. uid' = uid\<lparr>uid_IsRevoked := b\<rparr>"
proof -
  define P where "P = (\<lambda>(ss :: SelfSigs, others, u).
    (\<forall>c \<in> set (ss_Revocations ss) \<union> set (ss_Certifications ss).
        cs_Error c = None \<and> uid_self E key uid (cs_Signature c) \<and> cs_Signature c \<in> set (uid_Signatures uid))
    \<and> (\<forall>s \<in> set others. uid_other E key uid s \<and> s \<in> set (uid_Signatures uid))
    \<and> (\<exists>b. u = uid\<lparr>uid_IsRevoked := b\<rparr>))"
  have "P (fold (uid_sig_step E key) (uid_Signatures uid) (emptySelfSigs, [], uid))"
  proof (rule fold_inv)
    have "\<exists>b. uid = uid\<lparr>uid_IsRevoked := b\<rparr>" by (rule exI[of _ "uid_IsRevoked uid"]) simp
    then show "P (emptySelfSigs, [], uid)" by (simp add: P_def emptySelfSigs_def)
  next
    fix sig s
    assume sig: "sig \<in> set (uid_Signatures uid)" "P s"
    obtain ss others u b where s: "s = (ss, others, u)" and u: "u = uid\<lparr>uid_IsRevoked := b\<rparr>"
      using sig(2) by (cases s) (auto simp: P_def)
    have chk: "verifyUserIDSelfSig E key u = verifyUserIDSelfSig E key uid"
      "plausifyUserIDSig E key u = plausifyUserIDSig E key uid"
      by (rule uid_checks_data; simp add: u)+
    have b: "\<exists>b. u = uid\<lparr>uid_IsRevoked := b\<rparr>" "\<exists>b. u\<lparr>uid_IsRevoked := True\<rparr> = uid\<lparr>uid_IsRevoked := b\<rparr>"
      using u by auto
    show "P (uid_sig_step E key sig s)"
      using sig b unfolding uid_sig_step_def s Let_def prod.case chk
      by (auto simp: P_def uid_self_def uid_other_def split: sum.splits)
  qed
  moreover obtain ss0 where ss0: "fold (uid_sig_step E key) (uid_Signatures uid) (emptySelfSigs, [], uid) = (ss0, others, uid')"
    "ss = ss_resolve ss0"
    using assms by (auto simp: uid_SigInfo_def split: prod.splits)
  ultimately have "P (ss0, others, uid')" by simp
  then show "c \<in> set (ss_Revocations ss) \<union> set (ss_Certifications ss) \<Longrightarrow>
      cs_Error c = None \<and> uid_self E key uid (cs_Signature c) \<and> cs_Signature c \<in> set (uid_Signatures uid)"
    "s \<in> set others \<Longrightarrow> uid_other E key uid s \<and> s \<in> set (uid_Signatures uid)"
    "\<exists>b. uid' = uid\<lparr>uid_IsRevoked := b\<rparr>"
    using ss0(2) by (auto simp: P_def ss_resolve_def)
qed

lemma subkey_SigInfo_facts:
  assumes "subkey_SigInfo E key uid = (ss, others, uid')"
  shows "c \<in> set (ss_Revocations ss) \<union> set (ss_Certifications ss) \<Longrightarrow>
      cs_Error c = None \<and> subkey_self E key uid (cs_Signature c) \<and> cs_Signature c \<in> set (pub_Signatures uid)"
    and "s \<in> set others \<Longrightarrow> subkey_other E key uid s \<and> s \<in> set (pub_Signatures uid)"
    and "\<exists>b. uid' = uid\<lparr>pub_IsRevoked := b\<rparr>"
proof -
  define P where "P = (\<lambda>(ss :: SelfSigs, others, u).
    (\<forall>c \<in> set (ss_Revocations ss) \<union> set (ss_Certifications ss).
        cs_Error c = None \<and> subkey_self E key uid (cs_Signature c) \<and> cs_Signature c \<in> set (pub_Signatures uid))
    \<and> (\<forall>s \<in> set others. subkey_other E key uid s \<and> s \<in> set (pub_Signatures uid))
    \<and> (\<exists>b. u = uid\<lparr>pub_IsRevoked := b\<rparr>))"
  have "P (fold (subkey_sig_step E key) (pub_Signatures uid) (emptySelfSigs, [], uid))"
  proof (rule fold_inv)
    have "\<exists>b. uid = uid\<lparr>pub_IsRevoked := b\<rparr>" by (rule exI[of _ "pub_IsRevoked uid"]) simp
    then show "P (emptySelfSigs, [], uid)" by (simp add: P_def emptySelfSigs_def)
  next
    fix sig s
    assume sig: "sig \<in> set (pub_Signatures uid)" "P s"
    obtain ss others u b where s: "s = (ss, others, u)" and u: "u = uid\<lparr>pub_IsRevoked := b\<rparr>"
      using sig(2) by (cases s) (auto simp: P_def)
    have chk: "verifySubKeySelfSig E key u = verifySubKeySelfSig E key uid"
      "plausifySubKeySig E key u = plausifySubKeySig E key uid"
      by (rule subkey_checks_data; simp add: u)+
    have b: "\<exists>b. u = uid\<lparr>pub_IsRevoked := b\<rparr>" "\<exists>b. u\<lparr>pub_IsRevoked := True\<rparr> = uid\<lparr>pub_IsRevoked := b\<rparr>"
      using u by auto
    show "P (subkey_sig_step E key sig s)"
      using sig b unfolding subkey_sig_step_def s Let_def prod.case chk
      by (auto simp: P_def subkey_self_def subkey_other_def split: sum.splits)
  qed
  moreover obtain ss0 where ss0: "fold (subkey_sig_step E key) (pub_Signatures uid) (emptySelfSigs, [], uid) = (ss0, others, uid')"
    "ss = ss_resolve ss0"
    using assms by (auto simp: subkey_SigInfo_def split: prod.splits)
  ultimately have "P (ss0, others, uid')" by simp
  then show "c \<in> set (ss_Revocations ss) \<union> set (ss_Certifications ss) \<Longrightarrow>
      cs_Error c = None \<and> subkey_self E key uid (cs_Signature c) \<and> cs_Signature c \<in> set (pub_Signatures uid)"
    "s \<in> set others \<Longrightarrow> subkey_other E key uid s \<and> s \<in> set (pub_Signatures uid)"
    "\<exists>b. uid' = uid\<lparr>pub_IsRevoked := b\<rparr>"
    using ss0(2) by (auto simp: P_def ss_resolve_def)
qed

lemma keep_certs_subset: "set (keep_certs cs) \<subseteq> cs_Signature ` set cs"
  by (induction cs) auto

lemma keep_revocations_subset: "set (keep_revocations cs) \<subseteq> cs_Signature ` set cs"
  by (auto simp: keep_revocations_def)

lemma uid_Valid_facts:
  assumes "uid_Valid E key only uid = (True, uid')"
  shows "\<exists>s \<in> set (uid_Signatures uid'). uid_self E key uid s"
    and "s \<in> set (uid_Signatures uid') \<Longrightarrow> s \<in> set (uid_Signatures uid) \<and> (uid_self E key uid s \<or> \<not> only \<and> uid_other E key uid s)"
    and "Packet.truncate uid' = Packet.truncate uid" "uid_Keywords uid' = uid_Keywords uid" "uid_Trusts uid' = []"
proof -
  obtain ss others uid2 where si: "uid_SigInfo E key (uid\<lparr>uid_Trusts := []\<rparr>) = (ss, others, uid2)" by (metis prod_cases3)
  define certs where "certs = keep_revocations (ss_Revocations ss) @ keep_certs (ss_Certifications ss)"
  note f = uid_SigInfo_facts[OF si]
  have selfeq: "uid_self E key (uid\<lparr>uid_Trusts := []\<rparr>) = uid_self E key uid" "uid_other E key (uid\<lparr>uid_Trusts := []\<rparr>) = uid_other E key uid"
    by (simp_all add: fun_eq_iff uid_self_def uid_other_def uid_checks_data[where u = "uid\<lparr>uid_Trusts := []\<rparr>" and v = uid])
  have c: "uid_self E key uid s \<and> s \<in> set (uid_Signatures uid)" if "s \<in> set certs" for s
    using that f(1) keep_certs_subset[of "ss_Certifications ss"] keep_revocations_subset[of "ss_Revocations ss"] selfeq
    unfolding certs_def by fastforce
  have o: "uid_other E key uid s \<and> s \<in> set (uid_Signatures uid)" if "s \<in> set others" for s
    using f(2)[OF that] selfeq by simp
  obtain b where u2: "uid2 = uid\<lparr>uid_Trusts := [], uid_IsRevoked := b\<rparr>" using f(3) by auto
  have ne: "certs \<noteq> []" and res: "uid_Signatures uid' = (if only then certs else certs @ others)"
    "Packet.truncate uid' = Packet.truncate uid" "uid_Keywords uid' = uid_Keywords uid" "uid_Trusts uid' = []"
    using assms si u2
    by (auto simp: uid_Valid_def Let_def certs_def Packet.defs split: if_splits)
  then show "\<exists>s \<in> set (uid_Signatures uid'). uid_self E key uid s"
    using c by (cases certs) auto
  show "s \<in> set (uid_Signatures uid') \<Longrightarrow> s \<in> set (uid_Signatures uid) \<and> (uid_self E key uid s \<or> \<not> only \<and> uid_other E key uid s)"
    using res(1) c o by (auto split: if_splits)
  show "Packet.truncate uid' = Packet.truncate uid" "uid_Keywords uid' = uid_Keywords uid" "uid_Trusts uid' = []"
    by (rule res)+
qed

lemma subkey_Valid_facts:
  assumes "subkey_Valid E key only uid = (True, uid')"
  shows "\<exists>s \<in> set (pub_Signatures uid'). subkey_self E key uid s"
    and "s \<in> set (pub_Signatures uid') \<Longrightarrow> s \<in> set (pub_Signatures uid) \<and> (subkey_self E key uid s \<or> \<not> only \<and> subkey_other E key uid s)"
    and "Packet.truncate uid' = Packet.truncate uid" "pub_Version uid' = pub_Version uid" "pub_Trusts uid' = []"
proof -
  obtain ss others uid2 where si: "subkey_SigInfo E key (uid\<lparr>pub_Trusts := []\<rparr>) = (ss, others, uid2)" by (metis prod_cases3)
  define certs where "certs = keep_revocations (ss_Revocations ss) @ keep_certs (ss_Certifications ss)"
  note f = subkey_SigInfo_facts[OF si]
  have selfeq: "subkey_self E key (uid\<lparr>pub_Trusts := []\<rparr>) = subkey_self E key uid" "subkey_other E key (uid\<lparr>pub_Trusts := []\<rparr>) = subkey_other E key uid"
    by (simp_all add: fun_eq_iff subkey_self_def subkey_other_def subkey_checks_data[where u = "uid\<lparr>pub_Trusts := []\<rparr>" and v = uid])
  have c: "subkey_self E key uid s \<and> s \<in> set (pub_Signatures uid)" if "s \<in> set certs" for s
    using that f(1) keep_certs_subset[of "ss_Certifications ss"] keep_revocations_subset[of "ss_Revocations ss"] selfeq
    unfolding certs_def by fastforce
  have o: "subkey_other E key uid s \<and> s \<in> set (pub_Signatures uid)" if "s \<in> set others" for s
    using f(2)[OF that] selfeq by simp
  obtain b where u2: "uid2 = uid\<lparr>pub_Trusts := [], pub_IsRevoked := b\<rparr>" using f(3) by auto
  have ne: "certs \<noteq> []" and res: "pub_Signatures uid' = (if only then certs else certs @ others)"
    "Packet.truncate uid' = Packet.truncate uid" "pub_Version uid' = pub_Version uid" "pub_Trusts uid' = []"
    using assms si u2
    by (auto simp: subkey_Valid_def Let_def certs_def Packet.defs split: if_splits)
  then show "\<exists>s \<in> set (pub_Signatures uid'). subkey_self E key uid s"
    using c by (cases certs) auto
  show "s \<in> set (pub_Signatures uid') \<Longrightarrow> s \<in> set (pub_Signatures uid) \<and> (subkey_self E key uid s \<or> \<not> only \<and> subkey_other E key uid s)"
    using res(1) c o by (auto split: if_splits)
  show "Packet.truncate uid' = Packet.truncate uid" "pub_Version uid' = pub_Version uid" "pub_Trusts uid' = []"
    by (rule res)+
qed

section \<open>The direct signatures of a key\<close>

definition key_self :: "gocrypto \<Rightarrow> PrimaryKey \<Rightarrow> Signature \<Rightarrow> bool" where
  "key_self E key s \<longleftrightarrow> isSelfSig key s \<and> verifyPrimaryKeySelfSig E key s = Inr ()"

definition key_revocations :: "gocrypto \<Rightarrow> PrimaryKey \<Rightarrow> Signature list" where
  "key_revocations E key = filter (\<lambda>s. key_self E key s \<and> sf_SigType (sg s) = SigTypeKeyRevocation) (pub_Signatures key)"

definition valid_check :: "Signature \<Rightarrow> CheckSig" where
  "valid_check s = \<lparr>cs_Signature = s, cs_Error = None\<rparr>"

lemma key_SigInfo_fold:
  "ss_Revocations (fst (fold (key_sig_step E key) sigs s)) = ss_Revocations (fst s)
     @ map valid_check (filter (\<lambda>s. key_self E key s \<and> sf_SigType (sg s) = SigTypeKeyRevocation) sigs)"
  "ss_Certifications (fst (fold (key_sig_step E key) sigs s)) = ss_Certifications (fst s)
     @ map valid_check (filter (\<lambda>s. key_self E key s \<and> sf_SigType (sg s) = SigTypeDirectSignature) sigs)"
  by (induction sigs arbitrary: s)
    (auto simp: key_sig_step_def key_self_def valid_check_def Let_def split: sum.splits prod.splits)

lemma key_SigInfo_sets:
  assumes "key_SigInfo E key = (ss, others)"
  shows "set (ss_Revocations ss) = valid_check ` set (key_revocations E key)"
    "set (ss_Certifications ss) \<subseteq> valid_check ` {s \<in> set (pub_Signatures key). key_self E key s}"
proof -
  obtain ss0 where ss0: "fold (key_sig_step E key) (pub_Signatures key) (emptySelfSigs, []) = (ss0, others)" "ss = ss_resolve ss0"
    using assms by (auto simp: key_SigInfo_def split: prod.splits)
  with key_SigInfo_fold[of E key "pub_Signatures key" "(emptySelfSigs, [])"]
  show "set (ss_Revocations ss) = valid_check ` set (key_revocations E key)"
    "set (ss_Certifications ss) \<subseteq> valid_check ` {s \<in> set (pub_Signatures key). key_self E key s}"
    by (auto simp: key_revocations_def ss_resolve_def emptySelfSigs_def)
qed

lemma keep_revocations_valid: "(\<And>c. c \<in> set cs \<Longrightarrow> cs_Error c = None) \<Longrightarrow> set (keep_revocations cs) = cs_Signature ` set cs"
  by (auto simp: keep_revocations_def)

lemma kept_revocations:
  assumes "key_SigInfo E key = (ss, others)"
  shows "set (keep_revocations (ss_Revocations ss)) = set (key_revocations E key)"
proof -
  note s = key_SigInfo_sets(1)[OF assms]
  have "set (keep_revocations (ss_Revocations ss)) = cs_Signature ` set (ss_Revocations ss)"
    by (rule keep_revocations_valid) (auto simp: s valid_check_def)
  with s show ?thesis by (auto simp: valid_check_def image_image)
qed

lemma kept_certs_self:
  assumes "key_SigInfo E key = (ss, others)" "s \<in> set (keep_certs (ss_Certifications ss))"
  shows "key_self E key s"
proof -
  obtain c where "c \<in> set (ss_Certifications ss)" "s = cs_Signature c"
    using keep_certs_subset[of "ss_Certifications ss"] assms(2) by blast
  with key_SigInfo_sets(2)[OF assms(1)] show ?thesis by (auto simp: valid_check_def)
qed

section \<open>The steps of \<open>ValidSelfSigned\<close>\<close>

text \<open>\<open>ExpiresAt\<close> changes no more than the revocation flags of the user IDs.\<close>

lemma primary_uid_fold:
  "snd (fold (primary_uid_step E key lone) uids (s, vs)) = vs @ map (\<lambda>u. snd (snd (uid_SigInfo E key u))) uids"
  by (induction uids arbitrary: s vs) (auto simp: primary_uid_step_def split: prod.splits list.splits option.splits)

lemma key_ExpiresAt_key:
  assumes "key_ExpiresAt E key ss = (r, key')"
  shows "key' = key \<or> key' = key\<lparr>pk_UserIDs := map (\<lambda>u. snd (snd (uid_SigInfo E key u))) (pk_UserIDs key)\<rparr>"
proof -
  have "snd (PrimaryUserIDSig E key) = key\<lparr>pk_UserIDs := map (\<lambda>u. snd (snd (uid_SigInfo E key u))) (pk_UserIDs key)\<rparr>"
    using primary_uid_fold[of E key "length (pk_UserIDs key) = 1" "pk_UserIDs key" None "[]"]
    by (auto simp: PrimaryUserIDSig_def split: prod.splits)
  with assms show ?thesis
    by (auto simp: key_ExpiresAt_def split: option.splits prod.splits if_splits)
qed

definition flags_only :: "UserID \<Rightarrow> UserID \<Rightarrow> bool" where
  "flags_only u v \<longleftrightarrow> (\<exists>b. v = u\<lparr>uid_IsRevoked := b\<rparr>)"

lemma key_ExpiresAt_uids:
  assumes "key_ExpiresAt E key ss = (r, key')"
  shows "list_all2 flags_only (pk_UserIDs key) (pk_UserIDs key')"
proof -
  have "flags_only u (snd (snd (uid_SigInfo E key u)))" for u
    using uid_SigInfo_facts(3) unfolding flags_only_def by (metis prod.collapse)
  moreover have "flags_only u u" for u unfolding flags_only_def by (rule exI[of _ "uid_IsRevoked u"]) simp
  ultimately show ?thesis
    using key_ExpiresAt_key[OF assms] by (auto simp: list_all2_conv_all_nth)
qed

definition kept_uids :: "gocrypto \<Rightarrow> PrimaryKey \<Rightarrow> bool \<Rightarrow> UserID list" where
  "kept_uids E key only = map snd (filter fst (map (uid_Valid E key only) (pk_UserIDs key)))"

definition kept_subkeys :: "gocrypto \<Rightarrow> PrimaryKey \<Rightarrow> bool \<Rightarrow> SubKey list" where
  "kept_subkeys E key only = map snd (filter fst (map (subkey_Valid E key only) (pk_SubKeys key)))"

lemma updateMD5_result:
  assumes "updateMD5 E key = Inr key'"
  shows "\<exists>m t n. key' = key\<lparr>pk_MD5 := m, pk_TrustMD5 := t, pk_Length := n\<rparr>"
  using assms by (auto simp: updateMD5_def elim!: rbind_InrE)

text \<open>The result of \<open>ValidSelfSigned\<close>, taken apart.\<close>

lemma ValidSelfSigned_cases:
  assumes "ValidSelfSigned E policy next key only = Inr key'"
  obtains ss others certs only' key2 ruids key3 redacted key5 where
    "key_SigInfo E key = (ss, others)"
    "certs = keep_revocations (ss_Revocations ss) @ keep_certs (ss_Certifications ss)"
    "only' \<longleftrightarrow> only \<or> (\<exists>r \<in> set (key_revocations E key). isHard r)"
    "key2 = key\<lparr>pub_IsRevoked := pub_IsRevoked key \<or> key_revocations E key \<noteq> [],
       pub_Signatures := (if only' then certs else certs @ others)\<rparr>"
    "key3 = key2\<lparr>pub_Trusts := pub_Trusts key @ ruids,
       pk_UserIDs := (if \<exists>r \<in> set (key_revocations E key). isHard r then [] else kept_uids E key2 only'),
       pk_SubKeys := kept_subkeys E key2 only'\<rparr>"
    "\<not> (pk_SubKeys key3 = [] \<and> pk_UserIDs key3 = [] \<and> certs = [])"
    "redacted = keep_redacted E policy {} (ct_RedactedUserIDs (fst (key_TrustInfo E key3)))"
    "pub_Signatures key' = pub_Signatures key2" "pub_IsRevoked key' = pub_IsRevoked key2"
    "pk_SubKeys key' = pk_SubKeys key3" "list_all2 flags_only (pk_UserIDs key3) (pk_UserIDs key')"
    "pub_Trusts key' = map fst redacted" "pk_RedactedUserIDs key' = map snd redacted"
    "p_Data key' = p_Data key" "p_UUID key' = p_UUID key"
proof -
  obtain ss others where si: "key_SigInfo E key = (ss, others)" by (cases "key_SigInfo E key")
  define revs where "revs = keep_revocations (ss_Revocations ss)"
  define certs where "certs = revs @ keep_certs (ss_Certifications ss)"
  note kr = kept_revocations[OF si, folded revs_def]
  have hard: "list_ex isHard revs \<longleftrightarrow> (\<exists>r \<in> set (key_revocations E key). isHard r)" by (simp add: list_ex_iff kr)
  have rn: "revs \<noteq> [] \<longleftrightarrow> key_revocations E key \<noteq> []" using kr by (metis set_empty)
  define only' where "only' \<longleftrightarrow> only \<or> list_ex isHard revs"
  define key2 where "key2 = (if revs \<noteq> [] then key\<lparr>pub_IsRevoked := True\<rparr> else key)
    \<lparr>pub_Signatures := (if only' then certs else certs @ others)\<rparr>"
  have key2: "key2 = key\<lparr>pub_IsRevoked := pub_IsRevoked key \<or> key_revocations E key \<noteq> [],
       pub_Signatures := (if only' then certs else certs @ others)\<rparr>"
    using rn by (auto simp: key2_def)
  from assms obtain ruids where ruids: "(if list_ex isHard revs then redact_uids E policy next (pk_UserIDs key2) else Inr []) = Inr ruids"
    unfolding ValidSelfSigned_def ValidSelfSigned_with_def si prod.case Let_def revs_def[symmetric] certs_def[symmetric] only'_def[symmetric]
        key2_def[symmetric] by (rule rbind_InrE)
  define key3 where "key3 = key2\<lparr>pub_Trusts := pub_Trusts key2 @ ruids,
       pk_UserIDs := (if list_ex isHard revs then [] else kept_uids E key2 only'),
       pk_SubKeys := kept_subkeys E key2 only'\<rparr>"
  define redacted where "redacted = keep_redacted E policy {} (ct_RedactedUserIDs (fst (key_TrustInfo E key3)))"
  define key4 where "key4 = key3\<lparr>pub_Trusts := map fst redacted, pk_RedactedUserIDs := map snd redacted\<rparr>"
  obtain ex b key5 where key5: "key_ExpiresAt E key4 ss = ((ex, b), key5)" by (metis prod.collapse)
  have res: "ValidSelfSigned E policy next key only = (if pk_SubKeys key3 = [] \<and> pk_UserIDs key3 = [] \<and> certs = []
      then Inl (Err ErrKeyEvaporated) else updateMD5 E (key5\<lparr>pub_Expiration := ex\<rparr>))"
    unfolding ValidSelfSigned_def ValidSelfSigned_with_def si prod.case Let_def revs_def[symmetric] certs_def[symmetric] only'_def[symmetric]
        key2_def[symmetric] ruids rbind_simps kept_uids_def[symmetric] kept_subkeys_def[symmetric] key3_def[symmetric]
        case_prod_beta redacted_def[symmetric] key4_def[symmetric] key5 fst_conv snd_conv
    by (simp add: key3_def)
  with assms have ne: "\<not> (pk_SubKeys key3 = [] \<and> pk_UserIDs key3 = [] \<and> certs = [])"
    and up: "updateMD5 E (key5\<lparr>pub_Expiration := ex\<rparr>) = Inr key'" by (auto split: if_splits)
  obtain m t n where key': "key' = key5\<lparr>pub_Expiration := ex, pk_MD5 := m, pk_TrustMD5 := t, pk_Length := n\<rparr>"
    using updateMD5_result[OF up] by auto
  have k5: "key5 = key4 \<or> key5 = key4\<lparr>pk_UserIDs := map (\<lambda>u. snd (snd (uid_SigInfo E key4 u))) (pk_UserIDs key4)\<rparr>"
    by (rule key_ExpiresAt_key[OF key5])
  have u5: "list_all2 flags_only (pk_UserIDs key4) (pk_UserIDs key5)" by (rule key_ExpiresAt_uids[OF key5])
  show thesis
  proof (rule that[OF si, of certs only' key2 key3 ruids redacted])
    show "certs = keep_revocations (ss_Revocations ss) @ keep_certs (ss_Certifications ss)" by (simp add: certs_def revs_def)
    show "only' \<longleftrightarrow> only \<or> (\<exists>r \<in> set (key_revocations E key). isHard r)" by (simp add: only'_def hard)
    show "key2 = key\<lparr>pub_IsRevoked := pub_IsRevoked key \<or> key_revocations E key \<noteq> [],
       pub_Signatures := (if only' then certs else certs @ others)\<rparr>" by (rule key2)
    show "key3 = key2\<lparr>pub_Trusts := pub_Trusts key @ ruids,
       pk_UserIDs := (if \<exists>r \<in> set (key_revocations E key). isHard r then [] else kept_uids E key2 only'),
       pk_SubKeys := kept_subkeys E key2 only'\<rparr>" by (simp add: key3_def hard) (simp add: key2)
    show "\<not> (pk_SubKeys key3 = [] \<and> pk_UserIDs key3 = [] \<and> certs = [])" by (rule ne)
    show "redacted = keep_redacted E policy {} (ct_RedactedUserIDs (fst (key_TrustInfo E key3)))" by (rule redacted_def)
  qed (use k5 u5 in \<open>auto simp: key' key4_def key3_def key2\<close>)
qed

section \<open>What validation guarantees\<close>

lemma kept_uids_facts:
  assumes "u' \<in> set (kept_uids E key only)"
  obtains u where "u \<in> set (pk_UserIDs key)" "uid_Valid E key only u = (True, u')"
proof -
  from assms obtain r where "r \<in> set (map (uid_Valid E key only) (pk_UserIDs key))" "fst r" "u' = snd r"
    unfolding kept_uids_def by auto
  then obtain u where "u \<in> set (pk_UserIDs key)" "uid_Valid E key only u = r" by auto
  with \<open>fst r\<close> \<open>u' = snd r\<close> show thesis by (intro that) (auto simp: prod_eq_iff)
qed

lemma kept_subkeys_facts:
  assumes "u' \<in> set (kept_subkeys E key only)"
  obtains u where "u \<in> set (pk_SubKeys key)" "subkey_Valid E key only u = (True, u')"
proof -
  from assms obtain r where "r \<in> set (map (subkey_Valid E key only) (pk_SubKeys key))" "fst r" "u' = snd r"
    unfolding kept_subkeys_def by auto
  then obtain u where "u \<in> set (pk_SubKeys key)" "subkey_Valid E key only u = r" by auto
  with \<open>fst r\<close> \<open>u' = snd r\<close> show thesis by (intro that) (auto simp: prod_eq_iff)
qed

lemma valid_key_same:
  assumes "p_Data k = p_Data k'" "pub_Version k = pub_Version k'" "pub_KeyID k = pub_KeyID k'" "pub_Fingerprint k = pub_Fingerprint k'"
  shows "uid_self E k = uid_self E k'" "uid_other E k = uid_other E k'" "subkey_self E k = subkey_self E k'"
    "subkey_other E k = subkey_other E k'"
  using key_checks_data[OF assms(1,2)] isSelfSig_data[OF assms(3,4)]
  by (simp_all add: fun_eq_iff uid_self_def uid_other_def subkey_self_def subkey_other_def)

definition hard_revoked :: "gocrypto \<Rightarrow> PrimaryKey \<Rightarrow> bool" where
  "hard_revoked E key \<longleftrightarrow> (\<exists>s \<in> set (pub_Signatures key). key_self E key s
     \<and> sf_SigType (sg s) = SigTypeKeyRevocation \<and> isHard s)"

lemma hard_revoked_iff: "hard_revoked E key \<longleftrightarrow> (\<exists>r \<in> set (key_revocations E key). isHard r)"
  by (auto simp: hard_revoked_def key_revocations_def)

lemma uid_self_data: "p_Data u = p_Data v \<Longrightarrow> uid_self E key u = uid_self E key v \<and> uid_other E key u = uid_other E key v"
  using uid_checks_data[of u v] by (simp add: fun_eq_iff uid_self_def uid_other_def)

lemma subkey_self_data:
  "p_Data u = p_Data v \<Longrightarrow> pub_Version u = pub_Version v \<Longrightarrow>
    subkey_self E key u = subkey_self E key v \<and> subkey_other E key u = subkey_other E key v"
  using subkey_checks_data[of u v] by (simp add: fun_eq_iff subkey_self_def subkey_other_def)

lemma truncate_fields: "Packet.truncate u = Packet.truncate v \<Longrightarrow> p_Data u = p_Data v \<and> p_UUID u = p_UUID v"
  by (simp add: Packet.defs)

lemma ValidSelfSigned_uids:
  assumes "ValidSelfSigned E policy next key only = Inr key'" "u' \<in> set (pk_UserIDs key')"
  shows "\<not> hard_revoked E key"
    and "\<exists>s \<in> set (uid_Signatures u'). uid_self E key u' s"
    and "\<forall>s \<in> set (uid_Signatures u'). uid_self E key u' s \<or> \<not> only \<and> uid_other E key u' s"
    and "\<exists>u \<in> set (pk_UserIDs key). p_UUID u = p_UUID u' \<and> uid_Keywords u = uid_Keywords u' \<and> set (uid_Signatures u') \<subseteq> set (uid_Signatures u)"
proof -
  from assms(1) obtain ss others certs only' key2 key3 ruids redacted where c:
    "only' \<longleftrightarrow> only \<or> (\<exists>r \<in> set (key_revocations E key). isHard r)"
    "key2 = key\<lparr>pub_IsRevoked := pub_IsRevoked key \<or> key_revocations E key \<noteq> [],
       pub_Signatures := (if only' then certs else certs @ others)\<rparr>"
    "key3 = key2\<lparr>pub_Trusts := pub_Trusts key @ ruids,
       pk_UserIDs := (if \<exists>r \<in> set (key_revocations E key). isHard r then [] else kept_uids E key2 only'),
       pk_SubKeys := kept_subkeys E key2 only'\<rparr>"
    "list_all2 flags_only (pk_UserIDs key3) (pk_UserIDs key')"
    by (rule ValidSelfSigned_cases)
  from c(4) assms(2) obtain v b where v: "v \<in> set (pk_UserIDs key3)" "u' = v\<lparr>uid_IsRevoked := b\<rparr>"
    unfolding list_all2_conv_all_nth in_set_conv_nth flags_only_def by metis
  with c(3) show nh: "\<not> hard_revoked E key" by (auto simp: hard_revoked_iff split: if_splits)
  then have oo: "only' = only" using c(1) by (simp add: hard_revoked_iff)
  from v(1) c(3) have "v \<in> set (kept_uids E key2 only)" by (auto simp: oo split: if_splits)
  then obtain u where u: "u \<in> set (pk_UserIDs key2)" "uid_Valid E key2 only u = (True, v)" by (rule kept_uids_facts)
  note f = uid_Valid_facts[OF u(2)]
  have same: "uid_self E key2 u = uid_self E key u'" "uid_other E key2 u = uid_other E key u'"
    using valid_key_same[of key2 key E] c(2) uid_self_data[of u u' E key] truncate_fields[OF f(3)] v(2) by auto
  show "\<exists>s \<in> set (uid_Signatures u'). uid_self E key u' s" using f(1) v(2) same by simp
  show "\<forall>s \<in> set (uid_Signatures u'). uid_self E key u' s \<or> \<not> only \<and> uid_other E key u' s"
    using f(2) v(2) same by simp
  show "\<exists>u \<in> set (pk_UserIDs key). p_UUID u = p_UUID u' \<and> uid_Keywords u = uid_Keywords u' \<and> set (uid_Signatures u') \<subseteq> set (uid_Signatures u)"
    using u(1) c(2) f(2,4) truncate_fields[OF f(3)] v(2) by (intro bexI[of _ u]) auto
qed

lemma ValidSelfSigned_subkeys:
  assumes "ValidSelfSigned E policy next key only = Inr key'" "u' \<in> set (pk_SubKeys key')"
  shows "\<exists>s \<in> set (pub_Signatures u'). subkey_self E key u' s"
    and "\<forall>s \<in> set (pub_Signatures u'). subkey_self E key u' s \<or> \<not> only \<and> \<not> hard_revoked E key \<and> subkey_other E key u' s"
    and "\<exists>u \<in> set (pk_SubKeys key). p_UUID u = p_UUID u' \<and> set (pub_Signatures u') \<subseteq> set (pub_Signatures u)"
proof -
  from assms(1) obtain ss others certs only' key2 key3 ruids redacted where c:
    "only' \<longleftrightarrow> only \<or> (\<exists>r \<in> set (key_revocations E key). isHard r)"
    "key2 = key\<lparr>pub_IsRevoked := pub_IsRevoked key \<or> key_revocations E key \<noteq> [],
       pub_Signatures := (if only' then certs else certs @ others)\<rparr>"
    "key3 = key2\<lparr>pub_Trusts := pub_Trusts key @ ruids,
       pk_UserIDs := (if \<exists>r \<in> set (key_revocations E key). isHard r then [] else kept_uids E key2 only'),
       pk_SubKeys := kept_subkeys E key2 only'\<rparr>"
    "pk_SubKeys key' = pk_SubKeys key3"
    by (rule ValidSelfSigned_cases)
  from c(3,4) assms(2) have "u' \<in> set (kept_subkeys E key2 only')" by simp
  then obtain u where u: "u \<in> set (pk_SubKeys key2)" "subkey_Valid E key2 only' u = (True, u')" by (rule kept_subkeys_facts)
  note f = subkey_Valid_facts[OF u(2)]
  have same: "subkey_self E key2 u = subkey_self E key u'" "subkey_other E key2 u = subkey_other E key u'"
    using valid_key_same[of key2 key E] c(2) subkey_self_data[of u u' E key] truncate_fields[OF f(3)] f(4) by auto
  show "\<exists>s \<in> set (pub_Signatures u'). subkey_self E key u' s" using f(1) same by simp
  show "\<forall>s \<in> set (pub_Signatures u'). subkey_self E key u' s \<or> \<not> only \<and> \<not> hard_revoked E key \<and> subkey_other E key u' s"
    using f(2) same c(1) by (auto simp: hard_revoked_iff)
  show "\<exists>u \<in> set (pk_SubKeys key). p_UUID u = p_UUID u' \<and> set (pub_Signatures u') \<subseteq> set (pub_Signatures u)"
    using u(1) c(2) f(2) truncate_fields[OF f(3)] by (intro bexI[of _ u]) auto
qed

section \<open>Redaction\<close>

lemma keep_redacted_facts:
  "distinct (map (\<lambda>r. uid_Keywords (snd r)) (keep_redacted E policy seen cts))"
  "r \<in> set (keep_redacted E policy seen cts) \<Longrightarrow> uid_Keywords (snd r) \<notin> seen \<and> IsPersistable E policy (snd r)
     \<and> (\<exists>ct \<in> set cts. ct_Trust ct = fst r \<and> ct_UserID ct = Some (snd r) \<and> ct_Error ct = None)"
proof -
  have b: "r \<in> set (keep_redacted E policy seen cts) \<Longrightarrow> uid_Keywords (snd r) \<notin> seen \<and> IsPersistable E policy (snd r)
     \<and> (\<exists>ct \<in> set cts. ct_Trust ct = fst r \<and> ct_UserID ct = Some (snd r) \<and> ct_Error ct = None)" for r seen
  proof (induction cts arbitrary: seen)
    case (Cons ct cts)
    show ?case
    proof (cases "r \<in> set (keep_redacted E policy seen cts)")
      case True
      with Cons.IH show ?thesis by auto
    next
      case False
      with Cons.prems obtain uid where u: "ct_UserID ct = Some uid"
        "\<not> (ct_Error ct \<noteq> None \<or> \<not> IsPersistable E policy uid \<or> uid_Keywords uid \<in> seen)"
        "r = (ct_Trust ct, uid) \<or> r \<in> set (keep_redacted E policy (insert (uid_Keywords uid) seen) cts)"
        by (auto split: option.splits if_splits)
      with Cons.IH[of "insert (uid_Keywords uid) seen"] show ?thesis by auto
    qed
  qed simp
  then show "r \<in> set (keep_redacted E policy seen cts) \<Longrightarrow> uid_Keywords (snd r) \<notin> seen \<and> IsPersistable E policy (snd r)
     \<and> (\<exists>ct \<in> set cts. ct_Trust ct = fst r \<and> ct_UserID ct = Some (snd r) \<and> ct_Error ct = None)" .
  show "distinct (map (\<lambda>r. uid_Keywords (snd r)) (keep_redacted E policy seen cts))"
  proof (induction cts arbitrary: seen)
    case (Cons ct cts)
    show ?case
    proof (cases "ct_UserID ct")
      case None
      with Cons show ?thesis by simp
    next
      case (Some uid)
      have "uid_Keywords uid \<notin> (\<lambda>r. uid_Keywords (snd r)) ` set (keep_redacted E policy (insert (uid_Keywords uid) seen) cts)"
        for cts
      proof (induction cts arbitrary: seen)
        case (Cons c cs)
        have "uid_Keywords uid \<notin> (\<lambda>r. uid_Keywords (snd r)) ` set (keep_redacted E policy (insert (uid_Keywords uid) (insert k seen)) cs)" for k
          by (rule Cons.IH)
        with Cons.IH show ?case by (auto split: option.split simp: insert_commute)
      qed simp
      with Cons.IH show ?thesis by (simp add: Some)
    qed
  qed simp
qed

lemma key_trust_fold:
  "ct \<in> set (ct_RedactedUserIDs (fst (fold (key_trust_step E key) ts s))) \<Longrightarrow>
     ct \<in> set (ct_RedactedUserIDs (fst s)) \<or> (\<exists>t \<in> set ts. ct_Trust ct = t \<and> plausifyTrust E key t = Inr ()
       \<and> (\<exists>nt uid kw. TrustTypeNotation t = Some nt \<and> nt_Name nt = trustTypeRedactedUserID \<and> CleanUtf8 (nt_Value nt) = Inr kw
           \<and> ct_UserID ct = Some uid \<and> uid_Valid E key False (redacted_uid E t kw) = (True, uid)))"
proof (induction ts arbitrary: s)
  case (Cons t ts)
  define s' where "s' = key_trust_step E key t s"
  have "ct \<in> set (ct_RedactedUserIDs (fst s')) \<Longrightarrow> ct \<in> set (ct_RedactedUserIDs (fst s)) \<or> (ct_Trust ct = t \<and> plausifyTrust E key t = Inr ()
       \<and> (\<exists>nt uid kw. TrustTypeNotation t = Some nt \<and> nt_Name nt = trustTypeRedactedUserID \<and> CleanUtf8 (nt_Value nt) = Inr kw
           \<and> ct_UserID ct = Some uid \<and> uid_Valid E key False (redacted_uid E t kw) = (True, uid)))"
    by (auto simp: s'_def key_trust_step_def Let_def trust_error_def split: prod.splits sum.splits option.splits if_splits bool.splits)
  with Cons.IH[of s'] Cons.prems show ?case by (auto simp: s'_def)
qed simp

lemma redacted_self_signed:
  assumes "ct \<in> set (ct_RedactedUserIDs (fst (key_TrustInfo E key)))"
  shows "ct_Trust ct \<in> set (pub_Trusts key)"
    "\<exists>uid. ct_UserID ct = Some uid \<and> (\<exists>s \<in> set (uid_Signatures uid). s \<in> set (tr_Signatures (ct_Trust ct)) \<and> uid_self E key uid s)"
proof -
  from key_trust_fold[OF assms[unfolded key_TrustInfo_def]] obtain t uid kw where
    t: "t \<in> set (pub_Trusts key)" "ct_Trust ct = t" "ct_UserID ct = Some uid"
      "uid_Valid E key False (redacted_uid E t kw) = (True, uid)" by auto
  note f = uid_Valid_facts[OF t(4)]
  from f(1) obtain s where s: "s \<in> set (uid_Signatures uid)" "uid_self E key (redacted_uid E t kw) s" by blast
  from f(2)[OF s(1)] have "s \<in> set (tr_Signatures t)" by (simp add: redacted_uid_def Let_def)
  moreover have "uid_self E key uid = uid_self E key (redacted_uid E t kw)"
    using uid_self_data truncate_fields[OF f(3)] by blast
  ultimately show "ct_Trust ct \<in> set (pub_Trusts key)"
    "\<exists>uid. ct_UserID ct = Some uid \<and> (\<exists>s \<in> set (uid_Signatures uid). s \<in> set (tr_Signatures (ct_Trust ct)) \<and> uid_self E key uid s)"
    using t s by auto
qed

lemma ValidSelfSigned_redacted:
  assumes "ValidSelfSigned E policy next key only = Inr key'"
  shows "distinct (map uid_Keywords (pk_RedactedUserIDs key'))" "length (pub_Trusts key') = length (pk_RedactedUserIDs key')"
    and "u \<in> set (pk_RedactedUserIDs key') \<Longrightarrow> IsPersistable E policy u \<and> (\<exists>s \<in> set (uid_Signatures u). uid_self E key u s)"
proof -
  from assms obtain key2 key3 certs others only' ruids redacted where c:
    "key2 = key\<lparr>pub_IsRevoked := pub_IsRevoked key \<or> key_revocations E key \<noteq> [],
       pub_Signatures := (if only' then certs else certs @ others)\<rparr>"
    "key3 = key2\<lparr>pub_Trusts := pub_Trusts key @ ruids,
       pk_UserIDs := (if \<exists>r \<in> set (key_revocations E key). isHard r then [] else kept_uids E key2 only'),
       pk_SubKeys := kept_subkeys E key2 only'\<rparr>"
    "redacted = keep_redacted E policy {} (ct_RedactedUserIDs (fst (key_TrustInfo E key3)))"
    "pub_Trusts key' = map fst redacted" "pk_RedactedUserIDs key' = map snd redacted"
    by (rule ValidSelfSigned_cases)
  note k = keep_redacted_facts[where E = E and policy = policy and seen = "{}" and cts = "ct_RedactedUserIDs (fst (key_TrustInfo E key3))", folded c(3)]
  show "distinct (map uid_Keywords (pk_RedactedUserIDs key'))" using k(1) c(5) by (simp add: comp_def)
  show "length (pub_Trusts key') = length (pk_RedactedUserIDs key')" using c(4,5) by simp
  assume "u \<in> set (pk_RedactedUserIDs key')"
  then obtain r where r: "r \<in> set redacted" "u = snd r" using c(5) by auto
  from k(2)[OF r(1)] obtain ct where ct: "ct \<in> set (ct_RedactedUserIDs (fst (key_TrustInfo E key3)))" "ct_UserID ct = Some u"
    "IsPersistable E policy u" using r(2) by auto
  moreover have "uid_self E key3 = uid_self E key" by (rule valid_key_same(1)) (simp_all add: c)
  ultimately show "IsPersistable E policy u \<and> (\<exists>s \<in> set (uid_Signatures u). uid_self E key u s)"
    using redacted_self_signed(2)[OF ct(1)] by auto
qed

text \<open>A bare user ID cannot be redacted: there is no signature to embed.\<close>

lemma NewRedactedUserID_fails:
  "NewRedactedUserID n uid = Inl e \<Longrightarrow> \<exists>p. e = Panic p"
proof -
  have "serializeSubpackets to sps = Inl e' \<Longrightarrow> \<exists>p. e' = Panic p" for to sps e'
    by (induction to sps rule: serializeSubpackets.induct) (auto simp: Let_def rbind_def split: if_splits sum.splits)
  moreover have "rmap f xs = Inl e' \<Longrightarrow> (\<And>x e'. f x = Inl e' \<Longrightarrow> \<exists>p. e' = Panic p) \<Longrightarrow> \<exists>p. e' = Panic p"
    for f :: "Signature \<Rightarrow> outputSubpacket res" and xs e'
    by (induction xs) (auto simp: rbind_def split: sum.splits)
  moreover have "\<exists>p. e'' = Panic p"
    if "(case opaquePacket (sg s) of Inl _ \<Rightarrow> Inl (Panic PNil)
      | Inr op \<Rightarrow> Inr \<lparr>os_type = 32, os_isCritical = False, os_contents = op_Contents op\<rparr>) = Inl e''" for s e''
    using that by (auto split: sum.splits)
  ultimately show "NewRedactedUserID n uid = Inl e \<Longrightarrow> \<exists>p. e = Panic p"
    by (auto simp: NewRedactedUserID_def UpdatePacket_def trust_subpackets_def nth_res_def Let_def rbind_def
        split: sum.splits if_splits)
qed

lemma redact_bare_uid:
  assumes "u \<in> set uids" "IsPersistable E policy u" "uid_Signatures u = []"
  shows "\<exists>p. redact_uids E policy n uids = Inl (Panic p)"
  using assms(1)
proof (induction uids arbitrary: n)
  case (Cons v uids)
  show ?case
  proof (cases "IsPersistable E policy v")
    case False
    with Cons assms(2) show ?thesis by auto
  next
    case True
    show ?thesis
    proof (cases "NewRedactedUserID n v")
      case (Inl e)
      with NewRedactedUserID_fails[OF Inl] True show ?thesis by auto
    next
      case (Inr t)
      with assms(3) have "v \<noteq> u" by (auto simp: NewRedactedUserID_def nth_res_def)
      with Cons have "\<exists>p. redact_uids E policy (Suc n) uids = Inl (Panic p)" by auto
      with True Inr show ?thesis by auto
    qed
  qed
qed simp

lemma ValidSelfSigned_bare:
  assumes "hard_revoked E key" "u \<in> set (pk_UserIDs key)" "IsPersistable E policy u" "uid_Signatures u = []"
  shows "\<exists>p. ValidSelfSigned E policy n key only = Inl (Panic p)"
proof -
  obtain ss others where si: "key_SigInfo E key = (ss, others)" by (cases "key_SigInfo E key")
  have hard: "list_ex isHard (keep_revocations (ss_Revocations ss))"
    using assms(1) kept_revocations[OF si] by (simp add: list_ex_iff hard_revoked_iff)
  show ?thesis
    using redact_bare_uid[OF assms(2-4), of n] hard
    by (auto simp: ValidSelfSigned_def ValidSelfSigned_with_def si Let_def)
qed

lemma ValidSelfSigned_revoked:
  assumes "ValidSelfSigned E policy next key only = Inr key'" "hard_revoked E key"
  shows "pk_UserIDs key' = []" "pub_IsRevoked key'" "s \<in> set (pub_Signatures key') \<Longrightarrow> key_self E key s"
proof -
  from assms(1) obtain ss others certs only' key2 key3 ruids where c:
    "key_SigInfo E key = (ss, others)"
    "certs = keep_revocations (ss_Revocations ss) @ keep_certs (ss_Certifications ss)"
    "only' \<longleftrightarrow> only \<or> (\<exists>r \<in> set (key_revocations E key). isHard r)"
    "key2 = key\<lparr>pub_IsRevoked := pub_IsRevoked key \<or> key_revocations E key \<noteq> [],
       pub_Signatures := (if only' then certs else certs @ others)\<rparr>"
    "key3 = key2\<lparr>pub_Trusts := pub_Trusts key @ ruids,
       pk_UserIDs := (if \<exists>r \<in> set (key_revocations E key). isHard r then [] else kept_uids E key2 only'),
       pk_SubKeys := kept_subkeys E key2 only'\<rparr>"
    "pub_Signatures key' = pub_Signatures key2" "pub_IsRevoked key' = pub_IsRevoked key2"
    "list_all2 flags_only (pk_UserIDs key3) (pk_UserIDs key')"
    by (rule ValidSelfSigned_cases)
  have h: "\<exists>r \<in> set (key_revocations E key). isHard r" using assms(2) by (simp add: hard_revoked_iff)
  show "pk_UserIDs key' = []" using c(5,8) h by simp
  have "key_revocations E key \<noteq> []" using h by auto
  then show "pub_IsRevoked key'" using c(4,7) by simp
  have only': "only'" using c(3) h by simp
  assume "s \<in> set (pub_Signatures key')"
  with c(2,4,6) only' have "s \<in> set (keep_revocations (ss_Revocations ss)) \<or> s \<in> set (keep_certs (ss_Certifications ss))" by auto
  then show "key_self E key s"
    using kept_revocations[OF c(1)] kept_certs_self[OF c(1)] by (auto simp: key_revocations_def)
qed

section \<open>The digests stored in a key\<close>

lemma SksDigest_data:
  assumes "map (\<lambda>n. p_Data (node_packet n)) (key_contents k) = map (\<lambda>n. p_Data (node_packet n)) (key_contents k')"
  shows "SksDigest E k = SksDigest E k'"
  by (simp add: SksDigest_alt assms)

lemma updateMD5_digest:
  assumes "updateMD5 E key = Inr key'"
  shows "SksDigest E key' = Inr (pk_MD5 key', pk_TrustMD5 key')"
proof -
  from assms obtain d td n where d: "SksDigest E key = Inr (d, td)"
    "key' = key\<lparr>pk_MD5 := d, pk_TrustMD5 := td, pk_Length := n\<rparr>"
    by (auto simp: updateMD5_def elim!: rbind_InrE)
  have "SksDigest E key' = SksDigest E key"
    by (rule SksDigest_data) (simp add: d(2) key_contents_def node_packet_def Packet.defs)
  with d show ?thesis by simp
qed

lemma ValidSelfSigned_digest:
  assumes "ValidSelfSigned E policy next key only = Inr key'"
  shows "SksDigest E key' = Inr (pk_MD5 key', pk_TrustMD5 key')"
  using assms unfolding ValidSelfSigned_def ValidSelfSigned_with_def
  by (auto simp: Let_def elim!: rbind_InrE split: prod.splits if_splits intro: updateMD5_digest)

end
