(* ===== verification/KeyIOSpec.thy ===== *)
theory KeyIOSpec
  imports ValidSpec
begin

text \<open>
  Reading certificates: the limits a reader enforces, and that a written stream is split into
  the certificates it was written from.
\<close>

section \<open>Limits\<close>

definition body_lengths :: "OpaquePacket list \<Rightarrow> int" where
  "body_lengths c = sum_list (map (\<lambda>op. int (length (op_Contents op))) c)"

definition packet_within :: "keyReader \<Rightarrow> OpaquePacket \<Rightarrow> bool" where
  "packet_within r op = (let max = (if op_Tag op = 2 then kr_maxSigPacketLen r else kr_maxPacketLen r) in
     0 < max \<longrightarrow> int (length (op_Contents op)) \<le> max)"

definition cert_head :: "gocrypto \<Rightarrow> keyReader \<Rightarrow> OpaquePacket \<Rightarrow> bool" where
  "cert_head E r op = (op_Tag op = 2 \<or> op_Tag op = 6 \<and> (\<exists>key. ParsePrimaryKey E 0 op = Inr key \<and> pub_Fingerprint key \<notin> kr_blacklist r))"

definition cert_within :: "gocrypto \<Rightarrow> keyReader \<Rightarrow> OpaquePacket list \<Rightarrow> bool" where
  "cert_within E r c \<longleftrightarrow> c \<noteq> [] \<and> cert_head E r (hd c) \<and> (\<forall>op \<in> set (tl c). op_Tag op \<noteq> 6)
     \<and> (\<forall>op \<in> set c. packet_within r op) \<and> (0 < kr_maxKeyLen r \<longrightarrow> body_lengths c \<le> kr_maxKeyLen r)"

definition read_inv :: "gocrypto \<Rightarrow> keyReader \<Rightarrow> readState \<Rightarrow> bool" where
  "read_inv E r st \<longleftrightarrow> (\<forall>c \<in> set (rd_result st). cert_within E r c)
     \<and> (\<forall>c. rd_current st = Some c \<longrightarrow> cert_within E r c \<and> rd_currentKeyLen st = body_lengths c)"

lemma rd_count_inv:
  assumes "\<forall>c \<in> set (rd_result st). cert_within E r c"
    and "\<forall>c. rd_current st = Some c \<longrightarrow> c \<noteq> [] \<and> cert_head E r (hd c) \<and> (\<forall>op \<in> set (tl c). op_Tag op \<noteq> 6)
       \<and> (\<forall>op \<in> set c. packet_within r op) \<and> rd_currentKeyLen st + int (length (op_Contents op)) = body_lengths c"
  shows "read_inv E r (rd_count r op st)"
  using assms by (auto simp: read_inv_def rd_count_def Let_def cert_within_def split: option.splits)

lemma rd_finish_inv: "read_inv E r st \<Longrightarrow> c \<in> set (rd_finish st) \<Longrightarrow> cert_within E r c"
  by (auto simp: read_inv_def rd_finish_def split: option.splits)

lemma read_step_inv:
  assumes "read_inv E r st"
  shows "read_inv E r (read_step E r op st)"
proof -
  define max where "max = (if op_Tag op = 2 then kr_maxSigPacketLen r else kr_maxPacketLen r)"
  show ?thesis
  proof (cases "0 < max \<and> max < int (length (op_Contents op))")
    case True
    then show ?thesis using assms by (simp add: read_step_def max_def Let_def)
  next
    case False
    then have w: "packet_within r op" by (auto simp: packet_within_def max_def Let_def)
    have step: "read_step E r op st = (if op_Tag op = 6 then
       (let st1 = st\<lparr>rd_result := rd_finish st, rd_current := None, rd_currentKeyLen := 0, rd_initial := False\<rparr> in
        case ParsePrimaryKey E 0 op of
          Inl _ \<Rightarrow> st1
        | Inr key \<Rightarrow> (if pub_Fingerprint key \<in> kr_blacklist r then st1 else rd_count r op (st1\<lparr>rd_current := Some [op]\<rparr>)))
     else rd_count r op (case rd_current st of
           Some c \<Rightarrow> st\<lparr>rd_current := Some (c @ [op])\<rparr>
         | None \<Rightarrow> if op_Tag op = 2 \<and> rd_initial st then st\<lparr>rd_current := Some [op], rd_currentKeyLen := 0\<rparr> else st))"
      using False by (auto simp: read_step_def max_def Let_def split: option.split)
    show ?thesis
    proof (cases "op_Tag op = 6")
      case True
      have f: "\<forall>c \<in> set (rd_finish st). cert_within E r c" using rd_finish_inv[OF assms] by blast
      define st1 where "st1 = st\<lparr>rd_result := rd_finish st, rd_current := None, rd_currentKeyLen := 0, rd_initial := False\<rparr>"
      have i1: "read_inv E r st1" using f by (simp add: st1_def read_inv_def)
      have i2: "read_inv E r (rd_count r op (st1\<lparr>rd_current := Some [op]\<rparr>))"
        if "ParsePrimaryKey E 0 op = Inr key" "pub_Fingerprint key \<notin> kr_blacklist r" for key
        by (rule rd_count_inv) (use that f w True in \<open>auto simp: st1_def cert_head_def body_lengths_def\<close>)
      show ?thesis
        unfolding step if_P[OF True] Let_def st1_def[symmetric] using i1 i2 by (auto split: sum.split)
    next
      case nt: False
      show ?thesis
        unfolding step if_not_P[OF nt]
      proof (rule rd_count_inv)
        show "\<forall>c \<in> set (rd_result (case rd_current st of
           Some c \<Rightarrow> st\<lparr>rd_current := Some (c @ [op])\<rparr>
         | None \<Rightarrow> if op_Tag op = 2 \<and> rd_initial st then st\<lparr>rd_current := Some [op], rd_currentKeyLen := 0\<rparr> else st)). cert_within E r c"
          using assms by (auto simp: read_inv_def split: option.split)
      qed (use assms w nt in \<open>auto simp: read_inv_def cert_within_def cert_head_def body_lengths_def split: option.splits if_splits\<close>)
    qed
  qed
qed

lemma okr_Read_within:
  assumes "okr_Read E r bs = Inr certs" "c \<in> set certs"
  shows "cert_within E r c"
proof -
  obtain ops err where ops: "or_packets bs = (ops, err)" by (cases "or_packets bs")
  define st0 where "st0 = \<lparr>rd_result = [], rd_current = None, rd_currentKeyLen = 0, rd_initial = True\<rparr>"
  have "read_inv E r (fold (read_step E r) ops st0)"
  proof (rule fold_inv)
    show "read_inv E r st0" by (simp add: st0_def read_inv_def)
  qed (rule read_step_inv)
  moreover have "certs = rd_finish (fold (read_step E r) ops st0)"
    using assms(1) by (auto simp: okr_Read_def ops st0_def split: if_splits)
  ultimately show ?thesis using assms(2) rd_finish_inv by blast
qed

section \<open>Reading back what was written\<close>

lemma or_packets_written:
  assumes "\<forall>op \<in> set ops. op_Tag op < 64 \<and> length (op_Contents op) < 2 ^ 32"
  shows "or_packets (concat (map op_Serialize ops)) = (ops, Err ErrEOF)"
  using assms
proof (induction ops)
  case Nil
  then show ?case by (simp add: or_packets.simps or_Next_def)
next
  case (Cons op ops)
  then show ?case by (subst or_packets.simps) (simp add: or_Next_Serialize)
qed

definition plain_reader :: "keyReader \<Rightarrow> bool" where
  "plain_reader r \<longleftrightarrow> kr_maxKeyLen r \<le> 0 \<and> kr_maxPacketLen r \<le> 0 \<and> kr_maxSigPacketLen r \<le> 0"

definition whole_cert :: "gocrypto \<Rightarrow> keyReader \<Rightarrow> OpaquePacket list \<Rightarrow> bool" where
  "whole_cert E r c \<longleftrightarrow> c \<noteq> [] \<and> op_Tag (hd c) = 6 \<and> (\<exists>key. ParsePrimaryKey E 0 (hd c) = Inr key \<and> pub_Fingerprint key \<notin> kr_blacklist r)
     \<and> (\<forall>op \<in> set (tl c). op_Tag op \<noteq> 6)"

lemma read_tail:
  assumes "plain_reader r" "rd_current st = Some c" "\<forall>op \<in> set ops. op_Tag op \<noteq> 6"
  shows "rd_finish (fold (read_step E r) ops st) = rd_result st @ [c @ ops]
    \<and> rd_current (fold (read_step E r) ops st) = Some (c @ ops) \<and> rd_result (fold (read_step E r) ops st) = rd_result st"
  using assms(2,3)
proof (induction ops arbitrary: st c)
  case Nil
  then show ?case by (simp add: rd_finish_def)
next
  case (Cons op ops)
  define st' where "st' = read_step E r op st"
  have "rd_current st' = Some (c @ [op])" "rd_result st' = rd_result st"
    using assms(1) Cons.prems by (auto simp: st'_def read_step_def rd_count_def plain_reader_def Let_def)
  with Cons.IH[of st' "c @ [op]"] Cons.prems show ?case by (simp add: st'_def)
qed

lemma read_certs:
  assumes "plain_reader r" "\<forall>c \<in> set certs. whole_cert E r c"
  shows "rd_finish (fold (read_step E r) (concat certs) st) = rd_finish st @ certs"
  using assms(2)
proof (induction certs arbitrary: st)
  case Nil
  then show ?case by simp
next
  case (Cons c certs)
  then obtain op ops key where c: "c = op # ops" "op_Tag op = 6" "ParsePrimaryKey E 0 op = Inr key"
    "pub_Fingerprint key \<notin> kr_blacklist r" "\<forall>op \<in> set ops. op_Tag op \<noteq> 6"
    by (cases c) (auto simp: whole_cert_def)
  define st' where "st' = read_step E r op st"
  have st': "rd_current st' = Some [op]" "rd_result st' = rd_finish st"
    using assms(1) c by (auto simp: st'_def read_step_def rd_count_def plain_reader_def Let_def)
  have "rd_finish (fold (read_step E r) ops st') = rd_finish st @ [c]"
    using read_tail[OF assms(1) st'(1) c(5)] st'(2) c(1) by simp
  with Cons show ?case by (simp add: c(1) st'_def)
qed

lemma okr_Read_written:
  assumes "plain_reader r" "\<forall>c \<in> set certs. whole_cert E r c"
    and "\<forall>op \<in> set (concat certs). op_Tag op < 64 \<and> length (op_Contents op) < 2 ^ 32"
  shows "okr_Read E r (concat (map op_Serialize (concat certs))) = Inr certs"
  using or_packets_written[OF assms(3)] read_certs[OF assms(1,2)]
  by (simp add: okr_Read_def rd_finish_def)

end
