(* ===== verification/DedupSpec.thy ===== *)
theory DedupSpec
  imports ValidSpec "HOL-Library.Sublist"
begin

text \<open>
  \<open>dedup\<close> on a certificate whose packets are distinct objects and whose UUIDs tell the kinds of
  packets apart: it succeeds, keeps every UUID at its place (with the signatures of equal user
  IDs and subkeys united), and leaves no UUID twice among the children of the key.

  The proof follows the addresses, kinds and UUIDs (the rows) of the nodes: storing a changed
  signature or trust packet keeps all rows, so only the removals and the union count.
\<close>

section \<open>Rows\<close>

type_synonym row = "nat \<times> nat \<times> gostring"

definition kind :: "packetNode \<Rightarrow> nat" where
  "kind n = (case n of PubNode _ \<Rightarrow> 0 | SubNode _ \<Rightarrow> 1 | UidNode _ \<Rightarrow> 2 | SigNode _ \<Rightarrow> 3 | TrustNode _ \<Rightarrow> 4)"

definition row :: "packetNode \<Rightarrow> row" where
  "row n = (node_ptr n, kind n, node_uuid n)"

abbreviation "trow t \<equiv> row (TrustNode t)"
abbreviation "srow s \<equiv> row (SigNode s)"
abbreviation "urow u \<equiv> row (UidNode u)"
abbreviation "krow k \<equiv> row (SubNode k)"

lemma row_simps:
  "row (PubNode k) = (p_ptr k, 0, p_UUID k)" "krow u = (p_ptr u, 1, p_UUID u)" "urow v = (p_ptr v, 2, p_UUID v)"
  "srow s = (p_ptr (sg s), 3, p_UUID (sg s))" "trow t = (p_ptr (tr t), 4, p_UUID (tr t))"
  by (simp_all add: row_def kind_def node_ptr_def node_uuid_def node_packet_def Packet.defs)

definition rows_ok :: "row set \<Rightarrow> bool" where
  "rows_ok I \<longleftrightarrow> (\<forall>p k x k' x'. (p, k, x) \<in> I \<longrightarrow> (p, k', x') \<in> I \<longrightarrow> k = k' \<and> x = x')
     \<and> (\<forall>p k x p' k'. (p, k, x) \<in> I \<longrightarrow> (p', k', x) \<in> I \<longrightarrow> k = k')"

lemma rows_okD:
  assumes "rows_ok I"
  shows "(p, k, x) \<in> I \<Longrightarrow> (p, k', x') \<in> I \<Longrightarrow> k = k' \<and> x = x'"
    "(p, k, x) \<in> I \<Longrightarrow> (p', k', x) \<in> I \<Longrightarrow> k = k'"
  using assms unfolding rows_ok_def by blast+

definition in_rows :: "row set \<Rightarrow> packetNode list \<Rightarrow> bool" where
  "in_rows I ns \<longleftrightarrow> (\<forall>n \<in> set ns. row n \<in> I)"

lemma in_rows_simps [simp]:
  "in_rows I []" "in_rows I (n # ns) \<longleftrightarrow> row n \<in> I \<and> in_rows I ns"
  "in_rows I (ms @ ns) \<longleftrightarrow> in_rows I ms \<and> in_rows I ns"
  "in_rows I (concat nss) \<longleftrightarrow> (\<forall>ns \<in> set nss. in_rows I ns)"
  by (auto simp: in_rows_def)

lemmas contents_defs = contents_def key_contents_def subkey_contents_def uid_contents_def sig_contents_def trust_contents_def

definition small :: "packetNode \<Rightarrow> bool" where
  "small n \<longleftrightarrow> 3 \<le> kind n"

lemma smallE:
  assumes "small n"
  obtains (sig) s where "n = SigNode s" | (trust) t where "n = TrustNode t"
  using assms by (cases n) (auto simp: small_def kind_def)

section \<open>Storing a small node keeps the rows\<close>

lemma trust_put_row:
  assumes "rows_ok I" "row n \<in> I" "trow t \<in> I"
  shows "trow (trust_put n t) = trow t"
  using assms rows_okD(1)[OF assms(1)] by (cases n) (auto simp: trust_put_def row_simps)

lemma sig_put_row:
  assumes "rows_ok I" "row n \<in> I" "srow s \<in> I"
  shows "srow (sig_put n s) = srow s"
  using assms rows_okD(1)[OF assms(1)] by (cases n) (auto simp: sig_put_def row_simps)

lemma sig_put_rows:
  assumes "rows_ok I" "small n" "in_rows I (contents n)" "in_rows I (sig_contents s)"
  shows "in_rows I (sig_contents (sig_put n s))"
proof -
  have r: "row n \<in> I" using assms(2,3) by (cases n) (auto simp: small_def kind_def contents_defs)
  from assms(2) show ?thesis
  proof (cases rule: smallE)
    case (sig s')
    with assms show ?thesis by (auto simp: sig_put_def contents_defs)
  next
    case (trust t)
    have "srow (Signature (sg s) ts) = srow s" for ts by (simp add: row_simps)
    moreover have "trow (trust_put n x) \<in> I" if "x \<in> set (sg_Trusts s)" for x
      using trust_put_row[OF assms(1) r, of x] assms(4) that by (auto simp: contents_defs)
    ultimately show ?thesis using assms(4) trust by (auto simp: sig_put_def sig_contents_def trust_contents_def)
  qed
qed

definition n_trusts :: "packetNode \<Rightarrow> Trust list" where
  "n_trusts n = (case n of PubNode k \<Rightarrow> pub_Trusts k | SubNode k \<Rightarrow> pub_Trusts k | UidNode u \<Rightarrow> uid_Trusts u
     | SigNode s \<Rightarrow> sg_Trusts s | TrustNode _ \<Rightarrow> [])"

definition n_sigs :: "packetNode \<Rightarrow> Signature list" where
  "n_sigs n = (case n of PubNode k \<Rightarrow> pub_Signatures k | SubNode k \<Rightarrow> pub_Signatures k | UidNode u \<Rightarrow> uid_Signatures u
     | _ \<Rightarrow> [])"

text \<open>The components below a key: user IDs and subkeys, with the rows of their signatures.\<close>

definition n_comps :: "packetNode \<Rightarrow> (row \<times> row list) list" where
  "n_comps n = (case n of PubNode k \<Rightarrow> map (\<lambda>u. (urow u, map srow (uid_Signatures u))) (pk_UserIDs k)
       @ map (\<lambda>u. (krow u, map srow (pub_Signatures u))) (pk_SubKeys k)
     | _ \<Rightarrow> [])"

definition shape :: "packetNode \<Rightarrow> row list \<times> row list \<times> (row \<times> row list) list" where
  "shape n = (map trow (n_trusts n), map srow (n_sigs n), n_comps n)"

lemma uid_put_small:
  assumes "rows_ok I" "small n" "in_rows I (contents n)" "in_rows I (uid_contents u)"
  shows "urow (uid_put n u) = urow u" "map trow (uid_Trusts (uid_put n u)) = map trow (uid_Trusts u)"
    "map srow (uid_Signatures (uid_put n u)) = map srow (uid_Signatures u)" "in_rows I (uid_contents (uid_put n u))"
proof -
  have r: "row n \<in> I" using assms(2,3) by (cases n) (auto simp: small_def kind_def contents_defs)
  have p: "uid_put n u = u\<lparr>uid_Trusts := map (trust_put n) (uid_Trusts u), uid_Signatures := map (sig_put n) (uid_Signatures u)\<rparr>"
    using assms(2) by (cases n) (auto simp: small_def kind_def uid_put_def)
  have t: "trow t \<in> I" if "t \<in> set (uid_Trusts u)" for t using assms(4) that by (auto simp: contents_defs)
  have s: "in_rows I (sig_contents s)" "srow s \<in> I" if "s \<in> set (uid_Signatures u)" for s
    using assms(4) that by (auto simp: contents_defs)
  show "urow (uid_put n u) = urow u" by (simp add: p row_simps)
  show "map trow (uid_Trusts (uid_put n u)) = map trow (uid_Trusts u)"
    using trust_put_row[OF assms(1) r t] by (simp add: p)
  show "map srow (uid_Signatures (uid_put n u)) = map srow (uid_Signatures u)"
    using sig_put_row[OF assms(1) r s(2)] by (simp add: p)
  show "in_rows I (uid_contents (uid_put n u))"
    using assms(4) trust_put_row[OF assms(1) r t] t sig_put_rows[OF assms(1-3) s(1)]
    by (auto simp: p uid_contents_def trust_contents_def row_simps(3))
qed

lemma subkey_put_small:
  assumes "rows_ok I" "small n" "in_rows I (contents n)" "in_rows I (subkey_contents u)"
  shows "krow (subkey_put n u) = krow u" "map trow (pub_Trusts (subkey_put n u)) = map trow (pub_Trusts u)"
    "map srow (pub_Signatures (subkey_put n u)) = map srow (pub_Signatures u)" "in_rows I (subkey_contents (subkey_put n u))"
proof -
  have r: "row n \<in> I" using assms(2,3) by (cases n) (auto simp: small_def kind_def contents_defs)
  have p: "subkey_put n u = u\<lparr>pub_Trusts := map (trust_put n) (pub_Trusts u), pub_Signatures := map (sig_put n) (pub_Signatures u)\<rparr>"
    using assms(2) by (cases n) (auto simp: small_def kind_def subkey_put_def)
  have t: "trow t \<in> I" if "t \<in> set (pub_Trusts u)" for t using assms(4) that by (auto simp: contents_defs)
  have s: "in_rows I (sig_contents s)" "srow s \<in> I" if "s \<in> set (pub_Signatures u)" for s
    using assms(4) that by (auto simp: contents_defs)
  show "krow (subkey_put n u) = krow u" by (simp add: p row_simps)
  show "map trow (pub_Trusts (subkey_put n u)) = map trow (pub_Trusts u)"
    using trust_put_row[OF assms(1) r t] by (simp add: p)
  show "map srow (pub_Signatures (subkey_put n u)) = map srow (pub_Signatures u)"
    using sig_put_row[OF assms(1) r s(2)] by (simp add: p)
  show "in_rows I (subkey_contents (subkey_put n u))"
    using assms(4) trust_put_row[OF assms(1) r t] t sig_put_rows[OF assms(1-3) s(1)]
    by (auto simp: p subkey_contents_def trust_contents_def row_simps(2))
qed

text \<open>For every root: a small node stored below it changes neither its shape nor its rows.\<close>

lemma node_put_small:
  assumes "rows_ok I" "small n" "in_rows I (contents n)" "in_rows I (contents root)" "kind root < kind n"
  shows "row (node_put n root) = row root" "shape (node_put n root) = shape root" "in_rows I (contents (node_put n root))"
proof -
  have r: "row n \<in> I" using assms(2,3) by (cases n) (auto simp: small_def kind_def contents_defs)
  have "row (node_put n root) = row root \<and> shape (node_put n root) = shape root \<and> in_rows I (contents (node_put n root))"
  proof (cases root)
    case (PubNode k)
    have p: "key_put n k = k\<lparr>pub_Trusts := map (trust_put n) (pub_Trusts k), pub_Signatures := map (sig_put n) (pub_Signatures k),
            pk_UserIDs := map (uid_put n) (pk_UserIDs k), pk_SubKeys := map (subkey_put n) (pk_SubKeys k)\<rparr>"
      using assms(2) by (cases n) (auto simp: small_def kind_def key_put_def)
    have t: "trow t \<in> I" if "t \<in> set (pub_Trusts k)" for t using assms(4) that PubNode by (auto simp: contents_defs)
    have s: "in_rows I (sig_contents s)" "srow s \<in> I" if "s \<in> set (pub_Signatures k)" for s
      using assms(4) that PubNode by (auto simp: contents_defs)
    have u: "in_rows I (uid_contents u)" if "u \<in> set (pk_UserIDs k)" for u
      using assms(4) that PubNode by (auto simp: contents_def key_contents_def)
    have v: "in_rows I (subkey_contents u)" if "u \<in> set (pk_SubKeys k)" for u
      using assms(4) that PubNode by (auto simp: contents_def key_contents_def)
    note us = uid_put_small[OF assms(1-3) u] and vs = subkey_put_small[OF assms(1-3) v]
    show ?thesis
      using assms(4) trust_put_row[OF assms(1) r t] t sig_put_row[OF assms(1) r s(2)] sig_put_rows[OF assms(1-3) s(1)] us vs
      by (auto simp: PubNode node_put_def p shape_def n_trusts_def n_sigs_def n_comps_def contents_def key_contents_def
          trust_contents_def row_simps(1))
  next
    case (SubNode k)
    with assms(4) subkey_put_small[OF assms(1-3), of k] show ?thesis
      by (simp add: node_put_def shape_def n_trusts_def n_sigs_def n_comps_def contents_def)
  next
    case (UidNode u)
    with assms(4) uid_put_small[OF assms(1-3), of u] show ?thesis
      by (simp add: node_put_def shape_def n_trusts_def n_sigs_def n_comps_def contents_def)
  next
    case (TrustNode t)
    with assms(5) show ?thesis by (cases n) (simp_all add: kind_def)
  next
    case (SigNode s)
    have "trow t \<in> I" if "t \<in> set (sg_Trusts s)" for t using assms(4) that SigNode by (auto simp: contents_defs)
    note t = trust_put_row[OF assms(1) r this]
    from assms(2) show ?thesis
    proof (cases rule: smallE)
      case (trust t')
      with t assms(4) r sig_put_rows[OF assms(1-3), of s] sig_put_row[OF assms(1) r, of s] show ?thesis
        by (simp add: SigNode node_put_def shape_def n_trusts_def n_sigs_def n_comps_def contents_def sig_put_def
            sig_contents_def)
    next
      case (sig s')
      with assms(5) show ?thesis by (simp add: SigNode kind_def)
    qed
  qed
  then show "row (node_put n root) = row root" "shape (node_put n root) = shape root" "in_rows I (contents (node_put n root))"
    by blast+
qed

section \<open>The loop\<close>

definition dup_step :: "nat \<Rightarrow> (packetNode \<Rightarrow> packetNode) option \<Rightarrow> packetNode \<Rightarrow> packetNode \<Rightarrow> packetNode \<Rightarrow> packetNode res" where
  "dup_step n h primary0 node root =
    rbind (removeDuplicate (node_get primary0 root) root node) (\<lambda>(primary, root).
    rbind (dedup n None primary) (\<lambda>primary'.
      Inr (case h of None \<Rightarrow> node_put primary' (node_put primary root)
        | Some f \<Rightarrow> node_put (f primary') (node_put primary' (node_put primary root)))))"

definition first_with :: "packetNode list \<Rightarrow> gostring \<Rightarrow> packetNode option" where
  "first_with pre x = find (\<lambda>m. node_uuid m = x) pre"

lemma find_snoc: "find P (xs @ [y]) = (case find P xs of Some x \<Rightarrow> Some x | None \<Rightarrow> if P y then Some y else None)"
  by (induction xs) auto

lemma first_with_snoc_new:
  "first_with pre (node_uuid n) = None \<Longrightarrow> first_with (pre @ [n]) = (first_with pre)(node_uuid n \<mapsto> n)"
  by (auto simp: first_with_def find_snoc fun_eq_iff split: option.splits)

lemma first_with_snoc_dup:
  "first_with pre (node_uuid n) \<noteq> None \<Longrightarrow> first_with (pre @ [n]) = first_with pre"
  by (auto simp: first_with_def find_snoc fun_eq_iff split: option.splits)

lemma first_withD: "first_with pre x = Some m \<Longrightarrow> m \<in> set pre \<and> node_uuid m = x"
  by (auto simp: first_with_def find_Some_iff)

lemma dedup_loop:
  assumes "P [] root0"
    and new: "\<And>pre node post root. contents root0 = pre @ node # post \<Longrightarrow> P pre root \<Longrightarrow>
      first_with pre (node_uuid node) = None \<Longrightarrow> P (pre @ [node]) root"
    and dup: "\<And>pre node post root p0. contents root0 = pre @ node # post \<Longrightarrow> P pre root \<Longrightarrow>
      first_with pre (node_uuid node) = Some p0 \<Longrightarrow> \<exists>root'. dup_step n h p0 node root = Inr root' \<and> P (pre @ [node]) root'"
  shows "\<exists>root'. dedup (Suc n) h root0 = Inr root' \<and> P (contents root0) root'"
proof -
  define step where "step = (\<lambda>node (root, nodes). case nodes (node_uuid node) of
        None \<Rightarrow> Inr (root, nodes(node_uuid node \<mapsto> node))
      | Some primary0 \<Rightarrow>
          rbind (removeDuplicate (node_get primary0 root) root node) (\<lambda>(primary, root).
          let root = node_put primary root in
          rbind (dedup n None primary) (\<lambda>primary.
          let root = node_put primary root in
          Inr (case h of None \<Rightarrow> root | Some f \<Rightarrow> node_put (f primary) root, nodes))))"
  have step_dup: "step node (root, nodes) = rbind (dup_step n h p0 node root) (\<lambda>r. Inr (r, nodes))"
    if "nodes (node_uuid node) = Some p0" for node root nodes p0
    using that by (auto simp: step_def dup_step_def Let_def rbind_def split: sum.splits prod.splits option.splits)
  have "\<exists>root'. rfold step post (root, first_with pre) = Inr (root', first_with (contents root0)) \<and> P (contents root0) root'"
    if "contents root0 = pre @ post" "P pre root" for pre post root
    using that
  proof (induction post arbitrary: pre root)
    case Nil
    then show ?case by simp
  next
    case (Cons node post)
    show ?case
    proof (cases "first_with pre (node_uuid node)")
      case None
      have "P (pre @ [node]) root" by (rule new[OF Cons.prems None])
      then have "\<exists>root'. rfold step post (root, first_with (pre @ [node])) = Inr (root', first_with (contents root0)) \<and> P (contents root0) root'"
        using Cons.prems(1) by (intro Cons.IH) auto
      then show ?thesis using None by (simp add: step_def first_with_snoc_new)
    next
      case (Some p0)
      from dup[OF Cons.prems Some] obtain root1 where r: "dup_step n h p0 node root = Inr root1" "P (pre @ [node]) root1" by blast
      from r(2) have "\<exists>root'. rfold step post (root1, first_with (pre @ [node])) = Inr (root', first_with (contents root0)) \<and> P (contents root0) root'"
        using Cons.prems(1) by (intro Cons.IH) auto
      then show ?thesis using Some r(1) by (simp add: step_dup[where nodes = "first_with pre" and node = node, OF Some] first_with_snoc_dup)
    qed
  qed
  moreover have "first_with [] = Map.empty" by (simp add: first_with_def fun_eq_iff)
  ultimately have "\<exists>root'. rfold step (contents root0) (root0, Map.empty) = Inr (root', first_with (contents root0)) \<and> P (contents root0) root'"
    using assms(1) by (metis append_Nil)
  then show ?thesis by (auto simp: step_def)
qed

section \<open>Removing a small duplicate\<close>

definition rm :: "packetNode \<Rightarrow> packetNode \<Rightarrow> packetNode" where
  "rm d root = (case removeDuplicate d root d of Inr (_, r) \<Rightarrow> r | Inl _ \<Rightarrow> root)"

lemma removeDuplicate_small:
  assumes "small d" "kind p = kind d"
  shows "removeDuplicate p root d = Inr (p, rm d root)"
  using assms by (cases d; cases p) (auto simp: small_def kind_def removeDuplicate_def rm_def)

lemma filter_map_row: "map srow (sigs_without p ss) = filter (\<lambda>r. fst r \<noteq> p) (map srow ss)"
  "map trow (trusts_without p ts) = filter (\<lambda>r. fst r \<noteq> p) (map trow ts)"
  by (auto simp: sigs_without_def trusts_without_def filter_map comp_def row_simps)

lemma rm_small:
  assumes "small d" "kind root < kind d" "in_rows I (contents root)"
  shows "row (rm d root) = row root" "in_rows I (contents (rm d root))" "kind (rm d root) = kind root"
    "n_comps (rm d root) = n_comps root"
    "map trow (n_trusts (rm d root)) = (if kind d = 4 then filter (\<lambda>r. fst r \<noteq> node_ptr d) (map trow (n_trusts root)) else map trow (n_trusts root))"
    "map srow (n_sigs (rm d root)) = (if kind d = 3 then filter (\<lambda>r. fst r \<noteq> node_ptr d) (map srow (n_sigs root)) else map srow (n_sigs root))"
proof -
  have "row (rm d root) = row root \<and> in_rows I (contents (rm d root)) \<and> kind (rm d root) = kind root \<and> n_comps (rm d root) = n_comps root
    \<and> map trow (n_trusts (rm d root)) = (if kind d = 4 then filter (\<lambda>r. fst r \<noteq> node_ptr d) (map trow (n_trusts root)) else map trow (n_trusts root))
    \<and> map srow (n_sigs (rm d root)) = (if kind d = 3 then filter (\<lambda>r. fst r \<noteq> node_ptr d) (map srow (n_sigs root)) else map srow (n_sigs root))"
    using assms
    by (cases d; cases root)
      (auto simp: small_def rm_def removeDuplicate_def row_simps filter_map comp_def kind_def n_comps_def n_trusts_def n_sigs_def node_ptr_def
        node_packet_def Packet.defs filter_map_row contents_defs sigs_without_def trusts_without_def)
  then show "row (rm d root) = row root" "in_rows I (contents (rm d root))" "kind (rm d root) = kind root"
    "n_comps (rm d root) = n_comps root"
    "map trow (n_trusts (rm d root)) = (if kind d = 4 then filter (\<lambda>r. fst r \<noteq> node_ptr d) (map trow (n_trusts root)) else map trow (n_trusts root))"
    "map srow (n_sigs (rm d root)) = (if kind d = 3 then filter (\<lambda>r. fst r \<noteq> node_ptr d) (map srow (n_sigs root)) else map srow (n_sigs root))"
    by blast+
qed

lemma small_contents_sub:
  assumes "m \<in> set (contents root)" "small m"
  shows "set (contents m) \<subseteq> set (contents root)"
  using assms(2)
proof (cases rule: smallE)
  case (sig s)
  with assms(1) show ?thesis by (cases root) (auto simp: contents_defs)
next
  case (trust t)
  with assms(1) show ?thesis by (simp add: contents_def trust_contents_def)
qed

lemma node_get_facts:
  assumes "in_rows I (contents root)" "in_rows I (contents p0)" "small p0"
  shows "kind (node_get p0 root) = kind p0" "node_ptr (node_get p0 root) = node_ptr p0" "in_rows I (contents (node_get p0 root))"
proof -
  have "kind (node_get p0 root) = kind p0 \<and> node_ptr (node_get p0 root) = node_ptr p0 \<and> in_rows I (contents (node_get p0 root))"
  proof (cases "find (same_node p0) (contents root)")
    case None
    then show ?thesis using assms by (simp add: node_get_def)
  next
    case (Some m)
    then have m: "m \<in> set (contents root)" "same_node p0 m" by (auto simp: find_Some_iff)
    then have k: "kind m = kind p0" "node_ptr m = node_ptr p0" by (auto simp: same_node_def kind_def split: packetNode.splits)
    with assms(3) have "small m" by (simp add: small_def)
    with small_contents_sub[OF m(1)] assms(1) have "in_rows I (contents m)" by (auto simp: in_rows_def)
    with k Some show ?thesis by (simp add: node_get_def)
  qed
  then show "kind (node_get p0 root) = kind p0" "node_ptr (node_get p0 root) = node_ptr p0" "in_rows I (contents (node_get p0 root))"
    by blast+
qed

definition h_ok :: "(packetNode \<Rightarrow> packetNode) option \<Rightarrow> bool" where
  "h_ok h \<longleftrightarrow> h = None \<or> h = Some count_up"

lemma count_up_facts: "row (count_up n) = row n" "kind (count_up n) = kind n" "n_comps (count_up n) = n_comps n"
  "map trow (n_trusts (count_up n)) = map trow (n_trusts n)" "n_sigs (count_up n) = n_sigs n" "in_rows I (contents (count_up n)) = in_rows I (contents n)"
  by (cases n; auto simp: count_up_def row_simps kind_def n_comps_def n_trusts_def n_sigs_def contents_defs)+

lemma contents_head: "contents root = root # tl (contents root)"
  by (cases root) (auto simp: contents_defs)

lemma row_kind: "row m = row n \<Longrightarrow> kind m = kind n"
  by (simp add: row_def)

text \<open>A step on a small duplicate, given that the nested call on the primary keeps its row.\<close>

lemma small_step:
  assumes "rows_ok I" "h_ok h" "small node" "kind p0 = kind node" "in_rows I (contents p0)" "in_rows I (contents root)"
    "kind root < kind node"
    and nested: "\<And>m. small m \<Longrightarrow> kind m = kind node \<Longrightarrow> in_rows I (contents m) \<Longrightarrow>
      \<exists>m'. dedup n None m = Inr m' \<and> row m' = row m \<and> in_rows I (contents m')"
  shows "\<exists>root'. dup_step n h p0 node root = Inr root' \<and> row root' = row root \<and> in_rows I (contents root')
    \<and> shape root' = shape (rm node root)"
proof -
  have sp0: "small p0" using assms(3,4) by (simp add: small_def)
  define p where "p = node_get p0 root"
  note g = node_get_facts[OF assms(6,5) sp0, folded p_def]
  have kp: "kind p = kind node" using g(1) assms(4) by simp
  have sp: "small p" using kp assms(3) by (simp add: small_def)
  from nested[OF sp kp g(3)] obtain p' where p': "dedup n None p = Inr p'" "row p' = row p" "in_rows I (contents p')" by blast
  have kp': "kind p' = kind node" "small p'" using row_kind[OF p'(2)] kp sp by (simp_all add: small_def)
  note r = rm_small[OF assms(3,7,6)]
  have put: "row (node_put m r0) = row root \<and> shape (node_put m r0) = shape (rm node root) \<and> in_rows I (contents (node_put m r0))"
    if "small m" "kind m = kind node" "in_rows I (contents m)" "in_rows I (contents r0)" "row r0 = row root" "shape r0 = shape (rm node root)" for m r0
    using node_put_small[OF assms(1) that(1,3,4)] that row_kind[OF that(5)] assms(7) by auto
  note put1 = put[OF sp kp g(3) r(2) r(1) refl]
  note put2 = put[OF kp'(2,1) p'(3), of "node_put p (rm node root)"]
  have put3: "small (count_up p')" "kind (count_up p') = kind node" "in_rows I (contents (count_up p'))"
    using kp' p'(3) by (auto simp: small_def count_up_facts)
  note put3' = put[OF put3, of "node_put p' (node_put p (rm node root))"]
  show ?thesis
    using assms(2) put1 put2 put3' p'(1)
    by (auto simp: dup_step_def p_def[symmetric] removeDuplicate_small[OF assms(3) kp] h_ok_def)
qed

lemma dedup_trust: "dedup (Suc n) h (TrustNode t) = Inr (TrustNode t)"
  by (simp add: contents_defs)

lemma first_with_kind:
  assumes "rows_ok I" "in_rows I (pre @ [node])" "first_with pre (node_uuid node) = Some p0"
  shows "kind p0 = kind node" "p0 \<in> set pre"
proof -
  have p: "p0 \<in> set pre" "node_uuid p0 = node_uuid node" using first_withD[OF assms(3)] by auto
  with assms(2) have "row p0 \<in> I" "row node \<in> I" by (auto simp: in_rows_def)
  with p(2) rows_okD(2)[OF assms(1), of "node_ptr p0" "kind p0" "node_uuid p0" "node_ptr node" "kind node"]
  show "kind p0 = kind node" by (simp add: row_def)
  show "p0 \<in> set pre" by (rule p(1))
qed

lemma dedup_sig:
  assumes "rows_ok I" "in_rows I (contents (SigNode s))"
  shows "\<exists>m. dedup (Suc (Suc n)) None (SigNode s) = Inr m \<and> row m = srow s \<and> in_rows I (contents m)"
proof -
  define P where "P pre root \<longleftrightarrow> row root = srow s \<and> in_rows I (contents root)" for pre :: "packetNode list" and root
  have "\<exists>root'. dedup (Suc (Suc n)) None (SigNode s) = Inr root' \<and> P (contents (SigNode s)) root'"
  proof (rule dedup_loop)
    show "P [] (SigNode s)" using assms(2) by (simp add: P_def)
  next
    fix pre node post root p0
    assume c: "contents (SigNode s) = pre @ node # post" and P: "P pre root" and f: "first_with pre (node_uuid node) = Some p0"
    have rows: "in_rows I (pre @ [node])" using assms(2) c by (simp add: in_rows_def)
    note k = first_with_kind[OF assms(1) rows f]
    have "pre \<noteq> []" using k(2) by auto
    then obtain pre' where "concat (map trust_contents (sg_Trusts s)) = pre' @ node # post"
      using c by (cases pre) (auto simp: contents_def sig_contents_def)
    then have "node \<in> set (concat (map trust_contents (sg_Trusts s)))" by simp
    then obtain t where node: "node = TrustNode t" by (auto simp: trust_contents_def)
    have kr: "kind root = 3" using P by (auto simp: P_def row_def kind_def split: packetNode.splits)
    have sm: "small node" "kind root < kind node" using node kr by (simp_all add: small_def kind_def)
    have p0c: "p0 \<in> set (contents (SigNode s))" "small p0" using k c sm(1) by (auto simp: small_def)
    have "in_rows I (contents p0)" using small_contents_sub[OF p0c] assms(2) by (auto simp: in_rows_def)
    with small_step[OF assms(1) _ sm(1) k(1) _ _ sm(2), of None "Suc n"] P
    show "\<exists>root'. dup_step (Suc n) None p0 node root = Inr root' \<and> P (pre @ [node]) root'"
      by (force simp: P_def h_ok_def node kind_def dedup_trust split: packetNode.splits simp del: dedup.simps)
  qed (simp add: P_def)
  then show ?thesis by (simp add: P_def)
qed

lemma dedup_small:
  assumes "rows_ok I" "small m" "in_rows I (contents m)"
  shows "\<exists>m'. dedup (Suc (Suc n)) None m = Inr m' \<and> row m' = row m \<and> in_rows I (contents m')"
  using assms(2)
proof (cases rule: smallE)
  case (sig s)
  with dedup_sig[OF assms(1)] assms(3) show ?thesis by blast
next
  case (trust t)
  with assms(3) show ?thesis by (simp add: dedup_trust del: dedup.simps)
qed

section \<open>The nodes that are removed\<close>

definition dups :: "packetNode list \<Rightarrow> nat set" where
  "dups xs = {node_ptr n | n pre post. xs = pre @ n # post \<and> first_with pre (node_uuid n) \<noteq> None}"

lemma dups_Nil [simp]: "dups [] = {}"
  by (simp add: dups_def)

lemma dups_snoc:
  "dups (xs @ [n]) = dups xs \<union> (if first_with xs (node_uuid n) \<noteq> None then {node_ptr n} else {})"
proof -
  have "p \<in> dups (xs @ [n]) \<longleftrightarrow> p \<in> dups xs \<or> first_with xs (node_uuid n) \<noteq> None \<and> p = node_ptr n" for p
  proof
    assume "p \<in> dups (xs @ [n])"
    then obtain m pre post where m: "xs @ [n] = pre @ m # post" "first_with pre (node_uuid m) \<noteq> None" "p = node_ptr m"
      by (auto simp: dups_def)
    show "p \<in> dups xs \<or> first_with xs (node_uuid n) \<noteq> None \<and> p = node_ptr n"
    proof (cases post rule: rev_cases)
      case Nil
      with m show ?thesis by auto
    next
      case (snoc post' y)
      with m(1) have "xs = pre @ m # post'" by auto
      with m show ?thesis by (auto simp: dups_def)
    qed
  next
    assume "p \<in> dups xs \<or> first_with xs (node_uuid n) \<noteq> None \<and> p = node_ptr n"
    then show "p \<in> dups (xs @ [n])"
    proof
      assume "p \<in> dups xs"
      then obtain m pre post where "xs = pre @ m # post" "first_with pre (node_uuid m) \<noteq> None" "p = node_ptr m"
        by (auto simp: dups_def)
      then have "xs @ [n] = pre @ m # (post @ [n])" "first_with pre (node_uuid m) \<noteq> None" "p = node_ptr m" by auto
      then show ?thesis unfolding dups_def by blast
    next
      assume "first_with xs (node_uuid n) \<noteq> None \<and> p = node_ptr n"
      then have "xs @ [n] = xs @ n # []" "first_with xs (node_uuid n) \<noteq> None" "p = node_ptr n" by auto
      then show ?thesis unfolding dups_def by blast
    qed
  qed
  then show ?thesis by auto
qed

lemma dups_sub: "p \<in> dups xs \<Longrightarrow> p \<in> node_ptr ` set xs"
  by (auto simp: dups_def)

lemma first_with_None: "first_with xs x = None \<longleftrightarrow> x \<notin> node_uuid ` set xs"
  by (auto simp: first_with_def find_None_iff)

lemma subseq_distinct: "subseq xs ys \<Longrightarrow> distinct ys \<Longrightarrow> distinct xs"
  by (auto simp: subseq_conv_nths)

lemma filter_stronger: "(\<And>x. P x \<Longrightarrow> Q x) \<Longrightarrow> subseq (filter P xs) (filter Q xs)"
  by (induction xs) auto

text \<open>What is left has each UUID once.\<close>

lemma kept_distinct: "distinct (map node_uuid (filter (\<lambda>n. node_ptr n \<notin> dups xs) xs))"
proof (induction xs rule: rev_induct)
  case (snoc n xs)
  have "subseq (filter (\<lambda>m. node_ptr m \<notin> dups (xs @ [n])) xs) (filter (\<lambda>m. node_ptr m \<notin> dups xs) xs)"
    by (rule filter_stronger) (simp add: dups_snoc)
  then have d: "distinct (map node_uuid (filter (\<lambda>m. node_ptr m \<notin> dups (xs @ [n])) xs))"
    using snoc subseq_map subseq_distinct by blast
  show ?case
  proof (cases "node_ptr n \<in> dups (xs @ [n])")
    case True
    with d show ?thesis by simp
  next
    case False
    then have "first_with xs (node_uuid n) = None" by (simp add: dups_snoc split: if_splits)
    then have "node_uuid n \<notin> node_uuid ` set xs" by (simp add: first_with_None)
    with d False show ?thesis by auto
  qed
qed simp

text \<open>Each UUID keeps its first node.\<close>

lemma first_kept:
  assumes "first_with C x = Some m" "distinct (map node_ptr (filter Q C))" "Q m"
    and "\<And>a. a \<in> set C \<Longrightarrow> node_ptr a = node_ptr m \<Longrightarrow> Q a"
  shows "node_ptr m \<notin> dups C"
proof
  assume "node_ptr m \<in> dups C"
  then obtain a pre1 post1 where a: "C = pre1 @ a # post1" "first_with pre1 (node_uuid a) \<noteq> None" "node_ptr a = node_ptr m"
    by (auto simp: dups_def)
  from assms(1) obtain pre post where m: "C = pre @ m # post" "first_with pre x = None" "node_uuid m = x"
    unfolding first_with_def find_Some_iff find_None_iff
    by (metis id_take_nth_drop in_set_conv_nth length_take min.strict_order_iff min_less_iff_conj nth_take)
  have "Q a" using assms(4) a by simp
  have nm: "node_ptr b \<noteq> node_ptr m" if "b \<in> set pre \<union> set post" "Q b" for b
  proof
    assume e: "node_ptr b = node_ptr m"
    from that have "b \<in> set (filter Q pre) \<union> set (filter Q post)" by auto
    then have "node_ptr m \<in> node_ptr ` (set (filter Q pre) \<union> set (filter Q post))" unfolding e[symmetric] by (rule imageI)
    with assms(2,3) show False by (simp add: m(1)) blast
  qed
  have "a \<notin> set pre \<union> set post" using nm[of a] \<open>Q a\<close> a(3) by auto
  moreover have "m \<notin> set pre \<union> set post" using nm[of m] assms(3) by auto
  moreover have "a \<in> set C" using a(1) by simp
  ultimately have "a = m" using m(1) by auto
  with a(1) m(1) \<open>m \<notin> set pre \<union> set post\<close> have "pre1 = pre"
    by (metis Un_iff append_Cons_eq_iff)
  with a(2) m(2,3) \<open>a = m\<close> show False by simp
qed

section \<open>Duplicates within a component\<close>

abbreviation uuids :: "row list \<Rightarrow> gostring set" where
  "uuids rs \<equiv> (\<lambda>r. snd (snd r)) ` set rs"

abbreviation kept :: "packetNode list \<Rightarrow> row list \<Rightarrow> row list" where
  "kept xs rs \<equiv> filter (\<lambda>r. fst r \<notin> dups xs) rs"

lemma row_fst [simp]: "fst (row n) = node_ptr n" "fst (snd (row n)) = kind n" "snd (snd (row n)) = node_uuid n"
  by (simp_all add: row_def)

text \<open>The rows kept after one more small node.\<close>

lemma kept_snoc_dup:
  assumes "rows_ok I" "first_with pre (node_uuid node) \<noteq> None" "row node \<in> I" "set rs \<subseteq> I" "\<forall>r \<in> set rs. fst (snd r) = k"
  shows "kept (pre @ [node]) rs = (if kind node = k then filter (\<lambda>r. fst r \<noteq> node_ptr node) (kept pre rs) else kept pre rs)"
proof (cases "kind node = k")
  case True
  with assms(2) show ?thesis by (auto simp: dups_snoc intro: filter_cong)
next
  case False
  have "fst r \<noteq> node_ptr node" if "r \<in> set rs" for r
  proof
    assume "fst r = node_ptr node"
    with that assms(4) have "(node_ptr node, fst (snd r), snd (snd r)) \<in> I" by (metis prod.collapse subset_iff)
    with rows_okD(1)[OF assms(1) this, of "kind node" "node_uuid node"] assms(3,5) that False show False by (simp add: row_def)
  qed
  with False show ?thesis by (auto simp: dups_snoc intro: filter_cong)
qed

lemma kept_snoc_new: "first_with pre (node_uuid node) = None \<Longrightarrow> kept (pre @ [node]) rs = kept pre rs"
  by (simp add: dups_snoc)

lemma n_sigs_rows:
  assumes "in_rows I (contents root)"
  shows "set (map srow (n_sigs root)) \<subseteq> I" "set (map trow (n_trusts root)) \<subseteq> I"
  using assms by (cases root; auto simp: n_sigs_def n_trusts_def contents_defs)+

lemma comp_contents_kind:
  assumes "kind root \<in> {1, 2}" "n \<in> set (tl (contents root))"
  shows "small n"
  using assms by (cases root) (auto simp: kind_def contents_defs small_def)

lemma comp_contents_sigs:
  assumes "kind root \<in> {1, 2}"
  shows "filter (\<lambda>n. kind n = 3) (contents root) = map SigNode (n_sigs root)"
proof -
  have t: "filter (\<lambda>n. kind n = 3) (concat (map trust_contents ts)) = []" for ts
    by (induction ts) (auto simp: trust_contents_def kind_def)
  have "filter (\<lambda>n. kind n = 3) (concat (map sig_contents ss)) = map SigNode ss" for ss
    by (induction ss) (auto simp: sig_contents_def kind_def t[unfolded kind_def])
  with t assms show ?thesis
    by (cases root) (auto simp: kind_def contents_def uid_contents_def subkey_contents_def n_sigs_def)
qed

lemma dedup_comp:
  assumes "rows_ok I" "in_rows I (contents root)" "kind root \<in> {1, 2}" "distinct (map fst (map srow (n_sigs root)))"
  shows "\<exists>m. dedup (Suc (Suc (Suc n))) None root = Inr m \<and> row m = row root \<and> in_rows I (contents m)
    \<and> map srow (n_sigs m) = kept (contents root) (map srow (n_sigs root)) \<and> uuids (map srow (n_sigs m)) = uuids (map srow (n_sigs root))"
proof -
  define P where "P pre m \<longleftrightarrow> row m = row root \<and> in_rows I (contents m) \<and> map srow (n_sigs m) = kept pre (map srow (n_sigs root))"
    for pre m
  have "\<exists>m. dedup (Suc (Suc (Suc n))) None root = Inr m \<and> P (contents root) m"
  proof (rule dedup_loop)
    show "P [] root" using assms(2) by (simp add: P_def)
  next
    fix pre node post m
    assume "P pre m" "first_with pre (node_uuid node) = None"
    then show "P (pre @ [node]) m" by (simp add: P_def dups_snoc)
  next
    fix pre node post m p0
    assume c: "contents root = pre @ node # post" and P: "P pre m" and f: "first_with pre (node_uuid node) = Some p0"
    have rows: "in_rows I (pre @ [node])" using assms(2) c by (simp add: in_rows_def)
    note k = first_with_kind[OF assms(1) rows f]
    have "pre \<noteq> []" using k(2) by auto
    then have "node \<in> set (tl (contents root))" using c by (cases pre) auto
    then have sm: "small node" by (rule comp_contents_kind[OF assms(3)])
    have km: "kind m = kind root" by (rule row_kind) (use P in \<open>simp add: P_def\<close>)
    have lt: "kind m < kind node" using km assms(3) sm by (auto simp: small_def)
    have p0c: "p0 \<in> set (contents root)" "small p0" using k c sm by (auto simp: small_def)
    have p0r: "in_rows I (contents p0)" using small_contents_sub[OF p0c] assms(2) by (auto simp: in_rows_def)
    have mr: "in_rows I (contents m)" using P by (simp add: P_def)
    have "h_ok None" by (simp add: h_ok_def)
    from small_step[OF assms(1) this sm k(1) p0r mr lt, of "Suc (Suc n)"]
    obtain m' where m': "dup_step (Suc (Suc n)) None p0 node m = Inr m'" "row m' = row m" "in_rows I (contents m')"
      "shape m' = shape (rm node m)"
      using dedup_small[OF assms(1)] by blast
    have "map srow (n_sigs m') = map srow (n_sigs (rm node m))" using m'(4) by (simp add: shape_def)
    also have "\<dots> = (if kind node = 3 then filter (\<lambda>r. fst r \<noteq> node_ptr node) (map srow (n_sigs m)) else map srow (n_sigs m))"
      by (rule rm_small(6)[OF sm lt mr])
    also have "\<dots> = kept (pre @ [node]) (map srow (n_sigs root))"
    proof -
      have "kept (pre @ [node]) (map srow (n_sigs root))
        = (if kind node = 3 then filter (\<lambda>r. fst r \<noteq> node_ptr node) (kept pre (map srow (n_sigs root))) else kept pre (map srow (n_sigs root)))"
        by (rule kept_snoc_dup[OF assms(1)])
          (use f rows n_sigs_rows(1)[OF assms(2)] in \<open>auto simp: kind_def\<close>)
      with P show ?thesis by (simp add: P_def)
    qed
    finally have "P (pre @ [node]) m'" using m'(2,3) P by (simp add: P_def)
    with m'(1) show "\<exists>m'. dup_step (Suc (Suc n)) None p0 node m = Inr m' \<and> P (pre @ [node]) m'" by blast
  qed
  then obtain m where m: "dedup (Suc (Suc (Suc n))) None root = Inr m" "P (contents root) m" by blast
  have "uuids (map srow (n_sigs root)) \<subseteq> uuids (map srow (n_sigs m))"
  proof
    fix x
    assume "x \<in> uuids (map srow (n_sigs root))"
    then obtain s where s: "s \<in> set (n_sigs root)" "x = node_uuid (SigNode s)" by auto
    have "SigNode s \<in> set (filter (\<lambda>n. kind n = 3) (contents root))" using s(1) comp_contents_sigs[OF assms(3)] by simp
    then have sc: "SigNode s \<in> set (contents root)" by simp
    then obtain f where f: "first_with (contents root) x = Some f"
      using s(2) first_with_None[of "contents root" x] by (cases "first_with (contents root) x") auto
    have fc: "f \<in> set (contents root)" "node_uuid f = x" using first_withD[OF f] by auto
    have ri: "row n \<in> I" if "n \<in> set (contents root)" for n using assms(2) that by (simp add: in_rows_def)
    have k3: "kind (SigNode s) = 3" by (simp add: kind_def)
    have "kind f = kind (SigNode s)"
      using rows_okD(2)[OF assms(1), of "node_ptr f" "kind f" x "node_ptr (SigNode s)" "kind (SigNode s)"]
        ri[OF fc(1)] ri[OF sc] fc(2) s(2) by (simp add: row_def)
    then have f3: "kind f = 3" using k3 by simp
    from f3 have "f \<in> set (map SigNode (n_sigs root))" using fc(1) unfolding comp_contents_sigs[OF assms(3), symmetric] by simp
    moreover have "node_ptr f \<notin> dups (contents root)"
    proof (rule first_kept[OF f, where Q = "\<lambda>n. kind n = 3"])
      show "distinct (map node_ptr (filter (\<lambda>n. kind n = 3) (contents root)))"
        using assms(4) comp_contents_sigs[OF assms(3)] by (simp add: comp_def)
      show "kind f = 3" by (rule f3)
      fix a assume a: "a \<in> set (contents root)" "node_ptr a = node_ptr f"
      then show "kind a = 3"
        using rows_okD(1)[OF assms(1), of "node_ptr f" "kind f" "node_uuid f" "kind a" "node_uuid a"] ri[OF fc(1)] ri[OF a(1)] f3
        by (simp add: row_def)
    qed
    ultimately have "row f \<in> set (kept (contents root) (map srow (n_sigs root)))" by auto
    moreover have "x = snd (snd (row f))" using fc(2) by simp
    ultimately show "x \<in> uuids (map srow (n_sigs m))" using m(2) unfolding P_def by (metis (no_types, lifting) image_eqI)
  qed
  moreover have "uuids (map srow (n_sigs m)) \<subseteq> uuids (map srow (n_sigs root))" using m(2) by (auto simp: P_def)
  ultimately show ?thesis using m by (auto simp: P_def)
qed

section \<open>Components of a key\<close>

definition big :: "packetNode \<Rightarrow> bool" where
  "big n \<longleftrightarrow> kind n = 1 \<or> kind n = 2"

lemma bigE:
  assumes "big n"
  obtains (sub) k where "n = SubNode k" | (uid) u where "n = UidNode u"
  using assms by (cases n) (auto simp: big_def kind_def)

lemma comp_in:
  assumes "kind m = 0" "n \<in> set (contents m)" "big n"
  shows "(row n, map srow (n_sigs n)) \<in> set (n_comps m)" "set (contents n) \<subseteq> set (contents m)"
proof -
  obtain k where m: "m = PubNode k" using assms(1) by (cases m) (auto simp: kind_def)
  have "(row n, map srow (n_sigs n)) \<in> set (n_comps m) \<and> set (contents n) \<subseteq> set (contents m)"
    using assms(3)
  proof (cases rule: bigE)
    case (sub u)
    then have "u \<in> set (pk_SubKeys k)" using assms(2) m by (auto simp: contents_defs)
    then show ?thesis by (auto simp: m sub contents_def key_contents_def n_comps_def n_sigs_def)
  next
    case (uid u)
    then have "u \<in> set (pk_UserIDs k)" using assms(2) m by (auto simp: contents_defs)
    then show ?thesis by (auto simp: m uid contents_def key_contents_def n_comps_def n_sigs_def)
  qed
  then show "(row n, map srow (n_sigs n)) \<in> set (n_comps m)" "set (contents n) \<subseteq> set (contents m)" by blast+
qed

lemma comp_row_in:
  assumes "kind m = 0" "in_rows I (contents m)" "c \<in> set (n_comps m)"
  shows "fst c \<in> I" "set (snd c) \<subseteq> I"
proof -
  obtain k where m: "m = PubNode k" using assms(1) by (cases m) (auto simp: kind_def)
  have "fst c \<in> I \<and> set (snd c) \<subseteq> I"
    using assms(2,3) by (auto simp: m n_comps_def contents_def key_contents_def uid_contents_def subkey_contents_def sig_contents_def)
  then show "fst c \<in> I" "set (snd c) \<subseteq> I" by blast+
qed

text \<open>Storing a component replaces its row of signatures, everywhere its address occurs.\<close>

definition comp_upd :: "packetNode \<Rightarrow> row \<times> row list \<Rightarrow> row \<times> row list" where
  "comp_upd m c = (if fst c = row m then (row m, map srow (n_sigs m)) else c)"

lemma big_put_small:
  assumes "big m"
  shows "trust_put m t = t" "sig_put m s = s"
proof -
  have t: "trust_put m t = t" for t using assms by (cases rule: bigE) (simp_all add: trust_put_def)
  have "map (trust_put m) (sg_Trusts s) = sg_Trusts s" by (simp add: t map_idI)
  with assms show "sig_put m s = s" by (auto elim!: bigE simp: sig_put_def)
  show "trust_put m t = t" by (rule t)
qed

lemma big_put_maps:
  assumes "big m"
  shows "map (trust_put m) ts = ts" "map (sig_put m) ss = ss"
  by (simp_all add: big_put_small[OF assms] map_idI)

lemma uid_put_big:
  assumes "rows_ok I" "big m" "row m \<in> I" "in_rows I (contents m)" "in_rows I (uid_contents u)"
  shows "(urow (uid_put m u), map srow (uid_Signatures (uid_put m u))) = comp_upd m (urow u, map srow (uid_Signatures u))"
    "in_rows I (uid_contents (uid_put m u))"
proof -
  have u: "urow u \<in> I" using assms(5) by (simp add: uid_contents_def)
  have "(urow (uid_put m u), map srow (uid_Signatures (uid_put m u))) = comp_upd m (urow u, map srow (uid_Signatures u))
      \<and> in_rows I (uid_contents (uid_put m u))"
    using assms(2)
  proof (cases rule: bigE)
    case (sub k)
    have "urow (u\<lparr>uid_Trusts := ts, uid_Signatures := ss\<rparr>) = urow u" for ts ss by (simp add: row_simps)
    moreover have "urow u \<noteq> row m" by (simp add: sub row_simps)
    ultimately show ?thesis
      using assms(5) big_put_maps[OF assms(2)]
      by (auto simp: sub uid_put_def comp_upd_def uid_contents_def)
  next
    case (uid v)
    show ?thesis
    proof (cases "p_ptr v = p_ptr u")
      case True
      then have "urow u = row m" using rows_okD(1)[OF assms(1)] u assms(3) by (auto simp: uid row_simps)
      with True assms(4) show ?thesis by (simp add: uid uid_put_def comp_upd_def n_sigs_def contents_def)
    next
      case False
      with assms(5) show ?thesis by (auto simp: uid uid_put_def comp_upd_def row_simps)
    qed
  qed
  then show "(urow (uid_put m u), map srow (uid_Signatures (uid_put m u))) = comp_upd m (urow u, map srow (uid_Signatures u))"
    "in_rows I (uid_contents (uid_put m u))" by blast+
qed

lemma subkey_put_big:
  assumes "rows_ok I" "big m" "row m \<in> I" "in_rows I (contents m)" "in_rows I (subkey_contents u)"
  shows "(krow (subkey_put m u), map srow (pub_Signatures (subkey_put m u))) = comp_upd m (krow u, map srow (pub_Signatures u))"
    "in_rows I (subkey_contents (subkey_put m u))"
proof -
  have u: "krow u \<in> I" using assms(5) by (simp add: subkey_contents_def)
  have "(krow (subkey_put m u), map srow (pub_Signatures (subkey_put m u))) = comp_upd m (krow u, map srow (pub_Signatures u))
      \<and> in_rows I (subkey_contents (subkey_put m u))"
    using assms(2)
  proof (cases rule: bigE)
    case (uid k)
    have "krow (u\<lparr>pub_Trusts := ts, pub_Signatures := ss\<rparr>) = krow u" for ts ss by (simp add: row_simps)
    moreover have "krow u \<noteq> row m" by (simp add: uid row_simps)
    ultimately show ?thesis
      using assms(5) big_put_maps[OF assms(2)]
      by (auto simp: uid subkey_put_def comp_upd_def subkey_contents_def)
  next
    case (sub v)
    show ?thesis
    proof (cases "p_ptr v = p_ptr u")
      case True
      then have "krow u = row m" using rows_okD(1)[OF assms(1)] u assms(3) by (auto simp: sub row_simps)
      with True assms(4) show ?thesis by (simp add: sub subkey_put_def comp_upd_def n_sigs_def contents_def)
    next
      case False
      with assms(5) show ?thesis by (auto simp: sub subkey_put_def comp_upd_def row_simps)
    qed
  qed
  then show "(krow (subkey_put m u), map srow (pub_Signatures (subkey_put m u))) = comp_upd m (krow u, map srow (pub_Signatures u))"
    "in_rows I (subkey_contents (subkey_put m u))" by blast+
qed

lemma comp_put:
  assumes "rows_ok I" "big m" "in_rows I (contents m)" "kind root = 0" "in_rows I (contents root)"
  shows "row (node_put m root) = row root" "map trow (n_trusts (node_put m root)) = map trow (n_trusts root)"
    "map srow (n_sigs (node_put m root)) = map srow (n_sigs root)" "n_comps (node_put m root) = map (comp_upd m) (n_comps root)"
    "in_rows I (contents (node_put m root))"
proof -
  obtain k where root: "root = PubNode k" using assms(4) by (cases root) (auto simp: kind_def)
  have r: "row m \<in> I" using assms(3) contents_head[of m] by (metis in_rows_simps(2))
  have p: "key_put m k = k\<lparr>pub_Trusts := map (trust_put m) (pub_Trusts k), pub_Signatures := map (sig_put m) (pub_Signatures k),
            pk_UserIDs := map (uid_put m) (pk_UserIDs k), pk_SubKeys := map (subkey_put m) (pk_SubKeys k)\<rparr>"
    using assms(2) by (cases rule: bigE) (simp_all add: key_put_def)
  have u: "in_rows I (uid_contents u)" if "u \<in> set (pk_UserIDs k)" for u
    using assms(5) that by (auto simp: root contents_def key_contents_def)
  have v: "in_rows I (subkey_contents u)" if "u \<in> set (pk_SubKeys k)" for u
    using assms(5) that by (auto simp: root contents_def key_contents_def)
  note us = uid_put_big[OF assms(1,2) r assms(3) u] and vs = subkey_put_big[OF assms(1,2) r assms(3) v]
  show "row (node_put m root) = row root" by (simp add: root node_put_def p row_simps)
  show "map trow (n_trusts (node_put m root)) = map trow (n_trusts root)"
    "map srow (n_sigs (node_put m root)) = map srow (n_sigs root)"
    by (simp_all add: root node_put_def p n_trusts_def n_sigs_def big_put_maps[OF assms(2)])
  show "n_comps (node_put m root) = map (comp_upd m) (n_comps root)"
    by (simp add: root node_put_def p n_comps_def us(1) vs(1))
  show "in_rows I (contents (node_put m root))"
    using assms(5) us(2) vs(2)
    by (auto simp: root node_put_def p contents_def key_contents_def big_put_maps[OF assms(2)] row_simps(1))
qed

text \<open>\<open>removeDuplicate\<close> on a component unites the signatures.\<close>

lemma removeDuplicate_big:
  assumes "rows_ok I" "big p" "kind d = kind p" "kind root = 0" "in_rows I (contents root)" "in_rows I (contents p)" "in_rows I (contents d)"
  obtains p2 r2 where "removeDuplicate p root d = Inr (p2, r2)" "row p2 = row p" "big p2" "n_sigs p2 = n_sigs p @ n_sigs d"
    "in_rows I (contents p2)" "row r2 = row root" "kind r2 = 0" "in_rows I (contents r2)" "n_trusts r2 = n_trusts root" "n_sigs r2 = n_sigs root"
    "n_comps r2 = filter (\<lambda>c. fst (fst c) \<noteq> node_ptr d) (n_comps root)"
proof -
  obtain k where root: "root = PubNode k" using assms(4) by (cases root) (auto simp: kind_def)
  have d: "row d \<in> I" using assms(7) contents_head[of d] by (metis in_rows_simps(2))
  have cr: "fst c \<in> I" if "c \<in> set (n_comps root)" for c using comp_row_in[OF assms(4,5) that] by simp
  from assms(2) show thesis
  proof (cases rule: bigE)
    case (sub u)
    then obtain v where v: "d = SubNode v" using assms(3) by (cases d) (auto simp: kind_def)
    have ne: "p_ptr w \<noteq> p_ptr v" if "w \<in> set (pk_UserIDs k)" for w
    proof
      assume e: "p_ptr w = p_ptr v"
      have "urow w \<in> fst ` set (n_comps root)" using that by (simp add: root n_comps_def image_Un image_image)
      then have "urow w \<in> I" using cr by auto
      then show False using rows_okD(1)[OF assms(1), of "p_ptr w" 2 "p_UUID w" 1 "p_UUID v"] d e by (simp add: v row_simps)
    qed
    have f: "filter (\<lambda>c. fst (fst c) \<noteq> p_ptr v) (map (\<lambda>u. (urow u, map srow (uid_Signatures u))) (pk_UserIDs k))
        = map (\<lambda>u. (urow u, map srow (uid_Signatures u))) (pk_UserIDs k)"
      by (rule filter_True) (use ne in \<open>auto simp: row_simps simp del: row_fst\<close>)
    define p2 where "p2 = SubNode (u\<lparr>pub_Signatures := pub_Signatures u @ pub_Signatures v\<rparr>)"
    define r2 where "r2 = PubNode (k\<lparr>pk_SubKeys := subkeys_without (p_ptr v) (pk_SubKeys k)\<rparr>)"
    have "removeDuplicate p root d = Inr (p2, r2)" by (simp add: removeDuplicate_def sub v root p2_def r2_def)
    moreover have "row p2 = row p" "big p2" "row r2 = row root" "kind r2 = 0" "n_sigs p2 = n_sigs p @ n_sigs d"
      "n_trusts r2 = n_trusts root" "n_sigs r2 = n_sigs root"
      by (simp_all add: p2_def r2_def sub v root row_simps big_def kind_def n_sigs_def n_trusts_def)
    moreover have "in_rows I (contents p2)"
      using assms(6,7) by (auto simp: p2_def sub v contents_def subkey_contents_def row_simps)
    moreover have "in_rows I (contents r2)"
      using assms(5) by (auto simp: r2_def root contents_def key_contents_def subkeys_without_def row_simps)
    moreover have "n_comps r2 = filter (\<lambda>c. fst (fst c) \<noteq> node_ptr d) (n_comps root)"
    proof -
      have "node_ptr d = p_ptr v" by (simp add: v node_ptr_def node_packet_def Packet.defs)
      then show ?thesis using f by (simp add: r2_def root n_comps_def subkeys_without_def filter_map comp_def row_simps)
    qed
    ultimately show thesis using that[of p2 r2] by simp
  next
    case (uid u)
    then obtain v where v: "d = UidNode v" using assms(3) by (cases d) (auto simp: kind_def)
    have ne: "p_ptr w \<noteq> p_ptr v" if "w \<in> set (pk_SubKeys k)" for w
    proof
      assume e: "p_ptr w = p_ptr v"
      have "krow w \<in> fst ` set (n_comps root)" using that by (simp add: root n_comps_def image_Un image_image)
      then have "krow w \<in> I" using cr by auto
      then show False using rows_okD(1)[OF assms(1), of "p_ptr w" 1 "p_UUID w" 2 "p_UUID v"] d e by (simp add: v row_simps)
    qed
    have f: "filter (\<lambda>c. fst (fst c) \<noteq> p_ptr v) (map (\<lambda>u. (krow u, map srow (pub_Signatures u))) (pk_SubKeys k))
        = map (\<lambda>u. (krow u, map srow (pub_Signatures u))) (pk_SubKeys k)"
      by (rule filter_True) (use ne in \<open>auto simp: row_simps simp del: row_fst\<close>)
    define p2 where "p2 = UidNode (u\<lparr>uid_Signatures := uid_Signatures u @ uid_Signatures v\<rparr>)"
    define r2 where "r2 = PubNode (k\<lparr>pk_UserIDs := uids_without (p_ptr v) (pk_UserIDs k)\<rparr>)"
    have "removeDuplicate p root d = Inr (p2, r2)" by (simp add: removeDuplicate_def uid v root p2_def r2_def)
    moreover have "row p2 = row p" "big p2" "row r2 = row root" "kind r2 = 0" "n_sigs p2 = n_sigs p @ n_sigs d"
      "n_trusts r2 = n_trusts root" "n_sigs r2 = n_sigs root"
      by (simp_all add: p2_def r2_def uid v root row_simps big_def kind_def n_sigs_def n_trusts_def)
    moreover have "in_rows I (contents p2)"
      using assms(6,7) by (auto simp: p2_def uid v contents_def uid_contents_def row_simps)
    moreover have "in_rows I (contents r2)"
      using assms(5) by (auto simp: r2_def root contents_def key_contents_def uids_without_def row_simps)
    moreover have "n_comps r2 = filter (\<lambda>c. fst (fst c) \<noteq> node_ptr d) (n_comps root)"
    proof -
      have "node_ptr d = p_ptr v" by (simp add: v node_ptr_def node_packet_def Packet.defs)
      then show ?thesis using f by (simp add: r2_def root n_comps_def uids_without_def filter_map comp_def row_simps)
    qed
    ultimately show thesis using that[of p2 r2] by simp
  qed
qed

lemma node_get_big:
  assumes "rows_ok I" "big p0" "kind root = 0" "in_rows I (contents root)" "row p0 \<in> fst ` set (n_comps root)"
  shows "row (node_get p0 root) = row p0" "big (node_get p0 root)" "(row p0, map srow (n_sigs (node_get p0 root))) \<in> set (n_comps root)"
    "in_rows I (contents (node_get p0 root))"
proof -
  obtain k where root: "root = PubNode k" using assms(3) by (cases root) (auto simp: kind_def)
  have ex: "\<exists>n \<in> set (contents root). row n = row p0"
    using assms(5) by (auto simp: root n_comps_def contents_def key_contents_def uid_contents_def subkey_contents_def)
  have same: "same_node p0 n" if "row n = row p0" for n
    using that assms(2) by (cases p0; cases n) (auto simp: same_node_def row_def kind_def)
  then obtain m where f: "find (same_node p0) (contents root) = Some m"
    using ex by (cases "find (same_node p0) (contents root)") (auto simp: find_None_iff)
  then have m: "m \<in> set (contents root)" "same_node p0 m" by (auto simp: find_Some_iff)
  then have k: "kind m = kind p0" "node_ptr m = node_ptr p0" by (auto simp: same_node_def kind_def split: packetNode.splits)
  have mI: "row m \<in> I" using m(1) assms(4) by (simp add: in_rows_def)
  have "row p0 \<in> I" using comp_row_in(1)[OF assms(3,4)] assms(5) by auto
  then have r: "row m = row p0"
    using rows_okD(1)[OF assms(1), of "node_ptr m" "kind m" "node_uuid m" "kind p0" "node_uuid p0"] mI k by (simp add: row_def)
  have b: "big m" using assms(2) k by (simp add: big_def)
  note c = comp_in[OF assms(3) m(1) b]
  have g: "node_get p0 root = m" by (simp add: node_get_def f)
  show "row (node_get p0 root) = row p0" "big (node_get p0 root)" "(row p0, map srow (n_sigs (node_get p0 root))) \<in> set (n_comps root)"
    using r b c(1) by (simp_all add: g)
  show "in_rows I (contents (node_get p0 root))" using c(2) assms(4) by (auto simp: g in_rows_def)
qed

lemma comp_upd_twice: "row m = row p \<Longrightarrow> comp_upd m (comp_upd p c) = comp_upd m c"
  by (simp add: comp_upd_def)

lemma comp_step:
  assumes I: "rows_ok I" and h: "h_ok h" and k: "big node" "kind p0 = kind node" "kind root = 0"
    and r: "in_rows I (contents root)" "in_rows I (contents node)" "row p0 \<in> fst ` set (n_comps root)"
    and ds: "\<And>ps. (row p0, ps) \<in> set (n_comps root) \<Longrightarrow> distinct (map fst (ps @ map srow (n_sigs node)))"
  obtains r' ps ss where "dup_step (Suc (Suc (Suc n))) h p0 node root = Inr r'" "row r' = row root" "in_rows I (contents r')"
    "map trow (n_trusts r') = map trow (n_trusts root)" "map srow (n_sigs r') = map srow (n_sigs root)"
    "(row p0, ps) \<in> set (n_comps root)" "set ss \<subseteq> set ps \<union> set (map srow (n_sigs node))" "distinct (map fst ss)"
    "uuids ss = uuids ps \<union> uuids (map srow (n_sigs node))"
    "n_comps r' = map (\<lambda>c. if fst c = row p0 then (row p0, ss) else c) (filter (\<lambda>c. fst (fst c) \<noteq> node_ptr node) (n_comps root))"
proof -
  have b0: "big p0" using k by (simp add: big_def)
  define p where "p = node_get p0 root"
  note g = node_get_big[OF I b0 k(3) r(1,3), folded p_def]
  have kp: "kind node = kind p" using row_kind[OF g(1)] k(2) by simp
  obtain p2 r2 where rd: "removeDuplicate p root node = Inr (p2, r2)" "row p2 = row p" "big p2" "n_sigs p2 = n_sigs p @ n_sigs node"
    "in_rows I (contents p2)" "row r2 = row root" "kind r2 = 0" "in_rows I (contents r2)" "n_trusts r2 = n_trusts root" "n_sigs r2 = n_sigs root"
    "n_comps r2 = filter (\<lambda>c. fst (fst c) \<noteq> node_ptr node) (n_comps root)"
    by (rule removeDuplicate_big[OF I g(2) kp k(3) r(1) g(4) r(2)])
  have k2: "kind p2 \<in> {1, 2}" using rd(3) by (simp add: big_def)
  have d2: "distinct (map fst (map srow (n_sigs p2)))" using ds[OF g(3)] by (simp add: rd(4))
  obtain p3 where p3: "dedup (Suc (Suc (Suc n))) None p2 = Inr p3" "row p3 = row p2" "in_rows I (contents p3)"
    "map srow (n_sigs p3) = kept (contents p2) (map srow (n_sigs p2))" "uuids (map srow (n_sigs p3)) = uuids (map srow (n_sigs p2))"
    using dedup_comp[OF I rd(5) k2 d2] by blast
  have b3: "big p3" using row_kind[OF p3(2)] rd(3) by (simp add: big_def)
  define rt where "rt = node_put p3 (node_put p2 r2)"
  have root_ok: "row x = row root \<and> in_rows I (contents x) \<and> kind x = 0 \<and> map trow (n_trusts x) = map trow (n_trusts root)
      \<and> map srow (n_sigs x) = map srow (n_sigs root)"
    if "x = node_put m y" "big m" "in_rows I (contents m)" "row y = row root" "in_rows I (contents y)" "kind y = 0"
      "map trow (n_trusts y) = map trow (n_trusts root)" "map srow (n_sigs y) = map srow (n_sigs root)" for m x y
    using comp_put[OF I that(2,3,6,5)] that row_kind[of x y] by simp
  have ok2: "row (node_put p2 r2) = row root \<and> in_rows I (contents (node_put p2 r2)) \<and> kind (node_put p2 r2) = 0
      \<and> map trow (n_trusts (node_put p2 r2)) = map trow (n_trusts root) \<and> map srow (n_sigs (node_put p2 r2)) = map srow (n_sigs root)"
    by (rule root_ok[OF refl rd(3,5,6,8,7)]) (simp_all add: rd)
  have ok3: "row rt = row root \<and> in_rows I (contents rt) \<and> kind rt = 0
      \<and> map trow (n_trusts rt) = map trow (n_trusts root) \<and> map srow (n_sigs rt) = map srow (n_sigs root)"
    by (rule root_ok[OF rt_def b3 p3(3)]) (use ok2 in simp_all)
  have c2: "n_comps (node_put p2 r2) = map (comp_upd p2) (n_comps r2)" by (rule comp_put[OF I rd(3,5,7,8)])
  have c3: "n_comps rt = map (comp_upd p3) (n_comps r2)"
    using comp_put(4)[OF I b3 p3(3), of "node_put p2 r2"] ok2 c2 p3(2) by (simp add: rt_def comp_upd_twice comp_def)
  define r' where "r' = (case h of None \<Rightarrow> rt | Some f \<Rightarrow> node_put (f p3) rt)"
  have ds': "dup_step (Suc (Suc (Suc n))) h p0 node root = Inr r'"
    by (cases h) (simp_all add: dup_step_def p_def[symmetric] rd(1) p3(1) r'_def rt_def del: dedup.simps)
  have bc: "big (count_up p3)" "in_rows I (contents (count_up p3))" using b3 p3(3) by (simp_all add: big_def count_up_facts)
  have ok': "row r' = row root \<and> in_rows I (contents r') \<and> kind r' = 0
      \<and> map trow (n_trusts r') = map trow (n_trusts root) \<and> map srow (n_sigs r') = map srow (n_sigs root)"
    using h ok3 root_ok[OF refl bc, of rt] by (auto simp: h_ok_def r'_def)
  have cu: "comp_upd (count_up p3) = comp_upd p3" by (simp add: comp_upd_def[abs_def] count_up_facts(1,5) cong: if_cong)
  have c': "n_comps r' = map (comp_upd p3) (n_comps r2)"
    using h c3 comp_put(4)[OF I bc, of rt] ok3 by (auto simp: h_ok_def r'_def cu comp_upd_twice comp_def)
  have r3: "row p3 = row p0" using p3(2) rd(2) g(1) by simp
  show thesis
  proof (rule that)
    show "dup_step (Suc (Suc (Suc n))) h p0 node root = Inr r'" by (rule ds')
    show "(row p0, map srow (n_sigs p)) \<in> set (n_comps root)" by (rule g(3))
    show "distinct (map fst (map srow (n_sigs p3)))" using d2 by (simp add: p3(4) distinct_map_filter del: map_map)
    show "set (map srow (n_sigs p3)) \<subseteq> set (map srow (n_sigs p)) \<union> set (map srow (n_sigs node))"
      unfolding p3(4) by (auto simp: rd(4))
    show "uuids (map srow (n_sigs p3)) = uuids (map srow (n_sigs p)) \<union> uuids (map srow (n_sigs node))"
      unfolding p3(5) by (simp add: rd(4) image_Un)
    show "n_comps r' = map (\<lambda>c. if fst c = row p0 then (row p0, map srow (n_sigs p3)) else c)
        (filter (\<lambda>c. fst (fst c) \<noteq> node_ptr node) (n_comps root))"
      by (simp add: c' rd(11) comp_upd_def r3)
  qed (use ok' in simp_all)
qed

section \<open>The loop over a key\<close>

definition tree_ok :: "PrimaryKey \<Rightarrow> bool" where
  "tree_ok k \<longleftrightarrow> distinct (map node_ptr (key_contents k)) \<and> rows_ok (row ` set (key_contents k))"

definition pairs :: "(row \<times> row list) list \<Rightarrow> (gostring \<times> gostring) set" where
  "pairs cs = (\<Union>c \<in> set cs. (\<lambda>x. (snd (snd (fst c)), x)) ` uuids (snd c))"

definition apart :: "(row \<times> row list) list \<Rightarrow> bool" where
  "apart cs \<longleftrightarrow> distinct (map (\<lambda>c. fst (fst c)) cs) \<and> (\<forall>c \<in> set cs. distinct (map fst (snd c)))
     \<and> (\<forall>c \<in> set cs. \<forall>c' \<in> set cs. fst c \<noteq> fst c' \<longrightarrow> fst ` set (snd c) \<inter> fst ` set (snd c') = {})"

definition key_inv :: "row set \<Rightarrow> packetNode \<Rightarrow> packetNode list \<Rightarrow> packetNode \<Rightarrow> bool" where
  "key_inv I root0 pre m \<longleftrightarrow> row m = row root0 \<and> in_rows I (contents m)
     \<and> map trow (n_trusts m) = kept pre (map trow (n_trusts root0)) \<and> map srow (n_sigs m) = kept pre (map srow (n_sigs root0))
     \<and> map fst (n_comps m) = kept pre (map fst (n_comps root0))
     \<and> (\<forall>c \<in> set (n_comps root0). fst (fst c) \<notin> node_ptr ` set pre \<longrightarrow> c \<in> set (n_comps m))
     \<and> apart (n_comps m) \<and> pairs (n_comps m) = pairs (n_comps root0)"

lemma kept_snoc_filter:
  "first_with pre (node_uuid node) \<noteq> None \<Longrightarrow> kept (pre @ [node]) rs = filter (\<lambda>r. fst r \<noteq> node_ptr node) (kept pre rs)"
  by (auto simp: dups_snoc intro: filter_cong)

lemma kept_snoc_other:
  assumes "rows_ok I" "row node \<in> I" "set rs \<subseteq> I" "\<And>r. r \<in> set rs \<Longrightarrow> fst (snd r) \<noteq> kind node"
  shows "kept (pre @ [node]) rs = kept pre rs"
proof (rule filter_cong[OF refl])
  fix r
  assume r: "r \<in> set rs"
  then have "(fst r, fst (snd r), snd (snd r)) \<in> I" using assms(3) by auto
  then have "fst r \<noteq> node_ptr node"
    using rows_okD(1)[OF assms(1), of "fst r" "fst (snd r)" "snd (snd r)" "kind node" "node_uuid node"] assms(2) assms(4)[OF r]
    by (auto simp: row_def)
  then show "(fst r \<notin> dups (pre @ [node])) = (fst r \<notin> dups pre)" by (simp add: dups_snoc)
qed

lemma comp_rows_kind: "c \<in> set (n_comps root) \<Longrightarrow> fst (snd (fst c)) \<in> {1, 2}"
  by (cases root) (auto simp: n_comps_def kind_def)

lemma row_kinds: "r \<in> set (map srow ss) \<Longrightarrow> fst (snd r) = 3" "r \<in> set (map trow ts) \<Longrightarrow> fst (snd r) = 4"
  by (auto simp: kind_def)

lemma comps_rows:
  assumes "kind root = 0" "in_rows I (contents root)"
  shows "set (map fst (n_comps root)) \<subseteq> I"
  using comp_row_in(1)[OF assms] by auto

lemma key_inv_new:
  assumes "key_inv I root0 pre m" "first_with pre (node_uuid node) = None"
  shows "key_inv I root0 (pre @ [node]) m"
  using assms by (auto simp: key_inv_def kept_snoc_new)

lemma key_inv_small:
  assumes I: "rows_ok I" and h: "h_ok h" and k0: "kind root0 = 0" and r0: "in_rows I (contents root0)"
    and c: "contents root0 = pre @ node # post" and inv: "key_inv I root0 pre m"
    and f: "first_with pre (node_uuid node) = Some p0" and sm: "small node"
  shows "\<exists>m'. dup_step (Suc (Suc (Suc n))) h p0 node m = Inr m' \<and> key_inv I root0 (pre @ [node]) m'"
proof -
  have rows: "in_rows I (pre @ [node])" using r0 c by (simp add: in_rows_def)
  note k = first_with_kind[OF I rows f]
  have sp0: "small p0" using k(1) sm by (simp add: small_def)
  have p0c: "p0 \<in> set (contents root0)" using k(2) c by simp
  have p0r: "in_rows I (contents p0)" using small_contents_sub[OF p0c sp0] r0 by (auto simp: in_rows_def)
  have mr: "in_rows I (contents m)" "row m = row root0" using inv by (simp_all add: key_inv_def)
  have lt: "kind m < kind node" using row_kind[OF mr(2)] k0 sm by (simp add: small_def)
  obtain m' where m': "dup_step (Suc (Suc (Suc n))) h p0 node m = Inr m'" "row m' = row m" "in_rows I (contents m')"
    "shape m' = shape (rm node m)"
    using small_step[OF I h sm k(1) p0r mr(1) lt, of "Suc (Suc (Suc n))"] dedup_small[OF I] by blast
  note rm = rm_small[OF sm lt mr(1)]
  have nI: "row node \<in> I" using rows by simp
  have ne: "first_with pre (node_uuid node) \<noteq> None" using f by simp
  have t: "map trow (n_trusts m') = kept (pre @ [node]) (map trow (n_trusts root0))"
  proof -
    have "map trow (n_trusts m') = map trow (n_trusts (rm node m))" using m'(4) by (simp add: shape_def)
    also have "\<dots> = kept (pre @ [node]) (map trow (n_trusts root0))"
      using inv kept_snoc_dup[OF I ne nI n_sigs_rows(2)[OF r0], of 4] row_kinds(2) unfolding rm(5) key_inv_def by metis
    finally show ?thesis .
  qed
  have s: "map srow (n_sigs m') = kept (pre @ [node]) (map srow (n_sigs root0))"
  proof -
    have "map srow (n_sigs m') = map srow (n_sigs (rm node m))" using m'(4) by (simp add: shape_def)
    also have "\<dots> = kept (pre @ [node]) (map srow (n_sigs root0))"
      using inv kept_snoc_dup[OF I ne nI n_sigs_rows(1)[OF r0], of 3] row_kinds(1) unfolding rm(6) key_inv_def by metis
    finally show ?thesis .
  qed
  have cs: "n_comps m' = n_comps m" using m'(4) rm(4) by (simp add: shape_def)
  have "kept (pre @ [node]) (map fst (n_comps root0)) = kept pre (map fst (n_comps root0))"
  proof (rule kept_snoc_other[OF I nI comps_rows[OF k0 r0]])
    fix r assume "r \<in> set (map fst (n_comps root0))"
    then obtain c where "c \<in> set (n_comps root0)" "r = fst c" by auto
    then have "fst (snd r) \<in> {1, 2}" using comp_rows_kind by blast
    then show "fst (snd r) \<noteq> kind node" using sm by (auto simp: small_def)
  qed
  with t s cs m'(1-3) inv show ?thesis by (auto simp: key_inv_def)
qed

text \<open>Two components united: the first takes the signatures of both, the second is gone.\<close>

lemma apart_unique: "apart cs \<Longrightarrow> c \<in> set cs \<Longrightarrow> c' \<in> set cs \<Longrightarrow> fst (fst c) = fst (fst c') \<Longrightarrow> c = c'"
  unfolding apart_def distinct_map by (meson inj_onD)

lemma united:
  assumes a: "apart cs" and p: "(rp, ps) \<in> set cs" and d: "(rd, ds) \<in> set cs" and ne: "fst rp \<noteq> fst rd"
    and ss: "set ss \<subseteq> set ps \<union> set ds" "distinct (map fst ss)" "uuids ss = uuids ps \<union> uuids ds" and u: "snd (snd rp) = snd (snd rd)"
    and cs': "cs' = map (\<lambda>c. if fst c = rp then (rp, ss) else c) (filter (\<lambda>c. fst (fst c) \<noteq> fst rd) cs)"
  shows "apart cs'" "pairs cs' = pairs cs"
proof -
  have el: "c \<in> set cs' \<longleftrightarrow> c = (rp, ss) \<or> (c \<in> set cs \<and> fst c \<noteq> rp \<and> fst (fst c) \<noteq> fst rd)" for c
  proof
    assume "c \<in> set cs'"
    then show "c = (rp, ss) \<or> (c \<in> set cs \<and> fst c \<noteq> rp \<and> fst (fst c) \<noteq> fst rd)" by (auto simp: cs' split: if_splits)
  next
    define g where "g c = (if fst c = rp then (rp, ss) else c)" for c :: "row \<times> row list"
    have "cs' = map g (filter (\<lambda>c. fst (fst c) \<noteq> fst rd) cs)" unfolding cs' g_def[abs_def] ..
    then have g: "g x \<in> set cs'" if "x \<in> set cs" "fst (fst x) \<noteq> fst rd" for x using that by simp
    have "g (rp, ps) = (rp, ss)" "fst c \<noteq> rp \<Longrightarrow> g c = c" unfolding g_def by simp_all
    moreover assume "c = (rp, ss) \<or> (c \<in> set cs \<and> fst c \<noteq> rp \<and> fst (fst c) \<noteq> fst rd)"
    ultimately show "c \<in> set cs'" using g[OF p] g[of c] ne by (metis fst_conv)
  qed
  have heads: "map (\<lambda>c. fst (fst c)) cs' = map (\<lambda>c. fst (fst c)) (filter (\<lambda>c. fst (fst c) \<noteq> fst rd) cs)"
    unfolding cs' map_map by (rule map_cong[OF refl]) (simp only: comp_def fst_conv split: if_split, blast)
  have dj: "fst ` set ss \<inter> fst ` set (snd c) = {}" if c: "c \<in> set cs" "fst c \<noteq> rp" "fst (fst c) \<noteq> fst rd" for c
  proof -
    have "fst ` set ps \<inter> fst ` set (snd c) = {}" "fst ` set ds \<inter> fst ` set (snd c) = {}"
    proof -
      have rp: "rp \<noteq> fst c" "rd \<noteq> fst c" using c(2,3) by auto
      have ap: "fst e \<noteq> fst c \<Longrightarrow> fst ` set (snd e) \<inter> fst ` set (snd c) = {}" if "e \<in> set cs" for e
        using a that c(1) unfolding apart_def by blast
      show "fst ` set ps \<inter> fst ` set (snd c) = {}" "fst ` set ds \<inter> fst ` set (snd c) = {}"
        using ap[OF p] ap[OF d] rp by simp_all
    qed
    then have "fst ` (set ps \<union> set ds) \<inter> fst ` set (snd c) = {}" by auto
    with ss(1) show ?thesis by (meson disjoint_iff image_mono subsetD)
  qed
  show "apart cs'"
    unfolding apart_def
  proof (intro conjI ballI impI)
    show "distinct (map (\<lambda>c. fst (fst c)) cs')" unfolding heads using a by (simp add: apart_def distinct_map_filter)
  next
    fix c assume "c \<in> set cs'"
    then show "distinct (map fst (snd c))" using a ss(2) unfolding el apart_def by auto
  next
    fix c c' assume c: "c \<in> set cs'" "c' \<in> set cs'" "fst c \<noteq> fst c'"
    show "fst ` set (snd c) \<inter> fst ` set (snd c') = {}"
    proof (cases "fst c = rp")
      case True
      with c(1) have "c = (rp, ss)" unfolding el by auto
      with c(2,3) dj[of c'] show ?thesis unfolding el by auto
    next
      case False
      then have c1: "c \<in> set cs" "fst (fst c) \<noteq> fst rd" using c(1) unfolding el by auto
      show ?thesis
      proof (cases "fst c' = rp")
        case True
        with c(2) have "c' = (rp, ss)" unfolding el by auto
        with dj[OF c1(1) False c1(2)] show ?thesis by auto
      next
        case False
        then have "c' \<in> set cs" using c(2) unfolding el by auto
        with c1(1) c(3) a show ?thesis unfolding apart_def by blast
      qed
    qed
  qed
  have un: "c = (rp, ps)" if "c \<in> set cs" "fst c = rp" for c using apart_unique[OF a that(1) p] that(2) by simp
  have ud: "c = (rd, ds)" if "c \<in> set cs" "fst (fst c) = fst rd" for c using apart_unique[OF a that(1) d] that(2) by simp
  show "pairs cs' = pairs cs"
  proof (intro set_eqI iffI)
    fix q assume "q \<in> pairs cs'"
    then obtain c x where c: "c \<in> set cs'" "x \<in> uuids (snd c)" "q = (snd (snd (fst c)), x)" unfolding pairs_def by blast
    show "q \<in> pairs cs"
    proof (cases "c = (rp, ss)")
      case True
      then have "x \<in> uuids ps \<or> x \<in> uuids ds" using c(2) ss(3) by auto
      then show ?thesis
      proof
        assume "x \<in> uuids ps"
        then show ?thesis using p c(3) True unfolding pairs_def by (intro UN_I[OF p]) auto
      next
        assume "x \<in> uuids ds"
        then show ?thesis using d c(3) True u unfolding pairs_def by (intro UN_I[OF d]) auto
      qed
    next
      case False
      then have "c \<in> set cs" using c(1) unfolding el by simp
      with c(2,3) show ?thesis unfolding pairs_def by blast
    qed
  next
    fix q assume "q \<in> pairs cs"
    then obtain c x where c: "c \<in> set cs" "x \<in> uuids (snd c)" "q = (snd (snd (fst c)), x)" unfolding pairs_def by blast
    have "(rp, ss) \<in> set cs'" unfolding el by simp
    moreover have "x \<in> uuids ss \<and> snd (snd (fst c)) = snd (snd rp)" if "c \<notin> set cs'"
    proof -
      from that c(1) have "fst c = rp \<or> fst (fst c) = fst rd" unfolding el by auto
      then have "c = (rp, ps) \<or> c = (rd, ds)" using un[OF c(1)] ud[OF c(1)] by blast
      then show ?thesis
      proof
        assume "c = (rp, ps)"
        then show ?thesis using c(2) unfolding ss(3) by simp
      next
        assume "c = (rd, ds)"
        then show ?thesis using c(2) u unfolding ss(3) by simp
      qed
    qed
    ultimately have "\<exists>e \<in> set cs'. x \<in> uuids (snd e) \<and> snd (snd (fst c)) = snd (snd (fst e))"
      using c(2) by (metis fst_conv snd_conv)
    then show "q \<in> pairs cs'" unfolding pairs_def c(3) by blast
  qed
qed

lemma key_inv_big:
  assumes I: "rows_ok I" and h: "h_ok h" and k0: "kind root0 = 0" and r0: "in_rows I (contents root0)"
    and ptrs: "distinct (map node_ptr (contents root0))"
    and c: "contents root0 = pre @ node # post" and inv: "key_inv I root0 pre m"
    and f: "first_with pre (node_uuid node) = Some p0" and b: "big node"
  shows "\<exists>m'. dup_step (Suc (Suc (Suc n))) h p0 node m = Inr m' \<and> key_inv I root0 (pre @ [node]) m'"
proof -
  have rows: "in_rows I (pre @ [node])" using r0 c by (simp add: in_rows_def)
  note k = first_with_kind[OF I rows f]
  have b0: "big p0" using k(1) b by (simp add: big_def)
  have nc: "node \<in> set (contents root0)" "p0 \<in> set (contents root0)" using c k(2) by simp_all
  have nr: "in_rows I (contents node)" using comp_in(2)[OF k0 nc(1) b] r0 by (auto simp: in_rows_def)
  have nptr: "node_ptr node \<notin> node_ptr ` set pre" using ptrs unfolding c by auto
  have m: "in_rows I (contents m)" "row m = row root0" "apart (n_comps m)" "map fst (n_comps m) = kept pre (map fst (n_comps root0))"
    using inv by (simp_all add: key_inv_def)
  have km: "kind m = 0" using row_kind[OF m(2)] k0 by simp
  have "node_ptr p0 \<notin> dups pre"
    by (rule first_kept[OF f, where Q = "\<lambda>_. True"]) (use ptrs in \<open>simp_all add: c\<close>)
  moreover have "row p0 \<in> set (map fst (n_comps root0))" using comp_in(1)[OF k0 nc(2) b0] by force
  ultimately have p0m: "row p0 \<in> fst ` set (n_comps m)" using m(4) by (metis (no_types, lifting) row_fst(1) list.set_map mem_Collect_eq set_filter)
  have dm: "(row node, map srow (n_sigs node)) \<in> set (n_comps m)"
    using inv comp_in(1)[OF k0 nc(1) b] nptr unfolding key_inv_def by force
  have pne: "node_ptr p0 \<noteq> node_ptr node" using nptr k(2) by (metis imageI)
  have ds: "distinct (map fst (ps @ map srow (n_sigs node)))" if "(row p0, ps) \<in> set (n_comps m)" for ps
  proof -
    have "row p0 \<noteq> row node" using pne by (simp add: row_def)
    then have "fst ` set ps \<inter> fst ` set (map srow (n_sigs node)) = {}"
      using m(3) that dm unfolding apart_def by (metis fst_conv snd_conv)
    moreover have "distinct (map fst ps)" "distinct (map fst (map srow (n_sigs node)))"
      using m(3) that dm unfolding apart_def by (metis snd_conv)+
    ultimately show ?thesis by (simp del: map_map)
  qed
  obtain m' ps ss where s: "dup_step (Suc (Suc (Suc n))) h p0 node m = Inr m'" "row m' = row m" "in_rows I (contents m')"
    "map trow (n_trusts m') = map trow (n_trusts m)" "map srow (n_sigs m') = map srow (n_sigs m)"
    "(row p0, ps) \<in> set (n_comps m)" "set ss \<subseteq> set ps \<union> set (map srow (n_sigs node))" "distinct (map fst ss)"
    "uuids ss = uuids ps \<union> uuids (map srow (n_sigs node))"
    "n_comps m' = map (\<lambda>c. if fst c = row p0 then (row p0, ss) else c) (filter (\<lambda>c. fst (fst c) \<noteq> node_ptr node) (n_comps m))"
    by (rule comp_step[OF I h b k(1) km m(1) nr p0m ds, where n = n])
  have uu: "node_uuid p0 = node_uuid node" using first_withD[OF f] by simp
  note un = united[OF m(3) s(6) dm, of ss "n_comps m'"]
  have ap: "apart (n_comps m')" "pairs (n_comps m') = pairs (n_comps m)"
    using un s(7-10) pne uu by simp_all
  have heads: "map fst (n_comps m') = kept (pre @ [node]) (map fst (n_comps root0))"
  proof -
    have "map fst (n_comps m') = map fst (filter (\<lambda>c. fst (fst c) \<noteq> node_ptr node) (n_comps m))" by (simp add: s(10))
    also have "\<dots> = filter (\<lambda>r. fst r \<noteq> node_ptr node) (map fst (n_comps m))" by (simp add: filter_map comp_def)
    also have "\<dots> = kept (pre @ [node]) (map fst (n_comps root0))" unfolding m(4) using f by (simp add: kept_snoc_filter)
    finally show ?thesis .
  qed
  have nI: "row node \<in> I" using rows by simp
  have kn: "kind node \<noteq> 3" "kind node \<noteq> 4" using b by (auto simp: big_def)
  have tr: "kept (pre @ [node]) (map trow (n_trusts root0)) = kept pre (map trow (n_trusts root0))"
    by (rule kept_snoc_other[OF I nI n_sigs_rows(2)[OF r0]]) (use kn row_kinds(2) in metis)
  have sg: "kept (pre @ [node]) (map srow (n_sigs root0)) = kept pre (map srow (n_sigs root0))"
    by (rule kept_snoc_other[OF I nI n_sigs_rows(1)[OF r0]]) (use kn row_kinds(1) in metis)
  have rest: "cc \<in> set (n_comps m')" if "cc \<in> set (n_comps root0)" "fst (fst cc) \<notin> node_ptr ` set (pre @ [node])" for cc
  proof -
    have "cc \<in> set (n_comps m)" using inv that unfolding key_inv_def by auto
    moreover have "fst cc \<noteq> row p0" using that(2) k(2) by (auto simp: row_def)
    ultimately show ?thesis using that(2) by (force simp: s(10) image_iff)
  qed
  have "key_inv I root0 (pre @ [node]) m'"
    using inv s(2-5) ap heads tr sg rest by (simp add: key_inv_def)
  with s(1) show ?thesis by blast
qed

section \<open>A key without duplicates\<close>

lemma subseq_sub: "subseq xs ys \<Longrightarrow> set xs \<subseteq> set ys"
  by (induction rule: list_emb.induct) auto

lemma subseq_concat: "(\<And>x. x \<in> set xs \<Longrightarrow> subseq (f x) (g x)) \<Longrightarrow> subseq (concat (map f xs)) (concat (map g xs))"
  by (induction xs) (auto intro: list_emb_append_mono)

definition flat :: "row \<times> row list \<Rightarrow> nat list" where
  "flat c = fst (fst c) # map fst (snd c)"

lemma flat_sigs: "subseq (map fst (map srow ss)) (map node_ptr (concat (map sig_contents ss)))"
proof -
  have "subseq (concat (map (\<lambda>s. [node_ptr (SigNode s)]) ss)) (concat (map (\<lambda>s. map node_ptr (sig_contents s)) ss))"
    by (rule subseq_concat) (simp add: sig_contents_def)
  then show ?thesis by (simp add: map_concat comp_def concat_map_singleton)
qed

lemma flat_comps: "subseq (concat (map flat (n_comps (PubNode k)))) (map node_ptr (key_contents k))"
proof -
  have u: "subseq (flat (urow u, map srow (uid_Signatures u))) (map node_ptr (uid_contents u))" for u
    using flat_sigs[of "uid_Signatures u"] by (simp add: flat_def uid_contents_def del: map_map) (metis subseq_drop_many)
  have v: "subseq (flat (krow u, map srow (pub_Signatures u))) (map node_ptr (subkey_contents u))" for u
    using flat_sigs[of "pub_Signatures u"] by (simp add: flat_def subkey_contents_def del: map_map) (metis subseq_drop_many)
  have "subseq (concat (map (\<lambda>u. flat (urow u, map srow (uid_Signatures u))) (pk_UserIDs k)))
      (concat (map (\<lambda>u. map node_ptr (uid_contents u)) (pk_UserIDs k)))" by (rule subseq_concat[OF u])
  moreover have "subseq (concat (map (\<lambda>u. flat (krow u, map srow (pub_Signatures u))) (pk_SubKeys k)))
      (concat (map (\<lambda>u. map node_ptr (subkey_contents u)) (pk_SubKeys k)))" by (rule subseq_concat[OF v])
  ultimately have "subseq (concat (map flat (n_comps (PubNode k))))
      (map node_ptr (concat (map uid_contents (pk_UserIDs k)) @ concat (map subkey_contents (pk_SubKeys k))))"
    by (simp add: n_comps_def comp_def map_concat list_emb_append_mono)
  moreover have "key_contents k = (PubNode k # concat (map trust_contents (pub_Trusts k)) @ concat (map sig_contents (pub_Signatures k)))
      @ concat (map uid_contents (pk_UserIDs k)) @ concat (map subkey_contents (pk_SubKeys k))"
    by (simp add: key_contents_def)
  ultimately show ?thesis by (metis map_append subseq_drop_many)
qed

lemma flat_apart:
  assumes "distinct (concat (map flat cs))"
  shows "apart cs"
  using assms
proof (induction cs)
  case (Cons c cs)
  then have a: "apart cs" and f: "distinct (flat c)" "set (flat c) \<inter> set (concat (map flat cs)) = {}" by auto
  have d: "set (flat c) \<inter> set (flat e) = {}" if "e \<in> set cs" for e using f(2) that by auto
  have "fst (fst c) \<noteq> fst (fst e)" "fst ` set (snd c) \<inter> fst ` set (snd e) = {}" if "e \<in> set cs" for e
    using d[OF that] by (auto simp: flat_def)
  note e = this
  have n: "fst (fst c) \<notin> (\<lambda>c. fst (fst c)) ` set cs" using e(1) by auto
  have dc: "distinct (map fst (snd c))" using f(1) by (simp add: flat_def)
  have x: "fst ` set (snd e) \<inter> fst ` set (snd c) = {}" if "e \<in> set cs" for e using e(2)[OF that] by (simp add: Int_commute)
  show ?case
    using a n dc e(2) x unfolding apart_def by simp
qed (simp add: apart_def)

lemma trusts_flat: "concat (map trust_contents ts) = map TrustNode ts"
  by (induction ts) (simp_all add: trust_contents_def)

lemma first_with_prefix: "first_with (A @ B) x = Some f \<Longrightarrow> x \<in> node_uuid ` set A \<Longrightarrow> f \<in> set A"
  by (induction A) (auto simp: first_with_def split: if_splits)

text \<open>A sub-list of the contents that holds the first node of each of its UUIDs.\<close>

definition closed_part :: "packetNode list \<Rightarrow> packetNode list \<Rightarrow> bool" where
  "closed_part C L \<longleftrightarrow> subseq L C \<and> (\<forall>x f. x \<in> node_uuid ` set L \<longrightarrow> first_with C x = Some f \<longrightarrow> f \<in> set L)"

lemma kept_rows: "kept C (map row L) = map row (filter (\<lambda>n. node_ptr n \<notin> dups C) L)"
  by (simp add: filter_map comp_def)

lemma kept_part:
  assumes "closed_part C L" "distinct (map node_ptr C)"
  shows "distinct (map (\<lambda>r. snd (snd r)) (kept C (map row L)))" "uuids (kept C (map row L)) = uuids (map row L)"
proof -
  have "subseq (map node_uuid (filter (\<lambda>n. node_ptr n \<notin> dups C) L)) (map node_uuid (filter (\<lambda>n. node_ptr n \<notin> dups C) C))"
    using assms(1) unfolding closed_part_def by (intro subseq_map subseq_filter) blast
  then have "distinct (map node_uuid (filter (\<lambda>n. node_ptr n \<notin> dups C) L))" using kept_distinct subseq_distinct by blast
  then show "distinct (map (\<lambda>r. snd (snd r)) (kept C (map row L)))" by (simp add: kept_rows comp_def)
  show "uuids (kept C (map row L)) = uuids (map row L)"
  proof
    show "uuids (map row L) \<subseteq> uuids (kept C (map row L))"
    proof
      fix x assume "x \<in> uuids (map row L)"
      then have xL: "x \<in> node_uuid ` set L" by auto
      moreover have "set L \<subseteq> set C" using assms(1) by (auto simp: closed_part_def dest: subseq_sub)
      ultimately have "x \<in> node_uuid ` set C" by blast
      then obtain f where f: "first_with C x = Some f" using first_with_None[of C x] by (cases "first_with C x") auto
      have fL: "f \<in> set L" using assms(1) xL f unfolding closed_part_def by blast
      have "node_ptr f \<notin> dups C" by (rule first_kept[OF f, where Q = "\<lambda>_. True"]) (use assms(2) in simp_all)
      then have "row f \<in> set (kept C (map row L))" using fL by simp
      moreover have "x = snd (snd (row f))" using first_withD[OF f] by simp
      ultimately show "x \<in> uuids (kept C (map row L))" by blast
    qed
  qed auto
qed

lemma key_parts:
  assumes "tree_ok k"
  shows "closed_part (key_contents k) (map TrustNode (pub_Trusts k))" "closed_part (key_contents k) (map SigNode (pub_Signatures k))"
    "closed_part (key_contents k) (map UidNode (pk_UserIDs k))" "closed_part (key_contents k) (map SubNode (pk_SubKeys k))"
proof -
  let ?C = "key_contents k" and ?T = "map TrustNode (pub_Trusts k)" and ?S = "concat (map sig_contents (pub_Signatures k))"
  have C: "?C = (PubNode k # ?T) @ ?S @ concat (map uid_contents (pk_UserIDs k)) @ concat (map subkey_contents (pk_SubKeys k))"
    by (simp add: key_contents_def trusts_flat)
  have same: "kind f = kind n" if "f \<in> set ?C" "n \<in> set ?C" "node_uuid f = node_uuid n" for f n
    using assms that rows_okD(2)[of "row ` set ?C" "node_ptr f" "kind f" "node_uuid f" "node_ptr n" "kind n"]
    by (metis imageI row_def tree_ok_def)
  have ss: "subseq (map SigNode (pub_Signatures k)) ?S"
    using subseq_concat[of "pub_Signatures k" "\<lambda>s. [SigNode s]" sig_contents] by (simp add: sig_contents_def concat_map_singleton)
  have us: "subseq (map UidNode (pk_UserIDs k)) (concat (map uid_contents (pk_UserIDs k)))"
    using subseq_concat[of "pk_UserIDs k" "\<lambda>s. [UidNode s]" uid_contents] by (simp add: uid_contents_def concat_map_singleton)
  have ks: "subseq (map SubNode (pk_SubKeys k)) (concat (map subkey_contents (pk_SubKeys k)))"
    using subseq_concat[of "pk_SubKeys k" "\<lambda>s. [SubNode s]" subkey_contents] by (simp add: subkey_contents_def concat_map_singleton)
  have part: "closed_part ?C L" if "subseq L ?C" "\<And>f n. f \<in> set A \<Longrightarrow> n \<in> set L \<Longrightarrow> kind f = kind n \<Longrightarrow> f \<in> set L" "?C = A @ B" "set L \<subseteq> set A" for L A B
    unfolding closed_part_def
  proof (intro conjI allI impI)
    show "subseq L ?C" by (rule that(1))
    fix x f assume x: "x \<in> node_uuid ` set L" "first_with ?C x = Some f"
    then obtain n where n: "n \<in> set L" "node_uuid n = x" by auto
    have "f \<in> set A" using first_with_prefix[of A B x f] x that(3,4) by auto
    moreover have "kind f = kind n" using same[of f n] first_withD[OF x(2)] n subseq_sub[OF that(1)] by auto
    ultimately show "f \<in> set L" using that(2) n(1) by blast
  qed
  show "closed_part ?C ?T"
    by (rule part[where A = "PubNode k # ?T"]) (auto simp: C kind_def)
  show "closed_part ?C (map SigNode (pub_Signatures k))"
  proof (rule part[where A = "(PubNode k # ?T) @ ?S"])
    show "subseq (map SigNode (pub_Signatures k)) ?C" unfolding C using ss by (meson list_emb_append2 list_emb_prefix)
  qed (auto simp: C kind_def sig_contents_def trust_contents_def)
  show "closed_part ?C (map UidNode (pk_UserIDs k))"
  proof (rule part[where A = ?C and B = "[]"])
    show "subseq (map UidNode (pk_UserIDs k)) ?C" unfolding C using us by (meson list_emb_append2 list_emb_prefix)
  qed (auto simp: C kind_def sig_contents_def trust_contents_def uid_contents_def subkey_contents_def)
  show "closed_part ?C (map SubNode (pk_SubKeys k))"
  proof (rule part[where A = ?C and B = "[]"])
    show "subseq (map SubNode (pk_SubKeys k)) ?C" unfolding C using ks by (meson list_emb_append2)
  qed (auto simp: C kind_def sig_contents_def trust_contents_def uid_contents_def subkey_contents_def)
qed

section \<open>Certificates as sets\<close>

text \<open>
  The abstraction of a certificate: the UUIDs of its trust packets, direct signatures, user IDs and
  subkeys, and for every user ID or subkey those of its signatures. Merging is union.
\<close>

record cert_abs =
  ca_trusts :: "gostring set"
  ca_sigs :: "gostring set"
  ca_uids :: "gostring set"
  ca_subkeys :: "gostring set"
  ca_certifications :: "(gostring \<times> gostring) set"

definition abs_key :: "PrimaryKey \<Rightarrow> cert_abs" where
  "abs_key k = \<lparr>ca_trusts = (\<lambda>t. p_UUID (tr t)) ` set (pub_Trusts k), ca_sigs = (\<lambda>s. p_UUID (sg s)) ` set (pub_Signatures k),
     ca_uids = p_UUID ` set (pk_UserIDs k), ca_subkeys = p_UUID ` set (pk_SubKeys k),
     ca_certifications = {(p_UUID u, p_UUID (sg s)) | u s. u \<in> set (pk_UserIDs k) \<and> s \<in> set (uid_Signatures u)}
       \<union> {(p_UUID u, p_UUID (sg s)) | u s. u \<in> set (pk_SubKeys k) \<and> s \<in> set (pub_Signatures u)}\<rparr>"

definition abs_union :: "cert_abs \<Rightarrow> cert_abs \<Rightarrow> cert_abs" where
  "abs_union a b = \<lparr>ca_trusts = ca_trusts a \<union> ca_trusts b, ca_sigs = ca_sigs a \<union> ca_sigs b, ca_uids = ca_uids a \<union> ca_uids b,
     ca_subkeys = ca_subkeys a \<union> ca_subkeys b, ca_certifications = ca_certifications a \<union> ca_certifications b\<rparr>"

definition no_duplicates :: "PrimaryKey \<Rightarrow> bool" where
  "no_duplicates k \<longleftrightarrow> distinct (map (\<lambda>t. p_UUID (tr t)) (pub_Trusts k)) \<and> distinct (map (\<lambda>s. p_UUID (sg s)) (pub_Signatures k))
     \<and> distinct (map p_UUID (pk_UserIDs k)) \<and> distinct (map p_UUID (pk_SubKeys k))"

lemma abs_union_comm: "abs_union a b = abs_union b a"
  by (auto simp: abs_union_def)

lemma abs_union_assoc: "abs_union (abs_union a b) c = abs_union a (abs_union b c)"
  by (auto simp: abs_union_def)

lemma abs_append_key: "abs_key (append_key dst src) = abs_union (abs_key dst) (abs_key src)"
  by (auto simp: abs_key_def abs_union_def append_key_def)

lemma pairs_map:
  "pairs (map (\<lambda>u. (f u, map srow (g u))) us) = {(snd (snd (f u)), p_UUID (sg s)) | u s. u \<in> set us \<and> s \<in> set (g u)}"
  by (auto simp: pairs_def row_simps image_image simp del: row_fst)

lemma pairs_certifications: "pairs (n_comps (PubNode k)) = ca_certifications (abs_key k)"
proof -
  have "pairs (as @ bs) = pairs as \<union> pairs bs" for as bs by (simp add: pairs_def)
  then show ?thesis by (simp add: n_comps_def abs_key_def pairs_map node_uuid_def node_packet_def Packet.defs)
qed

lemma dedup_loop_key:
  assumes "tree_ok k" "h_ok h"
  obtains k' where "dedup_key h k = Inr k'" "key_inv (row ` set (key_contents k)) (PubNode k) (key_contents k) (PubNode k')"
proof -
  define I where "I = row ` set (key_contents k)"
  have I: "rows_ok I" using assms(1) by (simp add: I_def tree_ok_def)
  have C: "contents (PubNode k) = key_contents k" by (simp add: contents_def)
  have r0: "in_rows I (contents (PubNode k))" by (simp add: C in_rows_def I_def)
  have k0: "kind (PubNode k) = 0" by (simp add: kind_def)
  have ptrs: "distinct (map node_ptr (contents (PubNode k)))" using assms(1) by (simp add: C tree_ok_def)
  have "distinct (concat (map flat (n_comps (PubNode k))))"
    using flat_comps[of k] assms(1) subseq_distinct by (auto simp: tree_ok_def)
  then have ap: "apart (n_comps (PubNode k))" by (rule flat_apart)
  have "\<exists>m. dedup (Suc (Suc (Suc (Suc 0)))) h (PubNode k) = Inr m \<and> key_inv I (PubNode k) (contents (PubNode k)) m"
  proof (rule dedup_loop)
    show "key_inv I (PubNode k) [] (PubNode k)" using r0 ap by (simp add: key_inv_def)
  next
    fix pre node post m
    assume "key_inv I (PubNode k) pre m" "first_with pre (node_uuid node) = None"
    then show "key_inv I (PubNode k) (pre @ [node]) m" by (rule key_inv_new)
  next
    fix pre node post m p0
    assume c: "contents (PubNode k) = pre @ node # post" and inv: "key_inv I (PubNode k) pre m"
      and f: "first_with pre (node_uuid node) = Some p0"
    have rows: "in_rows I (pre @ [node])" using r0 c by (simp add: in_rows_def)
    have "pre \<noteq> []" using first_with_kind(2)[OF I rows f] by auto
    then have "node \<in> set (tl (contents (PubNode k)))" using c by (cases pre) auto
    then have "small node \<or> big node"
      by (auto simp: C key_contents_def trusts_flat uid_contents_def subkey_contents_def sig_contents_def small_def big_def kind_def)
    then show "\<exists>m'. dup_step (Suc (Suc (Suc 0))) h p0 node m = Inr m' \<and> key_inv I (PubNode k) (pre @ [node]) m'"
      using key_inv_small[OF I assms(2) k0 r0 c inv f] key_inv_big[OF I assms(2) k0 r0 ptrs c inv f] by blast
  qed
  then obtain m where m: "dedup 4 h (PubNode k) = Inr m" "key_inv I (PubNode k) (key_contents k) m"
    by (auto simp: C eval_nat_numeral simp del: dedup.simps)
  then have "kind m = 0" using row_kind[of m "PubNode k"] k0 by (simp add: key_inv_def)
  then obtain k' where k': "m = PubNode k'" by (cases m) (auto simp: kind_def)
  show thesis
    using m by (intro that[of k']) (simp_all add: dedup_key_def k' I_def del: dedup.simps)
qed

lemma rows_uuids:
  "map (\<lambda>r. snd (snd r)) (map trow ts) = map (\<lambda>t. p_UUID (tr t)) ts" "map (\<lambda>r. snd (snd r)) (map srow ss) = map (\<lambda>s. p_UUID (sg s)) ss"
  "map (\<lambda>r. snd (snd r)) (map urow us) = map p_UUID us" "map (\<lambda>r. snd (snd r)) (map krow ks) = map p_UUID ks"
  by (simp_all add: row_simps del: row_fst)

lemma dedup_key_ok:
  assumes "tree_ok k" "h_ok h"
  obtains k' where "dedup_key h k = Inr k'" "no_duplicates k'" "abs_key k' = abs_key k"
proof -
  let ?C = "key_contents k"
  obtain k' where k': "dedup_key h k = Inr k'" "key_inv (row ` set ?C) (PubNode k) ?C (PubNode k')"
    by (rule dedup_loop_key[OF assms])
  have d: "distinct (map node_ptr ?C)" using assms(1) by (simp add: tree_ok_def)
  have t: "map trow (pub_Trusts k') = kept ?C (map row (map TrustNode (pub_Trusts k)))"
    and s: "map srow (pub_Signatures k') = kept ?C (map row (map SigNode (pub_Signatures k)))"
    using k'(2) by (simp_all add: key_inv_def n_trusts_def n_sigs_def comp_def)
  have c: "map urow (pk_UserIDs k') @ map krow (pk_SubKeys k')
      = kept ?C (map row (map UidNode (pk_UserIDs k))) @ kept ?C (map row (map SubNode (pk_SubKeys k)))"
    using k'(2) by (simp add: key_inv_def n_comps_def comp_def)
  have ku: "filter (\<lambda>r. fst (snd r) = 2) (map urow us) = map urow us" "filter (\<lambda>r. fst (snd r) = 2) (map krow ks) = []"
    "filter (\<lambda>r. fst (snd r) = 1) (map urow us) = []" "filter (\<lambda>r. fst (snd r) = 1) (map krow ks) = map krow ks"
    "filter (\<lambda>r. fst (snd r) = 2) (kept ?C (map row (map UidNode us))) = kept ?C (map row (map UidNode us))"
    "filter (\<lambda>r. fst (snd r) = 2) (kept ?C (map row (map SubNode ks))) = []"
    "filter (\<lambda>r. fst (snd r) = 1) (kept ?C (map row (map UidNode us))) = []"
    "filter (\<lambda>r. fst (snd r) = 1) (kept ?C (map row (map SubNode ks))) = kept ?C (map row (map SubNode ks))" for us ks
    by ((rule filter_True filter_False; auto simp: row_simps simp del: row_fst)+)
  have u: "map urow (pk_UserIDs k') = kept ?C (map row (map UidNode (pk_UserIDs k)))"
    using arg_cong[OF c, of "filter (\<lambda>r. fst (snd r) = 2)"] by (simp only: filter_append ku append_Nil2)
  have v: "map krow (pk_SubKeys k') = kept ?C (map row (map SubNode (pk_SubKeys k)))"
    using arg_cong[OF c, of "filter (\<lambda>r. fst (snd r) = 1)"] by (simp only: filter_append ku append_Nil)
  note parts = key_parts[OF assms(1)]
  note pt = kept_part[OF parts(1) d, folded t] and ps = kept_part[OF parts(2) d, folded s]
    and pu = kept_part[OF parts(3) d, folded u] and pv = kept_part[OF parts(4) d, folded v]
  have "no_duplicates k'"
    using pt(1) ps(1) pu(1) pv(1) unfolding rows_uuids no_duplicates_def by blast
  moreover have "abs_key k' = abs_key k"
  proof -
    have "ca_certifications (abs_key k') = ca_certifications (abs_key k)"
      using k'(2) by (simp add: key_inv_def pairs_certifications)
    moreover have "ca_trusts (abs_key k') = ca_trusts (abs_key k)" "ca_sigs (abs_key k') = ca_sigs (abs_key k)"
      "ca_uids (abs_key k') = ca_uids (abs_key k)" "ca_subkeys (abs_key k') = ca_subkeys (abs_key k)"
      using pt(2) ps(2) pu(2) pv(2) by (simp_all add: abs_key_def image_image row_simps del: row_fst)
    ultimately show ?thesis by simp
  qed
  ultimately show thesis by (rule that[OF k'(1)])
qed

lemma merge_dedup:
  assumes "tree_ok (append_key dst src)"
  shows "\<exists>k. dedup_key None (append_key dst src) = Inr k \<and> no_duplicates k \<and> abs_key k = abs_union (abs_key dst) (abs_key src)
    \<and> (\<forall>E policy next. Merge E policy next dst src = ValidSelfSigned E policy next k False)"
proof -
  obtain k where k: "dedup_key None (append_key dst src) = Inr k" "no_duplicates k" "abs_key k = abs_key (append_key dst src)"
    by (rule dedup_key_ok[OF assms, of None]) (simp add: h_ok_def)
  then show ?thesis by (auto simp: abs_append_key Merge_def)
qed

text \<open>Distinct addresses and kinds can be checked.\<close>

lemma rows_ok_code [code]:
  "rows_ok I \<longleftrightarrow> (\<forall>r \<in> I. \<forall>r' \<in> I. (fst r = fst r' \<longrightarrow> r = r') \<and> (snd (snd r) = snd (snd r') \<longrightarrow> fst (snd r) = fst (snd r')))"
  unfolding rows_ok_def by fastforce

end
