(* ===== verification/CertProps.thy ===== *)
theory CertProps
  imports KeyIOSpec DedupSpec "HOL-Library.Code_Target_Nat"
begin

text \<open>
  The properties of certificates: what normalising a key keeps and drops, the digest, reading
  and writing. The witnesses use a library of go-crypto functions that accepts every signature
  and takes a packet for what its tag says.
\<close>

section \<open>Concrete inputs\<close>

definition demo_parse :: "OpaquePacket \<Rightarrow> parsed res" where
  "demo_parse op =
    (if op_Tag op = 6 \<or> op_Tag op = 14 then Inr (PPub \<lparr>pp_body = op_Contents op, pp_Version = 4,
        pp_IsSubkey = (op_Tag op = 14), pp_Fingerprint = take 20 (op_Contents op @ replicate 20 0),
        pp_CreationTime = 0, pp_PubKeyAlgo = 22, pp_BitLength = Some 256, pp_Curve = Some []\<rparr>)
     else if op_Tag op = 2 then Inr (PSig \<lparr>ps_body = op_Contents op, ps_Version = 4,
        ps_SigType = hd (op_Contents op @ [0]), ps_PubKeyAlgo = 22, ps_CreationTime = 5 * second,
        ps_IssuerKeyId = Some 0, ps_IssuerFingerprint = [], ps_SigLifetimeSecs = None,
        ps_KeyLifetimeSecs = None, ps_IsPrimaryId = None, ps_RevocationReason = None, ps_PolicyURI = []\<rparr>)
     else if op_Tag op = 13 then Inr (PUserId (op_Contents op))
     else if op_Tag op = 12 then Inr (PTrust (op_Contents op))
     else Inl (Err (ErrMsg ''unknown packet type'')))"

definition demo :: gocrypto where
  "demo = \<lparr>gc_Parse = demo_parse,
     gc_VerifyRevocationSignature = \<lambda>_ _. True, gc_VerifyRevocationHashTag = \<lambda>_ _. True,
     gc_VerifyRevocationSignatureV3 = \<lambda>_ _. True, gc_VerifyRevocationHashTagV3 = \<lambda>_ _. True,
     gc_VerifyKeySignature = \<lambda>_ _ _. True, gc_VerifyKeyHashTag = \<lambda>_ _ _. True,
     gc_VerifyKeySignatureV3 = \<lambda>_ _ _. True, gc_VerifyKeyHashTagV3 = \<lambda>_ _ _. True,
     gc_VerifyUserIdSignature = \<lambda>_ _ _ _. True, gc_VerifyUserIdHashTag = \<lambda>_ _ _. True,
     gc_VerifyUserIdSignatureV3 = \<lambda>_ _ _ _. True, gc_VerifyUserIdHashTagV3 = \<lambda>_ _ _. True,
     gc_md5 = \<lambda>bs. take 16 bs, gc_sha256 = \<lambda>bs. bs, gc_base64 = \<lambda>bs. bs, gc_ToLower = \<lambda>s. s,
     gc_IsLetterOrNumber = \<lambda>r. True, gc_now = 100 * second\<rparr>"

text \<open>A key with a user ID and a subkey, each with a self-signature; and revoked.\<close>

definition demo_packets :: "OpaquePacket list" where
  "demo_packets = [\<lparr>op_Tag = 6, op_Contents = [1]\<rparr>,
     \<lparr>op_Tag = 13, op_Contents = lit ''a@b''\<rparr>, \<lparr>op_Tag = 2, op_Contents = [0x10]\<rparr>,
     \<lparr>op_Tag = 14, op_Contents = [2]\<rparr>, \<lparr>op_Tag = 2, op_Contents = [0x18]\<rparr>]"

definition demo_revoked :: "OpaquePacket list" where
  "demo_revoked = hd demo_packets # \<lparr>op_Tag = 2, op_Contents = [0x20]\<rparr> # tl demo_packets"

definition demo_key :: "OpaquePacket list \<Rightarrow> PrimaryKey" where
  "demo_key ps = projr (oc_Parse demo 1 ps)"

definition demo_policy :: Policy where
  "demo_policy = \<lparr>po_enumDomains = {lit ''b''}\<rparr>"

definition demo_valid :: "OpaquePacket list \<Rightarrow> PrimaryKey res" where
  "demo_valid ps = ValidSelfSigned demo demo_policy 100 (demo_key ps) False"

lemma demo_key_valid:
  "case demo_valid demo_packets of Inr k \<Rightarrow> length (pk_UserIDs k) = 1 \<and> length (pk_SubKeys k) = 1 | _ \<Rightarrow> False"
  by code_simp

lemma demo_key_revoked:
  "case demo_valid demo_revoked of Inr k \<Rightarrow> map uid_Keywords (pk_RedactedUserIDs k) = [lit ''a@b''] | _ \<Rightarrow> False"
  by code_simp

lemma demo_key_hard: "hard_revoked demo (demo_key demo_revoked)"
  by code_simp

section \<open>Normalising a key\<close>

text \<open>
  C19. \<open>ValidSelfSigned\<close> keeps a user ID or subkey only with a valid self-signature over it. All the
  signatures it leaves on it were there before and are valid self-signatures, or plausible
  third-party signatures where the caller and the absence of a hard revocation allow them. User IDs
  are only kept on keys without a hard revocation.
\<close>

theorem kept_components_self_signed:
  assumes "ValidSelfSigned E policy next key only = Inr key'"
  shows "(\<forall>u \<in> set (pk_UserIDs key'). \<not> hard_revoked E key \<and> (\<exists>s \<in> set (uid_Signatures u). uid_self E key u s)
      \<and> (\<forall>s \<in> set (uid_Signatures u). uid_self E key u s \<or> \<not> only \<and> uid_other E key u s)
      \<and> (\<exists>v \<in> set (pk_UserIDs key). p_UUID v = p_UUID u \<and> uid_Keywords v = uid_Keywords u
           \<and> set (uid_Signatures u) \<subseteq> set (uid_Signatures v)))
    \<and> (\<forall>k \<in> set (pk_SubKeys key'). (\<exists>s \<in> set (pub_Signatures k). subkey_self E key k s)
      \<and> (\<forall>s \<in> set (pub_Signatures k). subkey_self E key k s \<or> \<not> only \<and> \<not> hard_revoked E key \<and> subkey_other E key k s)
      \<and> (\<exists>v \<in> set (pk_SubKeys key). p_UUID v = p_UUID k \<and> set (pub_Signatures k) \<subseteq> set (pub_Signatures v)))"
  using ValidSelfSigned_uids[OF assms] ValidSelfSigned_subkeys[OF assms] by blast

theorem kept_components_self_signed_witness:
  "\<exists>key'. demo_valid demo_packets = Inr key' \<and> length (pk_UserIDs key') = 1 \<and> length (pk_SubKeys key') = 1
    \<and> \<not> hard_revoked demo (demo_key demo_packets)"
proof -
  obtain k where k: "demo_valid demo_packets = Inr k" "length (pk_UserIDs k) = 1" "length (pk_SubKeys k) = 1"
    using demo_key_valid by (auto split: sum.splits)
  have "\<exists>u. u \<in> set (pk_UserIDs k)" using k(2) by (cases "pk_UserIDs k") auto
  with kept_components_self_signed[OF k(1)[unfolded demo_valid_def]] k show ?thesis by blast
qed

text \<open>
  C20. After a hard revocation (without a reason, or key compromised) \<open>ValidSelfSigned\<close> leaves no
  user IDs and only valid self-signatures on the key, which is marked as revoked.
\<close>

theorem hard_revocation_drops_user_ids:
  assumes "ValidSelfSigned E policy next key only = Inr key'" "hard_revoked E key"
  shows "pk_UserIDs key' = [] \<and> pub_IsRevoked key' \<and> (\<forall>s \<in> set (pub_Signatures key'). key_self E key s)"
  using ValidSelfSigned_revoked[OF assms] by blast

theorem hard_revocation_drops_user_ids_witness:
  "\<exists>key'. demo_valid demo_revoked = Inr key' \<and> hard_revoked demo (demo_key demo_revoked)
    \<and> pk_UserIDs key' = [] \<and> pub_IsRevoked key'"
proof -
  obtain k where k: "demo_valid demo_revoked = Inr k" using demo_key_revoked by (auto split: sum.splits)
  from hard_revocation_drops_user_ids[OF k[unfolded demo_valid_def] demo_key_hard] k demo_key_hard show ?thesis by blast
qed

text \<open>
  The redacted user IDs that \<open>ValidSelfSigned\<close> leaves have different names, one trust packet
  each, belong to a domain whose user IDs the policy keeps, and carry a valid self-signature.
\<close>

lemma redacted_user_ids:
  assumes "ValidSelfSigned E policy next key only = Inr key'"
  shows "distinct (map uid_Keywords (pk_RedactedUserIDs key')) \<and> length (pub_Trusts key') = length (pk_RedactedUserIDs key')
    \<and> (\<forall>u \<in> set (pk_RedactedUserIDs key'). IsPersistable E policy u \<and> (\<exists>s \<in> set (uid_Signatures u). uid_self E key u s))"
  using ValidSelfSigned_redacted[OF assms] by blast

lemma redacted_user_ids_witness:
  "\<exists>key'. demo_valid demo_revoked = Inr key' \<and> map uid_Keywords (pk_RedactedUserIDs key') = [lit ''a@b'']
    \<and> length (pub_Trusts key') = 1"
proof -
  obtain k where k: "demo_valid demo_revoked = Inr k" "map uid_Keywords (pk_RedactedUserIDs k) = [lit ''a@b'']"
    using demo_key_revoked by (auto split: sum.splits)
  from k(2) have "length (pk_RedactedUserIDs k) = 1" by (cases "pk_RedactedUserIDs k") auto
  with redacted_user_ids[OF k(1)[unfolded demo_valid_def]] k show ?thesis by auto
qed

text \<open>
  \<open>ValidSelfSigned\<close> panics on a hard-revoked key with a user ID that has no signature, when the
  policy keeps user IDs of its domain: redaction takes the first signature.
\<close>

lemma bare_user_id_panics:
  assumes "hard_revoked E key" "u \<in> set (pk_UserIDs key)" "IsPersistable E policy u" "uid_Signatures u = []"
  shows "\<exists>p. ValidSelfSigned E policy n key only = Inl (Panic p)"
  using assms by (rule ValidSelfSigned_bare)

lemma bare_user_id_panics_witness:
  "\<exists>p. ValidSelfSigned demo demo_policy 100 (demo_key (take 3 demo_revoked)) False = Inl (Panic p)"
proof -
  define k where "k = demo_key (take 3 demo_revoked)"
  have u: "hard_revoked demo k \<and> pk_UserIDs k \<noteq> [] \<and> IsPersistable demo demo_policy (hd (pk_UserIDs k))
      \<and> uid_Signatures (hd (pk_UserIDs k)) = []"
    unfolding k_def by code_simp
  from u show ?thesis unfolding k_def[symmetric] by (intro bare_user_id_panics[of demo k "hd (pk_UserIDs k)"]) auto
qed

section \<open>The digest\<close>

text \<open>
  C21. The SKS digest of a key depends only on the multiset of its packets: neither their order nor
  the component they hang on matters, and keys with the same packets have the same digest.
\<close>

theorem digest_ignores_order:
  assumes "SksDigest E k = Inr d"
    and "mset (map (\<lambda>n. p_Data (node_packet n)) (key_contents k)) = mset (map (\<lambda>n. p_Data (node_packet n)) (key_contents k'))"
  shows "SksDigest E k' = Inr d"
  using assms by (rule SksDigest_perm)

theorem digest_ignores_order_witness:
  "let k = demo_key demo_packets; k' = k\<lparr>pk_UserIDs := map (\<lambda>u. u\<lparr>uid_Signatures := []\<rparr>) (pk_UserIDs k),
       pub_Signatures := concat (map uid_Signatures (pk_UserIDs k))\<rparr>
   in pub_Signatures k' \<noteq> pub_Signatures k \<and> SksDigest demo k' = SksDigest demo k"
proof -
  define k where "k = demo_key demo_packets"
  define k' where "k' = k\<lparr>pk_UserIDs := map (\<lambda>u. u\<lparr>uid_Signatures := []\<rparr>) (pk_UserIDs k),
       pub_Signatures := concat (map uid_Signatures (pk_UserIDs k))\<rparr>"
  have c: "\<not> isl (SksDigest demo k) \<and> length (pk_UserIDs k) = 1 \<and> length (uid_Signatures (hd (pk_UserIDs k))) = 1 \<and> pub_Signatures k = []"
    unfolding k_def by code_simp
  from c obtain d where d: "SksDigest demo k = Inr d" by (cases "SksDigest demo k") auto
  from c obtain u where u: "pk_UserIDs k = [u]" "uid_Signatures u \<noteq> []" by (cases "pk_UserIDs k") force+
  have "node_packet (PubNode k') = node_packet (PubNode k)" "node_packet (UidNode (u\<lparr>uid_Signatures := []\<rparr>)) = node_packet (UidNode u)"
    by (simp_all add: node_packet_def Packet.defs k'_def)
  with c u have "mset (map (\<lambda>n. p_Data (node_packet n)) (key_contents k)) = mset (map (\<lambda>n. p_Data (node_packet n)) (key_contents k'))"
    by (simp add: key_contents_def uid_contents_def k'_def)
  with d u c digest_ignores_order[OF d, of k'] show ?thesis
    unfolding Let_def k_def[symmetric] by (simp add: k'_def)
qed

text \<open>
  The MD5 digests stored in a key that \<open>ValidSelfSigned\<close> returns are those of its packets.
\<close>

lemma normalised_key_digest:
  assumes "ValidSelfSigned E policy next key only = Inr key'"
  shows "SksDigest E key' = Inr (pk_MD5 key', pk_TrustMD5 key')"
  using assms by (rule ValidSelfSigned_digest)

lemma normalised_key_digest_witness:
  "\<exists>key'. demo_valid demo_packets = Inr key' \<and> SksDigest demo key' = Inr (pk_MD5 key', pk_TrustMD5 key')"
proof -
  obtain k where k: "demo_valid demo_packets = Inr k" using demo_key_valid by (auto split: sum.splits)
  from normalised_key_digest[OF k[unfolded demo_valid_def]] k show ?thesis by blast
qed

text \<open>
  \<open>packetBodyLength\<close> of a packet written with a new-format header is the length of its body only
  below 8384 bytes; a longer body, whose length takes five octets, counts as 0.
\<close>

lemma body_length_ignores_long:
  assumes "op_Tag op < 64"
  shows "packetBodyLength (op_Serialize op)
    = Inr (if length (op_Contents op) < 8384 then int (length (op_Contents op)) else 0)"
  using assms by (rule packetBodyLength_Serialize)

lemma body_length_ignores_long_witness:
  "packetBodyLength (op_Serialize \<lparr>op_Tag = 2, op_Contents = replicate 9000 0\<rparr>) = Inr 0"
  using body_length_ignores_long[of "\<lparr>op_Tag = 2, op_Contents = replicate 9000 0\<rparr>"] by simp

section \<open>Reading and writing\<close>

text \<open>
  C22. Every certificate that \<open>OpaqueKeyReader.Read\<close> returns keeps within the limits: each packet
  within the packet limits, the whole within the key limit, it starts with a key that is not
  blacklisted or with a bare signature, and it has no second primary key.
\<close>

theorem reader_limits:
  assumes "okr_Read E r bs = Inr certs"
  shows "\<forall>c \<in> set certs. cert_within E r c"
  using okr_Read_within[OF assms] by blast

theorem reader_limits_witness:
  "\<exists>certs. okr_Read demo (NewOpaqueKeyReader [MaxKeyLen 20, MaxPacketLen 4]) (concat (map op_Serialize demo_packets)) = Inr certs
    \<and> length certs = 1 \<and> (\<forall>c \<in> set certs. cert_within demo (NewOpaqueKeyReader [MaxKeyLen 20, MaxPacketLen 4]) c)"
proof -
  have "case okr_Read demo (NewOpaqueKeyReader [MaxKeyLen 20, MaxPacketLen 4]) (concat (map op_Serialize demo_packets)) of
      Inr certs \<Rightarrow> length certs = 1 | _ \<Rightarrow> False"
    by code_simp
  then obtain certs where "okr_Read demo (NewOpaqueKeyReader [MaxKeyLen 20, MaxPacketLen 4]) (concat (map op_Serialize demo_packets)) = Inr certs"
    "length certs = 1" by (auto split: sum.splits)
  with reader_limits[OF this(1)] show ?thesis by blast
qed

text \<open>
  C23. Reading back the packets of any number of certificates, written one after the other, returns
  exactly these certificates, when the reader has no limits and blacklists none of them.
\<close>

theorem reader_roundtrip:
  assumes "plain_reader r" "\<forall>c \<in> set certs. whole_cert E r c"
    and "\<forall>op \<in> set (concat certs). op_Tag op < 64 \<and> length (op_Contents op) < 2 ^ 32"
  shows "okr_Read E r (concat (map op_Serialize (concat certs))) = Inr certs"
  using assms by (rule okr_Read_written)

theorem reader_roundtrip_witness:
  "okr_Read demo (NewOpaqueKeyReader []) (concat (map op_Serialize (demo_packets @ demo_revoked))) = Inr [demo_packets, demo_revoked]"
proof -
  have "\<not> isl (ParsePrimaryKey demo 0 \<lparr>op_Tag = 6, op_Contents = [1]\<rparr>)" by code_simp
  then obtain k where "ParsePrimaryKey demo 0 \<lparr>op_Tag = 6, op_Contents = [1]\<rparr> = Inr k"
    by (cases "ParsePrimaryKey demo 0 \<lparr>op_Tag = 6, op_Contents = [1]\<rparr>") auto
  then have "whole_cert demo (NewOpaqueKeyReader []) demo_packets" "whole_cert demo (NewOpaqueKeyReader []) demo_revoked"
    by (auto simp: whole_cert_def demo_packets_def demo_revoked_def NewOpaqueKeyReader_def)
  moreover have "plain_reader (NewOpaqueKeyReader [])" by (simp add: plain_reader_def NewOpaqueKeyReader_def)
  ultimately show ?thesis
    using reader_roundtrip[of "NewOpaqueKeyReader []" "[demo_packets, demo_revoked]" demo]
    by (auto simp: demo_packets_def demo_revoked_def lit_def)
qed

text \<open>
  A trust packet that \<open>UpdatePacket\<close> has written is parsed back by \<open>setTrust\<close> with the same
  values and notations, and with its embedded signatures as far as they can be parsed.
\<close>

lemma trust_roundtrip:
  assumes "UpdatePacket t = Inr t'" "trust_wf t"
    and "rmap (\<lambda>s. opaquePacket (sg s)) (tr_Signatures t) = Inr ops"
    and "\<forall>op \<in> set ops. op_Contents op \<noteq> [] \<and> length (op_Contents op) + 1 < 2 ^ 32"
    and "length (p_Data (tr t')) < 2 ^ 32"
  shows "\<exists>op. newOpaquePacket (p_Data (tr t')) = Inr op \<and> op_Tag op = 12
    \<and> setTrust E tf0 (op_Contents op) kct pu su
      = rbind (rmap (\<lambda>op. ParseSignature E 0 \<lparr>op_Tag = 2, op_Contents = op_Contents op\<rparr> kct pu su) ops) (\<lambda>sigs.
          Inr (Trust (tf0\<lparr>tf_Value := tf_Value (tr t), tf_Flags := tf_Flags (tr t), tf_AppContext := tf_AppContext (tr t),
                 tf_PacketContext := tf_PacketContext (tr t), tf_Notations := tf_Notations tf0 @ tf_Notations (tr t)\<rparr>) sigs))"
  using assms by (rule trust_written)

lemma trust_roundtrip_witness:
  "let t = Trust ((emptyTrust 0 [] 0 [])\<lparr>tf_AppContext := QuietSKS, tf_PacketContext := 6,
        tf_Notations := [\<lparr>nt_Name = [97], nt_Value = [98], nt_IsHumanReadable = False, nt_IsCritical = True\<rparr>]\<rparr>) [] in
   \<exists>t' op. UpdatePacket t = Inr t' \<and> newOpaquePacket (p_Data (tr t')) = Inr op
     \<and> setTrust demo (emptyTrust 0 [] 0 []) (op_Contents op) 0 [] [] = Inr t"
proof -
  define t where "t = Trust ((emptyTrust 0 [] 0 [])\<lparr>tf_AppContext := QuietSKS, tf_PacketContext := 6,
        tf_Notations := [\<lparr>nt_Name = [97], nt_Value = [98], nt_IsHumanReadable = False, nt_IsCritical = True\<rparr>]\<rparr>) []"
  have "case UpdatePacket t of Inr t' \<Rightarrow> length (p_Data (tr t')) < 100 | _ \<Rightarrow> False" unfolding t_def by code_simp
  then obtain t' where t': "UpdatePacket t = Inr t'" "length (p_Data (tr t')) < 100" by (auto split: sum.splits)
  have w: "trust_wf t" by (simp add: t_def trust_wf_def lit_def)
  have l: "length (p_Data (tr t')) < 2 ^ 32" using t'(2) by simp
  have "rmap (\<lambda>s. opaquePacket (sg s)) (tr_Signatures t) = Inr []" by (simp add: t_def)
  from trust_roundtrip[OF t'(1) w this _ l, of demo "emptyTrust 0 [] 0 []" 0 "[]" "[]"] obtain op where
    "newOpaquePacket (p_Data (tr t')) = Inr op" "setTrust demo (emptyTrust 0 [] 0 []) (op_Contents op) 0 [] [] = Inr t"
    by (auto simp: t_def emptyTrust_def)
  with t'(1) show ?thesis unfolding Let_def t_def[symmetric] by blast
qed

section \<open>Merging keys\<close>

text \<open>
  C18. When all packets of two keys are distinct objects and no UUID is shared by packets of different
  kinds, the deduplication in \<open>Merge\<close> succeeds and returns a key that is the union of both: the same
  trust packets, direct signatures, user IDs, subkeys and certifications (by UUID), each trust packet,
  direct signature, user ID and subkey once. \<open>Merge\<close> then normalises that key.
\<close>

theorem merge_refines_union:
  assumes "tree_ok (append_key dst src)"
  shows "\<exists>k. dedup_key None (append_key dst src) = Inr k \<and> no_duplicates k \<and> abs_key k = abs_union (abs_key dst) (abs_key src)
    \<and> Merge E policy next dst src = ValidSelfSigned E policy next k False"
  using merge_dedup[OF assms] by blast

theorem merge_refines_union_witness:
  "let dst = demo_key demo_packets; src = projr (oc_Parse demo 100 demo_revoked) in
   \<exists>k. dedup_key None (append_key dst src) = Inr k \<and> no_duplicates k \<and> abs_key k = abs_union (abs_key dst) (abs_key src)
     \<and> length (pk_UserIDs (append_key dst src)) = 2 \<and> card (ca_uids (abs_key k)) = 1"
proof -
  define dst where "dst = demo_key demo_packets"
  define src where "src = projr (oc_Parse demo 100 demo_revoked)"
  have c: "tree_ok (append_key dst src)" unfolding dst_def src_def by code_simp
  have l: "map p_UUID (pk_UserIDs (append_key dst src)) = (let u = hd (map p_UUID (pk_UserIDs dst)) in [u, u])"
    unfolding dst_def src_def by code_simp
  obtain k where k: "dedup_key None (append_key dst src) = Inr k" "no_duplicates k"
    "abs_key k = abs_union (abs_key dst) (abs_key src)"
    using merge_refines_union[OF c] by blast
  have "length (map p_UUID (pk_UserIDs (append_key dst src))) = 2" unfolding l by (simp add: Let_def)
  moreover have "ca_uids (abs_key k) = set (map p_UUID (pk_UserIDs (append_key dst src)))"
    unfolding k(3) by (auto simp: abs_union_def abs_key_def append_key_def)
  then have "card (ca_uids (abs_key k)) = 1" unfolding l by (simp add: Let_def)
  ultimately show ?thesis using k unfolding Let_def dst_def[symmetric] src_def[symmetric] by auto
qed

end
