(* ===== verification/JsonHkp.thy ===== *)
theory JsonHkp
  imports KeyIO
begin

text \<open>
  The JSON document of a certificate, \<open>hkp/jsonhkp/jsonhkp.go\<close>: the conversion from the parsed
  certificate and the packets it gives back. The JSON encoding itself is the identity here: a
  document that is stored and read back is the same document.
\<close>

section \<open>RFC 3339 time stamps\<close>

fun padded :: "nat \<Rightarrow> int \<Rightarrow> gostring" where
  "padded w n = (let d = dec_bytes n in replicate (w - length d) 48 @ d)"

text \<open>The proleptic Gregorian date of a day, counted from 1970-01-01.\<close>

definition civil_from_days :: "int \<Rightarrow> int \<times> int \<times> int" where
  "civil_from_days days =
    (let z = days + 719468;
         era = z div 146097;
         doe = z mod 146097;
         yoe = (doe - doe div 1460 + doe div 36524 - doe div 146096) div 365;
         doy = doe - (365 * yoe + yoe div 4 - yoe div 100);
         mp = (5 * doy + 2) div 153;
         d = doy - (153 * mp + 2) div 5 + 1;
         m = (if mp < 10 then mp + 3 else mp - 9);
         y = yoe + era * 400
     in (if m \<le> 2 then y + 1 else y, m, d))"

definition format_RFC3339 :: "time \<Rightarrow> gostring" where
  "format_RFC3339 t =
    (let s = Unix t; sec = s mod 86400; (y, m, d) = civil_from_days (s div 86400) in
     padded 4 y @ lit ''-'' @ padded 2 m @ lit ''-'' @ padded 2 d @ lit ''T''
     @ padded 2 (sec div 3600) @ lit '':'' @ padded 2 (sec mod 3600 div 60) @ lit '':'' @ padded 2 (sec mod 60) @ lit ''Z'')"

definition format_nonzero :: "time \<Rightarrow> gostring" where
  "format_nonzero t = (if IsZero t then [] else format_RFC3339 t)"

section \<open>The document\<close>

record jPacket =
  jp_Tag :: byte
  jp_Data :: "byte list"
  jp_Parsed :: bool

definition NewPacket :: "'a Packet_scheme \<Rightarrow> jPacket" where
  "NewPacket from = \<lparr>jp_Tag = p_Tag from, jp_Data = p_Data from, jp_Parsed = False\<rparr>"

record jAlgorithm =
  ja_Name :: gostring
  ja_Code :: int
  ja_BitLength :: int
  ja_Curve :: gostring

record jTrust =
  jt_Packet :: jPacket
  jt_TrustTypeName :: gostring
  jt_TrustTypeValue :: "byte list"

definition NewTrust :: "Trust \<Rightarrow> jTrust" where
  "NewTrust from = (case TrustTypeNotation from of
     None \<Rightarrow> \<lparr>jt_Packet = NewPacket (tr from), jt_TrustTypeName = [], jt_TrustTypeValue = []\<rparr>
   | Some nt \<Rightarrow> \<lparr>jt_Packet = NewPacket (tr from), jt_TrustTypeName = nt_Name nt, jt_TrustTypeValue = nt_Value nt\<rparr>)"

record jSignature =
  js_Packet :: jPacket
  js_Version :: byte
  js_SigType :: int
  js_Revocation :: bool
  js_Primary :: bool
  js_IssuerKeyID :: gostring
  js_IssuerFingerprint :: gostring
  js_IssuerFpVersion :: byte
  js_Creation :: gostring
  js_Expiration :: gostring
  js_NeverExpires :: bool
  js_PolicyURI :: gostring
  js_Trusts :: "jTrust list"

definition NewSignature :: "Signature \<Rightarrow> jSignature" where
  "NewSignature s = (let from = sg s; sigType = uint (sf_SigType from) in
    \<lparr>js_Packet = NewPacket from, js_Version = sf_Version from, js_SigType = sigType,
     js_Revocation = (sigType = 0x20 \<or> sigType = 0x28 \<or> sigType = 0x30), js_Primary = sf_Primary from,
     js_IssuerKeyID = sf_IssuerKeyID from, js_IssuerFingerprint = sf_IssuerFingerprint from,
     js_IssuerFpVersion = sf_IssuerFpVersion from, js_Creation = format_nonzero (sf_Creation from),
     js_Expiration = format_nonzero (sf_Expiration from), js_NeverExpires = IsZero (sf_Expiration from),
     js_PolicyURI = sf_PolicyURI from, js_Trusts = map NewTrust (sg_Trusts s)\<rparr>)"

record jPublicKey =
  jk_Packet :: jPacket
  jk_Fingerprint :: gostring
  jk_LongKeyID :: gostring
  jk_Creation :: gostring
  jk_Expiration :: gostring
  jk_NeverExpires :: bool
  jk_Version :: byte
  jk_Algorithm :: jAlgorithm
  jk_Signatures :: "jSignature list"
  jk_Trusts :: "jTrust list"

definition newPublicKey :: "'a PublicKey_scheme \<Rightarrow> jPublicKey" where
  "newPublicKey from =
    \<lparr>jk_Packet = NewPacket from, jk_Fingerprint = pub_Fingerprint from, jk_LongKeyID = pub_KeyID from,
     jk_Creation = format_nonzero (pub_Creation from), jk_Expiration = format_nonzero (pub_Expiration from),
     jk_NeverExpires = IsZero (pub_Expiration from), jk_Version = pub_Version from,
     jk_Algorithm = \<lparr>ja_Name = AlgorithmName (pub_Algorithm from) (pub_BitLen from) (pub_Curve from),
       ja_Code = pub_Algorithm from, ja_BitLength = pub_BitLen from, ja_Curve = pub_Curve from\<rparr>,
     jk_Signatures = map NewSignature (pub_Signatures from), jk_Trusts = map NewTrust (pub_Trusts from)\<rparr>"

record jUserID =
  ju_Packet :: jPacket
  ju_Keywords :: gostring
  ju_ValidSince :: gostring
  ju_Expiration :: gostring
  ju_NeverExpires :: bool
  ju_Signatures :: "jSignature list"
  ju_Trusts :: "jTrust list"

definition NewUserID :: "UserID \<Rightarrow> jUserID" where
  "NewUserID from =
    \<lparr>ju_Packet = NewPacket from, ju_Keywords = uid_Keywords from, ju_ValidSince = format_nonzero (uid_ValidSince from),
     ju_Expiration = format_nonzero (uid_Expiration from), ju_NeverExpires = IsZero (uid_Expiration from),
     ju_Signatures = map NewSignature (uid_Signatures from), ju_Trusts = map NewTrust (uid_Trusts from)\<rparr>"

record jPrimaryKey = jPublicKey +
  jk_MD5 :: gostring
  jk_Length :: int
  jk_SubKeys :: "jPublicKey list"
  jk_UserIDs :: "jUserID list"

definition NewSubKey :: "SubKey \<Rightarrow> jPublicKey" where
  "NewSubKey from = newPublicKey from"

definition NewPrimaryKey :: "PrimaryKey \<Rightarrow> jPrimaryKey" where
  "NewPrimaryKey from = jPublicKey.extend (newPublicKey from)
    \<lparr>jk_MD5 = pk_MD5 from, jk_Length = pk_Length from, jk_SubKeys = map NewSubKey (pk_SubKeys from),
     jk_UserIDs = map NewUserID (pk_UserIDs from)\<rparr>"

definition NewPrimaryKeys :: "PrimaryKey list \<Rightarrow> jPrimaryKey list" where
  "NewPrimaryKeys froms = map NewPrimaryKey froms"

section \<open>The packets of a document\<close>

definition jTrust_packets :: "jTrust \<Rightarrow> jPacket list" where
  "jTrust_packets t = [jt_Packet t]"

definition jSignature_packets :: "jSignature \<Rightarrow> jPacket list" where
  "jSignature_packets s = js_Packet s # concat (map jTrust_packets (js_Trusts s))"

definition jPublicKey_packets :: "'a jPublicKey_scheme \<Rightarrow> jPacket list" where
  "jPublicKey_packets pk = jk_Packet pk # concat (map jTrust_packets (jk_Trusts pk))
     @ concat (map jSignature_packets (jk_Signatures pk))"

definition jUserID_packets :: "jUserID \<Rightarrow> jPacket list" where
  "jUserID_packets u = ju_Packet u # concat (map jTrust_packets (ju_Trusts u))
     @ concat (map jSignature_packets (ju_Signatures u))"

definition jPrimaryKey_packets :: "jPrimaryKey \<Rightarrow> jPacket list" where
  "jPrimaryKey_packets pk = jPublicKey_packets pk @ concat (map jUserID_packets (jk_UserIDs pk))
     @ concat (map jPublicKey_packets (jk_SubKeys pk))"

definition jPrimaryKey_Bytes :: "jPrimaryKey \<Rightarrow> byte list" where
  "jPrimaryKey_Bytes pk = concat (map jp_Data (jPrimaryKey_packets pk))"

definition jPrimaryKey_Serialize :: "jPrimaryKey \<Rightarrow> byte list" where
  "jPrimaryKey_Serialize pk = concat (map jp_Data (jPrimaryKey_packets pk))"

section \<open>A document holds the packets of the certificate\<close>

definition node_jpacket :: "packetNode \<Rightarrow> jPacket" where
  "node_jpacket n = NewPacket (node_packet n)"

lemma NewPacket_truncate [simp]: "NewPacket (Packet.truncate p) = NewPacket p"
  by (simp add: NewPacket_def Packet.truncate_def)

lemma NewTrust_Packet: "jt_Packet (NewTrust t) = NewPacket (tr t)"
  by (simp add: NewTrust_def split: option.splits)

lemma node_jpacket_simps [simp]:
  "node_jpacket (PubNode k) = NewPacket k"
  "node_jpacket (SubNode sk) = NewPacket sk"
  "node_jpacket (UidNode u) = NewPacket u"
  "node_jpacket (SigNode s) = NewPacket (sg s)"
  "node_jpacket (TrustNode t) = NewPacket (tr t)"
  by (simp_all add: node_jpacket_def node_packet_def)

lemma trust_packets: "jTrust_packets (NewTrust t) = map node_jpacket (trust_contents t)"
  by (simp add: jTrust_packets_def NewTrust_Packet trust_contents_def)

lemma signature_packets: "jSignature_packets (NewSignature s) = map node_jpacket (sig_contents s)"
  by (simp add: jSignature_packets_def NewSignature_def Let_def sig_contents_def trust_packets map_concat o_def)

lemma userid_packets: "jUserID_packets (NewUserID u) = map node_jpacket (uid_contents u)"
  by (simp add: jUserID_packets_def NewUserID_def uid_contents_def trust_packets signature_packets map_concat o_def)

lemma subkey_packets: "jPublicKey_packets (NewSubKey k) = map node_jpacket (subkey_contents k)"
  by (simp add: jPublicKey_packets_def NewSubKey_def newPublicKey_def subkey_contents_def trust_packets
    signature_packets map_concat o_def)

lemma document_fields:
  "jPublicKey_packets (NewPrimaryKey k) = jPublicKey_packets (newPublicKey k)"
  "jk_UserIDs (NewPrimaryKey k) = map NewUserID (pk_UserIDs k)"
  "jk_SubKeys (NewPrimaryKey k) = map NewSubKey (pk_SubKeys k)"
  by (simp_all add: NewPrimaryKey_def jPublicKey_packets_def jPublicKey.defs)

lemma primary_packets: "jPublicKey_packets (newPublicKey k) = map node_jpacket (PubNode k # concat (map trust_contents (pub_Trusts k))
     @ concat (map sig_contents (pub_Signatures k)))"
  by (simp add: jPublicKey_packets_def newPublicKey_def trust_packets signature_packets map_concat o_def)

lemma document_packets: "jPrimaryKey_packets (NewPrimaryKey k) = map node_jpacket (key_contents k)"
  by (simp add: jPrimaryKey_packets_def document_fields primary_packets key_contents_def userid_packets
    subkey_packets map_concat o_def)

lemma document_bytes:
  "jPrimaryKey_Bytes (NewPrimaryKey k) = concat (map (\<lambda>n. p_Data (node_packet n)) (key_contents k))"
  by (simp add: jPrimaryKey_Bytes_def document_packets node_jpacket_def NewPacket_def o_def)

end
