(* ===== verification/Storage.thy ===== *)
theory Storage
  imports KeyIO
begin

text \<open>
  The contract between an HKP service and its storage, \<open>hkp/storage/storage.go\<close>: the changes a
  storage announces, the records it returns and its errors. The statistics that the SKS peer
  keeps of the announced changes are from \<open>hkp/sks/stats.go\<close>; reading and writing them as JSON
  files is left out.
\<close>

section \<open>Errors and records\<close>

abbreviation ErrKeyNotFound :: goerr where "ErrKeyNotFound \<equiv> ErrMsg ''key not found''"
abbreviation ErrDigestMismatch :: goerr where "ErrDigestMismatch \<equiv> ErrMsg ''digest mismatch''"

definition IsNotFound :: "fault \<Rightarrow> bool" where
  "IsNotFound err = (err = Err ErrKeyNotFound)"

record Record =
  rec_PrimaryKey :: "PrimaryKey option"
  rec_Fingerprint :: gostring
  rec_MD5 :: gostring
  rec_CTime :: time
  rec_MTime :: time

record InsertError =
  ie_Duplicates :: "PrimaryKey option list"
  ie_Errors :: "fault list"
  ie_Warnings :: "fault list"

section \<open>Key changes\<close>

datatype KeyChange =
    KeyAdded (kc_ID: gostring) (kc_Digest: gostring)
  | KeyAddedJitter (kc_ID: gostring) (kc_Digest: gostring)
  | KeyReplaced (kc_OldID: gostring) (kc_OldDigest: gostring) (kc_NewID: gostring) (kc_NewDigest: gostring)
  | KeyNotChanged (kc_ID: gostring) (kc_Digest: gostring)
  | KeyRemoved (kc_ID: gostring) (kc_Digest: gostring)
  | KeyRemovedJitter (kc_ID: gostring) (kc_Digest: gostring)
  | KeysBulkUpdated (kc_Inserted: "gostring list") (kc_Removed: "gostring list")

fun InsertDigests :: "KeyChange \<Rightarrow> gostring list" where
  "InsertDigests (KeyAdded i d) = [d]"
| "InsertDigests (KeyAddedJitter i d) = [d]"
| "InsertDigests (KeyReplaced oi od ni nd) = [nd]"
| "InsertDigests (KeyNotChanged i d) = []"
| "InsertDigests (KeyRemoved i d) = []"
| "InsertDigests (KeyRemovedJitter i d) = []"
| "InsertDigests (KeysBulkUpdated ins rem) = ins"

fun RemoveDigests :: "KeyChange \<Rightarrow> gostring list" where
  "RemoveDigests (KeyAdded i d) = []"
| "RemoveDigests (KeyAddedJitter i d) = []"
| "RemoveDigests (KeyReplaced oi od ni nd) = [od]"
| "RemoveDigests (KeyNotChanged i d) = []"
| "RemoveDigests (KeyRemoved i d) = [d]"
| "RemoveDigests (KeyRemovedJitter i d) = [d]"
| "RemoveDigests (KeysBulkUpdated ins rem) = rem"

section \<open>Statistics\<close>

record LoadStat =
  ls_Inserted :: int
  ls_Updated :: int
  ls_Removed :: int
  ls_InsertedJitter :: int
  ls_RemovedJitter :: int

definition emptyLoadStat :: LoadStat where
  "emptyLoadStat = \<lparr>ls_Inserted = 0, ls_Updated = 0, ls_Removed = 0, ls_InsertedJitter = 0, ls_RemovedJitter = 0\<rparr>"

type_synonym LoadStatMap = "(time \<times> LoadStat) list"

definition loadStat_count :: "KeyChange \<Rightarrow> LoadStat \<Rightarrow> LoadStat" where
  "loadStat_count kc ls = (case kc of
     KeyAdded _ _ \<Rightarrow> ls\<lparr>ls_Inserted := ls_Inserted ls + 1\<rparr>
   | KeyRemoved _ _ \<Rightarrow> ls\<lparr>ls_Removed := ls_Removed ls + 1\<rparr>
   | KeyAddedJitter _ _ \<Rightarrow> ls\<lparr>ls_InsertedJitter := ls_InsertedJitter ls + 1\<rparr>
   | KeyRemovedJitter _ _ \<Rightarrow> ls\<lparr>ls_RemovedJitter := ls_RemovedJitter ls + 1\<rparr>
   | KeyReplaced _ _ _ _ \<Rightarrow> ls\<lparr>ls_Updated := ls_Updated ls + 1\<rparr>
   | _ \<Rightarrow> ls)"

definition loadStats_update :: "time \<Rightarrow> KeyChange \<Rightarrow> LoadStatMap \<Rightarrow> LoadStatMap" where
  "loadStats_update t kc m =
    (let ls = (case map_of m t of Some ls \<Rightarrow> ls | None \<Rightarrow> emptyLoadStat)
     in AList.update t (loadStat_count kc ls) m)"

record Stats =
  st_Total :: int
  st_Hourly :: LoadStatMap
  st_Daily :: LoadStatMap

definition NewStats :: Stats where
  "NewStats = \<lparr>st_Total = 0, st_Hourly = [], st_Daily = []\<rparr>"

definition stats_reset :: "Stats \<Rightarrow> Stats" where
  "stats_reset s = s\<lparr>st_Total := 0, st_Hourly := [], st_Daily := []\<rparr>"

definition hour :: int where "hour = 3600 * second"

text \<open>\<open>Time.Truncate\<close> counts from the zero time.\<close>

definition time_Truncate :: "time \<Rightarrow> int \<Rightarrow> time" where
  "time_Truncate t d = t - (t - zeroTime) mod d"

definition stats_prune :: "time \<Rightarrow> Stats \<Rightarrow> Stats" where
  "stats_prune now s =
    (let yesterday = now - 24 * hour; lastWeek = now - 24 * 7 * hour in
     s\<lparr>st_Hourly := filter (\<lambda>(k, _). \<not> k < yesterday) (st_Hourly s),
       st_Daily := filter (\<lambda>(k, _). \<not> k < lastWeek) (st_Daily s)\<rparr>)"

definition stats_Update :: "time \<Rightarrow> KeyChange \<Rightarrow> Stats \<Rightarrow> Stats" where
  "stats_Update now kc s =
    s\<lparr>st_Hourly := loadStats_update (time_Truncate now hour) kc (st_Hourly s),
      st_Daily := loadStats_update (time_Truncate now (24 * hour)) kc (st_Daily s)\<rparr>"

section \<open>The interface\<close>

text \<open>An address above those of all packets of a certificate.\<close>

definition fresh_ptr :: "PrimaryKey \<Rightarrow> nat" where
  "fresh_ptr k = Suc (fold max (map node_ptr (key_contents k)) 0)"

text \<open>
  The methods of \<open>Storage\<close> that the service calls, over a state \<open>'s\<close>. A fetch is told where the
  addresses of the certificates it reads begin, and whether to preen. \<open>sto_notified\<close> lists the
  calls of \<open>Notify\<close> so far, which every subscriber gets in this order.
\<close>

record 's storage =
  sto_Upsert :: "PrimaryKey \<Rightarrow> 's \<Rightarrow> 's \<times> KeyChange res"
  sto_Replace :: "PrimaryKey \<Rightarrow> 's \<Rightarrow> 's \<times> KeyChange res"
  sto_Delete :: "gostring \<Rightarrow> 's \<Rightarrow> 's \<times> KeyChange res"
  sto_ResolveToFp :: "gostring list \<Rightarrow> 's \<Rightarrow> gostring list res"
  sto_FetchRecordsByFp :: "nat \<Rightarrow> bool \<Rightarrow> gostring list \<Rightarrow> 's \<Rightarrow> 's \<times> Record list res"
  sto_FetchRecordsByVfp :: "nat \<Rightarrow> bool \<Rightarrow> gostring list \<Rightarrow> 's \<Rightarrow> 's \<times> Record list res"
  sto_FetchRecordsByIdentity :: "nat \<Rightarrow> bool \<Rightarrow> gostring list \<Rightarrow> 's \<Rightarrow> 's \<times> Record list res"
  sto_FetchRecordsByKeyword :: "nat \<Rightarrow> bool \<Rightarrow> gostring \<Rightarrow> 's \<Rightarrow> 's \<times> Record list res"
  sto_FetchRecordsByMD5 :: "nat \<Rightarrow> bool \<Rightarrow> gostring list \<Rightarrow> 's \<Rightarrow> 's \<times> Record list res"
  sto_ModifiedSinceToFp :: "time \<Rightarrow> time \<Rightarrow> 's \<Rightarrow> (gostring list \<times> time) res"
  sto_notified :: "'s \<Rightarrow> KeyChange list"

end
