(* ===== verification/PgTypes.thy ===== *)
theory PgTypes
  imports JsonHkp Storage
begin

text \<open>
  The derived columns of the PostgreSQL storage, \<open>pghkp/types/types.go\<close>: reversed fingerprints,
  the search keywords of a certificate, the text form of \<open>tsvector\<close> values, and the refreshing
  of a row from its document.

  What the storage takes from its environment is a record: the certificate library, the merge
  policy, the query limit, the iteration order of Go maps, and the two \<open>tsvector\<close> operations of
  PostgreSQL that the statements use.
\<close>

record pgenv =
  pg_E :: gocrypto
  pg_policy :: Policy
  pg_requestQueryLimit :: nat
  pg_range :: "gostring set \<Rightarrow> gostring list"
  pg_TSVECTOR :: "gostring \<Rightarrow> gostring res"
  pg_matches :: "gostring \<Rightarrow> gostring \<Rightarrow> bool res"
  pg_rank :: "gostring \<Rightarrow> nat"

definition lexemeLimit :: nat where "lexemeLimit = 2046"
definition tsvectorLimit :: nat where "tsvectorLimit = 1048576"

section \<open>Rows\<close>

text \<open>A document is the JSON of a certificate, or the placeholder \<open>{}\<close> of the bulk statements.\<close>

datatype jdoc = Doc jPrimaryKey | EmptyDoc

record KeyDoc =
  kd_Fingerprint :: gostring
  kd_VFingerprint :: gostring
  kd_CTime :: time
  kd_MTime :: time
  kd_IdxTime :: time
  kd_MD5 :: gostring
  kd_Doc :: jdoc
  kd_Keywords :: gostring

record SubKeyDoc =
  sd_Fingerprint :: gostring
  sd_SubKeyFp :: gostring
  sd_VSubKeyFp :: gostring

record UserIdDoc =
  ud_Fingerprint :: gostring
  ud_UidString :: gostring
  ud_Identity :: gostring
  ud_Confidence :: int

definition Reverse :: "gostring \<Rightarrow> gostring" where
  "Reverse s = concat (map EncodeRune (rev (go_runes s)))"

text \<open>\<open>ptr\<close> is the first of the addresses that the packets of the certificate get.\<close>

definition ReadOneKey :: "gocrypto \<Rightarrow> nat \<Rightarrow> byte list \<Rightarrow> gostring \<Rightarrow> PrimaryKey option res" where
  "ReadOneKey E ptr b fingerprint = rbind (rbind (okr_Read E (NewOpaqueKeyReader []) b) (parse_all E ptr)) (\<lambda>keys. case keys of
     [] \<Rightarrow> Inr None
   | [k] \<Rightarrow> if pub_Fingerprint k \<noteq> fingerprint then Inl (Err (ErrMsg ''Fingerprint mismatch'')) else Inr (Some k)
   | _ \<Rightarrow> Inl (Err (ErrMsg ''multiple keys in record'')))"

section \<open>Text search vectors\<close>

text \<open>\<open>strings.ReplaceAll\<close> of a character by two of it, and of two by one.\<close>

definition double_char :: "byte \<Rightarrow> gostring \<Rightarrow> gostring" where
  "double_char c s = concat (map (\<lambda>x. if x = c then [c, c] else [x]) s)"

fun single_char :: "byte \<Rightarrow> gostring \<Rightarrow> gostring" where
  "single_char c (x # y # r) = (if x = c \<and> y = c then c # single_char c r else x # single_char c (y # r))"
| "single_char c s = s"

definition sanitiseForTSVector :: "gostring \<Rightarrow> gostring" where
  "sanitiseForTSVector s = double_char 92 (double_char 39 s)"

definition desanitiseFromTSVector :: "gostring \<Rightarrow> gostring" where
  "desanitiseFromTSVector s = single_char 92 (single_char 39 s)"

fun go_Join :: "gostring \<Rightarrow> gostring list \<Rightarrow> gostring" where
  "go_Join sep [] = []"
| "go_Join sep [x] = x"
| "go_Join sep (x # xs) = x @ sep @ go_Join sep xs"

definition keywordsToTSVector :: "gostring list \<Rightarrow> gostring \<Rightarrow> gostring res" where
  "keywordsToTSVector keywords sep =
    (if \<exists>k \<in> set keywords. lexemeLimit \<le> length k then Inl (Err (ErrMsg ''keyword exceeds lexeme limit''))
     else let tsv = go_Join sep (map (\<lambda>k. [39] @ sanitiseForTSVector k @ [39]) keywords) in
       if tsvectorLimit \<le> length tsv then Inl (Err (ErrMsg ''keywords exceed TSVector limit'')) else Inr tsv)"

lemma go_Index_less: "go_Index c s = Some j \<Longrightarrow> j < length s"
  by (induction s arbitrary: j) (auto split: if_splits)

text \<open>
  The inner loop of \<open>keywordsFromTSVector\<close>: the index of the closing quote of a lexeme, or \<open>0\<close>
  when the quote is unpaired.
\<close>

function closing_quote :: "gostring \<Rightarrow> nat \<Rightarrow> nat" where
  "closing_quote tsv i = (case go_Index 39 (drop i tsv) of
     None \<Rightarrow> 0
   | Some j \<Rightarrow> let i = i + j in
       if i = length tsv - 1 \<or> tsv ! (i + 1) \<noteq> 39 then i else closing_quote tsv (i + 2))"
  by pat_completeness auto
termination
  by (relation "measure (\<lambda>(tsv, i). length tsv - i)") (auto dest!: go_Index_less)

declare closing_quote.simps [simp del]

lemma closing_quote_less: "closing_quote tsv i \<noteq> 0 \<Longrightarrow> closing_quote tsv i < length tsv"
proof (induction tsv i rule: closing_quote.induct)
  case (1 tsv i)
  show ?case
  proof (cases "go_Index 39 (drop i tsv)")
    case None
    with 1(2) show ?thesis by (simp add: closing_quote.simps[of tsv i])
  next
    case (Some j)
    note s = go_Index_less[OF Some]
    show ?thesis
    proof (cases "i + j = length tsv - 1 \<or> tsv ! (i + j + 1) \<noteq> 39")
      case True
      with s Some show ?thesis by (simp add: closing_quote.simps[of tsv i] Let_def)
    next
      case False
      then have "closing_quote tsv i = closing_quote tsv (i + j + 2)"
        using Some by (simp add: closing_quote.simps[of tsv i] Let_def)
      with 1(1)[OF Some refl False] 1(2) show ?thesis by simp
    qed
  qed
qed

text \<open>
  The lexemes in the order in which they occur; Go collects them in a map, whose iteration order
  the callers undo by sorting.
\<close>

function tsvector_lexemes :: "gostring \<Rightarrow> gostring list" where
  "tsvector_lexemes tsv = (case go_Index 39 tsv of
     None \<Rightarrow> []
   | Some i \<Rightarrow> let tsv = drop (i + 1) tsv; i = closing_quote tsv 0 in
       if i = 0 then [] else take i tsv # tsvector_lexemes (drop (i + 1) tsv))"
  by pat_completeness auto
termination
  by (relation "measure length") (auto dest!: go_Index_less)

declare tsvector_lexemes.simps [simp del]

definition keywordsFromTSVector :: "gostring \<Rightarrow> gostring list" where
  "keywordsFromTSVector tsv = map desanitiseFromTSVector (remdups (tsvector_lexemes tsv))"

section \<open>Keywords\<close>

definition pgEnglishStopWords :: "gostring list" where
  "pgEnglishStopWords = map lit
    [''i'', ''me'', ''my'', ''myself'', ''we'', ''our'', ''ours'', ''ourselves'', ''you'', ''your'', ''yours'', ''yourself'', ''yourselves'',
     ''he'', ''him'', ''his'', ''himself'', ''she'', ''her'', ''hers'', ''herself'', ''it'', ''its'', ''itself'',
     ''they'', ''them'', ''their'', ''theirs'', ''themselves'', ''what'', ''which'', ''who'', ''whom'', ''this'', ''that'', ''these'', ''those'',
     ''am'', ''is'', ''are'', ''was'', ''were'', ''be'', ''been'', ''being'', ''have'', ''has'', ''had'', ''having'', ''do'', ''does'', ''did'', ''doing'',
     ''a'', ''an'', ''the'', ''and'', ''but'', ''if'', ''or'',
     ''because'', ''as'', ''until'', ''while'', ''of'', ''at'', ''by'', ''for'', ''with'', ''about'', ''against'', ''between'', ''into'',
     ''through'', ''during'', ''before'', ''after'', ''above'', ''below'',
     ''to'', ''from'', ''up'', ''down'', ''in'', ''out'', ''on'', ''off'', ''over'', ''under'', ''again'', ''further'',
     ''then'', ''once'', ''here'', ''there'', ''when'', ''where'', ''why'', ''how'', ''all'', ''any'', ''both'', ''each'',
     ''few'', ''more'', ''most'', ''other'', ''some'', ''such'',
     ''no'', ''nor'', ''not'', ''only'', ''own'', ''same'', ''so'', ''than'', ''too'', ''very'',
     ''s'', ''t'', ''can'', ''will'', ''just'', ''don'', ''should'', ''now'']
    @ [[91], [92], [93], [94], [95], [96], [123], [124], [125], [126]]"

definition useful_keyword :: "gostring \<Rightarrow> bool" where
  "useful_keyword k = (\<not> (k = [] \<or> length k = 1 \<and> k ! 0 < 0x41 \<or> k \<in> set pgEnglishStopWords))"

text \<open>One turn of the loop over the user IDs: the documents, the seen strings and the keywords.\<close>

definition uid_step :: "gocrypto \<Rightarrow> gostring \<Rightarrow> UserID \<Rightarrow> UserIdDoc list \<times> gostring set \<times> gostring set
    \<Rightarrow> UserIdDoc list \<times> gostring set \<times> gostring set" where
  "uid_step E fp uid st = (case st of (uiddocs, seenUids, keywordMap) \<Rightarrow>
     if lexemeLimit \<le> length (uid_Keywords uid) \<or> uid_Keywords uid \<in> seenUids then st
     else let i = IdentityInfo E uid keywordMap in
       (uiddocs @ [\<lparr>ud_Fingerprint = fp, ud_UidString = uid_Keywords uid, ud_Identity = id_effective i, ud_Confidence = 0\<rparr>],
        insert (uid_Keywords uid) seenUids, id_keywords i))"

definition keywordsFromKey :: "pgenv \<Rightarrow> PrimaryKey \<Rightarrow> gostring list \<times> UserIdDoc list" where
  "keywordsFromKey V key =
    (case fold (uid_step (pg_E V) (pub_Fingerprint key)) (pk_UserIDs key @ pk_RedactedUserIDs key) ([], {}, {}) of
       (uiddocs, _, keywordMap) \<Rightarrow> (filter useful_keyword (pg_range V keywordMap), uiddocs))"

text \<open>\<open>unicode.IsSpace\<close>.\<close>

definition IsSpace :: "nat \<Rightarrow> bool" where
  "IsSpace r = (9 \<le> r \<and> r \<le> 13 \<or> r = 32 \<or> r = 0x85 \<or> r = 0xA0 \<or> r = 0x1680 \<or> 0x2000 \<le> r \<and> r \<le> 0x200A
     \<or> r = 0x2028 \<or> r = 0x2029 \<or> r = 0x202F \<or> r = 0x205F \<or> r = 0x3000)"

definition keywordsFromSearch :: "pgenv \<Rightarrow> gostring \<Rightarrow> gostring list \<times> gostring list" where
  "keywordsFromSearch V search =
    (let s = gc_ToLower (pg_E V) search;
         (keywordMap, identityMap) = (case (go_Index 60 s, go_LastIndex 62 s) of
            (Some lbr, Some rbr) \<Rightarrow>
              if lbr < rbr then (let identity = drop (lbr + 1) (take rbr s) in ({identity}, {identity}))
              else (set (go_FieldsFunc (\<lambda>r. \<not> ValidRune r \<or> IsSpace r) s), {})
          | _ \<Rightarrow> (set (go_FieldsFunc (\<lambda>r. \<not> ValidRune r \<or> IsSpace r) s), {}))
     in (filter useful_keyword (pg_range V keywordMap), filter (\<lambda>k. k \<noteq> []) (pg_range V identityMap)))"

definition KeywordsTSVector :: "pgenv \<Rightarrow> PrimaryKey \<Rightarrow> gostring \<times> UserIdDoc list" where
  "KeywordsTSVector V key = (case keywordsFromKey V key of (keywords, uiddocs) \<Rightarrow>
     (case keywordsToTSVector keywords (lit '' '') of Inl _ \<Rightarrow> ([], []) | Inr tsv \<Rightarrow> (tsv, uiddocs)))"

definition KeywordsTSQuery :: "pgenv \<Rightarrow> gostring \<Rightarrow> gostring res" where
  "KeywordsTSQuery V query = keywordsToTSVector (fst (keywordsFromSearch V query)) (lit '' & '')"

section \<open>Refreshing a row\<close>

definition subkey_docs :: "PrimaryKey \<Rightarrow> SubKeyDoc list" where
  "subkey_docs key = map (\<lambda>subkey. \<lparr>sd_Fingerprint = pub_Fingerprint key, sd_SubKeyFp = pub_Fingerprint subkey,
     sd_VSubKeyFp = hex_EncodeToString [pub_Version subkey] @ pub_Fingerprint subkey\<rparr>) (pk_SubKeys key)"

text \<open>The documents, the new row and whether it changed.\<close>

definition Refresh :: "pgenv \<Rightarrow> KeyDoc \<Rightarrow> ((SubKeyDoc list \<times> UserIdDoc list) \<times> KeyDoc \<times> bool) res" where
  "Refresh V kd = (case kd_Doc kd of
     EmptyDoc \<Rightarrow> Inl (Panic PNil)
   | Doc pk \<Rightarrow>
     rbind (ReadOneKey (pg_E V) 0 (jPrimaryKey_Bytes pk) (jk_Fingerprint pk)) (\<lambda>key. case key of
       None \<Rightarrow> Inl (Err ErrKeyEvaporated)
     | Some key \<Rightarrow>
       let (newKeywords, uidDocs) = keywordsFromKey V key;
           newKeywords = sort_Sort bytes_less newKeywords;
           oldKeywords = sort_Sort bytes_less (keywordsFromTSVector (kd_Keywords kd));
           (kd1, changed) =
             (if oldKeywords = newKeywords then (kd, False)
              else case keywordsToTSVector newKeywords (lit '' '') of
                Inl _ \<Rightarrow> if kd_Keywords kd \<noteq> [] then (kd\<lparr>kd_Keywords := []\<rparr>, True) else (kd, False)
              | Inr tsv \<Rightarrow> (kd\<lparr>kd_Keywords := tsv\<rparr>, True));
           (kd2, changed) =
             (if kd_VFingerprint kd1 = [] then (kd1\<lparr>kd_VFingerprint := pub_VFingerprint key\<rparr>, True) else (kd1, changed))
       in Inr ((subkey_docs key, uidDocs), kd2, changed)))"

end
