(* ===== verification/PgStore.thy ===== *)
theory PgStore
  imports PgTypes
begin

text \<open>
  The PostgreSQL storage, \<open>pghkp\<close>: the tables of \<open>storage.go\<close>, the writing operations of
  \<open>update.go\<close> and \<open>delete.go\<close>, the notifications of \<open>notify.go\<close>, the queries of \<open>query.go\<close> and
  the PKS table of \<open>pksstorage.go\<close>.

  A table is the list of its rows. The fetching queries have no \<open>ORDER BY\<close>: PostgreSQL returns their rows in
  an order of its own, here that of an arbitrary rank (\<open>pg_rank\<close>), a parameter. Each SQL
  statement is a function on the tables that fails where a constraint of the table definitions
  is violated. A transaction works on a copy of the tables that replaces them when it commits; the
  state holds whether the coming commits succeed. Time stamps keep their full precision, and one
  operation reads the clock once. Losing the connection between two statements is left out.
\<close>

section \<open>Tables\<close>

record keyRow =
  kr_rfingerprint :: gostring
  kr_doc :: jdoc
  kr_ctime :: time
  kr_mtime :: time
  kr_md5 :: gostring
  kr_keywords :: gostring
  kr_idxtime :: time
  kr_vfingerprint :: gostring

record subkeyRow =
  sr_rfingerprint :: gostring
  sr_rsubfp :: gostring
  sr_vsubfp :: gostring

record useridRow =
  ur_rfingerprint :: gostring
  ur_uidstring :: gostring
  ur_identity :: gostring
  ur_confidence :: int

text \<open>The primary key of a user ID row.\<close>

definition userid_key :: "useridRow \<Rightarrow> gostring \<times> gostring" where
  "userid_key r = (ur_rfingerprint r, ur_uidstring r)"

record pksRow =
  pr_addr :: gostring
  pr_last_sync :: time
  pr_last_error :: "gostring option"

record pgdb =
  db_keys :: "keyRow list"
  db_subkeys :: "subkeyRow list"
  db_userids :: "useridRow list"
  db_pks :: "pksRow list"

text \<open>The storage: its tables, the announced changes so far, and the outcome of coming commits.\<close>

record pgst =
  ps_db :: pgdb
  ps_notified :: "KeyChange list"
  ps_commits :: "bool list"

text \<open>\<open>Notify\<close> calls every listener; an error of a listener is only logged.\<close>

definition Notify :: "KeyChange \<Rightarrow> pgst \<Rightarrow> pgst" where
  "Notify change st = st\<lparr>ps_notified := ps_notified st @ [change]\<rparr>"

definition Commit :: "pgdb \<Rightarrow> pgst \<Rightarrow> pgst \<times> unit res" where
  "Commit db st = (case ps_commits st of
     [] \<Rightarrow> (st\<lparr>ps_db := db\<rparr>, Inr ())
   | True # cs \<Rightarrow> (st\<lparr>ps_db := db, ps_commits := cs\<rparr>, Inr ())
   | False # cs \<Rightarrow> (st\<lparr>ps_commits := cs\<rparr>, Inl (Err (ErrMsg ''commit''))))"

abbreviation ErrUnique :: goerr where "ErrUnique \<equiv> ErrMsg ''unique constraint''"
abbreviation ErrForeignKey :: goerr where "ErrForeignKey \<equiv> ErrMsg ''foreign key constraint''"
abbreviation errTargetMissing :: goerr where "errTargetMissing \<equiv> ErrMsg ''errTargetMissing''"

definition has_key :: "gostring \<Rightarrow> pgdb \<Rightarrow> bool" where
  "has_key rfp db = (\<exists>r \<in> set (db_keys db). kr_rfingerprint r = rfp)"

section \<open>Inserting and deleting\<close>

text \<open>\<open>INSERT INTO keys ... WHERE NOT EXISTS\<close> with the number of rows inserted.\<close>

definition insert_key_row :: "keyRow \<Rightarrow> pgdb \<Rightarrow> (pgdb \<times> nat) res" where
  "insert_key_row r db =
    (if has_key (kr_rfingerprint r) db then Inr (db, 0)
     else if \<exists>q \<in> set (db_keys db). kr_md5 q = kr_md5 r then Inl (Err ErrUnique)
     else Inr (db\<lparr>db_keys := db_keys db @ [r]\<rparr>, 1))"

definition insert_new_subkey :: "subkeyRow \<Rightarrow> pgdb \<Rightarrow> pgdb res" where
  "insert_new_subkey r db =
    (if \<exists>q \<in> set (db_subkeys db). sr_rsubfp q = sr_rsubfp r then Inr db
     else if \<not> has_key (sr_rfingerprint r) db then Inl (Err ErrForeignKey)
     else Inr (db\<lparr>db_subkeys := db_subkeys db @ [r]\<rparr>))"

definition insert_new_userid :: "useridRow \<Rightarrow> pgdb \<Rightarrow> pgdb res" where
  "insert_new_userid r db =
    (if \<exists>q \<in> set (db_userids db). ur_rfingerprint q = ur_rfingerprint r \<and> ur_uidstring q = ur_uidstring r then Inr db
     else if \<not> has_key (ur_rfingerprint r) db then Inl (Err ErrForeignKey)
     else Inr (db\<lparr>db_userids := db_userids db @ [r]\<rparr>))"

definition key_row :: "pgenv \<Rightarrow> PrimaryKey \<Rightarrow> gostring \<Rightarrow> keyRow" where
  "key_row V key keywords =
    \<lparr>kr_rfingerprint = Reverse (pub_Fingerprint key), kr_doc = Doc (NewPrimaryKey key), kr_ctime = gc_now (pg_E V),
     kr_mtime = gc_now (pg_E V), kr_md5 = pk_MD5 key, kr_keywords = keywords, kr_idxtime = gc_now (pg_E V),
     kr_vfingerprint = pub_VFingerprint key\<rparr>"

definition subkey_row :: "PrimaryKey \<Rightarrow> SubKey \<Rightarrow> subkeyRow" where
  "subkey_row key subKey = \<lparr>sr_rfingerprint = Reverse (pub_Fingerprint key), sr_rsubfp = Reverse (pub_Fingerprint subKey),
     sr_vsubfp = pub_VFingerprint subKey\<rparr>"

definition userid_row :: "PrimaryKey \<Rightarrow> UserIdDoc \<Rightarrow> useridRow" where
  "userid_row key uid = \<lparr>ur_rfingerprint = Reverse (pub_Fingerprint key), ur_uidstring = ud_UidString uid,
     ur_identity = ud_Identity uid, ur_confidence = ud_Confidence uid\<rparr>"

text \<open>The tables after the inserts, and whether the key was there already.\<close>

definition insertKeyTx :: "pgenv \<Rightarrow> PrimaryKey \<Rightarrow> pgdb \<Rightarrow> (pgdb \<times> bool) res" where
  "insertKeyTx V key0 db =
    (let key = SortKey (pg_E V) key0; (keywords, uiddocs) = KeywordsTSVector V key in
     rbind (pg_TSVECTOR V keywords) (\<lambda>tsv.
     rbind (insert_key_row (key_row V key tsv) db) (\<lambda>(db, keysInserted).
       if keysInserted = 0 then Inr (db, True)
       else rbind (rfold (\<lambda>sub. insert_new_subkey (subkey_row key sub)) (pk_SubKeys key) db) (\<lambda>db.
            rbind (rfold (\<lambda>uid. insert_new_userid (userid_row key uid)) uiddocs db) (\<lambda>db.
            Inr (db, False))))))"

text \<open>The outcome of the commit is not looked at.\<close>

definition insertKey :: "pgenv \<Rightarrow> PrimaryKey \<Rightarrow> pgst \<Rightarrow> pgst \<times> bool res" where
  "insertKey V key st = (case insertKeyTx V key (ps_db st) of
     Inl e \<Rightarrow> (st, Inl e)
   | Inr (db, needUpsert) \<Rightarrow> (fst (Commit db st), Inr needUpsert))"

definition deleteTx :: "gostring \<Rightarrow> pgdb \<Rightarrow> pgdb \<times> gostring res" where
  "deleteTx fp db =
    (let rfp = Reverse fp;
         db1 = db\<lparr>db_subkeys := filter (\<lambda>r. sr_rfingerprint r \<noteq> rfp) (db_subkeys db),
                 db_userids := filter (\<lambda>r. ur_rfingerprint r \<noteq> rfp) (db_userids db)\<rparr>
     in (case find (\<lambda>r. kr_rfingerprint r = rfp) (db_keys db1) of
           None \<Rightarrow> (db1, Inl (Err ErrKeyNotFound))
         | Some r \<Rightarrow> (db1\<lparr>db_keys := filter (\<lambda>r. kr_rfingerprint r \<noteq> rfp) (db_keys db1)\<rparr>, Inr (kr_md5 r))))"

definition Delete :: "gostring \<Rightarrow> pgst \<Rightarrow> pgst \<times> KeyChange res" where
  "Delete fp st = (case deleteTx fp (ps_db st) of
     (_, Inl e) \<Rightarrow> (st, Inl e)
   | (db, Inr md5) \<Rightarrow>
       let kc = KeyRemoved fp md5; (st, r) = Commit db (Notify kc st) in (st, rbind r (\<lambda>_. Inr kc)))"

definition Replace :: "pgenv \<Rightarrow> PrimaryKey \<Rightarrow> pgst \<Rightarrow> pgst \<times> KeyChange res" where
  "Replace V key st =
    (let (db, del) = deleteTx (pub_Fingerprint key) (ps_db st);
         md5 = (case del of Inr md5 \<Rightarrow> md5 | Inl _ \<Rightarrow> []) in
     case insertKeyTx V key db of
       Inl e \<Rightarrow> (st, Inl e)
     | Inr (db, _) \<Rightarrow>
        let kc = (if md5 = [] then KeyAdded (pub_KeyID key) (pk_MD5 key)
                  else KeyReplaced (pub_KeyID key) md5 (pub_KeyID key) (pk_MD5 key));
            (st, r) = Commit db (Notify kc st)
        in (st, rbind r (\<lambda>_. Inr kc)))"

section \<open>Updating\<close>

text \<open>\<open>UPDATE keys ... WHERE md5\<close> with the number of rows affected.\<close>

definition update_key_row :: "keyRow \<Rightarrow> gostring \<Rightarrow> pgdb \<Rightarrow> (pgdb \<times> nat) res" where
  "update_key_row new lastMD5 db =
    (let upd = (\<lambda>r. if kr_md5 r = lastMD5
           then r\<lparr>kr_mtime := kr_mtime new, kr_idxtime := kr_idxtime new, kr_md5 := kr_md5 new,
                 kr_keywords := kr_keywords new, kr_doc := kr_doc new, kr_vfingerprint := kr_vfingerprint new\<rparr>
           else r);
         rows = map upd (db_keys db) in
     if \<not> distinct (map kr_md5 rows) then Inl (Err ErrUnique)
     else Inr (db\<lparr>db_keys := rows\<rparr>, length (filter (\<lambda>r. kr_md5 r = lastMD5) (db_keys db))))"

definition upsert_subkey :: "subkeyRow \<Rightarrow> pgdb \<Rightarrow> pgdb res" where
  "upsert_subkey r db =
    (if \<exists>q \<in> set (db_subkeys db). sr_rsubfp q = sr_rsubfp r
     then Inr (db\<lparr>db_subkeys := map (\<lambda>q. if sr_rsubfp q = sr_rsubfp r then q\<lparr>sr_vsubfp := sr_vsubfp r\<rparr> else q) (db_subkeys db)\<rparr>)
     else if \<not> has_key (sr_rfingerprint r) db then Inl (Err ErrForeignKey)
     else Inr (db\<lparr>db_subkeys := db_subkeys db @ [r]\<rparr>))"

definition upsert_userid :: "useridRow \<Rightarrow> pgdb \<Rightarrow> pgdb res" where
  "upsert_userid r db =
    (let same = (\<lambda>q. ur_rfingerprint q = ur_rfingerprint r \<and> ur_uidstring q = ur_uidstring r) in
     if \<exists>q \<in> set (db_userids db). same q
     then Inr (db\<lparr>db_userids := map (\<lambda>q. if same q then q\<lparr>ur_identity := ur_identity r, ur_confidence := ur_confidence r\<rparr> else q)
       (db_userids db)\<rparr>)
     else if \<not> has_key (ur_rfingerprint r) db then Inl (Err ErrForeignKey)
     else Inr (db\<lparr>db_userids := db_userids db @ [r]\<rparr>))"

definition updateTx :: "pgenv \<Rightarrow> PrimaryKey \<Rightarrow> gostring \<Rightarrow> pgdb \<Rightarrow> pgdb res" where
  "updateTx V key0 lastMD5 db =
    (let key = SortKey (pg_E V) key0; (keywords, uiddocs) = KeywordsTSVector V key; rfp = Reverse (pub_Fingerprint key) in
     rbind (pg_TSVECTOR V keywords) (\<lambda>tsv.
     rbind (update_key_row (key_row V key tsv) lastMD5 db) (\<lambda>(db, rowsAffected).
       if 1 < rowsAffected then Inl (Err (ErrMsg ''unexpected error when updating digest''))
       else if rowsAffected = 0 then Inl (Err errTargetMissing)
       else rbind (rfold (\<lambda>sub. upsert_subkey (subkey_row key sub)) (pk_SubKeys key) db) (\<lambda>db.
            let db = db\<lparr>db_userids := filter (\<lambda>r. ur_rfingerprint r \<noteq> rfp) (db_userids db)\<rparr> in
            rfold (\<lambda>uid. upsert_userid (userid_row key uid)) uiddocs db))))"

definition Update :: "pgenv \<Rightarrow> PrimaryKey \<Rightarrow> gostring \<Rightarrow> gostring \<Rightarrow> pgst \<Rightarrow> pgst \<times> unit res" where
  "Update V key lastID lastMD5 st = (case updateTx V key lastMD5 (ps_db st) of
     Inl e \<Rightarrow> (st, Inl e)
   | Inr db \<Rightarrow> (fst (Commit db (Notify (KeyReplaced lastID lastMD5 (pub_KeyID key) (pk_MD5 key)) st)), Inr ()))"

section \<open>Reading\<close>

definition ToLower_all :: "pgenv \<Rightarrow> gostring list \<Rightarrow> gostring list" where
  "ToLower_all V = map (gc_ToLower (pg_E V))"

text \<open>\<open>preen\<close> returns the record and the error, if any.\<close>

definition preen :: "Record \<Rightarrow> Record \<times> goerr option" where
  "preen record = (case rec_PrimaryKey record of
     None \<Rightarrow> (record, Some ErrKeyEvaporated)
   | Some k \<Rightarrow>
       if pk_SubKeys k = [] \<and> pk_UserIDs k = [] \<and> pub_Signatures k = []
       then (record\<lparr>rec_PrimaryKey := None\<rparr>, Some ErrKeyEvaporated)
       else if pk_MD5 k \<noteq> rec_MD5 record then (record, Some ErrDigestMismatch)
       else (record, None))"

definition read_row :: "pgenv \<Rightarrow> nat \<Rightarrow> keyRow \<Rightarrow> Record res" where
  "read_row V ptr r = (case kr_doc r of
     EmptyDoc \<Rightarrow> Inl (Panic PNil)
   | Doc pk \<Rightarrow> rbind (ReadOneKey (pg_E V) ptr (jPrimaryKey_Bytes pk) (Reverse (kr_rfingerprint r))) (\<lambda>key.
       Inr \<lparr>rec_PrimaryKey = key, rec_Fingerprint = Reverse (kr_rfingerprint r), rec_MD5 = kr_md5 r,
            rec_CTime = kr_ctime r, rec_MTime = kr_mtime r\<rparr>))"

text \<open>
  One row of the result. With \<open>AutoPreen\<close> a record whose digest changed is written back, sorted,
  and one that no longer parses is deleted; failures of either are logged.
\<close>

definition preen_row :: "pgenv \<Rightarrow> bool \<Rightarrow> Record \<Rightarrow> pgst \<Rightarrow> pgst \<times> Record" where
  "preen_row V autoPreen record st =
    (if \<not> autoPreen then (st, record)
     else case preen record of
       (record, None) \<Rightarrow> (st, record)
     | (record, Some err) \<Rightarrow>
        (case rec_PrimaryKey record of
           Some k \<Rightarrow> (fst (Update V k (pub_KeyID k) (rec_MD5 record) st), record\<lparr>rec_PrimaryKey := Some (SortKey (pg_E V) k)\<rparr>)
         | None \<Rightarrow> (fst (Delete (rec_Fingerprint record) st), record)))"

fun read_rows :: "pgenv \<Rightarrow> nat \<Rightarrow> bool \<Rightarrow> keyRow list \<Rightarrow> pgst \<Rightarrow> pgst \<times> Record list res" where
  "read_rows V ptr autoPreen [] st = (st, Inr [])"
| "read_rows V ptr autoPreen (r # rs) st = (case read_row V ptr r of
     Inl e \<Rightarrow> (st, Inl e)
   | Inr record \<Rightarrow>
       let (st, record) = preen_row V autoPreen record st; (st, result) = read_rows V ptr autoPreen rs st
       in (st, rbind result (\<lambda>records. Inr (record # records))))"

text \<open>The rows of \<open>keys\<close> with a property, as a query without \<open>ORDER BY\<close> returns them.\<close>

definition select_keys :: "pgenv \<Rightarrow> (keyRow \<Rightarrow> bool) \<Rightarrow> pgst \<Rightarrow> keyRow list" where
  "select_keys V P st = sort_key (\<lambda>r. pg_rank V (kr_rfingerprint r)) (filter P (db_keys (ps_db st)))"

definition fetchRecordsByRfp :: "pgenv \<Rightarrow> nat \<Rightarrow> bool \<Rightarrow> gostring list \<Rightarrow> pgst \<Rightarrow> pgst \<times> Record list res" where
  "fetchRecordsByRfp V ptr autoPreen rfps st =
    (let rfps = ToLower_all V rfps in
     read_rows V ptr autoPreen (select_keys V (\<lambda>r. kr_rfingerprint r \<in> set rfps) st) st)"

definition FetchRecordsByFp :: "pgenv \<Rightarrow> nat \<Rightarrow> bool \<Rightarrow> gostring list \<Rightarrow> pgst \<Rightarrow> pgst \<times> Record list res" where
  "FetchRecordsByFp V ptr autoPreen fps st =
    (if [] \<in> set fps then (st, Inl (Err (ErrMsg ''empty fp in slice'')))
     else if fps = [] then (st, Inr [])
     else fetchRecordsByRfp V ptr autoPreen (map Reverse fps) st)"

definition FetchRecordsByVfp :: "pgenv \<Rightarrow> nat \<Rightarrow> bool \<Rightarrow> gostring list \<Rightarrow> pgst \<Rightarrow> pgst \<times> Record list res" where
  "FetchRecordsByVfp V ptr autoPreen vfps st =
    (if vfps = [] then (st, Inr [])
     else let vfps = ToLower_all V vfps; db = ps_db st in
       read_rows V ptr autoPreen (select_keys V (\<lambda>r. kr_vfingerprint r \<in> set vfps
         \<or> (\<exists>s \<in> set (db_subkeys db). sr_rfingerprint s = kr_rfingerprint r \<and> sr_vsubfp s \<in> set vfps)) st) st)"

definition FetchRecordsByIdentity :: "pgenv \<Rightarrow> nat \<Rightarrow> bool \<Rightarrow> gostring list \<Rightarrow> pgst \<Rightarrow> pgst \<times> Record list res" where
  "FetchRecordsByIdentity V ptr autoPreen ids st =
    (if ids = [] then (st, Inr [])
     else let ids = ToLower_all V ids; db = ps_db st in
       read_rows V ptr autoPreen (take (pg_requestQueryLimit V) (select_keys V (\<lambda>r.
         \<exists>u \<in> set (db_userids db). ur_rfingerprint u = kr_rfingerprint r \<and> ur_identity u \<in> set ids) st)) st)"

definition FetchRecordsByKeyword :: "pgenv \<Rightarrow> nat \<Rightarrow> bool \<Rightarrow> gostring \<Rightarrow> pgst \<Rightarrow> pgst \<times> Record list res" where
  "FetchRecordsByKeyword V ptr autoPreen search st = (case KeywordsTSQuery V search of
     Inl e \<Rightarrow> (st, Inl e)
   | Inr query \<Rightarrow>
       (case rmap (\<lambda>r. rbind (pg_matches V (kr_keywords r) query) (\<lambda>m. Inr (m, r))) (select_keys V (\<lambda>_. True) st) of
          Inl e \<Rightarrow> (st, Inl e)
        | Inr ms \<Rightarrow> read_rows V ptr autoPreen (take (pg_requestQueryLimit V) (map snd (filter fst ms))) st))"

text \<open>The digests that match no row are announced, to correct a stale prefix tree.\<close>

definition FetchRecordsByMD5 :: "pgenv \<Rightarrow> nat \<Rightarrow> bool \<Rightarrow> gostring list \<Rightarrow> pgst \<Rightarrow> pgst \<times> Record list res" where
  "FetchRecordsByMD5 V ptr autoPreen md5s st =
    (let md5s = ToLower_all V md5s in
     case read_rows V ptr autoPreen (select_keys V (\<lambda>r. kr_md5 r \<in> set md5s) st) st of
       (st, Inl e) \<Rightarrow> (st, Inl e)
     | (st, Inr records) \<Rightarrow>
        (fold (\<lambda>md5. Notify (KeyRemovedJitter (lit ''??'') md5))
           (filter (\<lambda>md5. \<not> (\<exists>r \<in> set (db_keys (ps_db st)). kr_md5 r = md5)) md5s) st, Inr records))"

section \<open>Merging into a stored key\<close>

text \<open>
  \<open>others\<close> is what other sessions commit between reading the stored key and updating it. Addresses
  of the stored key are disjoint from those of the incoming one. A retry merges the incoming key as
  it came in; in the code it is what the last merge left of it, whose packets the merged key shares.
\<close>

definition mergeStoredKey :: "pgenv \<Rightarrow> (pgdb \<Rightarrow> pgdb) \<Rightarrow> PrimaryKey \<Rightarrow> pgst \<Rightarrow> pgst \<times> KeyChange res" where
  "mergeStoredKey V others pubkey st =
    (case FetchRecordsByFp V (fresh_ptr pubkey) False [pub_Fingerprint pubkey] st of
       (st, Inl e) \<Rightarrow> (st, Inl e)
     | (st, Inr lastRecords) \<Rightarrow>
       (case find (\<lambda>r. rec_PrimaryKey r \<noteq> None \<and> rec_Fingerprint r = pub_Fingerprint pubkey) lastRecords of
          None \<Rightarrow> (st, Inl (Err ErrKeyNotFound))
        | Some lastRecord \<Rightarrow>
         (let lastKey = the (rec_PrimaryKey lastRecord); st = st\<lparr>ps_db := others (ps_db st)\<rparr>;
              lastID = pub_KeyID lastKey; lastMD5 = rec_MD5 lastRecord; lastTrustMD5 = pk_TrustMD5 lastKey in
          if p_UUID pubkey \<noteq> p_UUID lastKey then (st, Inl (Err (ErrMsg ''found mismatch'')))
          else if snd (preen lastRecord) = Some ErrKeyEvaporated then
            (let (st, _) = Delete (rec_Fingerprint lastRecord) st in
             case insertKey V pubkey st of
               (st, Inl e) \<Rightarrow> (st, Inl e)
             | (st, Inr True) \<Rightarrow> (st, Inl (Err (ErrMsg ''evaporated key still present'')))
             | (st, Inr False) \<Rightarrow>
                 let kc = KeyReplaced lastID lastMD5 (pub_KeyID pubkey) (pk_MD5 pubkey) in (Notify kc st, Inr kc))
          else case Merge (pg_E V) (pg_policy V) (fresh_ptr (append_key lastKey pubkey)) lastKey pubkey of
            Inl e \<Rightarrow> (st, Inl e)
          | Inr key \<Rightarrow>
             if lastMD5 = pk_MD5 key \<and> lastTrustMD5 = pk_TrustMD5 key then (st, Inr (KeyNotChanged lastID lastMD5))
             else case Update V key lastID lastMD5 st of
               (st, Inl e) \<Rightarrow> (st, Inl e)
             | (st, Inr _) \<Rightarrow> (st, Inr (KeyReplaced lastID lastMD5 (pub_KeyID key) (pk_MD5 key))))))"

text \<open>The loop of \<open>Upsert\<close>, with the tries that are left.\<close>

fun merge_tries :: "pgenv \<Rightarrow> (nat \<Rightarrow> pgdb \<Rightarrow> pgdb) \<Rightarrow> nat \<Rightarrow> PrimaryKey \<Rightarrow> pgst \<Rightarrow> pgst \<times> KeyChange res" where
  "merge_tries V others 0 pubkey st = (st, Inl (Err (ErrMsg ''was changing while we were updating it'')))"
| "merge_tries V others (Suc n) pubkey st = (case mergeStoredKey V (others n) pubkey st of
     (st, r) \<Rightarrow> if r = Inl (Err errTargetMissing) then merge_tries V others n pubkey st else (st, r))"

definition Upsert :: "pgenv \<Rightarrow> (nat \<Rightarrow> pgdb \<Rightarrow> pgdb) \<Rightarrow> PrimaryKey \<Rightarrow> pgst \<Rightarrow> pgst \<times> KeyChange res" where
  "Upsert V others pubkey st = (case insertKey V pubkey st of
     (st, Inl e) \<Rightarrow> (st, Inl e)
   | (st, Inr False) \<Rightarrow> let kc = KeyAdded (pub_KeyID pubkey) (pk_MD5 pubkey) in (Notify kc st, Inr kc)
   | (st, Inr True) \<Rightarrow> merge_tries V others 3 pubkey st)"

section \<open>Resolving, paging and announcing\<close>

text \<open>\<open>LIKE\<close>: 37 is any string, 95 any character, and 92 quotes the next character.\<close>

function sql_like :: "gostring \<Rightarrow> gostring \<Rightarrow> bool" where
  "sql_like [] s = (s = [])"
| "sql_like (p # ps) s =
    (if p = 37 then (if sql_like ps s then True else if s = [] then False else sql_like (p # ps) (tl s))
     else if s = [] then False
     else if p = 95 then sql_like ps (tl s)
     else if p = 92 \<and> ps \<noteq> [] then hd ps = hd s \<and> sql_like (tl ps) (tl s)
     else p = hd s \<and> sql_like ps (tl s))"
  by pat_completeness auto
termination by (relation "measure (\<lambda>(p, s). length p + length s)") (auto simp: neq_Nil_conv)

declare sql_like.simps [simp del]

fun resolve_first :: "('a \<Rightarrow> gostring) \<Rightarrow> ('a \<Rightarrow> gostring) \<Rightarrow> 'a list \<Rightarrow> gostring list \<Rightarrow> gostring list \<times> gostring list" where
  "resolve_first col res rows [] = ([], [])"
| "resolve_first col res rows (k # ks) =
    (let (found, missing) = resolve_first col res rows ks in
     case find (\<lambda>r. sql_like (k @ [37]) (col r)) rows of
       None \<Rightarrow> (found, k # missing) | Some r \<Rightarrow> (res r # found, missing))"

definition resolveSubKeysRfp :: "pgenv \<Rightarrow> gostring list \<Rightarrow> pgst \<Rightarrow> gostring list" where
  "resolveSubKeysRfp V rkeyids st =
    fst (resolve_first sr_rsubfp sr_rfingerprint (db_subkeys (ps_db st)) (ToLower_all V rkeyids))"

definition resolveRfp :: "pgenv \<Rightarrow> gostring list \<Rightarrow> pgst \<Rightarrow> gostring list" where
  "resolveRfp V rkeyids st =
    (let (result, rSubKeyIDs) = resolve_first kr_rfingerprint kr_rfingerprint (db_keys (ps_db st)) (ToLower_all V rkeyids)
     in if rSubKeyIDs \<noteq> [] then result @ resolveSubKeysRfp V rSubKeyIDs st else result)"

definition ResolveToFp :: "pgenv \<Rightarrow> gostring list \<Rightarrow> pgst \<Rightarrow> gostring list" where
  "ResolveToFp V keyids st = map Reverse (resolveRfp V (map Reverse keyids) st)"

definition internalQueryLimit :: nat where "internalQueryLimit = 100"

text \<open>\<open>ORDER BY\<close> a time, ties in table order, with \<open>LIMIT\<close>.\<close>

definition order_limit :: "('a \<Rightarrow> time) \<Rightarrow> 'a list \<Rightarrow> 'a list" where
  "order_limit f rs = take internalQueryLimit (sort_key f rs)"

definition ModifiedSinceToFp :: "time \<Rightarrow> time \<Rightarrow> pgst \<Rightarrow> gostring list \<times> time" where
  "ModifiedSinceToFp t1 t2 st =
    (let rows = order_limit kr_mtime (filter (\<lambda>r. t1 < kr_mtime r \<and> (t1 < t2 \<longrightarrow> kr_mtime r \<le> t2)) (db_keys (ps_db st)))
     in (map (\<lambda>r. Reverse (kr_rfingerprint r)) rows, if rows = [] then zeroTime else kr_mtime (last rows)))"

definition createdSince :: "time \<Rightarrow> pgst \<Rightarrow> gostring list" where
  "createdSince t st = map kr_rfingerprint (order_limit kr_ctime (filter (\<lambda>r. t < kr_ctime r) (db_keys (ps_db st))))"

definition key_doc :: "keyRow \<Rightarrow> KeyDoc" where
  "key_doc r = \<lparr>kd_Fingerprint = Reverse (kr_rfingerprint r), kd_VFingerprint = kr_vfingerprint r, kd_CTime = kr_ctime r,
     kd_MTime = kr_mtime r, kd_IdxTime = kr_idxtime r, kd_MD5 = kr_md5 r, kd_Doc = kr_doc r, kd_Keywords = kr_keywords r\<rparr>"

definition fetchKeyDocsModifiedSince :: "time \<Rightarrow> pgst \<Rightarrow> KeyDoc list" where
  "fetchKeyDocsModifiedSince refTime st =
    map key_doc (order_limit kr_mtime (filter (\<lambda>r. refTime < kr_mtime r) (db_keys (ps_db st))))"

definition fetchKeyDocsByRfp :: "pgenv \<Rightarrow> gostring list \<Rightarrow> pgst \<Rightarrow> KeyDoc list" where
  "fetchKeyDocsByRfp V rfps st =
    map key_doc (sort_key kr_idxtime (filter (\<lambda>r. kr_rfingerprint r \<in> set (ToLower_all V rfps)) (db_keys (ps_db st))))"

definition oldestIdxTime :: "pgst \<Rightarrow> time" where
  "oldestIdxTime st = (case sort_key kr_idxtime (db_keys (ps_db st)) of [] \<Rightarrow> zeroTime | r # _ \<Rightarrow> kr_idxtime r)"

definition RenotifyAll :: "pgst \<Rightarrow> pgst" where
  "RenotifyAll st = Notify (KeysBulkUpdated (map kr_md5 (db_keys (ps_db st))) []) st"

section \<open>The status of PKS peers\<close>

definition PKSInit :: "gostring \<Rightarrow> time \<Rightarrow> pgst \<Rightarrow> pgst" where
  "PKSInit addr lastSync st = (let db = ps_db st in
    if \<exists>r \<in> set (db_pks db). pr_addr r = addr then st
    else st\<lparr>ps_db := db\<lparr>db_pks := db_pks db @ [\<lparr>pr_addr = addr, pr_last_sync = lastSync, pr_last_error = None\<rparr>]\<rparr>\<rparr>)"

definition PKSAll :: "pgst \<Rightarrow> pksRow list" where
  "PKSAll st = db_pks (ps_db st)"

definition PKSGet :: "gostring \<Rightarrow> pgst \<Rightarrow> pksRow option" where
  "PKSGet addr st = find (\<lambda>r. pr_addr r = addr) (db_pks (ps_db st))"

definition PKSUpdate :: "pksRow \<Rightarrow> pgst \<Rightarrow> pgst" where
  "PKSUpdate status st = (let db = ps_db st in
    st\<lparr>ps_db := db\<lparr>db_pks := map (\<lambda>r. if pr_addr r = pr_addr status then status else r) (db_pks db)\<rparr>\<rparr>)"

definition PKSRemove :: "gostring \<Rightarrow> pgst \<Rightarrow> pgst" where
  "PKSRemove addr st = (let db = ps_db st in
    st\<lparr>ps_db := db\<lparr>db_pks := filter (\<lambda>r. pr_addr r \<noteq> addr) (db_pks db)\<rparr>\<rparr>)"

section \<open>The storage as an implementation of the interface\<close>

definition pg_storage :: "pgenv \<Rightarrow> (nat \<Rightarrow> pgdb \<Rightarrow> pgdb) \<Rightarrow> pgst storage" where
  "pg_storage V others =
    \<lparr>sto_Upsert = Upsert V others, sto_Replace = Replace V, sto_Delete = Delete,
     sto_ResolveToFp = (\<lambda>keyids st. Inr (ResolveToFp V keyids st)),
     sto_FetchRecordsByFp = FetchRecordsByFp V, sto_FetchRecordsByVfp = FetchRecordsByVfp V,
     sto_FetchRecordsByIdentity = FetchRecordsByIdentity V, sto_FetchRecordsByKeyword = FetchRecordsByKeyword V,
     sto_FetchRecordsByMD5 = FetchRecordsByMD5 V, sto_ModifiedSinceToFp = (\<lambda>t1 t2 st. Inr (ModifiedSinceToFp t1 t2 st)),
     sto_notified = ps_notified\<rparr>"

end
