(* ===== verification/PgTypesSpec.thy ===== *)
theory PgTypesSpec
  imports PgTypes
begin

text \<open>
  The derived columns: the text form of a \<open>tsvector\<close> gives back the keywords it was made of, and
  the user ID rows of a certificate have distinct keys.
\<close>

section \<open>Sanitising\<close>

lemma single_other: "x \<noteq> c \<Longrightarrow> single_char c (x # s) = x # single_char c s"
  by (cases s) auto

lemma double_char_simps [simp]:
  "double_char c [] = []"
  "double_char c (x # s) = (if x = c then [c, c] else [x]) @ double_char c s"
  by (simp_all add: double_char_def)

lemma double_char_append: "double_char c (s @ t) = double_char c s @ double_char c t"
  by (simp add: double_char_def)

lemma single_double [simp]: "single_char c (double_char c s) = s"
  by (induction s) (auto simp: single_other)

lemma double_commute: "c \<noteq> d \<Longrightarrow> double_char c (double_char d s) = double_char d (double_char c s)"
  by (induction s) auto

lemma desanitise_sanitise [simp]: "desanitiseFromTSVector (sanitiseForTSVector s) = s"
  by (simp add: desanitiseFromTSVector_def sanitiseForTSVector_def double_commute[of 92 39])

lemma sanitise_double: "sanitiseForTSVector s = double_char 39 (double_char 92 s)"
  by (simp add: sanitiseForTSVector_def double_commute[of 92 39])

lemma sanitise_Nil_iff: "sanitiseForTSVector s = [] \<longleftrightarrow> s = []"
  by (cases s) (auto simp: sanitiseForTSVector_def)

section \<open>Finding the closing quote\<close>

lemma closing_quote_skip:
  assumes "drop i tsv = x # s" "x \<noteq> 39"
  shows "closing_quote tsv i = closing_quote tsv (Suc i)"
proof -
  have d: "drop (Suc i) tsv = s" using assms(1) by (metis drop_Suc list.sel(3) tl_drop)
  show ?thesis
    by (subst (1 2) closing_quote.simps) (use assms d in \<open>auto split: option.splits\<close>)
qed

lemma closing_quote_double:
  assumes "rest = [] \<or> hd rest \<noteq> 39"
  shows "closing_quote (pre @ double_char 39 w @ 39 # rest) (length pre) = length pre + length (double_char 39 w)"
proof (induction w arbitrary: pre)
  case Nil
  show ?case
    by (subst closing_quote.simps) (use assms in \<open>cases rest; simp add: nth_append\<close>)
next
  case (Cons x w)
  show ?case
  proof (cases "x = 39")
    case True
    have "closing_quote (pre @ double_char 39 (x # w) @ 39 # rest) (length pre)
        = closing_quote (pre @ double_char 39 (x # w) @ 39 # rest) (length pre + 2)"
      by (subst closing_quote.simps) (use True in \<open>simp add: nth_append\<close>)
    also have "\<dots> = closing_quote ((pre @ [39, 39]) @ double_char 39 w @ 39 # rest) (length (pre @ [39, 39]))"
      using True by simp
    also have "\<dots> = length pre + length (double_char 39 (x # w))" using Cons[of "pre @ [39, 39]"] True by simp
    finally show ?thesis .
  next
    case False
    have "closing_quote (pre @ double_char 39 (x # w) @ 39 # rest) (length pre)
        = closing_quote (pre @ double_char 39 (x # w) @ 39 # rest) (Suc (length pre))"
      by (rule closing_quote_skip[where x = x]) (use False in simp_all)
    also have "\<dots> = closing_quote ((pre @ [x]) @ double_char 39 w @ 39 # rest) (length (pre @ [x]))"
      using False by simp
    also have "\<dots> = length pre + length (double_char 39 (x # w))" using Cons[of "pre @ [x]"] False by simp
    finally show ?thesis .
  qed
qed

lemma lexemes_quoted:
  assumes "k \<noteq> []" "rest = [] \<or> hd rest \<noteq> 39"
  shows "tsvector_lexemes ([39] @ sanitiseForTSVector k @ [39] @ rest) = sanitiseForTSVector k # tsvector_lexemes rest"
proof -
  have "closing_quote (sanitiseForTSVector k @ 39 # rest) 0 = length (sanitiseForTSVector k)"
    using closing_quote_double[OF assms(2), of "[]" "double_char 92 k"] by (simp add: sanitise_double)
  then show ?thesis
    by (subst tsvector_lexemes.simps) (use assms(1) in \<open>simp add: sanitise_Nil_iff\<close>)
qed

lemma lexemes_space: "tsvector_lexemes (32 # s) = tsvector_lexemes s"
  by (subst (1 2) tsvector_lexemes.simps) (auto split: option.splits)

lemma lexemes_join:
  assumes "\<forall>k \<in> set ks. k \<noteq> []"
  shows "tsvector_lexemes (go_Join [32] (map (\<lambda>k. [39] @ sanitiseForTSVector k @ [39]) ks)) = map sanitiseForTSVector ks"
  using assms
proof (induction ks)
  case Nil
  show ?case by (simp add: tsvector_lexemes.simps)
next
  case (Cons k ks)
  show ?case
  proof (cases ks)
    case Nil
    have "tsvector_lexemes [] = []" by (simp add: tsvector_lexemes.simps)
    then show ?thesis using lexemes_quoted[of k "[]"] Cons(2) Nil by simp
  next
    case (Cons k' ks')
    then show ?thesis using lexemes_quoted[of k "32 # go_Join [32] (map (\<lambda>k. [39] @ sanitiseForTSVector k @ [39]) ks)"]
      Cons.IH Cons.prems by (simp add: lexemes_space)
  qed
qed

lemma keywords_roundtrip:
  assumes "\<forall>k \<in> set ks. k \<noteq> []" "keywordsToTSVector ks (lit '' '') = Inr tsv"
  shows "set (keywordsFromTSVector tsv) = set ks" "distinct (keywordsFromTSVector tsv)"
proof -
  have "tsv = go_Join [32] (map (\<lambda>k. [39] @ sanitiseForTSVector k @ [39]) ks)"
    using assms(2) by (simp add: keywordsToTSVector_def Let_def lit_def split: if_splits)
  then have l: "tsvector_lexemes tsv = map sanitiseForTSVector ks" using lexemes_join[OF assms(1)] by simp
  then show "set (keywordsFromTSVector tsv) = set ks" by (auto simp: keywordsFromTSVector_def image_image)
  have "inj_on desanitiseFromTSVector (set (tsvector_lexemes tsv))"
    unfolding l by (auto intro!: inj_onI)
  then show "distinct (keywordsFromTSVector tsv)" by (simp add: keywordsFromTSVector_def distinct_map)
qed

section \<open>User ID rows\<close>

lemma uid_steps:
  assumes "fold (uid_step E fp) uids st = (docs', seen', kw')" "fst st = docs" "fst (snd st) = ud_UidString ` set docs"
    "distinct (map ud_UidString docs)" "\<forall>d \<in> set docs. length (ud_UidString d) < lexemeLimit \<and> ud_Fingerprint d = fp"
  shows "distinct (map ud_UidString docs')" "\<forall>d \<in> set docs'. length (ud_UidString d) < lexemeLimit \<and> ud_Fingerprint d = fp"
    "ud_UidString ` set docs' = ud_UidString ` set docs \<union> {uid_Keywords u | u. u \<in> set uids \<and> length (uid_Keywords u) < lexemeLimit}"
proof -
  have "distinct (map ud_UidString docs') \<and> (\<forall>d \<in> set docs'. length (ud_UidString d) < lexemeLimit \<and> ud_Fingerprint d = fp)
    \<and> ud_UidString ` set docs' = ud_UidString ` set docs \<union> {uid_Keywords u | u. u \<in> set uids \<and> length (uid_Keywords u) < lexemeLimit}"
    using assms
  proof (induction uids arbitrary: st docs)
    case Nil
    then show ?case by auto
  next
    case (Cons u us)
    obtain seen kw where st: "st = (docs, seen, kw)" "seen = ud_UidString ` set docs" using Cons.prems(2,3) by (cases st) auto
    show ?case
    proof (cases "lexemeLimit \<le> length (uid_Keywords u) \<or> uid_Keywords u \<in> seen")
      case True
      then have "uid_step E fp u st = st" by (simp add: uid_step_def st)
      with Cons.IH[of st docs] Cons.prems True st show ?thesis by auto
    next
      case False
      define d where "d = \<lparr>ud_Fingerprint = fp, ud_UidString = uid_Keywords u, ud_Identity = id_effective (IdentityInfo E u kw), ud_Confidence = 0\<rparr>"
      have d: "ud_UidString d = uid_Keywords u" "ud_Fingerprint d = fp" by (simp_all add: d_def)
      have step: "fst (uid_step E fp u st) = docs @ [d]" "fst (snd (uid_step E fp u st)) = insert (uid_Keywords u) seen"
        using False by (simp_all add: uid_step_def st(1) d_def Let_def)
      have "distinct (map ud_UidString docs')
        \<and> (\<forall>d \<in> set docs'. length (ud_UidString d) < lexemeLimit \<and> ud_Fingerprint d = fp)
        \<and> ud_UidString ` set docs' = ud_UidString ` set (docs @ [d]) \<union> {uid_Keywords u | u. u \<in> set us \<and> length (uid_Keywords u) < lexemeLimit}"
        by (rule Cons.IH[where st = "uid_step E fp u st"])
          (use Cons.prems step d False st(2) in \<open>auto simp: image_iff\<close>)
      with d False show ?thesis by auto
    qed
  qed
  then show "distinct (map ud_UidString docs')" "\<forall>d \<in> set docs'. length (ud_UidString d) < lexemeLimit \<and> ud_Fingerprint d = fp"
    "ud_UidString ` set docs' = ud_UidString ` set docs \<union> {uid_Keywords u | u. u \<in> set uids \<and> length (uid_Keywords u) < lexemeLimit}"
    by blast+
qed

lemma keywordsFromKey_docs:
  "distinct (map ud_UidString (snd (keywordsFromKey V key)))"
  "\<forall>d \<in> set (snd (keywordsFromKey V key)). length (ud_UidString d) < lexemeLimit \<and> ud_Fingerprint d = pub_Fingerprint key"
  "ud_UidString ` set (snd (keywordsFromKey V key))
    = {uid_Keywords u | u. u \<in> set (pk_UserIDs key @ pk_RedactedUserIDs key) \<and> length (uid_Keywords u) < lexemeLimit}"
proof -
  obtain docs seen kw where f: "fold (uid_step (pg_E V) (pub_Fingerprint key)) (pk_UserIDs key @ pk_RedactedUserIDs key) ([], {}, {}) = (docs, seen, kw)"
    by (metis prod_cases3)
  have d: "snd (keywordsFromKey V key) = docs" unfolding keywordsFromKey_def f by simp
  note u = uid_steps[OF f refl, unfolded fst_conv snd_conv]
  show "distinct (map ud_UidString (snd (keywordsFromKey V key)))" unfolding d by (rule u(1)) simp_all
  show "\<forall>d \<in> set (snd (keywordsFromKey V key)). length (ud_UidString d) < lexemeLimit \<and> ud_Fingerprint d = pub_Fingerprint key"
    unfolding d by (rule u(2)) simp_all
  show "ud_UidString ` set (snd (keywordsFromKey V key))
      = {uid_Keywords u | u. u \<in> set (pk_UserIDs key @ pk_RedactedUserIDs key) \<and> length (uid_Keywords u) < lexemeLimit}"
    unfolding d by (subst u(3)) simp_all
qed

lemma KeywordsTSVector_docs: "distinct (map ud_UidString (snd (KeywordsTSVector V key)))"
  using keywordsFromKey_docs(1)[of V key] by (auto simp: KeywordsTSVector_def split: prod.splits sum.splits)

end
