(* ===== verification/SksPeer.thy ===== *)
theory SksPeer
  imports Storage Gossip
begin

text \<open>
  The SKS peer, \<open>hkp/sks/recon.go\<close>: it turns the changes a storage announces into updates of the
  recon peer, and fetches the keys that a reconciliation found missing from the partner with
  \<open>hashquery\<close> requests of an adaptive size.

  The tree of the recon peer is any type. The \<open>seen\<close> cache is a library value with its two
  operations, and the replies to HTTP requests are a list that requests use up. Delays, logging,
  the goroutines and the statistics file are left out.
\<close>

section \<open>The peer\<close>

definition maxKeyRecoveryAttempts :: nat where "maxKeyRecoveryAttempts = 10"
definition maxRequestChunkSize :: nat where "maxRequestChunkSize = 100"
definition minRequestChunkSize :: nat where "minRequestChunkSize = 1"

record 'c lru =
  lru_Get :: "gostring \<Rightarrow> 'c \<Rightarrow> bool \<times> 'c"
  lru_Add :: "gostring \<Rightarrow> 'c \<Rightarrow> 'c"

record ('t, 'c) sksPeer =
  sp_peer :: "'t peer"
  sp_settings :: settings
  sp_keyReaderOptions :: "(keyReader \<Rightarrow> keyReader) list"
  sp_requestChunkSize :: nat
  sp_slowStart :: bool
  sp_seenCache :: 'c
  sp_stats :: Stats
  sp_policy :: Policy

definition sksDefaultFilters :: "string list" where
  "sksDefaultFilters = [''schema:application/pgp-keys'', ''yminsky.merge'', ''yminsky.dedup'', ''versions:3+4+6+rfc9980'',
     ''drop:oldSlhdsaSelfSig'', ''drop:invalidSelfSig'', ''drop:unparseable'', ''drop:structuralMartian'',
     ''drop:implausible'', ''drop:unbound'', ''drop:UAT'', ''drop:hardRevokedCruft'']"

definition resyncStatsTotal :: "('t \<Rightarrow> int res) \<Rightarrow> ('t, 'c) sksPeer \<Rightarrow> ('t, 'c) sksPeer" where
  "resyncStatsTotal root_size p = (case root_size (pe_tree (sp_peer p)) of
     Inl _ \<Rightarrow> p | Inr n \<Rightarrow> p\<lparr>sp_stats := (sp_stats p)\<lparr>st_Total := n\<rparr>\<rparr>)"

text \<open>\<open>NewPeer\<close> on an opened tree, an empty cache and the statistics read from the file, if any.\<close>

definition sks_NewPeer :: "('t \<Rightarrow> int res) \<Rightarrow> 't \<Rightarrow> 'c \<Rightarrow> Stats option \<Rightarrow> settings option
    \<Rightarrow> (keyReader \<Rightarrow> keyReader) list \<Rightarrow> Policy \<Rightarrow> ('t, 'c) sksPeer" where
  "sks_NewPeer root_size ptree cache stats s opts policy =
    (let s = AddFilters sksDefaultFilters (case s of None \<Rightarrow> DefaultSettings | Some s \<Rightarrow> s) in
     resyncStatsTotal root_size
      \<lparr>sp_peer = Peer.NewPeer ptree, sp_settings = s, sp_keyReaderOptions = opts,
       sp_requestChunkSize = minRequestChunkSize, sp_slowStart = True, sp_seenCache = cache,
       sp_stats = (case stats of None \<Rightarrow> NewStats | Some st \<Rightarrow> st), sp_policy = policy\<rparr>)"

section \<open>Digests\<close>

definition hex_value :: "byte \<Rightarrow> nat option" where
  "hex_value c =
    (if 48 \<le> c \<and> c \<le> 57 then Some (unat (c - 48))
     else if 97 \<le> c \<and> c \<le> 102 then Some (unat (c - 87))
     else if 65 \<le> c \<and> c \<le> 70 then Some (unat (c - 55)) else None)"

fun hex_DecodeString :: "gostring \<Rightarrow> byte list res" where
  "hex_DecodeString [] = Inr []"
| "hex_DecodeString [c] = Inl (Err (ErrMsg (if hex_value c = None then ''invalid byte'' else ''odd length hex string'')))"
| "hex_DecodeString (a # b # s) = (case (hex_value a, hex_value b) of
     (Some x, Some y) \<Rightarrow> rbind (hex_DecodeString s) (\<lambda>bs. Inr (of_nat (16 * x + y) # bs))
   | _ \<Rightarrow> Inl (Err (ErrMsg ''invalid byte'')))"

definition DigestZp :: "gostring \<Rightarrow> zp res" where
  "DigestZp digest = rbind (hex_DecodeString digest) (\<lambda>buf.
     rbind (zp_In \<lparr>zp_i = 0, zp_p = None\<rparr> (Some P_SKS)) (\<lambda>z.
     rbind (zp_SetBytes z (PadSksElement buf)) zp_Norm))"

fun each_digest :: "(zp list \<Rightarrow> 't peer \<Rightarrow> 't peer) \<Rightarrow> gostring list \<Rightarrow> 't peer \<Rightarrow> 't peer \<times> unit res" where
  "each_digest op [] p = (p, Inr ())"
| "each_digest op (d # ds) p = (case DigestZp d of
     Inl e \<Rightarrow> (p, Inl e) | Inr z \<Rightarrow> each_digest op ds (op [z] p))"

definition updateDigests :: "time \<Rightarrow> KeyChange \<Rightarrow> ('t, 'c) sksPeer \<Rightarrow> ('t, 'c) sksPeer \<times> unit res" where
  "updateDigests now change r =
    (let r = r\<lparr>sp_stats := stats_Update now change (sp_stats r)\<rparr> in
     case each_digest peer_Insert (InsertDigests change) (sp_peer r) of
       (p, Inl e) \<Rightarrow> (r\<lparr>sp_peer := p\<rparr>, Inl e)
     | (p, Inr _) \<Rightarrow>
        (case each_digest peer_Remove (RemoveDigests change) p of (p, e) \<Rightarrow> (r\<lparr>sp_peer := p\<rparr>, e)))"

text \<open>The subscribed \<open>updateDigests\<close> gets the changes that a storage operation announced.\<close>

definition deliver :: "time \<Rightarrow> KeyChange list \<Rightarrow> ('t, 'c) sksPeer \<Rightarrow> ('t, 'c) sksPeer" where
  "deliver now changes r = fold (\<lambda>kc r. fst (updateDigests now kc r)) changes r"

section \<open>Requests to a partner\<close>

definition FullKeyHash :: "zp \<Rightarrow> gostring" where
  "FullKeyHash z = hex_EncodeToString (zp_Bytes z)"

record http_response =
  hr_StatusCode :: int
  hr_Body :: "byte list"

record recover =
  rc_RemoteElements :: "zp list"
  rc_RecoverAddr :: "string res"

definition hashquery_element :: "zp \<Rightarrow> byte list" where
  "hashquery_element z = (let zb = butlast (PadSksElement (zp_Bytes z)) in WriteInt (int (length zb)) @ zb)"

definition hashquery_request :: "zp list \<Rightarrow> byte list" where
  "hashquery_request chunk = WriteInt (int (length chunk)) @ concat (map hashquery_element chunk)"

record upsertResult =
  up_inserted :: int
  up_updated :: int
  up_unchanged :: int

definition upsertResult_add :: "upsertResult \<Rightarrow> upsertResult \<Rightarrow> upsertResult" where
  "upsertResult_add r r2 = \<lparr>up_inserted = up_inserted r + up_inserted r2, up_updated = up_updated r + up_updated r2,
     up_unchanged = up_unchanged r + up_unchanged r2\<rparr>"

definition no_upserts :: upsertResult where
  "no_upserts = \<lparr>up_inserted = 0, up_updated = 0, up_unchanged = 0\<rparr>"

type_synonym ('s, 't, 'c) sksState = "'s \<times> ('t, 'c) sksPeer"

text \<open>An error of the validation or of the storage skips the key; a panic ends the whole.\<close>

fun upsert_all :: "gocrypto \<Rightarrow> 's storage \<Rightarrow> PrimaryKey list \<Rightarrow> upsertResult \<Rightarrow> ('s, 't, 'c) sksState
    \<Rightarrow> ('s, 't, 'c) sksState \<times> upsertResult res" where
  "upsert_all E S [] result st = (st, Inr result)"
| "upsert_all E S (key # keys) result (s, r) = (case ValidSelfSigned E (sp_policy r) (fresh_ptr key) key False of
     Inl (Err _) \<Rightarrow> upsert_all E S keys result (s, r)
   | Inl f \<Rightarrow> ((s, r), Inl f)
   | Inr key \<Rightarrow>
      (case sto_Upsert S key s of (s', up) \<Rightarrow>
        let r = deliver (gc_now E) (drop (length (sto_notified S s)) (sto_notified S s')) r in
        (case up of
           Inl (Err _) \<Rightarrow> upsert_all E S keys result (s', r)
         | Inl f \<Rightarrow> ((s', r), Inl f)
         | Inr (KeyAdded _ _) \<Rightarrow> upsert_all E S keys (result\<lparr>up_inserted := up_inserted result + 1\<rparr>) (s', r)
         | Inr (KeyReplaced _ _ _ _) \<Rightarrow> upsert_all E S keys (result\<lparr>up_updated := up_updated result + 1\<rparr>) (s', r)
         | Inr (KeyNotChanged _ d) \<Rightarrow> upsert_all E S keys (result\<lparr>up_unchanged := up_unchanged result + 1\<rparr>)
             (s', fst (updateDigests (gc_now E) (KeyAddedJitter (pub_Fingerprint key) d) r))
         | Inr _ \<Rightarrow> upsert_all E S keys result (s', r))))"

definition upsertKeys :: "gocrypto \<Rightarrow> 's storage \<Rightarrow> byte list \<Rightarrow> ('s, 't, 'c) sksState
    \<Rightarrow> ('s, 't, 'c) sksState \<times> upsertResult res" where
  "upsertKeys E S buf st = (case kr_Read E (sp_keyReaderOptions (snd st)) buf of
     Inl e \<Rightarrow> (st, Inl e)
   | Inr keys \<Rightarrow> upsert_all E S keys no_upserts st)"

text \<open>The keys of a reply; one that cannot be read is logged and skipped.\<close>

fun upsert_reply :: "gocrypto \<Rightarrow> 's storage \<Rightarrow> nat \<Rightarrow> byte list \<Rightarrow> upsertResult \<Rightarrow> ('s, 't, 'c) sksState
    \<Rightarrow> ('s, 't, 'c) sksState \<times> upsertResult res" where
  "upsert_reply E S 0 body summary st = (st, Inr summary)"
| "upsert_reply E S (Suc n) body summary st = (case ReadInt body of
     Inl e \<Rightarrow> (st, Inl e)
   | Inr (keyLen, body) \<Rightarrow>
      if int (length body) < keyLen then (st, Inl (Err ErrEOF))
      else (case upsertKeys E S (take (nat keyLen) body) st of
          (st, Inl (Err _)) \<Rightarrow> upsert_reply E S n (drop (nat keyLen) body) summary st
        | (st, Inl f) \<Rightarrow> (st, Inl f)
        | (st, Inr res) \<Rightarrow> upsert_reply E S n (drop (nat keyLen) body) (upsertResult_add summary res) st))"

text \<open>
  \<open>requestChunk\<close>, with the replies that are still to come; a request without a reply fails. The
  request itself is \<open>hashquery_request\<close>.
\<close>

definition requestChunk :: "gocrypto \<Rightarrow> 's storage \<Rightarrow> (byte list \<Rightarrow> http_response res) \<Rightarrow> recover \<Rightarrow> zp list
    \<Rightarrow> ('s, 't, 'c) sksState \<Rightarrow> ('s, 't, 'c) sksState \<times> upsertResult res" where
  "requestChunk E S Do rcvr chunk st = (case rc_RecoverAddr rcvr of
     Inl e \<Rightarrow> (st, Inl e)
   | Inr _ \<Rightarrow> (case Do (hashquery_request chunk) of
       Inl e \<Rightarrow> (st, Inl e)
     | Inr resp \<Rightarrow>
        if hr_StatusCode resp \<noteq> 200 then (st, Inl (Err (ErrMsg ''error response'')))
        else (case ReadInt (hr_Body resp) of
            Inl e \<Rightarrow> (st, Inl e)
          | Inr (nkeys, body) \<Rightarrow> upsert_reply E S (nat nkeys) body no_upserts st)))"

section \<open>Recovering the missing keys\<close>

fun filter_unseen :: "'c lru \<Rightarrow> zp list \<Rightarrow> 'c \<Rightarrow> zp list \<times> 'c" where
  "filter_unseen L [] c = ([], c)"
| "filter_unseen L (v # vs) c =
    (let (found, c) = lru_Get L (FullKeyHash v) c; (us, c) = filter_unseen L vs c
     in (if found then us else v # us, c))"

definition unseenRemoteElements :: "'c lru \<Rightarrow> recover \<Rightarrow> ('t, 'c) sksPeer \<Rightarrow> zp list \<times> ('t, 'c) sksPeer" where
  "unseenRemoteElements L rcvr r =
    (if st_SeenCacheSize (sp_settings r) = 0 then (rc_RemoteElements rcvr, r)
     else case filter_unseen L (rc_RemoteElements rcvr) (sp_seenCache r) of (us, c) \<Rightarrow> (us, r\<lparr>sp_seenCache := c\<rparr>))"

text \<open>The changes of the chunk size after a failure and after a success.\<close>

definition shrink :: "nat \<Rightarrow> ('t, 'c) sksPeer \<Rightarrow> ('t, 'c) sksPeer" where
  "shrink n r = r\<lparr>sp_requestChunkSize := max (n div 2) minRequestChunkSize, sp_slowStart := False\<rparr>"

definition grow :: "('t, 'c) sksPeer \<Rightarrow> ('t, 'c) sksPeer" where
  "grow r = r\<lparr>sp_requestChunkSize := min (if sp_slowStart r then sp_requestChunkSize r * 2 else sp_requestChunkSize r + 1)
     maxRequestChunkSize\<rparr>"

definition remember :: "'c lru \<Rightarrow> zp list \<Rightarrow> ('t, 'c) sksPeer \<Rightarrow> ('t, 'c) sksPeer" where
  "remember L chunk r = (if 0 < st_SeenCacheSize (sp_settings r)
     then r\<lparr>sp_seenCache := fold (\<lambda>v. lru_Add L (FullKeyHash v)) chunk (sp_seenCache r)\<rparr> else r)"

text \<open>
  The loop of \<open>requestRecovered\<close> over any way to request a chunk: \<open>req n\<close> is the \<open>n\<close>-th request.
  The result also lists the chunks that were requested. Running out of the fuel is \<open>Diverge\<close>.
\<close>

fun recover_loop :: "'c lru \<Rightarrow> (nat \<Rightarrow> zp list \<Rightarrow> ('s, 't, 'c) sksState \<Rightarrow> ('s, 't, 'c) sksState \<times> unit res)
    \<Rightarrow> nat \<Rightarrow> nat \<Rightarrow> zp list \<Rightarrow> nat \<Rightarrow> ('s, 't, 'c) sksState \<Rightarrow> ('s, 't, 'c) sksState \<times> zp list list \<times> unit res" where
  "recover_loop L req 0 n items errCount st = (st, [], Inl Diverge)"
| "recover_loop L req (Suc fuel) n items errCount st =
    (if items = [] then (st, [], if 0 < errCount then Inl (Err (ErrMsg ''errors requesting chunks'')) else Inr ())
     else
       let chunksize = min (sp_requestChunkSize (snd st)) (length items); chunk = take chunksize items in
       (case req n chunk st of
          ((s, r), Inr _) \<Rightarrow>
            (case recover_loop L req fuel (Suc n) (drop chunksize items) errCount (s, remember L chunk (grow r)) of
               (st, chunks, res) \<Rightarrow> (st, chunk # chunks, res))
        | ((s, r), Inl (Err _)) \<Rightarrow>
            if errCount + 1 = maxKeyRecoveryAttempts
            then ((s, shrink (length chunk) r), [chunk], Inl (Err (ErrMsg ''Too many errors requesting chunks'')))
            else (case recover_loop L req fuel (Suc n) (if chunksize \<le> minRequestChunkSize then drop chunksize items else items)
                 (errCount + 1) (s, shrink (length chunk) r) of
               (st, chunks, res) \<Rightarrow> (st, chunk # chunks, res))
        | (st, Inl f) \<Rightarrow> (st, [chunk], Inl f)))"

definition requestRecovered :: "gocrypto \<Rightarrow> 's storage \<Rightarrow> 'c lru \<Rightarrow> (nat \<Rightarrow> byte list \<Rightarrow> http_response res) \<Rightarrow> recover
    \<Rightarrow> ('s, 't, 'c) sksState \<Rightarrow> ('s, 't, 'c) sksState \<times> zp list list \<times> unit res" where
  "requestRecovered E S L Do rcvr st = (case unseenRemoteElements L rcvr (snd st) of (items, r) \<Rightarrow>
     recover_loop L (\<lambda>n chunk st. case requestChunk E S (Do n) rcvr chunk st of (st, res) \<Rightarrow> (st, rbind res (\<lambda>_. Inr ())))
       (length items + maxKeyRecoveryAttempts + 1) 0 items 0 (fst st, r))"

end
