(* ===== verification/Requests.thy ===== *)
theory Requests
  imports SksPeer
begin

text \<open>
  The requests of the HTTP keyserver protocol, \<open>hkp/requests.go\<close>. An HTTP request is its method,
  its content type, its decoded form (a missing field is the empty string) and its body. The armor
  decoder is a parameter: it finds the armored block, and reading the block may fail later.
\<close>

section \<open>Operations and options\<close>

datatype Operation =
    OperationGet | OperationIndex | OperationVIndex | OperationStats | OperationHGet
  | OperationByVFingerprint | OperationByIdentity | OperationByKeyId | OperationCanonical

definition ParseOperation :: "gostring \<Rightarrow> Operation option" where
  "ParseOperation s =
    (if s = lit ''get'' then Some OperationGet
     else if s = lit ''index'' then Some OperationIndex
     else if s = lit ''vindex'' then Some OperationVIndex
     else if s = lit ''stats'' then Some OperationStats
     else if s = lit ''hget'' then Some OperationHGet else None)"

definition OptionMachineReadable :: gostring where "OptionMachineReadable = lit ''mr''"
definition OptionJSON :: gostring where "OptionJSON = lit ''json''"
definition OptionNotModifiable :: gostring where "OptionNotModifiable = lit ''nm''"
definition OptionBinary :: gostring where "OptionBinary = lit ''bin''"

definition ParseOptionSet :: "gostring \<Rightarrow> gostring set" where
  "ParseOptionSet s = set (filter (\<lambda>field. field \<noteq> []) (go_Split 44 s))"

record http_request =
  rq_Method :: gostring
  rq_ContentType :: "gostring option"
  rq_Form :: "(gostring \<Rightarrow> gostring) res"
  rq_Body :: "byte list res"

section \<open>Lookups\<close>

record Lookup =
  lk_Op :: Operation
  lk_Search :: gostring
  lk_Options :: "gostring set"
  lk_Fingerprint :: bool
  lk_Exact :: bool
  lk_Hash :: bool
  lk_Output :: gostring

definition is_hex :: "byte \<Rightarrow> bool" where
  "is_hex c = (hex_value c \<noteq> None)"

definition is_ws :: "byte \<Rightarrow> bool" where
  "is_ws c = (c = 9 \<or> c = 10 \<or> c = 12 \<or> c = 13 \<or> c = 32)"

text \<open>
  The groups of the fingerprint expression: four hexadecimal digits and at most two white space
  characters, as many groups as there are; the result is their number and the rest of the text.
\<close>

definition drop_ws2 :: "gostring \<Rightarrow> gostring" where
  "drop_ws2 s = (case s of
     a # b # r \<Rightarrow> if is_ws a then (if is_ws b then r else b # r) else s
   | [a] \<Rightarrow> if is_ws a then [] else s
   | [] \<Rightarrow> [])"

lemma drop_ws2_length: "length (drop_ws2 s) \<le> length s"
  by (auto simp: drop_ws2_def split: list.splits)

function hex_groups :: "gostring \<Rightarrow> nat \<times> gostring" where
  "hex_groups s = (if 4 \<le> length s \<and> list_all is_hex (take 4 s)
     then (case hex_groups (drop_ws2 (drop 4 s)) of (n, r) \<Rightarrow> (Suc n, r)) else (0, s))"
  by pat_completeness auto
termination
proof (relation "measure length")
  fix s :: gostring
  assume "4 \<le> length s \<and> list_all is_hex (take 4 s)"
  then show "(drop_ws2 (drop 4 s), s) \<in> measure length"
    using drop_ws2_length[of "drop 4 s"] by (auto intro: le_less_trans)
qed simp

declare hex_groups.simps [simp del]

text \<open>The text with a fingerprint or a key ID brought to the \<open>0x\<close> form.\<close>

definition normalise_search :: "gostring \<Rightarrow> gostring" where
  "normalise_search s = (case hex_groups s of (n, rest) \<Rightarrow>
     if n \<in> {4, 8, 10, 16} \<and> list_all is_ws rest
     then filter (\<lambda>c. c \<noteq> 32) (lit ''0x'' @ take (length s - length rest) s) else s)"

definition ParseLookup :: "http_request \<Rightarrow> Lookup res" where
  "ParseLookup req = rbind (rq_Form req) (\<lambda>form. case ParseOperation (form (lit ''op'')) of
     None \<Rightarrow> Inl (Err (ErrMsg ''invalid operation''))
   | Some op \<Rightarrow>
      let search = (if op = OperationStats then [] else form (lit ''search'')) in
      if op \<noteq> OperationStats \<and> search = [] then Inl (Err (ErrMsg ''missing required parameter: search''))
      else let search = (if op = OperationIndex then normalise_search search else search) in
        Inr \<lparr>lk_Op = op, lk_Search = search, lk_Options = ParseOptionSet (form (lit ''options'')), lk_Fingerprint = True,
             lk_Exact = (form (lit ''exact'') = lit ''on''), lk_Hash = (form (lit ''hash'') = lit ''on''), lk_Output = search\<rparr>)"

section \<open>Submissions\<close>

record Add =
  ad_Keytext :: gostring
  ad_Keysig :: gostring
  ad_Body :: "byte list res"
  ad_Replace :: bool
  ad_Options :: "gostring set"

text \<open>\<open>strconv.ParseBool\<close>, false when it fails.\<close>

definition ParseBool :: "gostring \<Rightarrow> bool" where
  "ParseBool s = (s \<in> set (map lit [''1'', ''t'', ''T'', ''TRUE'', ''true'', ''True'']))"

definition ParseAdd :: "(gostring \<Rightarrow> byte list res res) \<Rightarrow> http_request \<Rightarrow> Add res" where
  "ParseAdd armor_Decode req =
    (if rq_Method req \<noteq> lit ''POST'' then Inl (Err (ErrMsg ''invalid HTTP method''))
     else if rq_ContentType req = Some (lit ''application/pgp'') then
       Inr \<lparr>ad_Keytext = [], ad_Keysig = [], ad_Body = rq_Body req, ad_Replace = False, ad_Options = {OptionJSON}\<rparr>
     else rbind (rq_Form req) (\<lambda>form.
       let keytext = form (lit ''keytext'') in
       if keytext = [] then Inl (Err (ErrMsg ''missing required parameter: keytext''))
       else rbind (armor_Decode keytext) (\<lambda>body.
         Inr \<lparr>ad_Keytext = keytext, ad_Keysig = form (lit ''keysig''), ad_Body = body,
              ad_Replace = ParseBool (form (lit ''replace'')), ad_Options = ParseOptionSet (form (lit ''options''))\<rparr>)))"

text \<open>The signed text and the signature of a request that needs one.\<close>

definition starts_with :: "gostring \<Rightarrow> gostring \<Rightarrow> bool" where
  "starts_with p s = (take (length p) s = p)"

definition parse_signed :: "string \<Rightarrow> http_request \<Rightarrow> (gostring \<times> gostring) res" where
  "parse_signed path req =
    (if rq_Method req \<noteq> lit ''POST'' then Inl (Err (ErrMsg ''invalid HTTP method''))
     else rbind (rq_Form req) (\<lambda>form.
       let keytext = form (lit ''keytext''); keysig = form (lit ''keysig'') in
       if keytext = [] then Inl (Err (ErrMsg ''missing required parameter: keytext''))
       else if keysig = [] then Inl (Err (ErrMsg ''missing required parameter: keysig''))
       else if \<not> starts_with (lit path @ [10]) keytext \<and> \<not> starts_with (lit path @ [13]) keytext
       then Inl (Err (ErrMsg ''unexpected first line of keytext''))
       else Inr (keytext, keysig)))"

definition ParseReplace :: "http_request \<Rightarrow> (gostring \<times> gostring) res" where
  "ParseReplace req = parse_signed ''/pks/replace'' req"

definition ParseDelete :: "http_request \<Rightarrow> (gostring \<times> gostring) res" where
  "ParseDelete req = parse_signed ''/pks/delete'' req"

section \<open>Hash queries\<close>

text \<open>
  \<open>Read\<close> of a \<open>bytes.Buffer\<close> into a slice of \<open>n\<close> zero bytes: it fails on an empty buffer unless
  the slice is empty, and otherwise fills what it can.
\<close>

definition buffer_Read :: "nat \<Rightarrow> byte list \<Rightarrow> (byte list \<times> byte list) res" where
  "buffer_Read n r =
    (if r = [] \<and> n \<noteq> 0 then Inl (Err ErrEOF)
     else Inr (take n r @ replicate (n - length r) 0, drop n r))"

fun hashquery_digests :: "nat \<Rightarrow> byte list \<Rightarrow> gostring list \<Rightarrow> gostring list res" where
  "hashquery_digests 0 r digests = Inr digests"
| "hashquery_digests (Suc i) r digests = rbind (ReadInt r) (\<lambda>(hashlen, r).
     rbind (buffer_Read (nat hashlen) r) (\<lambda>(hash, r).
       let d = hex_EncodeToString hash in
       hashquery_digests i r (if d \<in> set digests then digests else digests @ [d])))"

definition ParseHashQuery :: "http_request \<Rightarrow> gostring list res" where
  "ParseHashQuery req =
    (if rq_Method req \<noteq> lit ''POST'' then Inl (Err (ErrMsg ''invalid HTTP method''))
     else rbind (rq_Body req) (\<lambda>r. rbind (ReadInt r) (\<lambda>(n, r). hashquery_digests (nat n) r [])))"

end
