(* ===== verification/Handler.thy ===== *)
theory Handler
  imports Requests JsonHkp
begin

text \<open>
  The HTTP handlers of the keyserver, \<open>hkp/handler.go\<close> and \<open>hkp/writers.go\<close>, over any storage.
  A response is its status and what is written, in order. JSON and HTML output are kept as the
  value that is rendered; rendering succeeds. Headers other than the status are left out, as is
  the registration of the routes.

  The armor coder, the detached signature check and the reading of an entity by go-crypto, and
  the random number generator are the fields of \<open>hkpenv\<close>.
\<close>

section \<open>Configuration\<close>

record hkpenv =
  hk_E :: gocrypto
  hk_armor_Decode :: "gostring \<Rightarrow> byte list res res"
  hk_armor_Encode :: "byte list \<Rightarrow> byte list"
  hk_ReadEntity :: "byte list \<Rightarrow> bool"
  hk_CheckSignature :: "byte list list \<Rightarrow> gostring \<Rightarrow> gostring \<Rightarrow> gostring res"
  hk_Intn :: "nat \<Rightarrow> nat"

record handler =
  h_policy :: Policy
  h_indexWriter :: bool
  h_vindexWriter :: bool
  h_responseTemplate :: bool
  h_statsTemplate :: bool
  h_statsFunc :: "unit res option"
  h_selfSignedOnly :: bool
  h_fingerprintOnly :: bool
  h_enableInexact :: bool
  h_enumerableDomains :: "gostring list"
  h_keyReaderOptions :: "(keyReader \<Rightarrow> keyReader) list"
  h_maxResponseLen :: int
  h_adminKeys :: "gostring list"

type_synonym HandlerOption = "handler \<Rightarrow> handler"

definition IndexTemplate :: HandlerOption where "IndexTemplate h = h\<lparr>h_indexWriter := True\<rparr>"
definition VIndexTemplate :: HandlerOption where "VIndexTemplate h = h\<lparr>h_vindexWriter := True\<rparr>"
definition ResponseTemplate :: HandlerOption where "ResponseTemplate h = h\<lparr>h_responseTemplate := True\<rparr>"
definition StatsTemplate :: HandlerOption where "StatsTemplate h = h\<lparr>h_statsTemplate := True\<rparr>"
definition StatsFunc :: "unit res \<Rightarrow> HandlerOption" where "StatsFunc f h = h\<lparr>h_statsFunc := Some f\<rparr>"
definition SelfSignedOnly :: "bool \<Rightarrow> HandlerOption" where "SelfSignedOnly b h = h\<lparr>h_selfSignedOnly := b\<rparr>"
definition FingerprintOnly :: "bool \<Rightarrow> HandlerOption" where "FingerprintOnly b h = h\<lparr>h_fingerprintOnly := b\<rparr>"
definition EnableInexact :: "bool \<Rightarrow> HandlerOption" where "EnableInexact b h = h\<lparr>h_enableInexact := b\<rparr>"
definition h_EnumerableDomains :: "gostring list \<Rightarrow> HandlerOption" where
  "h_EnumerableDomains ds h = h\<lparr>h_enumerableDomains := ds\<rparr>"
definition MaxResponseLen :: "int \<Rightarrow> HandlerOption" where "MaxResponseLen n h = h\<lparr>h_maxResponseLen := n\<rparr>"
definition KeyReaderOptions :: "(keyReader \<Rightarrow> keyReader) list \<Rightarrow> HandlerOption" where
  "KeyReaderOptions opts h = h\<lparr>h_keyReaderOptions := opts\<rparr>"

definition AdminKeys :: "gocrypto \<Rightarrow> gostring list \<Rightarrow> HandlerOption" where
  "AdminKeys E adminKeys h = h\<lparr>h_adminKeys := map (\<lambda>fp.
     gc_ToLower E (if starts_with (lit ''0x'') fp then drop 2 fp else fp)) adminKeys\<rparr>"

definition NewHandler :: "Policy \<Rightarrow> HandlerOption list \<Rightarrow> handler" where
  "NewHandler policy options = fold (\<lambda>option h. option h) options
    \<lparr>h_policy = policy, h_indexWriter = False, h_vindexWriter = False, h_responseTemplate = False, h_statsTemplate = False,
     h_statsFunc = None, h_selfSignedOnly = False, h_fingerprintOnly = False, h_enableInexact = False,
     h_enumerableDomains = [], h_keyReaderOptions = [], h_maxResponseLen = 0, h_adminKeys = []\<rparr>"

section \<open>Responses\<close>

record CertSummary =
  cs_Version :: byte
  cs_Fingerprint :: gostring
  cs_Comment :: "fault option"

definition summary :: "PrimaryKey \<Rightarrow> fault option \<Rightarrow> CertSummary" where
  "summary key comment = \<lparr>cs_Version = pub_Version key, cs_Fingerprint = pub_Fingerprint key, cs_Comment = comment\<rparr>"

record SubmissionResponse =
  sr_Inserted :: "CertSummary list"
  sr_Updated :: "CertSummary list"
  sr_Deleted :: "CertSummary list"
  sr_Ignored :: "CertSummary list"
  sr_Invalid :: "CertSummary list"

definition emptySubmission :: SubmissionResponse where
  "emptySubmission = \<lparr>sr_Inserted = [], sr_Updated = [], sr_Deleted = [], sr_Ignored = [], sr_Invalid = []\<rparr>"

datatype payload =
    StatusText int | PBytes "byte list" | JsonSubmission SubmissionResponse | HtmlSubmission SubmissionResponse
  | JsonKeys "jPrimaryKey list" | HtmlKeys Lookup "jPrimaryKey list" | JsonStats | HtmlStats

record response =
  rs_Status :: int
  rs_Body :: "payload list"

definition ok_with :: "payload list \<Rightarrow> response" where
  "ok_with body = \<lparr>rs_Status = 200, rs_Body = body\<rparr>"

definition httpError :: "int \<Rightarrow> response" where
  "httpError code = \<lparr>rs_Status = code, rs_Body = [StatusText code]\<rparr>"

definition Health :: "http_request \<Rightarrow> response" where
  "Health r = (if rq_Method r = lit ''HEAD'' then ok_with [] else ok_with [PBytes (lit ''OK'')])"

definition stats :: "handler \<Rightarrow> gostring set \<Rightarrow> response" where
  "stats h opts = (case h_statsFunc h of
     None \<Rightarrow> \<lparr>rs_Status = 501, rs_Body = [StatusText 501, PBytes (lit ''stats not configured'' @ [10])]\<rparr>
   | Some (Inl _) \<Rightarrow> httpError 500
   | Some (Inr _) \<Rightarrow> ok_with [if h_statsTemplate h \<and> \<not> (OptionJSON \<in> opts \<or> OptionMachineReadable \<in> opts) then HtmlStats else JsonStats])"

definition Stats :: "handler \<Rightarrow> http_request \<Rightarrow> response" where
  "Stats h r = (if rq_Method r = lit ''HEAD'' then ok_with []
     else case rq_Form r of Inl _ \<Rightarrow> httpError 400 | Inr form \<Rightarrow> stats h (ParseOptionSet (form (lit ''options''))))"

section \<open>Index formats\<close>

definition mrTimeString :: "time \<Rightarrow> gostring" where
  "mrTimeString t = (if IsZero t then [] else dec_bytes (Unix t))"

definition to_upper_hex :: "gostring \<Rightarrow> gostring" where
  "to_upper_hex s = map (\<lambda>c. if 97 \<le> c \<and> c \<le> 122 then c - 32 else c) s"

definition escape_colons :: "gostring \<Rightarrow> gostring" where
  "escape_colons s = concat (map (\<lambda>c. if c = 58 then lit ''%3a'' else [c]) s)"

definition revocation_flag :: "bool \<Rightarrow> gostring" where
  "revocation_flag b = (if b then lit ''r'' else [])"

definition mr_uid :: "UserID \<Rightarrow> gostring" where
  "mr_uid uid = lit ''uid:'' @ escape_colons (uid_Keywords uid) @ lit '':'' @ dec_bytes (Unix (uid_ValidSince uid)) @ lit '':''
     @ mrTimeString (uid_Expiration uid) @ lit '':'' @ revocation_flag (uid_IsRevoked uid) @ [10]"

definition mr_key :: "PrimaryKey \<Rightarrow> gostring" where
  "mr_key key = lit ''pub:'' @ to_upper_hex (pub_Fingerprint key) @ lit '':'' @ dec_bytes (pub_Algorithm key) @ lit '':''
     @ dec_bytes (pub_BitLen key) @ lit '':'' @ dec_bytes (Unix (pub_Creation key)) @ lit '':''
     @ mrTimeString (pub_Expiration key) @ lit '':'' @ revocation_flag (pub_IsRevoked key) @ [10]
     @ concat (map mr_uid (pk_UserIDs key))"

definition MRFormat_Write :: "PrimaryKey list \<Rightarrow> gostring" where
  "MRFormat_Write keys = lit ''info:1:'' @ dec_bytes (int (length keys)) @ [10] @ concat (map mr_key keys)"

datatype IndexFormat = JSONFormat | MRFormat | HTMLFormat

definition format_Write :: "IndexFormat \<Rightarrow> Lookup \<Rightarrow> PrimaryKey list \<Rightarrow> payload" where
  "format_Write f l keys = (case f of
     JSONFormat \<Rightarrow> JsonKeys (NewPrimaryKeys keys) | MRFormat \<Rightarrow> PBytes (MRFormat_Write keys)
   | HTMLFormat \<Rightarrow> HtmlKeys l (NewPrimaryKeys keys))"

section \<open>Fetching keys\<close>

definition keyIDLen :: nat where "keyIDLen = 16"
definition v4FingerprintLen :: nat where "v4FingerprintLen = 40"
definition v6FingerprintLen :: nat where "v6FingerprintLen = 64"
definition maxPrefixes :: nat where "maxPrefixes = 1000"

definition errKeywordSearchNotAvailable :: goerr where
  "errKeywordSearchNotAvailable = ErrMsg ''keyword search is not available''"

definition fetch_resolved :: "'s storage \<Rightarrow> nat \<Rightarrow> gostring \<Rightarrow> 's \<Rightarrow> 's \<times> Record list res" where
  "fetch_resolved S ptr keyID s = (case sto_ResolveToFp S [keyID] s of
     Inl e \<Rightarrow> (s, Inl e) | Inr fps \<Rightarrow> sto_FetchRecordsByFp S ptr True fps s)"

definition fetch_records :: "hkpenv \<Rightarrow> handler \<Rightarrow> 's storage \<Rightarrow> nat \<Rightarrow> Lookup \<Rightarrow> 's \<Rightarrow> 's \<times> Record list res" where
  "fetch_records K h S ptr l s = (let search = lk_Search l in case lk_Op l of
     OperationHGet \<Rightarrow> sto_FetchRecordsByMD5 S ptr True [search] s
   | OperationByVFingerprint \<Rightarrow> sto_FetchRecordsByVfp S ptr True [search] s
   | OperationByIdentity \<Rightarrow> sto_FetchRecordsByIdentity S ptr True [search] s
   | OperationByKeyId \<Rightarrow>
      (let keyID = gc_ToLower (hk_E K) search in
       if length keyID \<noteq> keyIDLen then (s, Inl (Err (ErrMsg ''bad keyid length''))) else fetch_resolved S ptr keyID s)
   | _ \<Rightarrow>
      if starts_with (lit ''0x'') search then
        (let keyID = gc_ToLower (hk_E K) (drop 2 search) in
         if length keyID \<in> {keyIDLen, v4FingerprintLen, v6FingerprintLen} then fetch_resolved S ptr keyID s else (s, Inr []))
      else if h_fingerprintOnly h then (s, Inl (Err errKeywordSearchNotAvailable))
      else if h_enableInexact h \<and> \<not> lk_Exact l \<or> search \<in> set (h_enumerableDomains h)
      then sto_FetchRecordsByKeyword S ptr True search s
      else sto_FetchRecordsByIdentity S ptr True [search] s)"

text \<open>The keys of the records that are still valid; an invalid key is skipped.\<close>

fun valid_keys :: "gocrypto \<Rightarrow> Policy \<Rightarrow> bool \<Rightarrow> Record list \<Rightarrow> PrimaryKey list res" where
  "valid_keys E policy selfSignedOnly [] = Inr []"
| "valid_keys E policy selfSignedOnly (r # rs) = (case rec_PrimaryKey r of
     None \<Rightarrow> valid_keys E policy selfSignedOnly rs
   | Some key \<Rightarrow> (case ValidSelfSigned E policy (fresh_ptr key) key selfSignedOnly of
        Inl (Err _) \<Rightarrow> valid_keys E policy selfSignedOnly rs
      | Inl f \<Rightarrow> Inl f
      | Inr key \<Rightarrow> rbind (valid_keys E policy selfSignedOnly rs) (\<lambda>keys. Inr (key # keys))))"

definition fetchKeys :: "hkpenv \<Rightarrow> handler \<Rightarrow> 's storage \<Rightarrow> nat \<Rightarrow> Lookup \<Rightarrow> 's \<Rightarrow> 's \<times> PrimaryKey list res" where
  "fetchKeys K h S ptr l s = (case fetch_records K h S ptr l s of
     (s, records) \<Rightarrow> (s, rbind records (valid_keys (hk_E K) (h_policy h) (h_selfSignedOnly h))))"

section \<open>Lookups\<close>

text \<open>The keys of a lookup, or the response when there are none to show.\<close>

definition lookup_keys :: "(PrimaryKey list \<Rightarrow> PrimaryKey list) \<Rightarrow> PrimaryKey list res \<Rightarrow> (PrimaryKey list \<Rightarrow> response res) \<Rightarrow> response res" where
  "lookup_keys sanitize keys show_keys = (case keys of
     Inl (Err e) \<Rightarrow> Inr (httpError (if e = errKeywordSearchNotAvailable then 501 else 500))
   | Inl f \<Rightarrow> Inl f
   | Inr keys \<Rightarrow> let keys = sanitize keys in if keys = [] then Inr (httpError 404) else show_keys keys)"

fun write_keys :: "PrimaryKey list \<Rightarrow> byte list" where
  "write_keys [] = []"
| "write_keys (k # ks) = (case WritePackets k of Inl _ \<Rightarrow> write_keys ks | Inr b \<Rightarrow> b @ write_keys ks)"

definition get2 :: "hkpenv \<Rightarrow> handler \<Rightarrow> 's storage \<Rightarrow> Lookup \<Rightarrow> 's \<Rightarrow> 's \<times> response res" where
  "get2 K h S l s = (case fetchKeys K h S 0 l s of (s, keys) \<Rightarrow>
     (s, lookup_keys SanitizeHKP keys (\<lambda>keys. Inr (ok_with [PBytes (write_keys keys)]))))"

definition legacy_refusal :: response where
  "legacy_refusal = \<lparr>rs_Status = 404, rs_Body = [StatusText 404,
     PBytes (lit ''Legacy HKP will not return keys >v5, to protect older clients'' @ [10])]\<rparr>"

definition safe_keys :: "PrimaryKey list \<Rightarrow> PrimaryKey list" where
  "safe_keys keys = filter (\<lambda>key. pub_Version key < 6) keys"

definition get :: "hkpenv \<Rightarrow> handler \<Rightarrow> 's storage \<Rightarrow> Lookup \<Rightarrow> 's \<Rightarrow> 's \<times> response res" where
  "get K h S l s = (case fetchKeys K h S 0 l s of (s, keys) \<Rightarrow>
     (s, lookup_keys SanitizeHKP keys (\<lambda>keys.
       if OptionBinary \<in> lk_Options l then Inr (ok_with [PBytes (write_keys keys)])
       else if safe_keys keys = [] then Inr legacy_refusal
       else case WriteArmoredPackets (hk_E K) (hk_armor_Encode K) (safe_keys keys) True of
         Inl (Err _) \<Rightarrow> Inr (ok_with [PBytes [10]])
       | Inl f \<Rightarrow> Inl f
       | Inr b \<Rightarrow> Inr (ok_with [PBytes b, PBytes [10]]))))"

definition index :: "hkpenv \<Rightarrow> handler \<Rightarrow> 's storage \<Rightarrow> Lookup \<Rightarrow> bool \<Rightarrow> 's \<Rightarrow> 's \<times> response res" where
  "index K h S l html s = (case fetchKeys K h S 0 l s of (s, keys) \<Rightarrow>
     (s, lookup_keys SanitizeIndex keys (\<lambda>keys.
       let mr = (OptionMachineReadable \<in> lk_Options l); safeKeys = (if mr then safe_keys keys else keys) in
       if safeKeys = [] then Inr legacy_refusal
       else let f = (if OptionJSON \<in> lk_Options l then JSONFormat else if mr then MRFormat
                     else if html then HTMLFormat else JSONFormat)
            in Inr (ok_with [format_Write f l safeKeys]))))"

definition index2 :: "hkpenv \<Rightarrow> handler \<Rightarrow> 's storage \<Rightarrow> Lookup \<Rightarrow> 's \<Rightarrow> 's \<times> response res" where
  "index2 K h S l s = (case fetchKeys K h S 0 l s of (s, keys) \<Rightarrow>
     (s, lookup_keys SanitizeIndex keys (\<lambda>keys. Inr (ok_with [format_Write JSONFormat l keys]))))"

definition handle_Lookup :: "hkpenv \<Rightarrow> handler \<Rightarrow> 's storage \<Rightarrow> http_request \<Rightarrow> 's \<Rightarrow> 's \<times> response res" where
  "handle_Lookup K h S r s = (case ParseLookup r of
     Inl _ \<Rightarrow> (s, Inr (httpError 400))
   | Inr l \<Rightarrow> (case lk_Op l of
       OperationGet \<Rightarrow> get K h S l s
     | OperationHGet \<Rightarrow> get K h S l s
     | OperationIndex \<Rightarrow> index K h S l (h_indexWriter h) s
     | OperationVIndex \<Rightarrow> index K h S l (h_vindexWriter h) s
     | OperationStats \<Rightarrow> (s, Inr (stats h (lk_Options l)))
     | _ \<Rightarrow> (s, Inr (httpError 501))))"

definition v2_lookup :: "Operation \<Rightarrow> gostring \<Rightarrow> gostring \<Rightarrow> Lookup" where
  "v2_lookup op search output = \<lparr>lk_Op = op, lk_Search = search, lk_Options = {}, lk_Fingerprint = False,
     lk_Exact = False, lk_Hash = False, lk_Output = output\<rparr>"

definition VfpLookup :: "hkpenv \<Rightarrow> handler \<Rightarrow> 's storage \<Rightarrow> gostring \<Rightarrow> gostring \<Rightarrow> 's \<Rightarrow> 's \<times> response res" where
  "VfpLookup K h S v fp = get2 K h S (v2_lookup OperationByVFingerprint (v @ fp) fp)"

definition IdentityLookup :: "hkpenv \<Rightarrow> handler \<Rightarrow> 's storage \<Rightarrow> gostring \<Rightarrow> 's \<Rightarrow> 's \<times> response res" where
  "IdentityLookup K h S ident = get2 K h S (v2_lookup OperationByIdentity ident ident)"

definition KeyIdLookup :: "hkpenv \<Rightarrow> handler \<Rightarrow> 's storage \<Rightarrow> gostring \<Rightarrow> 's \<Rightarrow> 's \<times> response res" where
  "KeyIdLookup K h S keyid = get2 K h S (v2_lookup OperationByKeyId keyid keyid)"

definition Hkp2Index :: "hkpenv \<Rightarrow> handler \<Rightarrow> 's storage \<Rightarrow> gostring \<Rightarrow> 's \<Rightarrow> 's \<times> response res" where
  "Hkp2Index K h S ident = index2 K h S (v2_lookup OperationByIdentity ident ident)"

text \<open>
  The paging loop of \<open>PrefixLog\<close> over the fuel, and the log of a day; \<open>day\<close> is the parsed date. A
  fingerprint of fewer than eight characters is a slice out of range.
\<close>

fun prefix_pages :: "'s storage \<Rightarrow> nat \<Rightarrow> time \<Rightarrow> time \<Rightarrow> gostring list \<Rightarrow> 's \<Rightarrow> gostring list res" where
  "prefix_pages S 0 refTime maxTime fps s = Inl Diverge"
| "prefix_pages S (Suc n) refTime maxTime fps s = (case sto_ModifiedSinceToFp S refTime maxTime s of
     Inl e \<Rightarrow> Inl e
   | Inr (newFps, refTime) \<Rightarrow>
       if newFps = [] then Inr fps
       else if maxPrefixes < length (fps @ newFps) then Inr (fps @ newFps)
       else prefix_pages S n refTime maxTime (fps @ newFps) s)"

definition PrefixLog :: "'s storage \<Rightarrow> time res \<Rightarrow> 's \<Rightarrow> response res" where
  "PrefixLog S day s = (case day of
     Inl _ \<Rightarrow> Inr (httpError 400)
   | Inr refTime \<Rightarrow> (case prefix_pages S (maxPrefixes + 2) refTime (refTime + 24 * hour) [] s of
       Inl (Err _) \<Rightarrow> Inr (httpError 400)
     | Inl f \<Rightarrow> Inl f
     | Inr fps \<Rightarrow>
        rbind (rmap (\<lambda>fp. if length fp < 8 then Inl (Panic PIndex) else Inr (take 8 fp @ [13, 10])) fps) (\<lambda>lines.
        Inr (ok_with (map PBytes lines)))))"

section \<open>Hash queries\<close>

text \<open>What \<open>ValidSelfSigned\<close> leaves of a key that it reports as evaporated.\<close>

definition evaporated :: "gocrypto \<Rightarrow> PrimaryKey \<Rightarrow> PrimaryKey" where
  "evaporated E key = key\<lparr>pub_Signatures := snd (key_SigInfo E key), pk_UserIDs := [], pk_SubKeys := []\<rparr>"

text \<open>The records that fit into a response, where \<open>0\<close> is no limit.\<close>

fun limit_records :: "int \<Rightarrow> int \<Rightarrow> Record list \<Rightarrow> PrimaryKey list" where
  "limit_records maxLen len [] = []"
| "limit_records maxLen len (r # rs) = (case rec_PrimaryKey r of
     None \<Rightarrow> limit_records maxLen len rs
   | Some k \<Rightarrow> if maxLen \<noteq> 0 \<and> maxLen < len + pk_Length k then []
               else k # limit_records maxLen (len + pk_Length k) rs)"

text \<open>
  The check of the keys in turn, from a random one on; a key that changed or evaporated is written
  back and the next one is checked. The keys of the result are changed in place.
\<close>

fun recheck :: "gocrypto \<Rightarrow> Policy \<Rightarrow> 's storage \<Rightarrow> nat list \<Rightarrow> PrimaryKey list \<Rightarrow> 's \<Rightarrow> 's \<times> PrimaryKey list res" where
  "recheck E policy S [] result s = (s, Inr result)"
| "recheck E policy S (i # is) result s =
    (let key = result ! i in
     case ValidSelfSigned E policy (fresh_ptr key) key False of
       Inl (Err e) \<Rightarrow>
         if e = ErrKeyEvaporated then
           (case sto_Delete S (pub_Fingerprint key) s of
              (s, Inl _) \<Rightarrow> (s, Inr (result[i := evaporated E key]))
            | (s, Inr _) \<Rightarrow>
                (case sto_Upsert S (evaporated E key) s of
                   (s, Inl (Panic p)) \<Rightarrow> (s, Inl (Panic p))
                 | (s, _) \<Rightarrow> recheck E policy S is (result[i := SortKey E (evaporated E key)]) s))
         else (s, Inr result)
     | Inl f \<Rightarrow> (s, Inl f)
     | Inr key' \<Rightarrow>
         if pk_MD5 key' = pk_MD5 key then (s, Inr (result[i := key']))
         else (case sto_Upsert S key' s of
             (s, Inl (Panic p)) \<Rightarrow> (s, Inl (Panic p))
           | (s, _) \<Rightarrow> recheck E policy S is (result[i := SortKey E key']) s))"

definition writeHashqueryKey :: "PrimaryKey \<Rightarrow> byte list res" where
  "writeHashqueryKey key = rbind (WritePackets key) (\<lambda>b. Inr (WriteInt (int (length b)) @ b))"

text \<open>The body of the response; a key that cannot be written ends it.\<close>

fun hashquery_keys :: "PrimaryKey list \<Rightarrow> byte list" where
  "hashquery_keys [] = [13, 10]"
| "hashquery_keys (k # ks) = (case writeHashqueryKey k of Inl _ \<Rightarrow> [] | Inr b \<Rightarrow> b @ hashquery_keys ks)"

definition hashquery_body :: "PrimaryKey list \<Rightarrow> byte list" where
  "hashquery_body result = WriteInt (int (length result)) @ hashquery_keys result"

definition HashQuery :: "hkpenv \<Rightarrow> handler \<Rightarrow> 's storage \<Rightarrow> http_request \<Rightarrow> 's \<Rightarrow> 's \<times> response res" where
  "HashQuery K h S r s = (case ParseHashQuery r of
     Inl (Err _) \<Rightarrow> (s, Inr (httpError 400))
   | Inl f \<Rightarrow> (s, Inl f)
   | Inr digests \<Rightarrow> (case sto_FetchRecordsByMD5 S 0 True digests s of
       (s, Inl (Err _)) \<Rightarrow> (s, Inr (ok_with []))
     | (s, Inl f) \<Rightarrow> (s, Inl f)
     | (s, Inr records) \<Rightarrow>
        (let result = limit_records (h_maxResponseLen h) 0 records; numKeys = length result;
             order = (if numKeys = 0 then [] else map (\<lambda>i. (hk_Intn K numKeys + i) mod numKeys) [0..<numKeys]) in
         case recheck (hk_E K) (h_policy h) S order result s of
           (s, Inl f) \<Rightarrow> (s, Inl f)
         | (s, Inr result) \<Rightarrow> (s, Inr (ok_with [PBytes (hashquery_body result)])))))"

section \<open>Submissions\<close>

text \<open>
  \<open>MergeRevocationSig\<close> on the keys found, in place; a failure is only logged. What it leaves of a key:
  an evaporated key has lost its components, a key whose digests cannot be updated has them as before.
  Removing duplicates fails only where packets of different kinds have the same UUID, a collision of SHA-256;
  those removed until then are still in the key here.
\<close>

definition unmerged :: "gocrypto \<Rightarrow> Policy \<Rightarrow> nat \<Rightarrow> PrimaryKey \<Rightarrow> Signature \<Rightarrow> goerr \<Rightarrow> PrimaryKey res" where
  "unmerged E policy next k sig e =
    (let k = k\<lparr>pub_Signatures := pub_Signatures k @ [sig]\<rparr> in
     case dedup_key None k of
       Inl _ \<Rightarrow> Inr k
     | Inr k \<Rightarrow> if e = ErrKeyEvaporated then Inr (evaporated E k) else ValidSelfSigned_with Inr E policy next k False)"

fun merge_revocations :: "gocrypto \<Rightarrow> Policy \<Rightarrow> Signature \<Rightarrow> PrimaryKey list \<Rightarrow> PrimaryKey list res" where
  "merge_revocations E policy sig [] = Inr []"
| "merge_revocations E policy sig (k # ks) =
    (case (case MergeRevocationSig E policy (fresh_ptr k + node_ptr (SigNode sig)) k sig of
        Inr k' \<Rightarrow> Inr k'
      | Inl (Err e) \<Rightarrow> unmerged E policy (fresh_ptr k + node_ptr (SigNode sig)) k sig e
      | Inl f \<Rightarrow> Inl f) of
       Inl f \<Rightarrow> Inl f
     | Inr k' \<Rightarrow> rbind (merge_revocations E policy sig ks) (\<lambda>ks. Inr (k' # ks)))"

definition revocation_lookup :: "sigFields \<Rightarrow> Lookup" where
  "revocation_lookup sig =
    (if sf_IssuerFingerprint sig \<noteq> []
     then v2_lookup OperationByVFingerprint (hex_EncodeToString [sf_IssuerFpVersion sig] @ sf_IssuerFingerprint sig) []
     else v2_lookup OperationByKeyId (sf_IssuerKeyID sig) [])"

text \<open>The keys of a submission that is a bare revocation, or the status of the refusal.\<close>

definition bare_revocation :: "hkpenv \<Rightarrow> handler \<Rightarrow> 's storage \<Rightarrow> Add \<Rightarrow> 's \<Rightarrow> 's \<times> (int + PrimaryKey list res)" where
  "bare_revocation K h S add s = (case hk_armor_Decode K (ad_Keytext add) of
     Inl _ \<Rightarrow> (s, Inl 400)
   | Inr body \<Rightarrow> (case rbind body (okr_Read (hk_E K) (NewOpaqueKeyReader [])) of
       Inl _ \<Rightarrow> (s, Inl 422)
     | Inr [[packet]] \<Rightarrow> (case ParseSignature (hk_E K) 0 packet (gc_now (hk_E K)) [] [] of
         Inl _ \<Rightarrow> (s, Inl 422)
       | Inr sig \<Rightarrow> (case fetchKeys K h S 1 (revocation_lookup (sg sig)) s of
           (s, Inl (Err e)) \<Rightarrow> (s, Inl (if e = ErrKeyNotFound then 422 else 500))
         | (s, Inl f) \<Rightarrow> (s, Inr (Inl f))
         | (s, Inr keys) \<Rightarrow> (s, Inr (merge_revocations (hk_E K) (h_policy h) sig keys))))
     | Inr _ \<Rightarrow> (s, Inl 422)))"

definition render_submission :: "handler \<Rightarrow> gostring set \<Rightarrow> SubmissionResponse \<Rightarrow> response" where
  "render_submission h opts result =
    ok_with [if h_responseTemplate h \<and> \<not> (OptionJSON \<in> opts \<or> OptionMachineReadable \<in> opts) then HtmlSubmission result else JsonSubmission result]"

definition count_change :: "KeyChange \<Rightarrow> CertSummary \<Rightarrow> SubmissionResponse \<Rightarrow> SubmissionResponse" where
  "count_change change c result = (case change of
     KeyAdded _ _ \<Rightarrow> result\<lparr>sr_Inserted := sr_Inserted result @ [c]\<rparr>
   | KeyReplaced _ _ _ _ \<Rightarrow> result\<lparr>sr_Updated := sr_Updated result @ [c]\<rparr>
   | KeyNotChanged _ _ \<Rightarrow> result\<lparr>sr_Ignored := sr_Ignored result @ [c]\<rparr>
   | _ \<Rightarrow> result)"

fun add_keys :: "hkpenv \<Rightarrow> handler \<Rightarrow> 's storage \<Rightarrow> gostring set \<Rightarrow> PrimaryKey list \<Rightarrow> SubmissionResponse \<Rightarrow> 's \<Rightarrow> 's \<times> response res" where
  "add_keys K h S opts [] result s = (s, Inr (render_submission h opts result))"
| "add_keys K h S opts (key # keys) result s =
    (case ValidSelfSigned (hk_E K) (h_policy h) (fresh_ptr key) key False of
       Inl (Err e) \<Rightarrow> add_keys K h S opts keys (result\<lparr>sr_Invalid := sr_Invalid result @ [summary key (Some (Err e))]\<rparr>) s
     | Inl f \<Rightarrow> (s, Inl f)
     | Inr key \<Rightarrow> (case sto_Upsert S key s of
         (s, Inl (Err _)) \<Rightarrow> (s, Inr (httpError 500))
       | (s, Inl f) \<Rightarrow> (s, Inl f)
       | (s, Inr change) \<Rightarrow> add_keys K h S opts keys (count_change change (summary key None) result) s))"

definition handle_Add :: "hkpenv \<Rightarrow> handler \<Rightarrow> 's storage \<Rightarrow> http_request \<Rightarrow> 's \<Rightarrow> 's \<times> response res" where
  "handle_Add K h S r s = (case ParseAdd (hk_armor_Decode K) r of
     Inl _ \<Rightarrow> (s, Inr (httpError 400))
   | Inr add \<Rightarrow> (case rbind (ad_Body add) (kr_Read (hk_E K) (h_keyReaderOptions h)) of
       Inr keys \<Rightarrow> add_keys K h S (ad_Options add) keys emptySubmission s
     | Inl (Err e) \<Rightarrow>
         if e = ErrMsg ''bare signature (possibly revocation) instead of key'' then
           (case bare_revocation K h S add s of
              (s, Inl code) \<Rightarrow> (s, Inr (httpError code))
            | (s, Inr (Inl f)) \<Rightarrow> (s, Inl f)
            | (s, Inr (Inr keys)) \<Rightarrow> add_keys K h S (ad_Options add) keys emptySubmission s)
         else (s, Inr (httpError 422))
     | Inl f \<Rightarrow> (s, Inl f)))"

section \<open>Administration\<close>

text \<open>The serialised admin keys that go-crypto can read.\<close>

definition admin_keyring :: "hkpenv \<Rightarrow> Record list \<Rightarrow> byte list list" where
  "admin_keyring K records = filter (hk_ReadEntity K)
     (concat (map (\<lambda>r. case rec_PrimaryKey r of None \<Rightarrow> [] | Some k \<Rightarrow> [jPrimaryKey_Serialize (NewPrimaryKey k)]) records))"

definition checkSignature :: "hkpenv \<Rightarrow> handler \<Rightarrow> 's storage \<Rightarrow> gostring \<Rightarrow> gostring \<Rightarrow> 's \<Rightarrow> 's \<times> gostring res" where
  "checkSignature K h S keytext keysig s = (case sto_FetchRecordsByFp S 0 True (h_adminKeys h) s of
     (s, Inl (Panic p)) \<Rightarrow> (s, Inl (Panic p))
   | (s, records) \<Rightarrow>
      (s, case hk_CheckSignature K (admin_keyring K (case records of Inl _ \<Rightarrow> [] | Inr rs \<Rightarrow> rs)) keytext keysig of
         Inl _ \<Rightarrow> Inl (Err (ErrMsg ''invalid signature'')) | Inr fp \<Rightarrow> Inr fp))"

definition storage_error :: "goerr \<Rightarrow> response" where
  "storage_error e = httpError (if e = ErrKeyNotFound then 404 else 500)"

fun replace_keys :: "hkpenv \<Rightarrow> handler \<Rightarrow> 's storage \<Rightarrow> PrimaryKey list \<Rightarrow> SubmissionResponse \<Rightarrow> 's \<Rightarrow> 's \<times> response res" where
  "replace_keys K h S [] result s = (s, Inr (render_submission h {} result))"
| "replace_keys K h S (key # keys) result s =
    (case ValidSelfSigned (hk_E K) (h_policy h) (fresh_ptr key) key False of
       Inl (Err _) \<Rightarrow> (s, Inr (httpError 422))
     | Inl f \<Rightarrow> (s, Inl f)
     | Inr key \<Rightarrow> (case sto_Replace S key s of
         (s, Inl (Err e)) \<Rightarrow> (s, Inr (storage_error e))
       | (s, Inl f) \<Rightarrow> (s, Inl f)
       | (s, Inr change) \<Rightarrow> replace_keys K h S keys (count_change change (summary key None) result) s))"

fun delete_keys :: "hkpenv \<Rightarrow> handler \<Rightarrow> 's storage \<Rightarrow> PrimaryKey list \<Rightarrow> SubmissionResponse \<Rightarrow> 's \<Rightarrow> 's \<times> response res" where
  "delete_keys K h S [] result s = (s, Inr (render_submission h {} result))"
| "delete_keys K h S (key # keys) result s = (case sto_Delete S (pub_Fingerprint key) s of
     (s, Inl (Err e)) \<Rightarrow> (s, Inr (storage_error e))
   | (s, Inl f) \<Rightarrow> (s, Inl f)
   | (s, Inr change) \<Rightarrow> delete_keys K h S keys
       (case change of
          KeyRemoved _ _ \<Rightarrow> result\<lparr>sr_Deleted := sr_Deleted result @ [summary key None]\<rparr>
        | KeyNotChanged _ _ \<Rightarrow> result\<lparr>sr_Ignored := sr_Ignored result @ [summary key None]\<rparr>
        | _ \<Rightarrow> result) s)"

text \<open>The steps that \<open>Replace\<close> and \<open>Delete\<close> share: the signature, the armor and the keys.\<close>

definition with_admin_keys :: "hkpenv \<Rightarrow> handler \<Rightarrow> 's storage \<Rightarrow> (gostring \<times> gostring) res
    \<Rightarrow> (PrimaryKey list \<Rightarrow> 's \<Rightarrow> 's \<times> response res) \<Rightarrow> 's \<Rightarrow> 's \<times> response res" where
  "with_admin_keys K h S parsed act s = (case parsed of
     Inl _ \<Rightarrow> (s, Inr (httpError 400))
   | Inr (keytext, keysig) \<Rightarrow> (case checkSignature K h S keytext keysig s of
       (s, Inl (Err _)) \<Rightarrow> (s, Inr (httpError 422))
     | (s, Inl f) \<Rightarrow> (s, Inl f)
     | (s, Inr _) \<Rightarrow>
        (case rbind (rbind (hk_armor_Decode K keytext) id) (kr_Read (hk_E K) (h_keyReaderOptions h)) of
           Inl (Err _) \<Rightarrow> (s, Inr (httpError 422))
         | Inl f \<Rightarrow> (s, Inl f)
         | Inr keys \<Rightarrow> act (SanitizeHKP keys) s)))"

definition handle_Replace :: "hkpenv \<Rightarrow> handler \<Rightarrow> 's storage \<Rightarrow> http_request \<Rightarrow> 's \<Rightarrow> 's \<times> response res" where
  "handle_Replace K h S r = with_admin_keys K h S (ParseReplace r) (\<lambda>keys. replace_keys K h S keys emptySubmission)"

definition handle_Delete :: "hkpenv \<Rightarrow> handler \<Rightarrow> 's storage \<Rightarrow> http_request \<Rightarrow> 's \<Rightarrow> 's \<times> response res" where
  "handle_Delete K h S r = with_admin_keys K h S (ParseDelete r) (\<lambda>keys. delete_keys K h S keys emptySubmission)"

end
