(* ===== verification/StorageSpec.thy ===== *)
theory StorageSpec
  imports Storage Handler ValidSpec PacketSpec
begin

text \<open>
  The contract of a storage that announces its changes, as a locale, and what the SKS peer and
  the HTTP handlers make of it. Certificates that were read have hexadecimal fingerprints.
\<close>

section \<open>Hexadecimal fingerprints\<close>

definition hex_string :: "gostring \<Rightarrow> bool" where
  "hex_string s = list_all (\<lambda>c. 48 \<le> c \<and> c \<le> 57 \<or> 97 \<le> c \<and> c \<le> 102) s"

definition hex_key :: "PrimaryKey \<Rightarrow> bool" where
  "hex_key k = hex_string (pub_Fingerprint k)"

lemma hex_digit_range: "n < 16 \<Longrightarrow> 48 \<le> hex_digit n \<and> hex_digit n \<le> 57 \<or> 97 \<le> hex_digit n \<and> hex_digit n \<le> 102"
  by (subgoal_tac "n \<in> {0..<16}") (auto simp: hex_digit_def atLeastLessThan_nat_numeral, (auto simp: hex_digit_def less_Suc_eq numeral_eq_Suc)?)

lemma hex_string_append [simp]: "hex_string (s @ t) \<longleftrightarrow> hex_string s \<and> hex_string t"
  by (simp add: hex_string_def)

lemma hex_string_Encode [simp]: "hex_string (hex_EncodeToString bs)"
proof (induction bs)
  case Nil
  show ?case by (simp add: hex_EncodeToString_def hex_string_def)
next
  case (Cons b bs)
  have "unat b div 16 < 16" "unat b mod 16 < 16" using unsigned_less[of b, where ?'a = nat] by simp_all
  then have "hex_string [hex_digit (unat b div 16), hex_digit (unat b mod 16)]"
    by (simp add: hex_string_def hex_digit_range)
  with Cons show ?case by (simp add: hex_EncodeToString_def hex_string_def)
qed

lemma pub_parse_hex: "pub_parse E pkp op b = Inr k \<Longrightarrow> hex_string (pub_Fingerprint k)"
  by (auto simp: pub_parse_def setPublicKey_def setPublicKeyV3_def setKeyID_def Let_def
    elim!: rbind_InrE split: parsed.splits if_splits option.splits)

lemma ParsePrimaryKey_hex: "ParsePrimaryKey E ptr op = Inr k \<Longrightarrow> hex_key k"
  by (auto simp: ParsePrimaryKey_def hex_key_def PublicKey.defs elim!: rbind_InrE dest: pub_parse_hex)

lemma upd_sigs_fp: "pub_Fingerprint (appendSignature c s k) = pub_Fingerprint k" "pub_Fingerprint (appendTrust t tt k) = pub_Fingerprint k"
  by (auto simp: appendSignature_def upd_sigs_def appendTrust_def split: cursor.splits trustable.splits)

lemma parse_step_hex:
  assumes "parse_step E op st = Inr st'" "\<forall>k. st_pubkey st = Some k \<longrightarrow> hex_key k"
  shows "\<forall>k. st_pubkey st' = Some k \<longrightarrow> hex_key k"
  using assms
  by (auto simp: parse_step_def Let_def hex_key_def upd_sigs_fp elim!: rbind_InrE dest!: ParsePrimaryKey_hex[unfolded hex_key_def]
    split: if_splits option.splits sum.splits)

lemma oc_Parse_hex: "oc_Parse E ptr c = Inr k \<Longrightarrow> hex_key k"
proof -
  assume "oc_Parse E ptr c = Inr k"
  then obtain st key d td where st: "rfold (parse_step E) c \<lparr>st_pubkey = None, st_signable = None, st_trustable = None,
        st_keyCreationTime = zeroTime, st_length = 0, st_next = ptr\<rparr> = Inr st" "st_pubkey st = Some key"
      "k = key\<lparr>pk_MD5 := d, pk_TrustMD5 := td, pk_Length := st_length st\<rparr>"
    by (auto simp: oc_Parse_def elim!: rbind_InrE split: option.splits prod.splits)
  have "\<forall>k. st_pubkey st = Some k \<longrightarrow> hex_key k"
    by (rule rfold_invI[OF st(1)]) (auto dest: parse_step_hex)
  with st(2,3) show "hex_key k" by (simp add: hex_key_def)
qed

lemma parse_all_hex: "parse_all E ptr cs = Inr ks \<Longrightarrow> k \<in> set ks \<Longrightarrow> hex_key k"
  by (induction E ptr cs arbitrary: ks rule: parse_all.induct) (auto elim!: rbind_InrE dest: oc_Parse_hex)

lemma kr_Read_hex: "kr_Read E opts b = Inr ks \<Longrightarrow> k \<in> set ks \<Longrightarrow> hex_key k"
  by (auto simp: kr_Read_def elim!: rbind_InrE dest: parse_all_hex)

lemma key_ExpiresAt_fp:
  "pub_Fingerprint (snd (key_ExpiresAt E k ss)) = pub_Fingerprint k"
  "pub_KeyID (snd (key_ExpiresAt E k ss)) = pub_KeyID k"
  by (auto simp: key_ExpiresAt_def PrimaryUserIDSig_def Let_def split: prod.splits option.splits)

lemma ValidSelfSigned_fp:
  assumes "ValidSelfSigned E policy n k b = Inr k'"
  shows "pub_Fingerprint k' = pub_Fingerprint k" "pub_KeyID k' = pub_KeyID k"
proof -
  obtain ss others where si: "key_SigInfo E k = (ss, others)" by (cases "key_SigInfo E k")
  have keep: "key_ExpiresAt E key4 ss = ((e, x), key5) \<Longrightarrow> updateMD5 E (key5\<lparr>pub_Expiration := e\<rparr>) = Inr k' \<Longrightarrow>
    pub_Fingerprint k' = pub_Fingerprint key4 \<and> pub_KeyID k' = pub_KeyID key4" for key4 key5 e x
    using key_ExpiresAt_fp[of E key4 ss] by (auto dest!: updateMD5_result)
  have "pub_Fingerprint k' = pub_Fingerprint k \<and> pub_KeyID k' = pub_KeyID k"
    using assms unfolding ValidSelfSigned_def ValidSelfSigned_with_def si Let_def
    by (auto elim!: rbind_InrE split: if_splits prod.splits dest!: keep)
  then show "pub_Fingerprint k' = pub_Fingerprint k" "pub_KeyID k' = pub_KeyID k" by simp_all
qed

subsection \<open>Removing duplicates keeps the fingerprint\<close>

definition node_fp :: "packetNode \<Rightarrow> gostring option" where
  "node_fp n = (case n of PubNode k \<Rightarrow> Some (pub_Fingerprint k) | _ \<Rightarrow> None)"

lemma removeDuplicate_fp:
  "removeDuplicate primary parent dup = Inr (primary', parent') \<Longrightarrow> node_fp primary' = None \<and> node_fp parent' = node_fp parent"
  by (auto simp: removeDuplicate_def node_fp_def split: packetNode.splits)

lemma node_put_fp: "node_fp n = None \<Longrightarrow> node_fp (node_put n root) = node_fp root"
  by (auto simp: node_put_def key_put_def node_fp_def split: packetNode.splits)

lemma dedup_fp: "dedup n None root = Inr r \<Longrightarrow> node_fp r = node_fp root"
proof (induction n arbitrary: root r)
  case 0
  then show ?case by simp
next
  case (Suc n)
  obtain nodes where f: "rfold (\<lambda>node (root, nodes). case nodes (node_uuid node) of
        None \<Rightarrow> Inr (root, nodes(node_uuid node \<mapsto> node))
      | Some primary0 \<Rightarrow>
          rbind (removeDuplicate (node_get primary0 root) root node) (\<lambda>(primary, root).
          let root = node_put primary root in
          rbind (dedup n None primary) (\<lambda>primary.
          let root = node_put primary root in
          Inr (case None of None \<Rightarrow> root | Some f \<Rightarrow> node_put (f primary) root, nodes))))
      (contents root) (root, Map.empty) = Inr (r, nodes)"
    using Suc.prems by (auto elim!: rbind_InrE split: prod.splits)
  have "node_fp (fst (r, nodes)) = node_fp root"
  proof (rule rfold_invI[OF f, where P = "\<lambda>s. node_fp (fst s) = node_fp root"])
    fix node :: packetNode and s s' :: "packetNode \<times> (gostring \<Rightarrow> packetNode option)"
    assume p: "node_fp (fst s) = node_fp root" and st: "(case s of (root, nodes) \<Rightarrow> case nodes (node_uuid node) of
        None \<Rightarrow> Inr (root, nodes(node_uuid node \<mapsto> node))
      | Some primary0 \<Rightarrow>
          rbind (removeDuplicate (node_get primary0 root) root node) (\<lambda>(primary, root).
          let root = node_put primary root in
          rbind (dedup n None primary) (\<lambda>primary.
          let root = node_put primary root in
          Inr (case None of None \<Rightarrow> root | Some f \<Rightarrow> node_put (f primary) root, nodes)))) = Inr s'"
    obtain rt nodes where s: "s = (rt, nodes)" by (cases s)
    show "node_fp (fst s') = node_fp root"
    proof (cases "nodes (node_uuid node)")
      case None
      with st s p show ?thesis by auto
    next
      case (Some p0)
      with st s obtain pr rt1 pr2 where d: "removeDuplicate (node_get p0 rt) rt node = Inr (pr, rt1)" "dedup n None pr = Inr pr2"
        "s' = (node_put pr2 (node_put pr rt1), nodes)"
        by (auto simp: Let_def elim!: rbind_InrE)
      have "node_fp pr = None" "node_fp rt1 = node_fp rt" using removeDuplicate_fp[OF d(1)] by simp_all
      moreover have "node_fp pr2 = None" using Suc.IH[OF d(2)] calculation(1) by simp
      ultimately show ?thesis using p s by (simp add: d(3) node_put_fp)
    qed
  qed simp
  then show ?case by simp
qed

lemma dedup_key_fp: "dedup_key None k = Inr k' \<Longrightarrow> pub_Fingerprint k' = pub_Fingerprint k"
  by (auto simp: dedup_key_def node_fp_def elim!: rbind_InrE dest!: dedup_fp split: packetNode.splits)

lemma MergeRevocationSig_fp: "MergeRevocationSig E policy n k s = Inr k' \<Longrightarrow> pub_Fingerprint k' = pub_Fingerprint k"
  by (auto simp: MergeRevocationSig_def elim!: rbind_InrE dest!: dedup_key_fp ValidSelfSigned_fp(1))

section \<open>Announced changes\<close>

text \<open>What a subscriber that removes before it inserts holds after a change. The empty digest stands for no digest.\<close>

definition announced :: "KeyChange \<Rightarrow> gostring set \<Rightarrow> gostring set" where
  "announced kc D = (D - set (RemoveDigests kc)) \<union> set (InsertDigests kc) - {[]}"

definition track :: "KeyChange list \<Rightarrow> gostring set \<Rightarrow> gostring set" where
  "track = fold announced"

lemma track_simps [simp]:
  "track [] D = D" "track (kc # kcs) D = track kcs (announced kc D)" "track (xs @ ys) D = track ys (track xs D)"
  by (simp_all add: track_def)

definition follows :: "('s \<Rightarrow> KeyChange list) \<Rightarrow> ('s \<Rightarrow> gostring set) \<Rightarrow> 's \<Rightarrow> 's \<Rightarrow> bool" where
  "follows notified held s s' \<longleftrightarrow> (\<exists>new. notified s' = notified s @ new \<and> held s' = track new (held s))"

lemma follows_refl: "follows notified held s s"
  by (simp add: follows_def)

lemma follows_trans: "follows notified held s s' \<Longrightarrow> follows notified held s' s'' \<Longrightarrow> follows notified held s s''"
  unfolding follows_def by (metis append_assoc track_simps(3))

definition hex_records :: "Record list res \<Rightarrow> bool" where
  "hex_records rs \<longleftrightarrow> (\<forall>l. rs = Inr l \<longrightarrow> (\<forall>r \<in> set l. \<forall>k. rec_PrimaryKey r = Some k \<longrightarrow> hex_key k))"

text \<open>The laws: every operation keeps the invariant, and its announcements follow what is held.\<close>

locale announcing_storage =
  fixes S :: "'s storage" and inv :: "'s \<Rightarrow> bool" and held :: "'s \<Rightarrow> gostring set"
  assumes Upsert: "inv s \<Longrightarrow> hex_key k \<Longrightarrow> sto_Upsert S k s = (s', c) \<Longrightarrow> inv s' \<and> follows (sto_notified S) held s s'"
    and Replace: "inv s \<Longrightarrow> hex_key k \<Longrightarrow> sto_Replace S k s = (s', c) \<Longrightarrow> inv s' \<and> follows (sto_notified S) held s s'"
    and Delete: "inv s \<Longrightarrow> sto_Delete S fp s = (s', c) \<Longrightarrow> inv s' \<and> follows (sto_notified S) held s s'"
    and FetchRecordsByFp: "inv s \<Longrightarrow> sto_FetchRecordsByFp S ptr b fps s = (s', rs) \<Longrightarrow>
      (inv s' \<and> follows (sto_notified S) held s s') \<and> hex_records rs"
    and FetchRecordsByVfp: "inv s \<Longrightarrow> sto_FetchRecordsByVfp S ptr b fps s = (s', rs) \<Longrightarrow>
      (inv s' \<and> follows (sto_notified S) held s s') \<and> hex_records rs"
    and FetchRecordsByIdentity: "inv s \<Longrightarrow> sto_FetchRecordsByIdentity S ptr b ids s = (s', rs) \<Longrightarrow>
      (inv s' \<and> follows (sto_notified S) held s s') \<and> hex_records rs"
    and FetchRecordsByKeyword: "inv s \<Longrightarrow> sto_FetchRecordsByKeyword S ptr b search s = (s', rs) \<Longrightarrow>
      (inv s' \<and> follows (sto_notified S) held s s') \<and> hex_records rs"
    and FetchRecordsByMD5: "inv s \<Longrightarrow> sto_FetchRecordsByMD5 S ptr b md5s s = (s', rs) \<Longrightarrow>
      (inv s' \<and> follows (sto_notified S) held s s') \<and> hex_records rs"
begin

definition goes :: "'s \<Rightarrow> 's \<Rightarrow> bool" where
  "goes s s' \<longleftrightarrow> inv s \<longrightarrow> inv s' \<and> follows (sto_notified S) held s s'"

lemma goes_refl: "goes s s"
  by (simp add: goes_def follows_refl)

lemma goes_trans: "goes s s' \<Longrightarrow> goes s' s'' \<Longrightarrow> goes s s''"
  by (auto simp: goes_def intro: follows_trans)

lemma goes_Upsert: "hex_key k \<Longrightarrow> sto_Upsert S k s = (s', c) \<Longrightarrow> goes s s'"
  by (simp add: goes_def Upsert)

lemma goes_Replace: "hex_key k \<Longrightarrow> sto_Replace S k s = (s', c) \<Longrightarrow> goes s s'"
  by (simp add: goes_def Replace)

lemma goes_Delete: "sto_Delete S fp s = (s', c) \<Longrightarrow> goes s s'"
  by (simp add: goes_def Delete)

definition fetched :: "'s \<Rightarrow> 's \<times> Record list res \<Rightarrow> bool" where
  "fetched s r \<longleftrightarrow> goes s (fst r) \<and> (inv s \<longrightarrow> hex_records (snd r))"

lemma fetchedI:
  assumes "\<And>s' rs. inv s \<Longrightarrow> r = (s', rs) \<Longrightarrow> (inv s' \<and> follows (sto_notified S) held s s') \<and> hex_records rs"
  shows "fetched s r"
  using assms[of "fst r" "snd r"] by (auto simp: fetched_def goes_def)

lemma fetched_simps:
  "fetched s (sto_FetchRecordsByFp S ptr b fps s)" "fetched s (sto_FetchRecordsByVfp S ptr b fps s)"
  "fetched s (sto_FetchRecordsByIdentity S ptr b fps s)" "fetched s (sto_FetchRecordsByKeyword S ptr b search s)"
  "fetched s (sto_FetchRecordsByMD5 S ptr b fps s)" "fetched s (s, Inl e)" "fetched s (s, Inr [])"
  by (rule fetchedI, erule (1) FetchRecordsByFp)
    (rule fetchedI, erule (1) FetchRecordsByVfp,
     rule fetchedI, erule (1) FetchRecordsByIdentity,
     rule fetchedI, erule (1) FetchRecordsByKeyword,
     rule fetchedI, erule (1) FetchRecordsByMD5,
     simp_all add: fetched_def goes_refl hex_records_def)

lemma fetched_resolved: "fetched s (fetch_resolved S ptr keyID s)"
  by (auto simp: fetch_resolved_def fetched_simps split: sum.splits)

lemma fetched_records: "fetched s (fetch_records K h S ptr l s)"
  by (auto simp: fetch_records_def Let_def fetched_simps fetched_resolved split: Operation.splits)

lemma valid_keys_hex:
  "hex_records (Inr rs) \<Longrightarrow> valid_keys E policy b rs = Inr ks \<Longrightarrow> k \<in> set ks \<Longrightarrow> hex_key k"
proof (induction E policy b rs arbitrary: ks rule: valid_keys.induct)
  case 1
  then show ?case by simp
next
  case (2 E policy b r rs)
  have rs: "hex_records (Inr rs)" using 2(4) by (simp add: hex_records_def)
  show ?case
  proof (cases "rec_PrimaryKey r")
    case None
    with 2 rs show ?thesis by simp
  next
    case (Some key)
    show ?thesis
    proof (cases "ValidSelfSigned E policy (fresh_ptr key) key b")
      case (Inl f)
      with 2 rs Some show ?thesis by (cases f) auto
    next
      case (Inr key')
      then obtain ks' where "valid_keys E policy b rs = Inr ks'" "ks = key' # ks'"
        using 2(5) Some by (auto elim!: rbind_InrE)
      moreover have "hex_key key'"
        using ValidSelfSigned_fp(1)[OF Inr] 2(4) Some by (simp add: hex_records_def hex_key_def)
      ultimately show ?thesis using 2(3)[OF Some Inr rs] 2(6) by auto
    qed
  qed
qed

lemma fetchKeys_goes:
  assumes "fetchKeys K h S ptr l s = (s', keys)"
  shows "goes s s'" "inv s \<Longrightarrow> keys = Inr ks \<Longrightarrow> k \<in> set ks \<Longrightarrow> hex_key k"
proof -
  obtain records where f: "fetch_records K h S ptr l s = (s', records)" and k: "keys = rbind records (valid_keys (hk_E K) (h_policy h) (h_selfSignedOnly h))"
    using assms by (auto simp: fetchKeys_def split: prod.splits)
  then show "goes s s'" using fetched_records[of s K h ptr l] by (simp add: fetched_def)
  show "inv s \<Longrightarrow> keys = Inr ks \<Longrightarrow> k \<in> set ks \<Longrightarrow> hex_key k"
    using fetched_records[of s K h ptr l] f k valid_keys_hex by (auto simp: fetched_def elim!: rbind_InrE)
qed

end

section \<open>The server\<close>

text \<open>The requests that a server answers, as steps of its storage.\<close>

inductive serves :: "hkpenv \<Rightarrow> handler \<Rightarrow> 's storage \<Rightarrow> 's \<Rightarrow> 's \<Rightarrow> bool" for K h S where
  serve_Lookup: "handle_Lookup K h S r s = (s', Inr resp) \<Longrightarrow> serves K h S s s'"
| serve_VfpLookup: "VfpLookup K h S v fp s = (s', Inr resp) \<Longrightarrow> serves K h S s s'"
| serve_IdentityLookup: "IdentityLookup K h S ident s = (s', Inr resp) \<Longrightarrow> serves K h S s s'"
| serve_KeyIdLookup: "KeyIdLookup K h S keyid s = (s', Inr resp) \<Longrightarrow> serves K h S s s'"
| serve_Hkp2Index: "Hkp2Index K h S ident s = (s', Inr resp) \<Longrightarrow> serves K h S s s'"
| serve_HashQuery: "HashQuery K h S r s = (s', Inr resp) \<Longrightarrow> serves K h S s s'"
| serve_Add: "handle_Add K h S r s = (s', Inr resp) \<Longrightarrow> serves K h S s s'"
| serve_Replace: "handle_Replace K h S r s = (s', Inr resp) \<Longrightarrow> serves K h S s s'"
| serve_Delete: "handle_Delete K h S r s = (s', Inr resp) \<Longrightarrow> serves K h S s s'"

lemma evaporated_hex: "hex_key (evaporated E k) = hex_key k"
  by (simp add: evaporated_def hex_key_def)

lemma SortKey_hex: "hex_key (SortKey E k) = hex_key k"
  by (simp add: SortKey_def hex_key_def)

lemma limit_records_hex: "hex_records (Inr rs) \<Longrightarrow> k \<in> set (limit_records m n rs) \<Longrightarrow> hex_key k"
  by (induction m n rs rule: limit_records.induct) (auto simp: hex_records_def split: option.splits if_splits)

lemma ValidSelfSigned_with_fp:
  assumes "ValidSelfSigned_with Inr E policy n k b = Inr k'"
  shows "pub_Fingerprint k' = pub_Fingerprint k" "pub_KeyID k' = pub_KeyID k"
proof -
  obtain ss others where si: "key_SigInfo E k = (ss, others)" by (cases "key_SigInfo E k")
  have keep: "key_ExpiresAt E key4 ss = ((e, x), key5) \<Longrightarrow> key5\<lparr>pub_Expiration := e\<rparr> = k' \<Longrightarrow>
    pub_Fingerprint k' = pub_Fingerprint key4 \<and> pub_KeyID k' = pub_KeyID key4" for key4 key5 e x
    using key_ExpiresAt_fp[of E key4 ss] by auto
  have "pub_Fingerprint k' = pub_Fingerprint k \<and> pub_KeyID k' = pub_KeyID k"
    using assms unfolding ValidSelfSigned_with_def si Let_def
    by (auto elim!: rbind_InrE split: if_splits prod.splits dest!: keep)
  then show "pub_Fingerprint k' = pub_Fingerprint k" "pub_KeyID k' = pub_KeyID k" by simp_all
qed

lemma unmerged_fp: "unmerged E policy n k sig e = Inr k' \<Longrightarrow> pub_Fingerprint k' = pub_Fingerprint k"
  by (auto simp: unmerged_def Let_def evaporated_def split: sum.splits if_splits dest!: dedup_key_fp ValidSelfSigned_with_fp(1))

lemma merge_revocations_hex:
  "\<forall>k \<in> set ks. hex_key k \<Longrightarrow> merge_revocations E policy sig ks = Inr ks' \<Longrightarrow> k \<in> set ks' \<Longrightarrow> hex_key k"
proof (induction ks arbitrary: ks')
  case (Cons k0 ks)
  from Cons.prems(2) obtain k1 ks1 where k1: "ks' = k1 # ks1" "merge_revocations E policy sig ks = Inr ks1"
    "(case MergeRevocationSig E policy (fresh_ptr k0 + node_ptr (SigNode sig)) k0 sig of
        Inr k' \<Rightarrow> Inr k'
      | Inl (Err e) \<Rightarrow> unmerged E policy (fresh_ptr k0 + node_ptr (SigNode sig)) k0 sig e
      | Inl f \<Rightarrow> Inl f) = Inr k1"
    by (auto split: sum.splits elim!: rbind_InrE)
  have "hex_key k1"
    using k1(3) Cons.prems(1)
    by (auto split: sum.splits fault.splits dest!: MergeRevocationSig_fp unmerged_fp simp: hex_key_def)
  with Cons k1(1,2) show ?case by auto
qed simp

lemma RemoveTrusts_fp: "k \<in> set (SanitizeHKP ks) \<Longrightarrow> \<exists>k0 \<in> set ks. pub_Fingerprint k = pub_Fingerprint k0"
  by (auto simp: SanitizeHKP_def RemoveTrusts_def)

context announcing_storage
begin

lemma get2_goes: "get2 K h S l s = (s', r) \<Longrightarrow> goes s s'"
  by (auto simp: get2_def split: prod.splits dest: fetchKeys_goes(1))

lemma get_goes: "get K h S l s = (s', r) \<Longrightarrow> goes s s'"
  by (auto simp: get_def split: prod.splits dest: fetchKeys_goes(1))

lemma index_goes: "index K h S l b s = (s', r) \<Longrightarrow> goes s s'"
  by (auto simp: index_def split: prod.splits dest: fetchKeys_goes(1))

lemma index2_goes: "index2 K h S l s = (s', r) \<Longrightarrow> goes s s'"
  by (auto simp: index2_def split: prod.splits dest: fetchKeys_goes(1))

lemma Lookup_goes: "handle_Lookup K h S r s = (s', resp) \<Longrightarrow> goes s s'"
  by (auto simp: handle_Lookup_def goes_refl get_goes index_goes split: sum.splits Operation.splits)

lemma recheck_goes:
  "\<forall>k \<in> set result. hex_key k \<Longrightarrow> \<forall>i \<in> set is. i < length result \<Longrightarrow> recheck E policy S is result s = (s', r) \<Longrightarrow> goes s s'"
proof (induction "is" arbitrary: result s)
  case Nil
  then show ?case by (simp add: goes_refl)
next
  case (Cons i "is")
  define key where "key = result ! i"
  have hk: "hex_key key" using Cons.prems(1,2) by (simp add: key_def)
  have next_goes: "goes s1 s'" if "recheck E policy S is (result[i := k']) s1 = (s', r)" "hex_key k'" for k' s1
    by (rule Cons.IH[OF _ _ that(1)]) (use Cons.prems(1,2) that(2) in \<open>auto dest!: set_update_subset_insert[THEN subsetD]\<close>)
  show ?case
  proof (cases "ValidSelfSigned E policy (fresh_ptr key) key False")
    case (Inl f)
    show ?thesis
    proof (cases "f = Err ErrKeyEvaporated")
      case True
      obtain s1 d where del: "sto_Delete S (pub_Fingerprint key) s = (s1, d)" by (cases "sto_Delete S (pub_Fingerprint key) s")
      obtain s2 u where up: "sto_Upsert S (evaporated E key) s1 = (s2, u)" by (cases "sto_Upsert S (evaporated E key) s1")
      have g: "goes s s1" "goes s1 s2"
        using goes_Delete[OF del] goes_Upsert[OF _ up] hk by (simp_all add: evaporated_hex)
      have "s' = s1 \<or> s' = s2 \<or> recheck E policy S is (result[i := SortKey E (evaporated E key)]) s2 = (s', r)"
        using Cons.prems(3) Inl True del up by (auto simp: key_def[symmetric] Let_def split: sum.splits fault.splits)
      then show ?thesis using g next_goes[of "SortKey E (evaporated E key)" s2] hk
        by (auto simp: SortKey_hex evaporated_hex intro: goes_trans)
    next
      case False
      with Cons.prems(3) Inl show ?thesis by (cases f) (auto simp: key_def Let_def goes_refl)
    qed
  next
    case (Inr key')
    obtain s2 u where up: "sto_Upsert S key' s = (s2, u)" by (cases "sto_Upsert S key' s")
    have hk': "hex_key key'" using ValidSelfSigned_fp(1)[OF Inr] hk by (simp add: hex_key_def)
    have "s' = s \<or> s' = s2 \<or> recheck E policy S is (result[i := SortKey E key']) s2 = (s', r)"
      using Cons.prems(3) Inr up by (auto simp: key_def[symmetric] Let_def split: sum.splits fault.splits if_splits)
    then show ?thesis using goes_Upsert[OF hk' up] next_goes[of "SortKey E key'" s2] hk'
      by (auto simp: SortKey_hex goes_refl intro: goes_trans)
  qed
qed

lemma HashQuery_goes:
  assumes "HashQuery K h S r s = (s', resp)" "inv s"
  shows "goes s s'"
proof -
  show ?thesis
  proof (cases "ParseHashQuery r")
    case (Inl f)
    with assms(1) show ?thesis by (cases f) (auto simp: HashQuery_def goes_refl)
  next
    case (Inr digests)
    obtain s1 records where f: "sto_FetchRecordsByMD5 S 0 True digests s = (s1, records)"
      by (cases "sto_FetchRecordsByMD5 S 0 True digests s")
    have g: "goes s s1" "hex_records records"
      using fetched_simps(5)[of s 0 True digests] f assms(2) by (simp_all add: fetched_def)
    show ?thesis
    proof (cases records)
      case (Inl e)
      with assms(1) Inr f g(1) show ?thesis by (cases e) (auto simp: HashQuery_def)
    next
      case (Inr recs)
      define result where "result = limit_records (h_maxResponseLen h) 0 recs"
      define order where "order = (if length result = 0 then [] else map (\<lambda>i. (hk_Intn K (length result) + i) mod length result) [0..<length result])"
      obtain s2 rr where rr: "recheck (hk_E K) (h_policy h) S order result s1 = (s2, rr)" by fastforce
      then have "s' = s2"
        using assms(1) \<open>ParseHashQuery r = Inr digests\<close> f Inr unfolding order_def result_def
        by (auto simp: HashQuery_def Let_def split: sum.splits)
      note rr = rr[folded this]
      have "\<forall>k \<in> set result. hex_key k" using limit_records_hex g(2) Inr by (auto simp: result_def)
      moreover have "\<forall>i \<in> set order. i < length result" by (auto simp: order_def)
      ultimately show ?thesis using recheck_goes[OF _ _ rr] g(1) goes_trans by blast
    qed
  qed
qed

lemma add_keys_goes:
  "\<forall>k \<in> set keys. hex_key k \<Longrightarrow> add_keys K h S opts keys result s = (s', resp) \<Longrightarrow> goes s s'"
proof (induction keys arbitrary: result s)
  case Nil
  then show ?case by (simp add: goes_refl)
next
  case (Cons key keys)
  show ?case
  proof (cases "ValidSelfSigned (hk_E K) (h_policy h) (fresh_ptr key) key False")
    case (Inl f)
    show ?thesis
    proof (cases f)
      case (Err e)
      have "add_keys K h S opts keys (result\<lparr>sr_Invalid := sr_Invalid result @ [summary key (Some (Err e))]\<rparr>) s = (s', resp)"
        using Cons.prems(2) Inl Err by simp
      then show ?thesis by (rule Cons.IH[rotated]) (use Cons.prems(1) in simp)
    qed (use Cons.prems(2) Inl in \<open>auto simp: goes_refl\<close>)
  next
    case (Inr key')
    obtain s1 c where up: "sto_Upsert S key' s = (s1, c)" by (cases "sto_Upsert S key' s")
    have g: "goes s s1" using goes_Upsert[OF _ up] ValidSelfSigned_fp(1)[OF Inr] Cons.prems(1) by (simp add: hex_key_def)
    have "s' = s1 \<or> (\<exists>result'. add_keys K h S opts keys result' s1 = (s', resp))"
      using Cons.prems(2) Inr up by (auto split: sum.splits fault.splits)
    then show ?thesis
    proof
      assume "\<exists>result'. add_keys K h S opts keys result' s1 = (s', resp)"
      then have "goes s1 s'" using Cons.IH Cons.prems(1) by auto
      with g show ?thesis by (rule goes_trans)
    qed (use g in simp)
  qed
qed

lemma bare_revocation_goes:
  assumes "bare_revocation K h S add s = (s1, b)" "inv s"
  shows "goes s s1" "\<forall>keys k. b = Inr (Inr keys) \<longrightarrow> k \<in> set keys \<longrightarrow> hex_key k"
proof -
  have c: "(s1 = s \<and> (\<forall>keys. b \<noteq> Inr (Inr keys))) \<or> (\<exists>l keys. fetchKeys K h S 1 l s = (s1, keys)
      \<and> (\<forall>ks'. b = Inr (Inr ks') \<longrightarrow> (\<exists>ks sig. keys = Inr ks \<and> merge_revocations (hk_E K) (h_policy h) sig ks = Inr ks')))"
    using assms(1) unfolding bare_revocation_def
    by (auto split: sum.splits prod.splits list.splits fault.splits)
  then show "goes s s1" by (auto intro: goes_refl dest: fetchKeys_goes(1))
  show "\<forall>keys k. b = Inr (Inr keys) \<longrightarrow> k \<in> set keys \<longrightarrow> hex_key k"
  proof (intro allI impI)
    fix keys k
    assume k: "b = Inr (Inr keys)" "k \<in> set keys"
    obtain l ks sig where f: "fetchKeys K h S 1 l s = (s1, Inr ks)" "merge_revocations (hk_E K) (h_policy h) sig ks = Inr keys"
      using c unfolding k(1) by auto
    show "hex_key k"
      by (rule merge_revocations_hex[OF ballI f(2) k(2)]) (rule fetchKeys_goes(2)[OF f(1) assms(2) refl])
  qed
qed

lemma Add_goes:
  assumes "handle_Add K h S r s = (s', resp)" "inv s"
  shows "goes s s'"
proof (cases "ParseAdd (hk_armor_Decode K) r")
  case (Inl f)
  with assms(1) show ?thesis by (simp add: handle_Add_def goes_refl)
next
  case (Inr add)
  show ?thesis
  proof (cases "rbind (ad_Body add) (kr_Read (hk_E K) (h_keyReaderOptions h))")
    case (Inr keys)
    then have "\<forall>k \<in> set keys. hex_key k" by (auto elim!: rbind_InrE dest: kr_Read_hex)
    then show ?thesis
      using assms(1) \<open>ParseAdd (hk_armor_Decode K) r = Inr add\<close> Inr add_keys_goes by (auto simp: handle_Add_def)
  next
    case (Inl f)
    obtain s1 b where b: "bare_revocation K h S add s = (s1, b)" by (cases "bare_revocation K h S add s")
    note g = bare_revocation_goes[OF b assms(2)]
    have "s' = s \<or> s' = s1 \<or> (\<exists>keys. b = Inr (Inr keys) \<and> add_keys K h S (ad_Options add) keys emptySubmission s1 = (s', resp))"
      using assms(1) \<open>ParseAdd (hk_armor_Decode K) r = Inr add\<close> Inl b
      by (auto simp: handle_Add_def split: fault.splits if_splits sum.splits)
    then consider "s' = s" | "s' = s1"
      | keys where "b = Inr (Inr keys)" "add_keys K h S (ad_Options add) keys emptySubmission s1 = (s', resp)" by blast
    then show ?thesis
    proof cases
      case 3
      have "goes s1 s'" by (rule add_keys_goes[OF _ 3(2)]) (use g(2) 3(1) in simp)
      with g(1) show ?thesis by (rule goes_trans)
    qed (use g(1) goes_refl in simp_all)
  qed
qed

lemma replace_keys_goes:
  "\<forall>k \<in> set keys. hex_key k \<Longrightarrow> replace_keys K h S keys result s = (s', resp) \<Longrightarrow> goes s s'"
proof (induction keys arbitrary: result s)
  case Nil
  then show ?case by (simp add: goes_refl)
next
  case (Cons key keys)
  show ?case
  proof (cases "ValidSelfSigned (hk_E K) (h_policy h) (fresh_ptr key) key False")
    case (Inl f)
    with Cons.prems(2) show ?thesis by (cases f) (auto simp: goes_refl)
  next
    case (Inr key')
    obtain s1 c where up: "sto_Replace S key' s = (s1, c)" by (cases "sto_Replace S key' s")
    have g: "goes s s1" using goes_Replace[OF _ up] ValidSelfSigned_fp(1)[OF Inr] Cons.prems(1) by (simp add: hex_key_def)
    have "s' = s1 \<or> (\<exists>result'. replace_keys K h S keys result' s1 = (s', resp))"
      using Cons.prems(2) Inr up by (auto split: sum.splits fault.splits)
    then show ?thesis using g Cons.IH Cons.prems(1) goes_trans by (metis list.set_intros(2))
  qed
qed

lemma delete_keys_goes: "delete_keys K h S keys result s = (s', resp) \<Longrightarrow> goes s s'"
proof (induction keys arbitrary: result s)
  case Nil
  then show ?case by (simp add: goes_refl)
next
  case (Cons key keys)
  obtain s1 c where del: "sto_Delete S (pub_Fingerprint key) s = (s1, c)" by (cases "sto_Delete S (pub_Fingerprint key) s")
  have "s' = s1 \<or> (\<exists>result'. delete_keys K h S keys result' s1 = (s', resp))"
    using Cons.prems del by (auto split: sum.splits fault.splits)
  then show ?case using goes_Delete[OF del] Cons.IH goes_trans by blast
qed

lemma checkSignature_goes: "checkSignature K h S keytext keysig s = (s', r) \<Longrightarrow> goes s s'"
  using fetched_simps(1)[of s 0 True "h_adminKeys h"]
  by (auto simp: checkSignature_def fetched_def split: prod.splits sum.splits fault.splits)

lemma with_admin_goes:
  assumes "with_admin_keys K h S parsed act s = (s', resp)"
    and "\<And>keys s s' resp. \<forall>k \<in> set keys. hex_key k \<Longrightarrow> act keys s = (s', resp) \<Longrightarrow> goes s s'"
  shows "goes s s'"
proof (cases parsed)
  case (Inl e)
  with assms(1) show ?thesis by (simp add: with_admin_keys_def goes_refl)
next
  case (Inr p)
  obtain keytext keysig s1 c where p: "p = (keytext, keysig)" "checkSignature K h S keytext keysig s = (s1, c)"
    by (metis surj_pair)
  have "s' = s1 \<or> (\<exists>keys. rbind (rbind (hk_armor_Decode K keytext) id) (kr_Read (hk_E K) (h_keyReaderOptions h)) = Inr keys
      \<and> act (SanitizeHKP keys) s1 = (s', resp))"
    using assms(1) Inr p by (auto simp: with_admin_keys_def split: sum.splits fault.splits)
  then show ?thesis
  proof
    assume "\<exists>keys. rbind (rbind (hk_armor_Decode K keytext) id) (kr_Read (hk_E K) (h_keyReaderOptions h)) = Inr keys
      \<and> act (SanitizeHKP keys) s1 = (s', resp)"
    then obtain keys b where k: "kr_Read (hk_E K) (h_keyReaderOptions h) b = Inr keys" "act (SanitizeHKP keys) s1 = (s', resp)"
      by (auto elim!: rbind_InrE)
    have "\<forall>k \<in> set (SanitizeHKP keys). hex_key k"
      using kr_Read_hex[OF k(1)] by (auto dest!: RemoveTrusts_fp simp: hex_key_def)
    then show ?thesis using assms(2)[OF _ k(2)] checkSignature_goes[OF p(2)] goes_trans by blast
  qed (use checkSignature_goes[OF p(2)] in simp)
qed

lemma serves_goes: "serves K h S s s' \<Longrightarrow> inv s \<Longrightarrow> goes s s'"
proof (induction rule: serves.induct)
  case (serve_Replace r s s' resp)
  then show ?case unfolding handle_Replace_def by (auto intro: with_admin_goes replace_keys_goes)
next
  case (serve_Delete r s s' resp)
  then show ?case unfolding handle_Delete_def by (auto intro: with_admin_goes delete_keys_goes)
qed (auto simp: VfpLookup_def IdentityLookup_def KeyIdLookup_def Hkp2Index_def
    dest: Lookup_goes get2_goes index2_goes HashQuery_goes Add_goes)

lemma server_follows:
  assumes "(serves K h S)\<^sup>*\<^sup>* s s'" "inv s"
  shows "inv s' \<and> follows (sto_notified S) held s s'"
  using assms
proof (induction rule: rtranclp_induct)
  case base
  then show ?case by (simp add: follows_refl)
next
  case (step y z)
  then have "inv y" "follows (sto_notified S) held s y" by simp_all
  moreover from this serves_goes[OF step(2)] have "inv z" "follows (sto_notified S) held y z" by (simp_all add: goes_def)
  ultimately show ?case by (simp add: follows_trans[of "sto_notified S" held s y z])
qed

end

end
