(* ===== verification/PgStoreSpec.thy ===== *)
theory PgStoreSpec
  imports PgStore PgTypesSpec StorageSpec
begin

text \<open>
  As long as its commits succeed and no other session writes, the storage keeps the constraints of its
  tables, and the changes it announces add up to the digests it holds.
\<close>

section \<open>The invariant of the tables\<close>

lemma set_select_keys [simp]: "set (select_keys V P st) = {r \<in> set (db_keys (ps_db st)). P r}"
  by (simp add: select_keys_def)

definition db_ok :: "pgdb \<Rightarrow> bool" where
  "db_ok db \<longleftrightarrow> distinct (map kr_rfingerprint (db_keys db)) \<and> distinct (map kr_md5 (db_keys db))
     \<and> distinct (map sr_rsubfp (db_subkeys db)) \<and> (\<forall>r \<in> set (db_subkeys db). has_key (sr_rfingerprint r) db)
     \<and> distinct (map userid_key (db_userids db)) \<and> (\<forall>r \<in> set (db_userids db). has_key (ur_rfingerprint r) db)"

definition digests :: "pgdb \<Rightarrow> gostring set" where
  "digests db = kr_md5 ` set (db_keys db) - {[]}"

lemma has_key_iff: "has_key rfp db \<longleftrightarrow> rfp \<in> kr_rfingerprint ` set (db_keys db)"
  by (auto simp: has_key_def)

lemma SortKey_simps [simp]:
  "pub_Fingerprint (SortKey E k) = pub_Fingerprint k" "pk_MD5 (SortKey E k) = pk_MD5 k"
  "pub_KeyID (SortKey E k) = pub_KeyID k" "p_UUID (SortKey E k) = p_UUID k"
  by (simp_all add: SortKey_def)

lemma key_row_simps [simp]:
  "kr_md5 (key_row V k tsv) = pk_MD5 k" "kr_rfingerprint (key_row V k tsv) = Reverse (pub_Fingerprint k)"
  by (simp_all add: key_row_def)

subsection \<open>Inserting\<close>

lemma insert_key_row_cases:
  assumes "insert_key_row r db = Inr (db', n)"
  obtains "n = 0" "db' = db" "has_key (kr_rfingerprint r) db"
  | "n = 1" "db' = db\<lparr>db_keys := db_keys db @ [r]\<rparr>" "\<not> has_key (kr_rfingerprint r) db" "kr_md5 r \<notin> kr_md5 ` set (db_keys db)"
  using assms by (force simp: insert_key_row_def split: if_splits)

lemma db_ok_subkeys:
  assumes "db_ok db" "distinct (map sr_rsubfp rows)" "\<And>r. r \<in> set rows \<Longrightarrow> has_key (sr_rfingerprint r) db"
  shows "db_ok (db\<lparr>db_subkeys := rows\<rparr>)"
  using assms by (auto simp: db_ok_def has_key_def)

lemma db_ok_userids:
  assumes "db_ok db" "distinct (map userid_key rows)" "\<And>r. r \<in> set rows \<Longrightarrow> has_key (ur_rfingerprint r) db"
  shows "db_ok (db\<lparr>db_userids := rows\<rparr>)"
  using assms by (auto simp: db_ok_def has_key_def)

lemma db_okD:
  assumes "db_ok db"
  shows "distinct (map sr_rsubfp (db_subkeys db))" "r \<in> set (db_subkeys db) \<Longrightarrow> has_key (sr_rfingerprint r) db"
    "distinct (map userid_key (db_userids db))" "u \<in> set (db_userids db) \<Longrightarrow> has_key (ur_rfingerprint u) db"
    "distinct (map kr_rfingerprint (db_keys db))" "distinct (map kr_md5 (db_keys db))"
  using assms by (auto simp: db_ok_def)

lemma insert_new_subkey_ok:
  assumes "insert_new_subkey r db = Inr db'" "db_ok db"
  shows "db_ok db' \<and> db_keys db' = db_keys db"
  using assms by (auto simp: insert_new_subkey_def db_okD split: if_splits intro!: db_ok_subkeys) (metis imageE)

lemma insert_new_userid_ok:
  assumes "insert_new_userid r db = Inr db'" "db_ok db"
  shows "db_ok db' \<and> db_keys db' = db_keys db"
  using assms by (auto simp: insert_new_userid_def db_okD userid_key_def split: if_splits intro!: db_ok_userids)
    (metis imageE userid_key_def prod.inject)

lemma insertKeyTx_cases:
  assumes "insertKeyTx V key db = Inr (db', needUpsert)" "db_ok db"
  obtains "needUpsert" "db' = db" "has_key (Reverse (pub_Fingerprint key)) db"
  | row where "\<not> needUpsert" "db_ok db'" "\<not> has_key (Reverse (pub_Fingerprint key)) db" "pk_MD5 key \<notin> kr_md5 ` set (db_keys db)"
      "kr_rfingerprint row = Reverse (pub_Fingerprint key)" "kr_md5 row = pk_MD5 key"
      "kr_doc row = Doc (NewPrimaryKey (SortKey (pg_E V) key))" "db_keys db' = db_keys db @ [row]"
proof -
  define k where "k = SortKey (pg_E V) key"
  obtain kws uids where kw: "KeywordsTSVector V k = (kws, uids)" by (cases "KeywordsTSVector V k")
  from assms(1) obtain tsv db1 n where tx: "insert_key_row (key_row V k tsv) db = Inr (db1, n)"
    and rest: "(if n = 0 then Inr (db1, True)
       else rbind (rfold (\<lambda>sub. insert_new_subkey (subkey_row k sub)) (pk_SubKeys k) db1) (\<lambda>db.
            rbind (rfold (\<lambda>uid. insert_new_userid (userid_row k uid)) uids db) (\<lambda>db. Inr (db, False)))) = Inr (db', needUpsert)"
    unfolding insertKeyTx_def Let_def k_def[symmetric] kw by (auto simp: rbind_Inr_iff)
  from tx show thesis
  proof (cases rule: insert_key_row_cases)
    case 1
    with rest that(1) show ?thesis by (simp add: k_def)
  next
    case 2
    obtain db2 where sub: "rfold (\<lambda>sub. insert_new_subkey (subkey_row k sub)) (pk_SubKeys k) db1 = Inr db2"
      and uid: "rfold (\<lambda>uid. insert_new_userid (userid_row k uid)) uids db2 = Inr db'" "\<not> needUpsert"
      using rest 2(1) by (auto simp: rbind_Inr_iff)
    have ok1: "db_ok db1 \<and> db_keys db1 = db_keys db @ [key_row V k tsv]"
      using assms(2) 2(2-4) by (auto simp: db_ok_def has_key_def)
    have ok2: "db_ok db2 \<and> db_keys db2 = db_keys db @ [key_row V k tsv]"
      by (rule rfold_invI[OF sub, where P = "\<lambda>d. db_ok d \<and> db_keys d = db_keys db @ [key_row V k tsv]", OF ok1])
        (auto dest: insert_new_subkey_ok)
    have ok3: "db_ok db' \<and> db_keys db' = db_keys db @ [key_row V k tsv]"
      by (rule rfold_invI[OF uid(1), where P = "\<lambda>d. db_ok d \<and> db_keys d = db_keys db @ [key_row V k tsv]", OF ok2])
        (auto dest: insert_new_userid_ok)
    show ?thesis
      by (rule that(2)[of "key_row V k tsv"]) (use 2(3,4) ok3 uid(2) in \<open>auto simp: k_def key_row_def\<close>)
  qed
qed

subsection \<open>Deleting\<close>

lemma map_filter_distinct: "distinct (map f xs) \<Longrightarrow> distinct (map f (filter P xs))"
  by (induction xs) auto

lemma deleteTx_cases:
  assumes "deleteTx fp db = (db', r)" "db_ok db"
  obtains "r = Inl (Err ErrKeyNotFound)" "db' = db" "\<not> has_key (Reverse fp) db"
  | row where "row \<in> set (db_keys db)" "r = Inr (kr_md5 row)" "kr_rfingerprint row = Reverse fp" "db_ok db'" "\<not> has_key (Reverse fp) db'"
      "db_keys db' = filter (\<lambda>r. kr_rfingerprint r \<noteq> Reverse fp) (db_keys db)"
      "kr_md5 ` set (db_keys db') = kr_md5 ` set (db_keys db) - {kr_md5 row}"
proof -
  let ?rfp = "Reverse fp"
  have fk: "\<forall>r \<in> set (db_subkeys db). has_key (sr_rfingerprint r) db" "\<forall>r \<in> set (db_userids db). has_key (ur_rfingerprint r) db"
    using assms(2) by (simp_all add: db_ok_def)
  show thesis
  proof (cases "find (\<lambda>r. kr_rfingerprint r = ?rfp) (db_keys db)")
    case None
    then have n: "\<not> has_key ?rfp db" by (auto simp: find_None_iff has_key_def)
    with fk have "filter (\<lambda>r. sr_rfingerprint r \<noteq> ?rfp) (db_subkeys db) = db_subkeys db"
      "filter (\<lambda>r. ur_rfingerprint r \<noteq> ?rfp) (db_userids db) = db_userids db"
      by (auto simp: filter_id_conv)
    with None assms(1) n that(1) show ?thesis by (simp add: deleteTx_def Let_def)
  next
    case (Some row)
    then have row: "row \<in> set (db_keys db)" "kr_rfingerprint row = ?rfp" by (auto simp: find_Some_iff)
    have db': "db' = db\<lparr>db_subkeys := filter (\<lambda>r. sr_rfingerprint r \<noteq> ?rfp) (db_subkeys db),
        db_userids := filter (\<lambda>r. ur_rfingerprint r \<noteq> ?rfp) (db_userids db),
        db_keys := filter (\<lambda>r. kr_rfingerprint r \<noteq> ?rfp) (db_keys db)\<rparr>" "r = Inr (kr_md5 row)"
      using assms(1) Some by (auto simp: deleteTx_def Let_def)
    have ok: "db_ok db'" "\<not> has_key ?rfp db'"
      using assms(2) by (auto simp: db'(1) db_ok_def map_filter_distinct has_key_iff)
    have dk: "distinct (map kr_rfingerprint (db_keys db))" "distinct (map kr_md5 (db_keys db))"
      using assms(2) by (simp_all add: db_ok_def)
    have same: "r' = row" if "r' \<in> set (db_keys db)" "kr_rfingerprint r' = ?rfp \<or> kr_md5 r' = kr_md5 row" for r'
      using that row dk unfolding distinct_map inj_on_def by metis
    have "kr_md5 ` set (db_keys db') = kr_md5 ` set (db_keys db) - {kr_md5 row}"
      using same row by (auto simp: db'(1))
    then show ?thesis using that(2)[of row] row db' ok by simp
  qed
qed

subsection \<open>Updating\<close>

lemma upsert_subkey_ok:
  assumes "upsert_subkey r db = Inr db'" "db_ok db"
  shows "db_ok db' \<and> db_keys db' = db_keys db"
proof (cases "\<exists>q \<in> set (db_subkeys db). sr_rsubfp q = sr_rsubfp r")
  case True
  let ?f = "\<lambda>q. if sr_rsubfp q = sr_rsubfp r then q\<lparr>sr_vsubfp := sr_vsubfp r\<rparr> else q"
  have k: "sr_rsubfp (?f q) = sr_rsubfp q" "sr_rfingerprint (?f q) = sr_rfingerprint q" for q :: subkeyRow by simp_all
  have m: "map sr_rsubfp (map ?f (db_subkeys db)) = map sr_rsubfp (db_subkeys db)" unfolding map_map o_def k by simp
  have e: "db' = db\<lparr>db_subkeys := map ?f (db_subkeys db)\<rparr>" using assms(1) True by (simp add: upsert_subkey_def)
  have h: "has_key (sr_rfingerprint q) db" if "q \<in> set (map ?f (db_subkeys db))" for q
  proof -
    from that obtain q0 where "q0 \<in> set (db_subkeys db)" "q = ?f q0" by auto
    then show ?thesis using db_okD(2)[OF assms(2), of q0] by (simp only: k(2))
  qed
  have "db_ok (db\<lparr>db_subkeys := map ?f (db_subkeys db)\<rparr>)"
    by (rule db_ok_subkeys[OF assms(2) _ h]) (unfold m, rule db_okD(1)[OF assms(2)])
  then show ?thesis unfolding e by simp
next
  case False
  then have "insert_new_subkey r db = Inr db'" using assms(1) unfolding upsert_subkey_def insert_new_subkey_def by simp
  then show ?thesis by (rule insert_new_subkey_ok[OF _ assms(2)])
qed

lemma upsert_userid_ok:
  assumes "upsert_userid r db = Inr db'" "db_ok db"
  shows "db_ok db' \<and> db_keys db' = db_keys db"
proof (cases "\<exists>q \<in> set (db_userids db). ur_rfingerprint q = ur_rfingerprint r \<and> ur_uidstring q = ur_uidstring r")
  case True
  let ?f = "\<lambda>q. if ur_rfingerprint q = ur_rfingerprint r \<and> ur_uidstring q = ur_uidstring r
    then q\<lparr>ur_identity := ur_identity r, ur_confidence := ur_confidence r\<rparr> else q"
  have k: "userid_key (?f q) = userid_key q" "ur_rfingerprint (?f q) = ur_rfingerprint q" for q :: useridRow
    by (simp_all add: userid_key_def)
  have m: "map userid_key (map ?f (db_userids db)) = map userid_key (db_userids db)" unfolding map_map o_def k by simp
  have e: "db' = db\<lparr>db_userids := map ?f (db_userids db)\<rparr>" using assms(1) True by (simp add: upsert_userid_def Let_def)
  have h: "has_key (ur_rfingerprint q) db" if "q \<in> set (map ?f (db_userids db))" for q
  proof -
    from that obtain q0 where "q0 \<in> set (db_userids db)" "q = ?f q0" by auto
    then show ?thesis using db_okD(4)[OF assms(2), of q0] by (simp only: k(2))
  qed
  have "db_ok (db\<lparr>db_userids := map ?f (db_userids db)\<rparr>)"
    by (rule db_ok_userids[OF assms(2) _ h]) (unfold m, rule db_okD(3)[OF assms(2)])
  then show ?thesis unfolding e by simp
next
  case False
  then have "insert_new_userid r db = Inr db'"
    using assms(1) unfolding upsert_userid_def insert_new_userid_def Let_def if_not_P[OF False] by simp
  then show ?thesis by (rule insert_new_userid_ok[OF _ assms(2)])
qed

lemma distinct_count_list: "distinct xs \<Longrightarrow> count_list xs x = (if x \<in> set xs then 1 else 0)"
  by (induction xs) auto

lemma update_key_row_cases:
  assumes "update_key_row new old db = Inr (db', n)" "db_ok db"
  shows "n = 0 \<and> old \<notin> kr_md5 ` set (db_keys db) \<or>
    n = 1 \<and> old \<in> kr_md5 ` set (db_keys db) \<and> db_ok db' \<and> map kr_rfingerprint (db_keys db') = map kr_rfingerprint (db_keys db)
      \<and> kr_md5 ` set (db_keys db') = insert (kr_md5 new) (kr_md5 ` set (db_keys db) - {old})"
proof -
  define upd :: "keyRow \<Rightarrow> keyRow" where "upd = (\<lambda>r. if kr_md5 r = old
     then r\<lparr>kr_mtime := kr_mtime new, kr_idxtime := kr_idxtime new, kr_md5 := kr_md5 new,
           kr_keywords := kr_keywords new, kr_doc := kr_doc new, kr_vfingerprint := kr_vfingerprint new\<rparr> else r)"
  have d: "distinct (map kr_md5 (map upd (db_keys db)))" "db' = db\<lparr>db_keys := map upd (db_keys db)\<rparr>"
    "n = length (filter (\<lambda>r. kr_md5 r = old) (db_keys db))"
    using assms(1) unfolding update_key_row_def Let_def upd_def[symmetric] by (auto split: if_splits)
  have u: "kr_rfingerprint (upd r) = kr_rfingerprint r" "kr_md5 (upd r) = (if kr_md5 r = old then kr_md5 new else kr_md5 r)" for r
    by (simp_all add: upd_def)
  have fp: "map kr_rfingerprint (map upd (db_keys db)) = map kr_rfingerprint (db_keys db)" by (simp add: u)
  have dm: "distinct (map kr_md5 (db_keys db))" using assms(2) by (simp add: db_ok_def)
  have count: "n = (if old \<in> kr_md5 ` set (db_keys db) then 1 else 0)"
  proof -
    have e: "(\<lambda>m. m = old) = (=) old" by auto
    have "n = length (filter (\<lambda>m. m = old) (map kr_md5 (db_keys db)))" by (simp add: d(3) filter_map o_def)
    also have "\<dots> = count_list (map kr_md5 (db_keys db)) old" by (simp only: e count_list_eq_length_filter)
    also have "\<dots> = (if old \<in> set (map kr_md5 (db_keys db)) then 1 else 0)" using distinct_count_list[OF dm] by simp
    finally show ?thesis by simp
  qed
  have keys: "has_key rfp db' \<longleftrightarrow> has_key rfp db" for rfp
    by (auto simp: has_key_def d(2) u)
  have ok: "db_ok db'"
    using assms(2) d(1) keys by (simp add: db_ok_def d(2) fp del: map_map)
  have img: "kr_md5 ` set (db_keys db') = insert (kr_md5 new) (kr_md5 ` set (db_keys db) - {old})" if "old \<in> kr_md5 ` set (db_keys db)"
    using that by (auto simp: d(2) image_image u image_iff)
  show ?thesis using count ok img fp by (simp add: d(2))
qed

lemma updateTx_ok:
  assumes "updateTx V key lastMD5 db = Inr db'" "db_ok db"
  shows "db_ok db'" "lastMD5 \<in> kr_md5 ` set (db_keys db)" "map kr_rfingerprint (db_keys db') = map kr_rfingerprint (db_keys db)"
    "kr_md5 ` set (db_keys db') = insert (pk_MD5 key) (kr_md5 ` set (db_keys db) - {lastMD5})"
proof -
  define k where "k = SortKey (pg_E V) key"
  obtain kws uids where kw: "KeywordsTSVector V k = (kws, uids)" by (cases "KeywordsTSVector V k")
  define clear :: "pgdb \<Rightarrow> pgdb" where "clear = (\<lambda>db. db\<lparr>db_userids := filter (\<lambda>r. ur_rfingerprint r \<noteq> Reverse (pub_Fingerprint k)) (db_userids db)\<rparr>)"
  obtain tsv db1 n where tx: "update_key_row (key_row V k tsv) lastMD5 db = Inr (db1, n)"
    and rest: "(if 1 < n then Inl (Err (ErrMsg ''unexpected error when updating digest'')) else if n = 0 then Inl (Err errTargetMissing)
       else rbind (rfold (\<lambda>sub. upsert_subkey (subkey_row k sub)) (pk_SubKeys k) db1) (\<lambda>db.
            rfold (\<lambda>uid. upsert_userid (userid_row k uid)) uids (clear db))) = Inr db'"
    using assms(1) unfolding updateTx_def Let_def k_def[symmetric] kw clear_def by (auto simp: rbind_Inr_iff)
  from rest have n: "n = 1" by (auto split: if_splits)
  then obtain db2 where sub: "rfold (\<lambda>sub. upsert_subkey (subkey_row k sub)) (pk_SubKeys k) db1 = Inr db2"
    and uid: "rfold (\<lambda>uid. upsert_userid (userid_row k uid)) uids (clear db2) = Inr db'"
    using rest by (auto simp: rbind_Inr_iff)
  note u = update_key_row_cases[OF tx assms(2), unfolded n]
  have ok2: "db_ok db2 \<and> db_keys db2 = db_keys db1"
    by (rule rfold_invI[OF sub, where P = "\<lambda>d. db_ok d \<and> db_keys d = db_keys db1"]) (use u in \<open>auto dest: upsert_subkey_ok\<close>)
  have "db_ok (clear db2) \<and> db_keys (clear db2) = db_keys db1"
    using ok2 by (auto simp: clear_def db_ok_def map_filter_distinct has_key_def)
  then have ok3: "db_ok db' \<and> db_keys db' = db_keys db1"
    by (intro rfold_invI[OF uid, where P = "\<lambda>d. db_ok d \<and> db_keys d = db_keys db1"]) (auto dest: upsert_userid_ok)
  with u show "db_ok db'" "lastMD5 \<in> kr_md5 ` set (db_keys db)" "map kr_rfingerprint (db_keys db') = map kr_rfingerprint (db_keys db)"
    "kr_md5 ` set (db_keys db') = insert (pk_MD5 key) (kr_md5 ` set (db_keys db) - {lastMD5})"
    by (auto simp: k_def)
qed

section \<open>Announcements follow the tables\<close>

definition hex_rows :: "pgdb \<Rightarrow> bool" where
  "hex_rows db \<longleftrightarrow> (\<forall>r \<in> set (db_keys db). hex_string (kr_rfingerprint r))"

lemma hex_rows_simps [simp]:
  "hex_rows (db\<lparr>db_subkeys := ss\<rparr>) = hex_rows db" "hex_rows (db\<lparr>db_userids := us\<rparr>) = hex_rows db"
  by (simp_all add: hex_rows_def)

lemma hex_rows_map: "hex_rows db \<longleftrightarrow> list_all hex_string (map kr_rfingerprint (db_keys db))"
  by (simp add: hex_rows_def list_all_iff)

text \<open>
  The invariant of the storage as long as nothing goes wrong outside of it: the tables keep their constraints,
  fingerprints are hexadecimal, and all coming commits succeed (none is listed as failing).
\<close>

definition st_ok :: "pgst \<Rightarrow> bool" where
  "st_ok st \<longleftrightarrow> db_ok (ps_db st) \<and> hex_rows (ps_db st) \<and> ps_commits st = []"

abbreviation st_digests :: "pgst \<Rightarrow> gostring set" where
  "st_digests st \<equiv> digests (ps_db st)"

abbreviation pg_follows :: "pgst \<Rightarrow> pgst \<Rightarrow> bool" where
  "pg_follows \<equiv> follows ps_notified st_digests"

definition pg_goes :: "pgst \<Rightarrow> pgst \<Rightarrow> bool" where
  "pg_goes st st' \<longleftrightarrow> st_ok st' \<and> pg_follows st st'"

lemma Commit_ok: "ps_commits st = [] \<Longrightarrow> Commit db st = (st\<lparr>ps_db := db\<rparr>, Inr ())"
  by (simp add: Commit_def)

lemma pg_goes_refl: "st_ok st \<Longrightarrow> pg_goes st st"
  by (simp add: pg_goes_def follows_refl)

lemma pg_goes_trans: "pg_goes s s' \<Longrightarrow> pg_goes s' s'' \<Longrightarrow> pg_goes s s''"
  by (auto simp: pg_goes_def intro: follows_trans)

lemma pg_goesI:
  assumes "db_ok db'" "hex_rows db'" "ps_commits st = []" "digests db' = track new (st_digests st)"
    "st' = st\<lparr>ps_db := db', ps_notified := ps_notified st @ new\<rparr>"
  shows "pg_goes st st'"
  using assms by (auto simp: pg_goes_def st_ok_def follows_def)

lemma no_empty_digest: "[] \<notin> digests db"
  by (simp add: digests_def)

lemma st_okD:
  assumes "st_ok st"
  shows "db_ok (ps_db st)" "hex_rows (ps_db st)" "ps_commits st = []"
  using assms by (simp_all add: st_ok_def)

lemma Reverse_hex: "hex_string s \<Longrightarrow> Reverse s = rev s"
proof -
  assume "hex_string s"
  then have r: "go_runes s = map unat s"
  proof (induction s)
    case (Cons c s)
    then have "c < 128" by (auto simp: hex_string_def intro: le_less_trans)
    then have "unat c < 128" by (simp add: word_less_nat_alt)
    then have "DecodeRune (c # s) = (unat c, 1)" by (simp add: DecodeRune_def)
    with Cons show ?case by (simp add: go_runes.simps[of "c # s"] hex_string_def)
  qed (simp add: go_runes.simps)
  have e: "map (EncodeRune \<circ> unat) s = map (\<lambda>c. [c]) s" if "hex_string s" for s :: gostring
    using that
  proof (induction s)
    case (Cons c s)
    then have "c < 128" by (auto simp: hex_string_def intro: le_less_trans)
    then have "unat c < 128" by (simp add: word_less_nat_alt)
    then have "EncodeRune (unat c) = [c]" by (simp add: EncodeRune_def)
    with Cons show ?case by (simp add: hex_string_def)
  qed simp
  have "hex_string (rev s)" using \<open>hex_string s\<close> by (simp add: hex_string_def list_all_iff)
  then have "map (EncodeRune \<circ> unat) (rev s) = map (\<lambda>c. [c]) (rev s)" by (rule e)
  moreover have "concat (map (\<lambda>c. [c]) (rev s)) = rev s" by (induction s) simp_all
  ultimately show ?thesis by (simp only: Reverse_def r rev_map map_map)
qed

lemma hex_string_rev [simp]: "hex_string (rev s) = hex_string s"
  by (simp add: hex_string_def list_all_iff)

lemma hex_key_rfp: "hex_key k \<Longrightarrow> hex_string (Reverse (pub_Fingerprint k))"
  by (simp add: hex_key_def Reverse_hex)

lemma insertKey_cases:
  assumes "insertKey V k st = (st', r)" "st_ok st" "hex_key k"
  obtains e where "r = Inl e" "st' = st"
  | "r = Inr True" "st' = st" "has_key (Reverse (pub_Fingerprint k)) (ps_db st)"
  | db where "r = Inr False" "st' = st\<lparr>ps_db := db\<rparr>" "db_ok db" "hex_rows db" "digests db = insert (pk_MD5 k) (st_digests st) - {[]}"
      "\<not> has_key (Reverse (pub_Fingerprint k)) (ps_db st)"
proof (cases "insertKeyTx V k (ps_db st)")
  case (Inl e)
  show ?thesis by (rule that(1)[of e]) (use assms(1) Inl in \<open>auto simp: insertKey_def\<close>)
next
  case (Inr p)
  note ok = st_okD[OF assms(2)]
  obtain db up where p: "insertKeyTx V k (ps_db st) = Inr (db, up)" using Inr by (cases p) simp
  have st': "st' = st\<lparr>ps_db := db\<rparr>" "r = Inr up"
    using assms(1) p ok(3) by (simp_all add: insertKey_def Commit_ok)
  from p ok(1) show ?thesis
  proof (cases rule: insertKeyTx_cases)
    case 1
    with st' that(2) show ?thesis by simp
  next
    case (2 row)
    have "digests db = insert (pk_MD5 k) (st_digests st) - {[]}" using 2(6,8) by (auto simp: digests_def)
    moreover have "hex_rows db" using 2(5,8) ok(2) hex_key_rfp[OF assms(3)] by (auto simp: hex_rows_def)
    ultimately show ?thesis using that(3)[of db] st' 2(1-3) by simp
  qed
qed

lemma Delete_goes:
  assumes "st_ok st" "Delete fp st = (st', r)"
  shows "pg_goes st st'"
proof -
  obtain db x where tx: "deleteTx fp (ps_db st) = (db, x)" by (cases "deleteTx fp (ps_db st)")
  note ok = st_okD[OF assms(1)]
  from tx ok(1) show ?thesis
  proof (cases rule: deleteTx_cases)
    case 1
    with assms tx show ?thesis by (simp add: Delete_def pg_goes_refl)
  next
    case (2 row)
    have d: "digests db = track [KeyRemoved fp (kr_md5 row)] (st_digests st)"
      using 2(7) by (auto simp: digests_def announced_def)
    have h: "hex_rows db" using ok(2) 2(6) by (simp add: hex_rows_def)
    show ?thesis
      by (rule pg_goesI[OF 2(4) h ok(3) d]) (use assms(2) tx 2(2) ok(3) in \<open>auto simp: Delete_def Let_def Commit_ok Notify_def\<close>)
  qed
qed

lemma Delete_present:
  assumes "st_ok st" "row \<in> set (db_keys (ps_db st))" "kr_rfingerprint row = Reverse fp" "Delete fp st = (st', r)"
  shows "\<not> has_key (Reverse fp) (ps_db st') \<and> st_digests st' = st_digests st - {kr_md5 row}"
proof -
  obtain db x where tx: "deleteTx fp (ps_db st) = (db, x)" by (cases "deleteTx fp (ps_db st)")
  note ok = st_okD[OF assms(1)]
  from tx ok(1) show ?thesis
  proof (cases rule: deleteTx_cases)
    case 1
    with assms(2,3) show ?thesis by (auto simp: has_key_def)
  next
    case (2 row')
    have "distinct (map kr_rfingerprint (db_keys (ps_db st)))" using ok(1) by (simp add: db_ok_def)
    then have "row' = row" using 2(1,3) assms(2,3) unfolding distinct_map inj_on_def by metis
    have "ps_db st' = db"
      using assms(4) tx 2(2) ok(3) by (auto simp: Delete_def Let_def Commit_ok Notify_def)
    then show ?thesis using 2(5,7) \<open>row' = row\<close> by (auto simp: digests_def)
  qed
qed

lemma Replace_goes:
  assumes "st_ok st" "hex_key k" "Replace V k st = (st', r)"
  shows "pg_goes st st'"
proof -
  note ok = st_okD[OF assms(1)]
  obtain db x where del: "deleteTx (pub_Fingerprint k) (ps_db st) = (db, x)" by (cases "deleteTx (pub_Fingerprint k) (ps_db st)")
  have d: "db_ok db \<and> \<not> has_key (Reverse (pub_Fingerprint k)) db \<and> hex_rows db \<and>
      digests db = st_digests st - {case x of Inr md5 \<Rightarrow> md5 | Inl _ \<Rightarrow> []}"
    using del ok(1)
  proof (cases rule: deleteTx_cases)
    case 1
    then show ?thesis using ok by (auto simp: digests_def)
  next
    case (2 row)
    then show ?thesis using ok(2) by (auto simp: digests_def hex_rows_def)
  qed
  show ?thesis
  proof (cases "insertKeyTx V k db")
    case (Inl e)
    with assms del show ?thesis by (simp add: Replace_def Let_def pg_goes_refl)
  next
    case (Inr p)
    obtain db2 up where p: "insertKeyTx V k db = Inr (db2, up)" using Inr by (cases p) simp
    define md5 where "md5 = (case x of Inr md5 \<Rightarrow> md5 | Inl _ \<Rightarrow> [])"
    define kc where "kc = (if md5 = [] then KeyAdded (pub_KeyID k) (pk_MD5 k)
      else KeyReplaced (pub_KeyID k) md5 (pub_KeyID k) (pk_MD5 k))"
    have st': "st' = st\<lparr>ps_db := db2, ps_notified := ps_notified st @ [kc]\<rparr>"
      using assms(3) del p ok(3) unfolding kc_def by (auto simp: Replace_def Let_def Commit_ok Notify_def md5_def)
    from p conjunct1[OF d] show ?thesis
    proof (cases rule: insertKeyTx_cases)
      case 1
      with d show ?thesis by simp
    next
      case (2 row)
      have "digests db2 = insert (pk_MD5 k) (digests db) - {[]}" using 2(6,8) by (auto simp: digests_def)
      then have t: "digests db2 = track [kc] (st_digests st)"
        using d no_empty_digest[of "ps_db st"] by (auto simp: kc_def announced_def md5_def[symmetric])
      have h: "hex_rows db2" using d 2(5,8) hex_key_rfp[OF assms(2)] by (auto simp: hex_rows_def)
      show ?thesis by (rule pg_goesI[OF 2(2) h ok(3) t st'])
    qed
  qed
qed

lemma Update_goes:
  assumes "st_ok st" "Update V k i md5 st = (st', r)"
  shows "pg_goes st st'"
proof (cases "updateTx V k md5 (ps_db st)")
  case (Inl e)
  with assms show ?thesis by (simp add: Update_def pg_goes_refl)
next
  case (Inr db)
  note ok = st_okD[OF assms(1)]
  note u = updateTx_ok[OF Inr ok(1)]
  have d: "digests db = track [KeyReplaced i md5 (pub_KeyID k) (pk_MD5 k)] (st_digests st)"
    using u(4) by (auto simp: digests_def announced_def)
  have h: "hex_rows db" using ok(2) u(3) by (simp add: hex_rows_map)
  show ?thesis
    by (rule pg_goesI[OF u(1) h ok(3) d]) (use assms(2) Inr ok(3) in \<open>auto simp: Update_def Commit_ok Notify_def\<close>)
qed

subsection \<open>Reading\<close>

lemma ReadOneKey_hex: "ReadOneKey E ptr b fp = Inr (Some k) \<Longrightarrow> hex_key k \<and> pub_Fingerprint k = fp"
  by (auto simp: ReadOneKey_def elim!: rbind_InrE split: list.splits if_splits dest: parse_all_hex)

definition hex_record :: "Record \<Rightarrow> bool" where
  "hex_record r \<longleftrightarrow> (\<forall>k. rec_PrimaryKey r = Some k \<longrightarrow> hex_key k)"

lemma hex_records_iff: "hex_records (Inr rs) \<longleftrightarrow> (\<forall>r \<in> set rs. hex_record r)" "hex_records (Inl e)"
  by (auto simp: hex_records_def hex_record_def)

lemma read_row_record:
  "read_row V ptr row = Inr r \<Longrightarrow> rec_Fingerprint r = Reverse (kr_rfingerprint row) \<and> rec_MD5 r = kr_md5 row \<and> hex_record r
    \<and> (\<forall>k. rec_PrimaryKey r = Some k \<longrightarrow> pub_Fingerprint k = rec_Fingerprint r)"
  by (auto simp: read_row_def hex_record_def elim!: rbind_InrE split: jdoc.splits dest!: ReadOneKey_hex)

lemma preen_key: "preen r = (r', e) \<Longrightarrow> rec_PrimaryKey r' = rec_PrimaryKey r \<or> rec_PrimaryKey r' = None"
  by (auto simp: preen_def split: option.splits if_splits)

lemma preen_row_goes:
  assumes "st_ok st" "preen_row V b r st = (st', r')"
  shows "pg_goes st st'" "hex_record r \<Longrightarrow> hex_record r'"
proof -
  obtain r1 e where p: "preen r = (r1, e)" by (cases "preen r")
  consider "st' = st" | k where "st' = fst (Update V k (pub_KeyID k) (rec_MD5 r1) st)" | "st' = fst (Delete (rec_Fingerprint r1) st)"
    using assms(2) p by (auto simp: preen_row_def split: if_splits option.splits)
  then show "pg_goes st st'"
  proof cases
    case 1
    with assms(1) show ?thesis by (simp add: pg_goes_refl)
  next
    case (2 k)
    then show ?thesis using Update_goes[OF assms(1) prod.collapse[symmetric]] by simp
  next
    case 3
    then show ?thesis using Delete_goes[OF assms(1) prod.collapse[symmetric]] by simp
  qed
  show "hex_record r \<Longrightarrow> hex_record r'"
    using assms(2) p preen_key[OF p] by (auto simp: preen_row_def hex_record_def SortKey_hex split: if_splits option.splits)
qed

lemma read_rows_goes:
  "st_ok st \<Longrightarrow> read_rows V ptr b rows st = (st', rs) \<Longrightarrow> pg_goes st st' \<and> hex_records rs"
proof (induction rows arbitrary: st st' rs)
  case Nil
  then show ?case by (auto simp: pg_goes_refl hex_records_iff)
next
  case (Cons row rows)
  show ?case
  proof (cases "read_row V ptr row")
    case (Inl e)
    with Cons.prems show ?thesis by (auto simp: pg_goes_refl hex_records_iff)
  next
    case (Inr r)
    obtain st1 r1 where p: "preen_row V b r st = (st1, r1)" by (cases "preen_row V b r st")
    obtain st2 rs2 where q: "read_rows V ptr b rows st1 = (st2, rs2)" by (cases "read_rows V ptr b rows st1")
    have res: "st' = st2" "rs = rbind rs2 (\<lambda>records. Inr (r1 # records))"
      using Cons.prems(2) Inr p q by simp_all
    note g = preen_row_goes[OF Cons.prems(1) p]
    have "st_ok st1" using g(1) by (simp add: pg_goes_def)
    note ih = Cons.IH[OF this q]
    have "hex_records rs" using ih g(2) read_row_record[OF Inr] res(2) by (cases rs2) (auto simp: hex_records_iff)
    with ih g(1) res(1) show ?thesis by (auto intro: pg_goes_trans)
  qed
qed

lemma read_rows_plain:
  "read_rows V ptr False rows st = (st', Inr rs) \<Longrightarrow> st' = st \<and> (\<forall>r \<in> set rs. \<exists>row \<in> set rows. read_row V ptr row = Inr r)"
proof (induction rows arbitrary: rs st')
  case (Cons row rows)
  then obtain r st2 rs2 where "read_row V ptr row = Inr r" "read_rows V ptr False rows st = (st2, Inr rs2)" "st' = st2" "rs = r # rs2"
    by (auto simp: preen_row_def elim!: rbind_InrE split: sum.splits prod.splits)
  with Cons.IH show ?case by auto
qed auto

lemma read_rows_plain_state: "fst (read_rows V ptr False rows st) = st"
  by (induction rows) (auto simp: preen_row_def split: sum.splits prod.splits)

lemma pg_fetch_goes:
  assumes "st_ok st"
  shows "FetchRecordsByFp V ptr b fps st = (st', rs) \<Longrightarrow> pg_goes st st' \<and> hex_records rs"
    "FetchRecordsByVfp V ptr b fps st = (st', rs) \<Longrightarrow> pg_goes st st' \<and> hex_records rs"
    "FetchRecordsByIdentity V ptr b fps st = (st', rs) \<Longrightarrow> pg_goes st st' \<and> hex_records rs"
    "FetchRecordsByKeyword V ptr b search st = (st', rs) \<Longrightarrow> pg_goes st st' \<and> hex_records rs"
  using pg_goes_refl[OF assms] read_rows_goes[OF assms]
  by (auto simp: FetchRecordsByFp_def fetchRecordsByRfp_def FetchRecordsByVfp_def FetchRecordsByIdentity_def
    FetchRecordsByKeyword_def Let_def hex_records_iff split: if_splits sum.splits)

lemma stale_goes:
  assumes "st_ok st" "\<forall>m \<in> set ms. m \<notin> st_digests st"
  shows "pg_goes st (fold (\<lambda>md5. Notify (KeyRemovedJitter i md5)) ms st)"
  using assms
proof (induction ms arbitrary: st)
  case Nil
  then show ?case by (simp add: pg_goes_refl)
next
  case (Cons m ms)
  let ?st = "Notify (KeyRemovedJitter i m) st"
  have g: "pg_goes st ?st"
    by (rule pg_goesI[of "ps_db st", where new = "[KeyRemovedJitter i m]"])
      (use Cons.prems no_empty_digest[of "ps_db st"] in \<open>auto simp: Notify_def announced_def dest: st_okD\<close>)
  then have "st_ok ?st" by (simp add: pg_goes_def)
  moreover have "\<forall>x \<in> set ms. x \<notin> st_digests ?st" using Cons.prems(2) by (simp add: Notify_def)
  ultimately show ?case using Cons.IH g by (auto intro: pg_goes_trans)
qed

lemma FetchRecordsByMD5_goes:
  assumes "st_ok st" "FetchRecordsByMD5 V ptr b md5s st = (st', rs)"
  shows "pg_goes st st' \<and> hex_records rs"
proof -
  define ms where "ms = ToLower_all V md5s"
  obtain st1 rs1 where r: "read_rows V ptr b (select_keys V (\<lambda>r. kr_md5 r \<in> set ms) st) st = (st1, rs1)" by fastforce
  note g = read_rows_goes[OF assms(1) r]
  show ?thesis
  proof (cases rs1)
    case (Inl e)
    with g r assms(2) show ?thesis by (auto simp: FetchRecordsByMD5_def ms_def Let_def)
  next
    case (Inr records)
    let ?stale = "filter (\<lambda>md5. \<not> (\<exists>r \<in> set (db_keys (ps_db st1)). kr_md5 r = md5)) ms"
    have e: "st' = fold (\<lambda>md5. Notify (KeyRemovedJitter (lit ''??'') md5)) ?stale st1" "rs = rs1"
      using assms(2) r Inr by (auto simp: FetchRecordsByMD5_def ms_def Let_def)
    have "pg_goes st1 st'" unfolding e(1)
      by (rule stale_goes) (use g in \<open>auto simp: pg_goes_def digests_def\<close>)
    with g e(2) show ?thesis by (auto intro: pg_goes_trans)
  qed
qed

subsection \<open>Merging and the interface\<close>

abbreviation alone :: "nat \<Rightarrow> pgdb \<Rightarrow> pgdb" where
  "alone \<equiv> \<lambda>_ db. db"

lemma Notify_state: "ps_db (Notify kc st) = ps_db st" "ps_notified (Notify kc st) = ps_notified st @ [kc]"
  "ps_commits (Notify kc st) = ps_commits st"
  by (simp_all add: Notify_def)

lemma mergeStoredKey_goes:
  assumes st: "st_ok st" "hex_key pubkey" and m: "mergeStoredKey V (\<lambda>db. db) pubkey st = (st', r)"
  shows "pg_goes st st'"
proof -
  let ?rs = "FetchRecordsByFp V (fresh_ptr pubkey) False [pub_Fingerprint pubkey] st"
  obtain rs where f: "?rs = (st, rs)"
    by (cases ?rs) (auto simp: FetchRecordsByFp_def fetchRecordsByRfp_def read_rows_plain_state Let_def split: if_splits
      dest: arg_cong[where f = fst])
  have keep: "st\<lparr>ps_db := ps_db st\<rparr> = st" by simp
  show ?thesis
  proof (cases rs)
    case (Inl e)
    with m f st show ?thesis by (simp add: mergeStoredKey_def pg_goes_refl)
  next
    case (Inr l)
    show ?thesis
    proof (cases "find (\<lambda>r. rec_PrimaryKey r \<noteq> None \<and> rec_Fingerprint r = pub_Fingerprint pubkey) l")
      case None
      with m f st Inr show ?thesis by (simp add: mergeStoredKey_def pg_goes_refl)
    next
      case (Some last)
      then have last: "last \<in> set l" "rec_Fingerprint last = pub_Fingerprint pubkey" by (auto simp: find_Some_iff)
      obtain row where row: "row \<in> set (db_keys (ps_db st))" "read_row V (fresh_ptr pubkey) row = Inr last"
      proof -
        have "\<forall>r \<in> set l. \<exists>row. row \<in> set (db_keys (ps_db st)) \<and> read_row V (fresh_ptr pubkey) row = Inr r"
          using f unfolding Inr
          by (auto simp: FetchRecordsByFp_def fetchRecordsByRfp_def Let_def split: if_splits dest!: read_rows_plain) blast
        with last(1) that show ?thesis by blast
      qed
      have "hex_string (kr_rfingerprint row)" using st_okD(2)[OF st(1)] row(1) by (simp add: hex_rows_def)
      then have rfp: "kr_rfingerprint row = Reverse (pub_Fingerprint pubkey)" "rec_MD5 last = kr_md5 row"
        using read_row_record[OF row(2)] last(2) st(2) by (auto simp: hex_key_def Reverse_hex)
      let ?id = "pub_KeyID (the (rec_PrimaryKey last))"
      note m' = m[unfolded mergeStoredKey_def f prod.case Inr sum.case Some option.case Let_def keep]
      consider (same) "st' = st" | (update) key u where "Update V key ?id (rec_MD5 last) st = (st', u)"
        | (gone) "snd (preen last) = Some ErrKeyEvaporated"
          "(case Delete (rec_Fingerprint last) st of (st, _) \<Rightarrow>
            case insertKey V pubkey st of
               (st, Inl e) \<Rightarrow> (st, Inl e)
             | (st, Inr True) \<Rightarrow> (st, Inl (Err (ErrMsg ''evaporated key still present'')))
             | (st, Inr False) \<Rightarrow>
                 (Notify (KeyReplaced ?id (rec_MD5 last) (pub_KeyID pubkey) (pk_MD5 pubkey)) st,
                  Inr (KeyReplaced ?id (rec_MD5 last) (pub_KeyID pubkey) (pk_MD5 pubkey)))) = (st', r)"
        using m' by (auto split: if_splits sum.splits prod.splits)
      then show ?thesis
      proof cases
        case same
        with st show ?thesis by (simp add: pg_goes_refl)
      next
        case update
        then show ?thesis by (rule Update_goes[OF st(1)])
      next
        case gone
        obtain st1 d where del: "Delete (pub_Fingerprint pubkey) st = (st1, d)" by fastforce
        note g = Delete_goes[OF st(1) del]
        note gone' = Delete_present[OF st(1) row(1) rfp(1) del]
        have ok1: "st_ok st1" using g by (simp add: pg_goes_def)
        obtain st2 up where ins: "insertKey V pubkey st1 = (st2, up)" by fastforce
        note res = gone(2)[unfolded last(2) del prod.case ins]
        from ins ok1 st(2) show ?thesis
        proof (cases rule: insertKey_cases)
          case (1 e)
          with res g show ?thesis by auto
        next
          case 2
          with gone' show ?thesis by simp
        next
          case (3 db)
          let ?kc = "KeyReplaced ?id (kr_md5 row) (pub_KeyID pubkey) (pk_MD5 pubkey)"
          have "pg_goes st1 (Notify ?kc st2)"
            by (rule pg_goesI[OF 3(3,4) st_okD(3)[OF ok1], where new = "[?kc]"])
              (use 3(2,5) gone' no_empty_digest[of "ps_db st"] in \<open>auto simp: Notify_def announced_def\<close>)
          moreover have "st' = Notify ?kc st2" using res 3(1) rfp(2) by simp
          ultimately show ?thesis using g by (auto intro: pg_goes_trans)
        qed
      qed
    qed
  qed
qed

lemma merge_tries_goes:
  "st_ok st \<Longrightarrow> hex_key k \<Longrightarrow> merge_tries V alone n k st = (st', r) \<Longrightarrow> pg_goes st st'"
proof (induction n arbitrary: st)
  case 0
  then show ?case by (simp add: pg_goes_refl)
next
  case (Suc n)
  obtain st1 r1 where m: "mergeStoredKey V (\<lambda>db. db) k st = (st1, r1)" by fastforce
  note g = mergeStoredKey_goes[OF Suc.prems(1,2) m]
  then have "st_ok st1" by (simp add: pg_goes_def)
  with Suc m g show ?case by (auto split: if_splits intro: pg_goes_trans)
qed

lemma Upsert_goes:
  assumes "st_ok st" "hex_key k" "Upsert V alone k st = (st', r)"
  shows "pg_goes st st'"
proof -
  obtain st1 up where ins: "insertKey V k st = (st1, up)" by fastforce
  from ins assms(1,2) show ?thesis
  proof (cases rule: insertKey_cases)
    case (1 e)
    with assms ins show ?thesis by (auto simp: Upsert_def pg_goes_refl)
  next
    case 2
    with assms ins show ?thesis by (auto simp: Upsert_def intro: merge_tries_goes)
  next
    case (3 db)
    let ?kc = "KeyAdded (pub_KeyID k) (pk_MD5 k)"
    have "pg_goes st (Notify ?kc st1)"
      by (rule pg_goesI[OF 3(3,4) st_okD(3)[OF assms(1)], where new = "[?kc]"])
        (use 3(2,5) no_empty_digest[of "ps_db st"] in \<open>auto simp: Notify_def announced_def\<close>)
    with 3 assms(3) ins show ?thesis by (auto simp: Upsert_def Let_def)
  qed
qed

interpretation pg: announcing_storage "pg_storage V alone" st_ok st_digests
  by unfold_locales (unfold pg_storage_def storage.simps pg_goes_def[symmetric],
    (rule Upsert_goes Replace_goes Delete_goes pg_fetch_goes FetchRecordsByMD5_goes; assumption)+)


subsection \<open>Inserting a key that is not there\<close>

lemma insert_new_subkeys_total:
  "has_key rfp db \<Longrightarrow> \<forall>r \<in> set rows. sr_rfingerprint r = rfp \<Longrightarrow>
    \<exists>db'. rfold insert_new_subkey rows db = Inr db' \<and> db_keys db' = db_keys db"
proof (induction rows arbitrary: db)
  case (Cons r rows)
  obtain db1 where db1: "insert_new_subkey r db = Inr db1" "db_keys db1 = db_keys db"
    using Cons.prems by (cases "insert_new_subkey r db") (auto simp: insert_new_subkey_def split: if_splits)
  then have "has_key rfp db1" using Cons.prems(1) by (simp add: has_key_def)
  with Cons db1 show ?case by fastforce
qed simp

lemma insert_new_userids_total:
  "has_key rfp db \<Longrightarrow> \<forall>r \<in> set rows. ur_rfingerprint r = rfp \<Longrightarrow>
    \<exists>db'. rfold insert_new_userid rows db = Inr db' \<and> db_keys db' = db_keys db"
proof (induction rows arbitrary: db)
  case (Cons r rows)
  obtain db1 where db1: "insert_new_userid r db = Inr db1" "db_keys db1 = db_keys db"
    using Cons.prems by (cases "insert_new_userid r db") (auto simp: insert_new_userid_def split: if_splits)
  then have "has_key rfp db1" using Cons.prems(1) by (simp add: has_key_def)
  with Cons db1 show ?case by fastforce
qed simp

lemma rfold_map: "rfold f (map g xs) s = rfold (\<lambda>x. f (g x)) xs s"
  by (induction xs arbitrary: s) (auto cong: rbind_cong)

lemma insertKeyTx_fresh:
  assumes "pg_TSVECTOR V (fst (KeywordsTSVector V (SortKey (pg_E V) k))) = Inr tsv"
    and "\<not> has_key (Reverse (pub_Fingerprint k)) db" "pk_MD5 k \<notin> kr_md5 ` set (db_keys db)"
  shows "\<exists>db'. insertKeyTx V k db = Inr (db', False) \<and> db_keys db' = db_keys db @ [key_row V (SortKey (pg_E V) k) tsv]"
proof -
  let ?k = "SortKey (pg_E V) k" and ?db = "db\<lparr>db_keys := db_keys db @ [key_row V (SortKey (pg_E V) k) tsv]\<rparr>"
  let ?rfp = "Reverse (pub_Fingerprint k)"
  obtain kws uids where kw: "KeywordsTSVector V ?k = (kws, uids)" by fastforce
  have ins: "insert_key_row (key_row V ?k tsv) db = Inr (?db, 1)"
    using assms(2,3) by (force simp: insert_key_row_def)
  have "has_key ?rfp ?db" by (simp add: has_key_def)
  then obtain db1 where db1: "rfold (\<lambda>sub. insert_new_subkey (subkey_row ?k sub)) (pk_SubKeys ?k) ?db = Inr db1" "db_keys db1 = db_keys ?db"
    using insert_new_subkeys_total[of ?rfp ?db "map (subkey_row ?k) (pk_SubKeys ?k)"] by (auto simp: rfold_map subkey_row_def)
  have "has_key ?rfp db1" using db1(2) by (simp add: has_key_def)
  then obtain db2 where db2: "rfold (\<lambda>uid. insert_new_userid (userid_row ?k uid)) uids db1 = Inr db2" "db_keys db2 = db_keys ?db"
    using insert_new_userids_total[of ?rfp db1 "map (userid_row ?k) uids"] db1(2) by (auto simp: rfold_map userid_row_def)
  show ?thesis
    using assms(1) kw ins db1 db2 by (simp add: insertKeyTx_def Let_def)
qed

lemma Upsert_fresh:
  assumes "st_ok st" "pg_TSVECTOR V (fst (KeywordsTSVector V (SortKey (pg_E V) k))) = Inr tsv"
    and "\<not> has_key (Reverse (pub_Fingerprint k)) (ps_db st)" "pk_MD5 k \<notin> kr_md5 ` set (db_keys (ps_db st))"
  shows "\<exists>db. Upsert V others k st = (st\<lparr>ps_db := db, ps_notified := ps_notified st @ [KeyAdded (pub_KeyID k) (pk_MD5 k)]\<rparr>,
      Inr (KeyAdded (pub_KeyID k) (pk_MD5 k)))
    \<and> db_keys db = db_keys (ps_db st) @ [key_row V (SortKey (pg_E V) k) tsv]"
proof -
  obtain db where "insertKeyTx V k (ps_db st) = Inr (db, False)" "db_keys db = db_keys (ps_db st) @ [key_row V (SortKey (pg_E V) k) tsv]"
    using insertKeyTx_fresh[OF assms(2-4)] by blast
  then show ?thesis
    using st_okD(3)[OF assms(1)] by (auto simp: Upsert_def insertKey_def Commit_ok Notify_def Let_def)
qed

lemma key_row_doc [simp]: "kr_doc (key_row V k tsv) = Doc (NewPrimaryKey k)"
  by (simp add: key_row_def)

subsection \<open>Replacing\<close>

lemma Replace_change:
  assumes "st_ok st" "row \<in> set (db_keys (ps_db st))" "kr_rfingerprint row = Reverse (pub_Fingerprint k)" "kr_md5 row \<noteq> []"
    and "Replace V k st = (st', Inr kc)"
  shows "kc = KeyReplaced (pub_KeyID k) (kr_md5 row) (pub_KeyID k) (pk_MD5 k)" "ps_notified st' = ps_notified st @ [kc]"
proof -
  note ok = st_okD[OF assms(1)]
  obtain db x where tx: "deleteTx (pub_Fingerprint k) (ps_db st) = (db, x)" by fastforce
  have x: "x = Inr (kr_md5 row)" using tx ok(1)
  proof (cases rule: deleteTx_cases)
    case 1
    with assms(2,3) show ?thesis by (auto simp: has_key_def)
  next
    case (2 row')
    have "distinct (map kr_rfingerprint (db_keys (ps_db st)))" using ok(1) by (simp add: db_ok_def)
    then have "row' = row" using 2(1,3) assms(2,3) unfolding distinct_map inj_on_def by metis
    with 2(2) show ?thesis by simp
  qed
  show "kc = KeyReplaced (pub_KeyID k) (kr_md5 row) (pub_KeyID k) (pk_MD5 k)" "ps_notified st' = ps_notified st @ [kc]"
    using assms(4,5) tx x ok(3) by (auto simp: Replace_def Let_def Commit_ok Notify_def split: sum.splits)
qed

subsection \<open>A key that evaporates during a hashquery\<close>

lemma recheck_evaporated:
  assumes st: "st_ok st" and row: "row \<in> set (db_keys (ps_db st))" "kr_rfingerprint row = Reverse (pub_Fingerprint key)" "kr_md5 row = pk_MD5 key"
    and v: "ValidSelfSigned E policy (fresh_ptr key) key False = Inl (Err ErrKeyEvaporated)"
    and tsv: "pg_TSVECTOR V (fst (KeywordsTSVector V (SortKey (pg_E V) (evaporated E key)))) = Inr tsv"
  shows "\<exists>st' result. recheck E policy (pg_storage V alone) [0] [key] st = (st', Inr result)
    \<and> (\<exists>r \<in> set (db_keys (ps_db st')). kr_rfingerprint r = Reverse (pub_Fingerprint key) \<and> kr_md5 r = pk_MD5 key
        \<and> kr_doc r = Doc (NewPrimaryKey (SortKey (pg_E V) (evaporated E key))))
    \<and> ps_notified st' = ps_notified st @ [KeyRemoved (pub_Fingerprint key) (pk_MD5 key), KeyAdded (pub_KeyID key) (pk_MD5 key)]"
proof -
  note ok = st_okD[OF st]
  let ?e = "evaporated E key"
  have e: "pub_Fingerprint ?e = pub_Fingerprint key" "pk_MD5 ?e = pk_MD5 key" "pub_KeyID ?e = pub_KeyID key"
    by (simp_all add: evaporated_def)
  obtain db x where tx: "deleteTx (pub_Fingerprint key) (ps_db st) = (db, x)" by fastforce
  let ?kc = "KeyRemoved (pub_Fingerprint key) (pk_MD5 key)"
  let ?st1 = "st\<lparr>ps_db := db, ps_notified := ps_notified st @ [?kc]\<rparr>"
  from tx ok(1) have d: "x = Inr (pk_MD5 key) \<and> db_ok db \<and> \<not> has_key (Reverse (pub_Fingerprint key)) db
      \<and> pk_MD5 key \<notin> kr_md5 ` set (db_keys db) \<and> set (db_keys db) \<subseteq> set (db_keys (ps_db st))"
  proof (cases rule: deleteTx_cases)
    case 1
    with row show ?thesis by (auto simp: has_key_def)
  next
    case (2 row')
    have "distinct (map kr_rfingerprint (db_keys (ps_db st)))" using ok(1) by (simp add: db_ok_def)
    then have "row' = row" using 2(1,3) row unfolding distinct_map inj_on_def by metis
    with 2 row show ?thesis by simp
  qed
  have del: "Delete (pub_Fingerprint key) st = (?st1, Inr ?kc)"
    using tx d ok(3) by (simp add: Delete_def Let_def Commit_ok Notify_def)
  have st1: "st_ok ?st1" using d ok by (auto simp: st_ok_def hex_rows_def)
  have "\<not> has_key (Reverse (pub_Fingerprint ?e)) (ps_db ?st1)" "pk_MD5 ?e \<notin> kr_md5 ` set (db_keys (ps_db ?st1))"
    using d e by simp_all
  from Upsert_fresh[OF st1 tsv this, of alone] obtain db2 where
    up: "Upsert V alone ?e ?st1 = (?st1\<lparr>ps_db := db2, ps_notified := ps_notified ?st1 @ [KeyAdded (pub_KeyID ?e) (pk_MD5 ?e)]\<rparr>,
      Inr (KeyAdded (pub_KeyID ?e) (pk_MD5 ?e)))"
    and rows: "db_keys db2 = db_keys (ps_db ?st1) @ [key_row V (SortKey (pg_E V) ?e) tsv]" by blast
  show ?thesis
    using v del up rows e by (simp add: pg_storage_def)
qed

end
