(* ===== verification/SksSpec.thy ===== *)
theory SksSpec
  imports SksPeer Requests StorageSpec PeerSpec MessageSpec
begin

text \<open>
  The SKS peer: digests and field elements, the hashquery exchange with a partner, the loop over
  the missing elements, and what the announced changes do to the prefix tree.
\<close>

section \<open>Digests\<close>

lemma hex_value_digit:
  assumes "n < 16" shows "hex_value (hex_digit n) = Some n"
proof -
  have "list_all (\<lambda>n. hex_value (hex_digit n) = Some n) [0..<16]" by code_simp
  with assms show ?thesis by (simp add: list_all_iff)
qed

lemma hex_DecodeString_Encode: "hex_DecodeString (hex_EncodeToString bs) = Inr bs"
proof (induction bs)
  case Nil
  then show ?case by (simp add: hex_EncodeToString_def)
next
  case (Cons b bs)
  have "unat b div 16 < 16" "unat b mod 16 < 16" using unsigned_less[of b, where ?'a = nat] by simp_all
  moreover have "(of_nat (16 * (unat b div 16) + unat b mod 16) :: byte) = b" by simp
  ultimately show ?case using Cons by (simp add: hex_EncodeToString_def hex_value_digit del: of_nat_add of_nat_mult)
qed

lemma DigestZp_Encode:
  "DigestZp (hex_EncodeToString b) = Inr (zmk P_SKS (int (le_value b)))"
proof -
  have z: "zp_Norm (zmk P_SKS a) = Inr (zmk P_SKS a)" for a
    by (rule zp_Norm_felem[of P_SKS]) simp
  have "0 < P_SKS" by (simp add: P_SKS_def)
  note set = zp_SetBytes_ok[OF this, of "\<lparr>zp_i = 0, zp_p = Some P_SKS\<rparr>", simplified]
  show ?thesis
    by (simp add: DigestZp_def hex_DecodeString_Encode zp_In_def set z PadSksElement_eq le_value_append)
qed

text \<open>An element that is the digest of a key: its value has 16 bytes.\<close>

definition digest_element :: "zp \<Rightarrow> bool" where
  "digest_element z \<longleftrightarrow> felem P_SKS z \<and> zp_i z < 2 ^ 128"

definition element_bytes :: "zp \<Rightarrow> byte list" where
  "element_bytes z = butlast (PadSksElement (zp_Bytes z))"

definition element_digest :: "zp \<Rightarrow> gostring" where
  "element_digest z = hex_EncodeToString (element_bytes z)"

lemma element_bytes:
  assumes "digest_element z"
  shows "length (element_bytes z) = 16" "int (le_value (element_bytes z)) = zp_i z"
proof -
  let ?n = "nat (zp_i z)"
  have z: "0 \<le> zp_i z" "?n < 256 ^ 16" using assms by (auto simp: digest_element_def felem_def)
  have len: "length (le_bytes ?n) \<le> 16" using le_bytes_length_le z(2) by blast
  then have "17 - length (le_bytes ?n) = Suc (16 - length (le_bytes ?n))" by simp
  then have "PadSksElement (zp_Bytes z) = (le_bytes ?n @ replicate (16 - length (le_bytes ?n)) 0) @ [0]"
    using z(1) by (simp add: PadSksElement_eq zp_Bytes_le SksZpNbytes_eq replicate_append_same)
  then have e: "element_bytes z = le_bytes ?n @ replicate (16 - length (le_bytes ?n)) 0"
    unfolding element_bytes_def by (simp only: butlast_snoc)
  show "length (element_bytes z) = 16" using len by (simp add: e)
  show "int (le_value (element_bytes z)) = zp_i z" using z(1) by (simp add: e le_value_append)
qed

lemma DigestZp_element: "digest_element z \<Longrightarrow> DigestZp (element_digest z) = Inr z"
  by (simp add: element_digest_def DigestZp_Encode element_bytes felem_eq_zmk digest_element_def)

lemma element_digest_inj: "inj_on element_digest {z. digest_element z}"
proof (rule inj_onI)
  fix x y assume xy: "x \<in> {z. digest_element z}" "y \<in> {z. digest_element z}" "element_digest x = element_digest y"
  have "Inr x = DigestZp (element_digest y)" using DigestZp_element[of x] xy(1,3) by (simp only: mem_Collect_eq)
  also have "\<dots> = Inr y" using DigestZp_element[of y] xy(2) by (simp only: mem_Collect_eq)
  finally show "x = y" by (simp only: sum.inject)
qed

section \<open>The hashquery exchange\<close>

lemma hashquery_element_eq: "hashquery_element z = WriteInt (int (length (element_bytes z))) @ element_bytes z"
  by (simp add: hashquery_element_def element_bytes_def)

lemma ReadInt_length: "n < 2 ^ 32 \<Longrightarrow> ReadInt (WriteInt (int n) @ r) = Inr (int n, r)"
  by (simp only: ReadInt_WriteInt_mod) (simp add: zmod_trivial_iff)

lemma hashquery_digests_run:
  "\<forall>z \<in> set chunk. digest_element z \<Longrightarrow> distinct (ds @ map element_digest chunk) \<Longrightarrow>
    hashquery_digests (length chunk) (concat (map hashquery_element chunk) @ r) ds = Inr (ds @ map element_digest chunk)"
proof (induction chunk arbitrary: ds)
  case (Cons z chunk)
  let ?e = "element_bytes z"
  have e: "length ?e = 16" using Cons.prems(1) element_bytes(1) by simp
  have n: "element_digest z \<notin> set ds" "distinct ((ds @ [element_digest z]) @ map element_digest chunk)"
    using Cons.prems(2) by auto
  have ih: "hashquery_digests (length chunk) (concat (map hashquery_element chunk) @ r) (ds @ [element_digest z])
    = Inr (ds @ map element_digest (z # chunk))"
    using Cons.IH[OF _ n(2)] Cons.prems(1) by simp
  have b: "buffer_Read 16 (?e @ t) = Inr (?e, t)" for t
    using e by (auto simp: buffer_Read_def)
  have z: "hashquery_element z @ t = WriteInt (int 16) @ ?e @ t" for t by (simp add: hashquery_element_eq e)
  show ?case
    unfolding list.map concat.simps append_assoc z list.size
    using n(1) ih by (simp add: ReadInt_length[of 16, simplified] b element_digest_def[symmetric])
qed simp

lemma hashquery_request_parsed:
  assumes "\<forall>z \<in> set chunk. digest_element z" "distinct chunk" "length chunk < 2 ^ 32"
    and "rq_Method req = lit ''POST''" "rq_Body req = Inr (hashquery_request chunk)"
  shows "ParseHashQuery req = Inr (map element_digest chunk)"
proof -
  have "inj_on element_digest (set chunk)" by (rule inj_on_subset[OF element_digest_inj]) (use assms(1) in auto)
  then have d: "distinct ([] @ map element_digest chunk)" using assms(2) by (simp add: distinct_map)
  show ?thesis
    using assms(4,5) hashquery_digests_run[OF assms(1) d, of "[]"]
    by (simp add: ParseHashQuery_def hashquery_request_def ReadInt_length[OF assms(3)])
qed

text \<open>What the client makes of the keys of a reply, one buffer after the other.\<close>

fun upsert_buffers :: "gocrypto \<Rightarrow> 's storage \<Rightarrow> byte list list \<Rightarrow> upsertResult \<Rightarrow> ('s, 't, 'c) sksState
    \<Rightarrow> ('s, 't, 'c) sksState \<times> upsertResult res" where
  "upsert_buffers E S [] acc st = (st, Inr acc)"
| "upsert_buffers E S (b # bs) acc st = (case upsertKeys E S b st of
     (st, Inl (Err _)) \<Rightarrow> upsert_buffers E S bs acc st
   | (st, Inl f) \<Rightarrow> (st, Inl f)
   | (st, Inr res) \<Rightarrow> upsert_buffers E S bs (upsertResult_add acc res) st)"

definition framed :: "byte list \<Rightarrow> byte list" where
  "framed b = WriteInt (int (length b)) @ b"

lemma upsert_reply_framed:
  "\<forall>b \<in> set bs. length b < 2 ^ 32 \<Longrightarrow>
    upsert_reply E S (length bs) (concat (map framed bs) @ r) acc st = upsert_buffers E S bs acc st"
proof (induction bs arbitrary: acc st)
  case (Cons b bs)
  have n: "length b < 2 ^ 32" using Cons.prems by simp
  have f: "take (length b) (b @ t) = b" "drop (length b) (b @ t) = t" for t :: "byte list" by simp_all
  show ?case
    using Cons by (simp add: framed_def ReadInt_length[OF n] split: sum.splits fault.splits prod.splits)
qed simp

lemma hashquery_keys_framed:
  "rmap WritePackets ks = Inr bs \<Longrightarrow> hashquery_keys ks = concat (map framed bs) @ [13, 10]"
  by (induction ks arbitrary: bs) (auto simp: writeHashqueryKey_def framed_def rbind_Inr_iff split: sum.splits)

lemma requestChunk_reply:
  assumes "rmap WritePackets result = Inr bs" "\<forall>b \<in> set bs. length b < 2 ^ 32" "length result < 2 ^ 32"
    and "rc_RecoverAddr rcvr = Inr addr" "Do (hashquery_request chunk) = Inr \<lparr>hr_StatusCode = 200, hr_Body = hashquery_body result\<rparr>"
  shows "requestChunk E S Do rcvr chunk st = upsert_buffers E S bs no_upserts st"
proof -
  show ?thesis
    using upsert_reply_framed[OF assms(2), of E S "[13, 10]" no_upserts st] assms(4,5)
    by (simp add: requestChunk_def hashquery_body_def hashquery_keys_framed[OF assms(1)] ReadInt_length[OF assms(3)]
      rmap_length[OF assms(1)])
qed


section \<open>Recovering the missing elements\<close>

subsection \<open>A request leaves the chunk size alone\<close>

lemma each_digest_cases: "each_digest op ds p = (p', e) \<Longrightarrow> \<exists>zs. p' = fold (\<lambda>z. op [z]) zs p \<and> (e = Inr () \<longrightarrow> map DigestZp ds = map Inr zs)"
proof (induction ds arbitrary: p)
  case Nil
  then show ?case by (auto intro: exI[of _ "[]"])
next
  case (Cons d ds)
  show ?case
  proof (cases "DigestZp d")
    case (Inl f)
    with Cons.prems show ?thesis by (auto intro: exI[of _ "[]"])
  next
    case (Inr z)
    then have "each_digest op ds (op [z] p) = (p', e)" using Cons.prems by simp
    from Cons.IH[OF this] obtain zs where "p' = fold (\<lambda>z. op [z]) zs (op [z] p)" "e = Inr () \<longrightarrow> map DigestZp ds = map Inr zs" by blast
    with Inr show ?thesis by (intro exI[of _ "z # zs"]) simp
  qed
qed

lemma updateDigests_size: "sp_requestChunkSize (fst (updateDigests t kc r)) = sp_requestChunkSize r"
  by (simp add: updateDigests_def Let_def split: prod.splits sum.splits)

lemma deliver_size: "sp_requestChunkSize (deliver t kcs r) = sp_requestChunkSize r"
  unfolding deliver_def by (induction kcs arbitrary: r) (simp_all add: updateDigests_size)

lemma upsert_all_size:
  "upsert_all E S keys res st = (st', u) \<Longrightarrow> sp_requestChunkSize (snd st') = sp_requestChunkSize (snd st)"
proof (induction keys arbitrary: res st)
  case (Cons key keys)
  obtain s r where st: "st = (s, r)" by (cases st)
  show ?case
  proof (cases "ValidSelfSigned E (sp_policy r) (fresh_ptr key) key False")
    case (Inl f)
    with Cons st show ?thesis by (cases f) auto
  next
    case (Inr key')
    obtain s1 up where up: "sto_Upsert S key' s = (s1, up)" by (cases "sto_Upsert S key' s")
    define r1 where "r1 = deliver (gc_now E) (drop (length (sto_notified S s)) (sto_notified S s1)) r"
    have size: "sp_requestChunkSize r1 = sp_requestChunkSize r" by (simp add: r1_def deliver_size)
    have "st' = (s1, r1) \<or> (\<exists>res r2. upsert_all E S keys res (s1, r2) = (st', u) \<and> sp_requestChunkSize r2 = sp_requestChunkSize r1)"
      using Cons.prems Inr up st unfolding r1_def
      by (auto simp: Let_def split: sum.splits fault.splits KeyChange.splits) (metis updateDigests_size)
    then show ?thesis using Cons.IH size st by fastforce
  qed
qed simp

lemma upsert_reply_size:
  "upsert_reply E S n body res st = (st', u) \<Longrightarrow> sp_requestChunkSize (snd st') = sp_requestChunkSize (snd st)"
proof (induction n arbitrary: body res st)
  case (Suc n)
  show ?case
  proof (cases "ReadInt body")
    case (Inl e)
    with Suc.prems show ?thesis by simp
  next
    case (Inr p)
    obtain k b where p: "ReadInt body = Inr (k, b)" using Inr by (cases p) simp
    obtain st1 up where up: "upsertKeys E S (take (nat k) b) st = (st1, up)" by fastforce
    have "sp_requestChunkSize (snd st1) = sp_requestChunkSize (snd st)"
      using up by (auto simp: upsertKeys_def split: sum.splits dest: upsert_all_size)
    moreover have "st' = st \<or> st' = st1 \<or> (\<exists>b res. upsert_reply E S n b res st1 = (st', u))"
      using Suc.prems p up by (auto split: if_splits sum.splits fault.splits)
    ultimately show ?thesis using Suc.IH by fastforce
  qed
qed simp

lemma requestChunk_size:
  "requestChunk E S Do rcvr chunk st = (st', u) \<Longrightarrow> sp_requestChunkSize (snd st') = sp_requestChunkSize (snd st)"
  by (auto simp: requestChunk_def split: sum.splits if_splits prod.splits dest: upsert_reply_size)

subsection \<open>The loop\<close>

definition size_ok :: "nat \<Rightarrow> bool" where
  "size_ok n \<longleftrightarrow> minRequestChunkSize \<le> n \<and> n \<le> maxRequestChunkSize"

lemma size_simps [simp]:
  "sp_requestChunkSize (remember L chunk r) = sp_requestChunkSize r"
  "sp_requestChunkSize (shrink n r) = max (n div 2) minRequestChunkSize"
  "sp_requestChunkSize (grow r) = min (if sp_slowStart r then sp_requestChunkSize r * 2 else sp_requestChunkSize r + 1) maxRequestChunkSize"
  by (simp_all add: remember_def shrink_def grow_def)

text \<open>What one run of the loop promises: bounded chunks, a bounded number of requests, every element requested.\<close>

definition loop_ok :: "zp list \<Rightarrow> nat \<Rightarrow> zp list list \<Rightarrow> unit res \<Rightarrow> bool" where
  "loop_ok items errCount chunks res \<longleftrightarrow> (\<forall>c \<in> set chunks. size_ok (length c))
     \<and> length chunks + errCount \<le> length items + maxKeyRecoveryAttempts
     \<and> (res = Inr () \<longrightarrow> concat chunks = items)
     \<and> (res \<noteq> Inl (Err (ErrMsg ''Too many errors requesting chunks'')) \<longrightarrow> (\<forall>e. res = Inl (Err e) \<longrightarrow> set items \<subseteq> set (concat chunks)))"

lemma loop_error: "recover_loop L req fuel n items (Suc errCount) st = (st', chunks, res) \<Longrightarrow> res \<noteq> Inr ()"
proof (induction fuel arbitrary: n items errCount st chunks)
  case (Suc fuel)
  show ?case
    using Suc.prems Suc.IH by (auto simp: Let_def split: if_splits prod.splits sum.splits fault.splits)
qed auto

lemma recover_loop_ok:
  fixes req :: "nat \<Rightarrow> zp list \<Rightarrow> ('s, 't, 'c) sksState \<Rightarrow> ('s, 't, 'c) sksState \<times> unit res"
  assumes req: "\<And>n c st st' u. req n c st = (st', u) \<Longrightarrow> sp_requestChunkSize (snd st') = sp_requestChunkSize (snd st) \<and> u \<noteq> Inl Diverge"
  shows "recover_loop L req fuel n items errCount st = (st', chunks, res) \<Longrightarrow> size_ok (sp_requestChunkSize (snd st)) \<Longrightarrow>
    errCount < maxKeyRecoveryAttempts \<Longrightarrow> length items + maxKeyRecoveryAttempts < fuel + errCount \<Longrightarrow>
    loop_ok items errCount chunks res \<and> size_ok (sp_requestChunkSize (snd st')) \<and> res \<noteq> Inl Diverge"
proof (induction fuel arbitrary: n items errCount st st' chunks res)
  case (Suc fuel)
  show ?case
  proof (cases "items = []")
    case True
    with Suc.prems show ?thesis by (auto simp: loop_ok_def split: if_splits)
  next
    case False
    define k where "k = min (sp_requestChunkSize (snd st)) (length items)"
    define chunk where "chunk = take k items"
    have k: "1 \<le> k" "k \<le> 100" "k \<le> length items" "length chunk = k" "size_ok (length chunk)"
      using Suc.prems(2) False by (auto simp: k_def chunk_def size_ok_def minRequestChunkSize_def maxRequestChunkSize_def Suc_le_eq)
    obtain s r u where rq: "req n chunk st = ((s, r), u)" by (metis surj_pair)
    have r: "sp_requestChunkSize r = sp_requestChunkSize (snd st)" "u \<noteq> Inl Diverge" using req[OF rq] by simp_all
    have sizes: "size_ok (sp_requestChunkSize (remember L chunk (grow r)))" "size_ok (sp_requestChunkSize (shrink k r))"
      using r(1) Suc.prems(2) k by (auto simp: size_ok_def minRequestChunkSize_def maxRequestChunkSize_def)
    show ?thesis
    proof (cases u)
      case (Inr x)
      obtain cs where rec: "recover_loop L req fuel (Suc n) (drop k items) errCount (s, remember L chunk (grow r)) = (st', cs, res)" "chunks = chunk # cs"
        using Suc.prems(1) False rq Inr unfolding k_def[symmetric] chunk_def
        by (auto simp: Let_def k_def[symmetric] chunk_def[symmetric] split: prod.splits)
      have "length (drop k items) + maxKeyRecoveryAttempts < fuel + errCount" using Suc.prems(4) k by simp
      note ih = Suc.IH[OF rec(1) _ Suc.prems(3) this, unfolded snd_conv, OF sizes(1)]
      have app: "chunk @ drop k items = items" by (simp add: chunk_def)
      then have sub: "set items = set chunk \<union> set (drop k items)" by (metis set_append)
      have "concat cs = drop k items \<Longrightarrow> concat chunks = items" using app rec(2) by simp
      then have "loop_ok items errCount chunks res"
        using ih k rec(2) sub unfolding loop_ok_def by (simp add: Ball_def) auto
      with ih show ?thesis by simp
    next
      case (Inl f)
      show ?thesis
      proof (cases f)
        case (Err e)
        show ?thesis
        proof (cases "errCount + 1 = maxKeyRecoveryAttempts")
          case True
          then have "st' = (s, shrink k r)" "chunks = [chunk]" "res = Inl (Err (ErrMsg ''Too many errors requesting chunks''))"
            using Suc.prems(1) False rq Inl Err k(4) by (auto simp: Let_def k_def[symmetric] chunk_def[symmetric])
          then show ?thesis using sizes(2) k(5) True by (simp add: loop_ok_def)
        next
          case more: False
          define rest where "rest = (if k \<le> minRequestChunkSize then drop k items else items)"
          obtain cs where rec: "recover_loop L req fuel (Suc n) rest (errCount + 1) (s, shrink k r) = (st', cs, res)" "chunks = chunk # cs"
            using Suc.prems(1) False rq Inl Err more k(4) unfolding rest_def
            by (auto simp: Let_def k_def[symmetric] chunk_def[symmetric] split: prod.splits)
          have len: "length rest + maxKeyRecoveryAttempts < fuel + (errCount + 1)" "errCount + 1 < maxKeyRecoveryAttempts"
            using Suc.prems(3,4) k more by (auto simp: rest_def)
          note ih = Suc.IH[OF rec(1) _ len(2,1), unfolded snd_conv, OF sizes(2)]
          have sub: "set items \<subseteq> set chunk \<union> set rest"
            by (auto simp: rest_def chunk_def) (metis Un_iff append_take_drop_id set_append)
          have nr: "res \<noteq> Inr ()"
            using loop_error[of L req fuel "Suc n" rest errCount] rec(1) by simp
          have "length rest \<le> length items" by (simp add: rest_def)
          then have "loop_ok items errCount chunks res"
            using ih k rec(2) sub nr by (auto simp: loop_ok_def)
          with ih show ?thesis by simp
        qed
      qed (use Suc.prems(1-3) False rq Inl k sizes r in \<open>auto simp: loop_ok_def Let_def k_def[symmetric] chunk_def[symmetric]\<close>)
    qed
  qed
qed simp


section \<open>The prefix tree behind the announcements\<close>

text \<open>Digests as the storage announces them: sixteen bytes in hexadecimal.\<close>

definition md5_digest :: "gostring \<Rightarrow> bool" where
  "md5_digest d \<longleftrightarrow> (\<exists>bs. length bs = 16 \<and> d = hex_EncodeToString bs)"

definition digest_zp :: "gostring \<Rightarrow> zp" where
  "digest_zp d = projr (DigestZp d)"

lemma le_value_inj: "length xs = length ys \<Longrightarrow> le_value xs = le_value ys \<Longrightarrow> xs = ys"
proof (induction xs ys rule: list_induct2)
  case (Cons x xs y ys)
  have b: "unat x < 256" "unat y < 256" using unsigned_less[of x, where ?'a = nat] unsigned_less[of y, where ?'a = nat] by simp_all
  have "unat x = (unat x + 256 * le_value xs) mod 256" "le_value xs = (unat x + 256 * le_value xs) div 256"
    "unat y = (unat y + 256 * le_value ys) mod 256" "le_value ys = (unat y + 256 * le_value ys) div 256"
    using b by simp_all
  with Cons.prems have "unat x = unat y" "le_value xs = le_value ys" by (metis le_value.simps(2))+
  with Cons.IH show ?case by (simp add: word_unat_eq_iff)
qed simp

lemma DigestZp_md5:
  assumes "md5_digest d"
  shows "DigestZp d = Inr (digest_zp d)" "felem P_SKS (digest_zp d)" "d \<noteq> []"
proof -
  obtain bs where bs: "length bs = 16" "d = hex_EncodeToString bs" using assms by (auto simp: md5_digest_def)
  show "DigestZp d = Inr (digest_zp d)" "felem P_SKS (digest_zp d)"
    by (simp_all add: digest_zp_def bs(2) DigestZp_Encode)
  show "d \<noteq> []" using bs by (cases bs) (auto simp: hex_EncodeToString_def)
qed

lemma digest_zp_inj: "inj_on digest_zp {d. md5_digest d}"
proof (rule inj_onI)
  fix c d assume cd: "c \<in> {d. md5_digest d}" "d \<in> {d. md5_digest d}" "digest_zp c = digest_zp d"
  obtain bs bs' where bs: "length bs = 16" "c = hex_EncodeToString bs" "length bs' = 16" "d = hex_EncodeToString bs'"
    using cd(1,2) by (auto simp: md5_digest_def)
  have "int (le_value b) < P_SKS" if "length b = 16" for b
  proof -
    have "le_value b < 256 ^ 16" using le_value_bound[of b] that by simp
    then show ?thesis by (simp add: P_SKS_def)
  qed
  then have "zp_i (digest_zp c) = int (le_value bs)" "zp_i (digest_zp d) = int (le_value bs')"
    using bs by (simp_all add: digest_zp_def DigestZp_Encode zmk_def)
  then show "c = d" using cd(3) bs le_value_inj by (metis of_nat_eq_iff)
qed

lemma each_digest_run: "\<forall>d \<in> set ds. md5_digest d \<Longrightarrow> each_digest op ds p = (fold (\<lambda>d. op [digest_zp d]) ds p, Inr ())"
  by (induction ds arbitrary: p) (simp_all add: DigestZp_md5)

lemma fold_insert_remove:
  "fold (\<lambda>d. peer_Insert [f d]) ds p = peer_Insert (map f ds) p" "fold (\<lambda>d. peer_Remove [f d]) ds p = peer_Remove (map f ds) p"
  by (induction ds arbitrary: p) (simp_all add: peer_Insert_def peer_Remove_def)

lemma updateDigests_peer:
  assumes "\<forall>d \<in> set (InsertDigests kc) \<union> set (RemoveDigests kc). md5_digest d"
  shows "sp_peer (fst (updateDigests t kc r))
    = peer_Remove (map digest_zp (RemoveDigests kc)) (peer_Insert (map digest_zp (InsertDigests kc)) (sp_peer r))"
  using assms by (simp add: updateDigests_def Let_def each_digest_run fold_insert_remove)

text \<open>A tree that holds the elements of a set of digests.\<close>

definition mirrors :: "mtree \<Rightarrow> gostring set \<Rightarrow> bool" where
  "mirrors t D \<longleftrightarrow> mtree_wf t \<and> (\<forall>d \<in> D. md5_digest d) \<and> mtree_elems t = digest_zp ` D"

text \<open>A change that inserts nothing it removes, removes only what is held, and inserts no sample point.\<close>

definition regular :: "zp list \<Rightarrow> gostring set \<Rightarrow> KeyChange \<Rightarrow> bool" where
  "regular points D kc \<longleftrightarrow> (\<forall>d \<in> set (InsertDigests kc). md5_digest d \<and> digest_zp d \<notin> set points)
     \<and> set (RemoveDigests kc) \<subseteq> D \<and> distinct (RemoveDigests kc) \<and> set (InsertDigests kc) \<inter> set (RemoveDigests kc) = {}"

lemma flush_change:
  assumes m: "mirrors (pe_tree (sp_peer r)) D" and kc: "regular (mt_points (pe_tree (sp_peer r))) D kc"
    and empty: "pe_insertElements (sp_peer r) = []" "pe_removeElements (sp_peer r) = []"
  shows "\<exists>p. flush mem_Insert mem_Remove (sp_peer (fst (updateDigests t kc r))) = Inr p \<and> mirrors (pe_tree p) (announced kc D)
    \<and> set (mt_points (pe_tree p)) = set (mt_points (pe_tree (sp_peer r))) \<and> pe_insertElements p = [] \<and> pe_removeElements p = []"
proof -
  let ?I = "set (InsertDigests kc)" and ?R = "set (RemoveDigests kc)" and ?t = "pe_tree (sp_peer r)"
  have D: "\<forall>d \<in> D. md5_digest d" "mtree_wf ?t" "mtree_elems ?t = digest_zp ` D" using m by (simp_all add: mirrors_def)
  have I: "\<forall>d \<in> ?I. md5_digest d \<and> digest_zp d \<notin> set (mt_points ?t)" "?R \<subseteq> D" "distinct (RemoveDigests kc)" "?I \<inter> ?R = {}"
    using kc by (simp_all add: regular_def)
  have inj: "inj_on digest_zp (D \<union> ?I)" by (rule inj_on_subset[OF digest_zp_inj]) (use D I in auto)
  let ?p = "peer_Remove (map digest_zp (RemoveDigests kc)) (peer_Insert (map digest_zp (InsertDigests kc)) (sp_peer r))"
  have p: "sp_peer (fst (updateDigests t kc r)) = ?p" by (rule updateDigests_peer) (use D I in auto)
  have q: "pe_tree ?p = ?t" "pe_insertElements ?p = map digest_zp (InsertDigests kc)" "pe_removeElements ?p = map digest_zp (RemoveDigests kc)"
    using empty by (simp_all add: peer_Insert_def peer_Remove_def)
  have sub: "?R \<subseteq> D \<union> ?I" using I(2) by blast
  have "distinct (map digest_zp (RemoveDigests kc))"
    using I(3) inj_on_subset[OF inj sub] by (simp add: distinct_map)
  moreover have "list_all (felem P_SKS) (map digest_zp (InsertDigests kc))"
    using I(1) DigestZp_md5(2) by (auto simp: list_all_iff)
  moreover have "digest_zp ` ?I - set (mt_points ?t) = digest_zp ` ?I" using I(1) by auto
  ultimately obtain p' where p': "flush mem_Insert mem_Remove ?p = Inr p'" "mtree_wf (pe_tree p')"
    "mtree_elems (pe_tree p') = digest_zp ` D \<union> digest_zp ` ?I - digest_zp ` ?R" "set (mt_points (pe_tree p')) = set (mt_points ?t)"
    using mt.flush_batch[of ?p, unfolded q] D(2,3) image_mono[OF sub, of digest_zp] by (auto simp: image_Un)
  have "digest_zp ` D \<union> digest_zp ` ?I - digest_zp ` ?R = digest_zp ` (D \<union> ?I - ?R)"
    using inj_on_image_set_diff[OF inj, of "D \<union> ?I" ?R] sub by (simp add: image_Un)
  also have "D \<union> ?I - ?R = announced kc D"
    using I(1,4) D(1) DigestZp_md5(3) by (auto simp: announced_def)
  finally have "mirrors (pe_tree p') (announced kc D)"
    using p'(2,3) I(1) D(1) by (auto simp: mirrors_def announced_def)
  moreover have "pe_insertElements p' = []" "pe_removeElements p' = []"
    using p'(1) by (auto simp: flush_def rbind_Inr_iff)
  ultimately show ?thesis using p p'(1,4) by metis
qed

text \<open>A digest that a change both inserts and removes is gone afterwards.\<close>

lemma flush_same_digest:
  assumes "mirrors (pe_tree (sp_peer r)) D" "md5_digest d" "d \<in> D"
    and "pe_insertElements (sp_peer r) = []" "pe_removeElements (sp_peer r) = []"
  shows "\<exists>p. flush mem_Insert mem_Remove (sp_peer (fst (updateDigests t (KeyReplaced i d j d) r))) = Inr p
    \<and> digest_zp d \<notin> mtree_elems (pe_tree p)"
proof -
  let ?t = "pe_tree (sp_peer r)" and ?p = "peer_Remove [digest_zp d] (peer_Insert [digest_zp d] (sp_peer r))"
  have p: "sp_peer (fst (updateDigests t (KeyReplaced i d j d) r)) = ?p"
    using updateDigests_peer[of "KeyReplaced i d j d"] assms(2) by simp
  have q: "pe_tree ?p = ?t" "pe_insertElements ?p = [digest_zp d]" "pe_removeElements ?p = [digest_zp d]"
    using assms(4,5) by (simp_all add: peer_Insert_def peer_Remove_def)
  have "mtree_wf ?t" "digest_zp d \<in> mtree_elems ?t" using assms(1,3) by (auto simp: mirrors_def)
  then show ?thesis
    using mt.flush_batch[of ?p, unfolded q] DigestZp_md5(2)[OF assms(2)] by (auto simp: p)
qed

end
