(* ===== verification/SampleTrees.thy ===== *)
theory SampleTrees
  imports PTreeSpec
begin

text \<open>Small prefix trees, on which the witnesses run.\<close>

text \<open>A tree before \<open>Init\<close>, and what \<open>Init\<close> makes of it.\<close>

definition blank_tree :: mtree where
  "blank_tree = \<lparr>mt_cfg = defaultPTreeConfig, mt_points = [], mt_root = mem_init defaultPTreeConfig 0, mt_all = zset_empty\<rparr>"

lemma initial_tree:
  obtains t where "mem_Init blank_tree = Inr t" "mtree_wf t" "mtree_elems t = {}" "mt_cfg t = defaultPTreeConfig"
    "mt_points t = map (zmk P_SKS) [0, -1, 1, -2, 2, -3]"
proof -
  obtain t where t: "mem_Init blank_tree = Inr t" "mtree_wf t" "mtree_elems t = {}" "mt_cfg t = defaultPTreeConfig"
    using mem_Init_ok[of blank_tree] by metis
  have "Zpoints P_SKS (NumSamples defaultPTreeConfig) = Inr (map (zmk P_SKS) [0, -1, 1, -2, 2, -3])"
    by (simp add: Zpoints_def NumSamples_def defaultPTreeConfig_def Zi_mk upt_rec)
  then have "mt_points t = map (zmk P_SKS) [0, -1, 1, -2, 2, -3]"
    using t(1) by (auto simp: mem_Init_def Let_def mem_Create_def)
  with t that show thesis by blast
qed

lemma hundred_not_a_point: "zmk P_SKS 100 \<notin> set (map (zmk P_SKS) [0, -1, 1, -2, 2, -3])"
  by (simp add: zmk_eq_iff P_SKS_def)

lemma tree_with_hundred:
  obtains t t' where "mem_Init blank_tree = Inr t" "mem_Insert (zmk P_SKS 100) t = Inr t'" "mtree_wf t'"
    "mtree_elems t' = {zmk P_SKS 100}" "mt_cfg t' = defaultPTreeConfig" "mt_points t' = map (zmk P_SKS) [0, -1, 1, -2, 2, -3]"
proof -
  obtain t where t: "mem_Init blank_tree = Inr t" "mtree_wf t" "mtree_elems t = {}" "mt_cfg t = defaultPTreeConfig"
    "mt_points t = map (zmk P_SKS) [0, -1, 1, -2, 2, -3]" by (rule initial_tree)
  have "\<exists>t'. mem_Insert (zmk P_SKS 100) t = Inr t' \<and> mtree_wf t' \<and> mtree_elems t' = insert (zmk P_SKS 100) (mtree_elems t)
    \<and> mt_points t' = mt_points t \<and> mt_cfg t' = mt_cfg t"
    by (rule mem_Insert_new[OF t(2)]) (use t hundred_not_a_point in \<open>simp_all only: P_SKS_pos felem_zmk empty_iff not_False_eq_True\<close>)
  with t that show thesis by auto
qed

end
