(* ===== verification/ServerProps.thy ===== *)
theory ServerProps
  imports CertProps PgStoreSpec SksSpec SampleTrees
begin

text \<open>
  The properties of the service: what the storage announces and the prefix tree makes of it, the
  exchange of keys with a partner, the search index, the log of changes and administration.
\<close>

section \<open>Concrete inputs\<close>

text \<open>A database that takes every text for a search index, and the service on it.\<close>

definition demo_pg :: pgenv where
  "demo_pg = \<lparr>pg_E = demo, pg_policy = demo_policy, pg_requestQueryLimit = 100,
     pg_range = \<lambda>s. filter (\<lambda>x. x \<in> s) [lit ''a@b'', lit ''a'', lit ''b''],
     pg_TSVECTOR = Inr, pg_matches = \<lambda>_ _. Inr True, pg_rank = \<lambda>_. 0\<rparr>"

definition empty_pg :: pgst where
  "empty_pg = \<lparr>ps_db = \<lparr>db_keys = [], db_subkeys = [], db_userids = [], db_pks = []\<rparr>, ps_notified = [], ps_commits = []\<rparr>"

definition demo_hkp :: hkpenv where
  "demo_hkp = \<lparr>hk_E = demo, hk_armor_Decode = \<lambda>t. Inr (Inr (drop 12 t)), hk_armor_Encode = \<lambda>b. b, hk_ReadEntity = \<lambda>_. True,
     hk_CheckSignature = \<lambda>keyring text sig. if keyring = [] then Inl (Err (ErrMsg ''unknown issuer'')) else Inr sig,
     hk_Intn = \<lambda>n. 0\<rparr>"

text \<open>A stored certificate, and one without any signature.\<close>

definition demo_cert :: PrimaryKey where
  "demo_cert = projr (demo_valid demo_packets)"

definition bare_cert :: PrimaryKey where
  "bare_cert = demo_key [hd demo_packets]"

definition store_of :: "PrimaryKey \<Rightarrow> pgst" where
  "store_of k = fst (Upsert demo_pg alone k empty_pg)"

definition demo_digest :: "byte list" where
  "demo_digest = [0, 0, 0, 2, 0, 0, 0, 1, 16, 0, 0, 0, 2, 0, 0, 0]"

lemma demo_md5: "pk_MD5 demo_cert = hex_EncodeToString demo_digest"
  by code_simp

lemma demo_hex: "hex_key demo_cert"
  by code_simp

lemma bare_hex: "hex_key bare_cert"
  by code_simp

lemma demo_digest_ok: "md5_digest (pk_MD5 demo_cert)" "pk_MD5 demo_cert \<noteq> []"
proof -
  show "md5_digest (pk_MD5 demo_cert)" unfolding md5_digest_def demo_md5
    by (rule exI[of _ demo_digest]) (simp add: demo_digest_def)
  then show "pk_MD5 demo_cert \<noteq> []" by (rule DigestZp_md5(3))
qed

lemma demo_element: "digest_zp (pk_MD5 demo_cert) = zmk P_SKS (int (le_value demo_digest))"
  by (simp add: demo_md5 digest_zp_def DigestZp_Encode)

lemma demo_element_new: "digest_zp (pk_MD5 demo_cert) \<notin> set (map (zmk P_SKS) [0, -1, 1, -2, 2, -3])"
  "digest_zp (pk_MD5 demo_cert) \<noteq> zmk P_SKS 100"
  unfolding demo_element by (simp_all add: zmk_eq_iff P_SKS_def demo_digest_def)

lemma empty_pg_ok: "st_ok empty_pg"
  by (simp add: empty_pg_def st_ok_def db_ok_def hex_rows_def)

lemma store_of_key:
  assumes "hex_key k"
  obtains row where "st_ok (store_of k)" "db_keys (ps_db (store_of k)) = [row]" "kr_rfingerprint row = Reverse (pub_Fingerprint k)"
    "kr_md5 row = pk_MD5 k" "st_digests (store_of k) = {pk_MD5 k} - {[]}"
proof -
  have "\<exists>db. Upsert demo_pg alone k empty_pg = (empty_pg\<lparr>ps_db := db, ps_notified := ps_notified empty_pg @ [KeyAdded (pub_KeyID k) (pk_MD5 k)]\<rparr>,
      Inr (KeyAdded (pub_KeyID k) (pk_MD5 k)))
    \<and> db_keys db = db_keys (ps_db empty_pg) @ [key_row demo_pg (SortKey (pg_E demo_pg) k) (fst (KeywordsTSVector demo_pg (SortKey (pg_E demo_pg) k)))]"
    by (rule Upsert_fresh[OF empty_pg_ok]) (simp_all add: demo_pg_def empty_pg_def has_key_def)
  then obtain db where u: "Upsert demo_pg alone k empty_pg = (empty_pg\<lparr>ps_db := db, ps_notified := ps_notified empty_pg @ [KeyAdded (pub_KeyID k) (pk_MD5 k)]\<rparr>,
      Inr (KeyAdded (pub_KeyID k) (pk_MD5 k)))"
    "db_keys db = [key_row demo_pg (SortKey (pg_E demo_pg) k) (fst (KeywordsTSVector demo_pg (SortKey (pg_E demo_pg) k)))]"
    by (auto simp: empty_pg_def)
  have "st_ok (store_of k)" using Upsert_goes[OF empty_pg_ok assms u(1)] by (simp add: store_of_def u(1) pg_goes_def)
  then show thesis using that u by (simp add: store_of_def digests_def)
qed

section \<open>Announcements\<close>

text \<open>
  C24. As long as every commit succeeds and no other session writes to the database, the tables keep
  their constraints (primary keys, the unique digest, foreign keys) whatever requests the server
  answers, and the changes announced meanwhile account exactly for the digests that the tables
  gained and lost, for a subscriber that removes before it inserts. The commits are those of the input
  \<open>ps_commits\<close>: the empty list lets all succeed. The code does not look at the result of some of them, so that a failed
  commit is announced all the same.
\<close>

theorem announcements_follow_tables:
  assumes "db_ok (ps_db st)" "hex_rows (ps_db st)" "ps_commits st = []"
    and "(serves K h (pg_storage V alone))\<^sup>*\<^sup>* st st'"
  shows "db_ok (ps_db st') \<and> (\<exists>new. ps_notified st' = ps_notified st @ new \<and> digests (ps_db st') = track new (digests (ps_db st)))"
  using pg.server_follows[OF assms(4)] assms(1-3) by (simp add: st_ok_def follows_def pg_storage_def)

text \<open>A commit that fails: the key is announced and not in the table.\<close>

lemma failed_commit_announced:
  assumes "ps_commits st = False # cs" "insertKeyTx V k (ps_db st) = Inr (db, False)"
  shows "\<exists>st'. Upsert V others k st = (st', Inr (KeyAdded (pub_KeyID k) (pk_MD5 k))) \<and> ps_db st' = ps_db st
    \<and> ps_notified st' = ps_notified st @ [KeyAdded (pub_KeyID k) (pk_MD5 k)]"
  using assms by (simp add: Upsert_def insertKey_def Commit_def Notify_def Let_def)

text \<open>
  C25. A prefix tree that mirrors a set of digests mirrors what an announced change makes of the set
  once it is flushed, as long as the change inserts no digest that it removes.
\<close>

theorem tree_mirrors_announcements:
  assumes "mirrors (pe_tree (sp_peer r)) D" "regular (mt_points (pe_tree (sp_peer r))) D kc"
    and "pe_insertElements (sp_peer r) = []" "pe_removeElements (sp_peer r) = []"
  shows "\<exists>p. flush mem_Insert mem_Remove (sp_peer (fst (updateDigests t kc r))) = Inr p \<and> mirrors (pe_tree p) (announced kc D)"
  using flush_change[OF assms] by blast

text \<open>A peer whose tree holds the digest of the stored certificate.\<close>

definition peer_with :: "mtree \<Rightarrow> (mtree, unit) sksPeer" where
  "peer_with t = sks_NewPeer (\<lambda>_. Inr 0) t () None None [] demo_policy"

lemma peer_with_peer [simp]: "sp_peer (peer_with t) = NewPeer t"
  by (simp add: peer_with_def sks_NewPeer_def resyncStatsTotal_def Let_def)

lemma empty_mirror:
  obtains t where "mem_Init blank_tree = Inr t" "mirrors t {}" "mt_points t = map (zmk P_SKS) [0, -1, 1, -2, 2, -3]"
proof -
  obtain t where "mem_Init blank_tree = Inr t" "mtree_wf t" "mtree_elems t = {}" "mt_points t = map (zmk P_SKS) [0, -1, 1, -2, 2, -3]"
    by (rule initial_tree)
  then show thesis by (intro that[of t]) (simp_all add: mirrors_def)
qed

lemma demo_digest_regular: "regular (map (zmk P_SKS) [0, -1, 1, -2, 2, -3]) {} (KeyAdded i (pk_MD5 demo_cert))"
  unfolding regular_def InsertDigests.simps RemoveDigests.simps using demo_element_new(1) demo_digest_ok(1) by simp

lemma demo_mirror:
  obtains t where "mirrors t {pk_MD5 demo_cert}"
proof -
  obtain t where t: "mirrors t {}" "mt_points t = map (zmk P_SKS) [0, -1, 1, -2, 2, -3]" by (rule empty_mirror)
  have "\<exists>p. flush mem_Insert mem_Remove (sp_peer (fst (updateDigests 0 (KeyAdded [] (pk_MD5 demo_cert)) (peer_with t)))) = Inr p
      \<and> mirrors (pe_tree p) (announced (KeyAdded [] (pk_MD5 demo_cert)) {})
      \<and> set (mt_points (pe_tree p)) = set (mt_points (pe_tree (sp_peer (peer_with t)))) \<and> pe_insertElements p = [] \<and> pe_removeElements p = []"
    by (rule flush_change; unfold peer_with_peer NewPeer_def peer.simps t(2)) (rule t(1) demo_digest_regular refl)+
  then obtain p :: "mtree peer" where "mirrors (pe_tree p) (announced (KeyAdded [] (pk_MD5 demo_cert)) {})" by blast
  moreover have "announced (KeyAdded [] (pk_MD5 demo_cert)) {} = {pk_MD5 demo_cert}" using demo_digest_ok(2) by (auto simp: announced_def)
  ultimately show thesis using that by simp
qed

theorem tree_mirrors_announcements_witness:
  "\<exists>t p. mem_Init blank_tree = Inr t \<and> flush mem_Insert mem_Remove (sp_peer (fst (updateDigests 0 (KeyAdded [] (pk_MD5 demo_cert)) (peer_with t)))) = Inr p
     \<and> mirrors (pe_tree p) (announced (KeyAdded [] (pk_MD5 demo_cert)) {})"
proof -
  obtain t where t: "mem_Init blank_tree = Inr t" "mirrors t {}" "mt_points t = map (zmk P_SKS) [0, -1, 1, -2, 2, -3]" by (rule empty_mirror)
  have "\<exists>p. flush mem_Insert mem_Remove (sp_peer (fst (updateDigests 0 (KeyAdded [] (pk_MD5 demo_cert)) (peer_with t)))) = Inr p
      \<and> mirrors (pe_tree p) (announced (KeyAdded [] (pk_MD5 demo_cert)) {})"
    by (rule tree_mirrors_announcements; unfold peer_with_peer NewPeer_def peer.simps t(3)) (rule t(2) demo_digest_regular refl)+
  with t(1) show ?thesis by blast
qed

text \<open>
  C26. Replacing a stored key by one with the same digest leaves the digests of the tables as they
  were, but announces that the digest was replaced by itself. The subscribed SKS peer inserts before
  it removes, so the digest is gone from its prefix tree, which no longer mirrors the tables.
\<close>

theorem replacing_by_itself_loses_digest:
  assumes "st_ok st" "hex_key k" "q \<in> set (db_keys (ps_db st))" "kr_rfingerprint q = Reverse (pub_Fingerprint k)"
    and "kr_md5 q = pk_MD5 k" "md5_digest (pk_MD5 k)" "Replace V k st = (st', Inr kc)"
    and "mirrors t (st_digests st)" "sp_peer r = NewPeer t"
  shows "st_digests st' = st_digests st \<and> ps_notified st' = ps_notified st @ [kc]
    \<and> (\<exists>p. flush mem_Insert mem_Remove (sp_peer (deliver now [kc] r)) = Inr p \<and> \<not> mirrors (pe_tree p) (st_digests st'))"
proof -
  let ?d = "pk_MD5 k"
  have ne: "?d \<noteq> []" using DigestZp_md5(3)[OF assms(6)] .
  have kc: "kc = KeyReplaced (pub_KeyID k) ?d (pub_KeyID k) ?d" "ps_notified st' = ps_notified st @ [kc]"
    using Replace_change[OF assms(1,3,4) _ assms(7)] assms(5) ne by simp_all
  have d: "?d \<in> st_digests st" using assms(3,5) ne by (force simp: digests_def)
  have "st_digests st' = track [kc] (st_digests st)"
    using Replace_goes[OF assms(1,2,7)] kc(2) by (auto simp: pg_goes_def follows_def)
  then have same: "st_digests st' = st_digests st" using d ne no_empty_digest[of "ps_db st"] by (auto simp: kc(1) announced_def)
  have "\<exists>p. flush mem_Insert mem_Remove (sp_peer (fst (updateDigests now kc r))) = Inr p \<and> digest_zp ?d \<notin> mtree_elems (pe_tree p)"
    unfolding kc(1) by (rule flush_same_digest[OF _ assms(6) d]) (use assms(8,9) in \<open>simp_all add: NewPeer_def\<close>)
  then show ?thesis using same kc(2) d by (auto simp: deliver_def mirrors_def)
qed

theorem replacing_by_itself_loses_digest_witness:
  "let st = store_of demo_cert in \<exists>t st' kc p. mirrors t (st_digests st) \<and> Replace demo_pg demo_cert st = (st', Inr kc)
     \<and> st_digests st' = st_digests st \<and> flush mem_Insert mem_Remove (sp_peer (deliver 0 [kc] (peer_with t))) = Inr p
     \<and> \<not> mirrors (pe_tree p) (st_digests st')"
proof -
  let ?st = "store_of demo_cert"
  note c = demo_hex demo_digest_ok(1)
  obtain r where st: "st_ok ?st" "db_keys (ps_db ?st) = [r]" "kr_rfingerprint r = Reverse (pub_Fingerprint demo_cert)"
    "kr_md5 r = pk_MD5 demo_cert" "st_digests ?st = {pk_MD5 demo_cert} - {[]}" by (rule store_of_key[OF c(1)])
  have D: "st_digests ?st = {pk_MD5 demo_cert}" using st(5) DigestZp_md5(3)[OF c(2)] by auto
  obtain t where t: "mirrors t {pk_MD5 demo_cert}" by (rule demo_mirror)
  obtain db x where tx: "deleteTx (pub_Fingerprint demo_cert) (ps_db ?st) = (db, x)" by fastforce
  have keys: "db_keys db = []" using tx st(2,3) by (auto simp: deleteTx_def Let_def)
  obtain db' where "insertKeyTx demo_pg demo_cert db = Inr (db', False)"
    using insertKeyTx_fresh[of demo_pg demo_cert _ db] keys by (auto simp: demo_pg_def has_key_def)
  then obtain st' kc where r: "Replace demo_pg demo_cert ?st = (st', Inr kc)"
    using tx st_okD(3)[OF st(1)] by (auto simp: Replace_def Let_def Commit_ok Notify_def)
  from replacing_by_itself_loses_digest[OF st(1) c(1) _ st(3,4) c(2) r, of t "peer_with t" 0] st(2) t D r
  show ?thesis unfolding Let_def by auto
qed

section \<open>The search index\<close>

text \<open>
  C27. The keywords that are written to the text search vector of a key are read back from it, with
  all quotes and backslashes in them.
\<close>

theorem search_index_roundtrip:
  assumes "\<forall>k \<in> set ks. k \<noteq> []" "keywordsToTSVector ks (lit '' '') = Inr tsv"
  shows "set (keywordsFromTSVector tsv) = set ks \<and> distinct (keywordsFromTSVector tsv)"
  using keywords_roundtrip[OF assms] by simp

theorem search_index_roundtrip_witness:
  "\<exists>tsv. keywordsToTSVector [[111, 39, 98], [92], [39, 39]] (lit '' '') = Inr tsv
    \<and> set (keywordsFromTSVector tsv) = {[111, 39, 98], [92], [39, 39]}"
proof -
  have "\<not> isl (keywordsToTSVector [[111, 39, 98], [92], [39, 39]] (lit '' ''))" by code_simp
  then obtain tsv where t: "keywordsToTSVector [[111, 39, 98], [92], [39, 39]] (lit '' '') = Inr tsv"
    by (cases "keywordsToTSVector [[111, 39, 98], [92], [39, 39]] (lit '' '')") auto
  from search_index_roundtrip[OF _ t] t show ?thesis by simp
qed

text \<open>
  The user ID rows of a key have distinct texts, so that they never violate the primary key of
  their table, and there is one for every user ID below the limit, redacted ones included.
\<close>

lemma user_id_rows_distinct:
  "distinct (map ud_UidString (snd (keywordsFromKey V key)))
    \<and> ud_UidString ` set (snd (keywordsFromKey V key))
      = {uid_Keywords u | u. u \<in> set (pk_UserIDs key @ pk_RedactedUserIDs key) \<and> length (uid_Keywords u) < lexemeLimit}"
  using keywordsFromKey_docs by blast

section \<open>Recovering keys from a partner\<close>

text \<open>
  C28. However a partner replies, a recovery ends after at most ten requests more than there are
  missing elements, in chunks of 1 to 100 elements. If it reports no error, the chunks are the
  missing elements in order; if it does not give up, every element was requested.
\<close>

theorem recovery_is_bounded:
  fixes st :: "('s, 't, 'c) sksState"
  assumes "requestRecovered E S L Do rcvr st = (st', chunks, res)"
    and "1 \<le> sp_requestChunkSize (snd st)" "sp_requestChunkSize (snd st) \<le> 100"
    and "\<forall>n c (s :: ('s, 't, 'c) sksState). snd (requestChunk E S (Do n) rcvr c s) \<noteq> Inl Diverge"
  shows "let items = fst (unseenRemoteElements L rcvr (snd st)) in
      res \<noteq> Inl Diverge \<and> (\<forall>c \<in> set chunks. 1 \<le> length c \<and> length c \<le> 100) \<and> length chunks \<le> length items + 10
    \<and> (res = Inr () \<longrightarrow> concat chunks = items)
    \<and> (res = Inl (Err (ErrMsg ''errors requesting chunks'')) \<longrightarrow> set items \<subseteq> set (concat chunks))
    \<and> 1 \<le> sp_requestChunkSize (snd st') \<and> sp_requestChunkSize (snd st') \<le> 100"
proof -
  obtain items r where u: "unseenRemoteElements L rcvr (snd st) = (items, r)" by fastforce
  have r: "sp_requestChunkSize r = sp_requestChunkSize (snd st)"
    using u by (auto simp: unseenRemoteElements_def split: if_splits prod.splits)
  define req :: "nat \<Rightarrow> zp list \<Rightarrow> ('s, 't, 'c) sksState \<Rightarrow> ('s, 't, 'c) sksState \<times> unit res" where "req = (\<lambda>n chunk st. case requestChunk E S (Do n) rcvr chunk st of (st, res) \<Rightarrow> (st, rbind res (\<lambda>_. Inr ())))"
  have run: "recover_loop L req (length items + maxKeyRecoveryAttempts + 1) 0 items 0 (fst st, r) = (st', chunks, res)"
    using assms(1) u by (simp add: requestRecovered_def req_def)
  have keeps: "sp_requestChunkSize (snd st') = sp_requestChunkSize (snd st) \<and> u \<noteq> Inl Diverge" if "req n c st = (st', u)" for n c st st' u
  proof -
    obtain w where w: "requestChunk E S (Do n) rcvr c st = (st', w)" "u = rbind w (\<lambda>_. Inr ())"
      using \<open>req n c st = (st', u)\<close> by (auto simp: req_def split: prod.splits)
    have "snd (requestChunk E S (Do n) rcvr c st) \<noteq> Inl Diverge" using assms(4) by blast
    with w requestChunk_size[OF w(1)] show ?thesis by (cases w) auto
  qed
  have "loop_ok items 0 chunks res \<and> size_ok (sp_requestChunkSize (snd st')) \<and> res \<noteq> Inl Diverge"
    by (rule recover_loop_ok[OF keeps run])
      (use assms(2,3) r in \<open>simp_all add: size_ok_def minRequestChunkSize_def maxRequestChunkSize_def maxKeyRecoveryAttempts_def\<close>)
  then show ?thesis
    by (simp add: u loop_ok_def size_ok_def minRequestChunkSize_def maxRequestChunkSize_def maxKeyRecoveryAttempts_def)
qed

theorem recovery_is_bounded_witness:
  "let rcvr = \<lparr>rc_RemoteElements = map (zmk P_SKS) [7, 8, 9], rc_RecoverAddr = Inr ''''\<rparr>; L = \<lparr>lru_Get = \<lambda>_ c. (False, c), lru_Add = \<lambda>_ c. c\<rparr>
   in \<exists>st' chunks res. requestRecovered demo (pg_storage demo_pg alone) L (\<lambda>_ _. Inl (Err ErrEOF)) rcvr (empty_pg, peer_with blank_tree) = (st', chunks, res)
     \<and> length chunks \<le> 13 \<and> res \<noteq> Inl Diverge"
proof -
  let ?rcvr = "\<lparr>rc_RemoteElements = map (zmk P_SKS) [7, 8, 9], rc_RecoverAddr = Inr ''''\<rparr>" and ?L = "\<lparr>lru_Get = \<lambda>_ c. (False, c), lru_Add = \<lambda>_ c. c\<rparr>"
  let ?st = "(empty_pg, peer_with blank_tree)"
  obtain st' chunks res where run: "requestRecovered demo (pg_storage demo_pg alone) ?L (\<lambda>_ _. Inl (Err ErrEOF)) ?rcvr ?st = (st', chunks, res)"
    by (metis surj_pair)
  have size: "sp_requestChunkSize (snd ?st) = 1"
    by (simp add: peer_with_def sks_NewPeer_def resyncStatsTotal_def minRequestChunkSize_def Let_def)
  have n: "length (fst (unseenRemoteElements ?L ?rcvr (snd ?st))) \<le> 3"
    by (simp add: unseenRemoteElements_def Let_def split: prod.split)
  from recovery_is_bounded[OF run] size n run show ?thesis unfolding Let_def by (fastforce simp: requestChunk_def)
qed

text \<open>
  A hashquery for elements that are digests of keys reaches the partner: the digests that its
  \<open>ParseHashQuery\<close> reads are those of the requested elements, in their order.
\<close>

lemma hashquery_reaches_partner:
  assumes "\<forall>z \<in> set chunk. felem P_SKS z \<and> zp_i z < 2 ^ 128" "distinct chunk" "length chunk < 2 ^ 32"
    and "rq_Method req = lit ''POST''" "rq_Body req = Inr (hashquery_request chunk)"
  shows "\<exists>ds. ParseHashQuery req = Inr ds \<and> map DigestZp ds = map Inr chunk"
proof -
  have d: "\<forall>z \<in> set chunk. digest_element z" using assms(1) by (simp add: digest_element_def)
  then have "map DigestZp (map element_digest chunk) = map Inr chunk" by (simp add: DigestZp_element)
  with hashquery_request_parsed[OF d assms(2-5)] show ?thesis by blast
qed

lemma hashquery_reaches_partner_witness:
  "let chunk = [zmk P_SKS 100, zmk P_SKS 5]; req = \<lparr>rq_Method = lit ''POST'', rq_ContentType = None, rq_Form = Inr (\<lambda>_. []), rq_Body = Inr (hashquery_request chunk)\<rparr>
   in \<exists>ds. ParseHashQuery req = Inr ds \<and> map DigestZp ds = map Inr chunk"
proof -
  let ?c = "[zmk P_SKS 100, zmk P_SKS 5]"
  have "\<forall>z \<in> set ?c. felem P_SKS z \<and> zp_i z < 2 ^ 128" "distinct ?c" "length ?c < 2 ^ 32"
    by (simp_all add: zmk_def P_SKS_def felem_def)
  from hashquery_reaches_partner[OF this] show ?thesis by (simp add: Let_def)
qed

text \<open>
  C29. The body of a hashquery response is read back by the requesting peer: it stores exactly the
  keys that the server wrote, each from the bytes that \<open>WritePackets\<close> made of it, in order.
\<close>

theorem hashquery_reply_is_read:
  assumes "rmap WritePackets keys = Inr bs" "\<forall>b \<in> set bs. length b < 2 ^ 32" "length keys < 2 ^ 32"
    and "rc_RecoverAddr rcvr = Inr addr" "Do (hashquery_request chunk) = Inr \<lparr>hr_StatusCode = 200, hr_Body = hashquery_body keys\<rparr>"
  shows "requestChunk E S Do rcvr chunk st = upsert_buffers E S bs no_upserts st"
  using assms by (rule requestChunk_reply)

theorem hashquery_reply_is_read_witness:
  "let rcvr = \<lparr>rc_RemoteElements = [], rc_RecoverAddr = Inr ''''\<rparr>; Do = (\<lambda>_. Inr \<lparr>hr_StatusCode = 200, hr_Body = hashquery_body [demo_cert]\<rparr>)
   in \<exists>b. WritePackets demo_cert = Inr b
     \<and> requestChunk demo (pg_storage demo_pg alone) Do rcvr [] (empty_pg, peer_with blank_tree)
       = upsert_buffers demo (pg_storage demo_pg alone) [b] no_upserts (empty_pg, peer_with blank_tree)"
proof -
  have "case WritePackets demo_cert of Inr b \<Rightarrow> length b < 100 | _ \<Rightarrow> False" by code_simp
  then obtain b where b: "WritePackets demo_cert = Inr b" "length b < 100" by (auto split: sum.splits)
  have "rmap WritePackets [demo_cert] = Inr [b]" "\<forall>x \<in> set [b]. length x < 2 ^ 32" "length [demo_cert] < 2 ^ 32"
    using b by simp_all
  from hashquery_reply_is_read[OF this, of "\<lparr>rc_RemoteElements = [], rc_RecoverAddr = Inr ''''\<rparr>" "''''"
      "\<lambda>_. Inr \<lparr>hr_StatusCode = 200, hr_Body = hashquery_body [demo_cert]\<rparr>" "[]" demo "pg_storage demo_pg alone"
      "(empty_pg, peer_with blank_tree)"] b(1)
  show ?thesis unfolding Let_def by simp
qed

section \<open>The handlers\<close>

text \<open>
  C30. A stored key that a hashquery finds without any valid self-signature is deleted and then, as
  the loop falls through to \<open>Upsert\<close>, stored again as what is left of it, under the old digest. Both
  changes are announced.
\<close>

theorem hashquery_restores_evaporated:
  assumes "st_ok st" "q \<in> set (db_keys (ps_db st))" "kr_rfingerprint q = Reverse (pub_Fingerprint key)" "kr_md5 q = pk_MD5 key"
    and "ValidSelfSigned E policy (fresh_ptr key) key False = Inl (Err ErrKeyEvaporated)"
    and "pg_TSVECTOR V (fst (KeywordsTSVector V (SortKey (pg_E V) (evaporated E key)))) = Inr tsv"
  shows "\<exists>st' result. recheck E policy (pg_storage V alone) [0] [key] st = (st', Inr result)
    \<and> (\<exists>r \<in> set (db_keys (ps_db st')). kr_rfingerprint r = Reverse (pub_Fingerprint key) \<and> kr_md5 r = pk_MD5 key
        \<and> kr_doc r = Doc (NewPrimaryKey (SortKey (pg_E V) (evaporated E key))))
    \<and> ps_notified st' = ps_notified st @ [KeyRemoved (pub_Fingerprint key) (pk_MD5 key), KeyAdded (pub_KeyID key) (pk_MD5 key)]"
  using assms by (rule recheck_evaporated)

lemma bare_evaporates: "ValidSelfSigned demo demo_policy (fresh_ptr bare_cert) bare_cert False = Inl (Err ErrKeyEvaporated)"
  by code_simp

theorem hashquery_restores_evaporated_witness:
  "let st = store_of bare_cert in \<exists>st' result. recheck demo demo_policy (pg_storage demo_pg alone) [0] [bare_cert] st = (st', Inr result)
     \<and> (\<exists>r \<in> set (db_keys (ps_db st')). kr_rfingerprint r = Reverse (pub_Fingerprint bare_cert))"
proof -
  obtain q where q: "st_ok (store_of bare_cert)" "db_keys (ps_db (store_of bare_cert)) = [q]"
    "kr_rfingerprint q = Reverse (pub_Fingerprint bare_cert)" "kr_md5 q = pk_MD5 bare_cert"
    using store_of_key[OF bare_hex] by metis
  have "q \<in> set (db_keys (ps_db (store_of bare_cert)))" using q(2) by simp
  moreover have "pg_TSVECTOR demo_pg s = Inr s" for s by (simp add: demo_pg_def)
  ultimately show ?thesis
    using hashquery_restores_evaporated[OF q(1) _ q(3,4) bare_evaporates, of demo_pg] unfolding Let_def by blast
qed

lemma prefix_pages_ends:
  "(\<And>t1. sto_ModifiedSinceToFp S t1 t2 s \<noteq> Inl Diverge) \<Longrightarrow>
    maxPrefixes + 2 \<le> n + length fps \<Longrightarrow> length fps \<le> maxPrefixes \<Longrightarrow> prefix_pages S n t1 t2 fps s \<noteq> Inl Diverge"
proof (induction n arbitrary: t1 fps)
  case (Suc n)
  show ?case
  proof (cases "sto_ModifiedSinceToFp S t1 t2 s")
    case (Inl e)
    with Suc.prems(1)[of t1] show ?thesis by simp
  next
    case (Inr x)
    then obtain new t where "sto_ModifiedSinceToFp S t1 t2 s = Inr (new, t)" by (cases x) simp
    with Suc show ?thesis by (cases new) auto
  qed
qed simp

lemma prefix_pages_length:
  "(\<And>t1 new t. sto_ModifiedSinceToFp S t1 t2 s = Inr (new, t) \<Longrightarrow> length new \<le> m) \<Longrightarrow> length fps \<le> maxPrefixes \<Longrightarrow>
    prefix_pages S n t1 t2 fps s = Inr out \<Longrightarrow> length out \<le> maxPrefixes + m"
proof (induction n arbitrary: t1 fps)
  case (Suc n)
  obtain new t where m: "sto_ModifiedSinceToFp S t1 t2 s = Inr (new, t)" using Suc.prems(3) by (auto split: sum.splits)
  have "length new \<le> m" by (rule Suc.prems(1)[OF m])
  moreover have "out = fps \<or> out = fps @ new \<or> length (fps @ new) \<le> maxPrefixes \<and> prefix_pages S n t t2 (fps @ new) s = Inr out"
    using Suc.prems(3) m by (auto split: if_splits)
  moreover have "length out \<le> maxPrefixes + m" if "length (fps @ new) \<le> maxPrefixes" "prefix_pages S n t t2 (fps @ new) s = Inr out"
    using Suc.prems(1) that by (rule Suc.IH)
  ultimately show ?case using Suc.prems(2) by auto
qed simp

lemma pg_ModifiedSinceToFp [simp]: "sto_ModifiedSinceToFp (pg_storage V others) t1 t2 st = Inr (ModifiedSinceToFp t1 t2 st)"
  by (simp add: pg_storage_def)

lemma ModifiedSinceToFp_length: "length (fst (ModifiedSinceToFp t1 t2 st)) \<le> internalQueryLimit"
  by (simp add: ModifiedSinceToFp_def order_limit_def Let_def)

text \<open>
  C31. The log of the keys changed on a day always ends, and lists at most 1,100 of them: pages are
  fetched until one is empty or there are more than a thousand.
\<close>

theorem prefix_log_bounded:
  "case PrefixLog (pg_storage V others) day st of Inr resp \<Rightarrow> length (rs_Body resp) \<le> 1100 | Inl f \<Rightarrow> f \<noteq> Diverge"
proof (cases day)
  case (Inl e)
  then show ?thesis by (simp add: PrefixLog_def httpError_def)
next
  case (Inr t)
  let ?p = "prefix_pages (pg_storage V others) (maxPrefixes + 2) t (t + 24 * hour) [] st"
  let ?line = "\<lambda>fp. if length fp < 8 then Inl (Panic PIndex) else Inr (take 8 fp @ [13, 10] :: gostring)"
  have e: "?p \<noteq> Inl Diverge" by (rule prefix_pages_ends) simp_all
  have l: "length fps \<le> 1100" if "?p = Inr fps" for fps
    using prefix_pages_length[OF _ _ that, of internalQueryLimit] ModifiedSinceToFp_length
    by (simp add: maxPrefixes_def internalQueryLimit_def) (metis fst_conv)
  have r: "rmap ?line fps \<noteq> Inl Diverge" for fps :: "gostring list"
    by (induction fps) (auto simp: rbind_def split: sum.splits)
  show ?thesis
  proof (cases ?p)
    case (Inl f)
    with e Inr show ?thesis by (cases f) (simp_all add: PrefixLog_def httpError_def)
  next
    case p: (Inr fps)
    show ?thesis
    proof (cases "rmap ?line fps")
      case (Inl f)
      with r[of fps] Inr p show ?thesis by (simp add: PrefixLog_def)
    next
      case lines: (Inr lines)
      with l[OF p] rmap_length[OF lines] Inr p show ?thesis by (simp add: PrefixLog_def ok_with_def)
    qed
  qed
qed

lemma prefix_pages_rows:
  "prefix_pages (pg_storage V others) n t1 t2 fps st = Inr out \<Longrightarrow>
    fp \<in> set out \<Longrightarrow> fp \<in> set fps \<or> (\<exists>r \<in> set (db_keys (ps_db st)). t1 < kr_mtime r \<and> fp = Reverse (kr_rfingerprint r))"
proof (induction n arbitrary: t1 fps)
  case (Suc n)
  let ?rows = "order_limit kr_mtime (filter (\<lambda>r. t1 < kr_mtime r \<and> (t1 < t2 \<longrightarrow> kr_mtime r \<le> t2)) (db_keys (ps_db st)))"
  have sub: "set ?rows \<subseteq> {r \<in> set (db_keys (ps_db st)). t1 < kr_mtime r}"
    by (auto simp: order_limit_def dest!: in_set_takeD)
  obtain new t where m: "ModifiedSinceToFp t1 t2 st = (new, t)" by fastforce
  then have new: "new = map (\<lambda>r. Reverse (kr_rfingerprint r)) ?rows" "t = (if ?rows = [] then zeroTime else kr_mtime (last ?rows))"
    by (auto simp: ModifiedSinceToFp_def Let_def)
  have on_page: "\<exists>r \<in> set (db_keys (ps_db st)). t1 < kr_mtime r \<and> fp = Reverse (kr_rfingerprint r)" if "fp \<in> set new"
    using that sub by (auto simp: new(1))
  show ?case
  proof (cases "new = [] \<or> maxPrefixes < length (fps @ new)")
    case True
    with Suc.prems m on_page show ?thesis by (auto split: if_splits)
  next
    case False
    then have later: "prefix_pages (pg_storage V others) n t t2 (fps @ new) st = Inr out"
      using Suc.prems(1) m by auto
    have ne: "?rows \<noteq> []" using False by (auto simp: new(1))
    then have "t1 < kr_mtime (last ?rows)" using subsetD[OF sub last_in_set] by simp
    with ne have "t1 < t" by (simp add: new(2))
    have "fp \<in> set fps \<or> fp \<in> set new \<or> (\<exists>r \<in> set (db_keys (ps_db st)). t < kr_mtime r \<and> fp = Reverse (kr_rfingerprint r))"
      using Suc.IH[OF later Suc.prems(2)] by auto
    with \<open>t1 < t\<close> on_page show ?thesis by (meson less_trans)
  qed
qed simp

text \<open>
  The bookmark of a page of changes is the time of its last row, and the next page starts
  strictly after it: a key that was changed at that very time and is not on the page is missing
  from the log.
\<close>

lemma prefix_log_loses_ties:
  assumes "st_ok st" "ModifiedSinceToFp t1 t2 st = (page, t)" "page \<noteq> []"
    and "q \<in> set (db_keys (ps_db st))" "kr_mtime q = t" "Reverse (kr_rfingerprint q) \<notin> set page"
    and "prefix_pages (pg_storage V others) n t1 t2 [] st = Inr fps"
  shows "Reverse (kr_rfingerprint q) \<notin> set fps"
proof
  assume listed: "Reverse (kr_rfingerprint q) \<in> set fps"
  obtain m where n: "n = Suc m" using assms(7) by (cases n) simp_all
  have "fps = page \<or> prefix_pages (pg_storage V others) m t t2 page st = Inr fps"
    using assms(2,3,7) by (auto simp: n split: if_splits)
  then obtain r where r: "r \<in> set (db_keys (ps_db st))" "t < kr_mtime r" "Reverse (kr_rfingerprint q) = Reverse (kr_rfingerprint r)"
    using prefix_pages_rows[of V others m t t2 page st fps] listed assms(6) by blast
  have "hex_string (kr_rfingerprint q)" "hex_string (kr_rfingerprint r)"
    using st_okD(2)[OF assms(1)] assms(4) r(1) by (auto simp: hex_rows_def)
  then have "kr_rfingerprint q = kr_rfingerprint r" using r(3) by (simp add: Reverse_hex)
  then have "q = r" using db_okD(5)[OF st_okD(1)[OF assms(1)]] assms(4) r(1) unfolding distinct_map inj_on_def by blast
  with r(2) assms(5) show False by simp
qed

text \<open>A table of 101 keys that were all changed at the same time.\<close>

definition tied_row :: "nat \<Rightarrow> keyRow" where
  "tied_row i = \<lparr>kr_rfingerprint = hex_EncodeToString [of_nat i], kr_doc = EmptyDoc, kr_ctime = 5, kr_mtime = 5,
     kr_md5 = hex_EncodeToString [of_nat i], kr_keywords = [], kr_idxtime = 5, kr_vfingerprint = []\<rparr>"

definition tied_pg :: pgst where
  "tied_pg = empty_pg\<lparr>ps_db := ps_db empty_pg\<lparr>db_keys := map tied_row [0..<101]\<rparr>\<rparr>"

lemma tied_inj: "i < 256 \<Longrightarrow> j < 256 \<Longrightarrow> hex_EncodeToString [of_nat i :: byte] = hex_EncodeToString [of_nat j] \<Longrightarrow> i = j"
proof -
  assume ij: "i < 256" "j < 256" "hex_EncodeToString [of_nat i :: byte] = hex_EncodeToString [of_nat j]"
  have "Inr [of_nat i :: byte] = hex_DecodeString (hex_EncodeToString [of_nat j])" by (simp only: ij(3)[symmetric] hex_DecodeString_Encode)
  then have "(of_nat i :: byte) = of_nat j" by (simp only: hex_DecodeString_Encode sum.inject list.inject simp_thms)
  then have "unat (of_nat i :: byte) = unat (of_nat j :: byte)" by (rule arg_cong)
  then show "i = j" using ij(1,2) by (simp only: unat_of_nat_byte mod_less)
qed

lemma tied_pg_ok: "st_ok tied_pg"
proof -
  have "inj_on (\<lambda>i. hex_EncodeToString [of_nat i :: byte]) {0..<101}"
    by (rule inj_onI) (auto intro: tied_inj)
  then have "distinct (map (\<lambda>i. hex_EncodeToString [of_nat i :: byte]) [0..<101])" by (simp add: distinct_map)
  then show ?thesis
    by (simp add: st_ok_def db_ok_def hex_rows_def tied_pg_def empty_pg_def o_def tied_row_def del: upt_Suc upt_rec_numeral)
qed

lemma tied_page: "ModifiedSinceToFp 0 10 tied_pg = (map (\<lambda>i. Reverse (kr_rfingerprint (tied_row i))) [0..<100], 5)"
proof -
  have "sort_key kr_mtime (map tied_row [0..<101]) = map tied_row [0..<101]"
    by (rule sort_key_id_if_sorted) (simp add: tied_row_def o_def map_replicate_const del: upt_Suc upt_rec_numeral)
  then have "order_limit kr_mtime (map tied_row [0..<101]) = map tied_row [0..<100]"
    by (simp add: order_limit_def internalQueryLimit_def take_map del: upt_Suc upt_rec_numeral)
  moreover have "filter (\<lambda>r. (0 :: time) < kr_mtime r \<and> ((0 :: time) < 10 \<longrightarrow> kr_mtime r \<le> 10)) (map tied_row [0..<101]) = map tied_row [0..<101]"
    by (rule filter_True) (simp add: tied_row_def)
  ultimately show ?thesis
    by (simp add: ModifiedSinceToFp_def tied_pg_def o_def last_map del: upt_Suc upt_rec_numeral filter.simps) (simp add: tied_row_def)
qed

lemma prefix_log_loses_ties_witness:
  "\<exists>fps. prefix_pages (pg_storage demo_pg alone) 1002 0 10 [] tied_pg = Inr fps \<and> tied_row 100 \<in> set (db_keys (ps_db tied_pg))
    \<and> Reverse (kr_rfingerprint (tied_row 100)) \<notin> set fps"
proof -
  let ?page = "map (\<lambda>i. Reverse (kr_rfingerprint (tied_row i))) [0..<100]"
  have mem: "tied_row 100 \<in> set (db_keys (ps_db tied_pg))" by (simp add: tied_pg_def del: upt_Suc upt_rec_numeral)
  have ne: "?page \<noteq> []" by (simp del: upt_Suc upt_rec_numeral)
  have new: "Reverse (kr_rfingerprint (tied_row 100)) \<notin> set ?page"
  proof
    assume "Reverse (kr_rfingerprint (tied_row 100)) \<in> set ?page"
    then obtain i where i: "i < 100" "Reverse (kr_rfingerprint (tied_row 100)) = Reverse (kr_rfingerprint (tied_row i))"
      by (auto simp del: upt_Suc upt_rec_numeral)
    then have "hex_EncodeToString [of_nat 100 :: byte] = hex_EncodeToString [of_nat i]"
      by (simp add: Reverse_hex tied_row_def del: of_nat_numeral)
    from tied_inj[OF _ _ this] i(1) show False by simp
  qed
  have "prefix_pages (pg_storage demo_pg alone) 1002 0 10 [] tied_pg \<noteq> Inl Diverge"
    by (rule prefix_pages_ends) (simp_all add: maxPrefixes_def)
  moreover have "prefix_pages (pg_storage demo_pg alone) n t1 t2 fps0 s = Inl f \<Longrightarrow> f = Diverge" for n t1 t2 fps0 f s
    by (induction n arbitrary: t1 fps0) (auto split: prod.splits if_splits)
  ultimately obtain fps where run: "prefix_pages (pg_storage demo_pg alone) 1002 0 10 [] tied_pg = Inr fps"
    by (cases "prefix_pages (pg_storage demo_pg alone) 1002 0 10 [] tied_pg") auto
  from prefix_log_loses_ties[OF tied_pg_ok tied_page ne mem _ new run] run mem show ?thesis by (auto simp: tied_row_def)
qed

lemma with_admin_keys_signed:
  assumes "with_admin_keys K h S parsed act s = (s', resp)"
  shows "s' = s \<or> s' = fst (sto_FetchRecordsByFp S 0 True (h_adminKeys h) s) \<or> (\<exists>keytext keysig fp. parsed = Inr (keytext, keysig)
    \<and> hk_CheckSignature K (admin_keyring K (case snd (sto_FetchRecordsByFp S 0 True (h_adminKeys h) s) of Inl _ \<Rightarrow> [] | Inr rs \<Rightarrow> rs))
        keytext keysig = Inr fp)"
proof (cases parsed)
  case (Inl e)
  with assms show ?thesis by (simp add: with_admin_keys_def)
next
  case (Inr p)
  obtain keytext keysig s1 rs where p: "p = (keytext, keysig)" "sto_FetchRecordsByFp S 0 True (h_adminKeys h) s = (s1, rs)"
    by (metis surj_pair)
  define ring where "ring = admin_keyring K (case rs of Inl _ \<Rightarrow> [] | Inr rs \<Rightarrow> rs)"
  show ?thesis
  proof (cases "hk_CheckSignature K ring keytext keysig")
    case (Inl e)
    then have "fst (checkSignature K h S keytext keysig s) = s1" "isl (snd (checkSignature K h S keytext keysig s))"
      using p(2) by (auto simp: checkSignature_def ring_def split: sum.splits fault.splits)
    then have "s' = s1" using assms Inr p(1)
      by (cases "checkSignature K h S keytext keysig s") (auto simp: with_admin_keys_def isl_def split: fault.splits)
    with p(2) show ?thesis by simp
  next
    case fp: (Inr fp)
    then show ?thesis using Inr p by (simp add: ring_def)
  qed
qed

lemma starts_with_append: "starts_with (p @ q) s \<Longrightarrow> starts_with p s"
  unfolding starts_with_def by (metis append_eq_conv_conj append_take_drop_id append.assoc)

lemma signed_prefix: "parse_signed path r = Inr (keytext, keysig) \<Longrightarrow> starts_with (lit path) keytext"
  by (auto simp: parse_signed_def Let_def elim!: rbind_InrE split: if_splits dest: starts_with_append)

text \<open>
  C32. \<open>Replace\<close> and \<open>Delete\<close> go beyond fetching the admin keys only for a text that is signed by a
  key of the ring read from them, and the text of a signed deletion is not one of a replacement.
\<close>

theorem administration_needs_signature:
  assumes "s' \<noteq> s" "s' \<noteq> fst (sto_FetchRecordsByFp S 0 True (h_adminKeys h) s)"
    and "(parse, path) = (ParseReplace, lit ''/pks/replace'') \<and> handle_Replace K h S r s = (s', resp)
       \<or> (parse, path) = (ParseDelete, lit ''/pks/delete'') \<and> handle_Delete K h S r s = (s', resp)"
  shows "\<exists>keytext keysig fp. parse r = Inr (keytext, keysig) \<and> starts_with path keytext
    \<and> hk_CheckSignature K (admin_keyring K (case snd (sto_FetchRecordsByFp S 0 True (h_adminKeys h) s) of Inl _ \<Rightarrow> [] | Inr rs \<Rightarrow> rs))
        keytext keysig = Inr fp"
  using assms(3)
proof
  assume a: "(parse, path) = (ParseReplace, lit ''/pks/replace'') \<and> handle_Replace K h S r s = (s', resp)"
  from with_admin_keys_signed[OF conjunct2[OF a, unfolded handle_Replace_def]] assms(1,2) a
  show ?thesis by (auto simp: ParseReplace_def dest: signed_prefix)
next
  assume a: "(parse, path) = (ParseDelete, lit ''/pks/delete'') \<and> handle_Delete K h S r s = (s', resp)"
  from with_admin_keys_signed[OF conjunct2[OF a, unfolded handle_Delete_def]] assms(1,2) a
  show ?thesis by (auto simp: ParseDelete_def dest: signed_prefix)
qed

text \<open>The packets of a certificate as bytes.\<close>

definition demo_bytes :: "byte list" where
  "demo_bytes = [198, 1, 1, 205, 3, 97, 64, 98, 194, 1, 16, 206, 1, 2, 194, 1, 24]"

lemma demo_bytes_read: "okr_Read demo (NewOpaqueKeyReader []) demo_bytes = Inr [demo_packets]"
  by code_simp

lemma demo_bytes_valid:
  "case parse_all demo 0 [demo_packets] of
     Inr [k] \<Rightarrow> (let k = RemoveTrusts k in case ValidSelfSigned demo demo_policy (fresh_ptr k) k False of Inr _ \<Rightarrow> True | _ \<Rightarrow> False)
   | _ \<Rightarrow> False"
  by code_simp

text \<open>A signed replacement of a certificate that the database does not have yet.\<close>

definition demo_replacement :: http_request where
  "demo_replacement = \<lparr>rq_Method = lit ''POST'', rq_ContentType = None,
     rq_Form = Inr (\<lambda>f. if f = lit ''keytext'' then lit ''/pks/replace'' @ [10] @ demo_bytes else lit ''signature''),
     rq_Body = Inr []\<rparr>"

definition trusting_hkp :: hkpenv where
  "trusting_hkp = demo_hkp\<lparr>hk_armor_Decode := \<lambda>t. Inr (Inr (drop 13 t)), hk_CheckSignature := \<lambda>_ _ sig. Inr sig\<rparr>"

lemma demo_replacement_parsed:
  "ParseReplace demo_replacement = Inr (lit ''/pks/replace'' @ [10] @ demo_bytes, lit ''signature'')"
  by (simp add: ParseReplace_def parse_signed_def demo_replacement_def starts_with_def Let_def lit_def)

theorem administration_needs_signature_witness:
  "let h = NewHandler demo_policy []; S = pg_storage demo_pg alone in \<exists>s' resp keytext keysig fp.
     handle_Replace trusting_hkp h S demo_replacement empty_pg = (s', resp) \<and> s' \<noteq> empty_pg
     \<and> ParseReplace demo_replacement = Inr (keytext, keysig) \<and> starts_with (lit ''/pks/replace'') keytext
     \<and> hk_CheckSignature trusting_hkp [] keytext keysig = Inr fp"
proof -
  let ?h = "NewHandler demo_policy []" and ?S = "pg_storage demo_pg alone"
  define kt where "kt = lit ''/pks/replace'' @ [10] @ demo_bytes"
  obtain k0 k' where k: "parse_all demo 0 [demo_packets] = Inr [k0]"
    "ValidSelfSigned demo demo_policy (fresh_ptr (RemoveTrusts k0)) (RemoveTrusts k0) False = Inr k'"
    using demo_bytes_valid by (auto simp: Let_def split: sum.splits list.splits) (metis sum.exhaust)
  have "hk_armor_Decode trusting_hkp kt = Inr (Inr demo_bytes)"
    by (simp add: trusting_hkp_def kt_def lit_def)
  then have read: "rbind (rbind (hk_armor_Decode trusting_hkp kt) id) (kr_Read demo []) = Inr [k0]"
    using k(1) by (simp add: kr_Read_def demo_bytes_read)
  obtain st' kc where r: "Replace demo_pg k' empty_pg = (st', Inr kc)" "ps_notified st' = [kc]"
  proof -
    obtain db where "insertKeyTx demo_pg k' (ps_db empty_pg) = Inr (db, False)"
      using insertKeyTx_fresh[of demo_pg k' _ "ps_db empty_pg"] by (auto simp: demo_pg_def has_key_def empty_pg_def)
    moreover have "deleteTx (pub_Fingerprint k') (ps_db empty_pg) = (ps_db empty_pg, Inl (Err ErrKeyNotFound))"
      by (simp add: deleteTx_def empty_pg_def Let_def)
    ultimately show thesis using that by (auto simp: Replace_def Let_def Commit_ok Notify_def empty_pg_def)
  qed
  have fetch: "sto_FetchRecordsByFp ?S 0 True (h_adminKeys ?h) empty_pg = (empty_pg, Inr [])"
    by (simp add: pg_storage_def FetchRecordsByFp_def NewHandler_def)
  have check: "checkSignature trusting_hkp ?h ?S kt (lit ''signature'') empty_pg = (empty_pg, Inr (lit ''signature''))"
    by (simp add: checkSignature_def fetch trusting_hkp_def)
  have "hk_E trusting_hkp = demo" "h_keyReaderOptions ?h = []" "h_policy ?h = demo_policy"
    by (simp_all add: trusting_hkp_def demo_hkp_def NewHandler_def)
  then obtain resp where run: "handle_Replace trusting_hkp ?h ?S demo_replacement empty_pg = (st', resp)"
    using k(2) read r(1) check demo_replacement_parsed[folded kt_def]
    by (auto simp: handle_Replace_def with_admin_keys_def pg_storage_def SanitizeHKP_def)
  have ne: "st' \<noteq> empty_pg" using r(2) by (auto simp: empty_pg_def)
  with administration_needs_signature[of st' empty_pg ?S ?h ParseReplace "lit ''/pks/replace''" trusting_hkp demo_replacement resp] run fetch
  show ?thesis unfolding Let_def by (auto simp: admin_keyring_def)
qed

text \<open>A submission that stores the certificate, and the announcement of its digest.\<close>

definition demo_submission :: http_request where
  "demo_submission = \<lparr>rq_Method = lit ''POST'', rq_ContentType = Some (lit ''application/pgp''), rq_Form = Inr (\<lambda>_. []), rq_Body = Inr demo_bytes\<rparr>"

lemma demo_bytes_added:
  "case parse_all demo 0 [demo_packets] of
     Inr [k] \<Rightarrow> (case ValidSelfSigned demo demo_policy (fresh_ptr k) k False of Inr k' \<Rightarrow> pk_MD5 k' \<noteq> [] | _ \<Rightarrow> False)
   | _ \<Rightarrow> False"
  by code_simp

theorem announcements_follow_tables_witness:
  "\<exists>st' new. serves demo_hkp (NewHandler demo_policy []) (pg_storage demo_pg alone) empty_pg st' \<and> ps_notified st' = new
     \<and> digests (ps_db st') = track new {} \<and> digests (ps_db st') \<noteq> {}"
proof -
  let ?h = "NewHandler demo_policy []" and ?S = "pg_storage demo_pg alone"
  obtain k0 k where k: "parse_all demo 0 [demo_packets] = Inr [k0]"
    "ValidSelfSigned demo demo_policy (fresh_ptr k0) k0 False = Inr k" "pk_MD5 k \<noteq> []"
    using demo_bytes_added by (auto split: sum.splits list.splits)
  obtain st where u: "Upsert demo_pg alone k empty_pg = (st, Inr (KeyAdded (pub_KeyID k) (pk_MD5 k)))"
    "ps_notified st = [KeyAdded (pub_KeyID k) (pk_MD5 k)]"
    using Upsert_fresh[OF empty_pg_ok, where V = demo_pg and k = k and others = alone] by (auto simp: demo_pg_def empty_pg_def has_key_def)
  have E: "hk_E demo_hkp = demo" "h_keyReaderOptions ?h = []" "h_policy ?h = demo_policy" by (simp_all add: demo_hkp_def NewHandler_def)
  have "rbind (rq_Body demo_submission) (kr_Read demo []) = Inr [k0]"
    using k(1) by (simp add: demo_submission_def kr_Read_def demo_bytes_read)
  then obtain resp where "handle_Add demo_hkp ?h ?S demo_submission empty_pg = (st, Inr resp)"
    using k(2) u(1) by (simp add: handle_Add_def ParseAdd_def E pg_storage_def demo_submission_def)
  then have s: "serves demo_hkp ?h ?S empty_pg st" by (rule serve_Add)
  have e: "db_ok (ps_db empty_pg)" "hex_rows (ps_db empty_pg)" "ps_commits empty_pg = []" "ps_notified empty_pg = []" "digests (ps_db empty_pg) = {}"
    using empty_pg_ok by (simp_all add: st_ok_def digests_def) (simp_all add: empty_pg_def)
  from s have "(serves demo_hkp ?h ?S)\<^sup>*\<^sup>* empty_pg st" by (rule r_into_rtranclp)
  from announcements_follow_tables[OF e(1-3) this] have "digests (ps_db st) = track (ps_notified st) {}"
    by (simp add: e(4,5))
  moreover have "track (ps_notified st) {} \<noteq> {}" using k(3) by (simp add: u(2) announced_def)
  ultimately show ?thesis using s by blast
qed

end
