(* ===== verification/BulkSql.thy ===== *)
theory BulkSql
  imports PgStore
begin

text \<open>
  The statements of the bulk operations, \<open>pghkp/bulk_sql.go\<close>. A bulk session has temporary tables
  of its own: \<open>_copyin\<close> tables take what the client sends, \<open>_checked\<close> tables what passed the
  checks, and \<open>keys_old\<close> the keys that a reload read. A statement is a function on the temporary
  tables and those of the database that fails where it violates a constraint.

  The position of a row in its list stands for its \<open>ctid\<close>; a window without \<open>ORDER BY\<close> numbers the
  rows in table order. No column the client sends is NULL, so the tests for NULL are left out.
\<close>

section \<open>Temporary tables\<close>

record pgtemp =
  keys_copyin :: "keyRow list"
  subkeys_copyin :: "subkeyRow list"
  userids_copyin :: "useridRow list"
  keys_checked :: "keyRow list"
  subkeys_checked :: "subkeyRow list"
  userids_checked :: "useridRow list"
  keys_old :: "gostring list"

definition crTempTables :: pgtemp where
  "crTempTables = \<lparr>keys_copyin = [], subkeys_copyin = [], userids_copyin = [],
     keys_checked = [], subkeys_checked = [], userids_checked = [], keys_old = []\<rparr>"

type_synonym job = "pgtemp \<times> pgdb \<Rightarrow> (pgtemp \<times> pgdb) res"

text \<open>\<open>ROW_NUMBER() OVER (PARTITION BY f ORDER BY ctid) = 1\<close>, and the rows whose \<open>ctid\<close> satisfies a condition.\<close>

definition rowNumber1 :: "('a \<Rightarrow> 'b) \<Rightarrow> 'a list \<Rightarrow> nat \<Rightarrow> bool" where
  "rowNumber1 f rows ctid = (f (rows ! ctid) \<notin> f ` set (take ctid rows))"

definition rows_where :: "(nat \<Rightarrow> 'a \<Rightarrow> bool) \<Rightarrow> 'a list \<Rightarrow> 'a list" where
  "rows_where P rows = map ((!) rows) (filter (\<lambda>ctid. P ctid (rows ! ctid)) [0..<length rows])"

text \<open>The keys of the rows of a table.\<close>

abbreviation key_rfps :: "keyRow list \<Rightarrow> gostring set" where
  "key_rfps rows \<equiv> kr_rfingerprint ` set rows"

abbreviation key_md5s :: "keyRow list \<Rightarrow> gostring set" where
  "key_md5s rows \<equiv> kr_md5 ` set rows"

text \<open>Inserting rows into the checked tables, whose keys are unique.\<close>

definition insert_keys_checked :: "keyRow list \<Rightarrow> job" where
  "insert_keys_checked new = (\<lambda>(tmp, db). let rows = keys_checked tmp @ new in
     if distinct (map kr_rfingerprint rows) \<and> distinct (map kr_md5 rows) \<and> distinct (map kr_vfingerprint rows)
     then Inr (tmp\<lparr>keys_checked := rows\<rparr>, db) else Inl (Err ErrUnique))"

definition insert_subkeys_checked :: "subkeyRow list \<Rightarrow> job" where
  "insert_subkeys_checked new = (\<lambda>(tmp, db). let rows = subkeys_checked tmp @ new in
     if distinct (map sr_rsubfp rows) \<and> distinct (map sr_vsubfp rows)
     then Inr (tmp\<lparr>subkeys_checked := rows\<rparr>, db) else Inl (Err ErrUnique))"

definition insert_userids_checked :: "useridRow list \<Rightarrow> job" where
  "insert_userids_checked new = (\<lambda>(tmp, db). let rows = userids_checked tmp @ new in
     if distinct (map userid_key rows) then Inr (tmp\<lparr>userids_checked := rows\<rparr>, db) else Inl (Err ErrUnique))"

section \<open>Checking keys\<close>

definition bulkTxFilterUniqueKeys :: job where
  "bulkTxFilterUniqueKeys = (\<lambda>(tmp, db). insert_keys_checked
     (filter (\<lambda>a. length (filter (\<lambda>b. kr_rfingerprint b = kr_rfingerprint a \<or> kr_md5 b = kr_md5 a) (keys_copyin tmp)) = 1
        \<and> \<not> (kr_rfingerprint a \<in> key_rfps (db_keys db) \<or> kr_md5 a \<in> key_md5s (db_keys db))) (keys_copyin tmp)) (tmp, db))"

definition bulkTxPrepKeyStats :: job where
  "bulkTxPrepKeyStats = (\<lambda>(tmp, db).
     Inr (tmp\<lparr>keys_copyin := filter (\<lambda>r. kr_rfingerprint r \<notin> key_rfps (keys_checked tmp)) (keys_copyin tmp)\<rparr>, db))"

definition bulkTxFilterDupKeys :: job where
  "bulkTxFilterDupKeys = (\<lambda>(tmp, db). insert_keys_checked
     (rows_where (\<lambda>ctid r. (rowNumber1 kr_rfingerprint (keys_copyin tmp) ctid \<or> rowNumber1 kr_md5 (keys_copyin tmp) ctid)
        \<and> \<not> (kr_rfingerprint r \<in> key_rfps (db_keys db) \<or> kr_md5 r \<in> key_md5s (db_keys db))) (keys_copyin tmp)) (tmp, db))"

section \<open>Checking subkeys and user IDs\<close>

text \<open>A row belongs to a key that was checked or that is still among those sent.\<close>

definition parent_sent :: "pgtemp \<Rightarrow> gostring \<Rightarrow> bool" where
  "parent_sent tmp rfp = (rfp \<in> key_rfps (keys_checked tmp) \<or> rfp \<in> key_rfps (keys_copyin tmp))"

definition bulkTxFilterUniqueSubkeys :: job where
  "bulkTxFilterUniqueSubkeys = (\<lambda>(tmp, db). insert_subkeys_checked
     (filter (\<lambda>a. length (filter (\<lambda>b. sr_rsubfp b = sr_rsubfp a) (subkeys_copyin tmp)) = 1
        \<and> sr_rsubfp a \<notin> sr_rsubfp ` set (db_subkeys db) \<and> parent_sent tmp (sr_rfingerprint a)) (subkeys_copyin tmp)) (tmp, db))"

definition bulkTxPrepSubkeyStats :: job where
  "bulkTxPrepSubkeyStats = (\<lambda>(tmp, db).
     Inr (tmp\<lparr>subkeys_copyin := filter (\<lambda>r. sr_rsubfp r \<notin> sr_rsubfp ` set (subkeys_checked tmp)) (subkeys_copyin tmp)\<rparr>, db))"

definition bulkTxFilterDupSubkeys :: job where
  "bulkTxFilterDupSubkeys = (\<lambda>(tmp, db). insert_subkeys_checked
     (rows_where (\<lambda>ctid r. rowNumber1 sr_rsubfp (subkeys_copyin tmp) ctid
        \<and> sr_rsubfp r \<notin> sr_rsubfp ` set (db_subkeys db) \<and> parent_sent tmp (sr_rfingerprint r)) (subkeys_copyin tmp)) (tmp, db))"

definition bulkTxFilterUniqueUserIDs :: job where
  "bulkTxFilterUniqueUserIDs = (\<lambda>(tmp, db). insert_userids_checked
     (filter (\<lambda>a. length (filter (\<lambda>b. userid_key b = userid_key a) (userids_copyin tmp)) = 1
        \<and> userid_key a \<notin> userid_key ` set (db_userids db) \<and> parent_sent tmp (ur_rfingerprint a)) (userids_copyin tmp)) (tmp, db))"

definition bulkTxPrepUserIDStats :: job where
  "bulkTxPrepUserIDStats = (\<lambda>(tmp, db).
     Inr (tmp\<lparr>userids_copyin := filter (\<lambda>r. userid_key r \<notin> userid_key ` set (userids_checked tmp)) (userids_copyin tmp)\<rparr>, db))"

text \<open>The partition is by the text of the user ID alone, not by its key.\<close>

definition bulkTxFilterDupUserIDs :: job where
  "bulkTxFilterDupUserIDs = (\<lambda>(tmp, db). insert_userids_checked
     (rows_where (\<lambda>ctid r. rowNumber1 ur_uidstring (userids_copyin tmp) ctid
        \<and> userid_key r \<notin> userid_key ` set (db_userids db) \<and> parent_sent tmp (ur_rfingerprint r)) (userids_copyin tmp)) (tmp, db))"

section \<open>Writing to the database\<close>

definition bulkTxInsertKeys :: job where
  "bulkTxInsertKeys = (\<lambda>(tmp, db). let rows = db_keys db @ keys_checked tmp in
     if distinct (map kr_rfingerprint rows) \<and> distinct (map kr_md5 rows) then Inr (tmp, db\<lparr>db_keys := rows\<rparr>)
     else Inl (Err ErrUnique))"

definition bulkTxInsertSubkeys :: job where
  "bulkTxInsertSubkeys = (\<lambda>(tmp, db). let rows = db_subkeys db @ subkeys_checked tmp in
     if \<not> distinct (map sr_rsubfp rows) then Inl (Err ErrUnique)
     else if \<exists>r \<in> set (subkeys_checked tmp). \<not> has_key (sr_rfingerprint r) db then Inl (Err ErrForeignKey)
     else Inr (tmp, db\<lparr>db_subkeys := rows\<rparr>))"

definition bulkTxInsertUserIDs :: job where
  "bulkTxInsertUserIDs = (\<lambda>(tmp, db). let rows = db_userids db @ userids_checked tmp in
     if \<not> distinct (map userid_key rows) then Inl (Err ErrUnique)
     else if \<exists>r \<in> set (userids_checked tmp). \<not> has_key (ur_rfingerprint r) db then Inl (Err ErrForeignKey)
     else Inr (tmp, db\<lparr>db_userids := rows\<rparr>))"

text \<open>Keywords are left NULL in the journal; nothing reads them there.\<close>

definition bulkTxJournalKeys :: job where
  "bulkTxJournalKeys = (\<lambda>(tmp, db). insert_keys_checked
     (map (\<lambda>r. r\<lparr>kr_doc := EmptyDoc, kr_keywords := []\<rparr>)
        (filter (\<lambda>r. kr_rfingerprint r \<in> key_rfps (keys_copyin tmp)) (db_keys db))) (tmp, db))"

text \<open>The keys that a reload read and did not send back.\<close>

definition orphaned :: "pgtemp \<Rightarrow> gostring \<Rightarrow> bool" where
  "orphaned tmp rfp = (rfp \<in> set (keys_old tmp) \<and> rfp \<notin> key_rfps (keys_copyin tmp))"

definition bulkTxClearOrphanSubkeys :: job where
  "bulkTxClearOrphanSubkeys = (\<lambda>(tmp, db).
     Inr (tmp, db\<lparr>db_subkeys := filter (\<lambda>r. \<not> orphaned tmp (sr_rfingerprint r)) (db_subkeys db)\<rparr>))"

definition bulkTxClearOrphanUserIDs :: job where
  "bulkTxClearOrphanUserIDs = (\<lambda>(tmp, db).
     Inr (tmp, db\<lparr>db_userids := filter (\<lambda>r. \<not> orphaned tmp (ur_rfingerprint r)) (db_userids db)\<rparr>))"

definition bulkTxClearKeys :: job where
  "bulkTxClearKeys = (\<lambda>(tmp, db). let db' = db\<lparr>db_keys := filter (\<lambda>r. \<not> orphaned tmp (kr_rfingerprint r)) (db_keys db)\<rparr> in
     if (\<exists>r \<in> set (db_subkeys db). \<not> has_key (sr_rfingerprint r) db') \<or> (\<exists>r \<in> set (db_userids db). \<not> has_key (ur_rfingerprint r) db')
     then Inl (Err ErrForeignKey) else Inr (tmp, db'))"

text \<open>\<open>UPDATE ... FROM\<close> takes the first of several matching rows.\<close>

definition update_from :: "keyRow list \<Rightarrow> keyRow \<Rightarrow> keyRow" where
  "update_from sent r = (case find (\<lambda>c. kr_rfingerprint c = kr_rfingerprint r) sent of
     None \<Rightarrow> r
   | Some c \<Rightarrow> r\<lparr>kr_doc := kr_doc c, kr_mtime := kr_mtime c, kr_idxtime := kr_idxtime c, kr_md5 := kr_md5 c,
       kr_keywords := kr_keywords c, kr_vfingerprint := kr_vfingerprint c\<rparr>)"

definition bulkTxUpdateKeys :: job where
  "bulkTxUpdateKeys = (\<lambda>(tmp, db). let rows = map (update_from (keys_copyin tmp)) (db_keys db) in
     if distinct (map kr_md5 rows) then Inr (tmp, db\<lparr>db_keys := rows\<rparr>) else Inl (Err ErrUnique))"

definition bulkTxClearDupSubkeys :: job where
  "bulkTxClearDupSubkeys = (\<lambda>(tmp, db). Inr (tmp, db\<lparr>db_subkeys := filter (\<lambda>r.
     \<not> (sr_rfingerprint r \<in> sr_rfingerprint ` (set (subkeys_copyin tmp) \<union> set (subkeys_checked tmp))
        \<and> sr_rsubfp r \<notin> sr_rsubfp ` set (subkeys_copyin tmp))) (db_subkeys db)\<rparr>))"

definition bulkTxClearDupUserIDs :: job where
  "bulkTxClearDupUserIDs = (\<lambda>(tmp, db). Inr (tmp, db\<lparr>db_userids := filter (\<lambda>r.
     \<not> (ur_rfingerprint r \<in> ur_rfingerprint ` (set (userids_copyin tmp) \<union> set (userids_checked tmp))
        \<and> ur_uidstring r \<notin> ur_uidstring ` set (userids_copyin tmp))) (db_userids db)\<rparr>))"

definition reindex_from :: "keyRow list \<Rightarrow> keyRow \<Rightarrow> keyRow" where
  "reindex_from sent r = (case find (\<lambda>c. kr_md5 c = kr_md5 r) sent of
     None \<Rightarrow> r
   | Some c \<Rightarrow> r\<lparr>kr_idxtime := kr_idxtime c, kr_keywords := kr_keywords c, kr_vfingerprint := kr_vfingerprint c\<rparr>)"

definition bulkTxReindexKeys :: job where
  "bulkTxReindexKeys = (\<lambda>(tmp, db). Inr (tmp, db\<lparr>db_keys := map (reindex_from (keys_copyin tmp)) (db_keys db)\<rparr>))"

definition resub_from :: "subkeyRow list \<Rightarrow> subkeyRow \<Rightarrow> subkeyRow" where
  "resub_from sent r = (case find (\<lambda>c. sr_rsubfp c = sr_rsubfp r) sent of None \<Rightarrow> r | Some c \<Rightarrow> r\<lparr>sr_vsubfp := sr_vsubfp c\<rparr>)"

definition bulkTxReindexSubkeys :: job where
  "bulkTxReindexSubkeys = (\<lambda>(tmp, db). Inr (tmp, db\<lparr>db_subkeys := map (resub_from (subkeys_copyin tmp)) (db_subkeys db)\<rparr>))"

definition reuid_from :: "useridRow list \<Rightarrow> useridRow \<Rightarrow> useridRow" where
  "reuid_from sent r = (case find (\<lambda>c. userid_key c = userid_key r) sent of
     None \<Rightarrow> r | Some c \<Rightarrow> r\<lparr>ur_identity := ur_identity c, ur_confidence := ur_confidence c\<rparr>)"

definition bulkTxReindexUserIDs :: job where
  "bulkTxReindexUserIDs = (\<lambda>(tmp, db). Inr (tmp, db\<lparr>db_userids := map (reuid_from (userids_copyin tmp)) (db_userids db)\<rparr>))"

section \<open>Statistics and announcements\<close>

text \<open>The keys that are not inserted because of another one, in the file or in the database.\<close>

definition bulkInsNumMinDups :: "pgtemp \<Rightarrow> nat" where
  "bulkInsNumMinDups tmp = length (rows_where (\<lambda>ctid r.
     (kr_rfingerprint r \<notin> key_rfps (keys_checked tmp) \<and> kr_md5 r \<notin> key_md5s (keys_checked tmp)
        \<and> rowNumber1 kr_rfingerprint (keys_copyin tmp) ctid \<or> \<not> rowNumber1 kr_rfingerprint (keys_copyin tmp) ctid)
     \<and> kr_rfingerprint r \<notin> sr_rfingerprint ` set (subkeys_checked tmp)
     \<and> kr_rfingerprint r \<notin> ur_rfingerprint ` set (userids_checked tmp)) (keys_copyin tmp))"

definition bulkDeletedKeysNum :: "pgtemp \<Rightarrow> nat" where
  "bulkDeletedKeysNum tmp = length (filter (orphaned tmp) (keys_old tmp))"

definition bulkInsQueryKeyChange :: "pgtemp \<Rightarrow> gostring list" where
  "bulkInsQueryKeyChange tmp = map kr_md5 (keys_checked tmp)"

definition bulkUpdQueryKeyAdded :: "pgtemp \<Rightarrow> gostring list" where
  "bulkUpdQueryKeyAdded tmp = filter (\<lambda>md5. md5 \<notin> key_md5s (keys_checked tmp)) (map kr_md5 (keys_copyin tmp))"

definition bulkUpdQueryKeyRemoved :: "pgtemp \<Rightarrow> gostring list" where
  "bulkUpdQueryKeyRemoved tmp = filter (\<lambda>md5. md5 \<notin> key_md5s (keys_copyin tmp)) (map kr_md5 (keys_checked tmp))"

section \<open>Emptying the tables\<close>

definition bulkTxCleanCopyin :: job where
  "bulkTxCleanCopyin = (\<lambda>(tmp, db). Inr (tmp\<lparr>keys_copyin := [], subkeys_copyin := [], userids_copyin := [], keys_old := []\<rparr>, db))"

definition bulkTxCleanCheckedKeys :: job where
  "bulkTxCleanCheckedKeys = (\<lambda>(tmp, db). Inr (tmp\<lparr>keys_checked := []\<rparr>, db))"

definition bulkTxCleanCheckedSubkeys :: job where
  "bulkTxCleanCheckedSubkeys = (\<lambda>(tmp, db). Inr (tmp\<lparr>subkeys_checked := []\<rparr>, db))"

definition bulkTxCleanCheckedUserIDs :: job where
  "bulkTxCleanCheckedUserIDs = (\<lambda>(tmp, db). Inr (tmp\<lparr>userids_checked := []\<rparr>, db))"

end
