(* ===== verification/Bulk.thy ===== *)
theory Bulk
  imports BulkSql
begin

text \<open>
  The bulk operations of the PostgreSQL storage: \<open>bulk.go\<close>, \<open>Insert\<close> of \<open>update.go\<close>, \<open>BulkNotify\<close> of
  \<open>notify.go\<close>, \<open>reload.go\<close> and \<open>reindex.go\<close>. A session is its temporary tables with the storage; the
  errors it meets are collected in an \<open>InsertError\<close>. Logging, and the counts that are only logged,
  are left out. A loop that ends when the tables hold no more rows has fuel.
\<close>

section \<open>Transactions\<close>

type_synonym bulkSession = "pgtemp \<times> pgst"

definition bulkExecSingleTx :: "job list \<Rightarrow> bulkSession \<Rightarrow> bulkSession \<times> unit res" where
  "bulkExecSingleTx jobs bs = (case bs of (tmp, st) \<Rightarrow>
     (case rfold (\<lambda>j. j) jobs (tmp, ps_db st) of
        Inl e \<Rightarrow> (bs, Inl e)
      | Inr (tmp', db) \<Rightarrow> (case Commit db st of
            (st, Inl e) \<Rightarrow> ((tmp, st), Inl e)
          | (st, Inr _) \<Rightarrow> ((tmp', st), Inr ()))))"

text \<open>The outcome of this commit is not looked at.\<close>

definition bulkInsertSendBunchTx :: "job list \<Rightarrow> bulkSession \<Rightarrow> bulkSession \<times> unit res" where
  "bulkInsertSendBunchTx jobs bs = (case bs of (tmp, st) \<Rightarrow>
     (case rfold (\<lambda>j. j) jobs (tmp, ps_db st) of
        Inl e \<Rightarrow> (bs, Inl e)
      | Inr (tmp', db) \<Rightarrow> (case Commit db st of
            (st, Inl _) \<Rightarrow> ((tmp, st), Inr ())
          | (st, Inr _) \<Rightarrow> ((tmp', st), Inr ()))))"

text \<open>A session with the errors so far, and whether the step succeeded.\<close>

type_synonym bulk = "bulkSession \<times> InsertError"

definition noErrors :: InsertError where
  "noErrors = \<lparr>ie_Duplicates = [], ie_Errors = [], ie_Warnings = []\<rparr>"

definition add_error :: "fault \<Rightarrow> InsertError \<Rightarrow> InsertError" where
  "add_error e result = result\<lparr>ie_Errors := ie_Errors result @ [e]\<rparr>"

definition report :: "(bulkSession \<Rightarrow> bulkSession \<times> unit res) \<Rightarrow> bulk \<Rightarrow> bulk \<times> bool" where
  "report f b = (case b of (bs, result) \<Rightarrow> (case f bs of
     (bs, Inl e) \<Rightarrow> ((bs, add_error e result), False)
   | (bs, Inr _) \<Rightarrow> ((bs, result), True)))"

definition and_then :: "bulk \<times> bool \<Rightarrow> (bulk \<Rightarrow> bulk \<times> bool) \<Rightarrow> bulk \<times> bool" where
  "and_then m f = (if snd m then f (fst m) else m)"

section \<open>Checking and writing\<close>

definition bulkInsertCheckKeys :: "bulk \<Rightarrow> bulk \<times> bool" where
  "bulkInsertCheckKeys = report (bulkExecSingleTx
     [bulkTxCleanCheckedKeys, bulkTxFilterUniqueKeys, bulkTxPrepKeyStats, bulkTxFilterDupKeys])"

definition bulkInsertCheckSubkeys :: "bulk \<Rightarrow> bulk \<times> bool" where
  "bulkInsertCheckSubkeys = report (bulkExecSingleTx
     [bulkTxCleanCheckedSubkeys, bulkTxFilterUniqueSubkeys, bulkTxPrepSubkeyStats, bulkTxFilterDupSubkeys])"

definition bulkInsertCheckUserIDs :: "bulk \<Rightarrow> bulk \<times> bool" where
  "bulkInsertCheckUserIDs = report (bulkExecSingleTx
     [bulkTxCleanCheckedUserIDs, bulkTxFilterUniqueUserIDs, bulkTxPrepUserIDStats, bulkTxFilterDupUserIDs])"

definition bulkInsertFromCopyinTables :: "bulk \<Rightarrow> bulk \<times> bool" where
  "bulkInsertFromCopyinTables b =
    and_then (and_then (and_then (bulkInsertCheckKeys b) bulkInsertCheckSubkeys) bulkInsertCheckUserIDs)
      (report (bulkExecSingleTx [bulkTxInsertKeys, bulkTxInsertSubkeys, bulkTxInsertUserIDs]))"

definition bulkReloadFromCopyinTables :: "bulk \<Rightarrow> bulk \<times> bool" where
  "bulkReloadFromCopyinTables b =
    and_then (and_then (bulkInsertCheckSubkeys b) bulkInsertCheckUserIDs)
      (report (bulkExecSingleTx [bulkTxCleanCheckedKeys, bulkTxJournalKeys,
         bulkTxClearDupSubkeys, bulkTxClearOrphanSubkeys, bulkTxClearDupUserIDs, bulkTxClearOrphanUserIDs,
         bulkTxClearKeys, bulkTxUpdateKeys,
         bulkTxInsertSubkeys, bulkTxReindexSubkeys, bulkTxInsertUserIDs, bulkTxReindexUserIDs]))"

text \<open>At the level of debugging the code writes the tables one by one; this is the normal level.\<close>

definition bulkReindexFromCopyinTables :: "bulk \<Rightarrow> bulk \<times> bool" where
  "bulkReindexFromCopyinTables b =
    and_then (and_then (bulkInsertCheckSubkeys b) bulkInsertCheckUserIDs)
      (report (bulkExecSingleTx [bulkTxClearDupSubkeys, bulkTxInsertSubkeys, bulkTxReindexSubkeys,
         bulkTxClearDupUserIDs, bulkTxInsertUserIDs, bulkTxReindexUserIDs, bulkTxReindexKeys]))"

section \<open>Sending rows in bunches\<close>

definition keysNumColumns :: nat where "keysNumColumns = 8"
definition subkeysNumColumns :: nat where "subkeysNumColumns = 3"
definition useridsNumColumns :: nat where "useridsNumColumns = 4"
definition keysInBunch :: nat where "keysInBunch = 64000 div keysNumColumns"
definition subkeysInBunch :: nat where "subkeysInBunch = 64000 div subkeysNumColumns"
definition uidsInBunch :: nat where "uidsInBunch = 64000 div useridsNumColumns"

text \<open>The rows to insert stand for the strings and arguments of the statements.\<close>

record sqlBunch =
  sb_keys :: "keyRow list"
  sb_subkeys :: "subkeyRow list"
  sb_uids :: "useridRow list"
  totKeyArgs :: nat
  totSubkeyArgs :: nat
  totUidArgs :: nat

definition newSqlBunch :: sqlBunch where
  "newSqlBunch = \<lparr>sb_keys = [], sb_subkeys = [], sb_uids = [], totKeyArgs = 0, totSubkeyArgs = 0, totUidArgs = 0\<rparr>"

type_synonym docs = "KeyDoc \<times> SubKeyDoc list \<times> UserIdDoc list"

definition doc_row :: "pgenv \<Rightarrow> KeyDoc \<Rightarrow> keyRow" where
  "doc_row V kd = \<lparr>kr_rfingerprint = Reverse (kd_Fingerprint kd), kr_doc = kd_Doc kd, kr_ctime = gc_now (pg_E V),
     kr_mtime = gc_now (pg_E V), kr_md5 = kd_MD5 kd, kr_keywords = kd_Keywords kd, kr_idxtime = gc_now (pg_E V),
     kr_vfingerprint = kd_VFingerprint kd\<rparr>"

definition subdoc_row :: "SubKeyDoc \<Rightarrow> subkeyRow" where
  "subdoc_row sd = \<lparr>sr_rfingerprint = Reverse (sd_Fingerprint sd), sr_rsubfp = Reverse (sd_SubKeyFp sd),
     sr_vsubfp = sd_VSubKeyFp sd\<rparr>"

definition uiddoc_row :: "UserIdDoc \<Rightarrow> useridRow" where
  "uiddoc_row ud = \<lparr>ur_rfingerprint = Reverse (ud_Fingerprint ud), ur_uidstring = ud_UidString ud,
     ur_identity = ud_Identity ud, ur_confidence = ud_Confidence ud\<rparr>"

text \<open>\<open>sqlBunch.append\<close>: None if the key does not fit.\<close>

definition bunch_append :: "pgenv \<Rightarrow> docs \<Rightarrow> sqlBunch \<Rightarrow> sqlBunch option" where
  "bunch_append V d b = (case d of (keyDoc, subKeyDocs, uidDocs) \<Rightarrow>
     let k = totKeyArgs b + keysNumColumns;
         s = totSubkeyArgs b + subkeysNumColumns * length subKeyDocs;
         u = totUidArgs b + useridsNumColumns * length uidDocs in
     if keysInBunch * keysNumColumns < k \<or> subkeysInBunch * subkeysNumColumns < s \<or> uidsInBunch * useridsNumColumns < u then None
     else Some (b\<lparr>totKeyArgs := k, totSubkeyArgs := s, totUidArgs := u, sb_keys := sb_keys b @ [doc_row V keyDoc],
       sb_subkeys := sb_subkeys b @ map subdoc_row subKeyDocs, sb_uids := sb_uids b @ map uiddoc_row uidDocs\<rparr>))"

text \<open>The cast of the keywords of a row to \<open>tsvector\<close>; an INSERT without rows is no SQL.\<close>

definition cast_row :: "pgenv \<Rightarrow> keyRow \<Rightarrow> keyRow res" where
  "cast_row V r = rbind (pg_TSVECTOR V (kr_keywords r)) (\<lambda>tsv. Inr (r\<lparr>kr_keywords := tsv\<rparr>))"

definition insert_keys_copyin :: "pgenv \<Rightarrow> keyRow list \<Rightarrow> job" where
  "insert_keys_copyin V rows = (\<lambda>(tmp, db). if rows = [] then Inl (Err (ErrMsg ''syntax error''))
     else rbind (rmap (cast_row V) rows) (\<lambda>rows. Inr (tmp\<lparr>keys_copyin := keys_copyin tmp @ rows\<rparr>, db)))"

definition insert_subkeys_copyin :: "subkeyRow list \<Rightarrow> job" where
  "insert_subkeys_copyin rows = (\<lambda>(tmp, db). Inr (tmp\<lparr>subkeys_copyin := subkeys_copyin tmp @ rows\<rparr>, db))"

definition insert_userids_copyin :: "useridRow list \<Rightarrow> job" where
  "insert_userids_copyin rows = (\<lambda>(tmp, db). Inr (tmp\<lparr>userids_copyin := userids_copyin tmp @ rows\<rparr>, db))"

definition bulkInsertSendBunch :: "pgenv \<Rightarrow> sqlBunch \<Rightarrow> bulk \<Rightarrow> bulk \<times> bool" where
  "bulkInsertSendBunch V bunch b =
    and_then (and_then (report (bulkInsertSendBunchTx [insert_keys_copyin V (sb_keys bunch)]) b)
      (if sb_subkeys bunch = [] then (\<lambda>b. (b, True))
       else report (bulkInsertSendBunchTx [insert_subkeys_copyin (sb_subkeys bunch)])))
      (if sb_uids bunch = [] then (\<lambda>b. (b, True))
       else report (bulkInsertSendBunchTx [insert_userids_copyin (sb_uids bunch)]))"

definition bulkInsertCleanCopyin :: "bulk \<Rightarrow> bulk \<times> bool" where
  "bulkInsertCleanCopyin = report (bulkExecSingleTx [bulkTxCleanCopyin])"

text \<open>The inner loop of \<open>bulkInsertDoCopy\<close>: the filled bunch and the keys that are left.\<close>

fun fill_bunch :: "pgenv \<Rightarrow> docs list \<Rightarrow> sqlBunch \<Rightarrow> sqlBunch \<times> docs list" where
  "fill_bunch V [] b = (b, [])"
| "fill_bunch V (d # ds) b = (case bunch_append V d b of None \<Rightarrow> (b, d # ds) | Some b \<Rightarrow> fill_bunch V ds b)"

lemma fill_bunch_progress:
  "fill_bunch V ds b = (b', rest) \<Longrightarrow> length rest < length ds \<or> rest = ds \<and> b' = b"
  by (induction V ds b rule: fill_bunch.induct) (auto split: option.splits)

lemma send_empty_bunch: "\<not> snd (bulkInsertSendBunch V newSqlBunch b)"
  by (simp add: bulkInsertSendBunch_def and_then_def report_def bulkInsertSendBunchTx_def insert_keys_copyin_def newSqlBunch_def
      split: prod.splits)

function copy_bunches :: "pgenv \<Rightarrow> docs list \<Rightarrow> bulk \<Rightarrow> bulk \<times> bool" where
  "copy_bunches V ds b =
    (if ds = [] then (b, True)
     else let (bunch, rest) = fill_bunch V ds newSqlBunch; (b, sent) = bulkInsertSendBunch V bunch b in
       if sent then copy_bunches V rest b else (b, False))"
  by pat_completeness auto
termination
proof (relation "measure (\<lambda>(V, ds, b). length ds)", simp)
  fix V ds b x bunch rest y b' sent
  assume *: "x = fill_bunch V ds newSqlBunch" "(bunch, rest) = x" "y = bulkInsertSendBunch V bunch b" "(b', sent) = y" "sent"
  have "bunch \<noteq> newSqlBunch"
  proof
    assume "bunch = newSqlBunch"
    with * have "snd (bulkInsertSendBunch V newSqlBunch b)" by (metis snd_conv)
    with send_empty_bunch[of V b] show False by simp
  qed
  with fill_bunch_progress[of V ds newSqlBunch bunch rest] *(1,2) have "length rest < length ds" by auto
  then show "((V, rest, b'), V, ds, b) \<in> measure (\<lambda>(V, ds, b). length ds)" by simp
qed

declare copy_bunches.simps [simp del]

definition bulkInsertDoCopy :: "pgenv \<Rightarrow> docs list \<Rightarrow> bulk \<Rightarrow> bulk \<times> bool" where
  "bulkInsertDoCopy V ds b = and_then (bulkInsertCleanCopyin b) (copy_bunches V ds)"

text \<open>\<open>bulkInsertCopyOldRfps\<close> is only called with a list that is not empty.\<close>

definition bulkInsertCopyOldRfps :: "gostring list \<Rightarrow> bulk \<Rightarrow> bulk \<times> bool" where
  "bulkInsertCopyOldRfps oldRfps = report (bulkInsertSendBunchTx [\<lambda>(tmp, db).
     let rows = keys_old tmp @ map Reverse oldRfps in
     if distinct rows then Inr (tmp\<lparr>keys_old := rows\<rparr>, db) else Inl (Err ErrUnique)])"

text \<open>The documents of a key; a certificate always has a JSON form.\<close>

definition key_docs :: "pgenv \<Rightarrow> PrimaryKey \<Rightarrow> docs" where
  "key_docs V key0 =
    (let key = SortKey (pg_E V) key0; (keywords, uids) = KeywordsTSVector V key in
     (\<lparr>kd_Fingerprint = pub_Fingerprint key, kd_VFingerprint = pub_VFingerprint key, kd_CTime = zeroTime, kd_MTime = zeroTime,
        kd_IdxTime = zeroTime, kd_MD5 = pk_MD5 key, kd_Doc = Doc (NewPrimaryKey key), kd_Keywords = keywords\<rparr>,
      map (\<lambda>sub. \<lparr>sd_Fingerprint = pub_Fingerprint key, sd_SubKeyFp = pub_Fingerprint sub, sd_VSubKeyFp = pub_VFingerprint sub\<rparr>)
        (pk_SubKeys key),
      map (\<lambda>uid. uid\<lparr>ud_Fingerprint := pub_Fingerprint key\<rparr>) uids))"

definition bulkInsertCopyKeysToServer :: "pgenv \<Rightarrow> PrimaryKey list \<Rightarrow> bulk \<Rightarrow> bulk \<times> bool" where
  "bulkInsertCopyKeysToServer V keys = bulkInsertDoCopy V (map (key_docs V) keys)"

section \<open>Inserting\<close>

definition BulkNotify :: "gostring list \<Rightarrow> gostring list \<Rightarrow> bulk \<Rightarrow> bulk" where
  "BulkNotify inserted removed b = (case b of ((tmp, st), result) \<Rightarrow> ((tmp, Notify (KeysBulkUpdated inserted removed) st), result))"

text \<open>The numbers of keys inserted and deleted.\<close>

definition bulkInsert :: "pgenv \<Rightarrow> PrimaryKey list \<Rightarrow> gostring list \<Rightarrow> bulk \<Rightarrow> bulk \<times> nat \<times> nat \<times> bool" where
  "bulkInsert V keys oldRfps b =
    (let (b, ok) = bulkInsertCopyKeysToServer V keys b in
     if \<not> ok then (b, 0, 0, False)
     else if oldRfps \<noteq> [] then
       (let (b, ok) = and_then (bulkInsertCopyOldRfps oldRfps b) bulkReloadFromCopyinTables; tmp = fst (fst b) in
        if \<not> ok then (b, 0, 0, False)
        else let (bs, result) = BulkNotify (bulkUpdQueryKeyAdded tmp) (bulkUpdQueryKeyRemoved tmp) b in
          ((bs, result\<lparr>ie_Duplicates := []\<rparr>), length (keys_copyin tmp), bulkDeletedKeysNum tmp, True))
     else
       (let (b, ok) = bulkInsertFromCopyinTables b; tmp = fst (fst b) in
        if \<not> ok then (b, 0, 0, False)
        else let (bs, result) = BulkNotify (bulkInsQueryKeyChange tmp) [] b in
          ((bs, result\<lparr>ie_Duplicates := replicate (bulkInsNumMinDups tmp) None\<rparr>), length (keys_checked tmp), 0, True)))"

text \<open>Creating and dropping the temporary tables are transactions of their own.\<close>

definition bulkCreateTempTables :: "pgst \<Rightarrow> pgst \<times> unit res" where
  "bulkCreateTempTables st = Commit (ps_db st) st"

definition bulkDropTempTables :: "pgst \<Rightarrow> pgst" where
  "bulkDropTempTables st = fst (Commit (ps_db st) st)"

definition minKeys2UseBulk :: nat where "minKeys2UseBulk = 3500"
definition maxInsertErrors :: nat where "maxInsertErrors = 100"

text \<open>One key at a time, with the numbers of keys updated and inserted; False after too many errors.\<close>

fun insert_each :: "pgenv \<Rightarrow> (nat \<Rightarrow> pgdb \<Rightarrow> pgdb) \<Rightarrow> PrimaryKey list \<Rightarrow> nat \<Rightarrow> nat \<Rightarrow> InsertError \<Rightarrow> pgst
    \<Rightarrow> pgst \<times> InsertError \<times> nat \<times> nat \<times> bool" where
  "insert_each V others [] u n result st = (st, result, u, n, True)"
| "insert_each V others (key # keys) u n result st =
    (if maxInsertErrors < length (ie_Errors result)
     then (st, add_error (Err (ErrMsg ''too many insert errors'')) result, u, n, False)
     else case Upsert V others key st of
       (st, Inl e) \<Rightarrow> insert_each V others keys u n (add_error e result) st
     | (st, Inr kc) \<Rightarrow> (case kc of
          KeyAdded _ _ \<Rightarrow> insert_each V others keys u (n + 1) result st
        | KeyReplaced _ _ _ _ \<Rightarrow> insert_each V others keys (u + 1) n result st
        | KeyNotChanged _ _ \<Rightarrow> insert_each V others keys u n (result\<lparr>ie_Duplicates := ie_Duplicates result @ [Some key]\<rparr>) st
        | _ \<Rightarrow> insert_each V others keys u n result st))"

text \<open>A failed bulk insertion has sorted the keys.\<close>

definition Insert_keys :: "pgenv \<Rightarrow> (nat \<Rightarrow> pgdb \<Rightarrow> pgdb) \<Rightarrow> PrimaryKey list \<Rightarrow> pgst \<Rightarrow> pgst \<times> nat \<times> nat \<times> InsertError option" where
  "Insert_keys V others keys st =
    (let (st, result, n, created, bulkOK) =
       (if length keys < minKeys2UseBulk then (st, noErrors, 0, False, False)
        else case bulkCreateTempTables st of
          (st, Inl e) \<Rightarrow> (st, noErrors, 0, False, False)
        | (st, Inr _) \<Rightarrow> (case bulkInsert V keys [] ((crTempTables, st), noErrors) of
            (((tmp, st), result), n, _, bulkOK) \<Rightarrow> (st, result, n, True, bulkOK)));
       (st, result, u, n, finished) =
       (if bulkOK then (st, result, 0, n, True)
        else insert_each V others (if created then map (SortKey (pg_E V)) keys else keys) 0 n result st);
       st = (if created then bulkDropTempTables st else st)
     in (st, u, n, if \<not> finished \<or> ie_Duplicates result \<noteq> [] \<or> ie_Errors result \<noteq> [] then Some result else None))"

end
