(* ===== verification/Reload.thy ===== *)
theory Reload
  imports Bulk
begin

text \<open>
  Rewriting the stored keys in bulk: \<open>reload.go\<close>, which validates every key again, oldest first, and
  \<open>reindex.go\<close>, which refreshes the derived columns. Both go through the table in steps of
  \<open>internalQueryLimit\<close> rows behind a bookmark. No other session writes meanwhile.

  The loops have fuel, the number of steps they may take; None is a loop that is still running.
\<close>

section \<open>Reading a bunch\<close>

text \<open>
  \<open>getReloadBunch\<close> returns the bookmark, the records with those of the bunch appended, the errors and
  whether the table has been read. The addresses of each bunch start anew.
\<close>

definition getReloadBunch :: "pgenv \<Rightarrow> time \<Rightarrow> Record list \<Rightarrow> InsertError \<Rightarrow> pgst \<Rightarrow> (time \<times> Record list \<times> InsertError \<times> bool) res" where
  "getReloadBunch V bookmark records result st =
    (let rfps = createdSince bookmark st in
     if rfps = [] then Inr (bookmark, records, result, True)
     else case snd (fetchRecordsByRfp V 0 False rfps st) of
       Inl (Panic p) \<Rightarrow> Inl (Panic p)
     | Inl e \<Rightarrow> Inr (bookmark, records, add_error e result, True)
     | Inr newRecords \<Rightarrow> Inr (fold max (map rec_CTime newRecords) bookmark, records @ map (fst \<circ> preen) newRecords, result, False))"

section \<open>Reloading\<close>

fun reloadIncremental :: "pgenv \<Rightarrow> Record list \<Rightarrow> nat \<Rightarrow> nat \<Rightarrow> InsertError \<Rightarrow> pgst \<Rightarrow> pgst \<times> InsertError \<times> nat \<times> nat \<times> bool" where
  "reloadIncremental V [] n d result st = (st, result, n, d, True)"
| "reloadIncremental V (record # records) n d result st =
    (if maxInsertErrors < length (ie_Errors result) then (st, result, n, d, False)
     else case rec_PrimaryKey record of
       None \<Rightarrow> (case Delete (rec_Fingerprint record) st of
            (st, Inl e) \<Rightarrow> reloadIncremental V records n (d + 1) (add_error e result) st
          | (st, Inr _) \<Rightarrow> reloadIncremental V records n (d + 1) result st)
     | Some key \<Rightarrow> (case Update V key (pub_KeyID key) (rec_MD5 record) st of
            (st, Inl e) \<Rightarrow> reloadIncremental V records n d (add_error e result) st
          | (st, Inr _) \<Rightarrow>
             if rec_MD5 record \<noteq> pk_MD5 key
             then reloadIncremental V records (n + 1) d result
               (Notify (KeyReplaced (pub_KeyID key) (rec_MD5 record) (pub_KeyID key) (pk_MD5 key)) st)
             else reloadIncremental V records (n + 1) d (result\<lparr>ie_Duplicates := ie_Duplicates result @ [Some key]\<rparr>) st))"

text \<open>
  The keys that are still valid, every fingerprint, and the records as they are left. A panic of the
  validation is one of the reload.
\<close>

fun validateRecords :: "pgenv \<Rightarrow> Record list \<Rightarrow> (PrimaryKey list \<times> gostring list \<times> Record list) res" where
  "validateRecords V [] = Inr ([], [], [])"
| "validateRecords V (record # records) =
    (case rec_PrimaryKey record of
       None \<Rightarrow> rbind (validateRecords V records) (\<lambda>(newKeys, oldKeys, rest).
         Inr (newKeys, rec_Fingerprint record # oldKeys, record # rest))
     | Some key \<Rightarrow> (case ValidSelfSigned (pg_E V) (pg_policy V) (fresh_ptr key) key False of
         Inl (Panic p) \<Rightarrow> Inl (Panic p)
       | Inl _ \<Rightarrow> rbind (validateRecords V records) (\<lambda>(newKeys, oldKeys, rest).
           Inr (newKeys, rec_Fingerprint record # oldKeys, record\<lparr>rec_PrimaryKey := None\<rparr> # rest))
       | Inr key \<Rightarrow> rbind (validateRecords V records) (\<lambda>(newKeys, oldKeys, rest).
           Inr (key # newKeys, rec_Fingerprint record # oldKeys, record\<lparr>rec_PrimaryKey := Some key\<rparr> # rest))))"

text \<open>The bulk insertion has sorted the keys that the records share with it.\<close>

definition sort_record :: "pgenv \<Rightarrow> Record \<Rightarrow> Record" where
  "sort_record V record = record\<lparr>rec_PrimaryKey := map_option (SortKey (pg_E V)) (rec_PrimaryKey record)\<rparr>"

text \<open>Storing the records read so far, in bulk or else one by one.\<close>

definition reload_batch :: "pgenv \<Rightarrow> Record list \<Rightarrow> bulk \<Rightarrow> (bulk \<times> nat \<times> nat \<times> bool) res" where
  "reload_batch V newRecords b = rbind (validateRecords V newRecords) (\<lambda>(newKeys, oldKeys, records).
     case bulkInsert V newKeys oldKeys b of
       (b, n, d, True) \<Rightarrow> Inr (b, n, d, True)
     | (((tmp, st), result), _, _, False) \<Rightarrow>
        (case reloadIncremental V (map (sort_record V) records) 0 0 result st of
           (st, result, n, d, ok) \<Rightarrow> Inr (((tmp, st), result), n, d, ok)))"

text \<open>The loop of \<open>Reload\<close>; the outcome has the totals and an error if it gave up.\<close>

fun reload_loop :: "pgenv \<Rightarrow> nat \<Rightarrow> time \<Rightarrow> Record list \<Rightarrow> nat \<Rightarrow> nat \<Rightarrow> bulk \<Rightarrow> (bulk \<times> nat \<times> nat \<times> InsertError option) res option" where
  "reload_loop V 0 bookmark newRecords totalUpdated totalDeleted b = None"
| "reload_loop V (Suc fuel) bookmark newRecords totalUpdated totalDeleted b = (case b of ((tmp, st), result) \<Rightarrow>
     (case getReloadBunch V bookmark newRecords result st of
        Inl e \<Rightarrow> Some (Inl e)
      | Inr (bookmark, newRecords, result, finished) \<Rightarrow>
         let b = ((tmp, st), result) in
         if finished \<and> newRecords \<noteq> [] \<or> keysInBunch - 100 < length newRecords
         then (case reload_batch V newRecords b of
             Inl e \<Rightarrow> Some (Inl e)
           | Inr (b, n, d, ok) \<Rightarrow>
               if \<not> ok then Some (Inr (b, totalUpdated, totalDeleted, Some (snd b)))
               else if finished then Some (Inr (b, totalUpdated + n, totalDeleted + d, None))
               else reload_loop V fuel bookmark [] (totalUpdated + n) (totalDeleted + d) b)
         else if finished then Some (Inr (b, totalUpdated, totalDeleted, None))
         else reload_loop V fuel bookmark newRecords totalUpdated totalDeleted b))"

definition Reload :: "pgenv \<Rightarrow> nat \<Rightarrow> pgst \<Rightarrow> (pgst \<times> nat \<times> nat \<times> fault option) res option" where
  "Reload V fuel st = (case bulkCreateTempTables st of
     (st, Inl e) \<Rightarrow> Some (Inr (st, 0, 0, Some e))
   | (st, Inr _) \<Rightarrow> (case reload_loop V fuel zeroTime [] 0 0 ((crTempTables, st), noErrors) of
       None \<Rightarrow> None
     | Some (Inl e) \<Rightarrow> Some (Inl e)
     | Some (Inr (((tmp, st), _), u, d, err)) \<Rightarrow>
         Some (Inr (bulkDropTempTables st, u, d, map_option (\<lambda>_. Err (ErrMsg ''insert error'')) err))))"

text \<open>\<open>EnumerateRecords\<close> that is not interrupted: the records it sends.\<close>

fun enumerate_loop :: "pgenv \<Rightarrow> nat \<Rightarrow> time \<Rightarrow> InsertError \<Rightarrow> pgst \<Rightarrow> Record list res option" where
  "enumerate_loop V 0 bookmark result st = None"
| "enumerate_loop V (Suc fuel) bookmark result st =
    (case getReloadBunch V bookmark [] result st of
       Inl e \<Rightarrow> Some (Inl e)
     | Inr (bookmark, newRecords, result, finished) \<Rightarrow>
         if finished then Some (Inr newRecords)
         else map_option (\<lambda>rest. rbind rest (\<lambda>rs. Inr (newRecords @ rs))) (enumerate_loop V fuel bookmark result st))"

definition EnumerateRecords :: "pgenv \<Rightarrow> nat \<Rightarrow> pgst \<Rightarrow> Record list res option" where
  "EnumerateRecords V fuel st = enumerate_loop V fuel zeroTime noErrors st"

section \<open>Reindexing\<close>

text \<open>The stale rows found so far are a map from digests to refreshed rows.\<close>

fun refresh_docs :: "pgenv \<Rightarrow> KeyDoc list \<Rightarrow> time \<Rightarrow> (gostring \<times> KeyDoc) list \<Rightarrow> InsertError
    \<Rightarrow> (time \<times> (gostring \<times> KeyDoc) list \<times> InsertError) res" where
  "refresh_docs V [] bookmark newKeyDocs result = Inr (bookmark, newKeyDocs, result)"
| "refresh_docs V (kd # kds) bookmark newKeyDocs result =
    (case Refresh V kd of
       Inl (Panic p) \<Rightarrow> Inl (Panic p)
     | Inl e \<Rightarrow> refresh_docs V kds (kd_MTime kd) newKeyDocs (add_error e result)
     | Inr (_, kd', changed) \<Rightarrow>
         refresh_docs V kds (kd_MTime kd) (if changed then AList.update (kd_MD5 kd') kd' newKeyDocs else newKeyDocs) result)"

definition refreshBunch :: "pgenv \<Rightarrow> time \<Rightarrow> (gostring \<times> KeyDoc) list \<Rightarrow> InsertError \<Rightarrow> pgst
    \<Rightarrow> (time \<times> (gostring \<times> KeyDoc) list \<times> InsertError \<times> nat \<times> bool) res" where
  "refreshBunch V bookmark newKeyDocs result st =
    (let keyDocs = fetchKeyDocsModifiedSince bookmark st in
     if keyDocs = [] then Inr (bookmark, newKeyDocs, result, 0, True)
     else rbind (refresh_docs V keyDocs bookmark newKeyDocs result) (\<lambda>(bookmark, newKeyDocs, result).
       Inr (bookmark, newKeyDocs, result, length keyDocs, False)))"

text \<open>
  \<open>kd.Refresh\<close> with its error ignored. The rows have been refreshed before, so it does not panic.
\<close>

definition reindex_docs :: "pgenv \<Rightarrow> KeyDoc \<Rightarrow> docs" where
  "reindex_docs V kd = (case Refresh V kd of
     Inl _ \<Rightarrow> (kd\<lparr>kd_Doc := EmptyDoc\<rparr>, [], [])
   | Inr ((subKeyDocs, uidDocs), kd, _) \<Rightarrow> (kd\<lparr>kd_Doc := EmptyDoc\<rparr>, subKeyDocs, uidDocs))"

text \<open>The inner loop of \<open>bulkReindexDoCopy\<close>: the key that did not fit has been pulled and is lost.\<close>

fun pull_bunch :: "pgenv \<Rightarrow> KeyDoc list \<Rightarrow> sqlBunch \<Rightarrow> sqlBunch \<times> KeyDoc list" where
  "pull_bunch V [] b = (b, [])"
| "pull_bunch V (kd # kds) b = (case bunch_append V (reindex_docs V kd) b of
     None \<Rightarrow> (b, kds)
   | Some b \<Rightarrow> pull_bunch V kds b)"

lemma pull_bunch_length: "length (snd (pull_bunch V kds b)) \<le> length kds"
  by (induction V kds b rule: pull_bunch.induct) (auto split: option.splits)

lemma pull_bunch_shrinks: "kds \<noteq> [] \<Longrightarrow> length (snd (pull_bunch V kds b)) < length kds"
proof (induction V kds b rule: pull_bunch.induct)
  case (2 V kd kds b)
  then show ?case using pull_bunch_length[of V kds] by (auto split: option.splits simp: less_Suc_eq_le)
qed simp

function reindex_bunches :: "pgenv \<Rightarrow> KeyDoc list \<Rightarrow> bulk \<Rightarrow> bulk \<times> bool" where
  "reindex_bunches V kds b =
    (if kds = [] then (b, True)
     else let (bunch, rest) = pull_bunch V kds newSqlBunch; (b, sent) = bulkInsertSendBunch V bunch b in
       if sent then reindex_bunches V rest b else (b, False))"
  by pat_completeness auto
termination
proof (relation "measure (\<lambda>(V, kds, b). length kds)", simp)
  fix V kds b x bunch rest y b' sent
  assume "kds \<noteq> []" "x = pull_bunch V kds newSqlBunch" "(bunch, rest) = x"
  then show "((V, rest, b'), V, kds, b) \<in> measure (\<lambda>(V, kds, b). length kds)"
    using pull_bunch_shrinks[of kds V newSqlBunch] by (metis case_prod_conv in_measure snd_conv)
qed

declare reindex_bunches.simps [simp del]

definition bulkReindexDoCopy :: "pgenv \<Rightarrow> KeyDoc list \<Rightarrow> bulk \<Rightarrow> bulk \<times> bool" where
  "bulkReindexDoCopy V kds b = and_then (bulkInsertCleanCopyin b) (reindex_bunches V kds)"

text \<open>The rows come in the order in which Go ranges over the map.\<close>

definition bulkReindex :: "pgenv \<Rightarrow> (gostring \<times> KeyDoc) list \<Rightarrow> bulk \<Rightarrow> bulk \<times> bool" where
  "bulkReindex V keyDocs b =
    and_then (bulkReindexDoCopy V (List.map_filter (map_of keyDocs) (pg_range V (fst ` set keyDocs))) b) bulkReindexFromCopyinTables"

definition maxTries :: nat where "maxTries = 2"

text \<open>The loop of \<open>Reindex\<close>, not stopped from outside.\<close>

fun reindex_loop :: "pgenv \<Rightarrow> nat \<Rightarrow> nat \<Rightarrow> time \<Rightarrow> time \<Rightarrow> (gostring \<times> KeyDoc) list \<Rightarrow> bulk \<Rightarrow> bulk res option" where
  "reindex_loop V 0 retry savedBookmark bookmark newKeyDocs b = None"
| "reindex_loop V (Suc fuel) retry savedBookmark bookmark newKeyDocs b = (case b of ((tmp, st), result) \<Rightarrow>
     (case refreshBunch V bookmark newKeyDocs result st of
        Inl e \<Rightarrow> Some (Inl e)
      | Inr (bookmark, newKeyDocs, result, scanned, finished) \<Rightarrow>
         let b = ((tmp, st), result) in
         if finished \<and> newKeyDocs \<noteq> [] \<or> keysInBunch - 100 < length newKeyDocs
         then let (b, bulkOK) = bulkReindex V newKeyDocs b in
           if \<not> bulkOK \<and> maxInsertErrors < length (ie_Errors (snd b)) then Some (Inr b)
           else if \<not> bulkOK \<and> retry < maxTries then reindex_loop V fuel (retry + 1) savedBookmark savedBookmark [] b
           else if finished then Some (Inr b)
           else reindex_loop V fuel 1 bookmark bookmark [] b
         else if finished then Some (Inr b)
         else reindex_loop V fuel retry savedBookmark bookmark newKeyDocs b))"

definition Reindex :: "pgenv \<Rightarrow> nat \<Rightarrow> pgst \<Rightarrow> (pgst \<times> fault option) res option" where
  "Reindex V fuel st = (case bulkCreateTempTables st of
     (st, Inl e) \<Rightarrow> Some (Inr (st, Some e))
   | (st, Inr _) \<Rightarrow> (case reindex_loop V fuel 1 zeroTime zeroTime [] ((crTempTables, st), noErrors) of
       None \<Rightarrow> None
     | Some (Inl e) \<Rightarrow> Some (Inl e)
     | Some (Inr ((tmp, st), _)) \<Rightarrow> Some (Inr (bulkDropTempTables st, None))))"

end
