(* ===== verification/BulkSpec.thy ===== *)
theory BulkSpec
  imports Bulk PgStoreSpec
begin

text \<open>
  What the bulk statements do to the tables: a bulk insertion keeps the constraints and announces
  what it inserted; the copying of keys to the server is complete and within the limits of a
  statement.
\<close>

section \<open>Transactions\<close>

lemma bulkExec_ok:
  assumes "ps_commits st = []"
  shows "bulkExecSingleTx jobs (tmp, st) = (case rfold (\<lambda>j. j) jobs (tmp, ps_db st) of
      Inl e \<Rightarrow> ((tmp, st), Inl e) | Inr (tmp', db) \<Rightarrow> ((tmp', st\<lparr>ps_db := db\<rparr>), Inr ()))"
    "bulkInsertSendBunchTx jobs (tmp, st) = (case rfold (\<lambda>j. j) jobs (tmp, ps_db st) of
      Inl e \<Rightarrow> ((tmp, st), Inl e) | Inr (tmp', db) \<Rightarrow> ((tmp', st\<lparr>ps_db := db\<rparr>), Inr ()))"
  using assms by (auto simp: bulkExecSingleTx_def bulkInsertSendBunchTx_def Commit_def split: sum.splits prod.splits)

lemma report_ok:
  assumes "ps_commits st = []"
  shows "report (bulkExecSingleTx jobs) ((tmp, st), result) = (case rfold (\<lambda>j. j) jobs (tmp, ps_db st) of
      Inl e \<Rightarrow> (((tmp, st), add_error e result), False) | Inr (tmp', db) \<Rightarrow> (((tmp', st\<lparr>ps_db := db\<rparr>), result), True))"
    "report (bulkInsertSendBunchTx jobs) ((tmp, st), result) = (case rfold (\<lambda>j. j) jobs (tmp, ps_db st) of
      Inl e \<Rightarrow> (((tmp, st), add_error e result), False) | Inr (tmp', db) \<Rightarrow> (((tmp', st\<lparr>ps_db := db\<rparr>), result), True))"
  by (auto simp: report_def bulkExec_ok[OF assms] split: sum.splits)

lemma rfold_jobs [simp]: "rfold (\<lambda>j. j) (j # js) s = rbind (j s) (rfold (\<lambda>j. j) js)"
  by (simp add: rbind_def split: sum.splits)

lemma and_then_simps [simp]:
  "and_then (b, True) f = f b" "and_then (b, False) f = (b, False)"
  by (simp_all add: and_then_def)

text \<open>An invariant of each statement is one of a transaction.\<close>

definition preserves :: "(pgtemp \<times> pgdb \<Rightarrow> bool) \<Rightarrow> job \<Rightarrow> bool" where
  "preserves P j \<longleftrightarrow> (\<forall>s s'. P s \<longrightarrow> j s = Inr s' \<longrightarrow> P s')"

lemma preserves_jobs:
  assumes "rfold (\<lambda>j. j) js s = Inr s'" "P s" "list_all (preserves P) js"
  shows "P s'"
  by (rule rfold_invI[OF assms(1), where P = P, OF assms(2)]) (use assms(3) in \<open>auto simp: list_all_iff preserves_def\<close>)

lemma insert_checked_iff:
  "insert_keys_checked new (tmp, db) = Inr s \<longleftrightarrow> s = (tmp\<lparr>keys_checked := keys_checked tmp @ new\<rparr>, db)
     \<and> distinct (map kr_rfingerprint (keys_checked tmp @ new)) \<and> distinct (map kr_md5 (keys_checked tmp @ new))
     \<and> distinct (map kr_vfingerprint (keys_checked tmp @ new))"
  "insert_subkeys_checked news (tmp, db) = Inr s \<longleftrightarrow> s = (tmp\<lparr>subkeys_checked := subkeys_checked tmp @ news\<rparr>, db)
     \<and> distinct (map sr_rsubfp (subkeys_checked tmp @ news)) \<and> distinct (map sr_vsubfp (subkeys_checked tmp @ news))"
  "insert_userids_checked newu (tmp, db) = Inr s \<longleftrightarrow> s = (tmp\<lparr>userids_checked := userids_checked tmp @ newu\<rparr>, db)
     \<and> distinct (map userid_key (userids_checked tmp @ newu))"
  unfolding insert_keys_checked_def insert_subkeys_checked_def insert_userids_checked_def Let_def by auto

lemma rows_where_subset: "set (rows_where P rows) \<subseteq> set rows"
  by (auto simp: rows_where_def)

section \<open>Checking\<close>

text \<open>The checked keys are among those sent.\<close>

definition sent_from :: "pgtemp \<Rightarrow> pgdb \<Rightarrow> pgtemp \<times> pgdb \<Rightarrow> bool" where
  "sent_from tmp db s \<longleftrightarrow> snd s = db \<and> set (keys_checked (fst s)) \<subseteq> set (keys_copyin tmp) \<and> set (keys_copyin (fst s)) \<subseteq> set (keys_copyin tmp)"

lemma preserves_sent_from:
  "preserves (sent_from tmp db) bulkTxFilterUniqueKeys" "preserves (sent_from tmp db) bulkTxPrepKeyStats"
  "preserves (sent_from tmp db) bulkTxFilterDupKeys"
  by (auto simp: preserves_def sent_from_def bulkTxFilterUniqueKeys_def bulkTxPrepKeyStats_def bulkTxFilterDupKeys_def
      insert_checked_iff dest!: subsetD[OF rows_where_subset])

lemma check_keys:
  assumes "bulkInsertCheckKeys ((tmp, st), result) = (b, ok)" "ps_commits st = []"
  obtains tmp' result' where "b = ((tmp', st), result')" "ok \<Longrightarrow> result' = result" "ok \<Longrightarrow> sent_from tmp (ps_db st) (tmp', ps_db st)"
proof (cases "rfold (\<lambda>j. j) [bulkTxCleanCheckedKeys, bulkTxFilterUniqueKeys, bulkTxPrepKeyStats, bulkTxFilterDupKeys] (tmp, ps_db st)")
  case (Inl e)
  with assms that[of tmp "add_error e result"] show ?thesis by (simp add: bulkInsertCheckKeys_def report_ok)
next
  case (Inr p)
  then have "rfold (\<lambda>j. j) [bulkTxFilterUniqueKeys, bulkTxPrepKeyStats, bulkTxFilterDupKeys] (tmp\<lparr>keys_checked := []\<rparr>, ps_db st) = Inr p"
    by (simp add: bulkTxCleanCheckedKeys_def)
  then have "sent_from tmp (ps_db st) p"
    by (rule preserves_jobs) (simp_all add: preserves_sent_from, simp add: sent_from_def)
  then obtain tmp' where "p = (tmp', ps_db st)" "sent_from tmp (ps_db st) (tmp', ps_db st)" by (cases p) (auto simp: sent_from_def)
  with assms Inr that[of tmp' result] show ?thesis by (simp add: bulkInsertCheckKeys_def report_ok)
qed

text \<open>The tables of the keys are as before.\<close>

definition same_keys :: "pgtemp \<Rightarrow> pgdb \<Rightarrow> pgtemp \<times> pgdb \<Rightarrow> bool" where
  "same_keys tmp db s \<longleftrightarrow> snd s = db \<and> keys_checked (fst s) = keys_checked tmp \<and> keys_copyin (fst s) = keys_copyin tmp
     \<and> keys_old (fst s) = keys_old tmp"

lemma preserves_same_keys:
  "preserves (same_keys tmp db) bulkTxCleanCheckedSubkeys" "preserves (same_keys tmp db) bulkTxFilterUniqueSubkeys"
  "preserves (same_keys tmp db) bulkTxPrepSubkeyStats" "preserves (same_keys tmp db) bulkTxFilterDupSubkeys"
  "preserves (same_keys tmp db) bulkTxCleanCheckedUserIDs" "preserves (same_keys tmp db) bulkTxFilterUniqueUserIDs"
  "preserves (same_keys tmp db) bulkTxPrepUserIDStats" "preserves (same_keys tmp db) bulkTxFilterDupUserIDs"
  by (auto simp: preserves_def same_keys_def bulkTxCleanCheckedSubkeys_def bulkTxFilterUniqueSubkeys_def bulkTxPrepSubkeyStats_def
      bulkTxFilterDupSubkeys_def bulkTxCleanCheckedUserIDs_def bulkTxFilterUniqueUserIDs_def bulkTxPrepUserIDStats_def
      bulkTxFilterDupUserIDs_def insert_checked_iff)

lemma report_same_keys:
  assumes "report (bulkExecSingleTx js) ((tmp, st), result) = (b, ok)" "ps_commits st = []"
    and "\<And>tmp0 db. list_all (preserves (same_keys tmp0 db)) js"
  obtains tmp' result' where "b = ((tmp', st), result')" "ok \<Longrightarrow> result' = result" "same_keys tmp (ps_db st) (tmp', ps_db st)"
proof (cases "rfold (\<lambda>j. j) js (tmp, ps_db st)")
  case (Inl e)
  with assms that[of tmp "add_error e result"] show ?thesis by (simp add: report_ok same_keys_def)
next
  case (Inr p)
  have "same_keys tmp (ps_db st) p"
    by (rule preserves_jobs[OF Inr _ assms(3)]) (simp add: same_keys_def)
  then obtain tmp' where "p = (tmp', ps_db st)" "same_keys tmp (ps_db st) (tmp', ps_db st)" by (cases p) (auto simp: same_keys_def)
  with assms Inr that[of tmp' result] show ?thesis by (simp add: report_ok)
qed

lemma check_components:
  assumes "and_then (bulkInsertCheckSubkeys ((tmp, st), result)) bulkInsertCheckUserIDs = (b, ok)" "ps_commits st = []"
  obtains tmp' result' where "b = ((tmp', st), result')" "ok \<Longrightarrow> result' = result" "same_keys tmp (ps_db st) (tmp', ps_db st)"
proof -
  obtain b1 ok1 where s: "bulkInsertCheckSubkeys ((tmp, st), result) = (b1, ok1)" by fastforce
  obtain tmp1 result1 where 1: "b1 = ((tmp1, st), result1)" "ok1 \<Longrightarrow> result1 = result" "same_keys tmp (ps_db st) (tmp1, ps_db st)"
    by (rule report_same_keys[OF s[unfolded bulkInsertCheckSubkeys_def] assms(2)]) (simp_all add: preserves_same_keys)
  show ?thesis
  proof (cases ok1)
    case False
    with assms(1) s 1 that[of tmp1 result1] show ?thesis by simp
  next
    case True
    obtain b2 ok2 where u: "bulkInsertCheckUserIDs ((tmp1, st), result) = (b2, ok2)" by fastforce
    obtain tmp2 result2 where 2: "b2 = ((tmp2, st), result2)" "ok2 \<Longrightarrow> result2 = result" "same_keys tmp1 (ps_db st) (tmp2, ps_db st)"
      by (rule report_same_keys[OF u[unfolded bulkInsertCheckUserIDs_def] assms(2)]) (simp_all add: preserves_same_keys)
    show ?thesis by (rule that[of tmp2 result2]) (use assms(1) s u 1 2 True in \<open>auto simp: same_keys_def\<close>)
  qed
qed


section \<open>Writing\<close>

lemma insert_jobs:
  assumes "rfold (\<lambda>j. j) [bulkTxInsertKeys, bulkTxInsertSubkeys, bulkTxInsertUserIDs] (tmp, db) = Inr (tmp', db')" "db_ok db"
  shows "tmp' = tmp \<and> db_ok db' \<and> db_keys db' = db_keys db @ keys_checked tmp"
proof -
  let ?db1 = "db\<lparr>db_keys := db_keys db @ keys_checked tmp\<rparr>" and ?ss = "db_subkeys db @ subkeys_checked tmp"
  let ?db2 = "?db1\<lparr>db_subkeys := ?ss\<rparr>" and ?us = "db_userids db @ userids_checked tmp"
  have k: "bulkTxInsertKeys (tmp, db) = Inr (tmp, ?db1)" "distinct (map kr_rfingerprint (db_keys ?db1))" "distinct (map kr_md5 (db_keys ?db1))"
    using assms(1) by (auto simp: bulkTxInsertKeys_def Let_def rbind_Inr_iff split: if_splits)
  have s: "bulkTxInsertSubkeys (tmp, ?db1) = Inr (tmp, ?db2)" "distinct (map sr_rsubfp ?ss)"
    "\<forall>r \<in> set (subkeys_checked tmp). has_key (sr_rfingerprint r) ?db1"
    using assms(1) unfolding rfold_jobs k(1) by (auto simp: bulkTxInsertSubkeys_def Let_def rbind_Inr_iff split: if_splits)
  have u: "bulkTxInsertUserIDs (tmp, ?db2) = Inr (tmp, ?db2\<lparr>db_userids := ?us\<rparr>)" "distinct (map userid_key ?us)"
    "\<forall>r \<in> set (userids_checked tmp). has_key (ur_rfingerprint r) ?db2"
    using assms(1) unfolding rfold_jobs k(1) rbind_simps s(1) by (auto simp: bulkTxInsertUserIDs_def Let_def rbind_Inr_iff split: if_splits)
  have "tmp' = tmp" "db' = ?db2\<lparr>db_userids := ?us\<rparr>" using assms(1) unfolding rfold_jobs k(1) rbind_simps s(1) u(1) by auto
  moreover have "db_ok (?db2\<lparr>db_userids := ?us\<rparr>)"
    using assms(2) k(2,3) s(2,3) u(2,3) by (auto simp: db_ok_def has_key_def)
  ultimately show ?thesis by simp
qed

lemma bulkInsertFromCopyin_ok:
  assumes "bulkInsertFromCopyinTables ((tmp, st), result) = (b, ok)" "ps_commits st = []" "db_ok (ps_db st)"
  obtains tmp' result' where "\<not> ok" "b = ((tmp', st), result')"
  | tmp' db where "ok" "b = ((tmp', st\<lparr>ps_db := db\<rparr>), result)" "db_ok db" "db_keys db = db_keys (ps_db st) @ keys_checked tmp'"
      "set (keys_checked tmp') \<subseteq> set (keys_copyin tmp)"
proof -
  let ?W = "report (bulkExecSingleTx [bulkTxInsertKeys, bulkTxInsertSubkeys, bulkTxInsertUserIDs])"
  obtain b1 ok1 where c: "bulkInsertCheckKeys ((tmp, st), result) = (b1, ok1)" by fastforce
  obtain tmp1 result1 where 1: "b1 = ((tmp1, st), result1)" "ok1 \<Longrightarrow> result1 = result" "ok1 \<Longrightarrow> sent_from tmp (ps_db st) (tmp1, ps_db st)"
    using check_keys[OF c assms(2)] by blast
  show ?thesis
  proof (cases ok1)
    case False
    with assms(1) c 1 that(1)[of tmp1 result1] show ?thesis by (simp add: bulkInsertFromCopyinTables_def)
  next
    case True
    obtain b2 ok2 where c2: "and_then (bulkInsertCheckSubkeys ((tmp1, st), result)) bulkInsertCheckUserIDs = (b2, ok2)" by fastforce
    obtain tmp2 result2 where 2: "b2 = ((tmp2, st), result2)" "ok2 \<Longrightarrow> result2 = result" "same_keys tmp1 (ps_db st) (tmp2, ps_db st)"
      using check_components[OF c2 assms(2)] by blast
    have w: "(b, ok) = and_then (b2, ok2) ?W"
      using assms(1) c 1 True c2 by (simp add: bulkInsertFromCopyinTables_def)
    show ?thesis
    proof (cases "ok2 \<and> (\<exists>p. rfold (\<lambda>j. j) [bulkTxInsertKeys, bulkTxInsertSubkeys, bulkTxInsertUserIDs] (tmp2, ps_db st) = Inr p)")
      case False
      with w 2 have "\<not> ok \<and> (\<exists>result'. b = ((tmp2, st), result'))"
        by (cases ok2) (auto simp: report_ok[OF assms(2)] simp del: rfold_jobs split: sum.splits)
      with that(1) show ?thesis by blast
    next
      case True
      then obtain tmp3 db where p: "rfold (\<lambda>j. j) [bulkTxInsertKeys, bulkTxInsertSubkeys, bulkTxInsertUserIDs] (tmp2, ps_db st) = Inr (tmp3, db)" "ok2"
        by fastforce
      note i = insert_jobs[OF p(1) assms(3)]
      show ?thesis
        by (rule that(2)[of tmp3 db])
          (use w 2 p i 1(3)[OF \<open>ok1\<close>] in \<open>auto simp: report_ok[OF assms(2)] same_keys_def sent_from_def simp del: rfold_jobs\<close>)
    qed
  qed
qed

section \<open>Copying keys to the server\<close>

definition docs_fit :: "pgenv \<Rightarrow> docs \<Rightarrow> bool" where
  "docs_fit V d \<longleftrightarrow> bunch_append V d newSqlBunch \<noteq> None"

definition doc_rows :: "pgenv \<Rightarrow> docs list \<Rightarrow> keyRow list" where
  "doc_rows V ds = map (\<lambda>(kd, _). doc_row V kd) ds"

definition subdoc_rows :: "docs list \<Rightarrow> subkeyRow list" where
  "subdoc_rows ds = concat (map (\<lambda>(_, sds, _). map subdoc_row sds) ds)"

definition uiddoc_rows :: "docs list \<Rightarrow> useridRow list" where
  "uiddoc_rows ds = concat (map (\<lambda>(_, _, uds). map uiddoc_row uds) ds)"

lemma doc_rows_simps [simp]:
  "doc_rows V [] = []" "subdoc_rows [] = []" "uiddoc_rows [] = []"
  "doc_rows V (xs @ ys) = doc_rows V xs @ doc_rows V ys" "subdoc_rows (xs @ ys) = subdoc_rows xs @ subdoc_rows ys"
  "uiddoc_rows (xs @ ys) = uiddoc_rows xs @ uiddoc_rows ys"
  "doc_rows V (d # ds) = doc_row V (fst d) # doc_rows V ds" "subdoc_rows (d # ds) = map subdoc_row (fst (snd d)) @ subdoc_rows ds"
  "uiddoc_rows (d # ds) = map uiddoc_row (snd (snd d)) @ uiddoc_rows ds"
  by (auto simp: doc_rows_def subdoc_rows_def uiddoc_rows_def split: prod.splits)

text \<open>What a bunch holds, and that no statement exceeds 64,000 parameters.\<close>

definition bunch_ok :: "sqlBunch \<Rightarrow> bool" where
  "bunch_ok b \<longleftrightarrow> totKeyArgs b = 8 * length (sb_keys b) \<and> totSubkeyArgs b = 3 * length (sb_subkeys b)
     \<and> totUidArgs b = 4 * length (sb_uids b) \<and> totKeyArgs b \<le> 64000 \<and> totSubkeyArgs b \<le> 64000 \<and> totUidArgs b \<le> 64000"

lemmas bunch_consts = keysInBunch_def subkeysInBunch_def uidsInBunch_def keysNumColumns_def subkeysNumColumns_def useridsNumColumns_def

lemma bunch_append_Some:
  assumes "bunch_append V d b = Some b'"
  shows "sb_keys b' = sb_keys b @ doc_rows V [d]" "sb_subkeys b' = sb_subkeys b @ subdoc_rows [d]" "sb_uids b' = sb_uids b @ uiddoc_rows [d]"
    "bunch_ok b \<Longrightarrow> bunch_ok b'"
  using assms by (auto simp: bunch_append_def Let_def bunch_ok_def bunch_consts split: prod.splits if_splits)

lemma fill_bunch_exact:
  "fill_bunch V ds b = (b', rest) \<Longrightarrow> bunch_ok b \<Longrightarrow> \<exists>pre. ds = pre @ rest \<and> bunch_ok b' \<and>
    sb_keys b' = sb_keys b @ doc_rows V pre \<and> sb_subkeys b' = sb_subkeys b @ subdoc_rows pre \<and> sb_uids b' = sb_uids b @ uiddoc_rows pre"
proof (induction V ds b rule: fill_bunch.induct)
  case (2 V d ds b)
  show ?case
  proof (cases "bunch_append V d b")
    case None
    with 2 show ?thesis by auto
  next
    case (Some b1)
    then have "fill_bunch V ds b1 = (b', rest)" "bunch_ok b1" using 2(2,3) bunch_append_Some(4) by auto
    from 2(1)[OF Some this] obtain pre where pre: "ds = pre @ rest" "bunch_ok b'" "sb_keys b' = sb_keys b1 @ doc_rows V pre"
      "sb_subkeys b' = sb_subkeys b1 @ subdoc_rows pre" "sb_uids b' = sb_uids b1 @ uiddoc_rows pre" by blast
    show ?thesis
      by (rule exI[of _ "d # pre"]) (use pre bunch_append_Some[OF Some] in simp)
  qed
qed auto

lemma bunch_ok_new: "bunch_ok newSqlBunch"
  by (simp add: bunch_ok_def newSqlBunch_def)

lemma newSqlBunch_simps [simp]: "sb_keys newSqlBunch = []" "sb_subkeys newSqlBunch = []" "sb_uids newSqlBunch = []"
  by (simp_all add: newSqlBunch_def)

definition copied :: "keyRow list \<Rightarrow> docs list \<Rightarrow> pgtemp \<Rightarrow> pgtemp" where
  "copied rows ds tmp = tmp\<lparr>keys_copyin := keys_copyin tmp @ rows, subkeys_copyin := subkeys_copyin tmp @ subdoc_rows ds,
     userids_copyin := userids_copyin tmp @ uiddoc_rows ds\<rparr>"

lemma SendBunch_ok:
  assumes "ps_commits st = []" "sb_keys bunch = doc_rows V ds" "sb_subkeys bunch = subdoc_rows ds" "sb_uids bunch = uiddoc_rows ds"
  shows "ds \<noteq> [] \<Longrightarrow> rmap (cast_row V) (doc_rows V ds) = Inr rows \<Longrightarrow>
      bulkInsertSendBunch V bunch ((tmp, st), result) = (((copied rows ds tmp, st), result), True)"
    "ds = [] \<Longrightarrow> bulkInsertSendBunch V bunch ((tmp, st), result) = (((tmp, st), add_error (Err (ErrMsg ''syntax error'')) result), False)"
    "ds \<noteq> [] \<Longrightarrow> rmap (cast_row V) (doc_rows V ds) = Inl e \<Longrightarrow>
      bulkInsertSendBunch V bunch ((tmp, st), result) = (((tmp, st), add_error e result), False)"
  using assms(1)
  by (simp_all add: bulkInsertSendBunch_def assms(2-4) report_ok insert_keys_copyin_def insert_subkeys_copyin_def
      insert_userids_copyin_def copied_def doc_rows_def)

lemma copied_simps [simp]: "copied [] [] tmp = tmp" "copied rows2 ds2 (copied rows1 ds1 tmp) = copied (rows1 @ rows2) (ds1 @ ds2) tmp"
  by (simp_all add: copied_def)

lemma rmap_append: "rmap f (xs @ ys) = rbind (rmap f xs) (\<lambda>us. rbind (rmap f ys) (\<lambda>vs. Inr (us @ vs)))"
  by (induction xs) (auto simp: rbind_def split: sum.splits)

lemma fill_bunch_fits: "docs_fit V d \<Longrightarrow> fill_bunch V (d # ds) newSqlBunch = (b, rest) \<Longrightarrow> rest \<noteq> d # ds"
  using fill_bunch_exact[of V ds] by (auto simp: docs_fit_def split: option.splits dest: fill_bunch_progress)

lemma copy_bunches_ok:
  assumes "ps_commits st = []"
  shows "\<exists>tmp' result' ok. copy_bunches V ds ((tmp, st), result) = (((tmp', st), result'), ok)
    \<and> (ok \<longrightarrow> result' = result \<and> (\<exists>rows. rmap (cast_row V) (doc_rows V ds) = Inr rows \<and> tmp' = copied rows ds tmp))
    \<and> (list_all (docs_fit V) ds \<and> (\<exists>rows. rmap (cast_row V) (doc_rows V ds) = Inr rows) \<longrightarrow> ok)"
proof (induction "length ds" arbitrary: ds tmp rule: less_induct)
  case less
  show ?case
  proof (cases ds)
    case Nil
    then show ?thesis by (auto simp: copy_bunches.simps intro: exI[of _ True])
  next
    case (Cons d ds')
    then have ne: "ds \<noteq> []" by simp
    obtain bunch rest where f: "fill_bunch V ds newSqlBunch = (bunch, rest)" by fastforce
    then obtain pre where pre: "ds = pre @ rest" "sb_keys bunch = doc_rows V pre" "sb_subkeys bunch = subdoc_rows pre"
      "sb_uids bunch = uiddoc_rows pre" using fill_bunch_exact[OF f bunch_ok_new] by auto
    have fit: "pre \<noteq> []" if "list_all (docs_fit V) ds"
      using fill_bunch_fits[of V d ds'] f that pre(1) unfolding Cons by auto
    note send = SendBunch_ok[OF assms pre(2-4), where tmp = tmp and result = result]
    show ?thesis
    proof (cases "pre = [] \<or> (\<exists>e. rmap (cast_row V) (doc_rows V pre) = Inl e)")
      case True
      then obtain e where "bulkInsertSendBunch V bunch ((tmp, st), result) = (((tmp, st), add_error e result), False)"
        using send(2,3) by (cases "pre = []") blast+
      moreover have "\<not> (list_all (docs_fit V) ds \<and> (\<exists>rows. rmap (cast_row V) (doc_rows V ds) = Inr rows))"
        using True fit pre(1) by (auto simp: rmap_append rbind_Inr_iff)
      ultimately show ?thesis
        by (intro exI[of _ tmp] exI[of _ "add_error e result"] exI[of _ False]) (simp add: copy_bunches.simps[of V ds] f ne)
    next
      case False
      then obtain rows1 where r1: "pre \<noteq> []" "rmap (cast_row V) (doc_rows V pre) = Inr rows1"
        by (cases "rmap (cast_row V) (doc_rows V pre)") auto
      have step: "copy_bunches V ds ((tmp, st), result) = copy_bunches V rest ((copied rows1 pre tmp, st), result)"
        using ne send(1)[OF r1] by (simp add: copy_bunches.simps[of V ds] f)
      have "length rest < length ds" using pre(1) r1(1) by simp
      from less[OF this, of "copied rows1 pre tmp"] obtain tmp' result' ok where
        ih: "copy_bunches V rest ((copied rows1 pre tmp, st), result) = (((tmp', st), result'), ok)"
          "ok \<longrightarrow> result' = result \<and> (\<exists>rows. rmap (cast_row V) (doc_rows V rest) = Inr rows \<and> tmp' = copied rows rest (copied rows1 pre tmp))"
          "list_all (docs_fit V) rest \<and> (\<exists>rows. rmap (cast_row V) (doc_rows V rest) = Inr rows) \<longrightarrow> ok"
        by blast
      show ?thesis
        by (intro exI[of _ tmp'] exI[of _ result'] exI[of _ ok])
          (use step ih pre(1) r1(2) in \<open>auto simp: rmap_append rbind_Inr_iff\<close>)
    qed
  qed
qed

lemma CleanCopyin_ok:
  "ps_commits st = [] \<Longrightarrow> bulkInsertCleanCopyin ((tmp, st), result) =
    (((tmp\<lparr>keys_copyin := [], subkeys_copyin := [], userids_copyin := [], keys_old := []\<rparr>, st), result), True)"
  by (simp add: bulkInsertCleanCopyin_def report_ok bulkTxCleanCopyin_def)

text \<open>The documents of all keys are copied, in their order, or the copying reports an error.\<close>

lemma CopyKeys_ok:
  assumes "ps_commits st = []"
  obtains tmp' result' ok where "bulkInsertCopyKeysToServer V keys ((tmp, st), result) = (((tmp', st), result'), ok)"
    "ok \<Longrightarrow> result' = result" "ok \<Longrightarrow> \<exists>rows. rmap (cast_row V) (doc_rows V (map (key_docs V) keys)) = Inr rows
       \<and> tmp' = copied rows (map (key_docs V) keys) (tmp\<lparr>keys_copyin := [], subkeys_copyin := [], userids_copyin := [], keys_old := []\<rparr>)"
    "list_all (docs_fit V) (map (key_docs V) keys) \<Longrightarrow> rmap (cast_row V) (doc_rows V (map (key_docs V) keys)) = Inr rows \<Longrightarrow> ok"
  using copy_bunches_ok[OF assms, of V "map (key_docs V) keys" "tmp\<lparr>keys_copyin := [], subkeys_copyin := [], userids_copyin := [], keys_old := []\<rparr>" result]
  by (auto simp: bulkInsertCopyKeysToServer_def bulkInsertDoCopy_def CleanCopyin_ok[OF assms])


section \<open>Insertion follows the tables\<close>

lemma cast_rows:
  assumes "rmap (cast_row V) rs = Inr rows"
  shows "map kr_rfingerprint rows = map kr_rfingerprint rs" "map kr_md5 rows = map kr_md5 rs" "map kr_vfingerprint rows = map kr_vfingerprint rs"
  using assms by (induction rs arbitrary: rows) (auto simp: cast_row_def elim!: rbind_InrE)

lemma key_docs_simps [simp]:
  "kd_Fingerprint (fst (key_docs V k)) = pub_Fingerprint k" "kd_MD5 (fst (key_docs V k)) = pk_MD5 k"
  by (auto simp: key_docs_def Let_def split: prod.splits)

lemma doc_rows_key_docs:
  "map kr_rfingerprint (doc_rows V (map (key_docs V) keys)) = map (\<lambda>k. Reverse (pub_Fingerprint k)) keys"
  "map kr_md5 (doc_rows V (map (key_docs V) keys)) = map pk_MD5 keys"
  by (induction keys) (auto simp: doc_row_def)

lemma copied_rows_hex:
  assumes "rmap (cast_row V) (doc_rows V (map (key_docs V) keys)) = Inr rows" "\<forall>k \<in> set keys. hex_key k" "r \<in> set rows"
  shows "hex_string (kr_rfingerprint r)"
proof -
  have "kr_rfingerprint r \<in> set (map kr_rfingerprint rows)" using assms(3) by simp
  then have "kr_rfingerprint r \<in> (\<lambda>k. Reverse (pub_Fingerprint k)) ` set keys"
    unfolding cast_rows(1)[OF assms(1)] doc_rows_key_docs by simp
  with assms(2) show ?thesis by (auto simp: hex_key_rfp)
qed

lemma bulk_digests:
  "db_keys db' = db_keys db @ new \<Longrightarrow> digests db' = track [KeysBulkUpdated (map kr_md5 new) []] (digests db)"
  by (auto simp: digests_def announced_def)

lemma bulkInsert_goes:
  assumes "bulkInsert V keys [] ((tmp, st), result) = (((tmp', st'), result'), n, d, ok)" "st_ok st" "\<forall>k \<in> set keys. hex_key k"
  shows "pg_goes st st'" "\<not> ok \<Longrightarrow> st' = st"
proof -
  note st = st_okD[OF assms(2)]
  have "pg_goes st st' \<and> (\<not> ok \<longrightarrow> st' = st)"
  proof (rule CopyKeys_ok[OF st(3), of V keys tmp result])
    fix tmp1 result1 ok1
    assume c: "bulkInsertCopyKeysToServer V keys ((tmp, st), result) = (((tmp1, st), result1), ok1)" "ok1 \<Longrightarrow> result1 = result"
      and "ok1 \<Longrightarrow> \<exists>rows. rmap (cast_row V) (doc_rows V (map (key_docs V) keys)) = Inr rows
        \<and> tmp1 = copied rows (map (key_docs V) keys) (tmp\<lparr>keys_copyin := [], subkeys_copyin := [], userids_copyin := [], keys_old := []\<rparr>)"
    then have hex: "\<forall>r \<in> set (keys_copyin tmp1). hex_string (kr_rfingerprint r)" if ok1
      using that copied_rows_hex[OF _ assms(3)] by (auto simp: copied_def)
    show ?thesis
    proof (cases ok1)
      case False
      with assms(1,2) c show ?thesis by (simp add: bulkInsert_def pg_goes_refl)
    next
      case True
      obtain b ok2 where f: "bulkInsertFromCopyinTables ((tmp1, st), result) = (b, ok2)" by fastforce
      from f st(3,1) show ?thesis
      proof (cases rule: bulkInsertFromCopyin_ok)
        case (1 tmp2 result2)
        with assms(1,2) c True f show ?thesis by (simp add: bulkInsert_def pg_goes_refl)
      next
        case (2 tmp2 db)
        have "st' = st\<lparr>ps_db := db, ps_notified := ps_notified st @ [KeysBulkUpdated (map kr_md5 (keys_checked tmp2)) []]\<rparr>" "ok"
          using assms(1) c True f 2(1,2)
          by (auto simp: bulkInsert_def BulkNotify_def bulkInsQueryKeyChange_def Notify_def Let_def split: prod.splits)
        moreover have "hex_rows db" using st(2) hex[OF True] 2(4,5) by (auto simp: hex_rows_def)
        ultimately show ?thesis using pg_goesI[OF 2(3) _ st(3) bulk_digests[OF 2(4)]] by simp
      qed
    qed
  qed
  then show "pg_goes st st'" "\<not> ok \<Longrightarrow> st' = st" by simp_all
qed

lemma insert_each_goes:
  "insert_each V alone keys u n result st = (st', rest) \<Longrightarrow> st_ok st \<Longrightarrow> \<forall>k \<in> set keys. hex_key k \<Longrightarrow> pg_goes st st'"
proof (induction keys arbitrary: u n result st)
  case Nil
  then show ?case by (simp add: pg_goes_refl)
next
  case (Cons key keys)
  show ?case
  proof (cases "maxInsertErrors < length (ie_Errors result)")
    case True
    with Cons show ?thesis by (simp add: pg_goes_refl)
  next
    case False
    obtain st1 r where up: "Upsert V alone key st = (st1, r)" by fastforce
    then have g: "pg_goes st st1" using Upsert_goes Cons.prems by fastforce
    then have "st_ok st1" by (simp add: pg_goes_def)
    moreover obtain u1 n1 result1 where "insert_each V alone keys u1 n1 result1 st1 = (st', rest)"
      using Cons.prems(1) False up by (auto split: sum.splits KeyChange.splits)
    ultimately have "pg_goes st1 st'" using Cons.IH Cons.prems(3) by simp
    with g show ?thesis by (rule pg_goes_trans)
  qed
qed

lemma Insert_goes:
  assumes "Insert_keys V alone keys st = (st', rest)" "st_ok st" "\<forall>k \<in> set keys. hex_key k"
  shows "pg_goes st st'"
proof -
  note st = st_okD[OF assms(2)]
  have create: "bulkCreateTempTables st = (st, Inr ())" using st(3) by (simp add: bulkCreateTempTables_def Commit_ok)
  have drop_ok: "bulkDropTempTables s = s" if "pg_goes st s" for s
    using that by (simp add: bulkDropTempTables_def Commit_ok pg_goes_def st_ok_def)
  show ?thesis
  proof (cases "length keys < minKeys2UseBulk")
    case True
    obtain s r u n fin where each: "insert_each V alone keys 0 0 noErrors st = (s, r, u, n, fin)" by (metis prod_cases5)
    then have "pg_goes st s" using insert_each_goes assms(2,3) by blast
    with assms(1) True each show ?thesis by (simp add: Insert_keys_def)
  next
    case False
    obtain tmp s result n d ok where b: "bulkInsert V keys [] ((crTempTables, st), noErrors) = (((tmp, s), result), n, d, ok)"
      by (metis prod_cases4 prod.collapse)
    note g = bulkInsert_goes[OF b assms(2,3)]
    show ?thesis
    proof (cases ok)
      case True
      with assms(1) False create b g drop_ok[OF g(1)] show ?thesis by (simp add: Insert_keys_def)
    next
      case nok: False
      obtain s2 r u m fin where each: "insert_each V alone (map (SortKey (pg_E V)) keys) 0 n result st = (s2, r, u, m, fin)"
        by (metis prod_cases5)
      have "\<forall>k \<in> set (map (SortKey (pg_E V)) keys). hex_key k" using assms(3) by (simp add: SortKey_hex)
      with each have "pg_goes st s2" using insert_each_goes assms(2) by blast
      with assms(1) False nok create b g each drop_ok show ?thesis by (simp add: Insert_keys_def)
    qed
  qed
qed


section \<open>Inserting new keys in bulk or one by one\<close>

text \<open>The keys are new, and no two of them share a fingerprint, a digest or a subkey.\<close>

definition all_new :: "pgenv \<Rightarrow> PrimaryKey list \<Rightarrow> pgdb \<Rightarrow> bool" where
  "all_new V keys db \<longleftrightarrow> (let ds = map (key_docs V) keys; rows = doc_rows V ds; subs = subdoc_rows ds in
     distinct (map kr_rfingerprint rows) \<and> distinct (map kr_md5 rows) \<and> distinct (map kr_vfingerprint rows)
     \<and> distinct (map sr_rsubfp subs) \<and> distinct (map sr_vsubfp subs)
     \<and> (\<forall>r \<in> set rows. kr_rfingerprint r \<notin> key_rfps (db_keys db) \<and> kr_md5 r \<notin> key_md5s (db_keys db))
     \<and> (\<forall>r \<in> set subs. sr_rsubfp r \<notin> sr_rsubfp ` set (db_subkeys db)))"

definition added :: "keyRow list \<Rightarrow> docs list \<Rightarrow> pgdb \<Rightarrow> pgdb" where
  "added rows ds db = db\<lparr>db_keys := db_keys db @ rows, db_subkeys := db_subkeys db @ subdoc_rows ds, db_userids := db_userids db @ uiddoc_rows ds\<rparr>"

lemma insert_new_subkeys_append:
  "distinct (map sr_rsubfp rows) \<Longrightarrow> \<forall>r \<in> set rows. sr_rsubfp r \<notin> sr_rsubfp ` set (db_subkeys db) \<and> has_key (sr_rfingerprint r) db \<Longrightarrow>
    rfold insert_new_subkey rows db = Inr (db\<lparr>db_subkeys := db_subkeys db @ rows\<rparr>)"
proof (induction rows arbitrary: db)
  case (Cons r rows)
  have "insert_new_subkey r db = Inr (db\<lparr>db_subkeys := db_subkeys db @ [r]\<rparr>)"
    using Cons.prems by (auto simp: insert_new_subkey_def image_iff)
  moreover have "rfold insert_new_subkey rows (db\<lparr>db_subkeys := db_subkeys db @ [r]\<rparr>) = Inr (db\<lparr>db_subkeys := db_subkeys db @ r # rows\<rparr>)"
    using Cons.prems by (subst Cons.IH) (auto simp: has_key_def image_iff)
  ultimately show ?case by simp
qed simp

lemma insert_new_userids_append:
  "distinct (map userid_key rows) \<Longrightarrow> \<forall>r \<in> set rows. userid_key r \<notin> userid_key ` set (db_userids db) \<and> has_key (ur_rfingerprint r) db \<Longrightarrow>
    rfold insert_new_userid rows db = Inr (db\<lparr>db_userids := db_userids db @ rows\<rparr>)"
proof (induction rows arbitrary: db)
  case (Cons r rows)
  have "insert_new_userid r db = Inr (db\<lparr>db_userids := db_userids db @ [r]\<rparr>)"
    using Cons.prems by (auto simp: insert_new_userid_def userid_key_def image_iff)
  moreover have "rfold insert_new_userid rows (db\<lparr>db_userids := db_userids db @ [r]\<rparr>) = Inr (db\<lparr>db_userids := db_userids db @ r # rows\<rparr>)"
    using Cons.prems by (subst Cons.IH) (auto simp: has_key_def image_iff)
  ultimately show ?case by simp
qed simp

text \<open>The rows of one key are those of \<open>insertKeyTx\<close>.\<close>

lemma key_docs_rows:
  fixes V :: pgenv and k0 :: PrimaryKey
  defines "k \<equiv> SortKey (pg_E V) k0"
  shows "subdoc_rows [key_docs V k0] = map (subkey_row k) (pk_SubKeys k)"
    "uiddoc_rows [key_docs V k0] = map (userid_row k) (snd (KeywordsTSVector V k))"
    "cast_row V (doc_row V (fst (key_docs V k0))) = rbind (pg_TSVECTOR V (fst (KeywordsTSVector V k))) (\<lambda>tsv. Inr (key_row V k tsv))"
    "kd_Keywords (fst (key_docs V k0)) = fst (KeywordsTSVector V k)"
  by (auto simp: key_docs_def k_def Let_def subdoc_row_def uiddoc_row_def subkey_row_def userid_row_def cast_row_def doc_row_def
      key_row_def rbind_def split: prod.splits sum.splits)

lemma key_docs_uids: "distinct (map userid_key (uiddoc_rows [key_docs V k]))"
  "r \<in> set (uiddoc_rows [key_docs V k]) \<Longrightarrow> ur_rfingerprint r = Reverse (pub_Fingerprint k)"
  "q \<in> set (subdoc_rows [key_docs V k]) \<Longrightarrow> sr_rfingerprint q = Reverse (pub_Fingerprint k)"
proof -
  let ?us = "snd (KeywordsTSVector V (SortKey (pg_E V) k))"
  have "distinct (map ud_UidString ?us)" by (rule KeywordsTSVector_docs)
  then have "inj_on ud_UidString (set ?us)" "distinct ?us" by (simp_all add: distinct_map)
  then show "distinct (map userid_key (uiddoc_rows [key_docs V k]))"
    unfolding key_docs_rows map_map by (auto simp: distinct_map userid_key_def userid_row_def inj_on_def)
  show "r \<in> set (uiddoc_rows [key_docs V k]) \<Longrightarrow> ur_rfingerprint r = Reverse (pub_Fingerprint k)"
    "q \<in> set (subdoc_rows [key_docs V k]) \<Longrightarrow> sr_rfingerprint q = Reverse (pub_Fingerprint k)"
    unfolding key_docs_rows by (auto simp: userid_row_def subkey_row_def)
qed

lemma insertKeyTx_new:
  assumes "db_ok db" "cast_row V (doc_row V (fst (key_docs V k))) = Inr row"
    and "\<not> has_key (Reverse (pub_Fingerprint k)) db" "pk_MD5 k \<notin> key_md5s (db_keys db)"
    and "distinct (map sr_rsubfp (subdoc_rows [key_docs V k]))"
    and "\<forall>r \<in> set (subdoc_rows [key_docs V k]). sr_rsubfp r \<notin> sr_rsubfp ` set (db_subkeys db)"
  shows "insertKeyTx V k db = Inr (added [row] [key_docs V k] db, False)"
proof -
  let ?k = "SortKey (pg_E V) k" and ?db1 = "db\<lparr>db_keys := db_keys db @ [row]\<rparr>" and ?rfp = "Reverse (pub_Fingerprint k)"
  obtain kws uids where kw: "KeywordsTSVector V ?k = (kws, uids)" by fastforce
  obtain tsv where tsv: "pg_TSVECTOR V kws = Inr tsv" "row = key_row V ?k tsv"
    using assms(2) unfolding key_docs_rows kw by (auto simp: rbind_Inr_iff)
  have ins: "insert_key_row row db = Inr (?db1, 1)"
    using assms(3,4) tsv(2) by (force simp: insert_key_row_def)
  have h1: "has_key ?rfp ?db1" using tsv(2) by (simp add: has_key_def)
  let ?db2 = "?db1\<lparr>db_subkeys := db_subkeys db @ subdoc_rows [key_docs V k]\<rparr>"
  have subs: "rfold (\<lambda>sub. insert_new_subkey (subkey_row ?k sub)) (pk_SubKeys ?k) ?db1 = Inr ?db2"
  proof -
    have "\<forall>r \<in> set (subdoc_rows [key_docs V k]). sr_rsubfp r \<notin> sr_rsubfp ` set (db_subkeys ?db1) \<and> has_key (sr_rfingerprint r) ?db1"
      using assms(6) key_docs_uids(3)[of _ V k] h1 by (auto simp del: doc_rows_simps)
    from insert_new_subkeys_append[OF assms(5) this] show ?thesis
      unfolding key_docs_rows(1) rfold_map by simp
  qed
  have fresh: "userid_key r \<notin> userid_key ` set (db_userids db)" if r: "r \<in> set (uiddoc_rows [key_docs V k])" for r
  proof
    assume "userid_key r \<in> userid_key ` set (db_userids db)"
    then obtain q where "q \<in> set (db_userids db)" "ur_rfingerprint q = ?rfp"
      using key_docs_uids(2)[OF r] by (auto simp: userid_key_def)
    with db_okD(4)[OF assms(1)] assms(3) show False by metis
  qed
  have h2: "has_key ?rfp ?db2" using h1 by (simp add: has_key_def)
  have uids: "rfold (\<lambda>uid. insert_new_userid (userid_row ?k uid)) uids ?db2 = Inr (added [row] [key_docs V k] db)"
  proof -
    have "\<forall>r \<in> set (uiddoc_rows [key_docs V k]). userid_key r \<notin> userid_key ` set (db_userids ?db2) \<and> has_key (ur_rfingerprint r) ?db2"
      using fresh key_docs_uids(2)[of _ V k] h2 by (auto simp del: doc_rows_simps)
    from insert_new_userids_append[OF key_docs_uids(1) this] show ?thesis
      unfolding key_docs_rows(2) kw snd_conv rfold_map by (simp add: added_def key_docs_rows(2) kw del: doc_rows_simps)
  qed
  show ?thesis
    unfolding insertKeyTx_def Let_def kw prod.case tsv(1) rbind_simps tsv(2)[symmetric] ins by (simp add: subs uids del: doc_rows_simps)
qed


lemma added_simps: "added rows2 ds2 (added rows1 ds1 db) = added (rows1 @ rows2) (ds1 @ ds2) db"
  by (simp add: added_def)

definition insert_all :: "pgenv \<Rightarrow> PrimaryKey list \<Rightarrow> pgdb \<Rightarrow> pgdb res" where
  "insert_all V = rfold (\<lambda>k db. rbind (insertKeyTx V k db) (\<lambda>(db, _). Inr db))"

lemma all_new_Cons:
  assumes "all_new V (k # keys) db" "cast_row V (doc_row V (fst (key_docs V k))) = Inr row"
  shows "\<not> has_key (Reverse (pub_Fingerprint k)) db" "pk_MD5 k \<notin> key_md5s (db_keys db)"
    "distinct (map sr_rsubfp (subdoc_rows [key_docs V k]))"
    "\<forall>r \<in> set (subdoc_rows [key_docs V k]). sr_rsubfp r \<notin> sr_rsubfp ` set (db_subkeys db)"
    "all_new V keys (added [row] [key_docs V k] db)"
proof -
  have r: "kr_rfingerprint row = Reverse (pub_Fingerprint k)" "kr_md5 row = pk_MD5 k"
    using assms(2) by (auto simp: cast_row_def doc_row_def rbind_Inr_iff)
  show "\<not> has_key (Reverse (pub_Fingerprint k)) db" "pk_MD5 k \<notin> key_md5s (db_keys db)"
    "distinct (map sr_rsubfp (subdoc_rows [key_docs V k]))"
    "\<forall>r \<in> set (subdoc_rows [key_docs V k]). sr_rsubfp r \<notin> sr_rsubfp ` set (db_subkeys db)"
    using assms(1) by (auto simp: all_new_def Let_def has_key_iff doc_row_def)
  show "all_new V keys (added [row] [key_docs V k] db)"
    using assms(1) r by (auto simp: all_new_def Let_def added_def doc_row_def) (metis imageI)+
qed

lemma insert_all_new:
  "db_ok db \<Longrightarrow> all_new V keys db \<Longrightarrow> rmap (cast_row V) (doc_rows V (map (key_docs V) keys)) = Inr rows \<Longrightarrow>
    insert_all V keys db = Inr (added rows (map (key_docs V) keys) db)"
proof (induction keys arbitrary: db rows)
  case Nil
  then show ?case by (simp add: insert_all_def added_def)
next
  case (Cons k keys)
  obtain row rows' where r: "cast_row V (doc_row V (fst (key_docs V k))) = Inr row" "rows = row # rows'"
    "rmap (cast_row V) (doc_rows V (map (key_docs V) keys)) = Inr rows'"
    using Cons.prems(3) by (auto simp: rbind_Inr_iff)
  note new = all_new_Cons[OF Cons.prems(2) r(1)]
  note tx = insertKeyTx_new[OF Cons.prems(1) r(1) new(1-4)]
  have "db_ok (added [row] [key_docs V k] db)" by (rule insertKeyTx_cases[OF tx Cons.prems(1)]) simp_all
  from Cons.IH[OF this new(5) r(3)] show ?case
    unfolding insert_all_def rfold.simps tx by (simp add: added_simps r(2))
qed


lemma filter_one:
  assumes "distinct (map f rows)" "distinct (map g rows)" "a \<in> set rows"
  shows "length (filter (\<lambda>b. f b = f a \<or> g b = g a) rows) = 1"
proof -
  have "filter (\<lambda>b. f b = f a \<or> g b = g a) rows = filter (\<lambda>b. b = a) rows"
    using assms unfolding distinct_map inj_on_def by (intro filter_cong) auto
  moreover have "length (filter (\<lambda>b. b = a) rows) = 1"
    using assms(1,3) by (induction rows) (auto simp: filter_empty_conv)
  ultimately show ?thesis by simp
qed

lemma rows_where_Nil [simp]: "rows_where P [] = []"
  by (simp add: rows_where_def)

lemma check_keys_new:
  assumes "keys_copyin tmp = rows" "distinct (map kr_rfingerprint rows)" "distinct (map kr_md5 rows)" "distinct (map kr_vfingerprint rows)"
    and "\<forall>r \<in> set rows. kr_rfingerprint r \<notin> key_rfps (db_keys db) \<and> kr_md5 r \<notin> key_md5s (db_keys db)"
  shows "rfold (\<lambda>j. j) [bulkTxCleanCheckedKeys, bulkTxFilterUniqueKeys, bulkTxPrepKeyStats, bulkTxFilterDupKeys] (tmp, db)
    = Inr (tmp\<lparr>keys_checked := rows, keys_copyin := []\<rparr>, db)"
proof -
  let ?t = "tmp\<lparr>keys_checked := rows\<rparr>"
  have "filter (\<lambda>a. length (filter (\<lambda>b. kr_rfingerprint b = kr_rfingerprint a \<or> kr_md5 b = kr_md5 a) rows) = 1
      \<and> \<not> (kr_rfingerprint a \<in> key_rfps (db_keys db) \<or> kr_md5 a \<in> key_md5s (db_keys db))) rows = rows"
    using filter_one[OF assms(2,3)] assms(5) by (intro filter_True) auto
  then have u: "bulkTxFilterUniqueKeys (tmp\<lparr>keys_checked := []\<rparr>, db) = Inr (?t, db)"
    using assms(2-4) by (simp add: bulkTxFilterUniqueKeys_def insert_keys_checked_def assms(1))
  have p: "bulkTxPrepKeyStats (?t, db) = Inr (?t\<lparr>keys_copyin := []\<rparr>, db)"
    by (simp add: bulkTxPrepKeyStats_def assms(1))
  have d: "bulkTxFilterDupKeys (?t\<lparr>keys_copyin := []\<rparr>, db) = Inr (?t\<lparr>keys_copyin := []\<rparr>, db)"
    using assms(2-4) by (simp add: bulkTxFilterDupKeys_def insert_keys_checked_def)
  have c: "bulkTxCleanCheckedKeys (tmp, db) = Inr (tmp\<lparr>keys_checked := []\<rparr>, db)"
    by (simp add: bulkTxCleanCheckedKeys_def)
  show ?thesis unfolding rfold_jobs c rbind_simps u p d by simp
qed

lemma check_subkeys_new:
  assumes "subkeys_copyin tmp = rows" "distinct (map sr_rsubfp rows)" "distinct (map sr_vsubfp rows)"
    and "\<forall>r \<in> set rows. sr_rsubfp r \<notin> sr_rsubfp ` set (db_subkeys db) \<and> sr_rfingerprint r \<in> key_rfps (keys_checked tmp)"
  shows "rfold (\<lambda>j. j) [bulkTxCleanCheckedSubkeys, bulkTxFilterUniqueSubkeys, bulkTxPrepSubkeyStats, bulkTxFilterDupSubkeys] (tmp, db)
    = Inr (tmp\<lparr>subkeys_checked := rows, subkeys_copyin := []\<rparr>, db)"
proof -
  let ?t = "tmp\<lparr>subkeys_checked := rows\<rparr>"
  have "filter (\<lambda>a. length (filter (\<lambda>b. sr_rsubfp b = sr_rsubfp a) rows) = 1
      \<and> sr_rsubfp a \<notin> sr_rsubfp ` set (db_subkeys db) \<and> parent_sent (tmp\<lparr>subkeys_checked := []\<rparr>) (sr_rfingerprint a)) rows = rows"
    using filter_one[OF assms(2,2)] assms(4) by (intro filter_True) (auto simp: parent_sent_def)
  then have u: "bulkTxFilterUniqueSubkeys (tmp\<lparr>subkeys_checked := []\<rparr>, db) = Inr (?t, db)"
    using assms(2,3) by (simp add: bulkTxFilterUniqueSubkeys_def insert_subkeys_checked_def assms(1))
  have p: "bulkTxPrepSubkeyStats (?t, db) = Inr (?t\<lparr>subkeys_copyin := []\<rparr>, db)"
    by (simp add: bulkTxPrepSubkeyStats_def assms(1))
  have d: "bulkTxFilterDupSubkeys (?t\<lparr>subkeys_copyin := []\<rparr>, db) = Inr (?t\<lparr>subkeys_copyin := []\<rparr>, db)"
    using assms(2,3) by (simp add: bulkTxFilterDupSubkeys_def insert_subkeys_checked_def)
  have c: "bulkTxCleanCheckedSubkeys (tmp, db) = Inr (tmp\<lparr>subkeys_checked := []\<rparr>, db)"
    by (simp add: bulkTxCleanCheckedSubkeys_def)
  show ?thesis unfolding rfold_jobs c rbind_simps u p d by simp
qed

lemma check_userids_new:
  assumes "userids_copyin tmp = rows" "distinct (map userid_key rows)"
    and "\<forall>r \<in> set rows. userid_key r \<notin> userid_key ` set (db_userids db) \<and> ur_rfingerprint r \<in> key_rfps (keys_checked tmp)"
  shows "rfold (\<lambda>j. j) [bulkTxCleanCheckedUserIDs, bulkTxFilterUniqueUserIDs, bulkTxPrepUserIDStats, bulkTxFilterDupUserIDs] (tmp, db)
    = Inr (tmp\<lparr>userids_checked := rows, userids_copyin := []\<rparr>, db)"
proof -
  let ?t = "tmp\<lparr>userids_checked := rows\<rparr>"
  have "filter (\<lambda>a. length (filter (\<lambda>b. userid_key b = userid_key a) rows) = 1
      \<and> userid_key a \<notin> userid_key ` set (db_userids db) \<and> parent_sent (tmp\<lparr>userids_checked := []\<rparr>) (ur_rfingerprint a)) rows = rows"
    using filter_one[OF assms(2,2)] assms(3) by (intro filter_True) (auto simp: parent_sent_def)
  then have u: "bulkTxFilterUniqueUserIDs (tmp\<lparr>userids_checked := []\<rparr>, db) = Inr (?t, db)"
    using assms(2) by (simp add: bulkTxFilterUniqueUserIDs_def insert_userids_checked_def assms(1))
  have p: "bulkTxPrepUserIDStats (?t, db) = Inr (?t\<lparr>userids_copyin := []\<rparr>, db)"
    by (simp add: bulkTxPrepUserIDStats_def assms(1))
  have d: "bulkTxFilterDupUserIDs (?t\<lparr>userids_copyin := []\<rparr>, db) = Inr (?t\<lparr>userids_copyin := []\<rparr>, db)"
    using assms(2) by (simp add: bulkTxFilterDupUserIDs_def insert_userids_checked_def)
  have c: "bulkTxCleanCheckedUserIDs (tmp, db) = Inr (tmp\<lparr>userids_checked := []\<rparr>, db)"
    by (simp add: bulkTxCleanCheckedUserIDs_def)
  show ?thesis unfolding rfold_jobs c rbind_simps u p d by simp
qed

lemma insert_jobs_new:
  assumes "distinct (map kr_rfingerprint (db_keys db @ keys_checked tmp))" "distinct (map kr_md5 (db_keys db @ keys_checked tmp))"
    and "distinct (map sr_rsubfp (db_subkeys db @ subkeys_checked tmp))" "distinct (map userid_key (db_userids db @ userids_checked tmp))"
    and "\<forall>r \<in> set (subkeys_checked tmp). sr_rfingerprint r \<in> key_rfps (keys_checked tmp)"
    and "\<forall>r \<in> set (userids_checked tmp). ur_rfingerprint r \<in> key_rfps (keys_checked tmp)"
  shows "rfold (\<lambda>j. j) [bulkTxInsertKeys, bulkTxInsertSubkeys, bulkTxInsertUserIDs] (tmp, db)
    = Inr (tmp, db\<lparr>db_keys := db_keys db @ keys_checked tmp, db_subkeys := db_subkeys db @ subkeys_checked tmp,
        db_userids := db_userids db @ userids_checked tmp\<rparr>)"
proof -
  let ?db1 = "db\<lparr>db_keys := db_keys db @ keys_checked tmp\<rparr>"
  let ?db2 = "?db1\<lparr>db_subkeys := db_subkeys db @ subkeys_checked tmp\<rparr>"
  have k: "bulkTxInsertKeys (tmp, db) = Inr (tmp, ?db1)" using assms(1,2) by (simp add: bulkTxInsertKeys_def Let_def)
  have s: "bulkTxInsertSubkeys (tmp, ?db1) = Inr (tmp, ?db2)" using assms(3,5) by (auto simp: bulkTxInsertSubkeys_def Let_def has_key_iff)
  have u: "bulkTxInsertUserIDs (tmp, ?db2) = Inr (tmp, ?db2\<lparr>db_userids := db_userids db @ userids_checked tmp\<rparr>)"
    using assms(4,6) by (auto simp: bulkTxInsertUserIDs_def Let_def has_key_iff)
  show ?thesis unfolding rfold_jobs k rbind_simps s u by simp
qed


lemma distinct_map_append:
  assumes "distinct (map f xs)" "distinct (map f ys)" "\<And>x y. x \<in> set xs \<Longrightarrow> y \<in> set ys \<Longrightarrow> f x \<noteq> f y"
  shows "distinct (map f (xs @ ys))"
  using assms by (fastforce simp: distinct_append)

lemma uiddoc_rows_new:
  assumes "db_ok db" "distinct (map (\<lambda>k. Reverse (pub_Fingerprint k)) keys)"
    and "\<forall>k \<in> set keys. \<not> has_key (Reverse (pub_Fingerprint k)) db"
  shows "distinct (map userid_key (db_userids db @ uiddoc_rows (map (key_docs V) keys)))"
    "\<forall>r \<in> set (uiddoc_rows (map (key_docs V) keys)). ur_rfingerprint r \<in> (\<lambda>k. Reverse (pub_Fingerprint k)) ` set keys"
    "\<forall>r \<in> set (subdoc_rows (map (key_docs V) keys)). sr_rfingerprint r \<in> (\<lambda>k. Reverse (pub_Fingerprint k)) ` set keys"
proof -
  have rows: "uiddoc_rows (map (key_docs V) (k # ks)) = uiddoc_rows [key_docs V k] @ uiddoc_rows (map (key_docs V) ks)"
    "subdoc_rows (map (key_docs V) (k # ks)) = subdoc_rows [key_docs V k] @ subdoc_rows (map (key_docs V) ks)" for k ks by simp_all
  have of: "ur_rfingerprint r \<in> (\<lambda>k. Reverse (pub_Fingerprint k)) ` set ks" if "r \<in> set (uiddoc_rows (map (key_docs V) ks))" for r ks
    using that
  proof (induction ks)
    case (Cons k ks)
    then show ?case unfolding rows set_append using key_docs_uids(2)[of r V k] by auto
  qed simp
  then show "\<forall>r \<in> set (uiddoc_rows (map (key_docs V) keys)). ur_rfingerprint r \<in> (\<lambda>k. Reverse (pub_Fingerprint k)) ` set keys" by simp
  have "sr_rfingerprint r \<in> (\<lambda>k. Reverse (pub_Fingerprint k)) ` set ks" if "r \<in> set (subdoc_rows (map (key_docs V) ks))" for r ks
    using that
  proof (induction ks)
    case (Cons k ks)
    then show ?case unfolding rows set_append using key_docs_uids(3)[of r V k] by auto
  qed simp
  then show "\<forall>r \<in> set (subdoc_rows (map (key_docs V) keys)). sr_rfingerprint r \<in> (\<lambda>k. Reverse (pub_Fingerprint k)) ` set keys" by simp
  have "distinct (map userid_key (uiddoc_rows (map (key_docs V) ks)))" if "distinct (map (\<lambda>k. Reverse (pub_Fingerprint k)) ks)" for ks
    using that
  proof (induction ks)
    case (Cons k ks)
    have "userid_key r \<noteq> userid_key q" if "r \<in> set (uiddoc_rows [key_docs V k])" "q \<in> set (uiddoc_rows (map (key_docs V) ks))" for r q
      using key_docs_uids(2)[OF that(1)] of[OF that(2)] Cons.prems by (auto simp: userid_key_def)
    with Cons key_docs_uids(1)[of V k] show ?case unfolding rows by (intro distinct_map_append) auto
  qed simp
  then have d: "distinct (map userid_key (uiddoc_rows (map (key_docs V) keys)))" using assms(2) by simp
  have "userid_key r \<noteq> userid_key q" if "r \<in> set (db_userids db)" "q \<in> set (uiddoc_rows (map (key_docs V) keys))" for r q
    using db_okD(4)[OF assms(1) that(1)] of[OF that(2)] assms(3) by (auto simp: userid_key_def)
  then show "distinct (map userid_key (db_userids db @ uiddoc_rows (map (key_docs V) keys)))"
    by (intro distinct_map_append d db_okD(3)[OF assms(1)])
qed

lemma FromCopyin_new:
  assumes st: "ps_commits st = []" "db_ok (ps_db st)" and new: "all_new V keys (ps_db st)"
    and rows: "rmap (cast_row V) (doc_rows V (map (key_docs V) keys)) = Inr rows"
    and tmp: "keys_copyin tmp = rows" "subkeys_copyin tmp = subdoc_rows (map (key_docs V) keys)"
      "userids_copyin tmp = uiddoc_rows (map (key_docs V) keys)"
  shows "\<exists>tmp'. bulkInsertFromCopyinTables ((tmp, st), result)
      = (((tmp', st\<lparr>ps_db := added rows (map (key_docs V) keys) (ps_db st)\<rparr>), result), True)
    \<and> keys_checked tmp' = rows \<and> keys_copyin tmp' = []"
proof -
  let ?ds = "map (key_docs V) keys" and ?db = "ps_db st"
  note cast = cast_rows[OF rows]
  have mem: "kr_rfingerprint r \<in> kr_rfingerprint ` set (doc_rows V ?ds)" "kr_md5 r \<in> kr_md5 ` set (doc_rows V ?ds)" if "r \<in> set rows" for r
    using that cast(1,2) by (metis imageI list.set_map)+
  have keys: "distinct (map kr_rfingerprint rows)" "distinct (map kr_md5 rows)" "distinct (map kr_vfingerprint rows)"
    "\<forall>r \<in> set rows. kr_rfingerprint r \<notin> key_rfps (db_keys ?db) \<and> kr_md5 r \<notin> key_md5s (db_keys ?db)"
  proof -
    show "distinct (map kr_rfingerprint rows)" "distinct (map kr_md5 rows)" "distinct (map kr_vfingerprint rows)"
      using new unfolding all_new_def Let_def cast by blast+
    have "\<forall>r \<in> set (doc_rows V ?ds). kr_rfingerprint r \<notin> key_rfps (db_keys ?db) \<and> kr_md5 r \<notin> key_md5s (db_keys ?db)"
      using new unfolding all_new_def Let_def by blast
    then show "\<forall>r \<in> set rows. kr_rfingerprint r \<notin> key_rfps (db_keys ?db) \<and> kr_md5 r \<notin> key_md5s (db_keys ?db)"
      using mem by (metis imageE)
  qed
  have rfps: "key_rfps rows = (\<lambda>k. Reverse (pub_Fingerprint k)) ` set keys"
    using arg_cong[OF cast(1), of set] arg_cong[OF doc_rows_key_docs(1)[of V keys], of set] by simp
  have "distinct (map (\<lambda>k. Reverse (pub_Fingerprint k)) keys)" using keys(1) unfolding cast(1) doc_rows_key_docs .
  moreover have "\<forall>k \<in> set keys. \<not> has_key (Reverse (pub_Fingerprint k)) ?db" 
  proof
    fix k assume "k \<in> set keys"
    then have "Reverse (pub_Fingerprint k) \<in> key_rfps rows" unfolding rfps by simp
    then obtain r where "r \<in> set rows" "kr_rfingerprint r = Reverse (pub_Fingerprint k)" by auto
    then show "\<not> has_key (Reverse (pub_Fingerprint k)) ?db" using keys(4) unfolding has_key_iff by metis
  qed
  ultimately have uids: "distinct (map userid_key (db_userids ?db @ uiddoc_rows ?ds))" "\<forall>r \<in> set (uiddoc_rows ?ds). ur_rfingerprint r \<in> key_rfps rows"
    "\<forall>r \<in> set (subdoc_rows ?ds). sr_rfingerprint r \<in> key_rfps rows"
    using uiddoc_rows_new[OF st(2)] unfolding rfps by blast+
  let ?t1 = "tmp\<lparr>keys_checked := rows, keys_copyin := []\<rparr>"
  let ?t2 = "?t1\<lparr>subkeys_checked := subdoc_rows ?ds, subkeys_copyin := []\<rparr>"
  let ?t3 = "?t2\<lparr>userids_checked := uiddoc_rows ?ds, userids_copyin := []\<rparr>"
  have subs: "distinct (map sr_rsubfp (subdoc_rows ?ds))" "distinct (map sr_vsubfp (subdoc_rows ?ds))"
    "\<forall>r \<in> set (subdoc_rows ?ds). sr_rsubfp r \<notin> sr_rsubfp ` set (db_subkeys ?db)"
    using new unfolding all_new_def Let_def by blast+
  have 1: "bulkInsertCheckKeys ((tmp, st), result) = (((?t1, st), result), True)"
    using check_keys_new[OF tmp(1) keys] by (simp add: bulkInsertCheckKeys_def report_ok[OF st(1)] del: rfold_jobs)
  have 2: "bulkInsertCheckSubkeys ((?t1, st), result) = (((?t2, st), result), True)"
    using check_subkeys_new[of ?t1 "subdoc_rows ?ds" ?db] subs uids(3) tmp(2)
    by (simp add: bulkInsertCheckSubkeys_def report_ok[OF st(1)] del: rfold_jobs)
  have uids2: "distinct (map userid_key (uiddoc_rows ?ds))" "\<forall>r \<in> set (uiddoc_rows ?ds). userid_key r \<notin> userid_key ` set (db_userids ?db)"
    using uids(1) unfolding map_append distinct_append by (blast, auto)
  have 3: "bulkInsertCheckUserIDs ((?t2, st), result) = (((?t3, st), result), True)"
    using check_userids_new[of ?t2 "uiddoc_rows ?ds" ?db] uids2 uids(2) tmp(3)
    by (simp add: bulkInsertCheckUserIDs_def report_ok[OF st(1)] del: rfold_jobs)
  have "rfold (\<lambda>j. j) [bulkTxInsertKeys, bulkTxInsertSubkeys, bulkTxInsertUserIDs] (?t3, ?db) = Inr (?t3, added rows ?ds ?db)"
  proof -
    have "distinct (map kr_rfingerprint (db_keys ?db @ rows))"
      by (rule distinct_map_append[OF db_okD(5)[OF st(2)] keys(1)]) (use keys(4) in \<open>metis imageI\<close>)
    moreover have "distinct (map kr_md5 (db_keys ?db @ rows))"
      by (rule distinct_map_append[OF db_okD(6)[OF st(2)] keys(2)]) (use keys(4) in \<open>metis imageI\<close>)
    moreover have "distinct (map sr_rsubfp (db_subkeys ?db @ subdoc_rows ?ds))"
      by (rule distinct_map_append[OF db_okD(1)[OF st(2)] subs(1)]) (use subs(3) in \<open>metis imageI\<close>)
    ultimately show ?thesis
      using insert_jobs_new[of ?db ?t3] uids by (simp add: added_def del: rfold_jobs)
  qed
  then have "bulkInsertFromCopyinTables ((tmp, st), result) = (((?t3, st\<lparr>ps_db := added rows ?ds ?db\<rparr>), result), True)"
    unfolding bulkInsertFromCopyinTables_def 1 and_then_simps 2 3 by (simp add: report_ok[OF st(1)] del: rfold_jobs)
  then show ?thesis by (intro exI[of _ ?t3]) simp
qed

lemma bulkInsert_new:
  assumes "st_ok st" "all_new V keys (ps_db st)" "list_all (docs_fit V) (map (key_docs V) keys)"
    and "\<forall>k \<in> set keys. \<not> isl (pg_TSVECTOR V (kd_Keywords (fst (key_docs V k))))"
  shows "\<exists>tmp db. insert_all V keys (ps_db st) = Inr db
    \<and> bulkInsert V keys [] ((crTempTables, st), noErrors)
      = (((tmp, st\<lparr>ps_db := db, ps_notified := ps_notified st @ [KeysBulkUpdated (map pk_MD5 keys) []]\<rparr>), noErrors), length keys, 0, True)"
proof -
  let ?ds = "map (key_docs V) keys"
  note st = st_okD[OF assms(1)]
  have "\<exists>rows. rmap (cast_row V) (doc_rows V ?ds) = Inr rows"
    using assms(4)
  proof (induction keys)
    case (Cons k keys)
    then obtain tsv rows where "pg_TSVECTOR V (kd_Keywords (fst (key_docs V k))) = Inr tsv"
      "rmap (cast_row V) (doc_rows V (map (key_docs V) keys)) = Inr rows" by (auto simp: isl_def) (metis sum.exhaust)
    moreover from this(1) have "\<exists>row. cast_row V (doc_row V (fst (key_docs V k))) = Inr row" by (simp add: cast_row_def doc_row_def)
    ultimately show ?case by auto
  qed simp
  then obtain rows where rows: "rmap (cast_row V) (doc_rows V ?ds) = Inr rows" by blast
  note cast = cast_rows[OF rows]
  obtain tmp1 where c: "bulkInsertCopyKeysToServer V keys ((crTempTables, st), noErrors) = (((tmp1, st), noErrors), True)"
    "tmp1 = copied rows ?ds (crTempTables\<lparr>keys_copyin := [], subkeys_copyin := [], userids_copyin := [], keys_old := []\<rparr>)"
    by (rule CopyKeys_ok[OF st(3), of V keys crTempTables noErrors rows]) (use assms(3) rows in auto)
  then have t: "keys_copyin tmp1 = rows" "subkeys_copyin tmp1 = subdoc_rows ?ds" "userids_copyin tmp1 = uiddoc_rows ?ds"
    by (simp_all add: copied_def)
  obtain tmp2 where f: "bulkInsertFromCopyinTables ((tmp1, st), noErrors) = (((tmp2, st\<lparr>ps_db := added rows ?ds (ps_db st)\<rparr>), noErrors), True)"
    "keys_checked tmp2 = rows" "keys_copyin tmp2 = []" using FromCopyin_new[OF st(3,1) assms(2) rows t] by blast
  have dups: "bulkInsNumMinDups tmp2 = 0" by (simp add: bulkInsNumMinDups_def f(3))
  have len: "length rows = length keys" using arg_cong[OF cast(1), of length] by (simp add: doc_rows_def)
  have n: "noErrors\<lparr>ie_Duplicates := []\<rparr> = noErrors" by (simp add: noErrors_def)
  have "bulkInsert V keys [] ((crTempTables, st), noErrors) = (((tmp2, st\<lparr>ps_db := added rows ?ds (ps_db st),
      ps_notified := ps_notified st @ [KeysBulkUpdated (map pk_MD5 keys) []]\<rparr>), noErrors), length keys, 0, True)"
    by (simp add: bulkInsert_def c(1) f BulkNotify_def bulkInsQueryKeyChange_def Notify_def cast(2) doc_rows_key_docs dups len n)
  then show ?thesis using insert_all_new[OF st(1) assms(2) rows] by blast
qed

end
