(* ===== verification/ReloadSpec.thy ===== *)
theory ReloadSpec
  imports Reload BulkSpec
begin

text \<open>
  What reloading and reindexing do to the tables: a reload keeps the constraints, but not the
  announced digests; a reindex changes derived columns only, announces nothing, and ends.
\<close>

section \<open>User IDs of keys that are sent twice\<close>

lemma rows_where_four:
  "rows_where P [a, b, c, d] = (if P 0 a then [a] else []) @ (if P 1 b then [b] else []) @ (if P 2 c then [c] else []) @ (if P 3 d then [d] else [])"
  by (simp add: rows_where_def upt_rec numeral_3_eq_3 numeral_2_eq_2)

lemma loses_user_ids:
  assumes keys: "keys_copyin tmp = [q, q, r, r]" "kr_rfingerprint q \<noteq> kr_rfingerprint r" "kr_md5 q \<noteq> kr_md5 r" "kr_vfingerprint q \<noteq> kr_vfingerprint r"
    and uids: "userids_copyin tmp = [u, u, v, v]" "ur_rfingerprint u = kr_rfingerprint q" "ur_rfingerprint v = kr_rfingerprint r"
      "ur_uidstring u = ur_uidstring v"
    and empty: "subkeys_copyin tmp = []" "db_keys (ps_db st) = []" "db_subkeys (ps_db st) = []" "db_userids (ps_db st) = []" "ps_commits st = []"
  shows "\<exists>tmp' db. bulkInsertFromCopyinTables ((tmp, st), result) = (((tmp', st\<lparr>ps_db := db\<rparr>), result), True)
    \<and> db_keys db = [q, r] \<and> db_userids db = [u]"
proof -
  let ?db = "ps_db st" and ?t1 = "tmp\<lparr>keys_checked := [q, r]\<rparr>"
  have ne: "kr_rfingerprint r \<noteq> kr_rfingerprint q" "kr_md5 r \<noteq> kr_md5 q" "kr_vfingerprint r \<noteq> kr_vfingerprint q" using keys by simp_all
  have k: "bulkTxCleanCheckedKeys (tmp, ?db) = Inr (tmp\<lparr>keys_checked := []\<rparr>, ?db)"
    "bulkTxFilterUniqueKeys (tmp\<lparr>keys_checked := []\<rparr>, ?db) = Inr (tmp\<lparr>keys_checked := []\<rparr>, ?db)"
    "bulkTxPrepKeyStats (tmp\<lparr>keys_checked := []\<rparr>, ?db) = Inr (tmp\<lparr>keys_checked := []\<rparr>, ?db)"
    "bulkTxFilterDupKeys (tmp\<lparr>keys_checked := []\<rparr>, ?db) = Inr (?t1, ?db)"
    using keys ne empty(2) by (simp_all add: bulkTxCleanCheckedKeys_def bulkTxFilterUniqueKeys_def bulkTxPrepKeyStats_def
        bulkTxFilterDupKeys_def insert_keys_checked_def rows_where_four rowNumber1_def numeral_3_eq_3 numeral_2_eq_2)
  have 1: "bulkInsertCheckKeys ((tmp, st), result) = (((?t1, st), result), True)"
    by (simp add: bulkInsertCheckKeys_def report_ok[OF empty(5)] k)
  let ?t2 = "?t1\<lparr>subkeys_checked := []\<rparr>"
  have 2: "bulkInsertCheckSubkeys ((?t1, st), result) = (((?t2, st), result), True)"
    using empty(1) by (simp add: bulkInsertCheckSubkeys_def report_ok[OF empty(5)] bulkTxCleanCheckedSubkeys_def bulkTxFilterUniqueSubkeys_def
        bulkTxPrepSubkeyStats_def bulkTxFilterDupSubkeys_def insert_subkeys_checked_def)
  let ?t3 = "?t2\<lparr>userids_checked := [u]\<rparr>"
  have c: "userids_copyin ?t2 = [u, u, v, v]" using uids(1) by simp
  have key: "userid_key u \<noteq> userid_key v" using uids(2,3) keys(2) by (simp add: userid_key_def)
  have p: "parent_sent (?t2\<lparr>userids_checked := []\<rparr>) (ur_rfingerprint u)" using uids(2) by (simp add: parent_sent_def)
  have u: "bulkTxCleanCheckedUserIDs (?t2, ?db) = Inr (?t2\<lparr>userids_checked := []\<rparr>, ?db)"
    "bulkTxFilterUniqueUserIDs (?t2\<lparr>userids_checked := []\<rparr>, ?db) = Inr (?t2\<lparr>userids_checked := []\<rparr>, ?db)"
    "bulkTxPrepUserIDStats (?t2\<lparr>userids_checked := []\<rparr>, ?db) = Inr (?t2\<lparr>userids_checked := []\<rparr>, ?db)"
    "bulkTxFilterDupUserIDs (?t2\<lparr>userids_checked := []\<rparr>, ?db) = Inr (?t3, ?db)"
    using c key p uids(4) empty(4) by (simp_all add: bulkTxCleanCheckedUserIDs_def bulkTxFilterUniqueUserIDs_def bulkTxPrepUserIDStats_def
        bulkTxFilterDupUserIDs_def insert_userids_checked_def rows_where_four rowNumber1_def numeral_3_eq_3 numeral_2_eq_2)
  have 3: "bulkInsertCheckUserIDs ((?t2, st), result) = (((?t3, st), result), True)"
    by (simp add: bulkInsertCheckUserIDs_def report_ok[OF empty(5)] u)
  let ?new = "?db\<lparr>db_keys := [q, r], db_userids := [u]\<rparr>"
  have "?db\<lparr>db_keys := [q, r], db_subkeys := [], db_userids := [u]\<rparr> = ?new" using empty(3) by (cases ?db) simp
  then have "rfold (\<lambda>j. j) [bulkTxInsertKeys, bulkTxInsertSubkeys, bulkTxInsertUserIDs] (?t3, ?db) = Inr (?t3, ?new)"
    using insert_jobs_new[of ?db ?t3] keys(2,3) uids(2) empty(2-4) by (simp del: rfold_jobs)
  then have "bulkInsertFromCopyinTables ((tmp, st), result) = (((?t3, st\<lparr>ps_db := ?new\<rparr>), result), True)"
    unfolding bulkInsertFromCopyinTables_def 1 and_then_simps 2 3 by (simp add: report_ok[OF empty(5)] del: rfold_jobs)
  then show ?thesis by (intro exI[of _ ?t3] exI[of _ ?new]) simp
qed

section \<open>Reloading\<close>

lemma orphan_keys_cases:
  assumes "bulkTxClearKeys (tmp, db) = Inr s"
  shows "s = (tmp, db\<lparr>db_keys := filter (\<lambda>r. \<not> orphaned tmp (kr_rfingerprint r)) (db_keys db)\<rparr>)"
    "\<forall>r \<in> set (db_subkeys db). has_key (sr_rfingerprint r) (snd s)" "\<forall>r \<in> set (db_userids db). has_key (ur_rfingerprint r) (snd s)"
  using assms by (auto simp: bulkTxClearKeys_def Let_def split: if_splits)

lemma update_from_simps [simp]: "kr_rfingerprint (update_from sent r) = kr_rfingerprint r"
  by (simp add: update_from_def split: option.splits)

lemma update_from_md5:
  "kr_md5 (update_from sent r) \<in> kr_md5 ` set sent \<or> update_from sent r = r \<and> kr_rfingerprint r \<notin> kr_rfingerprint ` set sent"
  by (auto simp: update_from_def find_None_iff find_Some_iff split: option.splits)

lemma update_keys_cases:
  assumes "bulkTxUpdateKeys (tmp, db) = Inr s"
  shows "s = (tmp, db\<lparr>db_keys := map (update_from (keys_copyin tmp)) (db_keys db)\<rparr>)"
    "distinct (map kr_md5 (map (update_from (keys_copyin tmp)) (db_keys db)))"
  using assms by (auto simp: bulkTxUpdateKeys_def Let_def split: if_splits)


definition reload_jobs :: "job list" where
  "reload_jobs = [bulkTxCleanCheckedKeys, bulkTxJournalKeys]
     @ [bulkTxClearDupSubkeys, bulkTxClearOrphanSubkeys, bulkTxClearDupUserIDs, bulkTxClearOrphanUserIDs]
     @ [bulkTxClearKeys, bulkTxUpdateKeys]
     @ [bulkTxInsertSubkeys, bulkTxReindexSubkeys, bulkTxInsertUserIDs, bulkTxReindexUserIDs]"

lemma rfold_append_Inr: "rfold f (xs @ ys) s = Inr t \<longleftrightarrow> (\<exists>u. rfold f xs s = Inr u \<and> rfold f ys u = Inr t)"
  by (induction xs arbitrary: s) (auto simp: rbind_Inr_iff)

text \<open>Every statement keeps the constraints.\<close>

abbreviation keeps_ok :: "job \<Rightarrow> bool" where
  "keeps_ok \<equiv> preserves (\<lambda>s. db_ok (snd s))"

lemma resub_from_simps [simp]: "sr_rsubfp (resub_from sent r) = sr_rsubfp r" "sr_rfingerprint (resub_from sent r) = sr_rfingerprint r"
  by (simp_all add: resub_from_def split: option.splits)

lemma reuid_from_simps [simp]: "userid_key (reuid_from sent r) = userid_key r" "ur_rfingerprint (reuid_from sent r) = ur_rfingerprint r"
  by (auto simp: reuid_from_def userid_key_def split: option.splits)

lemma reindex_from_simps [simp]: "kr_rfingerprint (reindex_from sent r) = kr_rfingerprint r" "kr_md5 (reindex_from sent r) = kr_md5 r"
    "kr_doc (reindex_from sent r) = kr_doc r" "kr_ctime (reindex_from sent r) = kr_ctime r" "kr_mtime (reindex_from sent r) = kr_mtime r"
  by (simp_all add: reindex_from_def split: option.splits)

lemma map_o_simps [simp]:
  "map (sr_rsubfp \<circ> resub_from sent) rs = map sr_rsubfp rs" "map (userid_key \<circ> reuid_from sentu) us = map userid_key us"
  "map (kr_md5 \<circ> reindex_from sentk) ks = map kr_md5 ks" "map (kr_rfingerprint \<circ> reindex_from sentk) ks = map kr_rfingerprint ks"
  "map (kr_rfingerprint \<circ> update_from sentk) ks = map kr_rfingerprint ks"
  by (simp_all add: o_def)

lemma keeps_ok_jobs:
  "keeps_ok bulkTxCleanCopyin" "keeps_ok bulkTxCleanCheckedKeys" "keeps_ok bulkTxCleanCheckedSubkeys" "keeps_ok bulkTxCleanCheckedUserIDs"
  "keeps_ok bulkTxFilterUniqueSubkeys" "keeps_ok bulkTxPrepSubkeyStats" "keeps_ok bulkTxFilterDupSubkeys"
  "keeps_ok bulkTxFilterUniqueUserIDs" "keeps_ok bulkTxPrepUserIDStats" "keeps_ok bulkTxFilterDupUserIDs" "keeps_ok bulkTxJournalKeys"
  by (simp_all add: preserves_def bulkTxCleanCopyin_def bulkTxCleanCheckedKeys_def bulkTxCleanCheckedSubkeys_def bulkTxCleanCheckedUserIDs_def
      bulkTxFilterUniqueSubkeys_def bulkTxPrepSubkeyStats_def bulkTxFilterDupSubkeys_def bulkTxFilterUniqueUserIDs_def
      bulkTxPrepUserIDStats_def bulkTxFilterDupUserIDs_def bulkTxJournalKeys_def insert_checked_iff)

lemma keeps_ok_clear:
  "keeps_ok bulkTxClearDupSubkeys" "keeps_ok bulkTxClearOrphanSubkeys" "keeps_ok bulkTxClearDupUserIDs" "keeps_ok bulkTxClearOrphanUserIDs"
  by (auto simp: preserves_def bulkTxClearDupSubkeys_def bulkTxClearOrphanSubkeys_def bulkTxClearDupUserIDs_def bulkTxClearOrphanUserIDs_def
      db_ok_def has_key_def map_filter_distinct)

lemma keeps_ok_keys: "keeps_ok bulkTxClearKeys" "keeps_ok bulkTxUpdateKeys" "keeps_ok bulkTxReindexKeys"
proof -
  show "keeps_ok bulkTxClearKeys"
    by (auto simp: preserves_def bulkTxClearKeys_def Let_def db_ok_def map_filter_distinct split: if_splits)
  show "keeps_ok bulkTxUpdateKeys"
    by (auto simp: preserves_def bulkTxUpdateKeys_def Let_def db_ok_def has_key_iff image_image split: if_splits)
  show "keeps_ok bulkTxReindexKeys"
    by (auto simp: preserves_def bulkTxReindexKeys_def db_ok_def has_key_iff image_image)
qed

lemma keeps_ok_write:
  "keeps_ok bulkTxInsertSubkeys" "keeps_ok bulkTxReindexSubkeys" "keeps_ok bulkTxInsertUserIDs" "keeps_ok bulkTxReindexUserIDs"
  by (auto simp: preserves_def bulkTxInsertSubkeys_def bulkTxReindexSubkeys_def bulkTxInsertUserIDs_def bulkTxReindexUserIDs_def
      db_ok_def has_key_def Let_def split: if_splits)

lemmas keeps_ok_all = keeps_ok_jobs keeps_ok_clear keeps_ok_keys keeps_ok_write

text \<open>The statements on subkeys and user IDs leave the tables of keys alone.\<close>

definition key_tables :: "pgtemp \<times> pgdb \<Rightarrow> keyRow list \<times> gostring list \<times> keyRow list \<times> keyRow list" where
  "key_tables s = (keys_copyin (fst s), keys_old (fst s), keys_checked (fst s), db_keys (snd s))"

lemma keeps_key_tables:
  "preserves (\<lambda>s. key_tables s = t) bulkTxClearDupSubkeys" "preserves (\<lambda>s. key_tables s = t) bulkTxClearOrphanSubkeys"
  "preserves (\<lambda>s. key_tables s = t) bulkTxClearDupUserIDs" "preserves (\<lambda>s. key_tables s = t) bulkTxClearOrphanUserIDs"
  "preserves (\<lambda>s. key_tables s = t) bulkTxInsertSubkeys" "preserves (\<lambda>s. key_tables s = t) bulkTxReindexSubkeys"
  "preserves (\<lambda>s. key_tables s = t) bulkTxInsertUserIDs" "preserves (\<lambda>s. key_tables s = t) bulkTxReindexUserIDs"
  by (auto simp: preserves_def key_tables_def bulkTxClearDupSubkeys_def bulkTxClearOrphanSubkeys_def bulkTxClearDupUserIDs_def
      bulkTxClearOrphanUserIDs_def bulkTxInsertSubkeys_def bulkTxReindexSubkeys_def bulkTxInsertUserIDs_def bulkTxReindexUserIDs_def
      Let_def split: if_splits)

definition journal :: "pgtemp \<Rightarrow> pgdb \<Rightarrow> keyRow list" where
  "journal tmp db = map (\<lambda>r. r\<lparr>kr_doc := EmptyDoc, kr_keywords := []\<rparr>) (filter (\<lambda>r. kr_rfingerprint r \<in> key_rfps (keys_copyin tmp)) (db_keys db))"

lemma reload_jobs_ok:
  assumes "rfold (\<lambda>j. j) reload_jobs (tmp, db) = Inr (tmp', db')"
  shows "db_ok db \<Longrightarrow> db_ok db'" "keys_copyin tmp' = keys_copyin tmp" "keys_old tmp' = keys_old tmp" "keys_checked tmp' = journal tmp db"
    "db_keys db' = map (update_from (keys_copyin tmp)) (filter (\<lambda>r. \<not> orphaned tmp (kr_rfingerprint r)) (db_keys db))"
proof -
  show "db_ok db \<Longrightarrow> db_ok db'"
    using preserves_jobs[OF assms, of "\<lambda>s. db_ok (snd s)"] by (simp add: reload_jobs_def keeps_ok_all)
  obtain s1 s2 s3 where s: "rfold (\<lambda>j. j) [bulkTxCleanCheckedKeys, bulkTxJournalKeys] (tmp, db) = Inr s1"
    "rfold (\<lambda>j. j) [bulkTxClearDupSubkeys, bulkTxClearOrphanSubkeys, bulkTxClearDupUserIDs, bulkTxClearOrphanUserIDs] s1 = Inr s2"
    "rfold (\<lambda>j. j) [bulkTxClearKeys, bulkTxUpdateKeys] s2 = Inr s3"
    "rfold (\<lambda>j. j) [bulkTxInsertSubkeys, bulkTxReindexSubkeys, bulkTxInsertUserIDs, bulkTxReindexUserIDs] s3 = Inr (tmp', db')"
    using assms unfolding reload_jobs_def rfold_append_Inr by blast
  have 1: "key_tables s1 = (keys_copyin tmp, keys_old tmp, journal tmp db, db_keys db)"
    using s(1) by (auto simp: bulkTxCleanCheckedKeys_def bulkTxJournalKeys_def insert_checked_iff key_tables_def journal_def rbind_Inr_iff)
  have 2: "key_tables s2 = key_tables s1" by (rule preserves_jobs[OF s(2)]) (simp_all add: keeps_key_tables)
  have 4: "key_tables (tmp', db') = key_tables s3" by (rule preserves_jobs[OF s(4)]) (simp_all add: keeps_key_tables)
  obtain t2 d2 s2' where s2: "s2 = (t2, d2)" "bulkTxClearKeys (t2, d2) = Inr s2'" "bulkTxUpdateKeys s2' = Inr s3"
    using s(3) by (cases s2) (auto simp: rbind_Inr_iff)
  note c = orphan_keys_cases(1)[OF s2(2)]
  note u = update_keys_cases(1)[OF s2(3)[unfolded c]]
  have "orphaned t2 = orphaned tmp" using 1 2 s2(1) by (intro ext) (simp add: orphaned_def key_tables_def)
  then have 3: "key_tables s3 = (keys_copyin tmp, keys_old tmp, journal tmp db,
      map (update_from (keys_copyin tmp)) (filter (\<lambda>r. \<not> orphaned tmp (kr_rfingerprint r)) (db_keys db)))"
    using 1 2 s2(1) u by (simp add: key_tables_def)
  show "keys_copyin tmp' = keys_copyin tmp" "keys_old tmp' = keys_old tmp" "keys_checked tmp' = journal tmp db"
    "db_keys db' = map (update_from (keys_copyin tmp)) (filter (\<lambda>r. \<not> orphaned tmp (kr_rfingerprint r)) (db_keys db))"
    using 3 4 by (simp_all add: key_tables_def)
qed


definition emptied :: "pgtemp \<Rightarrow> pgtemp" where
  "emptied tmp = tmp\<lparr>keys_copyin := [], subkeys_copyin := [], userids_copyin := [], keys_old := []\<rparr>"

lemma bulkInsert_reload_steps:
  assumes "bulkInsert V keys oldRfps ((tmp, st), result) = (((tmp', st'), result'), n, d, True)" "oldRfps \<noteq> []" "ps_commits st = []"
  obtains rows tmp1 tmp2 db where "rmap (cast_row V) (doc_rows V (map (key_docs V) keys)) = Inr rows"
    "tmp1 = (copied rows (map (key_docs V) keys) (emptied tmp))\<lparr>keys_old := map Reverse oldRfps\<rparr>"
    "and_then (bulkInsertCheckSubkeys ((tmp1, st), result)) bulkInsertCheckUserIDs = (((tmp2, st), result), True)"
    "rfold (\<lambda>j. j) reload_jobs (tmp2, ps_db st) = Inr (tmp', db)"
    "st' = st\<lparr>ps_db := db, ps_notified := ps_notified st @ [KeysBulkUpdated (bulkUpdQueryKeyAdded tmp') (bulkUpdQueryKeyRemoved tmp')]\<rparr>"
proof -
  let ?ds = "map (key_docs V) keys"
  obtain tmp0 result0 ok0 where c: "bulkInsertCopyKeysToServer V keys ((tmp, st), result) = (((tmp0, st), result0), ok0)"
    "ok0 \<Longrightarrow> result0 = result"
    "ok0 \<Longrightarrow> \<exists>rows. rmap (cast_row V) (doc_rows V ?ds) = Inr rows \<and> tmp0 = copied rows ?ds (emptied tmp)"
    using CopyKeys_ok[OF assms(3), of V keys tmp result] unfolding emptied_def by metis
  have "ok0" using assms(1) c(1) by (cases ok0) (auto simp: bulkInsert_def)
  then obtain rows where rows: "rmap (cast_row V) (doc_rows V ?ds) = Inr rows" "tmp0 = copied rows ?ds (emptied tmp)" using c(3) by blast
  have c0: "bulkInsertCopyKeysToServer V keys ((tmp, st), result) = (((tmp0, st), result), True)" using c(1,2) \<open>ok0\<close> by simp
  let ?t1 = "tmp0\<lparr>keys_old := map Reverse oldRfps\<rparr>"
  have old: "bulkInsertCopyOldRfps oldRfps ((tmp0, st), result) = (if distinct (map Reverse oldRfps) then (((?t1, st), result), True)
      else (((tmp0, st), add_error (Err ErrUnique) result), False))"
    unfolding bulkInsertCopyOldRfps_def report_ok[OF assms(3)] by (simp add: Let_def rows(2) copied_def emptied_def)
  obtain b ok where f: "and_then (bulkInsertCopyOldRfps oldRfps ((tmp0, st), result)) bulkReloadFromCopyinTables = (b, ok)" by fastforce
  have "ok" using assms(1,2) c0 f by (auto simp: bulkInsert_def Let_def split: if_splits)
  then have f1: "bulkReloadFromCopyinTables ((?t1, st), result) = (b, True)" using f old by (auto split: if_splits)
  obtain b2 ok2 where c2: "and_then (bulkInsertCheckSubkeys ((?t1, st), result)) bulkInsertCheckUserIDs = (b2, ok2)" by fastforce
  obtain tmp2 result2 where 2: "b2 = ((tmp2, st), result2)" "ok2 \<Longrightarrow> result2 = result"
    using check_components[OF c2 assms(3)] by blast
  have w: "and_then (b2, ok2) (report (bulkExecSingleTx reload_jobs)) = (b, True)"
    using f1 c2 by (simp add: bulkReloadFromCopyinTables_def reload_jobs_def)
  then have "ok2" by (cases ok2) auto
  with 2 have b2: "b2 = ((tmp2, st), result)" by simp
  obtain tmp3 db where j: "rfold (\<lambda>j. j) reload_jobs (tmp2, ps_db st) = Inr (tmp3, db)" "b = ((tmp3, st\<lparr>ps_db := db\<rparr>), result)"
    using w \<open>ok2\<close> unfolding b2 and_then_simps by (auto simp: report_ok[OF assms(3)] split: sum.splits)
  have "tmp' = tmp3 \<and> st' = st\<lparr>ps_db := db, ps_notified := ps_notified st @ [KeysBulkUpdated (bulkUpdQueryKeyAdded tmp3) (bulkUpdQueryKeyRemoved tmp3)]\<rparr>"
    using assms(1,2) c0 f \<open>ok\<close> j(2) by (auto simp: bulkInsert_def BulkNotify_def Notify_def)
  with that[of rows ?t1 tmp2 db] rows c2 \<open>ok2\<close> b2 j(1) show ?thesis by simp
qed

text \<open>The digest of a key that a reload deletes stays announced.\<close>

lemma reload_unannounced:
  assumes "st_ok st" "oldRfps \<noteq> []" "bulkInsert V keys oldRfps ((tmp, st), result) = (((tmp', st'), result'), n, d, True)"
    and q: "q \<in> set (db_keys (ps_db st))" "kr_rfingerprint q \<in> Reverse ` set oldRfps"
      "kr_rfingerprint q \<notin> (\<lambda>k. Reverse (pub_Fingerprint k)) ` set keys" "kr_md5 q \<notin> pk_MD5 ` set keys" "kr_md5 q \<noteq> []"
  shows "\<not> has_key (kr_rfingerprint q) (ps_db st') \<and> kr_md5 q \<notin> st_digests st'
    \<and> (\<exists>kc. ps_notified st' = ps_notified st @ [kc] \<and> kr_md5 q \<in> announced kc (st_digests st))"
proof -
  note st = st_okD[OF assms(1)]
  obtain rows tmp1 tmp2 db where s: "rmap (cast_row V) (doc_rows V (map (key_docs V) keys)) = Inr rows"
    "tmp1 = (copied rows (map (key_docs V) keys) (emptied tmp))\<lparr>keys_old := map Reverse oldRfps\<rparr>"
    "and_then (bulkInsertCheckSubkeys ((tmp1, st), result)) bulkInsertCheckUserIDs = (((tmp2, st), result), True)"
    "rfold (\<lambda>j. j) reload_jobs (tmp2, ps_db st) = Inr (tmp', db)"
    "st' = st\<lparr>ps_db := db, ps_notified := ps_notified st @ [KeysBulkUpdated (bulkUpdQueryKeyAdded tmp') (bulkUpdQueryKeyRemoved tmp')]\<rparr>"
    by (rule bulkInsert_reload_steps[OF assms(3,2) st(3)])
  have same: "same_keys tmp1 (ps_db st) (tmp2, ps_db st)" using check_components[OF s(3) st(3)] by force
  then have t2: "keys_copyin tmp2 = rows" "keys_old tmp2 = map Reverse oldRfps"
    by (simp_all add: same_keys_def s(2) copied_def emptied_def)
  note j = reload_jobs_ok[OF s(4), unfolded t2]
  note cast = cast_rows[OF s(1), unfolded doc_rows_key_docs]
  have rows: "kr_rfingerprint q \<notin> key_rfps rows" "kr_md5 q \<notin> key_md5s rows"
    using q(3,4) arg_cong[OF cast(1), of set] arg_cong[OF cast(2), of set] by simp_all
  have orphan: "orphaned tmp2 (kr_rfingerprint q)" using q(2) rows(1) t2 by (simp add: orphaned_def)
  have unique: "r = q" if "r \<in> set (db_keys (ps_db st))" "kr_md5 r = kr_md5 q" for r
    using that q(1) db_okD(6)[OF st(1)] unfolding distinct_map inj_on_def by metis
  have gone: "kr_md5 r \<noteq> kr_md5 q" if "r \<in> set (db_keys db)" for r
  proof
    assume "kr_md5 r = kr_md5 q"
    obtain r0 where r0: "r0 \<in> set (db_keys (ps_db st))" "\<not> orphaned tmp2 (kr_rfingerprint r0)" "r = update_from rows r0"
      using \<open>r \<in> set (db_keys db)\<close> j(5) by auto
    with \<open>kr_md5 r = kr_md5 q\<close> rows(2) have "r = r0" using update_from_md5[of rows r0] by auto
    with unique[of r0] r0 \<open>kr_md5 r = kr_md5 q\<close> orphan show False by simp
  qed
  have "\<not> has_key (kr_rfingerprint q) db" using orphan by (auto simp: has_key_iff j(5))
  moreover have "kr_md5 q \<notin> digests db" using gone unfolding digests_def by (metis Diff_iff imageE)
  moreover have "kr_md5 q \<notin> set (bulkUpdQueryKeyRemoved tmp')"
  proof
    assume "kr_md5 q \<in> set (bulkUpdQueryKeyRemoved tmp')"
    then obtain r where "r \<in> set (db_keys (ps_db st))" "kr_rfingerprint r \<in> key_rfps rows" "kr_md5 r = kr_md5 q"
      by (auto simp: bulkUpdQueryKeyRemoved_def j(4) journal_def t2)
    with unique rows(1) show False by blast
  qed
  ultimately show ?thesis
    using q(1,5) by (intro conjI exI[of _ "KeysBulkUpdated (bulkUpdQueryKeyAdded tmp') (bulkUpdQueryKeyRemoved tmp')"])
      (auto simp: s(5) announced_def digests_def)
qed


text \<open>A key that has no user IDs any more keeps its rows of user IDs.\<close>

definition stale :: "useridRow \<Rightarrow> pgtemp \<times> pgdb \<Rightarrow> bool" where
  "stale u s \<longleftrightarrow> u \<in> set (db_userids (snd s)) \<and> ur_rfingerprint u \<in> key_rfps (keys_copyin (fst s))
     \<and> ur_rfingerprint u \<notin> ur_rfingerprint ` set (userids_copyin (fst s))"

definition stale_checked :: "useridRow \<Rightarrow> pgtemp \<times> pgdb \<Rightarrow> bool" where
  "stale_checked u s \<longleftrightarrow> stale u s \<and> ur_rfingerprint u \<notin> ur_rfingerprint ` set (userids_checked (fst s))"

lemma preserves_stale:
  "preserves (stale u) bulkTxCleanCheckedSubkeys" "preserves (stale u) bulkTxFilterUniqueSubkeys"
  "preserves (stale u) bulkTxPrepSubkeyStats" "preserves (stale u) bulkTxFilterDupSubkeys"
  by (auto simp: preserves_def stale_def bulkTxCleanCheckedSubkeys_def bulkTxFilterUniqueSubkeys_def bulkTxPrepSubkeyStats_def
      bulkTxFilterDupSubkeys_def insert_checked_iff)

lemma preserves_stale_checked:
  "preserves (stale_checked u) bulkTxFilterUniqueUserIDs" "preserves (stale_checked u) bulkTxPrepUserIDStats"
  "preserves (stale_checked u) bulkTxFilterDupUserIDs"
  using rows_where_subset
  by (auto simp: preserves_def stale_def stale_checked_def bulkTxFilterUniqueUserIDs_def bulkTxPrepUserIDStats_def
      bulkTxFilterDupUserIDs_def insert_checked_iff dest!: subsetD[OF rows_where_subset])

lemma preserves_stale_reload: "list_all (preserves (stale_checked u)) reload_jobs"
proof -
  have 1: "preserves (stale_checked u) bulkTxCleanCheckedKeys" "preserves (stale_checked u) bulkTxJournalKeys"
    "preserves (stale_checked u) bulkTxClearDupSubkeys" "preserves (stale_checked u) bulkTxClearOrphanSubkeys"
    "preserves (stale_checked u) bulkTxClearDupUserIDs" "preserves (stale_checked u) bulkTxClearOrphanUserIDs"
    by (auto simp: preserves_def stale_checked_def stale_def bulkTxCleanCheckedKeys_def bulkTxJournalKeys_def bulkTxClearDupSubkeys_def
        bulkTxClearOrphanSubkeys_def bulkTxClearDupUserIDs_def bulkTxClearOrphanUserIDs_def insert_checked_iff orphaned_def)
  have 2: "preserves (stale_checked u) bulkTxClearKeys" "preserves (stale_checked u) bulkTxUpdateKeys"
    "preserves (stale_checked u) bulkTxInsertSubkeys" "preserves (stale_checked u) bulkTxReindexSubkeys"
    "preserves (stale_checked u) bulkTxInsertUserIDs"
    by (auto simp: preserves_def stale_checked_def stale_def bulkTxClearKeys_def bulkTxUpdateKeys_def bulkTxInsertSubkeys_def
        bulkTxReindexSubkeys_def bulkTxInsertUserIDs_def Let_def split: if_splits)
  have keep: "reuid_from sent u = u" if "ur_rfingerprint u \<notin> ur_rfingerprint ` set sent" for sent
  proof -
    have "find (\<lambda>c. userid_key c = userid_key u) sent = None" using that by (auto simp: find_None_iff userid_key_def image_iff)
    then show ?thesis by (simp add: reuid_from_def)
  qed
  have "stale_checked u s'" if "stale_checked u s" "bulkTxReindexUserIDs s = Inr s'" for s s'
  proof -
    obtain tmp db where s: "s = (tmp, db)" by fastforce
    with that(1) have "u \<in> set (db_userids db)" "reuid_from (userids_copyin tmp) u = u"
      by (auto simp: stale_checked_def stale_def intro!: keep)
    then have "u \<in> reuid_from (userids_copyin tmp) ` set (db_userids db)" by (metis imageI)
    then show ?thesis using that s by (auto simp: bulkTxReindexUserIDs_def stale_checked_def stale_def)
  qed
  then have "preserves (stale_checked u) bulkTxReindexUserIDs" by (simp add: preserves_def)
  with 1 2 show ?thesis by (simp add: reload_jobs_def)
qed

lemma ps_db_unchanged [simp]: "st\<lparr>ps_db := db\<rparr> = st \<longleftrightarrow> db = ps_db st"
  by (cases st) auto

lemma reload_keeps_stale:
  assumes "ps_commits st = []" "oldRfps \<noteq> []" "bulkInsert V keys oldRfps ((tmp, st), result) = (((tmp', st'), result'), n, d, True)"
    and u: "u \<in> set (db_userids (ps_db st))" "ur_rfingerprint u \<in> (\<lambda>k. Reverse (pub_Fingerprint k)) ` set keys"
    and none: "\<forall>k \<in> set keys. Reverse (pub_Fingerprint k) = ur_rfingerprint u \<longrightarrow> snd (KeywordsTSVector V (SortKey (pg_E V) k)) = []"
  shows "u \<in> set (db_userids (ps_db st'))"
proof -
  obtain rows tmp1 tmp2 db where s: "rmap (cast_row V) (doc_rows V (map (key_docs V) keys)) = Inr rows"
    "tmp1 = (copied rows (map (key_docs V) keys) (emptied tmp))\<lparr>keys_old := map Reverse oldRfps\<rparr>"
    "and_then (bulkInsertCheckSubkeys ((tmp1, st), result)) bulkInsertCheckUserIDs = (((tmp2, st), result), True)"
    "rfold (\<lambda>j. j) reload_jobs (tmp2, ps_db st) = Inr (tmp', db)"
    "st' = st\<lparr>ps_db := db, ps_notified := ps_notified st @ [KeysBulkUpdated (bulkUpdQueryKeyAdded tmp') (bulkUpdQueryKeyRemoved tmp')]\<rparr>"
    by (rule bulkInsert_reload_steps[OF assms(3,2,1)])
  have uids: "ur_rfingerprint u \<notin> ur_rfingerprint ` set (uiddoc_rows (map (key_docs V) ks))" if "set ks \<subseteq> set keys" for ks
    using that
  proof (induction ks)
    case (Cons k ks)
    have "ur_rfingerprint u \<notin> ur_rfingerprint ` set (uiddoc_rows [key_docs V k])"
    proof
      assume "ur_rfingerprint u \<in> ur_rfingerprint ` set (uiddoc_rows [key_docs V k])"
      then obtain r where r: "r \<in> set (uiddoc_rows [key_docs V k])" "ur_rfingerprint r = ur_rfingerprint u" by (metis imageE)
      with key_docs_uids(2)[OF r(1)] have "Reverse (pub_Fingerprint k) = ur_rfingerprint u" by simp
      then have "snd (KeywordsTSVector V (SortKey (pg_E V) k)) = []" using none Cons.prems by simp
      with r(1) show False unfolding key_docs_rows(2) by simp
    qed
    moreover have "uiddoc_rows (map (key_docs V) (k # ks)) = uiddoc_rows [key_docs V k] @ uiddoc_rows (map (key_docs V) ks)" by simp
    ultimately show ?case using Cons by (simp add: image_Un del: doc_rows_simps)
  qed simp
  have "key_rfps rows = (\<lambda>k. Reverse (pub_Fingerprint k)) ` set keys"
    using arg_cong[OF cast_rows(1)[OF s(1), unfolded doc_rows_key_docs], of set] by simp
  then have st1: "stale u (tmp1, ps_db st)" using u uids[of keys] by (simp add: stale_def s(2) copied_def emptied_def)
  obtain p where p: "rfold (\<lambda>j. j) [bulkTxCleanCheckedSubkeys, bulkTxFilterUniqueSubkeys, bulkTxPrepSubkeyStats, bulkTxFilterDupSubkeys]
      (tmp1, ps_db st) = Inr p" "bulkInsertCheckSubkeys ((tmp1, st), result) = (((fst p, st\<lparr>ps_db := snd p\<rparr>), result), True)"
    using s(3) by (auto simp: bulkInsertCheckSubkeys_def report_ok[OF assms(1)] simp del: rfold_jobs split: sum.splits)
  have st2: "stale u p" by (rule preserves_jobs[where P = "stale u", OF p(1) st1]) (simp add: preserves_stale)
  let ?p = "(fst p)\<lparr>userids_checked := []\<rparr>"
  have clean: "bulkTxCleanCheckedUserIDs (fst p, snd p) = Inr (?p, snd p)" by (cases p) (simp add: bulkTxCleanCheckedUserIDs_def)
  have "rfold (\<lambda>j. j) [bulkTxCleanCheckedUserIDs, bulkTxFilterUniqueUserIDs, bulkTxPrepUserIDStats, bulkTxFilterDupUserIDs] (fst p, snd p)
      = Inr (tmp2, ps_db st)"
    using s(3) p(2) assms(1) by (auto simp: bulkInsertCheckUserIDs_def report_ok simp del: rfold_jobs split: sum.splits)
  then have "rfold (\<lambda>j. j) [bulkTxFilterUniqueUserIDs, bulkTxPrepUserIDStats, bulkTxFilterDupUserIDs] (?p, snd p) = Inr (tmp2, ps_db st)"
    unfolding rfold_jobs[of bulkTxCleanCheckedUserIDs] clean rbind_simps .
  then have "stale_checked u (tmp2, ps_db st)"
    by (rule preserves_jobs) (use st2 in \<open>simp_all add: preserves_stale_checked, simp add: stale_checked_def stale_def\<close>)
  then have "stale_checked u (tmp', db)" by (rule preserves_jobs[where P = "stale_checked u", OF s(4) _ preserves_stale_reload])
  then show ?thesis by (simp add: s(5) stale_checked_def stale_def)
qed


section \<open>Reindexing\<close>

text \<open>The columns of the keys that a reindex must not change, and the invariant of the tables with them.\<close>

definition kept_columns :: "pgdb \<Rightarrow> (gostring \<times> jdoc \<times> time \<times> time \<times> gostring) list" where
  "kept_columns db = map (\<lambda>r. (kr_rfingerprint r, kr_doc r, kr_ctime r, kr_mtime r, kr_md5 r)) (db_keys db)"

definition same_columns :: "(gostring \<times> jdoc \<times> time \<times> time \<times> gostring) list \<Rightarrow> pgdb \<Rightarrow> bool" where
  "same_columns c db \<longleftrightarrow> db_ok db \<and> kept_columns db = c"

abbreviation keeps_columns :: "(gostring \<times> jdoc \<times> time \<times> time \<times> gostring) list \<Rightarrow> job \<Rightarrow> bool" where
  "keeps_columns c \<equiv> preserves (\<lambda>s. same_columns c (snd s))"

lemma keeps_columnsI:
  "keeps_ok j \<Longrightarrow> preserves (\<lambda>s. kept_columns (snd s) = c) j \<Longrightarrow> keeps_columns c j"
  unfolding preserves_def same_columns_def by blast

lemma keeps_kept_jobs:
  "preserves (\<lambda>s. kept_columns (snd s) = c) bulkTxCleanCopyin" "preserves (\<lambda>s. kept_columns (snd s) = c) bulkTxCleanCheckedSubkeys"
  "preserves (\<lambda>s. kept_columns (snd s) = c) bulkTxCleanCheckedUserIDs" "preserves (\<lambda>s. kept_columns (snd s) = c) bulkTxFilterUniqueSubkeys"
  "preserves (\<lambda>s. kept_columns (snd s) = c) bulkTxPrepSubkeyStats" "preserves (\<lambda>s. kept_columns (snd s) = c) bulkTxFilterDupSubkeys"
  "preserves (\<lambda>s. kept_columns (snd s) = c) bulkTxFilterUniqueUserIDs" "preserves (\<lambda>s. kept_columns (snd s) = c) bulkTxPrepUserIDStats"
  "preserves (\<lambda>s. kept_columns (snd s) = c) bulkTxFilterDupUserIDs"
  by (auto simp: preserves_def bulkTxCleanCopyin_def bulkTxCleanCheckedSubkeys_def bulkTxCleanCheckedUserIDs_def
      bulkTxFilterUniqueSubkeys_def bulkTxPrepSubkeyStats_def bulkTxFilterDupSubkeys_def bulkTxFilterUniqueUserIDs_def
      bulkTxPrepUserIDStats_def bulkTxFilterDupUserIDs_def insert_checked_iff)

lemma keeps_kept_write:
  "preserves (\<lambda>s. kept_columns (snd s) = c) bulkTxClearDupSubkeys" "preserves (\<lambda>s. kept_columns (snd s) = c) bulkTxInsertSubkeys"
  "preserves (\<lambda>s. kept_columns (snd s) = c) bulkTxReindexSubkeys" "preserves (\<lambda>s. kept_columns (snd s) = c) bulkTxClearDupUserIDs"
  "preserves (\<lambda>s. kept_columns (snd s) = c) bulkTxInsertUserIDs" "preserves (\<lambda>s. kept_columns (snd s) = c) bulkTxReindexUserIDs"
  "preserves (\<lambda>s. kept_columns (snd s) = c) bulkTxReindexKeys"
  by (auto simp: preserves_def kept_columns_def bulkTxClearDupSubkeys_def bulkTxInsertSubkeys_def
      bulkTxReindexSubkeys_def bulkTxClearDupUserIDs_def bulkTxInsertUserIDs_def bulkTxReindexUserIDs_def bulkTxReindexKeys_def
      Let_def o_def split: if_splits)

lemmas keeps_columns_jobs = keeps_kept_jobs[THEN keeps_columnsI[rotated]] keeps_kept_write[THEN keeps_columnsI[rotated]]

definition reindex_jobs :: "job list" where
  "reindex_jobs = [bulkTxCleanCopyin, bulkTxCleanCheckedSubkeys, bulkTxFilterUniqueSubkeys, bulkTxPrepSubkeyStats, bulkTxFilterDupSubkeys,
     bulkTxCleanCheckedUserIDs, bulkTxFilterUniqueUserIDs, bulkTxPrepUserIDStats, bulkTxFilterDupUserIDs,
     bulkTxClearDupSubkeys, bulkTxInsertSubkeys, bulkTxReindexSubkeys,
     bulkTxClearDupUserIDs, bulkTxInsertUserIDs, bulkTxReindexUserIDs, bulkTxReindexKeys]"

lemma reindex_jobs_keep:
  "list_all (preserves (\<lambda>s. kept_columns (snd s) = c)) reindex_jobs" "list_all (keeps_columns c) reindex_jobs"
  by (simp_all add: reindex_jobs_def keeps_kept_jobs keeps_kept_write keeps_columns_jobs keeps_ok_all)

lemma preserves_copyin:
  "preserves (\<lambda>s. P (snd s)) (insert_keys_copyin V ks)" "preserves (\<lambda>s. P (snd s)) (insert_subkeys_copyin ss)"
  "preserves (\<lambda>s. P (snd s)) (insert_userids_copyin us)"
  by (auto simp: preserves_def insert_keys_copyin_def insert_subkeys_copyin_def insert_userids_copyin_def rbind_Inr_iff split: if_splits)

text \<open>A bulk step that keeps a property of the database and announces nothing.\<close>

definition quiet :: "(pgdb \<Rightarrow> bool) \<Rightarrow> (bulk \<Rightarrow> bulk \<times> bool) \<Rightarrow> bool" where
  "quiet P f \<longleftrightarrow> (\<forall>b b' ok. f b = (b', ok) \<longrightarrow> P (ps_db (snd (fst b))) \<longrightarrow>
     P (ps_db (snd (fst b'))) \<and> ps_notified (snd (fst b')) = ps_notified (snd (fst b)))"

lemma Commit_cases:
  "Commit db st = (st', r) \<Longrightarrow> (ps_db st' = db \<or> ps_db st' = ps_db st) \<and> ps_notified st' = ps_notified st"
  by (auto simp: Commit_def split: list.splits bool.splits)

lemma quiet_report:
  assumes "list_all (preserves (\<lambda>s. P (snd s))) js"
  shows "quiet P (report (bulkExecSingleTx js))" "quiet P (report (bulkInsertSendBunchTx js))"
proof -
  have k: "P db" if "rfold (\<lambda>j. j) js (tmp, ps_db st) = Inr (tmp', db)" "P (ps_db st)" for tmp st tmp' db
    using preserves_jobs[where P = "\<lambda>s. P (snd s)", OF that(1) _ assms] that(2) by simp
  show "quiet P (report (bulkExecSingleTx js))"
    unfolding quiet_def report_def bulkExecSingleTx_def
    by (fastforce split: prod.splits sum.splits dest!: Commit_cases dest: k)
  show "quiet P (report (bulkInsertSendBunchTx js))"
    unfolding quiet_def report_def bulkInsertSendBunchTx_def
    by (fastforce split: prod.splits sum.splits dest!: Commit_cases dest: k)
qed

lemma quiet_and_then:
  assumes "quiet P f" "quiet P g"
  shows "quiet P (\<lambda>b. and_then (f b) g)"
proof -
  have "P (ps_db (snd (fst b'))) \<and> ps_notified (snd (fst b')) = ps_notified (snd (fst b))"
    if r: "and_then (f b) g = (b', ok)" "P (ps_db (snd (fst b)))" for b b' ok
  proof -
    obtain b1 ok1 where f: "f b = (b1, ok1)" by fastforce
    have 1: "P (ps_db (snd (fst b1)))" "ps_notified (snd (fst b1)) = ps_notified (snd (fst b))"
      using assms(1)[unfolded quiet_def, rule_format, OF f r(2)] by simp_all
    show ?thesis
    proof (cases ok1)
      case True
      with r(1) f have "g b1 = (b', ok)" by simp
      from assms(2)[unfolded quiet_def, rule_format, OF this 1(1)] 1(2) show ?thesis by simp
    next
      case False
      with r(1) f 1 show ?thesis by simp
    qed
  qed
  then show ?thesis unfolding quiet_def by blast
qed

lemma quiet_True: "quiet P (\<lambda>b. (b, True))"
  by (simp add: quiet_def)

lemma quiet_SendBunch: "quiet P (bulkInsertSendBunch V bunch)"
  unfolding bulkInsertSendBunch_def
  by (intro quiet_and_then) (auto intro!: quiet_report quiet_True simp: preserves_copyin)

lemma quiet_reindex_bunches: "quiet P (reindex_bunches V kds)"
proof (induction "length kds" arbitrary: kds rule: less_induct)
  case less
  show ?case
  proof (cases "kds = []")
    case True
    then show ?thesis by (simp add: quiet_def reindex_bunches.simps)
  next
    case False
    obtain bunch rest where p: "pull_bunch V kds newSqlBunch = (bunch, rest)" by fastforce
    have e: "reindex_bunches V kds = (\<lambda>b. and_then (bulkInsertSendBunch V bunch b) (reindex_bunches V rest))"
      using False p by (intro ext) (subst reindex_bunches.simps, auto simp: and_then_def split: prod.splits)
    have "length rest < length kds" using pull_bunch_shrinks[OF False, of V newSqlBunch] p by simp
    from less[OF this] show ?thesis unfolding e by (intro quiet_and_then quiet_SendBunch)
  qed
qed

lemma quiet_bulkReindex:
  assumes "list_all (preserves (\<lambda>s. P (snd s))) reindex_jobs"
  shows "quiet P (bulkReindex V docs)"
  unfolding bulkReindex_def bulkReindexDoCopy_def bulkReindexFromCopyinTables_def bulkInsertCleanCopyin_def
    bulkInsertCheckSubkeys_def bulkInsertCheckUserIDs_def
  by (intro quiet_and_then quiet_report quiet_reindex_bunches) (use assms in \<open>simp_all add: reindex_jobs_def\<close>)

lemma reindex_loop_quiet:
  assumes keep: "list_all (preserves (\<lambda>s. P (snd s))) reindex_jobs"
  shows
  "reindex_loop V fuel retry saved bookmark docs b = Some (Inr b') \<Longrightarrow> P (ps_db (snd (fst b))) \<Longrightarrow>
    P (ps_db (snd (fst b'))) \<and> ps_notified (snd (fst b')) = ps_notified (snd (fst b))"
proof (induction fuel arbitrary: retry saved bookmark docs b)
  case (Suc fuel)
  obtain tmp st result where b: "b = ((tmp, st), result)" by (metis prod.exhaust)
  obtain bookmark1 docs1 result1 n finished where r: "refreshBunch V bookmark docs result st = Inr (bookmark1, docs1, result1, n, finished)"
    using Suc.prems(1) unfolding b by (auto split: sum.splits)
  obtain b2 ok where k: "bulkReindex V docs1 ((tmp, st), result1) = (b2, ok)" by fastforce
  have q: "P (ps_db (snd (fst b2)))" "ps_notified (snd (fst b2)) = ps_notified st"
    using quiet_bulkReindex[OF keep, of V docs1] k Suc.prems(2) unfolding quiet_def b by fastforce+
  have "b' = ((tmp, st), result1) \<or> b' = b2 \<or> (\<exists>retry saved bookmark docs. reindex_loop V fuel retry saved bookmark docs b2 = Some (Inr b'))
      \<or> (\<exists>retry saved bookmark docs. reindex_loop V fuel retry saved bookmark docs ((tmp, st), result1) = Some (Inr b'))"
    using Suc.prems(1) unfolding b by (auto simp: r k Let_def split: if_splits)
  then show ?case using Suc.IH q Suc.prems(2) unfolding b by fastforce
qed simp

lemma Reindex_quiet:
  assumes "Reindex V fuel st = Some (Inr (st', e))" "db_ok (ps_db st)"
  shows "db_ok (ps_db st')" "kept_columns (ps_db st') = kept_columns (ps_db st)" "ps_notified st' = ps_notified st"
proof -
  let ?c = "kept_columns (ps_db st)"
  obtain st1 r where c: "bulkCreateTempTables st = (st1, r)" by fastforce
  have 1: "ps_db st1 = ps_db st" "ps_notified st1 = ps_notified st"
    using Commit_cases[of "ps_db st" st st1 r] c unfolding bulkCreateTempTables_def by auto
  have "same_columns ?c (ps_db st') \<and> ps_notified st' = ps_notified st"
  proof (cases r)
    case (Inl e)
    with assms c 1 show ?thesis by (simp add: Reindex_def same_columns_def)
  next
    case (Inr _)
    then obtain tmp st2 result where l: "reindex_loop V fuel 1 zeroTime zeroTime [] ((crTempTables, st1), noErrors) = Some (Inr ((tmp, st2), result))"
      "st' = bulkDropTempTables st2"
      using assms(1) c by (auto simp: Reindex_def split: option.splits sum.splits)
    obtain r2 where "Commit (ps_db st2) st2 = (st', r2)" using l(2) by (cases "Commit (ps_db st2) st2") (simp add: bulkDropTempTables_def)
    from Commit_cases[OF this] have "ps_db st' = ps_db st2" "ps_notified st' = ps_notified st2" by auto
    moreover have "same_columns ?c (ps_db st2) \<and> ps_notified st2 = ps_notified st1"
      using reindex_loop_quiet[OF reindex_jobs_keep(2) l(1), of ?c] 1 assms(2) by (simp add: same_columns_def)
    ultimately show ?thesis using 1 by simp
  qed
  then show "db_ok (ps_db st')" "kept_columns (ps_db st') = kept_columns (ps_db st)" "ps_notified st' = ps_notified st"
    by (simp_all add: same_columns_def)
qed


subsection \<open>A reindex ends\<close>

text \<open>The rows that are still behind a bookmark.\<close>

definition later :: "(gostring \<times> jdoc \<times> time \<times> time \<times> gostring) list \<Rightarrow> time \<Rightarrow> nat" where
  "later c t = length (filter (\<lambda>(_, _, _, m, _). t < m) c)"

lemma later_bounds: "later c t \<le> length c" "t \<le> t' \<Longrightarrow> later c t' \<le> later c t"
proof -
  show "later c t \<le> length c" by (simp add: later_def)
  show "later c t' \<le> later c t" if "t \<le> t'"
    unfolding later_def using that by (induction c) auto
qed

lemma later_less: "(a, b, d, t', e) \<in> set c \<Longrightarrow> t < t' \<Longrightarrow> later c t' < later c t"
proof (induction c)
  case (Cons x c)
  have "later (x # c) u = later [x] u + later c u" for u by (simp add: later_def)
  moreover have "later [x] t' \<le> later [x] t" "later c t' \<le> later c t" using later_bounds(2) Cons.prems(2) by (simp_all add: less_imp_le)
  moreover have "later [x] t' < later [x] t" if "x = (a, b, d, t', e)" using that Cons.prems(2) by (simp add: later_def)
  moreover have "later c t' < later c t" if "x \<noteq> (a, b, d, t', e)" using that Cons by auto
  ultimately show ?case by (cases "x = (a, b, d, t', e)") auto
qed simp

lemma refresh_docs_bookmark:
  "refresh_docs V kds t docs result = Inr (t', docs', result') \<Longrightarrow> t' = (if kds = [] then t else kd_MTime (last kds))"
  by (induction V kds t docs result rule: refresh_docs.induct) (auto split: sum.splits fault.splits if_splits prod.splits)

lemma refreshBunch_bookmark:
  assumes "refreshBunch V t docs result st = Inr (t', docs', result', n, finished)"
  shows "finished \<Longrightarrow> t' = t" "\<not> finished \<Longrightarrow> t < t' \<and> later (kept_columns (ps_db st)) t' < later (kept_columns (ps_db st)) t"
proof -
  let ?kds = "fetchKeyDocsModifiedSince t st"
  show "finished \<Longrightarrow> t' = t"
    using assms by (auto simp: refreshBunch_def Let_def rbind_Inr_iff split: if_splits)
  assume "\<not> finished"
  then have ne: "?kds \<noteq> []" and "\<exists>docs' result'. refresh_docs V ?kds t docs result = Inr (t', docs', result')"
    using assms by (auto simp: refreshBunch_def Let_def rbind_Inr_iff split: if_splits)
  then have t': "t' = kd_MTime (last ?kds)" using refresh_docs_bookmark by fastforce
  have "last ?kds \<in> set ?kds" using ne by simp
  then obtain r where r: "r \<in> set (db_keys (ps_db st))" "t < kr_mtime r" "kd_MTime (last ?kds) = kr_mtime r"
    unfolding fetchKeyDocsModifiedSince_def order_limit_def by (auto simp: key_doc_def dest!: in_set_takeD)
  then have "(kr_rfingerprint r, kr_doc r, kr_ctime r, t', kr_md5 r) \<in> set (kept_columns (ps_db st))"
    by (auto simp: kept_columns_def t')
  from later_less[OF this] r t' show "t < t' \<and> later (kept_columns (ps_db st)) t' < later (kept_columns (ps_db st)) t" by simp
qed

lemma reindex_loop_ends:
  assumes "kept_columns (ps_db (snd (fst b))) = c" "saved \<le> t" "0 < retry"
  shows "\<exists>fuel. reindex_loop V fuel retry saved t docs b \<noteq> None"
  using assms
proof (induction "later c saved * (3 * (length c + 1)) + (2 - retry) * (length c + 1) + later c t" arbitrary: retry saved t docs b rule: less_induct)
  case less
  obtain tmp st result where b: "b = ((tmp, st), result)" by (metis prod.exhaust)
  have c: "kept_columns (ps_db st) = c" using less.prems(1) b by simp
  show ?case
  proof (cases "refreshBunch V t docs result st")
    case (Inl e)
    then show ?thesis by (intro exI[of _ 1]) (simp add: b)
  next
    case (Inr p)
    obtain t' docs' result' n finished where p: "refreshBunch V t docs result st = Inr (t', docs', result', n, finished)"
      using Inr by (metis prod_cases5)
    note bm = refreshBunch_bookmark[OF p, unfolded c]
    have t': "t \<le> t'" "later c t' \<le> later c t" using bm by (cases finished; simp)+
    obtain b2 ok where k: "bulkReindex V docs' ((tmp, st), result') = (b2, ok)" by fastforce
    have b2: "kept_columns (ps_db (snd (fst b2))) = c"
      using quiet_bulkReindex[OF reindex_jobs_keep(1)[of c], of V docs'] k c unfolding quiet_def by fastforce
    let ?L = "length c + 1"
    let ?flush = "finished \<and> docs' \<noteq> [] \<or> keysInBunch - 100 < length docs'"
    have step: "\<exists>fuel. reindex_loop V fuel retry saved t docs b \<noteq> None"
      if "\<And>fuel. reindex_loop V (Suc fuel) retry saved t docs b = reindex_loop V fuel retry' saved' u docs2 b'"
        "\<exists>fuel. reindex_loop V fuel retry' saved' u docs2 b' \<noteq> None" for retry' saved' u docs2 b'
      using that by metis
    show ?thesis
    proof (cases "?flush")
      case False
      show ?thesis
      proof (cases finished)
        case True
        with False p show ?thesis by (intro exI[of _ 1]) (auto simp: b)
      next
        case nf: False
        have m: "later c saved * (3 * ?L) + (2 - retry) * ?L + later c t' < later c saved * (3 * ?L) + (2 - retry) * ?L + later c t"
          using bm(2)[OF nf] by simp
        have "\<exists>fuel. reindex_loop V fuel retry saved t' docs' ((tmp, st), result') \<noteq> None"
          by (rule less.hyps[OF m]) (use c less.prems t' in auto)
        moreover have "reindex_loop V (Suc fuel) retry saved t docs b = reindex_loop V fuel retry saved t' docs' ((tmp, st), result')" for fuel
          using False nf p by (simp add: b)
        ultimately show ?thesis by (rule step[rotated])
      qed
    next
      case True
      consider (stop) "\<not> ok \<and> maxInsertErrors < length (ie_Errors (snd b2)) \<or> \<not> (\<not> ok \<and> retry < maxTries) \<and> finished"
        | (again) "\<not> (\<not> ok \<and> maxInsertErrors < length (ie_Errors (snd b2)))" "\<not> ok \<and> retry < maxTries"
        | (on) "\<not> (\<not> ok \<and> maxInsertErrors < length (ie_Errors (snd b2)))" "\<not> (\<not> ok \<and> retry < maxTries)" "\<not> finished" by blast
      then show ?thesis
      proof cases
        case stop
        then have "reindex_loop V (Suc 0) retry saved t docs b = Some (Inr b2)" using True p k by (auto simp: b)
        then show ?thesis by (metis option.distinct(1))
      next
        case again
        then have r: "retry = 1" using less.prems(3) by (simp add: maxTries_def)
        have m: "later c saved * (3 * ?L) + (2 - (retry + 1)) * ?L + later c saved < later c saved * (3 * ?L) + (2 - retry) * ?L + later c t"
          using later_bounds(1)[of c saved] r by simp
        have "\<exists>fuel. reindex_loop V fuel (retry + 1) saved saved [] b2 \<noteq> None"
          by (rule less.hyps[OF m]) (use b2 in auto)
        moreover have "reindex_loop V (Suc fuel) retry saved t docs b = reindex_loop V fuel (retry + 1) saved saved [] b2" for fuel
          using True again p k by (simp add: b)
        ultimately show ?thesis by (rule step[rotated])
      next
        case on
        have "later c t' < later c saved" using bm(2)[OF on(3)] later_bounds(2)[OF less.prems(2), of c] by simp
        then have "(later c t' + 1) * (3 * ?L) \<le> later c saved * (3 * ?L)" by (intro mult_right_mono) auto
        moreover have "later c t' < ?L" using later_bounds(1)[of c t'] by simp
        ultimately have m: "later c t' * (3 * ?L) + (2 - 1) * ?L + later c t' < later c saved * (3 * ?L) + (2 - retry) * ?L + later c t"
          by (simp add: algebra_simps)
        have "\<exists>fuel. reindex_loop V fuel 1 t' t' [] b2 \<noteq> None"
          by (rule less.hyps[OF m]) (use b2 in auto)
        moreover have "reindex_loop V (Suc fuel) retry saved t docs b = reindex_loop V fuel 1 t' t' [] b2" for fuel
          using True on p k by (auto simp: b)
        ultimately show ?thesis by (rule step[rotated])
      qed
    qed
  qed
qed

lemma Reindex_ends: "\<exists>fuel. Reindex V fuel st \<noteq> None"
proof -
  obtain st1 r where c: "bulkCreateTempTables st = (st1, r)" by fastforce
  obtain fuel where "reindex_loop V fuel 1 zeroTime zeroTime [] ((crTempTables, st1), noErrors) \<noteq> None"
    using reindex_loop_ends[where saved = zeroTime and t = zeroTime and retry = 1, OF refl] by (meson order_refl zero_less_one)
  then show ?thesis
    by (intro exI[of _ fuel]) (auto simp: Reindex_def c split: sum.splits)
qed

text \<open>A reindexing that ends has not panicked if all documents can be read.\<close>

definition readable_doc :: "pgenv \<Rightarrow> jdoc \<Rightarrow> bool" where
  "readable_doc V d = (case d of EmptyDoc \<Rightarrow> False
   | Doc pk \<Rightarrow> (case ReadOneKey (pg_E V) 0 (jPrimaryKey_Bytes pk) (jk_Fingerprint pk) of Inl (Panic _) \<Rightarrow> False | Inl Diverge \<Rightarrow> False | _ \<Rightarrow> True))"

lemma Refresh_readable: "readable_doc V (kd_Doc kd) \<Longrightarrow> Refresh V kd \<noteq> Inl (Panic p)"
  by (auto simp: readable_doc_def Refresh_def Let_def rbind_def split: jdoc.splits sum.splits fault.splits option.splits prod.splits)

lemma refresh_docs_readable:
  "\<forall>kd \<in> set kds. readable_doc V (kd_Doc kd) \<Longrightarrow> \<not> isl (refresh_docs V kds t docs result)"
  by (induction V kds t docs result rule: refresh_docs.induct) (auto dest: Refresh_readable split: sum.splits fault.splits)

lemma refreshBunch_readable:
  assumes "\<forall>x \<in> set (kept_columns (ps_db st)). readable_doc V (fst (snd x))"
  shows "\<not> isl (refreshBunch V t docs result st)"
proof -
  have "\<forall>kd \<in> set (fetchKeyDocsModifiedSince t st). readable_doc V (kd_Doc kd)"
    using assms by (auto simp: fetchKeyDocsModifiedSince_def order_limit_def key_doc_def kept_columns_def dest!: in_set_takeD)
  then show ?thesis
    using refresh_docs_readable[of "fetchKeyDocsModifiedSince t st" V t docs result]
    by (auto simp: refreshBunch_def Let_def rbind_def split: sum.splits)
qed

lemma reindex_loop_readable:
  "kept_columns (ps_db (snd (fst b))) = c \<Longrightarrow> \<forall>x \<in> set c. readable_doc V (fst (snd x)) \<Longrightarrow>
    reindex_loop V fuel retry saved t docs b \<noteq> Some (Inl e)"
proof (induction fuel arbitrary: retry saved t docs b)
  case (Suc fuel)
  obtain tmp st result where b: "b = ((tmp, st), result)" by (metis prod.exhaust)
  obtain t1 docs1 result1 n finished where r: "refreshBunch V t docs result st = Inr (t1, docs1, result1, n, finished)"
    using refreshBunch_readable[of st V t docs result] Suc.prems b by (auto simp: isl_def) (metis prod_cases5 sum.exhaust)
  obtain b2 ok where k: "bulkReindex V docs1 ((tmp, st), result1) = (b2, ok)" by fastforce
  have "kept_columns (ps_db (snd (fst b2))) = c"
    using quiet_bulkReindex[OF reindex_jobs_keep(1)[of c], of V docs1] k Suc.prems(1) unfolding quiet_def b by fastforce
  with Suc.IH[OF _ Suc.prems(2)] Suc.prems(1) show ?case by (auto simp: b r k Let_def)
qed simp

lemma Reindex_returns:
  assumes "\<forall>r \<in> set (db_keys (ps_db st)). readable_doc V (kr_doc r)"
  shows "\<exists>fuel st' e. Reindex V fuel st = Some (Inr (st', e))"
proof -
  obtain fuel x where f: "Reindex V fuel st = Some x" using Reindex_ends by blast
  obtain st1 r where c: "bulkCreateTempTables st = (st1, r)" by fastforce
  have "ps_db st1 = ps_db st" using Commit_cases[of "ps_db st" st st1 r] c unfolding bulkCreateTempTables_def by auto
  then have "reindex_loop V fuel 1 zeroTime zeroTime [] ((crTempTables, st1), noErrors) \<noteq> Some (Inl e)" for e
    using assms by (intro reindex_loop_readable[OF refl]) (auto simp: kept_columns_def)
  then have "\<not> isl x" using f by (auto simp: Reindex_def c split: sum.splits option.splits)
  with f show ?thesis by (cases x) auto
qed

end
