(* ===== verification/Pks.thy ===== *)
theory Pks
  imports PgStore Settings
begin

text \<open>
  Passing new keys on to PKS peers by mail or HTTP: \<open>hkp/pks/pks.go\<close> over the PostgreSQL storage,
  with the failover of SKS partners. What is sent is recorded in order; the outcome of a delivery is a
  parameter, as are the texts of errors, the armor coder, the SMTP credentials, the capacity of the list of
  peers and which calls of the storage fail. The body of an HTTP request is the value that it encodes. Days have 24
  hours. Timers and the pause between two deliveries are left out.

  The failover handler runs in the goroutines of the SKS peer, without a lock: a round over the list of
  peers is a sequence of turns, one for each peer, between which the handler may change the list and
  anything may happen to the database. One turn, and one call of the handler, is atomic here.
\<close>

section \<open>Deliveries\<close>

datatype body = FormBody "(gostring \<times> gostring list) list" | VKSRequest gostring

datatype delivery =
    Mail (mail_host: gostring) (mail_from: gostring) (mail_to: "gostring list") (mail_msg: "byte list")
  | Post (post_url: gostring) (post_type: gostring) (post_headers: "(gostring \<times> gostring) list") (post_body: body)

text \<open>
  \<open>pe_answer\<close> is the answer to the last of the deliveries so far: an error, or an HTTP status.
  \<open>pe_fails\<close> is the error of a call of the storage that fails, which then has changed nothing. An
  array that \<open>append\<close> allocates for \<open>n\<close> strings has a capacity of \<open>n + pe_spare n\<close>.
\<close>

datatype storageCall = CallInit gostring | CallGet gostring | CallUpdate pksRow | CallModified | CallFetch | CallAll

record pksenv =
  pe_V :: pgenv
  pe_armor_Encode :: "byte list \<Rightarrow> byte list"
  pe_Error :: "fault \<Rightarrow> gostring"
  pe_answer :: "delivery list \<Rightarrow> int res"
  pe_fails :: "storageCall \<Rightarrow> pgst \<Rightarrow> goerr option"
  pe_spare :: "nat \<Rightarrow> nat"

record SMTPConfig =
  sm_Host :: string
  sm_ID :: gostring
  sm_User :: gostring
  sm_Password :: gostring

record pksSettings =
  pks_From :: gostring
  pks_To :: "gostring list"
  pks_SMTP :: SMTPConfig

definition DefaultSMTPHost :: string where "DefaultSMTPHost = ''localhost:25''"

definition pks_DefaultSettings :: pksSettings where
  "pks_DefaultSettings = \<lparr>pks_From = [], pks_To = [], pks_SMTP = \<lparr>sm_Host = DefaultSMTPHost, sm_ID = [], sm_User = [], sm_Password = []\<rparr>\<rparr>"

definition pks_Redact :: "pksSettings \<Rightarrow> pksSettings" where
  "pks_Redact s = s\<lparr>pks_SMTP := (pks_SMTP s)\<lparr>sm_Password := lit ''<redacted>''\<rparr>\<rparr>"

section \<open>Calls of the storage\<close>

definition storage_Init :: "pksenv \<Rightarrow> gostring \<Rightarrow> time \<Rightarrow> pgst \<Rightarrow> pgst \<times> unit res" where
  "storage_Init K addr lastSync st = (case pe_fails K (CallInit addr) st of
     Some e \<Rightarrow> (st, Inl (Err e)) | None \<Rightarrow> (PKSInit addr lastSync st, Inr ()))"

definition storage_Get :: "pksenv \<Rightarrow> gostring \<Rightarrow> pgst \<Rightarrow> pksRow option res" where
  "storage_Get K addr st = (case pe_fails K (CallGet addr) st of
     Some e \<Rightarrow> Inl (Err e) | None \<Rightarrow> Inr (PKSGet addr st))"

definition storage_Update :: "pksenv \<Rightarrow> pksRow \<Rightarrow> pgst \<Rightarrow> pgst \<times> unit res" where
  "storage_Update K status st = (case pe_fails K (CallUpdate status) st of
     Some e \<Rightarrow> (st, Inl (Err e)) | None \<Rightarrow> (PKSUpdate status st, Inr ()))"

section \<open>The list of peers\<close>

text \<open>
  The sender's list \<open>to\<close> begins as the slice \<open>settings.To\<close> itself. The arrays are in a heap
  (\<open>sd_heap\<close>), as long as their capacity; \<open>settings.To\<close> is the beginning of array 0, and a
  slice is the address of an array and a length. All slices here begin at index 0.
\<close>

type_synonym slice = "nat \<times> nat"

record sender =
  sd_heap :: "gostring list list"
  sd_settings_len :: nat
  sd_to :: slice
  sd_From :: gostring
  sd_SMTPHost :: gostring
  sd_userAgent :: gostring
  sd_sent :: "delivery list"

definition settings_To :: "sender \<Rightarrow> gostring list" where
  "settings_To s = take (sd_settings_len s) (sd_heap s ! 0)"

definition sender_to :: "sender \<Rightarrow> gostring list" where
  "sender_to s = (case sd_to s of (a, n) \<Rightarrow> take n (sd_heap s ! a))"

text \<open>\<open>slices.DeleteFunc\<close> moves the remaining elements down and clears those after them.\<close>

definition to_delete :: "gostring \<Rightarrow> sender \<Rightarrow> sender" where
  "to_delete addr s = (case sd_to s of (a, n) \<Rightarrow>
     let xs = filter (\<lambda>x. x \<noteq> addr) (take n (sd_heap s ! a)) in
     s\<lparr>sd_heap := (sd_heap s)[a := xs @ replicate (n - length xs) [] @ drop n (sd_heap s ! a)], sd_to := (a, length xs)\<rparr>)"

text \<open>\<open>append\<close> writes behind the end of the slice, or into a new array when this one is full.\<close>

definition to_append :: "pksenv \<Rightarrow> gostring \<Rightarrow> sender \<Rightarrow> sender" where
  "to_append K addr s = (case sd_to s of (a, n) \<Rightarrow>
     if n < length (sd_heap s ! a) then s\<lparr>sd_heap := (sd_heap s)[a := (sd_heap s ! a)[n := addr]], sd_to := (a, n + 1)\<rparr>
     else s\<lparr>sd_heap := sd_heap s @ [take n (sd_heap s ! a) @ [addr] @ replicate (pe_spare K (n + 1)) []],
            sd_to := (length (sd_heap s), n + 1)\<rparr>)"

section \<open>Failover\<close>

definition pksAddr :: "partner \<Rightarrow> gostring" where
  "pksAddr p = lit ''hkp://'' @ lit (pt_HTTPAddr p)"

definition ReconStarted :: "partner \<Rightarrow> sender \<Rightarrow> sender" where
  "ReconStarted p s = (if pt_PKSFailover p then to_delete (pksAddr p) s else s)"

text \<open>A row that cannot be written is logged, and the peer is added all the same.\<close>

definition ReconUnavailable :: "pksenv \<Rightarrow> partner \<Rightarrow> time \<Rightarrow> sender \<Rightarrow> pgst \<Rightarrow> sender \<times> pgst" where
  "ReconUnavailable K p lastRecovery s st =
    (if pt_PKSFailover p
     then (let (st, _) = storage_Init K (pksAddr p) lastRecovery st in
           (if pksAddr p \<in> set (sender_to s) then s else to_append K (pksAddr p) s, st))
     else (s, st))"

definition ConnectionFailed :: "partner \<Rightarrow> sender \<Rightarrow> sender" where
  "ConnectionFailed p s = s"

section \<open>Starting\<close>

fun initStatus :: "pksenv \<Rightarrow> gostring list \<Rightarrow> pgst \<Rightarrow> pgst \<times> unit res" where
  "initStatus K [] st = (st, Inr ())"
| "initStatus K (addr # addrs) st = (case storage_Init K addr (gc_now (pg_E (pe_V K))) st of
     (st, Inl e) \<Rightarrow> (st, Inl e) | (st, Inr _) \<Rightarrow> initStatus K addrs st)"

text \<open>\<open>spare\<close> is the capacity of \<open>settings.To\<close> beyond its length. A host of the mail server without a port is an error.\<close>

definition NewSender :: "pksenv \<Rightarrow> nat \<Rightarrow> pksSettings option \<Rightarrow> gostring \<Rightarrow> pgst \<Rightarrow> pgst \<times> sender res" where
  "NewSender K spare settings userAgent st = (case settings of
     None \<Rightarrow> (st, Inl (Err (ErrMsg ''PKS synchronization not configured'')))
   | Some s \<Rightarrow>
      (case SplitHostPort (sm_Host (pks_SMTP s)) of
         None \<Rightarrow> (st, Inl (Err (ErrMsg ''missing port in address'')))
       | Some _ \<Rightarrow> (case initStatus K (pks_To s) st of
           (st, Inl e) \<Rightarrow> (st, Inl e)
         | (st, Inr _) \<Rightarrow> (st, Inr \<lparr>sd_heap = [pks_To s @ replicate spare []], sd_settings_len = length (pks_To s),
              sd_to = (0, length (pks_To s)), sd_From = pks_From s, sd_SMTPHost = lit (sm_Host (pks_SMTP s)),
              sd_userAgent = userAgent, sd_sent = []\<rparr>))))"

section \<open>Sending a key\<close>

text \<open>The mail address of \<open>mailto:([^@]+@[^@]+)\<close>.\<close>

definition mailto :: "gostring \<Rightarrow> gostring option" where
  "mailto addr = (let m = drop 7 addr; at = length (takeWhile (\<lambda>c. c \<noteq> 64) m) in
     if take 7 addr = lit ''mailto:'' \<and> 0 < at \<and> at + 1 < length m \<and> 64 \<notin> set (drop (at + 1) m) then Some m else None)"

definition all_digits :: "gostring \<Rightarrow> bool" where
  "all_digits s = list_all (\<lambda>c. 48 \<le> c \<and> c \<le> 57) s"

text \<open>
  The protocol, host and port of an address with the third group of the expression
  \<open>(hkps?|vks)://(([^:]+)|\[([0-9A-Fa-f:]+)\])(:(\d+))?\<close>, which is empty for the
  second form of a host.
\<close>

definition pks_url :: "gostring \<Rightarrow> (gostring \<times> gostring \<times> gostring) option" where
  "pks_url addr = (case find (\<lambda>p. take (length p + 3) addr = p @ lit ''://'') (map lit [''hkp'', ''hkps'', ''vks'']) of
     None \<Rightarrow> None
   | Some p \<Rightarrow>
      let r = drop (length p + 3) addr; host = takeWhile (\<lambda>c. c \<noteq> 58) r; port = drop (length host) r in
      if host = [] then None
      else if port = [] then Some (p, host, [])
      else if tl port \<noteq> [] \<and> all_digits (tl port) then Some (p, host, tl port)
      else None)"

definition send_mail :: "pksenv \<Rightarrow> gostring \<Rightarrow> PrimaryKey \<Rightarrow> sender \<Rightarrow> sender \<times> unit res" where
  "send_mail K emailAddr key s = (case WriteArmoredPackets (pg_E (pe_V K)) (pe_armor_Encode K) [key] False of
     Inl e \<Rightarrow> (s, Inl e)
   | Inr msg \<Rightarrow>
      let s = s\<lparr>sd_sent := sd_sent s @ [Mail (sd_SMTPHost s) (sd_From s) [emailAddr] (lit ''Subject: ADD'' @ [10, 10] @ msg)]\<rparr>
      in (s, rbind (pe_answer K (sd_sent s)) (\<lambda>_. Inr ())))"

text \<open>A status of 300 or more is only logged.\<close>

definition send_post :: "pksenv \<Rightarrow> gostring \<Rightarrow> gostring \<Rightarrow> gostring \<Rightarrow> PrimaryKey \<Rightarrow> sender \<Rightarrow> sender \<times> unit res" where
  "send_post K protocol host urlPort key s =
    (let (httpProtocol, port) = (if protocol = lit ''hkp'' then (lit ''http'', lit ''11371'') else (lit ''https'', lit ''443''));
         path = (if protocol = lit ''vks'' then lit ''vks/v1/upload'' else lit ''pks/add'');
         port = (if urlPort \<noteq> [] then urlPort else port);
         pksUrl = httpProtocol @ lit ''://'' @ host @ lit '':'' @ port @ lit ''/'' @ path in
     case WriteArmoredPackets (pg_E (pe_V K)) (pe_armor_Encode K) [key] False of
       Inl e \<Rightarrow> (s, Inl e)
     | Inr msg \<Rightarrow>
        let (contentType, buf) = (if protocol = lit ''vks'' then (lit ''application/json'', VKSRequest msg)
               else (lit ''application/x-www-form-urlencoded'', FormBody [(lit ''keytext'', [msg])]));
            headers = (if sd_From s \<noteq> [] then [(lit ''PKS-Sender'', sd_From s)] else [])
              @ (if sd_userAgent s \<noteq> [] then [(lit ''User-agent'', sd_userAgent s)] else []);
            s = s\<lparr>sd_sent := sd_sent s @ [Post pksUrl contentType headers buf]\<rparr>
        in (s, rbind (pe_answer K (sd_sent s)) (\<lambda>_. Inr ())))"

definition SendKey :: "pksenv \<Rightarrow> gostring \<Rightarrow> PrimaryKey \<Rightarrow> sender \<Rightarrow> sender \<times> unit res" where
  "SendKey K addr key s = (case mailto addr of
     Some emailAddr \<Rightarrow> send_mail K emailAddr key s
   | None \<Rightarrow> (case pks_url addr of
       Some (protocol, host, port) \<Rightarrow> send_post K protocol host port key s
     | None \<Rightarrow> (s, Inl (Err (ErrMsg ''PKS address not supported'')))))"

section \<open>Sending the new keys to a peer\<close>

definition maxHistory :: int where "maxHistory = 24 * 3600 * second"

fun send_records :: "pksenv \<Rightarrow> Record list \<Rightarrow> pksRow \<Rightarrow> sender \<Rightarrow> pgst \<Rightarrow> sender \<times> pgst \<times> pksRow \<times> unit res" where
  "send_records K [] status s st = (s, st, status, Inr ())"
| "send_records K (record # records) status s st = (case rec_PrimaryKey record of
     None \<Rightarrow> send_records K records status s st
   | Some key \<Rightarrow> (case SendKey K (pr_addr status) key s of
       (s, Inl (Err e)) \<Rightarrow>
         (let status = status\<lparr>pr_last_error := Some (pe_Error K (Err e))\<rparr> in
          case storage_Update K status st of
            (st, Inl e') \<Rightarrow> (s, st, status, Inl e') | (st, Inr _) \<Rightarrow> (s, st, status, Inl (Err e)))
     | (s, Inl f) \<Rightarrow> (s, st, status, Inl f)
     | (s, Inr _) \<Rightarrow>
         (let status = status\<lparr>pr_last_error := None, pr_last_sync := rec_MTime record\<rparr> in
          case storage_Update K status st of
            (st, Inl e') \<Rightarrow> (s, st, status, Inl e') | (st, Inr _) \<Rightarrow> send_records K records status s st)))"

definition sync_from :: "pksenv \<Rightarrow> time \<Rightarrow> time" where
  "sync_from K lastSync = (let now = gc_now (pg_E (pe_V K)) in if lastSync + maxHistory < now then now - maxHistory else lastSync)"

definition SendKeys :: "pksenv \<Rightarrow> pksRow \<Rightarrow> sender \<Rightarrow> pgst \<Rightarrow> sender \<times> pgst \<times> pksRow \<times> unit res" where
  "SendKeys K status s st = (case pe_fails K CallModified st of
     Some e \<Rightarrow> (s, st, status, Inl (Err e))
   | None \<Rightarrow>
      (let fps = fst (ModifiedSinceToFp (sync_from K (pr_last_sync status)) zeroTime st) in
       if fps = [] then (s, st, status, Inr ())
       else case pe_fails K CallFetch st of
         Some e \<Rightarrow> (s, st, status, Inl (Err e))
       | None \<Rightarrow> (case FetchRecordsByFp (pe_V K) 0 False fps st of
           (st, Inl e) \<Rightarrow> (s, st, status, Inl e)
         | (st, Inr records) \<Rightarrow> send_records K records status s st)))"

section \<open>The loop\<close>

definition maxDelay :: nat where "maxDelay = 60"

text \<open>
  A running sender: the delay in minutes until the next round, and within a round the slice over
  which it ranges with the index of the next peer. The slice is that of the beginning of the round; its elements are read
  from the array when their turn comes.
\<close>

record pksRun =
  rn_sender :: sender
  rn_db :: pgst
  rn_delay :: nat
  rn_loop :: "(slice \<times> nat) option"

definition start_run :: "sender \<Rightarrow> pgst \<Rightarrow> pksRun" where
  "start_run s st = \<lparr>rn_sender = s, rn_db = st, rn_delay = 1, rn_loop = None\<rparr>"

text \<open>
  The next turn: a round begins, ends, or serves one peer. A peer without a row in the table is a nil status, which
  \<open>SendKeys\<close> dereferences. The first error ends the round.
\<close>

definition pks_turn :: "pksenv \<Rightarrow> pksRun \<Rightarrow> pksRun res" where
  "pks_turn K r = (case rn_loop r of
     None \<Rightarrow> Inr (r\<lparr>rn_loop := Some (sd_to (rn_sender r), 0)\<rparr>)
   | Some ((a, n), i) \<Rightarrow>
      if n \<le> i then Inr (r\<lparr>rn_loop := None\<rparr>)
      else if length (sd_heap (rn_sender r) ! a) \<le> i then Inl (Panic PIndex)
      else (case storage_Get K (sd_heap (rn_sender r) ! a ! i) (rn_db r) of
        Inl _ \<Rightarrow> Inr (r\<lparr>rn_loop := None\<rparr>)
      | Inr None \<Rightarrow> Inl (Panic PNil)
      | Inr (Some status) \<Rightarrow> (case SendKeys K status (rn_sender r) (rn_db r) of
          (s, st, _, Inl (Err _)) \<Rightarrow> Inr \<lparr>rn_sender = s, rn_db = st, rn_delay = min (rn_delay r + 1) maxDelay, rn_loop = None\<rparr>
        | (s, st, _, Inl f) \<Rightarrow> Inl f
        | (s, st, _, Inr _) \<Rightarrow> Inr \<lparr>rn_sender = s, rn_db = st, rn_delay = 1, rn_loop = Some ((a, n), i + 1)\<rparr>)))"

text \<open>
  The events of a running sender, in any order: its turns, the failover handler, and what others do to the database, its table of
  peers included. Which calls of the storage fail may differ from one event to the next.
\<close>

inductive pks_step :: "pksenv \<Rightarrow> pksRun \<Rightarrow> pksRun \<Rightarrow> bool" for K where
  step_turn: "pks_turn (K\<lparr>pe_fails := fails\<rparr>) r = Inr r' \<Longrightarrow> pks_step K r r'"
| step_started: "pks_step K r (r\<lparr>rn_sender := ReconStarted p (rn_sender r)\<rparr>)"
| step_unavailable: "ReconUnavailable (K\<lparr>pe_fails := fails\<rparr>) p lastRecovery (rn_sender r) (rn_db r) = (s, st) \<Longrightarrow>
    pks_step K r (r\<lparr>rn_sender := s, rn_db := st\<rparr>)"
| step_failed: "pks_step K r (r\<lparr>rn_sender := ConnectionFailed p (rn_sender r)\<rparr>)"
| step_database: "pks_step K r (r\<lparr>rn_db := st\<rparr>)"

section \<open>Status\<close>

record pksStatus = pksRow +
  pr_Permanent :: bool
  pr_Active :: bool

definition pks_Status :: "pksenv \<Rightarrow> sender \<Rightarrow> pgst \<Rightarrow> pksStatus list res" where
  "pks_Status K s st = (case pe_fails K CallAll st of
     Some _ \<Rightarrow> Inl (Err (ErrMsg ''failed to obtain PKS sync status''))
   | None \<Rightarrow> Inr (sort_Sort (\<lambda>a b. bytes_less (pr_addr a) (pr_addr b)) (map (\<lambda>r. pksRow.extend r
       \<lparr>pr_Permanent = pr_addr r \<in> set (settings_To s), pr_Active = pr_addr r \<in> set (sender_to s)\<rparr>) (PKSAll st))))"

end
