(* ===== verification/PksSpec.thy ===== *)
theory PksSpec
  imports Pks PgStoreSpec
begin

text \<open>
  The sender of new keys to PKS peers: what the slices of its list of peers have in common, what a peer gets,
  and what goes wrong: a failover during a round, and deliveries in an order that is not that of the changes.
\<close>

section \<open>The list of peers\<close>

definition sender_ok :: "sender \<Rightarrow> bool" where
  "sender_ok s \<longleftrightarrow> sd_heap s \<noteq> [] \<and> sd_settings_len s \<le> length (sd_heap s ! 0)
     \<and> (case sd_to s of (a, n) \<Rightarrow> a < length (sd_heap s) \<and> n \<le> length (sd_heap s ! a))"

text \<open>An event keeps the arrays and their capacities; it may allocate new ones.\<close>

definition heap_kept :: "sender \<Rightarrow> sender \<Rightarrow> bool" where
  "heap_kept s s' \<longleftrightarrow> length (sd_heap s) \<le> length (sd_heap s')
     \<and> (\<forall>a < length (sd_heap s). length (sd_heap s' ! a) = length (sd_heap s ! a))"

lemma heap_kept_same: "sd_heap s' = sd_heap s \<Longrightarrow> heap_kept s s'"
  by (simp add: heap_kept_def)

lemma filter_take_length: "length (filter P (take n xs)) \<le> n"
  by (rule order_trans[OF length_filter_le]) simp

lemma sender_to_delete:
  assumes "sender_ok s"
  shows "sender_to (to_delete addr s) = filter (\<lambda>x. x \<noteq> addr) (sender_to s)" "sender_ok (to_delete addr s)"
    "heap_kept s (to_delete addr s)"
proof -
  obtain a n where to: "sd_to s = (a, n)" by (cases "sd_to s")
  let ?xs = "filter (\<lambda>x. x \<noteq> addr) (take n (sd_heap s ! a))"
  let ?arr = "?xs @ replicate (n - length ?xs) [] @ drop n (sd_heap s ! a)"
  have a: "a < length (sd_heap s)" "n \<le> length (sd_heap s ! a)" "sd_heap s \<noteq> []" "sd_settings_len s \<le> length (sd_heap s ! 0)"
    using assms by (auto simp: sender_ok_def to)
  have len: "length ?arr = length (sd_heap s ! a)" using a(2) filter_take_length[of "\<lambda>x. x \<noteq> addr" n "sd_heap s ! a"] by simp
  have d: "to_delete addr s = s\<lparr>sd_heap := (sd_heap s)[a := ?arr], sd_to := (a, length ?xs)\<rparr>"
    by (simp add: to_delete_def to Let_def)
  show "sender_to (to_delete addr s) = filter (\<lambda>x. x \<noteq> addr) (sender_to s)" using a(1) by (simp add: d sender_to_def to)
  show k: "heap_kept s (to_delete addr s)" using len a(1) by (auto simp: d heap_kept_def nth_list_update)
  show "sender_ok (to_delete addr s)"
    using a len filter_take_length[of "\<lambda>x. x \<noteq> addr" n "sd_heap s ! a"] by (auto simp: d sender_ok_def nth_list_update)
qed

lemma sender_to_append:
  assumes "sender_ok s"
  shows "sender_to (to_append K addr s) = sender_to s @ [addr]" "sender_ok (to_append K addr s)" "heap_kept s (to_append K addr s)"
  using assms by (auto simp: sender_ok_def heap_kept_def sender_to_def to_append_def take_Suc_conv_app_nth nth_list_update nth_append
      split: prod.splits if_splits)

lemma initStatus_ok: "pe_fails K = (\<lambda>_ _. None) \<Longrightarrow> snd (initStatus K addrs st) = Inr ()"
  by (induction addrs arbitrary: st) (auto simp: storage_Init_def)

lemma NewSender_parts:
  assumes "NewSender K spare settings userAgent st = (st', Inr s)"
  obtains cfg where "settings = Some cfg" "sd_heap s = [pks_To cfg @ replicate spare []]" "sd_settings_len s = length (pks_To cfg)"
    "sd_to s = (0, length (pks_To cfg))" "initStatus K (pks_To cfg) st = (st', Inr ())"
  using assms by (auto simp: NewSender_def split: option.splits prod.splits sum.splits)

lemma NewSender_to:
  assumes "NewSender K spare (Some cfg) userAgent st = (st', Inr s)"
  shows "settings_To s = pks_To cfg" "sender_to s = pks_To cfg" "sender_ok s"
proof -
  from NewSender_parts[OF assms] have "sd_heap s = [pks_To cfg @ replicate spare []]" "sd_settings_len s = length (pks_To cfg)"
    "sd_to s = (0, length (pks_To cfg))" by blast+
  then show "settings_To s = pks_To cfg" "sender_to s = pks_To cfg" "sender_ok s"
    by (simp_all add: settings_To_def sender_to_def sender_ok_def)
qed

text \<open>Clearing the end of the shared array changes the configured list.\<close>

lemma ReconStarted_clears:
  assumes "NewSender K spare (Some cfg) userAgent st = (st', Inr s)" "pt_PKSFailover p" "pksAddr p \<in> set (pks_To cfg)"
  shows "settings_To (ReconStarted p s) = filter (\<lambda>x. x \<noteq> pksAddr p) (pks_To cfg)
      @ replicate (length (pks_To cfg) - length (filter (\<lambda>x. x \<noteq> pksAddr p) (pks_To cfg))) []"
    "pksAddr p \<notin> set (settings_To (ReconStarted p s))"
proof -
  let ?f = "filter (\<lambda>x. x \<noteq> pksAddr p) (pks_To cfg)"
  have len: "length ?f \<le> length (pks_To cfg)" by (rule length_filter_le)
  show e: "settings_To (ReconStarted p s) = ?f @ replicate (length (pks_To cfg) - length ?f) []"
  proof -
    from NewSender_parts[OF assms(1)] have "sd_heap s = [pks_To cfg @ replicate spare []]" "sd_settings_len s = length (pks_To cfg)"
      "sd_to s = (0, length (pks_To cfg))" by blast+
    then show ?thesis using assms(2) len by (simp add: settings_To_def ReconStarted_def to_delete_def Let_def)
  qed
  have "pksAddr p \<noteq> []" by (simp add: pksAddr_def lit_def)
  then show "pksAddr p \<notin> set (settings_To (ReconStarted p s))" unfolding e by auto
qed

text \<open>The places behind the shortened list hold the empty address.\<close>

lemma ReconStarted_empty:
  assumes "sender_ok s" "sd_to s = (a, n)" "pt_PKSFailover p" "length (sender_to (ReconStarted p s)) \<le> i" "i < n"
  shows "sd_heap (ReconStarted p s) ! a ! i = []" "i < length (sd_heap (ReconStarted p s) ! a)"
proof -
  let ?xs = "filter (\<lambda>x. x \<noteq> pksAddr p) (take n (sd_heap s ! a))"
  have a: "a < length (sd_heap s)" "n \<le> length (sd_heap s ! a)" using assms(1) by (auto simp: sender_ok_def assms(2))
  have i: "length ?xs \<le> i"
    using assms(4) sender_to_delete(1)[OF assms(1)] by (simp add: ReconStarted_def assms(3) sender_to_def assms(2))
  have h: "sd_heap (ReconStarted p s) ! a = ?xs @ replicate (n - length ?xs) [] @ drop n (sd_heap s ! a)"
    using a(1) by (simp add: ReconStarted_def assms(2,3) to_delete_def Let_def)
  show "sd_heap (ReconStarted p s) ! a ! i = []" "i < length (sd_heap (ReconStarted p s) ! a)"
    unfolding h using i assms(5) a(2) by (auto simp: nth_append)
qed

section \<open>Rounds\<close>

text \<open>A key is handed over once, or not at all.\<close>

definition handed_over :: "pksenv \<Rightarrow> sender \<Rightarrow> sender \<times> unit res \<Rightarrow> bool" where
  "handed_over K s x \<longleftrightarrow> fst x = s \<and> isl (snd x)
     \<or> (\<exists>d. fst x = s\<lparr>sd_sent := sd_sent s @ [d]\<rparr> \<and> snd x = rbind (pe_answer K (sd_sent s @ [d])) (\<lambda>_. Inr ()))"

lemma handed_overI:
  "handed_over K s (s, Inl e)"
  "handed_over K s (s\<lparr>sd_sent := sd_sent s @ [d]\<rparr>, rbind (pe_answer K (sd_sent s @ [d])) (\<lambda>_. Inr ()))"
  by (auto simp: handed_over_def)

lemma send_mail_once: "handed_over K s (send_mail K a key s)"
  by (cases "WriteArmoredPackets (pg_E (pe_V K)) (pe_armor_Encode K) [key] False") (simp_all add: send_mail_def Let_def handed_overI)

lemma send_post_once: "handed_over K s (send_post K protocol host urlPort key s)"
  by (cases "WriteArmoredPackets (pg_E (pe_V K)) (pe_armor_Encode K) [key] False")
    (simp_all add: send_post_def Let_def handed_overI split del: if_split split: prod.splits)

lemma SendKey_once: "handed_over K s (SendKey K addr key s)"
  by (auto simp: SendKey_def send_mail_once send_post_once handed_overI split: option.splits)

text \<open>Sending leaves the list of peers as it is.\<close>

definition list_kept :: "sender \<Rightarrow> sender \<Rightarrow> bool" where
  "list_kept s s' \<longleftrightarrow> sd_heap s' = sd_heap s \<and> sd_to s' = sd_to s \<and> sd_settings_len s' = sd_settings_len s"

lemma list_keptD:
  assumes "list_kept s s'"
  shows "sender_ok s' = sender_ok s" "heap_kept s s'" "sender_to s' = sender_to s" "settings_To s' = settings_To s"
  using assms by (simp_all add: list_kept_def sender_ok_def heap_kept_def sender_to_def settings_To_def)

lemma SendKey_kept:
  assumes "SendKey K addr key s = (s', r)"
  shows "list_kept s s'"
  using SendKey_once[of K s addr key] unfolding assms handed_over_def by (auto simp: list_kept_def)

lemma send_records_kept:
  "send_records K records status s st = (s', st', status', r) \<Longrightarrow> list_kept s s'"
proof (induction records arbitrary: status s st)
  case (Cons rec0 records)
  show ?case
  proof (cases "rec_PrimaryKey rec0")
    case None
    with Cons show ?thesis by simp
  next
    case (Some key)
    obtain s1 r1 where k: "SendKey K (pr_addr status) key s = (s1, r1)" by fastforce
    have s1: "list_kept s s1" by (rule SendKey_kept[OF k])
    show ?thesis
    proof (cases r1)
      case (Inl e)
      with Cons.prems Some k s1 show ?thesis by (auto simp: Let_def split: fault.splits prod.splits sum.splits)
    next
      case (Inr u)
      let ?status = "status\<lparr>pr_last_error := None, pr_last_sync := rec_MTime rec0\<rparr>"
      obtain st1 r2 where up: "storage_Update K ?status st = (st1, r2)" by fastforce
      show ?thesis
      proof (cases r2)
        case (Inl e)
        with Cons.prems Some k Inr up s1 show ?thesis by (simp add: Let_def)
      next
        case (Inr v)
        with Cons.prems Some k \<open>r1 = Inr u\<close> up have "send_records K records ?status s1 st1 = (s', st', status', r)"
          by (simp add: Let_def)
        from Cons.IH[OF this] s1 show ?thesis by (simp add: list_kept_def)
      qed
    qed
  qed
qed (simp add: list_kept_def)

lemma SendKeys_kept:
  assumes "SendKeys K status s st = (s', st', status', r)"
  shows "list_kept s s'"
  using assms by (auto simp: SendKeys_def Let_def list_kept_def split: if_splits prod.splits sum.splits option.splits
      dest!: send_records_kept)

text \<open>The round is always over an array of the heap, and the delay stays within its bounds.\<close>

definition run_ok :: "pksRun \<Rightarrow> bool" where
  "run_ok r \<longleftrightarrow> sender_ok (rn_sender r) \<and> 1 \<le> rn_delay r \<and> rn_delay r \<le> maxDelay
     \<and> (case rn_loop r of None \<Rightarrow> True | Some ((a, n), i) \<Rightarrow>
          a < length (sd_heap (rn_sender r)) \<and> n \<le> length (sd_heap (rn_sender r) ! a))"

lemma run_ok_kept:
  assumes "run_ok r" "sender_ok s" "heap_kept (rn_sender r) s"
  shows "run_ok (r\<lparr>rn_sender := s\<rparr>)" "run_ok (r\<lparr>rn_sender := s, rn_db := st\<rparr>)"
  using assms by (auto simp: run_ok_def heap_kept_def split: option.splits)

lemma pks_turn_ok:
  assumes "pks_turn K r = Inr r'" "run_ok r"
  shows "run_ok r'"
proof (cases "rn_loop r")
  case None
  with assms show ?thesis by (auto simp: pks_turn_def run_ok_def sender_ok_def split: prod.splits)
next
  case (Some l)
  then obtain a n i where l: "rn_loop r = Some ((a, n), i)" by (metis prod.collapse)
  have in_heap: "a < length (sd_heap (rn_sender r))" "n \<le> length (sd_heap (rn_sender r) ! a)"
    using assms(2) l by (simp_all add: run_ok_def)
  show ?thesis
  proof (cases "n \<le> i \<or> (\<exists>e. storage_Get K (sd_heap (rn_sender r) ! a ! i) (rn_db r) = Inl e)")
    case True
    with assms l have "r' = r\<lparr>rn_loop := None\<rparr>" by (auto simp: pks_turn_def split: if_splits)
    with assms(2) show ?thesis by (simp add: run_ok_def)
  next
    case False
    then obtain x where x: "storage_Get K (sd_heap (rn_sender r) ! a ! i) (rn_db r) = Inr x" "\<not> n \<le> i" by (meson sum.exhaust)
    with assms(1) l obtain status where status: "x = Some status" by (cases x) (auto simp: pks_turn_def split: if_splits)
    obtain s st status' q where k: "SendKeys K status (rn_sender r) (rn_db r) = (s, st, status', q)" by (metis prod_cases4)
    note kept = list_keptD[OF SendKeys_kept[OF k]]
    have h: "sd_heap s = sd_heap (rn_sender r)" using SendKeys_kept[OF k] by (simp add: list_kept_def)
    from assms(1) l x status k have "\<exists>d lp. r' = \<lparr>rn_sender = s, rn_db = st, rn_delay = d, rn_loop = lp\<rparr> \<and> (lp = None \<or> lp = Some ((a, n), i + 1))
        \<and> (d = 1 \<or> d = min (rn_delay r + 1) maxDelay)"
      by (auto simp: pks_turn_def split: if_splits sum.splits fault.splits)
    then show ?thesis using assms(2) kept(1) in_heap h by (auto simp: run_ok_def maxDelay_def)
  qed
qed

lemma pks_step_ok: "pks_step K r r' \<Longrightarrow> run_ok r \<Longrightarrow> run_ok r'"
proof (induction rule: pks_step.induct)
  case (step_turn fails r r')
  then show ?case by (rule pks_turn_ok)
next
  case (step_started r p)
  have s: "sender_ok (rn_sender r)" using step_started by (simp add: run_ok_def)
  show ?case
    by (rule run_ok_kept(1)[OF step_started]) (use s in \<open>auto simp: ReconStarted_def sender_to_delete heap_kept_same\<close>)
next
  case (step_unavailable fails p t r s st)
  have ok: "sender_ok (rn_sender r)" using step_unavailable(2) by (simp add: run_ok_def)
  have "sender_ok s \<and> heap_kept (rn_sender r) s"
    using step_unavailable(1) ok by (auto simp: ReconUnavailable_def sender_to_append heap_kept_same Let_def split: if_splits prod.splits)
  with run_ok_kept(2)[OF step_unavailable(2)] show ?case by blast
next
  case (step_failed r p)
  then show ?case by (simp add: ConnectionFailed_def)
next
  case (step_database r st)
  then show ?case by (auto simp: run_ok_def split: option.splits)
qed

lemma pks_reachable_ok:
  assumes "NewSender K spare settings userAgent st = (st', Inr s)" "(pks_step K)\<^sup>*\<^sup>* (start_run s st') r"
  shows "run_ok r"
  using assms(2)
proof (induction rule: rtranclp_induct)
  case base
  obtain cfg where cfg: "settings = Some cfg" using NewSender_parts[OF assms(1)] by metis
  from NewSender_to(3)[OF assms(1)[unfolded cfg]] show ?case by (simp add: run_ok_def start_run_def maxDelay_def)
next
  case (step y z)
  from step(2,3) show ?case by (rule pks_step_ok)
qed

text \<open>A turn panics at a peer without a row.\<close>

lemma pks_turn_nil:
  assumes "rn_loop r = Some ((a, n), i)" "i < n" "i < length (sd_heap (rn_sender r) ! a)"
    and "storage_Get K (sd_heap (rn_sender r) ! a ! i) (rn_db r) = Inr None"
  shows "pks_turn K r = Inl (Panic PNil)"
  using assms by (simp add: pks_turn_def)

section \<open>What a peer gets\<close>

definition carries :: "pksenv \<Rightarrow> delivery \<Rightarrow> PrimaryKey \<Rightarrow> bool" where
  "carries K d key \<longleftrightarrow> (\<exists>msg. WriteArmoredPackets (pg_E (pe_V K)) (pe_armor_Encode K) [key] False = Inr msg
     \<and> (case d of Mail _ _ _ m \<Rightarrow> m = lit ''Subject: ADD'' @ [10, 10] @ msg
        | Post _ _ _ b \<Rightarrow> b = FormBody [(lit ''keytext'', [msg])] \<or> b = VKSRequest msg))"

lemma SendKey_carries:
  assumes "SendKey K addr key s = (s', Inr ())"
  shows "\<exists>d. sd_sent s' = sd_sent s @ [d] \<and> carries K d key"
proof -
  have mail: "\<exists>d. sd_sent s' = sd_sent s @ [d] \<and> carries K d key" if "send_mail K a key s = (s', Inr ())" for a
    using that by (auto simp: send_mail_def carries_def Let_def split: sum.splits)
  have post: "\<exists>d. sd_sent s' = sd_sent s @ [d] \<and> carries K d key" if "send_post K p h port key s = (s', Inr ())" for p h port
  proof (cases "WriteArmoredPackets (pg_E (pe_V K)) (pe_armor_Encode K) [key] False")
    case (Inl e)
    with that show ?thesis by (simp add: send_post_def Let_def split: if_splits)
  next
    case (Inr msg)
    with that show ?thesis by (auto simp: send_post_def carries_def Let_def split: if_splits)
  qed
  show ?thesis using assms by (auto simp: SendKey_def split: option.splits dest: mail post)
qed

abbreviation record_keys :: "Record list \<Rightarrow> PrimaryKey list" where
  "record_keys \<equiv> List.map_filter rec_PrimaryKey"

lemma send_records_carries:
  "send_records K records status s st = (s', st', status', Inr ()) \<Longrightarrow>
    \<exists>ds. sd_sent s' = sd_sent s @ ds \<and> list_all2 (carries K) ds (record_keys records)"
proof (induction records arbitrary: status s st)
  case (Cons rec0 records)
  show ?case
  proof (cases "rec_PrimaryKey rec0")
    case None
    with Cons show ?thesis by (simp add: List.map_filter_simps)
  next
    case (Some key)
    obtain s1 r1 where k: "SendKey K (pr_addr status) key s = (s1, r1)" by fastforce
    with Cons.prems Some obtain status1 st1 where r: "r1 = Inr ()" "send_records K records status1 s1 st1 = (s', st', status', Inr ())"
      by (auto simp: Let_def split: sum.splits fault.splits prod.splits)
    obtain d ds where "sd_sent s1 = sd_sent s @ [d]" "carries K d key" "sd_sent s' = sd_sent s1 @ ds" "list_all2 (carries K) ds (record_keys records)"
      using SendKey_carries[OF k[unfolded r(1)]] Cons.IH[OF r(2)] by blast
    with Some show ?thesis by (intro exI[of _ "d # ds"]) (simp add: List.map_filter_simps)
  qed
qed (simp add: List.map_filter_simps)

text \<open>
  The rows that \<open>SendKeys\<close> may read: those changed since the last synchronisation with the peer, or since a day
  ago when that is longer past, in the order in which the query returns them. It reads the
  100 oldest of them.
\<close>

definition changed_rows :: "pksenv \<Rightarrow> pksRow \<Rightarrow> pgst \<Rightarrow> keyRow list" where
  "changed_rows K status st = select_keys (pe_V K) (\<lambda>r. sync_from K (pr_last_sync status) < kr_mtime r) st"

definition oldest_changes :: "pksenv \<Rightarrow> pksRow \<Rightarrow> pgst \<Rightarrow> keyRow list" where
  "oldest_changes K status st =
    order_limit kr_mtime (filter (\<lambda>r. sync_from K (pr_last_sync status) < kr_mtime r) (db_keys (ps_db st)))"

definition fetched_rows :: "pksenv \<Rightarrow> pksRow \<Rightarrow> pgst \<Rightarrow> keyRow list" where
  "fetched_rows K status st =
    select_keys (pe_V K) (\<lambda>r. kr_rfingerprint r \<in> kr_rfingerprint ` set (oldest_changes K status st)) st"

definition lowers :: "pgenv \<Rightarrow> bool" where
  "lowers V \<longleftrightarrow> (\<forall>s. hex_string s \<longrightarrow> gc_ToLower (pg_E V) s = s)"

lemma read_rows_rmap: "read_rows V ptr False rows st = (st, rmap (read_row V ptr) rows)"
  by (induction rows) (auto simp: preen_row_def rbind_def split: sum.splits)

lemma oldest_changes_sub:
  "set (oldest_changes K status st) \<subseteq> {r \<in> set (db_keys (ps_db st)). sync_from K (pr_last_sync status) < kr_mtime r}"
  by (auto simp: oldest_changes_def order_limit_def dest!: in_set_takeD)

lemma row_by_rfp:
  assumes "db_ok (ps_db st)" "r \<in> set (db_keys (ps_db st))" "q \<in> set (db_keys (ps_db st))" "kr_rfingerprint r = kr_rfingerprint q"
  shows "r = q"
  using db_okD(5)[OF assms(1)] assms(2-4) unfolding distinct_map inj_on_def by blast

lemma mset_fetched_rows:
  assumes "db_ok (ps_db st)"
  shows "mset (fetched_rows K status st) = mset (oldest_changes K status st)"
proof (rule set_eq_iff_mset_eq_distinct[THEN iffD1])
  have d: "distinct (db_keys (ps_db st))" using db_okD(5)[OF assms] by (simp add: distinct_map)
  then show "distinct (fetched_rows K status st)" by (simp add: fetched_rows_def select_keys_def)
  from d show "distinct (oldest_changes K status st)" by (simp add: oldest_changes_def order_limit_def)
  show "set (fetched_rows K status st) = set (oldest_changes K status st)"
    using oldest_changes_sub[of K status st] row_by_rfp[OF assms] by (auto simp: fetched_rows_def)
qed

text \<open>Up to 100 changed rows are all read.\<close>

lemma fetched_all:
  assumes "db_ok (ps_db st)" "length (changed_rows K status st) \<le> internalQueryLimit"
  shows "fetched_rows K status st = changed_rows K status st"
proof -
  have "set (oldest_changes K status st) = {r \<in> set (db_keys (ps_db st)). sync_from K (pr_last_sync status) < kr_mtime r}"
    using assms(2) by (simp add: oldest_changes_def order_limit_def changed_rows_def select_keys_def)
  then have "filter (\<lambda>r. kr_rfingerprint r \<in> kr_rfingerprint ` set (oldest_changes K status st)) (db_keys (ps_db st))
      = filter (\<lambda>r. sync_from K (pr_last_sync status) < kr_mtime r) (db_keys (ps_db st))"
    using row_by_rfp[OF assms(1)] by (intro filter_cong) auto
  then show ?thesis by (simp add: fetched_rows_def changed_rows_def select_keys_def)
qed

lemma SendKeys_reads:
  assumes ok: "db_ok (ps_db st)" "hex_rows (ps_db st)" and "lowers (pe_V K)"
    and calls: "pe_fails K CallModified st = None" "pe_fails K CallFetch st = None"
    and "zeroTime \<le> sync_from K (pr_last_sync status)" "\<forall>r \<in> set (oldest_changes K status st). kr_rfingerprint r \<noteq> []"
  shows "SendKeys K status s st = (case rmap (read_row (pe_V K) 0) (fetched_rows K status st) of
      Inl e \<Rightarrow> (s, st, status, Inl e)
    | Inr records \<Rightarrow> send_records K records status s st)"
proof -
  let ?rows = "oldest_changes K status st" and ?from = "sync_from K (pr_last_sync status)"
  have c: "order_limit kr_mtime (filter (\<lambda>r. ?from < kr_mtime r \<and> (?from < zeroTime \<longrightarrow> kr_mtime r \<le> zeroTime)) (db_keys (ps_db st))) = ?rows"
    using assms(6) by (simp add: oldest_changes_def)
  have fps: "fst (ModifiedSinceToFp ?from zeroTime st) = map (\<lambda>r. Reverse (kr_rfingerprint r)) ?rows"
    unfolding ModifiedSinceToFp_def c Let_def by simp
  show ?thesis
  proof (cases "?rows = []")
    case True
    then have "fetched_rows K status st = []" using mset_fetched_rows[OF ok(1), of K status] by simp
    with True show ?thesis by (simp add: SendKeys_def fps calls)
  next
    case False
    have hex: "hex_string (kr_rfingerprint r)" if "r \<in> set ?rows" for r
      using that ok(2) oldest_changes_sub[of K status st] by (auto simp: hex_rows_def)
    have rev: "Reverse (kr_rfingerprint r) = rev (kr_rfingerprint r)" "Reverse (rev (kr_rfingerprint r)) = kr_rfingerprint r"
      "gc_ToLower (pg_E (pe_V K)) (kr_rfingerprint r) = kr_rfingerprint r" if "r \<in> set ?rows" for r
      using hex[OF that] assms(3) by (simp_all add: Reverse_hex lowers_def)
    have "ToLower_all (pe_V K) (map Reverse (map (\<lambda>r. Reverse (kr_rfingerprint r)) ?rows)) = map kr_rfingerprint ?rows"
      unfolding ToLower_all_def using rev by simp
    moreover have "[] \<notin> set (map (\<lambda>r. Reverse (kr_rfingerprint r)) ?rows)" using assms(7) rev by auto
    ultimately have "FetchRecordsByFp (pe_V K) 0 False (map (\<lambda>r. Reverse (kr_rfingerprint r)) ?rows) st
        = (st, rmap (read_row (pe_V K) 0) (fetched_rows K status st))"
      using False by (simp add: FetchRecordsByFp_def fetchRecordsByRfp_def read_rows_rmap fetched_rows_def)
    with False show ?thesis by (simp add: SendKeys_def fps Let_def calls split: sum.splits)
  qed
qed

text \<open>Reading rows in another order gives the same records in another order.\<close>

lemma rmap_Inr_iff: "rmap f xs = Inr ys \<longleftrightarrow> list_all2 (\<lambda>x y. f x = Inr y) xs ys"
  by (induction xs arbitrary: ys) (auto simp: rbind_Inr_iff list_all2_Cons1)

lemma rmap_mset:
  assumes "rmap f xs = Inr ys" "mset xs' = mset xs"
  shows "\<exists>ys'. rmap f xs' = Inr ys' \<and> mset ys' = mset ys"
proof -
  have all: "list_all2 (\<lambda>x y. f x = Inr y) xs ys" using assms(1) by (simp add: rmap_Inr_iff)
  then have ys: "ys = map (\<lambda>x. projr (f x)) xs" by (induction rule: list_all2_induct) simp_all
  from all have ok: "\<forall>x \<in> set xs. \<exists>y. f x = Inr y" by (induction rule: list_all2_induct) simp_all
  have "\<forall>x \<in> set xs'. \<exists>y. f x = Inr y" using ok mset_eq_setD[OF assms(2)] by simp
  then have "rmap f xs' = Inr (map (\<lambda>x. projr (f x)) xs')" by (induction xs') auto
  moreover have "mset (map (\<lambda>x. projr (f x)) xs') = mset ys" using assms(2) by (simp add: ys)
  ultimately show ?thesis by blast
qed

lemma mset_record_keys: "mset rs = mset rs' \<Longrightarrow> mset (record_keys rs) = mset (record_keys rs')"
  by (simp add: List.map_filter_def)

lemma SendKeys_carries:
  assumes "db_ok (ps_db st)" "hex_rows (ps_db st)" "lowers (pe_V K)"
    and "zeroTime \<le> sync_from K (pr_last_sync status)" "\<forall>r \<in> set (oldest_changes K status st). kr_rfingerprint r \<noteq> []"
    and run: "SendKeys K status s st = (s', st', status', Inr ())"
  shows "\<exists>records ds keys. rmap (read_row (pe_V K) 0) (oldest_changes K status st) = Inr records
    \<and> sd_sent s' = sd_sent s @ ds \<and> list_all2 (carries K) ds keys \<and> mset keys = mset (record_keys records)"
proof (cases "oldest_changes K status st = []")
  case True
  then have "fst (ModifiedSinceToFp (sync_from K (pr_last_sync status)) zeroTime st) = []"
    using assms(4) by (simp add: ModifiedSinceToFp_def Let_def oldest_changes_def)
  with run have "s' = s" by (auto simp: SendKeys_def split: option.splits)
  with True show ?thesis by (simp add: List.map_filter_simps)
next
  case False
  have "pe_fails K CallModified st = None" using run by (auto simp: SendKeys_def split: option.splits)
  moreover have "fst (ModifiedSinceToFp (sync_from K (pr_last_sync status)) zeroTime st) \<noteq> []"
    using assms(4) False by (simp add: ModifiedSinceToFp_def Let_def oldest_changes_def)
  ultimately have "pe_fails K CallFetch st = None" using run by (auto simp: SendKeys_def Let_def split: option.splits)
  from SendKeys_reads[OF assms(1-3) \<open>pe_fails K CallModified st = None\<close> this assms(4,5), of s] run obtain records' where
    r: "rmap (read_row (pe_V K) 0) (fetched_rows K status st) = Inr records'" "send_records K records' status s st = (s', st', status', Inr ())"
    by (auto split: sum.splits)
  from rmap_mset[OF r(1) mset_fetched_rows[OF assms(1), symmetric]] obtain records where
    "rmap (read_row (pe_V K) 0) (oldest_changes K status st) = Inr records" "mset records = mset records'" by blast
  moreover obtain ds where "sd_sent s' = sd_sent s @ ds" "list_all2 (carries K) ds (record_keys records')"
    using send_records_carries[OF r(2)] by blast
  ultimately show ?thesis using mset_record_keys by metis
qed

text \<open>A failed delivery after one of a younger key: the older key is not sent any more.\<close>

lemma SendKeys_skips:
  assumes "st_ok st" "lowers (pe_V K)" "pe_fails K = (\<lambda>_ _. None)" "zeroTime \<le> sync_from K (pr_last_sync status)"
    and rows: "changed_rows K status st = [q1, q2]" "kr_mtime q2 \<le> kr_mtime q1" "kr_rfingerprint q1 \<noteq> []" "kr_rfingerprint q2 \<noteq> []"
    and read: "read_row (pe_V K) 0 q1 = Inr r1" "read_row (pe_V K) 0 q2 = Inr r2" "rec_PrimaryKey r1 = Some k1" "rec_PrimaryKey r2 = Some k2"
    and send: "SendKey K (pr_addr status) k1 s = (s1, Inr ())" "SendKey K (pr_addr status) k2 s1 = (s2, Inl e)"
  shows "\<exists>st' status'. SendKeys K status s st = (s2, st', status', Inl e) \<and> pr_last_sync status' = kr_mtime q1
    \<and> SendKeys K status' s2 st' = (s2, st', status', Inr ())"
proof -
  let ?st1 = "status\<lparr>pr_last_error := None, pr_last_sync := kr_mtime q1\<rparr>"
  have m: "rec_MTime r1 = kr_mtime q1" using read(1) by (auto simp: read_row_def rbind_Inr_iff split: jdoc.splits)
  have ok: "db_ok (ps_db st)" "hex_rows (ps_db st)" using st_okD[OF assms(1)] by blast+
  have f: "fetched_rows K status st = [q1, q2]" using fetched_all[OF ok(1)] rows(1) by (simp add: internalQueryLimit_def)
  have "set (oldest_changes K status st) = {q1, q2}" using mset_fetched_rows[OF ok(1), of K status] unfolding f by (metis list.set(1,2) set_mset_mset)
  then have ne: "\<forall>r \<in> set (oldest_changes K status st). kr_rfingerprint r \<noteq> []" using rows(3,4) by simp
  have "\<exists>st' status'. SendKeys K status s st = (s2, st', status', Inl e) \<and> pr_last_sync status' = kr_mtime q1
      \<and> db_keys (ps_db st') = db_keys (ps_db st)"
    using SendKeys_reads[OF ok assms(2) _ _ assms(4) ne, of s] f read send m assms(3)
    by (cases e) (simp_all add: Let_def storage_Update_def PKSUpdate_def)
  then obtain st' status' where k: "SendKeys K status s st = (s2, st', status', Inl e)" "pr_last_sync status' = kr_mtime q1"
    and db: "db_keys (ps_db st') = db_keys (ps_db st)" by blast
  let ?from' = "sync_from K (pr_last_sync status')"
  have ge: "kr_mtime q1 \<le> ?from'" using k(2) by (simp add: sync_from_def Let_def)
  have q1: "sync_from K (pr_last_sync status) < kr_mtime q1" using arg_cong[OF rows(1), where f = set] by (auto simp: changed_rows_def)
  have "\<not> ?from' < kr_mtime r" if "r \<in> set (db_keys (ps_db st))" for r
  proof
    assume r: "?from' < kr_mtime r"
    then have "r \<in> set (changed_rows K status st)" using that ge q1 by (auto simp: changed_rows_def)
    with rows(1,2) r ge show False by auto
  qed
  then have "filter (\<lambda>r. ?from' < kr_mtime r \<and> P r) (db_keys (ps_db st')) = []" for P unfolding db by (simp add: filter_empty_conv)
  then have "fst (ModifiedSinceToFp ?from' zeroTime st') = []" unfolding ModifiedSinceToFp_def Let_def by (simp add: order_limit_def)
  then have "SendKeys K status' s2 st' = (s2, st', status', Inr ())" by (simp add: SendKeys_def assms(3))
  with k show ?thesis by blast
qed

end
