(* ===== verification/BulkProps.thy ===== *)
theory BulkProps
  imports ServerProps ReloadSpec PksSpec
begin

text \<open>
  The properties of bulk loading, reloading and reindexing, and of the sender of keys to PKS peers.
\<close>

section \<open>Bulk insertion\<close>

text \<open>
  C33. As long as every commit succeeds and no other session writes to the database, inserting keys, in
  bulk or one by one, keeps the constraints of the tables, and the announced changes account
  exactly for the digests that the tables gained and lost. Neither \<open>insertKey\<close> nor \<open>bulkInsertSendBunchTx\<close> looks at
  the result of its commit, so this does not hold when one fails.
\<close>

theorem insertion_follows_tables:
  assumes "Insert_keys V alone keys st = (st', rest)" "db_ok (ps_db st)" "hex_rows (ps_db st)" "ps_commits st = []"
    and "\<forall>k \<in> set keys. hex_key k"
  shows "db_ok (ps_db st') \<and> (\<exists>new. ps_notified st' = ps_notified st @ new \<and> digests (ps_db st') = track new (digests (ps_db st)))"
  using Insert_goes[OF assms(1) _ assms(5)] assms(2-4) by (simp add: pg_goes_def st_ok_def follows_def)

text \<open>
  C34. Keys that are new and share no fingerprint, digest or subkey are inserted in bulk as they would
  be inserted one by one in a transaction each, with their subkeys and user IDs, and with one
  announcement of all their digests.
\<close>

theorem bulk_is_one_by_one:
  assumes "st_ok st" "all_new V keys (ps_db st)" "list_all (docs_fit V) (map (key_docs V) keys)"
    and "\<forall>k \<in> set keys. \<not> isl (pg_TSVECTOR V (kd_Keywords (fst (key_docs V k))))"
  shows "\<exists>tmp db. insert_all V keys (ps_db st) = Inr db
    \<and> bulkInsert V keys [] ((crTempTables, st), noErrors)
      = (((tmp, st\<lparr>ps_db := db, ps_notified := ps_notified st @ [KeysBulkUpdated (map pk_MD5 keys) []]\<rparr>), noErrors), length keys, 0, True)"
  using assms by (rule bulkInsert_new)


lemma KeywordsTSVector_length: "length (snd (KeywordsTSVector V key)) \<le> length (pk_UserIDs key @ pk_RedactedUserIDs key)"
proof -
  let ?ds = "snd (keywordsFromKey V key)"
  have "length ?ds = card (ud_UidString ` set ?ds)"
    using distinct_card[OF keywordsFromKey_docs(1)[of V key]] by simp
  also have "ud_UidString ` set ?ds \<subseteq> uid_Keywords ` set (pk_UserIDs key @ pk_RedactedUserIDs key)"
    unfolding keywordsFromKey_docs(3) by auto
  then have "card (ud_UidString ` set ?ds) \<le> length (pk_UserIDs key @ pk_RedactedUserIDs key)"
    by (meson List.finite_set card_image_le card_length card_mono finite_imageI le_trans)
  finally show ?thesis by (auto simp: KeywordsTSVector_def split: prod.splits sum.splits)
qed

lemma key_docs_fit:
  assumes "length (pk_SubKeys (SortKey (pg_E V) k)) \<le> 20000"
    and "length (pk_UserIDs (SortKey (pg_E V) k) @ pk_RedactedUserIDs (SortKey (pg_E V) k)) \<le> 16000"
  shows "docs_fit V (key_docs V k)"
  using assms(1) order_trans[OF KeywordsTSVector_length[of V "SortKey (pg_E V) k"] assms(2)]
  by (auto simp: docs_fit_def key_docs_def bunch_append_def newSqlBunch_def Let_def keysInBunch_def subkeysInBunch_def uidsInBunch_def
      keysNumColumns_def subkeysNumColumns_def useridsNumColumns_def split: prod.splits)

lemma demo_docs: "length (pk_SubKeys demo_cert) = 1" "length (pk_UserIDs demo_cert) = 1" "length (pk_RedactedUserIDs demo_cert) = 0"
proof -
  obtain k where k: "demo_valid demo_packets = Inr k" "length (pk_UserIDs k) = 1" "length (pk_SubKeys k) = 1"
    using demo_key_valid by (auto split: sum.splits)
  then show "length (pk_SubKeys demo_cert) = 1" "length (pk_UserIDs demo_cert) = 1" by (simp_all add: demo_cert_def)
  have "case pk_RedactedUserIDs demo_cert of [] \<Rightarrow> True | _ \<Rightarrow> False" by code_simp
  then show "length (pk_RedactedUserIDs demo_cert) = 0" by (simp split: list.splits)
qed

lemma demo_docs_fit: "docs_fit demo_pg (key_docs demo_pg demo_cert)"
  by (rule key_docs_fit) (use demo_docs in \<open>simp_all add: demo_pg_def SortKey_def\<close>)

lemma length_sub: "length (pk_SubKeys (SortKey E k)) = length (pk_SubKeys k)"
  by (simp add: SortKey_def)

lemma demo_all_new: "all_new demo_pg [demo_cert] (ps_db empty_pg)"
  using demo_docs(1) length_sub[of demo demo_cert]
  by (cases "pk_SubKeys (SortKey demo demo_cert)") (auto simp: all_new_def key_docs_def demo_pg_def empty_pg_def subdoc_rows_def doc_rows_def Let_def split: prod.splits)

theorem bulk_is_one_by_one_witness:
  "\<exists>tmp db n. insert_all demo_pg [demo_cert] (ps_db empty_pg) = Inr db
    \<and> bulkInsert demo_pg [demo_cert] [] ((crTempTables, empty_pg), noErrors)
      = (((tmp, empty_pg\<lparr>ps_db := db, ps_notified := [KeysBulkUpdated [pk_MD5 demo_cert] []]\<rparr>), noErrors), n, 0, True)"
proof -
  have "list_all (docs_fit demo_pg) (map (key_docs demo_pg) [demo_cert])" using demo_docs_fit by simp
  moreover have "\<forall>k \<in> set [demo_cert]. \<not> isl (pg_TSVECTOR demo_pg (kd_Keywords (fst (key_docs demo_pg k))))" by (simp add: demo_pg_def)
  ultimately show ?thesis using bulk_is_one_by_one[OF empty_pg_ok demo_all_new] by (fastforce simp: empty_pg_def)
qed


text \<open>As many keys as a bulk insertion needs: they differ in fingerprint and digest only.\<close>

definition bulk_fp :: "nat \<Rightarrow> gostring" where
  "bulk_fp i = hex_EncodeToString [of_nat (i div 256), of_nat (i mod 256)]"

definition bulk_key :: "nat \<Rightarrow> PrimaryKey" where
  "bulk_key i = bare_cert\<lparr>pub_Fingerprint := bulk_fp i, pub_VFingerprint := bulk_fp i, pk_MD5 := bulk_fp i\<rparr>"

definition bulk_keys :: "PrimaryKey list" where
  "bulk_keys = map bulk_key [0..<3500]"

lemma bulk_fp_inj: "i < 65536 \<Longrightarrow> j < 65536 \<Longrightarrow> bulk_fp i = bulk_fp j \<Longrightarrow> i = j"
proof -
  assume ij: "i < 65536" "j < 65536" "bulk_fp i = bulk_fp j"
  have "Inr [of_nat (i div 256) :: byte, of_nat (i mod 256)] = hex_DecodeString (bulk_fp j)"
    by (simp only: ij(3)[symmetric]) (simp only: bulk_fp_def hex_DecodeString_Encode)
  then have "(of_nat (i div 256) :: byte) = of_nat (j div 256)" "(of_nat (i mod 256) :: byte) = of_nat (j mod 256)"
    by (simp_all only: bulk_fp_def hex_DecodeString_Encode sum.inject list.inject)
  then have "unat (of_nat (i div 256) :: byte) = unat (of_nat (j div 256) :: byte)"
    "unat (of_nat (i mod 256) :: byte) = unat (of_nat (j mod 256) :: byte)" by simp_all
  then have "i div 256 = j div 256" "i mod 256 = j mod 256" using ij(1,2) by (simp_all add: unat_of_nat_byte less_mult_imp_div_less)
  then show "i = j" by (metis div_mult_mod_eq)
qed

lemma bulk_key_parts:
  "pk_SubKeys (SortKey E (bulk_key i)) = []" "pk_UserIDs (SortKey E (bulk_key i)) = []" "pk_RedactedUserIDs (SortKey E (bulk_key i)) = []"
  "pub_Fingerprint (bulk_key i) = bulk_fp i" "pk_MD5 (bulk_key i) = bulk_fp i" "hex_key (bulk_key i)"
  "pub_VFingerprint (SortKey E (bulk_key i)) = bulk_fp i"
proof -
  have "case (pk_SubKeys bare_cert, pk_UserIDs bare_cert, pk_RedactedUserIDs bare_cert) of ([], [], []) \<Rightarrow> True | _ \<Rightarrow> False" by code_simp
  then have "pk_SubKeys bare_cert = [] \<and> pk_UserIDs bare_cert = [] \<and> pk_RedactedUserIDs bare_cert = []" by (simp split: list.splits)
  then show "pk_SubKeys (SortKey E (bulk_key i)) = []" "pk_UserIDs (SortKey E (bulk_key i)) = []" "pk_RedactedUserIDs (SortKey E (bulk_key i)) = []"
    by (simp_all add: bulk_key_def SortKey_def sort_Sort_def)
qed (simp_all add: bulk_key_def hex_key_def bulk_fp_def SortKey_def)

lemma bulk_docs:
  "kr_rfingerprint (doc_row V (fst (key_docs V (bulk_key i)))) = Reverse (bulk_fp i)"
  "kr_md5 (doc_row V (fst (key_docs V (bulk_key i)))) = bulk_fp i"
  "kr_vfingerprint (doc_row V (fst (key_docs V (bulk_key i)))) = bulk_fp i"
  "fst (snd (key_docs V (bulk_key i))) = []"
  by (simp_all add: key_docs_def doc_row_def Let_def bulk_key_parts split: prod.splits)

lemma bulk_all_new: "all_new demo_pg bulk_keys (ps_db empty_pg)"
proof -
  let ?rows = "doc_rows demo_pg (map (key_docs demo_pg) bulk_keys)"
  have i: "distinct (map bulk_fp [0..<3500])" by (auto simp: distinct_map inj_on_def intro: bulk_fp_inj simp del: upt_rec_numeral)
  have subs: "subdoc_rows (map (key_docs demo_pg) bulk_keys) = []"
    unfolding subdoc_rows_def bulk_keys_def map_map o_def case_prod_beta bulk_docs by simp
  have r: "map kr_rfingerprint ?rows = map (\<lambda>i. Reverse (bulk_fp i)) [0..<3500]" "map kr_md5 ?rows = map bulk_fp [0..<3500]"
    "map kr_vfingerprint ?rows = map bulk_fp [0..<3500]"
    unfolding doc_rows_def bulk_keys_def map_map o_def case_prod_beta bulk_docs by (rule refl)+
  have "distinct (map (\<lambda>i. Reverse (bulk_fp i)) [0..<3500])"
  proof (rule distinct_map[THEN iffD2], rule conjI, simp, rule inj_onI)
    fix i j assume ij: "i \<in> set [0..<3500]" "j \<in> set [0..<3500]" "Reverse (bulk_fp i) = Reverse (bulk_fp j)"
    then have "bulk_fp i = bulk_fp j" by (simp add: Reverse_hex bulk_fp_def del: upt_rec_numeral)
    with ij(1,2) show "i = j" by (auto intro: bulk_fp_inj simp del: upt_rec_numeral)
  qed
  with i show ?thesis unfolding all_new_def Let_def subs r by (simp add: empty_pg_def del: upt_rec_numeral)
qed

theorem insertion_follows_tables_witness:
  "\<exists>st' rest. Insert_keys demo_pg alone bulk_keys empty_pg = (st', rest) \<and> ps_notified st' = [KeysBulkUpdated (map pk_MD5 bulk_keys) []]
     \<and> digests (ps_db st') = bulk_fp ` {0..<3500}"
proof -
  have fit: "list_all (docs_fit demo_pg) (map (key_docs demo_pg) bulk_keys)"
    by (auto simp: list_all_iff bulk_keys_def bulk_key_parts simp del: upt_rec_numeral intro!: key_docs_fit)
  have ts: "\<forall>k \<in> set bulk_keys. \<not> isl (pg_TSVECTOR demo_pg (kd_Keywords (fst (key_docs demo_pg k))))" by (simp add: demo_pg_def)
  obtain tmp db where "bulkInsert demo_pg bulk_keys [] ((crTempTables, empty_pg), noErrors)
      = (((tmp, empty_pg\<lparr>ps_db := db, ps_notified := ps_notified empty_pg @ [KeysBulkUpdated (map pk_MD5 bulk_keys) []]\<rparr>), noErrors), length bulk_keys, 0, True)"
    using bulkInsert_new[OF empty_pg_ok bulk_all_new fit ts] by blast
  moreover have "length bulk_keys = 3500" by (simp add: bulk_keys_def del: upt_rec_numeral)
  moreover have "ps_notified empty_pg = []" by (simp add: empty_pg_def)
  ultimately obtain st' rest where run: "Insert_keys demo_pg alone bulk_keys empty_pg = (st', rest)"
    "ps_notified st' = [KeysBulkUpdated (map pk_MD5 bulk_keys) []]"
    by (simp add: Insert_keys_def minKeys2UseBulk_def bulkCreateTempTables_def bulkDropTempTables_def Commit_def empty_pg_def)
  have e: "db_ok (ps_db empty_pg)" "hex_rows (ps_db empty_pg)" "ps_commits empty_pg = []" "ps_notified empty_pg = []" "digests (ps_db empty_pg) = {}"
    using empty_pg_ok by (simp_all add: st_ok_def digests_def) (simp_all add: empty_pg_def)
  have "\<forall>k \<in> set bulk_keys. hex_key k" by (auto simp: bulk_keys_def bulk_key_parts simp del: upt_rec_numeral)
  from insertion_follows_tables[OF run(1) e(1-3) this] have "digests (ps_db st') = track (ps_notified st') {}" by (simp add: e(4,5))
  also have "\<dots> = bulk_fp ` {0..<3500}"
  proof -
    have "bulk_fp i \<noteq> []" for i by (simp add: bulk_fp_def hex_EncodeToString_def)
    then show ?thesis by (auto simp: run(2) announced_def bulk_keys_def bulk_key_parts simp del: upt_rec_numeral)
  qed
  finally show ?thesis using run by blast
qed

section \<open>Rewriting the keys\<close>

text \<open>
  C35. Two keys are each sent twice, with the same user ID text: the user ID rows that occur twice are
  partitioned by their text alone, so only the first key gets its user ID row, the second is stored without.
\<close>

theorem bulk_loses_user_ids:
  assumes "keys_copyin tmp = [q, q, r, r]" "kr_rfingerprint q \<noteq> kr_rfingerprint r" "kr_md5 q \<noteq> kr_md5 r" "kr_vfingerprint q \<noteq> kr_vfingerprint r"
    and "userids_copyin tmp = [u, u, v, v]" "ur_rfingerprint u = kr_rfingerprint q" "ur_rfingerprint v = kr_rfingerprint r"
    and "ur_uidstring u = ur_uidstring v" "subkeys_copyin tmp = []"
    and "db_keys (ps_db st) = []" "db_subkeys (ps_db st) = []" "db_userids (ps_db st) = []" "ps_commits st = []"
  shows "\<exists>tmp' db. bulkInsertFromCopyinTables ((tmp, st), result) = (((tmp', st\<lparr>ps_db := db\<rparr>), result), True)
    \<and> db_keys db = [q, r] \<and> db_userids db = [u]"
  using loses_user_ids[OF assms] .

definition demo_row :: "gostring \<Rightarrow> jdoc \<Rightarrow> keyRow" where
  "demo_row s d = \<lparr>kr_rfingerprint = s, kr_doc = d, kr_ctime = 1, kr_mtime = 5, kr_md5 = s, kr_keywords = [], kr_idxtime = 1, kr_vfingerprint = s\<rparr>"

definition demo_uid :: "gostring \<Rightarrow> useridRow" where
  "demo_uid s = \<lparr>ur_rfingerprint = s, ur_uidstring = lit ''Alice'', ur_identity = [], ur_confidence = 0\<rparr>"

theorem bulk_loses_user_ids_witness:
  "let q = demo_row (lit ''a'') EmptyDoc; r = demo_row (lit ''b'') EmptyDoc; u = demo_uid (lit ''a''); v = demo_uid (lit ''b'');
       tmp = crTempTables\<lparr>keys_copyin := [q, q, r, r], userids_copyin := [u, u, v, v]\<rparr>
   in \<exists>tmp' db. bulkInsertFromCopyinTables ((tmp, empty_pg), noErrors) = (((tmp', empty_pg\<lparr>ps_db := db\<rparr>), noErrors), True)
    \<and> db_keys db = [q, r] \<and> db_userids db = [u]"
  unfolding Let_def
  by (rule bulk_loses_user_ids[where v = "demo_uid (lit ''b'')"]) (simp_all add: demo_row_def demo_uid_def crTempTables_def empty_pg_def lit_def)

text \<open>
  C36. A key that a bulk reload deletes, because it is no longer valid, is gone from the tables with its
  digest, but the digest is not among those that the one announcement removes: a subscriber that follows
  the announcements still holds it.
\<close>

theorem reload_deletes_unannounced:
  assumes "st_ok st" "oldRfps \<noteq> []" "bulkInsert V keys oldRfps ((tmp, st), result) = (((tmp', st'), result'), n, d, True)"
    and "q \<in> set (db_keys (ps_db st))" "kr_rfingerprint q \<in> Reverse ` set oldRfps"
    and "kr_rfingerprint q \<notin> (\<lambda>k. Reverse (pub_Fingerprint k)) ` set keys" "kr_md5 q \<notin> pk_MD5 ` set keys" "kr_md5 q \<noteq> []"
  shows "\<not> has_key (kr_rfingerprint q) (ps_db st') \<and> kr_md5 q \<notin> st_digests st'
    \<and> (\<exists>kc. ps_notified st' = ps_notified st @ [kc] \<and> kr_md5 q \<in> announced kc (st_digests st))"
  using assms by (rule reload_unannounced)

lemma reload_one_evaporated:
  assumes "ps_commits st = []" "db_keys (ps_db st) = [r]" "db_ok (ps_db st)" "kr_rfingerprint r = Reverse fp"
  shows "\<exists>tmp' st' n d. bulkInsert V [] [fp] ((crTempTables, st), noErrors) = (((tmp', st'), noErrors), n, d, True)"
proof -
  let ?fp = "kr_rfingerprint r" and ?t = "crTempTables\<lparr>keys_old := [kr_rfingerprint r]\<rparr>"
  let ?db = "(ps_db st)\<lparr>db_keys := [], db_subkeys := [], db_userids := []\<rparr>"
  have subs: "\<forall>s \<in> set (db_subkeys (ps_db st)). sr_rfingerprint s = ?fp" "\<forall>u \<in> set (db_userids (ps_db st)). ur_rfingerprint u = ?fp"
    using assms(2,3) by (auto simp: db_ok_def has_key_def)
  have check: "bulkInsertCheckSubkeys ((?t, st), noErrors) = (((?t, st), noErrors), True)"
    "bulkInsertCheckUserIDs ((?t, st), noErrors) = (((?t, st), noErrors), True)"
    using assms(1)
    by (simp_all add: bulkInsertCheckSubkeys_def bulkInsertCheckUserIDs_def report_def bulkExecSingleTx_def Commit_ok crTempTables_def
        bulkTxCleanCheckedSubkeys_def bulkTxFilterUniqueSubkeys_def bulkTxPrepSubkeyStats_def bulkTxFilterDupSubkeys_def insert_subkeys_checked_def
        bulkTxCleanCheckedUserIDs_def bulkTxFilterUniqueUserIDs_def bulkTxPrepUserIDStats_def bulkTxFilterDupUserIDs_def insert_userids_checked_def
        rows_where_Nil)
  have "bulkInsertCopyKeysToServer V [] ((crTempTables, st), noErrors) = (((crTempTables, st), noErrors), True)"
    using assms(1)
    by (simp add: bulkInsertCopyKeysToServer_def bulkInsertDoCopy_def bulkInsertCleanCopyin_def copy_bunches.simps and_then_def report_def
        bulkExecSingleTx_def bulkTxCleanCopyin_def Commit_ok crTempTables_def)
  moreover have "bulkInsertCopyOldRfps [fp] ((crTempTables, st), noErrors) = (((?t, st), noErrors), True)"
    using assms(1,4) by (simp add: bulkInsertCopyOldRfps_def report_def bulkInsertSendBunchTx_def Commit_ok crTempTables_def)
  moreover have "bulkReloadFromCopyinTables ((?t, st), noErrors) = (((?t, st\<lparr>ps_db := ?db\<rparr>), noErrors), True)"
    unfolding bulkReloadFromCopyinTables_def and_then_def check fst_conv snd_conv if_True using assms(1,2) subs
    by (simp add: report_def bulkExecSingleTx_def Commit_ok crTempTables_def
        bulkTxCleanCheckedKeys_def bulkTxJournalKeys_def insert_keys_checked_def bulkTxClearDupSubkeys_def bulkTxClearOrphanSubkeys_def
        bulkTxClearDupUserIDs_def bulkTxClearOrphanUserIDs_def bulkTxClearKeys_def bulkTxUpdateKeys_def bulkTxInsertSubkeys_def
        bulkTxReindexSubkeys_def bulkTxInsertUserIDs_def bulkTxReindexUserIDs_def orphaned_def filter_empty_conv)
  ultimately show ?thesis by (simp add: bulkInsert_def and_then_def BulkNotify_def noErrors_def Let_def)
qed

theorem reload_deletes_unannounced_witness:
  "\<exists>tmp' st' n d kc. bulkInsert demo_pg [] [pub_Fingerprint demo_cert] ((crTempTables, store_of demo_cert), noErrors) = (((tmp', st'), noErrors), n, d, True)
    \<and> pk_MD5 demo_cert \<notin> st_digests st' \<and> ps_notified st' = ps_notified (store_of demo_cert) @ [kc]
    \<and> pk_MD5 demo_cert \<in> announced kc (st_digests (store_of demo_cert))"
proof -
  obtain r where r: "st_ok (store_of demo_cert)" "db_keys (ps_db (store_of demo_cert)) = [r]"
    "kr_rfingerprint r = Reverse (pub_Fingerprint demo_cert)" "kr_md5 r = pk_MD5 demo_cert"
    using store_of_key[OF demo_hex] by metis
  obtain tmp' st' n d where run: "bulkInsert demo_pg [] [pub_Fingerprint demo_cert] ((crTempTables, store_of demo_cert), noErrors)
      = (((tmp', st'), noErrors), n, d, True)"
    using reload_one_evaporated[OF st_okD(3)[OF r(1)] r(2) st_okD(1)[OF r(1)] r(3)] by blast
  from reload_deletes_unannounced[OF r(1) _ run, of r] r run demo_digest_ok(2) show ?thesis by auto
qed


definition demo_store :: "keyRow list \<Rightarrow> pgst" where
  "demo_store rows = \<lparr>ps_db = \<lparr>db_keys = rows, db_subkeys = [], db_userids = [], db_pks = []\<rparr>, ps_notified = [], ps_commits = []\<rparr>"

text \<open>Two stored keys, the older one later in the table.\<close>

definition stored_key :: "byte \<Rightarrow> PrimaryKey" where
  "stored_key b = demo_key [\<lparr>op_Tag = 6, op_Contents = [b]\<rparr>]"

definition stored_row :: "byte \<Rightarrow> time \<Rightarrow> keyRow" where
  "stored_row b t = \<lparr>kr_rfingerprint = Reverse (pub_Fingerprint (stored_key b)), kr_doc = Doc (NewPrimaryKey (stored_key b)),
     kr_ctime = 1, kr_mtime = t, kr_md5 = [b], kr_keywords = [], kr_idxtime = 1, kr_vfingerprint = []\<rparr>"

lemma stored_rfps: "Reverse (pub_Fingerprint (stored_key 1)) = lit ''0000000000000000000000000000000000000010''"
  "Reverse (pub_Fingerprint (stored_key 3)) = lit ''0000000000000000000000000000000000000030''"
  by code_simp+

lemma demo_store_ok: "st_ok (demo_store [stored_row 1 9, stored_row 3 5])"
  by (simp add: demo_store_def stored_row_def stored_rfps st_ok_def db_ok_def hex_rows_def hex_string_def lit_def)


lemma stored_readable:
  "case read_row demo_pg 0 (stored_row 1 9) of Inr r \<Rightarrow> (case rec_PrimaryKey r of Some k \<Rightarrow> \<not> isl (WriteArmoredPackets demo (\<lambda>b. b) [k] False) | None \<Rightarrow> False) | _ \<Rightarrow> False"
  "case read_row demo_pg 0 (stored_row 3 5) of Inr r \<Rightarrow> (case rec_PrimaryKey r of Some k \<Rightarrow> \<not> isl (WriteArmoredPackets demo (\<lambda>b. b) [k] False) | None \<Rightarrow> False) | _ \<Rightarrow> False"
  by code_simp+


section \<open>Passing keys on\<close>

text \<open>
  C38. A round ranges over the slice of the list as it was when the round began. When reconciliation with a
  failover partner on the list starts again in the meantime, \<open>slices.DeleteFunc\<close> clears the last places
  of that very array: if the round has not got beyond them, its turn at one of them asks for the status of the empty address,
  gets none, and the process panics, in every run of a sender from its start in which no row has the empty address.
\<close>

theorem failover_in_round_panics:
  assumes "NewSender K spare settings userAgent st = (st', Inr s)" "(pks_step K)\<^sup>*\<^sup>* (start_run s st') r"
    and "rn_loop r = Some (sd_to (rn_sender r), i)" "i < length (sender_to (rn_sender r))"
    and "pt_PKSFailover p" "pksAddr p \<in> set (sender_to (rn_sender r))"
    and "length (sender_to (ReconStarted p (rn_sender r))) \<le> i"
    and "PKSGet [] (rn_db r) = None" "pe_fails K (CallGet []) (rn_db r) = None"
  shows "\<exists>r'. pks_step K r r' \<and> rn_sender r' = ReconStarted p (rn_sender r) \<and> pks_turn K r' = Inl (Panic PNil)"
proof -
  let ?r = "r\<lparr>rn_sender := ReconStarted p (rn_sender r)\<rparr>"
  obtain a n where to: "sd_to (rn_sender r) = (a, n)" by fastforce
  have ok: "sender_ok (rn_sender r)" using pks_reachable_ok[OF assms(1,2)] by (simp add: run_ok_def)
  have n: "i < n" using assms(4) by (simp add: sender_to_def to)
  note e = ReconStarted_empty[OF ok to assms(5,7) n]
  have "pks_turn K ?r = Inl (Panic PNil)"
  proof (rule pks_turn_nil[OF _ n])
    show "rn_loop ?r = Some ((a, n), i)" using assms(3) by (simp add: to)
    show "i < length (sd_heap (rn_sender ?r) ! a)" using e(2) by simp
    have a: "sd_heap (rn_sender ?r) ! a ! i = []" using e(1) by simp
    show "storage_Get K (sd_heap (rn_sender ?r) ! a ! i) (rn_db ?r) = Inr None" unfolding a storage_Get_def using assms(8,9) by simp
  qed
  then show ?thesis using step_started[of K r p] by (intro exI[of _ ?r]) simp
qed

definition demo_pks :: pksenv where
  "demo_pks = \<lparr>pe_V = demo_pg, pe_armor_Encode = \<lambda>b. b, pe_Error = \<lambda>_. lit ''error'',
     pe_answer = \<lambda>ds. if length ds = 1 then Inr 200 else Inl (Err ErrEOF),
     pe_fails = \<lambda>_ _. None, pe_spare = \<lambda>_. 0\<rparr>"

definition demo_settings :: "gostring list \<Rightarrow> pksSettings" where
  "demo_settings addrs = pks_DefaultSettings\<lparr>pks_To := addrs\<rparr>"

definition failover :: partner where
  "failover = blank_partner\<lparr>pt_HTTPAddr := ''c:1'', pt_PKSFailover := True\<rparr>"

lemma demo_sender: "\<exists>s st'. NewSender demo_pks 0 (Some (demo_settings addrs)) [] st = (st', Inr s)"
proof -
  have "SplitHostPort DefaultSMTPHost \<noteq> None" by code_simp
  moreover have "snd (initStatus demo_pks addrs st) = Inr ()" by (rule initStatus_ok) (simp add: demo_pks_def)
  ultimately show ?thesis by (auto simp: NewSender_def demo_settings_def pks_DefaultSettings_def split: prod.splits sum.splits)
qed

lemma PKSInit_rows:
  "db_pks (ps_db (PKSInit a t st)) = (if \<exists>r \<in> set (db_pks (ps_db st)). pr_addr r = a then db_pks (ps_db st)
    else db_pks (ps_db st) @ [\<lparr>pr_addr = a, pr_last_sync = t, pr_last_error = None\<rparr>])"
  "db_keys (ps_db (PKSInit a t st)) = db_keys (ps_db st)"
  by (simp_all add: PKSInit_def Let_def)

lemma demo_Init: "storage_Init demo_pks a t x = (PKSInit a t x, Inr ())"
  by (simp add: storage_Init_def demo_pks_def)

lemma demo_rows:
  "initStatus demo_pks [a, b] empty_pg = (st, Inr ()) \<Longrightarrow> a \<noteq> b \<Longrightarrow>
    db_keys (ps_db st) = [] \<and> (\<exists>t. db_pks (ps_db st) = [\<lparr>pr_addr = a, pr_last_sync = t, pr_last_error = None\<rparr>,
      \<lparr>pr_addr = b, pr_last_sync = t, pr_last_error = None\<rparr>])"
  unfolding initStatus.simps demo_Init prod.case sum.case prod.inject
  by (erule conjE, hypsubst, simp only: PKSInit_rows) (simp add: empty_pg_def)

lemma turn_step: "pks_turn K r = Inr r' \<Longrightarrow> pks_step K r r'"
  using step_turn[where K = K and fails = "pe_fails K" and r = r and r' = r'] by simp

theorem failover_in_round_panics_witness:
  "\<exists>s st r r'. NewSender demo_pks 0 (Some (demo_settings [pksAddr failover, lit ''mailto:a@b''])) [] empty_pg = (st, Inr s)
     \<and> (pks_step demo_pks)\<^sup>*\<^sup>* (start_run s st) r \<and> pks_step demo_pks r r' \<and> pks_turn demo_pks r' = Inl (Panic PNil)"
proof -
  let ?addrs = "[pksAddr failover, lit ''mailto:a@b'']"
  obtain s st where new: "NewSender demo_pks 0 (Some (demo_settings ?addrs)) [] empty_pg = (st, Inr s)"
    using demo_sender by blast
  have f: "pksAddr failover = lit ''hkp://c:1''" "pt_PKSFailover failover" by (simp_all add: pksAddr_def failover_def lit_def)
  have d: "lit ''hkp://c:1'' \<noteq> lit ''mailto:a@b''" "lit ''hkp://c:1'' \<noteq> []" "lit ''mailto:a@b'' \<noteq> []" by (simp_all add: lit_def)
  have parts: "sd_heap s = [?addrs]" "sd_to s = (0, 2)" "initStatus demo_pks ?addrs empty_pg = (st, Inr ())"
  proof -
    obtain cfg where "Some (demo_settings ?addrs) = Some cfg" "sd_heap s = [pks_To cfg @ replicate 0 []]"
      "sd_to s = (0, length (pks_To cfg))" "initStatus demo_pks (pks_To cfg) empty_pg = (st, Inr ())"
      by (rule NewSender_parts[OF new])
    moreover have "pks_To (demo_settings ?addrs) = ?addrs" by (simp add: demo_settings_def)
    ultimately show "sd_heap s = [?addrs]" "sd_to s = (0, 2)" "initStatus demo_pks ?addrs empty_pg = (st, Inr ())" by simp_all
  qed
  have no_fail: "pe_fails demo_pks c x = None" for c x by (simp add: demo_pks_def)
  obtain t where rows: "db_pks (ps_db st) = [\<lparr>pr_addr = pksAddr failover, pr_last_sync = t, pr_last_error = None\<rparr>,
      \<lparr>pr_addr = lit ''mailto:a@b'', pr_last_sync = t, pr_last_error = None\<rparr>]" "db_keys (ps_db st) = []"
    using demo_rows[OF parts(3) d(1)[folded f(1)]] by blast
  obtain status where get: "PKSGet (pksAddr failover) st = Some status" by (simp add: PKSGet_def rows(1))
  have send: "SendKeys demo_pks status s st = (s, st, status, Inr ())"
    by (simp add: SendKeys_def no_fail ModifiedSinceToFp_def rows(2) order_limit_def)
  let ?r1 = "(start_run s st)\<lparr>rn_loop := Some ((0, 2), 0)\<rparr>" and ?r2 = "(start_run s st)\<lparr>rn_loop := Some ((0, 2), 1)\<rparr>"
  have "pks_turn demo_pks (start_run s st) = Inr ?r1" by (simp add: pks_turn_def start_run_def parts(2))
  moreover have "pks_turn demo_pks ?r1 = Inr ?r2"
    by (simp add: pks_turn_def start_run_def parts(1) storage_Get_def no_fail get send)
  ultimately have run: "(pks_step demo_pks)\<^sup>*\<^sup>* (start_run s st) ?r2"
    by (meson turn_step rtranclp.rtrancl_into_rtrancl rtranclp.rtrancl_refl)
  have to: "sender_to s = ?addrs" using NewSender_to(2)[OF new] by (simp add: demo_settings_def)
  have "sender_to (ReconStarted failover s) = [lit ''mailto:a@b'']"
    using sender_to_delete(1)[OF NewSender_to(3)[OF new], of "pksAddr failover"] d(1) by (simp add: ReconStarted_def f to)
  moreover have "PKSGet [] st = None" using d by (simp add: PKSGet_def rows(1) f(1))
  ultimately show ?thesis
    using failover_in_round_panics[OF new run, of 1 failover] f(2) no_fail new run
    by (simp add: start_run_def parts(2) to) blast
qed

text \<open>
  When reconciliation with a failover partner starts that is also a configured peer, the entry is
  cleared in the configuration as well: the running list shares the array of \<open>settings.To\<close>.
\<close>

lemma failover_clears_configured:
  assumes "NewSender K spare (Some cfg) userAgent st = (st', Inr s)" "pt_PKSFailover p" "pksAddr p \<in> set (pks_To cfg)"
  shows "settings_To s = pks_To cfg \<and> pksAddr p \<notin> set (settings_To (ReconStarted p s))
    \<and> length (settings_To (ReconStarted p s)) = length (pks_To cfg) \<and> [] \<in> set (settings_To (ReconStarted p s))"
proof -
  let ?f = "filter (\<lambda>x. x \<noteq> pksAddr p) (pks_To cfg)"
  have "length ?f < length (pks_To cfg)" using assms(3) by (auto intro: length_filter_less)
  then show ?thesis using NewSender_to(1)[OF assms(1)] ReconStarted_clears[OF assms] by simp
qed

lemma failover_clears_configured_witness:
  "\<exists>s st'. NewSender demo_pks 0 (Some (demo_settings [pksAddr failover, lit ''mailto:a@b''])) [] empty_pg = (st', Inr s)
     \<and> pksAddr failover \<in> set (settings_To s) \<and> pksAddr failover \<notin> set (settings_To (ReconStarted failover s))"
proof -
  obtain s st' where s: "NewSender demo_pks 0 (Some (demo_settings [pksAddr failover, lit ''mailto:a@b''])) [] empty_pg = (st', Inr s)"
    using demo_sender by blast
  from failover_clears_configured[OF s, of failover] s show ?thesis by (auto simp: failover_def demo_settings_def)
qed

text \<open>A failover partner is on the list even when its row could not be written.\<close>

lemma failover_without_row:
  assumes "sender_ok s" "pt_PKSFailover p" "pe_fails K (CallInit (pksAddr p)) st = Some e" "PKSGet (pksAddr p) st = None"
  shows "\<exists>s'. ReconUnavailable K p t s st = (s', st) \<and> pksAddr p \<in> set (sender_to s') \<and> PKSGet (pksAddr p) st = None"
  using assms sender_to_append(1)[OF assms(1)] by (simp add: ReconUnavailable_def storage_Init_def)

text \<open>Two rounds with the two stored keys: one succeeds, in the other the second delivery fails.\<close>

definition demo_status :: pksRow where
  "demo_status = \<lparr>pr_addr = lit ''mailto:a@b'', pr_last_sync = 0, pr_last_error = None\<rparr>"

definition demo_sd :: sender where
  "demo_sd = \<lparr>sd_heap = [[]], sd_settings_len = 0, sd_to = (0, 0), sd_From = [], sd_SMTPHost = [], sd_userAgent = [], sd_sent = []\<rparr>"

lemma demo_mailto: "mailto (lit ''mailto:a@b'') = Some (lit ''a@b'')"
  by code_simp

lemma demo_send:
  assumes "\<not> isl (WriteArmoredPackets demo (\<lambda>b. b) [k] False)" "pe_V K = demo_pg" "pe_armor_Encode K = (\<lambda>b. b)"
  shows "\<exists>s'. SendKey K (pr_addr demo_status) k s = (s', rbind (pe_answer K (sd_sent s')) (\<lambda>_. Inr ())) \<and> length (sd_sent s') = Suc (length (sd_sent s))"
proof -
  obtain msg where "WriteArmoredPackets demo (\<lambda>b. b) [k] False = Inr msg" using assms(1) by (auto simp: isl_def) (metis sum.exhaust)
  then show ?thesis using assms(2,3) by (simp add: SendKey_def demo_status_def demo_mailto send_mail_def demo_pg_def Let_def)
qed

lemma demo_changed:
  assumes "pe_V K = demo_pg"
  shows "lowers (pe_V K)" "zeroTime \<le> sync_from K (pr_last_sync demo_status)"
    "changed_rows K demo_status (demo_store [stored_row 1 9, stored_row 3 5]) = [stored_row 1 9, stored_row 3 5]"
    "oldest_changes K demo_status (demo_store [stored_row 1 9, stored_row 3 5]) = [stored_row 3 5, stored_row 1 9]"
    "kr_rfingerprint (stored_row 1 9) \<noteq> []" "kr_rfingerprint (stored_row 3 5) \<noteq> []"
proof -
  have f: "sync_from K (pr_last_sync demo_status) = 0"
    by (simp add: assms sync_from_def demo_status_def demo_pg_def demo_def maxHistory_def second_def)
  show "lowers (pe_V K)" by (simp add: assms lowers_def demo_pg_def demo_def)
  show "zeroTime \<le> sync_from K (pr_last_sync demo_status)" unfolding f by (simp add: zeroTime_def second_def)
  show "changed_rows K demo_status (demo_store [stored_row 1 9, stored_row 3 5]) = [stored_row 1 9, stored_row 3 5]"
    unfolding changed_rows_def select_keys_def f assms by (simp add: demo_store_def stored_row_def demo_pg_def)
  show "oldest_changes K demo_status (demo_store [stored_row 1 9, stored_row 3 5]) = [stored_row 3 5, stored_row 1 9]"
    unfolding oldest_changes_def order_limit_def f by (simp add: demo_store_def stored_row_def internalQueryLimit_def)
  show "kr_rfingerprint (stored_row 1 9) \<noteq> []" "kr_rfingerprint (stored_row 3 5) \<noteq> []"
    by (simp_all add: stored_row_def stored_rfps lit_def)
qed

lemma demo_read:
  obtains r1 r2 k1 k2 where "read_row demo_pg 0 (stored_row 1 9) = Inr r1" "read_row demo_pg 0 (stored_row 3 5) = Inr r2"
    "rec_PrimaryKey r1 = Some k1" "rec_PrimaryKey r2 = Some k2"
    "\<not> isl (WriteArmoredPackets demo (\<lambda>b. b) [k1] False)" "\<not> isl (WriteArmoredPackets demo (\<lambda>b. b) [k2] False)"
  using stored_readable by (auto split: sum.splits option.splits)

text \<open>
  C39. A round that succeeds with a peer sends it armored keys, each once: those of the rows that were changed
  after its last synchronisation, or after the day before now when that is later, the 100
  that were changed first when there are more. A record without a key, evaporated since it was stored, is skipped. The
  keys go out in the order in which the database returns the rows, which may be any.
\<close>

theorem peer_gets_changed_keys:
  assumes "db_ok (ps_db st)" "hex_rows (ps_db st)" "lowers (pe_V K)"
    and "zeroTime \<le> sync_from K (pr_last_sync status)" "\<forall>r \<in> set (oldest_changes K status st). kr_rfingerprint r \<noteq> []"
    and "SendKeys K status s st = (s', st', status', Inr ())"
  shows "\<exists>records ds keys. rmap (read_row (pe_V K) 0) (oldest_changes K status st) = Inr records \<and> length records \<le> 100
    \<and> sd_sent s' = sd_sent s @ ds \<and> list_all2 (carries K) ds keys \<and> mset keys = mset (record_keys records)"
proof -
  have "length (oldest_changes K status st) \<le> 100" by (simp add: oldest_changes_def order_limit_def internalQueryLimit_def)
  with SendKeys_carries[OF assms] rmap_length show ?thesis by metis
qed

theorem peer_gets_changed_keys_witness:
  "let st = demo_store [stored_row 1 9, stored_row 3 5]; K = demo_pks\<lparr>pe_answer := \<lambda>_. Inr 200\<rparr> in
   \<exists>s' st' status' ds keys. SendKeys K demo_status demo_sd st = (s', st', status', Inr ()) \<and> sd_sent s' = ds
     \<and> length ds = 2 \<and> list_all2 (carries K) ds keys"
proof -
  let ?st = "demo_store [stored_row 1 9, stored_row 3 5]" and ?K = "demo_pks\<lparr>pe_answer := \<lambda>_. Inr 200\<rparr>"
  have V: "pe_V ?K = demo_pg" "pe_armor_Encode ?K = (\<lambda>b. b)" by (simp_all add: demo_pks_def)
  have no_fail: "pe_fails demo_pks c x = None" for c x by (simp add: demo_pks_def)
  then have calls: "pe_fails ?K c x = None" for c x by simp
  obtain r1 r2 k1 k2 where r: "read_row demo_pg 0 (stored_row 1 9) = Inr r1" "read_row demo_pg 0 (stored_row 3 5) = Inr r2"
    "rec_PrimaryKey r1 = Some k1" "rec_PrimaryKey r2 = Some k2"
    "\<not> isl (WriteArmoredPackets demo (\<lambda>b. b) [k1] False)" "\<not> isl (WriteArmoredPackets demo (\<lambda>b. b) [k2] False)"
    by (rule demo_read)
  obtain s1 where s1: "SendKey ?K (pr_addr demo_status) k1 demo_sd = (s1, Inr ())" using demo_send[OF r(5) V, of demo_sd] by auto
  obtain s2 where s2: "SendKey ?K (pr_addr demo_status) k2 s1 = (s2, Inr ())" using demo_send[OF r(6) V, of s1] by auto
  note c = demo_changed[OF V(1)] and ok = st_okD(1,2)[OF demo_store_ok]
  have ne: "\<forall>r \<in> set (oldest_changes ?K demo_status ?st). kr_rfingerprint r \<noteq> []" unfolding c(4) using c(5,6) by simp
  have "fetched_rows ?K demo_status ?st = [stored_row 1 9, stored_row 3 5]"
    using fetched_all[OF ok(1), of ?K demo_status] c(3) by (simp add: internalQueryLimit_def)
  then have rows: "rmap (read_row demo_pg 0) (fetched_rows ?K demo_status ?st) = Inr [r1, r2]" using r(1,2) by simp
  obtain s' st' status' where run: "SendKeys ?K demo_status demo_sd ?st = (s', st', status', Inr ())"
    unfolding SendKeys_reads[OF ok c(1) calls calls c(2) ne] V(1) rows sum.case
    using r(3,4) s1 s2 by (simp add: Let_def storage_Update_def no_fail)
  obtain records ds keys where ds: "rmap (read_row demo_pg 0) (oldest_changes ?K demo_status ?st) = Inr records"
    "sd_sent s' = sd_sent demo_sd @ ds" "list_all2 (carries ?K) ds keys" "mset keys = mset (record_keys records)"
    using peer_gets_changed_keys[OF ok c(1,2) ne run] unfolding V(1) by blast
  have "record_keys records = [k2, k1]" using ds(1) r unfolding c(4) by (auto simp: List.map_filter_simps)
  with ds(3,4) have "length ds = 2" using mset_eq_length[OF ds(4)] list_all2_lengthD[OF ds(3)] by simp
  with ds(2,3) run show ?thesis unfolding Let_def by (auto simp: demo_sd_def)
qed



end
