(* ===== verification/Spec2Isabelle.thy ===== *)
theory Spec2Isabelle
  imports FactorCheck GossipSpec LevelDbSpec BulkProps
begin

text \<open>
  Hockeypuck is an OpenPGP key server. Its parts, under \<open>src/src/hockeypuck\<close>: \<open>conflux\<close>, the set
  reconciliation of SKS (polynomials over Z(p), prefix trees, the recon protocol between peers);
  \<open>openpgp\<close>, which parses, checks, merges and writes certificates; \<open>hkp\<close>, the HTTP key server
  protocol and its storage interface; \<open>pghkp\<close>, storage in PostgreSQL; \<open>server\<close>, which wires them
  up. A peer keeps the digests of its keys, as field elements, in a prefix tree. Two peers
  exchange samples of the characteristic polynomial of a subtree, recover the two set differences
  by rational interpolation, and fetch the missing keys over HKP.

  Conventions. A Go function that may panic or return an error is a function into
  \<open>'a res = fault + 'a\<close> (theory Prelude): \<open>Inl (Err e)\<close> is a returned error, \<open>Inl (Panic p)\<close> a
  run-time panic (nil, index, arithmetic, explicit), \<open>Inl Diverge\<close> a recursion that used up its
  fuel. \<open>rbind\<close> sequences, \<open>rfold\<close> and \<open>rmap\<close> are the loops. Methods that overwrite their receiver
  return the new value; structs are records, slices lists, Go maps association lists or partial
  maps, machine integers words where they wrap and \<open>int\<close> where the code cannot reach the bounds.

  Reconciliation.
  \<^item> Prelude, Zp, ZSet, Bitstring: Go's failures and slices, \<open>conflux/zp.go\<close>, \<open>bitstring.go\<close>. The
    locale \<open>element_set\<close> is the contract of a set of field elements, interpreted on \<open>ZSet\<close>.
  \<^item> Primality: the SKS modulus is prime, by Pocklington certificates that the kernel replays.
  \<^item> Poly and PolySpec (\<open>poly.go\<close>): arithmetic, division, gcd; coefficients and values are those of
    the mathematical operations, \<open>PolyDivmod\<close> ends on every non-zero divisor.
  \<^item> Matrix and MatrixSpec (\<open>matrix.go\<close>): elimination stays in its slice and field; the pivot test
    looks at 64 bits only.
  \<^item> Decode, DecodeSpec, ReconcileSpec, FactorCheck (\<open>decode.go\<close>): interpolation, factoring and
    \<open>Reconcile\<close>; what they return is right, they do not panic, and the pre-check of the factor search
    accepts a polynomial on which the search never ends.
  \<^item> PTree, PTreeInv, PTreeSpec (\<open>recon/ptree.go\<close>): the in-memory prefix tree, its node invariant, and
    the locale \<open>prefix_tree\<close> (a set of elements with forbidden sample points) interpreted on it; histories
    of insertions and removals (\<open>run_op\<close>) that leave the same set end with the same summary.
  \<^item> LevelDb, LevelDbSpec (\<open>recon/leveldb/ptree.go\<close>): the prefix tree in a database, which is a map.
  \<^item> Messages, MessageSpec (\<open>recon/messages.go\<close>): the wire format; the locale \<open>codec\<close> is the contract
    of a writer and its reader, interpreted on every type of the protocol.
  \<^item> Settings, Peer, PeerSpec, Gossip, GossipSpec (\<open>recon/settings.go\<close>, \<open>peer.go\<close>, \<open>gossip.go\<close>): partners
    and filters, the reader and mutator protocol of a peer as a step relation, flushes by \<open>Flush\<close> and \<open>Stop\<close>
    included, the handshake, and the two sides of an exchange. Where the code takes the configuration from the
    settings of the peer and not from its tree, it is an argument of its own.

  Certificates.
  \<^item> Packets, PacketSpec: packets as bytes (\<open>openpgp/types.go\<close>, \<open>strings.go\<close>, \<open>subpacket.go\<close>, and the
    framing code of the vendored go-crypto), with the round trips of framing, subpackets and
    notations, and sorting.
  \<^item> OpenPgp: the packet types and the parsing of single packets (\<open>signature.go\<close>, \<open>trust.go\<close>,
    \<open>userid.go\<close>, \<open>subkey.go\<close>, \<open>pubkey.go\<close>).
  \<^item> Certs: the SKS digest, trust packets, \<open>verify.go\<close>, \<open>selfsigs.go\<close> and the \<open>SigInfo\<close> methods.
  \<^item> Resolve: \<open>resolve.go\<close> and \<open>sort.go\<close>, policies, \<open>ValidSelfSigned\<close>, \<open>dedup\<close>, \<open>Merge\<close>, \<open>Sort\<close>.
  \<^item> KeyIO: \<open>io.go\<close>, splitting a stream into certificates, parsing one, writing keys.
  \<^item> CertSpec, ValidSpec, KeyIOSpec: the digest as a function of the multiset of packets, trust
    packets through writing and parsing, what \<open>ValidSelfSigned\<close> keeps, the limits of the reader.
  \<^item> DedupSpec: \<open>dedup\<close> as set union on the UUIDs of a certificate (record \<open>cert_abs\<close>), following the
    addresses, kinds and UUIDs of the nodes through every removal.
  \<^item> CertProps: the properties of certificates, with a concrete library for the witnesses.

  The service.
  \<^item> Storage (\<open>hkp/storage/storage.go\<close>, \<open>hkp/sks/stats.go\<close>): records, announced changes, load statistics,
    and the methods of a storage as the record \<open>storage\<close> over any type of state.
  \<^item> JsonHkp (\<open>hkp/jsonhkp/jsonhkp.go\<close>): the document that is stored of a key; it holds its packets.
  \<^item> PgTypes, PgTypesSpec (\<open>pghkp/types/types.go\<close>): rows, keywords and the search index; what is written
    to the index is what is read from it.
  \<^item> PgStore, PgStoreSpec (\<open>pghkp/storage.go\<close>, \<open>update.go\<close>, \<open>delete.go\<close>, \<open>query.go\<close>, \<open>notify.go\<close>,
    \<open>pksstorage.go\<close>): the tables as lists of rows, each SQL statement as a function on them,
    transactions and announcements. As long as every commit succeeds and no other session writes, the
    tables keep their constraints, and the announcements add up to the digests that they hold.
  \<^item> SksPeer, SksSpec (\<open>hkp/sks/recon.go\<close>): announcements become updates of the prefix tree, missing keys
    are requested from the partner in chunks and stored.
  \<^item> Requests, Handler (\<open>hkp/requests.go\<close>, \<open>handler.go\<close>, \<open>writers.go\<close>): parsing of requests and the
    handlers, each a function from a request and the storage to a response and the storage.
  \<^item> StorageSpec: the locale \<open>announcing_storage\<close>, the contract between the handlers and a storage, under
    which every request (relation \<open>serves\<close>) keeps the invariant of the storage; it is interpreted on
    the PostgreSQL storage.
  \<^item> ServerProps: the properties of the service. SampleTrees: trees for the witnesses.

  Bulk operations and peers.
  \<^item> BulkSql (\<open>pghkp/bulk_sql.go\<close>): every SQL statement of a bulk session that writes, as a function on
    its temporary tables and those of the database (\<open>job\<close>), failing where a constraint is violated.
  \<^item> Bulk, BulkSpec (\<open>bulk.go\<close>, \<open>Insert\<close> of \<open>update.go\<close>, \<open>BulkNotify\<close>): transactions of such jobs, sending
    rows in bunches of at most 64,000 arguments, insertion in bulk. As long as every commit succeeds it keeps the
    constraints and follows the announcements, and does to new keys what inserting them one by one does.
  \<^item> Reload, ReloadSpec (\<open>reload.go\<close>, \<open>reindex.go\<close>): paging through the table, validating and rewriting
    the keys, refreshing the derived columns. Reindexing ends and keeps what it must keep; a reload
    leaves announcements and rows behind that it should not.
  \<^item> Pks, PksSpec (\<open>hkp/pks/pks.go\<close>): the sender of changed keys, its list of peers over the array it
    shares with the settings (a heap of arrays), failover, deliveries, and a step relation whose steps are the turns
    of a round, the failover handler and changes of the database by others. What a peer gets, and how a
    failover during a round ends the process.
  \<^item> BulkProps: the properties of these, with concrete rows for the witnesses.

  Fuel. \<open>PolyDivmod\<close> has \<open>divmod_fuel\<close>, shown enough for every non-zero divisor; \<open>PolyGcd\<close> the degree
  of the divisor plus 3; tree insertion the number of bits plus 2, because a leaf below the last
  digit is not split; the operations of the disk tree likewise; \<open>dedup\<close> 4, the depth of a
  certificate. \<open>Reload\<close>, \<open>EnumerateRecords\<close> and \<open>Reindex\<close> have the number of pages they may read, and for
  \<open>Reindex\<close> some amount is shown to be enough. The factor search is random and may not end; \<open>poly_Factor\<close> and \<open>Reconcile\<close> take its
  fuel as an argument, and what is said of them holds for every amount that returns.

  Abstractions. \<open>sort.Sort\<close> is insertion sort (Go uses it up to 12 elements; longer slices may order
  equal elements differently). The capacity of a byte slice is its length. Go map iteration order
  is the order of an association list. The bodies of OpenPGP packets are parsed, and signatures
  checked, by go-crypto: its functions, MD5, SHA-256, base64, the Unicode tables and the clock are
  the fields of the record \<open>gocrypto\<close>, about which nothing is assumed. Pointers to packets are
  numbers (\<open>p_ptr\<close>), because \<open>dedup\<close> compares pointers. A connection is a byte sequence; random bytes
  and DNS answers are parameters.

  PostgreSQL is a parameter where it parses and matches the search index, and in the order of rows that a
  fetching query leaves open (record \<open>pgenv\<close>); where a query takes the first row of several, it is that of the list. Whether
  the coming commits succeed is an input of the state, \<open>ps_commits\<close>, and so is what other sessions commit between the
  two statements of an update. The invariant \<open>st_ok\<close> of the storage says that all coming commits succeed: several places of
  the code do not look at the result of a commit, and what is proved under \<open>st_ok\<close> fails with it. Reindexing
  is shown to be right for every outcome. A query that only reads does not fail in the
  PostgreSQL model, though a storage of the interface may; the calls that the PKS sender makes may fail, as a
  parameter. HTTP responses of a partner, the armor codec, the check of detached
  signatures and random numbers are fields of \<open>hkpenv\<close> or arguments, the answers to deliveries and failing calls of the storage
  fields of \<open>pksenv\<close>; JSON and HTML output are kept as the values that are rendered.

  Not modelled: logging and metrics, timers, sockets and the accept loop, the armor codec, the file
  position of a certificate, TOML decoding, opening and closing databases, the statistics file,
  goroutines of the SKS peer, the timers of the reindexer and the PKS sender; the statistics of the
  bulk operations that are only logged; the creation and migration of tables; \<open>server\<close> and the
  commands, which read settings and wire the parts up.
\<close>

section \<open>The prefix tree\<close>

text \<open>
  C1. Inserting a field element that is neither in the tree nor a sample point keeps the tree
  well formed and adds exactly that element: \<open>MemPrefixTree.Insert\<close> refines insertion into a set.
\<close>

theorem insert_refines_set:
  assumes "mtree_wf t" "felem P_SKS z" "z \<notin> mtree_elems t" "z \<notin> set (mt_points t)"
  shows "\<exists>t'. mem_Insert z t = Inr t' \<and> mtree_wf t' \<and> mtree_elems t' = insert z (mtree_elems t)
    \<and> mt_points t' = mt_points t \<and> mt_cfg t' = mt_cfg t"
  using assms by (rule mem_Insert_new)

theorem insert_refines_set_witness:
  "\<exists>t t'. mem_Init blank_tree = Inr t \<and> mem_Insert (zmk P_SKS 100) t = Inr t' \<and> mtree_elems t' = {zmk P_SKS 100}"
proof -
  obtain t where t: "mem_Init blank_tree = Inr t" "mtree_wf t" "mtree_elems t = {}" "mt_cfg t = defaultPTreeConfig"
    "mt_points t = map (zmk P_SKS) [0, -1, 1, -2, 2, -3]" by (rule initial_tree)
  have "felem P_SKS (zmk P_SKS 100)" "zmk P_SKS 100 \<notin> mtree_elems t" "zmk P_SKS 100 \<notin> set (mt_points t)"
    using t hundred_not_a_point by simp_all
  from insert_refines_set[OF t(2) this] t show ?thesis by auto
qed

text \<open>
  C2. Removing an element of the tree keeps the tree well formed and takes exactly that element
  out, joining subtrees that fall below the threshold: \<open>MemPrefixTree.Remove\<close> refines removal
  from a set.
\<close>

theorem remove_refines_set:
  assumes "mtree_wf t" "z \<in> mtree_elems t"
  shows "\<exists>t'. mem_Remove z t = Inr t' \<and> mtree_wf t' \<and> mtree_elems t' = mtree_elems t - {z}
    \<and> mt_points t' = mt_points t \<and> mt_cfg t' = mt_cfg t"
  using assms by (rule mem_Remove_present)

theorem remove_refines_set_witness:
  "\<exists>t t' t''. mem_Init blank_tree = Inr t \<and> mem_Insert (zmk P_SKS 100) t = Inr t'
    \<and> mem_Remove (zmk P_SKS 100) t' = Inr t'' \<and> mtree_elems t'' = {}"
proof -
  obtain t t' where t: "mem_Init blank_tree = Inr t" "mem_Insert (zmk P_SKS 100) t = Inr t'" "mtree_wf t'"
    "mtree_elems t' = {zmk P_SKS 100}" by (rule tree_with_hundred)
  have "zmk P_SKS 100 \<in> mtree_elems t'" using t(4) by simp
  from remove_refines_set[OF t(3) this] t show ?thesis by auto
qed

text \<open>
  The two insertions that the tree refuses: an element it has, with \<open>ErrDuplicate\<close>, and
  a sample point, with \<open>ErrSamplePointElement\<close>.
\<close>

lemma insert_errors:
  assumes "mtree_wf t"
  shows "(z \<in> mtree_elems t \<longrightarrow> mem_Insert z t = Inl (Err ErrDuplicate))
    \<and> (z \<in> set (mt_points t) \<longrightarrow> mem_Insert z t = Inl (Err ErrSamplePointElement))"
  using mem_Insert_duplicate[OF assms] mem_Insert_point[OF assms] by blast

lemma insert_errors_witness:
  "\<exists>t t'. mem_Init blank_tree = Inr t \<and> mem_Insert (zmk P_SKS 100) t = Inr t'
    \<and> mem_Insert (zmk P_SKS 100) t' = Inl (Err ErrDuplicate) \<and> mem_Insert (zmk P_SKS 1) t' = Inl (Err ErrSamplePointElement)"
proof -
  obtain t t' where t: "mem_Init blank_tree = Inr t" "mem_Insert (zmk P_SKS 100) t = Inr t'" "mtree_wf t'"
    "mtree_elems t' = {zmk P_SKS 100}" "mt_points t' = map (zmk P_SKS) [0, -1, 1, -2, 2, -3]" by (rule tree_with_hundred)
  have "zmk P_SKS 100 \<in> mtree_elems t'" "zmk P_SKS 1 \<in> set (mt_points t')" using t(4,5) by simp_all
  with insert_errors[OF t(3)] t show ?thesis by blast
qed

text \<open>
  Removing an element that is not in the tree panics: \<open>withRemoved\<close> does not find it in the
  leaf, or in the node that was just joined.
\<close>

lemma remove_absent_panics:
  assumes "mtree_wf t" "felem P_SKS z" "z \<notin> mtree_elems t"
  shows "\<exists>e. mem_Remove z t = Inl (Panic e)"
  using assms by (rule mem_Remove_panics)

lemma remove_absent_panics_witness:
  "\<exists>t e. mem_Init blank_tree = Inr t \<and> mem_Remove (zmk P_SKS 100) t = Inl (Panic e)"
proof -
  obtain t where t: "mem_Init blank_tree = Inr t" "mtree_wf t" "mtree_elems t = {}" by (rule initial_tree)
  have "felem P_SKS (zmk P_SKS 100)" "zmk P_SKS 100 \<notin> mtree_elems t" using t by simp_all
  from remove_absent_panics[OF t(2) this] t show ?thesis by blast
qed

text \<open>
  C3. What two peers compare first, the number of elements and the sample values at the root, depends
  only on the set of elements that a history of insertions and removals leaves: two trees, each
  initialised and run through any history in which every operation succeeds, agree on both
  when the same set of field elements is left, however their nodes were split and joined on the way. The
  number is that of the elements of the set.
\<close>

theorem summary_is_canonical:
  assumes "mem_Init s = Inr t" "rfold run_op ops t = Inr t'" "mem_Init s' = Inr u" "rfold run_op ops' u = Inr u'"
    and "\<forall>p \<in> set (ops @ ops'). felem P_SKS (op_elem p)" "fold op_set ops {} = fold op_set ops' {}"
  shows "n_svalues (mt_root t') = n_svalues (mt_root u') \<and> mem_Size (mt_root t') = mem_Size (mt_root u')
    \<and> mem_Size (mt_root t') = int (card (fold op_set ops {}))"
proof -
  have t: "mtree_wf t" "mtree_elems t = {}" and u: "mtree_wf u" "mtree_elems u = {}"
    using assms(1,3) mem_Init_ok by (metis sum.inject(2))+
  have t': "mtree_wf t'" "mtree_elems t' = fold op_set ops {}" "mt_points t' = mt_points t"
    using run_ops_set[OF assms(2) t(1)] t(2) assms(5) by auto
  have u': "mtree_wf u'" "mtree_elems u' = fold op_set ops {}" "mt_points u' = mt_points t"
    using run_ops_set[OF assms(4) u(1)] u(2) assms(5,6) mem_Init_points[OF assms(1,3)] by auto
  have "n_svalues (mt_root t') = n_svalues (mt_root u')"
    using node_summary_canonical(1)[OF mtree_wfD(3)[OF t'(1), unfolded t'(3)] mtree_wfD(3)[OF u'(1), unfolded u'(3)]] t'(2) u'(2)
    by (simp add: mtree_elems_def)
  then show ?thesis using mem_Size_card[OF t'(1)] mem_Size_card[OF u'(1)] t'(2) u'(2) by simp
qed

theorem summary_is_canonical_witness:
  "\<exists>t t' u'. mem_Init blank_tree = Inr t \<and> rfold run_op [InsertOp (zmk P_SKS 100), InsertOp (zmk P_SKS 200)] t = Inr t'
    \<and> rfold run_op [InsertOp (zmk P_SKS 200), InsertOp (zmk P_SKS 300), InsertOp (zmk P_SKS 100), RemoveOp (zmk P_SKS 300)] t = Inr u'
    \<and> n_svalues (mt_root t') = n_svalues (mt_root u') \<and> mem_Size (mt_root t') = 2 \<and> mem_Size (mt_root u') = 2"
proof -
  have d: "zmk P_SKS 100 \<noteq> zmk P_SKS 200" "zmk P_SKS 100 \<noteq> zmk P_SKS 300" "zmk P_SKS 200 \<noteq> zmk P_SKS 300"
    by (simp_all add: zmk_eq_iff P_SKS_def)
  have np: "zmk P_SKS x \<notin> set (map (zmk P_SKS) [0, -1, 1, -2, 2, -3])" if "x \<in> {100, 200, 300}" for x
    using that by (auto simp: zmk_eq_iff P_SKS_def)
  obtain t where t: "mem_Init blank_tree = Inr t" "mtree_wf t" "mtree_elems t = {}" "mt_cfg t = defaultPTreeConfig"
    "mt_points t = map (zmk P_SKS) [0, -1, 1, -2, 2, -3]" by (rule initial_tree)
  have f: "felem P_SKS (zmk P_SKS x)" for x using P_SKS_pos by simp
  have ins: "\<exists>v'. mem_Insert (zmk P_SKS x) v = Inr v' \<and> mtree_wf v' \<and> mtree_elems v' = insert (zmk P_SKS x) (mtree_elems v)
      \<and> mt_points v' = mt_points v"
    if "mtree_wf v" "mt_points v = mt_points t" "zmk P_SKS x \<notin> mtree_elems v" "x \<in> {100, 200, 300}" for v x
    using mem_Insert_new[OF that(1) f that(3)] np[OF that(4)] that(2) t(5) by auto
  obtain t1 where t1: "mem_Insert (zmk P_SKS 100) t = Inr t1" "mtree_wf t1" "mtree_elems t1 = {zmk P_SKS 100}" "mt_points t1 = mt_points t"
    using ins[of t 100] t by auto
  obtain t' where t': "mem_Insert (zmk P_SKS 200) t1 = Inr t'" using ins[of t1 200] t1 d by auto
  obtain u1 where u1: "mem_Insert (zmk P_SKS 200) t = Inr u1" "mtree_wf u1" "mtree_elems u1 = {zmk P_SKS 200}" "mt_points u1 = mt_points t"
    using ins[of t 200] t by auto
  obtain u2 where u2: "mem_Insert (zmk P_SKS 300) u1 = Inr u2" "mtree_wf u2" "mtree_elems u2 = {zmk P_SKS 300, zmk P_SKS 200}"
    "mt_points u2 = mt_points t" using ins[of u1 300] u1 d by auto
  obtain u3 where u3: "mem_Insert (zmk P_SKS 100) u2 = Inr u3" "mtree_wf u3"
    "mtree_elems u3 = {zmk P_SKS 100, zmk P_SKS 300, zmk P_SKS 200}" using ins[of u2 100] u2 d by auto
  obtain u' where u': "mem_Remove (zmk P_SKS 300) u3 = Inr u'" using mem_Remove_present[OF u3(2)] u3(3) by blast
  let ?o = "[InsertOp (zmk P_SKS 100), InsertOp (zmk P_SKS 200)]"
  let ?o' = "[InsertOp (zmk P_SKS 200), InsertOp (zmk P_SKS 300), InsertOp (zmk P_SKS 100), RemoveOp (zmk P_SKS 300)]"
  have r: "rfold run_op ?o t = Inr t'" "rfold run_op ?o' t = Inr u'" using t1(1) t' u1(1) u2(1) u3(1) u' by simp_all
  have s: "fold op_set ?o {} = fold op_set ?o' {}" "card (fold op_set ?o {}) = 2" using d by auto
  have "\<forall>p \<in> set (?o @ ?o'). felem P_SKS (op_elem p)" using f by simp
  from summary_is_canonical[OF t(1) r(1) t(1) r(2) this s(1)] have "n_svalues (mt_root t') = n_svalues (mt_root u')"
    "mem_Size (mt_root t') = 2" "mem_Size (mt_root u') = 2" unfolding s(2) by simp_all
  with t(1) r show ?thesis by blast
qed

text \<open>
  A node is found again under its own key: the bits that \<open>Key\<close> spells out for the path to a
  node lead \<open>Node\<close> back to it. Peers name subtrees to each other this way.
\<close>

lemma key_roundtrip:
  assumes "mtree_wf t" "node_at ks (mt_root t) = Some n"
  shows "\<exists>bs. mem_Key (mt_cfg t) ks = Inr bs \<and> mem_Node t bs = Inr n"
  using mem_Node_Key[OF assms] by metis

lemma key_roundtrip_witness:
  "\<exists>t bs. mem_Init blank_tree = Inr t \<and> mem_Key (mt_cfg t) [] = Inr bs \<and> mem_Node t bs = Inr (mt_root t)"
proof -
  obtain t where t: "mem_Init blank_tree = Inr t" "mtree_wf t" by (rule initial_tree)
  have "node_at [] (mt_root t) = Some (mt_root t)" by simp
  from key_roundtrip[OF t(2) this] t show ?thesis by blast
qed

text \<open>
  \<open>Find\<close> ends in a leaf, and that leaf holds the element exactly when the tree does.
\<close>

lemma find_decides_membership:
  assumes "mtree_wf t" "felem P_SKS z"
  shows "\<exists>n. mem_Find t z = Inr n \<and> mem_IsLeaf n \<and> (z \<in> set (n_elements n) \<longleftrightarrow> z \<in> mtree_elems t)"
  using mem_Find_ok[OF assms] by metis

lemma find_decides_membership_witness:
  "\<exists>t t' n. mem_Init blank_tree = Inr t \<and> mem_Insert (zmk P_SKS 100) t = Inr t' \<and> mem_Find t' (zmk P_SKS 100) = Inr n
    \<and> zmk P_SKS 100 \<in> set (n_elements n)"
proof -
  obtain t t' where t: "mem_Init blank_tree = Inr t" "mem_Insert (zmk P_SKS 100) t = Inr t'" "mtree_wf t'"
    "mtree_elems t' = {zmk P_SKS 100}" by (rule tree_with_hundred)
  have "felem P_SKS (zmk P_SKS 100)" by simp
  from find_decides_membership[OF t(3) this] t show ?thesis by auto
qed

section \<open>Messages\<close>

text \<open>
  C4. Reading what was written gives the message back and leaves the rest of the stream; an
  empty set loses its recorded modulus, nothing else changes.
\<close>

theorem message_roundtrip:
  assumes "msg_ok m"
  shows "ReadMsg (WriteMsgDirect m @ rest) = Inr (msg_norm m, rest)"
  using assms by (rule ReadMsg_WriteMsgDirect)

theorem message_roundtrip_witness:
  "ReadMsg (WriteMsgDirect (Error ''no'') @ [7]) = Inr (Error ''no'', [7])"
  using message_roundtrip[of "Error ''no''" "[7]"]
  by (simp add: msg_ok_def str_ok_def len_ok_def maxReadLen_def WriteString_def WriteInt_def)

text \<open>
  C5. Whatever bytes arrive, \<open>ReadMsg\<close> neither panics nor runs on: it returns an error, or
  consumes a prefix of the input and returns a message whose prefix is a well-formed bitstring,
  whose elements are reduced field elements and whose lengths are within the read limit.
\<close>

theorem reading_is_safe:
  "(\<exists>e. ReadMsg r = Inl (Err e)) \<or> (\<exists>m used rest. ReadMsg r = Inr (m, rest) \<and> r = used @ rest \<and> msg_wf m)"
  by (rule robust_ReadMsg[unfolded robust_def, rule_format])

section \<open>Reconciliation\<close>

text \<open>
  C6. A reconciliation that returns gives two disjoint sets of field elements: the roots of a
  numerator and of a denominator that split into linear factors and whose ratio reproduces the
  last sample.
\<close>

theorem reconcile_sound:
  assumes "list_all (felem P_SKS) vs" "list_all (felem P_SKS) points" "length vs = length points"
    "2 \<le> length vs" "3 * int (length vs) < P_SKS" "Reconcile fuel rng vs points dd = Inr (S, T)"
  shows "zset_in P_SKS S \<and> zset_in P_SKS T \<and> zset_vals S \<inter> zset_vals T = {} \<and>
    (\<exists>f. coprime_fn P_SKS f \<and> splits P_SKS (rf_Num f) \<and> splits P_SKS (rf_Denom f)
      \<and> zset_vals S = roots P_SKS (rf_Num f) \<and> zset_vals T = roots P_SKS (rf_Denom f)
      \<and> zmk P_SKS (pev P_SKS (rf_Num f) (zp_i (last points)) * finv P_SKS (pev P_SKS (rf_Denom f) (zp_i (last points)))) = last vs)"
  by (intro conjI Reconcile_sound[OF assms])

theorem reconcile_sound_witness:
  "\<exists>S T. Reconcile 9 (\<lambda>_. []) [zmk P_SKS (- 100), zmk P_SKS (- 101)] [zmk P_SKS 0, zmk P_SKS (- 1)] 1 = Inr (S, T)
    \<and> zset_Items S = [zmk P_SKS 100] \<and> zset_Items T = [] \<and> zset_vals S \<inter> zset_vals T = {}"
proof -
  let ?S = "\<lparr>zs_s = [(''100'', 100)], zs_p = Some P_SKS\<rparr>" and ?T = zset_empty
  have r: "Reconcile 9 (\<lambda>_. []) [zmk P_SKS (- 100), zmk P_SKS (- 101)] [zmk P_SKS 0, zmk P_SKS (- 1)] 1 = Inr (?S, ?T)"
    by code_simp
  have "zset_Items ?S = [zmk P_SKS 100]" "zset_Items ?T = []" by code_simp+
  with r reconcile_sound[OF _ _ _ _ _ r] show ?thesis by (simp add: P_SKS_def)
qed

text \<open>
  C7. On aligned samples \<open>Reconcile\<close> never panics: it returns two sets or an error, or its
  factor search goes on.
\<close>

theorem reconcile_never_panics:
  assumes "list_all (felem P_SKS) vs" "list_all (felem P_SKS) points" "length vs = length points"
    "2 \<le> length vs" "3 * int (length vs) < P_SKS"
  shows "Reconcile fuel rng vs points dd \<noteq> Inl (Panic e)"
  using assms by (rule Reconcile_outcome)

theorem reconcile_never_panics_witness:
  "Reconcile 9 (\<lambda>_. []) [zmk P_SKS 3, zmk P_SKS 4] [zmk P_SKS 0, zmk P_SKS 1] 0 \<noteq> Inl (Panic PIndex)"
  by (rule reconcile_never_panics) (simp_all add: P_SKS_def)

text \<open>
  \<open>Interpolate\<close> on samples of a common number, with a difference of degrees it can
  represent, always returns a fraction in lowest terms of two monic polynomials.
\<close>

lemma interpolate_total:
  assumes "list_all (felem P_SKS) vs" "vs \<noteq> []" "list_all (felem P_SKS) points" "length vs \<le> length points"
    "int_abs degDiff \<le> int (length vs)" "3 * int (length vs) < P_SKS"
  shows "\<exists>f. Interpolate vs points degDiff = Inr f \<and> coprime_fn P_SKS f"
  using Interpolate_ok[OF P_SKS_prime assms] by metis

lemma interpolate_total_witness:
  "\<exists>f. Interpolate [zmk P_SKS 3] [zmk P_SKS 0] 1 = Inr f \<and> coprime_fn P_SKS f"
  by (rule interpolate_total) (simp_all add: P_SKS_def int_abs_def)

text \<open>
  C8. A factor search that returns gives exactly the roots of the polynomial, and the
  polynomial is a product of linear factors.
\<close>

theorem factor_finds_roots:
  assumes "poly_wf P_SKS x" "monic x" "int (po_degree x) < P_SKS" "poly_Factor n rng c x = Inr (zs, c')"
  shows "zset_in P_SKS zs \<and> zset_vals zs = roots P_SKS x \<and> splits P_SKS x"
  using poly_Factor_ok[OF P_SKS_prime _ assms] by (simp add: P_SKS_def)

theorem factor_finds_roots_witness:
  "\<exists>zs c. poly_Factor 1 (\<lambda>_. []) 0 (lin P_SKS 2) = Inr (zs, c) \<and> zset_vals zs = {2} \<and> roots P_SKS (lin P_SKS 2) = {2}"
proof -
  let ?zs = "\<lparr>zs_s = [(''2'', 2)], zs_p = Some P_SKS\<rparr>"
  have r: "poly_Factor 1 (\<lambda>_. []) 0 (lin P_SKS 2) = Inr (?zs, 0)" by code_simp
  have "monic (lin P_SKS 2)" "int (po_degree (lin P_SKS 2)) < P_SKS" by code_simp+
  with factor_finds_roots[OF _ _ _ r] lin_ok(1)[of P_SKS 2] r show ?thesis by (auto simp: zset_vals_def)
qed

text \<open>
  C9. The test before the factor search accepts \<open>z^2 + 1\<close>, which has no root in the field, and
  the search on it goes on for ever, whatever the random bytes.
\<close>

theorem factor_search_diverges:
  "factorCheck sum_sq_poly = Inr True \<and> roots P_SKS sum_sq_poly = {} \<and> poly_Factor n rng c sum_sq_poly = Inl Diverge"
  using factorCheck_sum_sq poly_Factor_sum_sq sum_sq_no_root by (auto simp: roots_def pev_sum_sq)

section \<open>Algebra\<close>

text \<open>C10. The modulus of the SKS protocol is prime, so Z(p) is a field.\<close>

theorem P_SKS_is_prime: "field_prime P_SKS"
  by (rule P_SKS_prime)

text \<open>
  Division of polynomials returns: the fuel of the recursion suffices for every divisor
  but zero, and quotient and remainder satisfy the division identity.
\<close>

lemma divmod_total:
  assumes "field_prime p" "poly_wf p x" "poly_wf p y" "\<not> pzero y"
  shows "\<exists>q r. PolyDivmod (divmod_fuel x) x y = Inr (q, r) \<and> poly_wf p q \<and> poly_wf p r
    \<and> (pzero r \<or> po_degree r < po_degree y) \<and> (\<forall>a. pev p x a = (pev p q a * pev p y a + pev p r a) mod p)"
  using PolyDivmod_total[OF assms] unfolding divmod_spec_def by metis

lemma divmod_total_witness:
  "\<exists>q r. PolyDivmod (divmod_fuel sum_sq_poly) sum_sq_poly (lin P_SKS 2) = Inr (q, r) \<and> poly_wf P_SKS r"
  using divmod_total[OF P_SKS_prime sum_sq_wf(1), of "lin P_SKS 2"] lin_ok[of P_SKS 2] by auto

text \<open>
  Elimination keeps every cell a field element and the matrix in shape, and neither fails
  nor panics on a matrix with at least as many columns as rows.
\<close>

lemma reduce_total:
  assumes "mx_wf p c r m" "r \<le> c"
  shows "\<exists>m'. mx_Reduce m = Inr m' \<and> mx_wf p c r m'"
  using assms by (rule mx_Reduce_wf)

lemma reduce_total_witness:
  "\<exists>m'. mx_Reduce (NewMatrix 2 1 (zmk P_SKS 3)) = Inr m' \<and> mx_wf P_SKS 2 1 m'"
  by (rule reduce_total) (simp_all add: mx_wf_def NewMatrix_def list_all_iff)

text \<open>
  A row whose pivot has the low 64 bits of 1 is not scaled: \<open>Reduce\<close> leaves the pivot
  \<open>2^64 + 1\<close> as it is, so the "reduced" system does not have a unit diagonal.
\<close>

lemma reduce_skips_scaling:
  "mx_Reduce \<lparr>mx_columns = 2, mx_rows = 1, mx_cells = [zmk P_SKS (2 ^ 64 + 1), zmk P_SKS 5]\<rparr>
    = Inr \<lparr>mx_columns = 2, mx_rows = 1, mx_cells = [zmk P_SKS (2 ^ 64 + 1), zmk P_SKS 5]\<rparr>"
  by (simp add: mx_Reduce_def mx_processRowForward_def mx_eliminate_def mx_Get_def zp_IsZero_def zp_Int64_def P_SKS_def)

section \<open>The recon peer\<close>

text \<open>
  C11. In every reachable state of a peer at most one goroutine of \<open>mutate\<close> is active. While it has
  the lock of the queues, and so writes the tree, nobody holds the read lock and nobody gets it; a
  peer that turns readers away has such a goroutine on its way or is dying. The flush of \<open>Flush\<close> and
  \<open>Stop\<close> is not covered: it can write the tree while there is a reader.
\<close>

theorem mutator_excludes_readers:
  assumes "(peer_step ins rem)\<^sup>*\<^sup>* (NewPeer t, 0) (p, h)"
  shows "pe_waiting p + pe_flushing p + pe_flushed p \<le> 1 \<and> pe_readers p = int h
    \<and> (pe_lock p = Some ByMutate \<longrightarrow> h = 0 \<and> \<not> fst (readAcquire p))
    \<and> (0 < pe_flushing p \<longrightarrow> h = 0 \<and> \<not> fst (readAcquire p))
    \<and> (\<not> fst (readAcquire p) \<longrightarrow> 0 < pe_waiting p + pe_flushing p + pe_flushed p \<or> pe_dying p)
    \<and> (\<exists>p'. (peer_step ins rem)\<^sup>*\<^sup>* (NewPeer t, 0) (p', 1) \<and> pe_lock p' = Some ByCaller)"
  using peer_ok_reachable[OF assms] caller_flushes_under_reader[of ins rem t] by (auto simp: peer_ok_def readAcquire_def Let_def)

theorem mutator_excludes_readers_witness:
  "\<exists>p h. (peer_step mem_Insert mem_Remove)\<^sup>*\<^sup>* (NewPeer blank_tree, 0) (p, h) \<and> pe_waiting p = 1 \<and> h = 1
    \<and> pe_waiting p + pe_flushing p + pe_flushed p \<le> 1"
proof -
  let ?p = "snd (readAcquire (NewPeer blank_tree))"
  have "peer_step mem_Insert mem_Remove (NewPeer blank_tree, 0) (?p, 0 + 1)"
    by (rule step_acquire) (simp add: readAcquire_def NewPeer_def Let_def)
  then have r: "(peer_step mem_Insert mem_Remove)\<^sup>*\<^sup>* (NewPeer blank_tree, 0) (?p, 1)" by simp
  from mutator_excludes_readers[OF r] r show ?thesis
    by (intro exI[of _ ?p] exI[of _ 1]) (simp add: readAcquire_def NewPeer_def Let_def mutate_def)
qed

text \<open>
  C12. A peer that is not dying becomes available again: from every reachable state in which
  the pending batch can be applied, the holders can release and the mutator can run until a
  reader is admitted.
\<close>

theorem peer_becomes_available:
  assumes "(peer_step ins rem)\<^sup>*\<^sup>* (NewPeer t, 0) (p, h)" "\<not> pe_dying p" "flush ins rem p = Inr q"
  shows "\<exists>p' h'. (peer_step ins rem)\<^sup>*\<^sup>* (p, h) (p', h') \<and> fst (readAcquire p')"
  by (rule becomes_available[OF peer_ok_reachable[OF assms(1)] assms(2,3)])

theorem peer_becomes_available_witness:
  "\<exists>p' h'. (peer_step mem_Insert mem_Remove)\<^sup>*\<^sup>* (NewPeer blank_tree, 0) (p', h') \<and> fst (readAcquire p')"
proof -
  have "flush mem_Insert mem_Remove (NewPeer blank_tree) = Inr (NewPeer blank_tree)" "\<not> pe_dying (NewPeer blank_tree)"
    by (simp_all add: flush_def NewPeer_def)
  from peer_becomes_available[OF rtranclp.rtrancl_refl this(2,1)] show ?thesis .
qed

text \<open>
  C13. A flush applies the queued batch: when everything queued for removal is there or queued
  for insertion, the elements of the tree become the old ones with the insertions and without
  the removals, and refused insertions are skipped.
\<close>

theorem flush_applies_batch:
  assumes "mtree_wf (pe_tree p)" "list_all (felem P_SKS) (pe_insertElements p)" "distinct (pe_removeElements p)"
    "set (pe_removeElements p) \<subseteq> mtree_elems (pe_tree p) \<union> (set (pe_insertElements p) - set (mt_points (pe_tree p)))"
  shows "\<exists>p'. flush mem_Insert mem_Remove p = Inr p' \<and> mtree_wf (pe_tree p')
    \<and> mtree_elems (pe_tree p') = mtree_elems (pe_tree p) \<union> (set (pe_insertElements p) - set (mt_points (pe_tree p)))
        - set (pe_removeElements p)"
  using mt.flush_batch[OF assms] by blast

theorem flush_applies_batch_witness:
  "\<exists>t p'. mem_Init blank_tree = Inr t \<and> flush mem_Insert mem_Remove (peer_Insert [zmk P_SKS 100, zmk P_SKS 1] (NewPeer t)) = Inr p'
    \<and> mtree_elems (pe_tree p') = {zmk P_SKS 100}"
proof -
  obtain t where t: "mem_Init blank_tree = Inr t" "mtree_wf t" "mtree_elems t = {}" "mt_cfg t = defaultPTreeConfig"
    "mt_points t = map (zmk P_SKS) [0, -1, 1, -2, 2, -3]" by (rule initial_tree)
  have "set [zmk P_SKS 100, zmk P_SKS 1] - set (mt_points t) = {zmk P_SKS 100}" using t(5) hundred_not_a_point by auto
  with flush_applies_batch[of "peer_Insert [zmk P_SKS 100, zmk P_SKS 1] (NewPeer t)"] t(1-3) show ?thesis
    by (auto simp: peer_Insert_def NewPeer_def)
qed

text \<open>
  The two queues of a peer do not keep the order of the calls: an element that is removed
  and then inserted again is gone after the flush.
\<close>

lemma remove_then_insert_is_lost:
  assumes "mtree_wf t" "z \<in> mtree_elems t"
  shows "\<exists>p'. flush mem_Insert mem_Remove (peer_Insert [z] (peer_Remove [z] (NewPeer t))) = Inr p' \<and> z \<notin> mtree_elems (pe_tree p')"
  using mt.flush_batch[of "peer_Insert [z] (peer_Remove [z] (NewPeer t))"] assms mtree_wfD(7)[OF assms]
  by (auto simp: peer_Insert_def peer_Remove_def NewPeer_def)

lemma remove_then_insert_is_lost_witness:
  "\<exists>t0 t p'. mem_Init blank_tree = Inr t0 \<and> mem_Insert (zmk P_SKS 100) t0 = Inr t
    \<and> flush mem_Insert mem_Remove (peer_Insert [zmk P_SKS 100] (peer_Remove [zmk P_SKS 100] (NewPeer t))) = Inr p'
    \<and> zmk P_SKS 100 \<notin> mtree_elems (pe_tree p')"
proof -
  obtain t0 t where t: "mem_Init blank_tree = Inr t0" "mem_Insert (zmk P_SKS 100) t0 = Inr t" "mtree_wf t"
    "mtree_elems t = {zmk P_SKS 100}" by (rule tree_with_hundred)
  then have "zmk P_SKS 100 \<in> mtree_elems t" by simp
  from remove_then_insert_is_lost[OF t(3) this] t(1,2) show ?thesis by blast
qed

text \<open>
  C14. Two peers agree on the handshake: each, reading what the other one writes, accepts the
  other's configuration exactly when neither is busy and version, bit quantum, mbar and filters
  are the same.
\<close>

theorem handshake_agrees:
  assumes "msg_ok (Config c)" "msg_ok (Config d)" "str_ok f" "str_ok g"
  shows "\<exists>outc outd resc resd. handleConfig (Inr c) f outd = (resc, outc) \<and> handleConfig (Inr d) g outc = (resd, outd)
    \<and> (if f = '''' \<and> g = '''' \<and> compatible c d then resc = Inr (d, []) \<and> resd = Inr (c, [])
       else (\<exists>e. resc = Inl (Err e)) \<and> (\<exists>e. resd = Inl (Err e)))"
  using assms by (rule handshake_run)

theorem handshake_agrees_witness:
  "\<exists>outc outd resc resd. handleConfig (Inr (empty_config\<lparr>cf_MBar := 5\<rparr>)) '''' outd = (resc, outc)
    \<and> handleConfig (Inr empty_config) '''' outc = (resd, outd) \<and> (\<exists>e. resc = Inl (Err e)) \<and> (\<exists>e. resd = Inl (Err e))"
proof -
  have m: "msg_ok (Config empty_config)" "msg_ok (Config (empty_config\<lparr>cf_MBar := 5\<rparr>))" "str_ok ''''"
    by (simp_all add: msg_ok_def config_ok_def str_ok_def len_ok_def u32_def custom_ok_def empty_config_def maxReadLen_def
        config_marshal_def WriteString_def WriteInt_def)
  have "\<not> compatible (empty_config\<lparr>cf_MBar := 5\<rparr>) empty_config" by (simp add: compatible_def empty_config_def)
  with handshake_agrees[OF m(2,1,3,3)] show ?thesis by simp
qed

text \<open>
  C15. The server side of a reconciliation over a well-formed tree is safe: for every sequence
  of well-formed replies and time-outs the loop ends without a panic, and what it hands on to
  recovery are field elements.
\<close>

theorem server_reconciliation_is_safe:
  assumes "mtree_wf t" "\<forall>m. Some m \<in> set replies \<longrightarrow> msg_wf m"
  shows "\<exists>rcvr out e. interactWithClient pc (mt_cfg t) mo (mt_root t) bs replies = Inr (rcvr, out, e)
    \<and> zset_in P_SKS rcvr \<and> (\<forall>x. e = Some x \<longrightarrow> (\<exists>y. x = Err y))"
proof -
  have "0 < BitQuantum (mt_cfg t)" using mtree_wfD(1)[OF assms(1)] by (simp add: cfg_ok_def)
  from interactWithClient_safe[OF this mtree_wfD(3)[OF assms(1)] assms(2)] show ?thesis .
qed

theorem server_reconciliation_is_safe_witness:
  "\<exists>t rcvr out e. mem_Init blank_tree = Inr t
    \<and> interactWithClient defaultPTreeConfig (mt_cfg t) 100 (mt_root t) (NewBitstring 0) [None, Some SyncFail] = Inr (rcvr, out, e) \<and> zset_in P_SKS rcvr"
proof -
  obtain t where t: "mem_Init blank_tree = Inr t" "mtree_wf t" by (rule initial_tree)
  have "\<forall>m. Some m \<in> set [None, Some SyncFail] \<longrightarrow> msg_wf m" by simp
  from server_reconciliation_is_safe[OF t(2) this] t(1) show ?thesis by blast
qed

text \<open>
  C16. A full exchange at the root computes both differences: the client recovers what only the
  server's tree has, and answers with what only its own tree has.
\<close>

theorem full_exchange_computes_differences:
  assumes "mtree_wf s" "mtree_wf t"
  shows "\<exists>els needs rneeds. NewZSetSlice (mem_Elements (mt_root s)) = Inr els
    \<and> handleReconRqstFull t (NewBitstring 0) els = Inr (progress needs [Elements rneeds])
    \<and> zset_vals needs = zp_i ` (mtree_elems s - mtree_elems t)
    \<and> zset_vals rneeds = zp_i ` (mtree_elems t - mtree_elems s)"
  using assms by (rule full_exchange)

theorem full_exchange_computes_differences_witness:
  "\<exists>s t els needs rneeds. mem_Init blank_tree = Inr t \<and> mem_Insert (zmk P_SKS 100) t = Inr s
    \<and> NewZSetSlice (mem_Elements (mt_root s)) = Inr els
    \<and> handleReconRqstFull t (NewBitstring 0) els = Inr (progress needs [Elements rneeds]) \<and> zset_vals needs = {100} \<and> zset_vals rneeds = {}"
proof -
  obtain t0 s where s: "mem_Init blank_tree = Inr t0" "mem_Insert (zmk P_SKS 100) t0 = Inr s" "mtree_wf s" "mtree_elems s = {zmk P_SKS 100}"
    by (rule tree_with_hundred)
  obtain t where t: "mem_Init blank_tree = Inr t" "mtree_wf t" "mtree_elems t = {}" by (rule initial_tree)
  have "t0 = t" using s(1) t(1) by simp
  with full_exchange_computes_differences[OF s(3) t(2)] s t show ?thesis by (auto simp: P_SKS_def)
qed

text \<open>
  A request with as many samples as there are sample points never makes the client panic:
  it answers, or its factor search goes on.
\<close>

lemma poly_request_is_safe:
  assumes "mtree_wf t" "bs_readable (mt_cfg t) pfx" "list_all (felem P_SKS) rs" "length rs = NumSamples (mt_cfg t)"
    "1 \<le> MBar (mt_cfg t)" "3 * int (length rs) < P_SKS"
  shows "(\<exists>step. handleReconRqstPoly pc fuel rng t pfx sz rs = Inr step) \<or> handleReconRqstPoly pc fuel rng t pfx sz rs = Inl Diverge"
  using mem_Node_ok[OF assms(1,2)] poly_reply_safe[OF assms(1) _ _ assms(3-6)] by metis

lemma poly_request_is_safe_witness:
  "\<exists>t. mem_Init blank_tree = Inr t \<and> (\<forall>e. handleReconRqstPoly defaultPTreeConfig 9 (\<lambda>_. []) t (NewBitstring 0) 1 (replicate 6 (zmk P_SKS 3)) \<noteq> Inl (Panic e))"
proof -
  obtain t where t: "mem_Init blank_tree = Inr t" "mtree_wf t" "mt_cfg t = defaultPTreeConfig" by (rule initial_tree)
  have "bs_readable (mt_cfg t) (NewBitstring 0)" "list_all (felem P_SKS) (replicate 6 (zmk P_SKS 3))"
    "length (replicate 6 (zmk P_SKS 3)) = NumSamples (mt_cfg t)" "1 \<le> MBar (mt_cfg t)" "3 * int (length (replicate 6 (zmk P_SKS 3))) < P_SKS"
    using t(3) by (simp_all add: NewBitstring_readable NumSamples_def defaultPTreeConfig_def P_SKS_def list_all_iff)
  from poly_request_is_safe[OF t(2) this, of defaultPTreeConfig 9 "\<lambda>_. []" 1] t(1) show ?thesis by auto
qed

text \<open>
  A request without samples, which is a well-formed message, makes the client panic.
\<close>

lemma empty_samples_panic:
  "msg_wf (ReconRqstPoly (NewBitstring 0) 0 []) \<and> client_progress pc fuel rng t (ReconRqstPoly (NewBitstring 0) 0 []) = Inl (Panic PIndex)"
  by (simp add: NewBitstring_wf arr_ok_def maxReadLen_def len_ok_def client_progress_def poly_empty_panics[OF mem_Node_root])

section \<open>The tree on disk\<close>

text \<open>A disk tree over an empty database, with its root.\<close>

definition sample_ldb :: ldb where
  "sample_ldb = \<lparr>ld_cfg = defaultPTreeConfig, ld_points = []\<rparr>"

lemma sample_db:
  obtains m n where "ensureRoot sample_ldb Map.empty = (Inr (), m)" "m = [mustEncodeBitstring (NewBitstring 0) \<mapsto> DbNode n]"
    "stored m (NewBitstring 0) = Some n"
proof -
  have "stored Map.empty (NewBitstring 0) = None" by (simp add: stored_def)
  from ensureRoot_ok[OF this, of sample_ldb] obtain n where
    "ensureRoot sample_ldb Map.empty = (Inr (), [mustEncodeBitstring (NewBitstring 0) \<mapsto> DbNode n])" by auto
  then show thesis by (rule that) (simp_all add: stored_def)
qed

lemma sample_db_other: "stored [mustEncodeBitstring (NewBitstring 0) \<mapsto> DbNode n] (NewBitstring 1) = None"
  by (simp add: stored_def mustEncodeBitstring_def WriteBitstring_def WriteInt_def bs_BitLen_def bs_Bytes_def NewBitstring_buf
      byte_count_def)

text \<open>
  C17. On disk, looking up a key of whole digits finds the node of its longest stored prefix
  and changes nothing.
\<close>

theorem disk_lookup_longest_prefix:
  assumes "bs_wf bs" "bs_BitLen bs = k * BitQuantum (ld_cfg t)" "0 < BitQuantum (ld_cfg t)"
    "stored m (key_prefix (BitQuantum (ld_cfg t)) bs 0) \<noteq> None"
  shows "\<exists>j n. j \<le> k \<and> ldb_Node t bs m = (Inr n, m) \<and> stored m (key_prefix (BitQuantum (ld_cfg t)) bs j) = Some n
    \<and> (\<forall>i. j < i \<and> i \<le> k \<longrightarrow> stored m (key_prefix (BitQuantum (ld_cfg t)) bs i) = None)"
  using assms by (rule ldb_Node_prefix)

theorem disk_lookup_longest_prefix_witness:
  "\<exists>m n. ensureRoot sample_ldb Map.empty = (Inr (), m) \<and> ldb_Node sample_ldb (NewBitstring 0) m = (Inr n, m)"
proof -
  obtain m n where m: "ensureRoot sample_ldb Map.empty = (Inr (), m)" "stored m (NewBitstring 0) = Some n" by (rule sample_db)
  have p: "key_prefix 2 (NewBitstring 0) 0 = NewBitstring 0" by (rule key_prefix_self) (simp_all add: NewBitstring_wf bs_BitLen_def)
  have "stored m (key_prefix (BitQuantum (ld_cfg sample_ldb)) (NewBitstring 0) 0) \<noteq> None"
    using m(2) p by (simp add: sample_ldb_def defaultPTreeConfig_def)
  from disk_lookup_longest_prefix[of "NewBitstring 0" 0 sample_ldb, OF NewBitstring_wf _ _ this] m(1) show ?thesis
    by (auto simp: bs_BitLen_def sample_ldb_def defaultPTreeConfig_def)
qed

text \<open>
  On disk, looking up a key of a single bit panics when it is not stored, since its length
  goes below zero; a request names such a key by its prefix.
\<close>

lemma disk_short_key_panics:
  assumes "0 < bs_BitLen bs" "bs_BitLen bs < BitQuantum (ld_cfg t)" "stored m bs = None"
  shows "ldb_Node t bs m = (Inl (Panic (PMsg ''makeslice: len out of range'')), m)"
  using assms by (rule ldb_Node_short_panics)

lemma disk_short_key_panics_witness:
  "\<exists>m. ensureRoot sample_ldb Map.empty = (Inr (), m)
    \<and> ldb_Node sample_ldb (NewBitstring 1) m = (Inl (Panic (PMsg ''makeslice: len out of range'')), m)"
proof -
  obtain m n where m: "ensureRoot sample_ldb Map.empty = (Inr (), m)" "m = [mustEncodeBitstring (NewBitstring 0) \<mapsto> DbNode n]"
    by (rule sample_db)
  have "stored m (NewBitstring 1) = None" using m(2) sample_db_other[of n] by simp
  from disk_short_key_panics[OF _ _ this, of sample_ldb] m(1) show ?thesis
    by (auto simp: bs_BitLen_def sample_ldb_def defaultPTreeConfig_def)
qed

end
